(* ===== verification/Go_Prelude.thy ===== *)
theory Go_Prelude
  imports Main "HOL-Library.AList" "HOL-Library.Char_ord" "HOL-Library.List_Lexorder"
    "HOL-Library.Product_Lexorder" "HOL-Library.Word"
begin

text \<open>
  The Go vocabulary the component theories share.

  \<^item> A Go map that is iterated or measured is an association list with distinct keys. The order
    of the list stands for the iteration order the runtime happens to choose, so a lemma that
    holds for every list holds for every iteration order. \<open>map_of\<close> is the lookup,
    \<open>mget\<close> the lookup that yields the zero value of a missing key, \<open>AList.update\<close> the store,
    \<open>AList.delete\<close> the \<open>delete\<close> statement and \<open>length\<close> the \<open>len\<close>.
  \<^item> \<open>int\<close> and \<open>int64\<close> values are mathematical integers; \<open>wrap64\<close> writes out the two's
    complement wrap-around where an operation may leave the range. \<open>uint64\<close> is \<open>64 word\<close>.
  \<^item> \<open>time.Time\<close> is the number of nanoseconds since Go's zero time, so \<open>IsZero\<close> is
    \<open>t = 0\<close>; \<open>time.Duration\<close> is an \<open>int64\<close> and \<open>Sub\<close> saturates as in the standard library.
  \<^item> The selection loop \<open>best := xs[0]; for x in xs[1:] { if less(x, best) { best = x } }\<close>
    is \<open>scan\<close>; the locale \<open>keyed_less\<close> states what the loop returns for a comparison that is
    the order of a key.
\<close>

named_theorems gomap "lookup, store and delete laws of Go maps"
named_theorems go_time "laws of time and duration arithmetic"

subsection \<open>Maps\<close>

type_synonym ('k, 'v) gomap = "('k \<times> 'v) list"

definition gomap_ok :: "('k, 'v) gomap \<Rightarrow> bool" where
  "gomap_ok m \<longleftrightarrow> distinct (map fst m)"

definition mget :: "'v \<Rightarrow> ('k, 'v) gomap \<Rightarrow> 'k \<Rightarrow> 'v" where
  "mget zero m k = (case map_of m k of None \<Rightarrow> zero | Some v \<Rightarrow> v)"

definition mkeep :: "('k \<Rightarrow> bool) \<Rightarrow> ('k, 'v) gomap \<Rightarrow> ('k, 'v) gomap" where
  "mkeep P m = filter (\<lambda>e. P (fst e)) m"

definition mhas :: "('k, 'v) gomap \<Rightarrow> 'k \<Rightarrow> bool" where
  "mhas m k \<longleftrightarrow> map_of m k \<noteq> None"

definition mall :: "('k \<Rightarrow> 'v \<Rightarrow> bool) \<Rightarrow> ('k, 'v) gomap \<Rightarrow> bool" where
  \<comment> \<open>every entry satisfies a predicate\<close>
  "mall P m \<longleftrightarrow> (\<forall>k v. map_of m k = Some v \<longrightarrow> P k v)"

subsection \<open>Selection loop\<close>

definition scan :: "('a \<Rightarrow> 'a \<Rightarrow> bool) \<Rightarrow> 'a \<Rightarrow> 'a list \<Rightarrow> 'a" where
  "scan lt x xs = foldl (\<lambda>best c. if lt c best then c else best) x xs"

subsection \<open>Integers\<close>

definition max_int64 :: int where
  "max_int64 = 9223372036854775807"

definition min_int64 :: int where
  "min_int64 = - 9223372036854775808"

definition in_int64 :: "int \<Rightarrow> bool" where
  "in_int64 i \<longleftrightarrow> min_int64 \<le> i \<and> i \<le> max_int64"

definition wrap64 :: "int \<Rightarrow> int" where
  "wrap64 i = (i + 9223372036854775808) mod 18446744073709551616 - 9223372036854775808"

definition quot64 :: "int \<Rightarrow> int \<Rightarrow> int" where
  \<comment> \<open>Go's integer division truncates towards zero\<close>
  "quot64 a b = wrap64 (sgn a * sgn b * (\<bar>a\<bar> div \<bar>b\<bar>))"

subsection \<open>Binary search\<close>

function sort_search :: "(nat \<Rightarrow> bool) \<Rightarrow> nat \<Rightarrow> nat \<Rightarrow> nat" where
  \<comment> \<open>the loop of \<open>sort.Search\<close> on the half-open interval \<open>[i, j)\<close>\<close>
  "sort_search f i j =
     (if i < j then let h = (i + j) div 2 in if f h then sort_search f i h else sort_search f (h + 1) j
      else i)"
  by pat_completeness auto
termination
  by (relation "measure (\<lambda>(f, i, j). j - i)") auto

declare sort_search.simps [simp del]

subsection \<open>Loops that return at the first error\<close>

fun all_or_first :: "('a \<Rightarrow> 'e + 'b) \<Rightarrow> 'a list \<Rightarrow> 'e + 'b list" where
  "all_or_first f [] = Inr []"
| "all_or_first f (x # xs) =
     (case f x of Inl e \<Rightarrow> Inl e
      | Inr y \<Rightarrow> (case all_or_first f xs of Inl e \<Rightarrow> Inl e | Inr ys \<Rightarrow> Inr (y # ys)))"

subsection \<open>Time\<close>

type_synonym time = int
type_synonym duration = int

definition zero_time :: time where
  "zero_time = 0"

definition IsZero :: "time \<Rightarrow> bool" where
  "IsZero t \<longleftrightarrow> t = zero_time"

definition time_sub :: "time \<Rightarrow> time \<Rightarrow> duration" where
  "time_sub a b = (if a - b > max_int64 then max_int64
                   else if a - b < min_int64 then min_int64 else a - b)"

definition time_add :: "time \<Rightarrow> duration \<Rightarrow> time" where
  "time_add t d = t + d"

subsection \<open>Strings\<close>

definition utf8_spaces :: "nat list list" where
  \<comment> \<open>the UTF-8 encodings of the runes with the White_Space property\<close>
  "utf8_spaces =
     [[9], [10], [11], [12], [13], [32], [194, 133], [194, 160], [225, 154, 128],
      [226, 128, 128], [226, 128, 129], [226, 128, 130], [226, 128, 131], [226, 128, 132],
      [226, 128, 133], [226, 128, 134], [226, 128, 135], [226, 128, 136], [226, 128, 137],
      [226, 128, 138], [226, 128, 168], [226, 128, 169], [226, 128, 175], [226, 129, 159],
      [227, 128, 128]]"

definition starts_with :: "'a list \<Rightarrow> 'a list \<Rightarrow> bool" where
  "starts_with p s \<longleftrightarrow> length p \<le> length s \<and> take (length p) s = p"

definition space_prefix :: "nat list list \<Rightarrow> string \<Rightarrow> nat" where
  "space_prefix sp s =
     (case find (\<lambda>p. starts_with p (map of_char s)) sp of None \<Rightarrow> 0 | Some p \<Rightarrow> length p)"

function trim_front :: "nat list list \<Rightarrow> string \<Rightarrow> string" where
  "trim_front sp s = (let n = space_prefix sp s in
      if n = 0 \<or> s = [] then s else trim_front sp (drop n s))"
  by pat_completeness auto
termination
  by (relation "measure (\<lambda>(sp, s). length s)") auto

declare trim_front.simps [simp del]

fun TrimRightSlash :: "string \<Rightarrow> string" where
  "TrimRightSlash s = rev (dropWhile (\<lambda>c. c = CHR ''/'') (rev s))"

definition TrimSpace :: "string \<Rightarrow> string" where
  "TrimSpace s =
     rev (trim_front (map rev utf8_spaces) (rev (trim_front utf8_spaces s)))"

subsection \<open>Big-endian bytes\<close>

definition be_word :: "8 word list \<Rightarrow> 64 word" where
  \<comment> \<open>\<open>binary.BigEndian.Uint64\<close> and \<open>Uint32\<close> of 8 and 4 bytes\<close>
  "be_word bs = foldl (\<lambda>acc b. acc * 256 + ucast b) 0 bs"

definition string_bytes :: "string \<Rightarrow> 8 word list" where
  "string_bytes s = map of_char s"

subsection \<open>Laws of maps\<close>

lemma mget_Some [gomap]: "map_of m k = Some v \<Longrightarrow> mget z m k = v"
  by (simp add: mget_def)

lemma mget_None [gomap]: "map_of m k = None \<Longrightarrow> mget z m k = z"
  by (simp add: mget_def)

lemma mget_update [gomap]: "mget z (AList.update k v m) k' = (if k' = k then v else mget z m k')"
  by (simp add: mget_def update_conv')

lemma mget_delete [gomap]: "mget z (AList.delete k m) k' = (if k' = k then z else mget z m k')"
  by (simp add: mget_def delete_conv')

lemma map_of_mkeep [gomap]: "map_of (mkeep P m) k = (if P k then map_of m k else None)"
  by (induction m) (auto simp: mkeep_def)

lemma mall_Nil [simp]: "mall P []"
  by (simp add: mall_def)

lemma mall_update: "mall P m \<Longrightarrow> P k v \<Longrightarrow> mall P (AList.update k v m)"
  by (simp add: mall_def update_conv')

lemma mall_delete: "mall P m \<Longrightarrow> mall P (AList.delete k m)"
  by (simp add: mall_def delete_conv')

lemma mall_mkeep: "mall P m \<Longrightarrow> mall P (mkeep Q m)"
  by (simp add: mall_def map_of_mkeep)

lemma mall_mget: "mall P m \<Longrightarrow> P k z \<Longrightarrow> P k (mget z m k)"
  by (auto simp: mall_def mget_def split: option.splits)

lemma gomap_ok_Nil [simp]: "gomap_ok []"
  by (simp add: gomap_ok_def)

lemma gomap_ok_update [simp]: "gomap_ok m \<Longrightarrow> gomap_ok (AList.update k v m)"
  by (simp add: gomap_ok_def distinct_update)

lemma gomap_ok_delete [simp]: "gomap_ok m \<Longrightarrow> gomap_ok (AList.delete k m)"
  by (simp add: gomap_ok_def distinct_delete)

lemma gomap_ok_filter [simp]: "gomap_ok m \<Longrightarrow> gomap_ok (filter P m)"
  by (auto simp: gomap_ok_def intro: distinct_map_filter)

lemma gomap_ok_mkeep [simp]: "gomap_ok m \<Longrightarrow> gomap_ok (mkeep P m)"
  by (simp add: mkeep_def)

lemma map_of_filter_value:
  "gomap_ok m \<Longrightarrow> map_of (filter P m) k =
     (case map_of m k of None \<Rightarrow> None | Some v \<Rightarrow> if P (k, v) then Some v else None)"
  by (induction m) (auto simp: gomap_ok_def map_of_eq_None_iff split: option.splits)

lemma map_of_eq_Some_iff' [gomap]: "gomap_ok m \<Longrightarrow> map_of m k = Some v \<longleftrightarrow> (k, v) \<in> set m"
  by (simp add: gomap_ok_def)

lemma length_gomap: "gomap_ok m \<Longrightarrow> length m = card (dom (map_of m))"
proof -
  assume "gomap_ok m"
  then have "card (set (map fst m)) = length (map fst m)"
    unfolding gomap_ok_def by (rule distinct_card)
  then show ?thesis by (simp add: dom_map_of_conv_image_fst)
qed

lemma dom_delete: "fst ` set (AList.delete k m) = fst ` set m - {k}"
proof -
  have "set (map fst (AList.delete k m)) = set (map fst m) - {k}"
    by (simp only: delete_keys) (simp add: set_removeAll)
  then show ?thesis by simp
qed

lemma length_update: "length (AList.update k v m) = (if mhas m k then length m else Suc (length m))"
  by (induction m) (auto simp: mhas_def)

lemma length_delete: "mhas m k \<Longrightarrow> length (AList.delete k m) < length m"
  by (induction m) (auto simp: mhas_def less_Suc_eq_le length_delete_le)

lemma length_filter_int: "int (length xs) \<le> n \<Longrightarrow> int (length (filter P xs)) \<le> n"
  using length_filter_le [of P xs] by linarith

lemma delete_mkeep: "AList.delete k m = mkeep (\<lambda>k'. k' \<noteq> k) m"
  by (auto simp: mkeep_def AList.delete_eq intro!: filter_cong)

subsection \<open>The selection loop returns a least element\<close>

lemma scan_in_set: "scan lt x xs \<in> set (x # xs)"
  unfolding scan_def by (induction xs arbitrary: x) auto

lemma scan_map_key: "(\<And>a b. lt a b = lt' (f a) (f b)) \<Longrightarrow> f (scan lt x xs) = scan lt' (f x) (map f xs)"
  unfolding scan_def by (induction xs arbitrary: x) auto

text \<open>
  A comparison that is the order of a key, on the candidates of a domain. The comparison may also
  hold between two candidates of the same key: the code's tie-breakers do not always exclude it.
\<close>

locale keyed_less =
  fixes lt :: "'a \<Rightarrow> 'a \<Rightarrow> bool"
    and key :: "'a \<Rightarrow> 'k::linorder"
    and dom :: "'a \<Rightarrow> bool"
  assumes less_lt: "dom a \<Longrightarrow> dom b \<Longrightarrow> key a < key b \<Longrightarrow> lt a b"
    and lt_le: "dom a \<Longrightarrow> dom b \<Longrightarrow> lt a b \<Longrightarrow> key a \<le> key b"
begin

lemma scan_least: "list_all dom (x # xs) \<Longrightarrow> y \<in> set (x # xs) \<Longrightarrow> key (scan lt x xs) \<le> key y"
  unfolding scan_def
proof (induction xs arbitrary: x y)
  case (Cons c cs)
  let ?b = "if lt c x then c else x"
  have d: "dom c" "dom x" "list_all dom cs" using Cons.prems(1) by simp_all
  have b: "key ?b \<le> key x" "key ?b \<le> key c"
    using less_lt [OF d(1,2)] lt_le [OF d(1,2)] by (auto intro: leI)
  have "list_all dom (?b # cs)" using d by simp
  note IH = Cons.IH [OF this]
  have "key (foldl (\<lambda>best c. if lt c best then c else best) ?b cs) \<le> key ?b"
    by (rule IH) simp
  with b IH [of y] Cons.prems(2) show ?case by auto
qed simp

text \<open>With distinct keys the winner does not depend on the order of the candidates.\<close>

lemma scan_order_free:
  assumes "set (x # xs) = set (y # ys)" and "inj_on key (set (x # xs))" and dom: "list_all dom (x # xs)"
  shows "scan lt x xs = scan lt y ys"
proof (rule inj_onD [OF assms(2)])
  have dom': "list_all dom (y # ys)" using dom assms(1) by (simp only: list_all_iff)
  have X: "scan lt x xs \<in> set (x # xs)" and Y: "scan lt y ys \<in> set (y # ys)"
    by (rule scan_in_set)+
  then show "scan lt x xs \<in> set (x # xs)" and "scan lt y ys \<in> set (x # xs)"
    by (simp_all only: assms(1))
  have "key (scan lt x xs) \<le> key (scan lt y ys)"
    by (rule scan_least [OF dom]) (use Y assms(1) in blast)
  moreover have "key (scan lt y ys) \<le> key (scan lt x xs)"
    by (rule scan_least [OF dom']) (use X assms(1) in blast)
  ultimately show "key (scan lt x xs) = key (scan lt y ys)" by (rule antisym)
qed

lemma list_order_free:
  assumes "set xs = set ys" and "xs \<noteq> []" and "inj_on key (set xs)" and "list_all dom xs"
  shows "scan lt (hd xs) (tl xs) = scan lt (hd ys) (tl ys)"
proof -
  have "ys \<noteq> []" using assms(1,2) by auto
  then show ?thesis using assms by (intro scan_order_free) simp_all
qed

end

subsection \<open>Integer ranges\<close>

lemma wrap64_id [simp]: "in_int64 i \<Longrightarrow> wrap64 i = i"
  by (simp add: wrap64_def in_int64_def min_int64_def max_int64_def)

lemma in_int64_wrap64 [simp]: "in_int64 (wrap64 i)"
proof -
  have "0 \<le> (i + 9223372036854775808) mod 18446744073709551616"
    and "(i + 9223372036854775808) mod 18446744073709551616 < 18446744073709551616"
    by simp_all
  then show ?thesis
    by (simp add: wrap64_def in_int64_def min_int64_def max_int64_def)
qed

lemma wrap64_overflow:
  assumes "max_int64 < i" and "i \<le> 2 * max_int64"
  shows "wrap64 i < 0"
proof -
  define h M :: int where "h = 9223372036854775808" and "M = 18446744073709551616"
  have "(i + h) mod M = (i + h - M) mod M" by simp
  also have "\<dots> = i + h - M"
    using assms by (intro mod_pos_pos_trivial) (simp_all add: h_def M_def max_int64_def)
  finally show ?thesis
    using assms unfolding wrap64_def h_def M_def by (simp add: max_int64_def)
qed

subsection \<open>Time\<close>

lemma time_sub_nonneg [go_time]: "b \<le> a \<Longrightarrow> 0 \<le> time_sub a b"
  by (simp add: time_sub_def max_int64_def min_int64_def)

lemma time_sub_self [simp]: "time_sub a a = 0"
  by (simp add: time_sub_def max_int64_def min_int64_def)

lemma time_sub_le_iff [go_time]:
  "0 \<le> d \<Longrightarrow> d < max_int64 \<Longrightarrow> time_sub a b \<le> d \<longleftrightarrow> a \<le> b + d"
  by (auto simp: time_sub_def max_int64_def min_int64_def)

lemma time_sub_mono [go_time]: "a \<le> a' \<Longrightarrow> time_sub a b \<le> time_sub a' b"
  by (auto simp: time_sub_def max_int64_def min_int64_def)

subsection \<open>Strings\<close>

lemma trim_front_no_space: "trim_front sp s \<noteq> [] \<Longrightarrow> space_prefix sp (trim_front sp s) = 0"
proof (induction sp s rule: trim_front.induct)
  case (1 sp s)
  then show ?case
    by (cases "space_prefix sp s = 0 \<or> s = []") (auto simp: trim_front.simps [of sp s] Let_def)
qed

lemma trim_front_idem [simp]: "trim_front sp (trim_front sp s) = trim_front sp s"
  using trim_front_no_space [of sp s]
  by (subst trim_front.simps) (auto simp: Let_def)

subsection \<open>Division\<close>

lemma quot64_pos: "0 \<le> a \<Longrightarrow> a \<le> max_int64 \<Longrightarrow> 0 < b \<Longrightarrow> quot64 a b = a div b"
proof -
  assume a: "0 \<le> a" "a \<le> max_int64" and b: "0 < b"
  have "0 \<le> a div b" "a div b \<le> a" using a b zdiv_mono2 [of a 1 b] by (simp_all add: pos_imp_zdiv_nonneg_iff)
  then have "in_int64 (a div b)" using a by (simp add: in_int64_def min_int64_def)
  then show ?thesis using a b by (cases "a = 0") (simp_all add: quot64_def)
qed

lemma div_less_iff: "0 < (p::int) \<Longrightarrow> c > m div p \<longleftrightarrow> c * p > m"
proof
  assume p: "0 < p"
  have m: "m = m div p * p + m mod p" by simp
  have r: "0 \<le> m mod p" "m mod p < p" using p by simp_all
  show "c * p > m" if "c > m div p"
  proof -
    have "(m div p + 1) * p \<le> c * p" using that p by (intro mult_right_mono) simp_all
    with m r show ?thesis unfolding distrib_right by linarith
  qed
  show "c > m div p" if "c * p > m"
  proof (rule ccontr)
    assume "\<not> c > m div p"
    then have "c * p \<le> m div p * p" using p by (intro mult_right_mono) simp_all
    with that m r show False by linarith
  qed
qed

subsection \<open>Binary search finds the first index\<close>

lemma sort_search_true: "i < j \<Longrightarrow> f ((i + j) div 2) \<Longrightarrow> sort_search f i j = sort_search f i ((i + j) div 2)"
  and sort_search_false: "i < j \<Longrightarrow> \<not> f ((i + j) div 2) \<Longrightarrow> sort_search f i j = sort_search f ((i + j) div 2 + 1) j"
  and sort_search_done: "\<not> i < j \<Longrightarrow> sort_search f i j = i"
  by (subst sort_search.simps, simp add: Let_def)+

lemma sort_search_range: "i \<le> j \<Longrightarrow> i \<le> sort_search f i j \<and> sort_search f i j \<le> j"
proof (induction f i j rule: sort_search.induct)
  case (1 f i j)
  consider "i < j" "f ((i + j) div 2)" | "i < j" "\<not> f ((i + j) div 2)" | "\<not> i < j" by blast
  then show ?case
  proof cases
    case 1
    then have "i \<le> sort_search f i ((i + j) div 2) \<and> sort_search f i ((i + j) div 2) \<le> (i + j) div 2"
      by (intro "1.IH"(1)) simp_all
    moreover have "(i + j) div 2 \<le> j" using 1 by simp
    ultimately show ?thesis using 1 by (auto simp: sort_search_true)
  next
    case 2
    then have "(i + j) div 2 + 1 \<le> sort_search f ((i + j) div 2 + 1) j \<and> sort_search f ((i + j) div 2 + 1) j \<le> j"
      by (intro "1.IH"(2)) simp_all
    moreover have "i \<le> (i + j) div 2 + 1" using 2 by simp
    ultimately show ?thesis using 2 by (auto simp: sort_search_false)
  next
    case 3
    with "1.prems" show ?thesis by (simp add: sort_search_done)
  qed
qed

lemma sort_search_least:
  assumes "\<And>a b. i \<le> a \<Longrightarrow> a \<le> b \<Longrightarrow> b < j \<Longrightarrow> f a \<Longrightarrow> f b" and "i \<le> j"
  shows "(\<forall>k. i \<le> k \<and> k < sort_search f i j \<longrightarrow> \<not> f k) \<and> (sort_search f i j < j \<longrightarrow> f (sort_search f i j))"
  using assms
proof (induction f i j rule: sort_search.induct)
  case (1 f i j)
  define h where "h = (i + j) div 2"
  show ?case
  proof (cases "i < j")
    case True
    then have h: "i \<le> h" "h < j" by (simp_all add: h_def)
    show ?thesis
    proof (cases "f h")
      case fh: True
      have eq: "sort_search f i j = sort_search f i h"
        using True fh unfolding h_def by (rule sort_search_true)
      have IH: "(\<forall>k. i \<le> k \<and> k < sort_search f i h \<longrightarrow> \<not> f k) \<and> (sort_search f i h < h \<longrightarrow> f (sort_search f i h))"
      proof (rule "1.IH"(1) [OF True h_def fh])
        show "f b" if "i \<le> a" "a \<le> b" "b < h" "f a" for a b
          using "1.prems"(1) [of a b] that h by linarith
      qed (rule h)
      have "sort_search f i h \<le> h" using sort_search_range h by blast
      with IH fh show ?thesis unfolding eq by (metis le_neq_implies_less)
    next
      case nfh: False
      have eq: "sort_search f i j = sort_search f (h + 1) j"
        using True nfh unfolding h_def by (rule sort_search_false)
      have IH: "(\<forall>k. h + 1 \<le> k \<and> k < sort_search f (h + 1) j \<longrightarrow> \<not> f k)
          \<and> (sort_search f (h + 1) j < j \<longrightarrow> f (sort_search f (h + 1) j))"
      proof (rule "1.IH"(2) [OF True h_def nfh])
        show "f b" if "h + 1 \<le> a" "a \<le> b" "b < j" "f a" for a b
          using "1.prems"(1) [of a b] that h by linarith
      qed (use h in simp)
      have "\<not> f k" if "i \<le> k" "k \<le> h" for k
        using "1.prems"(1) [of k h] that nfh h by blast
      with IH show ?thesis unfolding eq by (metis Suc_eq_plus1 not_less_eq_eq)
    qed
  next
    case False
    with "1.prems" show ?thesis by (auto simp: sort_search_done)
  qed
qed

end
