(* ===== verification/Float64.thy ===== *)
theory Float64
  imports Complex_Main Go_Prelude "HOL-Library.Log_Nat"
begin

text \<open>
  Go's \<open>float64\<close>, executable: a finite value is the rational number it denotes, an operation is
  the exact rational operation followed by IEEE-754 rounding to nearest, ties to even, in the
  binary64 format (53 bits of significand, least exponent \<open>-1074\<close>, overflow to infinity at
  \<open>2 ^ 1024\<close>). The sign of zero is not kept: no operation of the sources observes it. Fused
  multiply-add, which a Go compiler may emit on some targets, is not modelled.

  The lemmas give the three facts the components use: rounding is monotone, it fixes
  representable values, and it moves a value by at most half a quantum.
\<close>

datatype f64 = NaN | PInf | NInf | Fin rat

definition rne :: "rat \<Rightarrow> int" where
  \<comment> \<open>round to nearest integer, ties to even\<close>
  "rne x = (let f = \<lfloor>x\<rfloor>; d = x - of_int f in
     if d < 1 / 2 then f else if d > 1 / 2 then f + 1 else if even f then f else f + 1)"

definition ilog2 :: "rat \<Rightarrow> int" where
  "ilog2 x = (case quotient_of x of (a, b) \<Rightarrow>
     let e = bitlen a - bitlen b in if (2::rat) powi e \<le> x then e else e - 1)"

definition qexp :: "rat \<Rightarrow> int" where
  "qexp x = max (ilog2 \<bar>x\<bar> - 52) (- 1074)"

definition rnd :: "rat \<Rightarrow> rat" where
  "rnd x = (if x = 0 then 0 else of_int (rne (x / 2 powi qexp x)) * 2 powi qexp x)"

definition rnd64 :: "rat \<Rightarrow> f64" where
  "rnd64 x = (let r = rnd x in
     if r \<ge> 2 ^ 1024 then PInf else if r \<le> - (2 ^ 1024) then NInf else Fin r)"

definition is_f64 :: "rat \<Rightarrow> bool" where
  "is_f64 x \<longleftrightarrow> rnd x = x \<and> \<bar>x\<bar> < 2 ^ 1024"

fun f64_ok :: "f64 \<Rightarrow> bool" where
  "f64_ok (Fin x) = is_f64 x"
| "f64_ok _ = True"

subsection \<open>Operations\<close>

fun f_lt :: "f64 \<Rightarrow> f64 \<Rightarrow> bool" where
  "f_lt (Fin a) (Fin b) = (a < b)"
| "f_lt (Fin a) PInf = True"
| "f_lt NInf (Fin b) = True"
| "f_lt NInf PInf = True"
| "f_lt _ _ = False"

fun f_eq :: "f64 \<Rightarrow> f64 \<Rightarrow> bool" where
  "f_eq NaN _ = False"
| "f_eq _ NaN = False"
| "f_eq a b = (a = b)"

definition f_le :: "f64 \<Rightarrow> f64 \<Rightarrow> bool" where
  "f_le a b \<longleftrightarrow> f_lt a b \<or> f_eq a b"

fun f_neg :: "f64 \<Rightarrow> f64" where
  "f_neg (Fin a) = Fin (- a)"
| "f_neg PInf = NInf"
| "f_neg NInf = PInf"
| "f_neg NaN = NaN"

fun f_add :: "f64 \<Rightarrow> f64 \<Rightarrow> f64" where
  "f_add (Fin a) (Fin b) = rnd64 (a + b)"
| "f_add NaN _ = NaN"
| "f_add _ NaN = NaN"
| "f_add PInf NInf = NaN"
| "f_add NInf PInf = NaN"
| "f_add PInf _ = PInf"
| "f_add _ PInf = PInf"
| "f_add NInf _ = NInf"
| "f_add _ NInf = NInf"

definition f_sub :: "f64 \<Rightarrow> f64 \<Rightarrow> f64" where
  "f_sub a b = f_add a (f_neg b)"

definition f_inf_times :: "bool \<Rightarrow> f64" where
  "f_inf_times pos = (if pos then PInf else NInf)"

fun f_pos :: "f64 \<Rightarrow> bool" where
  "f_pos (Fin a) = (a > 0)"
| "f_pos PInf = True"
| "f_pos _ = False"

fun f_mul :: "f64 \<Rightarrow> f64 \<Rightarrow> f64" where
  "f_mul (Fin a) (Fin b) = rnd64 (a * b)"
| "f_mul NaN _ = NaN"
| "f_mul _ NaN = NaN"
| "f_mul (Fin a) b = (if a = 0 then NaN else f_inf_times ((a > 0) = f_pos b))"
| "f_mul a (Fin b) = (if b = 0 then NaN else f_inf_times ((b > 0) = f_pos a))"
| "f_mul a b = f_inf_times (f_pos a = f_pos b)"

fun f_div :: "f64 \<Rightarrow> f64 \<Rightarrow> f64" where
  \<comment> \<open>a zero divisor is \<open>+0\<close> in every use\<close>
  "f_div (Fin a) (Fin b) =
     (if b = 0 then (if a = 0 then NaN else f_inf_times (a > 0)) else rnd64 (a / b))"
| "f_div NaN _ = NaN"
| "f_div _ NaN = NaN"
| "f_div (Fin a) _ = Fin 0"
| "f_div a (Fin b) = f_inf_times ((b \<ge> 0) = f_pos a)"
| "f_div _ _ = NaN"

definition f_of_int :: "int \<Rightarrow> f64" where
  "f_of_int i = rnd64 (of_int i)"

definition is_NaN :: "f64 \<Rightarrow> bool" where
  "is_NaN x \<longleftrightarrow> x = NaN"

definition is_Inf :: "f64 \<Rightarrow> bool" where
  "is_Inf x \<longleftrightarrow> x = PInf \<or> x = NInf"

fun f_ceil :: "f64 \<Rightarrow> f64" where
  "f_ceil (Fin a) = Fin (of_int \<lceil>a\<rceil>)"
| "f_ceil x = x"

definition round_away :: "rat \<Rightarrow> int" where
  \<comment> \<open>\<open>math.Round\<close>: to nearest, ties away from zero\<close>
  "round_away a = (if a \<ge> 0 then \<lfloor>a + 1 / 2\<rfloor> else \<lceil>a - 1 / 2\<rceil>)"

fun f_round :: "f64 \<Rightarrow> f64" where
  "f_round (Fin a) = Fin (of_int (round_away a))"
| "f_round x = x"

fun f_to_int64 :: "f64 \<Rightarrow> int" where
  \<comment> \<open>conversion truncates; out of range it yields amd64's integer indefinite value\<close>
  "f_to_int64 (Fin a) =
     (let t = (if a \<ge> 0 then \<lfloor>a\<rfloor> else \<lceil>a\<rceil>) in if in_int64 t then t else min_int64)"
| "f_to_int64 _ = min_int64"

fun f_min :: "f64 \<Rightarrow> f64 \<Rightarrow> f64" where
  "f_min a b = (if a = NInf \<or> b = NInf then NInf else if a = NaN \<or> b = NaN then NaN
                else if f_lt a b then a else b)"

fun f_max :: "f64 \<Rightarrow> f64 \<Rightarrow> f64" where
  "f_max a b = (if a = PInf \<or> b = PInf then PInf else if a = NaN \<or> b = NaN then NaN
                else if f_lt b a then a else b)"

subsection \<open>Rounding to an integer\<close>

lemma rne_of_int [simp]: "rne (of_int n) = n"
  by (simp add: rne_def)

lemma rne_half: "rne (of_int m + 1 / 2) = (if even m then m else m + 1)"
proof -
  have "\<lfloor>of_int m + 1 / 2 :: rat\<rfloor> = m" by (rule floor_unique) simp_all
  then show ?thesis by (simp add: rne_def Let_def)
qed

lemma rne_cases: "rne x = \<lfloor>x\<rfloor> \<and> x - of_int \<lfloor>x\<rfloor> \<le> 1 / 2 \<or> rne x = \<lfloor>x\<rfloor> + 1 \<and> 1 / 2 \<le> x - of_int \<lfloor>x\<rfloor>"
  by (auto simp: rne_def Let_def)

lemma rne_err: "\<bar>of_int (rne x) - x\<bar> \<le> 1 / 2"
proof -
  have "of_int \<lfloor>x\<rfloor> \<le> x" and "x < of_int \<lfloor>x\<rfloor> + 1" by linarith+
  with rne_cases [of x] show ?thesis by (auto simp: abs_le_iff)
qed

lemma rne_mono: "x \<le> y \<Longrightarrow> rne x \<le> rne y"
proof -
  assume le: "x \<le> y"
  show ?thesis
  proof (cases "\<lfloor>x\<rfloor> = \<lfloor>y\<rfloor>")
    case True
    with le show ?thesis by (auto simp: rne_def Let_def)
  next
    case False
    with le have "\<lfloor>x\<rfloor> + 1 \<le> \<lfloor>y\<rfloor>" using floor_mono [OF le] by linarith
    with rne_cases [of x] rne_cases [of y] show ?thesis by linarith
  qed
qed

lemma rne_le: "x \<le> of_int n \<Longrightarrow> rne x \<le> n"
  using rne_mono [of x "of_int n"] by simp

lemma rne_ge: "of_int n \<le> x \<Longrightarrow> n \<le> rne x"
  using rne_mono [of "of_int n" x] by simp

lemma rne_minus: "rne (- x) = - rne x"
proof (cases "x = of_int \<lfloor>x\<rfloor>")
  case True
  then show ?thesis by (metis of_int_minus rne_of_int)
next
  case False
  then have "\<lfloor>- x\<rfloor> = - \<lfloor>x\<rfloor> - 1"
    by (intro floor_unique) (use floor_correct [of x] in \<open>auto simp: less_le\<close>)
  then show ?thesis by (simp add: rne_def Let_def)
qed

subsection \<open>The binary exponent\<close>

lemma powi2_pos [simp]: "0 < (2::rat) powi e"
  by (simp add: zero_less_power_int)

lemma powi2_mono: "d \<le> e \<Longrightarrow> (2::rat) powi d \<le> 2 powi e"
  by (simp add: power_int_increasing)

lemma powi2_less_iff: "(2::rat) powi d < 2 powi e \<longleftrightarrow> d < e"
  by (metis linorder_not_le one_less_numeral_iff power_int_strict_increasing powi2_mono semiring_norm(76))

lemma powi2_diff: "(2::rat) powi d / 2 powi e = 2 powi (d - e)"
  by (simp add: power_int_diff)

lemma bitlen_powi: "0 < a \<Longrightarrow> (2::rat) powi (bitlen a - 1) \<le> of_int a \<and> of_int a < (2::rat) powi bitlen a"
proof -
  assume a: "0 < a"
  then have b: "1 \<le> bitlen a" using bitlen_eq_zero_iff [of a] bitlen_nonneg [of a] by linarith
  have "2 ^ nat (bitlen a - 1) \<le> a \<and> a < 2 ^ nat (bitlen a)" by (rule bitlen_bounds) (rule a)
  then have "(of_int (2 ^ nat (bitlen a - 1)) :: rat) \<le> of_int a"
    and "(of_int a :: rat) < of_int (2 ^ nat (bitlen a))"
    by (simp_all only: of_int_le_iff of_int_less_iff)
  with b show ?thesis by (simp add: power_int_def)
qed

lemma ilog2_bounds:
  assumes "0 < x"
  shows "2 powi ilog2 x \<le> x" and "x < 2 powi (ilog2 x + 1)"
proof -
  obtain a b where ab: "quotient_of x = (a, b)" by fastforce
  then have x: "x = of_int a / of_int b" and b0: "0 < b"
    by (simp_all add: quotient_of_div quotient_of_denom_pos)
  with assms have a0: "0 < a" by (simp add: zero_less_divide_iff)
  let ?e = "bitlen a - bitlen b"
  have A: "(2::rat) powi (bitlen a - 1) \<le> of_int a" "of_int a < (2::rat) powi bitlen a"
    and B: "(2::rat) powi (bitlen b - 1) \<le> of_int b" "of_int b < (2::rat) powi bitlen b"
    using bitlen_powi [OF a0] bitlen_powi [OF b0] by simp_all
  have "(2::rat) powi (bitlen a - 1) / 2 powi bitlen b \<le> x"
    unfolding x using A B a0 b0 by (intro frac_le) auto
  then have lo: "2 powi (?e - 1) \<le> x" by (simp add: powi2_diff algebra_simps)
  have "x < (2::rat) powi bitlen a / 2 powi (bitlen b - 1)"
    unfolding x using A B a0 by (intro frac_less) auto
  then have hi: "x < 2 powi (?e + 1)" by (simp add: powi2_diff algebra_simps)
  from lo hi ab show "2 powi ilog2 x \<le> x" and "x < 2 powi (ilog2 x + 1)"
    by (auto simp: ilog2_def Let_def)
qed

lemma ilog2_mono: "0 < x \<Longrightarrow> x \<le> y \<Longrightarrow> ilog2 x \<le> ilog2 y"
proof -
  assume "0 < x" "x \<le> y"
  then have "(2::rat) powi ilog2 x < 2 powi (ilog2 y + 1)"
    using ilog2_bounds [of x] ilog2_bounds [of y] by linarith
  then show ?thesis by (simp add: powi2_less_iff)
qed

subsection \<open>Rounding is monotone, odd and close\<close>

lemma rnd_0 [simp]: "rnd 0 = 0"
  by (simp add: rnd_def)

lemma rnd_minus: "rnd (- x) = - rnd x"
  by (simp add: rnd_def qexp_def rne_minus)

lemma rnd_err: "\<bar>rnd x - x\<bar> \<le> 2 powi qexp x / 2"
proof (cases "x = 0")
  case False
  let ?q = "(2::rat) powi qexp x"
  have "rnd x - x = (of_int (rne (x / ?q)) - x / ?q) * ?q"
    using False by (simp add: rnd_def algebra_simps)
  then have "\<bar>rnd x - x\<bar> = \<bar>of_int (rne (x / ?q)) - x / ?q\<bar> * ?q"
    by (simp add: abs_mult)
  also have "\<dots> \<le> 1 / 2 * ?q" by (intro mult_right_mono rne_err) simp
  finally show ?thesis by simp
qed simp

lemma rnd_le_grid:
  assumes "0 < x" and "x \<le> of_int n * 2 powi qexp x"
  shows "rnd x \<le> of_int n * 2 powi qexp x"
proof -
  have "x / 2 powi qexp x \<le> of_int n" using assms(2) by (simp add: divide_le_eq)
  then have "rne (x / 2 powi qexp x) \<le> n" by (rule rne_le)
  then show ?thesis using assms(1) by (simp add: rnd_def)
qed

lemma rnd_ge_grid:
  assumes "0 < x" and "of_int n * 2 powi qexp x \<le> x"
  shows "of_int n * 2 powi qexp x \<le> rnd x"
proof -
  have "of_int n \<le> x / 2 powi qexp x" using assms(2) by (simp add: le_divide_eq)
  then have "n \<le> rne (x / 2 powi qexp x)" by (rule rne_ge)
  then show ?thesis using assms(1) by (simp add: rnd_def)
qed

lemma powi2_grid:
  assumes "e \<le> d"
  shows "(2::rat) powi d = of_int (2 ^ nat (d - e)) * 2 powi e"
proof -
  have "(2::rat) powi (d - e) = 2 ^ nat (d - e)" using assms by (simp add: power_int_def)
  then show ?thesis by (simp add: power_int_diff field_simps)
qed

lemma rnd_mono_pos:
  assumes "0 < x" and "x \<le> y"
  shows "rnd x \<le> rnd y"
proof (cases "qexp x = qexp y")
  case True
  have "x / 2 powi qexp x \<le> y / 2 powi qexp x" using assms(2) by (simp add: divide_right_mono)
  then show ?thesis using assms rne_mono True by (simp add: rnd_def)
next
  case False
  have y: "0 < y" using assms by simp
  let ?d = "ilog2 y"
  from assms y have "ilog2 x \<le> ?d" by (intro ilog2_mono)
  with False assms have lt: "ilog2 x < ?d" and ge: "- 1074 \<le> ?d - 52"
    and q: "qexp x \<le> ?d" "qexp y = ?d - 52"
    by (auto simp: qexp_def)
  have "x < 2 powi (ilog2 x + 1)" by (rule ilog2_bounds) (rule assms)
  also have "\<dots> \<le> 2 powi ?d" using lt by (intro powi2_mono) simp
  finally have "x \<le> of_int (2 ^ nat (?d - qexp x)) * 2 powi qexp x"
    using powi2_grid [OF q(1)] by simp
  then have "rnd x \<le> of_int (2 ^ nat (?d - qexp x)) * 2 powi qexp x"
    by (rule rnd_le_grid [OF assms(1)])
  also have "\<dots> = 2 powi ?d" using powi2_grid [OF q(1)] by simp
  also have d: "\<dots> = of_int (2 ^ nat (?d - qexp y)) * 2 powi qexp y"
    by (rule powi2_grid) (simp add: q)
  also have "\<dots> \<le> rnd y"
    by (rule rnd_ge_grid [OF y]) (use ilog2_bounds(1) [OF y] d in simp)
  finally show ?thesis .
qed

lemma rnd_nonneg [simp]: "0 \<le> x \<Longrightarrow> 0 \<le> rnd x"
proof (cases "x = 0")
  case False
  moreover assume "0 \<le> x"
  ultimately show ?thesis using rnd_ge_grid [of x 0] by simp
qed simp

lemma rnd_mono: "x \<le> y \<Longrightarrow> rnd x \<le> rnd y"
proof -
  assume le: "x \<le> y"
  consider "0 < x" | "y < 0" | "x \<le> 0" "0 \<le> y" by linarith
  then show ?thesis
  proof cases
    case 2
    with le have "rnd (- y) \<le> rnd (- x)" by (intro rnd_mono_pos) simp_all
    then show ?thesis by (simp add: rnd_minus)
  next
    case 3
    then have "0 \<le> rnd (- x)" and "0 \<le> rnd y" by simp_all
    then show ?thesis by (simp add: rnd_minus)
  qed (rule rnd_mono_pos [OF _ le])
qed

lemma rnd_le_f64: "is_f64 y \<Longrightarrow> x \<le> y \<Longrightarrow> rnd x \<le> y"
  using rnd_mono [of x y] by (simp add: is_f64_def)

lemma rnd_ge_f64: "is_f64 y \<Longrightarrow> y \<le> x \<Longrightarrow> y \<le> rnd x"
  using rnd_mono [of y x] by (simp add: is_f64_def)

lemma is_f64_0 [simp]: "is_f64 0"
  by (simp add: is_f64_def)

lemma dyadic_bound:
  assumes "\<bar>n\<bar> < 2 ^ 53"
  shows "\<bar>of_int n * (2::rat) powi e\<bar> < 2 powi (53 + e)"
proof -
  have "(of_int \<bar>n\<bar> :: rat) < of_int (2 ^ 53)" using assms by (simp only: of_int_less_iff)
  then have "\<bar>of_int n\<bar> * (2::rat) powi e < 2 powi 53 * 2 powi e"
    by (intro mult_strict_right_mono) (simp_all add: power_int_def)
  then show ?thesis by (simp add: power_int_add abs_mult)
qed

lemma rnd_dyadic:
  assumes n: "\<bar>n\<bar> < 2 ^ 53" and e: "- 1074 \<le> e"
  shows "rnd (of_int n * 2 powi e) = of_int n * 2 powi e"
proof (cases "n = 0")
  case False
  let ?x = "of_int n * (2::rat) powi e"
  have pos: "0 < \<bar>?x\<bar>" using False by simp
  have "(2::rat) powi ilog2 \<bar>?x\<bar> < 2 powi (53 + e)"
    using ilog2_bounds(1) [OF pos] dyadic_bound [OF n, of e] by (rule le_less_trans)
  then have q: "qexp ?x \<le> e" using e by (simp add: qexp_def powi2_less_iff)
  define Q where "Q = qexp ?x"
  have g: "(2::rat) powi e = of_int (2 ^ nat (e - Q)) * 2 powi Q"
    using q by (intro powi2_grid) (simp add: Q_def)
  have "?x / 2 powi Q = of_int (n * 2 ^ nat (e - Q))" by (subst g) simp
  then have "rnd ?x = of_int (n * 2 ^ nat (e - Q)) * 2 powi Q"
    using False by (simp only: rnd_def rne_of_int Q_def [symmetric]) simp
  then show ?thesis by (simp add: g)
qed simp

lemma is_f64_dyadic:
  assumes "\<bar>n\<bar> < 2 ^ 53" and "- 1074 \<le> e" and "e \<le> 900"
  shows "is_f64 (of_int n * 2 powi e)"
proof -
  have "\<bar>of_int n * (2::rat) powi e\<bar> < 2 powi (53 + e)" by (rule dyadic_bound) (rule assms)
  also have "\<dots> \<le> 2 powi 1024" using assms(3) by (intro powi2_mono) simp
  finally show ?thesis using rnd_dyadic [OF assms(1,2)] by (simp add: is_f64_def)
qed

lemma is_f64_of_int: "\<bar>n\<bar> < 2 ^ 53 \<Longrightarrow> is_f64 (of_int n)"
  using is_f64_dyadic [of n 0] by simp

lemma is_f64_div_pow2: "\<bar>n\<bar> < 2 ^ 53 \<Longrightarrow> k \<le> 1074 \<Longrightarrow> is_f64 (of_int n / 2 ^ k)"
  using is_f64_dyadic [of n "- int k"] by (simp add: power_int_minus divide_inverse)

lemma is_f64_1 [simp]: "is_f64 1"
  using is_f64_of_int [of 1] by simp

lemma rnd64_exact: "is_f64 x \<Longrightarrow> rnd64 x = Fin x"
  by (auto simp: rnd64_def is_f64_def Let_def abs_less_iff)

lemma rnd64_Fin: "- (2 ^ 1024) < rnd x \<Longrightarrow> rnd x < 2 ^ 1024 \<Longrightarrow> rnd64 x = Fin (rnd x)"
  by (simp add: rnd64_def Let_def)

lemma rnd64_unit: "0 \<le> x \<Longrightarrow> x \<le> 1 \<Longrightarrow> rnd64 x = Fin (rnd x) \<and> 0 \<le> rnd x \<and> rnd x \<le> 1"
proof -
  assume "0 \<le> x" "x \<le> 1"
  then have "0 \<le> rnd x" and le: "rnd x \<le> 1" by (auto intro: rnd_le_f64)
  moreover have "(1::rat) < 2 ^ 1024" by simp
  ultimately show ?thesis by (auto intro!: rnd64_Fin)
qed

subsection \<open>Rounded values are representable; rounding near one\<close>

lemma ilog2_unique: "0 < x \<Longrightarrow> 2 powi e \<le> x \<Longrightarrow> x < 2 powi (e + 1) \<Longrightarrow> ilog2 x = e"
proof -
  assume x: "0 < x" "2 powi e \<le> x" "x < 2 powi (e + 1)"
  note ilog2_bounds [OF x(1)]
  with x have "(2::rat) powi ilog2 x < 2 powi (e + 1)" "(2::rat) powi e < 2 powi (ilog2 x + 1)"
    by linarith+
  then show ?thesis by (simp add: powi2_less_iff)
qed

lemma rnd_on_grid: "x \<noteq> 0 \<Longrightarrow> \<exists>n. rnd x = of_int n * 2 powi qexp x \<and> \<bar>n\<bar> \<le> 2 ^ 53"
proof -
  assume x: "x \<noteq> 0"
  let ?q = "(2::rat) powi qexp x"
  have "\<bar>x\<bar> < 2 powi (ilog2 \<bar>x\<bar> + 1)" using x by (intro ilog2_bounds) simp
  also have "\<dots> \<le> 2 powi (53 + qexp x)" by (intro powi2_mono) (simp add: qexp_def)
  also have "\<dots> = of_int (2 ^ 53) * ?q" by (rule trans [OF powi2_grid [of "qexp x"]]) simp_all
  finally have "\<bar>x / ?q\<bar> \<le> of_int (2 ^ 53)" by (simp add: pos_divide_le_eq)
  then have "rne (x / ?q) \<le> 2 ^ 53" "rne (- (x / ?q)) \<le> 2 ^ 53"
    by (simp_all only: abs_le_iff rne_le)
  then have "\<bar>rne (x / ?q)\<bar> \<le> 2 ^ 53" by (simp add: rne_minus abs_le_iff)
  with x show ?thesis by (auto simp: rnd_def)
qed

lemma rnd_idem [simp]: "rnd (rnd x) = rnd x"
proof (cases "x = 0")
  case False
  then obtain n where n: "rnd x = of_int n * 2 powi qexp x" "\<bar>n\<bar> \<le> 2 ^ 53"
    using rnd_on_grid by blast
  have q: "- 1074 \<le> qexp x" by (simp add: qexp_def)
  show ?thesis
  proof (cases "\<bar>n\<bar> = 2 ^ 53")
    case True
    then have "n = 2 ^ 53 \<or> n = - (2 ^ 53)" by (simp add: abs_if split: if_splits)
    then obtain m where m: "n = 2 * m" "\<bar>m\<bar> < 2 ^ 53"
      by (elim disjE) (auto intro: that [of "n div 2"])
    then have "rnd x = of_int m * 2 powi (qexp x + 1)" using n by (simp add: power_int_add)
    then show ?thesis using rnd_dyadic [OF m(2), of "qexp x + 1"] q by simp
  next
    case False
    then have "\<bar>n\<bar> < 2 ^ 53" using n(2) by simp
    from rnd_dyadic [OF this q] n(1) show ?thesis by simp
  qed
qed simp

lemma rnd_one_above: "1 \<le> x \<Longrightarrow> x \<le> 1 + 1 / 2 ^ 53 \<Longrightarrow> rnd x = 1"
proof -
  assume x: "1 \<le> x" "x \<le> 1 + 1 / 2 ^ 53"
  then have "ilog2 x = 0" by (intro ilog2_unique) simp_all
  with x have q: "qexp x = - 52" by (simp add: qexp_def)
  have "rne (x / 2 powi - 52) \<le> rne (4503599627370496 + 1 / 2)"
    using x by (intro rne_mono) (simp add: power_int_minus)
  also have "\<dots> = 4503599627370496" using rne_half [of 4503599627370496] by simp
  finally have "rne (x / 2 powi - 52) \<le> 4503599627370496" .
  moreover have "4503599627370496 \<le> rne (x / 2 powi - 52)"
    using x by (intro rne_ge) (simp add: power_int_minus)
  ultimately have "rne (x / 2 powi - 52) = 4503599627370496" by simp
  then show ?thesis using x q by (simp add: rnd_def power_int_minus)
qed

lemma rnd_one_below: "1 - 1 / 2 ^ 54 \<le> x \<Longrightarrow> x \<le> 1 \<Longrightarrow> rnd x = 1"
proof (cases "x = 1")
  case True
  then show ?thesis using is_f64_1 by (simp add: is_f64_def)
next
  case False
  moreover assume "1 - 1 / 2 ^ 54 \<le> x" "x \<le> 1"
  ultimately have x: "1 - 1 / 2 ^ 54 \<le> x" "x < 1" "0 < x" by simp_all
  then have "ilog2 x = - 1" by (intro ilog2_unique) (simp_all add: power_int_minus)
  with x have q: "qexp x = - 53" by (simp add: qexp_def)
  have "rne (9007199254740991 + 1 / 2) = 9007199254740992" using rne_half [of 9007199254740991] by simp
  moreover have "rne (9007199254740991 + 1 / 2) \<le> rne (x / 2 powi - 53)"
    using x by (intro rne_mono) (simp add: power_int_minus)
  moreover have "rne (x / 2 powi - 53) \<le> 9007199254740992"
    using x by (intro rne_le) (simp add: power_int_minus)
  ultimately have "rne (x / 2 powi - 53) = 9007199254740992" by simp
  then show ?thesis using x q by (simp add: rnd_def power_int_minus)
qed

lemma rnd_err_unit: "0 \<le> x \<Longrightarrow> x \<le> 1 \<Longrightarrow> \<bar>rnd x - x\<bar> \<le> 1 / 2 ^ 54"
proof (cases "x = 0 \<or> x = 1")
  case True
  then show ?thesis using is_f64_1 by (auto simp: is_f64_def)
next
  case False
  moreover assume "0 \<le> x" "x \<le> 1"
  ultimately have x: "0 < x" "x < 1" by simp_all
  have "(2::rat) powi ilog2 x < 2 powi 0" using ilog2_bounds(1) [OF x(1)] x(2) by simp
  then have "ilog2 x < 0" by (simp only: powi2_less_iff)
  then have "qexp x \<le> - 53" using x by (simp add: qexp_def)
  then have "(2::rat) powi qexp x \<le> 2 powi - 53" by (rule powi2_mono)
  then show ?thesis using rnd_err [of x] by (simp add: power_int_minus)
qed

lemma rnd_unit_le: "0 \<le> x \<Longrightarrow> x \<le> 1 \<Longrightarrow> rnd x \<le> x + 1 / 2 ^ 54"
  and rnd_unit_ge: "0 \<le> x \<Longrightarrow> x \<le> 1 \<Longrightarrow> x - 1 / 2 ^ 54 \<le> rnd x"
  using rnd_err_unit [of x] unfolding abs_le_iff by linarith+

subsection \<open>Rounding inside an interval\<close>


lemma rnd64_between:
  assumes "is_f64 a" and "is_f64 b" and "a \<le> x" and "x \<le> b"
  shows "rnd64 x = Fin (rnd x) \<and> a \<le> rnd x \<and> rnd x \<le> b"
proof -
  have "a \<le> rnd x" and "rnd x \<le> b" using assms by (auto intro: rnd_ge_f64 rnd_le_f64)
  moreover have "\<bar>a\<bar> < 2 ^ 1024" and "\<bar>b\<bar> < 2 ^ 1024" using assms(1,2) by (simp_all only: is_f64_def)
  ultimately have "- (2 ^ 1024) < rnd x" and "rnd x < 2 ^ 1024" by (linarith, linarith)
  then have "rnd64 x = Fin (rnd x)" by (rule rnd64_Fin)
  then show ?thesis using \<open>a \<le> rnd x\<close> \<open>rnd x \<le> b\<close> by blast
qed

lemma rnd_err_below:
  assumes "\<bar>x\<bar> < 2 powi k" and "- 1021 \<le> k"
  shows "\<bar>rnd x - x\<bar> \<le> 2 powi (k - 54)"
proof (cases "x = 0")
  case False
  have "(2::rat) powi ilog2 \<bar>x\<bar> < 2 powi k" using ilog2_bounds(1) [of "\<bar>x\<bar>"] False assms(1) by linarith
  then have "ilog2 \<bar>x\<bar> < k" by (simp only: powi2_less_iff)
  then have "qexp x \<le> k - 53" using assms(2) by (simp add: qexp_def)
  then have "(2::rat) powi qexp x / 2 \<le> 2 powi (k - 53) / 2" by (intro divide_right_mono powi2_mono) simp_all
  also have "\<dots> = (2::rat) powi (k - 54)" using powi2_diff [of "k - 53" 1] by simp
  finally show ?thesis using rnd_err [of x] by linarith
qed simp

lemma f_of_int_exact: "\<bar>n\<bar> < 2 ^ 53 \<Longrightarrow> f_of_int n = Fin (of_int n)"
  by (simp add: f_of_int_def is_f64_of_int rnd64_exact)

lemma round_away_err: "\<bar>of_int (round_away a) - a\<bar> \<le> 1 / 2"
proof (cases "a \<ge> 0")
  case True
  have "of_int \<lfloor>a + 1 / 2\<rfloor> \<le> a + 1 / 2" "a + 1 / 2 < of_int \<lfloor>a + 1 / 2\<rfloor> + 1" by linarith+
  then show ?thesis unfolding round_away_def abs_le_iff using True by (simp only: if_True) linarith
next
  case False
  have "a - 1 / 2 \<le> of_int \<lceil>a - 1 / 2\<rceil>" "of_int \<lceil>a - 1 / 2\<rceil> < a - 1 / 2 + 1" by linarith+
  then show ?thesis unfolding round_away_def abs_le_iff using False by (simp only: if_False) linarith
qed

lemma round_away_mono: "a \<le> b \<Longrightarrow> round_away a \<le> round_away b"
  unfolding round_away_def by (auto intro: floor_mono ceiling_mono; linarith)

lemma round_away_int [simp]: "round_away (of_int n) = n"
  unfolding round_away_def by (simp; linarith)

lemma round_away_between: "of_int m \<le> a \<Longrightarrow> a \<le> of_int n \<Longrightarrow> m \<le> round_away a \<and> round_away a \<le> n"
  using round_away_mono [of "of_int m" a] round_away_mono [of a "of_int n"] by simp

end
