(* ===== verification/Sha256.thy ===== *)
theory Sha256
  imports Main Go_Prelude
begin

unbundle bit_operations_syntax

text \<open>
  The digest function the sources take from \<open>crypto/sha256\<close> (FIPS 180-4): endpoint identities,
  session-key hashes, rendezvous weights and the starting offset of the load-balanced loop are
  all prefixes of a SHA-256 digest.
\<close>

definition sha_K :: "32 word list" where
  "sha_K =
     [0x428A2F98, 0x71374491, 0xB5C0FBCF, 0xE9B5DBA5, 0x3956C25B, 0x59F111F1, 0x923F82A4, 0xAB1C5ED5,
      0xD807AA98, 0x12835B01, 0x243185BE, 0x550C7DC3, 0x72BE5D74, 0x80DEB1FE, 0x9BDC06A7, 0xC19BF174,
      0xE49B69C1, 0xEFBE4786, 0x0FC19DC6, 0x240CA1CC, 0x2DE92C6F, 0x4A7484AA, 0x5CB0A9DC, 0x76F988DA,
      0x983E5152, 0xA831C66D, 0xB00327C8, 0xBF597FC7, 0xC6E00BF3, 0xD5A79147, 0x06CA6351, 0x14292967,
      0x27B70A85, 0x2E1B2138, 0x4D2C6DFC, 0x53380D13, 0x650A7354, 0x766A0ABB, 0x81C2C92E, 0x92722C85,
      0xA2BFE8A1, 0xA81A664B, 0xC24B8B70, 0xC76C51A3, 0xD192E819, 0xD6990624, 0xF40E3585, 0x106AA070,
      0x19A4C116, 0x1E376C08, 0x2748774C, 0x34B0BCB5, 0x391C0CB3, 0x4ED8AA4A, 0x5B9CCA4F, 0x682E6FF3,
      0x748F82EE, 0x78A5636F, 0x84C87814, 0x8CC70208, 0x90BEFFFA, 0xA4506CEB, 0xBEF9A3F7, 0xC67178F2]"

definition sha_H0 :: "32 word list" where
  "sha_H0 = [0x6A09E667, 0xBB67AE85, 0x3C6EF372, 0xA54FF53A, 0x510E527F, 0x9B05688C, 0x1F83D9AB, 0x5BE0CD19]"

definition sha_pad :: "8 word list \<Rightarrow> 8 word list" where
  "sha_pad m = m @ [0x80] @ replicate ((119 - length m mod 64) mod 64) 0
     @ map (\<lambda>i. word_of_nat ((8 * length m) div 256 ^ (7 - i))) [0..<8]"

fun be32s :: "8 word list \<Rightarrow> 32 word list" where
  "be32s (a # b # c # d # rest) =
     (((ucast a * 256 + ucast b) * 256 + ucast c) * 256 + ucast d) # be32s rest"
| "be32s _ = []"

definition sha_s0 :: "32 word \<Rightarrow> 32 word" where
  "sha_s0 w = word_rotr 7 w XOR word_rotr 18 w XOR drop_bit 3 w"

definition sha_s1 :: "32 word \<Rightarrow> 32 word" where
  "sha_s1 w = word_rotr 17 w XOR word_rotr 19 w XOR drop_bit 10 w"

fun sha_extend :: "nat \<Rightarrow> 32 word list \<Rightarrow> 32 word list" where
  \<comment> \<open>the schedule, most recent word first\<close>
  "sha_extend 0 ws = ws"
| "sha_extend (Suc n) ws =
     sha_extend n ((sha_s1 (ws ! 1) + ws ! 6 + sha_s0 (ws ! 14) + ws ! 15) # ws)"

definition sha_schedule :: "32 word list \<Rightarrow> 32 word list" where
  "sha_schedule block = rev (sha_extend 48 (rev block))"

fun sha_round :: "32 word list \<Rightarrow> 32 word \<times> 32 word \<Rightarrow> 32 word list" where
  "sha_round [a, b, c, d, e, f, g, h] (k, w) =
     (let t1 = h + (word_rotr 6 e XOR word_rotr 11 e XOR word_rotr 25 e)
                 + ((e AND f) XOR (NOT e AND g)) + k + w;
          t2 = (word_rotr 2 a XOR word_rotr 13 a XOR word_rotr 22 a)
                 + ((a AND b) XOR (a AND c) XOR (b AND c))
      in [t1 + t2, a, b, c, d + t1, e, f, g])"
| "sha_round s _ = s"

definition sha_compress :: "32 word list \<Rightarrow> 32 word list \<Rightarrow> 32 word list" where
  "sha_compress hs block = map2 (+) hs (foldl sha_round hs (zip sha_K (sha_schedule block)))"

fun sha_blocks :: "32 word list \<Rightarrow> 32 word list \<Rightarrow> 32 word list" where
  "sha_blocks hs ws =
     (if length ws < 16 then hs else sha_blocks (sha_compress hs (take 16 ws)) (drop 16 ws))"

declare sha_blocks.simps [simp del]

definition Sum256 :: "8 word list \<Rightarrow> 8 word list" where
  "Sum256 m = concat (map (\<lambda>w. [ucast (drop_bit 24 w), ucast (drop_bit 16 w),
     ucast (drop_bit 8 w), ucast w]) (sha_blocks sha_H0 (be32s (sha_pad m))))"

lemma length_sha_round [simp]: "length (sha_round s kw) = length s"
  by (cases "(s, kw)" rule: sha_round.cases) (simp_all add: Let_def)

lemma length_foldl_sha_round [simp]: "length (foldl sha_round s kws) = length s"
  by (induction kws arbitrary: s) simp_all

lemma length_sha_blocks [simp]: "length (sha_blocks hs ws) = length hs"
proof (induction hs ws rule: sha_blocks.induct)
  case (1 hs ws)
  then show ?case
    by (cases "length ws < 16") (simp_all add: sha_blocks.simps [of hs ws] sha_compress_def)
qed

lemma length_Sum256 [simp]: "length (Sum256 m) = 32"
proof -
  have four: "length (concat (map (\<lambda>w. [f w, g w, h w, k w]) ws)) = 4 * length ws"
    for ws :: "32 word list" and f g h k :: "32 word \<Rightarrow> 8 word"
    by (induction ws) simp_all
  show ?thesis unfolding Sum256_def by (simp add: four sha_H0_def)
qed

end
