(* ===== verification/Backend.thy ===== *)
theory Backend
  imports Sha256
begin

text \<open>
  \<open>internal/serving/backend\<close>: the identity and address of one inference backend.
  \<open>NewHTTP\<close> derives both from \<open>net.JoinHostPort(address, port)\<close>. \<open>net/url.Parse\<close> is the
  argument \<open>url_parse\<close> of the operations that call it: it returns the scheme and the host of an
  accepted URL and \<open>None\<close> for an error.
\<close>

type_synonym ID = string
type_synonym url_parser = "string \<Rightarrow> (string \<times> string) option"

definition MetadataPodName :: string where
  "MetadataPodName = ''pod_name''"

definition MetadataPodUID :: string where
  "MetadataPodUID = ''pod_uid''"

record Backend =
  bID :: ID
  bURL :: string
  bMetadata :: "(string, string) gomap"

definition zero_Backend :: Backend where
  "zero_Backend = \<lparr>bID = [], bURL = [], bMetadata = []\<rparr>"

datatype backend_error = ErrBackendIDEmpty | ErrBackendURL string

fun dec_nat :: "nat \<Rightarrow> string" where
  "dec_nat n = (if n < 10 then [char_of (48 + n)] else dec_nat (n div 10) @ [char_of (48 + n mod 10)])"

declare dec_nat.simps [simp del]

definition dec_int :: "int \<Rightarrow> string" where
  "dec_int i = (if i < 0 then CHR ''-'' # dec_nat (nat (- i)) else dec_nat (nat i))"

definition JoinHostPort :: "string \<Rightarrow> string \<Rightarrow> string" where
  "JoinHostPort host port =
     (if CHR '':'' \<in> set host then ''['' @ host @ '']:'' @ port else host @ '':'' @ port)"

definition hex_digit :: "nat \<Rightarrow> char" where
  "hex_digit n = (if n < 10 then char_of (48 + n) else char_of (87 + n))"

definition EncodeToString :: "8 word list \<Rightarrow> string" where
  "EncodeToString bs = concat (map (\<lambda>b. [hex_digit (unat b div 16), hex_digit (unat b mod 16)]) bs)"

definition NewHTTP :: "string \<Rightarrow> int \<Rightarrow> (string, string) gomap \<Rightarrow> Backend" where
  "NewHTTP address port metadata =
     (let host = JoinHostPort address (dec_int port);
          sum = Sum256 (string_bytes host)
      in \<lparr>bID = ''endpoint-'' @ EncodeToString (take 6 sum),
          bURL = ''http'' @ ''://'' @ host,
          bMetadata = metadata\<rparr>)"

definition Backend_Validate :: "url_parser \<Rightarrow> Backend \<Rightarrow> backend_error option" where
  "Backend_Validate url_parse b =
     (if bID b = [] then Some ErrBackendIDEmpty
      else (case url_parse (bURL b) of
              None \<Rightarrow> Some (ErrBackendURL (bURL b))
            | Some (scheme, host) \<Rightarrow>
                if host = [] \<or> (scheme \<noteq> ''http'' \<and> scheme \<noteq> ''https'')
                then Some (ErrBackendURL (bURL b)) else None))"

definition dec_value :: "string \<Rightarrow> nat" where
  "dec_value s = foldl (\<lambda>acc c. 10 * acc + (of_char c - 48)) 0 s"

subsection \<open>Decimal printing is injective\<close>

lemma of_char_digit [simp]: "d < 10 \<Longrightarrow> of_char (char_of (48 + d) :: char) = 48 + (d :: nat)"
  by simp

lemma dec_nat_digits: "c \<in> set (dec_nat n) \<Longrightarrow> 48 \<le> (of_char c :: nat)  \<and> (of_char c :: nat) < 58"
proof (induction n rule: dec_nat.induct)
  case (1 n)
  then show ?case
    by (cases "n < 10") (auto simp: dec_nat.simps [of n])
qed

lemma dec_value_dec_nat: "dec_value (dec_nat n) = n"
proof (induction n rule: dec_nat.induct)
  case (1 n)
  then show ?case
    by (cases "n < 10") (auto simp: dec_nat.simps [of n] dec_value_def)
qed

lemma dec_nat_no_minus: "CHR ''-'' # xs \<noteq> dec_nat n"
proof
  assume "CHR ''-'' # xs = dec_nat n"
  then have "CHR ''-'' \<in> set (dec_nat n)" by (metis list.set_intros(1))
  from dec_nat_digits [OF this] show False by simp
qed

lemma dec_int_inj: "dec_int i = dec_int j \<Longrightarrow> i = j"
proof -
  assume eq: "dec_int i = dec_int j"
  have sign: "i < 0 \<longleftrightarrow> j < 0"
    using eq dec_nat_no_minus by (metis dec_int_def)
  with eq have "dec_nat (nat \<bar>i\<bar>) = dec_nat (nat \<bar>j\<bar>)"
    by (cases "i < 0") (simp_all add: dec_int_def)
  then have "nat \<bar>i\<bar> = nat \<bar>j\<bar>" by (metis dec_value_dec_nat)
  with sign show ?thesis by linarith
qed

lemma dec_int_no_colon: "CHR '':'' \<notin> set (dec_int i)"
  using dec_nat_digits [of "CHR '':''"] by (auto simp: dec_int_def)

subsection \<open>An endpoint address determines its URL\<close>

lemma last_sep_unique:
  assumes "a @ c # p = a' @ c # p'" and "c \<notin> set p" and "c \<notin> set p'"
  shows "a = a' \<and> p = p'"
proof -
  have "rev p @ c # rev a = rev p' @ c # rev a'" using arg_cong [OF assms(1), of rev] by simp
  then have "takeWhile (\<lambda>x. x \<noteq> c) (rev p @ c # rev a) = takeWhile (\<lambda>x. x \<noteq> c) (rev p' @ c # rev a')"
    by simp
  moreover have "takeWhile (\<lambda>x. x \<noteq> c) (rev q @ c # rev b) = rev q" if "c \<notin> set q" for q b
    using that by (subst takeWhile_append2) auto
  ultimately have "p = p'" using assms(2,3) by simp
  with assms(1) show ?thesis by simp
qed

lemma JoinHostPort_inj:
  assumes eq: "JoinHostPort h (dec_int p) = JoinHostPort h' (dec_int p')"
  shows "h = h' \<and> p = p'"
proof -
  define host where "host = (\<lambda>h :: string. if CHR '':'' \<in> set h then ''['' @ h @ '']'' else h)"
  have J: "JoinHostPort h (dec_int p) = host h @ CHR '':'' # dec_int p" for h p
    by (simp add: JoinHostPort_def host_def)
  from last_sep_unique [OF eq [unfolded J] dec_int_no_colon dec_int_no_colon]
  have hosts: "host h = host h'" and "p = p'" by (auto dest: dec_int_inj)
  have colon: "CHR '':'' \<in> set (host h) \<longleftrightarrow> CHR '':'' \<in> set h" for h by (simp add: host_def)
  have "CHR '':'' \<in> set h \<longleftrightarrow> CHR '':'' \<in> set h'" using colon [of h] colon [of h'] hosts by simp
  with hosts have "h = h'" by (cases "CHR '':'' \<in> set h") (simp_all add: host_def)
  with \<open>p = p'\<close> show ?thesis by simp
qed

end
