(* ===== verification/Circuit.thy ===== *)
theory Circuit
  imports Float64 Backend
begin

text \<open>
  \<open>internal/serving/circuit\<close>: the transport-error EWMA of every backend and the temporary open
  interval. The clock value read by an operation is its \<open>now\<close> argument; the mutex makes every
  operation one atomic step, so an execution is a sequence of the steps of \<open>circuit_op\<close>.
\<close>

definition OutcomeSuccess :: string where
  "OutcomeSuccess = ''success''"

definition OutcomeFailure :: string where
  "OutcomeFailure = ''failure''"

record circuit_Config =
  EWMAAlpha :: f64
  ErrorThreshold :: f64
  MinimumRequests :: int
  OpenDuration :: duration

datatype circuit_error = ErrAlpha | ErrThreshold | ErrMinimumOrDuration

definition circuit_Config_Validate :: "circuit_Config \<Rightarrow> circuit_error option" where
  "circuit_Config_Validate c =
     (if f_le (EWMAAlpha c) (Fin 0) \<or> f_lt (Fin 1) (EWMAAlpha c) then Some ErrAlpha
      else if f_le (ErrorThreshold c) (Fin 0) \<or> f_lt (Fin 1) (ErrorThreshold c) then Some ErrThreshold
      else if MinimumRequests c \<le> 0 \<or> OpenDuration c \<le> 0 then Some ErrMinimumOrDuration
      else None)"

record circuitState =
  errorEWMA :: f64
  samples :: int
  openUntil :: time

definition zero_circuitState :: circuitState where
  "zero_circuitState = \<lparr>errorEWMA = Fin 0, samples = 0, openUntil = zero_time\<rparr>"

record breaker =
  br_config :: circuit_Config
  br_states :: "(ID, circuitState) gomap"

definition circuit_New :: "circuit_Config \<Rightarrow> circuit_error + breaker" where
  "circuit_New config =
     (case circuit_Config_Validate config of
        Some e \<Rightarrow> Inl e
      | None \<Rightarrow> Inr \<lparr>br_config = config, br_states = []\<rparr>)"

definition ewma_step :: "f64 \<Rightarrow> f64 \<Rightarrow> f64 \<Rightarrow> f64" where
  "ewma_step alpha sample old =
     f_add (f_mul alpha sample) (f_mul (f_sub (Fin 1) alpha) old)"

definition Record :: "time \<Rightarrow> breaker \<Rightarrow> ID \<Rightarrow> string \<Rightarrow> bool \<times> breaker" where
  "Record now b backendID outcome =
     (if backendID = [] \<or> (outcome \<noteq> OutcomeSuccess \<and> outcome \<noteq> OutcomeFailure) then (False, b)
      else
        let config = br_config b;
            state0 = mget zero_circuitState (br_states b) backendID;
            state1 = (if \<not> IsZero (openUntil state0) \<and> \<not> now < openUntil state0
                      then zero_circuitState else state0);
            sample = (if outcome = OutcomeFailure then Fin 1 else Fin 0);
            state2 = state1\<lparr>errorEWMA := (if samples state1 = 0 then sample
                       else ewma_step (EWMAAlpha config) sample (errorEWMA state1))\<rparr>;
            state3 = state2\<lparr>samples := wrap64 (samples state2 + 1)\<rparr>;
            opened = (outcome = OutcomeFailure \<and> samples state3 \<ge> MinimumRequests config
                      \<and> f_le (ErrorThreshold config) (errorEWMA state3));
            state4 = (if opened then state3\<lparr>openUntil := time_add now (OpenDuration config)\<rparr>
                      else state3)
        in (opened, b\<lparr>br_states := AList.update backendID state4 (br_states b)\<rparr>))"

definition IsOpen :: "time \<Rightarrow> breaker \<Rightarrow> ID \<Rightarrow> bool \<times> breaker" where
  "IsOpen now b backendID =
     (case map_of (br_states b) backendID of
        None \<Rightarrow> (False, b)
      | Some state \<Rightarrow>
          if IsZero (openUntil state) then (False, b)
          else if now < openUntil state then (True, b)
          else (False, b\<lparr>br_states := AList.update backendID zero_circuitState (br_states b)\<rparr>))"

definition circuit_Reconcile :: "breaker \<Rightarrow> Backend list \<Rightarrow> ID list \<times> breaker" where
  "circuit_Reconcile b backends =
     (let active = set (map bID backends)
      in (filter (\<lambda>id. id \<notin> active) (map fst (br_states b)),
          b\<lparr>br_states := mkeep (\<lambda>id. id \<in> active) (br_states b)\<rparr>))"

definition circuit_Remove :: "breaker \<Rightarrow> ID \<Rightarrow> breaker" where
  "circuit_Remove b backendID = b\<lparr>br_states := AList.delete backendID (br_states b)\<rparr>"

definition circuit_Len :: "breaker \<Rightarrow> nat" where
  "circuit_Len b = length (br_states b)"

subsection \<open>Executions\<close>

datatype circuit_op =
    OpRecord time ID string
  | OpIsOpen time ID
  | OpReconcile "Backend list"
  | OpRemove ID

fun circuit_step :: "breaker \<Rightarrow> circuit_op \<Rightarrow> breaker" where
  "circuit_step b (OpRecord now bid outcome) = snd (Record now b bid outcome)"
| "circuit_step b (OpIsOpen now bid) = snd (IsOpen now b bid)"
| "circuit_step b (OpReconcile backends) = snd (circuit_Reconcile b backends)"
| "circuit_step b (OpRemove bid) = circuit_Remove b bid"

definition circuit_run :: "breaker \<Rightarrow> circuit_op list \<Rightarrow> breaker" where
  "circuit_run b ops = foldl circuit_step b ops"

fun record_all :: "breaker \<Rightarrow> ID \<Rightarrow> (time \<times> string) list \<Rightarrow> bool list \<times> breaker" where
  "record_all b bid [] = ([], b)"
| "record_all b bid ((now, outcome) # rest) =
     (let (opened, b') = Record now b bid outcome; (os, b'') = record_all b' bid rest
      in (opened # os, b''))"

subsection \<open>Invariant\<close>

text \<open>
  A configuration that \<open>Validate\<close> accepts, its two numbers being values of \<open>float64\<close>. NaN passes the checks,
  which are all comparisons that reject: the properties say what a breaker does with it.
\<close>

definition circuit_config_ok :: "circuit_Config \<Rightarrow> bool" where
  "circuit_config_ok c \<longleftrightarrow> circuit_Config_Validate c = None
     \<and> f64_ok (EWMAAlpha c) \<and> f64_ok (ErrorThreshold c)"

fun unit_f64 :: "f64 \<Rightarrow> bool" where
  "unit_f64 (Fin x) = (is_f64 x \<and> 0 \<le> x \<and> x \<le> 1)"
| "unit_f64 _ = False"

definition circuitState_ok :: "circuit_Config \<Rightarrow> circuitState \<Rightarrow> bool" where
  "circuitState_ok c s \<longleftrightarrow> unit_f64 (errorEWMA s) \<or> EWMAAlpha c = NaN \<and> errorEWMA s = NaN"

definition breaker_ok :: "breaker \<Rightarrow> bool" where
  "breaker_ok b \<longleftrightarrow> circuit_config_ok (br_config b) \<and> gomap_ok (br_states b)
     \<and> mall (\<lambda>bid st. bid \<noteq> [] \<and> circuitState_ok (br_config b) st) (br_states b)"

subsection \<open>The EWMA in binary64\<close>

lemma circuit_config_alpha:
  assumes "circuit_config_ok c" and "EWMAAlpha c \<noteq> NaN"
  obtains a where "EWMAAlpha c = Fin a" and "is_f64 a" and "0 < a" and "a \<le> 1"
  using assms
  by (cases "EWMAAlpha c")
    (auto simp: circuit_config_ok_def circuit_Config_Validate_def f_le_def split: if_splits)

lemma circuit_config_threshold:
  assumes "circuit_config_ok c" and "ErrorThreshold c \<noteq> NaN"
  obtains t where "ErrorThreshold c = Fin t" and "0 < t" and "t \<le> 1"
  using assms
  by (cases "ErrorThreshold c")
    (auto simp: circuit_config_ok_def circuit_Config_Validate_def f_le_def split: if_splits)

lemma ewma_step_Fin:
  assumes a: "is_f64 a" "0 < a" "a \<le> 1" and s: "s = 0 \<or> s = 1" and e: "0 \<le> e" "e \<le> 1"
  shows "ewma_step (Fin a) (Fin s) (Fin e) = Fin (rnd (a * s + rnd (rnd (1 - a) * e)))"
    and "0 \<le> rnd (a * s + rnd (rnd (1 - a) * e))"
    and "rnd (a * s + rnd (rnd (1 - a) * e)) \<le> 1"
proof -
  have u: "rnd64 (1 - a) = Fin (rnd (1 - a)) \<and> 0 \<le> rnd (1 - a) \<and> rnd (1 - a) \<le> 1"
    using a by (intro rnd64_unit) simp_all
  then have m: "0 \<le> rnd (1 - a) * e" "rnd (1 - a) * e \<le> rnd (1 - a)"
    using e by (simp_all add: mult_left_le)
  then have v: "rnd64 (rnd (1 - a) * e) = Fin (rnd (rnd (1 - a) * e)) \<and> 0 \<le> rnd (rnd (1 - a) * e)"
    using u rnd64_unit [of "rnd (1 - a) * e"] by simp
  have le: "rnd (rnd (1 - a) * e) \<le> rnd (1 - a)" using rnd_mono [OF m(2)] by simp
  have as: "rnd64 (a * s) = Fin (a * s)" using a s by (auto intro: rnd64_exact)
  let ?w = "a * s + rnd (rnd (1 - a) * e)"
  have "?w \<le> a + rnd (1 - a)" using le s a by auto
  also have "\<dots> \<le> 1 + 1 / 2 ^ 53" using rnd_unit_le [of "1 - a"] a by simp
  finally have w: "0 \<le> ?w" "?w \<le> 1 + 1 / 2 ^ 53" using v s a by auto
  have "rnd ?w \<le> rnd (1 + 1 / 2 ^ 53)" using w by (intro rnd_mono)
  also have "\<dots> = 1" by (rule rnd_one_above) simp_all
  finally show le1: "rnd ?w \<le> 1" .
  show ge0: "0 \<le> rnd ?w" using w by simp
  have "rnd64 ?w = Fin (rnd ?w)"
  proof (rule rnd64_Fin)
    have "(1::rat) < 2 ^ 1024" by simp
    with le1 show "rnd ?w < 2 ^ 1024" by (rule le_less_trans)
    have "- (2 ^ 1024) < (0::rat)" by simp
    then show "- (2 ^ 1024) < rnd ?w" using ge0 by (rule less_le_trans)
  qed
  then show "ewma_step (Fin a) (Fin s) (Fin e) = Fin (rnd ?w)"
    using u v as by (simp add: ewma_step_def f_sub_def)
qed

lemma ewma_step_unit:
  assumes "circuit_config_ok c" and "s = 0 \<or> s = 1" and "unit_f64 old" and "EWMAAlpha c \<noteq> NaN"
  shows "unit_f64 (ewma_step (EWMAAlpha c) (Fin s) old)"
proof -
  obtain a where a: "EWMAAlpha c = Fin a" "is_f64 a" "0 < a" "a \<le> 1"
    using assms(1,4) by (rule circuit_config_alpha)
  obtain e where e: "old = Fin e" "0 \<le> e" "e \<le> 1" using assms(3) by (cases old) auto
  let ?r = "rnd (a * s + rnd (rnd (1 - a) * e))"
  note E = ewma_step_Fin [OF a(2-4) assms(2) e(2,3)]
  have "\<bar>?r\<bar> \<le> 1" using E(2,3) by simp
  also have "(1::rat) < 2 ^ 1024" by simp
  finally have "is_f64 ?r" by (simp add: is_f64_def)
  with E a e show ?thesis by simp
qed

text \<open>A failure that follows only failures keeps the average at exactly one.\<close>

lemma ewma_step_NaN: "ewma_step NaN x y = NaN"
  by (simp add: ewma_step_def)

lemma ewma_step_saturated:
  assumes "circuit_config_ok c" and "EWMAAlpha c \<noteq> NaN"
  shows "ewma_step (EWMAAlpha c) (Fin 1) (Fin 1) = Fin 1"
proof -
  obtain a where a: "EWMAAlpha c = Fin a" "is_f64 a" "0 < a" "a \<le> 1"
    using assms by (rule circuit_config_alpha)
  have err: "rnd (1 - a) \<le> 1 - a + 1 / 2 ^ 54" "1 - a - 1 / 2 ^ 54 \<le> rnd (1 - a)"
    using a by (intro rnd_unit_le rnd_unit_ge; simp)+
  have "rnd (a + rnd (1 - a)) = 1"
  proof (cases "1 \<le> a + rnd (1 - a)")
    case True
    then show ?thesis by (rule rnd_one_above) (use err in simp)
  next
    case False
    then show ?thesis by (intro rnd_one_below) (use err in simp_all)
  qed
  with ewma_step_Fin(1) [OF a(2-4), of 1 1] a(1) show ?thesis by simp
qed

subsection \<open>Every operation keeps the invariant\<close>

lemma zero_circuitState_ok [simp]: "circuitState_ok c zero_circuitState"
  by (simp add: circuitState_ok_def zero_circuitState_def)

lemma breaker_ok_state:
  "breaker_ok b \<Longrightarrow> circuitState_ok (br_config b) (mget zero_circuitState (br_states b) bid)"
  by (auto simp: breaker_ok_def mall_def mget_def split: option.splits)

lemma breaker_ok_update:
  "breaker_ok b \<Longrightarrow> bid \<noteq> [] \<Longrightarrow> circuitState_ok (br_config b) st \<Longrightarrow>
     breaker_ok (b\<lparr>br_states := AList.update bid st (br_states b)\<rparr>)"
  by (simp add: breaker_ok_def mall_update)

lemma Record_ok: "breaker_ok b \<Longrightarrow> breaker_ok (snd (Record now b bid outcome))"
proof -
  assume b: "breaker_ok b"
  then have c: "circuit_config_ok (br_config b)" by (simp add: breaker_ok_def)
  let ?old = "mget zero_circuitState (br_states b) bid"
  have step: "circuitState_ok (br_config b) (st\<lparr>errorEWMA := ewma_step (EWMAAlpha (br_config b)) (Fin s) (errorEWMA ?old)\<rparr>)"
    if "s = 0 \<or> s = 1" for s st
    using ewma_step_unit [OF c that] ewma_step_NaN breaker_ok_state [OF b, of bid]
    by (cases "EWMAAlpha (br_config b) = NaN") (auto simp: circuitState_ok_def)
  show ?thesis
    using b step [of 0] step [of 1]
    by (auto simp: Record_def Let_def circuitState_ok_def zero_circuitState_def intro!: breaker_ok_update)
qed

lemma IsOpen_ok: "breaker_ok b \<Longrightarrow> breaker_ok (snd (IsOpen now b bid))"
  by (auto simp: IsOpen_def breaker_ok_def mall_def update_conv' split: option.splits)

lemma circuit_Reconcile_ok: "breaker_ok b \<Longrightarrow> breaker_ok (snd (circuit_Reconcile b backends))"
  by (simp add: circuit_Reconcile_def breaker_ok_def mall_mkeep Let_def)

lemma circuit_Remove_ok: "breaker_ok b \<Longrightarrow> breaker_ok (circuit_Remove b bid)"
  by (simp add: circuit_Remove_def breaker_ok_def mall_delete)

lemmas circuit_ok_intros = Record_ok IsOpen_ok circuit_Reconcile_ok circuit_Remove_ok

lemma circuit_step_ok: "breaker_ok b \<Longrightarrow> breaker_ok (circuit_step b op)"
  by (cases op) (simp_all add: circuit_ok_intros)

lemma circuit_run_ok: "breaker_ok b \<Longrightarrow> breaker_ok (circuit_run b ops)"
  unfolding circuit_run_def by (induction ops arbitrary: b) (simp_all add: circuit_step_ok)

lemma circuit_step_config: "br_config (circuit_step b op) = br_config b"
  by (cases op) (simp_all add: Record_def IsOpen_def circuit_Reconcile_def circuit_Remove_def Let_def split: option.split)

lemma circuit_run_config: "br_config (circuit_run b ops) = br_config b"
  unfolding circuit_run_def by (induction ops arbitrary: b) (simp_all add: circuit_step_config)

subsection \<open>When a circuit opens\<close>

definition streak :: "breaker \<Rightarrow> ID \<Rightarrow> int \<Rightarrow> bool" where
  \<comment> \<open>the backend has seen \<open>k\<close> failures and nothing else, and its circuit is closed\<close>
  "streak b bid k \<longleftrightarrow>
     (let st = mget zero_circuitState (br_states b) bid
      in samples st = k \<and> openUntil st = zero_time
         \<and> (0 < k \<longrightarrow> errorEWMA st = (if EWMAAlpha (br_config b) = NaN \<and> 1 < k then NaN else Fin 1)))"

lemma Outcome_distinct [simp]: "OutcomeSuccess \<noteq> OutcomeFailure"
  by (simp add: OutcomeSuccess_def OutcomeFailure_def)

lemma Record_config [simp]: "br_config (snd (Record now b bid outcome)) = br_config b"
  by (simp add: Record_def Let_def)

definition can_open :: "circuit_Config \<Rightarrow> bool" where
  \<comment> \<open>a threshold and, where more than one failure is averaged, a weight that are numbers\<close>
  "can_open c \<longleftrightarrow> ErrorThreshold c \<noteq> NaN \<and> (EWMAAlpha c \<noteq> NaN \<or> MinimumRequests c = 1)"

lemma failure_average:
  assumes "circuit_config_ok c" and "old = (if EWMAAlpha c = NaN \<and> (1 :: int) < k then NaN else Fin 1)" and "0 < k"
  shows "ewma_step (EWMAAlpha c) (Fin 1) old = (if EWMAAlpha c = NaN \<and> 1 < k + 1 then NaN else Fin 1)"
  using assms(2,3) ewma_step_saturated [OF assms(1)] ewma_step_NaN by auto

lemma threshold_reached:
  assumes "circuit_config_ok c" and "0 < k"
  shows "f_le (ErrorThreshold c) (if EWMAAlpha c = NaN \<and> 1 < k then NaN else Fin 1)
    \<longleftrightarrow> ErrorThreshold c \<noteq> NaN \<and> (EWMAAlpha c \<noteq> NaN \<or> k = (1 :: int))"
proof (cases "ErrorThreshold c = NaN")
  case False
  obtain t where "ErrorThreshold c = Fin t" "0 < t" "t \<le> 1" using assms(1) False by (rule circuit_config_threshold)
  then show ?thesis using assms(2) by (auto simp: f_le_def)
qed (simp add: f_le_def)

lemma Record_streak:
  fixes now :: time
  assumes c: "circuit_config_ok (br_config b)" "in_int64 (MinimumRequests (br_config b))"
    and b: "bid \<noteq> []" "streak b bid k" "0 \<le> k" "k < MinimumRequests (br_config b)"
  defines "r \<equiv> Record now b bid OutcomeFailure"
  shows "fst r \<longleftrightarrow> k + 1 = MinimumRequests (br_config b) \<and> can_open (br_config b)"
    and "k + 1 < MinimumRequests (br_config b) \<Longrightarrow> streak (snd r) bid (k + 1)"
proof -
  let ?c = "br_config b" and ?avg = "if EWMAAlpha (br_config b) = NaN \<and> 1 < k + 1 then NaN else Fin 1"
  let ?old = "mget zero_circuitState (br_states b) bid"
  have w: "wrap64 (k + 1) = k + 1"
    using b c by (intro wrap64_id) (auto simp: in_int64_def min_int64_def)
  have old: "samples ?old = k" "IsZero (openUntil ?old)" using b(2) by (simp_all add: streak_def Let_def IsZero_def)
  have avg: "(if samples ?old = 0 then Fin 1 else ewma_step (EWMAAlpha ?c) (Fin 1) (errorEWMA ?old)) = ?avg"
    using b(2,3) failure_average [OF c(1), of "errorEWMA ?old" k] by (auto simp: streak_def Let_def)
  have opens: "k + 1 \<ge> MinimumRequests ?c \<and> f_le (ErrorThreshold ?c) ?avg \<longleftrightarrow> k + 1 = MinimumRequests ?c \<and> can_open ?c"
    using b(3,4) threshold_reached [OF c(1), of "k + 1"] by (auto simp: can_open_def)
  define a where "a = (if samples ?old = 0 then Fin 1 else ewma_step (EWMAAlpha ?c) (Fin 1) (errorEWMA ?old))"
  define opened where "opened = (wrap64 (samples ?old + 1) \<ge> MinimumRequests ?c \<and> f_le (ErrorThreshold ?c) a)"
  define st where "st = ?old\<lparr>errorEWMA := a, samples := wrap64 (samples ?old + 1)\<rparr>"
  have step: "r = (opened, b\<lparr>br_states := AList.update bid
      (if opened then st\<lparr>openUntil := time_add now (OpenDuration ?c)\<rparr> else st) (br_states b)\<rparr>)"
    using b(1) old(2) unfolding r_def Record_def Let_def opened_def st_def a_def by (simp cong: if_cong)
  have a: "a = ?avg" "wrap64 (samples ?old + 1) = k + 1" using avg w unfolding a_def old(1) by simp_all
  have "opened \<longleftrightarrow> k + 1 = MinimumRequests ?c \<and> can_open ?c" unfolding opened_def a by (rule opens)
  note r = step [unfolded this] and st = st_def [unfolded a]
  show "fst r \<longleftrightarrow> k + 1 = MinimumRequests ?c \<and> can_open ?c" by (simp add: r)
  assume "k + 1 < MinimumRequests ?c"
  then show "streak (snd r) bid (k + 1)" using b(2,3) by (simp add: r st streak_def mget_update Let_def)
qed

lemma streak_opens:
  assumes "circuit_config_ok (br_config b)" "in_int64 (MinimumRequests (br_config b))"
    and "bid \<noteq> []" "streak b bid k" "0 \<le> k" "k + int (length ts) + 1 = MinimumRequests (br_config b)"
  shows "fst (record_all b bid (map (\<lambda>t. (t, OutcomeFailure)) (ts @ [t']))) =
     replicate (length ts) False @ [can_open (br_config b)]"
  using assms
proof (induction ts arbitrary: b k)
  case Nil
  then show ?case using Record_streak(1) [of b bid k] by (auto simp: case_prod_beta)
next
  case (Cons t ts)
  let ?r = "Record t b bid OutcomeFailure"
  have k: "k < MinimumRequests (br_config b)" "k + 1 < MinimumRequests (br_config b)"
    using Cons.prems by simp_all
  have "fst ?r = False" and "streak (snd ?r) bid (k + 1)"
    using Record_streak [OF Cons.prems(1-5) k(1)] k(2) by auto
  then show ?case
    using Cons.IH [of "snd ?r" "k + 1"] Cons.prems by (simp add: case_prod_beta)
qed

definition sample_count :: "breaker \<Rightarrow> ID \<Rightarrow> int" where
  "sample_count b bid = samples (mget zero_circuitState (br_states b) bid)"

lemma Record_sample_count:
  assumes "0 \<le> sample_count b bid" and "sample_count b bid \<le> k" and "0 \<le> k" and "k < max_int64"
  shows "0 \<le> sample_count (snd (Record now b bid outcome)) bid"
    and "sample_count (snd (Record now b bid outcome)) bid \<le> k + 1"
    and "fst (Record now b bid outcome) \<Longrightarrow> MinimumRequests (br_config b) \<le> k + 1"
proof -
  have "wrap64 (sample_count b bid + 1) = sample_count b bid + 1" "wrap64 1 = 1"
    using assms by (auto simp: in_int64_def min_int64_def max_int64_def intro!: wrap64_id)
  note w = this [unfolded sample_count_def]
  show "0 \<le> sample_count (snd (Record now b bid outcome)) bid"
    and "sample_count (snd (Record now b bid outcome)) bid \<le> k + 1"
    and "fst (Record now b bid outcome) \<Longrightarrow> MinimumRequests (br_config b) \<le> k + 1"
    using assms w unfolding sample_count_def
    by (auto simp: Record_def Let_def mget_update zero_circuitState_def split: if_splits)
qed

lemma short_history_closed:
  assumes "0 \<le> sample_count b bid" and "sample_count b bid \<le> k" and "0 \<le> k"
    and "k + int (length rs) < MinimumRequests (br_config b)"
    and "MinimumRequests (br_config b) \<le> max_int64"
  shows "True \<notin> set (fst (record_all b bid rs))"
  using assms
proof (induction rs arbitrary: b k)
  case (Cons r rs)
  obtain now outcome where r: "r = (now, outcome)" by (cases r)
  let ?r = "Record now b bid outcome"
  have "k < max_int64" using Cons.prems(4,5) by simp
  note step = Record_sample_count [OF Cons.prems(1-3) this, of now outcome]
  have "\<not> fst ?r" using step(3) Cons.prems(4) by auto
  moreover have "True \<notin> set (fst (record_all (snd ?r) bid rs))"
    using step(1,2) Cons.prems(3-5) by (intro Cons.IH [where k = "k + 1"]) simp_all
  ultimately show ?case by (simp add: r case_prod_beta)
qed simp

subsection \<open>Properties\<close>

text \<open>
  C20. Whatever sequence of records, probes, reconciliations and removals runs on a breaker built
  from a configuration that \<open>Validate\<close> accepts (its numbers being values of \<open>float64\<close>), keys stay distinct and
  non-empty and every error average stays a representable \<open>float64\<close> between zero and one: rounding never
  pushes it out of range. The one exception is the weight NaN, which \<open>Validate\<close> accepts: then, and only then,
  an average can be NaN.
\<close>

theorem circuit_average_in_range:
  assumes "circuit_New config = Inr b" and "f64_ok (EWMAAlpha config)" and "f64_ok (ErrorThreshold config)"
  shows "distinct (map fst (br_states (circuit_run b ops)))
    \<and> (\<forall>(bid, st) \<in> set (br_states (circuit_run b ops)).
         bid \<noteq> [] \<and> (unit_f64 (errorEWMA st) \<or> EWMAAlpha config = NaN \<and> errorEWMA st = NaN))"
proof -
  have "breaker_ok b" "br_config b = config"
    using assms by (auto simp: circuit_New_def breaker_ok_def circuit_config_ok_def split: option.splits)
  then have "breaker_ok (circuit_run b ops)" "br_config (circuit_run b ops) = config"
    using circuit_run_ok circuit_run_config by simp_all
  then have "distinct (map fst (br_states (circuit_run b ops)))"
    and "mall (\<lambda>bid st. bid \<noteq> [] \<and> circuitState_ok config st) (br_states (circuit_run b ops))"
    by (simp_all add: breaker_ok_def gomap_ok_def)
  then show ?thesis unfolding mall_def circuitState_ok_def by fastforce
qed

definition wit_circuit_config :: circuit_Config where
  "wit_circuit_config = \<lparr>EWMAAlpha = Fin (1 / 2), ErrorThreshold = Fin (1 / 2),
     MinimumRequests = 2, OpenDuration = 10\<rparr>"

definition wit_breaker :: breaker where
  "wit_breaker = \<lparr>br_config = wit_circuit_config, br_states = []\<rparr>"

lemma is_f64_half [simp]: "is_f64 (1 / 2)"
  using is_f64_div_pow2 [of 1 1] by simp

lemma wit_circuit_config_ok: "circuit_config_ok wit_circuit_config"
  by (simp add: circuit_config_ok_def circuit_Config_Validate_def wit_circuit_config_def f_le_def)

lemma wit_circuit_New: "circuit_New wit_circuit_config = Inr wit_breaker"
  using wit_circuit_config_ok
  by (simp add: circuit_New_def circuit_config_ok_def wit_breaker_def)

theorem circuit_average_in_range_witness:
  "list_all (\<lambda>(bid, st). bid \<noteq> [] \<and> unit_f64 (errorEWMA st)) (br_states (circuit_run wit_breaker
      [OpRecord 5 ''a'' OutcomeFailure, OpRecord 6 ''a'' OutcomeSuccess, OpIsOpen 7 ''a'']))"
  using circuit_average_in_range [OF wit_circuit_New] wit_circuit_config_ok
  by (auto simp: circuit_config_ok_def wit_circuit_config_def list_all_iff)

text \<open>
  C21. A backend with no history that only fails is opened by its \<open>MinimumRequests\<close>-th failure and
  by no earlier one, whatever the times, under every configuration that \<open>Validate\<close> accepts and whose threshold
  and weight are numbers: in \<open>float64\<close> arithmetic the average of failures is exactly one, so it reaches every
  such threshold. \<open>Validate\<close> also accepts NaN: with that threshold not even this failure opens the circuit,
  and with that weight only when one failure is enough.
\<close>

theorem failure_streak_opens_circuit:
  assumes "circuit_Config_Validate (br_config b) = None" and "in_int64 (MinimumRequests (br_config b))"
    and "f64_ok (EWMAAlpha (br_config b))" and "f64_ok (ErrorThreshold (br_config b))"
    and "bid \<noteq> []" and "map_of (br_states b) bid = None"
    and "int (length ts) + 1 = MinimumRequests (br_config b)"
  shows "fst (record_all b bid (map (\<lambda>t. (t, OutcomeFailure)) (ts @ [t']))) =
     replicate (length ts) False
       @ [ErrorThreshold (br_config b) \<noteq> NaN \<and> (EWMAAlpha (br_config b) \<noteq> NaN \<or> MinimumRequests (br_config b) = 1)]"
proof -
  have "circuit_config_ok (br_config b)" using assms by (simp add: circuit_config_ok_def)
  moreover have "streak b bid 0" using assms(6) by (simp add: streak_def mget_None zero_circuitState_def)
  ultimately show ?thesis using streak_opens [of b bid 0 ts t'] assms by (simp add: can_open_def)
qed

theorem failure_streak_opens_circuit_witness:
  "fst (record_all wit_breaker ''a'' [(5, OutcomeFailure), (6, OutcomeFailure)]) = [False, True]"
  using failure_streak_opens_circuit [of wit_breaker "''a''" "[5]" 6] wit_circuit_config_ok
  by (simp add: circuit_config_ok_def wit_breaker_def wit_circuit_config_def in_int64_def min_int64_def max_int64_def)

text \<open>
  A backend with no history is never opened before \<open>MinimumRequests\<close> outcomes were recorded,
  whatever the outcomes are.
\<close>

theorem short_history_never_opens:
  assumes "map_of (br_states b) bid = None" and "int (length rs) < MinimumRequests (br_config b)"
    and "MinimumRequests (br_config b) \<le> max_int64"
  shows "True \<notin> set (fst (record_all b bid rs))"
  using assms by (intro short_history_closed [where k = 0])
    (auto simp: sample_count_def mget_None zero_circuitState_def)

theorem short_history_never_opens_witness:
  "True \<notin> set (fst (record_all wit_breaker ''a'' [(5, OutcomeFailure)]))"
  by (rule short_history_never_opens)
    (simp_all add: wit_breaker_def wit_circuit_config_def max_int64_def)

text \<open>
  A record that reports the circuit opened makes it open exactly until \<open>OpenDuration\<close> later:
  a probe at \<open>t\<close> answers open iff \<open>t\<close> is before the end of the interval, and the first probe at
  or after the end resets the backend's history to the zero state.
\<close>

theorem opened_circuit_window:
  assumes "Record now b bid outcome = (True, b')" and "0 \<le> now" and "0 < OpenDuration (br_config b)"
  shows "(fst (IsOpen t b' bid) \<longleftrightarrow> t < now + OpenDuration (br_config b))
    \<and> (now + OpenDuration (br_config b) \<le> t \<longrightarrow>
      map_of (br_states (snd (IsOpen t b' bid))) bid = Some zero_circuitState)"
  using assms
  by (auto simp: Record_def Let_def IsOpen_def IsZero_def zero_time_def time_add_def update_conv'
      split: if_splits)

definition wit_opened :: breaker where
  "wit_opened = \<lparr>br_config = wit_circuit_config, br_states =
     [(''a'', \<lparr>errorEWMA = Fin 1, samples = 2, openUntil = 16\<rparr>)]\<rparr>"

lemma wit_Record_opens:
  "Record 6 (snd (Record 5 wit_breaker ''a'' OutcomeFailure)) ''a'' OutcomeFailure = (True, wit_opened)"
proof -
  have "ewma_step (Fin (1 / 2)) (Fin 1) (Fin 1) = Fin 1"
    using ewma_step_saturated [OF wit_circuit_config_ok] by (simp add: wit_circuit_config_def)
  then show ?thesis
    by (simp add: Record_def Let_def wit_breaker_def wit_circuit_config_def wit_opened_def
        mget_def zero_circuitState_def IsZero_def zero_time_def time_add_def f_le_def wrap64_def)
qed

theorem opened_circuit_window_witness:
  "fst (IsOpen 15 wit_opened ''a'') \<and> \<not> fst (IsOpen 16 wit_opened ''a'')"
  using opened_circuit_window [OF wit_Record_opens, of 15]
    opened_circuit_window [OF wit_Record_opens, of 16]
  by (simp add: wit_breaker_def wit_circuit_config_def)

text \<open>
  Once the open interval has passed, the next recorded outcome is handled as if the backend had
  never been seen: the verdict and the stored state equal those of a breaker from which the
  backend was removed.
\<close>

theorem expired_circuit_forgets:
  assumes "map_of (br_states b) bid = Some st" and "\<not> IsZero (openUntil st)" and "openUntil st \<le> now"
  shows "fst (Record now b bid outcome) = fst (Record now (circuit_Remove b bid) bid outcome)
    \<and> (outcome = OutcomeSuccess \<or> outcome = OutcomeFailure \<longrightarrow> bid \<noteq> [] \<longrightarrow>
        map_of (br_states (snd (Record now b bid outcome))) bid =
        map_of (br_states (snd (Record now (circuit_Remove b bid) bid outcome))) bid)"
proof -
  have "mget zero_circuitState (br_states b) bid = st" using assms(1) by (rule mget_Some)
  moreover have "mget zero_circuitState (br_states (circuit_Remove b bid)) bid = zero_circuitState"
    by (simp add: circuit_Remove_def mget_delete)
  ultimately show ?thesis
    using assms(2,3)
    by (auto simp: Record_def Let_def circuit_Remove_def update_conv' zero_circuitState_def
        IsZero_def)
qed

theorem expired_circuit_forgets_witness:
  "map_of (br_states (snd (Record 16 wit_opened ''a'' OutcomeSuccess))) ''a'' =
     map_of (br_states (snd (Record 16 (circuit_Remove wit_opened ''a'') ''a'' OutcomeSuccess))) ''a''"
  using expired_circuit_forgets [of wit_opened "''a''" _ 16 OutcomeSuccess]
  by (simp add: wit_opened_def IsZero_def zero_time_def)

text \<open>
  Reconciling with a membership list reports exactly the tracked backends that left it, stops
  tracking exactly those, and leaves the state of every remaining backend as it was.
\<close>

theorem circuit_Reconcile_spec:
  "set (fst (circuit_Reconcile b backends)) = fst ` set (br_states b) - bID ` set backends
   \<and> map_of (br_states (snd (circuit_Reconcile b backends))) =
       map_of (br_states b) |` (bID ` set backends)"
  by (auto simp: circuit_Reconcile_def Let_def map_of_mkeep restrict_map_def)

text \<open>
  The configuration check lets an undefined (\<open>NaN\<close>) smoothing factor or threshold through,
  although it is meant to admit only values in (0, 1]; with such a threshold no sequence of
  failures ever opens a circuit.
\<close>

theorem circuit_NaN_threshold_accepted:
  "circuit_Config_Validate \<lparr>EWMAAlpha = a, ErrorThreshold = NaN, MinimumRequests = m, OpenDuration = d\<rparr> =
     circuit_Config_Validate \<lparr>EWMAAlpha = a, ErrorThreshold = Fin 1, MinimumRequests = m, OpenDuration = d\<rparr>
   \<and> \<not> fst (Record now \<lparr>br_config = \<lparr>EWMAAlpha = a, ErrorThreshold = NaN, MinimumRequests = m,
       OpenDuration = d\<rparr>, br_states = sts\<rparr> bid outcome)"
  by (simp add: circuit_Config_Validate_def Record_def Let_def f_le_def)

subsection \<open>The contract the request path relies on\<close>

locale circuit_contract =
  fixes rec :: "time \<Rightarrow> 'b \<Rightarrow> ID \<Rightarrow> string \<Rightarrow> bool \<times> 'b"
    and probe :: "time \<Rightarrow> 'b \<Rightarrow> ID \<Rightarrow> bool \<times> 'b"
    and reconcile :: "'b \<Rightarrow> Backend list \<Rightarrow> ID list \<times> 'b"
    and remove :: "'b \<Rightarrow> ID \<Rightarrow> 'b"
    and tracked :: "'b \<Rightarrow> ID set"
  assumes tracked_rec: "tracked (snd (rec now b bid outcome)) \<subseteq> insert bid (tracked b)"
    and tracked_probe: "tracked (snd (probe now b bid)) = tracked b"
    and probe_untracked: "bid \<notin> tracked b \<Longrightarrow> \<not> fst (probe now b bid)"
    and tracked_reconcile: "tracked (snd (reconcile b bs)) = tracked b \<inter> bID ` set bs"
    and tracked_remove: "tracked (remove b bid) = tracked b - {bid}"
begin

text \<open>Probing a list of backends, as the request path does when it builds a snapshot.\<close>

lemma tracked_probe_all:
  "tracked (foldl (\<lambda>b bid. snd (probe now b bid)) b bids) = tracked b"
  by (induction bids arbitrary: b) (simp_all add: tracked_probe)

lemma reconcile_then_closed:
  "bid \<notin> bID ` set bs \<Longrightarrow> \<not> fst (probe now (snd (reconcile b bs)) bid)"
  by (rule probe_untracked) (simp add: tracked_reconcile)

end

definition circuit_tracked :: "breaker \<Rightarrow> ID set" where
  "circuit_tracked b = fst ` set (br_states b)"

interpretation circuits: circuit_contract Record IsOpen circuit_Reconcile circuit_Remove circuit_tracked
proof unfold_locales
  show "circuit_tracked (snd (Record now b bid outcome)) \<subseteq> insert bid (circuit_tracked b)"
    for now b bid outcome
    by (auto simp: Record_def Let_def circuit_tracked_def dom_update)
  show "circuit_tracked (snd (IsOpen now b bid)) = circuit_tracked b" for now b bid
    by (force simp: IsOpen_def circuit_tracked_def dom_update
        dest: map_of_SomeD split: option.splits)
  show "\<not> fst (IsOpen now b bid)" if "bid \<notin> circuit_tracked b" for now b bid
    using that by (force simp: IsOpen_def circuit_tracked_def dest: map_of_SomeD split: option.splits)
  show "circuit_tracked (snd (circuit_Reconcile b bs)) = circuit_tracked b \<inter> bID ` set bs" for b bs
    by (auto simp: circuit_Reconcile_def circuit_tracked_def mkeep_def Let_def)
  show "circuit_tracked (circuit_Remove b bid) = circuit_tracked b - {bid}" for b bid
    by (simp add: circuit_Remove_def circuit_tracked_def dom_delete)
qed

end
