(* ===== verification/Discovery.thy ===== *)
theory Discovery
  imports Backend "HOL-Library.Multiset"
begin

text \<open>
  \<open>internal/serving/discovery\<close>: the static resolver and the EndpointSlice resolver with its cached
  slices, its published backend list and its status. One list call, one decoded watch event and
  one status read are one step each; the goroutines are sequences of steps, each under the mutex.
  The HTTP exchange and the JSON decoder are I/O: their outcome (an error text or the decoded value)
  is an argument. \<open>iterate\<close> stands for the iteration order of the map of distinct endpoints, which
  is also the freedom that the unstable \<open>sort.Slice\<close> has among equal keys.
\<close>

subsection \<open>Static list\<close>

definition ModeStatic :: string where "ModeStatic = ''static''"
definition ModeEndpointSlice :: string where "ModeEndpointSlice = ''endpointslice''"

datatype discovery_status = DiscoveryOK | DiscoveryDegraded | DiscoveryUnavailable

definition discovery_Mode_Validate :: "string \<Rightarrow> bool" where
  "discovery_Mode_Validate m \<longleftrightarrow> m = ModeStatic \<or> m = ModeEndpointSlice"

record ResolverStatus =
  rs_Status :: discovery_status
  rs_LastSuccess :: time
  rs_LastError :: string
  rs_Freshness :: duration
  rs_ReadyBackends :: int
  rs_ResourceVersion :: string

datatype discovery_error = ErrStaticEmpty | ErrStaticBackend | ErrNamespace | ErrServiceName | ErrTokenFile
  | ErrAPIURL string | ErrRefreshInterval | ErrClient string | ErrAPI string | ErrNoReady | ErrDiscoveryMode string

definition NewStatic :: "Backend list \<Rightarrow> discovery_error + Backend list" where
  "NewStatic backends =
     (if length backends = 0 then Inl ErrStaticEmpty
      else if list_ex (\<lambda>b. bID b = '''' \<or> bURL b = '''') backends then Inl ErrStaticBackend
      else Inr backends)"

definition static_Status :: "Backend list \<Rightarrow> ResolverStatus" where
  "static_Status backends = \<lparr>rs_Status = DiscoveryOK, rs_LastSuccess = zero_time, rs_LastError = '''',
     rs_Freshness = 0, rs_ReadyBackends = int (length backends), rs_ResourceVersion = ''''\<rparr>"

subsection \<open>EndpointSlice objects\<close>

record endpointSlicePort =
  port_Name :: "string option"
  port_Port :: "int option"
  port_Protocol :: "string option"

record endpointTargetRef =
  ref_Kind :: string
  ref_Name :: string
  ref_UID :: string

record endpointEntry =
  ee_Addresses :: "string list"
  ee_TargetRef :: "endpointTargetRef option"
  ee_Ready :: "bool option"
  ee_Serving :: "bool option"
  ee_Terminating :: "bool option"

record endpointSliceResource =
  es_Name :: string
  es_ResourceVersion :: string
  es_AddressType :: string
  es_Ports :: "endpointSlicePort list"
  es_Endpoints :: "endpointEntry list"

record endpointSliceList =
  el_ResourceVersion :: string
  el_Items :: "endpointSliceResource list"

record addressPort =
  ap_address :: string
  ap_port :: int
  ap_podName :: string
  ap_podUID :: string

fun endpoint_port_loop :: "int \<Rightarrow> endpointSlicePort list \<Rightarrow> int \<times> bool" where
  "endpoint_port_loop first [] = (first, first > 0)"
| "endpoint_port_loop first (p # ps) =
     (case port_Port p of None \<Rightarrow> endpoint_port_loop first ps
      | Some n \<Rightarrow>
          if n \<le> 0 then endpoint_port_loop first ps
          else if port_Name p = Some ''http'' then (n, True)
          else endpoint_port_loop (if first = 0 then n else first) ps)"

definition endpointPort :: "endpointSlicePort list \<Rightarrow> int \<times> bool" where
  "endpointPort ports = endpoint_port_loop 0 ports"

definition endpoint_key :: "int \<Rightarrow> endpointEntry \<Rightarrow> string \<Rightarrow> addressPort" where
  "endpoint_key port endpoint address =
     (case ee_TargetRef endpoint of
        Some ref \<Rightarrow>
          if ref_Kind ref = ''Pod''
          then \<lparr>ap_address = address, ap_port = port, ap_podName = ref_Name ref, ap_podUID = ref_UID ref\<rparr>
          else \<lparr>ap_address = address, ap_port = port, ap_podName = '''', ap_podUID = ''''\<rparr>
      | None \<Rightarrow> \<lparr>ap_address = address, ap_port = port, ap_podName = '''', ap_podUID = ''''\<rparr>)"

definition slice_keys :: "endpointSliceResource \<Rightarrow> addressPort list" where
  \<comment> \<open>the body of the loop over the slices\<close>
  "slice_keys item =
     (if es_AddressType item \<noteq> ''IPv4'' \<and> es_AddressType item \<noteq> ''IPv6'' then []
      else case endpointPort (es_Ports item) of (port, ok) \<Rightarrow>
        if \<not> ok then []
        else concat (map (\<lambda>endpoint.
               if ee_Ready endpoint \<noteq> Some True then []
               else map (endpoint_key port endpoint) (filter (\<lambda>a. TrimSpace a \<noteq> '''') (ee_Addresses endpoint)))
             (es_Endpoints item)))"

definition key_backend :: "addressPort \<Rightarrow> Backend" where
  "key_backend key =
     NewHTTP (ap_address key) (ap_port key)
       ((if ap_podName key \<noteq> '''' then [(MetadataPodName, ap_podName key)] else [])
        @ (if ap_podUID key \<noteq> '''' then [(MetadataPodUID, ap_podUID key)] else []))"

definition buildBackendsFromMap ::
  "(addressPort list \<Rightarrow> addressPort list) \<Rightarrow> (string, endpointSliceResource) gomap \<Rightarrow> Backend list" where
  "buildBackendsFromMap iterate items =
     (let unique = remdups (concat (map (slice_keys \<circ> snd) items));
          keys = sort_key (\<lambda>k. (ap_address k, ap_port k)) (iterate unique)
      in map key_backend keys)"

fun items_by_name :: "int \<Rightarrow> endpointSliceResource list \<Rightarrow> (string, endpointSliceResource) gomap
    \<Rightarrow> (string, endpointSliceResource) gomap" where
  "items_by_name index [] m = m"
| "items_by_name index (item # items) m =
     (let key = (if es_Name item = '''' then ''item-'' @ dec_int index else es_Name item)
      in items_by_name (index + 1) items (AList.update key item m))"

definition buildBackends ::
  "(addressPort list \<Rightarrow> addressPort list) \<Rightarrow> endpointSliceResource list \<Rightarrow> Backend list" where
  "buildBackends iterate items = buildBackendsFromMap iterate (items_by_name 0 items [])"

subsection \<open>The resolver\<close>

record EndpointSliceConfig =
  ec_Namespace :: string
  ec_ServiceName :: string
  ec_BaseURL :: string
  ec_TokenFile :: string
  ec_CAFile :: string
  ec_RefreshInterval :: duration

record endpointSliceResolver =
  er_config :: EndpointSliceConfig
  er_version :: string
  er_slices :: "(string, endpointSliceResource) gomap"
  er_backends :: "Backend list"
  er_status :: ResolverStatus

definition discovery_recordError :: "string \<Rightarrow> endpointSliceResolver \<Rightarrow> endpointSliceResolver" where
  "discovery_recordError message r =
     r\<lparr>er_status := (er_status r)\<lparr>
        rs_Status := (if IsZero (rs_LastSuccess (er_status r)) then DiscoveryUnavailable else DiscoveryDegraded),
        rs_LastError := message, rs_ReadyBackends := int (length (er_backends r)),
        rs_ResourceVersion := er_version r\<rparr>\<rparr>"

definition noReadyError :: "EndpointSliceConfig \<Rightarrow> string" where
  "noReadyError c = ''service '' @ ec_Namespace c @ ''/'' @ ec_ServiceName c @ '' has no Ready EndpointSlice addresses''"

definition discovery_refresh :: "(addressPort list \<Rightarrow> addressPort list) \<Rightarrow> time \<Rightarrow> string + endpointSliceList
    \<Rightarrow> endpointSliceResolver \<Rightarrow> discovery_error option \<times> endpointSliceResolver" where
  "discovery_refresh iterate now response r =
     (case response of
        Inl err \<Rightarrow> (Some (ErrAPI err), discovery_recordError err r)
      | Inr lst \<Rightarrow>
          let backends = buildBackends iterate (el_Items lst) in
          if length backends = 0 then (Some ErrNoReady, discovery_recordError (noReadyError (er_config r)) r)
          else (None, r\<lparr>er_version := el_ResourceVersion lst,
                  er_slices := foldl (\<lambda>m item. AList.update (es_Name item) item m) [] (el_Items lst),
                  er_backends := backends,
                  er_status := \<lparr>rs_Status = DiscoveryOK, rs_LastSuccess = now, rs_LastError = '''',
                    rs_Freshness = 0, rs_ReadyBackends = int (length backends),
                    rs_ResourceVersion = el_ResourceVersion lst\<rparr>\<rparr>))"

datatype watch_item = Undecodable string | WatchEvent string endpointSliceResource

fun watch_events :: "(addressPort list \<Rightarrow> addressPort list) \<Rightarrow> watch_item list \<Rightarrow> string option
    \<Rightarrow> endpointSliceResolver \<Rightarrow> string option \<times> endpointSliceResolver" where
  \<comment> \<open>the scanner loop of \<open>watch\<close>; the third argument is \<open>scanner.Err()\<close> at the end of the stream\<close>
  "watch_events iterate [] scanErr r = (scanErr, r)"
| "watch_events iterate (Undecodable err # es) scanErr r =
     (Some (''decode EndpointSlice watch event: '' @ err), r)"
| "watch_events iterate (WatchEvent kind object # es) scanErr r =
     (if kind = ''ERROR'' then (Some ''EndpointSlice watch returned an error event'', r)
      else if es_Name object = '''' then watch_events iterate es scanErr r
      else if kind = ''ADDED'' \<or> kind = ''MODIFIED''
      then let slices = AList.update (es_Name object) object (er_slices r)
           in watch_events iterate es scanErr (r\<lparr>er_slices := slices, er_version := es_ResourceVersion object,
                er_backends := buildBackendsFromMap iterate slices\<rparr>)
      else if kind = ''DELETED''
      then let slices = AList.delete (es_Name object) (er_slices r)
           in watch_events iterate es scanErr (r\<lparr>er_slices := slices, er_version := es_ResourceVersion object,
                er_backends := buildBackendsFromMap iterate slices\<rparr>)
      else watch_events iterate es scanErr r)"

definition discovery_watch :: "(addressPort list \<Rightarrow> addressPort list) \<Rightarrow> string + watch_item list \<times> string option
    \<Rightarrow> endpointSliceResolver \<Rightarrow> string option \<times> endpointSliceResolver" where
  "discovery_watch iterate stream r =
     (case stream of Inl err \<Rightarrow> (Some err, r) | Inr (items, scanErr) \<Rightarrow> watch_events iterate items scanErr r)"

definition watch_round :: "(addressPort list \<Rightarrow> addressPort list) \<Rightarrow> time \<Rightarrow> string + watch_item list \<times> string option
    \<Rightarrow> string + endpointSliceList \<Rightarrow> endpointSliceResolver \<Rightarrow> endpointSliceResolver" where
  \<comment> \<open>one iteration of \<open>watchLoop\<close> that is not cut off by the shutdown\<close>
  "watch_round iterate now stream response r =
     (case discovery_watch iterate stream r of
        (None, r1) \<Rightarrow> discovery_recordError ''EndpointSlice watch stream closed'' r1
      | (Some err, r1) \<Rightarrow> snd (discovery_refresh iterate now response (discovery_recordError err r1)))"

definition discovery_Status :: "time \<Rightarrow> endpointSliceResolver \<Rightarrow> ResolverStatus" where
  "discovery_Status now r =
     (let status = er_status r;
          s1 = (if \<not> IsZero (rs_LastSuccess status)
                then status\<lparr>rs_Freshness := time_sub now (rs_LastSuccess status)\<rparr> else status)
      in if rs_Status s1 = DiscoveryOK \<and> rs_Freshness s1 > wrap64 (2 * ec_RefreshInterval (er_config r))
         then s1\<lparr>rs_Status := DiscoveryDegraded,
                 rs_LastError := (if rs_LastError s1 = '''' then ''EndpointSlice snapshot is stale'' else rs_LastError s1)\<rparr>
         else s1)"

definition discovery_Snapshot :: "endpointSliceResolver \<Rightarrow> Backend list" where
  "discovery_Snapshot r = er_backends r"

definition inClusterAPIURL :: "string \<Rightarrow> string \<Rightarrow> string" where
  \<comment> \<open>the arguments are the values of the two environment variables\<close>
  "inClusterAPIURL host_env port_env =
     (let host = TrimSpace host_env in
      if host = '''' then ''''
      else let port = TrimSpace port_env in
           ''https://'' @ JoinHostPort host (if port = '''' then ''443'' else port))"

definition NewEndpointSlice :: "(addressPort list \<Rightarrow> addressPort list) \<Rightarrow> url_parser \<Rightarrow> string \<times> string \<Rightarrow> string option
    \<Rightarrow> time \<Rightarrow> string + endpointSliceList \<Rightarrow> EndpointSliceConfig \<Rightarrow> discovery_error + endpointSliceResolver" where
  \<comment> \<open>environment, outcome of the CA client construction, clock and first list response are arguments\<close>
  "NewEndpointSlice iterate url_parse env client_err now response config =
     (if TrimSpace (ec_Namespace config) = '''' then Inl ErrNamespace
      else if TrimSpace (ec_ServiceName config) = '''' then Inl ErrServiceName
      else if TrimSpace (ec_TokenFile config) = '''' then Inl ErrTokenFile
      else let trimmed = TrimRightSlash (TrimSpace (ec_BaseURL config));
               baseURL = (if trimmed = '''' then inClusterAPIURL (fst env) (snd env) else trimmed) in
        if (case url_parse baseURL of None \<Rightarrow> True | Some (scheme, host) \<Rightarrow> scheme \<noteq> ''https'' \<or> host = '''')
        then Inl (ErrAPIURL baseURL)
        else if ec_RefreshInterval config \<le> 0 then Inl ErrRefreshInterval
        else case (if ec_CAFile config \<noteq> '''' then client_err else None) of
          Some err \<Rightarrow> Inl (ErrClient err)
        | None \<Rightarrow>
            let fresh = \<lparr>er_config = config\<lparr>ec_BaseURL := baseURL\<rparr>, er_version = '''', er_slices = [], er_backends = [],
                  er_status = \<lparr>rs_Status = DiscoveryUnavailable, rs_LastSuccess = zero_time, rs_LastError = '''',
                    rs_Freshness = 0, rs_ReadyBackends = 0, rs_ResourceVersion = ''''\<rparr>\<rparr>
            in case discovery_refresh iterate now response fresh of
                 (Some err, _) \<Rightarrow> Inl err | (None, r) \<Rightarrow> Inr r)"

datatype Resolver = StaticResolver "Backend list" | SliceResolver endpointSliceResolver

fun Resolver_Snapshot :: "Resolver \<Rightarrow> Backend list" where
  "Resolver_Snapshot (StaticResolver bs) = bs"
| "Resolver_Snapshot (SliceResolver r) = discovery_Snapshot r"

fun Resolver_Status :: "time \<Rightarrow> Resolver \<Rightarrow> ResolverStatus" where
  "Resolver_Status now (StaticResolver bs) = static_Status bs"
| "Resolver_Status now (SliceResolver r) = discovery_Status now r"

definition discovery_New :: "(EndpointSliceConfig \<Rightarrow> discovery_error + endpointSliceResolver)
    \<Rightarrow> string \<Rightarrow> Backend list \<Rightarrow> EndpointSliceConfig \<Rightarrow> discovery_error + Resolver" where
  "discovery_New new_slice mode static slice_config =
     (if mode = '''' \<or> mode = ModeStatic
      then (case NewStatic static of Inl e \<Rightarrow> Inl e | Inr bs \<Rightarrow> Inr (StaticResolver bs))
      else if mode = ModeEndpointSlice
      then (case new_slice slice_config of Inl e \<Rightarrow> Inl e | Inr r \<Rightarrow> Inr (SliceResolver r))
      else Inl (ErrDiscoveryMode mode))"


subsection \<open>What is published\<close>

definition usable_port :: "endpointSlicePort \<Rightarrow> bool" where
  "usable_port p \<longleftrightarrow> (case port_Port p of Some n \<Rightarrow> 0 < n | None \<Rightarrow> False)"

definition served_port :: "endpointSlicePort list \<Rightarrow> int option" where
  \<comment> \<open>the first usable port named \<open>http\<close>, or the first usable port when none has that name\<close>
  "served_port ports =
     (case filter (\<lambda>p. usable_port p \<and> port_Name p = Some ''http'') ports @ filter usable_port ports of
        p # _ \<Rightarrow> port_Port p | [] \<Rightarrow> None)"

definition slice_offers :: "(endpointEntry \<Rightarrow> bool) \<Rightarrow> endpointSliceResource \<Rightarrow> addressPort \<Rightarrow> bool" where
  \<comment> \<open>an address of an endpoint that satisfies the condition, in an IP slice that serves a port\<close>
  "slice_offers condition item k \<longleftrightarrow>
     (es_AddressType item = ''IPv4'' \<or> es_AddressType item = ''IPv6'') \<and>
     (\<exists>port endpoint address. served_port (es_Ports item) = Some port \<and> endpoint \<in> set (es_Endpoints item)
        \<and> condition endpoint \<and> address \<in> set (ee_Addresses endpoint) \<and> TrimSpace address \<noteq> ''''
        \<and> k = endpoint_key port endpoint address)"

definition endpoint_ready :: "endpointEntry \<Rightarrow> bool" where
  "endpoint_ready e \<longleftrightarrow> ee_Ready e = Some True"

definition endpoint_terminating :: "endpointEntry \<Rightarrow> bool" where
  "endpoint_terminating e \<longleftrightarrow> ee_Terminating e = Some True"

definition api_conditions :: "endpointSliceResource list \<Rightarrow> bool" where
  \<comment> \<open>the rule of the EndpointSlice API for its conditions: a terminating endpoint is not ready\<close>
  "api_conditions items \<longleftrightarrow>
     list_all (\<lambda>item. list_all (\<lambda>e. endpoint_terminating e \<longrightarrow> \<not> endpoint_ready e) (es_Endpoints item)) items"

lemma port_loop:
  "0 \<le> first \<Longrightarrow> endpoint_port_loop first ps =
     (case filter (\<lambda>p. usable_port p \<and> port_Name p = Some ''http'') ps of
        p # _ \<Rightarrow> (the (port_Port p), True)
      | [] \<Rightarrow> if 0 < first then (first, True) else (case filter usable_port ps of p # _ \<Rightarrow> (the (port_Port p), True) | [] \<Rightarrow> (first, False)))"
  by (induction first ps rule: endpoint_port_loop.induct) (auto simp: usable_port_def split: option.splits list.splits)

lemma filter_head: "filter P xs = x # ys \<Longrightarrow> P x"
  by (auto dest: filter_eq_ConsD)

lemma served_cases:
  obtains (none) "endpointPort ports = (0, False)" "served_port ports = None"
  | (port) n where "endpointPort ports = (n, True)" "served_port ports = Some n" "0 < n"
proof -
  note e = endpointPort_def port_loop [of 0 ports, simplified] served_port_def
  have found: thesis if "usable_port p" "endpointPort ports = (the (port_Port p), True)" "served_port ports = port_Port p" for p
    using that port [of "the (port_Port p)"] by (auto simp: usable_port_def split: option.splits)
  show thesis
  proof (cases "filter (\<lambda>p. usable_port p \<and> port_Name p = Some ''http'') ports")
    case (Cons p ps)
    then show thesis using filter_head [OF Cons] found [of p] by (simp add: e)
  next
    case Nil
    show thesis
    proof (cases "filter usable_port ports")
      case (Cons p ps)
      then show thesis using filter_head [OF Cons] found [of p] Nil by (simp add: e)
    qed (use Nil none in \<open>simp add: e\<close>)
  qed
qed

lemma served_positive: "served_port ports = Some port \<Longrightarrow> 0 < port"
  by (cases rule: served_cases [of ports]) simp_all

lemma set_slice_keys: "set (slice_keys item) = {k. slice_offers endpoint_ready item k}"
proof (cases "es_AddressType item = ''IPv4'' \<or> es_AddressType item = ''IPv6''")
  case True
  then show ?thesis
    by (cases rule: served_cases [of "es_Ports item"]) (auto simp: slice_keys_def slice_offers_def endpoint_ready_def split: if_splits)
qed (auto simp: slice_keys_def slice_offers_def)

lemma URL_determines_endpoint:
  "bURL (key_backend k) = bURL (key_backend k') \<longleftrightarrow> ap_address k = ap_address k' \<and> ap_port k = ap_port k'"
  by (auto simp: key_backend_def NewHTTP_def Let_def dest: JoinHostPort_inj)


definition wit_endpoint :: "string \<Rightarrow> bool \<Rightarrow> bool \<Rightarrow> endpointEntry" where
  "wit_endpoint a is_ready ends =
     \<lparr>ee_Addresses = [a], ee_TargetRef = None, ee_Ready = Some is_ready, ee_Serving = None, ee_Terminating = Some ends\<rparr>"

definition wit_slice :: endpointSliceResource where
  "wit_slice = \<lparr>es_Name = ''s'', es_ResourceVersion = ''1'', es_AddressType = ''IPv4'',
     es_Ports = [\<lparr>port_Name = None, port_Port = Some 8000, port_Protocol = None\<rparr>],
     es_Endpoints = [wit_endpoint ''b'' True False, wit_endpoint ''c'' False True, wit_endpoint ''a'' True False]\<rparr>"


subsection \<open>What the status means\<close>

inductive resolver_reach :: "endpointSliceResolver \<Rightarrow> endpointSliceResolver \<Rightarrow> bool" where
  \<comment> \<open>the states of a resolver under its two loops, in any interleaving; a clock never reads zero time\<close>
  built: "resolver_reach r r"
| refreshed: "resolver_reach r0 r \<Longrightarrow> 0 < now \<Longrightarrow> discovery_refresh iterate now response r = (err, r') \<Longrightarrow> resolver_reach r0 r'"
| watched: "resolver_reach r0 r \<Longrightarrow> discovery_watch iterate stream r = (err, r') \<Longrightarrow> resolver_reach r0 r'"
| failed: "resolver_reach r0 r \<Longrightarrow> resolver_reach r0 (discovery_recordError msg r)"

definition status_inv :: "endpointSliceResolver \<Rightarrow> bool" where
  "status_inv r \<longleftrightarrow> 0 < rs_LastSuccess (er_status r) \<and> rs_Status (er_status r) \<noteq> DiscoveryUnavailable
     \<and> (rs_Status (er_status r) = DiscoveryOK \<longrightarrow> rs_LastError (er_status r) = '''' \<and> 0 < rs_ReadyBackends (er_status r))"

lemma status_inv_recordError: "status_inv r \<Longrightarrow> status_inv (discovery_recordError msg r)"
  by (simp add: status_inv_def discovery_recordError_def IsZero_def zero_time_def)

lemma status_inv_refresh:
  "status_inv r \<Longrightarrow> 0 < now \<Longrightarrow> discovery_refresh iterate now response r = (err, r') \<Longrightarrow> status_inv r'"
  by (auto simp: discovery_refresh_def Let_def status_inv_recordError split: sum.splits if_splits)
     (simp add: status_inv_def)

lemma watch_events_status: "er_status (snd (watch_events iterate es scanErr r)) = er_status r
   \<and> er_config (snd (watch_events iterate es scanErr r)) = er_config r"
  by (induction iterate es scanErr r rule: watch_events.induct) (simp_all add: Let_def)

lemma status_inv_watch: "status_inv r \<Longrightarrow> discovery_watch iterate stream r = (err, r') \<Longrightarrow> status_inv r'"
  using watch_events_status by (auto simp: discovery_watch_def status_inv_def split: sum.splits) (metis snd_conv)+

lemma reach_status_inv:
  assumes "resolver_reach r0 r" and "status_inv r0"
  shows "status_inv r"
  using assms
proof (induction rule: resolver_reach.induct)
  case (refreshed r0 r now iterate response err r')
  then show ?case using status_inv_refresh by blast
next
  case (watched r0 r iterate stream err r')
  then show ?case using status_inv_watch by blast
qed (auto intro: status_inv_recordError)

lemma NewEndpointSlice_inv:
  assumes "NewEndpointSlice iterate url_parse env client_err now response config = Inr r" and "0 < now"
  shows "status_inv r" and "er_backends r \<noteq> []"
proof -
  obtain fresh where f: "discovery_refresh iterate now response fresh = (None, r)"
    using assms(1) by (auto simp: NewEndpointSlice_def Let_def split: if_splits option.splits prod.splits)
  then show "status_inv r" and "er_backends r \<noteq> []"
    using assms(2) by (auto simp: discovery_refresh_def Let_def status_inv_def split: sum.splits if_splits)
qed

lemma refresh_failure_keeps:
  "discovery_refresh iterate now response r = (Some e, r') \<Longrightarrow>
     er_backends r' = er_backends r \<and> er_slices r' = er_slices r \<and> er_version r' = er_version r"
  by (auto simp: discovery_refresh_def discovery_recordError_def Let_def split: sum.splits if_splits)

text \<open>
  A resolver that started has published a backend, and in every state its list and watch loops can
  reach its status is honest: it is never "unavailable"; it is "ok" only when the last exchange with the
  API succeeded with at least one ready endpoint and is at most two refresh intervals old; and a failed
  list call keeps the last published backends.
\<close>

theorem discovery_status_sound:
  assumes "NewEndpointSlice iterate url_parse env client_err start response config = Inr r0" and "0 < start"
    and "resolver_reach r0 r"
  shows "er_backends r0 \<noteq> []
    \<and> rs_Status (discovery_Status now r) \<noteq> DiscoveryUnavailable
    \<and> (rs_Status (discovery_Status now r) = DiscoveryOK \<longrightarrow>
         rs_LastError (discovery_Status now r) = '''' \<and> 0 < rs_ReadyBackends (discovery_Status now r)
         \<and> rs_Freshness (discovery_Status now r) \<le> wrap64 (2 * ec_RefreshInterval (er_config r)))
    \<and> (\<forall>iter t resp e r'. discovery_refresh iter t resp r = (Some e, r') \<longrightarrow> discovery_Snapshot r' = discovery_Snapshot r)"
proof -
  note new = NewEndpointSlice_inv [OF assms(1,2)]
  have "status_inv r" using assms(3) new(1) by (rule reach_status_inv)
  then show ?thesis
    using new(2) refresh_failure_keeps
    by (auto simp: discovery_Status_def Let_def status_inv_def IsZero_def zero_time_def discovery_Snapshot_def)
qed

definition wit_slice_config :: EndpointSliceConfig where
  "wit_slice_config = \<lparr>ec_Namespace = ''n'', ec_ServiceName = ''s'', ec_BaseURL = ''u'', ec_TokenFile = ''t'',
     ec_CAFile = '''', ec_RefreshInterval = 10\<rparr>"

lemma wit_trim: "TrimSpace ''n'' = ''n''" "TrimSpace ''s'' = ''s''" "TrimSpace ''t'' = ''t''" "TrimSpace ''u'' = ''u''"
    "TrimSpace ''b'' = ''b''" "TrimSpace ''a'' = ''a''"
  by code_simp+

lemma wit_build: "length (buildBackends (\<lambda>xs. xs) [wit_slice]) \<noteq> 0"
  by (simp add: buildBackends_def buildBackendsFromMap_def wit_slice_def slice_keys_def endpointPort_def
    wit_endpoint_def wit_trim endpoint_key_def Let_def)

lemma wit_resolver: "\<exists>r. NewEndpointSlice (\<lambda>xs. xs) (\<lambda>_. Some (''https'', ''h'')) ('''', '''') None 1
    (Inr \<lparr>el_ResourceVersion = ''1'', el_Items = [wit_slice]\<rparr>) wit_slice_config = Inr r"
  using wit_build by (simp add: NewEndpointSlice_def wit_slice_config_def wit_trim Let_def discovery_refresh_def)

theorem discovery_status_sound_witness:
  "\<exists>r. rs_Status (discovery_Status 5 r) \<noteq> DiscoveryUnavailable
     \<and> rs_Status (discovery_Status 5 (discovery_recordError ''watch'' r)) \<noteq> DiscoveryOK"
proof -
  obtain r where r: "NewEndpointSlice (\<lambda>xs. xs) (\<lambda>_. Some (''https'', ''h'')) ('''', '''') None 1
    (Inr \<lparr>el_ResourceVersion = ''1'', el_Items = [wit_slice]\<rparr>) wit_slice_config = Inr r"
    using wit_resolver by blast
  have reach: "resolver_reach r r" "resolver_reach r (discovery_recordError ''watch'' r)"
    by (rule resolver_reach.built, rule resolver_reach.failed, rule resolver_reach.built)
  have "rs_Status (discovery_Status 5 r) \<noteq> DiscoveryUnavailable"
    and "rs_Status (discovery_Status 5 (discovery_recordError ''watch'' r)) = DiscoveryOK \<longrightarrow>
      rs_LastError (discovery_Status 5 (discovery_recordError ''watch'' r)) = ''''"
    using discovery_status_sound [OF r _ reach(1)] discovery_status_sound [OF r _ reach(2)] by simp_all
  moreover have "rs_LastError (discovery_Status 5 (discovery_recordError ''watch'' r)) \<noteq> ''''"
    by (simp add: discovery_Status_def discovery_recordError_def Let_def)
  ultimately show ?thesis by blast
qed

text \<open>
  The \<open>Terminating\<close> condition is read into the endpoint but never consulted: an endpoint that reports both
  \<open>ready\<close> and \<open>terminating\<close>, against the rule of the API, is published like any other, while the README
  and the decision records list terminating endpoints as excluded.
\<close>

theorem terminating_endpoint_published:
  assumes "\<And>xs. set (iterate xs) = set xs" and "(name, item) \<in> set items" and "es_AddressType item = ''IPv4''"
    and "served_port (es_Ports item) = Some port" and "endpoint \<in> set (es_Endpoints item)"
    and "endpoint_ready endpoint" and "endpoint_terminating endpoint"
    and "address \<in> set (ee_Addresses endpoint)" and "TrimSpace address \<noteq> ''''"
  shows "key_backend (endpoint_key port endpoint address) \<in> set (buildBackendsFromMap iterate items)"
proof -
  have "endpoint_key port endpoint address \<in> set (slice_keys item)"
    using assms(3-9) by (auto simp: set_slice_keys slice_offers_def)
  then have "endpoint_key port endpoint address \<in> set (concat (map (slice_keys \<circ> snd) items))" using assms(2) by force
  then show ?thesis using assms(1) by (simp add: buildBackendsFromMap_def Let_def)
qed

theorem terminating_endpoint_published_witness:
  "key_backend (endpoint_key 8000 (wit_endpoint ''b'' True True) ''b'') \<in>
     set (buildBackendsFromMap (\<lambda>xs. xs) [(''s'', wit_slice\<lparr>es_Endpoints := [wit_endpoint ''b'' True True]\<rparr>)])"
  by (rule terminating_endpoint_published [where name = "''s''" and item = "wit_slice\<lparr>es_Endpoints := [wit_endpoint ''b'' True True]\<rparr>"])
    (simp_all add: wit_slice_def wit_endpoint_def served_port_def usable_port_def endpoint_ready_def endpoint_terminating_def wit_trim)

end
