(* ===== verification/Prediction.thy ===== *)
theory Prediction
  imports Backend Float64
begin

text \<open>
  \<open>internal/serving/prediction/prediction.go\<close> and \<open>prediction_impl.go\<close>: the shadow predictor.
  The tracker keeps bounded, timestamped samples and a fitted model per backend; \<open>Begin\<close> compares
  all candidates, \<open>observe\<close> records one first-token time per ticket. Arrays of five floats are
  lists of length five, the clock reading is an argument, and a ticket's \<open>sync.Once\<close> is the flag
  \<open>tk_done\<close>. The learned coefficients are computed in float64 with the order of operations of
  the source.
\<close>

subsection \<open>Data\<close>

definition ModeOff :: string where "ModeOff = ''off''"
definition ModeShadow :: string where "ModeShadow = ''shadow''"

datatype shadow_status = StatusNone | StatusDisabled | StatusLoadUnavailable | StatusInsufficientData | StatusAvailable

record prediction_Config =
  pc_Mode :: string
  pc_MaxSamples :: int
  pc_MaxSampleAge :: duration
  pc_MinimumSamples :: int
  pc_RefitEvery :: int

datatype prediction_error = ErrPredictionMode string | ErrPredictionBounds

definition prediction_Config_Validate :: "prediction_Config \<Rightarrow> prediction_error option" where
  "prediction_Config_Validate c =
     (if pc_Mode c \<noteq> ModeOff \<and> pc_Mode c \<noteq> ModeShadow then Some (ErrPredictionMode (pc_Mode c))
      else if pc_MaxSamples c \<le> 0 \<or> pc_MaxSampleAge c \<le> 0 \<or> pc_MinimumSamples c \<le> 0
              \<or> pc_MinimumSamples c > pc_MaxSamples c \<or> pc_RefitEvery c \<le> 0
      then Some ErrPredictionBounds else None)"

record Features =
  ft_UncachedTokens :: int
  ft_QueueDepth :: int
  ft_Running :: int
  ft_LocalInflight :: int
  ft_LoadValid :: bool

record Candidate =
  cd_Backend :: ID
  cd_Features :: Features

record BeginInput =
  bi_Selected :: ID
  bi_Features :: Features
  bi_Candidates :: "Candidate list"

record Shadow =
  sh_Status :: shadow_status
  sh_ModelVersion :: string
  sh_WouldSelect :: ID
  sh_SelectedEstimate :: duration
  sh_WouldSelectTTFT :: duration
  sh_SamplesPerBackend :: int

definition bare_Shadow :: "shadow_status \<Rightarrow> Shadow" where
  "bare_Shadow status = \<lparr>sh_Status = status, sh_ModelVersion = '''', sh_WouldSelect = '''',
     sh_SelectedEstimate = 0, sh_WouldSelectTTFT = 0, sh_SamplesPerBackend = 0\<rparr>"

record prediction_Observation =
  po_Valid :: bool
  po_Backend :: ID
  po_Predicted :: duration
  po_Actual :: duration
  po_Error :: duration

definition zero_Observation :: prediction_Observation where
  "zero_Observation = \<lparr>po_Valid = False, po_Backend = '''', po_Predicted = 0, po_Actual = 0, po_Error = 0\<rparr>"

record sample =
  sm_at :: time
  sm_features :: Features
  sm_ttft :: duration

record fittedModel =
  fm_coefficients :: "f64 list"
  fm_sampleCount :: int
  fm_version :: "64 word"

record tracker =
  tr_config :: prediction_Config
  tr_samples :: "(ID, sample list) gomap"
  tr_models :: "(ID, fittedModel) gomap"

record ticketState =
  tk_backend :: ID
  tk_features :: Features
  tk_predicted :: duration
  tk_done :: bool
  tk_observation :: prediction_Observation

subsection \<open>The model\<close>

definition validFeatures :: "Features \<Rightarrow> bool" where
  "validFeatures f \<longleftrightarrow> ft_LoadValid f \<and> ft_UncachedTokens f \<ge> 0 \<and> ft_QueueDepth f \<ge> 0
     \<and> ft_Running f \<ge> 0 \<and> ft_LocalInflight f \<ge> 0"

definition featureVector :: "Features \<Rightarrow> f64 list" where
  "featureVector f = [Fin 1, f_of_int (ft_UncachedTokens f), f_of_int (ft_QueueDepth f),
     f_of_int (ft_Running f), f_of_int (ft_LocalInflight f)]"

definition coefficientUpperBounds :: "f64 list" where
  "coefficientUpperBounds = [Fin 10000, Fin 10, Fin 10000, Fin 10000, Fin 10000]"

definition accumulate :: "f64 list list \<times> f64 list \<times> int \<Rightarrow> sample \<Rightarrow> f64 list list \<times> f64 list \<times> int" where
  "accumulate acc value =
     (case acc of (normal, target, validSamples) \<Rightarrow>
        if sm_ttft value \<le> 0 \<or> \<not> validFeatures (sm_features value) then acc
        else let x = featureVector (sm_features value);
                 y = f_div (f_of_int (sm_ttft value)) (Fin 1000000)
             in (map2 (\<lambda>xr row. map2 (\<lambda>xc n. f_add n (f_mul xr xc)) x row) x normal,
                 map2 (\<lambda>xr t. f_add t (f_mul xr y)) x target,
                 validSamples + 1))"

definition regularize :: "f64 list list \<Rightarrow> f64 list list" where
  "regularize normal =
     map (\<lambda>i. if i = 0 then normal ! i else (normal ! i)[i := f_add (normal ! i ! i) (Fin 1)]) [0..<5]"

definition residual :: "f64 list list \<Rightarrow> f64 list \<Rightarrow> f64 list \<Rightarrow> nat \<Rightarrow> f64" where
  "residual normal target coefficients row =
     foldl (\<lambda>r column. if column \<noteq> row then f_sub r (f_mul (normal ! row ! column) (coefficients ! column)) else r)
       (target ! row) [0..<5]"

definition descend :: "f64 list list \<Rightarrow> f64 list \<Rightarrow> f64 list \<Rightarrow> nat \<Rightarrow> f64 list" where
  \<comment> \<open>one coordinate of one pass\<close>
  "descend normal target coefficients row =
     (if f_eq (normal ! row ! row) (Fin 0) then coefficients
      else coefficients[row := f_min (coefficientUpperBounds ! row)
             (f_max (Fin 0) (f_div (residual normal target coefficients row) (normal ! row ! row)))])"

definition zero_matrix :: "f64 list list" where
  "zero_matrix = replicate 5 (replicate 5 (Fin 0))"

definition prediction_fit :: "sample list \<Rightarrow> int \<Rightarrow> f64 list option" where
  "prediction_fit samples minimum =
     (case foldl accumulate (zero_matrix, replicate 5 (Fin 0), 0) samples of (normal, target, validSamples) \<Rightarrow>
        if validSamples < minimum then None
        else Some (foldl (descend (regularize normal) target) (replicate 5 (Fin 0))
                    (concat (replicate 64 [0..<5]))))"

definition prediction_estimate :: "f64 list \<Rightarrow> Features \<Rightarrow> duration" where
  "prediction_estimate coefficients f =
     (let ms = foldl (\<lambda>acc i. f_add acc (f_mul (coefficients ! i) (featureVector f ! i))) (Fin 0) [0..<5] in
      if f_le ms (Fin 0) \<or> f_le (f_div (f_of_int max_int64) (Fin 1000000)) ms then 0
      else f_to_int64 (f_mul ms (Fin 1000000)))"

subsection \<open>The tracker\<close>

definition prediction_New :: "prediction_Config \<Rightarrow> prediction_error + tracker" where
  "prediction_New config =
     (case prediction_Config_Validate config of Some e \<Rightarrow> Inl e
      | None \<Rightarrow> Inr \<lparr>tr_config = config, tr_samples = [], tr_models = []\<rparr>)"

definition prune_one :: "time \<Rightarrow> tracker \<Rightarrow> ID \<times> sample list \<Rightarrow> tracker" where
  "prune_one cutoff t entry =
     (case entry of (bid, samples) \<Rightarrow>
        let first = sort_search (\<lambda>index. \<not> sm_at (samples ! index) < cutoff) 0 (length samples) in
        if first = length samples
        then t\<lparr>tr_samples := AList.delete bid (tr_samples t), tr_models := AList.delete bid (tr_models t)\<rparr>
        else if first > 0 then t\<lparr>tr_samples := AList.update bid (drop first samples) (tr_samples t)\<rparr>
        else t)"

definition pruneLocked :: "time \<Rightarrow> tracker \<Rightarrow> tracker" where
  "pruneLocked now t =
     foldl (prune_one (time_add now (- pc_MaxSampleAge (tr_config t)))) t (tr_samples t)"

definition modelLocked :: "tracker \<Rightarrow> ID \<Rightarrow> fittedModel option \<times> tracker" where
  "modelLocked t bid =
     (let samples = mget [] (tr_samples t) bid;
          n = int (length samples);
          refit = (case prediction_fit samples (pc_MinimumSamples (tr_config t)) of
             None \<Rightarrow> (None, t)
           | Some fitted \<Rightarrow>
               let version = (case map_of (tr_models t) bid of None \<Rightarrow> 0 | Some m \<Rightarrow> fm_version m);
                   state = \<lparr>fm_coefficients = fitted, fm_sampleCount = n, fm_version = version + 1\<rparr>
               in (Some state, t\<lparr>tr_models := AList.update bid state (tr_models t)\<rparr>)) in
      if n < pc_MinimumSamples (tr_config t) then (None, t)
      else case map_of (tr_models t) bid of
        Some cached \<Rightarrow>
          if n \<ge> fm_sampleCount cached \<and> n - fm_sampleCount cached < pc_RefitEvery (tr_config t)
          then (Some cached, t) else refit
      | None \<Rightarrow> refit)"

fun shadow_loop :: "ID \<Rightarrow> Candidate list \<Rightarrow> Shadow \<Rightarrow> duration \<Rightarrow> tracker \<Rightarrow> (Shadow + Shadow) \<times> tracker" where
  \<comment> \<open>\<open>Inl\<close> is an early return from the loop\<close>
  "shadow_loop selected [] result best t = (Inr result, t)"
| "shadow_loop selected (c # cs) result best t =
     (if cd_Backend c = '''' \<or> \<not> validFeatures (cd_Features c)
      then (Inl (bare_Shadow StatusLoadUnavailable), t)
      else case modelLocked t (cd_Backend c) of
        (None, t') \<Rightarrow> (Inl (bare_Shadow StatusInsufficientData), t')
      | (Some fitted, t') \<Rightarrow>
          let est = prediction_estimate (fm_coefficients fitted) (cd_Features c);
              r1 = (if cd_Backend c = selected
                    then result\<lparr>sh_SelectedEstimate := est,
                      sh_SamplesPerBackend := int (length (mget [] (tr_samples t') (cd_Backend c)))\<rparr>
                    else result)
          in if sh_WouldSelect r1 = '''' \<or> est < best \<or> est = best \<and> cd_Backend c < sh_WouldSelect r1
             then shadow_loop selected cs (r1\<lparr>sh_WouldSelect := cd_Backend c, sh_WouldSelectTTFT := est\<rparr>) est t'
             else shadow_loop selected cs r1 best t')"

definition modelVersion :: string where
  "modelVersion = ''learned-ridge-v1''"

definition shadowLocked :: "BeginInput \<Rightarrow> tracker \<Rightarrow> Shadow \<times> tracker" where
  "shadowLocked input t =
     (if bi_Candidates input = [] then (bare_Shadow StatusInsufficientData, t)
      else case shadow_loop (bi_Selected input) (bi_Candidates input) (bare_Shadow StatusAvailable) 0 t of
        (Inl s, t') \<Rightarrow> (s, t')
      | (Inr result, t') \<Rightarrow>
          if sh_SelectedEstimate result \<le> 0 \<or> sh_WouldSelect result = ''''
          then (bare_Shadow StatusInsufficientData, t')
          else (result\<lparr>sh_ModelVersion := modelVersion\<rparr>, t'))"

definition Begin :: "time \<Rightarrow> BeginInput \<Rightarrow> tracker \<Rightarrow> ticketState option \<times> Shadow \<times> tracker" where
  "Begin now input t =
     (if pc_Mode (tr_config t) = ModeOff then (None, bare_Shadow StatusDisabled, t)
      else if bi_Selected input = '''' then (None, bare_Shadow StatusInsufficientData, t)
      else if \<not> validFeatures (bi_Features input) then (None, bare_Shadow StatusLoadUnavailable, t)
      else case shadowLocked input (pruneLocked now t) of (shadow, t') \<Rightarrow>
        let predicted = (if sh_Status shadow = StatusAvailable then sh_SelectedEstimate shadow else 0)
        in (Some \<lparr>tk_backend = bi_Selected input, tk_features = bi_Features input, tk_predicted = predicted,
                   tk_done = False, tk_observation = zero_Observation\<rparr>, shadow, t'))"

definition prediction_Reconcile :: "ID list \<Rightarrow> tracker \<Rightarrow> tracker" where
  "prediction_Reconcile backends t =
     foldl (\<lambda>t' bid. if bid \<in> set backends then t'
              else t'\<lparr>tr_samples := AList.delete bid (tr_samples t'), tr_models := AList.delete bid (tr_models t')\<rparr>)
       t (map fst (tr_samples t))"

definition tracker_record :: "time \<Rightarrow> ID \<Rightarrow> Features \<Rightarrow> duration \<Rightarrow> tracker \<Rightarrow> tracker" where
  "tracker_record now bid features ttft t =
     (if ttft \<le> 0 \<or> \<not> validFeatures features then t
      else let t1 = pruneLocked now t;
               samples = mget [] (tr_samples t1) bid @ [\<lparr>sm_at = now, sm_features = features, sm_ttft = ttft\<rparr>];
               kept = (if int (length samples) > pc_MaxSamples (tr_config t1)
                       then drop (length samples - nat (pc_MaxSamples (tr_config t1))) samples else samples)
           in t1\<lparr>tr_samples := AList.update bid kept (tr_samples t1)\<rparr>)"

definition observe :: "time \<Rightarrow> duration \<Rightarrow> ticketState \<Rightarrow> tracker \<Rightarrow> prediction_Observation \<times> ticketState \<times> tracker" where
  "observe now ttft s t =
     (if tk_done s then (tk_observation s, s, t)
      else let t' = tracker_record now (tk_backend s) (tk_features s) ttft t;
               s' = (if tk_predicted s \<le> 0 \<or> ttft \<le> 0 then s\<lparr>tk_done := True\<rparr>
                     else s\<lparr>tk_done := True, tk_observation :=
                       \<lparr>po_Valid = True, po_Backend = tk_backend s, po_Predicted = tk_predicted s,
                        po_Actual = ttft, po_Error = wrap64 (ttft - tk_predicted s)\<rparr>\<rparr>)
           in (tk_observation s', s', t'))"

definition ObserveFirstToken ::
  "time \<Rightarrow> duration \<Rightarrow> ticketState option \<Rightarrow> tracker \<Rightarrow> prediction_Observation \<times> ticketState option \<times> tracker" where
  "ObserveFirstToken now ttft ticket t =
     (case ticket of None \<Rightarrow> (zero_Observation, None, t)
      | Some s \<Rightarrow> (case observe now ttft s t of (ob, s', t') \<Rightarrow> (ob, Some s', t')))"


subsection \<open>Pruning\<close>

lemma drop_search_filter:
  assumes "sorted_wrt (\<lambda>a b. sm_at a \<le> sm_at b) ss"
  shows "drop (sort_search (\<lambda>i. \<not> sm_at (ss ! i) < cutoff) 0 (length ss)) ss = filter (\<lambda>s. cutoff \<le> sm_at s) ss"
proof -
  let ?f = "\<lambda>i. \<not> sm_at (ss ! i) < cutoff"
  define n where "n = sort_search ?f 0 (length ss)"
  have mono: "sm_at (ss ! i) \<le> sm_at (ss ! j)" if "i \<le> j" "j < length ss" for i j
    using sorted_wrt_nth_less [OF assms, of i j] that by (cases "i = j") auto
  have least: "(\<forall>k. 0 \<le> k \<and> k < n \<longrightarrow> \<not> ?f k) \<and> (n < length ss \<longrightarrow> ?f n)"
    unfolding n_def by (rule sort_search_least) (use mono in \<open>fastforce intro: order_trans\<close>)+
  have n: "n \<le> length ss" using sort_search_range [of 0 "length ss" ?f] by (simp add: n_def)
  have "\<not> cutoff \<le> sm_at s" if "s \<in> set (take n ss)" for s
    using that least n by (auto simp: in_set_conv_nth)
  moreover have "cutoff \<le> sm_at s" if s: "s \<in> set (drop n ss)" for s
  proof -
    obtain k where k: "k < length ss - n" "s = ss ! (n + k)" using s by (auto simp: in_set_conv_nth)
    then have "cutoff \<le> sm_at (ss ! n)" using least by auto
    also have "\<dots> \<le> sm_at s" unfolding k(2) using k(1) by (intro mono) auto
    finally show ?thesis .
  qed
  ultimately have "filter (\<lambda>s. cutoff \<le> sm_at s) (take n ss @ drop n ss) = drop n ss"
    by (simp only: filter_append) (simp add: filter_id_conv filter_empty_conv)
  then show ?thesis by (simp add: n_def)
qed

lemma prune_one_other [simp]:
  "bid \<noteq> b \<Longrightarrow> mget [] (tr_samples (prune_one cutoff t (bid, ss))) b = mget [] (tr_samples t) b"
  by (simp add: prune_one_def Let_def gomap)

lemma prune_one_same:
  assumes "mget [] (tr_samples t) bid = ss"
  shows "mget [] (tr_samples (prune_one cutoff t (bid, ss))) bid
       = drop (sort_search (\<lambda>i. \<not> sm_at (ss ! i) < cutoff) 0 (length ss)) ss"
  using assms by (simp add: prune_one_def Let_def gomap)

lemma prune_fold:
  assumes "distinct (map fst es)" and "\<And>b ss. (b, ss) \<in> set es \<Longrightarrow> mget [] (tr_samples t) b = ss"
    and "\<And>b ss. (b, ss) \<in> set es \<Longrightarrow> sorted_wrt (\<lambda>x y. sm_at x \<le> sm_at y) ss"
  shows "mget [] (tr_samples (foldl (prune_one cutoff) t es)) b
       = (if b \<in> fst ` set es then filter (\<lambda>s. cutoff \<le> sm_at s) (mget [] (tr_samples t) b)
          else mget [] (tr_samples t) b)"
  using assms
proof (induction es arbitrary: t)
  case (Cons e es)
  obtain bid ss where e: "e = (bid, ss)" by fastforce
  let ?t = "prune_one cutoff t e"
  have notin: "bid \<notin> fst ` set es" using Cons.prems(1) by (simp add: e)
  have ss: "mget [] (tr_samples t) bid = ss" using Cons.prems(2) [of bid ss] by (simp add: e)
  have same: "mget [] (tr_samples ?t) bid = filter (\<lambda>s. cutoff \<le> sm_at s) ss"
    unfolding e prune_one_same [OF ss] using Cons.prems(3) [of bid ss] by (simp add: e drop_search_filter)
  have keep: "mget [] (tr_samples ?t) c = xs" if "(c, xs) \<in> set es" for c xs
  proof -
    have "c \<noteq> bid" using notin that by force
    then show ?thesis using Cons.prems(2) [of c xs] that by (simp add: e)
  qed
  have IH: "mget [] (tr_samples (foldl (prune_one cutoff) ?t es)) b
       = (if b \<in> fst ` set es then filter (\<lambda>s. cutoff \<le> sm_at s) (mget [] (tr_samples ?t) b)
          else mget [] (tr_samples ?t) b)"
    by (rule Cons.IH) (use Cons.prems keep in auto)
  show ?case
  proof (cases "b = bid")
    case True
    then show ?thesis using IH notin same ss by (simp add: e)
  next
    case False
    then show ?thesis using IH by (auto simp: e)
  qed
qed simp

definition samples_ok :: "time \<Rightarrow> tracker \<Rightarrow> bool" where
  \<comment> \<open>invariant of the sample store; the first argument bounds the clock readings so far\<close>
  "samples_ok now t \<longleftrightarrow> gomap_ok (tr_samples t) \<and> (\<forall>b.
     int (length (mget [] (tr_samples t) b)) \<le> pc_MaxSamples (tr_config t)
     \<and> sorted_wrt (\<lambda>x y. sm_at x \<le> sm_at y) (mget [] (tr_samples t) b)
     \<and> (\<forall>s\<in>set (mget [] (tr_samples t) b). sm_at s \<le> now \<and> 0 < sm_ttft s \<and> validFeatures (sm_features s)))"

lemma pruneLocked_filter:
  assumes "samples_ok now0 t"
  shows "mget [] (tr_samples (pruneLocked now t)) b
       = filter (\<lambda>s. now - pc_MaxSampleAge (tr_config t) \<le> sm_at s) (mget [] (tr_samples t) b)"
proof -
  have entry: "mget [] (tr_samples t) c = ss" if "(c, ss) \<in> set (tr_samples t)" for c ss
    using assms that by (simp add: samples_ok_def gomap_ok_def mget_def)
  have "mget [] (tr_samples t) b = []" if "b \<notin> fst ` set (tr_samples t)"
    using that by (simp add: mget_def map_of_eq_None_iff [symmetric])
  moreover have "sorted_wrt (\<lambda>x y. sm_at x \<le> sm_at y) ss" if "(c, ss) \<in> set (tr_samples t)" for c ss
    using assms entry [OF that] by (auto simp: samples_ok_def)
  ultimately show ?thesis
    using prune_fold [of "tr_samples t" t "time_add now (- pc_MaxSampleAge (tr_config t))" b] assms entry
    by (simp add: pruneLocked_def time_add_def samples_ok_def gomap_ok_def)
qed

lemma prune_fold_config:
  "tr_config (foldl (prune_one cutoff) t es) = tr_config t
   \<and> (gomap_ok (tr_samples t) \<longrightarrow> gomap_ok (tr_samples (foldl (prune_one cutoff) t es)))"
proof (induction es arbitrary: t)
  case (Cons e es)
  have "tr_config (prune_one cutoff t e) = tr_config t
    \<and> (gomap_ok (tr_samples t) \<longrightarrow> gomap_ok (tr_samples (prune_one cutoff t e)))"
    by (simp add: prune_one_def Let_def split: prod.splits)
  with Cons.IH [of "prune_one cutoff t e"] show ?case by simp
qed simp

lemma samples_ok_prune:
  assumes "samples_ok now0 t"
  shows "samples_ok now0 (pruneLocked now t)" and "tr_config (pruneLocked now t) = tr_config t"
proof -
  show cfg: "tr_config (pruneLocked now t) = tr_config t" by (simp add: pruneLocked_def prune_fold_config)
  have "length (filter P (mget [] (tr_samples t) b)) \<le> length (mget [] (tr_samples t) b)" for P b
    by (rule length_filter_le)
  then have "int (length (filter P (mget [] (tr_samples t) b))) \<le> pc_MaxSamples (tr_config t)" for P b
    using assms by (meson of_nat_mono order_trans samples_ok_def)
  then show "samples_ok now0 (pruneLocked now t)"
    using assms unfolding samples_ok_def pruneLocked_filter [OF assms] cfg
    by (auto simp: pruneLocked_def prune_fold_config intro: sorted_wrt_filter)
qed

lemma samples_ok_later: "samples_ok now0 t \<Longrightarrow> now0 \<le> now \<Longrightarrow> samples_ok now t"
  unfolding samples_ok_def by (meson order_trans)

lemma keep_newest: "0 \<le> m \<Longrightarrow> int (length (if int (length xs) > m then drop (length xs - nat m) xs else xs)) \<le> m"
  by auto

lemma samples_ok_record:
  assumes "samples_ok now0 t" and "now0 \<le> now" and "0 \<le> pc_MaxSamples (tr_config t)"
  shows "samples_ok now (tracker_record now bid f ttft t)" and "tr_config (tracker_record now bid f ttft t) = tr_config t"
proof -
  let ?t = "pruneLocked now t" and ?new = "\<lparr>sm_at = now, sm_features = f, sm_ttft = ttft\<rparr>"
  let ?ss = "mget [] (tr_samples ?t) bid @ [?new]" and ?n = "nat (pc_MaxSamples (tr_config t))"
  note p = samples_ok_prune [OF assms(1), of now]
  then have ok: "samples_ok now ?t" using assms(2) by (blast intro: samples_ok_later)
  show "tr_config (tracker_record now bid f ttft t) = tr_config t"
    using p(2) by (simp add: tracker_record_def Let_def)
  show "samples_ok now (tracker_record now bid f ttft t)"
  proof (cases "ttft \<le> 0 \<or> \<not> validFeatures f")
    case True
    then show ?thesis using assms by (auto simp: tracker_record_def intro: samples_ok_later)
  next
    case False
    define kept where "kept = (if int (length ?ss) > pc_MaxSamples (tr_config t) then drop (length ?ss - ?n) ?ss else ?ss)"
    have rec: "tracker_record now bid f ttft t = ?t\<lparr>tr_samples := AList.update bid kept (tr_samples ?t)\<rparr>"
      using False p(2) by (simp add: tracker_record_def kept_def Let_def)
    have ss: "sorted_wrt (\<lambda>x y. sm_at x \<le> sm_at y) ?ss"
      "\<And>s. s \<in> set ?ss \<Longrightarrow> sm_at s \<le> now \<and> 0 < sm_ttft s \<and> validFeatures (sm_features s)"
      using ok False by (auto simp: samples_ok_def sorted_wrt_append)
    have "int (length kept) \<le> pc_MaxSamples (tr_config t)"
      using assms(3) unfolding kept_def by (rule keep_newest)
    moreover have "sorted_wrt (\<lambda>x y. sm_at x \<le> sm_at y) kept" "set kept \<subseteq> set ?ss"
      using ss(1) set_drop_subset [of _ ?ss] unfolding kept_def by (auto simp only: sorted_wrt_drop split: if_splits)
    ultimately show ?thesis
      using ok ss(2) p(2) unfolding rec samples_ok_def by (auto simp: gomap)
  qed
qed

lemma modelLocked_frame: "tr_samples (snd (modelLocked t b)) = tr_samples t \<and> tr_config (snd (modelLocked t b)) = tr_config t"
  by (auto simp: modelLocked_def Let_def split: option.splits)

lemma shadow_loop_frame:
  "tr_samples (snd (shadow_loop sel cs r best t)) = tr_samples t \<and> tr_config (snd (shadow_loop sel cs r best t)) = tr_config t"
proof (induction sel cs r best t rule: shadow_loop.induct)
  case (2 sel c cs r best t)
  obtain m t' where m: "modelLocked t (cd_Backend c) = (m, t')" by fastforce
  with modelLocked_frame [of t "cd_Backend c"] have "tr_samples t' = tr_samples t" "tr_config t' = tr_config t" by auto
  with 2 m show ?case by (cases m) (auto simp: Let_def)
qed simp

lemma shadowLocked_frame: "tr_samples (snd (shadowLocked i t)) = tr_samples t \<and> tr_config (snd (shadowLocked i t)) = tr_config t"
  using shadow_loop_frame [of "bi_Selected i" "bi_Candidates i" "bare_Shadow StatusAvailable" 0 t]
  by (auto simp: shadowLocked_def split: sum.splits prod.splits)

lemma samples_ok_frame:
  "tr_samples t' = tr_samples t \<Longrightarrow> tr_config t' = tr_config t \<Longrightarrow> samples_ok now t' = samples_ok now t"
  by (simp add: samples_ok_def)

lemma samples_ok_Begin:
  assumes "samples_ok now0 t" and "now0 \<le> now"
  shows "samples_ok now (snd (snd (Begin now i t)))" and "tr_config (snd (snd (Begin now i t))) = tr_config t"
proof -
  have later: "samples_ok now t" using assms by (rule samples_ok_later)
  have "tr_samples (snd (shadowLocked i (pruneLocked now t))) = tr_samples (pruneLocked now t)"
    "tr_config (snd (shadowLocked i (pruneLocked now t))) = tr_config (pruneLocked now t)"
    using shadowLocked_frame by blast+
  then show "samples_ok now (snd (snd (Begin now i t)))" and "tr_config (snd (snd (Begin now i t))) = tr_config t"
    using later samples_ok_prune [OF later, of now] samples_ok_frame [of "snd (shadowLocked i (pruneLocked now t))" "pruneLocked now t" now]
    by (auto simp: Begin_def Let_def split: prod.splits)
qed

lemma Reconcile_fold:
  "gomap_ok (tr_samples t) \<Longrightarrow>
   (let t' = foldl (\<lambda>t' bid. if bid \<in> set bs then t'
        else t'\<lparr>tr_samples := AList.delete bid (tr_samples t'), tr_models := AList.delete bid (tr_models t')\<rparr>) t ids
    in tr_config t' = tr_config t \<and> gomap_ok (tr_samples t')
     \<and> (\<forall>b. mget [] (tr_samples t') b = (if b \<in> set ids \<and> b \<notin> set bs then [] else mget [] (tr_samples t) b)))"
  by (induction ids arbitrary: t) (auto simp: Let_def gomap)

lemma samples_ok_Reconcile:
  assumes "samples_ok now t" and "0 \<le> pc_MaxSamples (tr_config t)"
  shows "samples_ok now (prediction_Reconcile bs t)" and "tr_config (prediction_Reconcile bs t) = tr_config t"
proof -
  have g: "gomap_ok (tr_samples t)" using assms(1) by (simp add: samples_ok_def)
  note r = Reconcile_fold [OF g, of bs "map fst (tr_samples t)", unfolded Let_def, folded prediction_Reconcile_def]
  then show "tr_config (prediction_Reconcile bs t) = tr_config t" by simp
  with r assms show "samples_ok now (prediction_Reconcile bs t)" by (auto simp: samples_ok_def)
qed

inductive tracker_reach :: "tracker \<Rightarrow> time \<Rightarrow> tracker \<Rightarrow> bool" where
  \<comment> \<open>the states a tracker passes through when its clock never goes back\<close>
  start: "tracker_reach t now t"
| begin_step: "tracker_reach t0 now t \<Longrightarrow> now \<le> now' \<Longrightarrow> Begin now' input t = (ticket, shadow, t') \<Longrightarrow> tracker_reach t0 now' t'"
| observe_step: "tracker_reach t0 now t \<Longrightarrow> now \<le> now' \<Longrightarrow> observe now' ttft ticket t = (ob, ticket', t') \<Longrightarrow> tracker_reach t0 now' t'"
| reconcile_step: "tracker_reach t0 now t \<Longrightarrow> tracker_reach t0 now (prediction_Reconcile bs t)"

lemma tracker_reach_ok:
  assumes "tracker_reach t0 now t" and "\<And>now0. samples_ok now0 t0" and "0 \<le> pc_MaxSamples (tr_config t0)"
  shows "samples_ok now t \<and> tr_config t = tr_config t0"
  using assms
proof (induction rule: tracker_reach.induct)
  case (begin_step t0 now t now' input ticket shadow t')
  then show ?case using samples_ok_Begin [of now t now' input] by auto
next
  case (observe_step t0 now t now' ttft ticket ob ticket' t')
  then show ?case using samples_ok_record [of now t now' "tk_backend ticket" "tk_features ticket" ttft]
    by (auto simp: observe_def Let_def split: if_splits intro: samples_ok_later)
next
  case (reconcile_step t0 now t bs)
  then show ?case using samples_ok_Reconcile [of now t bs] by auto
qed blast

text \<open>
  However requests, first-token observations and membership changes interleave on a clock that
  does not go back, each backend keeps at most \<open>MaxSamples\<close> samples, all of them valid observations,
  and the binary search of the pruning removes exactly the samples older than \<open>MaxSampleAge\<close>.
\<close>

theorem tracker_samples_bounded:
  assumes "prediction_New c = Inr t0" and "tracker_reach t0 last_read t" and "last_read \<le> now"
  shows "int (length (mget [] (tr_samples t) b)) \<le> pc_MaxSamples c
     \<and> (\<forall>s\<in>set (mget [] (tr_samples t) b). 0 < sm_ttft s \<and> validFeatures (sm_features s))
     \<and> mget [] (tr_samples (pruneLocked now t)) b
       = filter (\<lambda>s. now - pc_MaxSampleAge c \<le> sm_at s) (mget [] (tr_samples t) b)"
proof -
  have t0: "t0 = \<lparr>tr_config = c, tr_samples = [], tr_models = []\<rparr>" and "0 \<le> pc_MaxSamples c"
    using assms(1) by (auto simp: prediction_New_def prediction_Config_Validate_def split: option.splits if_splits)
  then have "samples_ok now0 t0" for now0 by (simp add: samples_ok_def mget_def)
  then have "samples_ok last_read t \<and> tr_config t = c"
    using tracker_reach_ok [OF assms(2)] t0 \<open>0 \<le> pc_MaxSamples c\<close> by simp
  then show ?thesis using pruneLocked_filter [of last_read t now b] by (auto simp: samples_ok_def)
qed

definition wit_prediction :: prediction_Config where
  "wit_prediction = \<lparr>pc_Mode = ''shadow'', pc_MaxSamples = 1, pc_MaxSampleAge = 10, pc_MinimumSamples = 1, pc_RefitEvery = 1\<rparr>"

definition wit_features :: Features where
  "wit_features = \<lparr>ft_UncachedTokens = 1, ft_QueueDepth = 0, ft_Running = 0, ft_LocalInflight = 0, ft_LoadValid = True\<rparr>"

definition wit_ticket :: ticketState where
  "wit_ticket = \<lparr>tk_backend = ''b'', tk_features = wit_features, tk_predicted = 0, tk_done = False, tk_observation = zero_Observation\<rparr>"

definition wit_tracker0 :: tracker where
  "wit_tracker0 = \<lparr>tr_config = wit_prediction, tr_samples = [], tr_models = []\<rparr>"

definition wit_tracker1 :: tracker where
  "wit_tracker1 = wit_tracker0\<lparr>tr_samples := [(''b'', [\<lparr>sm_at = 5, sm_features = wit_features, sm_ttft = 7\<rparr>])]\<rparr>"

lemma wit_tracker_reach: "prediction_New wit_prediction = Inr wit_tracker0" "tracker_reach wit_tracker0 5 wit_tracker1"
proof -
  show "prediction_New wit_prediction = Inr wit_tracker0"
    by (simp add: prediction_New_def prediction_Config_Validate_def wit_prediction_def ModeOff_def ModeShadow_def wit_tracker0_def)
  have "snd (snd (observe 5 7 wit_ticket wit_tracker0)) = wit_tracker1"
    by (simp add: observe_def wit_ticket_def tracker_record_def wit_features_def validFeatures_def pruneLocked_def
      wit_tracker0_def wit_tracker1_def wit_prediction_def mget_def)
  then show "tracker_reach wit_tracker0 5 wit_tracker1"
    using tracker_reach.observe_step [OF tracker_reach.start, of 0 5 7 wit_ticket wit_tracker0]
    by (metis order_refl prod.collapse zero_le_numeral)
qed

theorem tracker_samples_bounded_witness:
  "mget [] (tr_samples (pruneLocked 16 wit_tracker1)) ''b'' = []
   \<and> mget [] (tr_samples (pruneLocked 15 wit_tracker1)) ''b'' = mget [] (tr_samples wit_tracker1) ''b''"
  using tracker_samples_bounded [OF wit_tracker_reach, of 16 "''b''"]
    tracker_samples_bounded [OF wit_tracker_reach, of 15 "''b''"]
  by (simp add: wit_tracker1_def wit_prediction_def mget_def)



subsection \<open>The learned coefficients\<close>

definition fin_abs :: "rat \<Rightarrow> f64 \<Rightarrow> bool" where
  \<comment> \<open>a finite value of bounded magnitude\<close>
  "fin_abs bound x \<longleftrightarrow> (\<exists>a. x = Fin a \<and> \<bar>a\<bar> \<le> bound)"

lemma fin_abs_mono: "fin_abs a x \<Longrightarrow> a \<le> b \<Longrightarrow> fin_abs b x"
  by (auto simp: fin_abs_def)

lemma fin_abs_rnd64: "\<bar>x\<bar> \<le> b \<Longrightarrow> is_f64 b \<Longrightarrow> fin_abs b (rnd64 x)"
proof -
  assume x: "\<bar>x\<bar> \<le> b" and b: "is_f64 b"
  then have "is_f64 (- b)" by (simp add: is_f64_def rnd_minus)
  then show ?thesis using rnd64_between [of "- b" b x] x b by (auto simp: fin_abs_def abs_le_iff)
qed

lemma fin_abs_add: "fin_abs a x \<Longrightarrow> fin_abs b y \<Longrightarrow> is_f64 (a + b) \<Longrightarrow> fin_abs (a + b) (f_add x y)"
  by (auto simp: fin_abs_def [of a] fin_abs_def [of b] intro!: fin_abs_rnd64)

lemma fin_abs_sub: "fin_abs a x \<Longrightarrow> fin_abs b y \<Longrightarrow> is_f64 (a + b) \<Longrightarrow> fin_abs (a + b) (f_sub x y)"
  by (auto simp: fin_abs_def [of a] fin_abs_def [of b] f_sub_def intro!: fin_abs_rnd64)

lemma fin_abs_mul: "fin_abs a x \<Longrightarrow> fin_abs b y \<Longrightarrow> is_f64 (a * b) \<Longrightarrow> fin_abs (a * b) (f_mul x y)"
proof -
  assume xy: "fin_abs a x" "fin_abs b y" and f: "is_f64 (a * b)"
  obtain u v where uv: "x = Fin u" "\<bar>u\<bar> \<le> a" "y = Fin v" "\<bar>v\<bar> \<le> b" using xy by (auto simp: fin_abs_def)
  then have "\<bar>u * v\<bar> \<le> a * b" unfolding abs_mult by (intro mult_mono) auto
  then show ?thesis using uv f by (auto intro: fin_abs_rnd64)
qed

definition int64_span :: rat where
  "int64_span = 2 ^ 63"

definition square_span :: rat where
  "square_span = 2 ^ 126"

lemma fin_abs_of_int: "\<bar>n\<bar> \<le> 2 ^ 63 \<Longrightarrow> fin_abs int64_span (f_of_int n)"
proof -
  assume "\<bar>n\<bar> \<le> 2 ^ 63"
  then have "(of_int \<bar>n\<bar> :: rat) \<le> of_int (2 ^ 63)" by (simp only: of_int_le_iff)
  moreover have "is_f64 (2 ^ 63)" using is_f64_dyadic [of 1 63] by (simp add: power_int_def)
  ultimately show ?thesis unfolding f_of_int_def int64_span_def by (intro fin_abs_rnd64) simp_all
qed

lemma is_f64_multiple: "n < 2 ^ 53 \<Longrightarrow> k \<le> 900 \<Longrightarrow> is_f64 (of_nat n * 2 ^ k)"
proof -
  assume "n < 2 ^ 53" and "k \<le> 900"
  then have "is_f64 (of_int (int n) * 2 powi int k)"
    by (intro is_f64_dyadic) (use of_nat_less_iff [where 'a = int, of n "2 ^ 53"] in simp_all)
  then show ?thesis by (simp add: power_int_def)
qed

definition sample_in_range :: "sample \<Rightarrow> bool" where
  "sample_in_range s \<longleftrightarrow> in_int64 (sm_ttft s) \<and> in_int64 (ft_UncachedTokens (sm_features s))
     \<and> in_int64 (ft_QueueDepth (sm_features s)) \<and> in_int64 (ft_Running (sm_features s))
     \<and> in_int64 (ft_LocalInflight (sm_features s))"

lemma int64_fin: "in_int64 n \<Longrightarrow> fin_abs int64_span (f_of_int n)"
  by (rule fin_abs_of_int) (simp add: in_int64_def min_int64_def max_int64_def abs_le_iff)

lemma featureVector_fin:
  assumes "sample_in_range s"
  shows "length (featureVector (sm_features s)) = 5"
    and "\<forall>x\<in>set (featureVector (sm_features s)). fin_abs int64_span x"
  using assms by (auto simp: featureVector_def sample_in_range_def int64_fin) (simp add: fin_abs_def int64_span_def)

lemma milliseconds_fin: "in_int64 n \<Longrightarrow> fin_abs int64_span (f_div (f_of_int n) (Fin 1000000))"
proof -
  assume "in_int64 n"
  then obtain a where a: "f_of_int n = Fin a" "\<bar>a\<bar> \<le> 2 ^ 63"
    using int64_fin [of n] by (auto simp: fin_abs_def int64_span_def)
  have "\<bar>a / 1000000\<bar> \<le> 2 ^ 63" using a(2) by (simp add: abs_divide)
  moreover have "is_f64 (2 ^ 63)" using is_f64_multiple [of 1 63] by simp
  ultimately have "fin_abs int64_span (rnd64 (a / 1000000))" unfolding int64_span_def by (rule fin_abs_rnd64)
  then show ?thesis by (simp add: a)
qed

definition sums_ok :: "nat \<Rightarrow> f64 list list \<times> f64 list \<times> int \<Rightarrow> bool" where
  "sums_ok n acc \<longleftrightarrow> (case acc of (normal, target, k) \<Rightarrow>
     length normal = 5 \<and> (\<forall>row\<in>set normal. length row = 5 \<and> (\<forall>x\<in>set row. fin_abs (of_nat n * square_span) x))
     \<and> length target = 5 \<and> (\<forall>x\<in>set target. fin_abs (of_nat n * square_span) x))"

lemma add_product:
  assumes "fin_abs (of_nat n * square_span) t" and "fin_abs int64_span x" and "fin_abs int64_span y" and "n + 1 < 2 ^ 53"
  shows "fin_abs (of_nat (Suc n) * square_span) (f_add t (f_mul x y))"
proof -
  have sq: "square_span = int64_span * int64_span" by (simp add: square_span_def int64_span_def)
  have "is_f64 square_span" using is_f64_multiple [of 1 126] by (simp add: square_span_def)
  then have m: "fin_abs square_span (f_mul x y)" unfolding sq using assms by (intro fin_abs_mul)
  have eq: "of_nat (Suc n) * square_span = of_nat n * square_span + square_span" by (simp add: algebra_simps)
  have "is_f64 (of_nat (Suc n) * square_span)" using assms(4) unfolding square_span_def by (intro is_f64_multiple) simp_all
  then show ?thesis unfolding eq using assms(1) m by (intro fin_abs_add)
qed

lemma all_map2:
  "\<forall>a\<in>set xs. P a \<Longrightarrow> \<forall>b\<in>set ys. Q b \<Longrightarrow> (\<And>a b. P a \<Longrightarrow> Q b \<Longrightarrow> R (f a b)) \<Longrightarrow> \<forall>z\<in>set (map2 f xs ys). R z"
proof
  fix z
  assume h: "\<forall>a\<in>set xs. P a" "\<forall>b\<in>set ys. Q b" "\<And>a b. P a \<Longrightarrow> Q b \<Longrightarrow> R (f a b)" and "z \<in> set (map2 f xs ys)"
  then obtain a b where "(a, b) \<in> set (zip xs ys)" "z = f a b" by auto
  with h show "R z" using set_zip_leftD [of a b xs ys] set_zip_rightD [of a b xs ys] by blast
qed

lemma accumulate_ok:
  assumes "sums_ok n acc" and "sample_in_range s" and "n + 1 < 2 ^ 53"
  shows "sums_ok (Suc n) (accumulate acc s)"
proof -
  obtain normal target k where acc: "acc = (normal, target, k)" by (cases acc)
  have up: "fin_abs (of_nat n * square_span) x \<Longrightarrow> fin_abs (of_nat (Suc n) * square_span) x" for x
    by (erule fin_abs_mono) (simp add: algebra_simps square_span_def)
  note x = featureVector_fin [OF assms(2)]
  have y: "fin_abs int64_span (f_div (f_of_int (sm_ttft s)) (Fin 1000000))"
    using assms(2) by (intro milliseconds_fin) (simp add: sample_in_range_def)
  have step: "fin_abs (of_nat n * square_span) t \<Longrightarrow> fin_abs int64_span a \<Longrightarrow> fin_abs int64_span b
      \<Longrightarrow> fin_abs (of_nat (Suc n) * square_span) (f_add t (f_mul a b))" for t a b
    by (rule add_product) (use assms(3) in simp_all)
  show ?thesis
  proof (cases "sm_ttft s \<le> 0 \<or> \<not> validFeatures (sm_features s)")
    case True
    then show ?thesis using assms(1) up by (auto simp: acc sums_ok_def accumulate_def)
  next
    case False
    let ?x = "featureVector (sm_features s)" and ?y = "f_div (f_of_int (sm_ttft s)) (Fin 1000000)"
    have row: "length (map2 (\<lambda>xc n. f_add n (f_mul xr xc)) ?x r) = 5
        \<and> (\<forall>z\<in>set (map2 (\<lambda>xc n. f_add n (f_mul xr xc)) ?x r). fin_abs (of_nat (Suc n) * square_span) z)"
      if "fin_abs int64_span xr" "length r = 5" "\<forall>z\<in>set r. fin_abs (of_nat n * square_span) z" for xr r
      using that x(1) all_map2 [OF x(2) that(3), of "fin_abs (of_nat (Suc n) * square_span)" "\<lambda>xc n. f_add n (f_mul xr xc)"] step
      by (simp del: of_nat_Suc)
    have "\<forall>r\<in>set (map2 (\<lambda>xr r. map2 (\<lambda>xc n. f_add n (f_mul xr xc)) ?x r) ?x normal).
        length r = 5 \<and> (\<forall>z\<in>set r. fin_abs (of_nat (Suc n) * square_span) z)"
    proof (rule all_map2 [OF x(2)])
      show "\<forall>r\<in>set normal. length r = 5 \<and> (\<forall>z\<in>set r. fin_abs (of_nat n * square_span) z)"
        using assms(1) by (simp add: acc sums_ok_def)
    qed (use row in blast)
    moreover have "\<forall>z\<in>set (map2 (\<lambda>xr t. f_add t (f_mul xr ?y)) ?x target). fin_abs (of_nat (Suc n) * square_span) z"
      by (rule all_map2 [OF x(2), of target "fin_abs (of_nat n * square_span)"])
         (use assms(1) y step in \<open>auto simp: acc sums_ok_def simp del: of_nat_Suc\<close>)
    ultimately show ?thesis
      using False x(1) assms(1) by (simp add: acc sums_ok_def accumulate_def Let_def del: of_nat_Suc)
  qed
qed

lemma accumulate_all_ok:
  assumes "\<forall>s\<in>set ss. sample_in_range s" and "sums_ok n acc" and "n + length ss < 2 ^ 53"
  shows "sums_ok (n + length ss) (foldl accumulate acc ss)"
  using assms
proof (induction ss arbitrary: n acc)
  case (Cons s ss)
  then have "sums_ok (Suc n) (accumulate acc s)" by (intro accumulate_ok) auto
  from Cons.IH [OF _ this] Cons.prems show ?case by simp
qed simp

subsection \<open>Coordinate descent\<close>

definition clipped :: "nat \<Rightarrow> f64 \<Rightarrow> bool" where
  "clipped i x \<longleftrightarrow> (\<exists>c u. x = Fin c \<and> 0 \<le> c \<and> coefficientUpperBounds ! i = Fin u \<and> c \<le> u)"

definition coefficients_clipped :: "f64 list \<Rightarrow> bool" where
  "coefficients_clipped cs \<longleftrightarrow> length cs = 5 \<and> (\<forall>i<5. clipped i (cs ! i))"

definition big_span :: rat where
  "big_span = 2 ^ 200"

lemma bound_nth: "i < 5 \<Longrightarrow> \<exists>u. coefficientUpperBounds ! i = Fin u \<and> 0 \<le> u \<and> u \<le> 2 ^ 14"
  by (auto simp: coefficientUpperBounds_def less_Suc_eq numeral_eq_Suc)

lemma clip_ok:
  assumes "i < 5" and "x \<noteq> NaN"
  shows "clipped i (f_min (coefficientUpperBounds ! i) (f_max (Fin 0) x))"
  using bound_nth [OF assms(1)] assms(2) by (cases x) (auto simp: clipped_def)

lemma clipped_fin: "i < 5 \<Longrightarrow> clipped i x \<Longrightarrow> fin_abs (2 ^ 14) x"
  using bound_nth [of i] by (auto simp: clipped_def fin_abs_def)

lemma residual_fin:
  assumes "fin_abs big_span (target ! row)" and "coefficients_clipped cs"
    and "\<And>c. c < 5 \<Longrightarrow> fin_abs (2 ^ 186) (normal ! row ! c)"
  shows "\<exists>a. residual normal target cs row = Fin a"
proof -
  let ?step = "\<lambda>r column. if column \<noteq> row then f_sub r (f_mul (normal ! row ! column) (cs ! column)) else r"
  have "fin_abs (of_nat (Suc n) * big_span) (foldl ?step (target ! row) [0..<n])" if "n \<le> 5" for n
    using that
  proof (induction n)
    case 0
    then show ?case using assms(1) by simp
  next
    case (Suc n)
    let ?r = "foldl ?step (target ! row) [0..<n]"
    have r: "fin_abs (of_nat (Suc n) * big_span) ?r" using Suc by simp
    have big: "big_span = 2 ^ 186 * 2 ^ 14" by (simp add: big_span_def)
    have "is_f64 big_span" using is_f64_multiple [of 1 200] by (simp add: big_span_def)
    then have m: "fin_abs big_span (f_mul (normal ! row ! n) (cs ! n))"
      unfolding big using assms(2,3) Suc.prems
      by (intro fin_abs_mul clipped_fin [of n]) (auto simp: coefficients_clipped_def)
    have eq: "of_nat (Suc (Suc n)) * big_span = of_nat (Suc n) * big_span + big_span" by (simp add: algebra_simps)
    have "is_f64 (of_nat (Suc (Suc n)) * big_span)"
      unfolding big_span_def using Suc.prems by (intro is_f64_multiple) simp_all
    then have "fin_abs (of_nat (Suc (Suc n)) * big_span) (f_sub ?r (f_mul (normal ! row ! n) (cs ! n)))"
      unfolding eq using r m by (intro fin_abs_sub)
    moreover have "fin_abs (of_nat (Suc (Suc n)) * big_span) ?r"
      using r by (rule fin_abs_mono) (simp add: big_span_def)
    moreover have "foldl ?step (target ! row) [0..<Suc n] = ?step ?r n" by simp
    ultimately show ?case by (simp only: simp_thms split: if_split)
  qed
  from this [of 5] show ?thesis unfolding residual_def fin_abs_def by auto
qed

lemma descend_clipped:
  assumes "coefficients_clipped cs" and "row < 5" and "fin_abs big_span (target ! row)"
    and "\<And>c. c < 5 \<Longrightarrow> fin_abs (2 ^ 186) (normal ! row ! c)"
  shows "coefficients_clipped (descend normal target cs row)"
proof (cases "f_eq (normal ! row ! row) (Fin 0)")
  case True
  then show ?thesis using assms(1) by (simp add: descend_def)
next
  case False
  obtain a where a: "residual normal target cs row = Fin a" using residual_fin [of target row cs normal] assms by blast
  obtain d where d: "normal ! row ! row = Fin d" using assms(4) [OF assms(2)] by (auto simp: fin_abs_def)
  have "f_div (Fin a) (Fin d) \<noteq> NaN" using False by (simp add: d rnd64_def Let_def)
  then have "clipped row (f_min (coefficientUpperBounds ! row) (f_max (Fin 0) (f_div (Fin a) (Fin d))))"
    by (rule clip_ok [OF assms(2)])
  then have "clipped row (f_min (coefficientUpperBounds ! row)
      (f_max (Fin 0) (f_div (residual normal target cs row) (normal ! row ! row))))" by (simp only: a d)
  then show ?thesis using False assms(1,2)
    by (auto simp: descend_def coefficients_clipped_def nth_list_update simp del: f_min.simps f_max.simps)
qed

lemma regularize_fin:
  assumes "length normal = 5" and "\<forall>row\<in>set normal. length row = 5 \<and> (\<forall>x\<in>set row. fin_abs (2 ^ 185) x)"
    and "i < 5" and "c < 5"
  shows "fin_abs (2 ^ 186) (regularize normal ! i ! c)"
proof -
  have row: "normal ! i \<in> set normal" using assms(1,3) by simp
  have cell: "fin_abs (2 ^ 185) (normal ! i ! j)" if "j < 5" for j
    using assms(2) row that by (metis nth_mem)
  have f: "is_f64 (2 ^ 185 + 2 ^ 185)" using is_f64_multiple [of 1 186] by simp
  have "fin_abs (2 ^ 185 + 2 ^ 185) (f_add (normal ! i ! i) (Fin 1))"
    using cell [OF assms(3)] f by (intro fin_abs_add) (simp_all add: fin_abs_def)
  then have diag: "fin_abs (2 ^ 186) (f_add (normal ! i ! i) (Fin 1))" by (rule fin_abs_mono) simp
  have off: "fin_abs (2 ^ 186) (normal ! i ! c)" using cell [OF assms(4)] by (rule fin_abs_mono) simp
  have len: "length (normal ! i) = 5" using assms(2) row by blast
  show ?thesis using diag off assms(3,4) len by (cases "i = 0"; cases "c = i") (simp_all add: regularize_def)
qed

lemma descend_all_clipped:
  assumes "coefficients_clipped cs" and "\<forall>row\<in>set rows. row < 5"
    and "\<And>row. row < 5 \<Longrightarrow> fin_abs big_span (target ! row)"
    and "\<And>row c. row < 5 \<Longrightarrow> c < 5 \<Longrightarrow> fin_abs (2 ^ 186) (normal ! row ! c)"
  shows "coefficients_clipped (foldl (descend normal target) cs rows)"
  using assms(1,2)
proof (induction rows arbitrary: cs)
  case (Cons row rows)
  then have "coefficients_clipped (descend normal target cs row)"
    using assms(3,4) by (intro descend_clipped) simp_all
  with Cons show ?case by simp
qed simp

lemma zero_clipped: "coefficients_clipped (replicate 5 (Fin 0))"
  using bound_nth by (auto simp: coefficients_clipped_def clipped_def)

lemma fit_clipped:
  assumes "\<forall>s\<in>set samples. sample_in_range s" and "length samples < 2 ^ 40" and "prediction_fit samples m = Some cs"
  shows "coefficients_clipped cs"
proof -
  obtain normal target k where sums: "foldl accumulate (zero_matrix, replicate 5 (Fin 0), 0) samples = (normal, target, k)"
    by (metis prod_cases3)
  have "sums_ok 0 (zero_matrix, replicate 5 (Fin 0), 0)" by (auto simp: sums_ok_def zero_matrix_def fin_abs_def)
  then have ok: "sums_ok (length samples) (normal, target, k)"
    using accumulate_all_ok [of samples 0 "(zero_matrix, replicate 5 (Fin 0), 0)"] assms(1,2) by (simp add: sums)
  have "(of_nat (length samples) :: rat) \<le> of_nat (2 ^ 40)" using assms(2) by (simp only: of_nat_le_iff)
  then have n: "of_nat (length samples) * square_span \<le> 2 ^ 185"
    using mult_right_mono [of "of_nat (length samples)" "2 ^ 40" square_span] by (simp add: square_span_def)
  have small: "fin_abs (of_nat (length samples) * square_span) x \<Longrightarrow> fin_abs (2 ^ 185) x" for x
    by (erule fin_abs_mono) (rule n)
  have "fin_abs (2 ^ 186) (regularize normal ! i ! c)" if "i < 5" "c < 5" for i c
    using ok small that by (intro regularize_fin) (auto simp: sums_ok_def)
  moreover have "fin_abs big_span (target ! i)" if "i < 5" for i
  proof -
    have "fin_abs (2 ^ 185) (target ! i)" using ok small that by (simp add: sums_ok_def)
    then show ?thesis by (rule fin_abs_mono) (simp add: big_span_def)
  qed
  moreover have "cs = foldl (descend (regularize normal) target) (replicate 5 (Fin 0)) (concat (replicate 64 [0..<5]))"
    using assms(3) by (auto simp: prediction_fit_def sums split: if_splits)
  ultimately show ?thesis
    by (simp only:) (rule descend_all_clipped [OF zero_clipped], auto)
qed

text \<open>
  Whatever has been observed, a fitted model is usable: with \<open>int64\<close> samples, fewer than
  \<open>2 ^ 40\<close> of them, the float64 normal equations and the coordinate descent never overflow or
  become undefined, and each coefficient is a finite number between zero and its upper bound.
\<close>

theorem learned_coefficients_bounded:
  assumes "\<forall>s\<in>set samples. sample_in_range s" and "length samples < 2 ^ 40"
    and "prediction_fit samples minimum = Some cs" and "i < 5"
  shows "\<exists>c u. cs ! i = Fin c \<and> coefficientUpperBounds ! i = Fin u \<and> 0 \<le> c \<and> c \<le> u"
  using fit_clipped [OF assms(1-3)] assms(4) by (auto simp: coefficients_clipped_def clipped_def)

definition wit_sample :: sample where
  "wit_sample = \<lparr>sm_at = 5, sm_features = wit_features, sm_ttft = 7\<rparr>"

lemma wit_fit: "prediction_fit [wit_sample] 1 \<noteq> None"
  by (simp add: prediction_fit_def accumulate_def Let_def wit_sample_def wit_features_def validFeatures_def)

theorem learned_coefficients_bounded_witness:
  "\<exists>cs c u. prediction_fit [wit_sample] 1 = Some cs \<and> cs ! 1 = Fin c
     \<and> coefficientUpperBounds ! 1 = Fin u \<and> 0 \<le> c \<and> c \<le> u"
proof -
  obtain cs where cs: "prediction_fit [wit_sample] 1 = Some cs" using wit_fit by blast
  have "\<exists>c u. cs ! 1 = Fin c \<and> coefficientUpperBounds ! 1 = Fin u \<and> 0 \<le> c \<and> c \<le> u"
    by (rule learned_coefficients_bounded [OF _ _ cs])
       (simp_all add: sample_in_range_def wit_sample_def wit_features_def in_int64_def min_int64_def max_int64_def)
  with cs show ?thesis by blast
qed


end
