(* ===== verification/Static_Estimator.thy ===== *)
theory Static_Estimator
  imports Float64
begin

text \<open>
  \<open>internal/serving/prediction/static_estimator.go\<close> and \<open>static_estimator_impl.go\<close>: the
  calibrated profile (a grid of prefill durations over prompt length and cached share), its
  validation, and the time-to-first-token estimate. Durations and counts are \<open>int64\<close>; every
  operation that may leave the range is wrapped. The interpolation is carried out in float64 as the
  code does; \<open>bilinear\<close> is the exact interpolation it approximates.

  An index expression of the source is \<open>!\<close>: a validated profile keeps every index in range.
\<close>

subsection \<open>Data\<close>

record ProfileIdentity =
  pi_Model :: string
  pi_HardwareProfile :: string
  pi_VLLMVersion :: string
  pi_MinPromptTokens :: int
  pi_MaxModelTokens :: int

record PromptWork =
  pw_PromptTokens :: int
  pw_CachedPrefixTokens :: int

record LoadWork =
  lw_QueueDepth :: int
  lw_Running :: int
  lw_LocalDelta :: int
  lw_LocalInflight :: int
  lw_Valid :: bool

record StaticLoadBounds =
  lb_MaxQueueDepth :: int
  lb_MaxRunning :: int
  lb_MaxLocalDelta :: int
  lb_MaxLocalFallback :: int

record StaticInput =
  si_Identity :: ProfileIdentity
  si_Prompt :: PromptWork
  si_Load :: LoadWork

datatype StaticConfidence = NoConfidence | StaticConfidenceCalibrated | StaticConfidenceDegraded
  | StaticConfidenceUncalibrated

datatype StaticReason = NoStaticReason | StaticReasonCalibrated | StaticReasonUncalibrated
  | StaticReasonLoadFallback | StaticReasonInvalidInput | StaticReasonProfileMismatch
  | StaticReasonOutOfRange | StaticReasonOverflow

record StaticEstimate =
  st_TTFT :: duration
  st_Valid :: bool
  st_Confidence :: StaticConfidence
  st_Version :: string
  st_Reason :: StaticReason

record StaticProfile =
  sp_Identity :: ProfileIdentity
  sp_MaxPromptTokens :: int
  sp_Version :: string
  sp_Calibrated :: bool
  sp_PromptTokenBreakpoints :: "int list"
  sp_CachedRatioBreakpoints :: "int list"
  sp_Prefill :: "duration list list"
  sp_QueueWaitPerRequest :: duration
  sp_RunningDelayPerRequest :: duration
  sp_LocalDeltaPerRequest :: duration
  sp_LocalFallbackPerRequest :: duration
  sp_SafetyMargin :: duration
  sp_LoadBounds :: "StaticLoadBounds option"

datatype profile_error = ErrProfileIdentity | ErrProfileVersion | ErrBreakpointsMissing
  | ErrRatioCover | ErrPromptRange | ErrPromptBreakpoints | ErrPromptCover | ErrRatioBreakpoints
  | ErrNegativeCoefficient | ErrNegativeBound | ErrPrefillRows | ErrPrefillColumns
  | ErrNegativePrefill | ErrPrefillCacheOrder | ErrPrefillPromptOrder

definition cacheRatioBasisPoints :: int where
  "cacheRatioBasisPoints = 10000"

subsection \<open>Validation\<close>

definition ProfileIdentity_Validate :: "ProfileIdentity \<Rightarrow> profile_error option" where
  "ProfileIdentity_Validate i =
     (if pi_Model i = '''' \<or> pi_HardwareProfile i = '''' \<or> pi_VLLMVersion i = ''''
         \<or> pi_MinPromptTokens i \<le> 0 \<or> pi_MaxModelTokens i < pi_MinPromptTokens i
         \<or> pi_MaxModelTokens i > quot64 max_int64 cacheRatioBasisPoints
      then Some ErrProfileIdentity else None)"

fun increasing_from :: "int option \<Rightarrow> int list \<Rightarrow> int \<Rightarrow> int \<Rightarrow> bool" where
  \<comment> \<open>the loop of \<open>validateIncreasing\<close>; the first argument is the previous element\<close>
  "increasing_from prev [] minimum maximum = True"
| "increasing_from prev (v # vs) minimum maximum =
     (if v < minimum \<or> v > maximum then False
      else if (case prev of None \<Rightarrow> False | Some p \<Rightarrow> v \<le> p) then False
      else increasing_from (Some v) vs minimum maximum)"

definition validateIncreasing :: "int list \<Rightarrow> int \<Rightarrow> int \<Rightarrow> bool" where
  "validateIncreasing values minimum maximum = increasing_from None values minimum maximum"

fun validate_cells :: "duration list option \<Rightarrow> duration option \<Rightarrow> duration list \<Rightarrow> profile_error option" where
  \<comment> \<open>the inner loop of \<open>Validate\<close>: the rest of the row upper and the cell to the left\<close>
  "validate_cells upper left [] = None"
| "validate_cells upper left (v # vs) =
     (if v < 0 then Some ErrNegativePrefill
      else if (case left of None \<Rightarrow> False | Some l \<Rightarrow> v > l) then Some ErrPrefillCacheOrder
      else if (case upper of None \<Rightarrow> False | Some as \<Rightarrow> v < hd as) then Some ErrPrefillPromptOrder
      else validate_cells (map_option tl upper) (Some v) vs)"

fun validate_rows :: "nat \<Rightarrow> duration list option \<Rightarrow> duration list list \<Rightarrow> profile_error option" where
  "validate_rows columns upper [] = None"
| "validate_rows columns upper (r # rs) =
     (if length r \<noteq> columns then Some ErrPrefillColumns
      else case validate_cells upper None r of Some e \<Rightarrow> Some e
           | None \<Rightarrow> validate_rows columns (Some r) rs)"

definition profile_max_prompt :: "StaticProfile \<Rightarrow> int" where
  "profile_max_prompt p =
     (if sp_MaxPromptTokens p = 0 then pi_MaxModelTokens (sp_Identity p) else sp_MaxPromptTokens p)"

definition StaticProfile_Validate :: "StaticProfile \<Rightarrow> profile_error option" where
  "StaticProfile_Validate p =
    (case ProfileIdentity_Validate (sp_Identity p) of Some e \<Rightarrow> Some e | None \<Rightarrow>
      if sp_Version p = '''' then Some ErrProfileVersion
      else if length (sp_PromptTokenBreakpoints p) = 0 \<or> length (sp_CachedRatioBreakpoints p) < 2
      then Some ErrBreakpointsMissing
      else if hd (sp_CachedRatioBreakpoints p) \<noteq> 0
              \<or> last (sp_CachedRatioBreakpoints p) \<noteq> cacheRatioBasisPoints
      then Some ErrRatioCover
      else if profile_max_prompt p < pi_MinPromptTokens (sp_Identity p)
              \<or> profile_max_prompt p > pi_MaxModelTokens (sp_Identity p)
      then Some ErrPromptRange
      else if \<not> validateIncreasing (sp_PromptTokenBreakpoints p) 1 (profile_max_prompt p)
      then Some ErrPromptBreakpoints
      else if hd (sp_PromptTokenBreakpoints p) \<noteq> pi_MinPromptTokens (sp_Identity p)
              \<or> last (sp_PromptTokenBreakpoints p) \<noteq> profile_max_prompt p
      then Some ErrPromptCover
      else if \<not> validateIncreasing (sp_CachedRatioBreakpoints p) 0 cacheRatioBasisPoints
      then Some ErrRatioBreakpoints
      else if sp_QueueWaitPerRequest p < 0 \<or> sp_RunningDelayPerRequest p < 0
              \<or> sp_LocalDeltaPerRequest p < 0 \<or> sp_LocalFallbackPerRequest p < 0 \<or> sp_SafetyMargin p < 0
      then Some ErrNegativeCoefficient
      else if (case sp_LoadBounds p of None \<Rightarrow> False
               | Some b \<Rightarrow> lb_MaxQueueDepth b < 0 \<or> lb_MaxRunning b < 0 \<or> lb_MaxLocalDelta b < 0
                           \<or> lb_MaxLocalFallback b < 0)
      then Some ErrNegativeBound
      else if length (sp_Prefill p) \<noteq> length (sp_PromptTokenBreakpoints p) then Some ErrPrefillRows
      else validate_rows (length (sp_CachedRatioBreakpoints p)) None (sp_Prefill p))"

definition NewStaticEstimator :: "StaticProfile \<Rightarrow> profile_error + StaticProfile" where
  \<comment> \<open>the estimator is its profile\<close>
  "NewStaticEstimator profile =
     (case StaticProfile_Validate profile of Some e \<Rightarrow> Inl e
      | None \<Rightarrow> Inr (profile\<lparr>sp_MaxPromptTokens := profile_max_prompt profile\<rparr>))"

subsection \<open>Interpolation\<close>

definition bracket :: "int list \<Rightarrow> int \<Rightarrow> nat \<times> nat" where
  "bracket values target =
     (let final = length values - 1 in
      if target \<le> values ! 0 then (0, 0)
      else if target \<ge> values ! final then (final, final)
      else let high = sort_search (\<lambda>index. values ! index \<ge> target) 0 (length values)
           in (high - 1, high))"

definition interpolateDuration :: "duration \<Rightarrow> duration \<Rightarrow> int \<Rightarrow> int \<Rightarrow> int \<Rightarrow> duration" where
  "interpolateDuration low high lowAt highAt target =
     (if lowAt = highAt \<or> low = high then low
      else let ratio = f_div (f_of_int (wrap64 (target - lowAt))) (f_of_int (wrap64 (highAt - lowAt)))
           in f_to_int64 (f_round (f_add (f_of_int low) (f_mul ratio (f_of_int (wrap64 (high - low)))))))"

definition interpolateGrid :: "int list \<Rightarrow> int list \<Rightarrow> duration list list \<Rightarrow> int \<Rightarrow> int \<Rightarrow> duration" where
  "interpolateGrid xs ys grid x y =
     (let (xLow, xHigh) = bracket xs x;
          (yLow, yHigh) = bracket ys y;
          left = interpolateDuration (grid ! xLow ! yLow) (grid ! xHigh ! yLow) (xs ! xLow) (xs ! xHigh) x;
          right = interpolateDuration (grid ! xLow ! yHigh) (grid ! xHigh ! yHigh) (xs ! xLow) (xs ! xHigh) x
      in interpolateDuration left right (ys ! yLow) (ys ! yHigh) y)"

definition multiplyDuration :: "duration \<Rightarrow> int \<Rightarrow> duration option" where
  "multiplyDuration value count =
     (if value = 0 \<or> count = 0 then Some 0
      else if count > quot64 max_int64 value then None
      else Some (wrap64 (value * count)))"

definition addDuration :: "duration \<Rightarrow> duration \<Rightarrow> duration option" where
  "addDuration left right =
     (if left > wrap64 (max_int64 - right) then None else Some (wrap64 (left + right)))"

subsection \<open>Estimate\<close>

definition outsideLoadBounds :: "StaticProfile \<Rightarrow> LoadWork \<Rightarrow> bool" where
  "outsideLoadBounds e load =
     (case sp_LoadBounds e of None \<Rightarrow> False
      | Some b \<Rightarrow>
          if lw_Valid load
          then lw_QueueDepth load > lb_MaxQueueDepth b \<or> lw_Running load > lb_MaxRunning b
               \<or> lw_LocalDelta load > lb_MaxLocalDelta b
          else lw_LocalInflight load > lb_MaxLocalFallback b)"

definition static_input_invalid :: "StaticInput \<Rightarrow> bool" where
  "static_input_invalid i \<longleftrightarrow>
     pw_PromptTokens (si_Prompt i) \<le> 0 \<or> pw_CachedPrefixTokens (si_Prompt i) < 0
     \<or> pw_CachedPrefixTokens (si_Prompt i) > pw_PromptTokens (si_Prompt i)
     \<or> lw_QueueDepth (si_Load i) < 0 \<or> lw_Running (si_Load i) < 0
     \<or> lw_LocalDelta (si_Load i) < 0 \<or> lw_LocalInflight (si_Load i) < 0"

definition prefill_estimate :: "StaticProfile \<Rightarrow> PromptWork \<Rightarrow> duration" where
  "prefill_estimate e w =
     interpolateGrid (sp_PromptTokenBreakpoints e) (sp_CachedRatioBreakpoints e) (sp_Prefill e)
       (pw_PromptTokens w)
       (quot64 (wrap64 (pw_CachedPrefixTokens w * cacheRatioBasisPoints)) (pw_PromptTokens w))"

definition load_delay :: "StaticProfile \<Rightarrow> LoadWork \<Rightarrow> duration \<Rightarrow> (bool \<times> duration option)" where
  \<comment> \<open>the first component tells whether the products were representable\<close>
  "load_delay e load acc =
     (if lw_Valid load
      then (case (multiplyDuration (sp_QueueWaitPerRequest e) (lw_QueueDepth load),
                  multiplyDuration (sp_RunningDelayPerRequest e) (lw_Running load),
                  multiplyDuration (sp_LocalDeltaPerRequest e) (lw_LocalDelta load)) of
              (Some queue, Some running, Some localDelta) \<Rightarrow>
                (True, Option.bind (addDuration acc queue) (\<lambda>t1.
                         Option.bind (addDuration t1 running) (\<lambda>t2. addDuration t2 localDelta)))
            | _ \<Rightarrow> (False, None))
      else (case multiplyDuration (sp_LocalFallbackPerRequest e) (lw_LocalInflight load) of
              None \<Rightarrow> (False, None)
            | Some localWait \<Rightarrow> (True, addDuration acc localWait)))"

definition evidence :: "StaticProfile \<Rightarrow> LoadWork \<Rightarrow> StaticEstimate \<Rightarrow> StaticEstimate" where
  "evidence e load r =
     (if \<not> sp_Calibrated e
      then r\<lparr>st_Reason := StaticReasonUncalibrated, st_Confidence := StaticConfidenceUncalibrated\<rparr>
      else if lw_Valid load
      then r\<lparr>st_Reason := StaticReasonCalibrated, st_Confidence := StaticConfidenceCalibrated\<rparr>
      else r\<lparr>st_Reason := StaticReasonLoadFallback, st_Confidence := StaticConfidenceDegraded\<rparr>)"

definition base_evidence :: "StaticProfile \<Rightarrow> StaticEstimate \<Rightarrow> StaticEstimate" where
  \<comment> \<open>the confidence set before the load is added, which an unrepresentable product leaves in place\<close>
  "base_evidence e r =
     (if sp_Calibrated e
      then r\<lparr>st_Reason := StaticReasonCalibrated, st_Confidence := StaticConfidenceCalibrated\<rparr>
      else r\<lparr>st_Reason := StaticReasonUncalibrated, st_Confidence := StaticConfidenceUncalibrated\<rparr>)"

definition Estimate :: "StaticProfile \<Rightarrow> StaticInput \<Rightarrow> StaticEstimate" where
  "Estimate e input =
     (let result = \<lparr>st_TTFT = 0, st_Valid = False, st_Confidence = NoConfidence,
                     st_Version = sp_Version e, st_Reason = NoStaticReason\<rparr> in
      if si_Identity input \<noteq> sp_Identity e then result\<lparr>st_Reason := StaticReasonProfileMismatch\<rparr>
      else if static_input_invalid input then result\<lparr>st_Reason := StaticReasonInvalidInput\<rparr>
      else if pw_PromptTokens (si_Prompt input) < pi_MinPromptTokens (sp_Identity e)
              \<or> pw_PromptTokens (si_Prompt input) > sp_MaxPromptTokens e
      then result\<lparr>st_Reason := StaticReasonOutOfRange\<rparr>
      else if outsideLoadBounds e (si_Load input) then result\<lparr>st_Reason := StaticReasonOutOfRange\<rparr>
      else case addDuration (prefill_estimate e (si_Prompt input)) (sp_SafetyMargin e) of
        None \<Rightarrow> result\<lparr>st_Reason := StaticReasonOverflow\<rparr>
      | Some acc0 \<Rightarrow>
         (case load_delay e (si_Load input) acc0 of
            (False, _) \<Rightarrow> (base_evidence e result)\<lparr>st_Reason := StaticReasonOverflow\<rparr>
          | (True, None) \<Rightarrow> result\<lparr>st_Reason := StaticReasonOverflow, st_Confidence := NoConfidence\<rparr>
          | (True, Some acc) \<Rightarrow>
              if acc \<le> 0 then result\<lparr>st_Reason := StaticReasonOverflow, st_Confidence := NoConfidence\<rparr>
              else (evidence e (si_Load input) result)\<lparr>st_TTFT := acc, st_Valid := True\<rparr>))"


subsection \<open>Segments\<close>

lemma increasing_from_spec:
  "increasing_from prev vs a b \<Longrightarrow>
     sorted_wrt (<) vs \<and> (\<forall>v\<in>set vs. a \<le> v \<and> v \<le> b) \<and> (\<forall>p. prev = Some p \<longrightarrow> (\<forall>v\<in>set vs. p < v))"
  by (induction prev vs a b rule: increasing_from.induct) (fastforce split: if_splits option.splits)+

lemma validateIncreasing_spec:
  "validateIncreasing vs a b \<Longrightarrow> sorted_wrt (<) vs \<and> (\<forall>v\<in>set vs. a \<le> v \<and> v \<le> b)"
  using increasing_from_spec [of None vs a b] by (simp add: validateIncreasing_def)

definition segment :: "int list \<Rightarrow> int \<Rightarrow> nat \<times> nat" where
  \<comment> \<open>the breakpoints around a target, by counting those below it\<close>
  "segment vs t = (let n = length (filter (\<lambda>v. v < t) vs) in (n - 1, n))"

definition lerp :: "rat \<Rightarrow> rat \<Rightarrow> int \<Rightarrow> int \<Rightarrow> int \<Rightarrow> rat" where
  "lerp low high lowAt highAt target =
     (if lowAt = highAt then low
      else low + of_int (target - lowAt) / of_int (highAt - lowAt) * (high - low))"

lemma filter_less_count:
  fixes vs :: "int list"
  assumes "sorted_wrt (<) vs" and "n \<le> length vs"
    and "\<And>k. k < n \<Longrightarrow> vs ! k < t" and "n < length vs \<Longrightarrow> t \<le> vs ! n"
  shows "length (filter (\<lambda>v. v < t) vs) = n"
proof -
  have "v < t" if v: "v \<in> set (take n vs)" for v
    using v assms(2,3) by (auto simp: in_set_conv_nth)
  moreover have "\<not> v < t" if v: "v \<in> set (drop n vs)" for v
  proof -
    obtain k where k: "k < length vs - n" "v = vs ! (n + k)" using v by (auto simp: in_set_conv_nth)
    then have "vs ! n \<le> v" using sorted_wrt_nth_less [OF assms(1), of n "n + k"] by (cases "k = 0") (auto simp: less_diff_conv add.commute)
    moreover have "n < length vs" using k by simp
    ultimately show ?thesis using assms(4) by simp
  qed
  ultimately have "filter (\<lambda>v. v < t) (take n vs @ drop n vs) = take n vs"
    by (simp only: filter_append) (simp add: filter_id_conv filter_empty_conv)
  with assms(2) show ?thesis by simp
qed

lemma bracket_cases:
  assumes "sorted_wrt (<) vs" and "vs \<noteq> []" and "hd vs \<le> t" and "t \<le> last vs"
  shows "(fst (bracket vs t) = snd (bracket vs t) \<and> vs ! fst (bracket vs t) = t
           \<and> snd (segment vs t) = fst (bracket vs t) \<or> bracket vs t = segment vs t
           \<and> vs ! fst (bracket vs t) < t \<and> t \<le> vs ! snd (bracket vs t) \<and> fst (bracket vs t) + 1 = snd (bracket vs t))
         \<and> snd (bracket vs t) < length vs"
proof -
  let ?f = "\<lambda>i. vs ! i \<ge> t" and ?n = "length vs"
  have mono: "vs ! a \<le> vs ! b" if "a \<le> b" "b < ?n" for a b
    using sorted_wrt_nth_less [OF assms(1), of a b] that by (cases "a = b") auto
  have smono: "vs ! a < vs ! b" if "a < b" "b < ?n" for a b
    using sorted_wrt_nth_less [OF assms(1), of a b] that by auto
  have n: "0 < ?n" using assms(2) by simp
  have hd: "hd vs = vs ! 0" and last: "last vs = vs ! (?n - 1)"
    using assms(2) by (simp_all add: hd_conv_nth last_conv_nth)
  consider "t \<le> vs ! 0" | "\<not> t \<le> vs ! 0" "vs ! (?n - 1) \<le> t" | "\<not> t \<le> vs ! 0" "\<not> vs ! (?n - 1) \<le> t"
    by blast
  then show ?thesis
  proof cases
    case 1
    have "length (filter (\<lambda>v. v < t) vs) = 0"
      using 1 n by (intro filter_less_count assms(1)) auto
    with 1 n assms(3) hd show ?thesis by (simp add: bracket_def segment_def Let_def)
  next
    case 2
    have "length (filter (\<lambda>v. v < t) vs) = ?n - 1"
      using 2 n smono [of _ "?n - 1"] assms(4) last by (intro filter_less_count assms(1)) auto
    with 2 n assms(4) last show ?thesis by (simp add: bracket_def segment_def Let_def)
  next
    case 3
    define h where "h = sort_search ?f 0 ?n"
    have least: "(\<forall>k. 0 \<le> k \<and> k < h \<longrightarrow> \<not> ?f k) \<and> (h < ?n \<longrightarrow> ?f h)"
      unfolding h_def by (rule sort_search_least) (use mono in \<open>auto intro: order_trans\<close>)
    have "h \<le> ?n - 1" using least 3 assms(4) last n by (metis leI less_le not_less_eq_eq zero_le Suc_diff_1 order.refl)
    then have hn: "h < ?n" using n by linarith
    have h0: "h \<noteq> 0" using least hn 3 by (metis)
    have below: "vs ! k < t" if "k < h" for k using least that by (meson leI zero_le)
    have "length (filter (\<lambda>v. v < t) vs) = h"
      using least hn below by (intro filter_less_count assms(1)) auto
    then show ?thesis using 3 h0 hn least below [of "h - 1"]
      by (simp add: bracket_def segment_def Let_def h_def [symmetric])
  qed
qed

lemma lerp_bracket:
  assumes "sorted_wrt (<) vs" and "vs \<noteq> []" and "hd vs \<le> t" and "t \<le> last vs"
  shows "lerp (g (fst (bracket vs t))) (g (snd (bracket vs t))) (vs ! fst (bracket vs t)) (vs ! snd (bracket vs t)) t
       = lerp (g (fst (segment vs t))) (g (snd (segment vs t))) (vs ! fst (segment vs t)) (vs ! snd (segment vs t)) t"
  using bracket_cases [OF assms]
proof (elim conjE disjE)
  assume b: "fst (bracket vs t) = snd (bracket vs t)" "vs ! fst (bracket vs t) = t"
    "snd (segment vs t) = fst (bracket vs t)"
  assume len: "snd (bracket vs t) < length vs"
  have "fst (segment vs t) \<le> snd (segment vs t)" by (simp add: segment_def Let_def)
  moreover have "distinct vs" using assms(1) strict_sorted_iff by blast
  ultimately have "vs ! fst (segment vs t) = t \<longleftrightarrow> fst (segment vs t) = snd (segment vs t)"
    using b len nth_eq_iff_index_eq [of vs "fst (segment vs t)" "snd (segment vs t)"] by auto
  with b show ?thesis by (auto simp: lerp_def)
qed simp


subsection \<open>Accuracy of the interpolation\<close>

lemma lerp_convex:
  assumes "lowAt \<le> target" and "target \<le> highAt"
  shows "\<exists>q. 0 \<le> q \<and> q \<le> 1 \<and> (\<forall>low high. lerp low high lowAt highAt target = (1 - q) * low + q * high)"
proof (cases "lowAt = highAt")
  case True
  then show ?thesis by (auto simp: lerp_def intro!: exI [of _ 0])
next
  case False
  define q :: rat where "q = of_int (target - lowAt) / of_int (highAt - lowAt)"
  have "0 \<le> q" and "q \<le> 1" using assms False by (simp_all add: q_def divide_le_eq_1)
  moreover have "lerp low high lowAt highAt target = (1 - q) * low + q * high" for low high
    using False unfolding lerp_def q_def [symmetric] by (simp add: algebra_simps)
  ultimately show ?thesis by blast
qed

lemma lerp_close:
  assumes "lowAt \<le> target" and "target \<le> highAt" and "\<bar>l - l'\<bar> \<le> d" and "\<bar>h - h'\<bar> \<le> d"
  shows "\<bar>lerp l h lowAt highAt target - lerp l' h' lowAt highAt target\<bar> \<le> d"
proof -
  obtain q where q: "0 \<le> q" "q \<le> 1"
    and eq: "\<And>low high. lerp low high lowAt highAt target = (1 - q) * low + q * high"
    using lerp_convex [OF assms(1,2)] by blast
  have "lerp l h lowAt highAt target - lerp l' h' lowAt highAt target = (1 - q) * (l - l') + q * (h - h')"
    by (simp add: eq algebra_simps)
  also have "\<bar>\<dots>\<bar> \<le> (1 - q) * \<bar>l - l'\<bar> + q * \<bar>h - h'\<bar>"
    using q by (intro order_trans [OF abs_triangle_ineq]) (simp add: abs_mult)
  also have "\<dots> \<le> (1 - q) * d + q * d"
    using q assms by (intro add_mono mult_left_mono) auto
  finally show ?thesis by (simp add: algebra_simps)
qed

lemma scaled_between:
  fixes r d :: rat
  assumes "0 \<le> r" and "r \<le> 1"
  shows "min 0 d \<le> r * d" and "r * d \<le> max 0 d"
  using assms mult_left_mono [of r 1 d] mult_nonneg_nonneg [of r d] mult_nonneg_nonpos [of r d]
    mult_right_mono_neg [of r 1 d] mult_right_mono [of r 1 d] by (auto simp: min_def max_def)

lemma small_rnd_err: "\<bar>x\<bar> < 2 ^ 50 \<Longrightarrow> \<bar>rnd x - x\<bar> \<le> 1 / 16"
  using rnd_err_below [of x 50] by (simp add: power_int_def power_one_over)

lemma of_int_bound: "\<bar>d\<bar> < 2 ^ 50 \<Longrightarrow> \<bar>of_int d :: rat\<bar> < 2 ^ 50"
proof -
  assume "\<bar>d\<bar> < 2 ^ 50"
  then have "(of_int \<bar>d\<bar> :: rat) < of_int (2 ^ 50)" by (simp only: of_int_less_iff)
  then show ?thesis by simp
qed

definition rounded_lerp :: "rat \<Rightarrow> int \<Rightarrow> int \<Rightarrow> rat" where
  \<comment> \<open>the float64 value before the final rounding to an integer\<close>
  "rounded_lerp q low d = rnd (of_int low + rnd (rnd q * of_int d))"

lemma rounded_product:
  assumes q: "0 \<le> q" "q \<le> 1" and d: "\<bar>d\<bar> < 2 ^ 50"
  shows "rnd64 (rnd q * of_int d) = Fin (rnd (rnd q * of_int d))
       \<and> of_int (min 0 d) \<le> rnd (rnd q * of_int d) \<and> rnd (rnd q * of_int d) \<le> of_int (max 0 d)
       \<and> \<bar>rnd (rnd q * of_int d) - q * of_int d\<bar> \<le> 1 / 8"
proof -
  have r: "0 \<le> rnd q" "rnd q \<le> 1" using rnd64_unit [OF q] by auto
  have fd: "is_f64 (of_int (min 0 d))" "is_f64 (of_int (max 0 d))"
    using d by (auto intro!: is_f64_of_int simp: min_def max_def)
  have rd: "of_int (min 0 d) \<le> rnd q * of_int d" "rnd q * of_int d \<le> of_int (max 0 d)"
    using scaled_between [OF r, of "of_int d"] by (simp_all add: of_int_min of_int_max)
  have "\<bar>rnd q - q\<bar> * \<bar>of_int d\<bar> \<le> 1 / 2 ^ 54 * 2 ^ 50"
    using rnd_err_unit [OF q] of_int_bound [OF d] by (intro mult_mono) auto
  then have e1: "\<bar>rnd q * of_int d - q * of_int d\<bar> \<le> 1 / 16"
    by (simp add: abs_mult [symmetric] left_diff_distrib)
  have "\<bar>rnd q * of_int d\<bar> \<le> 1 * \<bar>of_int d\<bar>" unfolding abs_mult using r by (intro mult_right_mono) auto
  then have "\<bar>rnd q * of_int d\<bar> < 2 ^ 50" using of_int_bound [OF d] by linarith
  then have "\<bar>rnd (rnd q * of_int d) - rnd q * of_int d\<bar> \<le> 1 / 16" by (rule small_rnd_err)
  then have "\<bar>rnd (rnd q * of_int d) - q * of_int d\<bar> \<le> 1 / 8" using e1 by linarith
  then show ?thesis using rnd64_between [OF fd rd] by simp
qed

lemma rounded_lerp_spec:
  assumes q: "0 \<le> q" "q \<le> 1" and cells: "0 \<le> low" "low < 2 ^ 50" "0 \<le> high" "high < 2 ^ 50"
  shows "f_add (f_of_int low) (f_mul (Fin (rnd q)) (f_of_int (high - low))) = Fin (rounded_lerp q low (high - low))
       \<and> of_int (min low high) \<le> rounded_lerp q low (high - low)
       \<and> rounded_lerp q low (high - low) \<le> of_int (max low high)
       \<and> \<bar>rounded_lerp q low (high - low) - (of_int low + q * of_int (high - low))\<bar> \<le> 3 / 16"
proof -
  let ?d = "high - low" and ?p = "rnd (rnd q * of_int (high - low))"
  have d: "\<bar>?d\<bar> < 2 ^ 50" using cells by simp
  note p = rounded_product [OF q d]
  have hull: "min low high = low + min 0 ?d" "max low high = low + max 0 ?d" by simp_all
  have fl: "is_f64 (of_int (min low high))" "is_f64 (of_int (max low high))"
    using cells by (auto intro!: is_f64_of_int simp: min_def max_def)
  have lp: "of_int (min low high) \<le> of_int low + ?p" "of_int low + ?p \<le> of_int (max low high)"
    using p unfolding hull of_int_add by linarith+
  have "\<bar>of_int (max low high) :: rat\<bar> < 2 ^ 50" "(0::rat) \<le> of_int (min low high)"
    using cells by (auto intro!: of_int_bound)
  then have "\<bar>of_int low + ?p\<bar> < 2 ^ 50" using lp by linarith
  then have "\<bar>rnd (of_int low + ?p) - (of_int low + ?p)\<bar> \<le> 1 / 16" by (rule small_rnd_err)
  then have "\<bar>rnd (of_int low + ?p) - (of_int low + q * of_int ?d)\<bar> \<le> 3 / 16" using p by linarith
  moreover have "f_add (f_of_int low) (f_mul (Fin (rnd q)) (f_of_int ?d)) = rnd64 (of_int low + ?p)"
    using p d cells by (simp add: f_of_int_exact)
  ultimately show ?thesis using rnd64_between [OF fl lp] unfolding rounded_lerp_def by simp
qed

lemma interpolateDuration_accurate:
  assumes cells: "0 \<le> low" "low < 2 ^ 50" "0 \<le> high" "high < 2 ^ 50"
    and marks: "0 \<le> lowAt" "lowAt \<le> target" "target \<le> highAt" "highAt < 2 ^ 50"
  shows "min low high \<le> interpolateDuration low high lowAt highAt target
       \<and> interpolateDuration low high lowAt highAt target \<le> max low high
       \<and> \<bar>of_int (interpolateDuration low high lowAt highAt target)
           - lerp (of_int low) (of_int high) lowAt highAt target\<bar> \<le> 11 / 16"
proof (cases "lowAt = highAt \<or> low = high")
  case True
  then show ?thesis by (auto simp: interpolateDuration_def lerp_def)
next
  case False
  define q :: rat where "q = of_int (target - lowAt) / of_int (highAt - lowAt)"
  have q: "0 \<le> q" "q \<le> 1" using marks False by (simp_all add: q_def divide_le_eq_1)
  let ?s = "rounded_lerp q low (high - low)"
  note s = rounded_lerp_spec [OF q cells]
  have ratio: "f_div (f_of_int (wrap64 (target - lowAt))) (f_of_int (wrap64 (highAt - lowAt))) = Fin (rnd q)"
    using marks False rnd64_unit [OF q]
    by (simp add: wrap64_id in_int64_def min_int64_def max_int64_def f_of_int_exact q_def)
  have diff: "wrap64 (high - low) = high - low"
    using cells by (intro wrap64_id) (simp add: in_int64_def min_int64_def max_int64_def)
  have ra: "min low high \<le> round_away ?s" "round_away ?s \<le> max low high"
    using round_away_between [of "min low high" ?s "max low high"] s by blast+
  then have inr: "in_int64 (round_away ?s)" "0 \<le> round_away ?s"
    using cells by (auto simp: in_int64_def min_int64_def max_int64_def)
  have code: "interpolateDuration low high lowAt highAt target = round_away ?s"
    using False s inr unfolding interpolateDuration_def ratio diff by (simp add: Let_def)
  have "lerp (of_int low) (of_int high) lowAt highAt target = of_int low + q * of_int (high - low)"
    using False by (simp add: lerp_def q_def)
  then have "\<bar>of_int (round_away ?s) - lerp (of_int low) (of_int high) lowAt highAt target\<bar> \<le> 11 / 16"
    using s round_away_err [of ?s] by linarith
  with ra show ?thesis by (simp only: code)
qed


definition bilinear :: "int list \<Rightarrow> int list \<Rightarrow> duration list list \<Rightarrow> int \<Rightarrow> int \<Rightarrow> rat" where
  \<comment> \<open>the exact piecewise bilinear interpolation of the grid\<close>
  "bilinear xs ys grid x y =
     (let (xl, xh) = segment xs x; (yl, yh) = segment ys y;
          column = (\<lambda>j. lerp (of_int (grid ! xl ! j)) (of_int (grid ! xh ! j)) (xs ! xl) (xs ! xh) x)
      in lerp (column yl) (column yh) (ys ! yl) (ys ! yh) y)"

definition grid_ok :: "int list \<Rightarrow> int list \<Rightarrow> duration list list \<Rightarrow> bool" where
  "grid_ok xs ys grid \<longleftrightarrow>
     sorted_wrt (<) xs \<and> xs \<noteq> [] \<and> 0 \<le> hd xs \<and> last xs < 2 ^ 50 \<and>
     sorted_wrt (<) ys \<and> ys \<noteq> [] \<and> 0 \<le> hd ys \<and> last ys < 2 ^ 50 \<and>
     (\<forall>i<length xs. \<forall>j<length ys. 0 \<le> grid ! i ! j \<and> grid ! i ! j < 2 ^ 50)"

lemma bracket_marks:
  assumes "sorted_wrt (<) vs" and "vs \<noteq> []" and "hd vs \<le> t" and "t \<le> last vs" and "0 \<le> hd vs" and "last vs < 2 ^ 50"
  shows "0 \<le> vs ! fst (bracket vs t)" and "vs ! fst (bracket vs t) \<le> t" and "t \<le> vs ! snd (bracket vs t)"
    and "vs ! snd (bracket vs t) < 2 ^ 50" and "fst (bracket vs t) < length vs" and "snd (bracket vs t) < length vs"
proof -
  note b = bracket_cases [OF assms(1-4)]
  show len: "fst (bracket vs t) < length vs" "snd (bracket vs t) < length vs" using b by auto
  show "vs ! fst (bracket vs t) \<le> t" and "t \<le> vs ! snd (bracket vs t)" using b by auto
  have mono: "vs ! i \<le> vs ! j" if "i \<le> j" "j < length vs" for i j
    using sorted_wrt_nth_less [OF assms(1), of i j] that by (cases "i = j") auto
  show "0 \<le> vs ! fst (bracket vs t)"
    using mono [of 0 "fst (bracket vs t)"] len assms(2,5) by (simp add: hd_conv_nth)
  show "vs ! snd (bracket vs t) < 2 ^ 50"
  proof -
    have "snd (bracket vs t) \<le> length vs - 1" using len by linarith
    then have "vs ! snd (bracket vs t) \<le> vs ! (length vs - 1)" using len by (intro mono) simp_all
    then show ?thesis using assms(2,6) by (simp add: last_conv_nth)
  qed
qed

lemma interpolateGrid_accurate:
  assumes "grid_ok xs ys grid" and "hd xs \<le> x" "x \<le> last xs" "hd ys \<le> y" "y \<le> last ys"
  shows "0 \<le> interpolateGrid xs ys grid x y \<and> interpolateGrid xs ys grid x y < 2 ^ 50
       \<and> \<bar>of_int (interpolateGrid xs ys grid x y) - bilinear xs ys grid x y\<bar> \<le> 11 / 8"
proof -
  obtain xl xh where bx: "bracket xs x = (xl, xh)" by fastforce
  obtain yl yh where by': "bracket ys y = (yl, yh)" by fastforce
  from assms(1) have gx: "sorted_wrt (<) xs" "xs \<noteq> []" "0 \<le> hd xs" "last xs < 2 ^ 50"
    and gy: "sorted_wrt (<) ys" "ys \<noteq> []" "0 \<le> hd ys" "last ys < 2 ^ 50"
    and cell: "\<And>i j. i < length xs \<Longrightarrow> j < length ys \<Longrightarrow> 0 \<le> grid ! i ! j \<and> grid ! i ! j < 2 ^ 50"
    by (auto simp: grid_ok_def)
  note mx = bracket_marks [OF gx(1,2) assms(2,3) gx(3,4), unfolded bx fst_conv snd_conv]
  note my = bracket_marks [OF gy(1,2) assms(4,5) gy(3,4), unfolded by' fst_conv snd_conv]
  define col where "col j = interpolateDuration (grid ! xl ! j) (grid ! xh ! j) (xs ! xl) (xs ! xh) x" for j
  define ex where "ex j = lerp (of_int (grid ! xl ! j)) (of_int (grid ! xh ! j)) (xs ! xl) (xs ! xh) x" for j
  have col: "0 \<le> col j" "col j < 2 ^ 50" "\<bar>of_int (col j) - ex j\<bar> \<le> 11 / 16" if "j < length ys" for j
    using interpolateDuration_accurate [of "grid ! xl ! j" "grid ! xh ! j" "xs ! xl" x "xs ! xh"]
      cell [OF mx(5) that] cell [OF mx(6) that] mx by (auto simp: col_def ex_def)
  let ?v = "interpolateDuration (col yl) (col yh) (ys ! yl) (ys ! yh) y"
  have code: "interpolateGrid xs ys grid x y = ?v"
    by (simp add: interpolateGrid_def bx by' col_def)
  have v: "0 \<le> ?v" "?v < 2 ^ 50"
    "\<bar>of_int ?v - lerp (of_int (col yl)) (of_int (col yh)) (ys ! yl) (ys ! yh) y\<bar> \<le> 11 / 16"
    using interpolateDuration_accurate [of "col yl" "col yh" "ys ! yl" y "ys ! yh"]
      col [OF my(5)] col [OF my(6)] my by auto
  have "\<bar>lerp (of_int (col yl)) (of_int (col yh)) (ys ! yl) (ys ! yh) y - lerp (ex yl) (ex yh) (ys ! yl) (ys ! yh) y\<bar> \<le> 11 / 16"
    using lerp_close [OF my(2,3)] col(3) [OF my(5)] col(3) [OF my(6)] by blast
  moreover have "lerp (ex yl) (ex yh) (ys ! yl) (ys ! yh) y = bilinear xs ys grid x y"
  proof -
    have "ex j = lerp (of_int (grid ! fst (segment xs x) ! j)) (of_int (grid ! snd (segment xs x) ! j))
        (xs ! fst (segment xs x)) (xs ! snd (segment xs x)) x" for j
      using lerp_bracket [OF gx(1,2) assms(2,3), of "\<lambda>i. of_int (grid ! i ! j)"] by (simp add: ex_def bx)
    then show ?thesis
      using lerp_bracket [OF gy(1,2) assms(4,5), of ex] by (simp add: bilinear_def by' split_beta)
  qed
  ultimately have "\<bar>of_int ?v - bilinear xs ys grid x y\<bar> \<le> 11 / 8" using v(3) by linarith
  with v show ?thesis by (simp only: code)
qed

subsection \<open>What validation guarantees\<close>

lemma validate_cells_nonneg: "validate_cells above' left r = None \<Longrightarrow> \<forall>v\<in>set r. 0 \<le> v"
  by (induction above' left r rule: validate_cells.induct) (auto split: if_splits)

lemma validate_rows_spec:
  "validate_rows n above' rows = None \<Longrightarrow> \<forall>r\<in>set rows. length r = n \<and> (\<forall>v\<in>set r. 0 \<le> v)"
  by (induction n above' rows rule: validate_rows.induct)
     (auto split: if_splits option.splits dest: validate_cells_nonneg)

definition small_cells :: "StaticProfile \<Rightarrow> bool" where
  \<comment> \<open>every prefill duration is below \<open>2 ^ 50\<close> nanoseconds, about thirteen days\<close>
  "small_cells p \<longleftrightarrow> (\<forall>r\<in>set (sp_Prefill p). \<forall>v\<in>set r. v < 2 ^ 50)"

definition coefficients_ok :: "StaticProfile \<Rightarrow> bool" where
  "coefficients_ok e \<longleftrightarrow> 0 \<le> sp_QueueWaitPerRequest e \<and> 0 \<le> sp_RunningDelayPerRequest e
     \<and> 0 \<le> sp_LocalDeltaPerRequest e \<and> 0 \<le> sp_LocalFallbackPerRequest e \<and> 0 \<le> sp_SafetyMargin e"

lemma validated_profile:
  assumes "NewStaticEstimator p = Inr e" and "small_cells p"
  shows "grid_ok (sp_PromptTokenBreakpoints e) (sp_CachedRatioBreakpoints e) (sp_Prefill e)"
    and "hd (sp_PromptTokenBreakpoints e) = pi_MinPromptTokens (sp_Identity e)"
    and "last (sp_PromptTokenBreakpoints e) = sp_MaxPromptTokens e"
    and "hd (sp_CachedRatioBreakpoints e) = 0" and "last (sp_CachedRatioBreakpoints e) = 10000"
    and "sp_MaxPromptTokens e \<le> 922337203685477" and "0 < pi_MinPromptTokens (sp_Identity e)"
    and "coefficients_ok e"
proof -
  have v: "StaticProfile_Validate p = None" and e: "e = p\<lparr>sp_MaxPromptTokens := profile_max_prompt p\<rparr>"
    using assms(1) by (auto simp: NewStaticEstimator_def split: option.splits)
  note facts = v [unfolded StaticProfile_Validate_def ProfileIdentity_Validate_def]
  have q: "quot64 max_int64 cacheRatioBasisPoints = 922337203685477"
    by (simp add: quot64_def wrap64_def max_int64_def cacheRatioBasisPoints_def)
  show "hd (sp_PromptTokenBreakpoints e) = pi_MinPromptTokens (sp_Identity e)"
    and last: "last (sp_PromptTokenBreakpoints e) = sp_MaxPromptTokens e"
    and "hd (sp_CachedRatioBreakpoints e) = 0" and "last (sp_CachedRatioBreakpoints e) = 10000"
    and max: "sp_MaxPromptTokens e \<le> 922337203685477" and "0 < pi_MinPromptTokens (sp_Identity e)"
    and "coefficients_ok e"
    using facts q by (auto simp: e coefficients_ok_def cacheRatioBasisPoints_def split: if_splits)
  have inc: "validateIncreasing (sp_PromptTokenBreakpoints p) 1 (profile_max_prompt p)"
      "validateIncreasing (sp_CachedRatioBreakpoints p) 0 cacheRatioBasisPoints"
    and ne: "sp_PromptTokenBreakpoints p \<noteq> []" "sp_CachedRatioBreakpoints p \<noteq> []"
    and len: "length (sp_Prefill p) = length (sp_PromptTokenBreakpoints p)"
    and rows: "validate_rows (length (sp_CachedRatioBreakpoints p)) None (sp_Prefill p) = None"
    using facts by (auto split: if_splits)
  have ends: "\<forall>v\<in>set vs. a \<le> v \<and> v \<le> (b::int) \<Longrightarrow> vs \<noteq> [] \<Longrightarrow> a \<le> hd vs \<and> last vs \<le> b" for vs a b
    using hd_in_set [of vs] last_in_set [of vs] by blast
  have "0 \<le> sp_Prefill p ! i ! j \<and> sp_Prefill p ! i ! j < 2 ^ 50"
    if "i < length (sp_PromptTokenBreakpoints p)" "j < length (sp_CachedRatioBreakpoints p)" for i j
  proof -
    have r: "sp_Prefill p ! i \<in> set (sp_Prefill p)" using that len by simp
    then have "sp_Prefill p ! i ! j \<in> set (sp_Prefill p ! i)" using validate_rows_spec [OF rows] that by simp
    with r show ?thesis using validate_rows_spec [OF rows] assms(2) by (auto simp: small_cells_def)
  qed
  moreover have "0 \<le> hd (sp_PromptTokenBreakpoints p)" "0 \<le> hd (sp_CachedRatioBreakpoints p)"
      "last (sp_CachedRatioBreakpoints p) < 2 ^ 50" "last (sp_PromptTokenBreakpoints p) < 2 ^ 50"
    using ends [OF conjunct2 [OF validateIncreasing_spec [OF inc(1)]] ne(1)]
      ends [OF conjunct2 [OF validateIncreasing_spec [OF inc(2)]] ne(2)] max last
    by (simp_all add: e cacheRatioBasisPoints_def)
  ultimately show "grid_ok (sp_PromptTokenBreakpoints e) (sp_CachedRatioBreakpoints e) (sp_Prefill e)"
    using validateIncreasing_spec [OF inc(1)] validateIncreasing_spec [OF inc(2)] ne
    by (simp add: grid_ok_def e)
qed

subsection \<open>Checked arithmetic\<close>

lemma multiplyDuration_exact:
  assumes "0 \<le> v" and "0 \<le> c"
  shows "multiplyDuration v c = (if v * c \<le> max_int64 then Some (v * c) else None)"
proof (cases "v = 0 \<or> c = 0")
  case True
  then show ?thesis by (auto simp: multiplyDuration_def max_int64_def)
next
  case False
  then have v: "0 < v" and c: "0 < c" using assms by auto
  have "quot64 max_int64 v < c \<longleftrightarrow> max_int64 < v * c"
    using v by (simp add: quot64_pos div_less_iff max_int64_def mult.commute)
  moreover have "v * c \<le> max_int64 \<Longrightarrow> wrap64 (v * c) = v * c"
    using v c by (intro wrap64_id) (simp add: in_int64_def min_int64_def order_trans [OF _ mult_nonneg_nonneg])
  ultimately show ?thesis using False by (auto simp: multiplyDuration_def)
qed

lemma addDuration_exact:
  assumes "0 \<le> a" and "a \<le> max_int64" and "0 \<le> b" and "b \<le> max_int64"
  shows "addDuration a b = (if a + b \<le> max_int64 then Some (a + b) else None)"
proof -
  have "wrap64 (max_int64 - b) = max_int64 - b"
    using assms by (intro wrap64_id) (simp add: in_int64_def min_int64_def max_int64_def)
  moreover have "a + b \<le> max_int64 \<Longrightarrow> wrap64 (a + b) = a + b"
    using assms by (intro wrap64_id) (simp add: in_int64_def min_int64_def)
  ultimately show ?thesis by (auto simp: addDuration_def)
qed

definition exact_load :: "StaticProfile \<Rightarrow> LoadWork \<Rightarrow> int" where
  "exact_load e load =
     (if lw_Valid load
      then sp_QueueWaitPerRequest e * lw_QueueDepth load + sp_RunningDelayPerRequest e * lw_Running load
           + sp_LocalDeltaPerRequest e * lw_LocalDelta load
      else sp_LocalFallbackPerRequest e * lw_LocalInflight load)"

definition load_nonneg :: "LoadWork \<Rightarrow> bool" where
  "load_nonneg l \<longleftrightarrow> 0 \<le> lw_QueueDepth l \<and> 0 \<le> lw_Running l \<and> 0 \<le> lw_LocalDelta l \<and> 0 \<le> lw_LocalInflight l"

lemma load_delay_exact:
  assumes "coefficients_ok e" and "load_nonneg l" and "0 \<le> s" and "s \<le> max_int64"
  shows "snd (load_delay e l s) = (if s + exact_load e l \<le> max_int64 then Some (s + exact_load e l) else None)
       \<and> (snd (load_delay e l s) \<noteq> None \<longrightarrow> fst (load_delay e l s))"
proof -
  let ?q = "sp_QueueWaitPerRequest e * lw_QueueDepth l" and ?r = "sp_RunningDelayPerRequest e * lw_Running l"
    and ?d = "sp_LocalDeltaPerRequest e * lw_LocalDelta l" and ?f = "sp_LocalFallbackPerRequest e * lw_LocalInflight l"
  have nn: "0 \<le> ?q" "0 \<le> ?r" "0 \<le> ?d" "0 \<le> ?f"
    using assms(1,2) by (simp_all add: coefficients_ok_def load_nonneg_def)
  have mult: "multiplyDuration (sp_QueueWaitPerRequest e) (lw_QueueDepth l) = (if ?q \<le> max_int64 then Some ?q else None)"
    "multiplyDuration (sp_RunningDelayPerRequest e) (lw_Running l) = (if ?r \<le> max_int64 then Some ?r else None)"
    "multiplyDuration (sp_LocalDeltaPerRequest e) (lw_LocalDelta l) = (if ?d \<le> max_int64 then Some ?d else None)"
    "multiplyDuration (sp_LocalFallbackPerRequest e) (lw_LocalInflight l) = (if ?f \<le> max_int64 then Some ?f else None)"
    using assms(1,2) by (simp_all add: multiplyDuration_exact coefficients_ok_def load_nonneg_def)
  show ?thesis
    using nn assms(3,4) unfolding load_delay_def mult exact_load_def
    by (auto simp: addDuration_exact split: if_splits)
qed


subsection \<open>The estimate\<close>

definition accepted_input :: "StaticProfile \<Rightarrow> StaticInput \<Rightarrow> bool" where
  \<comment> \<open>the input passes every guard in front of the arithmetic\<close>
  "accepted_input e i \<longleftrightarrow> si_Identity i = sp_Identity e \<and> \<not> static_input_invalid i
     \<and> pi_MinPromptTokens (sp_Identity e) \<le> pw_PromptTokens (si_Prompt i)
     \<and> pw_PromptTokens (si_Prompt i) \<le> sp_MaxPromptTokens e \<and> \<not> outsideLoadBounds e (si_Load i)"

definition cached_share :: "PromptWork \<Rightarrow> int" where
  "cached_share w = pw_CachedPrefixTokens w * 10000 div pw_PromptTokens w"

lemma prefill_estimate_eq:
  assumes "0 < pw_PromptTokens w" and "0 \<le> pw_CachedPrefixTokens w"
    and "pw_CachedPrefixTokens w \<le> pw_PromptTokens w" and "pw_PromptTokens w \<le> 922337203685477"
  shows "prefill_estimate e w = interpolateGrid (sp_PromptTokenBreakpoints e) (sp_CachedRatioBreakpoints e)
           (sp_Prefill e) (pw_PromptTokens w) (cached_share w)"
    and "0 \<le> cached_share w" and "cached_share w \<le> 10000"
proof -
  have c: "0 \<le> pw_CachedPrefixTokens w * 10000" "pw_CachedPrefixTokens w * 10000 \<le> max_int64"
    using assms by (auto simp: max_int64_def)
  then have "wrap64 (pw_CachedPrefixTokens w * 10000) = pw_CachedPrefixTokens w * 10000"
    by (intro wrap64_id) (simp add: in_int64_def min_int64_def)
  then show "prefill_estimate e w = interpolateGrid (sp_PromptTokenBreakpoints e) (sp_CachedRatioBreakpoints e)
           (sp_Prefill e) (pw_PromptTokens w) (cached_share w)"
    using c assms(1) by (simp add: prefill_estimate_def cacheRatioBasisPoints_def quot64_pos cached_share_def)
  show "0 \<le> cached_share w" using assms by (simp add: cached_share_def pos_imp_zdiv_nonneg_iff)
  have "pw_CachedPrefixTokens w * 10000 \<le> 10000 * pw_PromptTokens w" using assms(3) by simp
  then have "pw_CachedPrefixTokens w * 10000 div pw_PromptTokens w \<le> 10000 * pw_PromptTokens w div pw_PromptTokens w"
    using assms(1) by (rule zdiv_mono1)
  then show "cached_share w \<le> 10000" using assms(1) by (simp add: cached_share_def)
qed

lemma accepted_prefill:
  assumes "NewStaticEstimator p = Inr e" and "small_cells p" and "accepted_input e i"
  shows "0 \<le> prefill_estimate e (si_Prompt i) \<and> prefill_estimate e (si_Prompt i) < 2 ^ 50
       \<and> \<bar>of_int (prefill_estimate e (si_Prompt i))
           - bilinear (sp_PromptTokenBreakpoints e) (sp_CachedRatioBreakpoints e) (sp_Prefill e)
               (pw_PromptTokens (si_Prompt i)) (cached_share (si_Prompt i))\<bar> \<le> 11 / 8"
proof -
  note v = validated_profile [OF assms(1,2)]
  have w: "0 < pw_PromptTokens (si_Prompt i)" "0 \<le> pw_CachedPrefixTokens (si_Prompt i)"
    "pw_CachedPrefixTokens (si_Prompt i) \<le> pw_PromptTokens (si_Prompt i)"
    "pw_PromptTokens (si_Prompt i) \<le> 922337203685477"
    using assms(3) v by (auto simp: accepted_input_def static_input_invalid_def)
  note eq = prefill_estimate_eq [OF w]
  show ?thesis unfolding eq(1)
    using assms(3) v eq(2,3) by (intro interpolateGrid_accurate) (auto simp: accepted_input_def)
qed

lemma Estimate_arithmetic:
  assumes "accepted_input e i"
    and "coefficients_ok e" and "sp_SafetyMargin e \<le> max_int64" and "0 \<le> prefill_estimate e (si_Prompt i)"
    and "prefill_estimate e (si_Prompt i) \<le> max_int64"
    and "t = prefill_estimate e (si_Prompt i) + sp_SafetyMargin e + exact_load e (si_Load i)"
  shows "(st_Valid (Estimate e i) \<longleftrightarrow> 0 < t \<and> t \<le> max_int64)
       \<and> (st_Valid (Estimate e i) \<longrightarrow> st_TTFT (Estimate e i) = t)
       \<and> (\<not> st_Valid (Estimate e i) \<longrightarrow> st_Reason (Estimate e i) = StaticReasonOverflow \<and> st_TTFT (Estimate e i) = 0)"
proof -
  have ld: "load_nonneg (si_Load i)"
    using assms(1) by (auto simp: accepted_input_def static_input_invalid_def load_nonneg_def)
  then have ex: "0 \<le> exact_load e (si_Load i)"
    using assms(2) by (simp add: exact_load_def coefficients_ok_def load_nonneg_def)
  have m: "0 \<le> sp_SafetyMargin e" using assms(2) by (simp add: coefficients_ok_def)
  let ?s = "prefill_estimate e (si_Prompt i) + sp_SafetyMargin e"
  have add: "addDuration (prefill_estimate e (si_Prompt i)) (sp_SafetyMargin e) = (if ?s \<le> max_int64 then Some ?s else None)"
    using assms(3-5) m by (intro addDuration_exact)
  note guards = assms(1) [unfolded accepted_input_def]
  show ?thesis
  proof (cases "?s \<le> max_int64")
    case True
    have "0 \<le> ?s" using assms(4) m by simp
    note d = load_delay_exact [OF assms(2) ld this True]
    obtain ok r where r: "load_delay e (si_Load i) ?s = (ok, r)" by fastforce
    show ?thesis
      using guards d True assms(6) by (cases ok; cases r)
        (auto simp: Estimate_def add r Let_def evidence_def base_evidence_def split: if_splits)
  next
    case False
    then show ?thesis using guards ex assms(6) by (simp add: Estimate_def add Let_def)
  qed
qed

definition wit_profile :: StaticProfile where
  "wit_profile = \<lparr>sp_Identity = \<lparr>pi_Model = ''m'', pi_HardwareProfile = ''h'', pi_VLLMVersion = ''v'',
       pi_MinPromptTokens = 100, pi_MaxModelTokens = 300\<rparr>,
     sp_MaxPromptTokens = 0, sp_Version = ''1'', sp_Calibrated = True,
     sp_PromptTokenBreakpoints = [100, 300], sp_CachedRatioBreakpoints = [0, 10000],
     sp_Prefill = [[1000, 0], [3000, 0]], sp_QueueWaitPerRequest = 10, sp_RunningDelayPerRequest = 5,
     sp_LocalDeltaPerRequest = 1, sp_LocalFallbackPerRequest = 7, sp_SafetyMargin = 50, sp_LoadBounds = None\<rparr>"

definition wit_estimator :: StaticProfile where
  "wit_estimator = wit_profile\<lparr>sp_MaxPromptTokens := 300\<rparr>"

definition wit_static_input :: StaticInput where
  "wit_static_input = \<lparr>si_Identity = sp_Identity wit_profile,
     si_Prompt = \<lparr>pw_PromptTokens = 300, pw_CachedPrefixTokens = 0\<rparr>,
     si_Load = \<lparr>lw_QueueDepth = 2, lw_Running = 4, lw_LocalDelta = 0, lw_LocalInflight = 9, lw_Valid = True\<rparr>\<rparr>"

lemma wit_estimator: "NewStaticEstimator wit_profile = Inr wit_estimator" "small_cells wit_profile"
    "accepted_input wit_estimator wit_static_input"
  by (simp_all add: wit_profile_def wit_estimator_def wit_static_input_def NewStaticEstimator_def
    StaticProfile_Validate_def ProfileIdentity_Validate_def profile_max_prompt_def validateIncreasing_def
    cacheRatioBasisPoints_def quot64_def wrap64_def max_int64_def small_cells_def accepted_input_def
    static_input_invalid_def outsideLoadBounds_def)

text \<open>
  C26. With prefill cells below \<open>2 ^ 50\<close> ns, the float64 interpolation of a validated profile is within
  \<open>11 / 8\<close> ns of the exact piecewise bilinear interpolation over the breakpoints around the prompt
  length and the cached share, and it is never negative.
\<close>

theorem static_prefill_accurate:
  assumes "NewStaticEstimator p = Inr e" and "small_cells p" and "accepted_input e i"
  shows "0 \<le> prefill_estimate e (si_Prompt i)
    \<and> \<bar>of_int (prefill_estimate e (si_Prompt i))
        - bilinear (sp_PromptTokenBreakpoints e) (sp_CachedRatioBreakpoints e) (sp_Prefill e)
            (pw_PromptTokens (si_Prompt i)) (cached_share (si_Prompt i))\<bar> \<le> 11 / 8"
  using accepted_prefill [OF assms] by blast

theorem static_prefill_accurate_witness:
  "0 \<le> prefill_estimate wit_estimator (si_Prompt wit_static_input)
    \<and> \<bar>of_int (prefill_estimate wit_estimator (si_Prompt wit_static_input))
        - bilinear [100, 300] [0, 10000] [[1000, 0], [3000, 0]] 300 0\<bar> \<le> 11 / 8"
  using static_prefill_accurate [OF wit_estimator]
  by (simp add: wit_estimator_def wit_profile_def wit_static_input_def cached_share_def)

text \<open>
  C27. The estimate is exact: for an input that passes the guards, the result is valid exactly when
  the unbounded sum of prefill, margin and load delay is positive and fits a duration, it is then
  that sum, and otherwise the result is an overflow with no estimate.
\<close>

theorem static_estimate_exact:
  assumes "NewStaticEstimator p = Inr e" and "small_cells p" and "accepted_input e i"
    and "sp_SafetyMargin p \<le> max_int64"
    and "t = prefill_estimate e (si_Prompt i) + sp_SafetyMargin e + exact_load e (si_Load i)"
  shows "(st_Valid (Estimate e i) \<longleftrightarrow> 0 < t \<and> t \<le> max_int64)
       \<and> (st_Valid (Estimate e i) \<longrightarrow> st_TTFT (Estimate e i) = t)
       \<and> (\<not> st_Valid (Estimate e i) \<longrightarrow> st_Reason (Estimate e i) = StaticReasonOverflow \<and> st_TTFT (Estimate e i) = 0)"
proof (rule Estimate_arithmetic)
  have "sp_SafetyMargin e = sp_SafetyMargin p"
    using assms(1) by (auto simp: NewStaticEstimator_def split: option.splits)
  with assms(4) show "sp_SafetyMargin e \<le> max_int64" by simp
  show "coefficients_ok e" by (rule validated_profile) (rule assms)+
  show "0 \<le> prefill_estimate e (si_Prompt i)" "prefill_estimate e (si_Prompt i) \<le> max_int64"
    using accepted_prefill [OF assms(1-3)] by (simp_all add: max_int64_def)
qed (rule assms)+

lemma wit_prefill: "prefill_estimate wit_estimator (si_Prompt wit_static_input) = 3000"
proof -
  have b: "bracket [100, 300] 300 = (1, 1)" "bracket [0, 10000] 0 = (0, 0)"
    by (simp_all add: bracket_def)
  show ?thesis
    by (simp add: prefill_estimate_def wit_estimator_def wit_profile_def wit_static_input_def interpolateGrid_def
      quot64_def wrap64_def b interpolateDuration_def)
qed

theorem static_estimate_exact_witness:
  "st_Valid (Estimate wit_estimator wit_static_input) \<and> st_TTFT (Estimate wit_estimator wit_static_input) = 3090"
  using static_estimate_exact [OF wit_estimator, of 3090]
  by (simp add: wit_prefill) (simp add: wit_estimator_def wit_profile_def wit_static_input_def exact_load_def max_int64_def)

end
