(* ===== verification/Tokenization.thy ===== *)
theory Tokenization
  imports Backend
begin

text \<open>
  \<open>internal/serving/tokenization\<close>: the translation of an inference request into token IDs by the
  vLLM render service. The JSON codec is the record \<open>json_codec\<close> and the HTTP exchange is an
  argument (\<open>exchange\<close>): it maps the render path and the payload to a failed call or to a status code
  with the bytes of the body and whether reading them fails. An error keeps its code, the upstream status
  and whether its chain holds \<open>context.Canceled\<close>, which is what the request path inspects.
\<close>

type_synonym byte = "8 word"

definition RouteChatCompletions :: string where "RouteChatCompletions = ''/v1/chat/completions''"
definition RouteCompletions :: string where "RouteCompletions = ''/v1/completions''"

datatype tok_code = CodeInvalidRequest | CodeUnsupportedRoute | CodeRequestTooLarge | CodeUpstreamUnavailable
  | CodeUpstreamRejected | CodeResponseTooLarge | CodeInvalidResponse | CodeUnsupportedFeature | CodeTokenLimitExceeded

record tok_error =
  te_Code :: tok_code
  te_UpstreamStatus :: int
  te_Canceled :: bool

definition tok_fail :: "tok_code \<Rightarrow> tok_error" where
  "tok_fail code = \<lparr>te_Code = code, te_UpstreamStatus = 0, te_Canceled = False\<rparr>"

definition IsTransient :: "tok_error \<Rightarrow> bool" where
  "IsTransient e =
     (case te_Code e of
        CodeUpstreamUnavailable \<Rightarrow> True | CodeInvalidResponse \<Rightarrow> True | CodeResponseTooLarge \<Rightarrow> True
      | CodeUpstreamRejected \<Rightarrow> te_UpstreamStatus e = 429 \<or> te_UpstreamStatus e \<ge> 500
      | _ \<Rightarrow> False)"

record tok_Input =
  ti_Route :: string
  ti_Body :: "byte list"

record tok_Result =
  tr_model :: string
  tr_cacheSalt :: string
  tr_prompts :: "32 word list list"
  tr_totalTokens :: int

record tok_Config =
  tc_BaseURL :: string
  tc_Model :: string
  tc_Timeout :: duration
  tc_MaxRequestBytes :: int
  tc_MaxResponseBytes :: int
  tc_MaxTotalTokens :: int

record parsed_url =
  pu_Scheme :: string
  pu_Host :: string
  pu_RawQuery :: string
  pu_Fragment :: string

datatype tok_config_error = ErrTokURL string | ErrTokQuery | ErrTokModel | ErrTokLimits | ErrTokClient

definition tok_Config_Validate :: "(string \<Rightarrow> parsed_url option) \<Rightarrow> tok_Config \<Rightarrow> tok_config_error option" where
  "tok_Config_Validate parse c =
     (case parse (TrimSpace (tc_BaseURL c)) of
        None \<Rightarrow> Some (ErrTokURL (tc_BaseURL c))
      | Some u \<Rightarrow>
          if pu_Host u = '''' \<or> (pu_Scheme u \<noteq> ''http'' \<and> pu_Scheme u \<noteq> ''https'') then Some (ErrTokURL (tc_BaseURL c))
          else if pu_RawQuery u \<noteq> '''' \<or> pu_Fragment u \<noteq> '''' then Some ErrTokQuery
          else if TrimSpace (tc_Model c) = '''' then Some ErrTokModel
          else if tc_Timeout c \<le> 0 \<or> tc_MaxRequestBytes c \<le> 0 \<or> tc_MaxResponseBytes c \<le> 0 \<or> tc_MaxTotalTokens c \<le> 0
          then Some ErrTokLimits else None)"

definition NewVLLMRenderer :: "(string \<Rightarrow> parsed_url option) \<Rightarrow> tok_Config \<Rightarrow> bool \<Rightarrow> tok_config_error + tok_Config" where
  \<comment> \<open>the renderer is its configuration; the last argument tells whether an HTTP client was injected\<close>
  "NewVLLMRenderer parse config has_client =
     (case tok_Config_Validate parse config of Some e \<Rightarrow> Inl e
      | None \<Rightarrow> if \<not> has_client then Inl ErrTokClient
          else Inr (config\<lparr>tc_BaseURL := rev (dropWhile (\<lambda>c. c = CHR ''/'') (rev (TrimSpace (tc_BaseURL config)))),
                          tc_Model := TrimSpace (tc_Model config)\<rparr>))"

subsection \<open>Wire format\<close>

record renderResponse =
  rr_Model :: string
  rr_TokenIDs :: "32 word list option"
  rr_HasFeatures :: bool \<comment> \<open>\<open>features\<close> present with a non-empty hash or placeholder map\<close>

record 'raw json_codec =
  js_Valid :: "byte list \<Rightarrow> bool"
  js_Object :: "byte list \<Rightarrow> (string, 'raw) gomap option"
  js_String :: "'raw \<Rightarrow> string option"
  js_IsNull :: "'raw \<Rightarrow> bool"
  js_EncodeString :: "string \<Rightarrow> 'raw option"
  js_EncodeObject :: "(string, 'raw) gomap \<Rightarrow> byte list option"
  js_Response :: "byte list \<Rightarrow> renderResponse option"
  js_Responses :: "byte list \<Rightarrow> renderResponse list option"

datatype http_result =
    HTTPFailed bool \<comment> \<open>the call failed; whether the cause is \<open>context.Canceled\<close>\<close>
  | HTTPResponse int "byte list" "bool option" \<comment> \<open>status, body, and a read error with the same flag\<close>

definition route_supported :: "string \<Rightarrow> bool" where
  "route_supported r \<longleftrightarrow> r = RouteChatCompletions \<or> r = RouteCompletions"

definition tok_Input_Validate :: "'raw json_codec \<Rightarrow> tok_Input \<Rightarrow> tok_error option" where
  "tok_Input_Validate js i =
     (if \<not> route_supported (ti_Route i) then Some (tok_fail CodeUnsupportedRoute)
      else if length (ti_Body i) = 0 \<or> \<not> js_Valid js (ti_Body i) then Some (tok_fail CodeInvalidRequest)
      else None)"

definition requiredString :: "'raw json_codec \<Rightarrow> (string, 'raw) gomap \<Rightarrow> string \<Rightarrow> string option" where
  "requiredString js obj name =
     (case map_of obj name of None \<Rightarrow> None
      | Some raw \<Rightarrow> (case js_String js raw of None \<Rightarrow> None
          | Some v \<Rightarrow> if TrimSpace v = '''' then None else Some v))"

definition optionalString :: "'raw json_codec \<Rightarrow> (string, 'raw) gomap \<Rightarrow> string \<Rightarrow> string option" where
  "optionalString js obj name =
     (case map_of obj name of None \<Rightarrow> Some ''''
      | Some raw \<Rightarrow> if js_IsNull js raw then Some '''' else js_String js raw)"

definition buildPayload :: "'raw json_codec \<Rightarrow> tok_Config \<Rightarrow> byte list \<Rightarrow> tok_error + byte list \<times> string" where
  "buildPayload js r body =
     (case js_Object js body of None \<Rightarrow> Inl (tok_fail CodeInvalidRequest)
      | Some obj \<Rightarrow>
        (case requiredString js obj ''model'' of None \<Rightarrow> Inl (tok_fail CodeInvalidRequest)
         | Some requestModel \<Rightarrow>
            if requestModel \<noteq> tc_Model r then Inl (tok_fail CodeInvalidRequest)
            else (case optionalString js obj ''cache_salt'' of None \<Rightarrow> Inl (tok_fail CodeInvalidRequest)
              | Some cacheSalt \<Rightarrow>
                (case js_EncodeString js (tc_Model r) of None \<Rightarrow> Inl (tok_fail CodeInvalidRequest)
                 | Some encodedModel \<Rightarrow>
                   (case js_EncodeObject js (AList.update ''model'' encodedModel obj) of
                      None \<Rightarrow> Inl (tok_fail CodeInvalidRequest)
                    | Some payload \<Rightarrow>
                        if int (length payload) > tc_MaxRequestBytes r then Inl (tok_fail CodeRequestTooLarge)
                        else Inr (payload, cacheSalt))))))"

definition readBounded :: "byte list \<Rightarrow> bool option \<Rightarrow> int \<Rightarrow> tok_error + byte list" where
  \<comment> \<open>the stream ends with a read error or not; \<open>LimitReader\<close> stops before an error that lies beyond \<open>limit + 1\<close> bytes\<close>
  "readBounded stream read_err limit =
     (let n = nat (wrap64 (limit + 1)); body = take n stream in
      case (if length stream < n then read_err else None) of
        Some canceled \<Rightarrow> Inl \<lparr>te_Code = CodeUpstreamUnavailable, te_UpstreamStatus = 0, te_Canceled = canceled\<rparr>
      | None \<Rightarrow> if int (length body) > limit then Inl (tok_fail CodeResponseTooLarge) else Inr body)"

definition post :: "(string \<Rightarrow> byte list \<Rightarrow> http_result) \<Rightarrow> tok_Config \<Rightarrow> string \<Rightarrow> byte list \<Rightarrow> tok_error + byte list" where
  "post exchange r path payload =
     (case exchange (tc_BaseURL r @ path) payload of
        HTTPFailed canceled \<Rightarrow> Inl \<lparr>te_Code = CodeUpstreamUnavailable, te_UpstreamStatus = 0, te_Canceled = canceled\<rparr>
      | HTTPResponse status stream read_err \<Rightarrow>
          if status < 200 \<or> status \<ge> 300
          then Inl \<lparr>te_Code = CodeUpstreamRejected, te_UpstreamStatus = status, te_Canceled = False\<rparr>
          else readBounded stream read_err (tc_MaxResponseBytes r))"

definition render :: "'raw json_codec \<Rightarrow> (string \<Rightarrow> byte list \<Rightarrow> http_result) \<Rightarrow> tok_Config \<Rightarrow> string \<Rightarrow> byte list
    \<Rightarrow> tok_error + renderResponse list" where
  "render js exchange r route payload =
     (let path = (if route = RouteCompletions then ''/v1/completions/render'' else ''/v1/chat/completions/render'') in
      case post exchange r path payload of Inl e \<Rightarrow> Inl e
      | Inr body \<Rightarrow>
          if route = RouteChatCompletions
          then (case js_Response js body of None \<Rightarrow> Inl (tok_fail CodeInvalidResponse) | Some x \<Rightarrow> Inr [x])
          else (case js_Responses js body of None \<Rightarrow> Inl (tok_fail CodeInvalidResponse) | Some xs \<Rightarrow> Inr xs))"

fun validate_loop :: "tok_Config \<Rightarrow> renderResponse list \<Rightarrow> int \<Rightarrow> tok_error + 32 word list list" where
  "validate_loop r [] n = Inr []"
| "validate_loop r (x # xs) n =
     (if rr_Model x \<noteq> '''' \<and> rr_Model x \<noteq> tc_Model r then Inl (tok_fail CodeInvalidResponse)
      else case rr_TokenIDs x of None \<Rightarrow> Inl (tok_fail CodeInvalidResponse)
      | Some ids \<Rightarrow>
          if rr_HasFeatures x then Inl (tok_fail CodeUnsupportedFeature)
          else let n' = wrap64 (n + int (length ids)) in
            if n' > tc_MaxTotalTokens r then Inl (tok_fail CodeTokenLimitExceeded)
            else (case validate_loop r xs n' of Inl e \<Rightarrow> Inl e | Inr groups \<Rightarrow> Inr (ids # groups)))"

definition validateResponses :: "tok_Config \<Rightarrow> renderResponse list \<Rightarrow> tok_error + 32 word list list" where
  "validateResponses r responses =
     (if length responses = 0 then Inl (tok_fail CodeInvalidResponse) else validate_loop r responses 0)"

definition newResult :: "string \<Rightarrow> string \<Rightarrow> 32 word list list \<Rightarrow> tok_Result" where
  "newResult model cacheSalt groups =
     \<lparr>tr_model = model, tr_cacheSalt = cacheSalt, tr_prompts = groups,
      tr_totalTokens = foldl (\<lambda>n g. wrap64 (n + int (length g))) 0 groups\<rparr>"

definition Tokenize :: "'raw json_codec \<Rightarrow> (string \<Rightarrow> byte list \<Rightarrow> http_result) \<Rightarrow> tok_Config \<Rightarrow> tok_Input
    \<Rightarrow> tok_error + tok_Result" where
  "Tokenize js exchange r input =
     (if int (length (ti_Body input)) > tc_MaxRequestBytes r then Inl (tok_fail CodeRequestTooLarge)
      else case tok_Input_Validate js input of Some e \<Rightarrow> Inl e
      | None \<Rightarrow>
        (case buildPayload js r (ti_Body input) of Inl e \<Rightarrow> Inl e
         | Inr (payload, cacheSalt) \<Rightarrow>
           (case render js exchange r (ti_Route input) payload of Inl e \<Rightarrow> Inl e
            | Inr responses \<Rightarrow>
              (case validateResponses r responses of Inl e \<Rightarrow> Inl e
               | Inr groups \<Rightarrow> Inr (newResult (tc_Model r) cacheSalt groups)))))"

subsection \<open>The contract the request path relies on\<close>

locale tokenizer_contract =
  fixes tokenize :: "'i \<Rightarrow> 'e + tok_Result"
  assumes counted: "tokenize i = Inr res \<Longrightarrow> tr_totalTokens res = wrap64 (int (sum_list (map length (tr_prompts res))))"
    and some_prompt: "tokenize i = Inr res \<Longrightarrow> tr_prompts res \<noteq> []"
begin

lemma total_exact:
  "tokenize i = Inr res \<Longrightarrow> int (sum_list (map length (tr_prompts res))) \<le> max_int64 \<Longrightarrow>
     tr_totalTokens res = int (sum_list (map length (tr_prompts res)))"
  by (simp add: counted in_int64_def min_int64_def)

lemma group_fits:
  "tokenize i = Inr res \<Longrightarrow> int (sum_list (map length (tr_prompts res))) \<le> max_int64 \<Longrightarrow> g \<in> set (tr_prompts res)
     \<Longrightarrow> int (length g) \<le> tr_totalTokens res"
  by (simp add: total_exact member_le_sum_list)

end

lemma wrap64_add: "wrap64 (wrap64 a + b) = wrap64 (a + b)"
  unfolding wrap64_def by (simp add: mod_simps algebra_simps)

lemma count_fold: "in_int64 a \<Longrightarrow> foldl (\<lambda>n g. wrap64 (n + int (length g))) a groups = wrap64 (a + int (sum_list (map length groups)))"
proof (induction groups arbitrary: a)
  case (Cons g gs)
  have "in_int64 (wrap64 (a + int (length g)))"
    by (simp add: in_int64_def wrap64_def min_int64_def max_int64_def)
  from Cons.IH [OF this] show ?case by (simp add: wrap64_add add.assoc)
qed simp

lemma newResult_count: "tr_totalTokens (newResult m c groups) = wrap64 (int (sum_list (map length groups)))"
  using count_fold [of 0 groups] by (simp add: newResult_def in_int64_def min_int64_def max_int64_def)

lemma Tokenize_cases:
  assumes "Tokenize js exchange r input = Inr res"
  obtains payload salt responses groups where
    "int (length (ti_Body input)) \<le> tc_MaxRequestBytes r" "tok_Input_Validate js input = None"
    "buildPayload js r (ti_Body input) = Inr (payload, salt)"
    "render js exchange r (ti_Route input) payload = Inr responses"
    "validateResponses r responses = Inr groups" "res = newResult (tc_Model r) salt groups"
  using assms by (auto simp: Tokenize_def split: if_splits option.splits sum.splits prod.splits)

lemma validate_loop_groups: "validate_loop r xs n = Inr groups \<Longrightarrow> map Some groups = map rr_TokenIDs xs"
  by (induction xs arbitrary: n groups) (auto simp: Let_def split: if_splits option.splits sum.splits)

lemma validate_loop_limit:
  "validate_loop r xs n = Inr groups \<Longrightarrow> in_int64 n \<Longrightarrow>
     xs \<noteq> [] \<Longrightarrow> wrap64 (n + int (sum_list (map length groups))) \<le> tc_MaxTotalTokens r"
proof (induction xs arbitrary: n groups)
  case (Cons x xs)
  obtain ids rest where groups: "groups = ids # rest" and le: "wrap64 (n + int (length ids)) \<le> tc_MaxTotalTokens r"
    and rest: "validate_loop r xs (wrap64 (n + int (length ids))) = Inr rest"
    using Cons.prems(1) by (auto simp: Let_def split: if_splits option.splits sum.splits)
  show ?case
  proof (cases "xs = []")
    case True
    then show ?thesis using rest le by (simp add: groups)
  next
    case False
    have "in_int64 (wrap64 (n + int (length ids)))"
      by (simp add: in_int64_def wrap64_def min_int64_def max_int64_def)
    from Cons.IH [OF rest this False] show ?thesis by (simp add: groups wrap64_add add.assoc)
  qed
qed simp

interpretation vllm_tokenizer: tokenizer_contract "Tokenize js exchange r"
  for js :: "'raw json_codec" and exchange r
proof unfold_locales
  fix i res
  assume "Tokenize js exchange r i = Inr res"
  then obtain payload salt responses groups where v: "validateResponses r responses = Inr groups"
    and res: "res = newResult (tc_Model r) salt groups" by (rule Tokenize_cases)
  show "tr_totalTokens res = wrap64 (int (sum_list (map length (tr_prompts res))))"
    unfolding res by (simp add: newResult_count) (simp add: newResult_def)
  have "map Some groups = map rr_TokenIDs responses" "responses \<noteq> []"
    using v validate_loop_groups by (auto simp: validateResponses_def split: if_splits)
  then show "tr_prompts res \<noteq> []" by (auto simp: res newResult_def)
qed

subsection \<open>What a successful tokenization means\<close>

definition response_tokens :: "renderResponse \<Rightarrow> nat" where
  "response_tokens x = (case rr_TokenIDs x of None \<Rightarrow> 0 | Some ids \<Rightarrow> length ids)"

definition codec_fits :: "'raw json_codec \<Rightarrow> bool" where
  \<comment> \<open>a JSON number takes at least one byte of the decoded text\<close>
  "codec_fits js \<longleftrightarrow> (\<forall>body x. js_Response js body = Some x \<longrightarrow> response_tokens x \<le> length body)
     \<and> (\<forall>body xs. js_Responses js body = Some xs \<longrightarrow> sum_list (map response_tokens xs) \<le> length body)"

lemma readBounded_length: "readBounded stream e limit = Inr body \<Longrightarrow> int (length body) \<le> limit"
  by (auto simp: readBounded_def Let_def split: option.splits if_splits)

lemma render_tokens:
  assumes "codec_fits js" and "render js exchange r route payload = Inr xs"
  shows "int (sum_list (map response_tokens xs)) \<le> tc_MaxResponseBytes r"
proof -
  obtain body where b: "int (length body) \<le> tc_MaxResponseBytes r"
    and xs: "(\<exists>x. js_Response js body = Some x \<and> xs = [x]) \<or> js_Responses js body = Some xs"
    using assms(2) by (auto simp: render_def post_def Let_def dest!: readBounded_length
      split: sum.splits http_result.splits if_splits option.splits)
  have "sum_list (map response_tokens xs) \<le> length body" using xs assms(1) by (auto simp: codec_fits_def)
  then show ?thesis using b by linarith
qed

lemma groups_tokens: "map Some groups = map rr_TokenIDs xs \<Longrightarrow> sum_list (map length groups) = sum_list (map response_tokens xs)"
  by (induction groups arbitrary: xs) (auto simp: response_tokens_def Cons_eq_map_conv split: option.splits)

text \<open>
  C29. A tokenization that succeeds used only a bounded request for the configured model, and its token
  count is the exact number of tokens of its prompts, at least one prompt and within \<open>MaxTotalTokens\<close>.
\<close>

theorem Tokenize_sound:
  assumes "codec_fits js" and "tc_MaxResponseBytes r \<le> max_int64" and "Tokenize js exchange r input = Inr res"
  shows "int (length (ti_Body input)) \<le> tc_MaxRequestBytes r \<and> route_supported (ti_Route input)
    \<and> (\<exists>obj. js_Object js (ti_Body input) = Some obj \<and> requiredString js obj ''model'' = Some (tc_Model r)
         \<and> optionalString js obj ''cache_salt'' = Some (tr_cacheSalt res))
    \<and> tr_model res = tc_Model r \<and> tr_prompts res \<noteq> []
    \<and> tr_totalTokens res = int (sum_list (map length (tr_prompts res))) \<and> tr_totalTokens res \<le> tc_MaxTotalTokens r"
proof -
  obtain payload salt responses groups where t: "int (length (ti_Body input)) \<le> tc_MaxRequestBytes r"
      "tok_Input_Validate js input = None" "buildPayload js r (ti_Body input) = Inr (payload, salt)"
      "render js exchange r (ti_Route input) payload = Inr responses"
      "validateResponses r responses = Inr groups" "res = newResult (tc_Model r) salt groups"
    using assms(3) by (rule Tokenize_cases)
  have ne: "responses \<noteq> []" and loop: "validate_loop r responses 0 = Inr groups"
    using t(5) by (auto simp: validateResponses_def split: if_splits)
  have prompts: "tr_prompts res = groups" by (simp add: t(6) newResult_def)
  have "int (sum_list (map length groups)) \<le> max_int64"
    using render_tokens [OF assms(1) t(4)] groups_tokens [OF validate_loop_groups [OF loop]] assms(2) by linarith
  then have total: "tr_totalTokens res = int (sum_list (map length groups))"
    using vllm_tokenizer.total_exact [OF assms(3)] by (simp add: prompts)
  moreover have "wrap64 (int (sum_list (map length groups))) \<le> tc_MaxTotalTokens r"
    using validate_loop_limit [OF loop _ ne] by (simp add: in_int64_def min_int64_def max_int64_def)
  moreover have "tr_totalTokens res = wrap64 (int (sum_list (map length groups)))"
    using vllm_tokenizer.counted [OF assms(3)] by (simp add: prompts)
  moreover have "\<exists>obj. js_Object js (ti_Body input) = Some obj \<and> requiredString js obj ''model'' = Some (tc_Model r)
         \<and> optionalString js obj ''cache_salt'' = Some (tr_cacheSalt res)"
    using t(3) by (auto simp: buildPayload_def t(6) newResult_def split: option.splits if_splits)
  moreover have "route_supported (ti_Route input)" using t(2) by (simp add: tok_Input_Validate_def split: if_splits)
  moreover have "tr_prompts res \<noteq> []" using assms(3) by (rule vllm_tokenizer.some_prompt)
  ultimately show ?thesis using t(1) by (simp add: prompts t(6) newResult_def)
qed

definition wit_codec :: "string json_codec" where
  "wit_codec = \<lparr>js_Valid = (\<lambda>_. True), js_Object = (\<lambda>_. Some [(''model'', ''m'')]), js_String = Some, js_IsNull = (\<lambda>_. False),
     js_EncodeString = Some, js_EncodeObject = (\<lambda>_. Some [1]), js_Response = (\<lambda>body. Some \<lparr>rr_Model = '''',
       rr_TokenIDs = Some (map (\<lambda>_. 7) body), rr_HasFeatures = False\<rparr>), js_Responses = (\<lambda>_. None)\<rparr>"

definition wit_tok_config :: tok_Config where
  "wit_tok_config = \<lparr>tc_BaseURL = ''http://r'', tc_Model = ''m'', tc_Timeout = 1, tc_MaxRequestBytes = 9,
     tc_MaxResponseBytes = 9, tc_MaxTotalTokens = 5\<rparr>"

definition wit_tok_input :: tok_Input where
  "wit_tok_input = \<lparr>ti_Route = ''/v1/chat/completions'', ti_Body = [1, 2]\<rparr>"

lemma wit_Tokenize: "Tokenize wit_codec (\<lambda>_ _. HTTPResponse 200 [1, 2, 3] None) wit_tok_config wit_tok_input
    = Inr \<lparr>tr_model = ''m'', tr_cacheSalt = '''', tr_prompts = [[7, 7, 7]], tr_totalTokens = 3\<rparr>"
proof -
  have "TrimSpace ''m'' = ''m''" by code_simp
  then show ?thesis
    by (simp add: Tokenize_def wit_tok_config_def wit_tok_input_def wit_codec_def tok_Input_Validate_def route_supported_def
      RouteChatCompletions_def RouteCompletions_def buildPayload_def requiredString_def optionalString_def render_def post_def
      readBounded_def validateResponses_def newResult_def wrap64_def Let_def)
qed

theorem Tokenize_sound_witness:
  "\<exists>res. Tokenize wit_codec (\<lambda>_ _. HTTPResponse 200 [1, 2, 3] None) wit_tok_config wit_tok_input = Inr res
     \<and> tr_totalTokens res = int (sum_list (map length (tr_prompts res))) \<and> tr_totalTokens res \<le> 5"
proof -
  have "codec_fits wit_codec" by (auto simp: codec_fits_def wit_codec_def response_tokens_def)
  moreover have "tc_MaxResponseBytes wit_tok_config \<le> max_int64" by (simp add: wit_tok_config_def max_int64_def)
  ultimately show ?thesis using Tokenize_sound [OF _ _ wit_Tokenize] wit_Tokenize by (auto simp: wit_tok_config_def)
qed

end
