(* ===== verification/Observation.thy ===== *)
theory Observation
  imports Float64 Backend
begin

text \<open>
  \<open>internal/serving/identity\<close> (value types and \<open>Enrich\<close>) and \<open>internal/serving/observation\<close>:
  per-backend telemetry samples and their freshness. The collector, the identity enricher and the
  runtime collector are interfaces in the code and function arguments here; the Prometheus adapters
  that implement them are in theory \<open>Prometheus\<close>. Collection of several backends runs in goroutines that write
  disjoint keys; the model runs them in list order.
\<close>

subsection \<open>Workload identity\<close>

record Identity =
  idn_PodName :: string
  idn_PodUID :: string
  idn_NodeName :: string
  idn_GPURequested :: f64
  idn_Ready :: bool
  idn_Status :: string
  idn_Error :: string

definition StatusOK :: string where "StatusOK = ''ok''"
definition StatusDegraded :: string where "StatusDegraded = ''degraded''"
definition StatusUnavailable :: string where "StatusUnavailable = ''unavailable''"

record pod =
  pod_Name :: string
  pod_UID :: string
  pod_NodeName :: string
  pod_Containers :: "((string, string) gomap \<times> (string, string) gomap) list"
    \<comment> \<open>requests and limits of each container\<close>
  pod_Phase :: string
  pod_Conditions :: "(string \<times> string) list"

definition pod_Ready :: "pod \<Rightarrow> bool" where
  "pod_Ready p =
     (if pod_Phase p \<noteq> ''Running'' then False
      else (case find (\<lambda>c. fst c = ''Ready'') (pod_Conditions p) of
              None \<Rightarrow> False | Some c \<Rightarrow> snd c = ''True''))"

definition gpu_value :: "(string, string) gomap \<times> (string, string) gomap \<Rightarrow> string" where
  "gpu_value rl =
     (let (requests, limits) = rl;
          v1 = mget [] requests ''nvidia.com/gpu'';
          v2 = (if v1 = [] then mget [] limits ''nvidia.com/gpu'' else v1);
          v3 = (if v2 = [] then mget [] requests ''amd.com/gpu'' else v2)
      in if v3 = [] then mget [] limits ''amd.com/gpu'' else v3)"

definition parseQuantity :: "(string \<Rightarrow> f64 option) \<Rightarrow> string \<Rightarrow> f64" where
  \<comment> \<open>\<open>parse_float\<close> stands for \<open>strconv.ParseFloat\<close>\<close>
  "parseQuantity parse_float raw =
     (let value = TrimSpace raw
      in if value = [] then Fin 0
         else if last value = CHR ''m''
         then (case parse_float (butlast value) of None \<Rightarrow> Fin 0 | Some x \<Rightarrow> f_div x (Fin 1000))
         else (case parse_float value of None \<Rightarrow> Fin 0 | Some x \<Rightarrow> x))"

definition gpuRequested :: "(string \<Rightarrow> f64 option) \<Rightarrow>
    ((string, string) gomap \<times> (string, string) gomap) list \<Rightarrow> f64" where
  "gpuRequested parse_float containers =
     foldl (\<lambda>total c. f_add total (parseQuantity parse_float (gpu_value c))) (Fin 0) containers"

definition enrich_one :: "(string \<Rightarrow> f64 option) \<Rightarrow> (string, pod) gomap \<Rightarrow> Backend \<Rightarrow> Identity" where
  "enrich_one parse_float byName candidate =
     (let podName = mget [] (bMetadata candidate) MetadataPodName;
          identity = \<lparr>idn_PodName = podName, idn_PodUID = [], idn_NodeName = [],
            idn_GPURequested = Fin 0, idn_Ready = False, idn_Status = StatusUnavailable, idn_Error = []\<rparr>
      in if podName = []
         then identity\<lparr>idn_Error := ''EndpointSlice backend has no Pod targetRef''\<rparr>
         else (case map_of byName podName of
                 None \<Rightarrow> identity\<lparr>idn_Error := ''Pod targetRef is not present in namespace snapshot''\<rparr>
               | Some item \<Rightarrow>
                   let identity = identity\<lparr>idn_NodeName := pod_NodeName item, idn_PodUID := pod_UID item,
                         idn_GPURequested := gpuRequested parse_float (pod_Containers item),
                         idn_Ready := pod_Ready item, idn_Status := StatusOK\<rparr>
                   in if \<not> pod_Ready item
                      then identity\<lparr>idn_Status := StatusDegraded, idn_Error := ''Pod is not Ready''\<rparr>
                      else identity))"

definition Enrich :: "(string \<Rightarrow> f64 option) \<Rightarrow> pod list \<Rightarrow> Backend list \<Rightarrow> (ID, Identity) gomap" where
  "Enrich parse_float pods backends =
     (let byName = foldl (\<lambda>m p. AList.update (pod_Name p) p m) [] pods
      in foldl (\<lambda>m b. AList.update (bID b) (enrich_one parse_float byName b) m) [] backends)"

subsection \<open>Samples\<close>

record Sample =
  smp_Value :: f64
  smp_Valid :: bool
  smp_ObservedAt :: time
  smp_Source :: string
  smp_Error :: string

definition zero_Sample :: Sample where
  "zero_Sample = \<lparr>smp_Value = Fin 0, smp_Valid = False, smp_ObservedAt = zero_time,
     smp_Source = [], smp_Error = []\<rparr>"

record Runtime =
  rt_ObservedAt :: time
  CPUUsageCores :: Sample
  MemoryUsageBytes :: Sample
  GPUUtilizationPercent :: Sample
  GPUMemoryUsedBytes :: Sample
  GPUTemperatureCelsius :: Sample
  rt_Source :: string
  rt_Error :: string

definition zero_Runtime :: Runtime where
  "zero_Runtime = \<lparr>rt_ObservedAt = zero_time, CPUUsageCores = zero_Sample,
     MemoryUsageBytes = zero_Sample, GPUUtilizationPercent = zero_Sample,
     GPUMemoryUsedBytes = zero_Sample, GPUTemperatureCelsius = zero_Sample,
     rt_Source = [], rt_Error = []\<rparr>"

record Observed =
  obs_Identity :: Identity
  obs_Status :: string
  obs_Source :: string
  obs_ObservedAt :: time
  obs_Freshness :: duration
  obs_Runtime :: Runtime
  QueueLength :: Sample
  RunningRequests :: Sample
  PrefixCacheHitRate :: f64
  TTFTP95Milliseconds :: f64
  KVCacheUsagePercent :: f64
  obs_Error :: string

definition zero_Identity :: Identity where
  "zero_Identity = \<lparr>idn_PodName = [], idn_PodUID = [], idn_NodeName = [],
     idn_GPURequested = Fin 0, idn_Ready = False, idn_Status = [], idn_Error = []\<rparr>"

definition zero_Observed :: Observed where
  "zero_Observed = \<lparr>obs_Identity = zero_Identity, obs_Status = [], obs_Source = [],
     obs_ObservedAt = zero_time, obs_Freshness = 0, obs_Runtime = zero_Runtime,
     QueueLength = zero_Sample, RunningRequests = zero_Sample, PrefixCacheHitRate = Fin 0,
     TTFTP95Milliseconds = Fin 0, KVCacheUsagePercent = Fin 0, obs_Error = []\<rparr>"

definition normalizeSample :: "Sample \<Rightarrow> time \<Rightarrow> string \<Rightarrow> Sample" where
  "normalizeSample sample fallbackTime fallbackSource =
     (if \<not> smp_Valid sample then sample
      else let s1 = (if IsZero (smp_ObservedAt sample) then sample\<lparr>smp_ObservedAt := fallbackTime\<rparr>
                     else sample)
           in (if smp_Source s1 = [] then s1\<lparr>smp_Source := fallbackSource\<rparr> else s1))"

definition freshSample :: "Sample \<Rightarrow> time \<Rightarrow> duration \<Rightarrow> Sample" where
  "freshSample sample now maxAge =
     (if \<not> smp_Valid sample \<or> IsZero (smp_ObservedAt sample) then sample
      else if time_sub now (smp_ObservedAt sample) > maxAge
      then (let s1 = sample\<lparr>smp_Valid := False\<rparr>
            in if smp_Error s1 = [] then s1\<lparr>smp_Error := ''sample is stale''\<rparr> else s1)
      else sample)"

definition normalizeRuntime :: "Runtime \<Rightarrow> time \<Rightarrow> Runtime" where
  "normalizeRuntime runtime fallbackTime =
     (let r = (if IsZero (rt_ObservedAt runtime) then runtime\<lparr>rt_ObservedAt := fallbackTime\<rparr> else runtime);
          n = (\<lambda>s. normalizeSample s (rt_ObservedAt r) (rt_Source r))
      in r\<lparr>CPUUsageCores := n (CPUUsageCores r), MemoryUsageBytes := n (MemoryUsageBytes r),
           GPUUtilizationPercent := n (GPUUtilizationPercent r),
           GPUMemoryUsedBytes := n (GPUMemoryUsedBytes r),
           GPUTemperatureCelsius := n (GPUTemperatureCelsius r)\<rparr>)"

definition freshRuntime :: "Runtime \<Rightarrow> time \<Rightarrow> duration \<Rightarrow> Runtime" where
  "freshRuntime runtime now maxAge =
     (if IsZero (rt_ObservedAt runtime) \<or> time_sub now (rt_ObservedAt runtime) \<le> maxAge then runtime
      else
        let f = (\<lambda>s. freshSample s now maxAge);
            r = runtime\<lparr>CPUUsageCores := f (CPUUsageCores runtime),
                  MemoryUsageBytes := f (MemoryUsageBytes runtime),
                  GPUUtilizationPercent := f (GPUUtilizationPercent runtime),
                  GPUMemoryUsedBytes := f (GPUMemoryUsedBytes runtime),
                  GPUTemperatureCelsius := f (GPUTemperatureCelsius runtime)\<rparr>
        in if rt_Error r = [] then r\<lparr>rt_Error := ''runtime observation is stale''\<rparr> else r)"

definition joinErrors :: "string \<Rightarrow> string \<Rightarrow> string" where
  "joinErrors first second =
     (if first = [] then second else if second = [] then first else first @ ''; '' @ second)"

subsection \<open>The reader\<close>

record obs_service =
  os_maxAge :: duration
  os_states :: "(ID, Observed) gomap"

definition snapshot_state :: "time \<Rightarrow> duration \<Rightarrow> Observed \<Rightarrow> Observed" where
  \<comment> \<open>the body of the loop of \<open>Snapshot\<close>\<close>
  "snapshot_state now maxAge state0 =
     (let state1 = state0\<lparr>obs_Freshness :=
            (if IsZero (obs_ObservedAt state0) then 0 else time_sub now (obs_ObservedAt state0))\<rparr>;
          state2 = (if obs_Status state1 = StatusOK \<and> obs_Freshness state1 > maxAge
                    then state1\<lparr>obs_Status := StatusDegraded,
                      obs_Error := (if obs_Error state1 = [] then ''observation is stale''
                                    else obs_Error state1)\<rparr>
                    else state1)
      in state2\<lparr>QueueLength := freshSample (QueueLength state2) now maxAge,
                RunningRequests := freshSample (RunningRequests state2) now maxAge,
                obs_Runtime := freshRuntime (obs_Runtime state2) now maxAge\<rparr>)"

definition obs_Snapshot :: "time \<Rightarrow> obs_service \<Rightarrow> (ID, Observed) gomap" where
  "obs_Snapshot now s = map (\<lambda>(bid, st). (bid, snapshot_state now (os_maxAge s) st)) (os_states s)"

datatype enrich_result = NoEnricher | EnrichOK "(ID, Identity) gomap" | EnrichFailed string

definition refresh_one :: "(Backend \<Rightarrow> Observed) \<Rightarrow> (Backend \<Rightarrow> Identity \<Rightarrow> Runtime) option \<Rightarrow>
    enrich_result \<Rightarrow> time \<Rightarrow> Backend \<Rightarrow> Observed" where
  \<comment> \<open>the goroutine \<open>refresh\<close> starts for one backend\<close>
  "refresh_one collect runtime enriched now backend =
     (let state0 = collect backend;
          identities = (case enriched of EnrichOK m \<Rightarrow> m | _ \<Rightarrow> []);
          identityErr = (case enriched of EnrichFailed e \<Rightarrow> e | _ \<Rightarrow> []);
          state1 =
            (case map_of identities (bID backend) of
               Some identityState \<Rightarrow>
                 let s1 = state0\<lparr>obs_Identity := identityState\<rparr>;
                     s2 = (if idn_Status identityState = StatusUnavailable \<and> obs_Status s1 = StatusOK
                           then s1\<lparr>obs_Status := StatusDegraded\<rparr> else s1)
                 in (if idn_Error identityState \<noteq> []
                     then s2\<lparr>obs_Error := joinErrors (obs_Error s2) (idn_Error identityState)\<rparr> else s2)
             | None \<Rightarrow>
                 if identityErr \<noteq> []
                 then state0\<lparr>obs_Status := StatusDegraded,
                        obs_Error := joinErrors (obs_Error state0) (''identity: '' @ identityErr)\<rparr>
                 else state0);
          state2 = (case runtime of None \<Rightarrow> state1
                    | Some r \<Rightarrow> state1\<lparr>obs_Runtime := r backend (obs_Identity state1)\<rparr>);
          state3 = (if IsZero (obs_ObservedAt state2) then state2\<lparr>obs_ObservedAt := now\<rparr> else state2)
      in state3\<lparr>QueueLength := normalizeSample (QueueLength state3) (obs_ObservedAt state3) (obs_Source state3),
                RunningRequests := normalizeSample (RunningRequests state3) (obs_ObservedAt state3) (obs_Source state3),
                obs_Runtime := normalizeRuntime (obs_Runtime state3) (obs_ObservedAt state3)\<rparr>)"

definition obs_refresh :: "(Backend \<Rightarrow> Observed) \<Rightarrow> (Backend \<Rightarrow> Identity \<Rightarrow> Runtime) option \<Rightarrow>
    enrich_result \<Rightarrow> time \<Rightarrow> obs_service \<Rightarrow> Backend list option \<Rightarrow> obs_service" where
  \<comment> \<open>\<open>None\<close>: the resolver returned an error\<close>
  "obs_refresh collect runtime enriched now s resolved =
     (case resolved of
        None \<Rightarrow> s
      | Some backends \<Rightarrow> s\<lparr>os_states :=
          foldl (\<lambda>m b. AList.update (bID b) (refresh_one collect runtime enriched now b) m) [] backends\<rparr>)"

subsection \<open>Freshness of what routing reads\<close>

record obs_Config =
  oc_Interval :: duration
  oc_MaxAge :: duration
  oc_RequestTimeout :: duration

datatype obs_error = ErrObsDependencies | ErrObsBounds

definition obs_Config_Validate :: "obs_Config \<Rightarrow> obs_error option" where
  "obs_Config_Validate c =
     (if oc_Interval c \<le> 0 \<or> oc_MaxAge c \<le> 0 \<or> oc_RequestTimeout c \<le> 0 then Some ErrObsBounds else None)"

definition obs_New :: "obs_Config \<Rightarrow> bool \<Rightarrow> obs_error + obs_service" where
  \<comment> \<open>the boolean tells whether the resolver and the collector are set\<close>
  "obs_New config has_dependencies =
     (if \<not> has_dependencies then Inl ErrObsDependencies
      else case obs_Config_Validate config of Some e \<Rightarrow> Inl e
        | None \<Rightarrow> Inr \<lparr>os_maxAge = oc_MaxAge config, os_states = []\<rparr>)"

inductive obs_reach :: "obs_service \<Rightarrow> bool" where
  obs_start: "obs_New config has_dependencies = Inr s \<Longrightarrow> obs_reach s"
| obs_tick: "obs_reach s \<Longrightarrow> \<not> IsZero now \<Longrightarrow> obs_reach (obs_refresh collect runtime enriched now s resolved)"

definition dated :: "Sample \<Rightarrow> bool" where
  "dated x \<longleftrightarrow> (smp_Valid x \<longrightarrow> \<not> IsZero (smp_ObservedAt x))"

definition observed_dated :: "Observed \<Rightarrow> bool" where
  "observed_dated st \<longleftrightarrow> \<not> IsZero (obs_ObservedAt st) \<and> dated (QueueLength st) \<and> dated (RunningRequests st)"

lemma normalizeSample_dated: "\<not> IsZero t \<Longrightarrow> dated (normalizeSample x t src)"
  by (auto simp: dated_def normalizeSample_def Let_def)

lemma refresh_one_dated: "\<not> IsZero now \<Longrightarrow> observed_dated (refresh_one collect runtime enriched now b)"
  unfolding refresh_one_def Let_def observed_dated_def by (auto intro!: normalizeSample_dated)

lemma foldl_update_value:
  "map_of (foldl (\<lambda>m b. AList.update (k b) (f b) m) m0 bs) x = Some v \<Longrightarrow>
     map_of m0 x = Some v \<or> (\<exists>b\<in>set bs. k b = x \<and> f b = v)"
proof (induction bs arbitrary: m0)
  case (Cons b bs)
  from Cons.IH [of "AList.update (k b) (f b) m0"] Cons.prems
  show ?case by (auto simp: update_conv' split: if_splits)
qed simp

lemma obs_reach_dated: "obs_reach s \<Longrightarrow> map_of (os_states s) b = Some st \<Longrightarrow> observed_dated st"
proof (induction rule: obs_reach.induct)
  case (obs_start config h s)
  then show ?case by (auto simp: obs_New_def split: if_splits option.splits)
next
  case (obs_tick s now collect runtime enriched resolved)
  then show ?case
    by (auto simp: obs_refresh_def dest!: foldl_update_value intro: refresh_one_dated split: option.splits)
qed

lemma freshSample_age:
  "dated x \<Longrightarrow> smp_Valid (freshSample x now maxAge) \<Longrightarrow> time_sub now (smp_ObservedAt (freshSample x now maxAge)) \<le> maxAge"
  by (auto simp: dated_def freshSample_def Let_def split: if_splits)

text \<open>
  C30. Whatever the collectors returned and however many refreshes failed since, a queue or running
  sample that a snapshot reports as valid, and a backend it reports as \<open>ok\<close>, was observed at most
  \<open>MaxAge\<close> before the snapshot.
\<close>

theorem snapshot_signals_fresh:
  assumes "obs_reach s" and "map_of (obs_Snapshot now s) b = Some st"
  shows "(smp_Valid (QueueLength st) \<longrightarrow> time_sub now (smp_ObservedAt (QueueLength st)) \<le> os_maxAge s)
    \<and> (smp_Valid (RunningRequests st) \<longrightarrow> time_sub now (smp_ObservedAt (RunningRequests st)) \<le> os_maxAge s)
    \<and> (obs_Status st = StatusOK \<longrightarrow> time_sub now (obs_ObservedAt st) \<le> os_maxAge s)"
proof -
  obtain st0 where st0: "map_of (os_states s) b = Some st0" and st: "st = snapshot_state now (os_maxAge s) st0"
    using assms(2) by (auto simp: obs_Snapshot_def map_of_map)
  have d: "observed_dated st0" by (rule obs_reach_dated [OF assms(1) st0])
  have "QueueLength st = freshSample (QueueLength st0) now (os_maxAge s)"
    and "RunningRequests st = freshSample (RunningRequests st0) now (os_maxAge s)"
    and "obs_Status st = StatusOK \<longrightarrow> time_sub now (obs_ObservedAt st) \<le> os_maxAge s"
    using d by (auto simp: st snapshot_state_def Let_def observed_dated_def StatusDegraded_def StatusOK_def)
  then show ?thesis using freshSample_age d by (simp add: observed_dated_def)
qed

definition wit_obs_backend :: Backend where
  "wit_obs_backend = \<lparr>bID = ''a'', bURL = ''http://a:80'', bMetadata = []\<rparr>"

definition wit_obs :: obs_service where
  "wit_obs = obs_refresh (\<lambda>_. zero_Observed\<lparr>obs_Status := StatusOK, QueueLength := zero_Sample\<lparr>smp_Valid := True, smp_Value := Fin 3\<rparr>\<rparr>)
     None NoEnricher 10 \<lparr>os_maxAge = 5, os_states = []\<rparr> (Some [wit_obs_backend])"

theorem snapshot_signals_fresh_witness:
  "\<exists>st. map_of (obs_Snapshot 12 wit_obs) ''a'' = Some st \<and> smp_Valid (QueueLength st)
     \<and> time_sub 12 (smp_ObservedAt (QueueLength st)) \<le> 5"
proof -
  have "obs_New \<lparr>oc_Interval = 1, oc_MaxAge = 5, oc_RequestTimeout = 1\<rparr> True = Inr \<lparr>os_maxAge = 5, os_states = []\<rparr>"
    by (simp add: obs_New_def obs_Config_Validate_def)
  from obs_tick [OF obs_start [OF this], of 10] have r: "obs_reach wit_obs" by (simp add: wit_obs_def IsZero_def zero_time_def)
  obtain st where st: "map_of (obs_Snapshot 12 wit_obs) ''a'' = Some st" and v: "smp_Valid (QueueLength st)"
    by (simp add: obs_Snapshot_def wit_obs_def obs_refresh_def wit_obs_backend_def snapshot_state_def refresh_one_def
        normalizeSample_def freshSample_def zero_Observed_def zero_Sample_def Let_def IsZero_def zero_time_def time_sub_def
        StatusOK_def StatusDegraded_def min_int64_def max_int64_def)
  moreover have "os_maxAge wit_obs = 5" by (simp add: wit_obs_def obs_refresh_def)
  ultimately show ?thesis using snapshot_signals_fresh [OF r st] by auto
qed

end
