(* ===== verification/Routing.thy ===== *)
theory Routing
  imports Observation
begin

text \<open>
  \<open>internal/serving/routing\<close> without the session-key strategy: the snapshot a decision is made from,
  the decision, the configuration and the round-robin, load-balanced, load-aware and KV-aware
  strategies. A strategy's \<open>Select\<close> is a function of the snapshot (round-robin also of its atomic
  cursor); errors are values. The comparators of the selection loops are interpretations of
  \<open>keyed_less\<close>, which gives each strategy its least element and its independence of the order in
  which discovery lists the backends.
\<close>

subsection \<open>Modes, policies and reasons\<close>

definition ModeRoundRobin :: string where "ModeRoundRobin = ''round-robin''"
definition ModeLoadBalanced :: string where "ModeLoadBalanced = ''load-balanced''"
definition ModeLoadAware :: string where "ModeLoadAware = ''load-aware''"
definition ModeSessionKey :: string where "ModeSessionKey = ''session-key''"
definition ModeKVAware :: string where "ModeKVAware = ''kv-aware''"

lemmas mode_defs = ModeRoundRobin_def ModeLoadBalanced_def ModeLoadAware_def ModeSessionKey_def ModeKVAware_def

datatype Policy = NoPolicy | PolicyRoundRobinV1 | PolicyLoadBalancedV1 | PolicyLoadAwareV1
  | PolicySessionKeyV1 | PolicyServiceFallbackV1 | PolicyKVAwareV1 | PolicyKVAwareStaticV1
  | PolicyKVAwareLoadAwareFallbackV1 | PolicyKVAwareLoadBalancedFallbackV2
  | PolicyKVAwareShortContextLoadAwareV1 | PolicyKVAwareShortContextLoadBalancedV2

datatype Reason = NoReason | ReasonSessionKeyHit | ReasonSessionKeyMiss | ReasonSessionKeySpillover
  | ReasonRoundRobin | ReasonLoadBalanced | ReasonLoadAware | ReasonMissingSessionKeyLoadBalanced
  | ReasonQueueDepth | ReasonLocalInflight | ReasonIneligible | ReasonCircuitOpen
  | ReasonDiscoveryFallback | ReasonCircuitFallback | ReasonStrategyFallback | ReasonBackendFallback
  | ReasonAdmissionCapacity | ReasonKVAware | ReasonKVAwareStatic | ReasonKVAwareStaticFallback
  | ReasonKVAwareSignalUnavailable | ReasonKVAwareHardOverloadFallback
  | ReasonKVAwareShortContextFallback

datatype routing_error =
    ErrUnsupportedMode string
  | ErrUnsupportedEstimator string
  | ErrNegativePenalty
  | ErrSessionKeyTTL
  | ErrSessionKeyMaxEntries
  | ErrSessionKeyDeltas
  | ErrServiceFallback backend_error
  | ErrDecisionBackend backend_error
  | ErrNoBackend string
  | ErrKVMatchesIncomplete
  | PanicDivideByZero

definition Mode_Validate :: "string \<Rightarrow> routing_error option" where
  "Mode_Validate m =
     (if m \<in> {[], ModeRoundRobin, ModeLoadBalanced, ModeLoadAware, ModeSessionKey, ModeKVAware}
      then None else Some (ErrUnsupportedMode m))"

subsection \<open>Configuration\<close>

record SessionKeyConfig =
  sk_TTL :: duration
  sk_MaxEntries :: int
  sk_InflightDelta :: int
  sk_QueueDepthDelta :: f64

definition KVAwareEstimatorTokenCost :: string where "KVAwareEstimatorTokenCost = ''token-cost''"
definition KVAwareEstimatorStatic :: string where "KVAwareEstimatorStatic = ''static-ttft''"

definition KVAwareEstimatorMode_Validate :: "string \<Rightarrow> routing_error option" where
  "KVAwareEstimatorMode_Validate m =
     (if m \<in> {[], KVAwareEstimatorTokenCost, KVAwareEstimatorStatic} then None
      else Some (ErrUnsupportedEstimator m))"

record KVAwareConfig =
  EstimatorMode :: string
  QueueTokenPenalty :: int
  RunningTokenPenalty :: int
  InflightTokenPenalty :: int

record routing_Config =
  rc_Mode :: string
  rc_Service :: Backend
  rc_SessionKey :: SessionKeyConfig
  rc_KVAware :: KVAwareConfig

definition KVAwareConfig_Validate :: "KVAwareConfig \<Rightarrow> routing_error option" where
  "KVAwareConfig_Validate c =
     (case KVAwareEstimatorMode_Validate (EstimatorMode c) of
        Some err \<Rightarrow> Some err
      | None \<Rightarrow> if QueueTokenPenalty c < 0 \<or> RunningTokenPenalty c < 0 \<or> InflightTokenPenalty c < 0
                then Some ErrNegativePenalty else None)"

definition SessionKeyConfig_Validate :: "SessionKeyConfig \<Rightarrow> routing_error option" where
  "SessionKeyConfig_Validate c =
     (if sk_TTL c \<le> 0 then Some ErrSessionKeyTTL
      else if sk_MaxEntries c \<le> 0 then Some ErrSessionKeyMaxEntries
      else if sk_InflightDelta c < 0 \<or> f_lt (sk_QueueDepthDelta c) (Fin 0) then Some ErrSessionKeyDeltas
      else None)"

definition routing_Config_Validate :: "url_parser \<Rightarrow> routing_Config \<Rightarrow> routing_error option" where
  "routing_Config_Validate url_parse c =
     (case Mode_Validate (rc_Mode c) of
        Some err \<Rightarrow> Some err
      | None \<Rightarrow>
          (case Backend_Validate url_parse (rc_Service c) of
             Some err \<Rightarrow> Some (ErrServiceFallback err)
           | None \<Rightarrow>
               if rc_Mode c = ModeSessionKey then SessionKeyConfig_Validate (rc_SessionKey c)
               else if rc_Mode c = ModeKVAware then KVAwareConfig_Validate (rc_KVAware c)
               else None))"

subsection \<open>Snapshot and decision\<close>

record Load =
  ld_QueueDepth :: int
  ld_Running :: int
  ld_LocalDelta :: int
  ld_RuntimeHardOverload :: bool
  ld_Valid :: bool
  ld_HardOverload :: bool

definition zero_Load :: Load where
  "zero_Load = \<lparr>ld_QueueDepth = 0, ld_Running = 0, ld_LocalDelta = 0,
     ld_RuntimeHardOverload = False, ld_Valid = False, ld_HardOverload = False\<rparr>"

definition EstimateConfidenceCalibrated :: string where "EstimateConfidenceCalibrated = ''calibrated''"
definition EstimateConfidenceDegraded :: string where "EstimateConfidenceDegraded = ''degraded''"
definition EstimateConfidenceUncalibrated :: string where "EstimateConfidenceUncalibrated = ''uncalibrated''"

record LatencyEstimate =
  le_TTFT :: duration
  le_Valid :: bool
  le_Confidence :: string
  le_Version :: string
  le_Reason :: string

definition zero_LatencyEstimate :: LatencyEstimate where
  "zero_LatencyEstimate = \<lparr>le_TTFT = 0, le_Valid = False, le_Confidence = [], le_Version = [], le_Reason = []\<rparr>"

record KVMatch =
  km_Valid :: bool
  km_MatchedTokens :: int

definition zero_KVMatch :: KVMatch where
  "zero_KVMatch = \<lparr>km_Valid = False, km_MatchedTokens = 0\<rparr>"

record KVAwareInput =
  ki_PromptTokens :: int
  ki_Matches :: "(ID, KVMatch) gomap"

record Snapshot =
  sn_Backends :: "Backend list"
  sn_Inflight :: "(ID, int) gomap"
  sn_Observations :: "(ID, Observed) gomap"
  sn_Ineligible :: "(ID, Reason) gomap"
  sn_Loads :: "(ID, Load) gomap"
  sn_KVAware :: KVAwareInput
  sn_Estimates :: "(ID, LatencyEstimate) gomap"

record Decision =
  dc_Backend :: Backend
  dc_PreferredBackendID :: ID
  dc_Reason :: Reason
  dc_SpilloverReason :: Reason
  dc_Policy :: Policy

definition zero_Decision :: Decision where
  "zero_Decision = \<lparr>dc_Backend = zero_Backend, dc_PreferredBackendID = [], dc_Reason = NoReason,
     dc_SpilloverReason = NoReason, dc_Policy = NoPolicy\<rparr>"

definition plain_decision :: "Backend \<Rightarrow> Reason \<Rightarrow> Policy \<Rightarrow> Decision" where
  "plain_decision b reason policy = \<lparr>dc_Backend = b, dc_PreferredBackendID = bID b,
     dc_Reason = reason, dc_SpilloverReason = NoReason, dc_Policy = policy\<rparr>"

definition Decision_Validate :: "url_parser \<Rightarrow> Decision \<Rightarrow> routing_error option" where
  "Decision_Validate url_parse d =
     (case Backend_Validate url_parse (dc_Backend d) of None \<Rightarrow> None | Some err \<Rightarrow> Some (ErrDecisionBackend err))"

definition UsableFor :: "KVAwareInput \<Rightarrow> Backend list \<Rightarrow> bool" where
  "UsableFor i backends =
     (if ki_PromptTokens i \<le> 0 \<or> backends = [] then False
      else list_all (\<lambda>candidate. case map_of (ki_Matches i) (bID candidate) of
             None \<Rightarrow> False
           | Some match \<Rightarrow> \<not> (\<not> km_Valid match \<or> km_MatchedTokens match < 0
               \<or> km_MatchedTokens match > ki_PromptTokens i)) backends)"

definition EligibleBackends :: "Snapshot \<Rightarrow> Backend list" where
  "EligibleBackends s = filter (\<lambda>candidate. \<not> mhas (sn_Ineligible s) (bID candidate)) (sn_Backends s)"

subsection \<open>Round-robin\<close>

definition round_robin_Select :: "64 word \<Rightarrow> string \<Rightarrow> Snapshot \<Rightarrow> (routing_error + Decision) \<times> 64 word" where
  "round_robin_Select cursor routingKey s =
     (let backends = EligibleBackends s
      in if backends = [] then (Inl (ErrNoBackend ModeRoundRobin), cursor)
         else let cursor' = cursor + 1;
                  selected = backends ! unat ((cursor' - 1) mod of_nat (length backends))
              in (Inr (plain_decision selected ReasonRoundRobin PolicyRoundRobinV1), cursor'))"

subsection \<open>Load-balanced\<close>

definition loadBalancedBackends :: "Snapshot \<Rightarrow> Backend list" where
  "loadBalancedBackends s =
     (let eligible = EligibleBackends s;
          available = filter (\<lambda>c. \<not> ld_HardOverload (mget zero_Load (sn_Loads s) (bID c))) eligible
      in if length available > 0 then available else eligible)"

definition completeObservedLoad :: "Backend list \<Rightarrow> (ID, Load) gomap \<Rightarrow> bool" where
  "completeObservedLoad backends loads =
     (if backends = [] then False
      else list_all (\<lambda>c. ld_Valid (mget zero_Load loads (bID c))) backends)"

definition localInflightLess :: "Backend \<Rightarrow> Backend \<Rightarrow> Snapshot \<Rightarrow> bool" where
  "localInflightLess candidate current s =
     (let candidateInflight = mget 0 (sn_Inflight s) (bID candidate);
          currentInflight = mget 0 (sn_Inflight s) (bID current)
      in if candidateInflight \<noteq> currentInflight then candidateInflight < currentInflight
         else bID candidate < bID current)"

definition load_balanced_Select :: "string \<Rightarrow> Snapshot \<Rightarrow> routing_error + Decision" where
  "load_balanced_Select routingKey s =
     (let backends = loadBalancedBackends s; n = length backends
      in if n = 0 then Inl (ErrNoBackend ModeLoadBalanced)
         else let hash = Sum256 (string_bytes routingKey); n32 = n mod 4294967296
              in if n32 = 0 then Inl PanicDivideByZero
                 else let start = unat (be_word (take 4 hash)) mod n32;
                          best = scan (\<lambda>c b. localInflightLess c b s) (backends ! start)
                                   (map (\<lambda>offset. backends ! ((start + offset) mod n)) [1..<n])
                      in Inr (plain_decision best ReasonLoadBalanced PolicyLoadBalancedV1))"

subsection \<open>Load-aware\<close>

definition observedLoadLess :: "Backend \<Rightarrow> Backend \<Rightarrow> Snapshot \<Rightarrow> bool" where
  "observedLoadLess candidate current s =
     (let candidateLoad = mget zero_Load (sn_Loads s) (bID candidate);
          currentLoad = mget zero_Load (sn_Loads s) (bID current)
      in if ld_QueueDepth candidateLoad \<noteq> ld_QueueDepth currentLoad
         then ld_QueueDepth candidateLoad < ld_QueueDepth currentLoad
         else if ld_Running candidateLoad \<noteq> ld_Running currentLoad
         then ld_Running candidateLoad < ld_Running currentLoad
         else if ld_LocalDelta candidateLoad \<noteq> ld_LocalDelta currentLoad
         then ld_LocalDelta candidateLoad < ld_LocalDelta currentLoad
         else localInflightLess candidate current s)"

definition load_aware_Select :: "string \<Rightarrow> Snapshot \<Rightarrow> routing_error + Decision" where
  "load_aware_Select routingKey s =
     (let backends = loadBalancedBackends s
      in if backends = [] then Inl (ErrNoBackend ModeLoadAware)
         else if \<not> completeObservedLoad backends (sn_Loads s) then load_balanced_Select routingKey s
         else Inr (plain_decision (scan (\<lambda>c b. observedLoadLess c b s) (hd backends) (tl backends))
                ReasonLoadAware PolicyLoadAwareV1))"

subsection \<open>The least-loaded backend\<close>

definition queueAvailableForAll :: "Snapshot \<Rightarrow> bool" where
  "queueAvailableForAll s =
     (if length (sn_Observations s) = 0 then False
      else list_all (\<lambda>b. case map_of (sn_Observations s) (bID b) of
             None \<Rightarrow> False | Some observation \<Rightarrow> smp_Valid (QueueLength observation)) (EligibleBackends s))"

definition queue_value :: "Snapshot \<Rightarrow> Backend \<Rightarrow> f64" where
  \<comment> \<open>\<open>snapshot.Observations[id].QueueLength.Value\<close>\<close>
  "queue_value s b = smp_Value (QueueLength (mget zero_Observed (sn_Observations s) (bID b)))"

definition lessLoaded :: "Backend \<Rightarrow> Backend \<Rightarrow> Snapshot \<Rightarrow> ID \<Rightarrow> bool \<Rightarrow> bool" where
  "lessLoaded candidate current s tieBreakerID useQueue =
     (let candidateQueue = queue_value s candidate; currentQueue = queue_value s current;
          candidateInflight = mget 0 (sn_Inflight s) (bID candidate);
          currentInflight = mget 0 (sn_Inflight s) (bID current)
      in if useQueue \<and> \<not> f_eq candidateQueue currentQueue then f_lt candidateQueue currentQueue
         else if candidateInflight \<noteq> currentInflight then candidateInflight < currentInflight
         else if bID candidate = tieBreakerID then True
         else if bID current = tieBreakerID then False
         else bID candidate < bID current)"

definition leastLoaded :: "Snapshot \<Rightarrow> ID \<Rightarrow> Backend" where
  \<comment> \<open>the callers have checked that some backend is eligible\<close>
  "leastLoaded s tieBreakerID =
     (let backends = EligibleBackends s; useQueue = queueAvailableForAll s
      in scan (\<lambda>c b. lessLoaded c b s tieBreakerID useQueue) (hd backends) (tl backends))"

subsection \<open>KV-aware\<close>

definition maximumKVAwareCost :: int where
  "maximumKVAwareCost = 9223372036854775807"

definition saturatingMultiply :: "int \<Rightarrow> int \<Rightarrow> int" where
  "saturatingMultiply count penalty =
     (if count \<le> 0 \<or> penalty \<le> 0 then 0
      else if count > quot64 maximumKVAwareCost penalty then maximumKVAwareCost
      else wrap64 (count * penalty))"

definition saturatingAdd :: "int \<Rightarrow> int \<Rightarrow> int" where
  "saturatingAdd left right =
     (if left \<ge> wrap64 (maximumKVAwareCost - right) then maximumKVAwareCost
      else wrap64 (left + right))"

definition kvAwareCost :: "Backend \<Rightarrow> Snapshot \<Rightarrow> KVAwareConfig \<Rightarrow> int" where
  "kvAwareCost candidate s config =
     (let match = mget zero_KVMatch (ki_Matches (sn_KVAware s)) (bID candidate);
          cost0 = wrap64 (ki_PromptTokens (sn_KVAware s) - km_MatchedTokens match);
          load = mget zero_Load (sn_Loads s) (bID candidate)
      in if ld_Valid load
         then let cost1 = saturatingAdd cost0 (saturatingMultiply (ld_QueueDepth load) (QueueTokenPenalty config));
                  cost2 = saturatingAdd cost1 (saturatingMultiply (ld_Running load) (RunningTokenPenalty config))
              in saturatingAdd cost2 (saturatingMultiply (ld_LocalDelta load) (InflightTokenPenalty config))
         else saturatingAdd cost0
                (saturatingMultiply (mget 0 (sn_Inflight s) (bID candidate)) (InflightTokenPenalty config)))"

definition kvAwareLess :: "Backend \<Rightarrow> Backend \<Rightarrow> Snapshot \<Rightarrow> KVAwareConfig \<Rightarrow> bool" where
  "kvAwareLess candidate current s config =
     (let candidateCost = kvAwareCost candidate s config; currentCost = kvAwareCost current s config
      in if candidateCost \<noteq> currentCost then candidateCost < currentCost
         else bID candidate < bID current)"

definition withoutHardOverload :: "Backend list \<Rightarrow> (ID, Load) gomap \<Rightarrow> Backend list" where
  "withoutHardOverload backends loads =
     filter (\<lambda>c. \<not> ld_HardOverload (mget zero_Load loads (bID c))) backends"

definition staticEstimatesUsable :: "Backend list \<Rightarrow> (ID, LatencyEstimate) gomap \<Rightarrow> bool" where
  "staticEstimatesUsable backends estimates \<longleftrightarrow>
     list_all (\<lambda>c. case map_of estimates (bID c) of
         None \<Rightarrow> False
       | Some e \<Rightarrow> \<not> (\<not> le_Valid e \<or> le_TTFT e \<le> 0 \<or> le_Version e = []
           \<or> le_Confidence e = EstimateConfidenceUncalibrated)) backends
     \<and> length backends > 0"

definition staticEstimateLess :: "Backend \<Rightarrow> Backend \<Rightarrow> (ID, LatencyEstimate) gomap \<Rightarrow> bool" where
  "staticEstimateLess candidate current estimates =
     (let candidateTTFT = le_TTFT (mget zero_LatencyEstimate estimates (bID candidate));
          currentTTFT = le_TTFT (mget zero_LatencyEstimate estimates (bID current))
      in if candidateTTFT \<noteq> currentTTFT then candidateTTFT < currentTTFT
         else bID candidate < bID current)"

definition kv_aware_Select :: "KVAwareConfig \<Rightarrow> string \<Rightarrow> Snapshot \<Rightarrow> routing_error + Decision" where
  "kv_aware_Select config routingKey s =
     (let eligible = EligibleBackends s
      in if eligible = [] then Inl (ErrNoBackend ModeKVAware)
         else if \<not> UsableFor (sn_KVAware s) eligible then Inl ErrKVMatchesIncomplete
         else
           let candidates = withoutHardOverload eligible (sn_Loads s)
           in if candidates = []
              then Inr (plain_decision (leastLoaded s []) ReasonKVAwareHardOverloadFallback PolicyKVAwareV1)
              else if EstimatorMode config = KVAwareEstimatorStatic
                      \<and> staticEstimatesUsable candidates (sn_Estimates s)
              then Inr (plain_decision
                     (scan (\<lambda>c b. staticEstimateLess c b (sn_Estimates s)) (hd candidates) (tl candidates))
                     ReasonKVAwareStatic PolicyKVAwareStaticV1)
              else Inr (plain_decision
                     (scan (\<lambda>c b. kvAwareLess c b s config) (hd candidates) (tl candidates))
                     (if EstimatorMode config = KVAwareEstimatorStatic then ReasonKVAwareStaticFallback
                      else ReasonKVAware) PolicyKVAwareV1))"

subsection \<open>The comparators are orders of a key\<close>

definition inflight_key :: "Snapshot \<Rightarrow> Backend \<Rightarrow> int \<times> ID" where
  "inflight_key s b = (mget 0 (sn_Inflight s) (bID b), bID b)"

definition observed_key :: "Snapshot \<Rightarrow> Backend \<Rightarrow> int \<times> int \<times> int \<times> int \<times> ID" where
  "observed_key s b =
     (let l = mget zero_Load (sn_Loads s) (bID b)
      in (ld_QueueDepth l, ld_Running l, ld_LocalDelta l, inflight_key s b))"

definition cost_key :: "Snapshot \<Rightarrow> KVAwareConfig \<Rightarrow> Backend \<Rightarrow> int \<times> ID" where
  "cost_key s config b = (kvAwareCost b s config, bID b)"

definition estimate_key :: "(ID, LatencyEstimate) gomap \<Rightarrow> Backend \<Rightarrow> duration \<times> ID" where
  "estimate_key estimates b = (le_TTFT (mget zero_LatencyEstimate estimates (bID b)), bID b)"

definition f_rank :: "f64 \<Rightarrow> int \<times> rat" where
  "f_rank x = (case x of NInf \<Rightarrow> (0, 0) | Fin r \<Rightarrow> (1, r) | PInf \<Rightarrow> (2, 0) | NaN \<Rightarrow> (3, 0))"

definition least_key :: "Snapshot \<Rightarrow> ID \<Rightarrow> bool \<Rightarrow> Backend \<Rightarrow> (int \<times> rat) \<times> int \<times> int \<times> ID" where
  "least_key s tie useQueue b =
     (if useQueue then f_rank (queue_value s b) else (0, 0),
      mget 0 (sn_Inflight s) (bID b), if bID b = tie then 0 else 1, bID b)"

definition queue_known :: "Snapshot \<Rightarrow> bool \<Rightarrow> Backend \<Rightarrow> bool" where
  "queue_known s useQueue b \<longleftrightarrow> (useQueue \<longrightarrow> \<not> is_NaN (queue_value s b))"

lemma f_rank_less: "\<not> is_NaN a \<Longrightarrow> \<not> is_NaN b \<Longrightarrow> f_rank a < f_rank b \<longleftrightarrow> f_lt a b"
  by (cases a; cases b) (simp_all add: f_rank_def is_NaN_def)

lemma f_rank_eq: "\<not> is_NaN a \<Longrightarrow> \<not> is_NaN b \<Longrightarrow> f_rank a = f_rank b \<longleftrightarrow> f_eq a b"
  by (cases a; cases b) (simp_all add: f_rank_def is_NaN_def)

interpretation inflight: keyed_less "\<lambda>c b. localInflightLess c b s" "inflight_key s" "\<lambda>_. True" for s
  by unfold_locales (auto simp: localInflightLess_def inflight_key_def Let_def split: if_splits)

interpretation observed: keyed_less "\<lambda>c b. observedLoadLess c b s" "observed_key s" "\<lambda>_. True" for s
  by unfold_locales
    (auto simp: observedLoadLess_def localInflightLess_def observed_key_def inflight_key_def Let_def
      split: if_splits)

interpretation cost: keyed_less "\<lambda>c b. kvAwareLess c b s config" "cost_key s config" "\<lambda>_. True" for s config
  by unfold_locales (auto simp: kvAwareLess_def cost_key_def Let_def split: if_splits)

interpretation estimate: keyed_less "\<lambda>c b. staticEstimateLess c b es" "estimate_key es" "\<lambda>_. True" for es
  by unfold_locales (auto simp: staticEstimateLess_def estimate_key_def Let_def split: if_splits)

interpretation least: keyed_less "\<lambda>c b. lessLoaded c b s tie useQueue" "least_key s tie useQueue"
  "queue_known s useQueue" for s tie useQueue
proof unfold_locales
  fix a b :: Backend
  assume dom: "queue_known s useQueue a" "queue_known s useQueue b"
  then have rank: "useQueue \<Longrightarrow> f_rank (queue_value s a) < f_rank (queue_value s b) \<longleftrightarrow> f_lt (queue_value s a) (queue_value s b)"
      "useQueue \<Longrightarrow> f_rank (queue_value s a) = f_rank (queue_value s b) \<longleftrightarrow> f_eq (queue_value s a) (queue_value s b)"
    by (simp_all add: queue_known_def f_rank_less f_rank_eq)
  show "lessLoaded a b s tie useQueue" if "least_key s tie useQueue a < least_key s tie useQueue b"
    using that rank by (auto simp: lessLoaded_def least_key_def Let_def split: if_splits)
  show "least_key s tie useQueue a \<le> least_key s tie useQueue b" if "lessLoaded a b s tie useQueue"
    using that rank by (auto simp: lessLoaded_def least_key_def Let_def less_prod_def split: if_splits)
qed

subsection \<open>Candidate sets\<close>

lemma EligibleBackends_subset: "set (EligibleBackends s) \<subseteq> set (sn_Backends s)"
  by (auto simp: EligibleBackends_def)

lemma mem_EligibleBackends:
  "b \<in> set (EligibleBackends s) \<longleftrightarrow> b \<in> set (sn_Backends s) \<and> \<not> mhas (sn_Ineligible s) (bID b)"
  by (simp add: EligibleBackends_def)

lemma loadBalancedBackends_subset: "set (loadBalancedBackends s) \<subseteq> set (EligibleBackends s)"
  by (auto simp: loadBalancedBackends_def Let_def)

lemma loadBalancedBackends_Nil [simp]: "loadBalancedBackends s = [] \<longleftrightarrow> EligibleBackends s = []"
  by (auto simp: loadBalancedBackends_def Let_def)

lemma mem_loadBalancedBackends:
  "b \<in> set (loadBalancedBackends s) \<longleftrightarrow> b \<in> set (EligibleBackends s)
     \<and> (ld_HardOverload (mget zero_Load (sn_Loads s) (bID b)) \<longrightarrow>
        (\<forall>c \<in> set (EligibleBackends s). ld_HardOverload (mget zero_Load (sn_Loads s) (bID c))))"
  by (auto simp: loadBalancedBackends_def Let_def filter_empty_conv)

text \<open>The circular walk from any start visits every backend.\<close>

lemma rotation_set:
  assumes "start < length xs"
  shows "set (xs ! start # map (\<lambda>offset. xs ! ((start + offset) mod length xs)) [1..<length xs]) = set xs"
proof -
  define n where "n = length xs"
  have "insert (start mod n) ((\<lambda>i. (start + i) mod n) ` {1..<n}) = {..<n}"
  proof
    show "{..<n} \<subseteq> insert (start mod n) ((\<lambda>i. (start + i) mod n) ` {1..<n})"
    proof
      fix j assume "j \<in> {..<n}"
      then have j: "j < n" by simp
      define i where "i = (j + (n - start)) mod n"
      have "(start + i) mod n = (start + (j + (n - start))) mod n" by (simp add: i_def mod_add_right_eq)
      also have "start + (j + (n - start)) = j + n" using assms n_def by simp
      finally have "(start + i) mod n = j" using j by simp
      moreover have "i < n" using j i_def by simp
      ultimately show "j \<in> insert (start mod n) ((\<lambda>i. (start + i) mod n) ` {1..<n})"
        by (cases "i = 0") (auto intro!: image_eqI [where x = i])
    qed
  qed (use assms n_def in \<open>auto intro!: mod_less_divisor\<close>)
  then have "(!) xs ` insert (start mod n) ((\<lambda>i. (start + i) mod n) ` {1..<n}) = (!) xs ` {..<n}" by simp
  moreover have "(!) xs ` {..<n} = set xs" by (auto simp: n_def in_set_conv_nth)
  ultimately show ?thesis using assms by (simp add: n_def image_image)
qed

lemma load_balanced_scan:
  assumes "EligibleBackends s \<noteq> []" and "length (sn_Backends s) < 4294967296"
  obtains x xs where "set (x # xs) = set (loadBalancedBackends s)"
    and "load_balanced_Select k s =
       Inr (plain_decision (scan (\<lambda>c b. localInflightLess c b s) x xs) ReasonLoadBalanced PolicyLoadBalancedV1)"
proof -
  let ?n = "length (loadBalancedBackends s)"
  have "?n \<le> length (sn_Backends s)"
    by (auto simp: loadBalancedBackends_def EligibleBackends_def Let_def
        intro: order_trans [OF length_filter_le])
  then have small: "?n mod 4294967296 = ?n" using assms(2) by simp
  define start where "start = unat (be_word (take 4 (Sum256 (string_bytes k)))) mod ?n"
  have pos: "0 < ?n" using assms(1) by simp
  then have "start < ?n" by (simp add: start_def)
  from rotation_set [OF this] show thesis
    by (rule that) (use pos in \<open>simp add: load_balanced_Select_def Let_def small start_def\<close>)
qed

subsection \<open>Saturating arithmetic\<close>

lemma maximumKVAwareCost_eq: "maximumKVAwareCost = max_int64"
  by (simp add: maximumKVAwareCost_def max_int64_def)

lemma saturatingMultiply_eq: "saturatingMultiply c p = min max_int64 (max 0 c * max 0 p)"
proof (cases "c \<le> 0 \<or> p \<le> 0")
  case False
  then have pos: "0 < c" "0 < p" by auto
  have div: "quot64 max_int64 p = max_int64 div p"
    using pos by (intro quot64_pos) (simp_all add: max_int64_def)
  have "c > max_int64 div p \<longleftrightarrow> c * p > max_int64"
    by (rule div_less_iff [OF pos(2)])
  moreover have "in_int64 (c * p)" if "c * p \<le> max_int64"
  proof -
    have "0 < c * p" using pos by simp
    then show ?thesis using that unfolding in_int64_def min_int64_def by linarith
  qed
  ultimately show ?thesis
    using pos by (auto simp: saturatingMultiply_def div maximumKVAwareCost_eq min_def not_less)
qed (auto simp: saturatingMultiply_def max_int64_def max_def)

lemma saturatingAdd_eq:
  assumes "0 \<le> a" "a \<le> max_int64" "0 \<le> b" "b \<le> max_int64"
  shows "saturatingAdd a b = min max_int64 (a + b)"
proof -
  have "wrap64 (max_int64 - b) = max_int64 - b"
    using assms by (intro wrap64_id) (simp add: in_int64_def min_int64_def max_int64_def)
  moreover have "wrap64 (a + b) = a + b" if "a + b \<le> max_int64"
    using assms that by (intro wrap64_id) (simp add: in_int64_def min_int64_def)
  ultimately show ?thesis by (auto simp: saturatingAdd_def maximumKVAwareCost_eq)
qed

definition exact_cost :: "Backend \<Rightarrow> Snapshot \<Rightarrow> KVAwareConfig \<Rightarrow> int" where
  \<comment> \<open>the documented formula over unbounded integers\<close>
  "exact_cost b s config =
     (let uncached = ki_PromptTokens (sn_KVAware s) - km_MatchedTokens (mget zero_KVMatch (ki_Matches (sn_KVAware s)) (bID b));
          load = mget zero_Load (sn_Loads s) (bID b)
      in uncached +
         (if ld_Valid load
          then max 0 (ld_QueueDepth load) * QueueTokenPenalty config
             + max 0 (ld_Running load) * RunningTokenPenalty config
             + max 0 (ld_LocalDelta load) * InflightTokenPenalty config
          else max 0 (mget 0 (sn_Inflight s) (bID b)) * InflightTokenPenalty config))"

lemma saturated_sum:
  "0 \<le> a \<Longrightarrow> 0 \<le> b \<Longrightarrow> saturatingAdd (min max_int64 a) (min max_int64 b) = min max_int64 (a + b)"
  by (subst saturatingAdd_eq) (auto simp: max_int64_def)

lemma UsableFor_match:
  assumes "UsableFor i bs" and "b \<in> set bs"
  shows "0 \<le> km_MatchedTokens (mget zero_KVMatch (ki_Matches i) (bID b))
    \<and> km_MatchedTokens (mget zero_KVMatch (ki_Matches i) (bID b)) \<le> ki_PromptTokens i
    \<and> km_Valid (mget zero_KVMatch (ki_Matches i) (bID b))"
  using assms by (auto simp: UsableFor_def list_all_iff mget_def split: if_splits option.splits)

lemma kvAwareCost_eq:
  assumes use: "UsableFor (sn_KVAware s) (EligibleBackends s)" and b: "b \<in> set (EligibleBackends s)"
    and prompt: "ki_PromptTokens (sn_KVAware s) \<le> max_int64"
    and cfg: "KVAwareConfig_Validate config = None"
  shows "kvAwareCost b s config = min max_int64 (exact_cost b s config)"
proof -
  define uncached where "uncached = ki_PromptTokens (sn_KVAware s)
    - km_MatchedTokens (mget zero_KVMatch (ki_Matches (sn_KVAware s)) (bID b))"
  have u: "0 \<le> uncached" "uncached \<le> max_int64"
    using UsableFor_match [OF use b] prompt by (simp_all add: uncached_def)
  then have w: "wrap64 uncached = min max_int64 uncached"
    by (subst wrap64_id) (simp_all add: in_int64_def min_int64_def)
  have p: "max 0 (QueueTokenPenalty config) = QueueTokenPenalty config"
    "max 0 (RunningTokenPenalty config) = RunningTokenPenalty config"
    "max 0 (InflightTokenPenalty config) = InflightTokenPenalty config"
    "0 \<le> QueueTokenPenalty config" "0 \<le> RunningTokenPenalty config" "0 \<le> InflightTokenPenalty config"
    using cfg by (auto simp: KVAwareConfig_Validate_def split: option.splits if_splits)
  show ?thesis
    unfolding kvAwareCost_def exact_cost_def Let_def uncached_def [symmetric] w saturatingMultiply_eq p
    using u(1) p(4-6) by (simp add: saturated_sum add.assoc)
qed

subsection \<open>What the strategies return\<close>

lemma scan_hd_tl: "xs \<noteq> [] \<Longrightarrow> scan lt (hd xs) (tl xs) \<in> set xs"
  using scan_in_set [of lt "hd xs" "tl xs"] by simp

lemma hd_tl_set: "xs \<noteq> [] \<Longrightarrow> set (hd xs # tl xs) = set xs"
  by simp

lemma candidates_subset: "set (withoutHardOverload bs loads) \<subseteq> set bs"
  by (auto simp: withoutHardOverload_def)

lemma mem_withoutHardOverload:
  "b \<in> set (withoutHardOverload bs loads) \<longleftrightarrow> b \<in> set bs \<and> \<not> ld_HardOverload (mget zero_Load loads (bID b))"
  by (auto simp: withoutHardOverload_def)

lemma leastLoaded_eligible: "EligibleBackends s \<noteq> [] \<Longrightarrow> leastLoaded s tie \<in> set (EligibleBackends s)"
  by (simp add: leastLoaded_def Let_def scan_hd_tl)

lemma load_balanced_member:
  assumes "load_balanced_Select k s = Inr d"
  shows "dc_Backend d \<in> set (loadBalancedBackends s)"
proof -
  define bs where "bs = loadBalancedBackends s"
  define start where "start = unat (be_word (take 4 (Sum256 (string_bytes k)))) mod (length bs mod 4294967296)"
  let ?walk = "map (\<lambda>offset. bs ! ((start + offset) mod length bs)) [1..<length bs]"
  from assms have n: "length bs \<noteq> 0" "length bs mod 4294967296 \<noteq> 0"
    and d: "dc_Backend d = scan (\<lambda>c b. localInflightLess c b s) (bs ! start) ?walk"
    by (auto simp: load_balanced_Select_def Let_def bs_def start_def plain_decision_def split: if_splits)
  have "start < length bs mod 4294967296" unfolding start_def using n(2) by (intro mod_less_divisor) simp
  also have "\<dots> \<le> length bs" by (rule mod_less_eq_dividend)
  finally have "start < length bs" .
  from rotation_set [OF this] d show ?thesis unfolding bs_def [symmetric] by (metis scan_in_set)
qed

lemma load_aware_member: "load_aware_Select k s = Inr d \<Longrightarrow> dc_Backend d \<in> set (loadBalancedBackends s)"
  by (auto simp: load_aware_Select_def Let_def plain_decision_def load_balanced_member scan_hd_tl
      split: if_splits)

lemma UsableFor_nonempty: "UsableFor i bs \<Longrightarrow> bs \<noteq> []"
  by (auto simp: UsableFor_def)

lemma kv_aware_member:
  assumes "kv_aware_Select config k s = Inr d"
  shows "dc_Backend d \<in> set (loadBalancedBackends s)"
proof -
  define C where "C = withoutHardOverload (EligibleBackends s) (sn_Loads s)"
  have lb: "loadBalancedBackends s = (if C = [] then EligibleBackends s else C)"
    by (simp add: loadBalancedBackends_def withoutHardOverload_def Let_def C_def)
  have ne: "EligibleBackends s \<noteq> []" using assms by (auto simp: kv_aware_Select_def)
  show ?thesis
  proof (cases "C = []")
    case True
    then have "dc_Backend d = leastLoaded s []" using assms
      by (simp add: kv_aware_Select_def Let_def C_def [symmetric] split: if_splits)
        (auto simp: plain_decision_def)
    with True ne show ?thesis by (simp add: lb leastLoaded_eligible)
  next
    case False
    then have "dc_Backend d \<in> {scan (\<lambda>c b. staticEstimateLess c b (sn_Estimates s)) (hd C) (tl C),
        scan (\<lambda>c b. kvAwareLess c b s config) (hd C) (tl C)}" using assms
      by (simp add: kv_aware_Select_def Let_def C_def [symmetric] split: if_splits)
        (simp_all add: plain_decision_def, auto)
    with False show ?thesis by (auto simp: lb scan_hd_tl)
  qed
qed

lemma inj_ID_key:
  assumes "distinct (map bID (sn_Backends s))" and "xs \<subseteq> set (sn_Backends s)"
    and "\<And>a b. key a = key b \<Longrightarrow> bID a = bID b"
  shows "inj_on key xs"
proof -
  have "inj_on bID (set (sn_Backends s))" using assms(1) by (simp add: distinct_map)
  then have inj: "inj_on bID xs" using assms(2) by (rule inj_on_subset)
  show ?thesis by (rule inj_onI, rule inj_onD [OF inj], erule assms(3))
qed

lemma bID_of_keys:
  "inflight_key s a = inflight_key s b \<Longrightarrow> bID a = bID b"
  "observed_key s a = observed_key s b \<Longrightarrow> bID a = bID b"
  "cost_key s config a = cost_key s config b \<Longrightarrow> bID a = bID b"
  "estimate_key es a = estimate_key es b \<Longrightarrow> bID a = bID b"
  "least_key s tie useQueue a = least_key s tie useQueue b \<Longrightarrow> bID a = bID b"
  by (simp_all add: inflight_key_def observed_key_def cost_key_def estimate_key_def least_key_def Let_def)

subsection \<open>Properties\<close>

definition wit_b1 :: Backend where "wit_b1 = \<lparr>bID = ''a'', bURL = ''http://a:80'', bMetadata = []\<rparr>"
definition wit_b2 :: Backend where "wit_b2 = \<lparr>bID = ''b'', bURL = ''http://b:80'', bMetadata = []\<rparr>"

definition wit_load :: "int \<Rightarrow> Load" where
  "wit_load q = zero_Load\<lparr>ld_QueueDepth := q, ld_Valid := True\<rparr>"

definition wit_snapshot :: Snapshot where
  "wit_snapshot = \<lparr>sn_Backends = [wit_b1, wit_b2], sn_Inflight = [(''a'', 1)], sn_Observations = [],
     sn_Ineligible = [], sn_Loads = [(''a'', wit_load 3), (''b'', wit_load 1)],
     sn_KVAware = \<lparr>ki_PromptTokens = 100, ki_Matches =
       [(''a'', \<lparr>km_Valid = True, km_MatchedTokens = 64\<rparr>), (''b'', \<lparr>km_Valid = True, km_MatchedTokens = 0\<rparr>)]\<rparr>,
     sn_Estimates = []\<rparr>"

definition wit_kv_config :: KVAwareConfig where
  "wit_kv_config = \<lparr>EstimatorMode = [], QueueTokenPenalty = 16, RunningTokenPenalty = 4, InflightTokenPenalty = 8\<rparr>"

lemmas wit_routing_defs = wit_b1_def wit_b2_def wit_load_def wit_snapshot_def wit_kv_config_def

lemma wit_candidates [simp]:
  "EligibleBackends wit_snapshot = [wit_b1, wit_b2]"
  "loadBalancedBackends wit_snapshot = [wit_b1, wit_b2]"
  "withoutHardOverload [wit_b1, wit_b2] (sn_Loads wit_snapshot) = [wit_b1, wit_b2]"
  "completeObservedLoad [wit_b1, wit_b2] (sn_Loads wit_snapshot)"
  "UsableFor (sn_KVAware wit_snapshot) [wit_b1, wit_b2]"
  "KVAwareConfig_Validate wit_kv_config = None"
  by (simp_all add: EligibleBackends_def loadBalancedBackends_def withoutHardOverload_def Let_def mhas_def
      completeObservedLoad_def UsableFor_def KVAwareConfig_Validate_def KVAwareEstimatorMode_Validate_def
      wit_routing_defs mget_def zero_Load_def)

text \<open>
  C15. With a valid token-cost configuration and a usable KV projection, the KV-aware strategy
  selects, among the eligible backends that are not hard-overloaded, the least in the order
  (cost, ID), where the cost is the documented formula over unbounded integers (uncached tokens
  plus penalties for queued, running and locally added requests, or for the local in-flight count
  when the external load is unknown) capped at the largest \<open>int64\<close>: no overflow changes the choice.
\<close>

theorem kv_aware_least_cost:
  assumes "KVAwareConfig_Validate config = None" and "EstimatorMode config \<noteq> KVAwareEstimatorStatic"
    and "UsableFor (sn_KVAware s) (EligibleBackends s)" and "ki_PromptTokens (sn_KVAware s) \<le> max_int64"
    and "withoutHardOverload (EligibleBackends s) (sn_Loads s) \<noteq> []"
  shows "\<exists>b \<in> set (withoutHardOverload (EligibleBackends s) (sn_Loads s)).
      kv_aware_Select config k s = Inr (plain_decision b ReasonKVAware PolicyKVAwareV1)
      \<and> (\<forall>c \<in> set (withoutHardOverload (EligibleBackends s) (sn_Loads s)).
           (min max_int64 (exact_cost b s config), bID b) \<le> (min max_int64 (exact_cost c s config), bID c))"
proof -
  let ?c = "withoutHardOverload (EligibleBackends s) (sn_Loads s)"
  let ?b = "scan (\<lambda>c b. kvAwareLess c b s config) (hd ?c) (tl ?c)"
  have cost: "cost_key s config x = (min max_int64 (exact_cost x s config), bID x)" if "x \<in> set ?c" for x
    using that kvAwareCost_eq [OF assms(3) _ assms(4,1)] by (auto simp: cost_key_def withoutHardOverload_def)
  have b: "?b \<in> set ?c" using assms(5) by (rule scan_hd_tl)
  have "cost_key s config ?b \<le> cost_key s config c" if "c \<in> set ?c" for c
    using that assms(5) by (intro cost.scan_least) (auto simp: list_all_iff)
  then have "\<forall>c \<in> set ?c. (min max_int64 (exact_cost ?b s config), bID ?b) \<le> (min max_int64 (exact_cost c s config), bID c)"
    using cost b by metis
  moreover have "kv_aware_Select config k s = Inr (plain_decision ?b ReasonKVAware PolicyKVAwareV1)"
    using assms(2,3,5) UsableFor_nonempty [OF assms(3)] by (simp add: kv_aware_Select_def Let_def)
  ultimately show ?thesis using b by blast
qed

theorem kv_aware_least_cost_witness:
  "kv_aware_Select wit_kv_config ''k'' wit_snapshot = Inr (plain_decision wit_b1 ReasonKVAware PolicyKVAwareV1)"
proof -
  have cost: "exact_cost wit_b1 wit_snapshot wit_kv_config = 84"
    "exact_cost wit_b2 wit_snapshot wit_kv_config = 116"
    by (simp_all add: exact_cost_def wit_routing_defs mget_def Let_def zero_Load_def)
  have "EstimatorMode wit_kv_config \<noteq> KVAwareEstimatorStatic"
    "ki_PromptTokens (sn_KVAware wit_snapshot) \<le> max_int64"
    by (simp_all add: wit_routing_defs KVAwareEstimatorStatic_def max_int64_def)
  with kv_aware_least_cost [of wit_kv_config wit_snapshot "''k''"]
  show ?thesis by (auto simp: cost max_int64_def)
qed

text \<open>
  The KV-aware strategy never guesses missing signals: it reports an incomplete projection
  exactly when some eligible backend has no valid match within the prompt (or the prompt is
  empty), reports that there is no backend exactly when none is eligible, and returns a decision
  in every other case.
\<close>

theorem kv_aware_outcome:
  "(kv_aware_Select config k s = Inl (ErrNoBackend ModeKVAware) \<longleftrightarrow> EligibleBackends s = [])
   \<and> (kv_aware_Select config k s = Inl ErrKVMatchesIncomplete \<longleftrightarrow>
       EligibleBackends s \<noteq> [] \<and> (ki_PromptTokens (sn_KVAware s) \<le> 0 \<or>
         (\<exists>b \<in> set (EligibleBackends s).
            \<nexists>m. map_of (ki_Matches (sn_KVAware s)) (bID b) = Some m \<and> km_Valid m
              \<and> 0 \<le> km_MatchedTokens m \<and> km_MatchedTokens m \<le> ki_PromptTokens (sn_KVAware s))))
   \<and> ((\<exists>d. kv_aware_Select config k s = Inr d) \<longleftrightarrow>
       EligibleBackends s \<noteq> [] \<and> UsableFor (sn_KVAware s) (EligibleBackends s))"
proof -
  have usable: "UsableFor i bs \<longleftrightarrow> 0 < ki_PromptTokens i \<and> bs \<noteq> [] \<and>
     (\<forall>b \<in> set bs. \<exists>m. map_of (ki_Matches i) (bID b) = Some m \<and> km_Valid m
       \<and> 0 \<le> km_MatchedTokens m \<and> km_MatchedTokens m \<le> ki_PromptTokens i)" for i bs
    by (auto simp: UsableFor_def list_all_iff not_less split: option.splits)
  have e: "kv_aware_Select config k s =
      (if EligibleBackends s = [] then Inl (ErrNoBackend ModeKVAware)
       else if \<not> UsableFor (sn_KVAware s) (EligibleBackends s) then Inl ErrKVMatchesIncomplete
       else Inr (projr (kv_aware_Select config k s)))"
    by (simp add: kv_aware_Select_def Let_def)
  show ?thesis
    by (subst (1 2 3) e) (auto simp: usable)
qed

text \<open>
  C16. The load-sensitive strategies only ever select an eligible backend, and select a
  hard-overloaded one only if every eligible backend is hard-overloaded.
\<close>

theorem hard_overload_avoided:
  assumes "load_balanced_Select k s = Inr d \<or> load_aware_Select k s = Inr d
    \<or> kv_aware_Select config k s = Inr d"
  shows "dc_Backend d \<in> set (sn_Backends s) \<and> map_of (sn_Ineligible s) (bID (dc_Backend d)) = None
    \<and> (ld_HardOverload (mget zero_Load (sn_Loads s) (bID (dc_Backend d))) \<longrightarrow>
        (\<forall>c \<in> set (EligibleBackends s). ld_HardOverload (mget zero_Load (sn_Loads s) (bID c))))"
proof -
  have "dc_Backend d \<in> set (loadBalancedBackends s)"
    using assms by (metis load_balanced_member load_aware_member kv_aware_member)
  then show ?thesis by (simp add: mem_loadBalancedBackends mem_EligibleBackends mhas_def)
qed

lemma wit_load_aware:
  "load_aware_Select ''k'' wit_snapshot = Inr (plain_decision wit_b2 ReasonLoadAware PolicyLoadAwareV1)"
proof -
  have "scan (\<lambda>c b. observedLoadLess c b wit_snapshot) wit_b1 [wit_b2] = wit_b2"
    by (simp add: scan_def observedLoadLess_def wit_routing_defs mget_def Let_def zero_Load_def)
  then show ?thesis by (simp add: load_aware_Select_def Let_def)
qed

theorem hard_overload_avoided_witness:
  "wit_b2 \<in> set (sn_Backends wit_snapshot) \<and> map_of (sn_Ineligible wit_snapshot) (bID wit_b2) = None"
  using hard_overload_avoided [of "''k''" wit_snapshot, OF disjI2 [OF disjI1 [OF wit_load_aware]]]
  by (simp add: plain_decision_def)

text \<open>
  With complete observations the load-aware strategy selects a backend that is least in the
  lexicographic order (queue depth, running, local delta, local in-flight, ID) among the
  non-overloaded candidates; with an incomplete observation it returns what the load-balanced
  strategy returns, and never reads a missing sample as zero load.
\<close>

theorem load_aware_spec:
  assumes "EligibleBackends s \<noteq> []"
  shows "if completeObservedLoad (loadBalancedBackends s) (sn_Loads s)
    then \<exists>b \<in> set (loadBalancedBackends s).
      load_aware_Select k s = Inr (plain_decision b ReasonLoadAware PolicyLoadAwareV1)
      \<and> (\<forall>c \<in> set (loadBalancedBackends s). observed_key s b \<le> observed_key s c)
    else load_aware_Select k s = load_balanced_Select k s"
proof -
  let ?c = "loadBalancedBackends s"
  let ?b = "scan (\<lambda>c b. observedLoadLess c b s) (hd ?c) (tl ?c)"
  have "?b \<in> set ?c" using assms by (intro scan_hd_tl) simp
  moreover have "observed_key s ?b \<le> observed_key s c" if "c \<in> set ?c" for c
    using that assms by (intro observed.scan_least) (auto simp: list_all_iff)
  moreover have "load_aware_Select k s = Inr (plain_decision ?b ReasonLoadAware PolicyLoadAwareV1)"
    if "completeObservedLoad ?c (sn_Loads s)"
    using that assms by (simp add: load_aware_Select_def Let_def)
  moreover have "load_aware_Select k s = load_balanced_Select k s"
    if "\<not> completeObservedLoad ?c (sn_Loads s)"
    using that assms by (simp add: load_aware_Select_def Let_def)
  ultimately show ?thesis by auto
qed

theorem load_aware_spec_witness:
  "\<exists>b \<in> set [wit_b1, wit_b2].
      load_aware_Select ''k'' wit_snapshot = Inr (plain_decision b ReasonLoadAware PolicyLoadAwareV1)
      \<and> (\<forall>c \<in> set [wit_b1, wit_b2]. observed_key wit_snapshot b \<le> observed_key wit_snapshot c)"
  using load_aware_spec [of wit_snapshot "''k''"] by simp

lemma loadBalanced_inj:
  "distinct (map bID (sn_Backends s)) \<Longrightarrow> (\<And>a b. key a = key b \<Longrightarrow> bID a = bID b) \<Longrightarrow>
     inj_on key (set (loadBalancedBackends s))"
  by (rule inj_ID_key [OF _ order_trans [OF loadBalancedBackends_subset EligibleBackends_subset]])

lemma load_balanced_eq:
  assumes "distinct (map bID (sn_Backends s))" and "length (sn_Backends s) < 4294967296"
    and "EligibleBackends s \<noteq> []"
  shows "load_balanced_Select k s = Inr (plain_decision
     (scan (\<lambda>c b. localInflightLess c b s) (hd (loadBalancedBackends s)) (tl (loadBalancedBackends s)))
     ReasonLoadBalanced PolicyLoadBalancedV1)"
proof -
  let ?lt = "\<lambda>c b. localInflightLess c b s" and ?L = "loadBalancedBackends s"
  obtain x xs where X: "set (x # xs) = set ?L" and sel: "load_balanced_Select k s =
     Inr (plain_decision (scan ?lt x xs) ReasonLoadBalanced PolicyLoadBalancedV1)"
    by (rule load_balanced_scan [OF assms(3,2)])
  have "set (hd ?L # tl ?L) = set ?L" using assms(3) by (intro hd_tl_set) simp
  with X have "scan ?lt x xs = scan ?lt (hd ?L) (tl ?L)"
    by (intro inflight.scan_order_free)
      (simp_all only: loadBalanced_inj [OF assms(1) bID_of_keys(1)], simp add: list_all_iff)
  with sel show ?thesis by simp
qed

text \<open>
  With distinct backend IDs the load-balanced strategy selects the unique least backend in the
  order (local in-flight, ID), whatever the routing key: the hash of the key chooses where the walk
  starts, and the ID decides every tie before the start could.
\<close>

theorem load_balanced_ignores_key:
  assumes "distinct (map bID (sn_Backends s))" and "length (sn_Backends s) < 4294967296"
    and "EligibleBackends s \<noteq> []"
  shows "\<exists>b \<in> set (loadBalancedBackends s).
    (\<forall>k. load_balanced_Select k s = Inr (plain_decision b ReasonLoadBalanced PolicyLoadBalancedV1))
    \<and> (\<forall>c \<in> set (loadBalancedBackends s). c \<noteq> b \<longrightarrow> inflight_key s b < inflight_key s c)"
proof -
  let ?L = "loadBalancedBackends s"
  let ?b = "scan (\<lambda>c b. localInflightLess c b s) (hd ?L) (tl ?L)"
  have b: "?b \<in> set ?L" using assms(3) by (intro scan_hd_tl) simp
  have "inflight_key s ?b < inflight_key s c" if "c \<in> set ?L" "c \<noteq> ?b" for c
  proof -
    have "inflight_key s ?b \<le> inflight_key s c"
      using that(1) assms(3) by (intro inflight.scan_least) (auto simp: list_all_iff)
    moreover have "inflight_key s ?b \<noteq> inflight_key s c"
    proof
      assume "inflight_key s ?b = inflight_key s c"
      from inj_onD [OF loadBalanced_inj [OF assms(1) bID_of_keys(1)] this b that(1)] that(2)
      show False by simp
    qed
    ultimately show ?thesis by simp
  qed
  with load_balanced_eq [OF assms] show ?thesis by (intro bexI [OF _ b]) simp
qed

theorem load_balanced_ignores_key_witness:
  "\<exists>b \<in> set [wit_b1, wit_b2].
    (\<forall>k. load_balanced_Select k wit_snapshot = Inr (plain_decision b ReasonLoadBalanced PolicyLoadBalancedV1))
    \<and> (\<forall>c \<in> set [wit_b1, wit_b2]. c \<noteq> b \<longrightarrow> inflight_key wit_snapshot b < inflight_key wit_snapshot c)"
  using load_balanced_ignores_key [of wit_snapshot]
  by (simp add: wit_snapshot_def [of] wit_candidates [unfolded wit_snapshot_def])
    (simp add: wit_b1_def wit_b2_def)

lemma kvAwareCost_ignores_backends [simp]: "kvAwareCost b (s\<lparr>sn_Backends := bs\<rparr>) = kvAwareCost b s"
  by (simp add: kvAwareCost_def fun_eq_iff Let_def)

lemma comparators_ignore_backends [simp]:
  "observedLoadLess c b (s\<lparr>sn_Backends := bs\<rparr>) = observedLoadLess c b s"
  "localInflightLess c b (s\<lparr>sn_Backends := bs\<rparr>) = localInflightLess c b s"
  "kvAwareLess c b (s\<lparr>sn_Backends := bs\<rparr>) config = kvAwareLess c b s config"
  "lessLoaded c b (s\<lparr>sn_Backends := bs\<rparr>) tie useQueue = lessLoaded c b s tie useQueue"
  "inflight_key (s\<lparr>sn_Backends := bs\<rparr>) = inflight_key s"
  by (simp_all add: observedLoadLess_def localInflightLess_def kvAwareLess_def
      lessLoaded_def queue_value_def inflight_key_def fun_eq_iff)

lemma relisted:
  assumes "set bs = set (sn_Backends s)"
  shows "set (EligibleBackends (s\<lparr>sn_Backends := bs\<rparr>)) = set (EligibleBackends s)"
    and "set (loadBalancedBackends (s\<lparr>sn_Backends := bs\<rparr>)) = set (loadBalancedBackends s)"
    and "EligibleBackends (s\<lparr>sn_Backends := bs\<rparr>) = [] \<longleftrightarrow> EligibleBackends s = []"
    and "queueAvailableForAll (s\<lparr>sn_Backends := bs\<rparr>) = queueAvailableForAll s"
proof -
  show E: "set (EligibleBackends (s\<lparr>sn_Backends := bs\<rparr>)) = set (EligibleBackends s)"
    using assms by (simp add: EligibleBackends_def)
  show "set (loadBalancedBackends (s\<lparr>sn_Backends := bs\<rparr>)) = set (loadBalancedBackends s)"
    by (rule set_eqI) (simp add: mem_loadBalancedBackends E)
  show "EligibleBackends (s\<lparr>sn_Backends := bs\<rparr>) = [] \<longleftrightarrow> EligibleBackends s = []"
    using E by (metis set_empty)
  show "queueAvailableForAll (s\<lparr>sn_Backends := bs\<rparr>) = queueAvailableForAll s"
    by (simp add: queueAvailableForAll_def list_all_iff E)
qed

lemma relisted_list_all:
  "set xs = set ys \<Longrightarrow> list_all P xs = list_all P ys"
  by (simp add: list_all_iff)

lemma leastLoaded_order_free:
  assumes "set bs = set (sn_Backends s)" and "distinct (map bID (sn_Backends s))"
    and "EligibleBackends s \<noteq> []" and "list_all (\<lambda>b. \<not> is_NaN (queue_value s b)) (sn_Backends s)"
  shows "leastLoaded (s\<lparr>sn_Backends := bs\<rparr>) tie = leastLoaded s tie"
proof -
  have "scan (\<lambda>c b. lessLoaded c b s tie u) (hd (EligibleBackends s)) (tl (EligibleBackends s)) =
      scan (\<lambda>c b. lessLoaded c b s tie u) (hd (EligibleBackends (s\<lparr>sn_Backends := bs\<rparr>)))
        (tl (EligibleBackends (s\<lparr>sn_Backends := bs\<rparr>)))" for u
  proof (rule least.list_order_free)
    show "inj_on (least_key s tie u) (set (EligibleBackends s))"
      by (rule inj_ID_key [OF assms(2) EligibleBackends_subset bID_of_keys(5)])
    show "list_all (queue_known s u) (EligibleBackends s)"
      using assms(4) EligibleBackends_subset by (auto simp: list_all_iff queue_known_def)
  qed (simp_all add: relisted(1) [OF assms(1)] assms(3))
  then show ?thesis by (simp add: leastLoaded_def Let_def relisted(4) [OF assms(1)])
qed

lemma load_aware_order_free:
  assumes set: "set bs = set (sn_Backends s)" and ids: "distinct (map bID (sn_Backends s))"
    and dist: "distinct bs" and small: "length (sn_Backends s) < 4294967296"
  shows "load_aware_Select k (s\<lparr>sn_Backends := bs\<rparr>) = load_aware_Select k s"
proof (cases "EligibleBackends s = []")
  case True
  then show ?thesis using relisted(3) [OF set] by (simp add: load_aware_Select_def Let_def)
next
  case False
  let ?s = "s\<lparr>sn_Backends := bs\<rparr>"
  let ?L = "loadBalancedBackends s" and ?L' = "loadBalancedBackends ?s"
  have ne: "?L \<noteq> []" "?L' \<noteq> []" using False relisted(3) [OF set] by simp_all
  have L: "set ?L = set ?L'" using relisted(2) [OF set] by simp
  have ids': "distinct (map bID (sn_Backends ?s))" using ids dist set by (simp add: distinct_map)
  have "length bs = length (sn_Backends s)"
    using set dist ids by (metis distinct_card distinct_map)
  then have small': "length (sn_Backends ?s) < 4294967296" using small by simp
  have "scan (\<lambda>c b. localInflightLess c b s) (hd ?L) (tl ?L) = scan (\<lambda>c b. localInflightLess c b s) (hd ?L') (tl ?L')"
    by (rule inflight.list_order_free [OF L ne(1) loadBalanced_inj [OF ids bID_of_keys(1)]]) (simp_all add: list_all_iff)
  then have lb: "load_balanced_Select k ?s = load_balanced_Select k s"
    using load_balanced_eq [OF ids' small'] load_balanced_eq [OF ids small] False relisted(3) [OF set] by simp
  have "scan (\<lambda>c b. observedLoadLess c b s) (hd ?L) (tl ?L) = scan (\<lambda>c b. observedLoadLess c b s) (hd ?L') (tl ?L')"
    by (rule observed.list_order_free [OF L ne(1) loadBalanced_inj [OF ids bID_of_keys(2)]]) (simp_all add: list_all_iff)
  moreover have "completeObservedLoad ?L' (sn_Loads s) = completeObservedLoad ?L (sn_Loads s)"
    using L ne by (simp add: completeObservedLoad_def list_all_iff)
  ultimately show ?thesis using lb ne by (simp add: load_aware_Select_def Let_def)
qed

lemma kv_aware_order_free:
  assumes set: "set bs = set (sn_Backends s)" and ids: "distinct (map bID (sn_Backends s))"
    and nan: "list_all (\<lambda>b. \<not> is_NaN (queue_value s b)) (sn_Backends s)"
  shows "kv_aware_Select config k (s\<lparr>sn_Backends := bs\<rparr>) = kv_aware_Select config k s"
proof (cases "EligibleBackends s = []")
  case True
  then show ?thesis using relisted(3) [OF set] by (simp add: kv_aware_Select_def Let_def)
next
  case False
  let ?s = "s\<lparr>sn_Backends := bs\<rparr>"
  let ?C = "withoutHardOverload (EligibleBackends s) (sn_Loads s)"
  let ?C' = "withoutHardOverload (EligibleBackends ?s) (sn_Loads s)"
  have C: "set ?C = set ?C'" by (auto simp: mem_withoutHardOverload relisted(1) [OF set])
  then have nil: "?C = [] \<longleftrightarrow> ?C' = []" by (metis set_empty)
  have sub: "set ?C \<subseteq> set (sn_Backends s)" using candidates_subset EligibleBackends_subset by blast
  have scans: "?C \<noteq> [] \<Longrightarrow> scan (\<lambda>c b. kvAwareLess c b s config) (hd ?C) (tl ?C) = scan (\<lambda>c b. kvAwareLess c b s config) (hd ?C') (tl ?C')"
    "?C \<noteq> [] \<Longrightarrow> scan (\<lambda>c b. staticEstimateLess c b (sn_Estimates s)) (hd ?C) (tl ?C) =
       scan (\<lambda>c b. staticEstimateLess c b (sn_Estimates s)) (hd ?C') (tl ?C')"
    by (rule cost.list_order_free [OF C _ inj_ID_key [OF ids sub bID_of_keys(3)]];
        simp add: list_all_iff)
      (rule estimate.list_order_free [OF C _ inj_ID_key [OF ids sub bID_of_keys(4)]];
        simp add: list_all_iff)
  have usable: "UsableFor i (EligibleBackends ?s) = UsableFor i (EligibleBackends s)"
    "staticEstimatesUsable ?C' es = staticEstimatesUsable ?C es" for i es
    using relisted(3) [OF set] nil
    by (simp_all add: UsableFor_def staticEstimatesUsable_def list_all_iff relisted(1) [OF set] C)
  show ?thesis
    using False nil scans relisted(3) [OF set]
    by (simp add: kv_aware_Select_def Let_def usable leastLoaded_order_free [OF set ids False nan])
qed

text \<open>
  The decision of the load-aware and of the KV-aware strategy does not depend on the order in
  which discovery lists the backends, provided their IDs are distinct and no observed queue length
  is NaN.
\<close>

theorem selection_order_free:
  assumes set: "set bs = set (sn_Backends s)" and ids: "distinct (map bID (sn_Backends s))"
    and "distinct bs" and small: "length (sn_Backends s) < 4294967296"
    and nan: "list_all (\<lambda>b. \<not> is_NaN (queue_value s b)) (sn_Backends s)"
  shows "load_aware_Select k (s\<lparr>sn_Backends := bs\<rparr>) = load_aware_Select k s
    \<and> kv_aware_Select config k (s\<lparr>sn_Backends := bs\<rparr>) = kv_aware_Select config k s"
  using load_aware_order_free [OF assms(1-4)] kv_aware_order_free [OF set ids nan] by simp

theorem selection_order_free_witness:
  "load_aware_Select ''k'' (wit_snapshot\<lparr>sn_Backends := [wit_b2, wit_b1]\<rparr>) = load_aware_Select ''k'' wit_snapshot
    \<and> kv_aware_Select wit_kv_config ''k'' (wit_snapshot\<lparr>sn_Backends := [wit_b2, wit_b1]\<rparr>) =
        kv_aware_Select wit_kv_config ''k'' wit_snapshot"
  by (rule selection_order_free)
    (auto simp: wit_snapshot_def wit_b1_def wit_b2_def queue_value_def mget_def zero_Observed_def
      zero_Sample_def is_NaN_def)

fun round_robin_run :: "nat \<Rightarrow> 64 word \<Rightarrow> Snapshot \<Rightarrow> (routing_error + Decision) list \<times> 64 word" where
  \<comment> \<open>consecutive selections from one cursor\<close>
  "round_robin_run 0 cursor s = ([], cursor)"
| "round_robin_run (Suc n) cursor s =
     (let (d, cursor1) = round_robin_Select cursor [] s; (ds, cursor2) = round_robin_run n cursor1 s
      in (d # ds, cursor2))"

lemma round_robin_index:
  assumes "EligibleBackends s \<noteq> []" and "length (EligibleBackends s) < 2 ^ 64"
  shows "round_robin_Select cursor k s =
    (Inr (plain_decision (EligibleBackends s ! (unat cursor mod length (EligibleBackends s)))
        ReasonRoundRobin PolicyRoundRobinV1), cursor + 1)"
proof -
  have "unat (of_nat (length (EligibleBackends s)) :: 64 word) = length (EligibleBackends s)"
    using assms(2) by (simp add: unat_of_nat)
  then show ?thesis
    using assms(1) by (simp add: round_robin_Select_def Let_def unat_mod)
qed

lemma round_robin_run_eq:
  assumes "EligibleBackends s \<noteq> []" and "length (EligibleBackends s) < 2 ^ 64"
    and "unat cursor + n \<le> 2 ^ 64"
  shows "fst (round_robin_run n cursor s) =
    map (\<lambda>i. Inr (plain_decision (EligibleBackends s ! ((unat cursor + i) mod length (EligibleBackends s)))
      ReasonRoundRobin PolicyRoundRobinV1)) [0..<n]"
  using assms(3)
proof (induction n arbitrary: cursor)
  case (Suc n)
  show ?case
  proof (cases n)
    case 0
    then show ?thesis by (simp add: round_robin_index [OF assms(1,2)])
  next
    case (Suc m)
    then have "unat cursor + 1 < 2 ^ 64" using Suc.prems by simp
    then have u: "unat (cursor + 1) = unat cursor + 1"
      by (simp add: unat_add_lem [THEN iffD1])
    have "[0..<Suc n] = 0 # map Suc [0..<n]" by (simp add: upt_conv_Cons map_Suc_upt)
    with Suc.IH [of "cursor + 1"] Suc.prems u show ?thesis
      by (simp add: round_robin_index [OF assms(1,2)] split_beta del: upt_Suc)
  qed
qed simp

text \<open>
  As long as the 64-bit cursor does not wrap, any run of as many round-robin selections as there
  are eligible backends visits every eligible backend exactly once, in the order of the list rotated
  by the cursor.
\<close>

theorem round_robin_fair:
  assumes "EligibleBackends s \<noteq> []" and "unat cursor + length (EligibleBackends s) \<le> 2 ^ 64"
    and "length (EligibleBackends s) < 2 ^ 64"
  shows "fst (round_robin_run (length (EligibleBackends s)) cursor s) =
    map (\<lambda>b. Inr (plain_decision b ReasonRoundRobin PolicyRoundRobinV1))
      (rotate (unat cursor mod length (EligibleBackends s)) (EligibleBackends s))"
  unfolding round_robin_run_eq [OF assms(1,3,2)]
  using assms(1) by (intro nth_equalityI) (simp_all add: nth_rotate mod_add_left_eq)

theorem round_robin_fair_witness:
  "fst (round_robin_run (Suc (Suc 0)) 3 wit_snapshot) =
    [Inr (plain_decision wit_b2 ReasonRoundRobin PolicyRoundRobinV1),
     Inr (plain_decision wit_b1 ReasonRoundRobin PolicyRoundRobinV1)]"
  using round_robin_fair [of wit_snapshot 3]
  by (simp del: round_robin_run.simps) (simp del: round_robin_run.simps add: rotate_def mod_Suc eval_nat_numeral)

end
