(* ===== verification/Session_Key.thy ===== *)
theory Session_Key
  imports Routing
begin

text \<open>
  The session-key strategy of \<open>internal/serving/routing\<close> (\<open>session_key_impl.go\<close>) and the strategy
  factory. The memory table maps the SHA-256 digest of a key to the bound backend and its expiry; the
  clock is read where the code reads it, so the operations take the times of those reads. The list
  order of the table is the iteration order of the Go map, so what is proved of the eviction loop
  holds for every iteration order.
\<close>

subsection \<open>State and operations\<close>

record sessionKeyEntry =
  ske_backendID :: ID
  ske_expiresAt :: time

record sessionKeyStrategy =
  sks_config :: SessionKeyConfig
  sks_entries :: "(8 word list, sessionKeyEntry) gomap"

definition newSessionKey :: "SessionKeyConfig \<Rightarrow> sessionKeyStrategy" where
  "newSessionKey config = \<lparr>sks_config = config, sks_entries = []\<rparr>"

definition NewSessionKey :: "SessionKeyConfig \<Rightarrow> routing_error + sessionKeyStrategy" where
  "NewSessionKey config =
     (case SessionKeyConfig_Validate config of Some err \<Rightarrow> Inl err | None \<Rightarrow> Inr (newSessionKey config))"

definition preferred :: "time \<Rightarrow> sessionKeyStrategy \<Rightarrow> 8 word list \<Rightarrow> Backend list \<Rightarrow>
    Backend option \<times> sessionKeyStrategy" where
  "preferred now s key backends =
     (let forgotten = s\<lparr>sks_entries := AList.delete key (sks_entries s)\<rparr>
      in case map_of (sks_entries s) key of
           None \<Rightarrow> (None, forgotten)
         | Some entry \<Rightarrow>
             if \<not> now < ske_expiresAt entry then (None, forgotten)
             else (case find (\<lambda>b. bID b = ske_backendID entry) backends of
                     Some b \<Rightarrow> (Some b, s)
                   | None \<Rightarrow> (None, forgotten)))"

definition evict_step :: "time \<Rightarrow>
    (8 word list, sessionKeyEntry) gomap \<times> (8 word list \<times> time) option \<Rightarrow>
    8 word list \<times> sessionKeyEntry \<Rightarrow>
    (8 word list, sessionKeyEntry) gomap \<times> (8 word list \<times> time) option" where
  \<comment> \<open>the body of the loop of \<open>collectOrEvictOldest\<close>; the option is \<open>foundOldest\<close> with its pair\<close>
  "evict_step now acc ke =
     (let (entries, oldest) = acc; (key, entry) = ke
      in if \<not> now < ske_expiresAt entry then (AList.delete key entries, oldest)
         else if (case oldest of None \<Rightarrow> True | Some (_, expiry) \<Rightarrow> ske_expiresAt entry < expiry)
         then (entries, Some (key, ske_expiresAt entry))
         else (entries, oldest))"

definition collectOrEvictOldest :: "time \<Rightarrow> sessionKeyStrategy \<Rightarrow> sessionKeyStrategy" where
  "collectOrEvictOldest now s =
     (let (entries, oldest) = foldl (evict_step now) (sks_entries s, None) (sks_entries s)
      in case oldest of
           Some (key, _) \<Rightarrow>
             if int (length entries) \<ge> sk_MaxEntries (sks_config s)
             then s\<lparr>sks_entries := AList.delete key entries\<rparr>
             else s\<lparr>sks_entries := entries\<rparr>
         | None \<Rightarrow> s\<lparr>sks_entries := entries\<rparr>)"

definition remember :: "time \<Rightarrow> sessionKeyStrategy \<Rightarrow> 8 word list \<Rightarrow> ID \<Rightarrow> sessionKeyStrategy" where
  "remember now s key backendID =
     (let s1 = (if \<not> mhas (sks_entries s) key
                   \<and> int (length (sks_entries s)) \<ge> sk_MaxEntries (sks_config s)
                then collectOrEvictOldest now s else s)
      in s1\<lparr>sks_entries := AList.update key
           \<lparr>ske_backendID = backendID, ske_expiresAt = time_add now (sk_TTL (sks_config s))\<rparr> (sks_entries s1)\<rparr>)"

definition session_ReconcileBackends :: "sessionKeyStrategy \<Rightarrow> Backend list \<Rightarrow> sessionKeyStrategy" where
  "session_ReconcileBackends s backends =
     s\<lparr>sks_entries := filter (\<lambda>(key, entry). ske_backendID entry \<in> set (map bID backends)) (sks_entries s)\<rparr>"

definition rendezvousScore :: "8 word list \<Rightarrow> ID \<Rightarrow> 64 word" where
  "rendezvousScore key backendID = be_word (take 8 (Sum256 (key @ [0] @ string_bytes backendID)))"

definition rendezvousBackend :: "8 word list \<Rightarrow> Backend list \<Rightarrow> Backend" where
  \<comment> \<open>the callers have checked that some backend exists\<close>
  "rendezvousBackend key backends =
     scan (\<lambda>candidate best.
         let score = rendezvousScore key (bID candidate); bestScore = rendezvousScore key (bID best)
         in score > bestScore \<or> (score = bestScore \<and> bID candidate < bID best))
       (hd backends) (tl backends)"

definition selectWithinSessionKeyBounds :: "Backend \<Rightarrow> Snapshot \<Rightarrow> SessionKeyConfig \<Rightarrow> Backend \<times> Reason" where
  "selectWithinSessionKeyBounds pref s config =
     (let least = leastLoaded s (bID pref)
      in case map_of (sn_Ineligible s) (bID pref) of
           Some reason \<Rightarrow> (least, if reason = NoReason then ReasonIneligible else reason)
         | None \<Rightarrow>
             if bID least = bID pref then (pref, NoReason)
             else if queueAvailableForAll s
                  \<and> f_lt (f_add (queue_value s least) (sk_QueueDepthDelta config)) (queue_value s pref)
             then (least, ReasonQueueDepth)
             else if mget 0 (sn_Inflight s) (bID pref)
                     > wrap64 (mget 0 (sn_Inflight s) (bID least) + sk_InflightDelta config)
             then (least, ReasonLocalInflight)
             else (pref, NoReason))"

record clock_reads =
  clk_lookup :: time \<comment> \<open>in \<open>preferred\<close>\<close>
  clk_bind :: time \<comment> \<open>in the first \<open>remember\<close>, on a miss\<close>
  clk_refresh :: time \<comment> \<open>in the last \<open>remember\<close>\<close>

definition session_key_Select :: "clock_reads \<Rightarrow> sessionKeyStrategy \<Rightarrow> string \<Rightarrow> Snapshot \<Rightarrow>
    (routing_error + Decision) \<times> sessionKeyStrategy" where
  "session_key_Select clk s routingKey sn =
     (if EligibleBackends sn = [] then (Inl (ErrNoBackend ModeSessionKey), s)
      else if routingKey = []
      then (Inr (plain_decision (leastLoaded sn []) ReasonMissingSessionKeyLoadBalanced PolicySessionKeyV1), s)
      else
        let keyHash = Sum256 (string_bytes routingKey);
            (found, s1) = preferred (clk_lookup clk) s keyHash (sn_Backends sn);
            pref = (case found of Some b \<Rightarrow> b | None \<Rightarrow> rendezvousBackend keyHash (sn_Backends sn));
            s2 = (if found = None then remember (clk_bind clk) s1 keyHash (bID pref) else s1);
            (selected, spillover) = selectWithinSessionKeyBounds pref sn (sks_config s);
            reason = (if spillover \<noteq> NoReason then ReasonSessionKeySpillover
                      else if found = None then ReasonSessionKeyMiss else ReasonSessionKeyHit)
        in (Inr \<lparr>dc_Backend = selected, dc_PreferredBackendID = bID pref, dc_Reason = reason,
               dc_SpilloverReason = spillover, dc_Policy = PolicySessionKeyV1\<rparr>,
            remember (clk_refresh clk) s2 keyHash (bID pref)))"

subsection \<open>The strategy factory\<close>

datatype Strategy =
    StRoundRobin "64 word"
  | StLoadBalanced
  | StLoadAware
  | StSessionKey sessionKeyStrategy
  | StKVAware KVAwareConfig

definition NewConfiguredKVAware :: "KVAwareConfig \<Rightarrow> routing_error + Strategy" where
  "NewConfiguredKVAware config =
     (case KVAwareConfig_Validate config of Some err \<Rightarrow> Inl err | None \<Rightarrow> Inr (StKVAware config))"

definition NewConfigured :: "url_parser \<Rightarrow> routing_Config \<Rightarrow> routing_error + Strategy" where
  "NewConfigured url_parse config =
     (case routing_Config_Validate url_parse config of
        Some err \<Rightarrow> Inl err
      | None \<Rightarrow>
          if rc_Mode config = ModeKVAware then Inr (StKVAware (rc_KVAware config))
          else if rc_Mode config = ModeSessionKey then Inr (StSessionKey (newSessionKey (rc_SessionKey config)))
          else if rc_Mode config = ModeRoundRobin then Inr (StRoundRobin 0)
          else if rc_Mode config = ModeLoadBalanced then Inr StLoadBalanced
          else if rc_Mode config = [] \<or> rc_Mode config = ModeLoadAware then Inr StLoadAware
          else Inl (ErrUnsupportedMode (rc_Mode config)))"

fun Strategy_Name :: "Strategy \<Rightarrow> string" where
  "Strategy_Name (StRoundRobin _) = ModeRoundRobin"
| "Strategy_Name StLoadBalanced = ModeLoadBalanced"
| "Strategy_Name StLoadAware = ModeLoadAware"
| "Strategy_Name (StSessionKey _) = ModeSessionKey"
| "Strategy_Name (StKVAware _) = ModeKVAware"

fun Strategy_Select :: "clock_reads \<Rightarrow> Strategy \<Rightarrow> string \<Rightarrow> Snapshot \<Rightarrow> (routing_error + Decision) \<times> Strategy" where
  "Strategy_Select clk (StRoundRobin cursor) key sn =
     (let (d, cursor') = round_robin_Select cursor key sn in (d, StRoundRobin cursor'))"
| "Strategy_Select clk StLoadBalanced key sn = (load_balanced_Select key sn, StLoadBalanced)"
| "Strategy_Select clk StLoadAware key sn = (load_aware_Select key sn, StLoadAware)"
| "Strategy_Select clk (StSessionKey s) key sn =
     (let (d, s') = session_key_Select clk s key sn in (d, StSessionKey s'))"
| "Strategy_Select clk (StKVAware config) key sn = (kv_aware_Select config key sn, StKVAware config)"

fun Strategy_ReconcileBackends :: "Strategy \<Rightarrow> Backend list \<Rightarrow> Strategy" where
  \<comment> \<open>only the session-key strategy implements \<open>BackendReconciler\<close>\<close>
  "Strategy_ReconcileBackends (StSessionKey s) backends = StSessionKey (session_ReconcileBackends s backends)"
| "Strategy_ReconcileBackends st backends = st"

subsection \<open>The memory table\<close>

definition session_ok :: "sessionKeyStrategy \<Rightarrow> bool" where
  "session_ok s \<longleftrightarrow> gomap_ok (sks_entries s) \<and> int (length (sks_entries s)) \<le> sk_MaxEntries (sks_config s)"

lemma evict_step_simps:
  "\<not> now < ske_expiresAt e \<Longrightarrow> evict_step now (es, o') (k, e) = (AList.delete k es, o')"
  "now < ske_expiresAt e \<Longrightarrow> evict_step now (es, None) (k, e) = (es, Some (k, ske_expiresAt e))"
  "now < ske_expiresAt e \<Longrightarrow> evict_step now (es, Some (k0, e0)) (k, e) =
     (es, Some (if ske_expiresAt e < e0 then (k, ske_expiresAt e) else (k0, e0)))"
  by (simp_all add: evict_step_def)

lemma evict_live:
  "fst (foldl (evict_step now) (es, o') xs) =
     mkeep (\<lambda>k. \<forall>ke \<in> set xs. fst ke = k \<longrightarrow> now < ske_expiresAt (snd ke)) es"
proof (induction xs arbitrary: es o')
  case Nil
  then show ?case by (simp add: mkeep_def)
next
  case (Cons x xs)
  obtain k e where x: "x = (k, e)" by force
  show ?case
  proof (cases "now < ske_expiresAt e")
    case False
    then show ?thesis
      by (simp add: x evict_step_simps Cons.IH delete_mkeep) (auto simp: mkeep_def intro!: filter_cong)
  next
    case True
    then show ?thesis
      by (cases o') (auto simp: x evict_step_simps Cons.IH mkeep_def intro!: filter_cong)
  qed
qed

text \<open>The second component finds an unexpired entry of the earliest expiry.\<close>

definition oldest_found :: "time \<Rightarrow> (8 word list \<times> sessionKeyEntry) list \<Rightarrow> 8 word list \<times> time \<Rightarrow> bool" where
  "oldest_found now xs ke \<longleftrightarrow>
     (\<exists>x \<in> set xs. fst x = fst ke \<and> ske_expiresAt (snd x) = snd ke \<and> now < snd ke)
     \<and> (\<forall>x \<in> set xs. now < ske_expiresAt (snd x) \<longrightarrow> snd ke \<le> ske_expiresAt (snd x))"

lemma evict_oldest:
  "case snd (foldl (evict_step now) (es, None) xs) of
     None \<Rightarrow> \<forall>x \<in> set xs. \<not> now < ske_expiresAt (snd x)
   | Some ke \<Rightarrow> oldest_found now xs ke"
proof (induction xs rule: rev_induct)
  case (snoc x xs)
  obtain es' o' where f: "foldl (evict_step now) (es, None) xs = (es', o')" by force
  obtain k e where x: "x = (k, e)" by force
  have step: "foldl (evict_step now) (es, None) (xs @ [x]) = evict_step now (es', o') (k, e)"
    by (simp add: f x)
  show ?case
  proof (cases o')
    case None
    with snoc f show ?thesis unfolding step
      by (cases "now < ske_expiresAt e") (auto simp: x evict_step_simps oldest_found_def)
  next
    case (Some p)
    obtain k0 e0 where p: "p = (k0, e0)" by force
    have IH: "oldest_found now xs (k0, e0)" using snoc f Some p by simp
    show ?thesis
    proof (cases "now < ske_expiresAt e")
      case True
      with IH show ?thesis unfolding step Some p
        by (auto simp: x evict_step_simps oldest_found_def)
    next
      case False
      with IH show ?thesis unfolding step Some p
        by (auto simp: x evict_step_simps oldest_found_def)
    qed
  qed
qed simp

lemma collect_config [simp]: "sks_config (collectOrEvictOldest now s) = sks_config s"
  by (simp add: collectOrEvictOldest_def split_beta split: option.splits)

lemma collect_entries:
  "sks_entries (collectOrEvictOldest now s) =
     (let live = mkeep (\<lambda>k. \<forall>ke \<in> set (sks_entries s). fst ke = k \<longrightarrow> now < ske_expiresAt (snd ke)) (sks_entries s)
      in case snd (foldl (evict_step now) (sks_entries s, None) (sks_entries s)) of
           None \<Rightarrow> live
         | Some (k, _) \<Rightarrow> if int (length live) \<ge> sk_MaxEntries (sks_config s) then AList.delete k live else live)"
  unfolding evict_live [of now "sks_entries s" None "sks_entries s", symmetric]
  by (simp add: collectOrEvictOldest_def split_beta Let_def split: option.splits)

lemma collect_sub:
  assumes "map_of (sks_entries (collectOrEvictOldest now s)) k = Some e"
  shows "map_of (sks_entries s) k = Some e"
  using assms by (auto simp: collect_entries Let_def map_of_mkeep delete_conv' split: option.splits if_splits)

lemma collect_gomap_ok: "gomap_ok (sks_entries s) \<Longrightarrow> gomap_ok (sks_entries (collectOrEvictOldest now s))"
  by (auto simp: collect_entries Let_def split: option.splits)

lemma collect_makes_room:
  assumes "session_ok s" and "0 < sk_MaxEntries (sks_config s)"
  shows "int (length (sks_entries (collectOrEvictOldest now s))) < sk_MaxEntries (sks_config s)"
proof -
  define es where "es = sks_entries s"
  define live where "live = mkeep (\<lambda>k. \<forall>ke \<in> set es. fst ke = k \<longrightarrow> now < ske_expiresAt (snd ke)) es"
  define old where "old = snd (foldl (evict_step now) (es, None) es)"
  have ok: "gomap_ok es" "int (length es) \<le> sk_MaxEntries (sks_config s)"
    using assms(1) by (simp_all add: session_ok_def es_def)
  have entries: "sks_entries (collectOrEvictOldest now s) = (case old of None \<Rightarrow> live
      | Some (k, _) \<Rightarrow> if int (length live) \<ge> sk_MaxEntries (sks_config s) then AList.delete k live else live)"
    unfolding live_def old_def es_def by (simp only: collect_entries Let_def)
  have len: "int (length live) \<le> sk_MaxEntries (sks_config s)"
    using ok(2) by (simp add: live_def mkeep_def length_filter_int)
  show ?thesis
  proof (cases old)
    case None
    then have "\<forall>x \<in> set es. \<not> now < ske_expiresAt (snd x)"
      using evict_oldest [where now = now and es = es and xs = es] by (simp add: old_def)
    then have "live = []" by (auto simp: live_def mkeep_def filter_empty_conv)
    then show ?thesis using None assms(2) by (simp add: entries)
  next
    case (Some p)
    obtain k e where p: "p = (k, e)" by force
    then obtain x where x: "x \<in> set es" "fst x = k" "now < ske_expiresAt (snd x)"
      using evict_oldest [where now = now and es = es and xs = es] Some by (auto simp: old_def oldest_found_def)
    then have "map_of es k = Some (snd x)" using map_of_eq_Some_iff' [OF ok(1)] by (metis prod.collapse)
    moreover have "b = snd x" if "(k, b) \<in> set es" for b
      using that calculation map_of_eq_Some_iff' [OF ok(1), of k b] by simp
    ultimately have "mhas live k"
      using x(3) by (fastforce simp: mhas_def live_def map_of_mkeep)
    from length_delete [OF this] len show ?thesis by (auto simp: entries Some p)
  qed
qed

lemma remember_config [simp]: "sks_config (remember now s k bid) = sks_config s"
  by (simp add: remember_def Let_def)

lemma remember_self:
  "map_of (sks_entries (remember now s k bid)) k =
     Some \<lparr>ske_backendID = bid, ske_expiresAt = time_add now (sk_TTL (sks_config s))\<rparr>"
  by (simp add: remember_def Let_def update_conv')

lemma remember_other:
  "k' \<noteq> k \<Longrightarrow> map_of (sks_entries (remember now s k bid)) k' = Some e \<Longrightarrow> map_of (sks_entries s) k' = Some e"
  by (auto simp: remember_def Let_def update_conv' dest: collect_sub split: if_splits)

lemma remember_keeps_others:
  "mhas (sks_entries s) k \<Longrightarrow> k' \<noteq> k \<Longrightarrow>
     map_of (sks_entries (remember now s k bid)) k' = map_of (sks_entries s) k'"
  by (simp add: remember_def update_conv')

lemma remember_ok:
  assumes "session_ok s" and "0 < sk_MaxEntries (sks_config s)"
  shows "session_ok (remember now s k bid)"
proof -
  let ?evict = "\<not> mhas (sks_entries s) k \<and> int (length (sks_entries s)) \<ge> sk_MaxEntries (sks_config s)"
  let ?s1 = "if ?evict then collectOrEvictOldest now s else s"
  have "gomap_ok (sks_entries ?s1)" using assms(1) by (simp add: collect_gomap_ok session_ok_def)
  moreover have "int (length (sks_entries ?s1)) < sk_MaxEntries (sks_config s) \<or>
      mhas (sks_entries ?s1) k \<and> int (length (sks_entries ?s1)) \<le> sk_MaxEntries (sks_config s)"
    using assms collect_makes_room [OF assms] by (auto simp: session_ok_def)
  ultimately show ?thesis
    unfolding session_ok_def remember_config by (auto simp: remember_def Let_def length_update)
qed

lemma preferred_config [simp]: "sks_config (snd (preferred now s k bs)) = sks_config s"
  by (simp add: preferred_def Let_def split: option.splits)

lemma preferred_ok: "session_ok s \<Longrightarrow> session_ok (snd (preferred now s k bs))"
  using length_delete_le [of k "sks_entries s"]
  by (auto simp: preferred_def Let_def session_ok_def split: option.splits)

lemma preferred_hit:
  "fst (preferred now s k bs) = Some b \<longleftrightarrow>
     (\<exists>e. map_of (sks_entries s) k = Some e \<and> now < ske_expiresAt e
        \<and> find (\<lambda>b. bID b = ske_backendID e) bs = Some b)"
  by (auto simp: preferred_def Let_def split: option.splits)

lemma preferred_hit_state: "fst (preferred now s k bs) = Some b \<Longrightarrow> snd (preferred now s k bs) = s"
  by (auto simp: preferred_def Let_def split: option.splits if_splits)

lemma preferred_sub:
  "map_of (sks_entries (snd (preferred now s k bs))) k' = Some e \<Longrightarrow> map_of (sks_entries s) k' = Some e"
  by (auto simp: preferred_def Let_def delete_conv' split: option.splits if_splits)

subsection \<open>One selection\<close>

definition bound_backend :: "time \<Rightarrow> sessionKeyStrategy \<Rightarrow> string \<Rightarrow> Snapshot \<Rightarrow> Backend" where
  "bound_backend now s key sn =
     (let h = Sum256 (string_bytes key)
      in case fst (preferred now s h (sn_Backends sn)) of Some b \<Rightarrow> b | None \<Rightarrow> rendezvousBackend h (sn_Backends sn))"

lemma session_key_Select_eq:
  fixes clk :: clock_reads and s :: sessionKeyStrategy and key :: string and sn :: Snapshot
  assumes "EligibleBackends sn \<noteq> []" and "key \<noteq> []"
  defines "h \<equiv> Sum256 (string_bytes key)"
  defines "p \<equiv> bound_backend (clk_lookup clk) s key sn"
  defines "hit \<equiv> fst (preferred (clk_lookup clk) s h (sn_Backends sn)) \<noteq> None"
  defines "s1 \<equiv> snd (preferred (clk_lookup clk) s h (sn_Backends sn))"
  shows "session_key_Select clk s key sn =
    (Inr \<lparr>dc_Backend = fst (selectWithinSessionKeyBounds p sn (sks_config s)), dc_PreferredBackendID = bID p,
        dc_Reason = (if snd (selectWithinSessionKeyBounds p sn (sks_config s)) \<noteq> NoReason
          then ReasonSessionKeySpillover else if hit then ReasonSessionKeyHit else ReasonSessionKeyMiss),
        dc_SpilloverReason = snd (selectWithinSessionKeyBounds p sn (sks_config s)),
        dc_Policy = PolicySessionKeyV1\<rparr>,
     remember (clk_refresh clk) (if hit then s1 else remember (clk_bind clk) s1 h (bID p)) h (bID p))"
  using assms(1,2)
  by (simp add: session_key_Select_def Let_def split_beta h_def p_def hit_def s1_def bound_backend_def)

lemma session_key_Select_ok:
  assumes "session_ok s" and "0 < sk_MaxEntries (sks_config s)"
  shows "session_ok (snd (session_key_Select clk s key sn))
    \<and> sks_config (snd (session_key_Select clk s key sn)) = sks_config s"
proof (cases "EligibleBackends sn = [] \<or> key = []")
  case True
  then show ?thesis using assms(1) by (auto simp: session_key_Select_def)
next
  case False
  then show ?thesis
    using assms by (simp add: session_key_Select_eq remember_ok preferred_ok)
qed

lemma session_Reconcile_config [simp]: "sks_config (session_ReconcileBackends s bs) = sks_config s"
  by (simp add: session_ReconcileBackends_def)

lemma session_Reconcile_ok: "session_ok s \<Longrightarrow> session_ok (session_ReconcileBackends s bs)"
  by (simp add: session_ok_def session_ReconcileBackends_def length_filter_int)

lemma bound_backend_member:
  assumes "sn_Backends sn \<noteq> []"
  shows "bound_backend now s key sn \<in> set (sn_Backends sn)"
proof (cases "fst (preferred now s (Sum256 (string_bytes key)) (sn_Backends sn))")
  case None
  then show ?thesis using assms by (simp add: bound_backend_def Let_def rendezvousBackend_def [of "Sum256 _"] scan_hd_tl)
next
  case (Some b)
  then have "b \<in> set (sn_Backends sn)" by (auto simp: preferred_hit find_Some_iff)
  with Some show ?thesis by (simp add: bound_backend_def)
qed

lemma find_ID:
  assumes "bid \<in> bID ` set bs"
  obtains b where "find (\<lambda>b. bID b = bid) bs = Some b" and "bID b = bid"
proof (cases "find (\<lambda>b. bID b = bid) bs")
  case None
  then show ?thesis using assms by (auto simp: find_None_iff)
next
  case (Some b)
  then show ?thesis using that by (auto simp: find_Some_iff)
qed

lemma bound_backend_live:
  assumes "map_of (sks_entries s) (Sum256 (string_bytes key)) = Some e" and "now < ske_expiresAt e"
    and "ske_backendID e \<in> bID ` set (sn_Backends sn)"
  shows "fst (preferred now s (Sum256 (string_bytes key)) (sn_Backends sn)) \<noteq> None
    \<and> bID (bound_backend now s key sn) = ske_backendID e"
proof -
  from assms(3) obtain b where b: "find (\<lambda>b. bID b = ske_backendID e) (sn_Backends sn) = Some b"
    "bID b = ske_backendID e" by (rule find_ID)
  with assms(1,2) have "fst (preferred now s (Sum256 (string_bytes key)) (sn_Backends sn)) = Some b"
    by (simp add: preferred_hit)
  then show ?thesis by (simp add: bound_backend_def b(2))
qed

subsection \<open>Rendezvous hashing\<close>

definition rendezvous_key :: "8 word list \<Rightarrow> Backend \<Rightarrow> int \<times> ID" where
  "rendezvous_key key b = (- uint (rendezvousScore key (bID b)), bID b)"

interpretation rendezvous: keyed_less "\<lambda>candidate best.
    let score = rendezvousScore key (bID candidate); bestScore = rendezvousScore key (bID best)
    in score > bestScore \<or> (score = bestScore \<and> bID candidate < bID best)"
  "rendezvous_key key" "\<lambda>_. True" for key
  by unfold_locales (auto simp: rendezvous_key_def Let_def word_less_def word_uint_eq_iff)

lemma rendezvous_least:
  assumes "b \<in> set bs"
  shows "rendezvous_key key (rendezvousBackend key bs) \<le> rendezvous_key key b"
  unfolding rendezvousBackend_def
  by (rule rendezvous.scan_least) (use assms in \<open>cases bs; simp add: list_all_iff\<close>)+

lemma rendezvous_member: "bs \<noteq> [] \<Longrightarrow> rendezvousBackend key bs \<in> set bs"
  by (simp add: rendezvousBackend_def scan_hd_tl)

subsection \<open>Properties\<close>

datatype session_op = OpSelect clock_reads string Snapshot | OpReconcile "Backend list"

fun session_run :: "sessionKeyStrategy \<Rightarrow> session_op list \<Rightarrow> sessionKeyStrategy" where
  "session_run s [] = s"
| "session_run s (OpSelect clk key sn # ops) = session_run (snd (session_key_Select clk s key sn)) ops"
| "session_run s (OpReconcile bs # ops) = session_run (session_ReconcileBackends s bs) ops"

lemma session_run_ok:
  "session_ok s \<Longrightarrow> 0 < sk_MaxEntries (sks_config s) \<Longrightarrow>
     session_ok (session_run s ops) \<and> sks_config (session_run s ops) = sks_config s"
  by (induction s ops rule: session_run.induct)
    (simp_all add: session_key_Select_ok session_Reconcile_ok)

definition wit_session_config :: SessionKeyConfig where
  "wit_session_config = \<lparr>sk_TTL = 100, sk_MaxEntries = 2, sk_InflightDelta = 4, sk_QueueDepthDelta = Fin 2\<rparr>"

definition wit_clock :: "time \<Rightarrow> clock_reads" where
  "wit_clock t = \<lparr>clk_lookup = t, clk_bind = t, clk_refresh = t\<rparr>"

lemma wit_session_max: "sk_MaxEntries wit_session_config = 2"
  by (simp add: wit_session_config_def)

lemma wit_NewSessionKey: "NewSessionKey wit_session_config = Inr (newSessionKey wit_session_config)"
  by (simp add: NewSessionKey_def SessionKeyConfig_Validate_def wit_session_config_def)

text \<open>
  C17. Starting from a strategy the constructor accepted, no sequence of selections and membership
  reconciliations ever makes the memory table larger than \<open>MaxEntries\<close>, whatever the clock reads,
  the keys and the iteration order of the table are.
\<close>

theorem session_table_bounded:
  assumes "NewSessionKey config = Inr s"
  shows "int (length (sks_entries (session_run s ops))) \<le> sk_MaxEntries config
    \<and> distinct (map fst (sks_entries (session_run s ops)))"
proof -
  from assms have s: "s = newSessionKey config" and max: "0 < sk_MaxEntries config"
    by (auto simp: NewSessionKey_def SessionKeyConfig_Validate_def split: option.splits if_splits)
  then have "session_ok s" by (simp add: session_ok_def newSessionKey_def)
  with session_run_ok [of s ops] max s
  have "session_ok (session_run s ops)" and "sks_config (session_run s ops) = config"
    by (simp_all add: newSessionKey_def)
  then show ?thesis by (simp add: session_ok_def gomap_ok_def)
qed

theorem session_table_bounded_witness:
  "int (length (sks_entries (session_run (newSessionKey wit_session_config)
     [OpSelect (wit_clock 1) ''x'' wit_snapshot, OpSelect (wit_clock 2) ''y'' wit_snapshot,
      OpSelect (wit_clock 3) ''z'' wit_snapshot, OpReconcile [wit_b1]]))) \<le> 2"
  using conjunct1 [OF session_table_bounded [OF wit_NewSessionKey]]
  unfolding wit_session_max .

text \<open>
  A session stays with its backend: once a request with some key got a decision, a later request
  with the same key within the sliding time-to-live prefers the same backend as long as discovery
  still lists it, even if either request spilled over to another backend, and the memory is renewed
  for that preferred backend.
\<close>

theorem session_key_sticky:
  assumes "session_key_Select clk s key sn = (Inr d, s1)" and "key \<noteq> []"
    and "clk_lookup clk' < clk_refresh clk + sk_TTL (sks_config s)"
    and "dc_PreferredBackendID d \<in> bID ` set (sn_Backends sn')" and "EligibleBackends sn' \<noteq> []"
  shows "\<exists>d' s2. session_key_Select clk' s1 key sn' = (Inr d', s2)
    \<and> dc_PreferredBackendID d' = dc_PreferredBackendID d \<and> dc_Reason d' \<noteq> ReasonSessionKeyMiss
    \<and> map_of (sks_entries s2) (Sum256 (string_bytes key)) =
        Some \<lparr>ske_backendID = dc_PreferredBackendID d, ske_expiresAt = clk_refresh clk' + sk_TTL (sks_config s)\<rparr>"
proof -
  have ne: "EligibleBackends sn \<noteq> []" using assms(1) by (auto simp: session_key_Select_def)
  let ?h = "Sum256 (string_bytes key)"
  have e: "map_of (sks_entries s1) ?h =
      Some \<lparr>ske_backendID = dc_PreferredBackendID d, ske_expiresAt = clk_refresh clk + sk_TTL (sks_config s)\<rparr>"
    and cfg: "sks_config s1 = sks_config s"
    using assms(1) by (auto simp: session_key_Select_eq [OF ne assms(2)] remember_self time_add_def)
  from bound_backend_live [OF e] assms(3,4)
  have hit: "fst (preferred (clk_lookup clk') s1 ?h (sn_Backends sn')) \<noteq> None"
    and bound: "bID (bound_backend (clk_lookup clk') s1 key sn') = dc_PreferredBackendID d" by simp_all
  show ?thesis
    using hit bound by (simp add: session_key_Select_eq [OF assms(5,2)] remember_self cfg time_add_def)
qed

definition wit_bound :: sessionKeyStrategy where
  "wit_bound = snd (session_key_Select (wit_clock 1) (newSessionKey wit_session_config) ''x'' wit_snapshot)"

theorem session_key_sticky_witness:
  "\<exists>d. dc_PreferredBackendID (projr (fst (session_key_Select (wit_clock 50) wit_bound ''x'' wit_snapshot))) =
      dc_PreferredBackendID d
    \<and> fst (session_key_Select (wit_clock 1) (newSessionKey wit_session_config) ''x'' wit_snapshot) = Inr d"
proof -
  let ?s = "newSessionKey wit_session_config"
  let ?p = "bound_backend 1 ?s ''x'' wit_snapshot"
  obtain d where sel: "session_key_Select (wit_clock 1) ?s ''x'' wit_snapshot = (Inr d, wit_bound)"
    and pref: "dc_PreferredBackendID d = bID ?p"
    by (simp add: session_key_Select_eq wit_bound_def wit_clock_def)
  have "?p \<in> set (sn_Backends wit_snapshot)" by (rule bound_backend_member) (simp add: wit_snapshot_def)
  then have "dc_PreferredBackendID d \<in> bID ` set (sn_Backends wit_snapshot)" by (simp add: pref)
  moreover have "clk_lookup (wit_clock 50) < clk_refresh (wit_clock 1) + sk_TTL (sks_config ?s)"
    by (simp add: wit_clock_def newSessionKey_def wit_session_config_def)
  ultimately show ?thesis
    using session_key_sticky [OF sel, of "wit_clock 50" wit_snapshot] sel by auto
qed

lemma bounds_eligible:
  assumes "EligibleBackends sn \<noteq> []" and "p \<in> set (sn_Backends sn)"
  shows "fst (selectWithinSessionKeyBounds p sn config) \<in> set (EligibleBackends sn)"
  using assms leastLoaded_eligible [OF assms(1), of "bID p"]
  by (auto simp: selectWithinSessionKeyBounds_def Let_def mem_EligibleBackends mhas_def split: option.splits)

lemma bounds_reason:
  assumes "selectWithinSessionKeyBounds p sn config = (b, r)"
    and "in_int64 (mget 0 (sn_Inflight sn) (bID b) + sk_InflightDelta config)"
  shows "if r = NoReason then b = p
    else mhas (sn_Ineligible sn) (bID p)
      \<or> queueAvailableForAll sn \<and> f_lt (f_add (queue_value sn b) (sk_QueueDepthDelta config)) (queue_value sn p)
      \<or> mget 0 (sn_Inflight sn) (bID p) > mget 0 (sn_Inflight sn) (bID b) + sk_InflightDelta config"
  using assms by (auto simp: selectWithinSessionKeyBounds_def Let_def mhas_def split: option.splits if_splits)

text \<open>
  The session-key strategy leaves the preferred backend only for a reason it reports: the
  selected backend is always eligible; without a spillover reason it is the preferred one; with one,
  the preferred backend is ineligible, or its queue exceeds the selected one's by more than
  \<open>QueueDepthDelta\<close> (and every eligible backend has a valid queue sample), or its local in-flight
  count exceeds the selected one's by more than \<open>InflightDelta\<close>.
\<close>

theorem session_key_spillover_justified:
  assumes sel: "session_key_Select clk s key sn = (Inr d, s')" and key: "key \<noteq> []"
    and int64: "\<forall>b \<in> set (EligibleBackends sn). in_int64 (mget 0 (sn_Inflight sn) (bID b) + sk_InflightDelta (sks_config s))"
  shows "dc_Backend d \<in> set (EligibleBackends sn) \<and> (\<exists>p \<in> set (sn_Backends sn). bID p = dc_PreferredBackendID d \<and>
    (if dc_SpilloverReason d = NoReason then dc_Backend d = p
     else mhas (sn_Ineligible sn) (bID p)
       \<or> queueAvailableForAll sn \<and>
         f_lt (f_add (queue_value sn (dc_Backend d)) (sk_QueueDepthDelta (sks_config s))) (queue_value sn p)
       \<or> mget 0 (sn_Inflight sn) (bID p) > mget 0 (sn_Inflight sn) (bID (dc_Backend d)) + sk_InflightDelta (sks_config s)))"
proof -
  have ne: "EligibleBackends sn \<noteq> []" using sel by (auto simp: session_key_Select_def)
  then have "sn_Backends sn \<noteq> []" by (auto simp: EligibleBackends_def)
  define p where "p = bound_backend (clk_lookup clk) s key sn"
  have p: "p \<in> set (sn_Backends sn)" unfolding p_def by (rule bound_backend_member) fact
  have d: "selectWithinSessionKeyBounds p sn (sks_config s) = (dc_Backend d, dc_SpilloverReason d)"
      "dc_PreferredBackendID d = bID p"
    using sel by (auto simp: session_key_Select_eq [OF ne key] p_def)
  have b: "dc_Backend d \<in> set (EligibleBackends sn)"
    using bounds_eligible [OF ne p, of "sks_config s"] by (simp add: d(1))
  from bounds_reason [OF d(1)] int64 b d(2) p show ?thesis by (intro conjI bexI [OF _ p]) simp_all
qed

theorem session_key_spillover_justified_witness:
  "dc_Backend (projr (fst (session_key_Select (wit_clock 1) (newSessionKey wit_session_config) ''x'' wit_snapshot)))
    \<in> set (EligibleBackends wit_snapshot)"
proof -
  obtain d s' where sel: "session_key_Select (wit_clock 1) (newSessionKey wit_session_config) ''x'' wit_snapshot = (Inr d, s')"
    by (simp add: session_key_Select_eq)
  have "\<forall>b \<in> set (EligibleBackends wit_snapshot). in_int64 (mget 0 (sn_Inflight wit_snapshot) (bID b)
      + sk_InflightDelta (sks_config (newSessionKey wit_session_config)))"
    by (simp add: wit_snapshot_def [THEN arg_cong [where f = sn_Inflight]] wit_b1_def wit_b2_def
        newSessionKey_def wit_session_config_def mget_def in_int64_def min_int64_def max_int64_def)
  from session_key_spillover_justified [OF sel _ this] show ?thesis by (simp add: sel)
qed

text \<open>
  Rendezvous hashing remaps as little as possible: when one backend joins (or, read the other
  way, leaves), every key either keeps its backend or is mapped to (from) exactly that backend.
\<close>

theorem rendezvous_minimal_remap:
  assumes "set bs' = insert x (set bs)" and "bs \<noteq> []" and "distinct (map bID bs')"
  shows "rendezvousBackend key bs' \<in> {rendezvousBackend key bs, x}"
proof -
  let ?r = "rendezvousBackend key bs" and ?r' = "rendezvousBackend key bs'"
  have inj: "inj_on bID (set bs')" using assms(3) by (simp add: distinct_map)
  have r: "?r \<in> set bs" using assms(2) by (rule rendezvous_member)
  have "bs' \<noteq> []" using assms(1) by auto
  then have r': "?r' \<in> set bs'" by (rule rendezvous_member)
  show ?thesis
  proof (cases "?r' = x")
    case False
    then have "?r' \<in> set bs" using r' assms(1) by simp
    then have "rendezvous_key key ?r \<le> rendezvous_key key ?r'" by (rule rendezvous_least)
    moreover have "rendezvous_key key ?r' \<le> rendezvous_key key ?r"
      using r assms(1) by (intro rendezvous_least) simp
    ultimately have "rendezvous_key key ?r' = rendezvous_key key ?r" by simp
    then have "bID ?r' = bID ?r" by (simp add: rendezvous_key_def)
    then have "?r' = ?r" using inj_onD [OF inj] r r' assms(1) by simp
    then show ?thesis by simp
  qed simp
qed

theorem rendezvous_minimal_remap_witness:
  "rendezvousBackend [7] [wit_b2, wit_b1] \<in> {rendezvousBackend [7] [wit_b1], wit_b2}"
  using rendezvous_minimal_remap [of "[wit_b2, wit_b1]" wit_b2 "[wit_b1]" "[7]"]
  by (auto simp: wit_b1_def wit_b2_def)

subsection \<open>The strategy interface\<close>

text \<open>
  What the request path relies on of a \<open>Strategy\<close>: an invariant that selection and reconciliation
  keep, and that a decision names an eligible backend. The length bound is that of a Go slice.
\<close>

locale strategy_contract =
  fixes select :: "'c \<Rightarrow> 's \<Rightarrow> string \<Rightarrow> Snapshot \<Rightarrow> (routing_error + Decision) \<times> 's"
    and reconcile :: "'s \<Rightarrow> Backend list \<Rightarrow> 's"
    and wf :: "'s \<Rightarrow> bool"
  assumes wf_select: "wf st \<Longrightarrow> wf (snd (select c st key sn))"
    and wf_reconcile: "wf st \<Longrightarrow> wf (reconcile st bs)"
    and select_eligible: "length (sn_Backends sn) < 9223372036854775808 \<Longrightarrow> fst (select c st key sn) = Inr d \<Longrightarrow>
      dc_Backend d \<in> set (EligibleBackends sn)"
begin

lemma select_not_blocked:
  assumes "length (sn_Backends sn) < 9223372036854775808" and "fst (select c st key sn) = Inr d"
  shows "dc_Backend d \<in> set (sn_Backends sn) \<and> map_of (sn_Ineligible sn) (bID (dc_Backend d)) = None"
  using select_eligible [OF assms] by (simp add: mem_EligibleBackends mhas_def)

lemma no_eligible_no_decision:
  "length (sn_Backends sn) < 9223372036854775808 \<Longrightarrow> EligibleBackends sn = [] \<Longrightarrow> \<exists>err. fst (select c st key sn) = Inl err"
  using select_eligible [of sn c st key] by (cases "fst (select c st key sn)") auto

end

fun strategy_wf :: "Strategy \<Rightarrow> bool" where
  "strategy_wf (StSessionKey s) \<longleftrightarrow> session_ok s \<and> 0 < sk_MaxEntries (sks_config s)"
| "strategy_wf _ \<longleftrightarrow> True"

lemma round_robin_member:
  assumes "length (sn_Backends sn) < 9223372036854775808" and "fst (round_robin_Select cursor key sn) = Inr d"
  shows "dc_Backend d \<in> set (EligibleBackends sn)"
proof -
  have ne: "EligibleBackends sn \<noteq> []" using assms(2) by (auto simp: round_robin_Select_def)
  have "length (EligibleBackends sn) \<le> length (sn_Backends sn)" by (simp add: EligibleBackends_def)
  with assms(1) have "length (EligibleBackends sn) < 2 ^ 64" by simp
  from round_robin_index [OF ne this, of cursor key] assms(2) ne show ?thesis
    by (auto simp: plain_decision_def)
qed

lemma session_key_member:
  assumes "fst (session_key_Select clk s key sn) = Inr d"
  shows "dc_Backend d \<in> set (EligibleBackends sn)"
proof (cases "key = []")
  case True
  then show ?thesis
    using assms leastLoaded_eligible
    by (auto simp: session_key_Select_def plain_decision_def split: if_splits)
next
  case False
  have ne: "EligibleBackends sn \<noteq> []" using assms by (auto simp: session_key_Select_def)
  then have "sn_Backends sn \<noteq> []" by (auto simp: EligibleBackends_def)
  from bounds_eligible [OF ne bound_backend_member [OF this]] assms show ?thesis
    by (auto simp: session_key_Select_eq [OF ne False])
qed

interpretation strategies: strategy_contract Strategy_Select Strategy_ReconcileBackends strategy_wf
proof unfold_locales
  show "strategy_wf (snd (Strategy_Select c st key sn))" if "strategy_wf st" for c st key sn
    using that by (cases st) (simp_all add: split_beta session_key_Select_ok)
  show "strategy_wf (Strategy_ReconcileBackends st bs)" if "strategy_wf st" for st bs
    using that by (cases st) (simp_all add: session_Reconcile_ok)
  show "dc_Backend d \<in> set (EligibleBackends sn)"
    if "length (sn_Backends sn) < 9223372036854775808" "fst (Strategy_Select c st key sn) = Inr d" for sn c st key d
    using that loadBalancedBackends_subset [of sn]
    by (cases st) (auto simp: split_beta dest: round_robin_member session_key_member
        load_balanced_member load_aware_member kv_aware_member)
qed

text \<open>
  Every strategy the factory can build returns only backends that discovery lists and that
  neither the lifecycle nor a circuit blocks; with no such backend it returns an error and never a
  decision.
\<close>

theorem strategy_selects_eligible:
  assumes "length (sn_Backends sn) < 9223372036854775808"
  shows "(\<forall>d. fst (Strategy_Select clk st key sn) = Inr d \<longrightarrow>
      dc_Backend d \<in> set (sn_Backends sn) \<and> map_of (sn_Ineligible sn) (bID (dc_Backend d)) = None)
    \<and> (EligibleBackends sn = [] \<longrightarrow> (\<exists>err. fst (Strategy_Select clk st key sn) = Inl err))"
  using strategies.select_not_blocked [OF assms, of clk st key]
    strategies.no_eligible_no_decision [OF assms, of clk st key] by blast

theorem strategy_selects_eligible_witness:
  "\<exists>d. fst (Strategy_Select (wit_clock 1) StLoadAware ''k'' wit_snapshot) = Inr d
     \<and> map_of (sn_Ineligible wit_snapshot) (bID (dc_Backend d)) = None"
  using strategy_selects_eligible [of wit_snapshot "wit_clock 1" StLoadAware "''k''"]
  by (simp add: wit_load_aware) (simp add: wit_snapshot_def)

text \<open>
  The factory builds a strategy exactly for the configurations it validates, and the strategy's
  name is the configured mode (\<open>load-aware\<close> for the empty mode).
\<close>

theorem NewConfigured_spec:
  "(case NewConfigured url_parse config of
      Inr st \<Rightarrow> routing_Config_Validate url_parse config = None \<and> strategy_wf st
        \<and> Strategy_Name st = (if rc_Mode config = [] then ModeLoadAware else rc_Mode config)
    | Inl err \<Rightarrow> routing_Config_Validate url_parse config = Some err)"
proof (cases "routing_Config_Validate url_parse config")
  case None
  then have "rc_Mode config \<in> {[], ModeRoundRobin, ModeLoadBalanced, ModeLoadAware, ModeSessionKey, ModeKVAware}"
    by (auto simp: routing_Config_Validate_def Mode_Validate_def split: option.splits if_splits)
  moreover have "0 < sk_MaxEntries (rc_SessionKey config)" if "rc_Mode config = ModeSessionKey"
    using None that
    by (auto simp: routing_Config_Validate_def SessionKeyConfig_Validate_def split: option.splits if_splits)
  ultimately show ?thesis
    using None
    by (auto simp: NewConfigured_def mode_defs newSessionKey_def session_ok_def)
qed (simp add: NewConfigured_def)

end
