(* ===== verification/KV_Stream.thy ===== *)
theory KV_Stream
  imports Backend
begin

text \<open>
  \<open>internal/serving/kvcache\<close>, the event stream of one vLLM pod: \<open>lifecycle_impl.go\<close>,
  \<open>replay_impl.go\<close>, the frame codec of \<open>zmq_impl.go\<close> and the values of \<open>kvcache.go\<close> and
  \<open>config.go\<close>. The store behind the stream is the interface \<open>cacheStore\<close> of the code, here a record of
  three functions over an arbitrary store state; \<open>accept\<close> runs whole, as \<open>processMu\<close> makes it
  exclusive. Sequences and counters are 64-bit words. Error texts are values of \<open>kv_cause\<close>; the
  observer callbacks are returned as a list. The ZeroMQ sockets, contexts and timers are not modelled.
\<close>

subsection \<open>Values\<close>

datatype KVReason = KVNone | KVBackendUnknown | KVModelMismatch | KVReplayNotConfirmed
  | KVReplayHeartbeatStale | KVSequenceGap | KVSequenceReset | KVUnrecoverableSequenceGap
  | KVEventTooLarge | KVEventDecodeFailed | KVEventApplyFailed | KVEngineRequestKeyMismatch
  | KVUnsupportedEvent | KVReplayCapacityExceeded | KVLifecycleChanging | KVClosed

datatype kv_cause =
    NoCause
  | CausePayloadBytes nat
  | CauseTopic string string
  | CauseSequenceReset "64 word" "64 word"
  | CauseReplayStarts "64 word"
  | CauseLiveSkipped "64 word"
  | CauseSequence "64 word" "64 word" kv_cause
  | CauseClearAfterReset kv_cause
  | CauseClearPartial kv_cause kv_cause
  | CauseReplayExceeds int
  | CauseReplayFrom "64 word" kv_cause
  | CauseFollow kv_cause
  | CauseClear string kv_cause
  | CauseFrames
  | CauseText string

datatype apply_error = ApplyFault KVReason kv_cause | ApplyOther kv_cause

record Instance =
  in_Backend :: ID
  in_PodUID :: string
  in_PodIdentifier :: string
  in_Model :: string
  in_EventsEndpoint :: string
  in_ReplayEndpoint :: string

record Event =
  ev_Topic :: string
  ev_Sequence :: "64 word"
  ev_Payload :: "8 word list"

record kv_Config =
  BlockSizeTokens :: int
  HashSeed :: string
  MaxIndexKeys :: int
  MaxInstances :: int
  MaxBackendsPerKey :: int
  MaxEventBytes :: int
  MaxReplayEvents :: int
  MaxQueryTokens :: int
  MaxCacheSaltBytes :: int
  ReplayPeriod :: duration
  ReplayTimeout :: duration
  FreshnessTTL :: duration
  ReconnectDelay :: duration

datatype kv_config_error = ErrKVLimits | ErrKVBackendsPerKey | ErrKVEventLimits | ErrKVDurations

definition kv_Config_Validate :: "kv_Config \<Rightarrow> kv_config_error option" where
  "kv_Config_Validate c =
     (if BlockSizeTokens c \<le> 0 \<or> MaxIndexKeys c \<le> 0 \<or> MaxInstances c \<le> 0 \<or> MaxBackendsPerKey c \<le> 0
      then Some ErrKVLimits
      else if MaxBackendsPerKey c < MaxInstances c then Some ErrKVBackendsPerKey
      else if MaxEventBytes c \<le> 0 \<or> MaxReplayEvents c \<le> 0 \<or> MaxQueryTokens c \<le> 0 \<or> MaxCacheSaltBytes c \<le> 0
      then Some ErrKVEventLimits
      else if ReplayPeriod c \<le> 0 \<or> ReplayTimeout c \<le> 0 \<or> FreshnessTTL c \<le> ReplayPeriod c \<or> ReconnectDelay c \<le> 0
      then Some ErrKVDurations
      else None)"

datatype kv_obs =
    ObsEvent ID bool duration
  | ObsReset ID "64 word" "64 word" bool
  | ObsEventError ID KVReason bool

record Query =
  q_Model :: string
  q_CacheSalt :: string
  q_TokenGroups :: "32 word list list"
  q_Backends :: "ID list"

record 'st cacheStore =
  cs_Lookup :: "'st \<Rightarrow> Query \<Rightarrow> (ID, Instance) gomap \<Rightarrow> (kv_cause + (ID, int) gomap \<times> int) \<times> 'st"
  cs_Apply :: "'st \<Rightarrow> Instance \<Rightarrow> Event \<Rightarrow> (apply_error + time) \<times> 'st"
  cs_Clear :: "'st \<Rightarrow> string \<Rightarrow> kv_cause option \<times> 'st"

record eventStream =
  es_config :: kv_Config
  es_instance :: Instance
  es_started :: bool
  es_closed :: bool
  es_reason :: KVReason
  es_lastError :: kv_cause
  es_hasSeq :: bool
  es_lastSeq :: "64 word"
  es_gapUntil :: "64 word"
  es_lastReplayAt :: time
  es_lastEventAt :: time
  es_lastEventLag :: duration
  es_appliedBatches :: "64 word"
  es_replayBatches :: "64 word"
  es_duplicateBatches :: "64 word"

record InstanceState =
  is_Instance :: Instance
  is_Valid :: bool
  is_Reason :: KVReason
  is_HasSequence :: bool
  is_LastSequence :: "64 word"
  is_LastReplayAt :: time
  is_LastEventAt :: time
  is_LastEventLag :: duration
  is_Freshness :: duration
  is_AppliedBatches :: "64 word"
  is_ReplayBatches :: "64 word"
  is_DuplicateBatches :: "64 word"
  is_LastError :: kv_cause

subsection \<open>Stream state\<close>

definition newEventStream :: "kv_Config \<Rightarrow> Instance \<Rightarrow> eventStream" where
  "newEventStream config inst =
     \<lparr>es_config = config, es_instance = inst, es_started = False, es_closed = False,
      es_reason = KVReplayNotConfirmed, es_lastError = NoCause, es_hasSeq = False, es_lastSeq = 0,
      es_gapUntil = 0, es_lastReplayAt = zero_time, es_lastEventAt = zero_time, es_lastEventLag = 0,
      es_appliedBatches = 0, es_replayBatches = 0, es_duplicateBatches = 0\<rparr>"

definition stream_Start :: "eventStream \<Rightarrow> eventStream" where
  \<comment> \<open>the two goroutines it starts are the live and the replay steps\<close>
  "stream_Start s = (if es_started s \<or> es_closed s then s else s\<lparr>es_started := True\<rparr>)"

definition stream_Snapshot :: "time \<Rightarrow> eventStream \<Rightarrow> InstanceState" where
  "stream_Snapshot now s =
     (let freshness = (if \<not> IsZero (es_lastReplayAt s)
                       then (let f = time_sub now (es_lastReplayAt s) in if f < 0 then 0 else f) else 0);
          valid = (\<not> es_closed s \<and> es_reason s = KVNone \<and> \<not> IsZero (es_lastReplayAt s)
                   \<and> freshness \<le> FreshnessTTL (es_config s));
          reason = (if \<not> valid \<and> es_reason s = KVNone then KVReplayHeartbeatStale else es_reason s)
      in \<lparr>is_Instance = es_instance s, is_Valid = valid, is_Reason = reason,
          is_HasSequence = es_hasSeq s, is_LastSequence = es_lastSeq s,
          is_LastReplayAt = es_lastReplayAt s, is_LastEventAt = es_lastEventAt s,
          is_LastEventLag = es_lastEventLag s, is_Freshness = freshness,
          is_AppliedBatches = es_appliedBatches s, is_ReplayBatches = es_replayBatches s,
          is_DuplicateBatches = es_duplicateBatches s, is_LastError = es_lastError s\<rparr>)"

definition stream_Same :: "eventStream \<Rightarrow> Instance \<Rightarrow> bool" where
  "stream_Same s inst \<longleftrightarrow> es_instance s = inst"

definition Invalidate :: "KVReason \<Rightarrow> kv_cause \<Rightarrow> eventStream \<Rightarrow> eventStream" where
  "Invalidate reason detail s = s\<lparr>es_reason := reason, es_lastError := detail\<rparr>"

definition stream_Close :: "eventStream \<Rightarrow> eventStream" where
  "stream_Close s =
     (if es_closed s then s
      else let s1 = s\<lparr>es_closed := True\<rparr>
           in if es_reason s1 = KVNone \<or> es_reason s1 = KVReplayNotConfirmed
              then s1\<lparr>es_reason := KVClosed\<rparr> else s1)"

definition topicPrefix :: string where
  "topicPrefix = ''kv@''"

definition instanceTopic :: "Instance \<Rightarrow> string" where
  "instanceTopic i = topicPrefix @ in_PodIdentifier i @ ''@'' @ in_Model i"

definition recordError :: "kv_cause \<Rightarrow> eventStream \<Rightarrow> eventStream" where
  "recordError err s = (if err = NoCause then s else s\<lparr>es_lastError := err\<rparr>)"

definition nextSequence :: "eventStream \<Rightarrow> 64 word" where
  "nextSequence s = (if \<not> es_hasSeq s then 0 else es_lastSeq s + 1)"

definition hasFatalReason :: "eventStream \<Rightarrow> bool" where
  "hasFatalReason s \<longleftrightarrow> es_reason s \<notin> {KVNone, KVReplayNotConfirmed, KVSequenceGap, KVSequenceReset}"

definition sequenceResetMaxNearZero :: "64 word" where "sequenceResetMaxNearZero = 1"
definition sequenceResetMinPrevious :: "64 word" where "sequenceResetMinPrevious = 4"

definition isSequenceReset :: "64 word \<Rightarrow> 64 word \<Rightarrow> bool" where
  "isSequenceReset sequence previous \<longleftrightarrow>
     sequence \<le> sequenceResetMaxNearZero \<and> previous \<ge> sequenceResetMinPrevious \<and> sequence < previous div 2"

datatype seq_verdict = SeqDuplicate | SeqNext | SeqReset | SeqFatal kv_cause

definition classifySequence :: "64 word \<Rightarrow> bool \<Rightarrow> eventStream \<Rightarrow> 64 word \<times> seq_verdict \<times> eventStream" where
  "classifySequence sequence replayed s =
     (let expected = (if es_hasSeq s then es_lastSeq s + 1 else 0)
      in if es_hasSeq s \<and> isSequenceReset sequence (es_lastSeq s)
         then (expected, SeqReset,
               s\<lparr>es_hasSeq := False, es_lastSeq := 0, es_gapUntil := 0, es_lastReplayAt := zero_time,
                 es_reason := KVSequenceReset, es_lastError := CauseSequenceReset (es_lastSeq s) sequence\<rparr>)
         else if sequence < expected
         then (expected, SeqDuplicate, s\<lparr>es_duplicateBatches := es_duplicateBatches s + 1\<rparr>)
         else if sequence = expected then (expected, SeqNext, s)
         else if replayed then (expected, SeqFatal (CauseReplayStarts sequence), s)
         else (expected, SeqFatal (CauseLiveSkipped sequence),
               s\<lparr>es_reason := KVSequenceGap,
                 es_gapUntil := (if sequence > es_gapUntil s then sequence else es_gapUntil s)\<rparr>))"

definition invalidateAndClear :: "'st cacheStore \<Rightarrow> KVReason \<Rightarrow> kv_cause \<Rightarrow> eventStream \<Rightarrow> 'st \<Rightarrow>
    eventStream \<times> 'st" where
  "invalidateAndClear store reason cause s st =
     (let s1 = Invalidate reason cause s;
          (err, st1) = cs_Clear store st (in_PodIdentifier (es_instance s))
      in case err of
           None \<Rightarrow> (s1, st1)
         | Some e \<Rightarrow> (recordError (CauseClearPartial cause e) s1, st1))"

definition publish_applied :: "time \<Rightarrow> time \<Rightarrow> Event \<Rightarrow> bool \<Rightarrow> eventStream \<Rightarrow> kv_obs list \<times> eventStream" where
  \<comment> \<open>the end of \<open>accept\<close>, after a successful \<open>Apply\<close>\<close>
  "publish_applied appliedAt publishedAt event replayed s =
     (let hasObservation = (\<not> IsZero publishedAt \<and> \<not> publishedAt > appliedAt);
          lag = time_sub appliedAt publishedAt;
          s1 = s\<lparr>es_hasSeq := True, es_lastSeq := ev_Sequence event, es_lastEventAt := appliedAt,
                 es_lastEventLag := (if hasObservation then lag else es_lastEventLag s),
                 es_appliedBatches := es_appliedBatches s + 1,
                 es_replayBatches := (if replayed then es_replayBatches s + 1 else es_replayBatches s)\<rparr>
      in (if hasObservation then [ObsEvent (in_Backend (es_instance s)) replayed lag] else [], s1))"

definition apply_event :: "'st cacheStore \<Rightarrow> time \<Rightarrow> Event \<Rightarrow> bool \<Rightarrow> eventStream \<Rightarrow> 'st \<Rightarrow>
    kv_cause option \<times> kv_obs list \<times> eventStream \<times> 'st" where
  \<comment> \<open>\<open>accept\<close> from the call of \<open>Apply\<close> on\<close>
  "apply_event store appliedAt event replayed s st =
     (case cs_Apply store st (es_instance s) event of
        (Inl err, st1) \<Rightarrow>
          let (reason, cause) = (case err of ApplyFault r c \<Rightarrow> (r, c) | ApplyOther c \<Rightarrow> (KVEventApplyFailed, c));
              (s2, st2) = invalidateAndClear store reason cause s st1
          in (Some cause, [ObsEventError (in_Backend (es_instance s)) reason replayed], s2, st2)
      | (Inr publishedAt, st1) \<Rightarrow>
          let (obs, s2) = publish_applied appliedAt publishedAt event replayed s
          in (None, obs, s2, st1))"

definition accept :: "'st cacheStore \<Rightarrow> time \<Rightarrow> Event \<Rightarrow> bool \<Rightarrow> eventStream \<Rightarrow> 'st \<Rightarrow>
    kv_cause option \<times> kv_obs list \<times> eventStream \<times> 'st" where
  "accept store appliedAt event replayed s st =
     (if int (length (ev_Payload event)) > MaxEventBytes (es_config s)
      then let err = CausePayloadBytes (length (ev_Payload event));
               (s1, st1) = invalidateAndClear store KVEventTooLarge err s st
           in (Some err, [], s1, st1)
      else if ev_Topic event \<noteq> instanceTopic (es_instance s)
      then let err = CauseTopic (ev_Topic event) (instanceTopic (es_instance s));
               (s1, st1) = invalidateAndClear store KVEventDecodeFailed err s st
           in (Some err, [], s1, st1)
      else
        let (expected, verdict, s1) = classifySequence (ev_Sequence event) replayed s
        in case verdict of
             SeqDuplicate \<Rightarrow> (None, [], s1, st)
           | SeqFatal fatal \<Rightarrow>
               let (s2, st2) = (if replayed then invalidateAndClear store KVUnrecoverableSequenceGap fatal s1 st
                                else (s1, st))
               in (Some (CauseSequence (ev_Sequence event) expected fatal), [], s2, st2)
           | SeqNext \<Rightarrow> apply_event store appliedAt event replayed s1 st
           | SeqReset \<Rightarrow>
               (case cs_Clear store st (in_PodIdentifier (es_instance s1)) of
                  (Some e, st1) \<Rightarrow>
                    (Some (CauseClearAfterReset e), [ObsEventError (in_Backend (es_instance s1)) KVEventApplyFailed replayed],
                     Invalidate KVEventApplyFailed (CauseClearAfterReset e) s1, st1)
                | (None, st1) \<Rightarrow>
                    let (err, obs, s2, st2) = apply_event store appliedAt event replayed s1 st1
                    in (err, ObsReset (in_Backend (es_instance s1)) (ev_Sequence event) (expected - 1) replayed # obs, s2, st2)))"

subsection \<open>Replay\<close>

definition replay_confirmed :: "time \<Rightarrow> eventStream \<Rightarrow> eventStream" where
  \<comment> \<open>the end of \<open>replayOnce\<close>, after the END sentinel\<close>
  "replay_confirmed now s =
     (let s1 = s\<lparr>es_lastReplayAt := now, es_lastError := NoCause\<rparr>
      in case es_reason s1 of
           KVReplayNotConfirmed \<Rightarrow> s1\<lparr>es_reason := KVNone\<rparr>
         | KVSequenceReset \<Rightarrow> s1\<lparr>es_reason := KVNone\<rparr>
         | KVSequenceGap \<Rightarrow>
             if es_hasSeq s1 \<and> es_lastSeq s1 \<ge> es_gapUntil s1
             then s1\<lparr>es_reason := KVNone, es_gapUntil := 0\<rparr> else s1
         | _ \<Rightarrow> s1)"

definition replay_handler :: "'st cacheStore \<Rightarrow> time \<Rightarrow> Event \<Rightarrow> int \<times> eventStream \<times> 'st \<Rightarrow>
    kv_cause option \<times> int \<times> eventStream \<times> 'st" where
  \<comment> \<open>the callback \<open>replayOnce\<close> passes to \<open>Replay\<close>\<close>
  "replay_handler store now event acc =
     (let (count, s, st) = acc
      in if count \<ge> MaxReplayEvents (es_config s)
         then let err = CauseReplayExceeds (MaxReplayEvents (es_config s));
                  (s1, st1) = invalidateAndClear store KVReplayCapacityExceeded err s st
              in (Some err, count, s1, st1)
         else let (err, _, s1, st1) = accept store now event True s st
              in (err, count + 1, s1, st1))"

fun replay_deliver :: "'st cacheStore \<Rightarrow> (time \<times> Event) list \<Rightarrow> int \<times> eventStream \<times> 'st \<Rightarrow>
    kv_cause option \<times> int \<times> eventStream \<times> 'st" where
  \<comment> \<open>the receive loop of \<open>Replay\<close>: it stops at the first error of the callback\<close>
  "replay_deliver store [] acc = (None, acc)"
| "replay_deliver store ((now, event) # rest) acc =
     (case replay_handler store now event acc of
        (Some err, acc1) \<Rightarrow> (Some err, acc1)
      | (None, acc1) \<Rightarrow> replay_deliver store rest acc1)"

definition replayOnce :: "'st cacheStore \<Rightarrow> (64 word \<Rightarrow> (time \<times> Event) list \<times> kv_cause option) \<Rightarrow>
    bool \<Rightarrow> time \<Rightarrow> eventStream \<Rightarrow> 'st \<Rightarrow> eventStream \<times> 'st" where
  \<comment> \<open>\<open>source start\<close> is what the replay socket yields for a request: the delivered events, then
      \<open>None\<close> for the END sentinel or the transport error; \<open>cancelled\<close> is \<open>parent.Err() != nil\<close>\<close>
  "replayOnce store source cancelled now s st =
     (if hasFatalReason s then (s, st)
      else
        let requested = nextSequence s; (events, transport) = source requested
        in case replay_deliver store events (0, s, st) of
             (Some err, _, s1, st1) \<Rightarrow>
               (if \<not> cancelled then recordError (CauseReplayFrom requested err) s1 else s1, st1)
           | (None, _, s1, st1) \<Rightarrow>
               (case transport of
                  Some err \<Rightarrow> (if \<not> cancelled then recordError (CauseReplayFrom requested err) s1 else s1, st1)
                | None \<Rightarrow> (replay_confirmed now s1, st1)))"

fun follow_deliver :: "'st cacheStore \<Rightarrow> (time \<times> Event) list \<Rightarrow> eventStream \<Rightarrow> 'st \<Rightarrow>
    kv_cause option \<times> eventStream \<times> 'st" where
  \<comment> \<open>the receive loop of \<open>Follow\<close>\<close>
  "follow_deliver store [] s st = (None, s, st)"
| "follow_deliver store ((now, event) # rest) s st =
     (case accept store now event False s st of
        (Some err, _, s1, st1) \<Rightarrow> (Some err, s1, st1)
      | (None, _, s1, st1) \<Rightarrow> follow_deliver store rest s1 st1)"

definition live_round :: "'st cacheStore \<Rightarrow> (time \<times> Event) list \<Rightarrow> kv_cause \<Rightarrow> bool \<Rightarrow> eventStream \<Rightarrow> 'st \<Rightarrow>
    bool \<times> eventStream \<times> 'st" where
  \<comment> \<open>one round of \<open>runLive\<close>: \<open>Follow\<close> delivers the events and then fails with the given transport
      error; the result says whether the loop goes on\<close>
  "live_round store events transport cancelled s st =
     (let (err, s1, st1) = follow_deliver store events s st;
          cause = (case err of Some e \<Rightarrow> e | None \<Rightarrow> transport)
      in if cancelled then (False, s1, st1)
         else let s2 = recordError (CauseFollow cause) s1
              in (\<not> hasFatalReason s2, s2, st1))"

subsection \<open>Frames\<close>

definition replayEndSequence :: "64 word" where
  "replayEndSequence = - 1"

definition PutUint64 :: "64 word \<Rightarrow> 8 word list" where
  "PutUint64 w = map (\<lambda>i. ucast (drop_bit (8 * (7 - i)) w)) [0..<8]"

definition decodeLiveMessage :: "8 word list list \<Rightarrow> kv_cause + Event" where
  "decodeLiveMessage frames =
     (if length frames \<noteq> 3 \<or> length (frames ! 1) \<noteq> 8 then Inl CauseFrames
      else Inr \<lparr>ev_Topic = map (\<lambda>b. char_of (unat b)) (frames ! 0),
                ev_Sequence = be_word (frames ! 1), ev_Payload = frames ! 2\<rparr>)"

definition decodeReplayMessage :: "string \<Rightarrow> 8 word list list \<Rightarrow> kv_cause + Event option" where
  \<comment> \<open>\<open>Inr None\<close> is the END sentinel\<close>
  "decodeReplayMessage topic frames0 =
     (let frames = (if length frames0 = 3 \<and> length (frames0 ! 0) = 0 then tl frames0 else frames0)
      in if length frames \<noteq> 2 \<or> length (frames ! 0) \<noteq> 8 then Inl CauseFrames
         else let sequence = be_word (frames ! 0)
              in if sequence = replayEndSequence then Inr None
                 else Inr (Some \<lparr>ev_Topic = topic, ev_Sequence = sequence, ev_Payload = frames ! 1\<rparr>))"

subsection \<open>What the store was told\<close>

text \<open>
  The store wrapped with a log of its calls. \<open>content\<close> reads from the log which event batches the
  index holds of the pod: \<open>None\<close> when a failed call leaves it unknown.
\<close>

datatype store_call = CApply "64 word" bool | CClear bool

definition logged :: "'st cacheStore \<Rightarrow> ('st \<times> store_call list) cacheStore" where
  "logged store =
     \<lparr>cs_Lookup = (\<lambda>(st, log) q is. let (r, st1) = cs_Lookup store st q is in (r, (st1, log))),
      cs_Apply = (\<lambda>(st, log) i e. let (r, st1) = cs_Apply store st i e
        in (r, (st1, log @ [CApply (ev_Sequence e) (\<not> isl r)]))),
      cs_Clear = (\<lambda>(st, log) pid. let (r, st1) = cs_Clear store st pid
        in (r, (st1, log @ [CClear (r = None)])))\<rparr>"

fun content_step :: "64 word list option \<Rightarrow> store_call \<Rightarrow> 64 word list option" where
  "content_step c (CApply q True) = map_option (\<lambda>xs. xs @ [q]) c"
| "content_step c (CApply q False) = None"
| "content_step c (CClear True) = Some []"
| "content_step c (CClear False) = None"

definition content :: "store_call list \<Rightarrow> 64 word list option" where
  "content log = foldl content_step (Some []) log"

lemma content_snoc [simp]: "content (log @ [c]) = content_step (content log) c"
  by (simp add: content_def)

lemma content_Nil [simp]: "content [] = Some []"
  by (simp add: content_def)

definition seq_range :: "64 word \<Rightarrow> 64 word \<Rightarrow> 64 word list" where
  "seq_range k n = map of_nat [unat k..<Suc (unat n)]"

lemma seq_range_single [simp]: "seq_range k k = [k]"
  by (simp add: seq_range_def)

lemma seq_range_next:
  assumes "k \<le> n" and "n < n + 1"
  shows "seq_range k (n + 1) = seq_range k n @ [n + 1]"
proof -
  have "1 + n \<noteq> 0"
  proof
    assume "1 + n = 0"
    then show False using assms(2) by (simp add: add.commute)
  qed
  from unatSuc [OF this] have u: "unat (n + 1) = Suc (unat n)" by (simp add: add.commute)
  have "unat k \<le> unat n" using assms(1) by (simp add: word_le_nat_alt)
  then show ?thesis by (simp add: seq_range_def u)
qed

definition tracks :: "eventStream \<Rightarrow> store_call list \<Rightarrow> bool" where
  \<comment> \<open>the index holds exactly the batches up to the last sequence, from 0 or, after a reset, from 1\<close>
  "tracks s log \<longleftrightarrow>
     (if es_hasSeq s
      then \<exists>k. (k = 0 \<or> k = 1) \<and> k \<le> es_lastSeq s \<and> content log = Some (seq_range k (es_lastSeq s))
      else content log = Some [])"

definition ends_block :: "eventStream \<Rightarrow> store_call list \<Rightarrow> bool" where
  \<comment> \<open>what the index is known to hold is a block of consecutive batches that ends with the last sequence\<close>
  "ends_block s log \<longleftrightarrow>
     (case content log of None \<Rightarrow> True
      | Some xs \<Rightarrow> xs = [] \<or> es_hasSeq s \<and> (\<exists>k \<le> es_lastSeq s. xs = seq_range k (es_lastSeq s)))"

definition stream_inv :: "bool \<Rightarrow> eventStream \<Rightarrow> store_call list \<Rightarrow> bool" where
  "stream_inv lost s log \<longleftrightarrow> (\<not> hasFatalReason s \<and> \<not> lost \<longrightarrow> tracks s log) \<and> ends_block s log"

lemma inv_same_position:
  assumes "stream_inv lost s log" and "es_hasSeq s' = es_hasSeq s" and "es_lastSeq s' = es_lastSeq s"
    and "\<not> hasFatalReason s' \<Longrightarrow> \<not> lost' \<Longrightarrow> \<not> hasFatalReason s \<and> \<not> lost"
  shows "stream_inv lost' s' log"
proof -
  have "tracks s' log = tracks s log" "ends_block s' log = ends_block s log"
    unfolding tracks_def ends_block_def assms(2,3) by (rule refl)+
  with assms(1,4) show ?thesis unfolding stream_inv_def by blast
qed

text \<open>
  A step of \<open>accept\<close> can forget a fatal reason: the live event that skips ahead overwrites it with the gap.
  The flag \<open>lost\<close> remembers that this happened since the index was last rebuilt after a sequence reset.
\<close>

definition restarted :: "kv_obs list \<Rightarrow> bool" where
  "restarted obs \<longleftrightarrow> list_ex (\<lambda>ob. case ob of ObsReset _ _ _ _ \<Rightarrow> True | _ \<Rightarrow> False) obs"

definition lost_after :: "bool \<Rightarrow> eventStream \<Rightarrow> kv_obs list \<Rightarrow> eventStream \<Rightarrow> bool" where
  "lost_after lost s obs s' \<longleftrightarrow> \<not> restarted obs \<and> (lost \<or> hasFatalReason s \<and> es_reason s' = KVSequenceGap)"

lemma classify_cases:
  obtains (reset) "es_hasSeq s" "isSequenceReset q (es_lastSeq s)"
      "classifySequence q r s = (nextSequence s, SeqReset,
        s\<lparr>es_hasSeq := False, es_lastSeq := 0, es_gapUntil := 0, es_lastReplayAt := zero_time,
          es_reason := KVSequenceReset, es_lastError := CauseSequenceReset (es_lastSeq s) q\<rparr>)"
    | (duplicate) "q < nextSequence s"
      "classifySequence q r s = (nextSequence s, SeqDuplicate, s\<lparr>es_duplicateBatches := es_duplicateBatches s + 1\<rparr>)"
    | (nxt) "q = nextSequence s" "es_hasSeq s \<longrightarrow> \<not> isSequenceReset q (es_lastSeq s)"
      "classifySequence q r s = (nextSequence s, SeqNext, s)"
    | (replay_gap) "nextSequence s < q" "r" "classifySequence q r s = (nextSequence s, SeqFatal (CauseReplayStarts q), s)"
    | (gap) "nextSequence s < q" "\<not> r" "classifySequence q r s = (nextSequence s, SeqFatal (CauseLiveSkipped q),
        s\<lparr>es_reason := KVSequenceGap, es_gapUntil := (if q > es_gapUntil s then q else es_gapUntil s)\<rparr>)"
proof -
  have e: "(if es_hasSeq s then es_lastSeq s + 1 else 0) = nextSequence s" by (simp add: nextSequence_def)
  note c = classifySequence_def [where s = s, unfolded e Let_def]
  show thesis
  proof (cases "es_hasSeq s \<and> isSequenceReset q (es_lastSeq s)")
    case True
    then show thesis by (intro reset) (simp_all add: c)
  next
    case False
    consider "q < nextSequence s" | "q = nextSequence s" | "nextSequence s < q" "r" | "nextSequence s < q" "\<not> r"
      by (metis linorder_neqE)
    then show thesis
    proof cases
      case 1
      then show thesis using False by (intro duplicate) (simp_all only: c if_False if_True)
    next
      case 2
      then show thesis using False by (intro nxt) (auto simp: c)
    next
      case 3
      then show thesis using False by (intro replay_gap) (auto simp: c)
    next
      case 4
      then show thesis using False by (intro gap) (auto simp: c)
    qed
  qed
qed

subsection \<open>The contract of the store and what the stream keeps\<close>

definition fatal_reason :: "KVReason \<Rightarrow> bool" where
  "fatal_reason r \<longleftrightarrow> r \<notin> {KVNone, KVReplayNotConfirmed, KVSequenceGap, KVSequenceReset}"

lemma hasFatalReason_iff: "hasFatalReason s \<longleftrightarrow> fatal_reason (es_reason s)"
  by (simp add: hasFatalReason_def fatal_reason_def)

lemma fatal_reasons [simp]:
  "fatal_reason KVEventTooLarge" "fatal_reason KVEventDecodeFailed" "fatal_reason KVUnrecoverableSequenceGap"
  "fatal_reason KVEventApplyFailed" "fatal_reason KVReplayCapacityExceeded" "fatal_reason KVUnsupportedEvent"
  "fatal_reason KVEngineRequestKeyMismatch" "fatal_reason KVLifecycleChanging" "fatal_reason KVClosed"
  "\<not> fatal_reason KVNone" "\<not> fatal_reason KVReplayNotConfirmed" "\<not> fatal_reason KVSequenceGap"
  "\<not> fatal_reason KVSequenceReset"
  by (simp_all add: fatal_reason_def)

lemma invalidate_reason:
  "es_reason (fst (invalidateAndClear store reason cause s st)) = reason"
  by (simp add: invalidateAndClear_def Invalidate_def recordError_def split_beta Let_def split: option.splits)

lemma invalidated_reason:
  "invalidateAndClear store reason cause s st = (s', st') \<Longrightarrow> es_reason s' = reason"
  by (metis fst_conv invalidate_reason)

lemma logged_Apply:
  "cs_Apply (logged store) (st, log) i e =
     (fst (cs_Apply store st i e), snd (cs_Apply store st i e), log @ [CApply (ev_Sequence e) (\<not> isl (fst (cs_Apply store st i e)))])"
  by (simp add: logged_def split_beta Let_def)

lemma logged_Clear:
  "cs_Clear (logged store) (st, log) pid =
     (fst (cs_Clear store st pid), snd (cs_Clear store st pid), log @ [CClear (fst (cs_Clear store st pid) = None)])"
  by (simp add: logged_def split_beta Let_def)

lemma invalidated_block:
  assumes "invalidateAndClear (logged store) reason cause s (st, log) = (s', (st', log'))"
  shows "ends_block s' log'"
proof -
  obtain ok where "log' = log @ [CClear ok]"
    using assms by (auto simp: invalidateAndClear_def logged_Clear Let_def split: option.splits)
  then show ?thesis by (cases ok) (simp_all add: ends_block_def)
qed

text \<open>A batch whose sequence is the next one extends what the index holds by exactly that batch.\<close>

definition fits :: "bool \<Rightarrow> eventStream \<Rightarrow> store_call list \<Rightarrow> 64 word \<Rightarrow> bool" where
  "fits lost s log q \<longleftrightarrow>
     (\<not> hasFatalReason s \<and> \<not> lost \<longrightarrow>
        (\<exists>k. (k = 0 \<or> k = 1) \<and> k \<le> q \<and> map_option (\<lambda>xs. xs @ [q]) (content log) = Some (seq_range k q)))
     \<and> (content log = None \<or> (\<exists>k \<le> q. map_option (\<lambda>xs. xs @ [q]) (content log) = Some (seq_range k q)))"

lemma next_not_zero:
  assumes "es_hasSeq s" and "\<not> isSequenceReset (nextSequence s) (es_lastSeq s)"
  shows "es_lastSeq s < es_lastSeq s + 1"
proof (rule ccontr)
  assume "\<not> ?thesis"
  then have "1 + es_lastSeq s = 0"
    using unatSuc [of "es_lastSeq s"] by (auto simp: word_less_nat_alt add.commute)
  then have "es_lastSeq s = - 1" by (simp add: add_eq_0_iff)
  with assms show False
    by (simp add: nextSequence_def isSequenceReset_def sequenceResetMaxNearZero_def sequenceResetMinPrevious_def)
qed

lemma fits_next:
  assumes "stream_inv lost s log" and "es_hasSeq s \<longrightarrow> \<not> isSequenceReset (nextSequence s) (es_lastSeq s)"
  shows "fits lost s log (nextSequence s)"
proof (cases "es_hasSeq s")
  case True
  let ?n = "es_lastSeq s"
  have lt: "?n < ?n + 1" using next_not_zero True assms(2) by blast
  have extend: "map_option (\<lambda>xs. xs @ [nextSequence s]) (content log) = Some (seq_range k (nextSequence s)) \<and> k \<le> nextSequence s"
    if "k \<le> ?n" "content log = Some (seq_range k ?n)" for k
    using that lt True seq_range_next [OF that(1) lt] by (auto simp: nextSequence_def)
  have "content log = None \<or> content log = Some [] \<or> (\<exists>k \<le> ?n. content log = Some (seq_range k ?n))"
    using assms(1) by (cases "content log") (auto simp: stream_inv_def ends_block_def)
  moreover have "\<exists>k. (k = 0 \<or> k = 1) \<and> k \<le> ?n \<and> content log = Some (seq_range k ?n)" if "\<not> hasFatalReason s \<and> \<not> lost"
    using assms(1) True that by (simp add: stream_inv_def tracks_def)
  ultimately show ?thesis using extend unfolding fits_def by (metis (no_types, lifting) append_Nil option.map(2) order_refl seq_range_single)
next
  case False
  then show ?thesis using assms(1)
    by (cases "content log") (auto simp: fits_def stream_inv_def ends_block_def tracks_def nextSequence_def)
qed

lemma word_le_one: "(w :: 64 word) \<le> 1 \<Longrightarrow> w = 0 \<or> w = 1"
  by (auto simp: word_le_nat_alt word_unat_eq_iff)

locale cache_store_contract =
  fixes store :: "'st cacheStore"
  assumes fault_fatal: "fst (cs_Apply store st i e) = Inl (ApplyFault r c) \<Longrightarrow> fatal_reason r"
begin

lemma apply_event_inv:
  assumes "fits lost s log (ev_Sequence e)" and "apply_event (logged store) now e r s (st, log) = (err, obs, s', (st', log'))"
  shows "stream_inv lost s' log' \<and> \<not> restarted obs \<and> (hasFatalReason s \<longrightarrow> hasFatalReason s')"
proof (cases "fst (cs_Apply store st (es_instance s) e)")
  case (Inl a)
  obtain reason cause where rc: "(case a of ApplyFault r c \<Rightarrow> (r, c) | ApplyOther c \<Rightarrow> (KVEventApplyFailed, c)) = (reason, cause)"
    by force
  have "fatal_reason reason" using rc fault_fatal Inl by (cases a) auto
  moreover have "es_reason s' = reason \<and> ends_block s' log' \<and> \<not> restarted obs"
    using assms(2)
    by (auto simp: apply_event_def logged_Apply Inl rc Let_def restarted_def dest: invalidated_reason invalidated_block split: prod.splits)
  ultimately show ?thesis by (simp add: stream_inv_def hasFatalReason_iff)
next
  case (Inr p)
  then have "s' = snd (publish_applied now p e r s)" "log' = log @ [CApply (ev_Sequence e) True]" "obs = fst (publish_applied now p e r s)"
    using assms(2) by (auto simp: apply_event_def logged_Apply Let_def split: prod.splits)
  with assms(1) show ?thesis
    by (auto simp: stream_inv_def fits_def tracks_def ends_block_def publish_applied_def restarted_def Let_def hasFatalReason_iff
        split: option.split)
qed

lemma accept_inv:
  assumes inv: "stream_inv lost s log" and acc: "accept (logged store) now e r s (st, log) = (err, obs, s', (st', log'))"
  shows "stream_inv (lost_after lost s obs s') s' log'"
proof (cases "int (length (ev_Payload e)) > MaxEventBytes (es_config s) \<or> ev_Topic e \<noteq> instanceTopic (es_instance s)")
  case True
  then have "fatal_reason (es_reason s') \<and> ends_block s' log'"
    using acc by (auto simp: accept_def Let_def dest: invalidated_reason invalidated_block split: prod.splits if_splits)
  then show ?thesis by (simp add: stream_inv_def hasFatalReason_iff)
next
  case ok: False
  note accept_eq = accept_def [of "logged store" now e _ s "(st, log)"]
  show ?thesis
  proof (cases rule: classify_cases [where q = "ev_Sequence e" and r = r and s = s])
    case reset
    let ?s1 = "s\<lparr>es_hasSeq := False, es_lastSeq := 0, es_gapUntil := 0, es_lastReplayAt := zero_time,
          es_reason := KVSequenceReset, es_lastError := CauseSequenceReset (es_lastSeq s) (ev_Sequence e)\<rparr>"
    show ?thesis
    proof (cases "fst (cs_Clear store st (in_PodIdentifier (es_instance s)))")
      case None
      have "ev_Sequence e = 0 \<or> ev_Sequence e = 1"
        using reset(2) by (auto simp: isSequenceReset_def sequenceResetMaxNearZero_def dest: word_le_one)
      then have "fits False ?s1 (log @ [CClear True]) (ev_Sequence e)"
        by (auto simp: fits_def intro!: exI [of _ "ev_Sequence e"])
      moreover have "\<exists>err obs. apply_event (logged store) now e r ?s1
          (snd (cs_Clear store st (in_PodIdentifier (es_instance s))), log @ [CClear True]) = (err, obs, s', (st', log'))"
        using acc ok reset(3) None by (auto simp: accept_eq logged_Clear split_beta Let_def prod_eq_iff)
      ultimately have "stream_inv False s' log'" using apply_event_inv by blast
      moreover have "restarted obs"
        using acc ok reset(3) None by (auto simp: accept_eq logged_Clear split_beta Let_def restarted_def)
      ultimately show ?thesis by (simp add: lost_after_def)
    next
      case (Some c)
      then have "es_reason s' = KVEventApplyFailed" "log' = log @ [CClear False]"
        using acc ok reset(3) by (auto simp: accept_eq logged_Clear Invalidate_def Let_def)
      then show ?thesis by (simp add: stream_inv_def hasFatalReason_iff ends_block_def)
    qed
  next
    case duplicate
    then have "s' = s\<lparr>es_duplicateBatches := es_duplicateBatches s + 1\<rparr>" "log' = log" "obs = []"
      using acc ok by (auto simp: accept_eq Let_def)
    then show ?thesis
      by (auto simp: hasFatalReason_iff lost_after_def restarted_def intro!: inv_same_position [OF inv])
  next
    case nxt
    then have "apply_event (logged store) now e r s (st, log) = (err, obs, s', (st', log'))"
      using acc ok by (auto simp: accept_eq Let_def)
    moreover have "fits lost s log (ev_Sequence e)" using fits_next [OF inv] nxt(1,2) by metis
    ultimately have "stream_inv lost s' log' \<and> \<not> restarted obs \<and> (hasFatalReason s \<longrightarrow> hasFatalReason s')"
      using apply_event_inv by blast
    then show ?thesis by (auto simp: stream_inv_def lost_after_def)
  next
    case replay_gap
    then have "fatal_reason (es_reason s') \<and> ends_block s' log'"
      using acc ok by (auto simp: accept_eq Let_def dest: invalidated_reason invalidated_block split: prod.splits)
    then show ?thesis by (simp add: stream_inv_def hasFatalReason_iff)
  next
    case gap
    then have "es_reason s' = KVSequenceGap" "es_hasSeq s' = es_hasSeq s" "es_lastSeq s' = es_lastSeq s" "log' = log" "obs = []"
      using acc ok by (auto simp: accept_eq Let_def)
    then show ?thesis
      by (auto simp: lost_after_def restarted_def intro!: inv_same_position [OF inv])
  qed
qed

end

subsection \<open>Reachable stream states\<close>

text \<open>
  The steps of the two goroutines and of the owner, in every interleaving: a live or replayed event is
  accepted, a replay runs over its capacity, a replay ends, an error is recorded, the owner
  invalidates or closes the stream. The flag is that of \<open>lost_after\<close>.
\<close>

inductive stream_reach :: "'st cacheStore \<Rightarrow> kv_Config \<Rightarrow> Instance \<Rightarrow> bool \<Rightarrow> eventStream \<Rightarrow> 'st \<Rightarrow> store_call list \<Rightarrow> bool"
  for store :: "'st cacheStore" and config inst where
  sr_new: "stream_reach store config inst False (newEventStream config inst) st []"
| sr_started: "stream_reach store config inst lost s st log \<Longrightarrow> stream_reach store config inst lost (stream_Start s) st log"
| sr_accept: "stream_reach store config inst lost s st log \<Longrightarrow>
    accept (logged store) now e r s (st, log) = (err, obs, s', (st', log')) \<Longrightarrow>
    stream_reach store config inst (lost_after lost s obs s') s' st' log'"
| sr_capacity: "stream_reach store config inst lost s st log \<Longrightarrow>
    invalidateAndClear (logged store) KVReplayCapacityExceeded cause s (st, log) = (s', (st', log')) \<Longrightarrow>
    stream_reach store config inst lost s' st' log'"
| sr_replay_end: "stream_reach store config inst lost s st log \<Longrightarrow> stream_reach store config inst lost (replay_confirmed now s) st log"
| sr_error: "stream_reach store config inst lost s st log \<Longrightarrow> stream_reach store config inst lost (recordError cause s) st log"
| sr_invalidate: "stream_reach store config inst lost s st log \<Longrightarrow> fatal_reason reason \<Longrightarrow>
    stream_reach store config inst lost (Invalidate reason cause s) st log"
| sr_close: "stream_reach store config inst lost s st log \<Longrightarrow> stream_reach store config inst lost (stream_Close s) st log"

lemma replay_confirmed_inv: "stream_inv lost s log \<Longrightarrow> stream_inv lost (replay_confirmed now s) log"
  by (erule inv_same_position) (simp_all add: hasFatalReason_iff replay_confirmed_def Let_def split: KVReason.splits if_splits)

lemma simple_steps_inv:
  "stream_inv lost s log \<Longrightarrow> stream_inv lost (recordError cause s) log"
  "stream_inv lost s log \<Longrightarrow> stream_inv lost (stream_Start s) log"
  "stream_inv lost s log \<Longrightarrow> stream_inv lost (stream_Close s) log"
  "stream_inv lost s log \<Longrightarrow> fatal_reason reason \<Longrightarrow> stream_inv lost (Invalidate reason cause s) log"
  by (erule inv_same_position; simp add: hasFatalReason_iff recordError_def stream_Start_def stream_Close_def
      Invalidate_def Let_def split: if_splits)+

lemma new_stream_inv: "stream_inv lost (newEventStream config inst) []"
  by (simp add: stream_inv_def tracks_def ends_block_def newEventStream_def)

context cache_store_contract
begin

lemma reach_inv: "stream_reach store config inst lost s st log \<Longrightarrow> stream_inv lost s log"
proof (induction rule: stream_reach.induct)
  case (sr_accept lost s st log now e r err obs s' st' log')
  then show ?case using accept_inv by blast
next
  case (sr_capacity lost s st log cause s' st' log')
  then have "es_reason s' = KVReplayCapacityExceeded" "ends_block s' log'" by (blast intro: invalidated_reason invalidated_block)+
  then show ?case by (simp add: stream_inv_def hasFatalReason_iff)
qed (simp_all add: simple_steps_inv replay_confirmed_inv new_stream_inv)

lemma valid_contiguous:
  assumes "stream_reach store config inst lost s st log" and "is_Valid (stream_Snapshot now s)"
  shows "(\<not> lost \<longrightarrow> tracks s log) \<and> ends_block s log"
proof -
  have "\<not> hasFatalReason s" using assms(2) by (auto simp: stream_Snapshot_def Let_def hasFatalReason_iff)
  with reach_inv [OF assms(1)] show ?thesis by (simp add: stream_inv_def)
qed

end

subsection \<open>Progress\<close>

lemma next_not_reset: "es_hasSeq s \<Longrightarrow> es_lastSeq s < es_lastSeq s + 1 \<Longrightarrow> \<not> isSequenceReset (nextSequence s) (es_lastSeq s)"
proof
  assume "es_hasSeq s" and lt: "es_lastSeq s < es_lastSeq s + 1" and "isSequenceReset (nextSequence s) (es_lastSeq s)"
  then have "es_lastSeq s + 1 < es_lastSeq s div 2" by (simp add: isSequenceReset_def nextSequence_def)
  also have "es_lastSeq s div 2 \<le> es_lastSeq s" by (simp add: word_le_nat_alt unat_div div_le_dividend)
  finally show False using lt by simp
qed

definition admissible :: "'st cacheStore \<Rightarrow> eventStream \<Rightarrow> Event \<Rightarrow> bool" where
  \<comment> \<open>a batch of the right topic and size that the store applies\<close>
  "admissible store s e \<longleftrightarrow> int (length (ev_Payload e)) \<le> MaxEventBytes (es_config s)
     \<and> ev_Topic e = instanceTopic (es_instance s)
     \<and> (\<forall>st. \<exists>p st'. cs_Apply store st (es_instance s) e = (Inr p, st'))"

definition same_stream :: "eventStream \<Rightarrow> eventStream \<Rightarrow> bool" where
  "same_stream s s' \<longleftrightarrow> es_config s' = es_config s \<and> es_instance s' = es_instance s \<and> es_closed s' = es_closed s
     \<and> es_reason s' = es_reason s \<and> es_gapUntil s' = es_gapUntil s"

lemma same_stream_refl [simp]: "same_stream s s"
  by (simp add: same_stream_def)

lemma same_stream_trans: "same_stream a b \<Longrightarrow> same_stream b c \<Longrightarrow> same_stream a c"
  by (simp add: same_stream_def)

lemma same_stream_admissible: "same_stream s s' \<Longrightarrow> admissible store s' e = admissible store s e"
  by (simp add: same_stream_def admissible_def)

lemma accept_next:
  assumes adm: "admissible store s e" and q: "ev_Sequence e = nextSequence s"
    and wrap: "es_hasSeq s \<longrightarrow> es_lastSeq s < es_lastSeq s + 1"
  obtains obs s' where "accept store now e r s st = (None, obs, s', snd (cs_Apply store st (es_instance s) e))"
    and "same_stream s s'" and "es_hasSeq s'" and "es_lastSeq s' = ev_Sequence e"
proof -
  obtain p st' where p: "cs_Apply store st (es_instance s) e = (Inr p, st')"
    using adm unfolding admissible_def by blast
  have "classifySequence (ev_Sequence e) r s = (nextSequence s, SeqNext, s)"
    by (cases rule: classify_cases [where q = "ev_Sequence e" and r = r and s = s])
      (use q wrap next_not_reset [of s] in auto)
  then have "accept store now e r s st = apply_event store now e r s st"
    using adm by (simp add: accept_def admissible_def)
  also have "\<dots> = (None, fst (publish_applied now p e r s), snd (publish_applied now p e r s), snd (cs_Apply store st (es_instance s) e))"
    by (simp add: apply_event_def p split_beta)
  finally show thesis
    by (rule that) (simp_all add: publish_applied_def Let_def same_stream_def)
qed

fun consecutive :: "nat \<Rightarrow> (time \<times> Event) list \<Rightarrow> bool" where
  "consecutive n [] \<longleftrightarrow> True"
| "consecutive n ((t, e) # es) \<longleftrightarrow> unat (ev_Sequence e) = n \<and> consecutive (Suc n) es"

definition position :: "eventStream \<Rightarrow> nat" where
  "position s = (if es_hasSeq s then Suc (unat (es_lastSeq s)) else 0)"

lemma position_next:
  assumes "position s < 2 ^ 64"
  shows "unat (nextSequence s) = position s" and "es_hasSeq s \<longrightarrow> es_lastSeq s < es_lastSeq s + 1"
proof -
  have "unat (es_lastSeq s + 1) = Suc (unat (es_lastSeq s))" if "es_hasSeq s"
  proof -
    have "1 + es_lastSeq s \<noteq> 0"
    proof
      assume "1 + es_lastSeq s = 0"
      then have "es_lastSeq s = - 1" by (simp add: add_eq_0_iff)
      then show False using assms that by (simp add: position_def unsigned_minus_1_eq_mask mask_eq_exp_minus_1)
    qed
    then show ?thesis using unatSuc by (metis add.commute)
  qed
  then show "unat (nextSequence s) = position s" "es_hasSeq s \<longrightarrow> es_lastSeq s < es_lastSeq s + 1"
    by (auto simp: nextSequence_def position_def word_less_nat_alt)
qed

fun apply_all :: "'st cacheStore \<Rightarrow> Instance \<Rightarrow> (time \<times> Event) list \<Rightarrow> 'st \<Rightarrow> 'st" where
  "apply_all store inst [] st = st"
| "apply_all store inst ((t, e) # evs) st = apply_all store inst evs (snd (cs_Apply store st inst e))"

lemma deliver_consecutive:
  assumes "consecutive (position s) evs" and "\<forall>te \<in> set evs. admissible store s (snd te)"
    and "count + int (length evs) \<le> MaxReplayEvents (es_config s)" and "position s + length evs < 2 ^ 64"
  shows "\<exists>c s'. replay_deliver store evs (count, s, st) = (None, c, s', apply_all store (es_instance s) evs st)
    \<and> same_stream s s' \<and> position s' = position s + length evs"
  using assms
proof (induction evs arbitrary: count s st)
  case (Cons te evs)
  obtain t e where te: "te = (t, e)" by force
  have pos: "position s < 2 ^ 64" using Cons.prems(4) by simp
  have "unat (ev_Sequence e) = unat (nextSequence s)"
    using Cons.prems(1) position_next(1) [OF pos] by (simp add: te)
  then have q: "ev_Sequence e = nextSequence s" by (simp add: word_unat_eq_iff)
  have adm: "admissible store s e" using Cons.prems(2) by (simp add: te)
  let ?st1 = "snd (cs_Apply store st (es_instance s) e)"
  obtain obs s1 where acc: "accept store t e True s st = (None, obs, s1, ?st1)"
    and same: "same_stream s s1" and seq: "es_hasSeq s1" "es_lastSeq s1 = ev_Sequence e"
    by (rule accept_next [OF adm q position_next(2) [OF pos], of t True st])
  have pos1: "position s1 = Suc (position s)"
    using seq position_next(1) [OF pos] by (simp add: position_def q)
  have cfg: "es_config s1 = es_config s" "es_instance s1 = es_instance s" using same by (simp_all add: same_stream_def)
  have "\<exists>c s'. replay_deliver store evs (count + 1, s1, ?st1) = (None, c, s', apply_all store (es_instance s1) evs ?st1)
      \<and> same_stream s1 s' \<and> position s' = position s1 + length evs"
    using Cons.prems by (intro Cons.IH)
      (auto simp: te pos1 cfg same_stream_admissible [OF same])
  moreover have "replay_handler store t e (count, s, st) = (None, count + 1, s1, ?st1)"
    using Cons.prems(3) acc by (simp add: replay_handler_def)
  ultimately show ?case
    using same pos1 by (auto simp: te cfg(2) dest: same_stream_trans)
qed auto

lemma replay_heals:
  assumes "es_reason s \<in> {KVReplayNotConfirmed, KVSequenceGap, KVSequenceReset, KVNone}" and "\<not> es_closed s"
    and "consecutive (position s) evs" and "\<forall>te \<in> set evs. admissible store s (snd te)"
    and "int (length evs) \<le> MaxReplayEvents (es_config s)" and "position s + length evs < 2 ^ 64"
    and "es_reason s = KVSequenceGap \<longrightarrow> unat (es_gapUntil s) < position s + length evs"
    and "source (nextSequence s) = (evs, None)" and "now \<noteq> zero_time" and "0 \<le> FreshnessTTL (es_config s)"
  obtains s' where "replayOnce store source cancelled now s st = (s', apply_all store (es_instance s) evs st)"
    and "is_Valid (stream_Snapshot now s')" and "position s' = position s + length evs"
proof -
  obtain c s' where d: "replay_deliver store evs (0, s, st) = (None, c, s', apply_all store (es_instance s) evs st)"
    and same: "same_stream s s'" and pos: "position s' = position s + length evs"
    using deliver_consecutive [OF assms(3,4), of 0 st] assms(5,6) by auto
  have "\<not> hasFatalReason s" using assms(1) by (auto simp: hasFatalReason_iff)
  then have run: "replayOnce store source cancelled now s st = (replay_confirmed now s', apply_all store (es_instance s) evs st)"
    by (simp add: replayOnce_def assms(8) d)
  have gap: "es_hasSeq s' \<and> es_gapUntil s' \<le> es_lastSeq s'" if "es_reason s = KVSequenceGap"
    using that assms(7) pos same
    by (auto simp: position_def same_stream_def word_le_nat_alt split: if_splits)
  have f: "es_config s' = es_config s" "es_closed s' = es_closed s" "es_reason s' = es_reason s"
    using same by (simp_all add: same_stream_def)
  have c: "es_lastReplayAt (replay_confirmed now s') = now" "es_closed (replay_confirmed now s') = es_closed s"
    "es_config (replay_confirmed now s') = es_config s" "position (replay_confirmed now s') = position s'"
    by (simp_all add: replay_confirmed_def Let_def f position_def split: KVReason.split)
  have "es_reason (replay_confirmed now s') = KVNone"
    using assms(1) gap by (auto simp: replay_confirmed_def Let_def f)
  then have "is_Valid (stream_Snapshot now (replay_confirmed now s'))"
    using assms(2,9,10) by (simp add: c stream_Snapshot_def Let_def IsZero_def)
  then show thesis by (rule that [OF run]) (simp add: c pos)
qed

lemma consecutive_ge: "consecutive n evs \<Longrightarrow> te \<in> set evs \<Longrightarrow> n \<le> unat (ev_Sequence (snd te))"
  by (induction n evs rule: consecutive.induct) force+

lemma content_applies:
  "content (log @ map (\<lambda>te. CApply (ev_Sequence (snd te)) True) evs) = map_option (\<lambda>xs. xs @ map (ev_Sequence \<circ> snd) evs) (content log)"
proof (induction evs rule: rev_induct)
  case (snoc te evs)
  have "content (log @ map (\<lambda>te. CApply (ev_Sequence (snd te)) True) (evs @ [te])) =
      content ((log @ map (\<lambda>te. CApply (ev_Sequence (snd te)) True) evs) @ [CApply (ev_Sequence (snd te)) True])" by simp
  then show ?case by (simp only: content_snoc content_step.simps snoc.IH) (simp add: option.map_comp comp_def)
qed (simp add: option.map_ident)

lemma logged_apply_all:
  "\<forall>te \<in> set evs. admissible store s (snd te) \<Longrightarrow> snd (apply_all (logged store) (es_instance s) evs (st, log)) =
     log @ map (\<lambda>te. CApply (ev_Sequence (snd te)) True) evs"
proof (induction evs arbitrary: st log)
  case (Cons te evs)
  obtain t e where te: "te = (t, e)" by force
  obtain p st' where "cs_Apply store st (es_instance s) e = (Inr p, st')" using Cons.prems te by (fastforce simp: admissible_def)
  then show ?case using Cons by (simp add: te logged_Apply)
qed simp

lemma logged_admissible: "admissible store s e \<Longrightarrow> admissible (logged store) s e"
proof -
  assume adm: "admissible store s e"
  have "\<exists>p st'. cs_Apply (logged store) w (es_instance s) e = (Inr p, st')" for w
  proof -
    obtain p st' where "cs_Apply store (fst w) (es_instance s) e = (Inr p, st')" using adm unfolding admissible_def by blast
    then show ?thesis by (cases w) (simp add: logged_Apply)
  qed
  with adm show ?thesis by (simp add: admissible_def)
qed

text \<open>A live event that skips ahead sets the gap, whatever the reason was before.\<close>

lemma accept_live_gap:
  assumes "int (length (ev_Payload e)) \<le> MaxEventBytes (es_config s)" and "ev_Topic e = instanceTopic (es_instance s)"
    and "position s < unat (ev_Sequence e)"
  shows "accept store t e False s st =
    (Some (CauseSequence (ev_Sequence e) (nextSequence s) (CauseLiveSkipped (ev_Sequence e))), [],
     s\<lparr>es_reason := KVSequenceGap, es_gapUntil := max (es_gapUntil s) (ev_Sequence e)\<rparr>, st)"
proof -
  have "position s < 2 ^ 64" using assms(3) unsigned_less [of "ev_Sequence e", where 'a = nat] by simp
  note n = position_next [OF this]
  have lt: "nextSequence s < ev_Sequence e" using assms(3) n(1) by (simp add: word_less_nat_alt)
  have noreset: "\<not> isSequenceReset (ev_Sequence e) (es_lastSeq s)" if "es_hasSeq s"
  proof
    assume "isSequenceReset (ev_Sequence e) (es_lastSeq s)"
    then have "ev_Sequence e < es_lastSeq s div 2" by (simp add: isSequenceReset_def)
    also have "\<dots> \<le> es_lastSeq s" by (simp add: word_le_nat_alt unat_div div_le_dividend)
    finally show False using lt n(2) that by (simp add: nextSequence_def)
  qed
  show ?thesis
  proof (cases rule: classify_cases [where q = "ev_Sequence e" and r = False and s = s])
    case gap
    then show ?thesis using assms(1,2) by (simp add: accept_def max_def)
  qed (use lt noreset in auto)
qed

subsection \<open>Frames round trip\<close>

lemma byte_split: "drop_bit 8 x * 256 + ucast (ucast x :: 8 word) = (x :: 64 word)"
proof -
  have "ucast (ucast x :: 8 word) = take_bit 8 x"
    by (simp add: unsigned_ucast_eq)
  moreover have "drop_bit 8 x * 256 = push_bit 8 (drop_bit 8 x)" by (simp add: push_bit_eq_mult)
  ultimately show ?thesis using bits_ident [of 8 x] by (simp add: add.commute)
qed

lemma be_word_partial:
  "n \<le> 8 \<Longrightarrow> foldl (\<lambda>acc b. acc * 256 + ucast b) 0
     (map (\<lambda>i. ucast (drop_bit (8 * (7 - i)) w) :: 8 word) [0..<n]) = drop_bit (64 - 8 * n) (w :: 64 word)"
proof (induction n)
  case (Suc n)
  have "drop_bit (64 - 8 * n) w = drop_bit 8 (drop_bit (8 * (7 - n)) w)"
    using Suc.prems by (simp add: drop_bit_drop_bit algebra_simps)
  moreover have "64 - 8 * Suc n = 8 * (7 - n)" by simp
  ultimately show ?case using Suc byte_split [of "drop_bit (8 * (7 - n)) w"] by simp
qed (auto intro!: bit_eqI simp: bit_simps dest: bit_imp_le_length)

lemma be_word_PutUint64: "be_word (PutUint64 w) = w"
  using be_word_partial [of 8 w] by (simp add: be_word_def PutUint64_def)

lemma length_PutUint64 [simp]: "length (PutUint64 w) = 8"
  by (simp add: PutUint64_def)

lemma string_bytes_inverse: "map (\<lambda>b. char_of (unat b)) (string_bytes t) = t"
proof -
  have "char_of (unat (of_char c :: 8 word)) = c" for c
  proof -
    have "(of_char c :: 8 word) = of_nat (of_char c)" by (simp only: of_nat_of_char)
    then have "unat (of_char c :: 8 word) = of_char c mod 256" by (simp only: unat_of_nat) simp
    then show ?thesis by simp
  qed
  then show ?thesis by (simp add: string_bytes_def o_def)
qed

subsection \<open>Properties\<close>

definition wit_store :: "unit cacheStore" where
  "wit_store = \<lparr>cs_Lookup = (\<lambda>st q is. (Inr ([], 0), st)), cs_Apply = (\<lambda>st i e. (Inr 5, st)),
     cs_Clear = (\<lambda>st pid. (None, st))\<rparr>"

definition wit_instance :: Instance where
  "wit_instance = \<lparr>in_Backend = ''a'', in_PodUID = ''u'', in_PodIdentifier = ''p'', in_Model = ''m'',
     in_EventsEndpoint = ''tcp://p:1'', in_ReplayEndpoint = ''tcp://p:2''\<rparr>"

definition wit_kv_cfg :: kv_Config where
  "wit_kv_cfg = \<lparr>BlockSizeTokens = 16, HashSeed = [], MaxIndexKeys = 100, MaxInstances = 4, MaxBackendsPerKey = 4,
     MaxEventBytes = 10, MaxReplayEvents = 2, MaxQueryTokens = 1000, MaxCacheSaltBytes = 10,
     ReplayPeriod = 5, ReplayTimeout = 5, FreshnessTTL = 10, ReconnectDelay = 1\<rparr>"

definition wit_event :: "64 word \<Rightarrow> Event" where
  "wit_event q = \<lparr>ev_Topic = ''kv@p@m'', ev_Sequence = q, ev_Payload = []\<rparr>"

definition wit_stream :: eventStream where
  "wit_stream = (newEventStream wit_kv_cfg wit_instance)\<lparr>es_hasSeq := True, es_lastSeq := 6,
     es_reason := KVSequenceGap, es_gapUntil := 8\<rparr>"

lemmas wit_stream_defs = wit_store_def wit_instance_def wit_kv_cfg_def wit_event_def wit_stream_def newEventStream_def

lemma wit_topic: "instanceTopic wit_instance = ''kv@p@m''"
  by (simp add: instanceTopic_def topicPrefix_def wit_instance_def)

text \<open>
  Redelivery is harmless: a batch whose sequence was already applied (and that is no sequence
  reset) changes neither the index nor any field of the stream but the duplicate counter, whether it
  comes live or from a replay.
\<close>

theorem redelivery_is_noop:
  assumes "es_hasSeq s" and "ev_Sequence e \<le> es_lastSeq s" and "es_lastSeq s < es_lastSeq s + 1"
    and "\<not> isSequenceReset (ev_Sequence e) (es_lastSeq s)"
    and "int (length (ev_Payload e)) \<le> MaxEventBytes (es_config s)" and "ev_Topic e = instanceTopic (es_instance s)"
  shows "accept store now e replayed s st = (None, [], s\<lparr>es_duplicateBatches := es_duplicateBatches s + 1\<rparr>, st)"
proof -
  have "ev_Sequence e < es_lastSeq s + 1" using assms(2,3) by simp
  then show ?thesis using assms by (simp add: accept_def classifySequence_def Let_def)
qed

theorem redelivery_is_noop_witness:
  "accept wit_store 9 (wit_event 5) True wit_stream () =
     (None, [], wit_stream\<lparr>es_duplicateBatches := 1\<rparr>, ())"
  using redelivery_is_noop [of wit_stream "wit_event 5" wit_store 9 True "()"] wit_topic
  by (simp add: wit_stream_defs isSequenceReset_def sequenceResetMaxNearZero_def)

text \<open>
  C22. A sequence gap heals: if the next replay delivers the missing batches consecutively from the
  requested sequence, within the capacity, up to at least the sequence the live stream had skipped to,
  and then the END sentinel, the stream's signal is valid again at once; the same holds for the
  first replay and for the one after a sequence reset.
\<close>

theorem replay_restores_validity:
  assumes "es_reason s \<in> {KVReplayNotConfirmed, KVSequenceGap, KVSequenceReset, KVNone}" and "\<not> es_closed s"
    and "consecutive (position s) evs" and "\<forall>te \<in> set evs. admissible store s (snd te)"
    and "int (length evs) \<le> MaxReplayEvents (es_config s)" and "position s + length evs < 2 ^ 64"
    and "es_reason s = KVSequenceGap \<longrightarrow> unat (es_gapUntil s) < position s + length evs"
    and "source (nextSequence s) = (evs, None)" and "now \<noteq> zero_time" and "0 \<le> FreshnessTTL (es_config s)"
  shows "is_Valid (stream_Snapshot now (fst (replayOnce store source cancelled now s st)))
    \<and> position (fst (replayOnce store source cancelled now s st)) = position s + length evs"
proof -
  obtain s' where "replayOnce store source cancelled now s st = (s', apply_all store (es_instance s) evs st)"
    and "is_Valid (stream_Snapshot now s')" and "position s' = position s + length evs"
    using assms by (rule replay_heals)
  then show ?thesis by simp
qed

theorem replay_restores_validity_witness:
  "is_Valid (stream_Snapshot 50 (fst (replayOnce wit_store (\<lambda>q. ([(48, wit_event 7), (49, wit_event 8)], None))
     False 50 wit_stream ())))"
proof -
  have "admissible wit_store wit_stream (wit_event 7)" "admissible wit_store wit_stream (wit_event 8)"
    using wit_topic by (simp_all add: admissible_def wit_stream_defs)
  then show ?thesis
    using replay_restores_validity [of wit_stream "[(48, wit_event 7), (49, wit_event 8)]" wit_store
        "\<lambda>q. ([(48, wit_event 7), (49, wit_event 8)], None)" 50 False "()"]
    by (simp add: wit_stream_def newEventStream_def wit_kv_cfg_def position_def wit_event_def zero_time_def)
qed

text \<open>
  The frame codec loses nothing: a live message of topic, sequence and payload decodes to exactly
  that event, and a replay answer, with or without the empty delimiter frame, decodes to the event of
  the subscribed topic, or to the END marker exactly for the reserved largest sequence.
\<close>

theorem frames_round_trip:
  "decodeLiveMessage [string_bytes topic, PutUint64 q, payload] =
     Inr \<lparr>ev_Topic = topic, ev_Sequence = q, ev_Payload = payload\<rparr>
   \<and> decodeReplayMessage topic [PutUint64 q, payload] =
     Inr (if q = replayEndSequence then None else Some \<lparr>ev_Topic = topic, ev_Sequence = q, ev_Payload = payload\<rparr>)
   \<and> decodeReplayMessage topic ([] # [PutUint64 q, payload]) = decodeReplayMessage topic [PutUint64 q, payload]"
  by (simp add: decodeLiveMessage_def decodeReplayMessage_def be_word_PutUint64 string_bytes_inverse)

text \<open>
  C24. A fatal reason can be lost, over every store and from every stream whose index was cleared for a fatal
  reason (an event that failed to apply, a replay over its capacity, \<dots>) while the sequence position
  stayed: if a live event that skips ahead is accepted before the goroutines look at the reason, the
  reason becomes a recoverable gap; a replay that then delivers the missing batches and its END makes the
  signal valid, although the index holds nothing but the batches of that replay: none of those up to
  the old position.
\<close>

theorem lost_fatal_reason_publishes_incomplete_index:
  assumes "hasFatalReason s" and "\<not> es_closed s" and "es_hasSeq s" and "content log = Some []"
    and "int (length (ev_Payload e)) \<le> MaxEventBytes (es_config s)" and "ev_Topic e = instanceTopic (es_instance s)"
    and "position s < unat (ev_Sequence e)"
    and "consecutive (position s) evs" and "\<forall>te \<in> set evs. admissible store s (snd te)"
    and "int (length evs) \<le> MaxReplayEvents (es_config s)" and "position s + length evs < 2 ^ 64"
    and "unat (max (es_gapUntil s) (ev_Sequence e)) < position s + length evs"
    and "source (nextSequence s) = (evs, None)" and "now \<noteq> zero_time" and "0 \<le> FreshnessTTL (es_config s)"
    and "accept (logged store) t e False s (st, log) = (err, obs, s1, w1)"
    and "replayOnce (logged store) source cancelled now s1 w1 = (s2, w2)"
  shows "err \<noteq> None \<and> \<not> hasFatalReason s1 \<and> is_Valid (stream_Snapshot now s2) \<and> position s2 = position s + length evs
    \<and> content (snd w2) = Some (map (ev_Sequence \<circ> snd) evs)
    \<and> (\<forall>q \<le> es_lastSeq s. q \<notin> set (the (content (snd w2))))"
proof -
  let ?s1 = "s\<lparr>es_reason := KVSequenceGap, es_gapUntil := max (es_gapUntil s) (ev_Sequence e)\<rparr>"
  have s1: "err \<noteq> None" "s1 = ?s1" "w1 = (st, log)"
    using assms(16) unfolding accept_live_gap [OF assms(5-7)] by auto
  have pos: "position ?s1 = position s" and nxt: "nextSequence ?s1 = nextSequence s" by (simp_all add: position_def nextSequence_def)
  have adm: "\<forall>te \<in> set evs. admissible (logged store) ?s1 (snd te)"
    using assms(9) logged_admissible by (fastforce simp: admissible_def)
  obtain s' where run: "replayOnce (logged store) source cancelled now ?s1 (st, log) = (s', apply_all (logged store) (es_instance ?s1) evs (st, log))"
    and valid: "is_Valid (stream_Snapshot now s')" "position s' = position ?s1 + length evs"
    by (rule replay_heals [of ?s1 evs "logged store" source now cancelled "(st, log)"])
      (use assms(2,8,10-15) adm in \<open>simp_all add: pos nxt\<close>)
  have w2: "s2 = s'" "w2 = apply_all (logged store) (es_instance s) evs (st, log)"
    using assms(17) run unfolding s1 by simp_all
  have held: "content (snd w2) = Some (map (ev_Sequence \<circ> snd) evs)"
    unfolding w2 logged_apply_all [OF assms(9)] content_applies assms(4) by simp
  have "position s = Suc (unat (es_lastSeq s))" using assms(3) by (simp add: position_def)
  then have "q \<notin> set (map (ev_Sequence \<circ> snd) evs)" if "q \<le> es_lastSeq s" for q
    using that consecutive_ge [OF assms(8)] by (fastforce simp: word_le_nat_alt)
  then show ?thesis using s1 valid held by (simp add: w2(1) pos hasFatalReason_iff)
qed

definition wit_exceeded :: eventStream where
  \<comment> \<open>a replay of three batches with a capacity of two\<close>
  "wit_exceeded = (newEventStream wit_kv_cfg wit_instance)\<lparr>es_reason := KVReplayCapacityExceeded,
     es_lastError := CauseReplayFrom 0 (CauseReplayExceeds 2), es_hasSeq := True, es_lastSeq := 1, es_lastEventAt := 2,
     es_appliedBatches := 2, es_replayBatches := 2\<rparr>"

lemma wit_exceeded_run:
  "replayOnce (logged wit_store) (\<lambda>_. ([(1, wit_event 0), (2, wit_event 1), (3, wit_event 2)], None)) False 4
     (newEventStream wit_kv_cfg wit_instance) ((), []) = (wit_exceeded, ((), [CApply 0 True, CApply 1 True, CClear True]))"
  by code_simp

theorem lost_fatal_reason_publishes_incomplete_index_witness:
  "\<exists>s1 w1 s2 w2. accept (logged wit_store) 5 (wit_event 3) False wit_exceeded ((), [CApply 0 True, CApply 1 True, CClear True])
       = (Some (CauseSequence 3 2 (CauseLiveSkipped 3)), [], s1, w1)
     \<and> replayOnce (logged wit_store) (\<lambda>_. ([(6, wit_event 2), (7, wit_event 3)], None)) False 8 s1 w1 = (s2, w2)
     \<and> hasFatalReason wit_exceeded \<and> is_Valid (stream_Snapshot 8 s2) \<and> content (snd w2) = Some [2, 3]"
proof -
  let ?log = "[CApply 0 True, CApply 1 True, CClear True]" and ?evs = "[(6, wit_event 2), (7, wit_event 3)]"
  obtain s2 w2 where r: "replayOnce (logged wit_store) (\<lambda>_. (?evs, None)) False 8
      (wit_exceeded\<lparr>es_reason := KVSequenceGap, es_gapUntil := 3\<rparr>) ((), ?log) = (s2, w2)" by (rule prod.exhaust)
  have a: "accept (logged wit_store) 5 (wit_event 3) False wit_exceeded ((), ?log)
      = (Some (CauseSequence 3 2 (CauseLiveSkipped 3)), [], wit_exceeded\<lparr>es_reason := KVSequenceGap, es_gapUntil := 3\<rparr>, ((), ?log))"
    by code_simp
  have adm: "admissible wit_store wit_exceeded (wit_event q)" for q
    using wit_topic by (simp add: admissible_def wit_exceeded_def wit_stream_defs)
  have fatal: "hasFatalReason wit_exceeded" by (simp add: hasFatalReason_iff wit_exceeded_def)
  have "is_Valid (stream_Snapshot 8 s2) \<and> content (snd w2) = Some (map (ev_Sequence \<circ> snd) ?evs)"
    using lost_fatal_reason_publishes_incomplete_index
      [of wit_exceeded ?log "wit_event 3" ?evs wit_store "\<lambda>_. (?evs, None)" 8 5 "()", OF fatal _ _ _ _ _ _ _ _ _ _ _ _ _ _ a r] adm wit_topic
    by (simp add: wit_exceeded_def newEventStream_def wit_kv_cfg_def position_def wit_event_def zero_time_def content_def)
  then have "is_Valid (stream_Snapshot 8 s2)" "content (snd w2) = Some [2, 3]" by (simp_all add: wit_event_def)
  with a r fatal show ?thesis by blast
qed

end
