(* ===== verification/KV_Store.thy ===== *)
theory KV_Store
  imports KV_Stream Float64
begin

text \<open>
  \<open>internal/serving/kvcache/vllm_index_impl.go\<close>: the store behind the event streams. The upstream
  packages it composes (the canonical block hash, the bounded index, the prefix scorer and the vLLM
  message parser of llm-d-kv-cache) are not part of the repository; their operations are the fields of
  \<open>upstream\<close>, over an arbitrary index state. The loops, guards, fault reasons and the order of the
  calls are those of the code.
\<close>

subsection \<open>Upstream operations\<close>

record PodEntry =
  pe_PodIdentifier :: string
  pe_DeviceTier :: string

record BlockExtraFeatures =
  bef_MMHashes :: "string list"

type_synonym features = "BlockExtraFeatures option list option"
  \<comment> \<open>a slice of pointers: the slice and each element may be nil\<close>

record 'x BlockStoredEvent =
  bs_BlockHashes :: "64 word list"
  bs_Tokens :: "32 word list"
  bs_ParentHash :: "64 word"
  bs_BlockSize :: int
  bs_DeviceTier :: string
  bs_LoraID :: "int option"
  bs_LoraName :: "string option"
  bs_ExtraKeys :: 'x
  bs_GroupIdx :: "int option"
  bs_KVCacheSpecKind :: string
  bs_SlidingWindowSize :: "int option"

record BlockRemovedEvent =
  br_BlockHashes :: "64 word list"
  br_DeviceTier :: string
  br_GroupIdx :: "int option"

datatype 'x GenericEvent =
    BlockStored "'x BlockStoredEvent"
  | BlockRemoved BlockRemovedEvent
  | AllBlocksCleared
  | OtherEvent

record 'x EventBatch =
  eb_Timestamp :: f64
  eb_Events :: "'x GenericEvent list"

record ('ix, 'x) upstream =
  up_EmptyBlockHash :: "64 word"
  up_FullAttention :: string
  up_TokensToKVBlockKeys :: "64 word \<Rightarrow> 32 word list \<Rightarrow> string \<Rightarrow> features \<Rightarrow> kv_cause + 64 word list"
  up_Lookup :: "'ix \<Rightarrow> 64 word list \<Rightarrow> string list \<Rightarrow> (kv_cause + (64 word, PodEntry list) gomap) \<times> 'ix"
  up_GetRequestKey :: "'ix \<Rightarrow> 64 word \<Rightarrow> (kv_cause + 64 word) \<times> 'ix"
  up_Add :: "'ix \<Rightarrow> 64 word list \<Rightarrow> 64 word list \<Rightarrow> PodEntry list \<Rightarrow> kv_cause option \<times> 'ix"
  up_Evict :: "'ix \<Rightarrow> 64 word \<Rightarrow> PodEntry list \<Rightarrow> kv_cause option \<times> 'ix"
  up_Clear :: "'ix \<Rightarrow> string \<Rightarrow> kv_cause option \<times> 'ix"
  up_Score :: "64 word list \<Rightarrow> (64 word, PodEntry list) gomap \<Rightarrow> kv_cause + (string, f64) gomap"
  up_ParseMessage :: "Event \<Rightarrow> kv_cause + string \<times> string \<times> 'x EventBatch"
  up_ParseRawExtraKeys :: "'x \<Rightarrow> kv_cause + features"

subsection \<open>Lookup\<close>

definition foldCacheSalt :: "features \<Rightarrow> string \<Rightarrow> nat \<Rightarrow> features" where
  "foldCacheSalt fs salt fullBlocks =
     (if salt = [] \<or> fullBlocks = 0 then fs
      else let xs = (case fs of None \<Rightarrow> replicate fullBlocks None | Some xs \<Rightarrow> xs);
               f0 = (case xs ! 0 of None \<Rightarrow> \<lparr>bef_MMHashes = []\<rparr> | Some f \<Rightarrow> f)
           in Some (xs[0 := Some (f0\<lparr>bef_MMHashes := bef_MMHashes f0 @ [salt]\<rparr>)]))"

fun until_miss :: "('ix, 'x) upstream \<Rightarrow> nat \<Rightarrow> 32 word list \<Rightarrow> string \<Rightarrow> features \<Rightarrow> string list \<Rightarrow>
    nat list \<Rightarrow> 64 word \<Rightarrow> 64 word list \<Rightarrow> (64 word, PodEntry list) gomap \<Rightarrow> 'ix \<Rightarrow>
    (kv_cause + 64 word list \<times> (64 word, PodEntry list) gomap) \<times> 'ix" where
  \<comment> \<open>the loop of \<open>lookupRequestKeysUntilMiss\<close> over the block indices\<close>
  "until_miss up blockSize tokens model fs allowed [] parentKey keys keyToPods ix = (Inr (keys, keyToPods), ix)"
| "until_miss up blockSize tokens model fs allowed (blockIndex # rest) parentKey keys keyToPods ix =
     (let blockFeatures = (case fs of None \<Rightarrow> None | Some xs \<Rightarrow> Some (take 1 (drop blockIndex xs)))
      in case up_TokensToKVBlockKeys up parentKey (take blockSize (drop (blockIndex * blockSize) tokens)) model blockFeatures of
           Inl err \<Rightarrow> (Inl err, ix)
         | Inr blockKeys \<Rightarrow>
             if length blockKeys \<noteq> 1 then (Inl (CauseText ''returned keys''), ix)
             else let key = blockKeys ! 0
                  in case up_Lookup up ix [key] allowed of
                       (Inl err, ix1) \<Rightarrow> (Inl err, ix1)
                     | (Inr found, ix1) \<Rightarrow>
                         let pods = mget [] found key
                         in if \<not> mhas found key \<or> length pods = 0 then (Inr (keys, keyToPods), ix1)
                            else until_miss up blockSize tokens model fs allowed rest key
                                   (keys @ [key]) (AList.update key pods keyToPods) ix1)"

definition lookupRequestKeysUntilMiss :: "('ix, 'x) upstream \<Rightarrow> nat \<Rightarrow> 'ix \<Rightarrow> 32 word list \<Rightarrow> string \<Rightarrow> string \<Rightarrow>
    string list \<Rightarrow> (kv_cause + 64 word list \<times> (64 word, PodEntry list) gomap) \<times> 'ix" where
  "lookupRequestKeysUntilMiss up blockSize ix tokens model cacheSalt podIDs =
     (let fullBlocks = length tokens div blockSize
      in until_miss up blockSize tokens model (foldCacheSalt None cacheSalt fullBlocks) podIDs
           [0..<fullBlocks] (up_EmptyBlockHash up) [] [] ix)"

definition requestKeys :: "('ix, 'x) upstream \<Rightarrow> nat \<Rightarrow> 32 word list \<Rightarrow> string \<Rightarrow> string \<Rightarrow> kv_cause + 64 word list" where
  "requestKeys up blockSize tokens model cacheSalt =
     up_TokensToKVBlockKeys up (up_EmptyBlockHash up) tokens model
       (foldCacheSalt None cacheSalt (length tokens div blockSize))"

definition add_scores :: "(string, ID) gomap \<Rightarrow> (ID, int) gomap \<Rightarrow> (string, f64) gomap \<Rightarrow> (ID, int) gomap" where
  \<comment> \<open>the inner loop of \<open>Lookup\<close> over the scores\<close>
  "add_scores backendByPod matched scores =
     foldl (\<lambda>m (podID, score). case map_of backendByPod podID of
         None \<Rightarrow> m
       | Some backendID \<Rightarrow> AList.update backendID (wrap64 (mget 0 m backendID + f_to_int64 (f_round score))) m)
       matched scores"

fun lookup_groups :: "('ix, 'x) upstream \<Rightarrow> nat \<Rightarrow> Query \<Rightarrow> string list \<Rightarrow> (string, ID) gomap \<Rightarrow>
    32 word list list \<Rightarrow> (ID, int) gomap \<Rightarrow> nat \<Rightarrow> 'ix \<Rightarrow> (kv_cause + (ID, int) gomap \<times> int) \<times> 'ix" where
  \<comment> \<open>the outer loop of \<open>Lookup\<close> over the token groups\<close>
  "lookup_groups up blockSize query podIDs backendByPod [] matched totalBlocks ix =
     (Inr (matched, int totalBlocks), ix)"
| "lookup_groups up blockSize query podIDs backendByPod (tokens # groups) matched totalBlocks ix =
     (let fullBlocks = length tokens div blockSize
      in case lookupRequestKeysUntilMiss up blockSize ix tokens (q_Model query) (q_CacheSalt query) podIDs of
           (Inl err, ix1) \<Rightarrow> (Inl err, ix1)
         | (Inr (keys, keyToPods), ix1) \<Rightarrow>
             if length keys = 0
             then lookup_groups up blockSize query podIDs backendByPod groups matched (totalBlocks + fullBlocks) ix1
             else (case up_Score up keys keyToPods of
                     Inl err \<Rightarrow> (Inl err, ix1)
                   | Inr scores \<Rightarrow>
                       lookup_groups up blockSize query podIDs backendByPod groups
                         (add_scores backendByPod matched scores) (totalBlocks + fullBlocks) ix1))"

definition vllm_Lookup :: "('ix, 'x) upstream \<Rightarrow> nat \<Rightarrow> 'ix \<Rightarrow> Query \<Rightarrow> (ID, Instance) gomap \<Rightarrow>
    (kv_cause + (ID, int) gomap \<times> int) \<times> 'ix" where
  "vllm_Lookup up blockSize ix query instances =
     (let podIDs = map (\<lambda>(bid, i). in_PodIdentifier i) instances;
          backendByPod = foldl (\<lambda>m (bid, i). AList.update (in_PodIdentifier i) bid m) [] instances
      in lookup_groups up blockSize query podIDs backendByPod (q_TokenGroups query) [] 0 ix)"

subsection \<open>Apply\<close>

definition canonicalKVGroupIndex :: int where "canonicalKVGroupIndex = 0"
definition supportedDeviceTier :: string where "supportedDeviceTier = ''gpu''"

definition isSupportedStoredGroup :: "('ix, 'x) upstream \<Rightarrow> 'x BlockStoredEvent \<Rightarrow> bool" where
  "isSupportedStoredGroup up event =
     (case bs_GroupIdx event of
        None \<Rightarrow> True
      | Some g \<Rightarrow> g = canonicalKVGroupIndex \<and> bs_KVCacheSpecKind event = up_FullAttention up
          \<and> bs_SlidingWindowSize event = None)"

definition ToLower :: "string \<Rightarrow> string" where
  \<comment> \<open>\<open>strings.ToLower\<close> on ASCII letters; no other rune maps to a letter of the supported tier\<close>
  "ToLower s = map (\<lambda>c. let n = (of_char c :: nat) in if 65 \<le> n \<and> n \<le> 90 then char_of (n + 32) else c) s"

definition normalizeDeviceTier :: "string \<Rightarrow> apply_error + string" where
  "normalizeDeviceTier raw =
     (let t = ToLower (TrimSpace raw); deviceTier = (if t = [] then supportedDeviceTier else t)
      in if deviceTier \<noteq> supportedDeviceTier then Inl (ApplyFault KVUnsupportedEvent (CauseText raw))
         else Inr deviceTier)"

fun check_known_keys :: "('ix, 'x) upstream \<Rightarrow> (64 word \<times> 64 word) list \<Rightarrow> 'ix \<Rightarrow> apply_error option \<times> 'ix" where
  \<comment> \<open>the loop of \<open>applyStored\<close> over engine keys paired with the computed request keys; the hash
      function returns one key per block, so the pairing drops none\<close>
  "check_known_keys up [] ix = (None, ix)"
| "check_known_keys up ((engineKey, requestKey) # rest) ix =
     (case up_GetRequestKey up ix engineKey of
        (Inr known, ix1) \<Rightarrow>
          if known \<noteq> requestKey then (Some (ApplyFault KVEngineRequestKeyMismatch (CauseText ''key mismatch'')), ix1)
          else check_known_keys up rest ix1
      | (Inl _, ix1) \<Rightarrow> check_known_keys up rest ix1)"

definition stored_supported :: "('ix, 'x) upstream \<Rightarrow> nat \<Rightarrow> 'x BlockStoredEvent \<Rightarrow> apply_error option" where
  \<comment> \<open>the guards of \<open>applyStored\<close> before the index is used\<close>
  "stored_supported up blockSize event =
     (if bs_BlockSize event \<noteq> int blockSize \<or> bs_LoraID event \<noteq> None \<or> bs_LoraName event \<noteq> None
         \<or> \<not> isSupportedStoredGroup up event
      then Some (ApplyFault KVUnsupportedEvent (CauseText ''block size, LoRA or HMA''))
      else case normalizeDeviceTier (bs_DeviceTier event) of
             Inl err \<Rightarrow> Some err
           | Inr _ \<Rightarrow>
               if length (bs_BlockHashes event) = 0 \<or> length (bs_Tokens event) < blockSize
               then Some (ApplyFault KVUnsupportedEvent (CauseText ''no complete block''))
               else if length (bs_Tokens event) mod blockSize \<noteq> 0
                    \<or> length (bs_BlockHashes event) \<noteq> length (bs_Tokens event) div blockSize
               then Some (ApplyFault KVUnsupportedEvent (CauseText ''different granularity''))
               else None)"

definition applyStored :: "('ix, 'x) upstream \<Rightarrow> nat \<Rightarrow> 'ix \<Rightarrow> string \<Rightarrow> string \<Rightarrow> 'x BlockStoredEvent \<Rightarrow>
    apply_error option \<times> 'ix" where
  "applyStored up blockSize ix podID model event =
     (case stored_supported up blockSize event of
        Some err \<Rightarrow> (Some err, ix)
      | None \<Rightarrow>
          (case (if bs_ParentHash event \<noteq> 0 then up_GetRequestKey up ix (bs_ParentHash event)
                 else (Inr (up_EmptyBlockHash up), ix)) of
             (Inl err, ix1) \<Rightarrow> (Some (ApplyFault KVEventApplyFailed err), ix1)
           | (Inr parentKey, ix1) \<Rightarrow>
               (case up_ParseRawExtraKeys up (bs_ExtraKeys event) of
                  Inl err \<Rightarrow> (Some (ApplyFault KVEventDecodeFailed err), ix1)
                | Inr extraFeatures \<Rightarrow>
                    if (case extraFeatures of None \<Rightarrow> False | Some xs \<Rightarrow> length xs \<noteq> length (bs_Tokens event) div blockSize)
                    then (Some (ApplyFault KVUnsupportedEvent (CauseText ''event block granularity'')), ix1)
                    else (case up_TokensToKVBlockKeys up parentKey (bs_Tokens event) model extraFeatures of
                            Inl err \<Rightarrow> (Some (ApplyFault KVEventApplyFailed err), ix1)
                          | Inr keys \<Rightarrow>
                              (case check_known_keys up (zip (bs_BlockHashes event) keys) ix1 of
                                 (Some err, ix2) \<Rightarrow> (Some err, ix2)
                               | (None, ix2) \<Rightarrow>
                                   let entry = \<lparr>pe_PodIdentifier = podID, pe_DeviceTier = supportedDeviceTier\<rparr>
                                   in case up_Add up ix2 (bs_BlockHashes event) keys [entry] of
                                        (Some err, ix3) \<Rightarrow> (Some (ApplyFault KVEventApplyFailed err), ix3)
                                      | (None, ix3) \<Rightarrow> (None, ix3))))))"

fun evict_all :: "('ix, 'x) upstream \<Rightarrow> PodEntry \<Rightarrow> 64 word list \<Rightarrow> 'ix \<Rightarrow> apply_error option \<times> 'ix" where
  "evict_all up entry [] ix = (None, ix)"
| "evict_all up entry (hash # rest) ix =
     (case up_Evict up ix hash [entry] of
        (Some err, ix1) \<Rightarrow> (Some (ApplyFault KVEventApplyFailed err), ix1)
      | (None, ix1) \<Rightarrow> evict_all up entry rest ix1)"

definition applyRemoved :: "('ix, 'x) upstream \<Rightarrow> 'ix \<Rightarrow> string \<Rightarrow> BlockRemovedEvent \<Rightarrow> apply_error option \<times> 'ix" where
  "applyRemoved up ix podID event =
     (if (case br_GroupIdx event of None \<Rightarrow> False | Some g \<Rightarrow> g \<noteq> canonicalKVGroupIndex)
      then (Some (ApplyFault KVUnsupportedEvent (CauseText ''HMA block removal'')), ix)
      else (case normalizeDeviceTier (br_DeviceTier event) of
              Inl err \<Rightarrow> (Some err, ix)
            | Inr deviceTier \<Rightarrow>
                evict_all up \<lparr>pe_PodIdentifier = podID, pe_DeviceTier = deviceTier\<rparr> (br_BlockHashes event) ix))"

definition vllm_Clear :: "('ix, 'x) upstream \<Rightarrow> 'ix \<Rightarrow> string \<Rightarrow> kv_cause option \<times> 'ix" where
  "vllm_Clear up ix podIdentifier =
     (case up_Clear up ix podIdentifier of
        (Some err, ix1) \<Rightarrow> (Some (CauseClear podIdentifier err), ix1)
      | (None, ix1) \<Rightarrow> (None, ix1))"

definition applyOne :: "('ix, 'x) upstream \<Rightarrow> nat \<Rightarrow> 'ix \<Rightarrow> string \<Rightarrow> string \<Rightarrow> 'x GenericEvent \<Rightarrow>
    apply_error option \<times> 'ix" where
  "applyOne up blockSize ix podID model event =
     (case event of
        BlockStored e \<Rightarrow> applyStored up blockSize ix podID model e
      | BlockRemoved e \<Rightarrow> applyRemoved up ix podID e
      | AllBlocksCleared \<Rightarrow>
          (case vllm_Clear up ix podID of (Some err, ix1) \<Rightarrow> (Some (ApplyOther err), ix1) | (None, ix1) \<Rightarrow> (None, ix1))
      | OtherEvent \<Rightarrow> (Some (ApplyFault KVUnsupportedEvent (CauseText ''unsupported KV event'')), ix))"

fun apply_all :: "('ix, 'x) upstream \<Rightarrow> nat \<Rightarrow> string \<Rightarrow> string \<Rightarrow> 'x GenericEvent list \<Rightarrow> 'ix \<Rightarrow> apply_error option \<times> 'ix" where
  "apply_all up blockSize podID model [] ix = (None, ix)"
| "apply_all up blockSize podID model (item # rest) ix =
     (case applyOne up blockSize ix podID model item of
        (Some err, ix1) \<Rightarrow> (Some err, ix1)
      | (None, ix1) \<Rightarrow> apply_all up blockSize podID model rest ix1)"

definition unix_epoch :: time where
  \<comment> \<open>1970-01-01 in nanoseconds since Go's zero time\<close>
  "unix_epoch = 62135596800000000000"

definition vllm_Apply :: "('ix, 'x) upstream \<Rightarrow> nat \<Rightarrow> 'ix \<Rightarrow> Instance \<Rightarrow> Event \<Rightarrow> (apply_error + time) \<times> 'ix" where
  "vllm_Apply up blockSize ix inst event =
     (case up_ParseMessage up event of
        Inl err \<Rightarrow> (Inl (ApplyFault KVEventDecodeFailed err), ix)
      | Inr (podID, model, batch) \<Rightarrow>
          if podID \<noteq> in_PodIdentifier inst \<or> model \<noteq> in_Model inst
          then (Inl (ApplyFault KVEventDecodeFailed (CauseText podID)), ix)
          else (case apply_all up blockSize podID model (eb_Events batch) ix of
                  (Some err, ix1) \<Rightarrow> (Inl err, ix1)
                | (None, ix1) \<Rightarrow>
                    (Inr (if f_lt (Fin 0) (eb_Timestamp batch)
                          then unix_epoch + f_to_int64 (f_mul (eb_Timestamp batch) (Fin 1000000000))
                          else zero_time), ix1)))"

definition vllm_store :: "('ix, 'x) upstream \<Rightarrow> nat \<Rightarrow> 'ix cacheStore" where
  "vllm_store up blockSize =
     \<lparr>cs_Lookup = vllm_Lookup up blockSize, cs_Apply = vllm_Apply up blockSize, cs_Clear = vllm_Clear up\<rparr>"

subsection \<open>Every fault is final for the stream\<close>

fun fault_ok :: "apply_error \<Rightarrow> bool" where
  "fault_ok (ApplyFault r c) = fatal_reason r"
| "fault_ok (ApplyOther c) = True"

lemma normalizeDeviceTier_fault: "normalizeDeviceTier raw = Inl err \<Longrightarrow> fault_ok err"
  by (auto simp: normalizeDeviceTier_def Let_def split: if_splits)

lemma stored_supported_fault: "stored_supported up bs event = Some err \<Longrightarrow> fault_ok err"
  by (auto simp: stored_supported_def normalizeDeviceTier_fault split: if_splits sum.splits)

lemma check_known_keys_fault: "fst (check_known_keys up kvs ix) = Some err \<Longrightarrow> fault_ok err"
  by (induction up kvs ix rule: check_known_keys.induct) (auto split: prod.splits sum.splits if_splits)

lemma applyStored_fault:
  assumes "fst (applyStored up bs ix podID model event) = Some err"
  shows "fault_ok err"
  using assms check_known_keys_fault [of up _ _ err]
  by (auto simp: applyStored_def Let_def stored_supported_fault
      split: option.splits prod.splits sum.splits if_splits) (metis fst_conv)+

lemma evict_all_fault: "fst (evict_all up entry hs ix) = Some err \<Longrightarrow> fault_ok err"
  by (induction up entry hs ix rule: evict_all.induct) (auto split: prod.splits option.splits)

lemma applyRemoved_fault: "fst (applyRemoved up ix podID event) = Some err \<Longrightarrow> fault_ok err"
  by (auto simp: applyRemoved_def dest: normalizeDeviceTier_fault evict_all_fault split: if_splits sum.splits)

lemma applyOne_fault: "fst (applyOne up bs ix podID model event) = Some err \<Longrightarrow> fault_ok err"
  by (auto simp: applyOne_def dest: applyStored_fault applyRemoved_fault
      split: GenericEvent.splits prod.splits option.splits)

lemma apply_all_fault: "fst (apply_all up bs podID model es ix) = Some err \<Longrightarrow> fault_ok err"
proof (induction es arbitrary: ix)
  case (Cons e es)
  then show ?case
    using applyOne_fault [of up bs ix podID model e err]
    by (auto split: prod.splits option.splits)
qed simp

interpretation vllm: cache_store_contract "vllm_store up blockSize" for up :: "('ix, 'x) upstream" and blockSize
proof unfold_locales
  fix st :: 'ix and i e r c
  assume "fst (cs_Apply (vllm_store up blockSize) st i e) = Inl (ApplyFault r c)"
  then show "fatal_reason r"
    using apply_all_fault [where up = up and bs = blockSize and err = "ApplyFault r c"]
    by (auto simp: vllm_store_def vllm_Apply_def split: sum.splits prod.splits option.splits if_splits)
       (metis fst_conv)
qed

subsection \<open>The hash chain\<close>

text \<open>
  The documented behaviour of the upstream packages that the lookup relies on: a request key is a hash
  of the previous key, the block's tokens, the model and the block's extra features, one key per
  full block; a lookup reports the pods that hold the key and does not change what the index holds.
\<close>

definition feature_at :: "features \<Rightarrow> nat \<Rightarrow> BlockExtraFeatures option" where
  "feature_at fs i = (case fs of None \<Rightarrow> None | Some xs \<Rightarrow> if i < length xs then xs ! i else None)"

fun hash_chain :: "(64 word \<Rightarrow> 32 word list \<Rightarrow> string \<Rightarrow> BlockExtraFeatures option \<Rightarrow> 64 word) \<Rightarrow> nat \<Rightarrow>
    32 word list \<Rightarrow> string \<Rightarrow> features \<Rightarrow> 64 word \<Rightarrow> nat list \<Rightarrow> 64 word list" where
  "hash_chain h bs tokens model fs parent [] = []"
| "hash_chain h bs tokens model fs parent (i # is) =
     (let k = h parent (take bs (drop (i * bs) tokens)) model (feature_at fs i)
      in k # hash_chain h bs tokens model fs k is)"

definition canonical_keys :: "('ix, 'x) upstream \<Rightarrow> nat \<Rightarrow>
    (64 word \<Rightarrow> 32 word list \<Rightarrow> string \<Rightarrow> BlockExtraFeatures option \<Rightarrow> 64 word) \<Rightarrow> bool" where
  "canonical_keys up bs h \<longleftrightarrow> (\<forall>parent tokens model fs.
     up_TokensToKVBlockKeys up parent tokens model fs =
       Inr (hash_chain h bs tokens model fs parent [0..<length tokens div bs]))"

definition content_lookup :: "('ix, 'x) upstream \<Rightarrow> ('ix \<Rightarrow> string list \<Rightarrow> 64 word \<Rightarrow> PodEntry list) \<Rightarrow> bool" where
  "content_lookup up locality \<longleftrightarrow> (\<forall>ix allowed k.
     up_Lookup up ix [k] allowed =
       (Inr (if locality ix allowed k = [] then [] else [(k, locality ix allowed k)]), ix))"

lemma feature_at_slice:
  "feature_at (case fs of None \<Rightarrow> None | Some xs \<Rightarrow> Some (take 1 (drop i xs))) 0 = feature_at fs i"
  by (auto simp: feature_at_def take_Suc hd_drop_conv_nth split: option.splits)

lemma until_miss_eq:
  assumes can: "canonical_keys up bs h" and loc: "content_lookup up locality" and "0 < bs"
    and "\<forall>i \<in> set is. (i + 1) * bs \<le> length tokens"
  shows "until_miss up bs tokens model fs allowed is parent keys k2p ix =
    (let hit = takeWhile (\<lambda>k. locality ix allowed k \<noteq> []) (hash_chain h bs tokens model fs parent is)
     in (Inr (keys @ hit, foldl (\<lambda>m k. AList.update k (locality ix allowed k) m) k2p hit), ix))"
  using assms(4)
proof (induction "is" arbitrary: parent keys k2p)
  case (Cons i "is")
  let ?block = "take bs (drop (i * bs) tokens)"
  let ?f = "case fs of None \<Rightarrow> None | Some xs \<Rightarrow> Some (take 1 (drop i xs))"
  define k where "k = h parent ?block model (feature_at fs i)"
  have "length ?block = bs" using Cons.prems by (auto simp: algebra_simps)
  then have "length ?block div bs = 1" using assms(3) by simp
  then have key: "up_TokensToKVBlockKeys up parent ?block model ?f = Inr [k]"
    using can feature_at_slice [of i fs] \<open>length ?block = bs\<close>
    by (simp add: canonical_keys_def k_def)
  have look: "up_Lookup up ix [k] allowed =
      (Inr (if locality ix allowed k = [] then [] else [(k, locality ix allowed k)]), ix)"
    using loc by (simp add: content_lookup_def)
  show ?case
  proof (cases "locality ix allowed k = []")
    case True
    then show ?thesis by (simp add: key look k_def [symmetric] mhas_def mget_def)
  next
    case False
    then show ?thesis
      using Cons.IH [of k "keys @ [k]" "AList.update k (locality ix allowed k) k2p"] Cons.prems
      by (simp add: key look k_def [symmetric] mhas_def mget_def Let_def)
  qed
qed simp

lemma full_block_bound: "i < length (tokens :: 'a list) div bs \<Longrightarrow> (i + 1) * bs \<le> length tokens"
  by (metis Suc_eq_plus1 Suc_leI div_times_less_eq_dividend le_trans mult_le_mono1)

lemma lookup_keys_eq:
  fixes up :: "('ix, 'x) upstream" and tokens :: "32 word list" and model salt :: string
    and pods :: "string list" and ix :: 'ix
  assumes "canonical_keys up bs h" and "content_lookup up locality" and "0 < bs"
  defines "keys \<equiv> hash_chain h bs tokens model (foldCacheSalt None salt (length tokens div bs)) (up_EmptyBlockHash up)
    [0..<length tokens div bs]"
  defines "hit \<equiv> takeWhile (\<lambda>k. locality ix pods k \<noteq> []) keys"
  shows "requestKeys up bs tokens model salt = Inr keys"
    and "lookupRequestKeysUntilMiss up bs ix tokens model salt pods =
      (Inr (hit, foldl (\<lambda>m k. AList.update k (locality ix pods k) m) [] hit), ix)"
proof -
  have "\<forall>i \<in> set [0..<length tokens div bs]. (i + 1) * bs \<le> length tokens"
    using full_block_bound [of _ tokens bs] by simp
  note until = until_miss_eq [OF assms(1-3) this, of model "foldCacheSalt None salt (length tokens div bs)" pods
      "up_EmptyBlockHash up" "[]" "[]" ix]
  show "lookupRequestKeysUntilMiss up bs ix tokens model salt pods =
      (Inr (hit, foldl (\<lambda>m k. AList.update k (locality ix pods k) m) [] hit), ix)"
    unfolding lookupRequestKeysUntilMiss_def Let_def until by (simp add: hit_def keys_def)
  show "requestKeys up bs tokens model salt = Inr keys"
    using assms(1) by (simp add: canonical_keys_def requestKeys_def keys_def)
qed

subsection \<open>Bounds of a lookup\<close>

definition score_bounded :: "('ix, 'x) upstream \<Rightarrow> bool" where
  \<comment> \<open>the longest-prefix scorer with weight one counts blocks: a pod's score is a number of keys\<close>
  "score_bounded up \<longleftrightarrow> (\<forall>keys k2p scores. up_Score up keys k2p = Inr scores \<longrightarrow>
     gomap_ok scores \<and> (\<forall>(p, x) \<in> set scores. \<exists>n \<le> length keys. x = Fin (of_nat n)))"

lemma until_miss_length:
  "fst (until_miss up bs tokens model fs allowed is parent keys k2p ix) = Inr (ks, kp) \<Longrightarrow>
     length ks \<le> length keys + length is"
proof (induction "is" arbitrary: parent keys k2p ix)
  case (Cons i "is")
  from Cons.prems show ?case
    by (auto simp: Let_def split: sum.splits prod.splits if_splits dest!: Cons.IH)
qed simp

lemma rounded_count: "int n \<le> max_int64 \<Longrightarrow> f_to_int64 (f_round (Fin (of_nat n))) = int n"
proof -
  assume n: "int n \<le> max_int64"
  have "round_away (of_nat n) = int n"
    unfolding round_away_def by (simp add: floor_eq_iff)
  then show ?thesis using n by (simp add: in_int64_def min_int64_def)
qed

definition pod_backends :: "(ID, Instance) gomap \<Rightarrow> (string, ID) gomap" where
  "pod_backends instances = foldl (\<lambda>m (bid, i). AList.update (in_PodIdentifier i) bid m) [] instances"

lemma pod_backends_Some:
  "map_of (pod_backends instances) p = Some b \<Longrightarrow> \<exists>i. (b, i) \<in> set instances \<and> in_PodIdentifier i = p"
proof (induction instances rule: rev_induct)
  case (snoc x xs)
  then show ?case by (auto simp: pod_backends_def update_conv' split: if_splits prod.splits)
qed (simp add: pod_backends_def)

lemma pod_backends_inj:
  assumes "gomap_ok instances" and "map_of (pod_backends instances) p = Some b"
    and "map_of (pod_backends instances) p' = Some b"
  shows "p = p'"
  using pod_backends_Some [OF assms(2)] pod_backends_Some [OF assms(3)] assms(1)
  by (metis map_of_eq_Some_iff' option.inject)

lemma add_scores_miss:
  "(\<forall>p \<in> fst ` set scores. map_of bp p \<noteq> Some b) \<Longrightarrow> mget 0 (add_scores bp m scores) b = mget 0 m b"
proof (induction scores arbitrary: m)
  case (Cons x xs)
  then show ?case
    by (cases x) (auto simp: add_scores_def mget_update split: option.splits)
qed (simp add: add_scores_def)

lemma add_scores_bound:
  assumes "gomap_ok scores" and "\<forall>(p, x) \<in> set scores. \<exists>n \<le> N. x = Fin (of_nat n)"
    and inj: "\<And>p p'. map_of bp p = Some b \<Longrightarrow> map_of bp p' = Some b \<Longrightarrow> p = p'"
    and "0 \<le> mget 0 m b" and "mget 0 m b + int N \<le> max_int64"
  shows "mget 0 m b \<le> mget 0 (add_scores bp m scores) b
    \<and> mget 0 (add_scores bp m scores) b \<le> mget 0 m b + int N"
  using assms(1,2,4,5)
proof (induction scores arbitrary: m)
  case Nil
  then show ?case by (simp add: add_scores_def)
next
  case (Cons x xs)
  obtain p v where x: "x = (p, v)" by force
  define m1 where "m1 = (case map_of bp p of None \<Rightarrow> m
    | Some bid \<Rightarrow> AList.update bid (wrap64 (mget 0 m bid + f_to_int64 (f_round v))) m)"
  have step: "add_scores bp m (x # xs) = add_scores bp m1 xs"
    by (simp add: add_scores_def x m1_def)
  show ?case
  proof (cases "map_of bp p = Some b")
    case True
    obtain n where n: "n \<le> N" "v = Fin (of_nat n)" using Cons.prems(2) by (auto simp: x)
    have "p \<notin> fst ` set xs" using Cons.prems(1) by (simp add: gomap_ok_def x)
    then have "\<forall>p' \<in> fst ` set xs. map_of bp p' \<noteq> Some b" using inj True by blast
    then have "mget 0 (add_scores bp m1 xs) b = mget 0 m1 b" by (rule add_scores_miss)
    moreover have "f_to_int64 (f_round v) = int n"
      using n Cons.prems(3,4) by (simp add: n(2) rounded_count del: f_round.simps f_to_int64.simps)
    moreover have "wrap64 (mget 0 m b + int n) = mget 0 m b + int n"
      using n(1) Cons.prems(3,4) by (intro wrap64_id) (simp add: in_int64_def min_int64_def)
    ultimately show ?thesis using n(1) by (simp add: step m1_def True mget_update)
  next
    case False
    then have "mget 0 m1 b = mget 0 m b" by (auto simp: m1_def mget_update split: option.splits)
    moreover have "gomap_ok xs" using Cons.prems(1) by (simp add: gomap_ok_def)
    ultimately show ?thesis using Cons.IH [of m1] Cons.prems by (simp add: step)
  qed
qed

definition group_blocks :: "nat \<Rightarrow> 32 word list list \<Rightarrow> nat" where
  "group_blocks bs groups = sum_list (map (\<lambda>ts. length ts div bs) groups)"

lemma lookup_keys_length:
  "fst (lookupRequestKeysUntilMiss up bs ix tokens model salt pods) = Inr (ks, kp) \<Longrightarrow> length ks \<le> length tokens div bs"
  by (auto simp: lookupRequestKeysUntilMiss_def Let_def dest: until_miss_length)

lemma lookup_groups_bound:
  assumes score: "score_bounded up"
    and inj: "\<And>p p'. map_of bp p = Some b \<Longrightarrow> map_of bp p' = Some b \<Longrightarrow> p = p'"
    and "fst (lookup_groups up bs q pods bp groups m t ix) = Inr (m', t')"
    and "0 \<le> mget 0 m b" "mget 0 m b \<le> int t" "int t + int (group_blocks bs groups) \<le> max_int64"
  shows "t' = int t + int (group_blocks bs groups) \<and> 0 \<le> mget 0 m' b \<and> mget 0 m' b \<le> t'"
  using assms(3-6)
proof (induction groups arbitrary: m t ix)
  case Nil
  then show ?case by (simp add: group_blocks_def)
next
  case (Cons ts groups)
  let ?n = "length ts div bs"
  have total: "group_blocks bs (ts # groups) = ?n + group_blocks bs groups" by (simp add: group_blocks_def)
  obtain keys kp ix1 where look: "lookupRequestKeysUntilMiss up bs ix ts (q_Model q) (q_CacheSalt q) pods = (Inr (keys, kp), ix1)"
    using Cons.prems(1) by (auto simp: Let_def split: prod.splits sum.splits)
  have len: "length keys \<le> ?n" using lookup_keys_length look by (metis fst_conv)
  show ?case
  proof (cases "length keys = 0")
    case True
    then have "fst (lookup_groups up bs q pods bp groups m (t + ?n) ix1) = Inr (m', t')"
      using Cons.prems(1) by (simp add: look)
    from Cons.IH [OF this] Cons.prems total show ?thesis by simp
  next
    case False
    then obtain scores where sc: "up_Score up keys kp = Inr scores"
      and rec: "fst (lookup_groups up bs q pods bp groups (add_scores bp m scores) (t + ?n) ix1) = Inr (m', t')"
      using Cons.prems(1) by (auto simp: look split: sum.splits)
    have "mget 0 m b \<le> mget 0 (add_scores bp m scores) b
        \<and> mget 0 (add_scores bp m scores) b \<le> mget 0 m b + int (length keys)"
      using score sc inj Cons.prems(2-4) total len
      by (intro add_scores_bound) (auto simp: score_bounded_def)
    with Cons.IH [OF rec] Cons.prems(2-4) total len show ?thesis by simp
  qed
qed

lemma lookup_groups_total:
  "fst (lookup_groups up bs q pods bp groups m t ix) = Inr (m', t') \<Longrightarrow> t' = int t + int (group_blocks bs groups)"
proof (induction groups arbitrary: m t ix)
  case (Cons ts groups)
  then show ?case
    by (fastforce simp: Let_def group_blocks_def split: prod.splits sum.splits if_splits)
qed (simp add: group_blocks_def)

lemma vllm_Lookup_bound:
  assumes "score_bounded up" and "gomap_ok instances"
    and "fst (vllm_Lookup up bs ix q instances) = Inr (m, t)" and "int (group_blocks bs (q_TokenGroups q)) \<le> max_int64"
  shows "t = int (group_blocks bs (q_TokenGroups q)) \<and> 0 \<le> mget 0 m b \<and> mget 0 m b \<le> t"
proof -
  have "fst (lookup_groups up bs q (map (\<lambda>(bid, i). in_PodIdentifier i) instances) (pod_backends instances)
      (q_TokenGroups q) [] 0 ix) = Inr (m, t)"
    using assms(3) by (simp add: vllm_Lookup_def pod_backends_def)
  moreover have inj: "\<And>p p'. map_of (pod_backends instances) p = Some b \<Longrightarrow>
      map_of (pod_backends instances) p' = Some b \<Longrightarrow> p = p'"
    by (rule pod_backends_inj [OF assms(2)])
  ultimately show ?thesis
    using lookup_groups_bound [OF assms(1) inj] assms(4) by (fastforce simp: mget_def)
qed

subsection \<open>Properties\<close>

definition wit_hash :: "64 word \<Rightarrow> 32 word list \<Rightarrow> string \<Rightarrow> BlockExtraFeatures option \<Rightarrow> 64 word" where
  "wit_hash parent block model f = parent + of_nat (length block) + (case f of None \<Rightarrow> 0 | Some _ \<Rightarrow> 100)"

definition wit_entry :: PodEntry where
  "wit_entry = \<lparr>pe_PodIdentifier = ''p'', pe_DeviceTier = ''gpu''\<rparr>"

definition wit_upstream :: "(64 word list, unit) upstream" where
  \<comment> \<open>an index that is the list of the keys one pod holds\<close>
  "wit_upstream = \<lparr>up_EmptyBlockHash = 0, up_FullAttention = ''full'',
     up_TokensToKVBlockKeys = (\<lambda>parent tokens model fs.
       Inr (hash_chain wit_hash 2 tokens model fs parent [0..<length tokens div 2])),
     up_Lookup = (\<lambda>ix ks allowed. (Inr (map (\<lambda>k. (k, [wit_entry])) (filter (\<lambda>k. k \<in> set ix) ks)), ix)),
     up_GetRequestKey = (\<lambda>ix k. (Inl NoCause, ix)),
     up_Add = (\<lambda>ix eks rks es. (None, ix @ rks)), up_Evict = (\<lambda>ix k es. (None, ix)), up_Clear = (\<lambda>ix p. (None, [])),
     up_Score = (\<lambda>ks kp. Inr [(''p'', Fin (of_nat (length ks)))]),
     up_ParseMessage = (\<lambda>e. Inr (''p'', ''m'', \<lparr>eb_Timestamp = Fin 0, eb_Events = []\<rparr>)),
     up_ParseRawExtraKeys = (\<lambda>x. Inr None)\<rparr>"

lemma wit_upstream_laws:
  "canonical_keys wit_upstream 2 wit_hash"
  "content_lookup wit_upstream (\<lambda>ix allowed k. if k \<in> set ix then [wit_entry] else [])"
  "score_bounded wit_upstream"
  by (auto simp: canonical_keys_def content_lookup_def score_bounded_def wit_upstream_def gomap_ok_def)



text \<open>
  C14. The block-by-block lookup that stops at the first miss returns exactly the longest prefix of the
  request's full key list whose every key some allowed pod holds, with the pods of each key: the
  early stop of the optimised routine loses nothing against hashing the whole request.
\<close>

theorem lookup_is_longest_prefix:
  assumes "canonical_keys up bs h" and "content_lookup up locality" and "0 < bs"
  shows "\<exists>keys keyToPods. requestKeys up bs tokens model salt = Inr keys
    \<and> lookupRequestKeysUntilMiss up bs ix tokens model salt pods =
        (Inr (takeWhile (\<lambda>k. locality ix pods k \<noteq> []) keys, keyToPods), ix)
    \<and> (\<forall>k. map_of keyToPods k =
         (if k \<in> set (takeWhile (\<lambda>k. locality ix pods k \<noteq> []) keys) then Some (locality ix pods k) else None))"
proof -
  have stored: "map_of (foldl (\<lambda>m k. AList.update k (f k) m) m ks) k =
      (if k \<in> set ks then Some (f k) else map_of m k)" for m ks k and f :: "64 word \<Rightarrow> PodEntry list"
    by (induction ks arbitrary: m) (auto simp: update_conv')
  note eqs = lookup_keys_eq [OF assms]
  show ?thesis
    by (rule exI, rule exI, rule conjI [OF eqs(1)], rule conjI [OF eqs(2)]) (simp add: stored)
qed

theorem lookup_is_longest_prefix_witness:
  "\<exists>keys keyToPods. requestKeys wit_upstream 2 [1, 2, 3, 4] ''m'' [] = Inr keys
    \<and> lookupRequestKeysUntilMiss wit_upstream 2 [2] [1, 2, 3, 4] ''m'' [] [''p''] = (Inr ([2], keyToPods), [2])"
  using lookup_is_longest_prefix [OF wit_upstream_laws(1,2), of "[1, 2, 3, 4]" "''m''" "[]" "[2]" "[''p'']"]
  by (auto simp: requestKeys_def wit_upstream_def foldCacheSalt_def wit_hash_def feature_at_def upt_rec)

end
