(* ===== verification/KV_Service.thy ===== *)
theory KV_Service
  imports KV_Store
begin

text \<open>
  \<open>internal/serving/kvcache/kvcache_impl.go\<close> and \<open>reconcile_impl.go\<close>: the owner of the streams and
  the store. The code compares stream pointers to detect that a pod was replaced during a lookup, so a
  registered stream carries a handle, fresh for every new stream. \<open>Lookup\<close> reads the registered
  streams twice, before and after it queries the store; the two reads may see different states of the
  service, which are two arguments here. \<open>url.Parse\<close> is an argument.
\<close>

subsection \<open>Values\<close>

datatype kv_code = CodeInvalidQuery | CodeCapacity | CodeIndex | CodeLifecycle | CodeClosed

datatype query_error = ErrQueryModel | ErrQueryNoPrompt | ErrQueryNoBackend | ErrQueryBackendEmpty
  | ErrQueryBackendDuplicated ID

datatype instance_error = ErrInstanceIdentity | ErrEventsEndpoint string | ErrReplayEndpoint string

datatype kv_error_cause =
    CauseQuery query_error
  | CauseInstance instance_error
  | CauseSaltBytes int
  | CauseQueryTokens int
  | CauseInstances int
  | CauseBackendDuplicated ID
  | CausePodUIDDuplicated string
  | CausePodIdentifierDuplicated string
  | CauseStore kv_cause
  | CauseServiceClosed

datatype kv_error = KVError kv_code kv_error_cause

fun check_query_backends :: "ID list \<Rightarrow> ID list \<Rightarrow> query_error option" where
  "check_query_backends seen [] = None"
| "check_query_backends seen (c # cs) =
     (if c = [] then Some ErrQueryBackendEmpty
      else if c \<in> set seen then Some (ErrQueryBackendDuplicated c)
      else check_query_backends (c # seen) cs)"

definition Query_Validate :: "Query \<Rightarrow> query_error option" where
  "Query_Validate q =
     (if TrimSpace (q_Model q) = [] then Some ErrQueryModel
      else if length (q_TokenGroups q) = 0 then Some ErrQueryNoPrompt
      else if length (q_Backends q) = 0 then Some ErrQueryNoBackend
      else check_query_backends [] (q_Backends q))"

definition validateZMQEndpoint :: "url_parser \<Rightarrow> string \<Rightarrow> bool" where
  "validateZMQEndpoint url_parse raw =
     (case url_parse (TrimSpace raw) of None \<Rightarrow> False | Some (scheme, host) \<Rightarrow> \<not> (scheme \<noteq> ''tcp'' \<or> host = []))"

definition Instance_Validate :: "url_parser \<Rightarrow> Instance \<Rightarrow> instance_error option" where
  "Instance_Validate url_parse i =
     (if in_Backend i = [] \<or> in_PodUID i = [] \<or> TrimSpace (in_PodIdentifier i) = [] \<or> TrimSpace (in_Model i) = []
      then Some ErrInstanceIdentity
      else if \<not> validateZMQEndpoint url_parse (in_EventsEndpoint i) then Some (ErrEventsEndpoint (in_EventsEndpoint i))
      else if \<not> validateZMQEndpoint url_parse (in_ReplayEndpoint i) then Some (ErrReplayEndpoint (in_ReplayEndpoint i))
      else None)"

record Match =
  mt_Backend :: ID
  mt_Valid :: bool
  mt_Reason :: KVReason
  mt_MatchedBlocks :: int
  mt_MatchedTokens :: int
  mt_TotalBlocks :: int
  mt_TotalTokens :: int
  mt_ObservedAt :: time
  mt_Freshness :: duration

record kv_Snapshot =
  kvs_lookupAt :: time
  kvs_totalTokens :: int
  kvs_totalBlocks :: int
  kvs_matches :: "(ID, Match) gomap"

record kv_service =
  ks_config :: kv_Config
  ks_streams :: "(ID, nat \<times> eventStream) gomap"
  ks_next :: nat \<comment> \<open>the next fresh handle\<close>
  ks_closed :: bool

definition newService :: "kv_Config \<Rightarrow> kv_service" where
  "newService config = \<lparr>ks_config = config, ks_streams = [], ks_next = 0, ks_closed = False\<rparr>"

definition validMatch :: "ID \<Rightarrow> InstanceState \<Rightarrow> int \<Rightarrow> int \<Rightarrow> int \<Rightarrow> int \<Rightarrow> Match" where
  "validMatch backendID state blocks totalTokens totalBlocks blockSize =
     \<lparr>mt_Backend = backendID, mt_Valid = True, mt_Reason = KVNone, mt_MatchedBlocks = blocks,
      mt_MatchedTokens = wrap64 (blocks * blockSize), mt_TotalBlocks = totalBlocks,
      mt_TotalTokens = totalTokens, mt_ObservedAt = is_LastReplayAt state, mt_Freshness = is_Freshness state\<rparr>"

definition invalidMatch :: "ID \<Rightarrow> InstanceState \<Rightarrow> int \<Rightarrow> int \<Rightarrow> Match" where
  "invalidMatch backendID state totalTokens totalBlocks =
     \<lparr>mt_Backend = backendID, mt_Valid = False, mt_Reason = is_Reason state, mt_MatchedBlocks = 0,
      mt_MatchedTokens = 0, mt_TotalBlocks = totalBlocks, mt_TotalTokens = totalTokens,
      mt_ObservedAt = is_LastReplayAt state, mt_Freshness = is_Freshness state\<rparr>"

subsection \<open>Lookup\<close>

fun count_tokens :: "kv_Config \<Rightarrow> 32 word list list \<Rightarrow> int \<Rightarrow> int \<Rightarrow> kv_error + int \<times> int" where
  \<comment> \<open>the loop of \<open>validateQuery\<close>\<close>
  "count_tokens c [] totalTokens totalBlocks = Inr (totalTokens, totalBlocks)"
| "count_tokens c (tokens # groups) totalTokens totalBlocks =
     (let t = wrap64 (totalTokens + int (length tokens))
      in if t > MaxQueryTokens c then Inl (KVError CodeCapacity (CauseQueryTokens (MaxQueryTokens c)))
         else count_tokens c groups t (wrap64 (totalBlocks + quot64 (int (length tokens)) (BlockSizeTokens c))))"

definition validateQuery :: "kv_Config \<Rightarrow> Query \<Rightarrow> kv_error + int \<times> int" where
  "validateQuery c query =
     (case Query_Validate query of
        Some err \<Rightarrow> Inl (KVError CodeInvalidQuery (CauseQuery err))
      | None \<Rightarrow>
          if int (length (q_CacheSalt query)) > MaxCacheSaltBytes c
          then Inl (KVError CodeCapacity (CauseSaltBytes (MaxCacheSaltBytes c)))
          else count_tokens c (q_TokenGroups query) 0 0)"

record lookup_acc =
  la_selected :: "(ID, nat) gomap"
  la_instances :: "(ID, Instance) gomap"
  la_matches :: "(ID, Match) gomap"

definition unknownMatch :: "ID \<Rightarrow> int \<Rightarrow> int \<Rightarrow> Match" where
  "unknownMatch backendID totalTokens totalBlocks =
     \<lparr>mt_Backend = backendID, mt_Valid = False, mt_Reason = KVBackendUnknown, mt_MatchedBlocks = 0,
      mt_MatchedTokens = 0, mt_TotalBlocks = totalBlocks, mt_TotalTokens = totalTokens,
      mt_ObservedAt = zero_time, mt_Freshness = 0\<rparr>"

definition lookup_input :: "(ID \<Rightarrow> time) \<Rightarrow> kv_service \<Rightarrow> Query \<Rightarrow> int \<Rightarrow> int \<Rightarrow> lookup_acc \<Rightarrow> ID \<Rightarrow> lookup_acc" where
  \<comment> \<open>the body of the loop of \<open>lookupInputs\<close>\<close>
  "lookup_input now s query totalTokens totalBlocks acc backendID =
     (case map_of (ks_streams s) backendID of
        None \<Rightarrow> acc\<lparr>la_matches := AList.update backendID (unknownMatch backendID totalTokens totalBlocks) (la_matches acc)\<rparr>
      | Some (handle, stream) \<Rightarrow>
          let state0 = stream_Snapshot (now backendID) stream;
              state = (if in_Model (is_Instance state0) \<noteq> q_Model query
                       then state0\<lparr>is_Valid := False, is_Reason := KVModelMismatch\<rparr> else state0)
          in if \<not> is_Valid state
             then acc\<lparr>la_matches := AList.update backendID (invalidMatch backendID state totalTokens totalBlocks) (la_matches acc)\<rparr>
             else acc\<lparr>la_selected := AList.update backendID handle (la_selected acc),
                      la_instances := AList.update backendID (is_Instance state) (la_instances acc)\<rparr>)"

definition lookupInputs :: "(ID \<Rightarrow> time) \<Rightarrow> kv_service \<Rightarrow> Query \<Rightarrow> int \<Rightarrow> int \<Rightarrow> kv_error + lookup_acc" where
  "lookupInputs now s query totalTokens totalBlocks =
     (if ks_closed s then Inl (KVError CodeClosed CauseServiceClosed)
      else Inr (foldl (lookup_input now s query totalTokens totalBlocks)
             \<lparr>la_selected = [], la_instances = [], la_matches = []\<rparr> (q_Backends query)))"

definition lifecycleState :: InstanceState where
  \<comment> \<open>\<open>InstanceState{Reason: ReasonLifecycleChanging}\<close>\<close>
  "lifecycleState =
     \<lparr>is_Instance = \<lparr>in_Backend = [], in_PodUID = [], in_PodIdentifier = [], in_Model = [],
        in_EventsEndpoint = [], in_ReplayEndpoint = []\<rparr>, is_Valid = False, is_Reason = KVLifecycleChanging,
      is_HasSequence = False, is_LastSequence = 0, is_LastReplayAt = zero_time, is_LastEventAt = zero_time,
      is_LastEventLag = 0, is_Freshness = 0, is_AppliedBatches = 0, is_ReplayBatches = 0,
      is_DuplicateBatches = 0, is_LastError = NoCause\<rparr>"

definition currentState :: "(ID \<Rightarrow> time) \<Rightarrow> kv_service \<Rightarrow> ID \<Rightarrow> nat \<Rightarrow> InstanceState \<times> bool" where
  "currentState now s backendID expected =
     (case map_of (ks_streams s) backendID of
        None \<Rightarrow> (lifecycleState, False)
      | Some (handle, stream) \<Rightarrow>
          if handle \<noteq> expected then (lifecycleState, False)
          else (stream_Snapshot (now backendID) stream, True))"

definition publish_match :: "(ID \<Rightarrow> time) \<Rightarrow> kv_service \<Rightarrow> (ID, int) gomap \<Rightarrow> int \<Rightarrow> int \<Rightarrow>
    (ID, Match) gomap \<Rightarrow> ID \<times> nat \<Rightarrow> (ID, Match) gomap" where
  \<comment> \<open>the body of the last loop of \<open>Lookup\<close>\<close>
  "publish_match now s matchedBlocks totalTokens totalBlocks matches selected =
     (let (backendID, handle) = selected; (state, current) = currentState now s backendID handle
      in if \<not> current \<or> \<not> is_Valid state
         then AList.update backendID (invalidMatch backendID state totalTokens totalBlocks) matches
         else AList.update backendID (validMatch backendID state (mget 0 matchedBlocks backendID)
                totalTokens totalBlocks (BlockSizeTokens (ks_config s))) matches)"

definition kv_Lookup :: "'st cacheStore \<Rightarrow> time \<Rightarrow> (ID \<Rightarrow> time) \<Rightarrow> (ID \<Rightarrow> time) \<Rightarrow> kv_service \<Rightarrow> kv_service \<Rightarrow>
    'st \<Rightarrow> Query \<Rightarrow> (kv_error + kv_Snapshot) \<times> 'st" where
  \<comment> \<open>\<open>s\<close> is the service when the inputs are fixed, \<open>s2\<close> when the result is published\<close>
  "kv_Lookup store lookupAt now now2 s s2 st query =
     (case validateQuery (ks_config s) query of
        Inl err \<Rightarrow> (Inl err, st)
      | Inr (totalTokens, totalBlocks) \<Rightarrow>
          (case lookupInputs now s query totalTokens totalBlocks of
             Inl err \<Rightarrow> (Inl err, st)
           | Inr acc \<Rightarrow>
               (case (if length (la_instances acc) > 0 \<and> totalBlocks > 0
                      then cs_Lookup store st query (la_instances acc)
                      else (Inr ([], totalBlocks), st)) of
                  (Inl err, st1) \<Rightarrow> (Inl (KVError CodeIndex (CauseStore err)), st1)
                | (Inr (matchedBlocks, totalBlocks1), st1) \<Rightarrow>
                    (Inr \<lparr>kvs_lookupAt = lookupAt, kvs_totalTokens = totalTokens, kvs_totalBlocks = totalBlocks1,
                       kvs_matches = foldl (publish_match now2 s2 matchedBlocks totalTokens totalBlocks1)
                         (la_matches acc) (la_selected acc)\<rparr>, st1))))"

subsection \<open>Reconcile, State and Close\<close>

definition normalizeInstance :: "Instance \<Rightarrow> Instance" where
  "normalizeInstance i = i\<lparr>in_PodIdentifier := TrimSpace (in_PodIdentifier i), in_Model := TrimSpace (in_Model i),
     in_EventsEndpoint := TrimSpace (in_EventsEndpoint i), in_ReplayEndpoint := TrimSpace (in_ReplayEndpoint i)\<rparr>"

fun validate_instances_loop :: "url_parser \<Rightarrow> Instance list \<Rightarrow> (ID, Instance) gomap \<Rightarrow> string list \<Rightarrow> string list \<Rightarrow>
    kv_error + (ID, Instance) gomap" where
  "validate_instances_loop url_parse [] normalized uids podIDs = Inr normalized"
| "validate_instances_loop url_parse (raw # rest) normalized uids podIDs =
     (let i = normalizeInstance raw
      in case Instance_Validate url_parse i of
           Some err \<Rightarrow> Inl (KVError CodeLifecycle (CauseInstance err))
         | None \<Rightarrow>
             if mhas normalized (in_Backend i) then Inl (KVError CodeLifecycle (CauseBackendDuplicated (in_Backend i)))
             else if in_PodUID i \<in> set uids then Inl (KVError CodeLifecycle (CausePodUIDDuplicated (in_PodUID i)))
             else if in_PodIdentifier i \<in> set podIDs
             then Inl (KVError CodeLifecycle (CausePodIdentifierDuplicated (in_PodIdentifier i)))
             else validate_instances_loop url_parse rest (AList.update (in_Backend i) i normalized)
                    (in_PodUID i # uids) (in_PodIdentifier i # podIDs))"

definition validateInstances :: "url_parser \<Rightarrow> kv_Config \<Rightarrow> Instance list \<Rightarrow> kv_error + (ID, Instance) gomap" where
  "validateInstances url_parse c desired =
     (if int (length desired) > MaxInstances c then Inl (KVError CodeCapacity (CauseInstances (MaxInstances c)))
      else validate_instances_loop url_parse desired [] [] [])"

record changes =
  ch_next :: "(ID, nat \<times> eventStream) gomap"
  ch_additions :: "ID list"
  ch_retired :: "ID list"
  ch_handle :: nat

definition keep_or_add :: "kv_Config \<Rightarrow> (ID, nat \<times> eventStream) gomap \<Rightarrow> changes \<Rightarrow> ID \<times> Instance \<Rightarrow> changes" where
  \<comment> \<open>the body of the first loop of \<open>reconcileChanges\<close>\<close>
  "keep_or_add c current ch desired =
     (let (backendID, inst) = desired
      in case map_of current backendID of
           Some (handle, existing) \<Rightarrow>
             if stream_Same existing inst \<and> \<not> es_closed existing
             then ch\<lparr>ch_next := AList.update backendID (handle, existing) (ch_next ch)\<rparr>
             else ch\<lparr>ch_retired := ch_retired ch @ [backendID],
                     ch_next := AList.update backendID (ch_handle ch, newEventStream c inst) (ch_next ch),
                     ch_additions := ch_additions ch @ [backendID], ch_handle := ch_handle ch + 1\<rparr>
         | None \<Rightarrow>
             ch\<lparr>ch_next := AList.update backendID (ch_handle ch, newEventStream c inst) (ch_next ch),
                ch_additions := ch_additions ch @ [backendID], ch_handle := ch_handle ch + 1\<rparr>)"

definition reconcileChanges :: "kv_service \<Rightarrow> (ID, Instance) gomap \<Rightarrow> changes" where
  "reconcileChanges s desired =
     (let ch = foldl (keep_or_add (ks_config s) (ks_streams s))
                 \<lparr>ch_next = [], ch_additions = [], ch_retired = [], ch_handle = ks_next s\<rparr> desired
      in ch\<lparr>ch_retired := ch_retired ch @
           map fst (filter (\<lambda>(bid, x). \<not> mhas desired bid) (ks_streams s))\<rparr>)"

definition retire :: "KVReason \<Rightarrow> kv_cause \<Rightarrow> ID \<Rightarrow> kv_service \<Rightarrow> kv_service" where
  \<comment> \<open>\<open>Invalidate\<close> and \<open>Close\<close> of a registered stream\<close>
  "retire reason detail bid s =
     (case map_of (ks_streams s) bid of
        None \<Rightarrow> s
      | Some (handle, stream) \<Rightarrow>
          s\<lparr>ks_streams := AList.update bid (handle, stream_Close (Invalidate reason detail stream)) (ks_streams s)\<rparr>)"

definition pod_of :: "kv_service \<Rightarrow> ID \<Rightarrow> string" where
  "pod_of s bid = (case map_of (ks_streams s) bid of None \<Rightarrow> [] | Some (h, stream) \<Rightarrow> in_PodIdentifier (es_instance stream))"

fun retire_all :: "'st cacheStore \<Rightarrow> ID list \<Rightarrow> kv_service \<Rightarrow> 'st \<Rightarrow> kv_error option \<times> kv_service \<times> 'st" where
  \<comment> \<open>the loop of \<open>Reconcile\<close> over the retired streams\<close>
  "retire_all store [] s st = (None, s, st)"
| "retire_all store (bid # rest) s st =
     (let s1 = retire KVLifecycleChanging (CauseText ''instance removed or replaced'') bid s
      in case cs_Clear store st (pod_of s1 bid) of
           (Some err, st1) \<Rightarrow> (Some (KVError CodeLifecycle (CauseStore err)), s1, st1)
         | (None, st1) \<Rightarrow> retire_all store rest s1 st1)"

definition start_stream :: "(ID, nat \<times> eventStream) gomap \<Rightarrow> ID \<Rightarrow> (ID, nat \<times> eventStream) gomap" where
  "start_stream streams bid =
     (case map_of streams bid of None \<Rightarrow> streams
      | Some (h, stream) \<Rightarrow> AList.update bid (h, stream_Start stream) streams)"

definition kv_Reconcile :: "url_parser \<Rightarrow> 'st cacheStore \<Rightarrow> kv_service \<Rightarrow> 'st \<Rightarrow> Instance list \<Rightarrow>
    kv_error option \<times> kv_service \<times> 'st" where
  "kv_Reconcile url_parse store s st desired =
     (case validateInstances url_parse (ks_config s) desired of
        Inl err \<Rightarrow> (Some err, s, st)
      | Inr normalized \<Rightarrow>
          if ks_closed s then (Some (KVError CodeClosed CauseServiceClosed), s, st)
          else let ch = reconcileChanges s normalized; s0 = s\<lparr>ks_next := ch_handle ch\<rparr>
               in case retire_all store (ch_retired ch) s0 st of
                    (Some err, s1, st1) \<Rightarrow> (Some err, s1, st1)
                  | (None, s1, st1) \<Rightarrow>
                      (None, s1\<lparr>ks_streams := foldl start_stream (ch_next ch) (ch_additions ch)\<rparr>, st1))"

definition kv_State :: "time \<Rightarrow> (ID \<Rightarrow> time) \<Rightarrow> kv_service \<Rightarrow> time \<times> bool \<times> (ID, InstanceState) gomap" where
  "kv_State observedAt now s =
     (observedAt, ks_closed s, map (\<lambda>(bid, h, stream). (bid, stream_Snapshot (now bid) stream)) (ks_streams s))"

fun close_all :: "'st cacheStore \<Rightarrow> ID list \<Rightarrow> kv_service \<Rightarrow> 'st \<Rightarrow> kv_cause list \<times> kv_service \<times> 'st" where
  "close_all store [] s st = ([], s, st)"
| "close_all store (bid # rest) s st =
     (let s1 = retire KVClosed (CauseText ''kvcache closed'') bid s;
          (err, st1) = cs_Clear store st (pod_of s1 bid);
          (errs, s2, st2) = close_all store rest s1 st1
      in (case err of None \<Rightarrow> errs | Some e \<Rightarrow> e # errs, s2, st2))"

definition kv_Close :: "'st cacheStore \<Rightarrow> kv_service \<Rightarrow> 'st \<Rightarrow> kv_cause list \<times> kv_service \<times> 'st" where
  "kv_Close store s st =
     (if ks_closed s then ([], s, st)
      else close_all store (map fst (ks_streams s)) (s\<lparr>ks_closed := True\<rparr>) st)"

subsection \<open>Query totals\<close>

definition group_tokens :: "32 word list list \<Rightarrow> nat" where
  "group_tokens groups = sum_list (map length groups)"

definition groups_fit :: "kv_Config \<Rightarrow> 32 word list list \<Rightarrow> bool" where
  \<comment> \<open>no group is so long that adding it to a permitted total leaves the integer range\<close>
  "groups_fit c groups \<longleftrightarrow> (\<forall>ts \<in> set groups. MaxQueryTokens c + int (length ts) \<le> max_int64)"

lemma quot64_length:
  assumes "0 < bs" and "int (length ts) \<le> max_int64"
  shows "quot64 (int (length ts)) (int bs) = int (length ts div bs)"
proof -
  have "int (length ts) div int bs = int (length ts div bs)" by (simp add: zdiv_int)
  moreover have "in_int64 (int (length ts div bs))"
    using assms(2) div_le_dividend [of "length ts" bs] by (simp add: in_int64_def min_int64_def del: div_le_dividend)
  ultimately show ?thesis
    using assms by (cases "ts = []") (simp_all add: quot64_def sgn_if)
qed

lemma count_tokens_spec:
  assumes "count_tokens c groups t b = Inr (t', b')" and "0 \<le> t" "t \<le> MaxQueryTokens c" "0 \<le> b" "b \<le> t"
    and "BlockSizeTokens c = int bs" "0 < bs" "groups_fit c groups"
  shows "t' = t + int (group_tokens groups) \<and> b' = b + int (group_blocks bs groups) \<and> t' \<le> MaxQueryTokens c"
  using assms(1-5,8)
proof (induction groups arbitrary: t b)
  case Nil
  then show ?case by (simp add: group_tokens_def group_blocks_def)
next
  case (Cons ts groups)
  have fit: "MaxQueryTokens c + int (length ts) \<le> max_int64" "groups_fit c groups"
    using Cons.prems(6) by (simp_all add: groups_fit_def)
  have "wrap64 (t + int (length ts)) = t + int (length ts)"
    using fit(1) Cons.prems(2,3) by (intro wrap64_id) (simp add: in_int64_def min_int64_def)
  moreover have q: "quot64 (int (length ts)) (int bs) = int (length ts div bs)"
    using fit(1) Cons.prems(2,3) assms(7) by (intro quot64_length) simp_all
  moreover have le: "int (length ts div bs) \<le> int (length ts)" by simp
  moreover have "wrap64 (b + int (length ts div bs)) = b + int (length ts div bs)"
    by (rule wrap64_id) (unfold in_int64_def min_int64_def, use fit(1) Cons.prems(2-5) le in linarith)
  ultimately have rec: "count_tokens c groups (t + int (length ts)) (b + int (length ts div bs)) = Inr (t', b')"
    and max: "t + int (length ts) \<le> MaxQueryTokens c"
    using Cons.prems(1) by (auto simp: assms(6) Let_def split: if_splits)
  from Cons.IH [OF rec _ max _ _ fit(2)] Cons.prems(2,4,5) le show ?case
    by (simp add: group_tokens_def group_blocks_def)
qed

lemma group_blocks_le: "bs * group_blocks bs groups \<le> group_tokens groups"
proof (induction groups)
  case (Cons ts groups)
  have "bs * (length ts div bs) \<le> length ts" by simp
  from add_mono [OF this Cons] show ?case by (simp add: group_blocks_def group_tokens_def distrib_left)
qed (simp add: group_blocks_def)

subsection \<open>The inputs of a lookup\<close>

lemma invalid_snapshot_reason: "\<not> is_Valid (stream_Snapshot now s) \<Longrightarrow> is_Reason (stream_Snapshot now s) \<noteq> KVNone"
  by (auto simp: stream_Snapshot_def Let_def)

lemma snapshot_instance [simp]: "is_Instance (stream_Snapshot now s) = es_instance s"
  by (simp add: stream_Snapshot_def Let_def)

definition usable_stream :: "(ID \<Rightarrow> time) \<Rightarrow> kv_service \<Rightarrow> Query \<Rightarrow> ID \<Rightarrow> nat \<Rightarrow> bool" where
  "usable_stream now s q b h \<longleftrightarrow> (\<exists>stream. map_of (ks_streams s) b = Some (h, stream)
     \<and> is_Valid (stream_Snapshot (now b) stream) \<and> in_Model (es_instance stream) = q_Model q)"

definition unusable_match :: "int \<Rightarrow> Match \<Rightarrow> bool" where
  "unusable_match t m \<longleftrightarrow> \<not> mt_Valid m \<and> mt_MatchedTokens m = 0 \<and> mt_Reason m \<noteq> KVNone \<and> mt_TotalTokens m = t"

definition inputs_ok :: "(ID \<Rightarrow> time) \<Rightarrow> kv_service \<Rightarrow> Query \<Rightarrow> int \<Rightarrow> ID list \<Rightarrow> lookup_acc \<Rightarrow> bool" where
  "inputs_ok now s q t seen acc \<longleftrightarrow>
     gomap_ok (la_instances acc) \<and> gomap_ok (la_selected acc) \<and> gomap_ok (la_matches acc)
     \<and> fst ` set (la_selected acc) \<union> fst ` set (la_matches acc) = set seen
     \<and> mall (usable_stream now s q) (la_selected acc) \<and> mall (\<lambda>b. unusable_match t) (la_matches acc)"

lemma lookup_input_ok:
  assumes "inputs_ok now s q t seen acc"
  shows "inputs_ok now s q t (seen @ [b]) (lookup_input now s q t tb acc b)"
proof (cases "map_of (ks_streams s) b")
  case None
  then show ?thesis using assms
    by (auto simp: inputs_ok_def lookup_input_def dom_update unusable_match_def unknownMatch_def intro!: mall_update)
next
  case (Some p)
  obtain h stream where p: "p = (h, stream)" by force
  let ?st = "stream_Snapshot (now b) stream"
  show ?thesis
  proof (cases "is_Valid ?st \<and> in_Model (es_instance stream) = q_Model q")
    case True
    then have "usable_stream now s q b h" using Some p by (simp add: usable_stream_def)
    with True assms show ?thesis
      by (auto simp: inputs_ok_def lookup_input_def Some p Let_def dom_update intro!: mall_update)
  next
    case False
    then show ?thesis using assms invalid_snapshot_reason [of "now b" stream]
      by (auto simp: inputs_ok_def lookup_input_def Some p Let_def dom_update unusable_match_def invalidMatch_def
          intro!: mall_update)
  qed
qed

lemma lookupInputs_ok:
  assumes "lookupInputs now s q t tb = Inr acc"
  shows "inputs_ok now s q t (q_Backends q) acc"
proof -
  have "inputs_ok now s q t bs (foldl (lookup_input now s q t tb)
      \<lparr>la_selected = [], la_instances = [], la_matches = []\<rparr> bs)" for bs
    by (induction bs rule: rev_induct) (simp_all add: lookup_input_ok, simp add: inputs_ok_def)
  with assms show ?thesis by (auto simp: lookupInputs_def split: if_splits)
qed

subsection \<open>The published matches\<close>

lemma publish_fold:
  assumes "distinct (map fst sel)"
  shows "map_of (foldl (publish_match now s mb t tb) ms sel) b =
    (case map_of sel b of
       None \<Rightarrow> map_of ms b
     | Some h \<Rightarrow> let (state, current) = currentState now s b h
         in Some (if \<not> current \<or> \<not> is_Valid state then invalidMatch b state t tb
                  else validMatch b state (mget 0 mb b) t tb (BlockSizeTokens (ks_config s))))"
  using assms
proof (induction sel arbitrary: ms)
  case (Cons x sel)
  obtain b' h where x: "x = (b', h)" by force
  have "map_of sel b' = None" using Cons.prems by (auto simp: x map_of_eq_None_iff)
  with Cons show ?case
    by (auto simp: x publish_match_def update_conv' Let_def split_beta split: option.splits)
qed simp

lemma publish_gomap_ok: "gomap_ok ms \<Longrightarrow> gomap_ok (foldl (publish_match now s mb t tb) ms sel)"
  by (induction sel arbitrary: ms) (simp_all add: publish_match_def split_beta Let_def)

lemma currentState_valid:
  assumes "currentState now s b h = (state, True)"
  shows "\<exists>stream. map_of (ks_streams s) b = Some (h, stream) \<and> state = stream_Snapshot (now b) stream"
  using assms by (auto simp: currentState_def split: option.splits if_splits)

lemma currentState_reason:
  "currentState now s b h = (state, current) \<Longrightarrow> \<not> current \<or> \<not> is_Valid state \<Longrightarrow> is_Reason state \<noteq> KVNone"
  by (auto simp: currentState_def lifecycleState_def dest: invalid_snapshot_reason split: option.splits if_splits)

definition sound_match :: "(ID \<Rightarrow> time) \<Rightarrow> (ID \<Rightarrow> time) \<Rightarrow> kv_service \<Rightarrow> kv_service \<Rightarrow> Query \<Rightarrow> int \<Rightarrow> ID \<Rightarrow> Match \<Rightarrow> bool" where
  \<comment> \<open>what a caller may conclude from one published match\<close>
  "sound_match now now2 s s2 q t b m \<longleftrightarrow> mt_TotalTokens m = t \<and>
     (if mt_Valid m
      then 0 \<le> mt_MatchedTokens m \<and> mt_MatchedTokens m \<le> t
        \<and> (\<exists>h. usable_stream now s q b h
             \<and> (\<exists>stream. map_of (ks_streams s2) b = Some (h, stream) \<and> is_Valid (stream_Snapshot (now2 b) stream)))
      else mt_MatchedTokens m = 0 \<and> mt_Reason m \<noteq> KVNone)"

lemma published_sound:
  assumes "usable_stream now s q b h" and "currentState now2 s2 b h = (state, current)"
    and "BlockSizeTokens (ks_config s2) = int bs" and "0 \<le> mb" "mb \<le> int blocks" "int bs * int blocks \<le> t" "t \<le> max_int64"
  shows "sound_match now now2 s s2 q t b
    (if \<not> current \<or> \<not> is_Valid state then invalidMatch b state t tb
     else validMatch b state mb t tb (BlockSizeTokens (ks_config s2)))"
proof (cases "\<not> current \<or> \<not> is_Valid state")
  case True
  then show ?thesis
    using currentState_reason [OF assms(2)] by (simp add: sound_match_def invalidMatch_def)
next
  case False
  have "int bs * mb \<le> int bs * int blocks" using assms(5) by (rule mult_left_mono) simp
  then have le: "0 \<le> mb * int bs" "mb * int bs \<le> t" using assms(4,6) by (simp_all add: mult.commute)
  then have "wrap64 (mb * int bs) = mb * int bs"
    using assms(7) by (intro wrap64_id) (simp add: in_int64_def min_int64_def)
  with le False assms(1,2,3) currentState_valid [of now2 s2 b h state] show ?thesis
    by (auto simp: sound_match_def validMatch_def)
qed

lemma validateQuery_totals:
  assumes "validateQuery c q = Inr (t, tb)" and "BlockSizeTokens c = int bs" "0 < bs"
    and "groups_fit c (q_TokenGroups q)" and "0 \<le> MaxQueryTokens c"
  shows "t = int (group_tokens (q_TokenGroups q)) \<and> tb = int (group_blocks bs (q_TokenGroups q)) \<and> t \<le> MaxQueryTokens c"
  using assms count_tokens_spec [of c "q_TokenGroups q" 0 0 t tb bs]
  by (auto simp: validateQuery_def split: option.splits if_splits)

lemma kv_Lookup_cases:
  assumes "fst (kv_Lookup store t0 now now2 s s2 st q) = Inr snap"
  obtains t tb acc mb tb1 where "validateQuery (ks_config s) q = Inr (t, tb)"
    and "lookupInputs now s q t tb = Inr acc"
    and "mb = [] \<and> tb1 = tb \<or> fst (cs_Lookup store st q (la_instances acc)) = Inr (mb, tb1)"
    and "snap = \<lparr>kvs_lookupAt = t0, kvs_totalTokens = t, kvs_totalBlocks = tb1,
      kvs_matches = foldl (publish_match now2 s2 mb t tb1) (la_matches acc) (la_selected acc)\<rparr>"
proof -
  from assms obtain t tb where v: "validateQuery (ks_config s) q = Inr (t, tb)"
    by (auto simp: kv_Lookup_def split: sum.splits)
  with assms obtain acc where a: "lookupInputs now s q t tb = Inr acc"
    by (auto simp: kv_Lookup_def split: sum.splits)
  let ?r = "if length (la_instances acc) > 0 \<and> tb > 0 then cs_Lookup store st q (la_instances acc) else (Inr ([], tb), st)"
  obtain mb tb1 st1 where r: "?r = (Inr (mb, tb1), st1)"
    using assms v a by (cases ?r; cases "fst ?r") (auto simp: kv_Lookup_def)
  show thesis
  proof (rule that [OF v a])
    show "mb = [] \<and> tb1 = tb \<or> fst (cs_Lookup store st q (la_instances acc)) = Inr (mb, tb1)"
      using r by (auto split: if_splits)
    show "snap = \<lparr>kvs_lookupAt = t0, kvs_totalTokens = t, kvs_totalBlocks = tb1,
      kvs_matches = foldl (publish_match now2 s2 mb t tb1) (la_matches acc) (la_selected acc)\<rparr>"
      using assms r by (auto simp: kv_Lookup_def v a split: if_splits)
  qed
qed

text \<open>
  C2. A lookup over the vLLM store answers for every queried backend exactly once, and a match means what
  it says: a valid match counts between zero and all of the request's tokens, and the backend's
  stream was registered with the queried model and valid when the lookup began, and is still the same
  stream and valid when the result is published; every other match carries a reason and no tokens.
\<close>

theorem kv_Lookup_sound:
  assumes score: "score_bounded up"
    and ok: "fst (kv_Lookup (vllm_store up bs) t0 now now2 s s2 st q) = Inr snap"
    and cfg: "BlockSizeTokens (ks_config s) = int bs" "0 < bs" "ks_config s2 = ks_config s"
    and lim: "groups_fit (ks_config s) (q_TokenGroups q)" "0 \<le> MaxQueryTokens (ks_config s)"
      "MaxQueryTokens (ks_config s) \<le> max_int64"
  shows "fst ` set (kvs_matches snap) = set (q_Backends q) \<and> distinct (map fst (kvs_matches snap))
    \<and> mall (sound_match now now2 s s2 q (kvs_totalTokens snap)) (kvs_matches snap)"
proof -
  from ok obtain t tb acc mb tb1 where v: "validateQuery (ks_config s) q = Inr (t, tb)"
    and a: "lookupInputs now s q t tb = Inr acc"
    and r: "mb = [] \<and> tb1 = tb \<or> fst (cs_Lookup (vllm_store up bs) st q (la_instances acc)) = Inr (mb, tb1)"
    and snap: "snap = \<lparr>kvs_lookupAt = t0, kvs_totalTokens = t, kvs_totalBlocks = tb1,
      kvs_matches = foldl (publish_match now2 s2 mb t tb1) (la_matches acc) (la_selected acc)\<rparr>"
    by (rule kv_Lookup_cases)
  let ?blocks = "group_blocks bs (q_TokenGroups q)"
  have tot: "t = int (group_tokens (q_TokenGroups q))" "tb = int ?blocks" "t \<le> MaxQueryTokens (ks_config s)"
    using validateQuery_totals [OF v cfg(1,2) lim(1,2)] by simp_all
  have cap: "int bs * int ?blocks \<le> t" "t \<le> max_int64"
    using group_blocks_le [of bs "q_TokenGroups q"] tot lim(3) by (simp_all flip: of_nat_mult)
  have "int ?blocks \<le> int bs * int ?blocks"
    using mult_right_mono [of 1 "int bs" "int ?blocks"] cfg(2) by simp
  then have small: "int ?blocks \<le> max_int64" using cap by linarith
  have inp: "inputs_ok now s q t (q_Backends q) acc" by (rule lookupInputs_ok [OF a])
  have mb: "0 \<le> mget 0 mb b \<and> mget 0 mb b \<le> int ?blocks" for b
    using r vllm_Lookup_bound [OF score, of "la_instances acc" bs st q mb tb1 b] inp small
    by (auto simp: vllm_store_def inputs_ok_def mget_def)
  have "map_of (kvs_matches snap) b = Some m \<Longrightarrow> sound_match now now2 s s2 q t b m" for b m
  proof (cases "map_of (la_selected acc) b")
    case None
    assume "map_of (kvs_matches snap) b = Some m"
    with None inp have "map_of (la_matches acc) b = Some m"
      by (simp add: snap publish_fold inputs_ok_def gomap_ok_def)
    with inp have "unusable_match t m" by (auto simp: inputs_ok_def mall_def)
    then show ?thesis by (simp add: unusable_match_def sound_match_def)
  next
    case (Some h)
    assume "map_of (kvs_matches snap) b = Some m"
    moreover obtain state current where c: "currentState now2 s2 b h = (state, current)" by force
    ultimately have m: "m = (if \<not> current \<or> \<not> is_Valid state then invalidMatch b state t tb1
        else validMatch b state (mget 0 mb b) t tb1 (BlockSizeTokens (ks_config s2)))"
      using Some inp by (simp add: snap publish_fold inputs_ok_def gomap_ok_def)
    have "usable_stream now s q b h" using Some inp by (auto simp: inputs_ok_def mall_def)
    from published_sound [OF this c _ _ _ cap] mb [of b] cfg show ?thesis unfolding m by simp
  qed
  moreover have "dom (map_of (kvs_matches snap)) = set (q_Backends q)"
  proof -
    have "dom (map_of (kvs_matches snap)) = dom (map_of (la_selected acc)) \<union> dom (map_of (la_matches acc))"
      using inp by (auto simp: snap publish_fold inputs_ok_def gomap_ok_def split_beta split: option.splits)
    then show ?thesis using inp by (simp add: dom_map_of_conv_image_fst inputs_ok_def)
  qed
  moreover have "gomap_ok (kvs_matches snap)" using inp by (simp add: snap publish_gomap_ok inputs_ok_def)
  ultimately show ?thesis
    by (simp add: snap mall_def gomap_ok_def dom_map_of_conv_image_fst)
qed

definition wit_query :: Query where
  "wit_query = \<lparr>q_Model = ''m'', q_CacheSalt = [], q_TokenGroups = [[1, 2, 3, 4, 5]], q_Backends = [''a'', ''b'']\<rparr>"

definition wit_service :: kv_service where
  "wit_service = \<lparr>ks_config = wit_kv_cfg\<lparr>BlockSizeTokens := 2\<rparr>, ks_streams = [(''a'', 0, (newEventStream wit_kv_cfg wit_instance)
     \<lparr>es_reason := KVNone, es_lastReplayAt := 15\<rparr>)], ks_next = 1, ks_closed = False\<rparr>"

lemma wit_TrimSpace: "TrimSpace ''m'' = ''m''"
  by code_simp

lemma wit_Lookup_ok:
  "\<exists>snap. fst (kv_Lookup (vllm_store wit_upstream 2) 20 (\<lambda>_. 20) (\<lambda>_. 21) wit_service wit_service [2] wit_query) = Inr snap
     \<and> kvs_totalTokens snap = 5"
proof -
  have v: "validateQuery (ks_config wit_service) wit_query = Inr (5, 2)"
    by (simp add: validateQuery_def Query_Validate_def wit_query_def wit_TrimSpace wit_service_def wit_kv_cfg_def
        Let_def wrap64_def quot64_def)
  obtain acc where a: "lookupInputs (\<lambda>_. 20) wit_service wit_query 5 2 = Inr acc"
    by (simp add: lookupInputs_def wit_service_def)
  have "\<exists>m tb. fst (cs_Lookup (vllm_store wit_upstream 2) [2] wit_query is) = Inr (m, tb)" for "is"
  proof -
    have "\<exists>r. lookupRequestKeysUntilMiss wit_upstream 2 [2] [1, 2, 3, 4, 5] ''m'' [] pods = (Inr r, [2])" for pods
      using lookup_keys_eq(2) [OF wit_upstream_laws(1,2)] by simp
    then obtain ks kp where look: "lookupRequestKeysUntilMiss wit_upstream 2 [2] [1, 2, 3, 4, 5] ''m'' []
        (map (\<lambda>(bid, i). in_PodIdentifier i) is) = (Inr (ks, kp), [2])"
      by (metis surj_pair)
    have "up_Score wit_upstream ks kp = Inr [(''p'', Fin (of_nat (length ks)))]" by (simp add: wit_upstream_def)
    with look show ?thesis by (simp add: vllm_store_def vllm_Lookup_def wit_query_def Let_def)
  qed
  then obtain m tb ix where "cs_Lookup (vllm_store wit_upstream 2) [2] wit_query (la_instances acc) = (Inr (m, tb), ix)"
    by (metis prod.collapse)
  then show ?thesis by (simp add: kv_Lookup_def v a)
qed

theorem kv_Lookup_sound_witness:
  "\<exists>snap. fst (kv_Lookup (vllm_store wit_upstream 2) 20 (\<lambda>_. 20) (\<lambda>_. 21) wit_service wit_service [2] wit_query) = Inr snap
     \<and> fst ` set (kvs_matches snap) = {''a'', ''b''}"
proof -
  obtain snap where ok: "fst (kv_Lookup (vllm_store wit_upstream 2) 20 (\<lambda>_. 20) (\<lambda>_. 21) wit_service wit_service [2] wit_query) = Inr snap"
    using wit_Lookup_ok by blast
  have "fst ` set (kvs_matches snap) = set (q_Backends wit_query)"
    by (rule kv_Lookup_sound [OF wit_upstream_laws(3) ok, THEN conjunct1])
      (simp_all add: wit_service_def wit_kv_cfg_def groups_fit_def wit_query_def max_int64_def)
  with ok show ?thesis by (auto simp: wit_query_def)
qed

subsection \<open>Reconciliation\<close>

definition kept :: "(ID, nat \<times> eventStream) gomap \<Rightarrow> ID \<Rightarrow> Instance \<Rightarrow> bool" where
  "kept current b i \<longleftrightarrow> (\<exists>h stream. map_of current b = Some (h, stream) \<and> es_instance stream = i \<and> \<not> es_closed stream)"

definition registered :: "kv_Config \<Rightarrow> (ID, nat \<times> eventStream) gomap \<Rightarrow> nat \<Rightarrow> ID \<Rightarrow> Instance \<Rightarrow>
    (nat \<times> eventStream) option \<Rightarrow> bool" where
  \<comment> \<open>an unchanged open stream stays as it is; otherwise a new stream with a fresh handle takes its place\<close>
  "registered c current fresh b i r \<longleftrightarrow>
     (if kept current b i then r = map_of current b
      else \<exists>h. fresh \<le> h \<and> r = Some (h, newEventStream c i))"

lemma keep_or_add_step:
  assumes "ch' = keep_or_add c current ch (b, i)"
  shows "if kept current b i then map_of (ch_next ch') b = map_of current b \<and> ch_additions ch' = ch_additions ch
      \<and> ch_handle ch' = ch_handle ch
    else map_of (ch_next ch') b = Some (ch_handle ch, newEventStream c i) \<and> ch_additions ch' = ch_additions ch @ [b]
      \<and> ch_handle ch' = Suc (ch_handle ch)"
  and "b' \<noteq> b \<Longrightarrow> map_of (ch_next ch') b' = map_of (ch_next ch) b'"
  by (auto simp: assms keep_or_add_def kept_def stream_Same_def update_conv' split: option.splits)

lemma keep_or_add_fold:
  assumes "distinct (map fst ds)"
  shows "let ch' = foldl (keep_or_add c current) ch ds in
     ch_handle ch \<le> ch_handle ch'
     \<and> (\<forall>b. case map_of ds b of
          None \<Rightarrow> map_of (ch_next ch') b = map_of (ch_next ch) b
        | Some i \<Rightarrow> registered c current (ch_handle ch) b i (map_of (ch_next ch') b))
     \<and> set (ch_additions ch') = set (ch_additions ch) \<union> {b. \<exists>i. map_of ds b = Some i \<and> \<not> kept current b i}"
  using assms
proof (induction ds arbitrary: ch)
  case (Cons d ds)
  obtain b i where d: "d = (b, i)" by force
  define ch1 where "ch1 = keep_or_add c current ch (b, i)"
  note step = keep_or_add_step [OF ch1_def]
  have nb: "map_of ds b = None" using Cons.prems by (auto simp: d map_of_eq_None_iff)
  have IH: "let ch' = foldl (keep_or_add c current) ch1 ds in
     ch_handle ch1 \<le> ch_handle ch'
     \<and> (\<forall>b. case map_of ds b of
          None \<Rightarrow> map_of (ch_next ch') b = map_of (ch_next ch1) b
        | Some i \<Rightarrow> registered c current (ch_handle ch1) b i (map_of (ch_next ch') b))
     \<and> set (ch_additions ch') = set (ch_additions ch1) \<union> {b. \<exists>i. map_of ds b = Some i \<and> \<not> kept current b i}"
    using Cons by simp
  have handle: "ch_handle ch \<le> ch_handle ch1" using step(1) by (auto split: if_splits)
  show ?case
    unfolding Let_def d foldl_Cons ch1_def [symmetric]
  proof (intro conjI allI)
    show "ch_handle ch \<le> ch_handle (foldl (keep_or_add c current) ch1 ds)" using IH handle by (simp add: Let_def)
    show "case map_of ((b, i) # ds) b' of
          None \<Rightarrow> map_of (ch_next (foldl (keep_or_add c current) ch1 ds)) b' = map_of (ch_next ch) b'
        | Some i \<Rightarrow> registered c current (ch_handle ch) b' i (map_of (ch_next (foldl (keep_or_add c current) ch1 ds)) b')"
      for b'
    proof (cases "b' = b")
      case True
      then have "map_of (ch_next (foldl (keep_or_add c current) ch1 ds)) b' = map_of (ch_next ch1) b"
        using IH [unfolded Let_def, THEN conjunct2, THEN conjunct1, THEN spec, of b] nb by simp
      with True step(1) show ?thesis by (auto simp: registered_def split: if_splits)
    next
      case False
      then show ?thesis
        using IH [unfolded Let_def, THEN conjunct2, THEN conjunct1, THEN spec, of b'] step(2) [OF False] handle
        by (auto simp: registered_def split: option.splits if_splits intro: order_trans)
    qed
    show "set (ch_additions (foldl (keep_or_add c current) ch1 ds)) =
        set (ch_additions ch) \<union> {b'. \<exists>i'. map_of ((b, i) # ds) b' = Some i' \<and> \<not> kept current b' i'}"
      using IH step(1) nb by (auto simp: Let_def split: if_splits)
  qed
qed simp

lemma start_fold:
  "map_of (foldl start_stream streams bs) b =
     (case map_of streams b of None \<Rightarrow> None
      | Some (h, stream) \<Rightarrow> Some (h, if b \<in> set bs then stream_Start stream else stream))"
proof (induction bs arbitrary: streams)
  case (Cons x bs)
  have "map_of (start_stream streams x) b =
     (case map_of streams b of None \<Rightarrow> None
      | Some (h, stream) \<Rightarrow> Some (h, if b = x then stream_Start stream else stream))"
    by (auto simp: start_stream_def update_conv' split: option.splits)
  moreover have "stream_Start (stream_Start stream) = stream_Start stream" for stream
    by (simp add: stream_Start_def)
  ultimately show ?case by (auto simp: Cons.IH split: option.splits)
qed (auto split: option.splits)

lemma validate_loop_ok:
  "validate_instances_loop url_parse desired normalized uids pods = Inr r \<Longrightarrow> gomap_ok normalized \<Longrightarrow> gomap_ok r"
  by (induction url_parse desired normalized uids pods rule: validate_instances_loop.induct)
    (auto simp: Let_def split: option.splits if_splits)

lemma validateInstances_ok: "validateInstances url_parse c desired = Inr r \<Longrightarrow> gomap_ok r"
  by (auto simp: validateInstances_def dest: validate_loop_ok split: if_splits)

lemma retire_all_config: "ks_config (fst (snd (retire_all store bs s st))) = ks_config s"
  by (induction store bs s st rule: retire_all.induct)
    (auto simp: retire_def Let_def split: prod.splits option.splits)

text \<open>
  A successful reconciliation registers exactly the desired backends. A backend whose instance (pod
  identity, model and endpoints) is unchanged and whose stream is open keeps its stream with its
  sequence position; every other desired backend gets a new, started stream, which is not the one
  registered before and carries no sequence and no confirmation.
\<close>

theorem kv_Reconcile_effect:
  assumes "kv_Reconcile url_parse store s st desired = (None, s', st')"
  shows "\<exists>normalized. validateInstances url_parse (ks_config s) desired = Inr normalized
    \<and> dom (map_of (ks_streams s')) = dom (map_of normalized)
    \<and> (\<forall>b i. map_of normalized b = Some i \<longrightarrow>
         (if kept (ks_streams s) b i then map_of (ks_streams s') b = map_of (ks_streams s) b
          else \<exists>h. ks_next s \<le> h \<and> map_of (ks_streams s') b = Some (h, stream_Start (newEventStream (ks_config s) i))))"
proof -
  from assms obtain nd where nd: "validateInstances url_parse (ks_config s) desired = Inr nd"
    by (auto simp: kv_Reconcile_def split: sum.splits)
  define ch where "ch = foldl (keep_or_add (ks_config s) (ks_streams s))
    \<lparr>ch_next = [], ch_additions = [], ch_retired = [], ch_handle = ks_next s\<rparr> nd"
  have streams: "ks_streams s' = foldl start_stream (ch_next ch) (ch_additions ch)"
    using assms by (auto simp: kv_Reconcile_def nd reconcileChanges_def ch_def Let_def split: if_splits prod.splits option.splits)
  have dist: "distinct (map fst nd)" using validateInstances_ok [OF nd] by (simp add: gomap_ok_def)
  note fold = keep_or_add_fold [OF dist, of "ks_config s" "ks_streams s"
      "\<lparr>ch_next = [], ch_additions = [], ch_retired = [], ch_handle = ks_next s\<rparr>", folded ch_def, unfolded Let_def]
  have adds: "set (ch_additions ch) = {b. \<exists>i. map_of nd b = Some i \<and> \<not> kept (ks_streams s) b i}"
    using fold by simp
  have reg: "map_of nd b = Some i \<Longrightarrow> registered (ks_config s) (ks_streams s) (ks_next s) b i (map_of (ch_next ch) b)"
    and none: "map_of nd b = None \<Longrightarrow> map_of (ch_next ch) b = None" for b i
    using fold [THEN conjunct2, THEN conjunct1, THEN spec, of b] by simp_all
  have effect: "if kept (ks_streams s) b i then map_of (ks_streams s') b = map_of (ks_streams s) b
      else \<exists>h. ks_next s \<le> h \<and> map_of (ks_streams s') b = Some (h, stream_Start (newEventStream (ks_config s) i))"
    if "map_of nd b = Some i" for b i
    using reg [OF that] that by (auto simp: streams start_fold adds registered_def kept_def split: if_splits)
  have "map_of (ks_streams s') b = None \<longleftrightarrow> map_of nd b = None" for b
  proof (cases "map_of nd b")
    case None
    then show ?thesis using none by (simp add: streams start_fold)
  next
    case (Some i)
    then show ?thesis using effect [OF Some] by (auto simp: kept_def split: if_splits)
  qed
  then have "dom (map_of (ks_streams s')) = dom (map_of nd)" by (auto simp: dom_def)
  with nd effect show ?thesis by blast
qed

definition wit_url :: url_parser where
  "wit_url u = (if take 6 u = ''tcp://'' then Some (''tcp'', drop 6 u) else None)"

lemma wit_Reconcile:
  "kv_Reconcile wit_url wit_store (newService wit_kv_cfg) () [wit_instance] =
     (None, (newService wit_kv_cfg)\<lparr>ks_streams := [(''a'', 0, stream_Start (newEventStream wit_kv_cfg wit_instance))],
        ks_next := 1\<rparr>, ())"
proof -
  have "normalizeInstance wit_instance = wit_instance" "Instance_Validate wit_url wit_instance = None"
    by code_simp+
  then show ?thesis
    by (simp add: kv_Reconcile_def validateInstances_def newService_def reconcileChanges_def keep_or_add_def
        start_stream_def wit_kv_cfg_def mhas_def Let_def wit_instance_def [THEN arg_cong [where f = in_Backend]])
qed

theorem kv_Reconcile_effect_witness:
  "\<exists>normalized. validateInstances wit_url wit_kv_cfg [wit_instance] = Inr normalized
     \<and> dom (map_of normalized) = {''a''}"
  using kv_Reconcile_effect [OF wit_Reconcile] by (auto simp: newService_def)

lemma retire_streams:
  "map_of (ks_streams (retire r d bid s)) b =
     (if b = bid then map_option (\<lambda>(h, x). (h, stream_Close (Invalidate r d x))) (map_of (ks_streams s) b)
      else map_of (ks_streams s) b)"
  by (auto simp: retire_def update_conv' split: option.splits)

lemma stream_Close_closed [simp]: "es_closed (stream_Close s)"
  by (simp add: stream_Close_def Let_def)

definition closed_in :: "kv_service \<Rightarrow> ID \<Rightarrow> bool" where
  "closed_in s b \<longleftrightarrow> (\<forall>h x. map_of (ks_streams s) b = Some (h, x) \<longrightarrow> es_closed x)"

lemma closed_in_retire: "b = bid \<or> closed_in s b \<Longrightarrow> closed_in (retire r d bid s) b"
  by (auto simp: closed_in_def retire_streams)

lemma close_all_Cons:
  "fst (snd (close_all store (bid # rest) s st)) =
     (let s1 = retire KVClosed (CauseText ''kvcache closed'') bid s
      in fst (snd (close_all store rest s1 (snd (cs_Clear store st (pod_of s1 bid))))))"
  by (simp add: Let_def split_beta)

lemma close_all_closes:
  "b \<in> set bs \<or> closed_in s b \<Longrightarrow> closed_in (fst (snd (close_all store bs s st))) b"
proof (induction bs arbitrary: s st)
  case (Cons bid bs)
  then show ?case unfolding close_all_Cons Let_def by (intro Cons.IH) (auto intro: closed_in_retire)
qed simp

lemma close_all_flags: "ks_closed (fst (snd (close_all store bs s st))) = ks_closed s"
proof (induction bs arbitrary: s st)
  case (Cons bid bs)
  then show ?case unfolding close_all_Cons Let_def by (simp add: retire_def split_beta split: option.splits)
qed simp

text \<open>
  Closing is final: it closes the service and every registered stream, a second close does nothing,
  and afterwards every lookup and every reconciliation fails without touching the store.
\<close>

theorem kv_Close_final:
  assumes "kv_Close store s st = (errs, s', st')" and "\<not> ks_closed s"
  shows "ks_closed s' \<and> (\<forall>b h x. map_of (ks_streams s') b = Some (h, x) \<longrightarrow> es_closed x)
    \<and> kv_Close store s' st' = ([], s', st')
    \<and> (\<exists>e. kv_Reconcile url_parse store s' st' desired = (Some e, s', st'))
    \<and> (\<exists>e. kv_Lookup store t0 now now2 s' s2 st' q = (Inl e, st'))"
proof -
  have s': "s' = fst (snd (close_all store (map fst (ks_streams s)) (s\<lparr>ks_closed := True\<rparr>) st))"
    using assms by (simp add: kv_Close_def)
  have closed: "ks_closed s'" by (simp add: s' close_all_flags)
  have "es_closed x" if "map_of (ks_streams s') b = Some (h, x)" for b h x
  proof -
    have "b \<in> set (map fst (ks_streams s)) \<or> closed_in (s\<lparr>ks_closed := True\<rparr>) b"
      by (force simp: closed_in_def dest: map_of_SomeD)
    then have "closed_in s' b" unfolding s' by (rule close_all_closes)
    with that show ?thesis by (auto simp: closed_in_def)
  qed
  moreover have "\<exists>e. kv_Reconcile url_parse store s' st' desired = (Some e, s', st')"
    using closed by (auto simp: kv_Reconcile_def split: sum.splits)
  moreover have "\<exists>e. kv_Lookup store t0 now now2 s' s2 st' q = (Inl e, st')"
    using closed by (auto simp: kv_Lookup_def lookupInputs_def split: sum.splits)
  ultimately show ?thesis using closed by (auto simp: kv_Close_def)
qed

theorem kv_Close_final_witness:
  "\<exists>errs s'. kv_Close wit_store wit_service () = (errs, s', ()) \<and> ks_closed s'
     \<and> kv_Close wit_store s' () = ([], s', ())"
proof -
  obtain errs s' where c: "kv_Close wit_store wit_service () = (errs, s', ())" by (metis prod_cases3 unit_eq)
  from kv_Close_final [OF c] c show ?thesis by (auto simp: wit_service_def)
qed

end
