(* ===== verification/Requestpath.thy ===== *)
theory Requestpath
  imports Circuit Discovery Prediction Static_Estimator Tokenization Session_Key KV_Service
begin

text \<open>
  \<open>internal/serving/requestpath\<close>: the selection and settlement of one request.

  The service state holds the strategy, the breaker, the predictor, the membership set and the
  in-flight counters. A counter is a heap cell (\<open>rp_heap\<close>) that the map \<open>rp_counters\<close> refers to by
  its index, because a lease keeps its pointer after the map entry is gone; a lease is an index into
  \<open>rp_leases\<close>, whose \<open>ls_done\<close> is its \<open>sync.Once\<close>. Callbacks to \<open>OnBackendRemoved\<close> are logged in
  \<open>rp_removed\<close>.

  What other goroutines and components deliver is an argument: a \<open>path_view\<close> is what one call of
  \<open>buildSnapshot\<close> reads (discovery status, observations, KV state, clock), a \<open>kv_ops\<close> is what the
  KV branch calls. \<open>Select\<close> is the sequence of its atomic parts: \<open>select_prepare\<close>, the critical section
  \<open>select_commit\<close> and the increment \<open>select_reserve\<close>; the step relation interleaves the parts of
  concurrent requests.
\<close>

subsection \<open>Configuration and data\<close>

record path_Config =
  rpc_Service :: Backend
  rpc_RequireFreshDiscovery :: bool
  rpc_DiscoveryMaxAge :: duration
  rpc_ReconcileInterval :: duration
  rpc_HardQueueDepth :: int
  rpc_HardLocalInflight :: int
  rpc_ShortPromptTokens :: int
  rpc_CPUHardLimit :: f64
  rpc_MemoryHardLimit :: f64
  rpc_GPUUtilizationHardLimit :: f64
  rpc_GPUMemoryHardLimit :: f64
  rpc_GPUTemperatureHardLimit :: f64

datatype path_error = ErrPathService backend_error | ErrPathMaxAge | ErrPathThresholds | ErrPathShortPrompt
  | ErrPathRuntime | ErrPathDependencies | ErrPathKVDependencies

definition path_Config_Validate :: "url_parser \<Rightarrow> path_Config \<Rightarrow> path_error option" where
  "path_Config_Validate url_parse c =
     (case Backend_Validate url_parse (rpc_Service c) of Some e \<Rightarrow> Some (ErrPathService e)
      | None \<Rightarrow>
        if rpc_RequireFreshDiscovery c \<and> rpc_DiscoveryMaxAge c \<le> 0 then Some ErrPathMaxAge
        else if rpc_HardQueueDepth c < 0 \<or> rpc_HardLocalInflight c < 0 then Some ErrPathThresholds
        else if rpc_ShortPromptTokens c < 0 then Some ErrPathShortPrompt
        else if f_lt (rpc_CPUHardLimit c) (Fin 0) \<or> f_lt (rpc_MemoryHardLimit c) (Fin 0)
             \<or> f_lt (rpc_GPUUtilizationHardLimit c) (Fin 0) \<or> f_lt (rpc_GPUMemoryHardLimit c) (Fin 0)
             \<or> f_lt (rpc_GPUTemperatureHardLimit c) (Fin 0) then Some ErrPathRuntime
        else None)"

datatype KVStatus = KVUnset | KVNotRequested | KVAvailable | KVTokenizationFailed | KVLookupFailed | KVMatchUnavailable
  | KVShortContextBypassed

datatype Outcome = OutcomeResponseCompleted | OutcomeTransportFailure | OutcomeDeadlineExceeded | OutcomeUpstreamStream
  | OutcomeClientCanceled | OutcomeDownstreamFailure | OutcomeInvalidClientInput | OutcomeOther string

record KVCacheState =
  kc_Valid :: bool
  kc_Reason :: KVReason
  kc_Freshness :: duration
  kc_LastSequence :: "64 word"
  kc_AppliedBatches :: "64 word"
  kc_ReplayBatches :: "64 word"

record EstimateEvidence =
  ev_PromptTokens :: int
  ev_CachedPrefixTokens :: int
  ev_UncachedTokens :: int
  ev_EstimatedTTFT :: duration
  ev_Valid :: bool
  ev_Confidence :: string
  ev_Version :: string
  ev_Reason :: string
  ev_LoadValid :: bool
  ev_LoadSampleAge :: duration
  ev_QueueDepth :: int
  ev_Running :: int
  ev_LocalDelta :: int
  ev_LocalInflight :: int
  ev_HardOverloadedCandidates :: int

definition zero_EstimateEvidence :: EstimateEvidence where
  "zero_EstimateEvidence = \<lparr>ev_PromptTokens = 0, ev_CachedPrefixTokens = 0, ev_UncachedTokens = 0, ev_EstimatedTTFT = 0,
     ev_Valid = False, ev_Confidence = '''', ev_Version = '''', ev_Reason = '''', ev_LoadValid = False, ev_LoadSampleAge = 0,
     ev_QueueDepth = 0, ev_Running = 0, ev_LocalDelta = 0, ev_LocalInflight = 0, ev_HardOverloadedCandidates = 0\<rparr>"

record path_State =
  ps_Backends :: "Backend list"
  ps_Observations :: "(ID, Observed) gomap"
  ps_CircuitOpen :: "(ID, bool) gomap"
  ps_Discovery :: ResolverStatus
  ps_KV :: KVStatus
  ps_KVCache :: "(ID, KVCacheState) gomap"
  ps_CachedPrefixTokens :: int
  ps_Prediction :: Shadow
  ps_Estimate :: EstimateEvidence

record Completion =
  cp_CircuitOpened :: bool
  cp_CircuitOpen :: bool
  cp_BackendRemoved :: bool

definition zero_Completion :: Completion where
  "zero_Completion = \<lparr>cp_CircuitOpened = False, cp_CircuitOpen = False, cp_BackendRemoved = False\<rparr>"

record leaseState =
  ls_backend :: ID
  ls_counter :: nat
  ls_reserved :: bool \<comment> \<open>the increment of its counter has happened\<close>
  ls_ticket :: "ticketState option"
  ls_done :: bool
  ls_result :: Completion

record path_service =
  rp_config :: path_Config
  rp_strategy :: Strategy
  rp_circuits :: breaker
  rp_predictor :: "tracker option"
  rp_estimator :: "StaticProfile option"
  rp_active :: "ID set"
  rp_counters :: "(ID, nat) gomap"
  rp_heap :: "int list"
  rp_leases :: "leaseState list"
  rp_removed :: "ID list"

definition dependencies_Validate :: "bool \<Rightarrow> Strategy option \<Rightarrow> breaker option \<Rightarrow> bool \<Rightarrow> path_error option" where
  \<comment> \<open>the booleans tell whether the resolver, and all of tokenizer, KV cache and KV reconcile, are set\<close>
  "dependencies_Validate has_resolver strategy circuits kv_complete =
     (case (strategy, circuits) of
        (Some st, Some b) \<Rightarrow>
          if \<not> has_resolver then Some ErrPathDependencies
          else if Strategy_Name st = ModeKVAware \<and> \<not> kv_complete then Some ErrPathKVDependencies else None
      | _ \<Rightarrow> Some ErrPathDependencies)"

definition path_New :: "url_parser \<Rightarrow> path_Config \<Rightarrow> bool \<Rightarrow> bool \<Rightarrow> Strategy \<Rightarrow> breaker \<Rightarrow> tracker option \<Rightarrow> StaticProfile option
    \<Rightarrow> path_error + path_service" where
  "path_New url_parse config has_resolver kv_complete strategy circuits predictor estimator =
     (case path_Config_Validate url_parse config of Some e \<Rightarrow> Inl e
      | None \<Rightarrow>
        (case dependencies_Validate has_resolver (Some strategy) (Some circuits) kv_complete of Some e \<Rightarrow> Inl e
         | None \<Rightarrow> Inr \<lparr>rp_config = config, rp_strategy = strategy, rp_circuits = circuits, rp_predictor = predictor,
             rp_estimator = estimator, rp_active = {bID (rpc_Service config)},
             rp_counters = [(bID (rpc_Service config), 0)], rp_heap = [0], rp_leases = [], rp_removed = []\<rparr>))"

subsection \<open>Load signals\<close>

definition nonNegativeCount :: "Sample \<Rightarrow> int option" where
  "nonNegativeCount sample =
     (if \<not> smp_Valid sample \<or> f_lt (smp_Value sample) (Fin 0) \<or> is_NaN (smp_Value sample) \<or> is_Inf (smp_Value sample)
         \<or> f_lt (f_of_int max_int64) (smp_Value sample)
      then None else Some (f_to_int64 (f_ceil (smp_Value sample))))"

definition sampleAtOrAbove :: "Sample \<Rightarrow> f64 \<Rightarrow> bool" where
  "sampleAtOrAbove sample limit \<longleftrightarrow> f_lt (Fin 0) limit \<and> smp_Valid sample \<and> \<not> is_NaN (smp_Value sample)
     \<and> \<not> is_Inf (smp_Value sample) \<and> f_le limit (smp_Value sample)"

definition runtimeHardOverloaded :: "Runtime \<Rightarrow> path_Config \<Rightarrow> bool" where
  "runtimeHardOverloaded runtime c \<longleftrightarrow>
     sampleAtOrAbove (CPUUsageCores runtime) (rpc_CPUHardLimit c)
     \<or> sampleAtOrAbove (MemoryUsageBytes runtime) (rpc_MemoryHardLimit c)
     \<or> sampleAtOrAbove (GPUUtilizationPercent runtime) (rpc_GPUUtilizationHardLimit c)
     \<or> sampleAtOrAbove (GPUMemoryUsedBytes runtime) (rpc_GPUMemoryHardLimit c)
     \<or> sampleAtOrAbove (GPUTemperatureCelsius runtime) (rpc_GPUTemperatureHardLimit c)"

definition hardOverloaded :: "Load \<Rightarrow> int \<Rightarrow> path_Config \<Rightarrow> bool" where
  "hardOverloaded load localInflight c \<longleftrightarrow>
     ld_Valid load \<and> rpc_HardQueueDepth c > 0 \<and> ld_QueueDepth load \<ge> rpc_HardQueueDepth c
     \<or> rpc_HardLocalInflight c > 0 \<and> localInflight \<ge> rpc_HardLocalInflight c
     \<or> ld_RuntimeHardOverload load"

definition routing_load :: "(ID, Observed) gomap \<Rightarrow> (ID, int) gomap \<Rightarrow> path_Config \<Rightarrow> ID \<Rightarrow> Load" where
  \<comment> \<open>the load built by one iteration of the loop of \<open>routingLoads\<close>\<close>
  "routing_load observations inflight c bid =
     (let observed = mget zero_Observed observations bid;
          s1 = (case (nonNegativeCount (QueueLength observed), nonNegativeCount (RunningRequests observed)) of
                  (Some queue, Some running) \<Rightarrow>
                     zero_Load\<lparr>ld_QueueDepth := queue, ld_Running := running, ld_Valid := True,
                       ld_LocalDelta := max 0 (wrap64 (mget 0 inflight bid - running))\<rparr>
                | _ \<Rightarrow> zero_Load);
          s2 = s1\<lparr>ld_RuntimeHardOverload := runtimeHardOverloaded (obs_Runtime observed) c\<rparr>
      in s2\<lparr>ld_HardOverload := hardOverloaded s2 (mget 0 inflight bid) c\<rparr>)"

definition routingLoads :: "Backend list \<Rightarrow> (ID, Observed) gomap \<Rightarrow> (ID, int) gomap \<Rightarrow> path_Config \<Rightarrow> (ID, Load) gomap" where
  "routingLoads backends observations inflight c =
     foldl (\<lambda>loads b.
        let load = routing_load observations inflight c (bID b) in
        if mhas observations (bID b) \<or> ld_HardOverload load then AList.update (bID b) load loads else loads)
       [] backends"

subsection \<open>Snapshots\<close>

record path_view =
  pv_status :: ResolverStatus
  pv_observations :: "(ID, Observed) gomap option"
  pv_kvState :: "(ID, InstanceState) gomap option"
  pv_now :: "ID \<Rightarrow> time" \<comment> \<open>the clock read by the \<open>IsOpen\<close> call for a backend\<close>

definition activeObservations :: "path_view \<Rightarrow> Backend list \<Rightarrow> (ID, Observed) gomap" where
  "activeObservations v backends =
     (case pv_observations v of None \<Rightarrow> [] | Some m \<Rightarrow> mkeep (\<lambda>bid. bid \<in> set (map bID backends)) m)"

definition projectKVCacheState :: "(ID, InstanceState) gomap \<Rightarrow> (ID, KVCacheState) gomap" where
  "projectKVCacheState instances =
     map (\<lambda>(bid, i). (bid, \<lparr>kc_Valid = is_Valid i, kc_Reason = is_Reason i, kc_Freshness = is_Freshness i,
        kc_LastSequence = is_LastSequence i, kc_AppliedBatches = is_AppliedBatches i, kc_ReplayBatches = is_ReplayBatches i\<rparr>))
       instances"

definition inflightSnapshot :: "path_service \<Rightarrow> (ID, int) gomap" where
  "inflightSnapshot s = map (\<lambda>(bid, ref). (bid, rp_heap s ! ref)) (rp_counters s)"

fun probe_circuits :: "(ID \<Rightarrow> time) \<Rightarrow> Backend list \<Rightarrow> breaker \<Rightarrow> (ID, bool) gomap \<Rightarrow> (ID, Reason) gomap
    \<Rightarrow> breaker \<times> (ID, bool) gomap \<times> (ID, Reason) gomap" where
  "probe_circuits now [] br open_map blocked = (br, open_map, blocked)"
| "probe_circuits now (b # bs) br open_map blocked =
     (case IsOpen (now (bID b)) br (bID b) of (is_open, br') \<Rightarrow>
        probe_circuits now bs br' (AList.update (bID b) is_open open_map)
          (if is_open then AList.update (bID b) ReasonCircuitOpen blocked else blocked))"

definition buildSnapshot :: "path_view \<Rightarrow> Backend list \<Rightarrow> path_service \<Rightarrow> path_State \<times> Snapshot \<times> path_service" where
  "buildSnapshot v backends s =
     (let observations = activeObservations v backends;
          inflight = inflightSnapshot s in
      case probe_circuits (pv_now v) backends (rp_circuits s) [] [] of (br, open_map, blocked) \<Rightarrow>
        (\<lparr>ps_Backends = backends, ps_Observations = observations, ps_CircuitOpen = open_map, ps_Discovery = pv_status v,
           ps_KV = KVNotRequested,
           ps_KVCache = (case pv_kvState v of None \<Rightarrow> [] | Some m \<Rightarrow> projectKVCacheState m),
           ps_CachedPrefixTokens = 0, ps_Prediction = bare_Shadow StatusNone,
           ps_Estimate = zero_EstimateEvidence\<rparr>,
         \<lparr>sn_Backends = backends, sn_Inflight = inflight, sn_Observations = observations, sn_Ineligible = blocked,
           sn_Loads = routingLoads backends observations inflight (rp_config s),
           sn_KVAware = \<lparr>ki_PromptTokens = 0, ki_Matches = []\<rparr>, sn_Estimates = []\<rparr>,
         s\<lparr>rp_circuits := br\<rparr>))"

subsection \<open>Membership\<close>

definition recycle_counters :: "ID set \<Rightarrow> path_service \<Rightarrow> path_service" where
  \<comment> \<open>the section of \<open>reconcileBackends\<close> under \<open>mu\<close>, and the notifications after it\<close>
  "recycle_counters active s =
     (let gone = (\<lambda>bid ref. bid \<notin> active \<and> rp_heap s ! ref = 0) in
      s\<lparr>rp_active := active,
        rp_counters := filter (\<lambda>(bid, ref). \<not> gone bid ref) (rp_counters s),
        rp_removed := rp_removed s @ map fst (filter (\<lambda>(bid, ref). gone bid ref) (rp_counters s))\<rparr>)"

definition reconcileBackends :: "Backend list \<Rightarrow> path_service \<Rightarrow> path_service" where
  \<comment> \<open>the KV reconcile it also triggers is a step of the KV service; its error is ignored\<close>
  "reconcileBackends backends s =
     recycle_counters (insert (bID (rpc_Service (rp_config s))) (set (map bID backends)))
       (s\<lparr>rp_strategy := Strategy_ReconcileBackends (rp_strategy s) backends,
          rp_circuits := snd (circuit_Reconcile (rp_circuits s) backends),
          rp_predictor := map_option (prediction_Reconcile (map bID backends)) (rp_predictor s)\<rparr>)"

subsection \<open>The KV signal\<close>

datatype call_error =
    TokenizationError tok_error
  | PlainError bool \<comment> \<open>any other error; whether its chain holds \<open>context.Canceled\<close>\<close>

fun error_canceled :: "call_error \<Rightarrow> bool" where
  "error_canceled (TokenizationError e) = te_Canceled e"
| "error_canceled (PlainError canceled) = canceled"

definition requestContextCanceled :: "bool \<Rightarrow> call_error \<Rightarrow> bool" where
  \<comment> \<open>the first argument is \<open>ctx.Err() != nil\<close>\<close>
  "requestContextCanceled ctx_done err \<longleftrightarrow> ctx_done \<or> error_canceled err"

fun canDegradeTokenization :: "call_error \<Rightarrow> bool" where
  "canDegradeTokenization (TokenizationError e) = IsTransient e"
| "canDegradeTokenization (PlainError canceled) = (\<not> canceled)"

record kv_ops =
  kv_tokenize :: "tok_Input \<Rightarrow> call_error + tok_Result"
  kv_reconcile :: "Backend list \<Rightarrow> call_error option"
  kv_lookup :: "Query \<Rightarrow> call_error + (ID, Match) gomap"
  kv_ctxDone :: bool

definition routingInputFromMatches :: "int \<Rightarrow> (ID, Match) gomap \<Rightarrow> KVAwareInput" where
  "routingInputFromMatches promptTokens matches =
     \<lparr>ki_PromptTokens = promptTokens,
      ki_Matches = map (\<lambda>(bid, m). (bid, \<lparr>km_Valid = mt_Valid m, km_MatchedTokens = mt_MatchedTokens m\<rparr>)) matches\<rparr>"

definition no_KVAwareInput :: KVAwareInput where
  "no_KVAwareInput = \<lparr>ki_PromptTokens = 0, ki_Matches = []\<rparr>"

definition buildKVAwareInput :: "kv_ops \<Rightarrow> tok_Input \<Rightarrow> Backend list \<Rightarrow> path_service \<Rightarrow> KVAwareInput \<times> KVStatus \<times> call_error option" where
  "buildKVAwareInput ops input candidates s =
     (if Strategy_Name (rp_strategy s) \<noteq> ModeKVAware then (no_KVAwareInput, KVNotRequested, None)
      else case kv_tokenize ops input of
        Inl err \<Rightarrow>
          if requestContextCanceled (kv_ctxDone ops) err \<or> \<not> canDegradeTokenization err
          then (no_KVAwareInput, KVTokenizationFailed, Some err)
          else (no_KVAwareInput, KVTokenizationFailed, None)
      | Inr profile \<Rightarrow>
        (case kv_reconcile ops candidates of
           Some err \<Rightarrow>
             if requestContextCanceled (kv_ctxDone ops) err then (no_KVAwareInput, KVLookupFailed, Some err)
             else (no_KVAwareInput, KVLookupFailed, None)
         | None \<Rightarrow>
             let promptTokens = tr_totalTokens profile in
             if rpc_ShortPromptTokens (rp_config s) > 0 \<and> promptTokens \<le> rpc_ShortPromptTokens (rp_config s)
             then (no_KVAwareInput\<lparr>ki_PromptTokens := promptTokens\<rparr>, KVShortContextBypassed, None)
             else
               (case kv_lookup ops \<lparr>q_Model = tr_model profile, q_CacheSalt = tr_cacheSalt profile,
                       q_TokenGroups = tr_prompts profile, q_Backends = map bID candidates\<rparr> of
                  Inl err \<Rightarrow>
                    if requestContextCanceled (kv_ctxDone ops) err then (no_KVAwareInput, KVLookupFailed, Some err)
                    else (no_KVAwareInput, KVLookupFailed, None)
                | Inr matches \<Rightarrow>
                    let kvInput = routingInputFromMatches (tr_totalTokens profile) matches in
                    if \<not> UsableFor kvInput candidates then (kvInput, KVMatchUnavailable, None)
                    else (kvInput, KVAvailable, None))))"

subsection \<open>Estimates and prediction input\<close>

fun confidence_text :: "StaticConfidence \<Rightarrow> string" where
  "confidence_text NoConfidence = ''''"
| "confidence_text StaticConfidenceCalibrated = ''calibrated''"
| "confidence_text StaticConfidenceDegraded = ''degraded''"
| "confidence_text StaticConfidenceUncalibrated = ''uncalibrated''"

fun static_reason_text :: "StaticReason \<Rightarrow> string" where
  "static_reason_text NoStaticReason = ''''"
| "static_reason_text StaticReasonCalibrated = ''calibrated''"
| "static_reason_text StaticReasonUncalibrated = ''uncalibrated''"
| "static_reason_text StaticReasonLoadFallback = ''load-fallback''"
| "static_reason_text StaticReasonInvalidInput = ''invalid-input''"
| "static_reason_text StaticReasonProfileMismatch = ''profile-mismatch''"
| "static_reason_text StaticReasonOutOfRange = ''out-of-range''"
| "static_reason_text StaticReasonOverflow = ''overflow''"

definition static_estimate_for :: "Snapshot \<Rightarrow> KVAwareInput \<Rightarrow> StaticProfile \<Rightarrow> ID \<Rightarrow> LatencyEstimate" where
  "static_estimate_for sn kvInput estimator bid =
     (let load = mget zero_Load (sn_Loads sn) bid;
          est = Estimate estimator \<lparr>si_Identity = sp_Identity estimator,
            si_Prompt = \<lparr>pw_PromptTokens = ki_PromptTokens kvInput,
              pw_CachedPrefixTokens = km_MatchedTokens (mget zero_KVMatch (ki_Matches kvInput) bid)\<rparr>,
            si_Load = \<lparr>lw_QueueDepth = ld_QueueDepth load, lw_Running = ld_Running load, lw_LocalDelta = ld_LocalDelta load,
              lw_LocalInflight = mget 0 (sn_Inflight sn) bid, lw_Valid = ld_Valid load\<rparr>\<rparr>
      in \<lparr>le_TTFT = st_TTFT est, le_Valid = st_Valid est, le_Confidence = confidence_text (st_Confidence est),
          le_Version = st_Version est, le_Reason = static_reason_text (st_Reason est)\<rparr>)"

definition staticLatencyEstimates :: "Snapshot \<Rightarrow> KVAwareInput \<Rightarrow> StaticProfile \<Rightarrow> (ID, LatencyEstimate) gomap" where
  "staticLatencyEstimates sn kvInput estimator =
     foldl (\<lambda>m b. AList.update (bID b) (static_estimate_for sn kvInput estimator (bID b)) m) [] (EligibleBackends sn)"

definition selectedEstimateEvidence :: "Snapshot \<Rightarrow> (ID, Observed) gomap \<Rightarrow> KVAwareInput \<Rightarrow> ID \<Rightarrow> EstimateEvidence" where
  "selectedEstimateEvidence sn observations kvInput selected =
     (let match = mget zero_KVMatch (ki_Matches kvInput) selected;
          load = mget zero_Load (sn_Loads sn) selected;
          est = mget zero_LatencyEstimate (sn_Estimates sn) selected
      in \<lparr>ev_PromptTokens = ki_PromptTokens kvInput, ev_CachedPrefixTokens = km_MatchedTokens match,
          ev_UncachedTokens = wrap64 (ki_PromptTokens kvInput - km_MatchedTokens match),
          ev_EstimatedTTFT = le_TTFT est, ev_Valid = le_Valid est, ev_Confidence = le_Confidence est,
          ev_Version = le_Version est, ev_Reason = le_Reason est, ev_LoadValid = ld_Valid load,
          ev_LoadSampleAge = (case map_of observations selected of None \<Rightarrow> 0 | Some ob \<Rightarrow> obs_Freshness ob),
          ev_QueueDepth = ld_QueueDepth load, ev_Running = ld_Running load, ev_LocalDelta = ld_LocalDelta load,
          ev_LocalInflight = mget 0 (sn_Inflight sn) selected,
          ev_HardOverloadedCandidates = int (length (filter (\<lambda>b. ld_HardOverload (mget zero_Load (sn_Loads sn) (bID b)))
            (EligibleBackends sn)))\<rparr>)"

definition prediction_candidates :: "Snapshot \<Rightarrow> KVAwareInput \<Rightarrow> Candidate list" where
  "prediction_candidates sn kvInput =
     map (\<lambda>b. let load = mget zero_Load (sn_Loads sn) (bID b);
                  match = mget zero_KVMatch (ki_Matches kvInput) (bID b)
              in \<lparr>cd_Backend = bID b, cd_Features = \<lparr>
                   ft_UncachedTokens = wrap64 (ki_PromptTokens kvInput - km_MatchedTokens match),
                   ft_QueueDepth = ld_QueueDepth load, ft_Running = ld_Running load,
                   ft_LocalInflight = mget 0 (sn_Inflight sn) (bID b), ft_LoadValid = ld_Valid load\<rparr>\<rparr>)
       (filter (\<lambda>b. \<not> ld_HardOverload (mget zero_Load (sn_Loads sn) (bID b))) (EligibleBackends sn))"

definition zero_Features :: Features where
  "zero_Features = \<lparr>ft_UncachedTokens = 0, ft_QueueDepth = 0, ft_Running = 0, ft_LocalInflight = 0, ft_LoadValid = False\<rparr>"

definition predictionInput :: "Snapshot \<Rightarrow> KVAwareInput \<Rightarrow> ID \<Rightarrow> BeginInput" where
  "predictionInput sn kvInput selected =
     (case find (\<lambda>c. cd_Backend c = selected) (prediction_candidates sn kvInput) of
        Some c \<Rightarrow> \<lparr>bi_Selected = selected, bi_Features = cd_Features c, bi_Candidates = prediction_candidates sn kvInput\<rparr>
      | None \<Rightarrow> \<lparr>bi_Selected = '''', bi_Features = zero_Features, bi_Candidates = []\<rparr>)"

subsection \<open>Decision\<close>

definition path_fallback :: "path_Config \<Rightarrow> Reason \<Rightarrow> Decision" where
  "path_fallback c reason = plain_decision (rpc_Service c) reason PolicyServiceFallbackV1"

definition directRoutingEligible :: "path_Config \<Rightarrow> ResolverStatus \<Rightarrow> bool" where
  "directRoutingEligible c status \<longleftrightarrow> \<not> rpc_RequireFreshDiscovery c
     \<or> rs_Status status \<noteq> DiscoveryUnavailable \<and> rs_ReadyBackends status > 0
        \<and> rs_Freshness status \<le> rpc_DiscoveryMaxAge c"

definition kvAwareFallbackPolicy :: "Policy \<Rightarrow> bool \<Rightarrow> Policy" where
  "kvAwareFallbackPolicy underlying shortContext =
     (if underlying = PolicyLoadAwareV1
      then (if shortContext then PolicyKVAwareShortContextLoadAwareV1 else PolicyKVAwareLoadAwareFallbackV1)
      else (if shortContext then PolicyKVAwareShortContextLoadBalancedV2 else PolicyKVAwareLoadBalancedFallbackV2))"

definition kvAwareLoadFallback :: "path_Config \<Rightarrow> string \<Rightarrow> Snapshot \<Rightarrow> Reason \<Rightarrow> bool \<Rightarrow> Decision" where
  "kvAwareLoadFallback c routingKey sn reason shortContext =
     (case load_aware_Select routingKey sn of
        Inl err \<Rightarrow> path_fallback c ReasonStrategyFallback
      | Inr d \<Rightarrow> if bID (dc_Backend d) = '''' then path_fallback c ReasonStrategyFallback
          else d\<lparr>dc_Reason := reason, dc_Policy := kvAwareFallbackPolicy (dc_Policy d) shortContext\<rparr>)"

definition selectDecision :: "url_parser \<Rightarrow> clock_reads \<Rightarrow> string \<Rightarrow> Snapshot \<Rightarrow> ResolverStatus \<Rightarrow> KVStatus \<Rightarrow> path_service
    \<Rightarrow> Decision \<times> path_service" where
  "selectDecision url_parse clk routingKey sn status kvStatus s =
     (let c = rp_config s; eligible = EligibleBackends sn in
      if \<not> directRoutingEligible c status then (path_fallback c ReasonDiscoveryFallback, s)
      else if length eligible = 0 then (path_fallback c ReasonCircuitFallback, s)
      else if Strategy_Name (rp_strategy s) = ModeKVAware \<and> kvStatus = KVShortContextBypassed
      then (kvAwareLoadFallback c routingKey sn ReasonKVAwareShortContextFallback True, s)
      else if Strategy_Name (rp_strategy s) = ModeKVAware \<and> \<not> UsableFor (sn_KVAware sn) eligible
      then (kvAwareLoadFallback c routingKey sn ReasonKVAwareSignalUnavailable False, s)
      else case Strategy_Select clk (rp_strategy s) routingKey sn of (result, strategy') \<Rightarrow>
        let s' = s\<lparr>rp_strategy := strategy'\<rparr> in
        (case result of
           Inl err \<Rightarrow> (path_fallback c ReasonStrategyFallback, s')
         | Inr d \<Rightarrow>
             if bID (dc_Backend d) = '''' then (path_fallback c ReasonStrategyFallback, s')
             else if Decision_Validate url_parse d \<noteq> None then (path_fallback c ReasonBackendFallback, s')
             else (d, s')))"

subsection \<open>Select\<close>

record path_Request =
  rq_RoutingKey :: string
  rq_Route :: string
  rq_Body :: "byte list"

definition select_prepare :: "path_view \<Rightarrow> kv_ops \<Rightarrow> Backend list option \<Rightarrow> path_Request \<Rightarrow> path_service
    \<Rightarrow> (call_error + Backend list \<times> KVAwareInput \<times> KVStatus) \<times> path_service" where
  \<comment> \<open>steps 1 to 3 of \<open>Select\<close>; \<open>None\<close> is an error of the resolver\<close>
  "select_prepare v ops resolved request s =
     (let (backends, s1) = (case resolved of Some bs \<Rightarrow> (bs, reconcileBackends bs s) | None \<Rightarrow> ([], s)) in
      case buildSnapshot v backends s1 of (_, sn, s2) \<Rightarrow>
        (case buildKVAwareInput ops \<lparr>ti_Route = rq_Route request, ti_Body = rq_Body request\<rparr> (EligibleBackends sn) s2 of
           (_, _, Some err) \<Rightarrow> (Inl err, s2)
         | (kvInput, kvStatus, None) \<Rightarrow> (Inr (backends, kvInput, kvStatus), s2)))"

definition inflightCounter :: "ID \<Rightarrow> path_service \<Rightarrow> nat \<times> path_service" where
  "inflightCounter bid s =
     (case map_of (rp_counters s) bid of
        Some ref \<Rightarrow> (ref, s)
      | None \<Rightarrow> (length (rp_heap s),
          s\<lparr>rp_heap := rp_heap s @ [0], rp_counters := AList.update bid (length (rp_heap s)) (rp_counters s)\<rparr>))"

definition begin_prediction :: "time \<Rightarrow> Snapshot \<Rightarrow> KVAwareInput \<Rightarrow> KVStatus \<Rightarrow> Decision \<Rightarrow> path_State \<Rightarrow> path_service
    \<Rightarrow> ticketState option \<times> path_State \<times> path_service" where
  "begin_prediction now sn kvInput kvStatus d state s =
     (case rp_predictor s of
        Some t \<Rightarrow>
          if kvStatus = KVAvailable \<and> (dc_Policy d = PolicyKVAwareV1 \<or> dc_Policy d = PolicyKVAwareStaticV1)
          then (case Begin now (predictionInput sn kvInput (bID (dc_Backend d))) t of (ticket, shadow, t') \<Rightarrow>
                  (ticket, state\<lparr>ps_Prediction := shadow\<rparr>, s\<lparr>rp_predictor := Some t'\<rparr>))
          else (None, state, s)
      | None \<Rightarrow> (None, state, s))"

definition commit_snapshot :: "KVAwareInput \<Rightarrow> KVStatus \<Rightarrow> path_service \<Rightarrow> Snapshot \<Rightarrow> Snapshot" where
  \<comment> \<open>the KV input and, when the signal is available, the static estimates join the snapshot\<close>
  "commit_snapshot kvInput kvStatus s sn0 =
     (let sn = sn0\<lparr>sn_KVAware := kvInput\<rparr> in
      case rp_estimator s of
        Some e \<Rightarrow> if kvStatus = KVAvailable then sn\<lparr>sn_Estimates := staticLatencyEstimates sn kvInput e\<rparr> else sn
      | None \<Rightarrow> sn)"

definition commit_state :: "KVAwareInput \<Rightarrow> KVStatus \<Rightarrow> Snapshot \<Rightarrow> ID \<Rightarrow> path_State \<Rightarrow> path_State" where
  "commit_state kvInput kvStatus sn selected state =
     (if kvStatus = KVAvailable
      then state\<lparr>ps_KV := kvStatus,
        ps_CachedPrefixTokens := km_MatchedTokens (mget zero_KVMatch (ki_Matches kvInput) selected),
        ps_Estimate := selectedEstimateEvidence sn (ps_Observations state) kvInput selected\<rparr>
      else state\<lparr>ps_KV := kvStatus\<rparr>)"

definition select_commit :: "url_parser \<Rightarrow> clock_reads \<Rightarrow> time \<Rightarrow> path_view \<Rightarrow> string \<Rightarrow> Backend list \<times> KVAwareInput \<times> KVStatus
    \<Rightarrow> path_service \<Rightarrow> (Decision \<times> path_State \<times> nat) \<times> path_service" where
  \<comment> \<open>the section under \<open>selection\<close> up to the lookup of the counter; the result is the new lease's index\<close>
  "select_commit url_parse clk now v routingKey prepared s =
     (case prepared of (backends, kvInput, kvStatus) \<Rightarrow>
      case buildSnapshot v backends s of (state0, sn0, s1) \<Rightarrow>
        let sn = commit_snapshot kvInput kvStatus s1 sn0 in
        case selectDecision url_parse clk routingKey sn (ps_Discovery state0) kvStatus s1 of (d, s2) \<Rightarrow>
          let selected = bID (dc_Backend d) in
          case begin_prediction now sn kvInput kvStatus d (commit_state kvInput kvStatus sn selected state0) s2 of
            (ticket, state, s3) \<Rightarrow>
            case inflightCounter selected s3 of (ref, s4) \<Rightarrow>
              ((d, state, length (rp_leases s4)),
               s4\<lparr>rp_leases := rp_leases s4 @ [\<lparr>ls_backend = selected, ls_counter = ref, ls_reserved = False,
                   ls_ticket = ticket, ls_done = False, ls_result = zero_Completion\<rparr>]\<rparr>))"

definition select_reserve :: "nat \<Rightarrow> path_service \<Rightarrow> path_service" where
  \<comment> \<open>\<open>counter.Add(1)\<close>\<close>
  "select_reserve l s =
     (let lease = rp_leases s ! l; ref = ls_counter lease in
      s\<lparr>rp_heap := (rp_heap s)[ref := rp_heap s ! ref + 1],
        rp_leases := (rp_leases s)[l := lease\<lparr>ls_reserved := True\<rparr>]\<rparr>)"

definition path_Select :: "url_parser \<Rightarrow> clock_reads \<Rightarrow> time \<Rightarrow> path_view \<Rightarrow> path_view \<Rightarrow> kv_ops \<Rightarrow> Backend list option
    \<Rightarrow> path_Request \<Rightarrow> path_service \<Rightarrow> (call_error + Decision \<times> path_State \<times> nat) \<times> path_service" where
  \<comment> \<open>\<open>Select\<close> when no other request runs between its parts\<close>
  "path_Select url_parse clk now v v2 ops resolved request s =
     (case select_prepare v ops resolved request s of
        (Inl err, s1) \<Rightarrow> (Inl err, s1)
      | (Inr prepared, s1) \<Rightarrow>
          (case select_commit url_parse clk now v2 (rq_RoutingKey request) prepared s1 of
             ((d, state, l), s2) \<Rightarrow> (Inr (d, state, l), select_reserve l s2)))"

subsection \<open>Completion\<close>

definition release_forget :: "ID \<Rightarrow> nat \<Rightarrow> path_service \<Rightarrow> bool \<times> path_service" where
  \<comment> \<open>the part of \<open>releaseBackend\<close> after the decrement reached zero; it starts by taking \<open>mu\<close>\<close>
  "release_forget bid ref s =
     (if bid \<in> rp_active s \<or> map_of (rp_counters s) bid \<noteq> Some ref then (False, s)
      else (True, s\<lparr>rp_counters := AList.delete bid (rp_counters s),
                    rp_circuits := circuit_Remove (rp_circuits s) bid,
                    rp_removed := rp_removed s @ [bid]\<rparr>))"

definition releaseBackend :: "ID \<Rightarrow> nat \<Rightarrow> path_service \<Rightarrow> bool \<times> path_service" where
  "releaseBackend bid ref s =
     (let n = rp_heap s ! ref - 1; s1 = s\<lparr>rp_heap := (rp_heap s)[ref := n]\<rparr> in
      if n \<noteq> 0 then (False, s1) else release_forget bid ref s1)"

definition release_count :: "nat \<Rightarrow> path_service \<Rightarrow> path_service" where
  \<comment> \<open>\<open>counter.Add(-1)\<close> for a lease whose \<open>Complete\<close> runs for the first time\<close>
  "release_count l s =
     (let lease = rp_leases s ! l; ref = ls_counter lease in
      s\<lparr>rp_heap := (rp_heap s)[ref := rp_heap s ! ref - 1],
        rp_leases := (rp_leases s)[l := lease\<lparr>ls_done := True\<rparr>]\<rparr>)"

definition settle_circuit :: "time \<Rightarrow> time \<Rightarrow> ID \<Rightarrow> Outcome \<Rightarrow> path_service \<Rightarrow> Completion \<times> path_service" where
  "settle_circuit t_record t_open bid outcome s =
     (if bid = bID (rpc_Service (rp_config s)) then (zero_Completion, s)
      else
        let (opened, br1) =
              (case outcome of
                 OutcomeResponseCompleted \<Rightarrow> Record t_record (rp_circuits s) bid OutcomeSuccess
               | OutcomeTransportFailure \<Rightarrow> Record t_record (rp_circuits s) bid OutcomeFailure
               | OutcomeDeadlineExceeded \<Rightarrow> Record t_record (rp_circuits s) bid OutcomeFailure
               | OutcomeUpstreamStream \<Rightarrow> Record t_record (rp_circuits s) bid OutcomeFailure
               | _ \<Rightarrow> (False, rp_circuits s));
            (is_open, br2) = IsOpen t_open br1 bid
        in (zero_Completion\<lparr>cp_CircuitOpened := opened, cp_CircuitOpen := is_open\<rparr>, s\<lparr>rp_circuits := br2\<rparr>))"

definition path_complete :: "time \<Rightarrow> time \<Rightarrow> ID \<Rightarrow> nat \<Rightarrow> Outcome \<Rightarrow> path_service \<Rightarrow> Completion \<times> path_service" where
  "path_complete t_record t_open bid ref outcome s =
     (case settle_circuit t_record t_open bid outcome s of (cp, s1) \<Rightarrow>
      case releaseBackend bid ref s1 of (removed, s2) \<Rightarrow> (cp\<lparr>cp_BackendRemoved := removed\<rparr>, s2))"

definition Lease_Complete :: "time \<Rightarrow> time \<Rightarrow> nat \<Rightarrow> Outcome \<Rightarrow> path_service \<Rightarrow> Completion \<times> path_service" where
  "Lease_Complete t_record t_open l outcome s =
     (let lease = rp_leases s ! l in
      if ls_done lease then (ls_result lease, s)
      else case path_complete t_record t_open (ls_backend lease) (ls_counter lease) outcome s of (cp, s') \<Rightarrow>
        (cp, s'\<lparr>rp_leases := (rp_leases s')[l := lease\<lparr>ls_done := True, ls_result := cp\<rparr>]\<rparr>))"

definition Lease_ObserveFirstToken :: "time \<Rightarrow> nat \<Rightarrow> duration \<Rightarrow> path_service \<Rightarrow> prediction_Observation \<times> path_service" where
  \<comment> \<open>the projection keeps the actual time also when there is nothing to compare it with\<close>
  "Lease_ObserveFirstToken now l ttft s =
     (let lease = rp_leases s ! l in
      case (ls_ticket lease, rp_predictor s) of
        (Some ticket, Some t) \<Rightarrow>
          (case observe now ttft ticket t of (ob, ticket', t') \<Rightarrow>
             (ob\<lparr>po_Actual := ttft\<rparr>,
              s\<lparr>rp_predictor := Some t', rp_leases := (rp_leases s)[l := lease\<lparr>ls_ticket := Some ticket'\<rparr>]\<rparr>))
      | _ \<Rightarrow> (zero_Observation\<lparr>po_Actual := ttft\<rparr>, s))"

definition path_Ready :: "path_Config \<Rightarrow> ResolverStatus \<Rightarrow> bool" where
  "path_Ready c status \<longleftrightarrow> rs_Status status \<noteq> DiscoveryUnavailable
     \<and> (\<not> rpc_RequireFreshDiscovery c \<or> rs_Freshness status \<le> rpc_DiscoveryMaxAge c)"

definition path_state :: "path_view \<Rightarrow> Backend list option \<Rightarrow> path_service \<Rightarrow> path_State \<times> path_service" where
  "path_state v resolved s =
     (case resolved of
        None \<Rightarrow> (\<lparr>ps_Backends = [], ps_Observations = (case pv_observations v of None \<Rightarrow> [] | Some m \<Rightarrow> m),
            ps_CircuitOpen = [], ps_Discovery = pv_status v, ps_KV = KVUnset, ps_KVCache = [], ps_CachedPrefixTokens = 0,
            ps_Prediction = bare_Shadow StatusNone, ps_Estimate = zero_EstimateEvidence\<rparr>, s)
      | Some backends \<Rightarrow> (case buildSnapshot v backends (reconcileBackends backends s) of (state, _, s') \<Rightarrow> (state, s')))"

end
