(* ===== verification/Path_Leases.thy ===== *)
theory Path_Leases
  imports Requestpath
begin

text \<open>
  The in-flight accounting of \<open>internal/serving/requestpath\<close>. \<open>path_step\<close> interleaves the atomic parts
  of concurrent \<open>Select\<close>, \<open>Complete\<close>, \<open>State\<close> and reconcile calls; it is more liberal than the mutexes of
  the code (two critical sections of \<open>Select\<close> may overlap), so what it preserves holds for the code.
  A counter cell always holds the number of outstanding leases that point to it (\<open>cells_ok\<close>), and a
  cell belongs to one backend (\<open>owned\<close>). When every call runs alone, the published cell of a backend is
  the one its leases hold (\<open>mapped\<close>), which makes the published in-flight counts exact.
\<close>

subsection \<open>Accounting of leases\<close>

definition holds :: "leaseState \<Rightarrow> bool" where
  \<comment> \<open>the lease has been counted and not yet settled\<close>
  "holds l \<longleftrightarrow> ls_reserved l \<and> \<not> ls_done l"

definition held :: "path_service \<Rightarrow> nat \<Rightarrow> nat" where
  "held s ref = length (filter (\<lambda>l. holds l \<and> ls_counter l = ref) (rp_leases s))"

definition held_backend :: "path_service \<Rightarrow> ID \<Rightarrow> nat" where
  "held_backend s b = length (filter (\<lambda>l. holds l \<and> ls_backend l = b) (rp_leases s))"

definition cells_ok :: "path_service \<Rightarrow> bool" where
  \<comment> \<open>every counter cell counts the leases that hold it\<close>
  "cells_ok s \<longleftrightarrow> (\<forall>ref<length (rp_heap s). rp_heap s ! ref = int (held s ref))
     \<and> (\<forall>l\<in>set (rp_leases s). ls_counter l < length (rp_heap s))
     \<and> (\<forall>b ref. map_of (rp_counters s) b = Some ref \<longrightarrow> ref < length (rp_heap s))
     \<and> gomap_ok (rp_counters s)"

definition owned :: "path_service \<Rightarrow> bool" where
  \<comment> \<open>a cell belongs to one backend\<close>
  "owned s \<longleftrightarrow>
     (\<forall>b ref. map_of (rp_counters s) b = Some ref \<longrightarrow> (\<forall>l\<in>set (rp_leases s). ls_counter l = ref \<longrightarrow> ls_backend l = b))
     \<and> (\<forall>b b' ref. map_of (rp_counters s) b = Some ref \<longrightarrow> map_of (rp_counters s) b' = Some ref \<longrightarrow> b = b')"

definition mapped :: "path_service \<Rightarrow> bool" where
  \<comment> \<open>the cell of a held lease is the one the map publishes for its backend\<close>
  "mapped s \<longleftrightarrow> (\<forall>l\<in>set (rp_leases s). holds l \<longrightarrow> map_of (rp_counters s) (ls_backend l) = Some (ls_counter l))"

lemmas path_inv_defs = cells_ok_def owned_def mapped_def

definition same_cells :: "path_service \<Rightarrow> path_service \<Rightarrow> bool" where
  "same_cells s s' \<longleftrightarrow> rp_heap s' = rp_heap s \<and> rp_counters s' = rp_counters s \<and> rp_leases s' = rp_leases s \<and> rp_active s' = rp_active s
     \<and> rp_config s' = rp_config s"

lemma same_cells_inv:
  "same_cells s s' \<Longrightarrow> cells_ok s' = cells_ok s \<and> owned s' = owned s \<and> mapped s' = mapped s"
  by (simp add: same_cells_def cells_ok_def owned_def mapped_def held_def)

lemma same_cells_trans: "same_cells a b \<Longrightarrow> same_cells b c \<Longrightarrow> same_cells a c"
  by (simp add: same_cells_def)

lemma buildSnapshot_same: "buildSnapshot v bs s = (st, sn, s') \<Longrightarrow> same_cells s s'"
  by (auto simp: buildSnapshot_def same_cells_def Let_def split: prod.splits)

lemma selectDecision_same: "selectDecision u clk key sn status kv s = (d, s') \<Longrightarrow> same_cells s s'"
  by (auto simp: selectDecision_def same_cells_def Let_def split: if_splits sum.splits prod.splits)

lemma begin_prediction_same: "begin_prediction now sn ki kv d st s = (ticket, st', s') \<Longrightarrow> same_cells s s'"
  by (auto simp: begin_prediction_def same_cells_def split: option.splits if_splits prod.splits)

lemma settle_circuit_same: "settle_circuit t1 t2 b o' s = (cp, s') \<Longrightarrow> same_cells s s'"
  by (auto simp: settle_circuit_def same_cells_def Let_def split: if_splits prod.splits)

subsection \<open>Counters\<close>

lemma map_of_filter_Some:
  "gomap_ok m \<Longrightarrow> map_of (filter P m) b = Some r \<longleftrightarrow> map_of m b = Some r \<and> P (b, r)"
  using gomap_ok_filter [of m P] by (auto simp: map_of_eq_Some_iff')

lemma held_pos: "l \<in> set (rp_leases s) \<Longrightarrow> holds l \<Longrightarrow> 0 < held s (ls_counter l)"
  unfolding held_def by (rule length_pos_if_in_set [of l]) simp

lemma held_cell:
  "cells_ok s \<Longrightarrow> l \<in> set (rp_leases s) \<Longrightarrow> holds l \<Longrightarrow> 0 < rp_heap s ! ls_counter l"
  using held_pos [of l s] by (simp add: cells_ok_def)

lemma recycle_cells:
  assumes "cells_ok s"
  shows "cells_ok (recycle_counters a s)" and "owned s \<Longrightarrow> owned (recycle_counters a s)"
    and "mapped s \<Longrightarrow> mapped (recycle_counters a s)"
proof -
  have g: "gomap_ok (rp_counters s)" using assms by (simp add: cells_ok_def)
  note sub = map_of_filter_Some [OF g]
  show "cells_ok (recycle_counters a s)"
    using assms gomap_ok_filter [OF g] by (auto simp: cells_ok_def recycle_counters_def held_def Let_def sub)
  show "owned s \<Longrightarrow> owned (recycle_counters a s)"
    by (auto simp: owned_def recycle_counters_def Let_def sub)
  show "mapped s \<Longrightarrow> mapped (recycle_counters a s)"
    using held_cell [OF assms] by (force simp: mapped_def recycle_counters_def Let_def sub)
qed

lemma reconcileBackends_cells:
  assumes "cells_ok s"
  shows "cells_ok (reconcileBackends bs s)" and "owned s \<Longrightarrow> owned (reconcileBackends bs s)"
    and "mapped s \<Longrightarrow> mapped (reconcileBackends bs s)"
proof -
  let ?s = "s\<lparr>rp_strategy := Strategy_ReconcileBackends (rp_strategy s) bs,
          rp_circuits := snd (circuit_Reconcile (rp_circuits s) bs),
          rp_predictor := map_option (prediction_Reconcile (map bID bs)) (rp_predictor s)\<rparr>"
  have "same_cells s ?s" by (simp add: same_cells_def)
  note i = same_cells_inv [OF this]
  show "cells_ok (reconcileBackends bs s)" and "owned s \<Longrightarrow> owned (reconcileBackends bs s)"
    and "mapped s \<Longrightarrow> mapped (reconcileBackends bs s)"
    unfolding reconcileBackends_def using assms i by (auto intro!: recycle_cells)
qed

lemma inflightCounter_cells:
  assumes "inflightCounter b s = (ref, s')" and "cells_ok s"
  shows "cells_ok s'" and "owned s \<Longrightarrow> owned s'" and "mapped s \<Longrightarrow> mapped s'"
    and "map_of (rp_counters s') b = Some ref" and "rp_leases s' = rp_leases s" and "ref < length (rp_heap s')"
proof -
  show at: "map_of (rp_counters s') b = Some ref" and lv: "rp_leases s' = rp_leases s"
    using assms by (auto simp: inflightCounter_def update_conv' split: option.splits)
  have fresh: "\<forall>l\<in>set (rp_leases s). ls_counter l \<noteq> length (rp_heap s)"
    and fresh': "\<forall>b'. map_of (rp_counters s) b' \<noteq> Some (length (rp_heap s))"
    using assms(2) by (auto simp: cells_ok_def)
  have zero: "held s (length (rp_heap s)) = 0" using fresh by (auto simp: held_def filter_empty_conv)
  show ok: "cells_ok s'"
    using assms zero unfolding inflightCounter_def
    by (auto simp: cells_ok_def held_def update_conv' nth_append less_Suc_eq less_SucI split: option.splits if_splits)
  show "owned s \<Longrightarrow> owned s'"
    using assms(1) fresh fresh' unfolding inflightCounter_def
    by (auto simp: owned_def update_conv' split: option.splits if_splits)
  show "mapped s \<Longrightarrow> mapped s'"
    using assms unfolding inflightCounter_def by (auto simp: mapped_def update_conv' split: option.splits)
  show "ref < length (rp_heap s')" using ok at by (simp add: cells_ok_def)
qed

subsection \<open>Leases\<close>

lemma length_filter_update:
  "i < length xs \<Longrightarrow> int (length (filter P (xs[i := x]))) =
     int (length (filter P xs)) + (if P x then 1 else 0) - (if P (xs ! i) then 1 else 0)"
proof (induction xs arbitrary: i)
  case (Cons a xs)
  then show ?case by (cases i) (auto dest!: Cons.IH split: if_splits)
qed simp

lemma lease_update_cells:
  \<comment> \<open>a lease whose holding changes, with its cell adjusted by as much\<close>
  assumes ok: "cells_ok s" and l: "l < length (rp_leases s)" and o: "rp_leases s ! l = old"
    and nc: "ls_counter new = ls_counter old" "ls_backend new = ls_backend old"
    and d: "d = (if holds new then 1 else 0) - (if holds old then 1 else (0 :: int))"
    and s': "s' = s\<lparr>rp_heap := (rp_heap s)[ls_counter old := rp_heap s ! ls_counter old + d], rp_leases := (rp_leases s)[l := new]\<rparr>"
  shows "cells_ok s'" and "owned s \<Longrightarrow> owned s'"
    and "mapped s \<Longrightarrow> (holds new \<Longrightarrow> map_of (rp_counters s) (ls_backend new) = Some (ls_counter new)) \<Longrightarrow> mapped s'"
proof -
  have mem: "old \<in> set (rp_leases s)" using l o by auto
  have sub: "l' \<in> set ((rp_leases s)[l := new]) \<Longrightarrow> l' = new \<or> l' \<in> set (rp_leases s)" for l'
    using set_update_subset_insert [of "rp_leases s" l new] by auto
  have h: "int (held s' ref) = int (held s ref) + (if ref = ls_counter old then d else 0)" for ref
    using length_filter_update [OF l, of "\<lambda>l. holds l \<and> ls_counter l = ref" new] nc o
    by (auto simp: held_def s' d)
  show "cells_ok s'"
    using ok mem nc h unfolding cells_ok_def by (auto simp: s' nth_list_update dest!: sub)
  show "owned s'" if "owned s"
    using that sub mem nc by (auto simp: owned_def s' dest!: sub)
  show "mapped s'" if "mapped s" and "holds new \<Longrightarrow> map_of (rp_counters s) (ls_backend new) = Some (ls_counter new)"
    using that sub by (auto simp: mapped_def s' dest!: sub)
qed

lemma new_lease_cells:
  assumes ok: "cells_ok s" and b: "map_of (rp_counters s) (ls_backend new) = Some (ls_counter new)" and n: "\<not> holds new"
    and s': "s' = s\<lparr>rp_leases := rp_leases s @ [new]\<rparr>"
  shows "cells_ok s'" and "owned s \<Longrightarrow> owned s'" and "mapped s \<Longrightarrow> mapped s'"
proof -
  show "cells_ok s'" using ok b n by (auto simp: cells_ok_def s' held_def)
  show "owned s'" if "owned s" using that b by (auto simp: owned_def s')
  show "mapped s'" if "mapped s" using that n by (auto simp: mapped_def s')
qed

lemma release_forget_cells:
  assumes ok: "cells_ok s" and r: "release_forget b ref s = (x, s')"
  shows "cells_ok s'" and "owned s \<Longrightarrow> owned s'"
    and "mapped s \<Longrightarrow> held s ref = 0 \<Longrightarrow> mapped s'"
proof -
  have "gomap_ok (AList.delete b (rp_counters s))" using ok by (simp add: cells_ok_def gomap_ok_delete)
  then show "cells_ok s'" using ok r by (auto simp: release_forget_def cells_ok_def held_def delete_conv' split: if_splits)
  show "owned s'" if "owned s"
    using that r by (auto simp: release_forget_def owned_def delete_conv' split: if_splits)
  show "mapped s'" if m: "mapped s" and z: "held s ref = 0"
  proof -
    have "l \<in> set (rp_leases s) \<Longrightarrow> holds l \<Longrightarrow> ls_counter l \<noteq> ref" for l using held_pos [of l s] z by auto
    then show ?thesis using m r by (auto simp: release_forget_def mapped_def delete_conv' split: if_splits)
  qed
qed

subsection \<open>Interleaved steps\<close>

inductive path_step :: "path_service \<Rightarrow> path_service \<Rightarrow> bool" where
  step_prepare: "path_step s (snd (select_prepare v ops resolved request s))"
| step_commit: "path_step s (snd (select_commit url_parse clk now v routingKey prepared s))"
| step_reserve: "l < length (rp_leases s) \<Longrightarrow> \<not> ls_reserved (rp_leases s ! l) \<Longrightarrow> \<not> ls_done (rp_leases s ! l)
    \<Longrightarrow> path_step s (select_reserve l s)"
| step_settle: "path_step s (snd (settle_circuit t_record t_open bid outcome s))"
| step_count: "l < length (rp_leases s) \<Longrightarrow> ls_reserved (rp_leases s ! l) \<Longrightarrow> \<not> ls_done (rp_leases s ! l)
    \<Longrightarrow> path_step s (release_count l s)"
| step_forget: "path_step s (snd (release_forget bid ref s))"
| step_result: "l < length (rp_leases s) \<Longrightarrow> path_step s (s\<lparr>rp_leases := (rp_leases s)[l := (rp_leases s ! l)\<lparr>ls_result := cp\<rparr>]\<rparr>)"
| step_observe: "l < length (rp_leases s) \<Longrightarrow> path_step s (snd (Lease_ObserveFirstToken now l ttft s))"
| step_reconcile: "path_step s (reconcileBackends backends s)"
| step_state: "path_step s (snd (path_state v resolved s))"

lemma buildSnapshot_cells:
  assumes "cells_ok s"
  shows "cells_ok (snd (snd (buildSnapshot v bs s)))" and "owned s \<Longrightarrow> owned (snd (snd (buildSnapshot v bs s)))"
    and "mapped s \<Longrightarrow> mapped (snd (snd (buildSnapshot v bs s)))"
  using same_cells_inv [OF buildSnapshot_same, of v bs s] assms by (metis prod.collapse)+

lemma select_prepare_state:
  "snd (select_prepare v ops resolved rq s) =
     snd (snd (buildSnapshot v (case resolved of Some bs \<Rightarrow> bs | None \<Rightarrow> [])
       (case resolved of Some bs \<Rightarrow> reconcileBackends bs s | None \<Rightarrow> s)))"
  by (simp add: select_prepare_def split: option.splits prod.splits)

lemma select_prepare_cells:
  assumes "cells_ok s"
  shows "cells_ok (snd (select_prepare v ops resolved rq s))" and "owned s \<Longrightarrow> owned (snd (select_prepare v ops resolved rq s))"
    and "mapped s \<Longrightarrow> mapped (snd (select_prepare v ops resolved rq s))"
proof -
  define bs where "bs = (case resolved of Some bs \<Rightarrow> bs | None \<Rightarrow> [])"
  define s1 where "s1 = (case resolved of Some bs \<Rightarrow> reconcileBackends bs s | None \<Rightarrow> s)"
  have s1: "cells_ok s1" "owned s \<Longrightarrow> owned s1" "mapped s \<Longrightarrow> mapped s1"
    using assms reconcileBackends_cells [OF assms] by (auto simp: s1_def split: option.splits)
  have eq: "snd (select_prepare v ops resolved rq s) = snd (snd (buildSnapshot v bs s1))"
    by (simp add: select_prepare_state bs_def s1_def)
  show "cells_ok (snd (select_prepare v ops resolved rq s))" and "owned s \<Longrightarrow> owned (snd (select_prepare v ops resolved rq s))"
    and "mapped s \<Longrightarrow> mapped (snd (select_prepare v ops resolved rq s))"
    unfolding eq using s1 buildSnapshot_cells [OF s1(1), of v bs] by blast+
qed

lemma select_commit_cells:
  assumes c: "select_commit u clk now v key prepared s = ((d, st, l), s')" and ok: "cells_ok s"
  shows "cells_ok s'" and "owned s \<Longrightarrow> owned s'" and "mapped s \<Longrightarrow> mapped s'"
    and "\<exists>new. rp_leases s' = rp_leases s @ [new] \<and> l = length (rp_leases s) \<and> \<not> ls_reserved new \<and> \<not> ls_done new
      \<and> ls_backend new = bID (dc_Backend d) \<and> map_of (rp_counters s') (ls_backend new) = Some (ls_counter new)"
proof -
  obtain bs ki kv where p: "prepared = (bs, ki, kv)" by (cases prepared) auto
  obtain st0 sn0 s1 where b: "buildSnapshot v bs s = (st0, sn0, s1)" by (cases "buildSnapshot v bs s") auto
  define sn where "sn = commit_snapshot ki kv s1 sn0"
  obtain d' s2 where sd: "selectDecision u clk key sn (ps_Discovery st0) kv s1 = (d', s2)"
    by (cases "selectDecision u clk key sn (ps_Discovery st0) kv s1") auto
  let ?st = "commit_state ki kv sn (bID (dc_Backend d')) st0"
  obtain tk st2 s3 where bp: "begin_prediction now sn ki kv d' ?st s2 = (tk, st2, s3)"
    by (cases "begin_prediction now sn ki kv d' ?st s2") auto
  obtain ref s4 where ic: "inflightCounter (bID (dc_Backend d')) s3 = (ref, s4)"
    by (cases "inflightCounter (bID (dc_Backend d')) s3") auto
  let ?new = "\<lparr>ls_backend = bID (dc_Backend d'), ls_counter = ref, ls_reserved = False,
      ls_ticket = tk, ls_done = False, ls_result = zero_Completion\<rparr>"
  have eq: "d' = d" "l = length (rp_leases s4)" "s' = s4\<lparr>rp_leases := rp_leases s4 @ [?new]\<rparr>"
    using c by (auto simp: select_commit_def p b Let_def sd bp ic simp flip: sn_def)
  have sc: "same_cells s s3"
    using buildSnapshot_same [OF b] selectDecision_same [OF sd] begin_prediction_same [OF bp] by (metis same_cells_trans)
  have s3: "cells_ok s3" "owned s \<Longrightarrow> owned s3" "mapped s \<Longrightarrow> mapped s3" "rp_leases s3 = rp_leases s"
    using same_cells_inv [OF sc] sc ok by (simp_all add: same_cells_def)
  note s4 = inflightCounter_cells [OF ic s3(1)]
  note n = new_lease_cells [OF s4(1) _ _ eq(3)]
  show "cells_ok s'" and "owned s \<Longrightarrow> owned s'" and "mapped s \<Longrightarrow> mapped s'"
    using n s4 s3 by (simp_all add: holds_def)
  show "\<exists>new. rp_leases s' = rp_leases s @ [new] \<and> l = length (rp_leases s) \<and> \<not> ls_reserved new \<and> \<not> ls_done new
      \<and> ls_backend new = bID (dc_Backend d) \<and> map_of (rp_counters s') (ls_backend new) = Some (ls_counter new)"
    using eq s4 s3 by simp
qed

lemma select_reserve_cells:
  assumes ok: "cells_ok s" and l: "l < length (rp_leases s)" "\<not> ls_reserved (rp_leases s ! l)" "\<not> ls_done (rp_leases s ! l)"
  shows "cells_ok (select_reserve l s)" and "owned s \<Longrightarrow> owned (select_reserve l s)"
    and "mapped s \<Longrightarrow> map_of (rp_counters s) (ls_backend (rp_leases s ! l)) = Some (ls_counter (rp_leases s ! l))
      \<Longrightarrow> mapped (select_reserve l s)"
  using lease_update_cells [OF ok l(1) HOL.refl, of "(rp_leases s ! l)\<lparr>ls_reserved := True\<rparr>" 1 "select_reserve l s"] l
  by (simp_all add: select_reserve_def Let_def holds_def)

lemma release_count_cells:
  assumes ok: "cells_ok s" and l: "l < length (rp_leases s)" "ls_reserved (rp_leases s ! l)" "\<not> ls_done (rp_leases s ! l)"
  shows "cells_ok (release_count l s)" and "owned s \<Longrightarrow> owned (release_count l s)" and "mapped s \<Longrightarrow> mapped (release_count l s)"
  using lease_update_cells [OF ok l(1) HOL.refl, of "(rp_leases s ! l)\<lparr>ls_done := True\<rparr>" "- 1" "release_count l s"] l
  by (simp_all add: release_count_def Let_def holds_def)

lemma lease_note_cells:
  \<comment> \<open>an update of a lease that keeps its holding, its cell and its backend\<close>
  assumes ok: "cells_ok s" and l: "l < length (rp_leases s)"
    and n: "ls_counter new = ls_counter (rp_leases s ! l)" "ls_backend new = ls_backend (rp_leases s ! l)"
      "ls_reserved new = ls_reserved (rp_leases s ! l)" "ls_done new = ls_done (rp_leases s ! l)"
    and s': "same_cells (s\<lparr>rp_leases := (rp_leases s)[l := new]\<rparr>) s'"
  shows "cells_ok s'" and "owned s \<Longrightarrow> owned s'" and "mapped s \<Longrightarrow> mapped s'"
proof -
  let ?s = "s\<lparr>rp_leases := (rp_leases s)[l := new]\<rparr>"
  have eq: "?s = s\<lparr>rp_heap := (rp_heap s)[ls_counter (rp_leases s ! l) := rp_heap s ! ls_counter (rp_leases s ! l) + 0],
      rp_leases := (rp_leases s)[l := new]\<rparr>" by simp
  have h: "holds new = holds (rp_leases s ! l)" using n by (simp add: holds_def)
  have m: "mapped s \<Longrightarrow> holds new \<Longrightarrow> map_of (rp_counters s) (ls_backend new) = Some (ls_counter new)"
    using l n h by (simp add: mapped_def)
  note u = lease_update_cells [OF ok l HOL.refl n(1) n(2) _ eq]
  show "cells_ok s'" and "owned s \<Longrightarrow> owned s'" and "mapped s \<Longrightarrow> mapped s'"
    using u h m same_cells_inv [OF s'] by simp_all
qed

lemma observe_cells:
  assumes "cells_ok s" and "l < length (rp_leases s)"
  shows "cells_ok (snd (Lease_ObserveFirstToken now l ttft s))"
    and "owned s \<Longrightarrow> owned (snd (Lease_ObserveFirstToken now l ttft s))"
    and "mapped s \<Longrightarrow> mapped (snd (Lease_ObserveFirstToken now l ttft s))"
proof -
  let ?s = "snd (Lease_ObserveFirstToken now l ttft s)"
  have "\<exists>tk. same_cells (s\<lparr>rp_leases := (rp_leases s)[l := (rp_leases s ! l)\<lparr>ls_ticket := tk\<rparr>]\<rparr>) ?s"
  proof (cases "\<exists>tk t. ls_ticket (rp_leases s ! l) = Some tk \<and> rp_predictor s = Some t")
    case True
    then show ?thesis by (auto simp: Lease_ObserveFirstToken_def same_cells_def Let_def split: prod.splits)
  next
    case False
    then have "?s = s" by (auto simp: Lease_ObserveFirstToken_def Let_def split: option.splits)
    moreover have "(rp_leases s ! l)\<lparr>ls_ticket := ls_ticket (rp_leases s ! l)\<rparr> = rp_leases s ! l" by simp
    ultimately show ?thesis by (intro exI [of _ "ls_ticket (rp_leases s ! l)"]) (simp add: same_cells_def)
  qed
  then obtain tk where "same_cells (s\<lparr>rp_leases := (rp_leases s)[l := (rp_leases s ! l)\<lparr>ls_ticket := tk\<rparr>]\<rparr>) ?s" ..
  note n = lease_note_cells [OF assms _ _ _ _ this]
  show "cells_ok ?s" and "owned s \<Longrightarrow> owned ?s" and "mapped s \<Longrightarrow> mapped ?s" using n by simp_all
qed

lemma path_state_cells:
  assumes "cells_ok s"
  shows "cells_ok (snd (path_state v resolved s))" and "owned s \<Longrightarrow> owned (snd (path_state v resolved s))"
    and "mapped s \<Longrightarrow> mapped (snd (path_state v resolved s))"
proof -
  have eq: "snd (path_state v resolved s) = (case resolved of None \<Rightarrow> s
      | Some bs \<Rightarrow> snd (snd (buildSnapshot v bs (reconcileBackends bs s))))"
    by (simp add: path_state_def split: option.splits prod.splits)
  show "cells_ok (snd (path_state v resolved s))" and "owned s \<Longrightarrow> owned (snd (path_state v resolved s))"
    and "mapped s \<Longrightarrow> mapped (snd (path_state v resolved s))"
    unfolding eq using assms reconcileBackends_cells [OF assms] buildSnapshot_cells [OF reconcileBackends_cells(1) [OF assms]]
    by (simp_all split: option.splits)
qed

lemma path_step_cells:
  assumes "path_step s s'" and "cells_ok s"
  shows "cells_ok s' \<and> (owned s \<longrightarrow> owned s')"
  using assms
proof cases
  case (step_commit u clk now v key prepared)
  then show ?thesis
    using select_commit_cells(1,2) [OF _ assms(2), of u clk now v key prepared]
    by (cases "select_commit u clk now v key prepared s") auto
next
  case (step_settle t1 t2 b o')
  then show ?thesis using same_cells_inv [OF settle_circuit_same, of t1 t2 b o' s] assms(2) by (metis prod.collapse)
next
  case (step_forget b ref)
  then show ?thesis using release_forget_cells(1,2) [OF assms(2), of b ref "fst (release_forget b ref s)"] by simp
next
  case (step_result l cp)
  have "same_cells s' s'" by (simp add: same_cells_def)
  then show ?thesis
    using lease_note_cells(1,2) [OF assms(2) step_result(2), of "(rp_leases s ! l)\<lparr>ls_result := cp\<rparr>" s'] step_result(1) by simp
qed (use assms(2) in \<open>auto intro: select_prepare_cells select_reserve_cells release_count_cells observe_cells
   reconcileBackends_cells path_state_cells\<close>)

inductive path_reach :: "path_service \<Rightarrow> bool" where
  reach_new: "path_New url_parse config has_resolver kv_complete strategy circuits predictor estimator = Inr s \<Longrightarrow> path_reach s"
| reach_step: "path_reach s \<Longrightarrow> path_step s s' \<Longrightarrow> path_reach s'"

lemma path_New_cells:
  "path_New u c r k st br p e = Inr s \<Longrightarrow> cells_ok s \<and> owned s \<and> mapped s \<and> rp_leases s = []"
  by (auto simp: path_New_def cells_ok_def owned_def mapped_def held_def gomap_ok_def split: option.splits if_splits)

lemma path_reach_cells: "path_reach s \<Longrightarrow> cells_ok s \<and> owned s"
  by (induction rule: path_reach.induct) (use path_New_cells path_step_cells in blast)+

lemma inflight_lookup:
  "mget 0 (inflightSnapshot s) b = (case map_of (rp_counters s) b of None \<Rightarrow> 0 | Some ref \<Rightarrow> rp_heap s ! ref)"
  by (cases "map_of (rp_counters s) b") (simp_all add: inflightSnapshot_def mget_def map_of_map)

lemma held_le_backend: "owned s \<Longrightarrow> map_of (rp_counters s) b = Some ref \<Longrightarrow> held s ref \<le> held_backend s b"
proof -
  assume "owned s" "map_of (rp_counters s) b = Some ref"
  then have "filter (\<lambda>l. holds l \<and> ls_counter l = ref) (rp_leases s)
      = filter (\<lambda>l. ls_counter l = ref) (filter (\<lambda>l. holds l \<and> ls_backend l = b) (rp_leases s))"
    unfolding filter_filter by (intro filter_cong) (auto simp: owned_def)
  then show ?thesis unfolding held_def held_backend_def using length_filter_le by metis
qed

text \<open>
  C4. Under any interleaving of requests, completions and membership changes, the in-flight count that
  routing sees for a backend is never negative and never more than the backend's outstanding leases.
\<close>

theorem inflight_never_overcounts:
  assumes "path_reach s"
  shows "0 \<le> mget 0 (inflightSnapshot s) b \<and> mget 0 (inflightSnapshot s) b \<le> int (held_backend s b)"
proof -
  have ok: "cells_ok s" "owned s" using path_reach_cells [OF assms] by auto
  show ?thesis
  proof (cases "map_of (rp_counters s) b")
    case (Some ref)
    then have "rp_heap s ! ref = int (held s ref)" using ok by (simp add: cells_ok_def)
    then show ?thesis using held_le_backend [OF ok(2) Some] by (simp add: inflight_lookup Some)
  qed (simp add: inflight_lookup)
qed

subsection \<open>Serial runs\<close>

definition serial_ok :: "path_service \<Rightarrow> bool" where
  "serial_ok s \<longleftrightarrow> cells_ok s \<and> owned s \<and> mapped s \<and> (\<forall>l\<in>set (rp_leases s). ls_reserved l)"

lemma serial_exact:
  assumes "serial_ok s"
  shows "mget 0 (inflightSnapshot s) b = int (held_backend s b)"
proof (cases "map_of (rp_counters s) b")
  case None
  then have "held_backend s b = 0" using assms by (auto simp: serial_ok_def mapped_def held_backend_def filter_empty_conv)
  then show ?thesis by (simp add: inflight_lookup None)
next
  case (Some ref)
  have "filter (\<lambda>l. holds l \<and> ls_counter l = ref) (rp_leases s) = filter (\<lambda>l. holds l \<and> ls_backend l = b) (rp_leases s)"
  proof (rule filter_cong [OF HOL.refl])
    fix l assume l: "l \<in> set (rp_leases s)"
    have "ls_counter l = ref \<Longrightarrow> ls_backend l = b" using assms Some l unfolding serial_ok_def owned_def by blast
    moreover have "holds l \<Longrightarrow> ls_backend l = b \<Longrightarrow> ls_counter l = ref" using assms Some l by (auto simp: serial_ok_def mapped_def)
    ultimately show "(holds l \<and> ls_counter l = ref) = (holds l \<and> ls_backend l = b)" by blast
  qed
  then show ?thesis using assms Some by (simp add: inflight_lookup serial_ok_def cells_ok_def held_def held_backend_def)
qed

lemma buildSnapshot_leases: "rp_leases (snd (snd (buildSnapshot v bs s))) = rp_leases s"
  by (simp add: buildSnapshot_def Let_def split: prod.splits)

lemma reconcileBackends_leases: "rp_leases (reconcileBackends bs s) = rp_leases s"
  by (simp add: reconcileBackends_def recycle_counters_def Let_def)

lemma select_prepare_leases: "rp_leases (snd (select_prepare v ops resolved rq s)) = rp_leases s"
  by (simp add: select_prepare_state buildSnapshot_leases reconcileBackends_leases split: option.splits)

lemma path_Select_serial:
  assumes s: "serial_ok s" and sel: "path_Select u clk now v v2 ops resolved rq s = (r, s')"
  shows "serial_ok s'"
proof -
  obtain p s1 where p: "select_prepare v ops resolved rq s = (p, s1)" by (cases "select_prepare v ops resolved rq s")
  have s1: "serial_ok s1"
    using s select_prepare_cells [of s v ops resolved rq] select_prepare_leases [of v ops resolved rq s] p
    by (simp add: serial_ok_def)
  show ?thesis
  proof (cases p)
    case (Inl e)
    then show ?thesis using sel s1 by (simp add: path_Select_def p)
  next
    case (Inr prepared)
    obtain x s2 where x: "select_commit u clk now v2 (rq_RoutingKey rq) prepared s1 = (x, s2)"
      by (cases "select_commit u clk now v2 (rq_RoutingKey rq) prepared s1")
    obtain d st l where c: "select_commit u clk now v2 (rq_RoutingKey rq) prepared s1 = ((d, st, l), s2)"
      using x by (cases x) auto
    have s': "s' = select_reserve l s2" using sel by (simp add: path_Select_def p Inr c)
    have ok1: "cells_ok s1" "owned s1" "mapped s1" using s1 by (simp_all add: serial_ok_def)
    note cc = select_commit_cells [OF c ok1(1)]
    obtain new where n: "rp_leases s2 = rp_leases s1 @ [new]" "l = length (rp_leases s1)" "\<not> ls_reserved new" "\<not> ls_done new"
      "map_of (rp_counters s2) (ls_backend new) = Some (ls_counter new)" using cc(4) by auto
    then have "l < length (rp_leases s2)" and at: "rp_leases s2 ! l = new" by simp_all
    note r = select_reserve_cells [OF cc(1) this(1), unfolded at, OF n(3,4)]
    have "cells_ok s'" "owned s'" "mapped s'" using r cc ok1 n(5) by (simp_all add: s')
    moreover have "\<forall>l\<in>set (rp_leases s'). ls_reserved l"
      using s1 n by (auto simp: s' select_reserve_def Let_def serial_ok_def)
    ultimately show ?thesis by (simp add: serial_ok_def)
  qed
qed

lemma Lease_Complete_steps:
  \<comment> \<open>\<open>Complete\<close> is the sequence of its atomic parts\<close>
  assumes "l < length (rp_leases s)" and "\<not> ls_done (rp_leases s ! l)" and "Lease_Complete t1 t2 l out s = (cp, s')"
    and ok: "ls_counter (rp_leases s ! l) < length (rp_heap s)"
  obtains s1 s2 s3 where "same_cells s s1" and "s2 = release_count l s1"
    and "s3 = s2 \<or> rp_heap s2 ! ls_counter (rp_leases s ! l) = 0 \<and>
      s3 = snd (release_forget (ls_backend (rp_leases s ! l)) (ls_counter (rp_leases s ! l)) s2)"
    and "s' = s3\<lparr>rp_leases := (rp_leases s3)[l := (rp_leases s3 ! l)\<lparr>ls_result := cp\<rparr>]\<rparr>"
    and "s1 = snd (settle_circuit t1 t2 (ls_backend (rp_leases s ! l)) out s)"
proof -
  let ?l = "rp_leases s ! l"
  obtain c0 s1 where sc: "settle_circuit t1 t2 (ls_backend ?l) out s = (c0, s1)" by (cases "settle_circuit t1 t2 (ls_backend ?l) out s")
  have same: "same_cells s s1" by (rule settle_circuit_same [OF sc])
  then have lv: "rp_leases s1 = rp_leases s" and hp: "rp_heap s1 = rp_heap s" by (simp_all add: same_cells_def)
  let ?s2 = "release_count l s1"
  let ?z = "rp_heap s1 ! ls_counter ?l - 1 \<noteq> 0"
  let ?s3 = "if ?z then ?s2 else snd (release_forget (ls_backend ?l) (ls_counter ?l) ?s2)"
  have cp: "s' = ?s3\<lparr>rp_leases := (rp_leases ?s3)[l := (rp_leases ?s3 ! l)\<lparr>ls_result := cp\<rparr>]\<rparr>"
    using assms by (auto simp: Lease_Complete_def Let_def path_complete_def sc releaseBackend_def release_forget_def
        release_count_def lv split: if_splits)
  show thesis
  proof (rule that [OF same HOL.refl _ cp])
    show "s1 = snd (settle_circuit t1 t2 (ls_backend ?l) out s)" by (simp add: sc)
  qed (use ok in \<open>simp add: release_count_def Let_def lv hp\<close>)
qed

lemma Lease_Complete_serial:
  assumes s: "serial_ok s" and l: "l < length (rp_leases s)" and c: "Lease_Complete t1 t2 l out s = (cp, s')"
  shows "serial_ok s'"
proof (cases "ls_done (rp_leases s ! l)")
  case True
  then show ?thesis using s c by (simp add: Lease_Complete_def Let_def)
next
  case False
  let ?l = "rp_leases s ! l"
  have i: "cells_ok s" "owned s" "mapped s" "ls_reserved ?l" using s l by (simp_all add: serial_ok_def)
  have ref: "ls_counter ?l < length (rp_heap s)" using i(1) l by (simp add: cells_ok_def)
  obtain s1 s2 s3 where p: "same_cells s s1" "s2 = release_count l s1"
    "s3 = s2 \<or> rp_heap s2 ! ls_counter ?l = 0 \<and> s3 = snd (release_forget (ls_backend ?l) (ls_counter ?l) s2)"
    "s' = s3\<lparr>rp_leases := (rp_leases s3)[l := (rp_leases s3 ! l)\<lparr>ls_result := cp\<rparr>]\<rparr>"
    by (rule Lease_Complete_steps [OF l False c ref])
  have i1: "cells_ok s1" "owned s1" "mapped s1" "rp_leases s1 = rp_leases s"
    using same_cells_inv [OF p(1)] i p(1) by (simp_all add: same_cells_def)
  have i2: "cells_ok s2" "owned s2" "mapped s2"
    using release_count_cells [OF i1(1), of l] i1 i l False by (simp_all add: p(2))
  have lv: "rp_leases s2 = (rp_leases s)[l := ?l\<lparr>ls_done := True\<rparr>]" by (simp add: p(2) release_count_def Let_def i1)
  have rs: "\<forall>x\<in>set (rp_leases s2). ls_reserved x"
    using s i(4) set_update_subset_insert [of "rp_leases s" l "?l\<lparr>ls_done := True\<rparr>"] by (auto simp: lv serial_ok_def)
  have i3: "cells_ok s3" "owned s3" "mapped s3" "rp_leases s3 = rp_leases s2"
  proof -
    have "cells_ok s3 \<and> owned s3 \<and> mapped s3 \<and> rp_leases s3 = rp_leases s2"
    proof (cases "s3 = s2")
      case False
      then have z: "rp_heap s2 ! ls_counter ?l = 0" and f: "s3 = snd (release_forget (ls_backend ?l) (ls_counter ?l) s2)"
        using p(3) by auto
      have "ls_counter ?l < length (rp_heap s2)" using ref p(1) by (simp add: p(2) release_count_def Let_def same_cells_def)
      then have "held s2 (ls_counter ?l) = 0" using i2(1) z by (simp add: cells_ok_def)
      moreover have "rp_leases s3 = rp_leases s2" by (simp add: f release_forget_def)
      ultimately show ?thesis using release_forget_cells [OF i2(1), of "ls_backend ?l" "ls_counter ?l" _ s3] i2 f
        by (metis prod.collapse)
    qed (simp add: i2)
    then show "cells_ok s3" "owned s3" "mapped s3" "rp_leases s3 = rp_leases s2" by auto
  qed
  have l3: "l < length (rp_leases s3)" using l by (simp add: i3 lv)
  have "same_cells s' s'" by (simp add: same_cells_def)
  then have "cells_ok s' \<and> owned s' \<and> mapped s'"
    using lease_note_cells [OF i3(1) l3, of "(rp_leases s3 ! l)\<lparr>ls_result := cp\<rparr>" s'] i3 by (simp add: p(4))
  moreover have "\<forall>x\<in>set (rp_leases s'). ls_reserved x"
    using rs l3 nth_mem [OF l3] set_update_subset_insert [of "rp_leases s3" l "(rp_leases s3 ! l)\<lparr>ls_result := cp\<rparr>"]
    by (auto simp: p(4) i3)
  ultimately show ?thesis by (simp add: serial_ok_def)
qed

inductive path_serial :: "path_service \<Rightarrow> bool" where
  serial_new: "path_New url_parse config has_resolver kv_complete strategy circuits predictor estimator = Inr s \<Longrightarrow> path_serial s"
| serial_select: "path_serial s \<Longrightarrow> path_Select url_parse clk now v v2 ops resolved request s = (r, s') \<Longrightarrow> path_serial s'"
| serial_complete: "path_serial s \<Longrightarrow> l < length (rp_leases s) \<Longrightarrow> Lease_Complete t_record t_open l outcome s = (cp, s')
    \<Longrightarrow> path_serial s'"
| serial_observe: "path_serial s \<Longrightarrow> l < length (rp_leases s) \<Longrightarrow> Lease_ObserveFirstToken now l ttft s = (ob, s') \<Longrightarrow> path_serial s'"
| serial_reconcile: "path_serial s \<Longrightarrow> path_serial (reconcileBackends backends s)"
| serial_state: "path_serial s \<Longrightarrow> path_state v resolved s = (st, s') \<Longrightarrow> path_serial s'"

lemma observe_serial:
  assumes "serial_ok s" and "l < length (rp_leases s)" and o: "Lease_ObserveFirstToken now l ttft s = (ob, s')"
  shows "serial_ok s'"
proof -
  have "\<forall>x\<in>set (rp_leases s'). ls_reserved x"
    using o assms(1) nth_mem [OF assms(2)] set_update_subset_insert [of "rp_leases s" l]
    by (fastforce simp: Lease_ObserveFirstToken_def serial_ok_def Let_def split: option.splits prod.splits)
  then show ?thesis using observe_cells [of s l now ttft] assms by (simp add: serial_ok_def)
qed

lemma path_serial_ok: "path_serial s \<Longrightarrow> serial_ok s"
proof (induction rule: path_serial.induct)
  case (serial_new u c r k st br p e s)
  then show ?case using path_New_cells [OF serial_new] by (simp add: serial_ok_def)
next
  case (serial_reconcile s backends)
  then show ?case using reconcileBackends_cells [of s backends] by (simp add: serial_ok_def reconcileBackends_leases)
next
  case (serial_state s v resolved st s')
  then have "rp_leases s' = rp_leases s"
    by (auto simp: path_state_def reconcileBackends_leases dest: arg_cong [where f = "\<lambda>x. rp_leases (snd (snd x))"]
        simp: buildSnapshot_leases split: option.splits prod.splits)
  then show ?case using path_state_cells [of s v resolved] serial_state by (simp add: serial_ok_def)
next
  case serial_select
  then show ?case by (blast intro: path_Select_serial)
next
  case serial_complete
  then show ?case by (blast intro: Lease_Complete_serial)
next
  case serial_observe
  then show ?case by (blast intro: observe_serial)
qed

text \<open>
  C5. When calls do not overlap, the in-flight count that routing sees for a backend is exactly the
  number of its leases that are not yet completed, whatever the membership changes in between and
  whether or not the backend is still a member.
\<close>

theorem serial_inflight_exact:
  assumes "path_serial s"
  shows "mget 0 (inflightSnapshot s) b = int (held_backend s b)"
  by (rule serial_exact [OF path_serial_ok [OF assms]])

subsection \<open>A concrete run\<close>

definition wit_http :: url_parser where
  "wit_http u = (if take 7 u = ''http://'' then Some (''http'', drop 7 u) else None)"

definition wit_path_config :: path_Config where
  "wit_path_config = \<lparr>rpc_Service = \<lparr>bID = ''svc'', bURL = ''http://svc:80'', bMetadata = []\<rparr>, rpc_RequireFreshDiscovery = False,
     rpc_DiscoveryMaxAge = 0, rpc_ReconcileInterval = 1, rpc_HardQueueDepth = 0, rpc_HardLocalInflight = 0,
     rpc_ShortPromptTokens = 0, rpc_CPUHardLimit = Fin 0, rpc_MemoryHardLimit = Fin 0, rpc_GPUUtilizationHardLimit = Fin 0,
     rpc_GPUMemoryHardLimit = Fin 0, rpc_GPUTemperatureHardLimit = Fin 0\<rparr>"

definition wit_path :: path_service where
  "wit_path = \<lparr>rp_config = wit_path_config, rp_strategy = StLoadBalanced, rp_circuits = wit_breaker, rp_predictor = None,
     rp_estimator = None, rp_active = {''svc''}, rp_counters = [(''svc'', 0)], rp_heap = [0], rp_leases = [], rp_removed = []\<rparr>"

lemma wit_path_New: "path_New wit_http wit_path_config True False StLoadBalanced wit_breaker None None = Inr wit_path"
  by (simp add: path_New_def path_Config_Validate_def wit_path_config_def wit_path_def Backend_Validate_def wit_http_def
      dependencies_Validate_def ModeKVAware_def ModeLoadBalanced_def)

definition wit_view :: path_view where
  "wit_view = \<lparr>pv_status = \<lparr>rs_Status = DiscoveryOK, rs_LastSuccess = 1, rs_LastError = [], rs_Freshness = 0,
     rs_ReadyBackends = 1, rs_ResourceVersion = []\<rparr>, pv_observations = None, pv_kvState = None, pv_now = (\<lambda>_. 1)\<rparr>"

definition wit_ops :: kv_ops where
  "wit_ops = \<lparr>kv_tokenize = (\<lambda>_. Inl (PlainError False)), kv_reconcile = (\<lambda>_. None), kv_lookup = (\<lambda>_. Inl (PlainError False)),
     kv_ctxDone = False\<rparr>"

definition wit_request :: path_Request where
  "wit_request = \<lparr>rq_RoutingKey = ''k'', rq_Route = ''/v1/completions'', rq_Body = []\<rparr>"


lemmas wit_path_defs = wit_path_def wit_path_config_def wit_view_def wit_breaker_def wit_b1_def

lemma wit_reconcile: "reconcileBackends [wit_b1] wit_path = wit_path\<lparr>rp_active := {''svc'', ''a''}\<rparr>"
  by (simp add: reconcileBackends_def recycle_counters_def wit_path_defs circuit_Reconcile_def mkeep_def Let_def)

definition wit_sn :: Snapshot where
  "wit_sn = \<lparr>sn_Backends = [wit_b1], sn_Inflight = [(''svc'', 0)], sn_Observations = [], sn_Ineligible = [], sn_Loads = [],
     sn_KVAware = no_KVAwareInput, sn_Estimates = []\<rparr>"

lemma wit_loads: "routingLoads [wit_b1] [] [(''svc'', 0)] wit_path_config = []"
proof -
  have "routing_load [] [(''svc'', 0)] wit_path_config ''a'' = zero_Load"
    by (simp add: routing_load_def mget_def nonNegativeCount_def zero_Observed_def runtimeHardOverloaded_def sampleAtOrAbove_def
        hardOverloaded_def zero_Load_def wit_path_config_def Let_def zero_Sample_def)
  then show ?thesis by (simp add: routingLoads_def wit_b1_def mhas_def zero_Load_def)
qed

lemma wit_probe: "probe_circuits (\<lambda>_. 1) [wit_b1] wit_breaker [] [] = (wit_breaker, [(''a'', False)], [])"
  by (simp add: IsOpen_def wit_breaker_def wit_b1_def)

lemma wit_built:
  "\<exists>st. buildSnapshot wit_view [wit_b1] (wit_path\<lparr>rp_active := a\<rparr>) = (st, wit_sn, wit_path\<lparr>rp_active := a\<rparr>)"
  unfolding buildSnapshot_def
  by (simp add: wit_loads wit_probe wit_sn_def no_KVAwareInput_def activeObservations_def inflightSnapshot_def wit_path_def
      wit_view_def Let_def del: probe_circuits.simps)

lemma wit_decision:
  "selectDecision wit_http (wit_clock 1) ''k'' wit_sn status KVNotRequested (wit_path\<lparr>rp_active := a\<rparr>)
     = (plain_decision wit_b1 ReasonLoadBalanced PolicyLoadBalancedV1, wit_path\<lparr>rp_active := a\<rparr>)"
proof -
  have "EligibleBackends wit_sn = [wit_b1]" by (simp add: EligibleBackends_def wit_sn_def mhas_def)
  moreover from this have "loadBalancedBackends wit_sn = [wit_b1]"
    by (simp add: loadBalancedBackends_def wit_sn_def mget_def zero_Load_def)
  then have "load_balanced_Select ''k'' wit_sn = Inr (plain_decision wit_b1 ReasonLoadBalanced PolicyLoadBalancedV1)"
    by (simp add: load_balanced_Select_def Let_def scan_def)
  ultimately show ?thesis
    by (simp add: selectDecision_def wit_path_def wit_path_config_def directRoutingEligible_def ModeKVAware_def ModeLoadBalanced_def
        plain_decision_def Decision_Validate_def Backend_Validate_def wit_http_def wit_b1_def Let_def)
qed

definition wit_leased :: path_service where
  \<comment> \<open>the counter of the selected backend has been looked up, not yet incremented\<close>
  "wit_leased = wit_path\<lparr>rp_active := {''svc'', ''a''}, rp_counters := [(''svc'', 0), (''a'', 1)], rp_heap := [0, 0],
     rp_leases := [\<lparr>ls_backend = ''a'', ls_counter = 1, ls_reserved = False, ls_ticket = None, ls_done = False,
       ls_result = zero_Completion\<rparr>]\<rparr>"

lemma wit_commit:
  "\<exists>d st. select_commit wit_http (wit_clock 1) 1 wit_view ''k'' ([wit_b1], no_KVAwareInput, KVNotRequested)
     (wit_path\<lparr>rp_active := {''svc'', ''a''}\<rparr>) = ((d, st, 0), wit_leased)"
proof -
  let ?s = "wit_path\<lparr>rp_active := {''svc'', ''a''}\<rparr>"
  obtain st where b: "buildSnapshot wit_view [wit_b1] ?s = (st, wit_sn, ?s)" using wit_built by blast
  have sn: "commit_snapshot no_KVAwareInput KVNotRequested ?s wit_sn = wit_sn"
    by (simp add: commit_snapshot_def wit_path_def wit_sn_def)
  have "begin_prediction 1 wit_sn no_KVAwareInput KVNotRequested d st' ?s = (None, st', ?s)" for d st'
    by (simp add: begin_prediction_def wit_path_def)
  then show ?thesis
    by (simp add: select_commit_def b sn wit_decision Let_def)
      (simp add: inflightCounter_def wit_leased_def wit_path_def plain_decision_def wit_b1_def)
qed

lemma wit_prepare:
  "select_prepare wit_view wit_ops (Some [wit_b1]) wit_request wit_path =
     (Inr ([wit_b1], no_KVAwareInput, KVNotRequested), wit_path\<lparr>rp_active := {''svc'', ''a''}\<rparr>)"
proof -
  obtain st where "buildSnapshot wit_view [wit_b1] (wit_path\<lparr>rp_active := {''svc'', ''a''}\<rparr>)
      = (st, wit_sn, wit_path\<lparr>rp_active := {''svc'', ''a''}\<rparr>)" using wit_built by blast
  then show ?thesis
    by (simp add: select_prepare_def wit_reconcile)
      (simp add: buildKVAwareInput_def wit_path_def ModeKVAware_def ModeLoadBalanced_def)
qed

definition wit_selected :: path_service where
  "wit_selected = select_reserve 0 wit_leased"

lemma wit_select:
  "\<exists>r. path_Select wit_http (wit_clock 1) 1 wit_view wit_view wit_ops (Some [wit_b1]) wit_request wit_path = (Inr r, wit_selected)"
proof -
  obtain d st where "select_commit wit_http (wit_clock 1) 1 wit_view ''k'' ([wit_b1], no_KVAwareInput, KVNotRequested)
     (wit_path\<lparr>rp_active := {''svc'', ''a''}\<rparr>) = ((d, st, 0), wit_leased)" using wit_commit by blast
  moreover have "rq_RoutingKey wit_request = ''k''" by (simp add: wit_request_def)
  ultimately show ?thesis by (simp add: path_Select_def wit_prepare wit_selected_def)
qed

lemma wit_selected_cells: "inflightSnapshot wit_selected = [(''svc'', 0), (''a'', 1)]" "held_backend wit_selected ''a'' = 1"
  by (simp_all add: wit_selected_def select_reserve_def wit_leased_def wit_path_def inflightSnapshot_def held_backend_def
      holds_def Let_def)

lemma wit_reach_leased: "path_reach wit_leased"
proof -
  have "path_reach wit_path" by (rule reach_new [OF wit_path_New])
  then have "path_reach (wit_path\<lparr>rp_active := {''svc'', ''a''}\<rparr>)"
    using reach_step step_prepare [of wit_path wit_view wit_ops "Some [wit_b1]" wit_request] by (simp add: wit_prepare)
  moreover obtain d st where c: "select_commit wit_http (wit_clock 1) 1 wit_view ''k'' ([wit_b1], no_KVAwareInput, KVNotRequested)
     (wit_path\<lparr>rp_active := {''svc'', ''a''}\<rparr>) = ((d, st, 0), wit_leased)" using wit_commit by blast
  ultimately show ?thesis
    using reach_step step_commit [of "wit_path\<lparr>rp_active := {''svc'', ''a''}\<rparr>" wit_http "wit_clock 1" 1 wit_view "''k''"
        "([wit_b1], no_KVAwareInput, KVNotRequested)"] by (simp add: c)
qed

theorem inflight_never_overcounts_witness:
  "path_reach wit_selected \<and> 0 \<le> mget 0 (inflightSnapshot wit_selected) ''a''
     \<and> mget 0 (inflightSnapshot wit_selected) ''a'' \<le> int (held_backend wit_selected ''a'')"
proof -
  have "path_step wit_leased (select_reserve 0 wit_leased)"
    by (rule step_reserve) (simp_all add: wit_leased_def)
  then have "path_reach wit_selected" unfolding wit_selected_def by (rule reach_step [OF wit_reach_leased])
  then show ?thesis using inflight_never_overcounts [of wit_selected "''a''"] by blast
qed

theorem serial_inflight_exact_witness:
  "path_serial wit_selected \<and> mget 0 (inflightSnapshot wit_selected) ''a'' = 1"
proof -
  obtain r where "path_Select wit_http (wit_clock 1) 1 wit_view wit_view wit_ops (Some [wit_b1]) wit_request wit_path
      = (Inr r, wit_selected)" using wit_select by blast
  then have s: "path_serial wit_selected" by (rule serial_select [OF serial_new [OF wit_path_New]])
  show ?thesis using serial_inflight_exact [OF s, of "''a''"] s by (simp add: wit_selected_cells)
qed

text \<open>
  The exactness does not survive concurrency: a reconcile that runs after \<open>Select\<close> looked up the
  counter of a backend that leaves the membership, and before it increments it, deletes the counter,
  and the request then counts in a cell that no snapshot reads. The backend has an outstanding request
  and an in-flight count of zero.
\<close>

theorem reconcile_race_loses_request:
  "path_reach (select_reserve 0 (reconcileBackends [] wit_leased))
   \<and> held_backend (select_reserve 0 (reconcileBackends [] wit_leased)) ''a'' = 1
   \<and> mget 0 (inflightSnapshot (select_reserve 0 (reconcileBackends [] wit_leased))) ''a'' = 0"
proof -
  let ?s = "reconcileBackends [] wit_leased"
  have s: "rp_leases ?s = rp_leases wit_leased" "rp_heap ?s = [0, 0]" "rp_counters ?s = [(''svc'', 0)]"
    by (simp_all add: reconcileBackends_def recycle_counters_def wit_leased_def wit_path_def wit_path_config_def Let_def)
  have r: "path_reach ?s" by (rule reach_step [OF wit_reach_leased step_reconcile])
  have l: "rp_leases wit_leased = [\<lparr>ls_backend = ''a'', ls_counter = 1, ls_reserved = False, ls_ticket = None, ls_done = False,
       ls_result = zero_Completion\<rparr>]" by (simp add: wit_leased_def)
  have "path_step ?s (select_reserve 0 ?s)" by (rule step_reserve) (simp_all add: s l)
  then have "path_reach (select_reserve 0 ?s)" by (rule reach_step [OF r])
  then show ?thesis
    by (simp add: select_reserve_def Let_def s l held_backend_def holds_def inflightSnapshot_def mget_def)
qed

end
