(* ===== verification/Path_Decisions.thy ===== *)
theory Path_Decisions
  imports Path_Leases
begin

text \<open>
  What \<open>internal/serving/requestpath\<close> decides and how a lease settles: the backend of a decision, the
  causes of a failed \<open>Select\<close>, the idempotence of \<open>Complete\<close>, and the conversion of observed samples
  into load counts. The decision lemmas rest on the strategy interface of \<open>Session_Key\<close>.
\<close>

subsection \<open>Decisions\<close>

lemma probe_blocked:
  assumes "probe_circuits now bs br om bl = (br', om', bl')"
    and "\<And>b. map_of om b = Some True \<Longrightarrow> mhas bl b"
  shows "map_of om' b = Some True \<Longrightarrow> mhas bl' b"
  using assms
proof (induction now bs br om bl rule: probe_circuits.induct)
  case (2 now x bs br om bl)
  obtain io br1 where io: "IsOpen (now (bID x)) br (bID x) = (io, br1)" by (cases "IsOpen (now (bID x)) br (bID x)")
  show ?case
  proof (rule "2.IH" [OF io [symmetric] "2.prems"(1)])
    show "probe_circuits now bs br1 (AList.update (bID x) io om)
        (if io then AList.update (bID x) ReasonCircuitOpen bl else bl) = (br', om', bl')"
      using "2.prems"(2) by (simp add: io)
    show "mhas (if io then AList.update (bID x) ReasonCircuitOpen bl else bl) b"
      if "map_of (AList.update (bID x) io om) b = Some True" for b
      using that "2.prems"(3) [of b] by (auto simp: mhas_def update_conv' split: if_splits)
  qed
qed simp

lemma buildSnapshot_fields:
  assumes "buildSnapshot v bs s = (st, sn, s')"
  shows "sn_Backends sn = bs" and "ps_Discovery st = pv_status v" and "rp_config s' = rp_config s"
    and "rp_strategy s' = rp_strategy s"
    and "map_of (ps_CircuitOpen st) b = Some True \<Longrightarrow> mhas (sn_Ineligible sn) b"
  using assms probe_blocked [of "pv_now v" bs "rp_circuits s" "[]" "[]"]
  by (auto simp: buildSnapshot_def Let_def split: prod.splits)

lemma commit_snapshot_fields [simp]:
  "sn_Backends (commit_snapshot ki kv s sn) = sn_Backends sn" "sn_Ineligible (commit_snapshot ki kv s sn) = sn_Ineligible sn"
  by (simp_all add: commit_snapshot_def Let_def split: option.splits)

lemma commit_state_fields [simp]:
  "ps_CircuitOpen (commit_state ki kv sn b st) = ps_CircuitOpen st" "ps_Discovery (commit_state ki kv sn b st) = ps_Discovery st"
  by (simp_all add: commit_state_def)

lemma begin_prediction_fields:
  "begin_prediction now sn ki kv d st s = (ticket, st', s') \<Longrightarrow> ps_CircuitOpen st' = ps_CircuitOpen st"
  by (auto simp: begin_prediction_def split: option.splits if_splits prod.splits)

lemma kvAwareLoadFallback_member:
  assumes "kvAwareLoadFallback c key sn r short = d"
  shows "d = path_fallback c ReasonStrategyFallback \<or> dc_Backend d \<in> set (EligibleBackends sn) \<and> dc_Reason d = r"
  using assms load_aware_member [of key sn] loadBalancedBackends_subset [of sn]
  by (auto simp: kvAwareLoadFallback_def split: sum.splits if_splits)

lemma selectDecision_sound:
  assumes "selectDecision u clk key sn status kv s = (d, s')" and len: "length (sn_Backends sn) < 9223372036854775808"
  shows "dc_Backend d = rpc_Service (rp_config s) \<and> dc_Policy d = PolicyServiceFallbackV1
     \<or> directRoutingEligible (rp_config s) status \<and> dc_Backend d \<in> set (EligibleBackends sn)"
proof -
  let ?fb = "\<lambda>r. path_fallback (rp_config s) r"
  have fb: "dc_Backend (?fb r) = rpc_Service (rp_config s)" "dc_Policy (?fb r) = PolicyServiceFallbackV1" for r
    by (simp_all add: path_fallback_def plain_decision_def)
  have el: "fst (Strategy_Select clk (rp_strategy s) key sn) = Inr d' \<Longrightarrow> dc_Backend d' \<in> set (EligibleBackends sn)" for d'
    by (rule strategies.select_eligible [OF len])
  have kv: "dc_Backend (kvAwareLoadFallback (rp_config s) key sn r sh) = rpc_Service (rp_config s)
        \<and> dc_Policy (kvAwareLoadFallback (rp_config s) key sn r sh) = PolicyServiceFallbackV1
      \<or> dc_Backend (kvAwareLoadFallback (rp_config s) key sn r sh) \<in> set (EligibleBackends sn)" for r sh
    using kvAwareLoadFallback_member [of "rp_config s" key sn r sh] fb by metis
  show ?thesis
    using assms(1) kv fb el unfolding selectDecision_def
    by (auto simp: Let_def split: if_splits prod.splits sum.splits)
qed

lemma select_commit_sound:
  assumes c: "select_commit u clk now v key (bs, ki, kv) s = ((d, st, l), s')" and len: "length bs < 9223372036854775808"
  shows "dc_Backend d = rpc_Service (rp_config s) \<and> dc_Policy d = PolicyServiceFallbackV1
     \<or> directRoutingEligible (rp_config s) (pv_status v) \<and> dc_Backend d \<in> set bs
       \<and> \<not> mget False (ps_CircuitOpen st) (bID (dc_Backend d))"
proof -
  obtain st0 sn0 s1 where b: "buildSnapshot v bs s = (st0, sn0, s1)" by (cases "buildSnapshot v bs s") auto
  let ?sn = "commit_snapshot ki kv s1 sn0"
  obtain d' s2 where sd: "selectDecision u clk key ?sn (ps_Discovery st0) kv s1 = (d', s2)"
    by (cases "selectDecision u clk key ?sn (ps_Discovery st0) kv s1") auto
  let ?st = "commit_state ki kv ?sn (bID (dc_Backend d')) st0"
  obtain tk st2 s3 where bp: "begin_prediction now ?sn ki kv d' ?st s2 = (tk, st2, s3)"
    by (cases "begin_prediction now ?sn ki kv d' ?st s2") auto
  have eq: "d' = d" "st2 = st" using c by (auto simp: select_commit_def b Let_def sd bp split: prod.splits)
  note f = buildSnapshot_fields [OF b]
  have open_map: "ps_CircuitOpen st = ps_CircuitOpen st0" using begin_prediction_fields [OF bp] eq by simp
  have "dc_Backend d \<in> set (EligibleBackends ?sn) \<Longrightarrow> dc_Backend d \<in> set bs \<and> \<not> mget False (ps_CircuitOpen st) (bID (dc_Backend d))"
    using f(5) [of "bID (dc_Backend d)"] by (auto simp: mem_EligibleBackends f(1) open_map mget_def split: option.splits)
  then show ?thesis using selectDecision_sound [OF sd] len f eq by auto
qed

lemma path_Select_parts:
  assumes "path_Select u clk now v v2 ops resolved rq s = (Inr (d, st, l), s')"
  obtains bs ki kv s1 s2 where "select_prepare v ops resolved rq s = (Inr (bs, ki, kv), s1)"
    and "select_commit u clk now v2 (rq_RoutingKey rq) (bs, ki, kv) s1 = ((d, st, l), s2)" and "s' = select_reserve l s2"
proof -
  obtain p s1 where p: "select_prepare v ops resolved rq s = (p, s1)" by (cases "select_prepare v ops resolved rq s")
  obtain bs ki kv where q: "p = Inr (bs, ki, kv)" using assms by (cases p) (auto simp: path_Select_def p)
  obtain x s2 where x: "select_commit u clk now v2 (rq_RoutingKey rq) (bs, ki, kv) s1 = (x, s2)"
    by (cases "select_commit u clk now v2 (rq_RoutingKey rq) (bs, ki, kv) s1")
  have "x = (d, st, l)" "s' = select_reserve l s2" using assms by (cases x; simp add: path_Select_def p q x)+
  then show thesis using that p q x by blast
qed

lemma reconcileBackends_config [simp]:
  "rp_config (reconcileBackends bs s) = rp_config s"
  by (simp add: reconcileBackends_def recycle_counters_def Let_def)

lemma select_prepare_backends:
  assumes "select_prepare v ops resolved rq s = (Inr (bs, ki, kv), s1)"
  shows "bs = (case resolved of Some bs \<Rightarrow> bs | None \<Rightarrow> [])" and "rp_config s1 = rp_config s"
  using assms by (auto simp: select_prepare_def dest!: buildSnapshot_fields(3) split: option.splits prod.splits)

text \<open>
  C3. The decision of a successful \<open>Select\<close> is the configured service or a backend that this discovery
  snapshot lists, whose circuit the returned state reports as not open, and the latter only while the
  discovery status allows direct routing.
\<close>

theorem path_decision_sound:
  assumes "path_Select url_parse clk now v v2 ops resolved request s = (Inr (d, state, l), s')"
    and "\<forall>bs. resolved = Some bs \<longrightarrow> length bs < 9223372036854775808"
  shows "dc_Backend d = rpc_Service (rp_config s) \<and> dc_Policy d = PolicyServiceFallbackV1
     \<or> (\<exists>bs. resolved = Some bs \<and> dc_Backend d \<in> set bs) \<and> \<not> mget False (ps_CircuitOpen state) (bID (dc_Backend d))
       \<and> directRoutingEligible (rp_config s) (pv_status v2)"
proof -
  obtain bs ki kv s1 s2 where p: "select_prepare v ops resolved request s = (Inr (bs, ki, kv), s1)"
    and c: "select_commit url_parse clk now v2 (rq_RoutingKey request) (bs, ki, kv) s1 = ((d, state, l), s2)"
    by (rule path_Select_parts [OF assms(1)])
  have "length bs < 9223372036854775808"
    using assms(2) select_prepare_backends(1) [OF p] by (simp split: option.splits)
  from select_commit_sound [OF c this] select_prepare_backends [OF p] show ?thesis by (auto split: option.splits)
qed

subsection \<open>Failures of Select\<close>

lemma buildKVAwareInput_error:
  assumes "buildKVAwareInput ops input cands s = (ki, kv, Some err)"
  shows "Strategy_Name (rp_strategy s) = ModeKVAware \<and>
     (kv_ctxDone ops \<or> error_canceled err \<or> kv_tokenize ops input = Inl err \<and> \<not> canDegradeTokenization err)"
  using assms by (auto simp: buildKVAwareInput_def requestContextCanceled_def Let_def split: if_splits sum.splits option.splits)

lemma buildKVAwareInput_available:
  "buildKVAwareInput ops input cands s = (ki, KVAvailable, err) \<Longrightarrow> err = None \<and> UsableFor ki cands"
  by (auto simp: buildKVAwareInput_def Let_def split: if_splits sum.splits option.splits)

text \<open>
  C25. \<open>Select\<close> fails only in the KV-aware mode, and only because the caller is gone, a dependency
  reported the cancellation, or tokenization rejected the request for good; it then leaves no lease and
  touches no counter. Every other failure of the tokenizer, the KV reconcile or the lookup degrades.
\<close>

theorem Select_failure_cause:
  assumes "path_Select url_parse clk now v v2 ops resolved request s = (Inl err, s')"
  shows "Strategy_Name (rp_strategy s) = ModeKVAware
    \<and> (kv_ctxDone ops \<or> error_canceled err
       \<or> kv_tokenize ops \<lparr>ti_Route = rq_Route request, ti_Body = rq_Body request\<rparr> = Inl err \<and> \<not> canDegradeTokenization err)
    \<and> rp_leases s' = rp_leases s \<and> rp_heap s' = rp_heap s"
proof -
  define bs where "bs = (case resolved of Some bs \<Rightarrow> bs | None \<Rightarrow> [])"
  define s1 where "s1 = (case resolved of Some bs \<Rightarrow> reconcileBackends bs s | None \<Rightarrow> s)"
  have s1: "Strategy_Name (rp_strategy s1) = Strategy_Name (rp_strategy s)" "rp_leases s1 = rp_leases s" "rp_heap s1 = rp_heap s"
    by (cases "rp_strategy s"; simp add: s1_def reconcileBackends_def recycle_counters_def Let_def split: option.splits)+
  obtain st sn s2 where b: "buildSnapshot v bs s1 = (st, sn, s2)" by (cases "buildSnapshot v bs s1")
  have s2: "rp_leases s2 = rp_leases s1" "rp_heap s2 = rp_heap s1" "rp_strategy s2 = rp_strategy s1"
    using b by (auto simp: buildSnapshot_def Let_def split: prod.splits)
  obtain ki kv oe where k: "buildKVAwareInput ops \<lparr>ti_Route = rq_Route request, ti_Body = rq_Body request\<rparr> (EligibleBackends sn) s2
      = (ki, kv, oe)" by (metis prod_cases3)
  have prep: "select_prepare v ops resolved request s = ((case oe of Some e \<Rightarrow> Inl e | None \<Rightarrow> Inr (bs, ki, kv)), s2)"
    using b k by (simp add: select_prepare_def bs_def s1_def split: option.splits)
  have "oe = Some err \<and> s' = s2"
    using assms by (simp add: path_Select_def prep split: option.splits prod.splits)
  with buildKVAwareInput_error [of ops _ _ s2 ki kv err] k s1 s2 show ?thesis by auto
qed

subsection \<open>Settlement\<close>

lemma IsOpen_submap:
  "IsOpen now br b = (x, br') \<Longrightarrow> map_of (br_states br') k = Some c \<Longrightarrow> c = zero_circuitState \<or> map_of (br_states br) k = Some c"
  by (auto simp: IsOpen_def Let_def update_conv' split: if_splits option.splits)

definition health_outcome :: "Outcome \<Rightarrow> bool" where
  \<comment> \<open>the outcomes that say something about the backend\<close>
  "health_outcome out \<longleftrightarrow> out \<in> {OutcomeResponseCompleted, OutcomeTransportFailure, OutcomeDeadlineExceeded, OutcomeUpstreamStream}"

lemma settle_circuit_neutral:
  assumes "settle_circuit t1 t2 b out s = (cp, s')" and "\<not> health_outcome out"
    and "map_of (br_states (rp_circuits s')) k = Some c"
  shows "c = zero_circuitState \<or> map_of (br_states (rp_circuits s)) k = Some c"
  using assms IsOpen_submap [of t2 "rp_circuits s" b _ "rp_circuits s'" k c]
  by (cases out) (auto simp: settle_circuit_def health_outcome_def Let_def split: if_splits prod.splits)

lemma releaseBackend_circuits:
  assumes "releaseBackend b ref s = (x, s')" and "map_of (br_states (rp_circuits s')) k = Some c"
  shows "map_of (br_states (rp_circuits s)) k = Some c"
  using assms by (auto simp: releaseBackend_def release_forget_def circuit_Remove_def Let_def delete_conv' split: if_splits)

lemma path_complete_leases: "path_complete t1 t2 b ref out s = (cp, s') \<Longrightarrow> rp_leases s' = rp_leases s"
  by (auto simp: path_complete_def settle_circuit_def releaseBackend_def release_forget_def Let_def split: prod.splits if_splits)

text \<open>
  \<open>Complete\<close> acts once: a second call, whatever its outcome, returns the first result and changes
  nothing. An outcome that is the client's doing never counts against a backend: every circuit state
  afterwards was there before, or is the reset one.
\<close>

theorem Complete_once:
  assumes "l < length (rp_leases s)" and c: "Lease_Complete t_record t_open l outcome s = (cp, s')"
  shows "Lease_Complete t_record' t_open' l outcome' s' = (cp, s')
    \<and> (\<not> health_outcome outcome \<longrightarrow> (\<forall>k c. map_of (br_states (rp_circuits s')) k = Some c \<longrightarrow>
         c = zero_circuitState \<or> map_of (br_states (rp_circuits s)) k = Some c))"
proof (cases "ls_done (rp_leases s ! l)")
  case True
  then show ?thesis using c by (auto simp: Lease_Complete_def Let_def)
next
  case False
  let ?l = "rp_leases s ! l"
  obtain c0 s1 where p: "path_complete t_record t_open (ls_backend ?l) (ls_counter ?l) outcome s = (c0, s1)"
    by (cases "path_complete t_record t_open (ls_backend ?l) (ls_counter ?l) outcome s")
  have s': "cp = c0" "s' = s1\<lparr>rp_leases := (rp_leases s1)[l := ?l\<lparr>ls_done := True, ls_result := c0\<rparr>]\<rparr>"
    using c False by (auto simp: Lease_Complete_def Let_def p)
  have once: "Lease_Complete t_record' t_open' l outcome' s' = (cp, s')"
    using assms(1) path_complete_leases [OF p] by (simp add: s' Lease_Complete_def Let_def)
  obtain c1 s2 where sc: "settle_circuit t_record t_open (ls_backend ?l) outcome s = (c1, s2)"
    by (cases "settle_circuit t_record t_open (ls_backend ?l) outcome s")
  obtain x s3 where rl: "releaseBackend (ls_backend ?l) (ls_counter ?l) s2 = (x, s3)"
    by (cases "releaseBackend (ls_backend ?l) (ls_counter ?l) s2")
  have "rp_circuits s' = rp_circuits s3" using p by (simp add: path_complete_def sc rl s')
  then show ?thesis using once settle_circuit_neutral [OF sc] releaseBackend_circuits [OF rl] by auto
qed

subsection \<open>Load counts\<close>

lemma max_count: "f_of_int max_int64 = Fin (2 ^ 63)"
proof -
  have "ilog2 (2 ^ 63 - 1) = 62"
    by (rule ilog2_unique) (simp_all add: power_int_def)
  moreover have "\<lfloor>9223372036854775807 / (1024 :: rat)\<rfloor> = 9007199254740991" by (simp add: floor_eq_iff)
  ultimately have "rnd (2 ^ 63 - 1) = 2 ^ 63"
    by (simp add: rnd_def qexp_def rne_def Let_def power_int_def) 
  then show ?thesis by (simp add: f_of_int_def max_int64_def rnd64_def)
qed

text \<open>
  A queue or running count accepted from an observation is the sample rounded up, and not negative,
  for every sample up to the largest \<open>int64\<close>.
\<close>

theorem count_bounds:
  assumes "nonNegativeCount sample = Some n" and "smp_Value sample = Fin v" and "v \<le> 2 ^ 63 - 1"
  shows "0 \<le> n \<and> v \<le> of_int n \<and> of_int n < v + 1"
proof -
  have v: "0 \<le> v" and n: "n = f_to_int64 (Fin (of_int \<lceil>v\<rceil>))"
    using assms(1,2) by (auto simp: nonNegativeCount_def split: if_splits)
  have "\<lceil>v\<rceil> \<le> 2 ^ 63 - 1" using assms(3) by (simp add: ceiling_le_iff)
  moreover have c: "0 \<le> \<lceil>v\<rceil>" using v by linarith
  ultimately have "n = \<lceil>v\<rceil>" by (simp add: n Let_def in_int64_def min_int64_def max_int64_def)
  then show ?thesis using c by linarith
qed

theorem count_bounds_witness: "nonNegativeCount (zero_Sample\<lparr>smp_Value := Fin (7 / 2), smp_Valid := True\<rparr>) = Some 4 \<and> (7 / 2 :: rat) \<le> 4"
proof -
  have "\<lceil>7 / 2 :: rat\<rceil> = 4" by (simp add: ceiling_eq_iff)
  then have "nonNegativeCount (zero_Sample\<lparr>smp_Value := Fin (7 / 2), smp_Valid := True\<rparr>) = Some 4"
    by (simp add: nonNegativeCount_def max_count [unfolded max_int64_def] is_NaN_def is_Inf_def in_int64_def min_int64_def max_int64_def)
  with count_bounds [OF this, of "7 / 2"] show ?thesis by simp
qed

text \<open>
  The guard compares with \<open>float64(math.MaxInt64)\<close>, which is \<open>2^63\<close>: that sample passes and its
  conversion overflows to the most negative count, the least possible load.
\<close>

theorem count_boundary_overflows:
  "nonNegativeCount (zero_Sample\<lparr>smp_Value := Fin (2 ^ 63), smp_Valid := True\<rparr>) = Some min_int64"
  by (simp add: nonNegativeCount_def max_count [unfolded max_int64_def] is_NaN_def is_Inf_def in_int64_def min_int64_def max_int64_def)

subsection \<open>Concrete runs\<close>

theorem path_decision_sound_witness:
  "\<exists>d state l. path_Select wit_http (wit_clock 1) 1 wit_view wit_view wit_ops (Some [wit_b1]) wit_request wit_path
       = (Inr (d, state, l), wit_selected)
     \<and> (dc_Backend d = rpc_Service wit_path_config \<or> dc_Backend d = wit_b1 \<and> \<not> mget False (ps_CircuitOpen state) ''a'')"
proof -
  obtain d state l where s: "path_Select wit_http (wit_clock 1) 1 wit_view wit_view wit_ops (Some [wit_b1]) wit_request wit_path
      = (Inr (d, state, l), wit_selected)" using wit_select by (metis prod_cases3)
  have c: "rp_config wit_path = wit_path_config" "bID wit_b1 = ''a''" by (simp_all add: wit_path_def wit_b1_def)
  show ?thesis using path_decision_sound [OF s] s c by auto
qed

definition wit_kv_path :: path_service where
  "wit_kv_path = wit_path\<lparr>rp_strategy := StKVAware wit_kv_config\<rparr>"

definition wit_rejected :: call_error where
  "wit_rejected = TokenizationError (tok_fail CodeInvalidRequest)"

theorem Select_failure_cause_witness:
  "\<exists>s'. path_Select wit_http (wit_clock 1) 1 wit_view wit_view (wit_ops\<lparr>kv_tokenize := (\<lambda>_. Inl wit_rejected)\<rparr>) None wit_request wit_kv_path
     = (Inl wit_rejected, s') \<and> rp_leases s' = []"
proof -
  have "\<exists>s'. path_Select wit_http (wit_clock 1) 1 wit_view wit_view (wit_ops\<lparr>kv_tokenize := (\<lambda>_. Inl wit_rejected)\<rparr>) None wit_request wit_kv_path
     = (Inl wit_rejected, s')"
    by (simp add: path_Select_def select_prepare_def buildSnapshot_def buildKVAwareInput_def wit_kv_path_def wit_rejected_def
        requestContextCanceled_def wit_ops_def IsTransient_def tok_fail_def Let_def)
  then obtain s' where s: "path_Select wit_http (wit_clock 1) 1 wit_view wit_view (wit_ops\<lparr>kv_tokenize := (\<lambda>_. Inl wit_rejected)\<rparr>)
      None wit_request wit_kv_path = (Inl wit_rejected, s')" ..
  have "rp_leases wit_kv_path = []" by (simp add: wit_kv_path_def wit_path_def)
  then show ?thesis using Select_failure_cause [OF s] s by auto
qed

theorem Complete_once_witness:
  "\<exists>cp s'. Lease_Complete 1 1 0 OutcomeClientCanceled wit_selected = (cp, s')
     \<and> Lease_Complete 2 2 0 OutcomeTransportFailure s' = (cp, s')"
proof -
  obtain cp s' where c: "Lease_Complete 1 1 0 OutcomeClientCanceled wit_selected = (cp, s')"
    by (cases "Lease_Complete 1 1 0 OutcomeClientCanceled wit_selected")
  have "0 < length (rp_leases wit_selected)" by (simp add: wit_selected_def select_reserve_def wit_leased_def Let_def)
  from Complete_once [OF this c, of 2 2 OutcomeTransportFailure] c show ?thesis by blast
qed

end
