(* ===== verification/Admission.thy ===== *)
theory Admission
  imports Float64
begin

text \<open>
  \<open>internal/serving/admission\<close>: the bounded permit controller and the tuning loop that moves its
  soft target. The permit channel is its length and capacity; a permit handed out is an index into
  \<open>ctl_released\<close>, which records whether its \<open>sync.Once\<close> has fired. Receiving from an empty
  channel would block for ever, so \<open>Release\<close> is an option: \<open>None\<close> is a deadlock. Every
  method holds the controller's mutex and is one atomic step.
\<close>

datatype admission_error =
    ErrCapacity | ErrTarget | ErrSoftTarget | ErrHardLimit | capacityError admission_error

fun error_Is :: "admission_error \<Rightarrow> admission_error \<Rightarrow> bool" where
  "error_Is (capacityError reason) target =
     (capacityError reason = target \<or> target = ErrCapacity \<or> target = reason)"
| "error_Is e target = (e = target)"

record admission_Config =
  MaxInflight :: int
  InitialTarget :: int

datatype admission_config_error = ErrMaxInflight int | ErrInitialTarget int

definition admission_Config_Validate :: "admission_Config \<Rightarrow> admission_config_error option" where
  "admission_Config_Validate c =
     (if MaxInflight c \<le> 0 then Some (ErrMaxInflight (MaxInflight c))
      else if InitialTarget c < 0 \<or> InitialTarget c > MaxInflight c
      then Some (ErrInitialTarget (InitialTarget c))
      else None)"

record controller =
  ctl_cap :: int
  ctl_len :: int
  ctl_target :: int
  ctl_released :: "bool list"

definition admission_New :: "admission_Config \<Rightarrow> admission_config_error + controller" where
  "admission_New config =
     (case admission_Config_Validate config of
        Some e \<Rightarrow> Inl e
      | None \<Rightarrow>
          let target = (if InitialTarget config = 0 then MaxInflight config else InitialTarget config)
          in Inr \<lparr>ctl_cap = MaxInflight config, ctl_len = 0, ctl_target = target, ctl_released = []\<rparr>)"

definition TryAcquire :: "controller \<Rightarrow> (admission_error + nat) \<times> controller" where
  "TryAcquire c =
     (if ctl_len c \<ge> ctl_cap c then (Inl (capacityError ErrHardLimit), c)
      else if ctl_len c \<ge> ctl_target c then (Inl (capacityError ErrSoftTarget), c)
      else if ctl_len c < ctl_cap c
      then (Inr (length (ctl_released c)),
            c\<lparr>ctl_len := ctl_len c + 1, ctl_released := ctl_released c @ [False]\<rparr>)
      else (Inl (capacityError ErrHardLimit), c))"

definition Inflight :: "controller \<Rightarrow> int" where
  "Inflight c = ctl_len c"

definition SetTarget :: "controller \<Rightarrow> int \<Rightarrow> admission_error option \<times> controller" where
  "SetTarget c target =
     (if target \<le> 0 \<or> target > ctl_cap c then (Some ErrTarget, c)
      else (None, c\<lparr>ctl_target := target\<rparr>))"

definition Release :: "controller \<Rightarrow> nat \<Rightarrow> controller option" where
  "Release c p =
     (if ctl_released c ! p then Some c
      else if ctl_len c = 0 then None
      else Some (c\<lparr>ctl_len := ctl_len c - 1, ctl_released := (ctl_released c)[p := True]\<rparr>))"

subsection \<open>Tuning\<close>

definition TuningOff :: string where "TuningOff = ''off''"
definition TuningShadow :: string where "TuningShadow = ''shadow''"
definition TuningActive :: string where "TuningActive = ''active''"

definition TuningMode_ok :: "string \<Rightarrow> bool" where
  "TuningMode_ok m \<longleftrightarrow> m = TuningOff \<or> m = TuningShadow \<or> m = TuningActive"

record TuningConfig =
  tc_Mode :: string
  MinTarget :: int
  MaxTarget :: int
  tc_Step :: int
  Interval :: duration
  Cooldown :: duration
  HighWatermark :: f64
  LowWatermark :: f64

datatype tuning_error = ErrTuningMode string | ErrTargetBounds | ErrTuningInterval | ErrWatermarks
  | ErrNoTargeter | ErrNoSource

definition TuningConfig_Validate :: "TuningConfig \<Rightarrow> int \<Rightarrow> tuning_error option" where
  "TuningConfig_Validate c hardLimit =
     (if \<not> TuningMode_ok (tc_Mode c) then Some (ErrTuningMode (tc_Mode c))
      else if MinTarget c \<le> 0 \<or> MaxTarget c \<le> 0 \<or> MinTarget c > MaxTarget c
              \<or> MaxTarget c > hardLimit \<or> tc_Step c \<le> 0 then Some ErrTargetBounds
      else if Interval c \<le> 0 \<or> Cooldown c < 0 then Some ErrTuningInterval
      else if f_le (LowWatermark c) (Fin 0) \<or> f_le (Fin 1) (HighWatermark c)
              \<or> f_le (HighWatermark c) (LowWatermark c) then Some ErrWatermarks
      else None)"

record Signal =
  sig_ObservedAt :: time
  sig_Inflight :: int
  AcceptedTotal :: "64 word"
  CompletedTotal :: "64 word"
  RejectedTotal :: "64 word"
  SoftRejectedTotal :: "64 word"
  HardRejectedTotal :: "64 word"

definition zero_Signal :: Signal where
  "zero_Signal = \<lparr>sig_ObservedAt = zero_time, sig_Inflight = 0, AcceptedTotal = 0,
     CompletedTotal = 0, RejectedTotal = 0, SoftRejectedTotal = 0, HardRejectedTotal = 0\<rparr>"

record admission_Decision =
  dec_Mode :: string
  dec_ObservedAt :: time
  PreviousTarget :: int
  SuggestedTarget :: int
  AppliedTarget :: int
  HardLimit :: int
  dec_Inflight :: int
  AcceptedDelta :: "64 word"
  CompletedDelta :: "64 word"
  RejectedDelta :: "64 word"
  SoftRejectedDelta :: "64 word"
  HardRejectedDelta :: "64 word"
  dec_Valid :: bool
  dec_Changed :: bool
  dec_Reason :: string

record tuner =
  tu_config :: TuningConfig
  tu_previous :: Signal
  tu_hasSample :: bool
  tu_lastAction :: time
  tu_snapshot :: admission_Decision

definition hold_decision :: "TuningConfig \<Rightarrow> controller \<Rightarrow> time \<Rightarrow> int \<Rightarrow> string \<Rightarrow> admission_Decision" where
  "hold_decision config targeter observed inflight reason =
     \<lparr>dec_Mode = tc_Mode config, dec_ObservedAt = observed, PreviousTarget = ctl_target targeter,
      SuggestedTarget = ctl_target targeter, AppliedTarget = ctl_target targeter,
      HardLimit = ctl_cap targeter, dec_Inflight = inflight,
      AcceptedDelta = 0, CompletedDelta = 0, RejectedDelta = 0, SoftRejectedDelta = 0,
      HardRejectedDelta = 0, dec_Valid = True, dec_Changed = False, dec_Reason = reason\<rparr>"

definition NewTuner :: "TuningConfig \<Rightarrow> controller option \<Rightarrow> bool \<Rightarrow> tuning_error + tuner" where
  \<comment> \<open>\<open>has_source\<close>: a signal source was injected\<close>
  "NewTuner config targeter has_source =
     (case targeter of
        None \<Rightarrow> Inl ErrNoTargeter
      | Some c \<Rightarrow>
          (case TuningConfig_Validate config (ctl_cap c) of
             Some e \<Rightarrow> Inl e
           | None \<Rightarrow>
               if tc_Mode config \<noteq> TuningOff \<and> \<not> has_source then Inl ErrNoSource
               else Inr \<lparr>tu_config = config, tu_previous = zero_Signal, tu_hasSample = False,
                         tu_lastAction = zero_time,
                         tu_snapshot = hold_decision config c zero_time 0 ''initial''\<rparr>))"

definition signal_invalid :: "TuningConfig \<Rightarrow> Signal \<Rightarrow> time \<Rightarrow> bool" where
  "signal_invalid config signal now \<longleftrightarrow>
     IsZero (sig_ObservedAt signal) \<or> sig_Inflight signal < 0
     \<or> SoftRejectedTotal signal > RejectedTotal signal
     \<or> HardRejectedTotal signal > RejectedTotal signal
     \<or> SoftRejectedTotal signal + HardRejectedTotal signal > RejectedTotal signal
     \<or> time_sub now (sig_ObservedAt signal) > wrap64 (2 * Interval config)"

definition signal_reset :: "Signal \<Rightarrow> Signal \<Rightarrow> bool" where
  "signal_reset signal previous \<longleftrightarrow>
     sig_ObservedAt signal < sig_ObservedAt previous
     \<or> AcceptedTotal signal < AcceptedTotal previous
     \<or> CompletedTotal signal < CompletedTotal previous
     \<or> RejectedTotal signal < RejectedTotal previous
     \<or> SoftRejectedTotal signal < SoftRejectedTotal previous
     \<or> HardRejectedTotal signal < HardRejectedTotal previous"

definition with_deltas :: "admission_Decision \<Rightarrow> Signal \<Rightarrow> Signal \<Rightarrow> admission_Decision" where
  "with_deltas decision signal previous = decision\<lparr>
     AcceptedDelta := AcceptedTotal signal - AcceptedTotal previous,
     CompletedDelta := CompletedTotal signal - CompletedTotal previous,
     RejectedDelta := RejectedTotal signal - RejectedTotal previous,
     SoftRejectedDelta := SoftRejectedTotal signal - SoftRejectedTotal previous,
     HardRejectedDelta := HardRejectedTotal signal - HardRejectedTotal previous\<rparr>"

definition suggest :: "TuningConfig \<Rightarrow> int \<Rightarrow> f64 \<Rightarrow> admission_Decision \<Rightarrow> int \<times> string" where
  \<comment> \<open>the \<open>switch\<close> of \<open>step\<close>: the suggested target and the reason\<close>
  "suggest config current ratio decision =
     (if HardRejectedDelta decision > 0
      then (max (MinTarget config) (wrap64 (current - tc_Step config)), ''overloaded'')
      else if SoftRejectedDelta decision > 0 then (current, ''soft-target-pressure'')
      else if f_le (HighWatermark config) ratio then (current, ''saturated'')
      else if AcceptedDelta decision > 0 \<and> f_le ratio (LowWatermark config)
      then (min (MaxTarget config) (wrap64 (current + tc_Step config)), ''underutilized'')
      else (current, dec_Reason decision))"

definition tuner_apply ::
  "tuner \<Rightarrow> controller \<Rightarrow> admission_Decision \<Rightarrow> int \<Rightarrow> string \<Rightarrow> time \<Rightarrow> tuner \<times> controller" where
  \<comment> \<open>the end of \<open>step\<close>: cooldown, mode and the update of the target\<close>
  "tuner_apply t c decision0 suggested reason now =
     (let config = tu_config t;
          current = PreviousTarget decision0;
          decision = decision0\<lparr>dec_Reason := reason, SuggestedTarget := suggested\<rparr>
      in if suggested \<noteq> current \<and> \<not> IsZero (tu_lastAction t)
            \<and> time_sub now (tu_lastAction t) < Cooldown config
         then (t\<lparr>tu_snapshot := decision\<lparr>dec_Reason := reason @ ''-cooldown''\<rparr>\<rparr>, c)
         else if suggested \<noteq> current \<and> tc_Mode config = TuningActive
         then (if fst (SetTarget c suggested) \<noteq> None
               then (t\<lparr>tu_snapshot := decision\<lparr>dec_Valid := False,
                        dec_Reason := ''target-update-failed''\<rparr>\<rparr>, snd (SetTarget c suggested))
               else (t\<lparr>tu_lastAction := now, tu_snapshot := decision\<lparr>dec_Changed := True,
                        AppliedTarget := ctl_target (snd (SetTarget c suggested))\<rparr>\<rparr>,
                     snd (SetTarget c suggested)))
         else (t\<lparr>tu_snapshot := decision\<lparr>AppliedTarget := ctl_target c\<rparr>\<rparr>, c))"

definition tuner_step :: "tuner \<Rightarrow> controller \<Rightarrow> Signal \<Rightarrow> time \<Rightarrow> tuner \<times> controller" where
  "tuner_step t c signal now =
     (let config = tu_config t;
          decision = hold_decision config c (sig_ObservedAt signal) (sig_Inflight signal) ''hold''
      in if signal_invalid config signal now
         then (t\<lparr>tu_snapshot := decision\<lparr>dec_Valid := False, dec_Reason := ''signal-stale-or-invalid''\<rparr>\<rparr>, c)
         else if tu_hasSample t \<and> signal_reset signal (tu_previous t)
         then (t\<lparr>tu_snapshot := decision\<lparr>dec_Valid := False, dec_Reason := ''signal-counter-reset''\<rparr>\<rparr>, c)
         else
           let decision = (if tu_hasSample t then with_deltas decision signal (tu_previous t) else decision);
               current = PreviousTarget decision;
               ratio = f_div (f_of_int (sig_Inflight signal)) (f_of_int current);
               sr = suggest config current ratio decision
           in tuner_apply (t\<lparr>tu_previous := signal, tu_hasSample := True\<rparr>) c decision (fst sr) (snd sr) now)"

subsection \<open>Executions of the controller and its tuner\<close>

datatype admission_op =
    OpTryAcquire
  | OpRelease nat
  | OpSetTarget int
  | OpTune Signal time

inductive admission_step :: "tuner \<times> controller \<Rightarrow> admission_op \<Rightarrow> tuner \<times> controller \<Rightarrow> bool" where
  acquire: "admission_step (t, c) OpTryAcquire (t, snd (TryAcquire c))"
| release: "p < length (ctl_released c) \<Longrightarrow> Release c p = Some c' \<Longrightarrow>
    admission_step (t, c) (OpRelease p) (t, c')"
| set_target: "admission_step (t, c) (OpSetTarget n) (t, snd (SetTarget c n))"
| tune: "admission_step (t, c) (OpTune signal now) (tuner_step t c signal now)"

inductive admission_reach :: "tuner \<times> controller \<Rightarrow> tuner \<times> controller \<Rightarrow> bool" where
  reach_start: "admission_reach s s"
| reach_step: "admission_reach s s' \<Longrightarrow> admission_step s' op s'' \<Longrightarrow> admission_reach s s''"

inductive_cases admission_stepE: "admission_step (t, c) op s'"

definition outstanding :: "controller \<Rightarrow> nat" where
  "outstanding c = length (filter Not (ctl_released c))"

definition controller_ok :: "controller \<Rightarrow> bool" where
  "controller_ok c \<longleftrightarrow> 0 < ctl_cap c \<and> 0 < ctl_target c \<and> ctl_target c \<le> ctl_cap c
     \<and> ctl_len c = int (outstanding c) \<and> ctl_len c \<le> ctl_cap c"

subsection \<open>Every step keeps the controller invariant\<close>

lemma outstanding_append [simp]:
  "outstanding (c\<lparr>ctl_len := n, ctl_released := ctl_released c @ [False]\<rparr>) = Suc (outstanding c)"
  by (simp add: outstanding_def)

lemma length_filter_Not_update:
  "p < length bs \<Longrightarrow> \<not> bs ! p \<Longrightarrow> Suc (length (filter Not (bs[p := True]))) = length (filter Not bs)"
  by (induction bs arbitrary: p) (auto simp: nth_Cons split: nat.splits)

lemma outstanding_Release:
  "Release c p = Some c' \<Longrightarrow> p < length (ctl_released c) \<Longrightarrow>
     outstanding c = outstanding c' + (if ctl_released c ! p then 0 else 1)"
  by (auto simp: Release_def outstanding_def length_filter_Not_update split: if_splits)

lemma outstanding_pos:
  assumes "p < length (ctl_released c)" and "\<not> ctl_released c ! p"
  shows "0 < outstanding c"
  using length_filter_Not_update [OF assms] unfolding outstanding_def by linarith

lemma TryAcquire_ok: "controller_ok c \<Longrightarrow> controller_ok (snd (TryAcquire c))"
  by (auto simp: TryAcquire_def controller_ok_def)

lemma Release_ok:
  assumes "controller_ok c" and "p < length (ctl_released c)" and "Release c p = Some c'"
  shows "controller_ok c'"
proof -
  have "ctl_cap c' = ctl_cap c \<and> ctl_target c' = ctl_target c
      \<and> ctl_len c' = ctl_len c - (if ctl_released c ! p then 0 else 1)"
    using assms(3) by (auto simp: Release_def split: if_splits)
  then show ?thesis
    using outstanding_Release [OF assms(3,2)] assms(1)
    by (cases "ctl_released c ! p") (simp_all add: controller_ok_def)
qed

lemma SetTarget_ok: "controller_ok c \<Longrightarrow> controller_ok (snd (SetTarget c n))"
  by (auto simp: SetTarget_def controller_ok_def outstanding_def)

lemma tuner_apply_controller:
  "snd (tuner_apply t c d suggested reason now) =
     (if suggested \<noteq> PreviousTarget d \<and> tc_Mode (tu_config t) = TuningActive
         \<and> (IsZero (tu_lastAction t) \<or> Cooldown (tu_config t) \<le> time_sub now (tu_lastAction t))
      then snd (SetTarget c suggested) else c)"
  by (simp add: tuner_apply_def Let_def not_less)

lemma tuner_step_controller:
  "snd (tuner_step t c signal now) = c \<or> (\<exists>n. snd (tuner_step t c signal now) = snd (SetTarget c n))"
  by (auto simp: tuner_step_def Let_def tuner_apply_controller)

lemma tuner_step_ok: "controller_ok c \<Longrightarrow> controller_ok (snd (tuner_step t c signal now))"
  using tuner_step_controller [of t c signal now] SetTarget_ok [of c] by auto

lemma admission_step_ok:
  "admission_step s op s' \<Longrightarrow> controller_ok (snd s) \<Longrightarrow> controller_ok (snd s')"
  by (induction rule: admission_step.induct)
    (auto intro: TryAcquire_ok Release_ok SetTarget_ok tuner_step_ok)

lemma admission_reach_ok:
  "admission_reach s s' \<Longrightarrow> controller_ok (snd s) \<Longrightarrow> controller_ok (snd s')"
  by (induction rule: admission_reach.induct) (auto intro: admission_step_ok)

lemma admission_New_ok: "admission_New config = Inr c \<Longrightarrow> controller_ok c"
  by (auto simp: admission_New_def admission_Config_Validate_def controller_ok_def outstanding_def
      Let_def split: option.splits if_splits)

subsection \<open>What one tuning step may do\<close>

definition tuning_ranges :: "TuningConfig \<Rightarrow> controller \<Rightarrow> bool" where
  \<comment> \<open>a validated configuration whose band holds the current target, all in the \<open>int\<close> range\<close>
  "tuning_ranges config c \<longleftrightarrow> TuningConfig_Validate config (ctl_cap c) = None
     \<and> in_int64 (tc_Step config) \<and> in_int64 (ctl_cap c)
     \<and> MinTarget config \<le> ctl_target c \<and> ctl_target c \<le> MaxTarget config"

lemma suggest_effect:
  assumes "tuning_ranges config c" and "s = fst (suggest config (ctl_target c) ratio d)"
    and "s \<noteq> ctl_target c"
  shows "HardRejectedDelta d > 0 \<and> s < ctl_target c \<and> MinTarget config \<le> s \<and> ctl_target c - s \<le> tc_Step config
    \<or> HardRejectedDelta d = 0 \<and> SoftRejectedDelta d = 0 \<and> AcceptedDelta d > 0
      \<and> (s \<le> 0 \<or> ctl_target c < s \<and> s \<le> MaxTarget config \<and> s - ctl_target c \<le> tc_Step config)"
proof -
  let ?cur = "ctl_target c" and ?st = "tc_Step config"
  have r: "1 \<le> ?st" "?st \<le> max_int64" "1 \<le> MinTarget config" "MinTarget config \<le> ?cur"
      "?cur \<le> MaxTarget config" "MaxTarget config \<le> max_int64"
    using assms(1)
    by (auto simp: tuning_ranges_def TuningConfig_Validate_def in_int64_def split: if_splits)
  have down: "wrap64 (?cur - ?st) = ?cur - ?st"
    using r by (intro wrap64_id) (simp add: in_int64_def min_int64_def max_int64_def)
  have up: "wrap64 (?cur + ?st) = ?cur + ?st \<or> wrap64 (?cur + ?st) < 0"
  proof (cases "?cur + ?st \<le> max_int64")
    case True
    then show ?thesis using r by (intro disjI1 wrap64_id) (simp add: in_int64_def min_int64_def)
  next
    case False
    then show ?thesis using r by (intro disjI2 wrap64_overflow) simp_all
  qed
  show ?thesis
    using assms(2,3) r down up
    by (auto simp: suggest_def word_gt_0 split: if_splits)
qed

lemma tuner_step_cases:
  assumes "snd (tuner_step t c signal now) \<noteq> c"
  obtains ratio d where "\<not> signal_reset signal (tu_previous t)" and "tu_hasSample t"
    and "tc_Mode (tu_config t) = TuningActive"
    and "IsZero (tu_lastAction t) \<or> Cooldown (tu_config t) \<le> time_sub now (tu_lastAction t)"
    and "d = with_deltas (hold_decision (tu_config t) c (sig_ObservedAt signal)
               (sig_Inflight signal) ''hold'') signal (tu_previous t)"
    and "fst (suggest (tu_config t) (ctl_target c) ratio d) \<noteq> ctl_target c"
    and "snd (tuner_step t c signal now) =
           snd (SetTarget c (fst (suggest (tu_config t) (ctl_target c) ratio d)))"
proof -
  let ?d0 = "hold_decision (tu_config t) c (sig_ObservedAt signal) (sig_Inflight signal) ''hold''"
  have prev: "PreviousTarget ?d0 = ctl_target c" "PreviousTarget (with_deltas ?d0 signal (tu_previous t)) = ctl_target c"
    by (simp_all add: hold_decision_def with_deltas_def)
  have none: "fst (suggest config cur ratio ?d0) = cur" for config cur ratio
    by (simp add: suggest_def hold_decision_def)
  show thesis
    using assms prev none
    by (intro that [of "with_deltas ?d0 signal (tu_previous t)"
          "f_div (f_of_int (sig_Inflight signal)) (f_of_int (ctl_target c))"])
      (auto simp: tuner_step_def Let_def tuner_apply_controller split: if_splits)
qed

lemma word_delta_pos: "b \<le> a \<Longrightarrow> a - b > 0 \<longleftrightarrow> b < (a :: 64 word)"
  by (simp add: word_gt_0 less_le) (metis diff_self eq_iff_diff_eq_0)

subsection \<open>Properties\<close>

text \<open>
  C18. From a freshly built controller, any interleaving of acquisitions, releases of handed-out
  permits, target changes and tuning steps keeps the number of permits in the channel equal to the
  number of permits not yet released and within the hard limit, and keeps the soft target between
  one and the hard limit.
\<close>

theorem admission_bounded:
  assumes "admission_New config = Inr c" and "admission_reach (t, c) (t', c')"
  shows "Inflight c' = int (outstanding c') \<and> Inflight c' \<le> ctl_cap c'
    \<and> 0 < ctl_target c' \<and> ctl_target c' \<le> ctl_cap c'"
  using admission_reach_ok [OF assms(2)] admission_New_ok [OF assms(1)]
  by (simp add: Inflight_def controller_ok_def)

definition wit_controller :: controller where
  "wit_controller = \<lparr>ctl_cap = 2, ctl_len = 0, ctl_target = 2, ctl_released = []\<rparr>"

lemma wit_admission_New: "admission_New \<lparr>MaxInflight = 2, InitialTarget = 0\<rparr> = Inr wit_controller"
  by (simp add: admission_New_def admission_Config_Validate_def wit_controller_def)

lemma wit_admission_reach:
  "admission_reach (t, wit_controller) (t, snd (TryAcquire wit_controller))"
  by (rule admission_reach.reach_step [OF admission_reach.reach_start admission_step.acquire])

theorem admission_bounded_witness:
  "Inflight (snd (TryAcquire wit_controller)) = 1 \<and> Inflight (snd (TryAcquire wit_controller)) \<le> 2"
proof -
  have "outstanding (snd (TryAcquire wit_controller)) = 1"
    by (simp add: TryAcquire_def wit_controller_def outstanding_def)
  with admission_bounded [OF wit_admission_New wit_admission_reach] show ?thesis
    by (simp add: TryAcquire_def wit_controller_def)
qed

text \<open>
  C19. In every state reachable from a new controller, releasing any permit that was handed out
  returns (the receive from the channel never blocks), frees exactly one place the first time, and
  changes nothing the second time.
\<close>

theorem release_total_and_idempotent:
  assumes "admission_New config = Inr c" and "admission_reach (t, c) (t', c')"
    and "p < length (ctl_released c')"
  shows "\<exists>c''. Release c' p = Some c''
    \<and> Inflight c'' = Inflight c' - (if ctl_released c' ! p then 0 else 1)
    \<and> Release c'' p = Some c''"
proof -
  have ok: "controller_ok c'"
    using admission_reach_ok [OF assms(2)] admission_New_ok [OF assms(1)] by simp
  show ?thesis
  proof (cases "ctl_released c' ! p")
    case True
    then show ?thesis by (simp add: Release_def)
  next
    case False
    then have "ctl_len c' \<noteq> 0"
      using outstanding_pos [OF assms(3) False] ok by (simp add: controller_ok_def)
    with False assms(3) show ?thesis by (simp add: Release_def Inflight_def)
  qed
qed

theorem release_total_and_idempotent_witness:
  "\<exists>c''. Release (snd (TryAcquire wit_controller)) 0 = Some c'' \<and> Inflight c'' = 0
     \<and> Release c'' 0 = Some c''"
  using release_total_and_idempotent [OF wit_admission_New wit_admission_reach, of 0]
  by (simp add: TryAcquire_def wit_controller_def Inflight_def)

text \<open>
  An acquisition succeeds exactly when fewer requests are in flight than both the hard limit and
  the soft target; a refusal always matches \<open>ErrCapacity\<close>, names the hard limit when that is
  reached and the soft target otherwise, and leaves the controller unchanged.
\<close>

theorem TryAcquire_spec:
  "(\<exists>p c'. TryAcquire c = (Inr p, c') \<and> Inflight c' = Inflight c + 1
      \<and> p = length (ctl_released c) \<and> Inflight c < min (ctl_cap c) (ctl_target c))
   \<or> (\<exists>e. TryAcquire c = (Inl e, c) \<and> min (ctl_cap c) (ctl_target c) \<le> Inflight c
      \<and> error_Is e ErrCapacity
      \<and> (error_Is e ErrHardLimit \<longleftrightarrow> ctl_cap c \<le> Inflight c)
      \<and> (error_Is e ErrSoftTarget \<longleftrightarrow> Inflight c < ctl_cap c))"
  by (auto simp: TryAcquire_def Inflight_def)

lemma not_signal_reset:
  "\<not> signal_reset signal previous \<Longrightarrow>
     (HardRejectedTotal signal - HardRejectedTotal previous > 0 \<longleftrightarrow>
        HardRejectedTotal previous < HardRejectedTotal signal)
     \<and> (AcceptedTotal signal - AcceptedTotal previous > 0 \<longleftrightarrow>
        AcceptedTotal previous < AcceptedTotal signal)"
  by (auto simp: signal_reset_def not_less word_delta_pos)

text \<open>
  One tuning step either leaves the controller as it is or, in active mode only, with a previous
  sample and with the cooldown elapsed, moves the soft target by at most one step within
  [\<open>MinTarget\<close>, \<open>MaxTarget\<close>]: down only if hard rejections grew since the previous sample, up
  only if requests were accepted and neither kind of rejection grew. Soft rejections alone never
  lower the target, and no permit is revoked.
\<close>

theorem tuner_step_effect:
  assumes "tuning_ranges (tu_config t) c" and "snd (tuner_step t c signal now) = c'" and "c' \<noteq> c"
  shows "tc_Mode (tu_config t) = TuningActive \<and> tu_hasSample t
    \<and> (IsZero (tu_lastAction t) \<or> Cooldown (tu_config t) \<le> time_sub now (tu_lastAction t))
    \<and> c' = c\<lparr>ctl_target := ctl_target c'\<rparr>
    \<and> MinTarget (tu_config t) \<le> ctl_target c' \<and> ctl_target c' \<le> MaxTarget (tu_config t)
    \<and> \<bar>ctl_target c' - ctl_target c\<bar> \<le> tc_Step (tu_config t)
    \<and> (if HardRejectedTotal (tu_previous t) < HardRejectedTotal signal then ctl_target c' < ctl_target c
       else ctl_target c < ctl_target c' \<and> AcceptedTotal (tu_previous t) < AcceptedTotal signal
         \<and> SoftRejectedTotal signal = SoftRejectedTotal (tu_previous t))"
proof -
  have "snd (tuner_step t c signal now) \<noteq> c" using assms(2,3) by simp
  then obtain ratio d where fresh: "\<not> signal_reset signal (tu_previous t)"
    and d: "d = with_deltas (hold_decision (tu_config t) c (sig_ObservedAt signal)
               (sig_Inflight signal) ''hold'') signal (tu_previous t)"
    and s: "fst (suggest (tu_config t) (ctl_target c) ratio d) \<noteq> ctl_target c"
    and set: "snd (tuner_step t c signal now) =
      snd (SetTarget c (fst (suggest (tu_config t) (ctl_target c) ratio d)))"
    and mode: "tc_Mode (tu_config t) = TuningActive" "tu_hasSample t"
      "IsZero (tu_lastAction t) \<or> Cooldown (tu_config t) \<le> time_sub now (tu_lastAction t)"
    by (rule tuner_step_cases) blast
  let ?s = "fst (suggest (tu_config t) (ctl_target c) ratio d)"
  have c': "c' = c\<lparr>ctl_target := ?s\<rparr>" "0 < ?s"
    using set assms(2,3) by (auto simp: SetTarget_def split: if_splits)
  have deltas: "HardRejectedDelta d = HardRejectedTotal signal - HardRejectedTotal (tu_previous t)"
    "AcceptedDelta d = AcceptedTotal signal - AcceptedTotal (tu_previous t)"
    "SoftRejectedDelta d = SoftRejectedTotal signal - SoftRejectedTotal (tu_previous t)"
    by (simp_all add: d with_deltas_def)
  have band: "MinTarget (tu_config t) \<le> ctl_target c" "ctl_target c \<le> MaxTarget (tu_config t)"
    using assms(1) by (simp_all add: tuning_ranges_def)
  note effect = suggest_effect [OF assms(1) refl s, unfolded deltas]
  note grew = not_signal_reset [OF fresh]
  from effect show ?thesis
  proof (elim disjE)
    assume "HardRejectedTotal signal - HardRejectedTotal (tu_previous t) > 0 \<and> ?s < ctl_target c
      \<and> MinTarget (tu_config t) \<le> ?s \<and> ctl_target c - ?s \<le> tc_Step (tu_config t)"
    with c' mode band grew show ?thesis by simp
  next
    assume "HardRejectedTotal signal - HardRejectedTotal (tu_previous t) = 0
      \<and> SoftRejectedTotal signal - SoftRejectedTotal (tu_previous t) = 0
      \<and> AcceptedTotal signal - AcceptedTotal (tu_previous t) > 0
      \<and> (?s \<le> 0 \<or> ctl_target c < ?s \<and> ?s \<le> MaxTarget (tu_config t)
          \<and> ?s - ctl_target c \<le> tc_Step (tu_config t))"
    with c' mode band grew show ?thesis by auto
  qed
qed

definition wit_tuning :: TuningConfig where
  "wit_tuning = \<lparr>tc_Mode = TuningActive, MinTarget = 1, MaxTarget = 8, tc_Step = 2, Interval = 100,
     Cooldown = 50, HighWatermark = Fin (3 / 4), LowWatermark = Fin (1 / 4)\<rparr>"

definition wit_ctl8 :: controller where
  "wit_ctl8 = \<lparr>ctl_cap = 8, ctl_len = 0, ctl_target = 8, ctl_released = []\<rparr>"

definition wit_signal :: Signal where
  "wit_signal = zero_Signal\<lparr>sig_ObservedAt := 1000, sig_Inflight := 8, RejectedTotal := 1,
     HardRejectedTotal := 1\<rparr>"

definition wit_tuner :: tuner where
  "wit_tuner = \<lparr>tu_config = wit_tuning, tu_previous = zero_Signal\<lparr>sig_ObservedAt := 900\<rparr>,
     tu_hasSample = True, tu_lastAction = zero_time,
     tu_snapshot = hold_decision wit_tuning wit_ctl8 zero_time 0 ''initial''\<rparr>"

lemmas wit_tuning_defs = wit_tuning_def wit_ctl8_def wit_signal_def wit_tuner_def zero_Signal_def
  tuner_step_def Let_def signal_invalid_def signal_reset_def with_deltas_def hold_decision_def
  suggest_def tuner_apply_def SetTarget_def IsZero_def zero_time_def time_sub_def wrap64_def
  min_int64_def max_int64_def TuningActive_def in_int64_def

lemma wit_tuning_ranges: "tuning_ranges (tu_config wit_tuner) wit_ctl8"
  by (simp add: tuning_ranges_def TuningConfig_Validate_def TuningMode_ok_def f_le_def wit_tuning_defs)

lemma wit_tuner_step: "snd (tuner_step wit_tuner wit_ctl8 wit_signal 1000) = wit_ctl8\<lparr>ctl_target := 6\<rparr>"
  by (simp add: wit_tuning_defs)

theorem tuner_step_effect_witness:
  "ctl_target (wit_ctl8\<lparr>ctl_target := 6\<rparr>) < ctl_target wit_ctl8
   \<and> \<bar>ctl_target (wit_ctl8\<lparr>ctl_target := 6\<rparr>) - ctl_target wit_ctl8\<bar> \<le> 2"
  using tuner_step_effect [OF wit_tuning_ranges wit_tuner_step]
  by (simp add: wit_ctl8_def wit_tuner_def wit_tuning_def wit_signal_def zero_Signal_def)

end
