(* ===== verification/Gateway_Metrics.thy ===== *)
theory Gateway_Metrics
  imports Admission Requestpath
begin

text \<open>
  \<open>internal/serving/gateway/metrics_impl.go\<close>: the metrics of the gateway as the series they publish.
  A vector of the Prometheus client is a map from label values to the value of the series; a histogram
  keeps its observations, a counter is a number. The records follow the groups the code initialises:
  request, routing, observation, discovery and KV cache. The mutexes make every operation atomic, and
  the loops over Go maps touch each key on its own, so the order of the association list does not
  matter.
\<close>

subsection \<open>Label values\<close>

fun reason_text :: "Reason \<Rightarrow> string" where
  "reason_text NoReason = ''''"
| "reason_text ReasonSessionKeyHit = ''session-key-hit''"
| "reason_text ReasonSessionKeyMiss = ''session-key-miss''"
| "reason_text ReasonSessionKeySpillover = ''session-key-spillover''"
| "reason_text ReasonRoundRobin = ''round-robin''"
| "reason_text ReasonLoadBalanced = ''load-balanced''"
| "reason_text ReasonLoadAware = ''load-aware''"
| "reason_text ReasonMissingSessionKeyLoadBalanced = ''missing-session-key-load-balanced''"
| "reason_text ReasonQueueDepth = ''queue-depth''"
| "reason_text ReasonLocalInflight = ''local-inflight''"
| "reason_text ReasonIneligible = ''ineligible''"
| "reason_text ReasonCircuitOpen = ''circuit-open''"
| "reason_text ReasonDiscoveryFallback = ''discovery-fallback''"
| "reason_text ReasonCircuitFallback = ''circuit-fallback''"
| "reason_text ReasonStrategyFallback = ''strategy-fallback''"
| "reason_text ReasonBackendFallback = ''backend-fallback''"
| "reason_text ReasonAdmissionCapacity = ''admission-capacity''"
| "reason_text ReasonKVAware = ''kv-aware''"
| "reason_text ReasonKVAwareStatic = ''kv-aware-static-ttft''"
| "reason_text ReasonKVAwareStaticFallback = ''kv-aware-static-fallback''"
| "reason_text ReasonKVAwareSignalUnavailable = ''kv-aware-signal-unavailable''"
| "reason_text ReasonKVAwareHardOverloadFallback = ''kv-aware-hard-overload-fallback''"
| "reason_text ReasonKVAwareShortContextFallback = ''kv-aware-short-context-fallback''"

fun policy_text :: "Policy \<Rightarrow> string" where
  "policy_text NoPolicy = ''''"
| "policy_text PolicyRoundRobinV1 = ''round-robin-v1''"
| "policy_text PolicyLoadBalancedV1 = ''load-balanced-v1''"
| "policy_text PolicyLoadAwareV1 = ''load-aware-v1''"
| "policy_text PolicySessionKeyV1 = ''session-key-v1''"
| "policy_text PolicyServiceFallbackV1 = ''service-fallback-v1''"
| "policy_text PolicyKVAwareV1 = ''kv-aware-v1''"
| "policy_text PolicyKVAwareStaticV1 = ''kv-aware-ttft-static-v1''"
| "policy_text PolicyKVAwareLoadAwareFallbackV1 = ''kv-aware-load-aware-fallback-v1''"
| "policy_text PolicyKVAwareLoadBalancedFallbackV2 = ''kv-aware-load-balanced-fallback-v2''"
| "policy_text PolicyKVAwareShortContextLoadAwareV1 = ''kv-aware-short-context-load-aware-fallback-v1''"
| "policy_text PolicyKVAwareShortContextLoadBalancedV2 = ''kv-aware-short-context-load-balanced-fallback-v2''"

fun kv_reason_text :: "KVReason \<Rightarrow> string" where
  "kv_reason_text KVNone = ''''"
| "kv_reason_text KVBackendUnknown = ''backend-unknown''"
| "kv_reason_text KVModelMismatch = ''model-mismatch''"
| "kv_reason_text KVReplayNotConfirmed = ''replay-not-confirmed''"
| "kv_reason_text KVReplayHeartbeatStale = ''replay-heartbeat-stale''"
| "kv_reason_text KVSequenceGap = ''sequence-gap-awaiting-replay''"
| "kv_reason_text KVSequenceReset = ''sequence-reset''"
| "kv_reason_text KVUnrecoverableSequenceGap = ''unrecoverable-sequence-gap''"
| "kv_reason_text KVEventTooLarge = ''event-too-large''"
| "kv_reason_text KVEventDecodeFailed = ''event-decode-failed''"
| "kv_reason_text KVEventApplyFailed = ''event-apply-failed''"
| "kv_reason_text KVEngineRequestKeyMismatch = ''engine-request-key-mismatch''"
| "kv_reason_text KVUnsupportedEvent = ''unsupported-event''"
| "kv_reason_text KVReplayCapacityExceeded = ''replay-capacity-exceeded''"
| "kv_reason_text KVLifecycleChanging = ''lifecycle-changing''"
| "kv_reason_text KVClosed = ''closed''"

fun kv_status_text :: "KVStatus \<Rightarrow> string" where
  "kv_status_text KVUnset = ''''"
| "kv_status_text KVNotRequested = ''not-requested''"
| "kv_status_text KVAvailable = ''available''"
| "kv_status_text KVTokenizationFailed = ''tokenization-failed''"
| "kv_status_text KVLookupFailed = ''lookup-failed''"
| "kv_status_text KVMatchUnavailable = ''match-unavailable''"
| "kv_status_text KVShortContextBypassed = ''short-context-bypassed''"

fun shadow_status_text :: "shadow_status \<Rightarrow> string" where
  "shadow_status_text StatusNone = ''''"
| "shadow_status_text StatusDisabled = ''disabled''"
| "shadow_status_text StatusLoadUnavailable = ''load-unavailable''"
| "shadow_status_text StatusInsufficientData = ''insufficient-data''"
| "shadow_status_text StatusAvailable = ''available''"

fun discovery_status_text :: "discovery_status \<Rightarrow> string" where
  "discovery_status_text DiscoveryOK = ''ok''"
| "discovery_status_text DiscoveryDegraded = ''degraded''"
| "discovery_status_text DiscoveryUnavailable = ''unavailable''"

subsection \<open>Series\<close>

type_synonym 'v vec = "(string list, 'v) gomap"

definition vset :: "string list \<Rightarrow> 'v \<Rightarrow> 'v vec \<Rightarrow> 'v vec" where
  "vset labels v m = AList.update labels v m"

definition vinc :: "string list \<Rightarrow> nat vec \<Rightarrow> nat vec" where
  "vinc labels m = AList.update labels (mget 0 m labels + 1) m"

definition vobserve :: "string list \<Rightarrow> f64 \<Rightarrow> f64 list vec \<Rightarrow> f64 list vec" where
  "vobserve labels v m = AList.update labels (mget [] m labels @ [v]) m"

definition vdel :: "string list \<Rightarrow> 'v vec \<Rightarrow> 'v vec" where
  "vdel labels m = AList.delete labels m"

definition rem64 :: "int \<Rightarrow> int \<Rightarrow> int" where
  "rem64 a b = a - quot64 a b * b"

definition Duration_Seconds :: "duration \<Rightarrow> f64" where
  "Duration_Seconds d =
     f_add (f_of_int (quot64 d 1000000000)) (f_div (f_of_int (rem64 d 1000000000)) (Fin 1000000000))"

record request_metrics =
  mq_inflight :: int
  mq_admittedRequests :: nat
  mq_requests :: "nat vec"
  mq_requestSeconds :: "f64 list vec"
  mq_ttftSeconds :: "f64 list"
  mq_upstreamErrors :: nat
  mq_streamErrors :: nat
  mq_admissionRejections :: nat
  mq_admissionSoftRejections :: nat
  mq_admissionHardRejections :: nat
  mq_admissionTarget :: f64
  mq_admissionHardLimit :: f64
  mq_admissionSuggestedTarget :: f64
  mq_admissionTuningActions :: nat
  mq_admissionTuningSignal :: f64
  mq_admissionTuningLastChange :: f64
  mq_admissionTuningMode :: "f64 vec"
  mq_admissionTuningReason :: "f64 vec"
  mq_lastTuningMode :: string
  mq_lastTuningReason :: string
  mq_admittedTotal :: "64 word"
  mq_completedTotal :: "64 word"
  mq_rejectedTotal :: "64 word"
  mq_softRejectedTotal :: "64 word"
  mq_hardRejectedTotal :: "64 word"
  mq_inflightTotal :: int

record routing_metrics =
  mr_circuitOpen :: "f64 vec"
  mr_circuitOpens :: "nat vec"
  mr_routingDecisions :: "nat vec"
  mr_routingReasons :: "nat vec"
  mr_sessionKeySpillovers :: "nat vec"
  mr_routeFallbacks :: nat
  mr_predictionShadows :: "nat vec"
  mr_predictionErrors :: "f64 list"
  mr_staticEstimatorSelections :: "nat vec"
  mr_staticEstimatedTTFT :: "f64 list"
  mr_staticEstimatorErrors :: "f64 list"
  mr_hardOverloadSelections :: "nat vec"

record observation_metrics =
  mo_status :: "f64 vec"
  mo_freshness :: "f64 vec"
  mo_queue :: "f64 vec"
  mo_running :: "f64 vec"
  mo_identity :: "f64 vec"
  mo_gpu :: "f64 vec"
  mo_cpu :: "f64 vec"
  mo_memory :: "f64 vec"
  mo_gpuUtilization :: "f64 vec"
  mo_gpuMemory :: "f64 vec"
  mo_gpuTemperature :: "f64 vec"
  mo_ids :: "string list" \<comment> \<open>the key set \<open>observationIDs\<close>\<close>
  mo_identityLabels :: "(string, string \<times> string) gomap"

record discovery_metrics =
  md_status :: "f64 vec"
  md_freshness :: f64
  md_ready :: f64

record kv_metrics =
  mk_valid :: "f64 vec"
  mk_freshness :: "f64 vec"
  mk_lastSequence :: "f64 vec"
  mk_appliedBatches :: "f64 vec"
  mk_replayBatches :: "f64 vec"
  mk_sequenceResets :: "nat vec"
  mk_eventErrors :: "nat vec"
  mk_status :: "f64 vec"
  mk_publishToApply :: "f64 list vec"
  mk_requests :: "nat vec"
  mk_degradations :: "nat vec"
  mk_bypasses :: "nat vec"
  mk_cachedPrefix :: "f64 list"
  mk_ids :: "string list"
  mk_statuses :: "(string, string) gomap"
  mk_errorReasons :: "(string, string list) gomap"

record Metrics =
  mx_request :: request_metrics
  mx_routing :: routing_metrics
  mx_observation :: observation_metrics
  mx_discovery :: discovery_metrics
  mx_kv :: kv_metrics

definition initializeRequestMetrics :: request_metrics where
  "initializeRequestMetrics = \<lparr>mq_inflight = 0, mq_admittedRequests = 0, mq_requests = [], mq_requestSeconds = [],
     mq_ttftSeconds = [], mq_upstreamErrors = 0, mq_streamErrors = 0, mq_admissionRejections = 0,
     mq_admissionSoftRejections = 0, mq_admissionHardRejections = 0, mq_admissionTarget = Fin 0, mq_admissionHardLimit = Fin 0,
     mq_admissionSuggestedTarget = Fin 0, mq_admissionTuningActions = 0, mq_admissionTuningSignal = Fin 0,
     mq_admissionTuningLastChange = Fin 0, mq_admissionTuningMode = [], mq_admissionTuningReason = [], mq_lastTuningMode = '''',
     mq_lastTuningReason = '''', mq_admittedTotal = 0, mq_completedTotal = 0, mq_rejectedTotal = 0, mq_softRejectedTotal = 0,
     mq_hardRejectedTotal = 0, mq_inflightTotal = 0\<rparr>"

definition initializeRoutingMetrics :: routing_metrics where
  "initializeRoutingMetrics = \<lparr>mr_circuitOpen = [], mr_circuitOpens = [], mr_routingDecisions = [], mr_routingReasons = [],
     mr_sessionKeySpillovers = [], mr_routeFallbacks = 0, mr_predictionShadows = [], mr_predictionErrors = [],
     mr_staticEstimatorSelections = [], mr_staticEstimatedTTFT = [], mr_staticEstimatorErrors = [], mr_hardOverloadSelections = []\<rparr>"

definition initializeObservationMetrics :: observation_metrics where
  "initializeObservationMetrics = \<lparr>mo_status = [], mo_freshness = [], mo_queue = [], mo_running = [], mo_identity = [],
     mo_gpu = [], mo_cpu = [], mo_memory = [], mo_gpuUtilization = [], mo_gpuMemory = [], mo_gpuTemperature = [],
     mo_ids = [], mo_identityLabels = []\<rparr>"

definition initializeDiscoveryMetrics :: discovery_metrics where
  "initializeDiscoveryMetrics = \<lparr>md_status = [], md_freshness = Fin 0, md_ready = Fin 0\<rparr>"

definition initializeKVCacheMetrics :: kv_metrics where
  "initializeKVCacheMetrics = \<lparr>mk_valid = [], mk_freshness = [], mk_lastSequence = [], mk_appliedBatches = [],
     mk_replayBatches = [], mk_sequenceResets = [], mk_eventErrors = [], mk_status = [], mk_publishToApply = [],
     mk_requests = [], mk_degradations = [], mk_bypasses = [], mk_cachedPrefix = [], mk_ids = [], mk_statuses = [],
     mk_errorReasons = []\<rparr>"

definition NewMetrics :: Metrics where
  "NewMetrics = \<lparr>mx_request = initializeRequestMetrics, mx_routing = initializeRoutingMetrics,
     mx_observation = initializeObservationMetrics, mx_discovery = initializeDiscoveryMetrics, mx_kv = initializeKVCacheMetrics\<rparr>"

subsection \<open>Observations\<close>

definition deleteObservation :: "string \<Rightarrow> observation_metrics \<Rightarrow> observation_metrics" where
  "deleteObservation i om =
     om\<lparr>mo_status := foldl (\<lambda>v status. vdel [i, status] v) (mo_status om) [StatusOK, StatusDegraded, StatusUnavailable],
        mo_freshness := vdel [i] (mo_freshness om), mo_queue := vdel [i] (mo_queue om), mo_running := vdel [i] (mo_running om),
        mo_gpu := vdel [i] (mo_gpu om), mo_cpu := vdel [i] (mo_cpu om), mo_memory := vdel [i] (mo_memory om),
        mo_gpuUtilization := vdel [i] (mo_gpuUtilization om), mo_gpuMemory := vdel [i] (mo_gpuMemory om),
        mo_gpuTemperature := vdel [i] (mo_gpuTemperature om),
        mo_identity := (case map_of (mo_identityLabels om) i of
            Some (pod, node) \<Rightarrow> vdel [i, pod, node] (mo_identity om) | None \<Rightarrow> mo_identity om),
        mo_identityLabels := AList.delete i (mo_identityLabels om),
        mo_ids := removeAll i (mo_ids om)\<rparr>"

definition setRuntimeGauge :: "string \<Rightarrow> Sample \<Rightarrow> f64 vec \<Rightarrow> f64 vec" where
  "setRuntimeGauge i sample v = (if smp_Valid sample then vset [i] (smp_Value sample) v else vdel [i] v)"

definition set_status :: "string \<Rightarrow> string \<Rightarrow> f64 vec \<Rightarrow> f64 vec" where
  "set_status i current v =
     foldl (\<lambda>v status. if status \<noteq> current then vset [i, status] (Fin 0) v else v) (vset [i, current] (Fin 1) v)
       [StatusOK, StatusDegraded, StatusUnavailable]"

definition set_identity :: "string \<Rightarrow> Identity \<Rightarrow> (string, string \<times> string) gomap \<Rightarrow> f64 vec \<Rightarrow> f64 vec" where
  "set_identity i ident identityLabels v =
     (let v1 = (case map_of identityLabels i of
                  Some (pod, node) \<Rightarrow> if (pod, node) \<noteq> (idn_PodName ident, idn_NodeName ident) then vdel [i, pod, node] v else v
                | None \<Rightarrow> v)
      in vset [i, idn_PodName ident, idn_NodeName ident] (Fin 1) v1)"

definition observe_backend :: "string \<Rightarrow> Observed \<Rightarrow> observation_metrics \<Rightarrow> observation_metrics" where
  \<comment> \<open>the body of the second loop of \<open>updateBackendObservations\<close>\<close>
  "observe_backend i st om =
     om\<lparr>mo_status := set_status i (obs_Status st) (mo_status om),
        mo_freshness := vset [i] (Duration_Seconds (obs_Freshness st)) (mo_freshness om),
        mo_queue := setRuntimeGauge i (QueueLength st) (mo_queue om),
        mo_running := setRuntimeGauge i (RunningRequests st) (mo_running om),
        mo_identity := set_identity i (obs_Identity st) (mo_identityLabels om) (mo_identity om),
        mo_gpu := vset [i] (idn_GPURequested (obs_Identity st)) (mo_gpu om),
        mo_cpu := setRuntimeGauge i (CPUUsageCores (obs_Runtime st)) (mo_cpu om),
        mo_memory := setRuntimeGauge i (MemoryUsageBytes (obs_Runtime st)) (mo_memory om),
        mo_gpuUtilization := setRuntimeGauge i (GPUUtilizationPercent (obs_Runtime st)) (mo_gpuUtilization om),
        mo_gpuMemory := setRuntimeGauge i (GPUMemoryUsedBytes (obs_Runtime st)) (mo_gpuMemory om),
        mo_gpuTemperature := setRuntimeGauge i (GPUTemperatureCelsius (obs_Runtime st)) (mo_gpuTemperature om),
        mo_identityLabels := AList.update i (idn_PodName (obs_Identity st), idn_NodeName (obs_Identity st)) (mo_identityLabels om),
        mo_ids := List.insert i (mo_ids om)\<rparr>"

definition updateBackendObservations :: "(ID, Observed) gomap \<Rightarrow> observation_metrics \<Rightarrow> observation_metrics" where
  "updateBackendObservations states om =
     foldl (\<lambda>om e. observe_backend (fst e) (snd e) om)
       (foldl (\<lambda>om i. if mhas states i then om else deleteObservation i om) om (mo_ids om)) states"

subsection \<open>KV cache\<close>

definition kvEventSourceLive :: string where "kvEventSourceLive = ''live''"
definition kvEventSourceReplay :: string where "kvEventSourceReplay = ''replay''"

definition kvCacheStateReason :: "KVCacheState \<Rightarrow> string" where
  "kvCacheStateReason st =
     (if kc_Valid st then ''ready'' else if kc_Reason st = KVNone then ''unknown'' else kv_reason_text (kc_Reason st))"

definition boolMetric :: "bool \<Rightarrow> f64" where
  "boolMetric b = (if b then Fin 1 else Fin 0)"

definition deleteKVCache :: "string \<Rightarrow> kv_metrics \<Rightarrow> kv_metrics" where
  "deleteKVCache i km =
     km\<lparr>mk_valid := vdel [i] (mk_valid km), mk_freshness := vdel [i] (mk_freshness km),
        mk_lastSequence := vdel [i] (mk_lastSequence km), mk_appliedBatches := vdel [i] (mk_appliedBatches km),
        mk_replayBatches := vdel [i] (mk_replayBatches km),
        mk_sequenceResets := vdel [i, kvEventSourceReplay] (vdel [i, kvEventSourceLive] (mk_sequenceResets km)),
        mk_publishToApply := vdel [i, kvEventSourceReplay] (vdel [i, kvEventSourceLive] (mk_publishToApply km)),
        mk_eventErrors := foldl (\<lambda>v reason. vdel [i, reason] v) (mk_eventErrors km) (mget [] (mk_errorReasons km) i),
        mk_errorReasons := AList.delete i (mk_errorReasons km),
        mk_status := (case map_of (mk_statuses km) i of Some status \<Rightarrow> vdel [i, status] (mk_status km) | None \<Rightarrow> mk_status km),
        mk_statuses := AList.delete i (mk_statuses km),
        mk_ids := removeAll i (mk_ids km)\<rparr>"

definition set_kv_status :: "string \<Rightarrow> string \<Rightarrow> (string, string) gomap \<Rightarrow> f64 vec \<Rightarrow> f64 vec" where
  "set_kv_status i status statuses v =
     vset [i, status] (Fin 1)
       (case map_of statuses i of Some previous \<Rightarrow> if previous \<noteq> status then vdel [i, previous] v else v | None \<Rightarrow> v)"

definition observe_kv :: "string \<Rightarrow> KVCacheState \<Rightarrow> kv_metrics \<Rightarrow> kv_metrics" where
  "observe_kv i st km =
     (let status = kvCacheStateReason st in
      km\<lparr>mk_valid := vset [i] (boolMetric (kc_Valid st)) (mk_valid km),
         mk_freshness := vset [i] (Duration_Seconds (kc_Freshness st)) (mk_freshness km),
         mk_lastSequence := vset [i] (f_of_int (uint (kc_LastSequence st))) (mk_lastSequence km),
         mk_appliedBatches := vset [i] (f_of_int (uint (kc_AppliedBatches st))) (mk_appliedBatches km),
         mk_replayBatches := vset [i] (f_of_int (uint (kc_ReplayBatches st))) (mk_replayBatches km),
         mk_status := set_kv_status i status (mk_statuses km) (mk_status km),
         mk_ids := List.insert i (mk_ids km),
         mk_statuses := AList.update i status (mk_statuses km)\<rparr>)"

definition updateKVCache :: "(ID, KVCacheState) gomap \<Rightarrow> kv_metrics \<Rightarrow> kv_metrics" where
  "updateKVCache states km =
     foldl (\<lambda>km e. observe_kv (fst e) (snd e) km)
       (foldl (\<lambda>km i. if mhas states i then km else deleteKVCache i km) km (mk_ids km)) states"

definition event_source :: "bool \<Rightarrow> string" where
  "event_source replayed = (if replayed then kvEventSourceReplay else kvEventSourceLive)"

definition ObserveKVEvent :: "string \<Rightarrow> bool \<Rightarrow> duration \<Rightarrow> Metrics \<Rightarrow> Metrics" where
  "ObserveKVEvent i replayed publishToApply m =
     m\<lparr>mx_kv := (mx_kv m)\<lparr>mk_publishToApply :=
        vobserve [i, event_source replayed] (Duration_Seconds publishToApply) (mk_publishToApply (mx_kv m))\<rparr>\<rparr>"

definition ObserveKVSequenceReset :: "string \<Rightarrow> bool \<Rightarrow> Metrics \<Rightarrow> Metrics" where
  "ObserveKVSequenceReset i replayed m =
     m\<lparr>mx_kv := (mx_kv m)\<lparr>mk_sequenceResets := vinc [i, event_source replayed] (mk_sequenceResets (mx_kv m))\<rparr>\<rparr>"

definition ObserveKVEventError :: "string \<Rightarrow> string \<Rightarrow> Metrics \<Rightarrow> Metrics" where
  "ObserveKVEventError i reason m =
     m\<lparr>mx_kv := (mx_kv m)\<lparr>mk_eventErrors := vinc [i, reason] (mk_eventErrors (mx_kv m)),
        mk_errorReasons := AList.update i (List.insert reason (mget [] (mk_errorReasons (mx_kv m)) i)) (mk_errorReasons (mx_kv m))\<rparr>\<rparr>"

subsection \<open>Circuits, discovery and membership\<close>

definition updateCircuit :: "string \<Rightarrow> bool \<Rightarrow> routing_metrics \<Rightarrow> routing_metrics" where
  "updateCircuit i is_open rm = rm\<lparr>mr_circuitOpen := vset [i] (boolMetric is_open) (mr_circuitOpen rm)\<rparr>"

definition circuitOpened :: "string \<Rightarrow> routing_metrics \<Rightarrow> routing_metrics" where
  "circuitOpened i rm = rm\<lparr>mr_circuitOpens := vinc [i] (mr_circuitOpens rm), mr_circuitOpen := vset [i] (Fin 1) (mr_circuitOpen rm)\<rparr>"

definition DeleteBackend :: "string \<Rightarrow> string \<Rightarrow> Metrics \<Rightarrow> Metrics" where
  "DeleteBackend i routingMode m =
     m\<lparr>mx_routing := (mx_routing m)\<lparr>mr_routingDecisions := vdel [routingMode, i] (mr_routingDecisions (mx_routing m)),
          mr_circuitOpen := vdel [i] (mr_circuitOpen (mx_routing m)), mr_circuitOpens := vdel [i] (mr_circuitOpens (mx_routing m))\<rparr>,
       mx_observation := deleteObservation i (mx_observation m),
       mx_kv := deleteKVCache i (mx_kv m)\<rparr>"

definition updateEndpointDiscovery :: "ResolverStatus \<Rightarrow> discovery_metrics \<Rightarrow> discovery_metrics" where
  "updateEndpointDiscovery status dm =
     dm\<lparr>md_status := vset [discovery_status_text (rs_Status status)] (Fin 1)
          (foldl (\<lambda>v s. vset [s] (Fin 0) v) (md_status dm) (map discovery_status_text [DiscoveryOK, DiscoveryDegraded, DiscoveryUnavailable])),
        md_freshness := Duration_Seconds (rs_Freshness status), md_ready := f_of_int (rs_ReadyBackends status)\<rparr>"

definition updateRequestPath :: "path_State \<Rightarrow> Metrics \<Rightarrow> Metrics" where
  "updateRequestPath st m =
     m\<lparr>mx_observation := updateBackendObservations (ps_Observations st) (mx_observation m),
       mx_discovery := updateEndpointDiscovery (ps_Discovery st) (mx_discovery m),
       mx_kv := updateKVCache (ps_KVCache st) (mx_kv m),
       mx_routing := foldl (\<lambda>rm e. updateCircuit (fst e) (snd e) rm) (mx_routing m) (ps_CircuitOpen st)\<rparr>"

subsection \<open>Requests\<close>

definition observeRequest :: "string \<Rightarrow> int \<Rightarrow> duration \<Rightarrow> request_metrics \<Rightarrow> request_metrics" where
  "observeRequest httpMethod status duration qm =
     qm\<lparr>mq_requests := vinc [httpMethod, dec_int status] (mq_requests qm),
        mq_requestSeconds := vobserve [httpMethod, dec_int status] (Duration_Seconds duration) (mq_requestSeconds qm),
        mq_completedTotal := mq_completedTotal qm + 1\<rparr>"

definition observeAdmissionAccepted :: "request_metrics \<Rightarrow> request_metrics" where
  "observeAdmissionAccepted qm =
     qm\<lparr>mq_admittedRequests := mq_admittedRequests qm + 1, mq_admittedTotal := mq_admittedTotal qm + 1\<rparr>"

definition AdmissionSignal :: "time \<Rightarrow> request_metrics \<Rightarrow> Signal" where
  "AdmissionSignal now qm =
     \<lparr>sig_ObservedAt = now, sig_Inflight = mq_inflightTotal qm, AcceptedTotal = mq_admittedTotal qm,
      CompletedTotal = mq_completedTotal qm, RejectedTotal = mq_rejectedTotal qm,
      SoftRejectedTotal = mq_softRejectedTotal qm, HardRejectedTotal = mq_hardRejectedTotal qm\<rparr>"

definition UnixNano :: "time \<Rightarrow> int" where
  "UnixNano t = wrap64 (t - 62135596800 * 1000000000)"

definition show_only :: "string \<Rightarrow> string \<Rightarrow> f64 vec \<Rightarrow> f64 vec" where
  \<comment> \<open>replaces the series of the previous value by that of the current one\<close>
  "show_only previous current v =
     vset [current] (Fin 1) (if previous \<noteq> current \<and> previous \<noteq> '''' then vdel [previous] v else v)"

definition ObserveAdmissionTuning :: "admission_Decision \<Rightarrow> request_metrics \<Rightarrow> request_metrics" where
  "ObserveAdmissionTuning d qm =
     (let qm1 = qm\<lparr>mq_admissionTarget := f_of_int (AppliedTarget d), mq_admissionHardLimit := f_of_int (HardLimit d),
            mq_admissionSuggestedTarget := f_of_int (SuggestedTarget d), mq_admissionTuningSignal := boolMetric (dec_Valid d)\<rparr>;
          qm2 = (if dec_Changed d then qm1\<lparr>mq_admissionTuningActions := mq_admissionTuningActions qm1 + 1,
                   mq_admissionTuningLastChange := f_div (f_of_int (UnixNano (dec_ObservedAt d))) (Fin 1000000000)\<rparr> else qm1)
      in qm2\<lparr>mq_admissionTuningMode := show_only (mq_lastTuningMode qm2) (dec_Mode d) (mq_admissionTuningMode qm2),
             mq_lastTuningMode := dec_Mode d,
             mq_admissionTuningReason := show_only (mq_lastTuningReason qm2) (dec_Reason d) (mq_admissionTuningReason qm2),
             mq_lastTuningReason := dec_Reason d\<rparr>)"

subsection \<open>Selections and completions\<close>

definition count_decision :: "string \<Rightarrow> Decision \<Rightarrow> routing_metrics \<Rightarrow> routing_metrics" where
  "count_decision mode d rm =
     rm\<lparr>mr_routingDecisions := vinc [mode, bID (dc_Backend d)] (mr_routingDecisions rm),
        mr_routingReasons := vinc [reason_text (dc_Reason d)] (mr_routingReasons rm),
        mr_sessionKeySpillovers := (if dc_SpilloverReason d \<noteq> NoReason
          then vinc [reason_text (dc_SpilloverReason d)] (mr_sessionKeySpillovers rm) else mr_sessionKeySpillovers rm),
        mr_routeFallbacks := (if dc_Policy d = PolicyServiceFallbackV1 then mr_routeFallbacks rm + 1 else mr_routeFallbacks rm)\<rparr>"

definition count_kv :: "string \<Rightarrow> Decision \<Rightarrow> path_State \<Rightarrow> kv_metrics \<Rightarrow> kv_metrics" where
  "count_kv mode d st km =
     (if mode \<noteq> ModeKVAware then km
      else
        let km1 = km\<lparr>mk_requests := vinc [kv_status_text (ps_KV st)] (mk_requests km)\<rparr>;
            km2 = (if ps_KV st = KVAvailable
                   then km1\<lparr>mk_cachedPrefix := mk_cachedPrefix km1 @ [f_of_int (ps_CachedPrefixTokens st)]\<rparr> else km1)
        in if ps_KV st = KVShortContextBypassed then km2\<lparr>mk_bypasses := vinc [reason_text (dc_Reason d)] (mk_bypasses km2)\<rparr>
           else if ps_KV st \<noteq> KVAvailable \<and> ps_KV st \<noteq> KVNotRequested
           then km2\<lparr>mk_degradations := vinc [kv_status_text (ps_KV st)] (mk_degradations km2)\<rparr>
           else km2)"

definition or_unavailable :: "string \<Rightarrow> string" where
  "or_unavailable s = (if s = '''' then ''unavailable'' else s)"

definition count_estimate :: "Decision \<Rightarrow> EstimateEvidence \<Rightarrow> routing_metrics \<Rightarrow> routing_metrics" where
  "count_estimate d ev rm =
     (if ev_PromptTokens ev \<le> 0 then rm
      else rm\<lparr>mr_staticEstimatorSelections :=
                vinc [or_unavailable (ev_Confidence ev), or_unavailable (ev_Reason ev)] (mr_staticEstimatorSelections rm),
              mr_staticEstimatedTTFT := (if ev_Valid ev \<and> ev_EstimatedTTFT ev > 0
                then mr_staticEstimatedTTFT rm @ [Duration_Seconds (ev_EstimatedTTFT ev)] else mr_staticEstimatedTTFT rm),
              mr_hardOverloadSelections := (if ev_HardOverloadedCandidates ev > 0
                then vinc [if dc_Reason d = ReasonKVAwareHardOverloadFallback then ''all'' else ''partial''] (mr_hardOverloadSelections rm)
                else mr_hardOverloadSelections rm)\<rparr>)"

definition count_shadow :: "ID \<Rightarrow> Shadow \<Rightarrow> routing_metrics \<Rightarrow> routing_metrics" where
  "count_shadow selected shadow rm =
     (if sh_Status shadow = StatusNone then rm
      else rm\<lparr>mr_predictionShadows := vinc [shadow_status_text (sh_Status shadow),
         if sh_WouldSelect shadow = '''' then ''unavailable''
         else if sh_WouldSelect shadow = selected then ''same'' else ''different''] (mr_predictionShadows rm)\<rparr>)"

definition observeSelection :: "string \<Rightarrow> Decision \<Rightarrow> path_State \<Rightarrow> Metrics \<Rightarrow> Metrics" where
  "observeSelection mode d st m0 =
     (let m = updateRequestPath st m0 in
      m\<lparr>mx_routing := count_shadow (bID (dc_Backend d)) (ps_Prediction st)
           (count_estimate d (ps_Estimate st) (count_decision mode d (mx_routing m))),
        mx_kv := count_kv mode d st (mx_kv m)\<rparr>)"

definition observePrediction :: "path_State \<Rightarrow> prediction_Observation \<Rightarrow> routing_metrics \<Rightarrow> routing_metrics" where
  "observePrediction st ob rm =
     (let rm1 = (if ev_Valid (ps_Estimate st) \<and> ev_EstimatedTTFT (ps_Estimate st) > 0 \<and> po_Actual ob > 0
                 then let e = wrap64 (po_Actual ob - ev_EstimatedTTFT (ps_Estimate st));
                          e' = (if e < 0 then wrap64 (- e) else e)
                      in rm\<lparr>mr_staticEstimatorErrors := mr_staticEstimatorErrors rm @ [Duration_Seconds e']\<rparr>
                 else rm)
      in if \<not> po_Valid ob then rm1
         else let e = Duration_Seconds (po_Error ob)
              in rm1\<lparr>mr_predictionErrors := mr_predictionErrors rm1 @ [if f_lt e (Fin 0) then f_neg e else e]\<rparr>)"

definition observeCompletion :: "Decision \<Rightarrow> path_State \<Rightarrow> Completion \<Rightarrow> Metrics \<Rightarrow> Metrics" where
  "observeCompletion d st cp m =
     (let i = bID (dc_Backend d) in
      if cp_BackendRemoved cp then m
      else if \<not> mhas (ps_CircuitOpen st) i then m
      else if cp_CircuitOpened cp then m\<lparr>mx_routing := circuitOpened i (mx_routing m)\<rparr>
      else m\<lparr>mx_routing := updateCircuit i (cp_CircuitOpen cp) (mx_routing m)\<rparr>)"

subsection \<open>Which series can exist\<close>

definition keys_in :: "(string list \<Rightarrow> bool) \<Rightarrow> 'v vec \<Rightarrow> bool" where
  "keys_in P v \<longleftrightarrow> (\<forall>l x. map_of v l = Some x \<longrightarrow> P l)"

lemma keys_in_Nil [simp]: "keys_in P []"
  by (simp add: keys_in_def)

lemma keys_in_set [intro]: "keys_in P v \<Longrightarrow> P l \<Longrightarrow> keys_in P (vset l x v)"
  by (auto simp: keys_in_def vset_def update_conv')

lemma keys_in_inc [intro]: "keys_in P v \<Longrightarrow> P l \<Longrightarrow> keys_in P (vinc l v)"
  by (auto simp: keys_in_def vinc_def update_conv')

lemma keys_in_observe [intro]: "keys_in P v \<Longrightarrow> P l \<Longrightarrow> keys_in P (vobserve l x v)"
  by (auto simp: keys_in_def vobserve_def update_conv')

lemma keys_in_del [intro]: "keys_in P v \<Longrightarrow> keys_in P (vdel l v)"
  by (auto simp: keys_in_def vdel_def delete_conv' split: if_splits)

lemma keys_in_del_iff: "keys_in P (vdel l v) \<longleftrightarrow> keys_in (\<lambda>k. k \<noteq> l \<longrightarrow> P k) v"
  by (auto simp: keys_in_def vdel_def delete_conv' split: if_splits)

lemma keys_in_mono: "keys_in P v \<Longrightarrow> (\<And>l. P l \<Longrightarrow> Q l) \<Longrightarrow> keys_in Q v"
  by (auto simp: keys_in_def)

lemma keys_in_foldl_del: "keys_in P (foldl (\<lambda>v r. vdel (f r) v) v rs) \<longleftrightarrow> keys_in (\<lambda>k. k \<notin> f ` set rs \<longrightarrow> P k) v"
  by (induction rs arbitrary: v P) (simp_all add: keys_in_del_iff imp_conjL)

definition of_ids :: "string set \<Rightarrow> string list \<Rightarrow> bool" where
  "of_ids A l \<longleftrightarrow> (\<exists>i\<in>A. l = [i])"

lemma of_ids_mono: "keys_in (of_ids A) v \<Longrightarrow> A \<subseteq> B \<Longrightarrow> keys_in (of_ids B) v"
  by (erule keys_in_mono) (auto simp: of_ids_def)

lemma of_ids_set: "keys_in (of_ids A) v \<Longrightarrow> keys_in (of_ids (insert i A)) (vset [i] x v)"
  by (rule keys_in_set [OF of_ids_mono]) (auto simp: of_ids_def)

lemma of_ids_gauge: "keys_in (of_ids A) v \<Longrightarrow> keys_in (of_ids (insert i A)) (setRuntimeGauge i x v)"
  using of_ids_mono [of A v "insert i A"] by (auto simp: setRuntimeGauge_def of_ids_set)

lemma of_ids_del: "keys_in (of_ids A) v \<Longrightarrow> keys_in (of_ids (A - {i})) (vdel [i] v)"
  unfolding keys_in_del_iff by (erule keys_in_mono) (auto simp: of_ids_def)

definition observation_gauges :: "observation_metrics \<Rightarrow> f64 vec list" where
  "observation_gauges om = [mo_freshness om, mo_queue om, mo_running om, mo_gpu om, mo_cpu om, mo_memory om,
     mo_gpuUtilization om, mo_gpuMemory om, mo_gpuTemperature om]"

definition status_key :: "string set \<Rightarrow> string list \<Rightarrow> bool" where
  "status_key A l \<longleftrightarrow> (\<exists>i\<in>A. \<exists>s\<in>{StatusOK, StatusDegraded, StatusUnavailable}. l = [i, s])"

definition identity_key :: "string set \<Rightarrow> (string, string \<times> string) gomap \<Rightarrow> string list \<Rightarrow> bool" where
  "identity_key A labs l \<longleftrightarrow> (case l of [i, p, n] \<Rightarrow> i \<in> A \<and> map_of labs i = Some (p, n) | _ \<Rightarrow> False)"

definition observation_ok :: "observation_metrics \<Rightarrow> bool" where
  \<comment> \<open>every series belongs to a listed backend, and a backend has one identity series at most\<close>
  "observation_ok om \<longleftrightarrow> (\<forall>v\<in>set (observation_gauges om). keys_in (of_ids (set (mo_ids om))) v)
     \<and> keys_in (status_key (set (mo_ids om))) (mo_status om)
     \<and> keys_in (identity_key (set (mo_ids om)) (mo_identityLabels om)) (mo_identity om)"

lemma status_del:
  "keys_in (status_key A) v \<Longrightarrow>
     keys_in (status_key (A - {i})) (foldl (\<lambda>v s. vdel [i, s] v) v [StatusOK, StatusDegraded, StatusUnavailable])"
  unfolding keys_in_foldl_del by (erule keys_in_mono) (auto simp: status_key_def)

lemma status_set:
  assumes "keys_in (status_key A) v" and "s \<in> {StatusOK, StatusDegraded, StatusUnavailable}"
  shows "keys_in (status_key (insert i A)) (set_status i s v)"
proof -
  have "keys_in (status_key (insert i A)) v" using assms(1) by (rule keys_in_mono) (auto simp: status_key_def)
  moreover have "status_key (insert i A) [i, t]" if "t \<in> {StatusOK, StatusDegraded, StatusUnavailable}" for t
    using that by (simp add: status_key_def)
  ultimately show ?thesis using assms(2) by (auto simp: set_status_def)
qed

lemma identity_del:
  assumes "keys_in (identity_key A labs) v"
  shows "keys_in (identity_key (A - {i}) (AList.delete i labs))
           (case map_of labs i of Some (p, n) \<Rightarrow> vdel [i, p, n] v | None \<Rightarrow> v)"
proof (cases "map_of labs i")
  case None
  then show ?thesis using assms by (auto simp: delete_conv' identity_key_def elim!: keys_in_mono split: list.splits)
next
  case (Some pn)
  then show ?thesis using assms
    by (cases pn) (auto simp: keys_in_del_iff delete_conv' identity_key_def elim!: keys_in_mono split: list.splits)
qed

lemma identity_set:
  assumes "keys_in (identity_key A labs) v"
  shows "keys_in (identity_key (insert i A) (AList.update i (idn_PodName d, idn_NodeName d) labs)) (set_identity i d labs v)"
proof (cases "map_of labs i")
  case None
  then show ?thesis using assms unfolding set_identity_def Let_def
    by (auto intro!: keys_in_set simp: update_conv' identity_key_def elim!: keys_in_mono split: list.splits)
next
  case (Some pn)
  then show ?thesis using assms unfolding set_identity_def Let_def
    by (cases pn) (auto intro!: keys_in_set simp: update_conv' identity_key_def keys_in_del_iff elim!: keys_in_mono split: list.splits)
qed

lemma deleteObservation_ids [simp]: "set (mo_ids (deleteObservation i om)) = set (mo_ids om) - {i}"
  by (simp add: deleteObservation_def)

lemma deleteObservation_ok: "observation_ok om \<Longrightarrow> observation_ok (deleteObservation i om)"
  using status_del [of "set (mo_ids om)" "mo_status om" i] identity_del [of "set (mo_ids om)" "mo_identityLabels om" "mo_identity om" i]
  by (simp add: observation_ok_def observation_gauges_def deleteObservation_def of_ids_del)

lemma observe_backend_ids [simp]: "set (mo_ids (observe_backend i st om)) = insert i (set (mo_ids om))"
  by (simp add: observe_backend_def)

lemma observe_backend_ok:
  "observation_ok om \<Longrightarrow> obs_Status st \<in> {StatusOK, StatusDegraded, StatusUnavailable} \<Longrightarrow> observation_ok (observe_backend i st om)"
  using status_set [of "set (mo_ids om)" "mo_status om" "obs_Status st" i]
    identity_set [of "set (mo_ids om)" "mo_identityLabels om" "mo_identity om" i "obs_Identity st"]
  by (simp add: observation_ok_def observation_gauges_def observe_backend_def of_ids_set of_ids_gauge)

definition statuses_known :: "(ID, Observed) gomap \<Rightarrow> bool" where
  "statuses_known states \<longleftrightarrow> (\<forall>e\<in>set states. obs_Status (snd e) \<in> {StatusOK, StatusDegraded, StatusUnavailable})"

lemma prune_observations:
  "observation_ok om \<Longrightarrow>
     observation_ok (foldl (\<lambda>om i. if mhas states i then om else deleteObservation i om) om is)
     \<and> set (mo_ids (foldl (\<lambda>om i. if mhas states i then om else deleteObservation i om) om is))
       = set (mo_ids om) - {i\<in>set is. \<not> mhas states i}"
  by (induction "is" arbitrary: om) (auto simp: deleteObservation_ok)

lemma add_observations:
  "observation_ok om \<Longrightarrow> (\<forall>e\<in>set es. obs_Status (snd e) \<in> {StatusOK, StatusDegraded, StatusUnavailable}) \<Longrightarrow>
     observation_ok (foldl (\<lambda>om e. observe_backend (fst e) (snd e) om) om es)
     \<and> set (mo_ids (foldl (\<lambda>om e. observe_backend (fst e) (snd e) om) om es)) = set (mo_ids om) \<union> fst ` set es"
  by (induction es arbitrary: om) (auto simp: observe_backend_ok)

lemma updateBackendObservations_ok:
  assumes "observation_ok om" and "statuses_known states"
  shows "observation_ok (updateBackendObservations states om)"
    and "set (mo_ids (updateBackendObservations states om)) = fst ` set states"
proof -
  note p = prune_observations [OF assms(1), of states "mo_ids om"]
  note a = add_observations [OF conjunct1 [OF p], of states]
  show "observation_ok (updateBackendObservations states om)"
    using a assms(2) by (simp add: updateBackendObservations_def statuses_known_def)
  have "mhas states i \<longleftrightarrow> i \<in> fst ` set states" for i by (metis mhas_def map_of_eq_None_iff)
  then show "set (mo_ids (updateBackendObservations states om)) = fst ` set states"
    using a p assms(2) by (auto simp: updateBackendObservations_def statuses_known_def)
qed

subsection \<open>KV series\<close>

definition kv_gauges :: "kv_metrics \<Rightarrow> f64 vec list" where
  "kv_gauges km = [mk_valid km, mk_freshness km, mk_lastSequence km, mk_appliedBatches km, mk_replayBatches km]"

definition state_key :: "string set \<Rightarrow> (string, string) gomap \<Rightarrow> string list \<Rightarrow> bool" where
  "state_key A statuses l \<longleftrightarrow> (case l of [i, s] \<Rightarrow> i \<in> A \<and> map_of statuses i = Some s | _ \<Rightarrow> False)"

definition error_key :: "(string, string list) gomap \<Rightarrow> string list \<Rightarrow> bool" where
  "error_key reasons l \<longleftrightarrow> (case l of [i, r] \<Rightarrow> r \<in> set (mget [] reasons i) | _ \<Rightarrow> False)"

definition source_key :: "string list \<Rightarrow> bool" where
  "source_key l \<longleftrightarrow> (\<exists>i. l = [i, kvEventSourceLive] \<or> l = [i, kvEventSourceReplay])"

definition kv_ok :: "kv_metrics \<Rightarrow> bool" where
  \<comment> \<open>gauges and the one status series per backend follow \<open>kvCacheIDs\<close> and \<open>kvCacheStatuses\<close>; the event
      series follow \<open>kvCacheErrorReasons\<close> and the two sources\<close>
  "kv_ok km \<longleftrightarrow> (\<forall>v\<in>set (kv_gauges km). keys_in (of_ids (set (mk_ids km))) v)
     \<and> keys_in (state_key (set (mk_ids km)) (mk_statuses km)) (mk_status km)
     \<and> keys_in (error_key (mk_errorReasons km)) (mk_eventErrors km)
     \<and> keys_in source_key (mk_sequenceResets km) \<and> keys_in source_key (mk_publishToApply km)"

lemma state_del:
  assumes "keys_in (state_key A statuses) v"
  shows "keys_in (state_key (A - {i}) (AList.delete i statuses))
           (case map_of statuses i of Some s \<Rightarrow> vdel [i, s] v | None \<Rightarrow> v)"
  using assms
  by (cases "map_of statuses i") (auto simp: keys_in_del_iff delete_conv' state_key_def elim!: keys_in_mono split: list.splits)

lemma state_set:
  assumes "keys_in (state_key A statuses) v"
  shows "keys_in (state_key (insert i A) (AList.update i s statuses)) (set_kv_status i s statuses v)"
  using assms unfolding set_kv_status_def
  by (cases "map_of statuses i")
     (auto intro!: keys_in_set simp: update_conv' state_key_def keys_in_del_iff elim!: keys_in_mono split: list.splits)

lemma error_del:
  assumes "keys_in (error_key reasons) v"
  shows "keys_in (error_key (AList.delete i reasons)) (foldl (\<lambda>v r. vdel [i, r] v) v (mget [] reasons i))"
  unfolding keys_in_foldl_del using assms
  by (rule keys_in_mono) (auto simp: error_key_def mget_def delete_conv' split: list.splits option.splits if_splits)

lemma error_inc:
  assumes "keys_in (error_key reasons) v"
  shows "keys_in (error_key (AList.update i (List.insert r (mget [] reasons i)) reasons)) (vinc [i, r] v)"
proof (rule keys_in_inc)
  show "keys_in (error_key (AList.update i (List.insert r (mget [] reasons i)) reasons)) v"
    using assms by (rule keys_in_mono) (auto simp: error_key_def mget_def update_conv' split: list.splits option.splits if_splits)
  show "error_key (AList.update i (List.insert r (mget [] reasons i)) reasons) [i, r]"
    by (simp add: error_key_def mget_def update_conv')
qed

lemma source_key_event [simp]: "source_key [i, event_source replayed]"
  by (auto simp: source_key_def event_source_def)

lemma deleteKVCache_ids [simp]: "set (mk_ids (deleteKVCache i km)) = set (mk_ids km) - {i}"
  by (simp add: deleteKVCache_def)

lemma deleteKVCache_ok: "kv_ok km \<Longrightarrow> kv_ok (deleteKVCache i km)"
  using state_del [of "set (mk_ids km)" "mk_statuses km" "mk_status km" i] error_del [of "mk_errorReasons km" "mk_eventErrors km" i]
  by (simp add: kv_ok_def kv_gauges_def deleteKVCache_def of_ids_del keys_in_del)

lemma observe_kv_ids [simp]: "set (mk_ids (observe_kv i st km)) = insert i (set (mk_ids km))"
  by (simp add: observe_kv_def Let_def)

lemma observe_kv_ok: "kv_ok km \<Longrightarrow> kv_ok (observe_kv i st km)"
  using state_set [of "set (mk_ids km)" "mk_statuses km" "mk_status km" i "kvCacheStateReason st"]
  by (simp add: kv_ok_def kv_gauges_def observe_kv_def Let_def of_ids_set)

lemma prune_kv:
  "kv_ok km \<Longrightarrow>
     kv_ok (foldl (\<lambda>km i. if mhas states i then km else deleteKVCache i km) km is)
     \<and> set (mk_ids (foldl (\<lambda>km i. if mhas states i then km else deleteKVCache i km) km is))
       = set (mk_ids km) - {i\<in>set is. \<not> mhas states i}"
  by (induction "is" arbitrary: km) (auto simp: deleteKVCache_ok)

lemma add_kv:
  "kv_ok km \<Longrightarrow> kv_ok (foldl (\<lambda>km e. observe_kv (fst e) (snd e) km) km es)
     \<and> set (mk_ids (foldl (\<lambda>km e. observe_kv (fst e) (snd e) km) km es)) = set (mk_ids km) \<union> fst ` set es"
  by (induction es arbitrary: km) (auto simp: observe_kv_ok)

lemma mhas_keys: "mhas m k \<longleftrightarrow> k \<in> fst ` set m"
  by (metis mhas_def map_of_eq_None_iff)

lemma updateKVCache_ok:
  assumes "kv_ok km"
  shows "kv_ok (updateKVCache states km)" and "set (mk_ids (updateKVCache states km)) = fst ` set states"
proof -
  note p = prune_kv [OF assms, of states "mk_ids km"]
  note a = add_kv [OF conjunct1 [OF p], of states]
  show "kv_ok (updateKVCache states km)" using a by (simp add: updateKVCache_def)
  show "set (mk_ids (updateKVCache states km)) = fst ` set states"
    using a p by (auto simp: updateKVCache_def mhas_keys)
qed

subsection \<open>Reachable metrics\<close>

definition routing_ok :: "string \<Rightarrow> routing_metrics \<Rightarrow> bool" where
  "routing_ok mode rm \<longleftrightarrow> keys_in (of_ids UNIV) (mr_circuitOpen rm) \<and> keys_in (of_ids UNIV) (mr_circuitOpens rm)
     \<and> keys_in (\<lambda>l. \<exists>i. l = [mode, i]) (mr_routingDecisions rm)"

definition metrics_ok :: "string \<Rightarrow> Metrics \<Rightarrow> bool" where
  "metrics_ok mode m \<longleftrightarrow> observation_ok (mx_observation m) \<and> kv_ok (mx_kv m) \<and> routing_ok mode (mx_routing m)"

inductive metrics_step :: "string \<Rightarrow> Metrics \<Rightarrow> Metrics \<Rightarrow> bool" for mode where
  ms_request: "metrics_step mode m (m\<lparr>mx_request := qm\<rparr>)"
| ms_scrape: "statuses_known (ps_Observations st) \<Longrightarrow> metrics_step mode m (updateRequestPath st m)"
| ms_selection: "statuses_known (ps_Observations st) \<Longrightarrow> metrics_step mode m (observeSelection mode d st m)"
| ms_prediction: "metrics_step mode m (m\<lparr>mx_routing := observePrediction st ob (mx_routing m)\<rparr>)"
| ms_completion: "metrics_step mode m (observeCompletion d st cp m)"
| ms_event: "metrics_step mode m (ObserveKVEvent i replayed latency m)"
| ms_reset: "metrics_step mode m (ObserveKVSequenceReset i replayed m)"
| ms_error: "metrics_step mode m (ObserveKVEventError i reason m)"
| ms_delete: "metrics_step mode m (DeleteBackend i mode m)"

inductive metrics_reach :: "string \<Rightarrow> Metrics \<Rightarrow> bool" for mode where
  mreach_new: "metrics_reach mode NewMetrics"
| mreach_step: "metrics_reach mode m \<Longrightarrow> metrics_step mode m m' \<Longrightarrow> metrics_reach mode m'"

lemma of_any_id [simp]: "of_ids UNIV [i]"
  by (simp add: of_ids_def)

lemma circuit_keep:
  "routing_ok mode rm \<Longrightarrow> routing_ok mode (updateCircuit i is_open rm)"
  "routing_ok mode rm \<Longrightarrow> routing_ok mode (circuitOpened i rm)"
  by (simp_all add: routing_ok_def updateCircuit_def circuitOpened_def keys_in_set keys_in_inc)

lemma circuits_keep:
  "routing_ok mode rm \<Longrightarrow> routing_ok mode (foldl (\<lambda>rm e. updateCircuit (fst e) (snd e) rm) rm es)"
  by (induction es arbitrary: rm) (simp_all add: circuit_keep)

lemma updateRequestPath_ok:
  "metrics_ok mode m \<Longrightarrow> statuses_known (ps_Observations st) \<Longrightarrow> metrics_ok mode (updateRequestPath st m)"
  by (simp add: metrics_ok_def updateRequestPath_def updateBackendObservations_ok updateKVCache_ok circuits_keep)

lemma count_kv_ok: "kv_ok km \<Longrightarrow> kv_ok (count_kv mode d st km)"
  by (simp add: count_kv_def kv_ok_def kv_gauges_def Let_def)

lemma count_decision_ok: "routing_ok mode rm \<Longrightarrow> routing_ok mode (count_decision mode d rm)"
  by (auto simp: count_decision_def routing_ok_def)

lemma count_routing_ok:
  "routing_ok mode (count_estimate d ev rm) \<longleftrightarrow> routing_ok mode rm"
  "routing_ok mode (count_shadow i sh rm) \<longleftrightarrow> routing_ok mode rm"
  "routing_ok mode (observePrediction st ob rm) \<longleftrightarrow> routing_ok mode rm"
  by (simp_all add: count_estimate_def count_shadow_def observePrediction_def routing_ok_def Let_def)

lemma metrics_step_ok: "metrics_step mode m m' \<Longrightarrow> metrics_ok mode m \<Longrightarrow> metrics_ok mode m'"
proof (induction rule: metrics_step.induct)
  case (ms_selection st m d)
  then have "metrics_ok mode (updateRequestPath st m)" by (simp add: updateRequestPath_ok)
  then show ?case by (simp add: observeSelection_def Let_def metrics_ok_def count_kv_ok count_decision_ok count_routing_ok)
next
  case (ms_completion m d st cp)
  then show ?case
    by (simp add: observeCompletion_def Let_def metrics_ok_def circuit_keep)
next
  case (ms_delete m i)
  then show ?case by (simp add: DeleteBackend_def metrics_ok_def deleteObservation_ok deleteKVCache_ok routing_ok_def keys_in_del)
next
  case (ms_error m i reason)
  then show ?case using error_inc [of "mk_errorReasons (mx_kv m)" "mk_eventErrors (mx_kv m)" i reason]
    by (simp add: ObserveKVEventError_def metrics_ok_def kv_ok_def kv_gauges_def)
next
  case (ms_event m i replayed latency)
  then show ?case by (simp add: ObserveKVEvent_def metrics_ok_def kv_ok_def kv_gauges_def keys_in_observe)
next
  case (ms_reset m i replayed)
  then show ?case by (simp add: ObserveKVSequenceReset_def metrics_ok_def kv_ok_def kv_gauges_def keys_in_inc)
next
  case (ms_scrape st m)
  then show ?case by (simp add: updateRequestPath_ok)
qed (simp_all add: metrics_ok_def count_routing_ok)

lemma NewMetrics_ok: "metrics_ok mode NewMetrics"
  by (simp add: NewMetrics_def metrics_ok_def observation_ok_def observation_gauges_def kv_ok_def kv_gauges_def
      routing_ok_def initializeObservationMetrics_def initializeKVCacheMetrics_def initializeRoutingMetrics_def)

lemma metrics_reach_ok: "metrics_reach mode m \<Longrightarrow> metrics_ok mode m"
  by (induction rule: metrics_reach.induct) (simp_all add: metrics_step_ok NewMetrics_ok)

subsection \<open>The series of one backend\<close>

definition named :: "string \<Rightarrow> 'v vec \<Rightarrow> (string \<times> string list) list" where
  "named n v = map (\<lambda>e. (n, fst e)) v"

definition backend_series :: "Metrics \<Rightarrow> (string \<times> string list) list" where
  \<comment> \<open>the published series that carry a backend label: the name of the metric and the label values\<close>
  "backend_series m = concat
     [named ''backend_circuit_open'' (mr_circuitOpen (mx_routing m)),
      named ''backend_circuit_opens_total'' (mr_circuitOpens (mx_routing m)),
      named ''routing_decisions_total'' (mr_routingDecisions (mx_routing m)),
      named ''backend_observation_status'' (mo_status (mx_observation m)),
      named ''backend_observation_freshness_seconds'' (mo_freshness (mx_observation m)),
      named ''backend_observation_queue_length'' (mo_queue (mx_observation m)),
      named ''backend_observation_running_requests'' (mo_running (mx_observation m)),
      named ''backend_identity_info'' (mo_identity (mx_observation m)),
      named ''backend_gpu_requested'' (mo_gpu (mx_observation m)),
      named ''backend_cpu_usage_cores'' (mo_cpu (mx_observation m)),
      named ''backend_memory_usage_bytes'' (mo_memory (mx_observation m)),
      named ''backend_gpu_utilization_percent'' (mo_gpuUtilization (mx_observation m)),
      named ''backend_gpu_memory_used_bytes'' (mo_gpuMemory (mx_observation m)),
      named ''backend_gpu_temperature_celsius'' (mo_gpuTemperature (mx_observation m)),
      named ''kv_cache_instance_valid'' (mk_valid (mx_kv m)),
      named ''kv_cache_freshness_seconds'' (mk_freshness (mx_kv m)),
      named ''kv_cache_last_sequence'' (mk_lastSequence (mx_kv m)),
      named ''kv_cache_applied_batches'' (mk_appliedBatches (mx_kv m)),
      named ''kv_cache_replay_batches'' (mk_replayBatches (mx_kv m)),
      named ''kv_cache_sequence_resets_total'' (mk_sequenceResets (mx_kv m)),
      named ''kv_event_errors_total'' (mk_eventErrors (mx_kv m)),
      named ''kv_cache_status'' (mk_status (mx_kv m)),
      named ''kv_event_publish_to_apply_seconds'' (mk_publishToApply (mx_kv m))]"

definition series_backend :: "string \<times> string list \<Rightarrow> string" where
  \<comment> \<open>the value of the label \<open>backend_id\<close>: second in the routing decisions, first everywhere else\<close>
  "series_backend s = (if fst s = ''routing_decisions_total'' then snd s ! 1 else snd s ! 0)"

definition keep_others :: "string \<Rightarrow> (string \<times> string list) set \<Rightarrow> (string \<times> string list) set" where
  "keep_others i S = {s \<in> S. series_backend s \<noteq> i}"

lemma keep_others_Un: "keep_others i (A \<union> B) = keep_others i A \<union> keep_others i B"
  by (auto simp: keep_others_def)

lemma keys_in_fst: "keys_in P v \<longleftrightarrow> (\<forall>l\<in>fst ` set v. P l)"
  unfolding keys_in_def by (metis map_of_eq_None_iff not_None_eq)

lemma named_del: "set (named n (vdel l v)) = set (named n v) - {(n, l)}"
  by (auto simp: named_def vdel_def AList.delete_eq)

lemma named_dels: "set (named n (foldl (\<lambda>v r. vdel (f r) v) v rs)) = set (named n v) - (\<lambda>r. (n, f r)) ` set rs"
  by (induction rs arbitrary: v) (auto simp: named_del)

lemma keep_named:
  assumes "keys_in (\<lambda>l. series_backend (n, l) = i \<longrightarrow> l \<in> D) v" and "\<forall>l\<in>D. series_backend (n, l) = i"
  shows "keep_others i (set (named n v)) = set (named n v) - Pair n ` D"
  using assms unfolding keep_others_def named_def keys_in_fst by auto

lemma keep_ids:
  "keys_in (of_ids A) v \<Longrightarrow> n \<noteq> ''routing_decisions_total'' \<Longrightarrow> keep_others i (set (named n v)) = set (named n (vdel [i] v))"
  unfolding named_del by (subst keep_named [where D = "{[i]}"]) (auto simp: series_backend_def of_ids_def elim!: keys_in_mono)

lemma keep_decisions:
  "keys_in (\<lambda>l. \<exists>i. l = [mode, i]) v \<Longrightarrow>
     keep_others i (set (named ''routing_decisions_total'' v)) = set (named ''routing_decisions_total'' (vdel [mode, i] v))"
  unfolding named_del by (subst keep_named [where D = "{[mode, i]}"]) (auto simp: series_backend_def elim!: keys_in_mono)

lemma keep_status:
  "keys_in (status_key A) v \<Longrightarrow>
     keep_others i (set (named ''backend_observation_status'' v))
     = set (named ''backend_observation_status'' (foldl (\<lambda>v s. vdel [i, s] v) v [StatusOK, StatusDegraded, StatusUnavailable]))"
  unfolding named_dels
  by (subst keep_named [where D = "(\<lambda>s. [i, s]) ` {StatusOK, StatusDegraded, StatusUnavailable}"])
     (auto simp: series_backend_def status_key_def elim!: keys_in_mono)

lemma keep_identity:
  "keys_in (identity_key A labs) v \<Longrightarrow>
     keep_others i (set (named ''backend_identity_info'' v))
     = set (named ''backend_identity_info'' (case map_of labs i of Some (p, n) \<Rightarrow> vdel [i, p, n] v | None \<Rightarrow> v))"
  by (subst keep_named [where D = "case map_of labs i of Some (p, n) \<Rightarrow> {[i, p, n]} | None \<Rightarrow> {}"])
     (auto simp: series_backend_def identity_key_def named_del split: option.splits list.splits elim!: keys_in_mono)

lemma keep_sources:
  "keys_in source_key v \<Longrightarrow> n \<noteq> ''routing_decisions_total'' \<Longrightarrow>
     keep_others i (set (named n v)) = set (named n (vdel [i, kvEventSourceReplay] (vdel [i, kvEventSourceLive] v)))"
  unfolding named_del
  by (subst keep_named [where D = "{[i, kvEventSourceLive], [i, kvEventSourceReplay]}"])
     (auto simp: series_backend_def source_key_def elim!: keys_in_mono)

lemma keep_errors:
  "keys_in (error_key reasons) v \<Longrightarrow>
     keep_others i (set (named ''kv_event_errors_total'' v))
     = set (named ''kv_event_errors_total'' (foldl (\<lambda>v r. vdel [i, r] v) v (mget [] reasons i)))"
  unfolding named_dels
  by (subst keep_named [where D = "(\<lambda>r. [i, r]) ` set (mget [] reasons i)"])
     (auto simp: series_backend_def error_key_def split: list.splits elim!: keys_in_mono)

lemma keep_state:
  "keys_in (state_key A statuses) v \<Longrightarrow>
     keep_others i (set (named ''kv_cache_status'' v))
     = set (named ''kv_cache_status'' (case map_of statuses i of Some s \<Rightarrow> vdel [i, s] v | None \<Rightarrow> v))"
  by (subst keep_named [where D = "case map_of statuses i of Some s \<Rightarrow> {[i, s]} | None \<Rightarrow> {}"])
     (auto simp: series_backend_def state_key_def named_del split: option.splits list.splits elim!: keys_in_mono)

lemmas keep_series = keep_decisions keep_status keep_identity keep_sources keep_errors keep_state keep_ids

text \<open>
  C13. When a backend leaves the membership, \<open>DeleteBackend\<close> removes exactly its series: after any history of
  selections, completions, scrapes, KV events and earlier deletions, no circuit, routing, observation,
  identity or KV series with its label is left, and the series of every other backend are untouched. The
  deletions name full label tuples, so this rests on the identity tuple, the KV status and the error
  reasons that the code keeps beside the vectors.
\<close>
theorem delete_backend_exact:
  assumes "metrics_reach mode m"
  shows "set (backend_series (DeleteBackend i mode m)) = {s \<in> set (backend_series m). series_backend s \<noteq> i}"
proof -
  have "metrics_ok mode m" using assms by (rule metrics_reach_ok)
  then have "keep_others i (set (backend_series m)) = set (backend_series (DeleteBackend i mode m))"
    unfolding metrics_ok_def observation_ok_def observation_gauges_def kv_ok_def kv_gauges_def routing_ok_def
    apply (elim conjE)
    apply (simp only: list.set ball_simps(5) ball_simps(7))
    apply (elim conjE)
    apply (simp add: backend_series_def DeleteBackend_def deleteObservation_def deleteKVCache_def keep_others_Un keep_series del: foldl.simps)
    done
  then show ?thesis by (simp add: keep_others_def)
qed

definition wit_metrics :: Metrics where
  "wit_metrics = ObserveKVEvent ''b'' False 0 (ObserveKVSequenceReset ''a'' True
     (ObserveKVEventError ''a'' ''event-decode-failed'' NewMetrics))"

lemma wit_metrics_reach: "metrics_reach mode wit_metrics"
  unfolding wit_metrics_def by (intro mreach_step [OF _ ms_event] mreach_step [OF _ ms_reset] mreach_step [OF _ ms_error] mreach_new)

lemma wit_metrics_series:
  "backend_series wit_metrics =
     [(''kv_cache_sequence_resets_total'', [''a'', ''replay'']), (''kv_event_errors_total'', [''a'', ''event-decode-failed'']),
      (''kv_event_publish_to_apply_seconds'', [''b'', ''live''])]"
  by (simp add: wit_metrics_def backend_series_def ObserveKVEvent_def ObserveKVSequenceReset_def ObserveKVEventError_def
      NewMetrics_def initializeRoutingMetrics_def initializeObservationMetrics_def initializeKVCacheMetrics_def named_def
      vinc_def vobserve_def event_source_def kvEventSourceLive_def kvEventSourceReplay_def)

theorem delete_backend_exact_witness:
  "metrics_reach ''kv-aware'' wit_metrics
   \<and> set (backend_series (DeleteBackend ''a'' ''kv-aware'' wit_metrics)) = {(''kv_event_publish_to_apply_seconds'', [''b'', ''live''])}"
  using delete_backend_exact [OF wit_metrics_reach [of "''kv-aware''"], of "''a''", folded set_filter]
    wit_metrics_reach [of "''kv-aware''"]
  by (simp add: wit_metrics_series series_backend_def)

end
