(* ===== verification/Forwarding.thy ===== *)
theory Forwarding
  imports Backend "HOL-Library.Sublist"
begin

text \<open>
  The protocol work of \<open>internal/serving/gateway/proxy_impl.go\<close>: the bounded read of the request body, the
  headers that cross the proxy, the URL of the upstream request, the detector of the first SSE event and
  the loop that copies the response. A header is a Go map from canonical names to their values; the
  bytes of a body are a string. The reader of the request, the upstream body and the writer to the
  client are arguments: what they return is theirs.
\<close>

subsection \<open>Headers\<close>

type_synonym Header = "(string, string list) gomap"

definition char_in :: "char \<Rightarrow> char \<Rightarrow> char \<Rightarrow> bool" where
  "char_in lo hi c \<longleftrightarrow> (of_char lo :: nat) \<le> of_char c \<and> (of_char c :: nat) \<le> of_char hi"

definition validHeaderFieldByte :: "char \<Rightarrow> bool" where
  "validHeaderFieldByte c \<longleftrightarrow> char_in (CHR ''0'') (CHR ''9'') c \<or> char_in (CHR ''a'') (CHR ''z'') c
     \<or> char_in (CHR ''A'') (CHR ''Z'') c \<or> c \<in> set [CHR ''!'', CHR ''#'', CHR ''$'', CHR ''%'', CHR ''&'', CHR 0x27, CHR ''*'',
       CHR ''+'', CHR ''-'', CHR ''.'', CHR ''^'', CHR ''_'', CHR 0x60, CHR ''|'', CHR ''~'']"

fun canonical_from :: "bool \<Rightarrow> string \<Rightarrow> string" where
  "canonical_from upper [] = []"
| "canonical_from upper (c # cs) =
     (let d = (if upper \<and> char_in (CHR ''a'') (CHR ''z'') c then char_of ((of_char c :: nat) - 32)
               else if \<not> upper \<and> char_in (CHR ''A'') (CHR ''Z'') c then char_of ((of_char c :: nat) + 32) else c)
      in d # canonical_from (d = CHR ''-'') cs)"

definition CanonicalMIMEHeaderKey :: "string \<Rightarrow> string" where
  "CanonicalMIMEHeaderKey s = (if list_all validHeaderFieldByte s then canonical_from True s else s)"

definition Header_Values :: "Header \<Rightarrow> string \<Rightarrow> string list" where
  "Header_Values h k = mget [] h (CanonicalMIMEHeaderKey k)"

definition Header_Get :: "Header \<Rightarrow> string \<Rightarrow> string" where
  "Header_Get h k = (case Header_Values h k of [] \<Rightarrow> '''' | v # _ \<Rightarrow> v)"

definition Header_Set :: "string \<Rightarrow> string \<Rightarrow> Header \<Rightarrow> Header" where
  "Header_Set k v h = AList.update (CanonicalMIMEHeaderKey k) [v] h"

definition Header_Add :: "string \<Rightarrow> string \<Rightarrow> Header \<Rightarrow> Header" where
  "Header_Add k v h = AList.update (CanonicalMIMEHeaderKey k) (Header_Values h k @ [v]) h"

definition Header_Del :: "string \<Rightarrow> Header \<Rightarrow> Header" where
  "Header_Del k h = AList.delete (CanonicalMIMEHeaderKey k) h"

fun split_at :: "char \<Rightarrow> string \<Rightarrow> string list" where
  \<comment> \<open>\<open>strings.Split\<close> with a separator of one byte\<close>
  "split_at sep [] = [[]]"
| "split_at sep (c # cs) =
     (if c = sep then [] # split_at sep cs
      else case split_at sep cs of [] \<Rightarrow> [[c]] | w # ws \<Rightarrow> (c # w) # ws)"

definition hopByHopHeaders :: "string list" where
  "hopByHopHeaders = [''Connection'', ''Keep-Alive'', ''Proxy-Authenticate'', ''Proxy-Authorization'', ''Te'', ''Trailer'',
     ''Transfer-Encoding'', ''Upgrade'']"

definition removeHopByHopHeaders :: "Header \<Rightarrow> Header" where
  "removeHopByHopHeaders headers =
     (let declared = foldl (\<lambda>h v. foldl (\<lambda>h token. Header_Del (TrimSpace token) h) h (split_at (CHR '','') v))
            headers (Header_Values headers ''Connection'')
      in foldl (\<lambda>h name. Header_Del name h) declared hopByHopHeaders)"

definition copyResponseHeaders :: "Header \<Rightarrow> Header \<Rightarrow> Header" where
  "copyResponseHeaders destination source =
     foldl (\<lambda>h e. foldl (\<lambda>h v. Header_Add (fst e) v h) h (snd e)) destination (removeHopByHopHeaders source)"

subsection \<open>Paths\<close>

fun clean_step :: "bool \<Rightarrow> string list \<Rightarrow> string \<Rightarrow> string list" where
  \<comment> \<open>one element of \<open>path.Clean\<close> on the reversed elements of the output: empty and \<open>.\<close> elements are
      dropped, \<open>..\<close> takes back the last element, or stays when there is none and the path is not rooted\<close>
  "clean_step rooted out e =
     (if e = '''' \<or> e = ''.'' then out
      else if e = ''..'' then
        (case out of [] \<Rightarrow> if rooted then [] else [e] | p # ps \<Rightarrow> if p = ''..'' then e # out else ps)
      else e # out)"

fun path_join :: "string list \<Rightarrow> string" where
  "path_join [] = []"
| "path_join [e] = e"
| "path_join (e # es) = e @ CHR ''/'' # path_join es"

definition path_Clean :: "string \<Rightarrow> string" where
  "path_Clean p =
     (if p = '''' then ''.''
      else
        let rooted = (hd p = CHR ''/''); out = rev (foldl (clean_step rooted) [] (split_at (CHR ''/'') p))
        in if rooted then CHR ''/'' # path_join out else if out = [] then ''.'' else path_join out)"

definition path_Join :: "string list \<Rightarrow> string" where
  "path_Join elems =
     (let used = filter (\<lambda>e. e \<noteq> '''') elems in if used = [] then '''' else path_Clean (path_join used))"

definition joinURLPath :: "string \<Rightarrow> string \<Rightarrow> string" where
  "joinURLPath basePath requestPath =
     (if basePath = '''' \<or> basePath = ''/'' then requestPath else path_Join [basePath, requestPath])"

subsection \<open>The upstream request\<close>

record http_request =
  hr_Method :: string
  hr_Path :: string
  hr_Query :: string
  hr_Header :: Header
  hr_ContentLength :: int

record upstream_url =
  uu_Scheme :: string
  uu_Host :: string
  uu_Path :: string

record upstream_request =
  ur_Method :: string
  ur_Scheme :: string
  ur_Host :: string
  ur_Path :: string
  ur_Query :: string
  ur_Header :: Header
  ur_Body :: string
  ur_ContentLength :: int
  ur_Timeout :: duration

definition newUpstreamRequest :: "bool \<Rightarrow> duration \<Rightarrow> http_request \<Rightarrow> string \<Rightarrow> string \<Rightarrow> upstream_url \<Rightarrow> upstream_request" where
  \<comment> \<open>\<open>proxy\<close> has replaced the body by the bytes it read and the content length by their number\<close>
  "newUpstreamRequest keepAlive requestTimeout request body rid upstream =
     (let h1 = Header_Set ''X-Request-ID'' rid (removeHopByHopHeaders (hr_Header request));
          h2 = (if \<not> keepAlive then Header_Set ''Connection'' ''close'' h1 else h1)
      in \<lparr>ur_Method = hr_Method request, ur_Scheme = uu_Scheme upstream, ur_Host = uu_Host upstream,
          ur_Path = joinURLPath (uu_Path upstream) (hr_Path request), ur_Query = hr_Query request, ur_Header = h2,
          ur_Body = body, ur_ContentLength = int (length body), ur_Timeout = requestTimeout\<rparr>)"

subsection \<open>The request body\<close>

record 'e body_reader =
  rd_bytes :: string
  rd_error :: "'e option" \<comment> \<open>the error that ends the bytes, \<open>None\<close> for \<open>io.EOF\<close>\<close>
  rd_with_last :: bool \<comment> \<open>the read that returns the last byte returns the error too\<close>

datatype 'e body_error = errRequestBodyTooLarge | errRead 'e

definition limited_read_all :: "int \<Rightarrow> 'e body_reader \<Rightarrow> 'e + string" where
  \<comment> \<open>\<open>io.ReadAll(io.LimitReader(body, n))\<close>: no read happens once \<open>n\<close> bytes have been read\<close>
  "limited_read_all n r =
     (if n \<le> 0 then Inr []
      else if int (length (rd_bytes r)) < n \<or> (int (length (rd_bytes r)) = n \<and> rd_with_last r)
      then (case rd_error r of Some e \<Rightarrow> Inl e | None \<Rightarrow> Inr (rd_bytes r))
      else Inr (take (nat n) (rd_bytes r)))"

definition readBoundedBody :: "int \<Rightarrow> 'e body_reader option \<Rightarrow> int \<Rightarrow> 'e body_error + string" where
  "readBoundedBody contentLength body maximum =
     (case body of
        None \<Rightarrow> Inr []
      | Some r \<Rightarrow>
          if contentLength > maximum then Inl errRequestBodyTooLarge
          else (case limited_read_all (wrap64 (maximum + 1)) r of
                  Inl e \<Rightarrow> Inl (errRead e)
                | Inr bs \<Rightarrow> if int (length bs) > maximum then Inl errRequestBodyTooLarge else Inr bs))"

subsection \<open>The first event of a stream\<close>

record sseDetector =
  sse_line :: string
  sse_emitted :: bool

definition new_sseDetector :: sseDetector where
  "new_sseDetector = \<lparr>sse_line = [], sse_emitted = False\<rparr>"

definition sse_event :: "string \<Rightarrow> bool" where
  \<comment> \<open>a complete line that is a data line other than the terminal one\<close>
  "sse_event raw =
     (let line = TrimSpace raw
      in starts_with ''data:'' line \<and> TrimSpace (drop (length ''data:'') line) \<noteq> ''[DONE]'')"

fun feed_bytes :: "string \<Rightarrow> string \<Rightarrow> string \<times> bool" where
  "feed_bytes line [] = (line, False)"
| "feed_bytes line (c # cs) =
     (if c \<noteq> CHR 10 then feed_bytes (line @ [c]) cs
      else if sse_event line then ([], True) else feed_bytes [] cs)"

definition sse_Feed :: "string \<Rightarrow> sseDetector \<Rightarrow> bool \<times> sseDetector" where
  "sse_Feed chunk d =
     (if sse_emitted d then (False, d)
      else case feed_bytes (sse_line d) chunk of (line, found) \<Rightarrow> (found, d\<lparr>sse_line := line, sse_emitted := found\<rparr>))"

subsection \<open>Copying the response\<close>

type_synonym downstream = "string \<Rightarrow> string \<Rightarrow> nat option"
  \<comment> \<open>after the bytes already accepted, the next write succeeds (\<open>None\<close>) or fails after some bytes\<close>

record bufio_Writer =
  bw_size :: nat
  bw_buf :: string
  bw_err :: bool
  bw_out :: string \<comment> \<open>the bytes the client's writer has accepted\<close>

definition under_write :: "downstream \<Rightarrow> string \<Rightarrow> bufio_Writer \<Rightarrow> bufio_Writer" where
  "under_write down p w =
     (case down (bw_out w) p of
        None \<Rightarrow> w\<lparr>bw_out := bw_out w @ p\<rparr>
      | Some n \<Rightarrow> w\<lparr>bw_out := bw_out w @ take n p, bw_err := True\<rparr>)"

definition bufio_Flush :: "downstream \<Rightarrow> bufio_Writer \<Rightarrow> bufio_Writer" where
  "bufio_Flush down w =
     (if bw_err w \<or> bw_buf w = [] then w
      else let w' = under_write down (bw_buf w) w in
        if bw_err w' then w'\<lparr>bw_buf := drop (length (bw_out w') - length (bw_out w)) (bw_buf w)\<rparr> else w'\<lparr>bw_buf := []\<rparr>)"

definition bufio_put :: "downstream \<Rightarrow> string \<Rightarrow> bufio_Writer \<Rightarrow> bufio_Writer" where
  \<comment> \<open>\<open>Write\<close> on an empty buffer\<close>
  "bufio_put down p w = (if length p > bw_size w then under_write down p w else w\<lparr>bw_buf := p\<rparr>)"

definition bufio_Write :: "downstream \<Rightarrow> string \<Rightarrow> bufio_Writer \<Rightarrow> bufio_Writer" where
  "bufio_Write down p w =
     (if bw_err w then w
      else if bw_buf w = [] then bufio_put down p w
      else let room = bw_size w - length (bw_buf w) in
        if length p \<le> room then w\<lparr>bw_buf := bw_buf w @ p\<rparr>
        else let w1 = bufio_Flush down (w\<lparr>bw_buf := bw_buf w @ take room p\<rparr>)
             in if bw_err w1 then w1 else bufio_put down (drop room p) w1)"

datatype 'e bodyCopyResult = CopyDone | CopyUpstream 'e | CopyDownstream

datatype 'e read_result = ReadMore string | ReadEOF string | ReadFailed string 'e

fun read_bytes :: "'e read_result \<Rightarrow> string" where
  "read_bytes (ReadMore p) = p"
| "read_bytes (ReadEOF p) = p"
| "read_bytes (ReadFailed p e) = p"

definition forward_chunk :: "downstream \<Rightarrow> bool \<Rightarrow> string \<Rightarrow> bufio_Writer \<Rightarrow> bufio_Writer" where
  "forward_chunk down flusher p w =
     (if p = [] then w
      else let w1 = bufio_Write down p w in if bw_err w1 \<or> \<not> flusher then w1 else bufio_Flush down w1)"

definition feed_chunk :: "string \<Rightarrow> sseDetector \<Rightarrow> nat \<Rightarrow> sseDetector \<times> nat" where
  \<comment> \<open>the number counts the calls of \<open>onFirstEvent\<close>\<close>
  "feed_chunk p d n =
     (if p = [] then (d, n) else case sse_Feed p d of (found, d') \<Rightarrow> (d', if found then n + 1 else n))"

fun copy_loop :: "downstream \<Rightarrow> bool \<Rightarrow> 'e read_result list \<Rightarrow> sseDetector \<Rightarrow> nat \<Rightarrow> bufio_Writer
    \<Rightarrow> ('e bodyCopyResult \<times> nat \<times> bufio_Writer) option" where
  \<comment> \<open>\<open>None\<close>: the upstream has not ended within the given reads\<close>
  "copy_loop down flusher [] d n w = None"
| "copy_loop down flusher (r # rs) d n w =
     (case feed_chunk (read_bytes r) d n of (d', n') \<Rightarrow>
      let w' = forward_chunk down flusher (read_bytes r) w in
      if bw_err w' \<and> read_bytes r \<noteq> [] then Some (CopyDownstream, n', w')
      else case r of
          ReadMore _ \<Rightarrow> copy_loop down flusher rs d' n' w'
        | ReadEOF _ \<Rightarrow> Some (CopyDone, n', w')
        | ReadFailed _ e \<Rightarrow> Some (CopyUpstream e, n', w'))"

definition streamBufferBytes :: nat where "streamBufferBytes = 32 * 1024"

definition copyResponseBody :: "downstream \<Rightarrow> bool \<Rightarrow> 'e read_result list \<Rightarrow> ('e bodyCopyResult \<times> nat \<times> string) option" where
  \<comment> \<open>the deferred \<open>Flush\<close> runs on every return; its error is dropped\<close>
  "copyResponseBody down flusher reads =
     (case copy_loop down flusher reads new_sseDetector 0
             \<lparr>bw_size = streamBufferBytes, bw_buf = [], bw_err = False, bw_out = []\<rparr> of
        None \<Rightarrow> None
      | Some (res, n, w) \<Rightarrow> Some (res, n, bw_out (bufio_Flush down w)))"

subsection \<open>The detector does not see chunk boundaries\<close>

definition has_event :: "string \<Rightarrow> bool" where
  \<comment> \<open>some line that ends with a newline is an event\<close>
  "has_event bytes \<longleftrightarrow> list_ex sse_event (butlast (split_at (CHR 10) bytes))"

lemma split_at_nonempty [simp]: "split_at sep s \<noteq> []"
  by (induction s) (auto split: list.splits)

lemma split_at_line: "sep \<notin> set l \<Longrightarrow> split_at sep l = [l]"
  by (induction l) auto

lemma split_at_sep: "sep \<notin> set l \<Longrightarrow> split_at sep (l @ sep # s) = l # split_at sep s"
  by (induction l) auto

lemma feed_bytes_append:
  "feed_bytes l (a @ b) = (case feed_bytes l a of (l', found) \<Rightarrow> if found then ([], True) else feed_bytes l' b)"
  by (induction l a rule: feed_bytes.induct) auto

lemma feed_bytes_event: "CHR 10 \<notin> set l \<Longrightarrow> snd (feed_bytes l s) = has_event (l @ s)"
proof (induction l s rule: feed_bytes.induct)
  case (1 l)
  then show ?case by (simp add: has_event_def split_at_line)
next
  case (2 l c cs)
  show ?case
  proof (cases "c = CHR 10")
    case True
    then show ?thesis using 2 by (auto simp: has_event_def split_at_sep)
  next
    case False
    then show ?thesis using 2 by simp
  qed
qed

lemma feed_chunk_found:
  "feed_chunk p d n = (if sse_emitted d then (d, n)
     else case feed_bytes (sse_line d) p of (l, found) \<Rightarrow> (d\<lparr>sse_line := l, sse_emitted := found\<rparr>, n + of_bool found))"
  by (cases "sse_line d") (auto simp: feed_chunk_def sse_Feed_def split: prod.splits)

definition fed :: "string \<Rightarrow> sseDetector \<Rightarrow> nat \<Rightarrow> bool" where
  \<comment> \<open>the detector after the given bytes, in whatever chunks they came\<close>
  "fed bytes d n \<longleftrightarrow> feed_bytes [] bytes = (if sse_emitted d then [] else sse_line d, sse_emitted d) \<and> n = of_bool (sse_emitted d)"

lemma feed_emitted: "feed_bytes l s = (l', True) \<Longrightarrow> l' = []"
  by (induction l s rule: feed_bytes.induct) (auto split: if_splits)

lemma fed_new [simp]: "fed [] new_sseDetector 0"
  by (simp add: fed_def new_sseDetector_def)

lemma fed_chunk:
  assumes "fed bytes d n" and "feed_chunk p d n = (d', n')"
  shows "fed (bytes @ p) d' n'"
proof (cases "sse_emitted d")
  case True
  then show ?thesis using assms by (auto simp: fed_def feed_chunk_found feed_bytes_append)
next
  case False
  obtain l found where f: "feed_bytes (sse_line d) p = (l, found)" by fastforce
  then show ?thesis using assms False feed_emitted [of "sse_line d" p l]
    by (auto simp: fed_def feed_chunk_found feed_bytes_append)
qed

lemma fed_count: "fed bytes d n \<Longrightarrow> n = of_bool (has_event bytes)"
  using feed_bytes_event [of "[]" bytes] by (simp add: fed_def)

subsection \<open>The copy delivers a prefix, in order\<close>

definition sent :: "string \<Rightarrow> bufio_Writer \<Rightarrow> bool" where
  \<comment> \<open>what was accepted and what is buffered are the bytes so far; after an error at least a prefix was accepted\<close>
  "sent bytes w \<longleftrightarrow> (if bw_err w then prefix (bw_out w) bytes else bw_out w @ bw_buf w = bytes)"

lemma bufio_Flush_sent: "sent bytes w \<Longrightarrow> sent bytes (bufio_Flush down w)"
  by (auto simp: bufio_Flush_def under_write_def sent_def take_is_prefix Let_def split: option.splits)

lemma bufio_put_sent:
  "\<not> bw_err w \<Longrightarrow> bw_buf w = [] \<Longrightarrow> bw_out w = bytes \<Longrightarrow> sent (bytes @ p) (bufio_put down p w)"
  by (auto simp: bufio_put_def under_write_def sent_def take_is_prefix split: option.splits)

lemma sent_longer: "sent bytes w \<Longrightarrow> bw_err w \<Longrightarrow> sent (bytes @ p) w"
  by (auto simp: sent_def)

lemma bufio_Flush_empty: "\<not> bw_err (bufio_Flush down w) \<Longrightarrow> bw_buf (bufio_Flush down w) = []"
  by (auto simp: bufio_Flush_def under_write_def Let_def split: option.splits if_splits)

lemma bufio_Write_sent:
  assumes "sent bytes w" and "\<not> bw_err w"
  shows "sent (bytes @ p) (bufio_Write down p w)"
proof (cases "bw_buf w = [] \<or> length p \<le> bw_size w - length (bw_buf w)")
  case True
  then show ?thesis using assms bufio_put_sent [of w bytes p down] by (auto simp: bufio_Write_def sent_def Let_def)
next
  case False
  define room where "room = bw_size w - length (bw_buf w)"
  define w1 where "w1 = bufio_Flush down (w\<lparr>bw_buf := bw_buf w @ take room p\<rparr>)"
  have s1: "sent (bytes @ take room p) w1"
    unfolding w1_def using assms by (intro bufio_Flush_sent) (simp add: sent_def)
  have w: "bufio_Write down p w = (if bw_err w1 then w1 else bufio_put down (drop room p) w1)"
    using False assms by (simp add: bufio_Write_def room_def w1_def Let_def)
  show ?thesis
  proof (cases "bw_err w1")
    case True
    then show ?thesis using w sent_longer [OF s1, of "drop room p"] by simp
  next
    case ok: False
    then have "bw_buf w1 = []" using bufio_Flush_empty w1_def by blast
    then show ?thesis using w ok s1 bufio_put_sent [of w1 "bytes @ take room p" "drop room p" down]
      by (simp add: sent_def)
  qed
qed

lemma forward_chunk_sent:
  "sent bytes w \<Longrightarrow> \<not> bw_err w \<Longrightarrow> sent (bytes @ p) (forward_chunk down flusher p w)"
  by (auto simp: forward_chunk_def Let_def bufio_Write_sent bufio_Flush_sent)

lemma forward_chunk_flushed:
  "flusher \<Longrightarrow> bw_buf w = [] \<Longrightarrow> \<not> bw_err (forward_chunk down flusher p w) \<Longrightarrow> bw_buf (forward_chunk down flusher p w) = []"
  by (cases "p = [] \<or> bw_err (bufio_Write down p w)") (auto simp: forward_chunk_def Let_def bufio_Flush_empty)

fun read_outcome :: "'e read_result \<Rightarrow> 'e bodyCopyResult" where
  "read_outcome (ReadFailed p e) = CopyUpstream e"
| "read_outcome r = CopyDone"

definition copied :: "bool \<Rightarrow> 'e read_result \<Rightarrow> string \<Rightarrow> 'e bodyCopyResult \<times> nat \<times> bufio_Writer \<Rightarrow> bool" where
  "copied flusher t bytes z \<longleftrightarrow> (case z of (res, n, w) \<Rightarrow>
     n \<le> 1 \<and> sent bytes w \<and> (bw_err w \<longleftrightarrow> res = CopyDownstream)
     \<and> (res \<noteq> CopyDownstream \<longrightarrow> n = of_bool (has_event bytes) \<and> res = read_outcome t \<and> (flusher \<longrightarrow> bw_buf w = [])))"

lemma copy_loop_run:
  assumes "feed_chunk (read_bytes r) d n = (d1, n1)" and "forward_chunk down flusher (read_bytes r) w = w1" and "\<not> bw_err w"
  shows "copy_loop down flusher (r # rs) d n w =
      (if bw_err w1 then Some (CopyDownstream, n1, w1)
       else case r of ReadMore _ \<Rightarrow> copy_loop down flusher rs d1 n1 w1 | ReadEOF _ \<Rightarrow> Some (CopyDone, n1, w1)
         | ReadFailed _ e \<Rightarrow> Some (CopyUpstream e, n1, w1))"
proof -
  have "bw_err w1 \<Longrightarrow> read_bytes r \<noteq> []" using assms(2,3) by (auto simp: forward_chunk_def)
  then show ?thesis using assms(1,2) by (auto simp: Let_def)
qed

lemma copy_loop_copies:
  assumes "fed bytes d n" and "sent bytes w" and "\<not> bw_err w" and "flusher \<Longrightarrow> bw_buf w = []" and "\<And>p. t \<noteq> ReadMore p"
  shows "\<exists>z. copy_loop down flusher (map ReadMore ps @ t # rest) d n w = Some z \<and> copied flusher t (bytes @ concat ps @ read_bytes t) z"
  using assms(1-4)
proof (induction ps arbitrary: d n w bytes)
  case Nil
  obtain d1 n1 where f: "feed_chunk (read_bytes t) d n = (d1, n1)" by fastforce
  define w1 where "w1 = forward_chunk down flusher (read_bytes t) w"
  have "fed (bytes @ read_bytes t) d1 n1" using Nil.prems(1) f by (rule fed_chunk)
  then have n1: "n1 = of_bool (has_event (bytes @ read_bytes t))" by (rule fed_count)
  have sent1: "sent (bytes @ read_bytes t) w1" unfolding w1_def using Nil.prems(2,3) by (rule forward_chunk_sent)
  have "flusher \<Longrightarrow> \<not> bw_err w1 \<Longrightarrow> bw_buf w1 = []" using forward_chunk_flushed Nil.prems(4) w1_def by blast
  then show ?case using n1 sent1 assms(5) copy_loop_run [OF f w1_def [symmetric] Nil.prems(3), of rest]
    by (cases t) (auto simp: copied_def)
next
  case (Cons p ps)
  obtain d1 n1 where f: "feed_chunk p d n = (d1, n1)" by fastforce
  define w1 where "w1 = forward_chunk down flusher p w"
  have fed1: "fed (bytes @ p) d1 n1" using Cons.prems(1) f by (rule fed_chunk)
  have sent1: "sent (bytes @ p) w1" unfolding w1_def using Cons.prems(2,3) by (rule forward_chunk_sent)
  have run: "copy_loop down flusher (map ReadMore (p # ps) @ t # rest) d n w =
      (if bw_err w1 then Some (CopyDownstream, n1, w1) else copy_loop down flusher (map ReadMore ps @ t # rest) d1 n1 w1)"
    using copy_loop_run [of "ReadMore p" d n d1 n1 down flusher w w1 "map ReadMore ps @ t # rest"] f Cons.prems(3)
    by (simp add: w1_def [symmetric] del: copy_loop.simps)
  show ?case
  proof (cases "bw_err w1")
    case True
    moreover have "n1 \<le> 1" using fed_count [OF fed1] by simp
    moreover have "sent ((bytes @ p) @ concat ps @ read_bytes t) w1" using sent1 True by (rule sent_longer)
    ultimately show ?thesis unfolding run by (simp add: copied_def)
  next
    case False
    moreover have "flusher \<Longrightarrow> bw_buf w1 = []" using forward_chunk_flushed Cons.prems(4) w1_def False by blast
    ultimately show ?thesis unfolding run using Cons.IH [OF fed1 sent1] by simp
  qed
qed

text \<open>
  C10. Whatever the sizes of the reads, the copy of a response that ends (with EOF or an upstream error)
  returns; the client receives a prefix of the upstream bytes in their order; the first-event callback runs
  at most once. Unless the client's writer failed, the result tells how the upstream ended, the callback
  ran exactly when some complete line of the whole stream is a data line other than \<open>[DONE]\<close>, and a writer
  that can flush has received every byte.
\<close>
theorem stream_copied:
  assumes "\<And>p. t \<noteq> ReadMore p"
  shows "\<exists>res n out. copyResponseBody down flusher (map ReadMore ps @ t # rest) = Some (res, n, out)
      \<and> prefix out (concat ps @ read_bytes t) \<and> n \<le> 1
      \<and> (res \<noteq> CopyDownstream \<longrightarrow> res = read_outcome t \<and> n = of_bool (has_event (concat ps @ read_bytes t))
           \<and> (flusher \<longrightarrow> out = concat ps @ read_bytes t))"
proof -
  let ?w = "\<lparr>bw_size = streamBufferBytes, bw_buf = [], bw_err = False, bw_out = []\<rparr>"
  have "sent [] ?w" by (simp add: sent_def)
  then obtain res n w where run: "copy_loop down flusher (map ReadMore ps @ t # rest) new_sseDetector 0 ?w = Some (res, n, w)"
      and c: "copied flusher t (concat ps @ read_bytes t) (res, n, w)"
    using copy_loop_copies [OF fed_new, of ?w flusher t] assms by fastforce
  have "sent (concat ps @ read_bytes t) (bufio_Flush down w)" using c by (simp add: copied_def bufio_Flush_sent)
  then have "prefix (bw_out (bufio_Flush down w)) (concat ps @ read_bytes t)"
    unfolding sent_def by (metis prefixI)
  moreover have "bw_out (bufio_Flush down w) = concat ps @ read_bytes t" if "res \<noteq> CopyDownstream" "flusher"
    using c that by (auto simp: copied_def sent_def bufio_Flush_def)
  ultimately show ?thesis using run c by (auto simp: copyResponseBody_def copied_def)
qed

definition wit_reads :: "unit read_result list" where
  "wit_reads = [ReadMore ''da'', ReadMore [CHR ''t'', CHR ''a'', CHR '':'', CHR '' '', CHR ''x'', CHR 10], ReadEOF []]"

lemma wit_reads_event: "has_event [CHR ''d'', CHR ''a'', CHR ''t'', CHR ''a'', CHR '':'', CHR '' '', CHR ''x'', CHR 10]"
  by code_simp

theorem stream_copied_witness:
  "\<exists>res n out. copyResponseBody (\<lambda>_ _. None) True wit_reads = Some (res, n, out)
      \<and> (res \<noteq> CopyDownstream \<longrightarrow> res = CopyDone \<and> n = 1
           \<and> out = [CHR ''d'', CHR ''a'', CHR ''t'', CHR ''a'', CHR '':'', CHR '' '', CHR ''x'', CHR 10])"
  using stream_copied [of "ReadEOF [] :: unit read_result" "\<lambda>_ _. None" True
      "[''da'', [CHR ''t'', CHR ''a'', CHR '':'', CHR '' '', CHR ''x'', CHR 10]]" "[]"] wit_reads_event
  unfolding wit_reads_def by fastforce

subsection \<open>The body is read whole or not at all\<close>

text \<open>
  C11. For every limit below the largest \<open>int64\<close>, the bounded read returns a body exactly when the declared
  length and the bytes that arrive stay within the limit and the read ends without an error, and then it
  returns all the bytes: a body is never truncated, with or without a declared length.
\<close>
theorem bounded_body_exact:
  assumes "0 \<le> maximum" and "maximum < max_int64"
  shows "readBoundedBody contentLength (Some r) maximum = Inr bs \<longleftrightarrow>
    contentLength \<le> maximum \<and> rd_error r = None \<and> bs = rd_bytes r \<and> int (length bs) \<le> maximum"
proof -
  have "wrap64 (maximum + 1) = maximum + 1" using assms by (simp add: in_int64_def max_int64_def min_int64_def)
  then show ?thesis using assms
    by (auto simp: readBoundedBody_def limited_read_all_def split: option.splits sum.splits if_splits)
qed

theorem bounded_body_exact_witness:
  "readBoundedBody (-1) (Some \<lparr>rd_bytes = ''abc'', rd_error = None :: unit option, rd_with_last = True\<rparr>) 3 = Inr ''abc''"
  using bounded_body_exact [of 3 "-1" "\<lparr>rd_bytes = ''abc'', rd_error = None :: unit option, rd_with_last = True\<rparr>" "''abc''"]
  by (simp add: max_int64_def)

text \<open>
  With the largest limit the configuration accepts, the bound of the reader wraps to a negative number and
  every body is read as empty, without an error.
\<close>
theorem body_limit_overflow:
  "contentLength \<le> max_int64 \<Longrightarrow> readBoundedBody contentLength (Some r) max_int64 = Inr []"
  by (simp add: readBoundedBody_def limited_read_all_def wrap64_def max_int64_def)

subsection \<open>Headers across the proxy\<close>

definition declared_hops :: "Header \<Rightarrow> string list" where
  "declared_hops h = concat (map (\<lambda>v. map (CanonicalMIMEHeaderKey \<circ> TrimSpace) (split_at (CHR '','') v)) (Header_Values h ''Connection''))"

definition hop_names :: "Header \<Rightarrow> string list" where
  "hop_names h = declared_hops h @ hopByHopHeaders"

lemma map_of_Header_Del: "map_of (Header_Del k h) k' = (if k' = CanonicalMIMEHeaderKey k then None else map_of h k')"
  by (simp add: Header_Del_def delete_conv')

lemma map_of_dels:
  "map_of (foldl (\<lambda>h k. Header_Del (f k) h) h ks) k' = (if k' \<in> (CanonicalMIMEHeaderKey \<circ> f) ` set ks then None else map_of h k')"
  by (induction ks arbitrary: h) (auto simp: map_of_Header_Del)

lemma map_of_declared:
  "map_of (foldl (\<lambda>h v. foldl (\<lambda>h k. Header_Del (f k) h) h (g v)) h vs) k' =
     (if k' \<in> (\<Union>v\<in>set vs. (CanonicalMIMEHeaderKey \<circ> f) ` set (g v)) then None else map_of h k')"
  by (induction vs arbitrary: h) (auto simp: map_of_dels)

lemma hop_canonical: "map CanonicalMIMEHeaderKey hopByHopHeaders = hopByHopHeaders"
  by code_simp

lemma map_of_removeHop: "map_of (removeHopByHopHeaders h) k = (if k \<in> set (hop_names h) then None else map_of h k)"
proof -
  have hops: "CanonicalMIMEHeaderKey ` set hopByHopHeaders = set hopByHopHeaders" by (metis hop_canonical list.set_map)
  have dels: "map_of (foldl (\<lambda>h name. Header_Del name h) h hopByHopHeaders) k = (if k \<in> set hopByHopHeaders then None else map_of h k)" for h
    using map_of_dels [of "\<lambda>x. x" h hopByHopHeaders k] hops by (simp add: comp_def)
  show ?thesis
    unfolding removeHopByHopHeaders_def Let_def dels map_of_declared by (auto simp: hop_names_def declared_hops_def)
qed

lemma canonical_names:
  "CanonicalMIMEHeaderKey ''X-Request-ID'' = ''X-Request-Id''" "CanonicalMIMEHeaderKey ''Connection'' = ''Connection''"
  by code_simp+

lemma map_of_Header_Set: "map_of (Header_Set k v h) k' = (if k' = CanonicalMIMEHeaderKey k then Some [v] else map_of h k')"
  by (simp add: Header_Set_def update_conv')

text \<open>
  C12. What the upstream receives: the request ID of the gateway as the only value of its header; a
  \<open>Connection\<close> header only when keep-alive is off, and then \<open>close\<close>; none of the hop-by-hop headers, the
  ones named by the client's own \<open>Connection\<close> header included; every other header of the client unchanged,
  with all its values.
\<close>
theorem upstream_headers:
  "map_of (ur_Header (newUpstreamRequest keepAlive timeout request body rid upstream)) k =
     (if k = ''X-Request-Id'' then Some [rid]
      else if k = ''Connection'' then (if keepAlive then None else Some [''close''])
      else if k \<in> set (hop_names (hr_Header request)) then None
      else map_of (hr_Header request) k)"
proof -
  have "''Connection'' \<in> set (hop_names (hr_Header request))" by (simp add: hop_names_def hopByHopHeaders_def)
  then show ?thesis
    by (auto simp: newUpstreamRequest_def Let_def map_of_Header_Set canonical_names map_of_removeHop)
qed

definition canonical :: "Header \<Rightarrow> bool" where
  \<comment> \<open>the headers of a response that the HTTP client has read\<close>
  "canonical h \<longleftrightarrow> gomap_ok h \<and> list_all (\<lambda>e. CanonicalMIMEHeaderKey (fst e) = fst e) h"

lemma canonical_delete: "canonical h \<Longrightarrow> canonical (AList.delete k h)"
  by (auto simp: canonical_def list_all_iff AList.delete_eq)

lemma canonical_dels: "canonical h \<Longrightarrow> canonical (foldl (\<lambda>h k. Header_Del (f k) h) h ks)"
  by (induction ks arbitrary: h) (simp_all add: Header_Del_def canonical_delete)

lemma canonical_removeHop: "canonical h \<Longrightarrow> canonical (removeHopByHopHeaders h)"
proof -
  assume "canonical h"
  moreover have "canonical h \<Longrightarrow> canonical (foldl (\<lambda>h v. foldl (\<lambda>h k. Header_Del (f k) h) h (g v)) h vs)" for f h vs and g :: "string \<Rightarrow> string list"
    by (induction vs arbitrary: h) (simp_all add: canonical_dels)
  ultimately show ?thesis
    unfolding removeHopByHopHeaders_def Let_def by (intro canonical_dels [of _ "\<lambda>x. x"])
qed

lemma Values_adds:
  "CanonicalMIMEHeaderKey k = k \<Longrightarrow>
     mget [] (foldl (\<lambda>h v. Header_Add k v h) h vs) k' = mget [] h k' @ (if k' = k then vs else [])"
  by (induction vs arbitrary: h) (auto simp: Header_Add_def Header_Values_def mget_update)

lemma Values_copy:
  "canonical src \<Longrightarrow>
     mget [] (foldl (\<lambda>h e. foldl (\<lambda>h v. Header_Add (fst e) v h) h (snd e)) h src) k = mget [] h k @ mget [] src k"
proof (induction src arbitrary: h)
  case (Cons e src)
  have "fst e \<notin> fst ` set src" using Cons.prems by (simp add: canonical_def gomap_ok_def)
  then have "map_of src (fst e) = None" by (simp add: map_of_eq_None_iff)
  then have here: "mget [] src (fst e) = []" by (rule mget_None)
  have "canonical src" and ke: "CanonicalMIMEHeaderKey (fst e) = fst e"
    using Cons.prems by (simp_all add: canonical_def gomap_ok_def)
  moreover have "mget [] (e # src) k = (if k = fst e then snd e else mget [] src k)" by (cases e) (simp add: mget_def)
  ultimately show ?case using Cons.IH here by (simp add: Values_adds)
qed (simp add: mget_def)

text \<open>
  The client's view of a header after the upstream response is copied: the values the gateway has
  written so far, followed by the upstream's values of that header unless it is hop-by-hop. The gateway's
  own value stays first, and the upstream's value is kept behind it.
\<close>
theorem response_headers:
  assumes "canonical source"
  shows "mget [] (copyResponseHeaders destination source) k =
     mget [] destination k @ (if k \<in> set (hop_names source) then [] else mget [] source k)"
  using Values_copy [OF canonical_removeHop [OF assms], of destination k]
  by (simp add: copyResponseHeaders_def mget_def map_of_removeHop split: option.splits)

theorem response_headers_witness:
  "mget [] (copyResponseHeaders [(''X-Fishmesh-Backend-Id'', [''a''])] [(''X-Fishmesh-Backend-Id'', [''forged'']), (''Upgrade'', [''h2c''])])
     ''X-Fishmesh-Backend-Id'' = [''a'', ''forged'']"
proof -
  let ?src = "[(''X-Fishmesh-Backend-Id'', [''forged'']), (''Upgrade'', [''h2c''])] :: Header"
  have "canonical ?src" by code_simp
  moreover have "''X-Fishmesh-Backend-Id'' \<notin> set (hop_names ?src)" by code_simp
  ultimately show ?thesis
    using response_headers [of ?src "[(''X-Fishmesh-Backend-Id'', [''a''])]" "''X-Fishmesh-Backend-Id''"] by (simp add: mget_def)
qed

subsection \<open>The upstream path\<close>

definition no_dots :: "string list \<Rightarrow> bool" where
  "no_dots es \<longleftrightarrow> list_all (\<lambda>e. e \<noteq> ''.'' \<and> e \<noteq> ''..'') es"

lemma split_at_app: "split_at sep (a @ sep # b) = split_at sep a @ split_at sep b"
  by (induction a) (auto split: list.splits)

lemma clean_plain: "no_dots es \<Longrightarrow> foldl (clean_step rooted) out es = rev (filter (\<lambda>e. e \<noteq> '''') es) @ out"
  by (induction es arbitrary: out) (auto simp: no_dots_def)

text \<open>
  The path of the upstream request stays below the base path of the backend: when neither path has a
  dot element (the request multiplexer cleans request paths), the upstream path has the elements of the base
  path followed by the elements of the request path, joined by single slashes.
\<close>
theorem upstream_path_below_base:
  assumes "hd basePath = CHR ''/''" and "basePath \<noteq> ''''" and "basePath \<noteq> ''/''" and "requestPath \<noteq> ''''"
    and "no_dots (split_at (CHR ''/'') basePath)" and "no_dots (split_at (CHR ''/'') requestPath)"
  shows "joinURLPath basePath requestPath =
     CHR ''/'' # path_join (filter (\<lambda>e. e \<noteq> '''') (split_at (CHR ''/'') basePath) @ filter (\<lambda>e. e \<noteq> '''') (split_at (CHR ''/'') requestPath))"
proof -
  have "no_dots (split_at (CHR ''/'') (basePath @ CHR ''/'' # requestPath))"
    using assms(5,6) by (simp add: split_at_app no_dots_def)
  then have "foldl (clean_step True) [] (split_at (CHR ''/'') (basePath @ CHR ''/'' # requestPath)) =
      rev (filter (\<lambda>e. e \<noteq> '''') (split_at (CHR ''/'') (basePath @ CHR ''/'' # requestPath)))"
    by (simp add: clean_plain)
  then show ?thesis using assms(1-4) by (simp add: joinURLPath_def path_Join_def path_Clean_def split_at_app Let_def)
qed

theorem upstream_path_below_base_witness:
  "joinURLPath ''/proxy/'' ''/v1/models'' = ''/proxy/v1/models''"
proof -
  have "no_dots (split_at (CHR ''/'') ''/proxy/'')" and "no_dots (split_at (CHR ''/'') ''/v1/models'')" by code_simp+
  then show ?thesis using upstream_path_below_base [of "''/proxy/''" "''/v1/models''"] by simp
qed

end
