(* ===== verification/Transport.thy ===== *)
theory Transport
  imports Backend
begin

text \<open>
  \<open>internal/serving/transport\<close>: the pool of HTTP clients, one per backend. A client is a cell of the
  pool's heap; \<open>tp_closed\<close> lists the calls of \<open>CloseIdleConnections\<close>. The mutex of the pool makes each
  operation atomic.
\<close>

record transport_Config =
  tc_KeepAlive :: bool
  tc_RequestTimeout :: duration
  tc_MaxConnsPerHost :: int
  tc_IdleConnTimeout :: duration

definition transport_Config_Validate :: "transport_Config \<Rightarrow> bool" where
  \<comment> \<open>whether the configuration is accepted\<close>
  "transport_Config_Validate c \<longleftrightarrow> \<not> (tc_RequestTimeout c \<le> 0 \<or> tc_MaxConnsPerHost c \<le> 0 \<or> tc_IdleConnTimeout c \<le> 0)"

record http_client =
  hc_DisableKeepAlives :: bool
  hc_ForceAttemptHTTP2 :: bool
  hc_MaxIdleConns :: int
  hc_MaxIdleConnsPerHost :: int
  hc_MaxConnsPerHost :: int
  hc_IdleConnTimeout :: duration
  hc_ResponseHeaderTimeout :: duration
  hc_Timeout :: duration

record pool =
  tp_config :: transport_Config
  tp_clients :: "(ID, nat) gomap"
  tp_heap :: "http_client list"
  tp_closed :: "nat list"

definition pool_New :: "transport_Config \<Rightarrow> pool" where
  "pool_New config = \<lparr>tp_config = config, tp_clients = [], tp_heap = [], tp_closed = []\<rparr>"

definition new_client :: "transport_Config \<Rightarrow> http_client" where
  "new_client c = \<lparr>hc_DisableKeepAlives = (\<not> tc_KeepAlive c), hc_ForceAttemptHTTP2 = False, hc_MaxIdleConns = tc_MaxConnsPerHost c,
     hc_MaxIdleConnsPerHost = tc_MaxConnsPerHost c, hc_MaxConnsPerHost = tc_MaxConnsPerHost c,
     hc_IdleConnTimeout = tc_IdleConnTimeout c, hc_ResponseHeaderTimeout = tc_RequestTimeout c, hc_Timeout = tc_RequestTimeout c\<rparr>"

definition ClientFor :: "Backend \<Rightarrow> pool \<Rightarrow> nat \<times> pool" where
  "ClientFor candidate p =
     (case map_of (tp_clients p) (bID candidate) of
        Some client \<Rightarrow> (client, p)
      | None \<Rightarrow>
          (length (tp_heap p),
           p\<lparr>tp_heap := tp_heap p @ [new_client (tp_config p)],
             tp_clients := AList.update (bID candidate) (length (tp_heap p)) (tp_clients p)\<rparr>))"

definition pool_Remove :: "ID \<Rightarrow> pool \<Rightarrow> bool \<times> pool" where
  "pool_Remove backendID p =
     (case map_of (tp_clients p) backendID of
        None \<Rightarrow> (False, p)
      | Some client \<Rightarrow>
          (True, p\<lparr>tp_closed := tp_closed p @ [client], tp_clients := AList.delete backendID (tp_clients p)\<rparr>))"

definition pool_Len :: "pool \<Rightarrow> nat" where
  "pool_Len p = length (tp_clients p)"

definition pool_Close :: "pool \<Rightarrow> pool" where
  "pool_Close p = p\<lparr>tp_closed := tp_closed p @ map snd (tp_clients p)\<rparr>"

subsection \<open>One client per backend\<close>

definition pool_ok :: "pool \<Rightarrow> bool" where
  \<comment> \<open>distinct backends use distinct clients, all built from the pool's configuration, and a client whose
      backend was removed is not handed out again\<close>
  "pool_ok p \<longleftrightarrow> gomap_ok (tp_clients p) \<and> distinct (map snd (tp_clients p))
     \<and> (\<forall>client\<in>set (map snd (tp_clients p)). client < length (tp_heap p))
     \<and> (\<forall>client\<in>set (tp_heap p). client = new_client (tp_config p))"

inductive pool_step :: "pool \<Rightarrow> pool \<Rightarrow> bool" where
  pool_client: "ClientFor b p = (client, p') \<Longrightarrow> pool_step p p'"
| pool_remove: "pool_Remove i p = (found, p') \<Longrightarrow> pool_step p p'"
| pool_close: "pool_step p (pool_Close p)"

inductive pool_reach :: "pool \<Rightarrow> bool" where
  preach_new: "pool_reach (pool_New config)"
| preach_step: "pool_reach p \<Longrightarrow> pool_step p p' \<Longrightarrow> pool_reach p'"

lemma update_new: "map_of m k = None \<Longrightarrow> AList.update k v m = m @ [(k, v)]"
  by (induction m) auto

lemma ClientFor_ok:
  assumes "pool_ok p" and "ClientFor b p = (client, p')"
  shows "pool_ok p'"
proof (cases "map_of (tp_clients p) (bID b)")
  case None
  then have p': "p' = p\<lparr>tp_heap := tp_heap p @ [new_client (tp_config p)], tp_clients := tp_clients p @ [(bID b, length (tp_heap p))]\<rparr>"
    using assms(2) by (auto simp: ClientFor_def update_new)
  have "bID b \<notin> fst ` set (tp_clients p)" using None by (simp add: map_of_eq_None_iff)
  then show ?thesis using assms(1) by (auto simp: pool_ok_def p' gomap_ok_def less_SucI)
qed (use assms in \<open>simp add: ClientFor_def\<close>)

lemma pool_Remove_ok:
  assumes "pool_ok p" and "pool_Remove i p = (found, p')"
  shows "pool_ok p'"
proof (cases "map_of (tp_clients p) i")
  case (Some client)
  have "distinct (map snd (AList.delete i (tp_clients p)))"
    using assms(1) by (simp add: pool_ok_def AList.delete_eq distinct_map_filter)
  moreover have "set (AList.delete i (tp_clients p)) \<subseteq> set (tp_clients p)" by (auto simp: AList.delete_eq)
  ultimately show ?thesis using assms Some by (fastforce simp: pool_ok_def pool_Remove_def)
qed (use assms in \<open>simp add: pool_Remove_def\<close>)

lemma pool_reach_ok: "pool_reach p \<Longrightarrow> pool_ok p"
proof (induction rule: pool_reach.induct)
  case (preach_step p p')
  from preach_step(2) show ?case
  proof cases
    case pool_close
    then show ?thesis using preach_step.IH by (simp add: pool_Close_def pool_ok_def)
  qed (use preach_step.IH in \<open>blast intro: ClientFor_ok pool_Remove_ok\<close>)+
qed (simp add: pool_ok_def pool_New_def)

text \<open>
  After any sequence of requests and removals the pool hands every backend its own client, configured
  from the pool: a second request for the backend gets the same client and changes nothing, two backends
  never share one, and after the removal of a backend the next request gets a client that no backend had.
\<close>
theorem one_client_per_backend:
  assumes "pool_reach p" and "ClientFor a p = (client, p')"
  shows "ClientFor a p' = (client, p') \<and> tp_heap p' ! client = new_client (tp_config p')
     \<and> (\<forall>b other p''. bID b \<noteq> bID a \<longrightarrow> ClientFor b p' = (other, p'') \<longrightarrow> other \<noteq> client)
     \<and> (\<forall>found p1 other p2. pool_Remove (bID a) p' = (found, p1) \<longrightarrow> ClientFor a p1 = (other, p2)
          \<longrightarrow> found \<and> other \<notin> snd ` set (tp_clients p') \<and> client \<in> set (tp_closed p1))"
proof -
  have ok: "pool_ok p'" using pool_reach_ok [OF assms(1)] assms(2) by (rule ClientFor_ok)
  have here: "map_of (tp_clients p') (bID a) = Some client"
    using assms(2) by (auto simp: ClientFor_def update_conv' split: option.splits)
  then have client: "client \<in> snd ` set (tp_clients p')" "client < length (tp_heap p')"
    using ok map_of_SomeD [OF here] by (force simp: pool_ok_def)+
  have "other \<noteq> client" if b: "bID b \<noteq> bID a" and c: "ClientFor b p' = (other, p'')" for b other p''
  proof (cases "map_of (tp_clients p') (bID b)")
    case None
    then show ?thesis using c client by (auto simp: ClientFor_def)
  next
    case (Some x)
    then have "(bID b, other) \<in> set (tp_clients p')" using c by (auto simp: ClientFor_def dest: map_of_SomeD)
    then show ?thesis using map_of_SomeD [OF here] b ok unfolding pool_ok_def distinct_map inj_on_def by fastforce
  qed
  moreover have "found \<and> other \<notin> snd ` set (tp_clients p') \<and> client \<in> set (tp_closed p1)"
    if "pool_Remove (bID a) p' = (found, p1)" "ClientFor a p1 = (other, p2)" for found p1 other p2
    using that here ok by (auto simp: pool_Remove_def ClientFor_def delete_conv' pool_ok_def)
  moreover have "ClientFor a p' = (client, p')" using here by (simp add: ClientFor_def)
  moreover have "tp_heap p' ! client = new_client (tp_config p')" using ok client(2) by (simp add: pool_ok_def)
  ultimately show ?thesis by blast
qed

definition wit_pool :: pool where
  "wit_pool = pool_New \<lparr>tc_KeepAlive = True, tc_RequestTimeout = 1, tc_MaxConnsPerHost = 1, tc_IdleConnTimeout = 1\<rparr>"

theorem one_client_per_backend_witness:
  "pool_reach wit_pool \<and> (case ClientFor zero_Backend wit_pool of (client, p) \<Rightarrow> client = 0 \<and> ClientFor zero_Backend p = (0, p))"
proof -
  have r: "pool_reach wit_pool" unfolding wit_pool_def by (rule preach_new)
  obtain client p where c: "ClientFor zero_Backend wit_pool = (client, p)" by (cases "ClientFor zero_Backend wit_pool")
  then have "client = 0" by (auto simp: ClientFor_def wit_pool_def pool_New_def)
  then show ?thesis using one_client_per_backend [OF r c] r c by simp
qed

end
