(* ===== verification/Gateway.thy ===== *)
theory Gateway
  imports Path_Decisions Gateway_Metrics Forwarding Transport
begin

text \<open>
  \<open>internal/serving/gateway\<close>: the request that composes admission, the request path, the transport pool
  and the metrics. \<open>proxy\<close> is one request from start to end; \<open>proxy_env\<close> holds what the outside answers to
  it: clocks, randomness, the request body, the resolver and the KV services behind \<open>Select\<close>, the parsed
  backend URL, the upstream's answer and the client's writer. The deferred calls run in the order of Go,
  last first. \<open>None\<close> is a request that does not return: the upstream body has no end within its reads, or a
  permit is released that was never taken.
\<close>

subsection \<open>Configuration\<close>

record gateway_Config =
  gw_RoutingMode :: string
  gw_KeepAlive :: bool
  gw_RequestTimeout :: duration
  gw_MaxRequestBodyBytes :: int

definition gateway_Config_Validate :: "gateway_Config \<Rightarrow> bool" where
  \<comment> \<open>whether the configuration is accepted\<close>
  "gateway_Config_Validate c \<longleftrightarrow> Mode_Validate (gw_RoutingMode c) = None \<and> \<not> (gw_RequestTimeout c \<le> 0 \<or> gw_MaxRequestBodyBytes c \<le> 0)"

record Server =
  sv_config :: gateway_Config
  sv_path :: path_service
  sv_admission :: controller
  sv_transport :: pool
  sv_metrics :: Metrics

subsection \<open>Text\<close>

definition hex_digit :: "nat \<Rightarrow> char" where
  "hex_digit n = char_of (if n < 10 then 48 + n else 87 + n)"

definition hex_EncodeToString :: "8 word list \<Rightarrow> string" where
  "hex_EncodeToString bs = concat (map (\<lambda>b. [hex_digit (unat b div 16), hex_digit (unat b mod 16)]) bs)"

fun base36 :: "nat \<Rightarrow> string" where
  "base36 n = (if n < 36 then [hex_digit n] else base36 (n div 36) @ [hex_digit (n mod 36)])"

declare base36.simps [simp del]

definition FormatInt36 :: "int \<Rightarrow> string" where
  "FormatInt36 i = (if i < 0 then CHR ''-'' # base36 (nat (- i)) else base36 (nat i))"

definition FormatBool :: "bool \<Rightarrow> string" where
  "FormatBool b = (if b then ''true'' else ''false'')"

definition fixed3 :: "rat \<Rightarrow> string" where
  \<comment> \<open>three decimals, ties to even\<close>
  "fixed3 q =
     (let n = nat (rne (\<bar>q\<bar> * 1000)); m = n mod 1000
      in (if q < 0 then ''-'' else '''') @ dec_nat (n div 1000) @ ''.'' @ [hex_digit (m div 100), hex_digit (m div 10 mod 10), hex_digit (m mod 10)])"

fun FormatFloat3 :: "f64 \<Rightarrow> string" where
  "FormatFloat3 NaN = ''NaN''"
| "FormatFloat3 PInf = ''+Inf''"
| "FormatFloat3 NInf = ''-Inf''"
| "FormatFloat3 (Fin q) = fixed3 q"

definition format_ms :: "duration \<Rightarrow> string" where
  "format_ms d = FormatFloat3 (f_div (f_of_int d) (Fin 1000000))"

definition requestID :: "Header \<Rightarrow> 8 word list option \<Rightarrow> time \<Rightarrow> string" where
  \<comment> \<open>\<open>None\<close>: the random source failed\<close>
  "requestID h random now =
     (let v = Header_Get h ''X-Request-ID''
      in if v \<noteq> '''' then v else case random of Some bytes \<Rightarrow> hex_EncodeToString bytes | None \<Rightarrow> FormatInt36 (UnixNano now))"

subsection \<open>The response\<close>

record ResponseWriter =
  rw_header :: Header
  rw_status :: "int option" \<comment> \<open>\<open>None\<close>: nothing has been written\<close>
  rw_body :: string

definition http_Error :: "string \<Rightarrow> int \<Rightarrow> ResponseWriter \<Rightarrow> ResponseWriter" where
  "http_Error msg code w =
     w\<lparr>rw_header := Header_Set ''X-Content-Type-Options'' ''nosniff'' (Header_Set ''Content-Type'' ''text/plain; charset=utf-8''
          (Header_Del ''Content-Length'' (rw_header w))),
       rw_status := Some code, rw_body := rw_body w @ msg @ [CHR 10]\<rparr>"

definition set_header :: "string \<Rightarrow> string \<Rightarrow> ResponseWriter \<Rightarrow> ResponseWriter" where
  "set_header k v w = w\<lparr>rw_header := Header_Set k v (rw_header w)\<rparr>"

definition rejectAdmission :: "string \<Rightarrow> admission_error \<Rightarrow> ResponseWriter \<Rightarrow> request_metrics \<Rightarrow> int \<times> ResponseWriter \<times> request_metrics" where
  "rejectAdmission rid err w qm =
     (if error_Is err ErrCapacity then
        let qm1 = qm\<lparr>mq_admissionRejections := mq_admissionRejections qm + 1, mq_rejectedTotal := mq_rejectedTotal qm + 1\<rparr>;
            qm2 = (if error_Is err ErrSoftTarget
                   then qm1\<lparr>mq_admissionSoftRejections := mq_admissionSoftRejections qm1 + 1, mq_softRejectedTotal := mq_softRejectedTotal qm1 + 1\<rparr>
                   else if error_Is err ErrHardLimit
                   then qm1\<lparr>mq_admissionHardRejections := mq_admissionHardRejections qm1 + 1, mq_hardRejectedTotal := mq_hardRejectedTotal qm1 + 1\<rparr>
                   else qm1);
            w1 = set_header ''X-FishMesh-Route-Reason'' (reason_text ReasonAdmissionCapacity) (set_header ''Retry-After'' ''1'' w)
        in (429, http_Error ''gateway concurrency limit reached'' 429 (set_header ''X-Request-ID'' rid w1), qm2)
      else (503, http_Error ''gateway concurrency limit reached'' 503 (set_header ''X-Request-ID'' rid w), qm))"

definition rejectRequestBody :: "string \<Rightarrow> 'e body_error \<Rightarrow> ResponseWriter \<Rightarrow> int \<times> ResponseWriter" where
  "rejectRequestBody rid err w =
     (let w1 = set_header ''X-Request-ID'' rid w in
      case err of
        errRequestBodyTooLarge \<Rightarrow> (413, http_Error ''request body exceeds gateway limit'' 413 w1)
      | errRead _ \<Rightarrow> (400, http_Error ''request body unavailable'' 400 w1))"

definition prediction_headers :: "Shadow \<Rightarrow> ResponseWriter \<Rightarrow> ResponseWriter" where
  "prediction_headers shadow w =
     (if sh_Status shadow = StatusNone then w
      else
        let w1 = set_header ''X-FishMesh-Prediction-Status'' (shadow_status_text (sh_Status shadow)) w;
            w2 = (if sh_ModelVersion shadow \<noteq> '''' then set_header ''X-FishMesh-Prediction-Model'' (sh_ModelVersion shadow) w1 else w1);
            w3 = (if sh_WouldSelect shadow \<noteq> '''' then set_header ''X-FishMesh-Prediction-Would-Select'' (sh_WouldSelect shadow) w2 else w2);
            w4 = (if sh_SelectedEstimate shadow > 0
                  then set_header ''X-FishMesh-Prediction-Selected-TTFT-Ms'' (format_ms (sh_SelectedEstimate shadow)) w3 else w3);
            w5 = (if sh_WouldSelectTTFT shadow > 0
                  then set_header ''X-FishMesh-Prediction-Would-Select-TTFT-Ms'' (format_ms (sh_WouldSelectTTFT shadow)) w4 else w4)
        in set_header ''X-FishMesh-Prediction-Samples'' (dec_int (sh_SamplesPerBackend shadow)) w5)"

definition estimate_headers :: "EstimateEvidence \<Rightarrow> ResponseWriter \<Rightarrow> ResponseWriter" where
  "estimate_headers ev w =
     (if ev_PromptTokens ev \<le> 0 then w
      else foldl (\<lambda>w h. set_header (fst h) (snd h) w) w
        [(''X-FishMesh-Prompt-Tokens'', dec_int (ev_PromptTokens ev)),
         (''X-FishMesh-Uncached-Tokens'', dec_int (ev_UncachedTokens ev)),
         (''X-FishMesh-Estimated-TTFT-Ms'', format_ms (ev_EstimatedTTFT ev)),
         (''X-FishMesh-Estimator-Valid'', FormatBool (ev_Valid ev)),
         (''X-FishMesh-Estimator-Confidence'', ev_Confidence ev),
         (''X-FishMesh-Estimator-Version'', ev_Version ev),
         (''X-FishMesh-Estimator-Reason'', ev_Reason ev),
         (''X-FishMesh-Load-Valid'', FormatBool (ev_LoadValid ev)),
         (''X-FishMesh-Load-Sample-Age-Ms'', format_ms (ev_LoadSampleAge ev)),
         (''X-FishMesh-Queue-Depth'', dec_int (ev_QueueDepth ev)),
         (''X-FishMesh-Running-Requests'', dec_int (ev_Running ev)),
         (''X-FishMesh-Local-Delta'', dec_int (ev_LocalDelta ev)),
         (''X-FishMesh-Local-Inflight'', dec_int (ev_LocalInflight ev)),
         (''X-FishMesh-Hard-Overload-Candidates'', dec_int (ev_HardOverloadedCandidates ev))])"

definition writeDecisionHeaders :: "string \<Rightarrow> string \<Rightarrow> Decision \<Rightarrow> path_State \<Rightarrow> ResponseWriter \<Rightarrow> ResponseWriter" where
  "writeDecisionHeaders mode rid d st w =
     (let w1 = foldl (\<lambda>w h. set_header (fst h) (snd h) w) w
            [(''X-Request-ID'', rid), (''X-FishMesh-Routing-Mode'', mode), (''X-FishMesh-Route-Reason'', reason_text (dc_Reason d)),
             (''X-FishMesh-Backend-ID'', bID (dc_Backend d)), (''X-FishMesh-Preferred-Backend-ID'', dc_PreferredBackendID d),
             (''X-FishMesh-Policy'', policy_text (dc_Policy d))];
          w2 = (if dc_SpilloverReason d \<noteq> NoReason then set_header ''X-FishMesh-Spillover-Reason'' (reason_text (dc_SpilloverReason d)) w1 else w1);
          w3 = set_header ''X-FishMesh-Cached-Prefix-Tokens'' (dec_int (ps_CachedPrefixTokens st))
                 (set_header ''X-FishMesh-KV-Status'' (kv_status_text (ps_KV st)) w2)
      in estimate_headers (ps_Estimate st) (prediction_headers (ps_Prediction st) w3))"

definition writeUpstreamHeader :: "upstream_url \<Rightarrow> ResponseWriter \<Rightarrow> ResponseWriter" where
  "writeUpstreamHeader upstream w = set_header ''X-FishMesh-Upstream'' (uu_Host upstream) w"

subsection \<open>Membership callback\<close>

definition onBackendRemoved :: "ID \<Rightarrow> Server \<Rightarrow> Server" where
  "onBackendRemoved i sv =
     sv\<lparr>sv_transport := snd (pool_Remove i (sv_transport sv)),
        sv_metrics := DeleteBackend i (gw_RoutingMode (sv_config sv)) (sv_metrics sv)\<rparr>"

definition with_path :: "path_service \<Rightarrow> Server \<Rightarrow> Server" where
  \<comment> \<open>an operation of the request path has returned the given state; it called back for every backend it removed\<close>
  "with_path s sv =
     foldl (\<lambda>sv i. onBackendRemoved i sv) (sv\<lparr>sv_path := s\<rparr>) (drop (length (rp_removed (sv_path sv))) (rp_removed s))"

definition with_requests :: "(request_metrics \<Rightarrow> request_metrics) \<Rightarrow> Server \<Rightarrow> Server" where
  "with_requests f sv = sv\<lparr>sv_metrics := (sv_metrics sv)\<lparr>mx_request := f (mx_request (sv_metrics sv))\<rparr>\<rparr>"

subsection \<open>One request\<close>

datatype upstream_reply = DoFailed bool \<comment> \<open>whether the error is \<open>context.DeadlineExceeded\<close>\<close>
  | DoResponse int Header "unit read_result list"

record proxy_env =
  pe_started :: time
  pe_random :: "8 word list option"
  pe_id_time :: time
  pe_body :: "unit body_reader option"
  pe_url_parse :: url_parser
  pe_clk :: clock_reads
  pe_select_now :: time
  pe_view :: path_view
  pe_view2 :: path_view
  pe_ops :: kv_ops
  pe_resolved :: "Backend list option"
  pe_upstream_url :: "string \<Rightarrow> upstream_url option"
  pe_do :: "nat \<Rightarrow> upstream_request \<Rightarrow> upstream_reply"
  pe_do_canceled :: bool \<comment> \<open>\<open>request.Context().Err() != nil\<close> after a failed \<open>Do\<close>\<close>
  pe_end_canceled :: bool \<comment> \<open>the same after the copy\<close>
  pe_down :: downstream
  pe_flusher :: bool
  pe_first :: time
  pe_observed :: time
  pe_record :: time
  pe_open :: time
  pe_end :: time

type_synonym proxyResult = "int \<times> Outcome"

definition statusClientClosed :: int where "statusClientClosed = 499"

definition handleUpstreamError :: "bool \<Rightarrow> bool \<Rightarrow> ResponseWriter \<Rightarrow> Server \<Rightarrow> proxyResult \<times> ResponseWriter \<times> Server" where
  "handleUpstreamError canceled deadline w sv =
     (let sv1 = with_requests (\<lambda>qm. qm\<lparr>mq_upstreamErrors := mq_upstreamErrors qm + 1\<rparr>) sv in
      if canceled then ((statusClientClosed, OutcomeClientCanceled), w, sv1)
      else if deadline then ((504, OutcomeDeadlineExceeded), http_Error ''inference upstream timed out'' 504 w, sv1)
      else ((502, OutcomeTransportFailure), http_Error ''inference upstream unavailable'' 502 w, sv1))"

definition first_event :: "proxy_env \<Rightarrow> path_State \<Rightarrow> nat \<Rightarrow> Server \<Rightarrow> Server" where
  \<comment> \<open>the callback of \<open>copyResponse\<close>\<close>
  "first_event env st l sv =
     (let ttft = time_sub (pe_first env) (pe_started env);
          sv1 = with_requests (\<lambda>qm. qm\<lparr>mq_ttftSeconds := mq_ttftSeconds qm @ [Duration_Seconds ttft]\<rparr>) sv
      in case Lease_ObserveFirstToken (pe_observed env) l ttft (sv_path sv1) of (ob, s) \<Rightarrow>
        let sv2 = with_path s sv1
        in sv2\<lparr>sv_metrics := (sv_metrics sv2)\<lparr>mx_routing := observePrediction st ob (mx_routing (sv_metrics sv2))\<rparr>\<rparr>)"

definition copyResponse :: "proxy_env \<Rightarrow> path_State \<Rightarrow> nat \<Rightarrow> unit read_result list \<Rightarrow> Server
    \<Rightarrow> (unit bodyCopyResult \<times> string \<times> Server) option" where
  "copyResponse env st l reads sv =
     (case copyResponseBody (pe_down env) (pe_flusher env) reads of
        None \<Rightarrow> None
      | Some (res, n, out) \<Rightarrow> Some (res, out, if n > 0 then first_event env st l sv else sv))"

definition classifyStreamResult :: "bool \<Rightarrow> int \<Rightarrow> unit bodyCopyResult \<Rightarrow> Server \<Rightarrow> proxyResult \<times> Server" where
  "classifyStreamResult canceled status result sv =
     (if canceled then ((statusClientClosed, OutcomeClientCanceled), sv)
      else case result of
          CopyUpstream _ \<Rightarrow> ((status, OutcomeUpstreamStream), with_requests (\<lambda>qm. qm\<lparr>mq_streamErrors := mq_streamErrors qm + 1\<rparr>) sv)
        | CopyDownstream \<Rightarrow> ((status, OutcomeDownstreamFailure), sv)
        | CopyDone \<Rightarrow> ((status, OutcomeResponseCompleted), sv))"

definition proxyUpstream :: "proxy_env \<Rightarrow> http_request \<Rightarrow> string \<Rightarrow> string \<Rightarrow> Decision \<Rightarrow> path_State \<Rightarrow> nat \<Rightarrow> ResponseWriter \<Rightarrow> Server
    \<Rightarrow> (proxyResult \<times> ResponseWriter \<times> Server) option" where
  "proxyUpstream env request body rid d st l w sv =
     (case pe_upstream_url env (bURL (dc_Backend d)) of
        None \<Rightarrow> Some ((400, OutcomeInvalidClientInput), http_Error ''invalid upstream request'' 400 w, sv)
      | Some upstream \<Rightarrow>
          let ur = newUpstreamRequest (gw_KeepAlive (sv_config sv)) (gw_RequestTimeout (sv_config sv)) request body rid upstream
          in case ClientFor (dc_Backend d) (sv_transport sv) of (client, p) \<Rightarrow>
            let sv1 = sv\<lparr>sv_transport := p\<rparr> in
            (case pe_do env client ur of
               DoFailed deadline \<Rightarrow> Some (handleUpstreamError (pe_do_canceled env) deadline w sv1)
             | DoResponse status header reads \<Rightarrow>
                 let w1 = writeUpstreamHeader upstream (w\<lparr>rw_header := copyResponseHeaders (rw_header w) header\<rparr>) in
                 (case copyResponse env st l reads sv1 of
                    None \<Rightarrow> None
                  | Some (res, out, sv2) \<Rightarrow>
                      (case classifyStreamResult (pe_end_canceled env) status res sv2 of (result, sv3) \<Rightarrow>
                         Some (result, w1\<lparr>rw_status := Some status, rw_body := rw_body w1 @ out\<rparr>, sv3)))))"

definition proxy_selected :: "proxy_env \<Rightarrow> http_request \<Rightarrow> string \<Rightarrow> string \<Rightarrow> Decision \<Rightarrow> path_State \<Rightarrow> nat \<Rightarrow> ResponseWriter \<Rightarrow> Server
    \<Rightarrow> (int \<times> ResponseWriter \<times> Server) option" where
  \<comment> \<open>from the lease on: forward once, then settle\<close>
  "proxy_selected env request body rid d st l w sv =
     (let mode = gw_RoutingMode (sv_config sv);
          sv1 = sv\<lparr>sv_metrics := observeSelection mode d st (sv_metrics sv)\<rparr>
      in case proxyUpstream env request body rid d st l (writeDecisionHeaders mode rid d st w) sv1 of
           None \<Rightarrow> None
         | Some ((status, outcome), w2, sv2) \<Rightarrow>
             (case Lease_Complete (pe_record env) (pe_open env) l outcome (sv_path sv2) of (cp, s) \<Rightarrow>
                let sv3 = with_path s sv2
                in Some (status, w2, sv3\<lparr>sv_metrics := observeCompletion d st cp (sv_metrics sv3)\<rparr>)))"

definition proxy_admitted :: "proxy_env \<Rightarrow> http_request \<Rightarrow> string \<Rightarrow> ResponseWriter \<Rightarrow> Server \<Rightarrow> (int \<times> ResponseWriter \<times> Server) option" where
  "proxy_admitted env request rid w sv =
     (case readBoundedBody (hr_ContentLength request) (pe_body env) (gw_MaxRequestBodyBytes (sv_config sv)) of
        Inl err \<Rightarrow> (case rejectRequestBody rid err w of (status, w1) \<Rightarrow> Some (status, w1, sv))
      | Inr body \<Rightarrow>
          (case path_Select (pe_url_parse env) (pe_clk env) (pe_select_now env) (pe_view env) (pe_view2 env) (pe_ops env) (pe_resolved env)
                  \<lparr>rq_RoutingKey = Header_Get (hr_Header request) ''X-FishMesh-Session-Key'', rq_Route = hr_Path request,
                   rq_Body = string_bytes body\<rparr> (sv_path sv) of
             (Inl err, s) \<Rightarrow> Some (503, http_Error ''request path unavailable'' 503 w, with_path s sv)
           | (Inr (d, st, l), s) \<Rightarrow> proxy_selected env request body rid d st l w (with_path s sv)))"

definition proxy_enter :: "request_metrics \<Rightarrow> request_metrics" where
  "proxy_enter qm = (let qm1 = observeAdmissionAccepted qm
     in qm1\<lparr>mq_inflight := mq_inflight qm1 + 1, mq_inflightTotal := wrap64 (mq_inflightTotal qm1 + 1)\<rparr>)"

definition proxy_leave :: "request_metrics \<Rightarrow> request_metrics" where
  "proxy_leave qm = qm\<lparr>mq_inflightTotal := wrap64 (mq_inflightTotal qm - 1), mq_inflight := mq_inflight qm - 1\<rparr>"

definition proxy :: "proxy_env \<Rightarrow> http_request \<Rightarrow> Server \<Rightarrow> (int \<times> ResponseWriter \<times> Server) option" where
  "proxy env request sv =
     (let rid = requestID (hr_Header request) (pe_random env) (pe_id_time env);
          w = \<lparr>rw_header = [], rw_status = None, rw_body = []\<rparr>;
          observe = (\<lambda>status sv. with_requests (observeRequest (hr_Method request) status (time_sub (pe_end env) (pe_started env))) sv)
      in case TryAcquire (sv_admission sv) of
           (Inl err, c) \<Rightarrow>
             (case rejectAdmission rid err w (mx_request (sv_metrics sv)) of (status, w1, qm) \<Rightarrow>
                Some (status, w1, observe status (with_requests (\<lambda>_. qm) (sv\<lparr>sv_admission := c\<rparr>))))
         | (Inr permit, c) \<Rightarrow>
             (case proxy_admitted env request rid w (with_requests proxy_enter (sv\<lparr>sv_admission := c\<rparr>)) of
                None \<Rightarrow> None
              | Some (status, w1, sv1) \<Rightarrow>
                  let sv2 = with_requests proxy_leave sv1 in
                  (case Release (sv_admission sv2) permit of
                     None \<Rightarrow> None
                   | Some c' \<Rightarrow> Some (status, w1, observe status (sv2\<lparr>sv_admission := c'\<rparr>)))))"

definition handle_ready :: "ResolverStatus \<Rightarrow> Server \<Rightarrow> int" where
  \<comment> \<open>\<open>GET /readyz\<close>\<close>
  "handle_ready status sv = (if \<not> path_Ready (rp_config (sv_path sv)) status then 503 else 200)"

definition handle_metrics :: "path_view \<Rightarrow> Backend list option \<Rightarrow> Server \<Rightarrow> Server" where
  \<comment> \<open>\<open>GET /metrics\<close> before the exposition\<close>
  "handle_metrics v resolved sv =
     (case path_state v resolved (sv_path sv) of (st, s) \<Rightarrow>
        let sv1 = with_path s sv in sv1\<lparr>sv_metrics := updateRequestPath st (sv_metrics sv1)\<rparr>)"

end
