(* ===== verification/Gateway_Runs.thy ===== *)
theory Gateway_Runs
  imports Gateway
begin

text \<open>
  What holds of the requests of \<open>Gateway\<close>: a request leaves no permit and no lease behind
  (\<open>proxy_returns\<close>), so the gateway is idle between requests (\<open>gateway_reach_ok\<close>); a client that goes away
  does not count against a backend; and the client always learns the backend that was chosen.
\<close>

subsection \<open>What one request leaves behind\<close>

definition same_gates :: "Server \<Rightarrow> Server \<Rightarrow> bool" where
  "same_gates sv sv' \<longleftrightarrow> sv_admission sv' = sv_admission sv \<and> sv_config sv' = sv_config sv
     \<and> mq_inflight (mx_request (sv_metrics sv')) = mq_inflight (mx_request (sv_metrics sv))
     \<and> mq_inflightTotal (mx_request (sv_metrics sv')) = mq_inflightTotal (mx_request (sv_metrics sv))
     \<and> mq_completedTotal (mx_request (sv_metrics sv')) = mq_completedTotal (mx_request (sv_metrics sv))"

lemma same_gates_trans: "same_gates a b \<Longrightarrow> same_gates b c \<Longrightarrow> same_gates a c"
  by (simp add: same_gates_def)

lemma removed_path [simp]: "sv_path (foldl (\<lambda>sv i. onBackendRemoved i sv) sv is) = sv_path sv"
  by (induction "is" arbitrary: sv) (simp_all add: onBackendRemoved_def)

lemma removed_gates: "same_gates sv (foldl (\<lambda>sv i. onBackendRemoved i sv) sv is)"
proof (induction "is" arbitrary: sv)
  case (Cons i "is")
  have "same_gates sv (onBackendRemoved i sv)" by (simp add: same_gates_def onBackendRemoved_def DeleteBackend_def)
  then show ?case using Cons.IH by (auto intro: same_gates_trans)
qed (simp add: same_gates_def)

lemma with_path_path [simp]: "sv_path (with_path s sv) = s"
  by (simp add: with_path_def)

lemma with_path_gates: "same_gates sv (with_path s sv)"
  using removed_gates [of "sv\<lparr>sv_path := s\<rparr>"] by (simp add: with_path_def same_gates_def)

definition leased :: "leaseState list \<Rightarrow> nat \<Rightarrow> path_service \<Rightarrow> bool" where
  \<comment> \<open>the request path has one lease more than before\<close>
  "leased old l s \<longleftrightarrow> path_serial s \<and> l = length old \<and> (\<exists>x. rp_leases s = old @ [x])"

lemma Select_leased:
  assumes "path_serial s" and "path_Select u clk now v v2 ops resolved rq s = (Inr (d, st, l), s')"
  shows "leased (rp_leases s) l s'"
proof -
  obtain bs ki kv s1 s2 where p: "select_prepare v ops resolved rq s = (Inr (bs, ki, kv), s1)"
      and c: "select_commit u clk now v2 (rq_RoutingKey rq) (bs, ki, kv) s1 = ((d, st, l), s2)" and s': "s' = select_reserve l s2"
    by (rule path_Select_parts [OF assms(2)])
  have "cells_ok s1" using select_prepare_cells(1) [of s v ops resolved rq] path_serial_ok [OF assms(1)] p by (simp add: serial_ok_def)
  then obtain new where "rp_leases s2 = rp_leases s1 @ [new]" "l = length (rp_leases s1)"
    using select_commit_cells(4) [OF c] by auto
  moreover have "rp_leases s1 = rp_leases s" using select_prepare_leases [of v ops resolved rq s] p by simp
  ultimately show ?thesis using serial_select [OF assms] by (simp add: leased_def s' select_reserve_def Let_def)
qed

lemma Select_failed:
  assumes "path_serial s" and "path_Select u clk now v v2 ops resolved rq s = (Inl e, s')"
  shows "path_serial s' \<and> rp_leases s' = rp_leases s"
proof -
  obtain p s1 where p: "select_prepare v ops resolved rq s = (p, s1)" by (cases "select_prepare v ops resolved rq s")
  then have "s1 = s'" using assms(2) by (cases p) (auto simp: path_Select_def split: prod.splits)
  then show ?thesis using serial_select [OF assms] select_prepare_leases [of v ops resolved rq s] p by simp
qed

lemma observe_leased:
  assumes "leased old l s" and "Lease_ObserveFirstToken now l ttft s = (ob, s')"
  shows "leased old l s'"
proof -
  have "path_serial s" and "l < length (rp_leases s)" using assms(1) by (auto simp: leased_def)
  then have "path_serial s'" using assms(2) by (rule serial_observe)
  then show ?thesis using assms
    by (auto simp: leased_def Lease_ObserveFirstToken_def Let_def split: option.splits prod.splits)
qed

lemma Complete_settles:
  assumes "leased old l s" and c: "Lease_Complete t1 t2 l out s = (cp, s')"
  shows "path_serial s' \<and> (\<exists>x. rp_leases s' = old @ [x] \<and> ls_done x)"
proof -
  obtain x where x: "rp_leases s = old @ [x]" and l: "l = length old" and s: "path_serial s" using assms(1) by (auto simp: leased_def)
  have "path_serial s'" using serial_complete [OF s _ c] l x by simp
  moreover have "\<exists>y. rp_leases s' = old @ [y] \<and> ls_done y"
  proof (cases "ls_done x")
    case True
    then show ?thesis using c x l by (simp add: Lease_Complete_def Let_def nth_append)
  next
    case False
    obtain c0 s1 where p: "path_complete t1 t2 (ls_backend x) (ls_counter x) out s = (c0, s1)"
      by (cases "path_complete t1 t2 (ls_backend x) (ls_counter x) out s")
    then show ?thesis using c x l False path_complete_leases [OF p]
      by (auto simp: Lease_Complete_def Let_def nth_append)
  qed
  ultimately show ?thesis by blast
qed

lemma first_event_leased:
  assumes "leased old l (sv_path sv)"
  shows "leased old l (sv_path (first_event env st l sv)) \<and> same_gates sv (first_event env st l sv)"
proof -
  let ?ttft = "time_sub (pe_first env) (pe_started env)"
  let ?sv1 = "with_requests (\<lambda>qm. qm\<lparr>mq_ttftSeconds := mq_ttftSeconds qm @ [Duration_Seconds ?ttft]\<rparr>) sv"
  obtain ob s where o: "Lease_ObserveFirstToken (pe_observed env) l ?ttft (sv_path sv) = (ob, s)"
    by (cases "Lease_ObserveFirstToken (pe_observed env) l ?ttft (sv_path sv)")
  have p: "sv_path ?sv1 = sv_path sv" by (simp add: with_requests_def)
  have "same_gates sv ?sv1" by (simp add: same_gates_def with_requests_def)
  then have "same_gates sv (with_path s ?sv1)" using with_path_gates by (rule same_gates_trans)
  then show ?thesis using observe_leased [OF assms o] o by (simp add: first_event_def Let_def p same_gates_def)
qed

lemma finite_reads:
  assumes "\<exists>r\<in>set reads. \<forall>p. r \<noteq> ReadMore p"
  obtains ps t rest where "reads = map ReadMore ps @ t # rest" and "\<And>p. t \<noteq> ReadMore p"
  using assms
proof (induction reads arbitrary: thesis)
  case (Cons r reads)
  show ?case
  proof (cases "\<exists>p. r = ReadMore p")
    case True
    then obtain p where r: "r = ReadMore p" by blast
    obtain ps t rest where "reads = map ReadMore ps @ t # rest" "\<And>p. t \<noteq> ReadMore p" using Cons.IH Cons.prems(2) r by auto
    then show ?thesis using Cons.prems(1) [of "p # ps" t rest] r by simp
  next
    case False
    then show ?thesis using Cons.prems(1) [of "[]" r reads] by simp
  qed
qed simp

lemma copy_returns:
  assumes "\<exists>r\<in>set reads. \<forall>p. r \<noteq> ReadMore p"
  shows "\<exists>z. copyResponseBody down flusher reads = Some z"
proof -
  obtain ps t rest where r: "reads = map ReadMore ps @ t # rest" "\<And>p. t \<noteq> ReadMore p" by (rule finite_reads [OF assms]) blast
  have "sent [] \<lparr>bw_size = streamBufferBytes, bw_buf = [], bw_err = False, bw_out = []\<rparr>" by (simp add: sent_def)
  from copy_loop_copies [OF fed_new this, of flusher t down ps rest] r show ?thesis
    by (fastforce simp: copyResponseBody_def split: option.splits prod.splits)
qed

definition stream_ends :: "proxy_env \<Rightarrow> bool" where
  \<comment> \<open>every response body ends, with EOF or with an error\<close>
  "stream_ends env \<longleftrightarrow> (\<forall>client ur status header reads. pe_do env client ur = DoResponse status header reads
     \<longrightarrow> (\<exists>r\<in>set reads. \<forall>p. r \<noteq> ReadMore p))"

lemma proxyUpstream_leased:
  assumes "leased old l (sv_path sv)" and "stream_ends env"
  shows "\<exists>result w' sv'. proxyUpstream env request body rid d st l w sv = Some (result, w', sv')
     \<and> leased old l (sv_path sv') \<and> same_gates sv sv'"
proof (cases "pe_upstream_url env (bURL (dc_Backend d))")
  case None
  then show ?thesis using assms(1) by (simp add: proxyUpstream_def same_gates_def)
next
  case (Some upstream)
  obtain client p where cl: "ClientFor (dc_Backend d) (sv_transport sv) = (client, p)"
    by (cases "ClientFor (dc_Backend d) (sv_transport sv)")
  define ur where "ur = newUpstreamRequest (gw_KeepAlive (sv_config sv)) (gw_RequestTimeout (sv_config sv)) request body rid upstream"
  let ?sv1 = "sv\<lparr>sv_transport := p\<rparr>"
  note run = proxyUpstream_def Some cl Let_def ur_def [symmetric]
  have l1: "leased old l (sv_path ?sv1)" and g1: "same_gates sv ?sv1" using assms(1) by (simp_all add: same_gates_def)
  show ?thesis
  proof (cases "pe_do env client ur")
    case (DoFailed deadline)
    then show ?thesis using l1 by (simp add: run handleUpstreamError_def same_gates_def with_requests_def)
  next
    case (DoResponse status header reads)
    then obtain res n out where c: "copyResponseBody (pe_down env) (pe_flusher env) reads = Some (res, n, out)"
      using copy_returns assms(2) unfolding stream_ends_def by (metis prod_cases3)
    define sv2 where "sv2 = (if n > 0 then first_event env st l ?sv1 else ?sv1)"
    have 2: "leased old l (sv_path sv2)" "same_gates sv sv2"
      using first_event_leased [OF l1, of env st] l1 g1 by (auto simp: sv2_def intro: same_gates_trans)
    obtain result sv3 where k: "classifyStreamResult (pe_end_canceled env) status res sv2 = (result, sv3)"
      by (cases "classifyStreamResult (pe_end_canceled env) status res sv2")
    have "leased old l (sv_path sv3)" "same_gates sv sv3"
      using 2 k by (auto simp: classifyStreamResult_def with_requests_def same_gates_def split: if_splits bodyCopyResult.splits)
    moreover have "copyResponse env st l reads ?sv1 = Some (res, out, sv2)" using c by (simp add: copyResponse_def sv2_def)
    ultimately show ?thesis using k by (simp add: run DoResponse)
  qed
qed

definition settled :: "Server \<Rightarrow> Server \<Rightarrow> bool" where
  \<comment> \<open>every lease that was added is settled, the older leases are as before\<close>
  "settled sv sv' \<longleftrightarrow> path_serial (sv_path sv') \<and> same_gates sv sv'
     \<and> (\<exists>new. rp_leases (sv_path sv') = rp_leases (sv_path sv) @ new \<and> list_all ls_done new)"

lemma proxy_selected_settled:
  assumes "leased (rp_leases (sv_path sv0)) l (sv_path sv)" and "same_gates sv0 sv" and "stream_ends env"
  shows "\<exists>status w' sv'. proxy_selected env request body rid d st l w sv = Some (status, w', sv') \<and> settled sv0 sv'"
proof -
  define mode where "mode = gw_RoutingMode (sv_config sv)"
  let ?sv1 = "sv\<lparr>sv_metrics := observeSelection mode d st (sv_metrics sv)\<rparr>"
  have "leased (rp_leases (sv_path sv0)) l (sv_path ?sv1)" using assms(1) by simp
  then obtain status outcome w2 sv2 where u: "proxyUpstream env request body rid d st l (writeDecisionHeaders mode rid d st w) ?sv1
        = Some ((status, outcome), w2, sv2)"
      and l2: "leased (rp_leases (sv_path sv0)) l (sv_path sv2)" and g2: "same_gates ?sv1 sv2"
    using proxyUpstream_leased [OF _ assms(3)] by (metis surj_pair)
  obtain cp s where c: "Lease_Complete (pe_record env) (pe_open env) l outcome (sv_path sv2) = (cp, s)"
    by (cases "Lease_Complete (pe_record env) (pe_open env) l outcome (sv_path sv2)")
  let ?sv3 = "with_path s sv2"
  have "same_gates sv ?sv1"
    by (simp add: same_gates_def observeSelection_def updateRequestPath_def Let_def)
  then have g3: "same_gates sv0 ?sv3" using assms(2) g2 with_path_gates [of sv2 s] by (blast intro: same_gates_trans)
  have "settled sv0 (?sv3\<lparr>sv_metrics := observeCompletion d st cp (sv_metrics ?sv3)\<rparr>)"
    using Complete_settles [OF l2 c] g3
    by (auto simp: settled_def same_gates_def observeCompletion_def Let_def)
  then show ?thesis using u c by (simp add: proxy_selected_def Let_def mode_def [symmetric])
qed

lemma proxy_admitted_settled:
  assumes "path_serial (sv_path sv)" and "stream_ends env"
  shows "\<exists>status w' sv'. proxy_admitted env request rid w sv = Some (status, w', sv') \<and> settled sv sv'"
proof (cases "readBoundedBody (hr_ContentLength request) (pe_body env) (gw_MaxRequestBodyBytes (sv_config sv))")
  case (Inl err)
  then show ?thesis using assms(1) by (simp add: proxy_admitted_def settled_def same_gates_def split: prod.splits)
next
  case (Inr body)
  let ?rq = "\<lparr>rq_RoutingKey = Header_Get (hr_Header request) ''X-FishMesh-Session-Key'', rq_Route = hr_Path request, rq_Body = string_bytes body\<rparr>"
  obtain r s where sel: "path_Select (pe_url_parse env) (pe_clk env) (pe_select_now env) (pe_view env) (pe_view2 env) (pe_ops env)
      (pe_resolved env) ?rq (sv_path sv) = (r, s)" by fastforce
  show ?thesis
  proof (cases r)
    case (Inl e)
    then have "settled sv (with_path s sv)"
      using Select_failed [OF assms(1) sel [unfolded Inl]] with_path_gates by (simp add: settled_def)
    then show ?thesis using Inr sel Inl by (simp add: proxy_admitted_def)
  next
    case r: (Inr dsl)
    obtain d st l where d: "dsl = (d, st, l)" by (cases dsl)
    have "leased (rp_leases (sv_path sv)) l (sv_path (with_path s sv))"
      using Select_leased [OF assms(1) sel [unfolded r d]] by simp
    from proxy_selected_settled [OF this with_path_gates assms(2), of request body rid d st w]
    show ?thesis using Inr sel r d by (simp add: proxy_admitted_def)
  qed
qed

lemma permit_roundtrip:
  assumes "controller_ok c" and "TryAcquire c = (Inr p, c1)"
  shows "\<exists>c2. Release c1 p = Some c2 \<and> ctl_len c2 = ctl_len c \<and> outstanding c2 = outstanding c \<and> controller_ok c2"
proof -
  have c1: "p = length (ctl_released c)" "c1 = c\<lparr>ctl_len := ctl_len c + 1, ctl_released := ctl_released c @ [False]\<rparr>"
    using assms(2) by (auto simp: TryAcquire_def split: if_splits)
  then show ?thesis using assms(1) by (auto simp: Release_def controller_ok_def outstanding_def nth_append)
qed

lemma settled_held: "settled sv sv' \<Longrightarrow> held_backend (sv_path sv') b = held_backend (sv_path sv) b"
  by (auto simp: settled_def held_backend_def holds_def list_all_iff filter_empty_conv)

lemma wrap64_undo: "in_int64 x \<Longrightarrow> wrap64 (wrap64 (x + 1) - 1) = x"
  unfolding wrap64_def in_int64_def min_int64_def max_int64_def by (simp add: mod_simps)

definition gateway_quiet :: "Server \<Rightarrow> Server \<Rightarrow> bool" where
  \<comment> \<open>the same requests are in flight, by every count the gateway keeps\<close>
  "gateway_quiet sv sv' \<longleftrightarrow> ctl_len (sv_admission sv') = ctl_len (sv_admission sv)
     \<and> (\<forall>b. held_backend (sv_path sv') b = held_backend (sv_path sv) b)
     \<and> (\<forall>b. mget 0 (inflightSnapshot (sv_path sv')) b = mget 0 (inflightSnapshot (sv_path sv)) b)
     \<and> mq_inflight (mx_request (sv_metrics sv')) = mq_inflight (mx_request (sv_metrics sv))
     \<and> mq_inflightTotal (mx_request (sv_metrics sv')) = mq_inflightTotal (mx_request (sv_metrics sv))"

definition gateway_ok :: "Server \<Rightarrow> bool" where
  "gateway_ok sv \<longleftrightarrow> path_serial (sv_path sv) \<and> controller_ok (sv_admission sv) \<and> in_int64 (mq_inflightTotal (mx_request (sv_metrics sv)))"

lemma proxy_returns:
  assumes ok: "gateway_ok sv" and ends: "stream_ends env"
  shows "\<exists>status w sv'. proxy env request sv = Some (status, w, sv') \<and> gateway_ok sv' \<and> gateway_quiet sv sv'
     \<and> mq_completedTotal (mx_request (sv_metrics sv')) = mq_completedTotal (mx_request (sv_metrics sv)) + 1"
proof -
  obtain r c where t: "TryAcquire (sv_admission sv) = (r, c)" by (cases "TryAcquire (sv_admission sv)")
  show ?thesis
  proof (cases r)
    case (Inl err)
    then have "c = sv_admission sv" using t by (auto simp: TryAcquire_def split: if_splits)
    then show ?thesis using ok t Inl
      by (simp add: proxy_def Let_def rejectAdmission_def with_requests_def observeRequest_def gateway_ok_def gateway_quiet_def)
  next
    case (Inr p)
    let ?sv0 = "with_requests proxy_enter (sv\<lparr>sv_admission := c\<rparr>)"
    define rid where "rid = requestID (hr_Header request) (pe_random env) (pe_id_time env)"
    have s0: "path_serial (sv_path ?sv0)" using ok by (simp add: gateway_ok_def with_requests_def)
    obtain status w1 sv1 where a: "proxy_admitted env request rid \<lparr>rw_header = [], rw_status = None, rw_body = []\<rparr> ?sv0 = Some (status, w1, sv1)"
        and s: "settled ?sv0 sv1" using proxy_admitted_settled [OF s0 ends] by blast
    have adm: "sv_admission sv1 = c" using s by (simp add: settled_def same_gates_def with_requests_def)
    obtain c2 where rel: "Release c p = Some c2" "ctl_len c2 = ctl_len (sv_admission sv)" "controller_ok c2"
      using permit_roundtrip [OF _ t [unfolded Inr]] ok by (auto simp: gateway_ok_def)
    let ?sv2 = "(with_requests proxy_leave sv1)\<lparr>sv_admission := c2\<rparr>"
    let ?sv' = "with_requests (observeRequest (hr_Method request) status (time_sub (pe_end env) (pe_started env))) ?sv2"
    have run: "proxy env request sv = Some (status, w1, ?sv')"
      using t Inr a rel(1) adm by (simp add: proxy_def Let_def rid_def [symmetric]) (simp add: with_requests_def)
    have path: "sv_path ?sv' = sv_path sv1" by (simp add: with_requests_def)
    have held: "held_backend (sv_path ?sv') b = held_backend (sv_path sv) b" for b
      using settled_held [OF s, of b] unfolding path by (simp add: with_requests_def)
    have serial: "path_serial (sv_path ?sv')" using s unfolding path by (simp add: settled_def)
    then have infl: "mget 0 (inflightSnapshot (sv_path ?sv')) b = mget 0 (inflightSnapshot (sv_path sv)) b" for b
      using serial_exact path_serial_ok ok held by (simp add: gateway_ok_def)
    have gates: "mq_inflight (mx_request (sv_metrics sv1)) = mq_inflight (mx_request (sv_metrics sv)) + 1"
        "mq_inflightTotal (mx_request (sv_metrics sv1)) = wrap64 (mq_inflightTotal (mx_request (sv_metrics sv)) + 1)"
        "mq_completedTotal (mx_request (sv_metrics sv1)) = mq_completedTotal (mx_request (sv_metrics sv))"
      using s by (simp_all add: settled_def same_gates_def with_requests_def proxy_enter_def observeAdmissionAccepted_def Let_def)
    have total: "mq_inflightTotal (mx_request (sv_metrics ?sv')) = mq_inflightTotal (mx_request (sv_metrics sv))"
      using ok by (simp add: with_requests_def proxy_leave_def observeRequest_def gates wrap64_undo gateway_ok_def)
    have "gateway_ok ?sv'" using serial rel(3) total ok by (simp add: gateway_ok_def) (simp add: with_requests_def)
    moreover have "gateway_quiet sv ?sv'"
      using held infl total rel(2) gates by (simp add: gateway_quiet_def) (simp add: with_requests_def proxy_leave_def observeRequest_def)
    moreover have "mq_completedTotal (mx_request (sv_metrics ?sv')) = mq_completedTotal (mx_request (sv_metrics sv)) + 1"
      by (simp add: with_requests_def proxy_leave_def observeRequest_def gates)
    ultimately show ?thesis using run by blast
  qed
qed


subsection \<open>Runs of the gateway\<close>

inductive gateway_reach :: "Server \<Rightarrow> bool" where
  gw_new: "admission_New ac = Inr c \<Longrightarrow> path_New u pc has_resolver kv_complete strategy circuits predictor estimator = Inr s \<Longrightarrow>
    gateway_Config_Validate gc \<Longrightarrow>
    gateway_reach \<lparr>sv_config = gc, sv_path = s, sv_admission = c, sv_transport = pool_New tc, sv_metrics = NewMetrics\<rparr>"
| gw_proxy: "gateway_reach sv \<Longrightarrow> stream_ends env \<Longrightarrow> proxy env request sv = Some (status, w, sv') \<Longrightarrow> gateway_reach sv'"
| gw_scrape: "gateway_reach sv \<Longrightarrow> gateway_reach (handle_metrics v resolved sv)"
| gw_reconcile: "gateway_reach sv \<Longrightarrow> gateway_reach (with_path (reconcileBackends backends (sv_path sv)) sv)"
| gw_tune: "gateway_reach sv \<Longrightarrow> tuner_step t (sv_admission sv) (AdmissionSignal now (mx_request (sv_metrics sv))) now = (t', c) \<Longrightarrow>
    gateway_reach (with_requests (ObserveAdmissionTuning dec) (sv\<lparr>sv_admission := c\<rparr>))"

definition idle :: "Server \<Rightarrow> bool" where
  "idle sv \<longleftrightarrow> ctl_len (sv_admission sv) = 0 \<and> (\<forall>b. held_backend (sv_path sv) b = 0)
     \<and> mq_inflight (mx_request (sv_metrics sv)) = 0 \<and> mq_inflightTotal (mx_request (sv_metrics sv)) = 0"

lemma idle_quiet: "idle sv \<Longrightarrow> gateway_quiet sv sv' \<Longrightarrow> idle sv'"
  by (simp add: idle_def gateway_quiet_def)

lemma idle_same:
  assumes "idle sv" and "gateway_ok sv" and "path_serial s" and "rp_leases s = rp_leases (sv_path sv)"
  shows "idle (with_path s sv) \<and> gateway_ok (with_path s sv)"
  using assms with_path_gates [of sv s] by (simp add: idle_def gateway_ok_def same_gates_def held_backend_def)

lemma tuner_step_len: "ctl_len (snd (tuner_step t c signal now)) = ctl_len c"
  using tuner_step_controller [of t c signal now] by (auto simp: SetTarget_def)

lemma gateway_new_idle:
  assumes "admission_New ac = Inr c" and "path_New u pc r k st br p e = Inr s"
  shows "gateway_ok \<lparr>sv_config = gc, sv_path = s, sv_admission = c, sv_transport = pool_New tc, sv_metrics = NewMetrics\<rparr>
    \<and> idle \<lparr>sv_config = gc, sv_path = s, sv_admission = c, sv_transport = pool_New tc, sv_metrics = NewMetrics\<rparr>"
proof -
  have "rp_leases s = []" using path_New_cells [OF assms(2)] by simp
  moreover have "ctl_len c = 0" using assms(1) by (auto simp: admission_New_def Let_def split: option.splits)
  ultimately show ?thesis using admission_New_ok [OF assms(1)] serial_new [OF assms(2)]
    by (simp add: gateway_ok_def idle_def held_backend_def NewMetrics_def initializeRequestMetrics_def in_int64_def
        min_int64_def max_int64_def)
qed

lemma gateway_reach_ok: "gateway_reach sv \<Longrightarrow> gateway_ok sv \<and> idle sv"
proof (induction rule: gateway_reach.induct)
  case (gw_proxy sv env request status w sv')
  then show ?case using proxy_returns [of sv env request] idle_quiet by fastforce
next
  case (gw_scrape sv v resolved)
  obtain st s where p: "path_state v resolved (sv_path sv) = (st, s)" by (cases "path_state v resolved (sv_path sv)")
  have "path_serial s" using serial_state p gw_scrape.IH by (auto simp: gateway_ok_def)
  moreover have "rp_leases s = rp_leases (sv_path sv)"
    using p by (auto simp: path_state_def reconcileBackends_leases dest: arg_cong [where f = "\<lambda>x. rp_leases (snd (snd x))"]
        simp: buildSnapshot_leases split: option.splits prod.splits)
  ultimately have "idle (with_path s sv) \<and> gateway_ok (with_path s sv)" using idle_same gw_scrape.IH by blast
  then show ?case by (auto simp: handle_metrics_def p Let_def idle_def gateway_ok_def updateRequestPath_def)
next
  case (gw_reconcile sv backends)
  then show ?case using idle_same [of sv] serial_reconcile reconcileBackends_leases by (auto simp: gateway_ok_def)
next
  case (gw_tune sv t now t' c dec)
  have "controller_ok c" "ctl_len c = 0"
    using tuner_step_ok [of "sv_admission sv" t] tuner_step_len [of t "sv_admission sv"] gw_tune
    by (auto simp: gateway_ok_def idle_def) (metis snd_conv)+
  then show ?case using gw_tune.IH
    by (auto simp: gateway_ok_def idle_def with_requests_def ObserveAdmissionTuning_def Let_def)
qed (use gateway_new_idle in blast)


subsection \<open>A client that goes away\<close>

lemma Complete_neutral:
  assumes c: "Lease_Complete t1 t2 l out s = (cp, s')" and n: "\<not> health_outcome out"
    and k: "map_of (br_states (rp_circuits s')) k = Some x"
  shows "x = zero_circuitState \<or> map_of (br_states (rp_circuits s)) k = Some x"
proof (cases "ls_done (rp_leases s ! l)")
  case True
  then show ?thesis using c k by (simp add: Lease_Complete_def Let_def)
next
  case False
  let ?l = "rp_leases s ! l"
  obtain c1 s2 where sc: "settle_circuit t1 t2 (ls_backend ?l) out s = (c1, s2)" by (cases "settle_circuit t1 t2 (ls_backend ?l) out s")
  obtain y s3 where rl: "releaseBackend (ls_backend ?l) (ls_counter ?l) s2 = (y, s3)" by (cases "releaseBackend (ls_backend ?l) (ls_counter ?l) s2")
  have "rp_circuits s' = rp_circuits s3" using c False by (auto simp: Lease_Complete_def path_complete_def sc rl Let_def)
  then show ?thesis using settle_circuit_neutral [OF sc n] releaseBackend_circuits [OF rl] k by simp
qed

lemma first_event_circuits: "rp_circuits (sv_path (first_event env st l sv)) = rp_circuits (sv_path sv)"
  by (auto simp: first_event_def Lease_ObserveFirstToken_def with_requests_def Let_def split: option.splits prod.splits)

lemma canceled_outcome:
  assumes "proxyUpstream env request body rid d st l w sv = Some ((status, outcome), w', sv')"
    and "pe_do_canceled env" and "pe_end_canceled env"
  shows "\<not> health_outcome outcome \<and> rp_circuits (sv_path sv') = rp_circuits (sv_path sv)"
  using assms by (auto simp: proxyUpstream_def handleUpstreamError_def classifyStreamResult_def copyResponse_def health_outcome_def
      with_requests_def Let_def first_event_circuits split: option.splits prod.splits upstream_reply.splits if_splits)

text \<open>
  C8. A request whose client has gone away never counts against the backend: whether the upstream call failed
  with it or the stream broke, after the settlement every circuit state is one from before the request or
  the reset one.
\<close>
theorem canceled_request_spares_backend:
  assumes "proxy_selected env request body rid d st l w sv = Some (status, w', sv')"
    and "pe_do_canceled env" and "pe_end_canceled env"
  shows "map_of (br_states (rp_circuits (sv_path sv'))) k
    \<in> {None, Some zero_circuitState, map_of (br_states (rp_circuits (sv_path sv))) k}"
proof -
  define mode where "mode = gw_RoutingMode (sv_config sv)"
  let ?sv1 = "sv\<lparr>sv_metrics := observeSelection mode d st (sv_metrics sv)\<rparr>"
  obtain st2 outcome w2 sv2 where u: "proxyUpstream env request body rid d st l (writeDecisionHeaders mode rid d st w) ?sv1
        = Some ((st2, outcome), w2, sv2)"
    using assms(1) by (auto simp: proxy_selected_def Let_def mode_def split: option.splits)
  obtain cp s where c: "Lease_Complete (pe_record env) (pe_open env) l outcome (sv_path sv2) = (cp, s)"
    by (cases "Lease_Complete (pe_record env) (pe_open env) l outcome (sv_path sv2)")
  have "sv_path sv' = s" using assms(1) u c by (auto simp: proxy_selected_def Let_def mode_def)
  then show ?thesis using Complete_neutral [OF c _, of k] canceled_outcome [OF u assms(2,3)]
    by (cases "map_of (br_states (rp_circuits s)) k") auto
qed

subsection \<open>A concrete gateway\<close>

definition wit_server :: Server where
  "wit_server = \<lparr>sv_config = \<lparr>gw_RoutingMode = ''load-balanced'', gw_KeepAlive = True, gw_RequestTimeout = 1, gw_MaxRequestBodyBytes = 16\<rparr>,
     sv_path = wit_path, sv_admission = wit_controller, sv_transport = wit_pool, sv_metrics = NewMetrics\<rparr>"

definition wit_env :: proxy_env where
  "wit_env = \<lparr>pe_started = 1, pe_random = None, pe_id_time = 1, pe_body = None, pe_url_parse = wit_http, pe_clk = wit_clock 1,
     pe_select_now = 1, pe_view = wit_view, pe_view2 = wit_view, pe_ops = wit_ops, pe_resolved = Some [wit_b1],
     pe_upstream_url = (\<lambda>_. Some \<lparr>uu_Scheme = ''http'', uu_Host = ''a'', uu_Path = ''''\<rparr>),
     pe_do = (\<lambda>_ _. DoResponse 200 [] [ReadEOF ''ok'']), pe_do_canceled = True, pe_end_canceled = True, pe_down = (\<lambda>_ _. None),
     pe_flusher = True, pe_first = 2, pe_observed = 2, pe_record = 3, pe_open = 3, pe_end = 4\<rparr>"

definition wit_http_request :: http_request where
  "wit_http_request = \<lparr>hr_Method = ''POST'', hr_Path = ''/v1/completions'', hr_Query = '''', hr_Header = [], hr_ContentLength = 0\<rparr>"

lemma wit_server_reach: "gateway_reach wit_server"
  unfolding wit_server_def wit_pool_def
  by (rule gw_new [OF wit_admission_New wit_path_New])
     (simp add: gateway_Config_Validate_def Mode_Validate_def ModeLoadBalanced_def)

lemma wit_stream_ends: "stream_ends wit_env"
  by (simp add: stream_ends_def wit_env_def)



definition wit_canceled :: Server where
  "wit_canceled = wit_server\<lparr>sv_path := wit_selected\<rparr>"

lemma wit_canceled_leased: "leased (rp_leases (sv_path wit_server)) 0 (sv_path wit_canceled)"
proof -
  obtain d st l where "path_Select wit_http (wit_clock 1) 1 wit_view wit_view wit_ops (Some [wit_b1]) wit_request wit_path = (Inr (d, st, l), wit_selected)"
    using wit_select by (metis prod_cases3)
  then have "leased (rp_leases wit_path) l wit_selected" using Select_leased serial_new [OF wit_path_New] by blast
  then show ?thesis
    by (auto simp: wit_canceled_def wit_server_def wit_path_def leased_def)
qed

theorem canceled_request_spares_backend_witness:
  "\<exists>status w sv'. proxy_selected wit_env wit_http_request [] ''r'' (plain_decision wit_b1 ReasonLoadBalanced PolicyLoadBalancedV1)
       (fst (path_state wit_view None wit_path)) 0 \<lparr>rw_header = [], rw_status = None, rw_body = []\<rparr> wit_canceled = Some (status, w, sv')
     \<and> map_of (br_states (rp_circuits (sv_path sv'))) ''a''
       \<in> {None, Some zero_circuitState, map_of (br_states (rp_circuits (sv_path wit_canceled))) ''a''}"
proof -
  let ?d = "plain_decision wit_b1 ReasonLoadBalanced PolicyLoadBalancedV1"
  let ?st = "fst (path_state wit_view None wit_path)"
  let ?w = "\<lparr>rw_header = [], rw_status = None, rw_body = []\<rparr>"
  have "same_gates wit_server wit_canceled" by (simp add: same_gates_def wit_canceled_def)
  then obtain status w' sv' where p: "proxy_selected wit_env wit_http_request [] ''r'' ?d ?st 0 ?w wit_canceled = Some (status, w', sv')"
    using proxy_selected_settled [OF wit_canceled_leased _ wit_stream_ends] by blast
  have "pe_do_canceled wit_env" "pe_end_canceled wit_env" by (simp_all add: wit_env_def)
  then show ?thesis using canceled_request_spares_backend [OF p, of "''a''"] p by blast
qed

subsection \<open>What the client is told\<close>

definition leads :: "string \<Rightarrow> string \<Rightarrow> ResponseWriter \<Rightarrow> bool" where
  "leads k v w \<longleftrightarrow> (\<exists>vs. mget [] (rw_header w) k = v # vs)"

lemma leads_set: "leads k v w \<Longrightarrow> CanonicalMIMEHeaderKey n \<noteq> k \<Longrightarrow> leads k v (set_header n x w)"
  by (simp add: leads_def set_header_def Header_Set_def mget_update)

lemma leads_this: "CanonicalMIMEHeaderKey n = k \<Longrightarrow> leads k v (set_header n v w)"
  by (simp add: leads_def set_header_def Header_Set_def mget_update)

lemma leads_sets:
  "leads k v w \<Longrightarrow> list_all (\<lambda>h. CanonicalMIMEHeaderKey (fst h) \<noteq> k) hs \<Longrightarrow> leads k v (foldl (\<lambda>w h. set_header (fst h) (snd h) w) w hs)"
  by (induction hs arbitrary: w) (simp_all add: leads_set)

lemma leads_fields [simp]:
  "leads k v (w\<lparr>rw_status := s\<rparr>) = leads k v w" "leads k v (w\<lparr>rw_body := b\<rparr>) = leads k v w"
  by (simp_all add: leads_def)

lemma leads_copy: "leads k v w \<Longrightarrow> canonical src \<Longrightarrow> leads k v (w\<lparr>rw_header := copyResponseHeaders (rw_header w) src\<rparr>)"
  using Values_copy [OF canonical_removeHop, of src "rw_header w" k] by (auto simp: leads_def copyResponseHeaders_def)

abbreviation backend_key :: string where "backend_key \<equiv> ''X-Fishmesh-Backend-Id''"

lemma canonical_length [simp]: "length (CanonicalMIMEHeaderKey n) = length n"
proof -
  have "length (canonical_from up n) = length n" for up n by (induction up n rule: canonical_from.induct) (simp_all add: Let_def)
  then show ?thesis by (simp add: CanonicalMIMEHeaderKey_def)
qed

lemma other_key:
  assumes "length n \<noteq> 21"
  shows "CanonicalMIMEHeaderKey n \<noteq> backend_key" and "backend_key \<noteq> CanonicalMIMEHeaderKey n"
proof -
  have "length backend_key = 21" by simp
  then show "CanonicalMIMEHeaderKey n \<noteq> backend_key" "backend_key \<noteq> CanonicalMIMEHeaderKey n"
    using assms canonical_length by metis+
qed

lemma load_valid_key: "CanonicalMIMEHeaderKey ''X-FishMesh-Load-Valid'' \<noteq> backend_key"
  by code_simp

lemma leads_error: "leads backend_key v w \<Longrightarrow> leads backend_key v (http_Error msg code w)"
  by (simp add: leads_def http_Error_def Header_Set_def Header_Del_def mget_update mget_delete other_key)

lemma backend_canonical: "CanonicalMIMEHeaderKey ''X-FishMesh-Backend-ID'' = backend_key"
  by code_simp

lemma leads_prediction: "leads backend_key v w \<Longrightarrow> leads backend_key v (prediction_headers sh w)"
  by (simp add: prediction_headers_def Let_def leads_set other_key)

lemma leads_estimate: "leads backend_key v w \<Longrightarrow> leads backend_key v (estimate_headers ev w)"
  by (simp add: estimate_headers_def leads_set other_key load_valid_key)

lemma decision_leads: "leads backend_key (bID (dc_Backend d)) (writeDecisionHeaders mode rid d st w)"
  unfolding writeDecisionHeaders_def Let_def
  by (intro leads_estimate leads_prediction) (simp add: leads_set leads_this backend_canonical other_key)

text \<open>
  The client always learns the backend that was chosen: in every answer after the selection, errors
  included, the first value of \<open>X-FishMesh-Backend-ID\<close> is the chosen backend, whatever headers the upstream
  sends, even its own value of that header.
\<close>
theorem response_names_backend:
  assumes "proxyUpstream env request body rid d st l (writeDecisionHeaders mode rid d st w) sv = Some (result, w', sv')"
    and "\<And>client ur status header reads. pe_do env client ur = DoResponse status header reads \<Longrightarrow> canonical header"
  shows "Header_Get (rw_header w') ''X-FishMesh-Backend-ID'' = bID (dc_Backend d)"
proof -
  have "leads backend_key (bID (dc_Backend d)) w'"
    using assms decision_leads [of d mode rid st w]
    by (auto simp: proxyUpstream_def handleUpstreamError_def writeUpstreamHeader_def Let_def other_key
        intro!: leads_error leads_set leads_copy split: option.splits prod.splits upstream_reply.splits if_splits)
  then show ?thesis by (auto simp: leads_def Header_Get_def Header_Values_def backend_canonical)
qed


theorem response_names_backend_witness:
  "\<exists>result w sv'. proxyUpstream wit_env wit_http_request [] ''r'' (plain_decision wit_b1 ReasonLoadBalanced PolicyLoadBalancedV1)
       (fst (path_state wit_view None wit_path)) 0
       (writeDecisionHeaders ''m'' ''r'' (plain_decision wit_b1 ReasonLoadBalanced PolicyLoadBalancedV1) (fst (path_state wit_view None wit_path))
          \<lparr>rw_header = [], rw_status = None, rw_body = []\<rparr>) wit_canceled = Some (result, w, sv')
     \<and> Header_Get (rw_header w) ''X-FishMesh-Backend-ID'' = ''a''"
proof -
  let ?d = "plain_decision wit_b1 ReasonLoadBalanced PolicyLoadBalancedV1"
  let ?st = "fst (path_state wit_view None wit_path)"
  let ?w = "\<lparr>rw_header = [], rw_status = None, rw_body = []\<rparr>"
  obtain result w sv' where p: "proxyUpstream wit_env wit_http_request [] ''r'' ?d ?st 0 (writeDecisionHeaders ''m'' ''r'' ?d ?st ?w) wit_canceled
      = Some (result, w, sv')"
    using proxyUpstream_leased [OF wit_canceled_leased wit_stream_ends] by blast
  have "canonical header" if "pe_do wit_env client ur = DoResponse status header reads" for client ur status header reads
    using that by (simp add: wit_env_def canonical_def gomap_ok_def)
  from response_names_backend [OF p this] show ?thesis using p by (auto simp: plain_decision_def wit_b1_def)
qed

end
