(* ===== verification/Render_Client.thy ===== *)
theory Render_Client
  imports Backend "HOL-Library.Multiset"
begin

text \<open>
  \<open>cmd/fishmesh-gateway/render_client.go\<close>: the address cache in front of the render service. The mutex
  makes \<open>cachedAddress\<close> a loop over two atomic sections, \<open>enter_section\<close> before the lookup and
  \<open>finish_section\<close> after it; a channel is a number, and closing it is adding it to \<open>ra_closed\<close>. The step
  relation interleaves any number of callers, lookups that end in any way, cancelled contexts and
  invalidations after a failed dial. The invariant is that one lookup at most is in flight and that every
  waiting caller waits for a channel that is closed or that the lookup in flight will close.
\<close>

subsection \<open>The cache\<close>

record net_IP =
  ip_To4 :: "string option" \<comment> \<open>the text of \<open>To4\<close>\<close>
  ip_String :: string

definition firstRenderIP :: "net_IP list \<Rightarrow> string" where
  "firstRenderIP ips =
     (case find (\<lambda>ip. ip_To4 ip \<noteq> None) ips of
        Some ip \<Rightarrow> the (ip_To4 ip)
      | None \<Rightarrow> (case ips of [] \<Rightarrow> [] | ip # _ \<Rightarrow> ip_String ip))"

definition absolute_host :: "string \<Rightarrow> string" where
  \<comment> \<open>the name \<open>lookupRenderIPs\<close> asks for\<close>
  "absolute_host host = (if host \<noteq> [] \<and> last host = CHR ''.'' then butlast host else host) @ ''.''"

record renderAddressResolver =
  ra_host :: string
  ra_ttl :: duration
  ra_address :: string
  ra_expiresAt :: time
  ra_resolving :: bool
  ra_resolveDone :: nat
  ra_closed :: "nat set"
  ra_next :: nat \<comment> \<open>the next channel \<open>make\<close> returns\<close>

definition new_resolver :: "string \<Rightarrow> duration \<Rightarrow> renderAddressResolver" where
  "new_resolver host ttl = \<lparr>ra_host = host, ra_ttl = ttl, ra_address = [], ra_expiresAt = zero_time, ra_resolving = False,
     ra_resolveDone = 0, ra_closed = {}, ra_next = 0\<rparr>"

datatype section_result = Served string | WaitFor nat | LookUp nat

definition enter_section :: "time \<Rightarrow> renderAddressResolver \<Rightarrow> section_result \<times> renderAddressResolver" where
  "enter_section now r =
     (if ra_address r \<noteq> [] \<and> now < ra_expiresAt r then (Served (ra_address r), r)
      else if ra_resolving r then (WaitFor (ra_resolveDone r), r)
      else (LookUp (ra_next r), r\<lparr>ra_resolving := True, ra_resolveDone := ra_next r, ra_next := ra_next r + 1\<rparr>))"

definition finish_section :: "time \<Rightarrow> nat \<Rightarrow> string + net_IP list \<Rightarrow> renderAddressResolver \<Rightarrow>
    (string + string) \<times> renderAddressResolver" where
  \<comment> \<open>\<open>now\<close> is the clock read after the lookup; \<open>Inl\<close> is the error of the lookup\<close>
  "finish_section now done result r =
     (let r1 = (case result of
            Inr ips \<Rightarrow> if firstRenderIP ips \<noteq> []
                       then r\<lparr>ra_address := firstRenderIP ips, ra_expiresAt := time_add now (ra_ttl r)\<rparr> else r
          | Inl _ \<Rightarrow> r);
          r2 = r1\<lparr>ra_resolving := False, ra_closed := insert done (ra_closed r1)\<rparr>
      in (case result of
            Inl err \<Rightarrow> Inl err
          | Inr ips \<Rightarrow> if firstRenderIP ips = [] then Inl ''Render host has no address'' else Inr (firstRenderIP ips), r2))"

definition invalidate :: "string \<Rightarrow> renderAddressResolver \<Rightarrow> renderAddressResolver" where
  "invalidate address r =
     (if ra_address r = address then r\<lparr>ra_address := [], ra_expiresAt := zero_time\<rparr> else r)"

definition dial_port :: "(string \<Rightarrow> (string \<times> string) option) \<Rightarrow> (string \<Rightarrow> bool) \<Rightarrow> renderAddressResolver \<Rightarrow> string \<Rightarrow> string option" where
  \<comment> \<open>\<open>DialContext\<close>: the port to dial at the cached address, \<open>None\<close> to dial the address as it is\<close>
  "dial_port split_host_port is_ip r address =
     (case split_host_port address of
        None \<Rightarrow> None
      | Some (host, port) \<Rightarrow> if ra_host r = [] \<or> host \<noteq> ra_host r \<or> is_ip host then None else Some port)"

definition DialContext :: "(string \<Rightarrow> (string \<times> string) option) \<Rightarrow> (string \<Rightarrow> bool) \<Rightarrow> (string \<Rightarrow> bool) \<Rightarrow>
    string + string \<Rightarrow> string \<Rightarrow> renderAddressResolver \<Rightarrow> (string + string) \<times> renderAddressResolver" where
  \<comment> \<open>\<open>dial\<close> tells which dials succeed, \<open>cached\<close> is what \<open>cachedAddress\<close> returned; a connection is its address\<close>
  "DialContext split_host_port is_ip dial cached address r =
     (case dial_port split_host_port is_ip r address of
        None \<Rightarrow> (if dial address then Inr address else Inl ''dial'', r)
      | Some port \<Rightarrow>
          (case cached of
             Inl err \<Rightarrow> (Inl err, r)
           | Inr resolved \<Rightarrow>
               let target = JoinHostPort resolved port
               in if dial target then (Inr target, r) else (Inl ''dial'', invalidate resolved r)))"

subsection \<open>Concurrent callers\<close>

datatype caller = Ready | Waiting nat | Looking nat | Returned "string + string"

record render_system =
  rn_resolver :: renderAddressResolver
  rn_callers :: "caller list"

fun after_enter :: "section_result \<Rightarrow> caller" where
  "after_enter (Served a) = Returned (Inr a)"
| "after_enter (WaitFor c) = Waiting c"
| "after_enter (LookUp c) = Looking c"

inductive render_step :: "render_system \<Rightarrow> render_system \<Rightarrow> bool" where
  call: "render_step s (s\<lparr>rn_callers := rn_callers s @ [Ready]\<rparr>)"
| enter: "i < length (rn_callers s) \<Longrightarrow> rn_callers s ! i = Ready \<Longrightarrow> enter_section now (rn_resolver s) = (res, r) \<Longrightarrow>
    render_step s \<lparr>rn_resolver = r, rn_callers = (rn_callers s)[i := after_enter res]\<rparr>"
| wake: "i < length (rn_callers s) \<Longrightarrow> rn_callers s ! i = Waiting c \<Longrightarrow> c \<in> ra_closed (rn_resolver s) \<Longrightarrow>
    render_step s (s\<lparr>rn_callers := (rn_callers s)[i := Ready]\<rparr>)"
| cancel: "i < length (rn_callers s) \<Longrightarrow> rn_callers s ! i = Waiting c \<Longrightarrow>
    render_step s (s\<lparr>rn_callers := (rn_callers s)[i := Returned (Inl ''context'')]\<rparr>)"
| finish: "i < length (rn_callers s) \<Longrightarrow> rn_callers s ! i = Looking c \<Longrightarrow>
    finish_section now c result (rn_resolver s) = (out, r) \<Longrightarrow>
    render_step s \<lparr>rn_resolver = r, rn_callers = (rn_callers s)[i := Returned out]\<rparr>"
| failed_dial: "render_step s (s\<lparr>rn_resolver := invalidate a (rn_resolver s)\<rparr>)"

inductive_cases render_stepE: "render_step s s'"

inductive render_reach :: "render_system \<Rightarrow> bool" where
  started: "render_reach \<lparr>rn_resolver = new_resolver host ttl, rn_callers = []\<rparr>"
| stepped: "render_reach s \<Longrightarrow> render_step s s' \<Longrightarrow> render_reach s'"

subsection \<open>One lookup in flight\<close>

fun is_looking :: "caller \<Rightarrow> bool" where
  "is_looking (Looking _) = True"
| "is_looking _ = False"

definition in_flight :: "caller list \<Rightarrow> caller multiset" where
  "in_flight cs = filter_mset is_looking (mset cs)"

definition render_ok :: "render_system \<Rightarrow> bool" where
  "render_ok s \<longleftrightarrow> (let r = rn_resolver s; cs = rn_callers s in
     in_flight cs = (if ra_resolving r then {#Looking (ra_resolveDone r)#} else {#})
     \<and> (ra_resolving r \<longrightarrow> ra_resolveDone r \<notin> ra_closed r \<and> ra_resolveDone r < ra_next r)
     \<and> (\<forall>c \<in> ra_closed r. c < ra_next r)
     \<and> (\<forall>c. Waiting c \<in> set cs \<longrightarrow> c \<in> ra_closed r \<or> (ra_resolving r \<and> c = ra_resolveDone r)))"

lemma in_flight_update:
  assumes "i < length cs"
  shows "in_flight (cs[i := x]) = (if is_looking x then {#x#} else {#}) +
    (in_flight cs - (if is_looking (cs ! i) then {#cs ! i#} else {#}))"
  using assms by (simp add: in_flight_def mset_update)

lemma waiting_update: "Waiting c \<in> set (cs[i := x]) \<Longrightarrow> x = Waiting c \<or> Waiting c \<in> set cs"
  using set_update_subset_insert [of cs i x] by auto

lemma enter_ok:
  assumes ok: "render_ok s" and i: "i < length (rn_callers s)" "rn_callers s ! i = Ready"
    and e: "enter_section now (rn_resolver s) = (res, r)"
  shows "render_ok \<lparr>rn_resolver = r, rn_callers = (rn_callers s)[i := after_enter res]\<rparr>"
proof -
  note f = in_flight_update [OF i(1), unfolded i(2)]
  have "ra_next (rn_resolver s) \<notin> ra_closed (rn_resolver s)" using ok by (auto simp: render_ok_def Let_def)
  then show ?thesis
    using ok e unfolding render_ok_def Let_def
    by (auto simp: f enter_section_def less_Suc_eq dest!: waiting_update split: if_splits)
qed

lemma finish_ok:
  assumes ok: "render_ok s" and i: "i < length (rn_callers s)" "rn_callers s ! i = Looking c"
    and f: "finish_section now c result (rn_resolver s) = (out, r)"
  shows "render_ok \<lparr>rn_resolver = r, rn_callers = (rn_callers s)[i := Returned out]\<rparr>"
proof -
  have "Looking c \<in># in_flight (rn_callers s)" using nth_mem [OF i(1)] i(2) by (simp add: in_flight_def)
  then have fl: "ra_resolving (rn_resolver s)" "c = ra_resolveDone (rn_resolver s)"
    using ok by (auto simp: render_ok_def Let_def split: if_splits)
  have r: "\<not> ra_resolving r" "ra_closed r = insert c (ra_closed (rn_resolver s))" "ra_next r = ra_next (rn_resolver s)"
    using f by (auto simp: finish_section_def Let_def split: sum.splits if_splits)
  show ?thesis
    using ok fl unfolding render_ok_def Let_def
    by (auto simp: in_flight_update [OF i(1), unfolded i(2)] r dest!: waiting_update)
qed

lemma resume_ok:
  assumes ok: "render_ok s" and i: "i < length (rn_callers s)" "rn_callers s ! i = Waiting c"
    and x: "\<not> is_looking x" "\<And>c. x \<noteq> Waiting c"
  shows "render_ok (s\<lparr>rn_callers := (rn_callers s)[i := x]\<rparr>)"
  using ok x unfolding render_ok_def Let_def
  by (auto simp: in_flight_update [OF i(1), unfolded i(2)] dest!: waiting_update)

lemma invalidate_fields [simp]:
  "ra_resolving (invalidate a r) = ra_resolving r" "ra_resolveDone (invalidate a r) = ra_resolveDone r"
  "ra_closed (invalidate a r) = ra_closed r" "ra_next (invalidate a r) = ra_next r"
  by (simp_all add: invalidate_def)

lemma render_step_ok: "render_step s s' \<Longrightarrow> render_ok s \<Longrightarrow> render_ok s'"
proof (induction rule: render_step.induct)
  case (call s)
  then show ?case by (auto simp: render_ok_def Let_def in_flight_def)
next
  case (failed_dial s a)
  then show ?case by (simp add: render_ok_def Let_def)
next
  case (enter i s now res r)
  then show ?case by (intro enter_ok)
next
  case (finish i s c now result out r)
  then show ?case by (intro finish_ok)
qed (simp_all add: resume_ok)

lemma render_reach_ok: "render_reach s \<Longrightarrow> render_ok s"
proof (induction rule: render_reach.induct)
  case (started host ttl)
  then show ?case by (simp add: render_ok_def in_flight_def new_resolver_def)
next
  case (stepped s s')
  then show ?case by (simp add: render_step_ok)
qed

text \<open>
  However the callers of the render address cache interleave, one lookup at most is in flight, and a
  caller that waits is never forgotten: its channel is closed, or the lookup in flight will close it.
\<close>

theorem render_single_flight:
  assumes "render_reach s"
  shows "length (filter is_looking (rn_callers s)) \<le> 1
    \<and> (\<forall>c. Waiting c \<in> set (rn_callers s) \<longrightarrow> c \<in> ra_closed (rn_resolver s) \<or> Looking c \<in> set (rn_callers s))"
proof -
  have ok: "render_ok s" using assms by (rule render_reach_ok)
  have "length (filter is_looking (rn_callers s)) = size (in_flight (rn_callers s))"
    by (simp add: in_flight_def flip: mset_filter)
  moreover have "size (in_flight (rn_callers s)) \<le> 1" using ok by (simp add: render_ok_def Let_def)
  moreover have "Looking (ra_resolveDone (rn_resolver s)) \<in> set (rn_callers s)" if "ra_resolving (rn_resolver s)"
  proof -
    have "Looking (ra_resolveDone (rn_resolver s)) \<in># in_flight (rn_callers s)"
      using ok that by (simp add: render_ok_def Let_def)
    then show ?thesis by (simp add: in_flight_def)
  qed
  ultimately show ?thesis using ok by (auto simp: render_ok_def Let_def)
qed

definition wit_render :: render_system where
  \<comment> \<open>two callers: the first looks up, the second waits for it\<close>
  "wit_render = \<lparr>rn_resolver = (new_resolver ''r'' 30)\<lparr>ra_resolving := True, ra_resolveDone := 0, ra_next := 1\<rparr>,
     rn_callers = [Looking 0, Waiting 0]\<rparr>"

lemma wit_render_reach: "render_reach wit_render"
proof -
  let ?r0 = "new_resolver ''r'' 30" and ?r1 = "(new_resolver ''r'' 30)\<lparr>ra_resolving := True, ra_resolveDone := 0, ra_next := 1\<rparr>"
  have e: "enter_section 5 ?r0 = (LookUp 0, ?r1)" "enter_section 6 ?r1 = (WaitFor 0, ?r1)"
    by (simp_all add: enter_section_def new_resolver_def)
  have "render_reach \<lparr>rn_resolver = ?r0, rn_callers = [Ready, Ready]\<rparr>"
    using stepped [OF stepped [OF started call] call, of "''r''" 30] by simp
  from stepped [OF this enter [of 0 _ 5 "LookUp 0" ?r1]] e
  have "render_reach \<lparr>rn_resolver = ?r1, rn_callers = [Looking 0, Ready]\<rparr>" by simp
  from stepped [OF this enter [of 1 _ 6 "WaitFor 0" ?r1]] e show ?thesis by (simp add: wit_render_def)
qed

theorem render_single_flight_witness:
  "length (filter is_looking (rn_callers wit_render)) \<le> 1 \<and> Waiting 0 \<in> set (rn_callers wit_render)
   \<and> (0 \<in> ra_closed (rn_resolver wit_render) \<or> Looking 0 \<in> set (rn_callers wit_render))"
  using render_single_flight [OF wit_render_reach] by (simp add: wit_render_def)

lemma absolute_host_idem: "absolute_host (absolute_host h) = absolute_host h"
  by (simp add: absolute_host_def)

end
