(* ===== verification/Go_Parse.thy ===== *)
theory Go_Parse
  imports Backend Float64
begin

text \<open>
  The parsers of the Go standard library that the configuration and the llm-d adapter call:
  \<open>strconv.Atoi\<close> and \<open>ParseInt\<close> in base 10, \<open>strconv.ParseBool\<close> and \<open>time.ParseDuration\<close>. A parse
  error is \<open>None\<close>. \<open>ParseDuration\<close> follows the library's loop, with its \<open>uint64\<close> accumulator, its
  overflow tests and the floating-point step of a fraction.

  The lemmas show that printing an \<open>int64\<close> and reading it back is the identity, that what is read is
  an \<open>int64\<close>, and that a duration literal of one whole number and one unit denotes their product or is
  refused.
\<close>

subsection \<open>Integers and booleans\<close>

definition is_digit :: "char \<Rightarrow> bool" where
  "is_digit c \<longleftrightarrow> 48 \<le> (of_char c :: nat) \<and> (of_char c :: nat) \<le> 57"

definition strip_sign :: "string \<Rightarrow> bool \<times> string" where
  "strip_sign s =
     (case s of
        c # rest \<Rightarrow> if c = CHR ''-'' then (True, rest) else if c = CHR ''+'' then (False, rest) else (False, s)
      | [] \<Rightarrow> (False, s))"

definition Atoi :: "string \<Rightarrow> int option" where
  \<comment> \<open>\<open>strconv.Atoi(s)\<close> and \<open>strconv.ParseInt(s, 10, 64)\<close>\<close>
  "Atoi s =
     (let (neg, digits) = strip_sign s;
          v = (if neg then - int (dec_value digits) else int (dec_value digits))
      in if digits = [] \<or> \<not> list_all is_digit digits \<or> \<not> in_int64 v then None else Some v)"

definition ParseBool :: "string \<Rightarrow> bool option" where
  "ParseBool s =
     (if s \<in> set [''1'', ''t'', ''T'', ''true'', ''TRUE'', ''True''] then Some True
      else if s \<in> set [''0'', ''f'', ''F'', ''false'', ''FALSE'', ''False''] then Some False
      else None)"

subsection \<open>Durations\<close>

definition Nanosecond :: duration where "Nanosecond = 1"
definition Microsecond :: duration where "Microsecond = 1000"
definition Millisecond :: duration where "Millisecond = 1000000"
definition Second :: duration where "Second = 1000000000"
definition Minute :: duration where "Minute = 60000000000"
definition Hour :: duration where "Hour = 3600000000000"

definition two63 :: int where
  "two63 = 9223372036854775808"

definition unitMap :: "string \<Rightarrow> int option" where
  \<comment> \<open>the third and the fourth key are the UTF-8 bytes of the micro sign and of the Greek mu\<close>
  "unitMap u = map_of
     [(''ns'', Nanosecond), (''us'', Microsecond),
      ([CHR 0xC2, CHR 0xB5, CHR ''s''], Microsecond),
      ([CHR 0xCE, CHR 0xBC, CHR ''s''], Microsecond),
      (''ms'', Millisecond), (''s'', Second), (''m'', Minute), (''h'', Hour)] u"

definition digit_value :: "char \<Rightarrow> int" where
  "digit_value c = int (of_char c - 48)"

fun leadingInt :: "int \<Rightarrow> string \<Rightarrow> (int \<times> string) option" where
  \<comment> \<open>the loop with the digits read so far; \<open>None\<close> is \<open>errLeadingInt\<close>\<close>
  "leadingInt x [] = Some (x, [])"
| "leadingInt x (c # s) =
     (if \<not> is_digit c then Some (x, c # s)
      else if x > two63 div 10 then None
      else let y = x * 10 + digit_value c in if y > two63 then None else leadingInt y s)"

fun leadingFraction :: "bool \<Rightarrow> int \<Rightarrow> f64 \<Rightarrow> string \<Rightarrow> int \<times> f64 \<times> string" where
  "leadingFraction overflow x scale [] = (x, scale, [])"
| "leadingFraction overflow x scale (c # s) =
     (if \<not> is_digit c then (x, scale, c # s)
      else if overflow \<or> x > max_int64 div 10 then leadingFraction True x scale s
      else let y = x * 10 + digit_value c
           in if y > two63 then leadingFraction True x scale s
              else leadingFraction False y (f_mul scale (Fin 10)) s)"

definition dur_char :: "char \<Rightarrow> bool" where
  \<comment> \<open>the characters that begin a number\<close>
  "dur_char c \<longleftrightarrow> c = CHR ''.'' \<or> is_digit c"

definition parse_fraction :: "string \<Rightarrow> int \<times> f64 \<times> string \<times> bool" where
  \<comment> \<open>consume an optional fraction; the last component is \<open>post\<close>\<close>
  "parse_fraction s =
     (if s \<noteq> [] \<and> hd s = CHR ''.''
      then let (f, scale, rest) = leadingFraction False 0 (Fin 1) (tl s)
           in (f, scale, rest, length (tl s) \<noteq> length rest)
      else (0, Fin 1, s, False))"

definition scaled :: "int \<Rightarrow> int \<Rightarrow> f64 \<Rightarrow> int \<Rightarrow> int option" where
  \<comment> \<open>\<open>v\<close> whole units and the fraction \<open>f / scale\<close> of one\<close>
  "scaled v f scale unit =
     (if v > two63 div unit then None
      else let v1 = v * unit
           in if f > 0
              then (let v2 = v1 + f_to_int64 (f_mul (f_of_int f) (f_div (f_of_int unit) scale))
                    in if v2 > two63 then None else Some v2)
              else Some v1)"

definition parse_unit :: "int \<Rightarrow> int \<Rightarrow> f64 \<Rightarrow> string \<Rightarrow> (int \<times> string) option" where
  "parse_unit v f scale s =
     (let u = takeWhile (\<lambda>c. \<not> dur_char c) s
      in if u = [] then None
         else case unitMap u of None \<Rightarrow> None | Some unit \<Rightarrow>
           map_option (\<lambda>d. (d, dropWhile (\<lambda>c. \<not> dur_char c) s)) (scaled v f scale unit))"

definition parse_term :: "string \<Rightarrow> (int \<times> string) option" where
  \<comment> \<open>one pass of the loop of \<open>ParseDuration\<close>: a number, its fraction and its unit\<close>
  "parse_term s =
     (if s = [] \<or> \<not> dur_char (hd s) then None
      else case leadingInt 0 s of None \<Rightarrow> None | Some (v, s1) \<Rightarrow>
        let (f, scale, s2, post) = parse_fraction s1
        in if length s = length s1 \<and> \<not> post then None else parse_unit v f scale s2)"

lemma leadingInt_shorter: "leadingInt x s = Some (v, r) \<Longrightarrow> length r \<le> length s"
  by (induction x s rule: leadingInt.induct) (auto simp: Let_def split: if_splits)

lemma leadingFraction_shorter: "leadingFraction b x sc s = (f, sc', r) \<Longrightarrow> length r \<le> length s"
  by (induction b x sc s rule: leadingFraction.induct) (auto simp: Let_def split: if_splits)

lemma parse_fraction_shorter: "parse_fraction s = (f, scale, r, post) \<Longrightarrow> length r \<le> length s"
  by (auto simp: parse_fraction_def split: if_splits prod.splits dest!: leadingFraction_shorter)

lemma parse_unit_shorter: "parse_unit v f scale s = Some (d, r) \<Longrightarrow> length r < length s"
proof -
  have "length (dropWhile P t) < length t" if "takeWhile P t \<noteq> []" for P and t :: string
    using that by (cases t) (auto split: if_splits intro: le_imp_less_Suc length_dropWhile_le)
  then show "parse_unit v f scale s = Some (d, r) \<Longrightarrow> length r < length s"
    by (auto simp: parse_unit_def Let_def split: if_splits option.splits)
qed

lemma parse_term_shorter: "parse_term s = Some (v, r) \<Longrightarrow> length r < length s"
  by (auto simp: parse_term_def split: if_splits option.splits prod.splits
      dest!: leadingInt_shorter parse_fraction_shorter parse_unit_shorter)

function parse_terms :: "int \<Rightarrow> string \<Rightarrow> int option" where
  \<comment> \<open>the loop of \<open>ParseDuration\<close> with its \<open>uint64\<close> accumulator\<close>
  "parse_terms d s =
     (if s = [] then Some d
      else case parse_term s of None \<Rightarrow> None | Some (v, rest) \<Rightarrow>
        let d1 = (d + v) mod 18446744073709551616 in if d1 > two63 then None else parse_terms d1 rest)"
  by pat_completeness auto
termination
  by (relation "measure (\<lambda>(d, s). length s)") (auto dest: parse_term_shorter)

declare parse_terms.simps [simp del]

definition ParseDuration :: "string \<Rightarrow> duration option" where
  "ParseDuration orig =
     (let (neg, s) = strip_sign orig
      in if s = ''0'' then Some 0
         else if s = [] then None
         else (case parse_terms 0 s of None \<Rightarrow> None | Some d \<Rightarrow>
                 if neg then Some (wrap64 (- d)) else if d > max_int64 then None else Some d))"

subsection \<open>Reading back what was printed\<close>

lemma dec_nat_not_empty [simp]: "dec_nat n \<noteq> []"
  by (subst dec_nat.simps) simp

lemma dec_nat_is_digit: "list_all is_digit (dec_nat n)"
proof (unfold list_all_iff, rule ballI)
  fix c assume "c \<in> set (dec_nat n)"
  from dec_nat_digits [OF this] show "is_digit c" by (simp add: is_digit_def)
qed

lemma strip_sign_digits: "list_all is_digit ds \<Longrightarrow> strip_sign (ds @ s) = (if ds = [] then strip_sign s else (False, ds @ s))"
  by (cases ds) (auto simp: strip_sign_def is_digit_def)

lemma strip_sign_minus [simp]: "strip_sign (CHR ''-'' # s) = (True, s)"
  by (simp add: strip_sign_def)

lemma Atoi_range: "Atoi s = Some v \<Longrightarrow> in_int64 v"
  by (auto simp: Atoi_def Let_def split_beta split: if_splits)

lemma Atoi_dec_int: "Atoi (dec_int i) = (if in_int64 i then Some i else None)"
  using strip_sign_digits [OF dec_nat_is_digit [of "nat i"], of "[]"]
  by (auto simp: Atoi_def dec_int_def dec_nat_is_digit dec_value_dec_nat)

subsection \<open>Duration literals\<close>

lemma digit_value_nonneg [simp]: "0 \<le> digit_value c"
  by (simp add: digit_value_def)

definition read_digits :: "int \<Rightarrow> string \<Rightarrow> int" where
  "read_digits x ds = foldl (\<lambda>x c. x * 10 + digit_value c) x ds"

lemma read_digits_ge: "0 \<le> x \<Longrightarrow> x \<le> read_digits x ds"
proof (induction ds arbitrary: x)
  case (Cons c ds)
  have "x \<le> x * 10 + digit_value c" using Cons.prems digit_value_nonneg [of c] by linarith
  moreover have "x * 10 + digit_value c \<le> read_digits (x * 10 + digit_value c) ds"
    using Cons.prems by (intro Cons.IH) simp
  ultimately show ?case by (simp add: read_digits_def)
qed (simp add: read_digits_def)

lemma read_digits_dec: "read_digits (int x) ds = int (foldl (\<lambda>acc c. 10 * acc + (of_char c - 48)) x ds)"
proof (induction ds arbitrary: x)
  case (Cons c ds)
  have "int x * 10 + digit_value c = int (10 * x + (of_char c - 48))" by (simp add: digit_value_def)
  with Cons.IH [of "10 * x + (of_char c - 48)"] show ?case by (simp only: read_digits_def foldl_Cons)
qed (simp add: read_digits_def)

lemma leadingInt_digits:
  assumes "list_all is_digit ds" and "0 \<le> x" "x \<le> two63" and "u = [] \<or> \<not> is_digit (hd u)"
  shows "leadingInt x (ds @ u) = (if read_digits x ds \<le> two63 then Some (read_digits x ds, u) else None)"
  using assms(1-3)
proof (induction ds arbitrary: x)
  case Nil
  then show ?case using assms(4) by (cases u) (simp_all add: read_digits_def)
next
  case (Cons c ds)
  define y where "y = x * 10 + digit_value c"
  have y: "0 \<le> y" using Cons.prems(2) by (simp add: y_def)
  have step: "read_digits x (c # ds) = read_digits y ds" by (simp add: read_digits_def y_def)
  have big: "y > two63" if "x > two63 div 10"
  proof -
    have "x \<ge> 922337203685477581" using that by (simp add: two63_def)
    with digit_value_nonneg [of c] show ?thesis unfolding y_def two63_def by linarith
  qed
  show ?case
  proof (cases "y > two63")
    case True
    with read_digits_ge [OF y, of ds] Cons.prems(1) show ?thesis
      by (simp add: step) (simp add: y_def Let_def)
  next
    case False
    with big have "\<not> x > two63 div 10" by blast
    with Cons.IH [of y] Cons.prems(1) y False show ?thesis
      by (simp add: step) (simp add: y_def Let_def)
  qed
qed

lemma unitMap_cases:
  assumes "unitMap u = Some k"
  shows "u \<noteq> []" and "list_all (\<lambda>c. \<not> dur_char c) u" and "0 < k"
proof -
  have k: "0 < Nanosecond" "0 < Microsecond" "0 < Millisecond" "0 < Second" "0 < Minute" "0 < Hour"
    by (simp_all add: Nanosecond_def Microsecond_def Millisecond_def Second_def Minute_def Hour_def)
  show "u \<noteq> []" using assms by (auto simp: unitMap_def)
  show "list_all (\<lambda>c. \<not> dur_char c) u"
    using assms by (auto simp: unitMap_def dur_char_def is_digit_def split: if_splits)
  show "0 < k" using assms k by (auto simp: unitMap_def split: if_splits)
qed

lemma parse_term_whole:
  assumes "unitMap u = Some k"
  shows "parse_term (dec_nat n @ u) = (if int n * k \<le> two63 then Some (int n * k, []) else None)"
proof -
  note u = unitMap_cases [OF assms]
  have hd: "dur_char (hd (dec_nat n @ u))" "dec_nat n @ u \<noteq> []"
    using dec_nat_is_digit [of n] by (cases "dec_nat n"; simp add: dur_char_def)+
  have nodig: "u = [] \<or> \<not> is_digit (hd u)" and nodot: "hd u \<noteq> CHR ''.''"
    using u(1,2) by (cases u; simp add: dur_char_def)+
  have "read_digits 0 (dec_nat n) = int n"
    using read_digits_dec [of 0 "dec_nat n"] dec_value_dec_nat [of n] by (simp add: dec_value_def)
  with leadingInt_digits [OF dec_nat_is_digit [of n] _ _ nodig, of 0]
  have lead: "leadingInt 0 (dec_nat n @ u) = (if int n \<le> two63 then Some (int n, u) else None)"
    by (simp add: two63_def)
  have whole: "takeWhile (\<lambda>c. \<not> dur_char c) u = u" "dropWhile (\<lambda>c. \<not> dur_char c) u = []"
    using u(2) unfolding takeWhile_eq_all_conv dropWhile_eq_Nil_conv list_all_iff by blast+
  have unit: "parse_unit (int n) 0 (Fin 1) u = (if int n * k \<le> two63 then Some (int n * k, []) else None)"
    using u(1,3) assms unfolding parse_unit_def whole by (auto simp: scaled_def div_less_iff not_less)
  have "int n \<le> int n * k" using u(3) by (simp add: mult_le_cancel_left1)
  then show ?thesis
    using hd nodot u(1) by (auto simp: parse_term_def lead parse_fraction_def unit)
qed

lemma ParseDuration_whole:
  assumes "unitMap u = Some k"
  shows "ParseDuration (dec_nat n @ u) = (if int n * k \<le> max_int64 then Some (int n * k) else None)"
proof -
  note u = unitMap_cases [OF assms]
  have "dec_nat n @ u \<noteq> ''0''"
    using u(1) by (cases "dec_nat n") (auto simp: append_eq_Cons_conv)
  moreover have "0 \<le> int n * k" using u(3) by simp
  then have "parse_terms 0 (dec_nat n @ u) = (if int n * k \<le> two63 then Some (int n * k) else None)"
    by (auto simp: parse_terms.simps [of 0] parse_terms.simps [of _ "[]"] parse_term_whole [OF assms] two63_def)
  ultimately show ?thesis
    by (simp add: ParseDuration_def strip_sign_digits dec_nat_is_digit two63_def max_int64_def)
qed

lemma parse_terms_nonneg: "0 \<le> d \<Longrightarrow> parse_terms d s = Some v \<Longrightarrow> 0 \<le> v"
proof (induction d s rule: parse_terms.induct)
  case (1 d s)
  then show ?case
    by (subst (asm) parse_terms.simps [of d s]) (auto simp: Let_def split: if_splits option.splits)
qed

lemma in_int64_nonneg: "0 \<le> v \<Longrightarrow> v \<le> max_int64 \<Longrightarrow> in_int64 v"
  by (simp add: in_int64_def min_int64_def)

lemma ParseDuration_range: "ParseDuration s = Some d \<Longrightarrow> in_int64 d"
proof -
  have "in_int64 0" by (simp add: in_int64_def min_int64_def max_int64_def)
  then show "ParseDuration s = Some d \<Longrightarrow> in_int64 d"
    by (auto simp: ParseDuration_def split_beta not_less split: if_splits option.splits
        intro: in_int64_nonneg dest: parse_terms_nonneg [of 0, simplified])
qed

end
