(* ===== verification/Float_Order.thy ===== *)
theory Float_Order
  imports Float64
begin

text \<open>The order in which Go sorts float64 values, as an instance of the library's linear orders.\<close>

text \<open>\<open>sort.Float64s\<close> orders as \<open><\<close> does, with NaN before every other value.\<close>

instantiation f64 :: linorder
begin

fun less_f64 :: "f64 \<Rightarrow> f64 \<Rightarrow> bool" where
  "less_f64 NaN b = (b \<noteq> NaN)"
| "less_f64 _ NaN = False"
| "less_f64 NInf b = (b \<noteq> NInf)"
| "less_f64 _ NInf = False"
| "less_f64 PInf _ = False"
| "less_f64 (Fin a) PInf = True"
| "less_f64 (Fin a) (Fin b) = (a < b)"

definition less_eq_f64 :: "f64 \<Rightarrow> f64 \<Rightarrow> bool" where
  "less_eq_f64 a b \<longleftrightarrow> a = b \<or> a < b"

instance
proof
  fix x y z :: f64
  show "(x < y) = (x \<le> y \<and> \<not> y \<le> x)" by (cases x; cases y) (auto simp: less_eq_f64_def)
  show "x \<le> x" by (simp add: less_eq_f64_def)
  show "x \<le> y \<Longrightarrow> y \<le> z \<Longrightarrow> x \<le> z" by (cases x; cases y; cases z) (auto simp: less_eq_f64_def)
  show "x \<le> y \<Longrightarrow> y \<le> x \<Longrightarrow> x = y" by (cases x; cases y) (auto simp: less_eq_f64_def)
  show "x \<le> y \<or> y \<le> x" by (cases x; cases y) (auto simp: less_eq_f64_def)
qed

end

lemma less_f64_f_lt: "a \<noteq> NaN \<Longrightarrow> b \<noteq> NaN \<Longrightarrow> a < b \<longleftrightarrow> f_lt a b"
  by (cases a; cases b) simp_all

end
