(* ===== verification/Prometheus.thy ===== *)
theory Prometheus
  imports Observation "HOL-Library.Sublist" Float_Order
begin

text \<open>
  The Prometheus adapters of \<open>internal/serving/observation\<close>: the collector of vLLM serving metrics
  (\<open>prometheus_impl.go\<close>) and the collector of runtime metrics (\<open>runtime_prometheus_impl.go\<close>). The HTTP
  exchange with its decoder is an argument: \<open>fetch\<close> returns parsed metric families, \<open>exchange\<close> a decoded
  query response. \<open>strconv.ParseFloat\<close>, \<open>url.Parse\<close> and the texts of errors are arguments too.
\<close>

subsection \<open>Metric families\<close>

record bucket =
  bk_UpperBound :: f64
  bk_CumulativeCount :: "64 word"

record metric =
  pm_Gauge :: "f64 option"
  pm_Counter :: "f64 option"
  pm_Histogram :: "bucket list option"

type_synonym families = "(string, metric list) gomap"

definition metricRequestsWaiting :: string where "metricRequestsWaiting = ''vllm:num_requests_waiting''"
definition metricRequestQueueSize :: string where "metricRequestQueueSize = ''vllm:request_queue_size''"
definition metricRequestsRunning :: string where "metricRequestsRunning = ''vllm:num_requests_running''"
definition metricPrefixCacheHits :: string where "metricPrefixCacheHits = ''vllm:prefix_cache_hits_total''"
definition metricPrefixCacheQueries :: string where "metricPrefixCacheQueries = ''vllm:prefix_cache_queries_total''"
definition metricTTFT :: string where "metricTTFT = ''vllm:time_to_first_token_seconds''"
definition metricRequestTTFT :: string where "metricRequestTTFT = ''vllm:request_time_to_first_token_seconds''"
definition metricKVCacheUsage :: string where "metricKVCacheUsage = ''vllm:kv_cache_usage_perc''"
definition metricLegacyGPUCacheUsage :: string where "metricLegacyGPUCacheUsage = ''vllm:gpu_cache_usage_perc''"

definition prometheusTTFTQuantile :: f64 where
  "prometheusTTFTQuantile = rnd64 (95 / 100)"

fun first_family :: "families \<Rightarrow> string list \<Rightarrow> metric list option" where
  "first_family fs [] = None"
| "first_family fs (name # names) = (case map_of fs name of Some family \<Rightarrow> Some family | None \<Rightarrow> first_family fs names)"

definition metric_total :: "metric list \<Rightarrow> f64" where
  "metric_total family = foldl (\<lambda>acc m. case pm_Gauge m of Some v \<Rightarrow> f_add acc v
     | None \<Rightarrow> (case pm_Counter m of Some v \<Rightarrow> f_add acc v | None \<Rightarrow> acc)) (Fin 0) family"

fun sum_families :: "families \<Rightarrow> string list \<Rightarrow> f64 option" where
  "sum_families fs [] = None"
| "sum_families fs (name # names) =
     (case map_of fs name of None \<Rightarrow> sum_families fs names | Some family \<Rightarrow> Some (metric_total family))"

fun average_families :: "families \<Rightarrow> string list \<Rightarrow> f64 option" where
  "average_families fs [] = None"
| "average_families fs (name # names) =
     (case map_of fs name of
        None \<Rightarrow> average_families fs names
      | Some family \<Rightarrow>
          if length family = 0 then average_families fs names
          else map_option (\<lambda>v. f_div v (f_of_int (int (length family)))) (sum_families fs [name]))"

subsection \<open>Histogram quantiles\<close>

definition bucket_add :: "(f64, 64 word) gomap \<Rightarrow> bucket \<Rightarrow> (f64, 64 word) gomap" where
  \<comment> \<open>a NaN key never equals another one, so each makes an entry of its own\<close>
  "bucket_add m b =
     (if is_NaN (bk_UpperBound b) then m @ [(NaN, bk_CumulativeCount b)]
      else AList.update (bk_UpperBound b) (mget 0 m (bk_UpperBound b) + bk_CumulativeCount b) m)"

definition histogram_buckets :: "metric list \<Rightarrow> (f64, 64 word) gomap" where
  "histogram_buckets family = foldl bucket_add [] (concat (map (\<lambda>m. case pm_Histogram m of None \<Rightarrow> [] | Some bs \<Rightarrow> bs) family))"

definition bucket_count :: "(f64, 64 word) gomap \<Rightarrow> f64 \<Rightarrow> f64" where
  "bucket_count m ub = f_of_int (uint (if is_NaN ub then 0 else mget 0 m ub))"

definition quantile :: "metric list \<Rightarrow> f64 \<Rightarrow> f64 option" where
  "quantile family target =
     (let buckets = histogram_buckets family in
      if length buckets = 0 then None
      else
        let upperBounds = sort (map fst buckets);
            total = bucket_count buckets (last upperBounds) in
        if f_eq total (Fin 0) \<or> is_NaN total then None
        else case find (\<lambda>ub. f_le (f_mul total target) (bucket_count buckets ub)) upperBounds of
            Some ub \<Rightarrow> Some ub
          | None \<Rightarrow> Some (last upperBounds))"

subsection \<open>The vLLM collector\<close>

datatype collect_error = ErrURLNotAbsolute string | ErrURLScheme string | ErrMetricsPathEmpty | ErrFetch string

definition metricsURL :: "url_parser \<Rightarrow> (string \<Rightarrow> string \<Rightarrow> string) \<Rightarrow> string \<Rightarrow> string \<Rightarrow> collect_error + string" where
  \<comment> \<open>\<open>with_path\<close> prints the parsed URL with its path replaced and its query dropped\<close>
  "metricsURL url_parse with_path raw metricsPath =
     (case url_parse raw of
        None \<Rightarrow> Inl (ErrURLNotAbsolute raw)
      | Some (scheme, host) \<Rightarrow>
          if scheme = [] \<or> host = [] then Inl (ErrURLNotAbsolute raw)
          else if scheme \<noteq> ''http'' \<and> scheme \<noteq> ''https'' then Inl (ErrURLScheme raw)
          else if TrimSpace metricsPath = [] then Inl ErrMetricsPathEmpty
          else Inr (with_path raw metricsPath))"

definition metricSample :: "f64 \<Rightarrow> time \<Rightarrow> string \<Rightarrow> Sample" where
  "metricSample v observedAt source =
     \<lparr>smp_Value = v, smp_Valid = True, smp_ObservedAt = observedAt, smp_Source = source, smp_Error = []\<rparr>"

definition collect_load :: "families \<Rightarrow> time \<Rightarrow> string \<Rightarrow> Observed \<times> nat \<Rightarrow> Observed \<times> nat" where
  "collect_load fs now url r0 =
     (let r1 = (case sum_families fs [metricRequestsWaiting, metricRequestQueueSize] of
                  Some v \<Rightarrow> ((fst r0)\<lparr>QueueLength := metricSample v now url\<rparr>, snd r0 + 1) | None \<Rightarrow> r0)
      in case sum_families fs [metricRequestsRunning] of
           Some v \<Rightarrow> ((fst r1)\<lparr>RunningRequests := metricSample v now url\<rparr>, snd r1 + 1) | None \<Rightarrow> r1)"

definition collect_cache :: "families \<Rightarrow> Observed \<times> nat \<Rightarrow> Observed \<times> nat" where
  "collect_cache fs r0 =
     (let (cacheHits, n) = (case sum_families fs [metricPrefixCacheHits] of Some v \<Rightarrow> (v, snd r0 + 1) | None \<Rightarrow> (Fin 0, snd r0));
          cacheQueries = (case sum_families fs [metricPrefixCacheQueries] of Some v \<Rightarrow> v | None \<Rightarrow> Fin 0)
      in (if f_lt (Fin 0) cacheQueries then (fst r0)\<lparr>PrefixCacheHitRate := f_div cacheHits cacheQueries\<rparr> else fst r0, n))"

definition collect_latency :: "families \<Rightarrow> Observed \<times> nat \<Rightarrow> Observed \<times> nat" where
  "collect_latency fs r0 =
     (case first_family fs [metricTTFT, metricRequestTTFT] of
        None \<Rightarrow> r0
      | Some family \<Rightarrow>
          (case quantile family prometheusTTFTQuantile of
             None \<Rightarrow> r0
           | Some v \<Rightarrow> ((fst r0)\<lparr>TTFTP95Milliseconds := f_mul v (Fin 1000)\<rparr>, snd r0 + 1)))"

definition collect_usage :: "families \<Rightarrow> Observed \<times> nat \<Rightarrow> Observed \<times> nat" where
  "collect_usage fs r0 =
     (case average_families fs [metricKVCacheUsage, metricLegacyGPUCacheUsage] of
        None \<Rightarrow> r0
      | Some v \<Rightarrow> ((fst r0)\<lparr>KVCacheUsagePercent := (if f_le v (Fin 1) then f_mul v (Fin 100) else v)\<rparr>, snd r0 + 1))"

definition prometheus_Collect :: "url_parser \<Rightarrow> (string \<Rightarrow> string \<Rightarrow> string) \<Rightarrow> (collect_error \<Rightarrow> string) \<Rightarrow>
    (string \<Rightarrow> string + families) \<Rightarrow> string \<Rightarrow> time \<Rightarrow> Backend \<Rightarrow> Observed" where
  "prometheus_Collect url_parse with_path error_text fetch metricsPath now candidate =
     (let state = zero_Observed\<lparr>obs_Status := StatusUnavailable, obs_Source := bURL candidate, obs_ObservedAt := now\<rparr> in
      case metricsURL url_parse with_path (bURL candidate) metricsPath of
        Inl e \<Rightarrow> state\<lparr>obs_Error := error_text e\<rparr>
      | Inr target \<Rightarrow>
          (case fetch target of
             Inl e \<Rightarrow> state\<lparr>obs_Error := error_text (ErrFetch e)\<rparr>
           | Inr fs \<Rightarrow>
               (case collect_usage fs (collect_latency fs (collect_cache fs (collect_load fs now (bURL candidate) (state, 0)))) of
                  (st, n) \<Rightarrow>
                    if n = 0 then st\<lparr>obs_Status := StatusDegraded,
                      obs_Error := ''vLLM metrics endpoint had no recognized serving metrics''\<rparr>
                    else st\<lparr>obs_Status := StatusOK\<rparr>)))"

subsection \<open>Runtime queries\<close>

function replace_all :: "(string \<times> string) list \<Rightarrow> string \<Rightarrow> string" where
  \<comment> \<open>\<open>strings.NewReplacer(...).Replace\<close>: left to right, the first matching pair wins\<close>
  "replace_all pairs [] = []"
| "replace_all pairs (c # cs) =
     (case find (\<lambda>p. prefix (fst p) (c # cs)) pairs of
        Some p \<Rightarrow> snd p @ replace_all pairs (drop (length (fst p) - 1) cs)
      | None \<Rightarrow> c # replace_all pairs cs)"
  by pat_completeness auto
termination by (relation "measure (\<lambda>(_, s). length s)") auto

definition newline :: char where "newline = CHR 0x0A"
definition backslash :: char where "backslash = CHR 0x5C"
definition dquote :: char where "dquote = CHR 0x22"

definition quotePromQL :: "string \<Rightarrow> string" where
  "quotePromQL v =
     [dquote] @ replace_all [([backslash], [backslash, backslash]), ([dquote], [backslash, dquote]),
        ([newline], backslash # ''n'')] v @ [dquote]"

record RuntimePrometheusConfig =
  rpq_Endpoint :: string
  rpq_Namespace :: string
  rpq_CPUQuery :: string
  rpq_MemoryQuery :: string
  rpq_GPUUtilizationQuery :: string
  rpq_GPUMemoryQuery :: string
  rpq_GPUTemperatureQuery :: string

definition runtime_queries :: "RuntimePrometheusConfig \<Rightarrow> (string \<times> string) list" where
  "runtime_queries c = [(''cpu'', rpq_CPUQuery c), (''memory'', rpq_MemoryQuery c), (''gpu utilization'', rpq_GPUUtilizationQuery c),
     (''gpu memory'', rpq_GPUMemoryQuery c), (''gpu temperature'', rpq_GPUTemperatureQuery c)]"

definition hasQuery :: "RuntimePrometheusConfig \<Rightarrow> bool" where
  "hasQuery c \<longleftrightarrow> list_ex (\<lambda>(_, q). TrimSpace q \<noteq> []) (runtime_queries c)"

datatype runtime_config_error = ErrEndpointRequired | ErrEndpointURL | ErrRuntimeNamespace | ErrNoQuery | ErrQuerySelectors

definition RuntimePrometheusConfig_Validate :: "url_parser \<Rightarrow> RuntimePrometheusConfig \<Rightarrow> runtime_config_error option" where
  \<comment> \<open>the name of the rejected query in the message depends on the iteration order and is left out\<close>
  "RuntimePrometheusConfig_Validate url_parse c =
     (if TrimSpace (rpq_Endpoint c) = [] then (if hasQuery c then Some ErrEndpointRequired else None)
      else case url_parse (TrimSpace (rpq_Endpoint c)) of
        None \<Rightarrow> Some ErrEndpointURL
      | Some (scheme, host) \<Rightarrow>
          if host = [] \<or> (scheme \<noteq> ''http'' \<and> scheme \<noteq> ''https'') then Some ErrEndpointURL
          else if TrimSpace (rpq_Namespace c) = [] then Some ErrRuntimeNamespace
          else if \<not> hasQuery c then Some ErrNoQuery
          else if list_ex (\<lambda>(_, q). TrimSpace q \<noteq> [] \<and> (\<not> sublist ''$namespace'' q \<or> \<not> sublist ''$pod'' q)) (runtime_queries c)
          then Some ErrQuerySelectors else None)"

record runtimeQueryResponse =
  rqr_Status :: string
  rqr_Values :: "string list list" \<comment> \<open>the raw \<open>value\<close> array of each result\<close>

datatype query_error = ErrQueryExchange string | ErrQueryStatus int | ErrQueryDecode string | ErrQueryNotSuccess string
  | ErrQueryNoScalar | ErrQueryFloat string

definition parsePrometheusValue :: "(string \<Rightarrow> string option) \<Rightarrow> (string \<Rightarrow> f64 option) \<Rightarrow> string \<Rightarrow> query_error + f64" where
  "parsePrometheusValue json_string parse_float raw =
     (let text = (case json_string raw of Some t \<Rightarrow> t | None \<Rightarrow> raw) in
      case parse_float text of Some v \<Rightarrow> Inr v | None \<Rightarrow> Inl (ErrQueryFloat text))"

record runtime_http =
  rh_exchange :: "string \<Rightarrow> string \<Rightarrow> string + int \<times> (string + runtimeQueryResponse)"
    \<comment> \<open>the query URL and the PromQL text; a failed call, or the status code with the decoded body\<close>
  rh_json_string :: "string \<Rightarrow> string option"
  rh_parse_float :: "string \<Rightarrow> f64 option"
  rh_error_text :: "query_error \<Rightarrow> string"

definition promql_template :: "string \<Rightarrow> string \<Rightarrow> string \<Rightarrow> string" where
  "promql_template namespace pod template =
     replace_all [(''$namespace'', quotePromQL namespace), (''$pod'', quotePromQL pod)] template"

definition runtime_query :: "runtime_http \<Rightarrow> RuntimePrometheusConfig \<Rightarrow> string \<Rightarrow> string \<Rightarrow> query_error + f64" where
  "runtime_query h c template pod =
     (case rh_exchange h (TrimRightSlash (rpq_Endpoint c) @ ''/api/v1/query'') (promql_template (rpq_Namespace c) pod template) of
        Inl e \<Rightarrow> Inl (ErrQueryExchange e)
      | Inr (status, body) \<Rightarrow>
          if status \<noteq> 200 then Inl (ErrQueryStatus status)
          else case body of
            Inl e \<Rightarrow> Inl (ErrQueryDecode e)
          | Inr payload \<Rightarrow>
              if rqr_Status payload \<noteq> ''success'' then Inl (ErrQueryNotSuccess (rqr_Status payload))
              else case rqr_Values payload of
                  [] \<Rightarrow> Inl ErrQueryNoScalar
                | v # _ \<Rightarrow> if length v \<noteq> 2 then Inl ErrQueryNoScalar
                    else parsePrometheusValue (rh_json_string h) (rh_parse_float h) (v ! 1))"

definition runtimePrometheusSource :: string where
  "runtimePrometheusSource = ''prometheus-runtime''"

definition runtime_step :: "runtime_http \<Rightarrow> RuntimePrometheusConfig \<Rightarrow> time \<Rightarrow> string \<Rightarrow>
    string \<times> string \<times> (Sample \<Rightarrow> Runtime \<Rightarrow> Runtime) \<Rightarrow> Runtime \<Rightarrow> Runtime" where
  \<comment> \<open>the body of the loop over the queries\<close>
  "runtime_step h c now pod item st =
     (case item of (name, query, assign) \<Rightarrow>
      if TrimSpace query = [] then st
      else case runtime_query h c query pod of
          Inl e \<Rightarrow>
            let text = name @ '': '' @ rh_error_text h e;
                st1 = assign (zero_Sample\<lparr>smp_ObservedAt := now, smp_Source := runtimePrometheusSource, smp_Error := text\<rparr>) st
            in st1\<lparr>rt_Error := joinErrors (rt_Error st1) text\<rparr>
        | Inr v \<Rightarrow> assign (metricSample v now runtimePrometheusSource) st)"

definition runtime_Collect :: "runtime_http \<Rightarrow> RuntimePrometheusConfig \<Rightarrow> time \<Rightarrow> Identity \<Rightarrow> Runtime" where
  "runtime_Collect h c now workload =
     (let state = zero_Runtime\<lparr>rt_Source := runtimePrometheusSource, rt_ObservedAt := now\<rparr> in
      if TrimSpace (idn_PodName workload) = [] then state\<lparr>rt_Error := ''backend has no Pod identity for runtime metrics''\<rparr>
      else foldl (\<lambda>st item. runtime_step h c now (idn_PodName workload) item st) state
        [(''cpu'', rpq_CPUQuery c, \<lambda>x st. st\<lparr>CPUUsageCores := x\<rparr>),
         (''memory'', rpq_MemoryQuery c, \<lambda>x st. st\<lparr>MemoryUsageBytes := x\<rparr>),
         (''gpu utilization'', rpq_GPUUtilizationQuery c, \<lambda>x st. st\<lparr>GPUUtilizationPercent := x\<rparr>),
         (''gpu memory'', rpq_GPUMemoryQuery c, \<lambda>x st. st\<lparr>GPUMemoryUsedBytes := x\<rparr>),
         (''gpu temperature'', rpq_GPUTemperatureQuery c, \<lambda>x st. st\<lparr>GPUTemperatureCelsius := x\<rparr>)])"

subsection \<open>Quoted names cannot leave their literal\<close>

fun promql_body :: "string \<Rightarrow> (string \<times> string) option" where
  \<comment> \<open>PromQL's double-quoted string after the opening quote: its value and the text after it\<close>
  "promql_body [] = None"
| "promql_body (c # cs) =
     (if c = dquote then Some ([], cs)
      else if c = newline then None
      else if c = backslash then
        (case cs of [] \<Rightarrow> None
         | e # rest \<Rightarrow>
             if e = backslash \<or> e = dquote then map_option (\<lambda>(v, r). (e # v, r)) (promql_body rest)
             else if e = CHR ''n'' then map_option (\<lambda>(v, r). (newline # v, r)) (promql_body rest)
             else None)
      else map_option (\<lambda>(v, r). (c # v, r)) (promql_body cs))"

fun promql_string :: "string \<Rightarrow> (string \<times> string) option" where
  "promql_string [] = None"
| "promql_string (c # cs) = (if c = dquote then promql_body cs else None)"

lemma promql_body_quote:
  "promql_body (replace_all [([backslash], [backslash, backslash]), ([dquote], [backslash, dquote]),
        ([newline], backslash # ''n'')] v @ dquote # rest) = Some (v, rest)"
  by (induction v) (auto simp: backslash_def dquote_def newline_def)

text \<open>
  Whatever bytes a namespace or a pod name holds, what is put into the query is one PromQL string
  literal that denotes exactly that name: a quote, a backslash or a newline in it cannot end the
  literal.
\<close>

theorem quotePromQL_round_trip: "promql_string (quotePromQL name @ rest) = Some (name, rest)"
  by (simp add: quotePromQL_def promql_body_quote)

subsection \<open>Quantiles\<close>

lemma find_first_sorted:
  assumes "sorted xs" and "find P xs = Some x"
  shows "x \<in> set xs \<and> P x \<and> (\<forall>y\<in>set xs. y < x \<longrightarrow> \<not> P y)"
proof -
  obtain i where i: "i < length xs" "P (xs ! i)" "x = xs ! i" "\<forall>j<i. \<not> P (xs ! j)"
    using assms(2) by (auto simp: find_Some_iff)
  have "\<not> P y" if y: "y \<in> set xs" "y < x" for y
  proof -
    obtain j where j: "j < length xs" "y = xs ! j" using y(1) by (auto simp: in_set_conv_nth)
    have "j < i"
    proof (rule ccontr)
      assume "\<not> j < i"
      then have "x \<le> y" using sorted_nth_mono [OF assms(1), of i j] j i by simp
      then show False using y(2) by simp
    qed
    then show ?thesis using i j by simp
  qed
  then show ?thesis using i by auto
qed

lemma count_Fin: "\<exists>c. bucket_count m ub = Fin c \<and> 0 \<le> c \<and> is_f64 c"
proof -
  define n where "n = uint (if is_NaN ub then 0 else mget 0 m ub)"
  have n: "0 \<le> n" "n < 2 ^ 64" unfolding n_def by (rule uint_ge_0, use uint_lt2p [of "if is_NaN ub then 0 else mget 0 m ub"] in simp)
  have "is_f64 (2 ^ 64)" using is_f64_dyadic [of 1 64] by simp
  then have up: "rnd (of_int n) \<le> 2 ^ 64" using n by (intro rnd_le_f64) (simp_all flip: of_int_power)
  have lo: "0 \<le> rnd (of_int n)" using n by simp
  have "rnd64 (of_int n) = Fin (rnd (of_int n))" by (rule rnd64_Fin) (use up lo in simp_all)
  moreover have "is_f64 (rnd (of_int n))" using up lo by (simp add: is_f64_def)
  ultimately show ?thesis using lo by (auto simp: bucket_count_def f_of_int_def n_def)
qed

lemma f_mul_le_total:
  assumes "0 \<le> c" and "is_f64 c" and "0 \<le> q" and "q \<le> 1"
  shows "f_le (f_mul (Fin c) (Fin q)) (Fin c)"
proof -
  have p: "0 \<le> c * q" "c * q \<le> c" using assms by (simp_all add: mult_left_le)
  have "rnd (c * q) \<le> c" using rnd_le_f64 [OF assms(2) p(2)] .
  moreover have "c < 2 ^ 1024" using assms(2) by (auto simp: is_f64_def)
  ultimately have "rnd64 (c * q) = Fin (rnd (c * q))" using rnd_nonneg [OF p(1)] by (intro rnd64_Fin) simp_all
  then show ?thesis using \<open>rnd (c * q) \<le> c\<close> by (auto simp: f_le_def)
qed

text \<open>
  The quantile of a histogram is the least upper bound whose cumulative count, added up over the
  series, reaches that share of the count of the largest bound; the fallback after the loop is not
  reached for a share in \<open>[0, 1]\<close>.
\<close>

theorem quantile_spec:
  assumes "quantile family (Fin q) = Some ub" and "0 \<le> q" and "q \<le> 1"
  shows "ub \<in> fst ` set (histogram_buckets family)
    \<and> (let buckets = histogram_buckets family;
           reaches = (\<lambda>b. f_le (f_mul (bucket_count buckets (Max (fst ` set buckets))) (Fin q)) (bucket_count buckets b))
       in reaches ub \<and> (\<forall>b\<in>fst ` set buckets. b < ub \<longrightarrow> \<not> reaches b))"
proof -
  let ?m = "histogram_buckets family"
  let ?ubs = "sort (map fst ?m)"
  let ?total = "bucket_count ?m (last ?ubs)"
  let ?P = "\<lambda>b. f_le (f_mul ?total (Fin q)) (bucket_count ?m b)"
  have ne: "?m \<noteq> []" and ub: "ub = (case find ?P ?ubs of Some u \<Rightarrow> u | None \<Rightarrow> last ?ubs)"
    using assms(1) by (auto simp: quantile_def Let_def split: if_splits option.splits)
  have ubs: "set ?ubs = fst ` set ?m" "sorted ?ubs" by simp_all
  have ubs_ne: "?ubs \<noteq> []" using ne ubs(1) by (metis image_is_empty set_empty)
  have last: "last ?ubs = Max (fst ` set ?m)"
  proof (rule Max_eqI [symmetric])
    show "last ?ubs \<in> fst ` set ?m" using last_in_set [OF ubs_ne] unfolding ubs(1) .
    fix y assume "y \<in> fst ` set ?m"
    then obtain i where i: "i < length ?ubs" "y = ?ubs ! i" unfolding ubs(1) [symmetric] in_set_conv_nth by blast
    then show "y \<le> last ?ubs" using sorted_nth_mono [OF ubs(2), of i "length ?ubs - 1"] ubs_ne by (simp add: last_conv_nth)
  qed simp
  obtain c where c: "?total = Fin c" "0 \<le> c" "is_f64 c" using count_Fin by blast
  have "?P (last ?ubs)" using f_mul_le_total [OF c(2,3) assms(2,3)] by (simp add: c(1))
  then have "find ?P ?ubs \<noteq> None" using last_in_set [OF ubs_ne] unfolding find_None_iff by blast
  then obtain u where u: "find ?P ?ubs = Some u" by blast
  have "ub = u" using ub by (simp add: u)
  then show ?thesis using find_first_sorted [OF ubs(2) u] unfolding Let_def last [symmetric] ubs(1) by simp
qed

definition wit_histogram :: "metric list" where
  "wit_histogram = [\<lparr>pm_Gauge = None, pm_Counter = None, pm_Histogram = Some
     [\<lparr>bk_UpperBound = Fin 1, bk_CumulativeCount = 3\<rparr>, \<lparr>bk_UpperBound = Fin 2, bk_CumulativeCount = 9\<rparr>,
      \<lparr>bk_UpperBound = PInf, bk_CumulativeCount = 10\<rparr>]\<rparr>]"

lemma wit_buckets: "histogram_buckets wit_histogram = [(Fin 1, 3), (Fin 2, 9), (PInf, 10)]"
  by (simp add: histogram_buckets_def wit_histogram_def bucket_add_def is_NaN_def mget_def)

theorem quantile_spec_witness:
  "quantile wit_histogram (Fin (1 / 2)) = Some (Fin 2) \<and> Fin 2 \<in> fst ` set (histogram_buckets wit_histogram)"
proof -
  have c: "bucket_count [(Fin 1, 3), (Fin 2, 9), (PInf, 10)] (Fin 1) = Fin 3"
    "bucket_count [(Fin 1, 3), (Fin 2, 9), (PInf, 10)] (Fin 2) = Fin 9"
    "bucket_count [(Fin 1, 3), (Fin 2, 9), (PInf, 10)] PInf = Fin 10"
    by (simp_all add: bucket_count_def is_NaN_def mget_def f_of_int_exact)
  have "is_f64 5" using is_f64_of_int [of 5] by simp
  then have "quantile wit_histogram (Fin (1 / 2)) = Some (Fin 2)"
    by (simp add: quantile_def wit_buckets c rnd64_exact is_NaN_def f_le_def Let_def less_eq_f64_def)
  with quantile_spec [OF this] show ?thesis by simp
qed

end
