(* ===== verification/Config.thy ===== *)
theory Config
  imports Go_Parse Gateway Prometheus
begin

text \<open>
  \<open>internal/serving/config\<close>: the process configuration, its defaults and how it is read from the
  environment. \<open>env\<close> is \<open>os.Getenv\<close> (the empty string for a variable that is not set), \<open>parse_float\<close> is
  \<open>strconv.ParseFloat\<close>, \<open>parse\<close> is \<open>net/url.Parse\<close>, \<open>read_file\<close> is \<open>os.ReadFile\<close> and \<open>decode\<close> is the
  strict JSON decoder of the static profile. Clocks and HTTP clients are not configuration values of the
  model. The list of parsers is run in the order of the source, so the first variable that does not parse
  decides the error.
\<close>

subsection \<open>Variables\<close>

definition envListenAddress :: string where "envListenAddress = ''FISHMESH_LISTEN_ADDRESS''"
definition envUpstreamURL :: string where "envUpstreamURL = ''FISHMESH_UPSTREAM_URL''"
definition envRoutingMode :: string where "envRoutingMode = ''FISHMESH_ROUTING_MODE''"
definition envKVAwareModel :: string where "envKVAwareModel = ''FISHMESH_KV_AWARE_MODEL''"
definition envKVAwareRenderURL :: string where "envKVAwareRenderURL = ''FISHMESH_KV_AWARE_RENDER_URL''"
definition envKVAwareQueueTokenPenalty :: string where "envKVAwareQueueTokenPenalty = ''FISHMESH_KV_AWARE_QUEUE_TOKEN_PENALTY''"
definition envKVAwareRunningTokenPenalty :: string where "envKVAwareRunningTokenPenalty = ''FISHMESH_KV_AWARE_RUNNING_TOKEN_PENALTY''"
definition envKVAwareInflightTokenPenalty :: string where "envKVAwareInflightTokenPenalty = ''FISHMESH_KV_AWARE_INFLIGHT_TOKEN_PENALTY''"
definition envKVAwareEstimatorMode :: string where "envKVAwareEstimatorMode = ''FISHMESH_KV_AWARE_ESTIMATOR_MODE''"
definition envKVAwareStaticProfileFile :: string where "envKVAwareStaticProfileFile = ''FISHMESH_KV_AWARE_STATIC_PROFILE_FILE''"
definition envKVAwareShortPromptTokens :: string where "envKVAwareShortPromptTokens = ''FISHMESH_KV_AWARE_SHORT_PROMPT_TOKENS''"
definition envPredictionMode :: string where "envPredictionMode = ''FISHMESH_PREDICTION_MODE''"
definition envBackendEndpoints :: string where "envBackendEndpoints = ''FISHMESH_BACKEND_ENDPOINTS''"
definition envEndpointDiscovery :: string where "envEndpointDiscovery = ''FISHMESH_ENDPOINT_DISCOVERY''"
definition envEndpointService :: string where "envEndpointService = ''FISHMESH_ENDPOINT_SERVICE''"
definition envEndpointNamespace :: string where "envEndpointNamespace = ''FISHMESH_ENDPOINT_NAMESPACE''"
definition envKubernetesAPIURL :: string where "envKubernetesAPIURL = ''FISHMESH_KUBERNETES_API_URL''"
definition envKubernetesTokenFile :: string where "envKubernetesTokenFile = ''FISHMESH_KUBERNETES_TOKEN_FILE''"
definition envKubernetesCAFile :: string where "envKubernetesCAFile = ''FISHMESH_KUBERNETES_CA_FILE''"
definition envEndpointRefreshInterval :: string where "envEndpointRefreshInterval = ''FISHMESH_ENDPOINT_REFRESH_INTERVAL''"
definition envEndpointMaxAge :: string where "envEndpointMaxAge = ''FISHMESH_ENDPOINT_MAX_AGE''"
definition envObservationMode :: string where "envObservationMode = ''FISHMESH_BACKEND_OBSERVATION_MODE''"
definition envObservationInterval :: string where "envObservationInterval = ''FISHMESH_BACKEND_OBSERVATION_INTERVAL''"
definition envObservationMaxAge :: string where "envObservationMaxAge = ''FISHMESH_BACKEND_OBSERVATION_MAX_AGE''"
definition envObservationRequestTimeout :: string where "envObservationRequestTimeout = ''FISHMESH_BACKEND_OBSERVATION_REQUEST_TIMEOUT''"
definition envRuntimePrometheusURL :: string where "envRuntimePrometheusURL = ''FISHMESH_RUNTIME_PROMETHEUS_URL''"
definition envRuntimeCPUQuery :: string where "envRuntimeCPUQuery = ''FISHMESH_RUNTIME_CPU_QUERY''"
definition envRuntimeMemoryQuery :: string where "envRuntimeMemoryQuery = ''FISHMESH_RUNTIME_MEMORY_QUERY''"
definition envRuntimeGPUUtilizationQuery :: string where "envRuntimeGPUUtilizationQuery = ''FISHMESH_RUNTIME_GPU_UTILIZATION_QUERY''"
definition envRuntimeGPUMemoryQuery :: string where "envRuntimeGPUMemoryQuery = ''FISHMESH_RUNTIME_GPU_MEMORY_QUERY''"
definition envRuntimeGPUTemperatureQuery :: string where "envRuntimeGPUTemperatureQuery = ''FISHMESH_RUNTIME_GPU_TEMPERATURE_QUERY''"
definition envKVAwareHardQueueDepth :: string where "envKVAwareHardQueueDepth = ''FISHMESH_KV_AWARE_HARD_QUEUE_DEPTH''"
definition envKVAwareHardLocalInflight :: string where "envKVAwareHardLocalInflight = ''FISHMESH_KV_AWARE_HARD_LOCAL_INFLIGHT''"
definition envRuntimeCPUHardLimit :: string where "envRuntimeCPUHardLimit = ''FISHMESH_RUNTIME_CPU_HARD_LIMIT_CORES''"
definition envRuntimeMemoryHardLimit :: string where "envRuntimeMemoryHardLimit = ''FISHMESH_RUNTIME_MEMORY_HARD_LIMIT_BYTES''"
definition envRuntimeGPUUtilizationLimit :: string where "envRuntimeGPUUtilizationLimit = ''FISHMESH_RUNTIME_GPU_UTILIZATION_HARD_LIMIT_PERCENT''"
definition envRuntimeGPUMemoryHardLimit :: string where "envRuntimeGPUMemoryHardLimit = ''FISHMESH_RUNTIME_GPU_MEMORY_HARD_LIMIT_BYTES''"
definition envRuntimeGPUTemperatureLimit :: string where "envRuntimeGPUTemperatureLimit = ''FISHMESH_RUNTIME_GPU_TEMPERATURE_HARD_LIMIT_CELSIUS''"
definition envUpstreamKeepAlive :: string where "envUpstreamKeepAlive = ''FISHMESH_UPSTREAM_KEEPALIVE''"
definition envRequestTimeout :: string where "envRequestTimeout = ''FISHMESH_REQUEST_TIMEOUT''"
definition envMaxRequestBodyBytes :: string where "envMaxRequestBodyBytes = ''FISHMESH_MAX_REQUEST_BODY_BYTES''"
definition envShutdownTimeout :: string where "envShutdownTimeout = ''FISHMESH_SHUTDOWN_TIMEOUT''"
definition envSessionKeyTTL :: string where "envSessionKeyTTL = ''FISHMESH_SESSION_KEY_TTL''"
definition envSessionKeyMaxEntries :: string where "envSessionKeyMaxEntries = ''FISHMESH_SESSION_KEY_MAX_ENTRIES''"
definition envSessionKeyInflightDelta :: string where "envSessionKeyInflightDelta = ''FISHMESH_SESSION_KEY_INFLIGHT_DELTA''"
definition envSessionKeyQueueDepthDelta :: string where "envSessionKeyQueueDepthDelta = ''FISHMESH_SESSION_KEY_QUEUE_DEPTH_DELTA''"
definition envMaxInflightRequests :: string where "envMaxInflightRequests = ''FISHMESH_MAX_INFLIGHT_REQUESTS''"
definition envAdmissionInitialTarget :: string where "envAdmissionInitialTarget = ''FISHMESH_ADMISSION_INITIAL_TARGET''"
definition envAdmissionTuningMode :: string where "envAdmissionTuningMode = ''FISHMESH_ADMISSION_TUNING_MODE''"
definition envAdmissionMinTarget :: string where "envAdmissionMinTarget = ''FISHMESH_ADMISSION_MIN_TARGET''"
definition envAdmissionMaxTarget :: string where "envAdmissionMaxTarget = ''FISHMESH_ADMISSION_MAX_TARGET''"
definition envAdmissionTargetStep :: string where "envAdmissionTargetStep = ''FISHMESH_ADMISSION_TARGET_STEP''"
definition envAdmissionTuningInterval :: string where "envAdmissionTuningInterval = ''FISHMESH_ADMISSION_TUNING_INTERVAL''"
definition envAdmissionTuningCooldown :: string where "envAdmissionTuningCooldown = ''FISHMESH_ADMISSION_TUNING_COOLDOWN''"
definition envMaxConnsPerHost :: string where "envMaxConnsPerHost = ''FISHMESH_MAX_CONNS_PER_HOST''"
definition envCircuitEWMAAlpha :: string where "envCircuitEWMAAlpha = ''FISHMESH_CIRCUIT_EWMA_ALPHA''"
definition envCircuitErrorThreshold :: string where "envCircuitErrorThreshold = ''FISHMESH_CIRCUIT_ERROR_THRESHOLD''"
definition envCircuitMinimumRequests :: string where "envCircuitMinimumRequests = ''FISHMESH_CIRCUIT_MIN_REQUESTS''"
definition envCircuitOpenDuration :: string where "envCircuitOpenDuration = ''FISHMESH_CIRCUIT_OPEN_DURATION''"

subsection \<open>The configuration\<close>

record ProcessConfig =
  pcs_ListenAddress :: string
  pcs_ReadHeaderTimeout :: duration
  pcs_ShutdownTimeout :: duration

record discovery_Config =
  dcf_Mode :: string
  dcf_Static :: "Backend list"
  dcf_EndpointSlice :: EndpointSliceConfig

record identity_Config =
  icf_Namespace :: string
  icf_BaseURL :: string
  icf_TokenFile :: string
  icf_CAFile :: string

record PrometheusConfig =
  pmc_MetricsPath :: string
  pmc_Runtime :: RuntimePrometheusConfig

record serving_Config =
  cf_Process :: ProcessConfig
  cf_Gateway :: gateway_Config
  cf_Discovery :: discovery_Config
  cf_Identity :: identity_Config
  cf_ObservationMode :: string
  cf_Observation :: obs_Config
  cf_Prometheus :: PrometheusConfig
  cf_Routing :: routing_Config
  cf_Circuit :: circuit_Config
  cf_Admission :: admission_Config
  cf_AdmissionTuning :: TuningConfig
  cf_Transport :: transport_Config
  cf_RequestPath :: path_Config
  cf_Tokenization :: tok_Config
  cf_KVCache :: kv_Config
  cf_Prediction :: prediction_Config
  cf_StaticProfile :: StaticProfile

datatype config_error =
    ErrProcess
  | ErrGatewayConfig
  | ErrRequestPathConfig path_error
  | ErrRoutingConfig routing_error
  | ErrCircuitConfig circuit_error
  | ErrAdmissionConfig admission_config_error
  | ErrTuningConfig tuning_error
  | ErrTransportConfig
  | ErrEndpointSliceConfig
  | ErrDiscoveryModeConfig string
  | ErrObservationMode string
  | ErrObservationConfig obs_error
  | ErrMetricsPath
  | ErrRuntimePrometheus runtime_config_error
  | ErrKVDiscovery
  | ErrTokenizationConfig tok_config_error
  | ErrKVCacheConfig kv_config_error
  | ErrStaticProfile profile_error
  | ErrNotCalibrated
  | ErrProfileModel
  | ErrPredictionConfig prediction_error
  | ErrNoStaticBackend
  | ErrNotDuration string string
  | ErrNotBoolean string string
  | ErrNotInteger string string
  | ErrNotPositive string
  | ErrNegative string int
  | ErrNotNumber string string
  | ErrCircuitValues
  | ErrRuntimeLimits
  | ErrBackendConfig backend_error
  | ErrProfileFileUnset
  | ErrReadProfile
  | ErrProfileSize
  | ErrDecodeProfile
  | ErrTrailingProfile
  | ErrMilliseconds

subsection \<open>Validation\<close>

definition ModeNone :: string where "ModeNone = ''none''"
definition ModePrometheus :: string where "ModePrometheus = ''prometheus''"

definition observation_Mode_Validate :: "string \<Rightarrow> bool" where
  "observation_Mode_Validate m \<longleftrightarrow> m = ModeNone \<or> m = ModePrometheus"

type_synonym full_url_parser = "string \<Rightarrow> parsed_url option"

definition url_of :: "full_url_parser \<Rightarrow> url_parser" where
  \<comment> \<open>the scheme and the host of a parsed URL\<close>
  "url_of parse s = map_option (\<lambda>u. (pu_Scheme u, pu_Host u)) (parse s)"

definition PrometheusConfig_Validate :: "url_parser \<Rightarrow> PrometheusConfig \<Rightarrow> config_error option" where
  "PrometheusConfig_Validate url_parse c =
     (if TrimSpace (pmc_MetricsPath c) = [] then Some ErrMetricsPath
      else map_option ErrRuntimePrometheus (RuntimePrometheusConfig_Validate url_parse (pmc_Runtime c)))"

fun first_error :: "'e option list \<Rightarrow> 'e option" where
  \<comment> \<open>a sequence of checks, each returning its error at once\<close>
  "first_error [] = None"
| "first_error (Some e # cs) = Some e"
| "first_error (None # cs) = first_error cs"

definition unless :: "bool \<Rightarrow> 'e \<Rightarrow> 'e option" where
  "unless ok e = (if ok then None else Some e)"

definition kv_aware_checks :: "full_url_parser \<Rightarrow> serving_Config \<Rightarrow> config_error option" where
  \<comment> \<open>the block of \<open>Validate\<close> for the KV-aware mode\<close>
  "kv_aware_checks parse c = first_error
     [unless (dcf_Mode (cf_Discovery c) = ModeEndpointSlice) ErrKVDiscovery,
      map_option ErrTokenizationConfig (tok_Config_Validate parse (cf_Tokenization c)),
      map_option ErrKVCacheConfig (kv_Config_Validate (cf_KVCache c)),
      (if EstimatorMode (rc_KVAware (cf_Routing c)) = KVAwareEstimatorStatic
       then first_error
         [map_option ErrStaticProfile (StaticProfile_Validate (cf_StaticProfile c)),
          unless (sp_Calibrated (cf_StaticProfile c)) ErrNotCalibrated,
          unless (pi_Model (sp_Identity (cf_StaticProfile c)) = tc_Model (cf_Tokenization c)) ErrProfileModel]
       else None)]"

definition serving_Config_Validate :: "full_url_parser \<Rightarrow> serving_Config \<Rightarrow> config_error option" where
  "serving_Config_Validate parse c = first_error
     [unless (\<not> (pcs_ListenAddress (cf_Process c) = [] \<or> pcs_ReadHeaderTimeout (cf_Process c) \<le> 0
                 \<or> pcs_ShutdownTimeout (cf_Process c) \<le> 0)) ErrProcess,
      unless (gateway_Config_Validate (cf_Gateway c)) ErrGatewayConfig,
      map_option ErrRequestPathConfig (path_Config_Validate (url_of parse) (cf_RequestPath c)),
      map_option ErrRoutingConfig (routing_Config_Validate (url_of parse) (cf_Routing c)),
      map_option ErrCircuitConfig (circuit_Config_Validate (cf_Circuit c)),
      map_option ErrAdmissionConfig (admission_Config_Validate (cf_Admission c)),
      map_option ErrTuningConfig (TuningConfig_Validate (cf_AdmissionTuning c) (MaxInflight (cf_Admission c))),
      unless (transport_Config_Validate (cf_Transport c)) ErrTransportConfig,
      (if dcf_Mode (cf_Discovery c) = ModeEndpointSlice
       then let s = dcf_EndpointSlice (cf_Discovery c)
            in unless (\<not> (ec_Namespace s = [] \<or> ec_ServiceName s = [] \<or> ec_RefreshInterval s \<le> 0
                          \<or> rpc_DiscoveryMaxAge (cf_RequestPath c) \<le> 0)) ErrEndpointSliceConfig
       else None),
      unless (discovery_Mode_Validate (dcf_Mode (cf_Discovery c))) (ErrDiscoveryModeConfig (dcf_Mode (cf_Discovery c))),
      unless (observation_Mode_Validate (cf_ObservationMode c)) (ErrObservationMode (cf_ObservationMode c)),
      (if cf_ObservationMode c = ModePrometheus
       then first_error
         [map_option ErrObservationConfig (obs_Config_Validate (cf_Observation c)),
          PrometheusConfig_Validate (url_of parse) (cf_Prometheus c)]
       else None),
      (if rc_Mode (cf_Routing c) = ModeKVAware then kv_aware_checks parse c else None),
      map_option ErrPredictionConfig (prediction_Config_Validate (cf_Prediction c)),
      unless (\<not> (dcf_Mode (cf_Discovery c) = ModeStatic \<and> length (dcf_Static (cf_Discovery c)) = 0)) ErrNoStaticBackend]"

subsection \<open>Defaults\<close>

definition defaultServiceBackendID :: string where "defaultServiceBackendID = ''service''"
definition defaultServiceURL :: string where
  "defaultServiceURL = ''http://qwen-vllm-baseline.kubellm.svc.cluster.local:8000''"
definition defaultEndpointService :: string where "defaultEndpointService = ''qwen-vllm''"
definition defaultEndpointNamespace :: string where "defaultEndpointNamespace = ''kubellm''"
definition defaultKubernetesTokenFile :: string where
  "defaultKubernetesTokenFile = ''/var/run/secrets/kubernetes.io/serviceaccount/token''"
definition defaultKubernetesCAFile :: string where
  "defaultKubernetesCAFile = ''/var/run/secrets/kubernetes.io/serviceaccount/ca.crt''"
definition defaultKVAwareModel :: string where "defaultKVAwareModel = ''qwen2.5-0.5b-instruct''"
definition defaultMetricsPath :: string where "defaultMetricsPath = ''/metrics''"

definition default_service :: Backend where
  "default_service = \<lparr>bID = defaultServiceBackendID, bURL = defaultServiceURL, bMetadata = []\<rparr>"

definition identityConfig :: identity_Config where
  "identityConfig = \<lparr>icf_Namespace = defaultEndpointNamespace, icf_BaseURL = [], icf_TokenFile = defaultKubernetesTokenFile,
     icf_CAFile = defaultKubernetesCAFile\<rparr>"

definition zero_StaticProfile :: StaticProfile where
  "zero_StaticProfile = \<lparr>sp_Identity = \<lparr>pi_Model = [], pi_HardwareProfile = [], pi_VLLMVersion = [], pi_MinPromptTokens = 0,
       pi_MaxModelTokens = 0\<rparr>, sp_MaxPromptTokens = 0, sp_Version = [], sp_Calibrated = False, sp_PromptTokenBreakpoints = [],
     sp_CachedRatioBreakpoints = [], sp_Prefill = [], sp_QueueWaitPerRequest = 0, sp_RunningDelayPerRequest = 0,
     sp_LocalDeltaPerRequest = 0, sp_LocalFallbackPerRequest = 0, sp_SafetyMargin = 0, sp_LoadBounds = None\<rparr>"

definition DefaultConfig :: serving_Config where
  "DefaultConfig =
     \<lparr>cf_Process = \<lparr>pcs_ListenAddress = '':8080'', pcs_ReadHeaderTimeout = 5 * Second, pcs_ShutdownTimeout = 30 * Second\<rparr>,
      cf_Gateway = \<lparr>gw_RoutingMode = ModeLoadAware, gw_KeepAlive = False, gw_RequestTimeout = 90 * Second,
        gw_MaxRequestBodyBytes = 2 * 2 ^ 20\<rparr>,
      cf_Discovery = \<lparr>dcf_Mode = ModeStatic, dcf_Static = [default_service],
        dcf_EndpointSlice = \<lparr>ec_Namespace = defaultEndpointNamespace, ec_ServiceName = defaultEndpointService, ec_BaseURL = [],
          ec_TokenFile = defaultKubernetesTokenFile, ec_CAFile = defaultKubernetesCAFile, ec_RefreshInterval = 30 * Second\<rparr>\<rparr>,
      cf_Identity = identityConfig,
      cf_ObservationMode = ModeNone,
      cf_Observation = \<lparr>oc_Interval = 15 * Second, oc_MaxAge = 45 * Second, oc_RequestTimeout = 5 * Second\<rparr>,
      cf_Prometheus = \<lparr>pmc_MetricsPath = defaultMetricsPath,
        pmc_Runtime = \<lparr>rpq_Endpoint = [], rpq_Namespace = [], rpq_CPUQuery = [], rpq_MemoryQuery = [],
          rpq_GPUUtilizationQuery = [], rpq_GPUMemoryQuery = [], rpq_GPUTemperatureQuery = []\<rparr>\<rparr>,
      cf_Routing = \<lparr>rc_Mode = ModeLoadAware, rc_Service = default_service,
        rc_SessionKey = \<lparr>sk_TTL = 5 * Minute, sk_MaxEntries = 10000, sk_InflightDelta = 2, sk_QueueDepthDelta = Fin 1\<rparr>,
        rc_KVAware = \<lparr>EstimatorMode = KVAwareEstimatorTokenCost, QueueTokenPenalty = 512, RunningTokenPenalty = 128,
          InflightTokenPenalty = 64\<rparr>\<rparr>,
      cf_Circuit = \<lparr>EWMAAlpha = rnd64 (1 / 2), ErrorThreshold = rnd64 (3 / 5), MinimumRequests = 3, OpenDuration = 10 * Second\<rparr>,
      cf_Admission = \<lparr>MaxInflight = 128, InitialTarget = 128\<rparr>,
      cf_AdmissionTuning = \<lparr>tc_Mode = TuningOff, MinTarget = 16, MaxTarget = 128, tc_Step = 8, Interval = 2 * Second,
        Cooldown = 5 * Second, HighWatermark = rnd64 (4 / 5), LowWatermark = rnd64 (1 / 4)\<rparr>,
      cf_Transport = \<lparr>tc_KeepAlive = False, tc_RequestTimeout = 90 * Second, tc_MaxConnsPerHost = 32,
        tc_IdleConnTimeout = 90 * Second\<rparr>,
      cf_RequestPath = \<lparr>rpc_Service = default_service, rpc_RequireFreshDiscovery = False, rpc_DiscoveryMaxAge = 90 * Second,
        rpc_ReconcileInterval = 0, rpc_HardQueueDepth = 0, rpc_HardLocalInflight = 0, rpc_ShortPromptTokens = 0,
        rpc_CPUHardLimit = Fin 0, rpc_MemoryHardLimit = Fin 0, rpc_GPUUtilizationHardLimit = Fin 0,
        rpc_GPUMemoryHardLimit = Fin 0, rpc_GPUTemperatureHardLimit = Fin 0\<rparr>,
      cf_Tokenization = \<lparr>tc_BaseURL = defaultServiceURL, tc_Model = defaultKVAwareModel, tc_Timeout = 5 * Second,
        tc_MaxRequestBytes = 2 * 2 ^ 20, tc_MaxResponseBytes = 8 * 2 ^ 20, tc_MaxTotalTokens = 131072\<rparr>,
      cf_KVCache = \<lparr>BlockSizeTokens = 16, HashSeed = [], MaxIndexKeys = 100000, MaxInstances = 8, MaxBackendsPerKey = 8,
        MaxEventBytes = 4 * 2 ^ 20, MaxReplayEvents = 4096, MaxQueryTokens = 131072, MaxCacheSaltBytes = 1024,
        ReplayPeriod = 2 * Second, ReplayTimeout = 3 * Second, FreshnessTTL = 5 * Second, ReconnectDelay = Second\<rparr>,
      cf_Prediction = \<lparr>pc_Mode = ModeOff, pc_MaxSamples = 128, pc_MaxSampleAge = 15 * Minute, pc_MinimumSamples = 16,
        pc_RefitEvery = 16\<rparr>,
      cf_StaticProfile = zero_StaticProfile\<rparr>"

subsection \<open>Reading one variable\<close>

definition valueOrDefault :: "(string \<Rightarrow> string) \<Rightarrow> string \<Rightarrow> string \<Rightarrow> string" where
  "valueOrDefault env key fallback = (let v = TrimSpace (env key) in if v \<noteq> [] then v else fallback)"

definition valueOrDefaultMode :: "(string \<Rightarrow> string) \<Rightarrow> string \<Rightarrow> string \<Rightarrow> string" where
  "valueOrDefaultMode env key fallback = valueOrDefault env key fallback"

definition assignDuration :: "(string \<Rightarrow> string) \<Rightarrow> string \<Rightarrow> duration \<Rightarrow> config_error + duration" where
  "assignDuration env key fallback =
     (let v = TrimSpace (env key)
      in if v = [] then Inr fallback
         else case ParseDuration v of None \<Rightarrow> Inl (ErrNotDuration key v) | Some parsed \<Rightarrow> Inr parsed)"

definition assignBool :: "(string \<Rightarrow> string) \<Rightarrow> string \<Rightarrow> bool \<Rightarrow> config_error + bool" where
  "assignBool env key fallback =
     (let v = TrimSpace (env key)
      in if v = [] then Inr fallback
         else case ParseBool v of None \<Rightarrow> Inl (ErrNotBoolean key v) | Some parsed \<Rightarrow> Inr parsed)"

definition assignInt :: "(string \<Rightarrow> string) \<Rightarrow> string \<Rightarrow> int \<Rightarrow> bool \<Rightarrow> config_error + int" where
  "assignInt env key fallback positive =
     (let v = TrimSpace (env key)
      in if v = [] then Inr fallback
         else case Atoi v of None \<Rightarrow> Inl (ErrNotInteger key v)
           | Some parsed \<Rightarrow> if positive \<and> parsed \<le> 0 then Inl (ErrNotPositive key) else Inr parsed)"

definition assignInt64 :: "(string \<Rightarrow> string) \<Rightarrow> string \<Rightarrow> int \<Rightarrow> config_error + int" where
  "assignInt64 env key fallback =
     (let v = TrimSpace (env key)
      in if v = [] then Inr fallback
         else case Atoi v of None \<Rightarrow> Inl (ErrNotInteger key v) | Some parsed \<Rightarrow> Inr parsed)"

definition assignNonNegativeInt :: "(string \<Rightarrow> string) \<Rightarrow> string \<Rightarrow> int \<Rightarrow> config_error + int" where
  "assignNonNegativeInt env key fallback =
     (case assignInt env key fallback False of Inl err \<Rightarrow> Inl err
      | Inr n \<Rightarrow> if n < 0 then Inl (ErrNegative key n) else Inr n)"

definition assignNonNegativeInt64 :: "(string \<Rightarrow> string) \<Rightarrow> string \<Rightarrow> int \<Rightarrow> config_error + int" where
  "assignNonNegativeInt64 env key fallback =
     (case assignInt64 env key fallback of Inl err \<Rightarrow> Inl err
      | Inr n \<Rightarrow> if n < 0 then Inl (ErrNegative key n) else Inr n)"

definition assignFloat :: "(string \<Rightarrow> f64 option) \<Rightarrow> (string \<Rightarrow> string) \<Rightarrow> string \<Rightarrow> f64 \<Rightarrow> config_error + f64" where
  "assignFloat parse_float env key fallback =
     (let v = TrimSpace (env key)
      in if v = [] then Inr fallback
         else case parse_float v of None \<Rightarrow> Inl (ErrNotNumber key v) | Some parsed \<Rightarrow> Inr parsed)"

definition csvValues :: "string \<Rightarrow> string list" where
  "csvValues v = filter (\<lambda>item. item \<noteq> []) (map TrimSpace (split_at (CHR '','') v))"

fun validated :: "url_parser \<Rightarrow> Backend list \<Rightarrow> config_error + Backend list" where
  "validated url_parse [] = Inr []"
| "validated url_parse (b # bs) =
     (case Backend_Validate url_parse b of Some e \<Rightarrow> Inl (ErrBackendConfig e)
      | None \<Rightarrow> (case validated url_parse bs of Inl e \<Rightarrow> Inl e | Inr rest \<Rightarrow> Inr (b # rest)))"

definition staticBackendsFromEnvironment :: "url_parser \<Rightarrow> (string \<Rightarrow> string) \<Rightarrow> config_error + Backend list" where
  "staticBackendsFromEnvironment url_parse env =
     (let items = csvValues (env envBackendEndpoints)
      in validated url_parse
           (map (\<lambda>(index, rawURL). \<lparr>bID = ''backend-'' @ dec_nat index, bURL = rawURL, bMetadata = []\<rparr>)
              (zip [0..<length items] items)))"

subsection \<open>Reading every variable\<close>

record environmentValues =
  ev_endpointRefresh :: duration
  ev_endpointMaxAge :: duration
  ev_observationInterval :: duration
  ev_observationMaxAge :: duration
  ev_observationRequestTimeout :: duration
  ev_requestTimeout :: duration
  ev_maxRequestBody :: int
  ev_shutdownTimeout :: duration
  ev_sessionKeyTTL :: duration
  ev_circuitOpenDuration :: duration
  ev_keepAlive :: bool
  ev_sessionKeyMaxEntries :: int
  ev_maxInflight :: int
  ev_admissionInitialTarget :: int
  ev_admissionMinTarget :: int
  ev_admissionMaxTarget :: int
  ev_admissionTargetStep :: int
  ev_admissionTuningInterval :: duration
  ev_admissionTuningCooldown :: duration
  ev_maxConnections :: int
  ev_circuitMinimumRequests :: int
  ev_sessionKeyInflightDelta :: int
  ev_sessionKeyQueueDelta :: f64
  ev_kvAwareQueueTokenPenalty :: int
  ev_kvAwareRunningTokenPenalty :: int
  ev_kvAwareInflightTokenPenalty :: int
  ev_kvAwareShortPromptTokens :: int
  ev_kvAwareHardQueueDepth :: int
  ev_kvAwareHardLocalInflight :: int
  ev_runtimeCPUHardLimit :: f64
  ev_runtimeMemoryHardLimit :: f64
  ev_runtimeGPUUtilizationLimit :: f64
  ev_runtimeGPUMemoryHardLimit :: f64
  ev_runtimeGPUTemperatureLimit :: f64
  ev_circuitAlpha :: f64
  ev_circuitError :: f64

definition assigned :: "('a \<Rightarrow> 'v) \<Rightarrow> 'e + 'a \<Rightarrow> 'e + 'v" where
  \<comment> \<open>the store through the destination pointer of an assigning parser\<close>
  "assigned store r = (case r of Inl e \<Rightarrow> Inl e | Inr x \<Rightarrow> Inr (store x))"

fun run_parsers :: "('v \<Rightarrow> 'e + 'v) list \<Rightarrow> 'v \<Rightarrow> 'e + 'v" where
  "run_parsers [] v = Inr v"
| "run_parsers (p # ps) v = (case p v of Inl e \<Rightarrow> Inl e | Inr v' \<Rightarrow> run_parsers ps v')"

definition zero_environmentValues :: environmentValues where
  "zero_environmentValues = \<lparr>ev_endpointRefresh = 0, ev_endpointMaxAge = 0, ev_observationInterval = 0, ev_observationMaxAge = 0,
     ev_observationRequestTimeout = 0, ev_requestTimeout = 0, ev_maxRequestBody = 0, ev_shutdownTimeout = 0,
     ev_sessionKeyTTL = 0, ev_circuitOpenDuration = 0, ev_keepAlive = False, ev_sessionKeyMaxEntries = 0,
     ev_maxInflight = 0, ev_admissionInitialTarget = 0, ev_admissionMinTarget = 0, ev_admissionMaxTarget = 0,
     ev_admissionTargetStep = 0, ev_admissionTuningInterval = 0, ev_admissionTuningCooldown = 0,
     ev_maxConnections = 0, ev_circuitMinimumRequests = 0, ev_sessionKeyInflightDelta = 0,
     ev_sessionKeyQueueDelta = Fin 0, ev_kvAwareQueueTokenPenalty = 0, ev_kvAwareRunningTokenPenalty = 0,
     ev_kvAwareInflightTokenPenalty = 0, ev_kvAwareShortPromptTokens = 0, ev_kvAwareHardQueueDepth = 0,
     ev_kvAwareHardLocalInflight = 0, ev_runtimeCPUHardLimit = Fin 0, ev_runtimeMemoryHardLimit = Fin 0,
     ev_runtimeGPUUtilizationLimit = Fin 0, ev_runtimeGPUMemoryHardLimit = Fin 0,
     ev_runtimeGPUTemperatureLimit = Fin 0, ev_circuitAlpha = Fin 0, ev_circuitError = Fin 0\<rparr>"

definition environment_parsers :: "(string \<Rightarrow> f64 option) \<Rightarrow> (string \<Rightarrow> string) \<Rightarrow> serving_Config \<Rightarrow>
    (environmentValues \<Rightarrow> config_error + environmentValues) list" where
  "environment_parsers parse_float env defaults =
     [\<lambda>v. assigned (\<lambda>x. v\<lparr>ev_endpointRefresh := x\<rparr>) (assignDuration env envEndpointRefreshInterval (ec_RefreshInterval (dcf_EndpointSlice (cf_Discovery defaults)))),
      \<lambda>v. assigned (\<lambda>x. v\<lparr>ev_endpointMaxAge := x\<rparr>) (assignDuration env envEndpointMaxAge (rpc_DiscoveryMaxAge (cf_RequestPath defaults))),
      \<lambda>v. assigned (\<lambda>x. v\<lparr>ev_observationInterval := x\<rparr>) (assignDuration env envObservationInterval (oc_Interval (cf_Observation defaults))),
      \<lambda>v. assigned (\<lambda>x. v\<lparr>ev_observationMaxAge := x\<rparr>) (assignDuration env envObservationMaxAge (oc_MaxAge (cf_Observation defaults))),
      \<lambda>v. assigned (\<lambda>x. v\<lparr>ev_observationRequestTimeout := x\<rparr>) (assignDuration env envObservationRequestTimeout (oc_RequestTimeout (cf_Observation defaults))),
      \<lambda>v. assigned (\<lambda>x. v\<lparr>ev_requestTimeout := x\<rparr>) (assignDuration env envRequestTimeout (gw_RequestTimeout (cf_Gateway defaults))),
      \<lambda>v. assigned (\<lambda>x. v\<lparr>ev_maxRequestBody := x\<rparr>) (assignInt64 env envMaxRequestBodyBytes (gw_MaxRequestBodyBytes (cf_Gateway defaults))),
      \<lambda>v. assigned (\<lambda>x. v\<lparr>ev_shutdownTimeout := x\<rparr>) (assignDuration env envShutdownTimeout (pcs_ShutdownTimeout (cf_Process defaults))),
      \<lambda>v. assigned (\<lambda>x. v\<lparr>ev_sessionKeyTTL := x\<rparr>) (assignDuration env envSessionKeyTTL (sk_TTL (rc_SessionKey (cf_Routing defaults)))),
      \<lambda>v. assigned (\<lambda>x. v\<lparr>ev_circuitOpenDuration := x\<rparr>) (assignDuration env envCircuitOpenDuration (OpenDuration (cf_Circuit defaults))),
      \<lambda>v. assigned (\<lambda>x. v\<lparr>ev_keepAlive := x\<rparr>) (assignBool env envUpstreamKeepAlive (tc_KeepAlive (cf_Transport defaults))),
      \<lambda>v. assigned (\<lambda>x. v\<lparr>ev_sessionKeyMaxEntries := x\<rparr>) (assignInt env envSessionKeyMaxEntries (sk_MaxEntries (rc_SessionKey (cf_Routing defaults))) False),
      \<lambda>v. assigned (\<lambda>x. v\<lparr>ev_maxInflight := x\<rparr>) (assignInt env envMaxInflightRequests (MaxInflight (cf_Admission defaults)) True),
      \<lambda>v. assigned (\<lambda>x. v\<lparr>ev_admissionInitialTarget := x\<rparr>) (assignInt env envAdmissionInitialTarget (InitialTarget (cf_Admission defaults)) True),
      \<lambda>v. assigned (\<lambda>x. v\<lparr>ev_admissionMinTarget := x\<rparr>) (assignInt env envAdmissionMinTarget (MinTarget (cf_AdmissionTuning defaults)) True),
      \<lambda>v. assigned (\<lambda>x. v\<lparr>ev_admissionMaxTarget := x\<rparr>) (assignInt env envAdmissionMaxTarget (MaxTarget (cf_AdmissionTuning defaults)) True),
      \<lambda>v. assigned (\<lambda>x. v\<lparr>ev_admissionTargetStep := x\<rparr>) (assignInt env envAdmissionTargetStep (tc_Step (cf_AdmissionTuning defaults)) True),
      \<lambda>v. assigned (\<lambda>x. v\<lparr>ev_admissionTuningInterval := x\<rparr>) (assignDuration env envAdmissionTuningInterval (Interval (cf_AdmissionTuning defaults))),
      \<lambda>v. assigned (\<lambda>x. v\<lparr>ev_admissionTuningCooldown := x\<rparr>) (assignDuration env envAdmissionTuningCooldown (Cooldown (cf_AdmissionTuning defaults))),
      \<lambda>v. assigned (\<lambda>x. v\<lparr>ev_maxConnections := x\<rparr>) (assignInt env envMaxConnsPerHost (tc_MaxConnsPerHost (cf_Transport defaults)) True),
      \<lambda>v. assigned (\<lambda>x. v\<lparr>ev_circuitMinimumRequests := x\<rparr>) (assignInt env envCircuitMinimumRequests (MinimumRequests (cf_Circuit defaults)) True),
      \<lambda>v. assigned (\<lambda>x. v\<lparr>ev_sessionKeyInflightDelta := x\<rparr>) (assignInt64 env envSessionKeyInflightDelta (sk_InflightDelta (rc_SessionKey (cf_Routing defaults)))),
      \<lambda>v. assigned (\<lambda>x. v\<lparr>ev_sessionKeyQueueDelta := x\<rparr>) (assignFloat parse_float env envSessionKeyQueueDepthDelta (sk_QueueDepthDelta (rc_SessionKey (cf_Routing defaults)))),
      \<lambda>v. assigned (\<lambda>x. v\<lparr>ev_kvAwareQueueTokenPenalty := x\<rparr>) (assignNonNegativeInt64 env envKVAwareQueueTokenPenalty (QueueTokenPenalty (rc_KVAware (cf_Routing defaults)))),
      \<lambda>v. assigned (\<lambda>x. v\<lparr>ev_kvAwareRunningTokenPenalty := x\<rparr>) (assignNonNegativeInt64 env envKVAwareRunningTokenPenalty (RunningTokenPenalty (rc_KVAware (cf_Routing defaults)))),
      \<lambda>v. assigned (\<lambda>x. v\<lparr>ev_kvAwareInflightTokenPenalty := x\<rparr>) (assignNonNegativeInt64 env envKVAwareInflightTokenPenalty (InflightTokenPenalty (rc_KVAware (cf_Routing defaults)))),
      \<lambda>v. assigned (\<lambda>x. v\<lparr>ev_kvAwareShortPromptTokens := x\<rparr>) (assignNonNegativeInt env envKVAwareShortPromptTokens (rpc_ShortPromptTokens (cf_RequestPath defaults))),
      \<lambda>v. assigned (\<lambda>x. v\<lparr>ev_kvAwareHardQueueDepth := x\<rparr>) (assignNonNegativeInt64 env envKVAwareHardQueueDepth (rpc_HardQueueDepth (cf_RequestPath defaults))),
      \<lambda>v. assigned (\<lambda>x. v\<lparr>ev_kvAwareHardLocalInflight := x\<rparr>) (assignNonNegativeInt64 env envKVAwareHardLocalInflight (rpc_HardLocalInflight (cf_RequestPath defaults))),
      \<lambda>v. assigned (\<lambda>x. v\<lparr>ev_runtimeCPUHardLimit := x\<rparr>) (assignFloat parse_float env envRuntimeCPUHardLimit (rpc_CPUHardLimit (cf_RequestPath defaults))),
      \<lambda>v. assigned (\<lambda>x. v\<lparr>ev_runtimeMemoryHardLimit := x\<rparr>) (assignFloat parse_float env envRuntimeMemoryHardLimit (rpc_MemoryHardLimit (cf_RequestPath defaults))),
      \<lambda>v. assigned (\<lambda>x. v\<lparr>ev_runtimeGPUUtilizationLimit := x\<rparr>) (assignFloat parse_float env envRuntimeGPUUtilizationLimit (rpc_GPUUtilizationHardLimit (cf_RequestPath defaults))),
      \<lambda>v. assigned (\<lambda>x. v\<lparr>ev_runtimeGPUMemoryHardLimit := x\<rparr>) (assignFloat parse_float env envRuntimeGPUMemoryHardLimit (rpc_GPUMemoryHardLimit (cf_RequestPath defaults))),
      \<lambda>v. assigned (\<lambda>x. v\<lparr>ev_runtimeGPUTemperatureLimit := x\<rparr>) (assignFloat parse_float env envRuntimeGPUTemperatureLimit (rpc_GPUTemperatureHardLimit (cf_RequestPath defaults))),
      \<lambda>v. assigned (\<lambda>x. v\<lparr>ev_circuitAlpha := x\<rparr>) (assignFloat parse_float env envCircuitEWMAAlpha (EWMAAlpha (cf_Circuit defaults))),
      \<lambda>v. assigned (\<lambda>x. v\<lparr>ev_circuitError := x\<rparr>) (assignFloat parse_float env envCircuitErrorThreshold (ErrorThreshold (cf_Circuit defaults)))]"

definition loadEnvironmentValues :: "(string \<Rightarrow> f64 option) \<Rightarrow> (string \<Rightarrow> string) \<Rightarrow> serving_Config \<Rightarrow>
    config_error + environmentValues" where
  "loadEnvironmentValues parse_float env defaults =
     (case run_parsers (environment_parsers parse_float env defaults) zero_environmentValues of
        Inl e \<Rightarrow> Inl e
      | Inr v \<Rightarrow>
          if f_le (ev_circuitAlpha v) (Fin 0) \<or> f_lt (Fin 1) (ev_circuitAlpha v) \<or> f_le (ev_circuitError v) (Fin 0)
             \<or> f_lt (Fin 1) (ev_circuitError v) \<or> ev_circuitOpenDuration v \<le> 0 then Inl ErrCircuitValues
          else if ev_maxRequestBody v \<le> 0 then Inl (ErrNotPositive envMaxRequestBodyBytes)
          else if ev_observationRequestTimeout v \<le> 0 then Inl (ErrNotPositive envObservationRequestTimeout)
          else if f_lt (ev_runtimeCPUHardLimit v) (Fin 0) \<or> f_lt (ev_runtimeMemoryHardLimit v) (Fin 0)
             \<or> f_lt (ev_runtimeGPUUtilizationLimit v) (Fin 0) \<or> f_lt (ev_runtimeGPUMemoryHardLimit v) (Fin 0)
             \<or> f_lt (ev_runtimeGPUTemperatureLimit v) (Fin 0) then Inl ErrRuntimeLimits
          else
            let v1 = (if TrimSpace (env envAdmissionInitialTarget) = []
                      then v\<lparr>ev_admissionInitialTarget := ev_maxInflight v\<rparr> else v);
                v2 = (if TrimSpace (env envAdmissionMaxTarget) = []
                      then v1\<lparr>ev_admissionMaxTarget := ev_maxInflight v1\<rparr> else v1)
            in Inr v2)"

definition buildConfig :: "full_url_parser \<Rightarrow> (string \<Rightarrow> string) \<Rightarrow> environmentValues \<Rightarrow> serving_Config \<Rightarrow>
    config_error + serving_Config" where
  "buildConfig parse env v defaults =
     (let service = (rpc_Service (cf_RequestPath defaults))\<lparr>bURL :=
            valueOrDefault env envUpstreamURL (bURL (rpc_Service (cf_RequestPath defaults)))\<rparr>
      in case Backend_Validate (url_of parse) service of
           Some e \<Rightarrow> Inl (ErrBackendConfig e)
         | None \<Rightarrow>
       (case staticBackendsFromEnvironment (url_of parse) env of
          Inl e \<Rightarrow> Inl e
        | Inr listed \<Rightarrow>
          let discoveryMode = valueOrDefault env envEndpointDiscovery (dcf_Mode (cf_Discovery defaults));
              routingMode = valueOrDefault env envRoutingMode (rc_Mode (cf_Routing defaults));
              staticBackends = (if discoveryMode = ModeStatic \<and> routingMode \<noteq> ModeKVAware \<and> length listed = 0
                                then [service] else listed);
              reconcileInterval = (if discoveryMode = ModeEndpointSlice then ev_endpointRefresh v else 0);
              slice = dcf_EndpointSlice (cf_Discovery defaults);
              namespace = valueOrDefault env envEndpointNamespace (ec_Namespace slice);
              apiURL = valueOrDefault env envKubernetesAPIURL (ec_BaseURL slice);
              tokenFile = valueOrDefault env envKubernetesTokenFile (ec_TokenFile slice);
              caFile = valueOrDefault env envKubernetesCAFile (ec_CAFile slice);
              runtime = pmc_Runtime (cf_Prometheus defaults);
              tuning = cf_AdmissionTuning defaults;
              tok = cf_Tokenization defaults;
              pred = cf_Prediction defaults
          in Inr
            \<lparr>cf_Process = \<lparr>pcs_ListenAddress = valueOrDefault env envListenAddress (pcs_ListenAddress (cf_Process defaults)),
               pcs_ReadHeaderTimeout = pcs_ReadHeaderTimeout (cf_Process defaults), pcs_ShutdownTimeout = ev_shutdownTimeout v\<rparr>,
             cf_Gateway = \<lparr>gw_RoutingMode = routingMode, gw_KeepAlive = ev_keepAlive v, gw_RequestTimeout = ev_requestTimeout v,
               gw_MaxRequestBodyBytes = ev_maxRequestBody v\<rparr>,
             cf_Discovery = \<lparr>dcf_Mode = discoveryMode, dcf_Static = staticBackends,
               dcf_EndpointSlice = \<lparr>ec_Namespace = namespace,
                 ec_ServiceName = valueOrDefault env envEndpointService (ec_ServiceName slice), ec_BaseURL = apiURL,
                 ec_TokenFile = tokenFile, ec_CAFile = caFile, ec_RefreshInterval = ev_endpointRefresh v\<rparr>\<rparr>,
             cf_Identity = \<lparr>icf_Namespace = namespace, icf_BaseURL = apiURL, icf_TokenFile = tokenFile, icf_CAFile = caFile\<rparr>,
             cf_ObservationMode = valueOrDefault env envObservationMode (cf_ObservationMode defaults),
             cf_Observation = \<lparr>oc_Interval = ev_observationInterval v, oc_MaxAge = ev_observationMaxAge v,
               oc_RequestTimeout = ev_observationRequestTimeout v\<rparr>,
             cf_Prometheus = \<lparr>pmc_MetricsPath = pmc_MetricsPath (cf_Prometheus defaults),
               pmc_Runtime = \<lparr>rpq_Endpoint = valueOrDefault env envRuntimePrometheusURL (rpq_Endpoint runtime),
                 rpq_Namespace = namespace,
                 rpq_CPUQuery = valueOrDefault env envRuntimeCPUQuery (rpq_CPUQuery runtime),
                 rpq_MemoryQuery = valueOrDefault env envRuntimeMemoryQuery (rpq_MemoryQuery runtime),
                 rpq_GPUUtilizationQuery = valueOrDefault env envRuntimeGPUUtilizationQuery (rpq_GPUUtilizationQuery runtime),
                 rpq_GPUMemoryQuery = valueOrDefault env envRuntimeGPUMemoryQuery (rpq_GPUMemoryQuery runtime),
                 rpq_GPUTemperatureQuery = valueOrDefault env envRuntimeGPUTemperatureQuery (rpq_GPUTemperatureQuery runtime)\<rparr>\<rparr>,
             cf_Routing = \<lparr>rc_Mode = routingMode, rc_Service = service,
               rc_SessionKey = \<lparr>sk_TTL = ev_sessionKeyTTL v, sk_MaxEntries = ev_sessionKeyMaxEntries v,
                 sk_InflightDelta = ev_sessionKeyInflightDelta v, sk_QueueDepthDelta = ev_sessionKeyQueueDelta v\<rparr>,
               rc_KVAware = \<lparr>EstimatorMode = valueOrDefault env envKVAwareEstimatorMode (EstimatorMode (rc_KVAware (cf_Routing defaults))),
                 QueueTokenPenalty = ev_kvAwareQueueTokenPenalty v, RunningTokenPenalty = ev_kvAwareRunningTokenPenalty v,
                 InflightTokenPenalty = ev_kvAwareInflightTokenPenalty v\<rparr>\<rparr>,
             cf_Circuit = \<lparr>EWMAAlpha = ev_circuitAlpha v, ErrorThreshold = ev_circuitError v,
               MinimumRequests = ev_circuitMinimumRequests v, OpenDuration = ev_circuitOpenDuration v\<rparr>,
             cf_Admission = \<lparr>MaxInflight = ev_maxInflight v, InitialTarget = ev_admissionInitialTarget v\<rparr>,
             cf_AdmissionTuning = \<lparr>tc_Mode = valueOrDefault env envAdmissionTuningMode (tc_Mode tuning),
               MinTarget = ev_admissionMinTarget v, MaxTarget = ev_admissionMaxTarget v, tc_Step = ev_admissionTargetStep v,
               Interval = ev_admissionTuningInterval v, Cooldown = ev_admissionTuningCooldown v,
               HighWatermark = HighWatermark tuning, LowWatermark = LowWatermark tuning\<rparr>,
             cf_Transport = \<lparr>tc_KeepAlive = ev_keepAlive v, tc_RequestTimeout = ev_requestTimeout v,
               tc_MaxConnsPerHost = ev_maxConnections v, tc_IdleConnTimeout = tc_IdleConnTimeout (cf_Transport defaults)\<rparr>,
             cf_RequestPath = \<lparr>rpc_Service = service, rpc_RequireFreshDiscovery = (discoveryMode = ModeEndpointSlice),
               rpc_DiscoveryMaxAge = ev_endpointMaxAge v, rpc_ReconcileInterval = reconcileInterval,
               rpc_HardQueueDepth = ev_kvAwareHardQueueDepth v, rpc_HardLocalInflight = ev_kvAwareHardLocalInflight v,
               rpc_ShortPromptTokens = ev_kvAwareShortPromptTokens v, rpc_CPUHardLimit = ev_runtimeCPUHardLimit v,
               rpc_MemoryHardLimit = ev_runtimeMemoryHardLimit v, rpc_GPUUtilizationHardLimit = ev_runtimeGPUUtilizationLimit v,
               rpc_GPUMemoryHardLimit = ev_runtimeGPUMemoryHardLimit v,
               rpc_GPUTemperatureHardLimit = ev_runtimeGPUTemperatureLimit v\<rparr>,
             cf_Tokenization = \<lparr>tc_BaseURL = valueOrDefault env envKVAwareRenderURL (tc_BaseURL tok),
               tc_Model = valueOrDefault env envKVAwareModel (tc_Model tok), tc_Timeout = tc_Timeout tok,
               tc_MaxRequestBytes = tc_MaxRequestBytes tok, tc_MaxResponseBytes = tc_MaxResponseBytes tok,
               tc_MaxTotalTokens = tc_MaxTotalTokens tok\<rparr>,
             cf_KVCache = cf_KVCache defaults,
             cf_Prediction = \<lparr>pc_Mode = valueOrDefaultMode env envPredictionMode (pc_Mode pred), pc_MaxSamples = pc_MaxSamples pred,
               pc_MaxSampleAge = pc_MaxSampleAge pred, pc_MinimumSamples = pc_MinimumSamples pred,
               pc_RefitEvery = pc_RefitEvery pred\<rparr>,
             cf_StaticProfile = zero_StaticProfile\<rparr>))"

subsection \<open>The static profile\<close>

definition maxStaticProfileBytes :: int where
  "maxStaticProfileBytes = 2 ^ 20"

record staticProfileDocument =
  spd_Model :: string
  spd_HardwareProfile :: string
  spd_VLLMVersion :: string
  spd_MinPromptTokens :: int
  spd_MaxModelTokens :: int
  spd_MaxPromptTokens :: int
  spd_Version :: string
  spd_Calibrated :: bool
  spd_PromptTokenBreakpoints :: "int list"
  spd_CachedRatioBreakpoints :: "int list"
  spd_PrefillMilliseconds :: "f64 list list"
  spd_QueueWaitMilliseconds :: f64
  spd_RunningDelayMilliseconds :: f64
  spd_LocalDeltaMilliseconds :: f64
  spd_LocalFallbackMilliseconds :: f64
  spd_SafetyMarginMilliseconds :: f64
  spd_LoadBounds :: "StaticLoadBounds option"

definition milliseconds :: "f64 \<Rightarrow> config_error + duration" where
  "milliseconds v =
     (if f_lt v (Fin 0) \<or> is_NaN v \<or> is_Inf v \<or> f_lt (f_div (f_of_int max_int64) (f_of_int Millisecond)) v
      then Inl ErrMilliseconds
      else Inr (f_to_int64 (f_round (f_mul v (f_of_int Millisecond)))))"

definition profile_of_document :: "staticProfileDocument \<Rightarrow> config_error + StaticProfile" where
  \<comment> \<open>the conversion of \<open>loadStaticProfile\<close>: prefill rows first, then the five coefficients\<close>
  "profile_of_document d =
     (case all_or_first (all_or_first milliseconds) (spd_PrefillMilliseconds d) of
        Inl e \<Rightarrow> Inl e
      | Inr prefill \<Rightarrow>
          (case all_or_first milliseconds [spd_QueueWaitMilliseconds d, spd_RunningDelayMilliseconds d,
               spd_LocalDeltaMilliseconds d, spd_LocalFallbackMilliseconds d, spd_SafetyMarginMilliseconds d] of
             Inl e \<Rightarrow> Inl e
           | Inr coefficients \<Rightarrow>
               let profile = \<lparr>sp_Identity = \<lparr>pi_Model = spd_Model d, pi_HardwareProfile = spd_HardwareProfile d,
                       pi_VLLMVersion = spd_VLLMVersion d, pi_MinPromptTokens = spd_MinPromptTokens d,
                       pi_MaxModelTokens = spd_MaxModelTokens d\<rparr>,
                     sp_MaxPromptTokens = spd_MaxPromptTokens d, sp_Version = spd_Version d, sp_Calibrated = spd_Calibrated d,
                     sp_PromptTokenBreakpoints = spd_PromptTokenBreakpoints d,
                     sp_CachedRatioBreakpoints = spd_CachedRatioBreakpoints d, sp_Prefill = prefill,
                     sp_QueueWaitPerRequest = coefficients ! 0, sp_RunningDelayPerRequest = coefficients ! 1,
                     sp_LocalDeltaPerRequest = coefficients ! 2, sp_LocalFallbackPerRequest = coefficients ! 3,
                     sp_SafetyMargin = coefficients ! 4, sp_LoadBounds = spd_LoadBounds d\<rparr>
               in case StaticProfile_Validate profile of Some e \<Rightarrow> Inl (ErrStaticProfile e) | None \<Rightarrow> Inr profile))"

definition loadStaticProfile :: "(string \<Rightarrow> string option) \<Rightarrow> (string \<Rightarrow> (staticProfileDocument \<times> bool) option) \<Rightarrow>
    string \<Rightarrow> config_error + StaticProfile" where
  \<comment> \<open>the decoder tells whether the input ends after the first value\<close>
  "loadStaticProfile read_file decode path =
     (case read_file path of
        None \<Rightarrow> Inl ErrReadProfile
      | Some bytes \<Rightarrow>
          if length bytes = 0 \<or> int (length bytes) > maxStaticProfileBytes then Inl ErrProfileSize
          else (case decode bytes of
                  None \<Rightarrow> Inl ErrDecodeProfile
                | Some (document, at_end) \<Rightarrow>
                    if \<not> at_end then Inl ErrTrailingProfile else profile_of_document document))"

subsection \<open>The loader\<close>

record loader =
  ldr_parse :: full_url_parser
  ldr_parse_float :: "string \<Rightarrow> f64 option"
  ldr_read_file :: "string \<Rightarrow> string option"
  ldr_decode :: "string \<Rightarrow> (staticProfileDocument \<times> bool) option"

definition LoadEnvironment :: "loader \<Rightarrow> (string \<Rightarrow> string) \<Rightarrow> config_error + serving_Config" where
  "LoadEnvironment l env =
     (case loadEnvironmentValues (ldr_parse_float l) env DefaultConfig of
        Inl e \<Rightarrow> Inl e
      | Inr v \<Rightarrow>
        (case buildConfig (ldr_parse l) env v DefaultConfig of
           Inl e \<Rightarrow> Inl e
         | Inr config \<Rightarrow>
             let profile =
               (if rc_Mode (cf_Routing config) = ModeKVAware
                   \<and> EstimatorMode (rc_KVAware (cf_Routing config)) = KVAwareEstimatorStatic
                then let profileFile = TrimSpace (env envKVAwareStaticProfileFile)
                     in if profileFile = [] then Inl ErrProfileFileUnset
                        else loadStaticProfile (ldr_read_file l) (ldr_decode l) profileFile
                else Inr (cf_StaticProfile config))
             in case profile of
                  Inl e \<Rightarrow> Inl e
                | Inr p \<Rightarrow>
                    let c = config\<lparr>cf_StaticProfile := p\<rparr>
                    in case serving_Config_Validate (ldr_parse l) c of Some e \<Rightarrow> Inl e | None \<Rightarrow> Inr c))"

end
