(* ===== verification/Config_Loading.thy ===== *)
theory Config_Loading
  imports Config
begin

text \<open>
  What loading the configuration guarantees: with nothing set the defaults are loaded and accepted, a
  variable that is set to something unreadable stops the process instead of falling back to its default,
  and every loaded configuration passed the validation and carries validated backends.
\<close>

subsection \<open>Reading\<close>

lemma TrimSpace_Nil [simp]: "TrimSpace [] = []"
  by (simp add: TrimSpace_def trim_front.simps Let_def)

lemma assign_unset [simp]:
  assumes "TrimSpace (env key) = []"
  shows "valueOrDefault env key s = s" and "valueOrDefaultMode env key s = s" and "assignDuration env key n = Inr n"
    and "assignInt env key n pos = Inr n" and "assignInt64 env key n = Inr n" and "assignBool env key b = Inr b"
    and "assignFloat parse_float env key x = Inr x"
    and "0 \<le> n \<Longrightarrow> assignNonNegativeInt env key n = Inr n" and "0 \<le> n \<Longrightarrow> assignNonNegativeInt64 env key n = Inr n"
  using assms
  by (simp_all add: valueOrDefault_def valueOrDefaultMode_def assignDuration_def assignInt_def assignInt64_def assignBool_def
      assignFloat_def assignNonNegativeInt_def assignNonNegativeInt64_def)

lemma assigned_Inr [simp]: "assigned store (Inr x) = Inr (store x)"
  by (simp add: assigned_def)

lemma isl_assigned [simp]: "isl (assigned store r) = isl r"
  by (cases r) (simp_all add: assigned_def)

lemma first_error_None: "first_error cs = None \<longleftrightarrow> list_all (\<lambda>c. c = None) cs"
  by (induction cs rule: first_error.induct) simp_all

lemma unless_None [simp]: "unless ok e = None \<longleftrightarrow> ok"
  by (simp add: unless_def)

lemma run_parsers_all:
  "run_parsers ps v = Inr v' \<Longrightarrow> list_all (\<lambda>p. \<exists>w. \<not> isl (p w)) ps"
proof (induction ps arbitrary: v)
  case (Cons p ps)
  then show ?case by (cases "p v") (auto intro!: exI [of _ v])
qed simp

subsection \<open>The default configuration\<close>

lemma default_floats:
  "rnd64 (1 / 2) = Fin (1 / 2)" "rnd64 (1 / 4) = Fin (1 / 4)"
  "\<exists>x. rnd64 (3 / 5) = Fin x \<and> 1 / 2 \<le> x \<and> x \<le> 7 / 8" "\<exists>x. rnd64 (4 / 5) = Fin x \<and> 1 / 2 \<le> x \<and> x \<le> 7 / 8"
proof -
  have f: "is_f64 (1 / 2)" "is_f64 (1 / 4)" "is_f64 (7 / 8)"
    using is_f64_div_pow2 [of 1 1] is_f64_div_pow2 [of 1 2] is_f64_div_pow2 [of 7 3] by simp_all
  show "rnd64 (1 / 2) = Fin (1 / 2)" "rnd64 (1 / 4) = Fin (1 / 4)" using f by (simp_all only: rnd64_exact)
  show "\<exists>x. rnd64 (3 / 5) = Fin x \<and> 1 / 2 \<le> x \<and> x \<le> 7 / 8"
    using rnd64_between [OF f(1,3), of "3 / 5"] by auto
  show "\<exists>x. rnd64 (4 / 5) = Fin x \<and> 1 / 2 \<le> x \<and> x \<le> 7 / 8"
    using rnd64_between [OF f(1,3), of "4 / 5"] by auto
qed

definition usable_url :: "full_url_parser \<Rightarrow> string \<Rightarrow> bool" where
  "usable_url parse s \<longleftrightarrow> (case parse s of None \<Rightarrow> False
     | Some u \<Rightarrow> pu_Host u \<noteq> [] \<and> (pu_Scheme u = ''http'' \<or> pu_Scheme u = ''https''))"

lemma Backend_Validate_usable: "bID b \<noteq> [] \<Longrightarrow> usable_url parse (bURL b) \<Longrightarrow> Backend_Validate (url_of parse) b = None"
  by (auto simp: Backend_Validate_def usable_url_def url_of_def split: option.splits)

definition loaded_default :: serving_Config where
  \<comment> \<open>the defaults with the namespace of the runtime queries filled in\<close>
  "loaded_default = DefaultConfig\<lparr>cf_Prometheus := (cf_Prometheus DefaultConfig)
     \<lparr>pmc_Runtime := (pmc_Runtime (cf_Prometheus DefaultConfig))\<lparr>rpq_Namespace := defaultEndpointNamespace\<rparr>\<rparr>\<rparr>"

lemma loaded_default_valid:
  assumes "usable_url parse defaultServiceURL"
  shows "serving_Config_Validate parse loaded_default = None"
proof -
  have b: "Backend_Validate (url_of parse) default_service = None"
    using assms by (intro Backend_Validate_usable) (simp_all add: default_service_def defaultServiceBackendID_def)
  obtain x y where x: "rnd64 (3 / 5) = Fin x" "1 / 2 \<le> x" "x \<le> 7 / 8" and y: "rnd64 (4 / 5) = Fin y" "1 / 2 \<le> y" "y \<le> 7 / 8"
    using default_floats(3,4) by blast
  have sec: "0 < Second" "0 < Minute" by (simp_all add: Second_def Minute_def)
  show ?thesis
    unfolding serving_Config_Validate_def first_error_None loaded_default_def DefaultConfig_def
    using b sec x(2,3) y(2,3)
    by (simp add: default_floats(1,2) x(1) y(1) gateway_Config_Validate_def Mode_Validate_def path_Config_Validate_def routing_Config_Validate_def
        circuit_Config_Validate_def admission_Config_Validate_def TuningConfig_Validate_def transport_Config_Validate_def
        discovery_Mode_Validate_def observation_Mode_Validate_def prediction_Config_Validate_def f_le_def
        ModeStatic_def ModeEndpointSlice_def ModeNone_def ModePrometheus_def ModeLoadAware_def ModeKVAware_def ModeSessionKey_def
        TuningMode_ok_def)
qed

text \<open>The values every parser yields when nothing is set are those of the default configuration.\<close>

definition default_values :: environmentValues where
  "default_values = (case run_parsers (environment_parsers (\<lambda>_. None) (\<lambda>_. []) DefaultConfig) zero_environmentValues of
     Inr v \<Rightarrow> v | Inl _ \<Rightarrow> zero_environmentValues)"

lemma parsers_unset:
  "run_parsers (environment_parsers parse_float (\<lambda>_. []) DefaultConfig) zero_environmentValues = Inr default_values"
  by (simp add: default_values_def environment_parsers_def DefaultConfig_def)

lemma loadEnvironmentValues_unset: "loadEnvironmentValues parse_float (\<lambda>_. []) DefaultConfig = Inr default_values"
proof -
  obtain x where x: "rnd64 (3 / 5) = Fin x" "1 / 2 \<le> x" "x \<le> 7 / 8" using default_floats(3) by blast
  have v: "ev_circuitAlpha default_values = Fin (1 / 2)" "ev_circuitError default_values = Fin x"
    "ev_circuitOpenDuration default_values = 10 * Second" "ev_maxRequestBody default_values = 2 * 2 ^ 20"
    "ev_observationRequestTimeout default_values = 5 * Second" "ev_runtimeCPUHardLimit default_values = Fin 0"
    "ev_runtimeMemoryHardLimit default_values = Fin 0" "ev_runtimeGPUUtilizationLimit default_values = Fin 0"
    "ev_runtimeGPUMemoryHardLimit default_values = Fin 0" "ev_runtimeGPUTemperatureLimit default_values = Fin 0"
    "ev_admissionInitialTarget default_values = 128" "ev_admissionMaxTarget default_values = 128" "ev_maxInflight default_values = 128"
    by (simp_all add: default_values_def environment_parsers_def DefaultConfig_def default_floats(1) x(1))
  have same: "default_values\<lparr>ev_admissionInitialTarget := 128\<rparr> = default_values" "default_values\<lparr>ev_admissionMaxTarget := 128\<rparr> = default_values"
    using v(11,12) by (cases default_values; simp)+
  show ?thesis
    using x(2,3) by (simp add: loadEnvironmentValues_def parsers_unset v same f_le_def Second_def)
qed

lemma csvValues_Nil [simp]: "csvValues [] = []"
  by (simp add: csvValues_def)

lemma buildConfig_unset:
  assumes "usable_url parse defaultServiceURL"
  shows "buildConfig parse (\<lambda>_. []) default_values DefaultConfig = Inr loaded_default"
proof -
  have b: "Backend_Validate (url_of parse) default_service = None"
    using assms by (intro Backend_Validate_usable) (simp_all add: default_service_def defaultServiceBackendID_def)
  show ?thesis
    using b
    by (simp add: buildConfig_def staticBackendsFromEnvironment_def Let_def loaded_default_def DefaultConfig_def default_values_def
        environment_parsers_def identityConfig_def default_service_def
        ModeStatic_def ModeEndpointSlice_def ModeLoadAware_def ModeKVAware_def)
qed

lemma load_unset:
  assumes "usable_url (ldr_parse l) defaultServiceURL"
  shows "LoadEnvironment l (\<lambda>_. []) = Inr loaded_default"
  using loaded_default_valid [OF assms]
  by (simp add: LoadEnvironment_def loadEnvironmentValues_unset buildConfig_unset [OF assms])
    (simp add: loaded_default_def DefaultConfig_def ModeLoadAware_def ModeKVAware_def)

text \<open>
  A process started with no variable set runs with the default configuration, and the default
  configuration is valid, as soon as the parser accepts the default service address: the only field that
  differs from \<open>DefaultConfig\<close> is the namespace of the runtime queries, which follows the discovery one.
\<close>

theorem defaults_load:
  assumes "usable_url (ldr_parse l) defaultServiceURL"
  shows "LoadEnvironment l (\<lambda>_. []) = Inr loaded_default"
  by (rule load_unset [OF assms])

definition wit_loader :: loader where
  "wit_loader = \<lparr>ldr_parse = (\<lambda>s. Some \<lparr>pu_Scheme = ''http'', pu_Host = s, pu_RawQuery = [], pu_Fragment = []\<rparr>),
     ldr_parse_float = (\<lambda>_. None), ldr_read_file = (\<lambda>_. None), ldr_decode = (\<lambda>_. None)\<rparr>"

lemma wit_loader_usable: "usable_url (ldr_parse wit_loader) defaultServiceURL"
  by (simp add: usable_url_def wit_loader_def defaultServiceURL_def)

theorem defaults_load_witness: "\<exists>c. LoadEnvironment wit_loader (\<lambda>_. []) = Inr c \<and> MaxInflight (cf_Admission c) = 128"
  using defaults_load [OF wit_loader_usable] by (simp add: loaded_default_def DefaultConfig_def)

subsection \<open>Malformed variables\<close>

definition duration_keys :: "string list" where
  "duration_keys = [envEndpointRefreshInterval, envEndpointMaxAge, envObservationInterval, envObservationMaxAge,
     envObservationRequestTimeout, envRequestTimeout, envShutdownTimeout, envSessionKeyTTL, envCircuitOpenDuration,
     envAdmissionTuningInterval, envAdmissionTuningCooldown]"

definition integer_keys :: "string list" where
  "integer_keys = [envMaxRequestBodyBytes, envSessionKeyMaxEntries, envMaxInflightRequests, envAdmissionInitialTarget,
     envAdmissionMinTarget, envAdmissionMaxTarget, envAdmissionTargetStep, envMaxConnsPerHost, envCircuitMinimumRequests,
     envSessionKeyInflightDelta, envKVAwareQueueTokenPenalty, envKVAwareRunningTokenPenalty, envKVAwareInflightTokenPenalty,
     envKVAwareShortPromptTokens, envKVAwareHardQueueDepth, envKVAwareHardLocalInflight]"

definition float_keys :: "string list" where
  "float_keys = [envSessionKeyQueueDepthDelta, envRuntimeCPUHardLimit, envRuntimeMemoryHardLimit, envRuntimeGPUUtilizationLimit,
     envRuntimeGPUMemoryHardLimit, envRuntimeGPUTemperatureLimit, envCircuitEWMAAlpha, envCircuitErrorThreshold]"

definition unset_or :: "(string \<Rightarrow> string) \<Rightarrow> (string \<Rightarrow> 'a option) \<Rightarrow> string \<Rightarrow> bool" where
  "unset_or env p key \<longleftrightarrow> TrimSpace (env key) = [] \<or> p (TrimSpace (env key)) \<noteq> None"

lemma assign_parsed:
  "\<not> isl (assignDuration env key n) \<Longrightarrow> unset_or env ParseDuration key"
  "\<not> isl (assignBool env key b) \<Longrightarrow> unset_or env ParseBool key"
  "\<not> isl (assignInt env key n pos) \<Longrightarrow> unset_or env Atoi key"
  "\<not> isl (assignInt64 env key n) \<Longrightarrow> unset_or env Atoi key"
  "\<not> isl (assignNonNegativeInt env key n) \<Longrightarrow> unset_or env Atoi key"
  "\<not> isl (assignNonNegativeInt64 env key n) \<Longrightarrow> unset_or env Atoi key"
  "\<not> isl (assignFloat parse_float env key x) \<Longrightarrow> unset_or env parse_float key"
  by (auto simp: unset_or_def assignDuration_def assignBool_def assignInt_def assignInt64_def assignNonNegativeInt_def
      assignNonNegativeInt64_def assignFloat_def Let_def split: option.splits if_splits)

lemma LoadEnvironment_cases:
  assumes "LoadEnvironment l env = Inr c"
  obtains v b p where "loadEnvironmentValues (ldr_parse_float l) env DefaultConfig = Inr v"
    and "buildConfig (ldr_parse l) env v DefaultConfig = Inr b" and "c = b\<lparr>cf_StaticProfile := p\<rparr>"
    and "serving_Config_Validate (ldr_parse l) c = None"
  using assms by (auto simp: LoadEnvironment_def Let_def split: sum.splits option.splits if_splits)

lemma loaded_parsers:
  assumes "LoadEnvironment l env = Inr c"
  shows "list_all (\<lambda>p. \<exists>w. \<not> isl (p w)) (environment_parsers (ldr_parse_float l) env DefaultConfig)"
proof -
  obtain v where "loadEnvironmentValues (ldr_parse_float l) env DefaultConfig = Inr v"
    using assms by (rule LoadEnvironment_cases)
  then have "\<exists>v'. run_parsers (environment_parsers (ldr_parse_float l) env DefaultConfig) zero_environmentValues = Inr v'"
    by (auto simp: loadEnvironmentValues_def split: sum.splits)
  then show ?thesis by (auto dest: run_parsers_all)
qed

text \<open>
  C34. A variable that is set but cannot be read never falls back to its default: when loading succeeds,
  every duration, integer, boolean and number variable is either unset or was parsed.
\<close>

theorem malformed_never_defaulted:
  assumes "LoadEnvironment l env = Inr c"
  shows "list_all (unset_or env ParseDuration) duration_keys \<and> list_all (unset_or env Atoi) integer_keys
    \<and> list_all (unset_or env (ldr_parse_float l)) float_keys \<and> unset_or env ParseBool envUpstreamKeepAlive"
  using loaded_parsers [OF assms]
  unfolding environment_parsers_def duration_keys_def integer_keys_def float_keys_def
  by (auto dest: assign_parsed)

theorem malformed_never_defaulted_witness:
  "list_all (unset_or (\<lambda>_. []) Atoi) integer_keys
   \<and> isl (LoadEnvironment wit_loader (\<lambda>k. if k = envMaxInflightRequests then ''12x'' else []))"
proof
  show "list_all (unset_or (\<lambda>_. []) Atoi) integer_keys"
    using malformed_never_defaulted [OF load_unset [OF wit_loader_usable]] by blast
  let ?env = "\<lambda>k. if k = envMaxInflightRequests then ''12x'' else []"
  have "TrimSpace ''12x'' = ''12x''" "Atoi ''12x'' = None" by code_simp+
  then have "\<not> list_all (unset_or ?env Atoi) integer_keys" by (simp add: integer_keys_def unset_or_def)
  then show "isl (LoadEnvironment wit_loader ?env)"
    using malformed_never_defaulted [of wit_loader ?env] by (cases "LoadEnvironment wit_loader ?env") auto
qed

subsection \<open>The profile's milliseconds\<close>

text \<open>
  The bound of \<open>milliseconds\<close> is not small enough: the largest value it admits is rounded up to
  \<open>2 ^ 63\<close> nanoseconds by the multiplication, which no \<open>time.Duration\<close> can hold.
\<close>

lemma boundary_product: "rnd64 (4722366482869645 / 512 * 1000000) = Fin 9223372036854775808"
proof -
  define x :: rat where "x = 4722366482869645 / 512 * 1000000"
  have "(2::rat) powi 62 = 4611686018427387904" "(2::rat) powi (62 + 1) = 9223372036854775808" by (simp_all add: power_int_def)
  then have "ilog2 x = 62" by (intro ilog2_unique) (simp_all add: x_def)
  moreover have "0 < x" by (simp add: x_def)
  ultimately have q: "qexp x = 10" by (simp add: qexp_def)
  have "\<lfloor>x / 1024\<rfloor> = 9007199254740991" by (simp add: x_def floor_eq_iff)
  then have "rne (x / 1024) = 9007199254740992" unfolding rne_def Let_def by (simp add: x_def)
  then have "rnd x = 9223372036854775808" using \<open>0 < x\<close> by (simp add: rnd_def q)
  then show ?thesis unfolding x_def [symmetric] by (simp add: rnd64_def Let_def)
qed

theorem milliseconds_boundary: "milliseconds (Fin (4722366482869645 / 512)) = Inr min_int64"
proof -
  let ?v = "4722366482869645 / 512 :: rat"
  have v: "is_f64 ?v" using is_f64_div_pow2 [of 4722366482869645 9] by simp
  have "is_f64 (2 ^ 43 + 2 ^ 42)" using is_f64_of_int [of "2 ^ 43 + 2 ^ 42"] by simp
  from rnd64_between [OF v this, of "2 ^ 63 / 1000000"]
  obtain y where "f_div (f_of_int max_int64) (f_of_int Millisecond) = Fin y" "?v \<le> y"
    by (auto simp: max_count f_of_int_exact Millisecond_def)
  then have "\<not> f_lt (f_div (f_of_int max_int64) (f_of_int Millisecond)) (Fin ?v)" by simp
  moreover have "f_mul (Fin ?v) (f_of_int Millisecond) = Fin 9223372036854775808"
    using boundary_product by (simp add: Millisecond_def f_of_int_exact)
  ultimately show ?thesis
    using round_away_int [of 9223372036854775808]
    by (simp add: milliseconds_def is_NaN_def is_Inf_def in_int64_def max_int64_def)
qed

end
