(* ===== verification/Composition.thy ===== *)
theory Composition
  imports Config_Loading KV_Service Transport
begin

text \<open>
  \<open>cmd/fishmesh-gateway/composition.go\<close>: how the process is put together from a configuration, with the
  construction of the Kubernetes client (\<open>internal/platform/kubernetes\<close>) and of the identity enricher.
  What the constructors read from outside is the record \<open>world\<close>: URL parsing, files, the first answer of
  the Kubernetes API, the outcome of creating the KV index. \<open>buildRuntime\<close> also returns the trail of the
  resources it opened and closed; \<open>acq\<close> is the set of fields of the runtime under construction that are
  not nil, which is what \<open>Close\<close> consults.
\<close>

subsection \<open>The world outside\<close>

record world =
  wd_parse :: full_url_parser
  wd_hostname :: "string \<Rightarrow> string option" \<comment> \<open>\<open>url.Parse\<close> followed by \<open>Hostname\<close>\<close>
  wd_read_file :: "string \<Rightarrow> string option"
  wd_has_pem :: "string \<Rightarrow> bool" \<comment> \<open>\<open>AppendCertsFromPEM\<close>\<close>
  wd_iterate :: "addressPort list \<Rightarrow> addressPort list"
  wd_env :: "string \<times> string"
  wd_now :: time
  wd_list :: "string + endpointSliceList"
  wd_store_error :: "string option" \<comment> \<open>the index of the KV cache library\<close>

datatype kube_error = ErrReadCA | ErrNoCertificate

definition kubernetes_NewHTTPClient :: "world \<Rightarrow> string \<Rightarrow> kube_error option" where
  "kubernetes_NewHTTPClient w caFile =
     (case wd_read_file w caFile of
        None \<Rightarrow> Some ErrReadCA
      | Some caBytes \<Rightarrow> if \<not> wd_has_pem w caBytes then Some ErrNoCertificate else None)"

datatype identity_error = ErrIdentityNamespace | ErrIdentityToken | ErrIdentityURL string | ErrIdentityClient kube_error

definition NewKubernetes :: "world \<Rightarrow> bool \<Rightarrow> identity_Config \<Rightarrow> identity_error + identity_Config" where
  \<comment> \<open>the enricher is its configuration; the boolean tells whether an HTTP client was injected\<close>
  "NewKubernetes w has_client config =
     (if TrimSpace (icf_Namespace config) = [] then Inl ErrIdentityNamespace
      else if TrimSpace (icf_TokenFile config) = [] then Inl ErrIdentityToken
      else
        let trimmed = TrimRightSlash (TrimSpace (icf_BaseURL config));
            baseURL = (if trimmed = [] then inClusterAPIURL (fst (wd_env w)) (snd (wd_env w)) else trimmed)
        in if (case url_of (wd_parse w) baseURL of None \<Rightarrow> True | Some (scheme, host) \<Rightarrow> scheme \<noteq> ''https'' \<or> host = [])
           then Inl (ErrIdentityURL baseURL)
           else (case (if \<not> has_client \<and> icf_CAFile config \<noteq> [] then kubernetes_NewHTTPClient w (icf_CAFile config) else None) of
                   Some e \<Rightarrow> Inl (ErrIdentityClient e)
                 | None \<Rightarrow> Inr (config\<lparr>icf_BaseURL := baseURL\<rparr>)))"

datatype startup_error =
    StValidate config_error
  | StKubeClient kube_error
  | StDiscovery discovery_error
  | StIdentity identity_error
  | StRuntimeCollector runtime_config_error
  | StObservations obs_error
  | StStrategy routing_error
  | StCircuit circuit_error
  | StAdmission admission_config_error
  | StTuner tuning_error
  | StRenderClient string
  | StTokenizer tok_config_error
  | StKVConfig kv_config_error
  | StKVStore string
  | StPredictor prediction_error
  | StEstimator profile_error
  | StPath path_error
  | StGateway

subsection \<open>The parts\<close>

definition kubernetesConfigs :: "world \<Rightarrow> serving_Config \<Rightarrow> startup_error option" where
  \<comment> \<open>the shared client is created for EndpointSlice discovery only\<close>
  "kubernetesConfigs w config =
     (let slice = dcf_EndpointSlice (cf_Discovery config)
      in if dcf_Mode (cf_Discovery config) \<noteq> ModeEndpointSlice then None
         else if ec_CAFile slice \<noteq> [] then map_option StKubeClient (kubernetes_NewHTTPClient w (ec_CAFile slice))
         else None)"

definition build_resolver :: "world \<Rightarrow> serving_Config \<Rightarrow> discovery_error + Resolver" where
  \<comment> \<open>the client is injected, so the resolver does not load the CA again\<close>
  "build_resolver w config =
     discovery_New (NewEndpointSlice (wd_iterate w) (url_of (wd_parse w)) (wd_env w) None (wd_now w) (wd_list w))
       (dcf_Mode (cf_Discovery config)) (dcf_Static (cf_Discovery config)) (dcf_EndpointSlice (cf_Discovery config))"

definition buildObservations :: "world \<Rightarrow> serving_Config \<Rightarrow> startup_error + obs_service option" where
  "buildObservations w config =
     (if cf_ObservationMode config \<noteq> ModePrometheus then Inr None
      else
        case (if dcf_Mode (cf_Discovery config) = ModeEndpointSlice
              then (case NewKubernetes w True (cf_Identity config) of Inl e \<Rightarrow> Some e | Inr _ \<Rightarrow> None) else None) of
          Some e \<Rightarrow> Inl (StIdentity e)
        | None \<Rightarrow>
          (let runtime = pmc_Runtime (cf_Prometheus config)
           in case (if rpq_Endpoint runtime \<noteq> [] then RuntimePrometheusConfig_Validate (url_of (wd_parse w)) runtime else None) of
                Some e \<Rightarrow> Inl (StRuntimeCollector e)
              | None \<Rightarrow>
                  (case obs_New (cf_Observation config) True of
                     Inl e \<Rightarrow> Inl (StObservations e) | Inr reader \<Rightarrow> Inr (Some reader))))"

record requestComponents =
  cmp_strategy :: Strategy
  cmp_breaker :: breaker
  cmp_admission :: controller
  cmp_tuner :: tuner
  cmp_pool :: pool
  cmp_metrics :: Metrics

definition buildRequestComponents :: "world \<Rightarrow> serving_Config \<Rightarrow> startup_error + requestComponents" where
  "buildRequestComponents w config =
     (case NewConfigured (url_of (wd_parse w)) (cf_Routing config) of Inl e \<Rightarrow> Inl (StStrategy e) | Inr strategy \<Rightarrow>
      (case circuit_New (cf_Circuit config) of Inl e \<Rightarrow> Inl (StCircuit e) | Inr breaker \<Rightarrow>
       (case admission_New (cf_Admission config) of Inl e \<Rightarrow> Inl (StAdmission e) | Inr controller \<Rightarrow>
        (case NewTuner (cf_AdmissionTuning config) (Some controller) True of Inl e \<Rightarrow> Inl (StTuner e) | Inr tuner \<Rightarrow>
           Inr \<lparr>cmp_strategy = strategy, cmp_breaker = breaker, cmp_admission = controller, cmp_tuner = tuner,
             cmp_pool = pool_New (cf_Transport config), cmp_metrics = NewMetrics\<rparr>))))"

definition newRenderHTTPClient :: "world \<Rightarrow> tok_Config \<Rightarrow> startup_error + http_client" where
  "newRenderHTTPClient w config =
     (case wd_hostname w (tc_BaseURL config) of
        None \<Rightarrow> Inl (StRenderClient (tc_BaseURL config))
      | Some host \<Rightarrow>
          if host = [] then Inl (StRenderClient (tc_BaseURL config))
          else Inr \<lparr>hc_DisableKeepAlives = False, hc_ForceAttemptHTTP2 = False, hc_MaxIdleConns = 16,
                 hc_MaxIdleConnsPerHost = 16, hc_MaxConnsPerHost = 16, hc_IdleConnTimeout = 90 * Second,
                 hc_ResponseHeaderTimeout = tc_Timeout config, hc_Timeout = tc_Timeout config\<rparr>)"

definition NewVLLM :: "world \<Rightarrow> kv_Config \<Rightarrow> startup_error + kv_service" where
  "NewVLLM w config =
     (case kv_Config_Validate config of
        Some e \<Rightarrow> Inl (StKVConfig e)
      | None \<Rightarrow> (case wd_store_error w of Some e \<Rightarrow> Inl (StKVStore e) | None \<Rightarrow> Inr (newService config)))"

definition gateway_New :: "gateway_Config \<Rightarrow> path_service \<Rightarrow> requestComponents \<Rightarrow> startup_error + Server" where
  "gateway_New config path components =
     (if \<not> gateway_Config_Validate config then Inl StGateway
      else Inr \<lparr>sv_config = config, sv_path = path, sv_admission = cmp_admission components,
             sv_transport = cmp_pool components, sv_metrics = cmp_metrics components\<rparr>)"

subsection \<open>The runtime\<close>

datatype resource = RTuner | RPath | RKVCache | RObservations | RResolver | RRenderClient | RTransport

datatype resource_event = Opened resource | Closed resource

definition runtime_Close :: "resource set \<Rightarrow> resource list" where
  \<comment> \<open>what \<open>Close\<close> closes, in this order\<close>
  "runtime_Close acq = filter (\<lambda>r. r \<in> acq) [RTuner, RPath, RKVCache, RObservations, RResolver, RRenderClient, RTransport]"

record gateway_runtime =
  gr_server :: Server
  gr_resolver :: Resolver
  gr_observations :: "obs_service option"
  gr_tuner :: tuner
  gr_tokenizer :: "tok_Config option"
  gr_kvCache :: "kv_service option"
  gr_acq :: "resource set"

definition abort :: "resource set \<Rightarrow> startup_error \<Rightarrow> resource_event list \<Rightarrow> resource_event list \<times> (startup_error + 'r)" where
  \<comment> \<open>\<open>assembled.Close(); return nil, err\<close>\<close>
  "abort acq err trail = (trail @ map Closed (runtime_Close acq), Inl err)"

definition build_path :: "world \<Rightarrow> serving_Config \<Rightarrow> Resolver \<Rightarrow> obs_service option \<Rightarrow> requestComponents \<Rightarrow>
    tok_Config option \<Rightarrow> kv_service option \<Rightarrow> resource set \<Rightarrow> resource_event list \<Rightarrow>
    resource_event list \<times> (startup_error + gateway_runtime)" where
  \<comment> \<open>steps 5 to 7 of \<open>buildRuntime\<close>\<close>
  "build_path w config resolver observations components tokenizer index acq trail =
     (case prediction_New (cf_Prediction config) of
        Inl e \<Rightarrow> abort acq (StPredictor e) trail
      | Inr predictor \<Rightarrow>
        (case (if rc_Mode (cf_Routing config) = ModeKVAware
                  \<and> EstimatorMode (rc_KVAware (cf_Routing config)) = KVAwareEstimatorStatic
               then (case NewStaticEstimator (cf_StaticProfile config) of Inl e \<Rightarrow> Inl e | Inr p \<Rightarrow> Inr (Some p))
               else Inr None) of
           Inl e \<Rightarrow> abort acq (StEstimator e) trail
         | Inr estimator \<Rightarrow>
           (case path_New (url_of (wd_parse w)) (cf_RequestPath config) True (tokenizer \<noteq> None \<and> index \<noteq> None)
                   (cmp_strategy components) (cmp_breaker components) (Some predictor) estimator of
              Inl e \<Rightarrow> abort acq (StPath e) trail
            | Inr path \<Rightarrow>
              let acq1 = insert RPath acq; trail1 = trail @ [Opened RPath]
              in case gateway_New (cf_Gateway config) path components of
                   Inl e \<Rightarrow> abort acq1 e trail1
                 | Inr server \<Rightarrow> (trail1, Inr \<lparr>gr_server = server, gr_resolver = resolver, gr_observations = observations,
                     gr_tuner = cmp_tuner components, gr_tokenizer = tokenizer, gr_kvCache = index, gr_acq = acq1\<rparr>))))"

definition build_kv :: "world \<Rightarrow> serving_Config \<Rightarrow> Resolver \<Rightarrow> obs_service option \<Rightarrow> requestComponents \<Rightarrow>
    resource set \<Rightarrow> resource_event list \<Rightarrow> resource_event list \<times> (startup_error + gateway_runtime)" where
  \<comment> \<open>step 4\<close>
  "build_kv w config resolver observations components acq trail =
     (if rc_Mode (cf_Routing config) \<noteq> ModeKVAware
      then build_path w config resolver observations components None None acq trail
      else
        case newRenderHTTPClient w (cf_Tokenization config) of
          Inl e \<Rightarrow> abort acq e trail
        | Inr _ \<Rightarrow>
          let acq1 = insert RRenderClient acq; trail1 = trail @ [Opened RRenderClient]
          in case NewVLLMRenderer (wd_parse w) (cf_Tokenization config) True of
               Inl e \<Rightarrow> abort acq1 (StTokenizer e) trail1
             | Inr tokenizer \<Rightarrow>
               (case NewVLLM w (cf_KVCache config) of
                  Inl e \<Rightarrow> abort acq1 e trail1
                | Inr index \<Rightarrow> build_path w config resolver observations components (Some tokenizer) (Some index)
                    (insert RKVCache acq1) (trail1 @ [Opened RKVCache])))"

definition buildRuntime :: "world \<Rightarrow> serving_Config \<Rightarrow> resource_event list \<times> (startup_error + gateway_runtime)" where
  "buildRuntime w config =
     (case serving_Config_Validate (wd_parse w) config of
        Some e \<Rightarrow> ([], Inl (StValidate e))
      | None \<Rightarrow>
        (case kubernetesConfigs w config of
           Some e \<Rightarrow> ([], Inl e)
         | None \<Rightarrow>
           (case build_resolver w config of
              Inl e \<Rightarrow> ([], Inl (StDiscovery e))
            | Inr resolver \<Rightarrow>
              let acq = {RResolver}; trail = [Opened RResolver]
              in case buildObservations w config of
                   Inl e \<Rightarrow> abort acq e trail
                 | Inr observations \<Rightarrow>
                   let acq1 = (if observations \<noteq> None then insert RObservations acq else acq);
                       trail1 = (if observations \<noteq> None then trail @ [Opened RObservations] else trail)
                   in case buildRequestComponents w config of
                        Inl e \<Rightarrow> abort acq1 e trail1
                      | Inr components \<Rightarrow>
                          build_kv w config resolver observations components
                            (insert RTuner (insert RTransport acq1)) (trail1 @ [Opened RTransport, Opened RTuner]))))"

subsection \<open>Instances of the KV cache\<close>

datatype kv_instance_error = ErrKVBackendURL string | ErrKVNoPodUID ID

definition kvInstance :: "(string \<Rightarrow> string option) \<Rightarrow> Backend \<Rightarrow> string \<Rightarrow> kv_instance_error + Instance" where
  "kvInstance hostname candidate model =
     (case hostname (bURL candidate) of
        None \<Rightarrow> Inl (ErrKVBackendURL (bURL candidate))
      | Some host \<Rightarrow>
          if host = [] then Inl (ErrKVBackendURL (bURL candidate))
          else
            let uid = mget [] (bMetadata candidate) MetadataPodUID
            in if uid = [] then Inl (ErrKVNoPodUID (bID candidate))
               else Inr \<lparr>in_Backend = bID candidate, in_PodUID = uid, in_PodIdentifier = JoinHostPort host (dec_int 8000),
                      in_Model = model, in_EventsEndpoint = ''tcp://'' @ JoinHostPort host (dec_int 5557),
                      in_ReplayEndpoint = ''tcp://'' @ JoinHostPort host (dec_int 5558)\<rparr>)"

definition kvAwareReconcile :: "(string \<Rightarrow> string option) \<Rightarrow> url_parser \<Rightarrow> 'st cacheStore \<Rightarrow> string \<Rightarrow> Backend list \<Rightarrow>
    kv_service \<Rightarrow> 'st \<Rightarrow> (kv_instance_error + kv_error) option \<times> kv_service \<times> 'st" where
  "kvAwareReconcile hostname url_parse store model backends s st =
     (case all_or_first (\<lambda>b. kvInstance hostname b model) backends of
        Inl e \<Rightarrow> (Some (Inl e), s, st)
      | Inr instances \<Rightarrow>
          (case kv_Reconcile url_parse store s st instances of (err, s', st') \<Rightarrow> (map_option Inr err, s', st')))"

subsection \<open>A failed start releases what it opened\<close>

definition opens :: "resource_event list \<Rightarrow> resource list" where
  "opens trail = concat (map (\<lambda>ev. case ev of Opened r \<Rightarrow> [r] | Closed _ \<Rightarrow> []) trail)"

definition closes :: "resource_event list \<Rightarrow> resource list" where
  "closes trail = concat (map (\<lambda>ev. case ev of Closed r \<Rightarrow> [r] | Opened _ \<Rightarrow> []) trail)"

lemma opens_simps [simp]:
  "opens [] = []" "opens (Opened r # t) = r # opens t" "opens (t @ t') = opens t @ opens t'" "opens (map Closed rs) = []"
  by (simp_all add: opens_def)

lemma closes_simps [simp]:
  "closes [] = []" "closes (Opened r # t) = closes t" "closes (t @ t') = closes t @ closes t'" "closes (map Closed rs) = rs"
  by (simp_all add: closes_def comp_def)

lemma set_runtime_Close [simp]: "set (runtime_Close acq) = acq"
proof -
  have all: "set [RTuner, RPath, RKVCache, RObservations, RResolver, RRenderClient, RTransport] = UNIV"
    by (rule UNIV_eq_I [THEN sym], rule resource.exhaust) auto
  show ?thesis unfolding runtime_Close_def set_filter all by simp
qed

lemma distinct_runtime_Close [simp]: "distinct (runtime_Close acq)"
  by (simp add: runtime_Close_def)

definition trail_ok :: "resource set \<Rightarrow> resource_event list \<Rightarrow> bool" where
  "trail_ok acq trail \<longleftrightarrow> closes trail = [] \<and> distinct (opens trail) \<and> set (opens trail) = acq"

definition released :: "resource_event list \<times> (startup_error + gateway_runtime) \<Rightarrow> bool" where
  "released out = (case out of
     (trail, Inl e) \<Rightarrow> distinct (opens trail) \<and> distinct (closes trail) \<and> set (closes trail) = set (opens trail)
   | (trail, Inr rt) \<Rightarrow> distinct (opens trail) \<and> closes trail = [] \<and> set (runtime_Close (gr_acq rt)) = set (opens trail))"

lemma trail_open: "trail_ok acq trail \<Longrightarrow> r \<notin> acq \<Longrightarrow> trail_ok (insert r acq) (trail @ [Opened r])"
  by (auto simp: trail_ok_def)

lemma released_abort: "trail_ok acq trail \<Longrightarrow> released (abort acq e trail)"
  by (simp add: released_def abort_def trail_ok_def)

lemma released_build_path:
  assumes "trail_ok acq trail" and "RPath \<notin> acq"
  shows "released (build_path w c resolver observations components tokenizer index acq trail)"
proof -
  have "released (trail @ [Opened RPath], Inr rt)" if "gr_acq rt = insert RPath acq" for rt
    using trail_open [OF assms] that by (simp add: released_def trail_ok_def)
  then show ?thesis
    using released_abort [OF assms(1)] released_abort [OF trail_open [OF assms]]
    by (simp add: build_path_def Let_def split: sum.split)
qed

lemma released_build_kv:
  assumes "trail_ok acq trail" and "RPath \<notin> acq" "RRenderClient \<notin> acq" "RKVCache \<notin> acq"
  shows "released (build_kv w c resolver observations components acq trail)"
proof -
  note o1 = trail_open [OF assms(1,3)]
  have o2: "trail_ok (insert RKVCache (insert RRenderClient acq)) ((trail @ [Opened RRenderClient]) @ [Opened RKVCache])"
    using assms(4) by (intro trail_open [OF o1]) simp
  show ?thesis
    using assms(2) released_abort [OF assms(1)] released_abort [OF o1] released_build_path [OF assms(1,2)]
      released_build_path [OF o2]
    by (simp add: build_kv_def Let_def split: sum.split)
qed

lemma released_buildRuntime: "released (buildRuntime w c)"
proof -
  have empty: "released ([], Inl e)" for e by (simp add: released_def)
  have o1: "trail_ok {RResolver} [Opened RResolver]" by (simp add: trail_ok_def)
  have o2: "trail_ok (insert RObservations {RResolver}) ([Opened RResolver] @ [Opened RObservations])"
    by (rule trail_open [OF o1]) simp
  have o3: "released (build_kv w c r b p (insert RTuner (insert RTransport acq)) (trail @ [Opened RTransport, Opened RTuner]))"
    if "trail_ok acq trail" "acq \<subseteq> {RResolver, RObservations}" for acq trail r b p
  proof (rule released_build_kv)
    show "trail_ok (insert RTuner (insert RTransport acq)) (trail @ [Opened RTransport, Opened RTuner])"
      using that by (auto simp: trail_ok_def)
  qed (use that in auto)
  show ?thesis
    by (cases "serving_Config_Validate (wd_parse w) c"; cases "kubernetesConfigs w c"; cases "build_resolver w c";
        cases "buildObservations w c"; cases "buildRequestComponents w c"; cases "projr (buildObservations w c) = None")
      (simp_all add: buildRuntime_def Let_def empty released_abort [OF o1] released_abort [OF o2, simplified]
        o3 [OF o1, simplified] o3 [OF o2, simplified])
qed

text \<open>
  A start that fails closes exactly the resources it had opened, each once; a start that succeeds
  closes none, and the \<open>Close\<close> of the runtime will close exactly what the start opened.
\<close>

theorem startup_releases:
  "case buildRuntime w config of
     (trail, Inl e) \<Rightarrow> distinct (closes trail) \<and> set (closes trail) = set (opens trail)
   | (trail, Inr rt) \<Rightarrow> closes trail = [] \<and> set (runtime_Close (gr_acq rt)) = set (opens trail)"
  using released_buildRuntime [of w config] by (auto simp: released_def split: prod.splits sum.splits)

subsection \<open>A validated configuration starts\<close>

text \<open>Where the start of a validated configuration can fail.\<close>

definition start_failure :: "world \<Rightarrow> serving_Config \<Rightarrow> startup_error \<Rightarrow> bool" where
  "start_failure w c e \<longleftrightarrow>
     kubernetesConfigs w c = Some e
     \<or> (\<exists>d. build_resolver w c = Inl d \<and> e = StDiscovery d)
     \<or> (\<exists>i. NewKubernetes w True (cf_Identity c) = Inl i \<and> e = StIdentity i \<and> dcf_Mode (cf_Discovery c) = ModeEndpointSlice
          \<and> \<not> isl (build_resolver w c))
     \<or> rc_Mode (cf_Routing c) = ModeKVAware
       \<and> (newRenderHTTPClient w (cf_Tokenization c) = Inl e \<or> (\<exists>m. wd_store_error w = Some m \<and> e = StKVStore m))"

lemma valid_parts:
  assumes "serving_Config_Validate parse c = None"
  shows "gateway_Config_Validate (cf_Gateway c)" "path_Config_Validate (url_of parse) (cf_RequestPath c) = None"
    "routing_Config_Validate (url_of parse) (cf_Routing c) = None" "circuit_Config_Validate (cf_Circuit c) = None"
    "admission_Config_Validate (cf_Admission c) = None"
    "TuningConfig_Validate (cf_AdmissionTuning c) (MaxInflight (cf_Admission c)) = None"
    "cf_ObservationMode c = ModePrometheus \<Longrightarrow> obs_Config_Validate (cf_Observation c) = None
       \<and> RuntimePrometheusConfig_Validate (url_of parse) (pmc_Runtime (cf_Prometheus c)) = None"
    "rc_Mode (cf_Routing c) = ModeKVAware \<Longrightarrow> kv_aware_checks parse c = None"
    "prediction_Config_Validate (cf_Prediction c) = None"
    "dcf_Mode (cf_Discovery c) = ModeStatic \<Longrightarrow> dcf_Static (cf_Discovery c) \<noteq> []"
  using assms unfolding serving_Config_Validate_def first_error_None
  by (simp_all add: first_error_None PrometheusConfig_Validate_def split: if_splits)

lemma components_built:
  assumes "serving_Config_Validate (wd_parse w) c = None"
  obtains p where "buildRequestComponents w c = Inr p"
    and "Strategy_Name (cmp_strategy p) = ModeKVAware \<longleftrightarrow> rc_Mode (cf_Routing c) = ModeKVAware"
proof -
  note v = valid_parts [OF assms]
  obtain st where st: "NewConfigured (url_of (wd_parse w)) (cf_Routing c) = Inr st"
      "Strategy_Name st = ModeKVAware \<longleftrightarrow> rc_Mode (cf_Routing c) = ModeKVAware"
    using v(3) by (auto simp: NewConfigured_def routing_Config_Validate_def Mode_Validate_def
        ModeRoundRobin_def ModeLoadBalanced_def ModeLoadAware_def ModeSessionKey_def ModeKVAware_def split: option.splits if_splits)
  obtain ctl where ctl: "admission_New (cf_Admission c) = Inr ctl" "ctl_cap ctl = MaxInflight (cf_Admission c)"
    using v(5) by (simp add: admission_New_def Let_def)
  obtain t where "NewTuner (cf_AdmissionTuning c) (Some ctl) True = Inr t"
    using v(6) ctl(2) by (simp add: NewTuner_def)
  then show thesis
    using that st ctl(1) v(4) by (simp add: buildRequestComponents_def circuit_New_def)
qed

lemma path_built:
  assumes v: "serving_Config_Validate (wd_parse w) c = None"
    and name: "Strategy_Name (cmp_strategy p) = ModeKVAware \<longleftrightarrow> rc_Mode (cf_Routing c) = ModeKVAware"
    and kv: "rc_Mode (cf_Routing c) = ModeKVAware \<Longrightarrow> tokenizer \<noteq> None \<and> index \<noteq> None"
  shows "\<exists>trail' rt. build_path w c resolver b p tokenizer index acq trail = (trail', Inr rt) \<and> gr_resolver rt = resolver
    \<and> sv_config (gr_server rt) = cf_Gateway c"
proof -
  note vs = valid_parts [OF v]
  obtain tr where tr: "prediction_New (cf_Prediction c) = Inr tr" using vs(9) by (simp add: prediction_New_def)
  have est: "\<exists>es. (if rc_Mode (cf_Routing c) = ModeKVAware \<and> EstimatorMode (rc_KVAware (cf_Routing c)) = KVAwareEstimatorStatic
       then (case NewStaticEstimator (cf_StaticProfile c) of Inl e \<Rightarrow> Inl e | Inr p \<Rightarrow> Inr (Some p)) else Inr None) = Inr es"
    using vs(8) by (auto simp: kv_aware_checks_def first_error_None NewStaticEstimator_def)
  then obtain es where es: "(if rc_Mode (cf_Routing c) = ModeKVAware \<and> EstimatorMode (rc_KVAware (cf_Routing c)) = KVAwareEstimatorStatic
       then (case NewStaticEstimator (cf_StaticProfile c) of Inl e \<Rightarrow> Inl e | Inr p \<Rightarrow> Inr (Some p)) else Inr None) = Inr es" by blast
  have "\<exists>path. path_New (url_of (wd_parse w)) (cf_RequestPath c) True (tokenizer \<noteq> None \<and> index \<noteq> None)
      (cmp_strategy p) (cmp_breaker p) (Some tr) es = Inr path"
    using vs(2) name kv by (auto simp: path_New_def dependencies_Validate_def)
  then show ?thesis using vs(1) unfolding build_path_def tr es by (auto simp: gateway_New_def Let_def)
qed

lemma observations_built:
  assumes v: "serving_Config_Validate (wd_parse w) c = None"
  shows "(\<exists>b. buildObservations w c = Inr b) \<or> (\<exists>i. buildObservations w c = Inl (StIdentity i)
      \<and> NewKubernetes w True (cf_Identity c) = Inl i \<and> dcf_Mode (cf_Discovery c) = ModeEndpointSlice)"
proof (cases "cf_ObservationMode c = ModePrometheus")
  case True
  then show ?thesis
    using valid_parts(7) [OF v True]
    by (cases "NewKubernetes w True (cf_Identity c)"; cases "dcf_Mode (cf_Discovery c) = ModeEndpointSlice")
      (simp_all add: buildObservations_def obs_New_def Let_def)
qed (simp add: buildObservations_def)

lemma kv_built:
  assumes v: "serving_Config_Validate (wd_parse w) c = None"
    and name: "Strategy_Name (cmp_strategy p) = ModeKVAware \<longleftrightarrow> rc_Mode (cf_Routing c) = ModeKVAware"
  shows "(\<exists>trail' rt. build_kv w c resolver b p acq trail = (trail', Inr rt) \<and> gr_resolver rt = resolver
      \<and> sv_config (gr_server rt) = cf_Gateway c)
    \<or> (rc_Mode (cf_Routing c) = ModeKVAware \<and> (\<exists>trail' e. build_kv w c resolver b p acq trail = (trail', Inl e) \<and> start_failure w c e))"
proof (cases "rc_Mode (cf_Routing c) = ModeKVAware")
  case False
  with path_built [OF v name, of None None] show ?thesis by (simp add: build_kv_def)
next
  case True
  have kv: "tok_Config_Validate (wd_parse w) (cf_Tokenization c) = None" "kv_Config_Validate (cf_KVCache c) = None"
    using valid_parts(8) [OF v True] by (simp_all add: kv_aware_checks_def first_error_None)
  then obtain tk where tk: "NewVLLMRenderer (wd_parse w) (cf_Tokenization c) True = Inr tk"
    by (simp add: NewVLLMRenderer_def)
  show ?thesis
  proof (cases "newRenderHTTPClient w (cf_Tokenization c)")
    case (Inl e)
    with True show ?thesis by (simp add: build_kv_def abort_def start_failure_def)
  next
    case (Inr client)
    show ?thesis
    proof (cases "NewVLLM w (cf_KVCache c)")
      case (Inl e)
      then have "\<exists>m. wd_store_error w = Some m \<and> e = StKVStore m" using kv(2) by (auto simp: NewVLLM_def split: option.splits)
      with True Inl Inr tk show ?thesis by (simp add: build_kv_def abort_def start_failure_def)
    next
      case (Inr index)
      with path_built [OF v name, of "Some tk" "Some index"] True \<open>newRenderHTTPClient w _ = _\<close> tk show ?thesis
        by (simp add: build_kv_def Let_def)
    qed
  qed
qed

lemma valid_config_starts:
  assumes v: "serving_Config_Validate (wd_parse w) c = None"
  shows "(\<exists>trail rt r. buildRuntime w c = (trail, Inr rt) \<and> build_resolver w c = Inr r \<and> gr_resolver rt = r
      \<and> sv_config (gr_server rt) = cf_Gateway c)
    \<or> (\<exists>trail e. buildRuntime w c = (trail, Inl e) \<and> start_failure w c e
        \<and> (dcf_Mode (cf_Discovery c) = ModeStatic \<longrightarrow> isl (build_resolver w c)))"
proof -
  obtain p where p: "buildRequestComponents w c = Inr p"
    "Strategy_Name (cmp_strategy p) = ModeKVAware \<longleftrightarrow> rc_Mode (cf_Routing c) = ModeKVAware"
    using components_built [OF v] by blast
  have static: "rc_Mode (cf_Routing c) \<noteq> ModeKVAware" "dcf_Mode (cf_Discovery c) \<noteq> ModeEndpointSlice"
    if "dcf_Mode (cf_Discovery c) = ModeStatic"
    using that valid_parts(8) [OF v] by (auto simp: kv_aware_checks_def first_error_None ModeStatic_def ModeEndpointSlice_def)
  show ?thesis
  proof (cases "kubernetesConfigs w c")
    case (Some e)
    then have "dcf_Mode (cf_Discovery c) = ModeEndpointSlice"
      by (auto simp: kubernetesConfigs_def Let_def split: if_splits)
    then show ?thesis using v Some by (auto simp: buildRuntime_def start_failure_def ModeStatic_def ModeEndpointSlice_def)
  next
    case None
    show ?thesis
    proof (cases "build_resolver w c")
      case (Inl e)
      then show ?thesis using v None by (simp add: buildRuntime_def start_failure_def)
    next
      case (Inr r)
      note built = Inr
      from observations_built [OF v] show ?thesis
      proof (elim disjE exE conjE)
        fix i assume i: "buildObservations w c = Inl (StIdentity i)" "NewKubernetes w True (cf_Identity c) = Inl i"
          and m: "dcf_Mode (cf_Discovery c) = ModeEndpointSlice"
        then show ?thesis
          using v None built static by (auto simp: buildRuntime_def abort_def start_failure_def ModeStatic_def ModeEndpointSlice_def)
      next
        fix b assume b: "buildObservations w c = Inr b"
        let ?acq = "insert RTuner (insert RTransport (if b \<noteq> None then insert RObservations {RResolver} else {RResolver}))"
        let ?trail = "(if b \<noteq> None then [Opened RResolver] @ [Opened RObservations] else [Opened RResolver]) @ [Opened RTransport, Opened RTuner]"
        have run: "buildRuntime w c = build_kv w c r b p ?acq ?trail"
          unfolding buildRuntime_def Let_def by (simp only: v None built b p(1) option.case sum.case)
        from kv_built [OF v p(2), of r b ?acq ?trail] built static show ?thesis unfolding run by blast
      qed
    qed
  qed
qed

lemma validated_same: "validated url_parse bs = Inr bs' \<Longrightarrow> bs' = bs"
  by (induction bs arbitrary: bs') (auto split: option.splits sum.splits)

lemma listed_backends:
  assumes "staticBackendsFromEnvironment url_parse env = Inr bs"
  shows "list_all (\<lambda>b. bID b \<noteq> [] \<and> bURL b \<noteq> []) bs"
proof -
  have "bs = map (\<lambda>(index, rawURL). \<lparr>bID = ''backend-'' @ dec_nat index, bURL = rawURL, bMetadata = []\<rparr>)
      (zip [0..<length (csvValues (env envBackendEndpoints))] (csvValues (env envBackendEndpoints)))"
    using assms by (auto simp: staticBackendsFromEnvironment_def Let_def dest: validated_same)
  then show ?thesis by (auto simp: list_all_iff csvValues_def dest!: set_zip_rightD)
qed

lemma service_named: "valueOrDefault env key (bURL default_service) \<noteq> []"
  by (simp add: valueOrDefault_def Let_def default_service_def defaultServiceURL_def)

lemma loaded_static:
  assumes "LoadEnvironment l env = Inr c"
  shows "list_all (\<lambda>b. bID b \<noteq> [] \<and> bURL b \<noteq> []) (dcf_Static (cf_Discovery c))"
proof -
  obtain v b p where b: "buildConfig (ldr_parse l) env v DefaultConfig = Inr b" and c: "c = b\<lparr>cf_StaticProfile := p\<rparr>"
    using assms by (rule LoadEnvironment_cases)
  have service: "rpc_Service (cf_RequestPath DefaultConfig) = default_service" by (simp add: DefaultConfig_def)
  obtain listed where l: "staticBackendsFromEnvironment (url_of (ldr_parse l)) env = Inr listed"
      "dcf_Static (cf_Discovery b) = listed \<or>
       dcf_Static (cf_Discovery b) = [default_service\<lparr>bURL := valueOrDefault env envUpstreamURL (bURL default_service)\<rparr>]"
    using b by (auto simp: buildConfig_def Let_def service split: option.splits sum.splits)
  then show ?thesis
    using listed_backends [OF l(1)] service_named [of env envUpstreamURL]
    by (auto simp: c default_service_def defaultServiceBackendID_def)
qed

lemma static_resolver:
  assumes "dcf_Mode (cf_Discovery c) = ModeStatic" and "dcf_Static (cf_Discovery c) \<noteq> []"
    and "list_all (\<lambda>b. bID b \<noteq> [] \<and> bURL b \<noteq> []) (dcf_Static (cf_Discovery c))"
  shows "build_resolver w c = Inr (StaticResolver (dcf_Static (cf_Discovery c)))"
  using assms by (auto simp: build_resolver_def discovery_New_def NewStatic_def list_ex_iff list_all_iff)

subsection \<open>Why a loaded configuration can fail to start\<close>

lemma space_prefix_0:
  assumes "[] \<notin> set sp"
  shows "space_prefix sp s = 0 \<longleftrightarrow> (\<forall>p \<in> set sp. \<not> starts_with p (map of_char s))"
proof (cases "find (\<lambda>p. starts_with p (map of_char s)) sp")
  case None
  then have "\<forall>p \<in> set sp. \<not> starts_with p (map of_char s)" by (auto simp: find_None_iff)
  with None show ?thesis by (simp add: space_prefix_def)
next
  case (Some p)
  then have "p \<in> set sp" "starts_with p (map of_char s)" by (auto simp: find_Some_iff)
  then show ?thesis using assms Some by (auto simp: space_prefix_def)
qed

lemma space_prefix_app: "[] \<notin> set sp \<Longrightarrow> space_prefix sp (u @ t) = 0 \<Longrightarrow> space_prefix sp u = 0"
  by (auto simp: space_prefix_0 starts_with_def)

lemma trim_front_done: "trim_front sp t = [] \<or> space_prefix sp (trim_front sp t) = 0"
proof (induction sp t rule: trim_front.induct)
  case (1 sp s)
  then show ?case by (cases "space_prefix sp s = 0 \<or> s = []") (auto simp: trim_front.simps [of sp s] Let_def)
qed

lemma trim_front_suffix: "\<exists>cut. t = cut @ trim_front sp t"
proof (induction sp t rule: trim_front.induct)
  case (1 sp s)
  show ?case
  proof (cases "space_prefix sp s = 0 \<or> s = []")
    case True
    then show ?thesis by (auto simp: trim_front.simps [of sp s] Let_def)
  next
    case False
    then obtain cut where "drop (space_prefix sp s) s = cut @ trim_front sp (drop (space_prefix sp s) s)" using "1.IH" by auto
    then have "s = (take (space_prefix sp s) s @ cut) @ trim_front sp (drop (space_prefix sp s) s)" by (metis append_assoc append_take_drop_id)
    moreover have "trim_front sp s = trim_front sp (drop (space_prefix sp s) s)" using False by (simp add: trim_front.simps [of sp s] Let_def)
    ultimately show ?thesis by metis
  qed
qed

lemma TrimSpace_TrimSpace: "TrimSpace (TrimSpace s) = TrimSpace s"
proof -
  let ?t = "trim_front utf8_spaces s" and ?r = "trim_front (map rev utf8_spaces) (rev (trim_front utf8_spaces s))"
  have keep: "trim_front sp x = x" if "x = [] \<or> space_prefix sp x = 0" for sp x using that by (auto simp: trim_front.simps [of sp x] Let_def)
  obtain cut where "rev ?t = cut @ ?r" using trim_front_suffix by blast
  then have t: "?t = rev ?r @ rev cut" by (metis rev_append rev_rev_ident)
  have "[] \<notin> set utf8_spaces" by (simp add: utf8_spaces_def)
  then have "rev ?r = [] \<or> space_prefix utf8_spaces (rev ?r) = 0"
    using trim_front_done [of utf8_spaces s] space_prefix_app [of utf8_spaces "rev ?r" "rev cut"] t by force
  then have "trim_front utf8_spaces (rev ?r) = rev ?r" by (rule keep)
  moreover have "trim_front (map rev utf8_spaces) ?r = ?r" by (rule keep, rule trim_front_done)
  ultimately show ?thesis by (simp add: TrimSpace_def)
qed

lemma value_named: "TrimSpace fallback \<noteq> [] \<Longrightarrow> TrimSpace (valueOrDefault env key fallback) \<noteq> []"
  by (simp add: valueOrDefault_def Let_def TrimSpace_TrimSpace)

lemma loaded_slice:
  assumes "LoadEnvironment l env = Inr c"
  defines "sl \<equiv> dcf_EndpointSlice (cf_Discovery c)"
  shows "TrimSpace (ec_Namespace sl) \<noteq> []" "TrimSpace (ec_ServiceName sl) \<noteq> []" "TrimSpace (ec_TokenFile sl) \<noteq> []"
    and "cf_Identity c = \<lparr>icf_Namespace = ec_Namespace sl, icf_BaseURL = ec_BaseURL sl, icf_TokenFile = ec_TokenFile sl,
      icf_CAFile = ec_CAFile sl\<rparr>"
proof -
  obtain v b p where b: "buildConfig (ldr_parse l) env v DefaultConfig = Inr b" and c: "c = b\<lparr>cf_StaticProfile := p\<rparr>"
    using assms(1) by (rule LoadEnvironment_cases)
  have names: "TrimSpace defaultEndpointNamespace \<noteq> []" "TrimSpace defaultEndpointService \<noteq> []" "TrimSpace defaultKubernetesTokenFile \<noteq> []"
    by code_simp+
  have defaults: "ec_Namespace (dcf_EndpointSlice (cf_Discovery DefaultConfig)) = defaultEndpointNamespace"
    "ec_ServiceName (dcf_EndpointSlice (cf_Discovery DefaultConfig)) = defaultEndpointService"
    "ec_TokenFile (dcf_EndpointSlice (cf_Discovery DefaultConfig)) = defaultKubernetesTokenFile"
    by (simp_all add: DefaultConfig_def)
  from b obtain ns sv api tok ca iv where "dcf_EndpointSlice (cf_Discovery b) =
      \<lparr>ec_Namespace = ns, ec_ServiceName = sv, ec_BaseURL = api, ec_TokenFile = tok, ec_CAFile = ca, ec_RefreshInterval = iv\<rparr>"
    "cf_Identity b = \<lparr>icf_Namespace = ns, icf_BaseURL = api, icf_TokenFile = tok, icf_CAFile = ca\<rparr>"
    "ns = valueOrDefault env envEndpointNamespace defaultEndpointNamespace" "sv = valueOrDefault env envEndpointService defaultEndpointService"
    "tok = valueOrDefault env envKubernetesTokenFile defaultKubernetesTokenFile"
    unfolding buildConfig_def Let_def defaults by (auto split: option.splits sum.splits)
  then show "TrimSpace (ec_Namespace sl) \<noteq> []" "TrimSpace (ec_ServiceName sl) \<noteq> []" "TrimSpace (ec_TokenFile sl) \<noteq> []"
    "cf_Identity c = \<lparr>icf_Namespace = ec_Namespace sl, icf_BaseURL = ec_BaseURL sl, icf_TokenFile = ec_TokenFile sl,
      icf_CAFile = ec_CAFile sl\<rparr>"
    using names by (simp_all add: sl_def c value_named)
qed

definition kubernetes_url :: "world \<Rightarrow> serving_Config \<Rightarrow> string" where
  \<comment> \<open>the configured URL of the Kubernetes API, or that of the cluster the process runs in\<close>
  "kubernetes_url w c =
     (let trimmed = TrimRightSlash (TrimSpace (ec_BaseURL (dcf_EndpointSlice (cf_Discovery c))))
      in if trimmed = [] then inClusterAPIURL (fst (wd_env w)) (snd (wd_env w)) else trimmed)"

definition https_url :: "world \<Rightarrow> string \<Rightarrow> bool" where
  "https_url w u \<longleftrightarrow> (case url_of (wd_parse w) u of None \<Rightarrow> False | Some (scheme, host) \<Rightarrow> scheme = ''https'' \<and> host \<noteq> [])"

lemma not_https_url:
  "(case url_of (wd_parse w) u of None \<Rightarrow> True | Some (scheme, host) \<Rightarrow> scheme \<noteq> ''https'' \<or> host = []) \<longleftrightarrow> \<not> https_url w u"
  by (simp add: https_url_def split: option.split)

lemmas kubernetes_url_eq = kubernetes_url_def [unfolded Let_def, symmetric]

fun start_cause :: "world \<Rightarrow> serving_Config \<Rightarrow> startup_error \<Rightarrow> bool" where
  "start_cause w c (StKubeClient e) \<longleftrightarrow> kubernetes_NewHTTPClient w (ec_CAFile (dcf_EndpointSlice (cf_Discovery c))) = Some e"
| "start_cause w c (StDiscovery (ErrAPI m)) \<longleftrightarrow> wd_list w = Inl m"
| "start_cause w c (StDiscovery ErrNoReady) \<longleftrightarrow> (\<exists>lst. wd_list w = Inr lst \<and> buildBackends (wd_iterate w) (el_Items lst) = [])"
| "start_cause w c (StKVStore m) \<longleftrightarrow> wd_store_error w = Some m"
| "start_cause w c (StDiscovery (ErrAPIURL u)) \<longleftrightarrow> u = kubernetes_url w c \<and> \<not> https_url w u"
| "start_cause w c (StRenderClient u) \<longleftrightarrow> u = tc_BaseURL (cf_Tokenization c) \<and> wd_hostname w u \<in> {None, Some []}"
| "start_cause w c _ \<longleftrightarrow> False"

lemma slice_resolver_cases:
  assumes "LoadEnvironment l env = Inr c" and "dcf_Mode (cf_Discovery c) = ModeEndpointSlice"
    and "0 < ec_RefreshInterval (dcf_EndpointSlice (cf_Discovery c))"
  shows "case build_resolver w c of Inl d \<Rightarrow> start_cause w c (StDiscovery d) | Inr r \<Rightarrow> https_url w (kubernetes_url w c)"
proof -
  note names = loaded_slice(1-3) [OF assms(1)]
  have mode: "ModeEndpointSlice \<noteq> []" "ModeEndpointSlice \<noteq> ModeStatic" by (simp_all add: ModeEndpointSlice_def ModeStatic_def)
  show ?thesis
    using assms(2,3) names mode
    unfolding build_resolver_def discovery_New_def NewEndpointSlice_def discovery_refresh_def Let_def kubernetes_url_eq not_https_url
    by (auto split: sum.splits)
qed

lemma loaded_cause:
  assumes "LoadEnvironment l env = Inr c" and "ldr_parse l = wd_parse w" and "start_failure w c e"
    and "dcf_Mode (cf_Discovery c) = ModeEndpointSlice"
  shows "start_cause w c e"
proof -
  have "serving_Config_Validate (wd_parse w) c = None" using assms(1,2) by (metis LoadEnvironment_cases)
  then have "0 < ec_RefreshInterval (dcf_EndpointSlice (cf_Discovery c))"
    using assms(4) unfolding serving_Config_Validate_def first_error_None by (simp add: Let_def split: if_splits)
  note slice = slice_resolver_cases [OF assms(1,4) this, of w]
  note id = loaded_slice [OF assms(1)]
  from assms(3) [unfolded start_failure_def] show ?thesis
  proof (elim disjE exE conjE)
    assume "kubernetesConfigs w c = Some e"
    then show ?thesis by (auto simp: kubernetesConfigs_def Let_def split: if_splits)
  next
    fix d assume "build_resolver w c = Inl d" "e = StDiscovery d"
    then show ?thesis using slice by simp
  next
    fix i assume i: "NewKubernetes w True (cf_Identity c) = Inl i" and "\<not> isl (build_resolver w c)"
    then have "https_url w (kubernetes_url w c)" using slice by (cases "build_resolver w c") simp_all
    with id(1,3) have "NewKubernetes w True (cf_Identity c) = Inr ((cf_Identity c)\<lparr>icf_BaseURL := kubernetes_url w c\<rparr>)"
      unfolding NewKubernetes_def Let_def id(4) identity_Config.select_convs kubernetes_url_eq not_https_url by simp
    with i show ?thesis by simp
  next
    assume "newRenderHTTPClient w (cf_Tokenization c) = Inl e"
    then show ?thesis by (auto simp: newRenderHTTPClient_def split: option.splits if_splits)
  qed simp
qed

text \<open>
  C33. Why a configuration that was loaded from the environment can fail to start: with a static backend list
  it never does, and the resolver serves that list. With EndpointSlice discovery the start fails for no
  other reason than these: the CA file cannot be read or holds no certificate, the first list call of the
  Kubernetes API fails or names no ready endpoint, the KV index cannot be created, and two configured
  values that the validation does not look at: an API URL (or, when none is set, that of the cluster variables)
  that is not an absolute HTTPS URL, and a render
  URL without a host name. The error names the cause.
\<close>

theorem loaded_config_starts:
  assumes "LoadEnvironment l env = Inr config" and "ldr_parse l = wd_parse w"
  shows "case snd (buildRuntime w config) of
      Inl e \<Rightarrow> start_cause w config e \<and> dcf_Mode (cf_Discovery config) = ModeEndpointSlice
    | Inr rt \<Rightarrow> sv_config (gr_server rt) = cf_Gateway config
        \<and> (dcf_Mode (cf_Discovery config) = ModeStatic \<longrightarrow> Resolver_Snapshot (gr_resolver rt) = dcf_Static (cf_Discovery config))"
proof -
  have v: "serving_Config_Validate (wd_parse w) config = None"
    using assms by (metis LoadEnvironment_cases)
  have static: "build_resolver w config = Inr (StaticResolver (dcf_Static (cf_Discovery config)))"
    if "dcf_Mode (cf_Discovery config) = ModeStatic"
    using that valid_parts(10) [OF v that] loaded_static [OF assms(1)] by (rule static_resolver)
  have mode: "dcf_Mode (cf_Discovery config) = ModeStatic \<or> dcf_Mode (cf_Discovery config) = ModeEndpointSlice"
    using v unfolding serving_Config_Validate_def first_error_None by (simp add: discovery_Mode_Validate_def split: if_splits)
  from valid_config_starts [OF v] show ?thesis
  proof (elim disjE exE conjE)
    fix trail e assume f: "buildRuntime w config = (trail, Inl e)" "start_failure w config e"
      "dcf_Mode (cf_Discovery config) = ModeStatic \<longrightarrow> isl (build_resolver w config)"
    then have m: "dcf_Mode (cf_Discovery config) = ModeEndpointSlice" using static mode by auto
    with f loaded_cause [OF assms f(2) m] show ?thesis by simp
  next
    fix trail rt r assume "buildRuntime w config = (trail, Inr rt)" "build_resolver w config = Inr r" "gr_resolver rt = r"
      "sv_config (gr_server rt) = cf_Gateway config"
    then show ?thesis using static by auto
  qed
qed

text \<open>
  The validation lets an API URL through that the start then refuses: whenever such a configuration loads and
  its CA file is fine, the process does not start, whatever the Kubernetes API would answer.
\<close>

theorem unchecked_api_url:
  assumes "LoadEnvironment l env = Inr config" and "ldr_parse l = wd_parse w"
    and "dcf_Mode (cf_Discovery config) = ModeEndpointSlice" and "kubernetesConfigs w config = None"
    and "\<not> https_url w (kubernetes_url w config)"
  shows "snd (buildRuntime w config) = Inl (StDiscovery (ErrAPIURL (kubernetes_url w config)))"
proof -
  have v: "serving_Config_Validate (wd_parse w) config = None" using assms(1,2) by (metis LoadEnvironment_cases)
  note names = loaded_slice(1-3) [OF assms(1)]
  have mode: "ModeEndpointSlice \<noteq> []" "ModeEndpointSlice \<noteq> ModeStatic" by (simp_all add: ModeEndpointSlice_def ModeStatic_def)
  have "build_resolver w config = Inl (ErrAPIURL (kubernetes_url w config))"
    using assms(3,5) names mode
    unfolding build_resolver_def discovery_New_def NewEndpointSlice_def Let_def kubernetes_url_eq not_https_url by simp
  then show ?thesis using v assms(4) by (simp add: buildRuntime_def)
qed

definition wit_world :: world where
  "wit_world = \<lparr>wd_parse = ldr_parse wit_loader, wd_hostname = (\<lambda>_. None), wd_read_file = (\<lambda>_. None), wd_has_pem = (\<lambda>_. False),
     wd_iterate = (\<lambda>ks. ks), wd_env = ([], []), wd_now = 0, wd_list = Inl [], wd_store_error = None\<rparr>"

theorem loaded_config_starts_witness:
  "\<exists>rt. snd (buildRuntime wit_world loaded_default) = Inr rt \<and> Resolver_Snapshot (gr_resolver rt) = [default_service]"
proof -
  have "ldr_parse wit_loader = wd_parse wit_world" by (simp add: wit_world_def)
  moreover have "dcf_Mode (cf_Discovery loaded_default) = ModeStatic" "dcf_Static (cf_Discovery loaded_default) = [default_service]"
    by (simp_all add: loaded_default_def DefaultConfig_def)
  ultimately show ?thesis
    using loaded_config_starts [OF load_unset [OF wit_loader_usable], of wit_world]
    by (cases "snd (buildRuntime wit_world loaded_default)") (auto simp: ModeStatic_def ModeEndpointSlice_def)
qed

subsection \<open>Instances\<close>

lemma kvInstance_fields:
  assumes "kvInstance hostname b model = Inr inst"
  obtains host where "hostname (bURL b) = Some host" and "host \<noteq> []" and "in_Backend inst = bID b"
    and "in_PodUID inst = mget [] (bMetadata b) MetadataPodUID" and "in_PodUID inst \<noteq> []"
    and "in_PodIdentifier inst = JoinHostPort host (dec_int 8000)"
    and "in_EventsEndpoint inst = ''tcp://'' @ JoinHostPort host (dec_int 5557)"
    and "in_ReplayEndpoint inst = ''tcp://'' @ JoinHostPort host (dec_int 5558)"
  using assms by (auto simp: kvInstance_def Let_def split: option.splits if_splits)

text \<open>
  Two backends of different hosts get instances that share neither the Pod identifier nor an endpoint,
  and the two endpoints of one instance differ.
\<close>

theorem kv_instances_separate:
  assumes "kvInstance hostname a model = Inr x" and "kvInstance hostname b model = Inr y"
    and "hostname (bURL a) \<noteq> hostname (bURL b)"
  shows "in_PodIdentifier x \<noteq> in_PodIdentifier y \<and> in_EventsEndpoint x \<noteq> in_EventsEndpoint y
    \<and> in_ReplayEndpoint x \<noteq> in_ReplayEndpoint y \<and> in_EventsEndpoint x \<noteq> in_ReplayEndpoint x"
proof -
  obtain h where h: "hostname (bURL a) = Some h" "in_PodIdentifier x = JoinHostPort h (dec_int 8000)"
    "in_EventsEndpoint x = ''tcp://'' @ JoinHostPort h (dec_int 5557)" "in_ReplayEndpoint x = ''tcp://'' @ JoinHostPort h (dec_int 5558)"
    using assms(1) by (rule kvInstance_fields)
  obtain k where k: "hostname (bURL b) = Some k" "in_PodIdentifier y = JoinHostPort k (dec_int 8000)"
    "in_EventsEndpoint y = ''tcp://'' @ JoinHostPort k (dec_int 5557)" "in_ReplayEndpoint y = ''tcp://'' @ JoinHostPort k (dec_int 5558)"
    using assms(2) by (rule kvInstance_fields)
  have "h \<noteq> k" using assms(3) h(1) k(1) by auto
  then show ?thesis unfolding h k by (auto dest: JoinHostPort_inj)
qed

end
