(* ===== verification/Llmd.thy ===== *)
theory Llmd
  imports Go_Parse Gateway_Metrics
begin

text \<open>
  \<open>internal/serving/llmd\<close>: the plugin that lets the llm-d endpoint picker use the session-key strategy.
  An endpoint of llm-d is an abstract value; \<open>view\<close> reads what the plugin reads of it (its metadata, one
  attribute, its metrics) and is \<open>None\<close> for a nil endpoint. A stored in-flight load is a non-nil pointer.
  The request carries headers and attributes, and \<open>Score\<close> returns it with the attribute it puts. The text
  of the data key of the in-flight load is computed by llm-d from the producer name and is an argument.

  The lemmas follow the translation of a list of endpoints into a routing snapshot: its backends are those
  of the endpoints \<open>Filter\<close> keeps, the lookup table leads from each backend back to the first endpoint that
  has it, and hence a score marks an endpoint that \<open>Filter\<close> accepts.
\<close>

subsection \<open>Endpoints and requests of llm-d\<close>

record EndpointMetadata =
  emd_Address :: string
  emd_Port :: string
  emd_PodName :: string
  emd_Name :: string \<comment> \<open>\<open>NamespacedName.Name\<close>\<close>

record EndpointMetrics =
  emt_UpdateTime :: time
  emt_WaitingQueueSize :: int

datatype attribute = InFlightLoad int | OtherValue

record endpoint_view =
  ev_metadata :: "EndpointMetadata option"
  ev_Get :: "string \<Rightarrow> attribute option"
  ev_metrics :: "EndpointMetrics option"

datatype request_attribute = DecisionRecord Decision | OtherAttribute

record InferenceRequest =
  ir_Headers :: "(string, string) gomap"
  ir_attributes :: "(string, request_attribute) gomap"

datatype llmd_error =
    ErrEndpointNil
  | ErrEndpointMetadataNil
  | ErrEndpointAddress string string
  | ErrInflightMissing
  | ErrInflightInvalid
  | ErrPluginName
  | ErrSessionKeyHeader
  | ErrMetricsMaxAge
  | ErrLlmdSessionKey routing_error
  | ErrDecodeParameters
  | ErrParseMetricsMaxAge string
  | ErrParseSessionKeyTTL string

subsection \<open>Translation into routing input\<close>

definition observationSource :: string where
  "observationSource = ''llm-d''"

definition metadata_address :: "EndpointMetadata \<Rightarrow> (string \<times> int) option" where
  \<comment> \<open>the address and the port that \<open>backendFromMetadata\<close> and \<open>servedBackendID\<close> accept\<close>
  "metadata_address m =
     (let address = TrimSpace (emd_Address m)
      in case Atoi (TrimSpace (emd_Port m)) of
           None \<Rightarrow> None
         | Some port \<Rightarrow> if address = [] \<or> port \<le> 0 \<or> port > 65535 then None else Some (address, port))"

definition backendFromMetadata :: "endpoint_view \<Rightarrow> llmd_error + Backend" where
  "backendFromMetadata endpoint =
     (case ev_metadata endpoint of
        None \<Rightarrow> Inl ErrEndpointMetadataNil
      | Some m \<Rightarrow>
          (case metadata_address m of
             None \<Rightarrow> Inl (ErrEndpointAddress (emd_Address m) (emd_Port m))
           | Some (address, port) \<Rightarrow>
               let pod = TrimSpace (emd_PodName m);
                   podName = (if pod = [] then TrimSpace (emd_Name m) else pod);
                   labels = (if podName \<noteq> [] then [(MetadataPodName, podName)] else [])
               in Inr (NewHTTP address port labels)))"

definition endpointInflight :: "endpoint_view \<Rightarrow> string \<Rightarrow> llmd_error + int" where
  "endpointInflight endpoint key =
     (case ev_Get endpoint key of
        None \<Rightarrow> Inl ErrInflightMissing
      | Some OtherValue \<Rightarrow> Inl ErrInflightInvalid
      | Some (InFlightLoad requests) \<Rightarrow> if requests < 0 then Inl ErrInflightInvalid else Inr requests)"

definition endpointQueue :: "endpoint_view \<Rightarrow> time \<Rightarrow> duration \<Rightarrow> Observed" where
  "endpointQueue endpoint now maxAge =
     (let result = zero_Observed\<lparr>obs_Status := StatusDegraded, obs_Source := observationSource\<rparr>
      in case ev_metrics endpoint of
           None \<Rightarrow> result
         | Some m \<Rightarrow>
             if IsZero (emt_UpdateTime m) \<or> emt_UpdateTime m > now
                \<or> time_sub now (emt_UpdateTime m) > maxAge \<or> emt_WaitingQueueSize m < 0
             then result
             else result\<lparr>obs_Status := StatusOK, obs_ObservedAt := emt_UpdateTime m,
                    obs_Freshness := time_sub now (emt_UpdateTime m),
                    QueueLength := \<lparr>smp_Value = f_of_int (emt_WaitingQueueSize m), smp_Valid = True,
                      smp_ObservedAt = emt_UpdateTime m, smp_Source = observationSource, smp_Error = []\<rparr>\<rparr>)"

record 'ep translatedEndpoint =
  te_upstream :: 'ep
  te_backend :: Backend
  te_inflight :: int
  te_queue :: Observed

definition translateEndpoint :: "('ep \<Rightarrow> endpoint_view option) \<Rightarrow> 'ep \<Rightarrow> string \<Rightarrow> time \<Rightarrow> duration \<Rightarrow>
    llmd_error + 'ep translatedEndpoint" where
  "translateEndpoint view endpoint inflightKey now maxAge =
     (case view endpoint of
        None \<Rightarrow> Inl ErrEndpointNil
      | Some ev \<Rightarrow>
          (case backendFromMetadata ev of
             Inl err \<Rightarrow> Inl err
           | Inr candidate \<Rightarrow>
               (case endpointInflight ev inflightKey of
                  Inl err \<Rightarrow> Inl err
                | Inr inflight \<Rightarrow> Inr \<lparr>te_upstream = endpoint, te_backend = candidate, te_inflight = inflight,
                    te_queue = endpointQueue ev now maxAge\<rparr>)))"

definition empty_snapshot :: Snapshot where
  "empty_snapshot = \<lparr>sn_Backends = [], sn_Inflight = [], sn_Observations = [], sn_Ineligible = [], sn_Loads = [],
     sn_KVAware = \<lparr>ki_PromptTokens = 0, ki_Matches = []\<rparr>, sn_Estimates = []\<rparr>"

definition translate_step :: "('ep \<Rightarrow> endpoint_view option) \<Rightarrow> string \<Rightarrow> time \<Rightarrow> duration \<Rightarrow>
    Snapshot \<times> (ID, 'ep) gomap \<Rightarrow> 'ep \<Rightarrow> Snapshot \<times> (ID, 'ep) gomap" where
  \<comment> \<open>the body of the loop of \<open>translateSnapshot\<close>\<close>
  "translate_step view inflightKey now maxAge acc endpoint =
     (case translateEndpoint view endpoint inflightKey now maxAge of
        Inl _ \<Rightarrow> acc
      | Inr state \<Rightarrow>
          let (snapshot, lookup) = acc; i = bID (te_backend state)
          in if mhas lookup i then acc
             else (snapshot\<lparr>sn_Backends := sn_Backends snapshot @ [te_backend state],
                     sn_Inflight := AList.update i (te_inflight state) (sn_Inflight snapshot),
                     sn_Observations := AList.update i (te_queue state) (sn_Observations snapshot)\<rparr>,
                   AList.update i (te_upstream state) lookup))"

definition translateSnapshot :: "('ep \<Rightarrow> endpoint_view option) \<Rightarrow> 'ep list \<Rightarrow> string \<Rightarrow> time \<Rightarrow> duration \<Rightarrow>
    Snapshot \<times> (ID, 'ep) gomap" where
  "translateSnapshot view endpoints inflightKey now maxAge =
     foldl (translate_step view inflightKey now maxAge) (empty_snapshot, []) endpoints"

subsection \<open>The plugin\<close>

definition PluginType :: string where
  "PluginType = ''fishmesh-session-key-scorer''"

definition HeaderRouteReason :: string where "HeaderRouteReason = ''x-fishmesh-route-reason''"
definition HeaderRoutingMode :: string where "HeaderRoutingMode = ''x-fishmesh-routing-mode''"
definition HeaderBackendID :: string where "HeaderBackendID = ''x-fishmesh-backend-id''"
definition HeaderSelectedBackendID :: string where "HeaderSelectedBackendID = ''x-fishmesh-selected-backend-id''"
definition HeaderServedBackendID :: string where "HeaderServedBackendID = ''x-fishmesh-served-backend-id''"
definition HeaderPreferredBackendID :: string where "HeaderPreferredBackendID = ''x-fishmesh-preferred-backend-id''"
definition HeaderPolicy :: string where "HeaderPolicy = ''x-fishmesh-policy''"
definition HeaderSpilloverReason :: string where "HeaderSpilloverReason = ''x-fishmesh-spillover-reason''"

lemmas llmd_header_defs = HeaderRouteReason_def HeaderRoutingMode_def HeaderBackendID_def
  HeaderSelectedBackendID_def HeaderServedBackendID_def HeaderPreferredBackendID_def HeaderPolicy_def
  HeaderSpilloverReason_def

definition decisionAttributePrefix :: string where
  "decisionAttributePrefix = ''fishmesh.io/session-key-decision/''"

record llmd_Config =
  lc_SessionKeyHeader :: string
  lc_MetricsMaxAge :: duration
  lc_InFlightLoadProducerName :: string
  lc_SessionKey :: SessionKeyConfig

record scorer =
  sc_typedName :: "string \<times> string"
  sc_sessionKeyHeader :: string
  sc_metricsMaxAge :: duration
  sc_strategy :: Strategy
  sc_inflightKey :: string
  sc_attributeKey :: string

definition normalizeConfig :: "llmd_Config \<Rightarrow> llmd_Config" where
  \<comment> \<open>header names are ASCII; the clocks are the time arguments of the operations\<close>
  "normalizeConfig config =
     config\<lparr>lc_SessionKeyHeader := ToLower (TrimSpace (lc_SessionKeyHeader config)),
       lc_InFlightLoadProducerName := TrimSpace (lc_InFlightLoadProducerName config)\<rparr>"

definition newScorer :: "(string \<Rightarrow> string) \<Rightarrow> string \<Rightarrow> llmd_Config \<Rightarrow> Strategy \<Rightarrow> scorer" where
  "newScorer data_key name config strategy =
     \<lparr>sc_typedName = (PluginType, name), sc_sessionKeyHeader = lc_SessionKeyHeader config,
      sc_metricsMaxAge = lc_MetricsMaxAge config, sc_strategy = strategy,
      sc_inflightKey = data_key (lc_InFlightLoadProducerName config),
      sc_attributeKey = decisionAttributePrefix @ name\<rparr>"

definition llmd_New :: "(string \<Rightarrow> string) \<Rightarrow> string \<Rightarrow> llmd_Config \<Rightarrow> llmd_error + scorer" where
  "llmd_New data_key name config0 =
     (let config = normalizeConfig config0
      in if TrimSpace name = [] then Inl ErrPluginName
         else if lc_SessionKeyHeader config = [] then Inl ErrSessionKeyHeader
         else if lc_MetricsMaxAge config \<le> 0 then Inl ErrMetricsMaxAge
         else (case NewSessionKey (lc_SessionKey config) of
                 Inl err \<Rightarrow> Inl (ErrLlmdSessionKey err)
               | Inr strategy \<Rightarrow> Inr (newScorer data_key name config (StSessionKey strategy))))"

record parameters =
  pr_SessionKeyHeader :: string
  pr_MetricsMaxAge :: string
  pr_InFlightLoadProducerName :: string
  pr_SessionKeyTTL :: string
  pr_MaxSessionKeyEntries :: int
  pr_InflightDelta :: int
  pr_QueueDepthDelta :: f64

definition zero_parameters :: parameters where
  "zero_parameters = \<lparr>pr_SessionKeyHeader = [], pr_MetricsMaxAge = [], pr_InFlightLoadProducerName = [],
     pr_SessionKeyTTL = [], pr_MaxSessionKeyEntries = 0, pr_InflightDelta = 0, pr_QueueDepthDelta = Fin 0\<rparr>"

definition parameters_config :: "parameters \<Rightarrow> llmd_error + llmd_Config" where
  "parameters_config p =
     (case ParseDuration (pr_MetricsMaxAge p) of
        None \<Rightarrow> Inl (ErrParseMetricsMaxAge (pr_MetricsMaxAge p))
      | Some metricsMaxAge \<Rightarrow>
          (case ParseDuration (pr_SessionKeyTTL p) of
             None \<Rightarrow> Inl (ErrParseSessionKeyTTL (pr_SessionKeyTTL p))
           | Some sessionKeyTTL \<Rightarrow>
               Inr \<lparr>lc_SessionKeyHeader = pr_SessionKeyHeader p, lc_MetricsMaxAge = metricsMaxAge,
                 lc_InFlightLoadProducerName = pr_InFlightLoadProducerName p,
                 lc_SessionKey = \<lparr>sk_TTL = sessionKeyTTL, sk_MaxEntries = pr_MaxSessionKeyEntries p,
                   sk_InflightDelta = pr_InflightDelta p, sk_QueueDepthDelta = pr_QueueDepthDelta p\<rparr>\<rparr>))"

definition llmd_factory :: "(string \<Rightarrow> string) \<Rightarrow> string \<Rightarrow> parameters option option \<Rightarrow> llmd_error + scorer" where
  \<comment> \<open>\<open>None\<close>: no decoder; \<open>Some None\<close>: the strict decoder failed\<close>
  "llmd_factory data_key name decoded =
     (case (case decoded of None \<Rightarrow> Some zero_parameters | Some r \<Rightarrow> r) of
        None \<Rightarrow> Inl ErrDecodeParameters
      | Some p \<Rightarrow> (case parameters_config p of Inl err \<Rightarrow> Inl err | Inr config \<Rightarrow> llmd_New data_key name config))"

definition scorer_Filter :: "('ep \<Rightarrow> endpoint_view option) \<Rightarrow> time \<Rightarrow> scorer \<Rightarrow> 'ep list \<Rightarrow> 'ep list" where
  "scorer_Filter view now s endpoints =
     filter (\<lambda>e. case translateEndpoint view e (sc_inflightKey s) now (sc_metricsMaxAge s) of Inl _ \<Rightarrow> False | Inr _ \<Rightarrow> True)
       endpoints"

definition scorer_sessionKey :: "scorer \<Rightarrow> InferenceRequest option \<Rightarrow> string" where
  "scorer_sessionKey s request =
     (case request of None \<Rightarrow> [] | Some r \<Rightarrow> mget [] (ir_Headers r) (sc_sessionKeyHeader s))"

definition PutAttribute :: "string \<Rightarrow> request_attribute \<Rightarrow> InferenceRequest \<Rightarrow> InferenceRequest" where
  "PutAttribute key v r = r\<lparr>ir_attributes := AList.update key v (ir_attributes r)\<rparr>"

definition scorer_Score :: "('ep \<Rightarrow> endpoint_view option) \<Rightarrow> time \<Rightarrow> clock_reads \<Rightarrow> scorer \<Rightarrow> InferenceRequest option \<Rightarrow>
    'ep list \<Rightarrow> ('ep, f64) gomap \<times> scorer \<times> InferenceRequest option" where
  "scorer_Score view now clk s request endpoints =
     (let scores = foldl (\<lambda>m e. AList.update e (Fin 0) m) [] endpoints;
          (snapshot, lookup) = translateSnapshot view endpoints (sc_inflightKey s) now (sc_metricsMaxAge s)
      in if sn_Backends snapshot = [] then (scores, s, request)
         else
           let reconciled = Strategy_ReconcileBackends (sc_strategy s) (sn_Backends snapshot);
               (result, strategy) = Strategy_Select clk reconciled (scorer_sessionKey s request) snapshot;
               s1 = s\<lparr>sc_strategy := strategy\<rparr>
           in case result of
                Inl _ \<Rightarrow> (scores, s1, request)
              | Inr decision \<Rightarrow>
                  (case map_of lookup (bID (dc_Backend decision)) of
                     None \<Rightarrow> (scores, s1, request)
                   | Some selected \<Rightarrow>
                       (AList.update selected (Fin 1) scores, s1,
                        map_option (PutAttribute (sc_attributeKey s) (DecisionRecord decision)) request)))"

definition writeDecisionHeaders :: "(string, string) gomap \<Rightarrow> Decision \<Rightarrow> (string, string) gomap" where
  "writeDecisionHeaders headers decision =
     (let h = foldl (\<lambda>m (k, v). AList.update k v m) headers
        [(HeaderRoutingMode, ModeSessionKey), (HeaderRouteReason, reason_text (dc_Reason decision)),
         (HeaderSelectedBackendID, bID (dc_Backend decision)), (HeaderPreferredBackendID, dc_PreferredBackendID decision),
         (HeaderPolicy, policy_text (dc_Policy decision))]
      in if dc_SpilloverReason decision \<noteq> NoReason
         then AList.update HeaderSpilloverReason (reason_text (dc_SpilloverReason decision)) h else h)"

definition servedBackendID :: "EndpointMetadata option \<Rightarrow> ID" where
  "servedBackendID metadata =
     (case metadata of None \<Rightarrow> [] | Some m \<Rightarrow>
        (case metadata_address m of None \<Rightarrow> [] | Some (address, port) \<Rightarrow> bID (NewHTTP address port [])))"

definition scorer_ResponseHeader :: "scorer \<Rightarrow> InferenceRequest option \<Rightarrow> (string, string) gomap option \<Rightarrow>
    EndpointMetadata option \<Rightarrow> (string, string) gomap option" where
  \<comment> \<open>the headers are \<open>None\<close> for a nil response and for nil headers\<close>
  "scorer_ResponseHeader s request headers served =
     (case (request, headers) of
        (Some r, Some h) \<Rightarrow>
          (case map_of (ir_attributes r) (sc_attributeKey s) of
             Some (DecisionRecord decision) \<Rightarrow>
               let h1 = writeDecisionHeaders h decision; servedID = servedBackendID served
               in Some (if servedID \<noteq> []
                        then AList.update HeaderServedBackendID servedID (AList.update HeaderBackendID servedID h1)
                        else h1)
           | _ \<Rightarrow> headers)
      | _ \<Rightarrow> headers)"

subsection \<open>The translated snapshot\<close>

definition endpoint_id :: "('ep \<Rightarrow> endpoint_view option) \<Rightarrow> string \<Rightarrow> time \<Rightarrow> duration \<Rightarrow> 'ep \<Rightarrow> ID option" where
  "endpoint_id view key now maxAge e =
     (case translateEndpoint view e key now maxAge of Inl _ \<Rightarrow> None | Inr st \<Rightarrow> Some (bID (te_backend st)))"

lemma translate_upstream: "translateEndpoint view e key now maxAge = Inr st \<Longrightarrow> te_upstream st = e"
  by (auto simp: translateEndpoint_def split: option.splits sum.splits)

lemma mem_scorer_Filter:
  "e \<in> set (scorer_Filter view now s es) \<longleftrightarrow>
     e \<in> set es \<and> endpoint_id view (sc_inflightKey s) now (sc_metricsMaxAge s) e \<noteq> None"
  by (auto simp: scorer_Filter_def endpoint_id_def split: sum.splits)

lemma translateSnapshot_snoc:
  "translateSnapshot view (es @ [e]) key now maxAge =
     translate_step view key now maxAge (translateSnapshot view es key now maxAge) e"
  by (simp add: translateSnapshot_def)

lemma translate_step_cases:
  obtains "endpoint_id view key now maxAge e = None" and "translate_step view key now maxAge (sn, lk) e = (sn, lk)"
  | i where "endpoint_id view key now maxAge e = Some i" and "mhas lk i"
      and "translate_step view key now maxAge (sn, lk) e = (sn, lk)"
  | b n q where "endpoint_id view key now maxAge e = Some (bID b)" and "\<not> mhas lk (bID b)"
      and "translate_step view key now maxAge (sn, lk) e =
        (sn\<lparr>sn_Backends := sn_Backends sn @ [b], sn_Inflight := AList.update (bID b) n (sn_Inflight sn),
            sn_Observations := AList.update (bID b) q (sn_Observations sn)\<rparr>, AList.update (bID b) e lk)"
proof (cases "translateEndpoint view e key now maxAge")
  case (Inl err)
  then show ?thesis using that(1) by (simp add: endpoint_id_def translate_step_def)
next
  case (Inr st)
  note up = translate_upstream [OF Inr]
  show ?thesis
  proof (cases "mhas lk (bID (te_backend st))")
    case True
    with Inr show ?thesis using that(2) by (simp add: endpoint_id_def translate_step_def Let_def)
  next
    case False
    with Inr up show ?thesis
      using that(3) [where b = "te_backend st" and n = "te_inflight st" and q = "te_queue st"]
      by (simp add: endpoint_id_def translate_step_def Let_def)
  qed
qed

lemma translate_lookup:
  "map_of (snd (translateSnapshot view es key now maxAge)) i = find (\<lambda>e. endpoint_id view key now maxAge e = Some i) es"
proof (induction es rule: rev_induct)
  case Nil
  then show ?case by (simp add: translateSnapshot_def)
next
  case (snoc e es)
  obtain sn lk where t: "translateSnapshot view es key now maxAge = (sn, lk)" by force
  have f: "find P (xs @ [x]) = (case find P xs of Some y \<Rightarrow> Some y | None \<Rightarrow> if P x then Some x else None)"
    for P xs and x :: 'a by (induction xs) auto
  show ?case
    by (cases rule: translate_step_cases [of view key now maxAge e sn lk])
      (use snoc.IH in \<open>auto simp: translateSnapshot_snoc t f mhas_def update_conv' split: option.splits\<close>)
qed

lemma translate_backends:
  "bID ` set (sn_Backends (fst (translateSnapshot view es key now maxAge))) =
     {i. \<exists>e \<in> set es. endpoint_id view key now maxAge e = Some i}
   \<and> sn_Ineligible (fst (translateSnapshot view es key now maxAge)) = []"
proof (induction es rule: rev_induct)
  case Nil
  then show ?case by (simp add: translateSnapshot_def empty_snapshot_def)
next
  case (snoc e es)
  obtain sn lk where t: "translateSnapshot view es key now maxAge = (sn, lk)" by force
  have known: "mhas lk i \<Longrightarrow> \<exists>e \<in> set es. endpoint_id view key now maxAge e = Some i" for i
    using translate_lookup [of view es key now maxAge i] by (auto simp: t mhas_def find_Some_iff)
  show ?case
    by (cases rule: translate_step_cases [of view key now maxAge e sn lk])
      (use snoc.IH known in \<open>auto simp: translateSnapshot_snoc t\<close>)
qed

subsection \<open>A score marks one accepted endpoint\<close>

definition scorer_ok :: "scorer \<Rightarrow> bool" where
  "scorer_ok s \<longleftrightarrow> (case sc_strategy s of
     StSessionKey st \<Rightarrow> session_ok st \<and> 0 < sk_MaxEntries (sks_config st) | _ \<Rightarrow> False)"

lemma scorer_okE:
  assumes "scorer_ok s"
  obtains st where "sc_strategy s = StSessionKey st" "session_ok st" "0 < sk_MaxEntries (sks_config st)"
  using assms by (auto simp: scorer_ok_def split: Strategy.splits)

lemma llmd_New_ok: "llmd_New data_key name config = Inr s \<Longrightarrow> scorer_ok s"
  by (auto simp: llmd_New_def Let_def newScorer_def scorer_ok_def NewSessionKey_def newSessionKey_def session_ok_def
      SessionKeyConfig_Validate_def split: if_splits sum.splits option.splits)

lemma unscored: "map_of (foldl (\<lambda>m e. AList.update e z m) m es) e = (if e \<in> set es then Some z else map_of m e)"
  by (induction es arbitrary: m) (auto simp: update_conv')

lemma session_key_Select_total:
  assumes "EligibleBackends sn \<noteq> []"
  shows "\<exists>d. fst (session_key_Select clk st key sn) = Inr d"
  using assms by (cases "key = []") (auto simp: session_key_Select_def [of _ _ "[]"] session_key_Select_eq)

definition score_choice :: "('ep \<Rightarrow> endpoint_view option) \<Rightarrow> time \<Rightarrow> scorer \<Rightarrow> 'ep list \<Rightarrow> Decision \<Rightarrow> 'ep option" where
  "score_choice view now s es d =
     find (\<lambda>e. endpoint_id view (sc_inflightKey s) now (sc_metricsMaxAge s) e = Some (bID (dc_Backend d))) es"

lemma score_cases:
  assumes ok: "scorer_ok s"
  obtains
    (none) "scorer_Filter view now s es = []"
      "scorer_Score view now clk s request es = (foldl (\<lambda>m e. AList.update e (Fin 0) m) [] es, s, request)"
  | (one) d e st' where "score_choice view now s es d = Some e" "scorer_ok (s\<lparr>sc_strategy := st'\<rparr>)"
      "scorer_Score view now clk s request es =
        (AList.update e (Fin 1) (foldl (\<lambda>m e. AList.update e (Fin 0) m) [] es), s\<lparr>sc_strategy := st'\<rparr>,
         map_option (PutAttribute (sc_attributeKey s) (DecisionRecord d)) request)"
proof -
  let ?k = "sc_inflightKey s" and ?a = "sc_metricsMaxAge s"
  obtain sn lk where t: "translateSnapshot view es ?k now ?a = (sn, lk)" by force
  from translate_backends [of view es ?k now ?a] translate_lookup [of view es ?k now ?a]
  have ids: "bID ` set (sn_Backends sn) = {i. \<exists>e \<in> set es. endpoint_id view ?k now ?a e = Some i}"
    and inel: "sn_Ineligible sn = []"
    and lk: "\<And>i. map_of lk i = find (\<lambda>e. endpoint_id view ?k now ?a e = Some i) es" by (simp_all add: t)
  have elig: "EligibleBackends sn = sn_Backends sn" by (simp add: EligibleBackends_def inel mhas_def)
  obtain st where st: "sc_strategy s = StSessionKey st" "session_ok st" "0 < sk_MaxEntries (sks_config st)"
    using ok by (rule scorer_okE)
  show thesis
  proof (cases "sn_Backends sn = []")
    case True
    with ids have "endpoint_id view ?k now ?a e = None" if "e \<in> set es" for e
      using that by (cases "endpoint_id view ?k now ?a e") auto
    then have "\<not> e \<in> set (scorer_Filter view now s es)" for e by (auto simp: mem_scorer_Filter)
    then have "scorer_Filter view now s es = []" by (metis last_in_set)
    with True none show ?thesis by (simp add: scorer_Score_def t)
  next
    case False
    let ?st = "session_ReconcileBackends st (sn_Backends sn)"
    obtain d st' where sel: "session_key_Select clk ?st (scorer_sessionKey s request) sn = (Inr d, st')"
      using session_key_Select_total [of sn clk ?st "scorer_sessionKey s request"] False
      by (metis elig prod.collapse)
    have ok': "session_ok st' \<and> 0 < sk_MaxEntries (sks_config st')"
      using session_key_Select_ok [of ?st clk "scorer_sessionKey s request" sn] st(2,3) sel
      by (simp add: session_Reconcile_ok)
    have "dc_Backend d \<in> set (sn_Backends sn)"
      using session_key_member [of clk ?st "scorer_sessionKey s request" sn d] sel by (simp add: elig)
    with ids have "\<exists>e \<in> set es. endpoint_id view ?k now ?a e = Some (bID (dc_Backend d))" by blast
    then obtain e where e: "score_choice view now s es d = Some e"
      by (cases "score_choice view now s es d") (auto simp: score_choice_def find_None_iff)
    show ?thesis
      by (rule one [OF e, of "StSessionKey st'"])
        (use False st(1) sel ok' e lk in \<open>simp_all add: scorer_ok_def scorer_Score_def t score_choice_def\<close>)
  qed
qed

lemma score_choice_accepted:
  "score_choice view now s es d = Some e \<Longrightarrow> e \<in> set (scorer_Filter view now s es)
     \<and> endpoint_id view (sc_inflightKey s) now (sc_metricsMaxAge s) e = Some (bID (dc_Backend d))"
  by (auto simp: score_choice_def find_Some_iff mem_scorer_Filter)

lemma writeDecisionHeaders_selected:
  "map_of (writeDecisionHeaders h d) HeaderSelectedBackendID = Some (bID (dc_Backend d))"
  by (simp add: writeDecisionHeaders_def Let_def update_conv' llmd_header_defs)

lemma response_names_selected:
  "\<exists>h. scorer_ResponseHeader (s\<lparr>sc_strategy := st\<rparr>) (Some (PutAttribute (sc_attributeKey s) (DecisionRecord d) r)) (Some hs) served = Some h
     \<and> map_of h HeaderSelectedBackendID = Some (bID (dc_Backend d))"
  using writeDecisionHeaders_selected [of hs d]
  by (simp add: scorer_ResponseHeader_def PutAttribute_def update_conv' Let_def)
    (simp add: llmd_header_defs)

text \<open>
  C35. A score of the llm-d plugin gives every endpoint a value and marks at most one with 1: none exactly
  when \<open>Filter\<close> would refuse them all, otherwise an endpoint \<open>Filter\<close> accepts. The backend of the marked
  endpoint is the one the response headers of that request name as selected, and the memory table of the
  strategy stays within its bound.
\<close>

theorem score_marks_accepted:
  assumes "scorer_ok s" and "scorer_Score view now clk s request endpoints = (scores, s', request')"
  shows "scorer_ok s' \<and> (\<exists>marked. (marked = None \<longleftrightarrow> scorer_Filter view now s endpoints = [])
    \<and> (\<forall>e. map_of scores e = (if e \<in> set endpoints then Some (if marked = Some e then Fin 1 else Fin 0) else None))
    \<and> (\<forall>e. marked = Some e \<longrightarrow> e \<in> set (scorer_Filter view now s endpoints)
        \<and> (\<forall>r headers served. request = Some r \<longrightarrow>
             (\<exists>h. scorer_ResponseHeader s' request' (Some headers) served = Some h
                \<and> map_of h HeaderSelectedBackendID = endpoint_id view (sc_inflightKey s) now (sc_metricsMaxAge s) e))))"
  using assms(1)
proof (cases rule: score_cases [where view = view and now = now and es = endpoints and clk = clk and request = request])
  case none
  with assms show ?thesis by (intro conjI exI [of _ None]) (auto simp: unscored)
next
  case (one d e st')
  note e = score_choice_accepted [OF one(1)]
  have "e \<in> set endpoints" using e by (simp add: mem_scorer_Filter)
  with assms one(2,3) e show ?thesis
    by (intro conjI exI [of _ "Some e"]) (auto simp: unscored update_conv' response_names_selected)
qed

definition wit_endpoint :: "nat \<Rightarrow> endpoint_view option" where
  \<comment> \<open>endpoint 0 is ready, endpoint 1 has no in-flight load, every other one is nil\<close>
  "wit_endpoint n =
     (if n < 2
      then Some \<lparr>ev_metadata = Some \<lparr>emd_Address = ''10.0.0.1'', emd_Port = ''8000'', emd_PodName = [], emd_Name = ''p''\<rparr>,
             ev_Get = (\<lambda>k. if n = 0 then Some (InFlightLoad 3) else None), ev_metrics = None\<rparr>
      else None)"

definition wit_llmd_config :: llmd_Config where
  "wit_llmd_config = \<lparr>lc_SessionKeyHeader = ''x-key'', lc_MetricsMaxAge = 5, lc_InFlightLoadProducerName = [],
     lc_SessionKey = wit_session_config\<rparr>"

definition wit_scorer :: scorer where
  "wit_scorer = newScorer (\<lambda>p. p) ''n'' wit_llmd_config (StSessionKey (newSessionKey wit_session_config))"

lemma wit_scorer_ok: "scorer_ok wit_scorer"
  by (simp add: wit_scorer_def newScorer_def scorer_ok_def newSessionKey_def session_ok_def wit_session_config_def)

lemma wit_accepted: "scorer_Filter wit_endpoint 7 wit_scorer [1, 0, 2] = [0]"
proof -
  have addr: "metadata_address \<lparr>emd_Address = ''10.0.0.1'', emd_Port = ''8000'', emd_PodName = [], emd_Name = ''p''\<rparr>
      = Some (''10.0.0.1'', 8000)"
    by code_simp
  show ?thesis
    by (simp add: scorer_Filter_def translateEndpoint_def wit_endpoint_def backendFromMetadata_def addr endpointInflight_def
        Let_def)
qed

theorem score_marks_accepted_witness:
  "\<exists>scores. fst (scorer_Score wit_endpoint 7 (wit_clock 7) wit_scorer None [1, 0, 2]) = scores
     \<and> map_of scores 0 = Some (Fin 1) \<and> map_of scores 1 = Some (Fin 0) \<and> map_of scores 2 = Some (Fin 0)"
proof -
  obtain scores s' r' where sc: "scorer_Score wit_endpoint 7 (wit_clock 7) wit_scorer None [1, 0, 2] = (scores, s', r')"
    by (metis prod_cases3)
  from score_marks_accepted [OF wit_scorer_ok sc, unfolded wit_accepted]
  obtain marked where m: "marked = Some 0"
    and all: "\<forall>e. map_of scores e = (if e \<in> set [1, 0, 2] then Some (if marked = Some e then Fin 1 else Fin 0) else None)"
    by (auto simp: option.split_sel_asm)
  show ?thesis using all m sc by simp
qed

end
