(* ===== verification/Gateway_Main.thy ===== *)
theory Gateway_Main
  imports Composition Llmd
begin

text \<open>
  The processes. \<open>cmd/fishmesh-gateway/main.go\<close>: the gateway loads its configuration, builds its runtime,
  listens, and stops when a signal arrives or the listener fails. Everything that happens to it from
  outside is a value of \<open>outside\<close>, and \<open>main_step\<close> is what the two goroutines of \<open>run\<close> (the one that
  waits and the one inside \<open>ListenAndServe\<close>) and \<open>http.Server.Shutdown\<close> do about it: \<open>Shutdown\<close> closes
  the listener, returns nil once no request is in flight and the error of its context when the deadline
  passes first. The observer that carries the KV events into the metrics is here too
  (\<open>cmd/fishmesh-gateway/composition.go\<close>), and the small \<open>run\<close> of \<open>cmd/fishmesh-epp\<close>.
\<close>

subsection \<open>KV events into the metrics\<close>

definition kvEventMetricsObserver :: "kv_obs \<Rightarrow> Metrics \<Rightarrow> Metrics" where
  "kvEventMetricsObserver ob m = (case ob of
     ObsEvent backend replayed publishToApply \<Rightarrow> ObserveKVEvent backend replayed publishToApply m
   | ObsReset backend _ _ replayed \<Rightarrow> ObserveKVSequenceReset backend replayed m
   | ObsEventError backend reason _ \<Rightarrow> ObserveKVEventError backend (kv_reason_text reason) m)"

definition observe_all :: "kv_obs list \<Rightarrow> Metrics \<Rightarrow> Metrics" where
  "observe_all obs m = foldl (\<lambda>m ob. kvEventMetricsObserver ob m) m obs"

subsection \<open>What the process logs\<close>

datatype log_value = LString string | LBool bool | LInt int | LFloat f64 | LDuration duration

definition logRuntimeConfig :: "serving_Config \<Rightarrow> (string \<times> log_value) list" where
  "logRuntimeConfig config =
     [(''address'', LString (pcs_ListenAddress (cf_Process config))),
      (''upstream'', LString (bURL (rpc_Service (cf_RequestPath config)))),
      (''routing_mode'', LString (rc_Mode (cf_Routing config))),
      (''endpoint_discovery'', LString (dcf_Mode (cf_Discovery config))),
      (''observation_mode'', LString (cf_ObservationMode config)),
      (''upstream_keepalive'', LBool (tc_KeepAlive (cf_Transport config))),
      (''session_key_ttl'', LDuration (sk_TTL (rc_SessionKey (cf_Routing config)))),
      (''session_key_max_entries'', LInt (sk_MaxEntries (rc_SessionKey (cf_Routing config)))),
      (''session_key_inflight_delta'', LInt (sk_InflightDelta (rc_SessionKey (cf_Routing config)))),
      (''session_key_queue_depth_delta'', LFloat (sk_QueueDepthDelta (rc_SessionKey (cf_Routing config)))),
      (''max_inflight_requests'', LInt (MaxInflight (cf_Admission config))),
      (''admission_initial_target'', LInt (InitialTarget (cf_Admission config))),
      (''admission_tuning_mode'', LString (tc_Mode (cf_AdmissionTuning config))),
      (''admission_tuning_min_target'', LInt (MinTarget (cf_AdmissionTuning config))),
      (''admission_tuning_max_target'', LInt (MaxTarget (cf_AdmissionTuning config))),
      (''admission_tuning_step'', LInt (tc_Step (cf_AdmissionTuning config))),
      (''max_conns_per_host'', LInt (tc_MaxConnsPerHost (cf_Transport config))),
      (''circuit_ewma_alpha'', LFloat (EWMAAlpha (cf_Circuit config))),
      (''circuit_error_threshold'', LFloat (ErrorThreshold (cf_Circuit config))),
      (''circuit_min_requests'', LInt (MinimumRequests (cf_Circuit config))),
      (''circuit_open_duration'', LDuration (OpenDuration (cf_Circuit config)))]"

datatype main_error = LoadFailed config_error | StartFailed startup_error | GracefulShutdown

datatype log_line =
    GatewayListening "(string \<times> log_value) list"
  | StoppedUnexpectedly string
  | GatewayExited main_error

subsection \<open>The gateway process\<close>

record http_Server =
  hs_Addr :: string
  hs_Handler :: Server
  hs_ReadHeaderTimeout :: duration

datatype main_phase =
    Waiting \<comment> \<open>blocked on \<open>shutdownSignal.Done()\<close>\<close>
  | ShuttingDown \<comment> \<open>inside \<open>httpServer.Shutdown\<close>\<close>
  | Returned "main_error option"
  | Killed \<comment> \<open>by a signal that nobody catches\<close>

record process =
  gp_phase :: main_phase
  gp_server :: "http_Server option"
  gp_listening :: bool
  gp_caught :: bool \<comment> \<open>signals still go to \<open>NotifyContext\<close>: \<open>stop\<close> was not called\<close>
  gp_inflight :: nat
  gp_trail :: "resource_event list"
  gp_logs :: "log_line list"

datatype outside = OsSignal | ListenFails string | RequestArrives | RequestEnds | DeadlinePasses

definition run_returns :: "gateway_runtime \<Rightarrow> main_error option \<Rightarrow> process \<Rightarrow> process" where
  \<comment> \<open>\<open>return\<close> from \<open>run\<close>, with the deferred \<open>runtime.Close()\<close>\<close>
  "run_returns rt err p = p\<lparr>gp_phase := Returned err, gp_trail := gp_trail p @ map Closed (runtime_Close (gr_acq rt))\<rparr>"

definition poll_idle :: "gateway_runtime \<Rightarrow> process \<Rightarrow> process" where
  \<comment> \<open>\<open>Shutdown\<close> returns nil as soon as no connection is active\<close>
  "poll_idle rt p = (if gp_inflight p = 0 then run_returns rt None p else p)"

definition begin_shutdown :: "gateway_runtime \<Rightarrow> process \<Rightarrow> process" where
  "begin_shutdown rt p = poll_idle rt (p\<lparr>gp_phase := ShuttingDown, gp_listening := False\<rparr>)"

definition startHTTPServer_fails :: "gateway_runtime \<Rightarrow> string \<Rightarrow> process \<Rightarrow> process" where
  \<comment> \<open>\<open>ListenAndServe\<close> returned something else than \<open>ErrServerClosed\<close>: log it and call \<open>stop\<close>\<close>
  "startHTTPServer_fails rt err p =
     begin_shutdown rt (p\<lparr>gp_logs := gp_logs p @ [StoppedUnexpectedly err], gp_caught := False\<rparr>)"

definition main_step :: "gateway_runtime \<Rightarrow> process \<Rightarrow> outside \<Rightarrow> process" where
  "main_step rt p ev = (case gp_phase p of
     Waiting \<Rightarrow>
       (case ev of
          OsSignal \<Rightarrow> begin_shutdown rt p
        | ListenFails err \<Rightarrow> startHTTPServer_fails rt err p
        | RequestArrives \<Rightarrow> p\<lparr>gp_inflight := gp_inflight p + 1\<rparr>
        | RequestEnds \<Rightarrow> p\<lparr>gp_inflight := gp_inflight p - 1\<rparr>
        | DeadlinePasses \<Rightarrow> p)
   | ShuttingDown \<Rightarrow>
       (case ev of
          OsSignal \<Rightarrow> if gp_caught p then p else p\<lparr>gp_phase := Killed\<rparr>
        | RequestEnds \<Rightarrow> poll_idle rt (p\<lparr>gp_inflight := gp_inflight p - 1\<rparr>)
        | DeadlinePasses \<Rightarrow> run_returns rt (Some GracefulShutdown) p
        | _ \<Rightarrow> p)
   | _ \<Rightarrow> p)"

definition failed_start :: "main_error \<Rightarrow> resource_event list \<Rightarrow> process" where
  "failed_start err trail = \<lparr>gp_phase = Returned (Some err), gp_server = None, gp_listening = False, gp_caught = False,
     gp_inflight = 0, gp_trail = trail, gp_logs = []\<rparr>"

definition started :: "serving_Config \<Rightarrow> gateway_runtime \<Rightarrow> resource_event list \<Rightarrow> process" where
  "started config rt trail = \<lparr>gp_phase = Waiting,
     gp_server = Some \<lparr>hs_Addr = pcs_ListenAddress (cf_Process config), hs_Handler = gr_server rt,
       hs_ReadHeaderTimeout = pcs_ReadHeaderTimeout (cf_Process config)\<rparr>,
     gp_listening = True, gp_caught = True, gp_inflight = 0, gp_trail = trail,
     gp_logs = [GatewayListening (logRuntimeConfig config)]\<rparr>"

definition gateway_run :: "loader \<Rightarrow> (string \<Rightarrow> string) \<Rightarrow> world \<Rightarrow> outside list \<Rightarrow> process" where
  "gateway_run l env w evs =
     (case LoadEnvironment l env of
        Inl e \<Rightarrow> failed_start (LoadFailed e) []
      | Inr config \<Rightarrow>
          (case buildRuntime w config of
             (trail, Inl e) \<Rightarrow> failed_start (StartFailed e) trail
           | (trail, Inr rt) \<Rightarrow> foldl (main_step rt) (started config rt trail) evs))"

definition gateway_main :: "process \<Rightarrow> int option \<times> log_line list" where
  \<comment> \<open>the exit status of a process whose \<open>run\<close> returned, and what was logged\<close>
  "gateway_main p = (case gp_phase p of
     Returned None \<Rightarrow> (Some 0, gp_logs p)
   | Returned (Some err) \<Rightarrow> (Some 1, gp_logs p @ [GatewayExited err])
   | _ \<Rightarrow> (None, gp_logs p))"

subsection \<open>The EPP process\<close>

text \<open>
  The plugin table and the runner are upstream code: \<open>register\<close> is \<open>plugin.Register\<close>, and \<open>runner\<close> what
  \<open>factory().Run(ctx)\<close> returns when the table is as it is at that moment.
\<close>

definition llmd_Register :: "(string \<Rightarrow> (string \<Rightarrow> parameters option option \<Rightarrow> llmd_error + scorer) \<Rightarrow> 'reg \<Rightarrow> 'reg) \<Rightarrow>
    (string \<Rightarrow> string) \<Rightarrow> 'reg \<Rightarrow> 'reg" where
  "llmd_Register register data_key reg = register PluginType (llmd_factory data_key) reg"

definition executableName :: string where
  "executableName = ''FishMesh EPP''"

definition epp_run :: "(string \<Rightarrow> (string \<Rightarrow> parameters option option \<Rightarrow> llmd_error + scorer) \<Rightarrow> 'reg \<Rightarrow> 'reg) \<Rightarrow>
    (string \<Rightarrow> string) \<Rightarrow> ('reg \<Rightarrow> 'err option) \<Rightarrow> 'reg \<Rightarrow> 'err option" where
  "epp_run register data_key runner reg = runner (llmd_Register register data_key reg)"

definition newUpstreamRunner :: "(string \<Rightarrow> 'reg \<Rightarrow> 'err option) \<Rightarrow> 'reg \<Rightarrow> 'err option" where
  "newUpstreamRunner upstream = upstream executableName"

definition epp_main :: "(string \<Rightarrow> (string \<Rightarrow> parameters option option \<Rightarrow> llmd_error + scorer) \<Rightarrow> 'reg \<Rightarrow> 'reg) \<Rightarrow>
    (string \<Rightarrow> string) \<Rightarrow> (string \<Rightarrow> 'reg \<Rightarrow> 'err option) \<Rightarrow> 'reg \<Rightarrow> int" where
  "epp_main register data_key upstream reg =
     (if epp_run register data_key (newUpstreamRunner upstream) reg \<noteq> None then 1 else 0)"

subsection \<open>The process keeps its promises\<close>

definition stopped_unexpectedly :: "log_line list \<Rightarrow> bool" where
  "stopped_unexpectedly logs \<longleftrightarrow> (\<exists>err. StoppedUnexpectedly err \<in> set logs)"

definition phase_ok :: "gateway_runtime \<Rightarrow> process \<Rightarrow> bool" where
  "phase_ok rt p = (case gp_phase p of
     Waiting \<Rightarrow> gp_caught p \<and> closes (gp_trail p) = []
   | ShuttingDown \<Rightarrow> gp_inflight p > 0 \<and> closes (gp_trail p) = []
   | Killed \<Rightarrow> \<not> gp_caught p \<and> closes (gp_trail p) = []
   | Returned err \<Rightarrow> closes (gp_trail p) = runtime_Close (gr_acq rt)
       \<and> err = (if gp_inflight p = 0 then None else Some GracefulShutdown))"

definition process_ok :: "gateway_runtime \<Rightarrow> process \<Rightarrow> bool" where
  "process_ok rt p \<longleftrightarrow> distinct (opens (gp_trail p)) \<and> set (opens (gp_trail p)) = gr_acq rt
     \<and> (gp_caught p \<or> stopped_unexpectedly (gp_logs p)) \<and> phase_ok rt p"

lemma step_waiting:
  assumes "gp_phase p = Waiting"
  shows "main_step rt p OsSignal = begin_shutdown rt p" "main_step rt p (ListenFails err) = startHTTPServer_fails rt err p"
    "main_step rt p RequestArrives = p\<lparr>gp_inflight := gp_inflight p + 1\<rparr>"
    "main_step rt p RequestEnds = p\<lparr>gp_inflight := gp_inflight p - 1\<rparr>" "main_step rt p DeadlinePasses = p"
  using assms by (simp_all add: main_step_def)

lemma step_shutting:
  assumes "gp_phase p = ShuttingDown"
  shows "main_step rt p OsSignal = (if gp_caught p then p else p\<lparr>gp_phase := Killed\<rparr>)" "main_step rt p (ListenFails err) = p"
    "main_step rt p RequestArrives = p" "main_step rt p DeadlinePasses = run_returns rt (Some GracefulShutdown) p"
    "main_step rt p RequestEnds = poll_idle rt (p\<lparr>gp_inflight := gp_inflight p - 1\<rparr>)"
  using assms by (simp_all add: main_step_def)

lemma step_ended: "gp_phase p = Returned err \<or> gp_phase p = Killed \<Longrightarrow> main_step rt p ev = p"
  by (auto simp: main_step_def)

lemma process_ok_step:
  assumes "process_ok rt p"
  shows "process_ok rt (main_step rt p ev)"
  using assms
  by (cases "gp_phase p"; cases ev)
    (auto simp: main_step_def process_ok_def phase_ok_def begin_shutdown_def startHTTPServer_fails_def poll_idle_def
      run_returns_def stopped_unexpectedly_def)

lemma process_ok_run: "process_ok rt p \<Longrightarrow> process_ok rt (foldl (main_step rt) p evs)"
  by (induction evs arbitrary: p) (simp_all add: process_ok_step)

lemma process_ok_started:
  assumes "buildRuntime w config = (trail, Inr rt)"
  shows "process_ok rt (started config rt trail)"
  using released_buildRuntime [of w config] assms
  by (simp add: released_def process_ok_def phase_ok_def started_def)

lemma gateway_run_cases:
  obtains (load) e where "LoadEnvironment l env = Inl e" "gateway_run l env w evs = failed_start (LoadFailed e) []"
  | (build) config trail e where "LoadEnvironment l env = Inr config" "buildRuntime w config = (trail, Inl e)"
      "gateway_run l env w evs = failed_start (StartFailed e) trail"
  | (run) config trail rt where "LoadEnvironment l env = Inr config" "buildRuntime w config = (trail, Inr rt)"
      "gateway_run l env w evs = foldl (main_step rt) (started config rt trail) evs"
proof (cases "LoadEnvironment l env")
  case (Inl e)
  then show thesis using load by (simp add: gateway_run_def)
next
  case (Inr config)
  then show thesis
    using build run by (cases "buildRuntime w config"; cases "snd (buildRuntime w config)") (simp_all add: gateway_run_def)
qed

text \<open>
  C32. Whatever happens to the gateway process, a run that returns has closed every resource the start
  opened, each exactly once, and closed nothing before it returned. It returns without an error exactly
  when no request was in flight at that moment; otherwise the configuration did not load, the start
  failed, or the deadline of the shutdown passed with requests still in flight. Only a signal that
  follows a failure of the listener can end the process without closing its resources.
\<close>

theorem process_releases:
  "let p = gateway_run l env w evs in
   case gp_phase p of
     Waiting \<Rightarrow> closes (gp_trail p) = []
   | ShuttingDown \<Rightarrow> closes (gp_trail p) = []
   | Killed \<Rightarrow> closes (gp_trail p) = [] \<and> stopped_unexpectedly (gp_logs p)
   | Returned err \<Rightarrow> distinct (closes (gp_trail p)) \<and> set (closes (gp_trail p)) = set (opens (gp_trail p))
       \<and> (case err of
            None \<Rightarrow> gp_inflight p = 0
          | Some GracefulShutdown \<Rightarrow> gp_inflight p > 0
          | Some (LoadFailed e) \<Rightarrow> LoadEnvironment l env = Inl e \<and> gp_trail p = []
          | Some (StartFailed e) \<Rightarrow> \<exists>config. LoadEnvironment l env = Inr config \<and> snd (buildRuntime w config) = Inl e)"
proof (cases rule: gateway_run_cases [of l env w evs])
  case load
  then show ?thesis by (simp add: failed_start_def)
next
  case (build config trail e)
  then show ?thesis
    using released_buildRuntime [of w config] by (simp add: failed_start_def released_def)
next
  case (run config trail rt)
  have "process_ok rt (gateway_run l env w evs)"
    unfolding run(3) by (intro process_ok_run process_ok_started [OF run(2)])
  then show ?thesis
    by (cases "gp_phase (gateway_run l env w evs)") (auto simp: process_ok_def phase_ok_def)
qed

subsection \<open>A signal ends the process\<close>

definition no_kill :: "outside list \<Rightarrow> bool" where
  "no_kill evs \<longleftrightarrow> OsSignal \<notin> set evs"

lemma returned_stays: "gp_phase p = Returned err \<Longrightarrow> foldl (main_step rt) p evs = p"
  by (induction evs) (simp_all add: step_ended)

lemma drained:
  assumes "gp_phase p = ShuttingDown" and "gp_inflight p > 0" and "DeadlinePasses \<notin> set evs"
    and "gp_caught p \<or> no_kill evs" and "gp_inflight p \<le> length (filter (\<lambda>ev. ev = RequestEnds) evs)"
  shows "gp_phase (foldl (main_step rt) p evs) = Returned None"
  using assms
proof (induction evs arbitrary: p)
  case (Cons ev evs)
  show ?case
  proof (cases ev)
    case RequestEnds
    have "gp_phase (foldl (main_step rt) (p\<lparr>gp_inflight := gp_inflight p - 1\<rparr>) evs) = Returned None" if "gp_inflight p \<noteq> 1"
      using Cons.prems that RequestEnds by (intro Cons.IH) (auto simp: no_kill_def)
    then show ?thesis
      using Cons.prems RequestEnds
      by (cases "gp_inflight p = 1") (simp_all add: step_shutting poll_idle_def run_returns_def returned_stays)
  next
    case OsSignal
    then show ?thesis using Cons.prems Cons.IH [of p] by (simp add: step_shutting no_kill_def)
  qed (use Cons.prems Cons.IH [of p] in \<open>simp_all add: step_shutting no_kill_def\<close>)
qed simp

lemma deadline_ends:
  assumes "gp_phase p = ShuttingDown" and "gp_caught p \<or> no_kill evs" and "DeadlinePasses \<in> set evs"
  shows "\<exists>err. gp_phase (foldl (main_step rt) p evs) = Returned err"
  using assms
proof (induction evs arbitrary: p)
  case (Cons ev evs)
  have ended: "gp_phase q = Returned err \<Longrightarrow> \<exists>err. gp_phase (foldl (main_step rt) q evs) = Returned err" for q err
    by (simp add: returned_stays)
  show ?case
  proof (cases ev)
    case RequestEnds
    then show ?thesis
      using Cons.prems Cons.IH [of "p\<lparr>gp_inflight := gp_inflight p - 1\<rparr>"]
      by (cases "gp_inflight p - 1 = 0") (simp_all add: step_shutting poll_idle_def run_returns_def returned_stays no_kill_def)
  next
    case DeadlinePasses
    then show ?thesis
      using Cons.prems by (simp add: step_shutting run_returns_def returned_stays)
  next
    case OsSignal
    then show ?thesis using Cons.prems Cons.IH [of p] by (simp add: step_shutting no_kill_def)
  qed (use Cons.prems Cons.IH [of p] in \<open>simp_all add: step_shutting no_kill_def\<close>)
qed simp

lemma run_extends:
  assumes "LoadEnvironment l env = Inr config" and "buildRuntime w config = (trail, Inr rt)"
  shows "gateway_run l env w (evs @ evs') = foldl (main_step rt) (gateway_run l env w evs) evs'"
  using assms by (simp add: gateway_run_def)

lemma waiting_started:
  assumes "gp_phase (gateway_run l env w evs) = Waiting"
  obtains config trail rt where "LoadEnvironment l env = Inr config" and "buildRuntime w config = (trail, Inr rt)"
    and "gp_caught (gateway_run l env w evs)"
proof (cases rule: gateway_run_cases [of l env w evs])
  case (run config trail rt)
  have "process_ok rt (gateway_run l env w evs)"
    unfolding run(3) by (intro process_ok_run process_ok_started [OF run(2)])
  then show ?thesis using that run(1,2) assms by (auto simp: process_ok_def phase_ok_def)
qed (use assms in \<open>simp_all add: failed_start_def\<close>)

lemma shutdown_begun:
  assumes "gp_inflight p = 0"
  shows "foldl (main_step rt) (begin_shutdown rt p) evs = begin_shutdown rt p" "gp_phase (begin_shutdown rt p) = Returned None"
proof -
  show idle: "gp_phase (begin_shutdown rt p) = Returned None"
    using assms by (simp add: begin_shutdown_def poll_idle_def run_returns_def)
  then show "foldl (main_step rt) (begin_shutdown rt p) evs = begin_shutdown rt p" by (rule returned_stays)
qed

text \<open>
  C36. A signal ends a gateway that is serving: once as many requests have ended as were in flight when it
  came, \<open>run\<close> returns and the exit status is 0, whatever else happens meanwhile, further signals and new
  connections included; and when the deadline of the shutdown passes, the process exits in any case.
\<close>

theorem signal_ends_process:
  assumes "gp_phase (gateway_run l env w before) = Waiting"
  shows "(DeadlinePasses \<notin> set after
      \<and> gp_inflight (gateway_run l env w before) \<le> length (filter (\<lambda>ev. ev = RequestEnds) after)
      \<longrightarrow> fst (gateway_main (gateway_run l env w (before @ OsSignal # after))) = Some 0) \<and>
     (DeadlinePasses \<in> set after
      \<longrightarrow> (\<exists>status. fst (gateway_main (gateway_run l env w (before @ OsSignal # after))) = Some status))"
proof -
  let ?p = "gateway_run l env w before"
  obtain config trail rt where start: "LoadEnvironment l env = Inr config" "buildRuntime w config = (trail, Inr rt)"
    and caught: "gp_caught ?p" using assms by (rule waiting_started)
  let ?q = "foldl (main_step rt) (begin_shutdown rt ?p) after"
  have q: "gateway_run l env w (before @ OsSignal # after) = ?q"
    using assms by (simp add: run_extends [OF start] step_waiting)
  have busy: "gp_phase (begin_shutdown rt ?p) = ShuttingDown" "gp_inflight (begin_shutdown rt ?p) = gp_inflight ?p"
    "gp_caught (begin_shutdown rt ?p)" if "gp_inflight ?p > 0"
    using that caught by (simp_all add: begin_shutdown_def poll_idle_def)
  have "gp_phase ?q = Returned None" if "DeadlinePasses \<notin> set after"
      "gp_inflight ?p \<le> length (filter (\<lambda>ev. ev = RequestEnds) after)"
    using that busy drained [of "begin_shutdown rt ?p" after rt] shutdown_begun [of ?p rt]
    by (cases "gp_inflight ?p = 0") simp_all
  moreover have "\<exists>err. gp_phase ?q = Returned err" if "DeadlinePasses \<in> set after"
    using that busy deadline_ends [of "begin_shutdown rt ?p" after rt] shutdown_begun [of ?p rt]
    by (cases "gp_inflight ?p = 0") simp_all
  ultimately show ?thesis
    unfolding q by (auto simp: gateway_main_def split: option.splits)
qed

lemma wit_runtime: "\<exists>trail rt. buildRuntime wit_world loaded_default = (trail, Inr rt)"
proof -
  have parse: "ldr_parse wit_loader = wd_parse wit_world" by (simp add: wit_world_def)
  have v: "serving_Config_Validate (wd_parse wit_world) loaded_default = None"
    using loaded_default_valid [OF wit_loader_usable] parse by simp
  have mode: "dcf_Mode (cf_Discovery loaded_default) = ModeStatic" by (simp add: loaded_default_def DefaultConfig_def)
  have "build_resolver wit_world loaded_default = Inr (StaticResolver (dcf_Static (cf_Discovery loaded_default)))"
    using mode valid_parts(10) [OF v mode] loaded_static [OF load_unset [OF wit_loader_usable]] by (rule static_resolver)
  then show ?thesis using valid_config_starts [OF v] mode by auto
qed

theorem signal_ends_process_witness:
  "fst (gateway_main (gateway_run wit_loader (\<lambda>_. []) wit_world [RequestArrives, OsSignal, OsSignal, RequestEnds])) = Some 0
   \<and> (\<exists>status. fst (gateway_main (gateway_run wit_loader (\<lambda>_. []) wit_world [RequestArrives, OsSignal, DeadlinePasses])) = Some status)"
proof -
  obtain trail rt where "buildRuntime wit_world loaded_default = (trail, Inr rt)" using wit_runtime by blast
  then have p: "gateway_run wit_loader (\<lambda>_. []) wit_world [RequestArrives]
      = (started loaded_default rt trail)\<lparr>gp_inflight := 1\<rparr>"
    by (simp add: gateway_run_def load_unset [OF wit_loader_usable] step_waiting started_def)
  then have wait: "gp_phase (gateway_run wit_loader (\<lambda>_. []) wit_world [RequestArrives]) = Waiting"
    "gp_inflight (gateway_run wit_loader (\<lambda>_. []) wit_world [RequestArrives]) = 1"
    by (simp_all add: started_def)
  show ?thesis
    using signal_ends_process [OF wait(1), of "[OsSignal, RequestEnds]"]
      signal_ends_process [OF wait(1), of "[DeadlinePasses]"] wait(2) by simp
qed

subsection \<open>A failing listener\<close>

text \<open>
  The listener that cannot be opened, or that fails later, ends the process with status 0 when no
  request is in flight: \<open>run\<close> only knows that it was told to stop. The error is in the log, and
  nowhere else.
\<close>

theorem listen_failure_exits_zero:
  assumes "LoadEnvironment l env = Inr config" and "buildRuntime w config = (trail, Inr rt)"
  shows "gateway_main (gateway_run l env w [ListenFails err])
    = (Some 0, [GatewayListening (logRuntimeConfig config), StoppedUnexpectedly err])"
  using assms by (simp add: gateway_run_def step_waiting started_def startHTTPServer_fails_def begin_shutdown_def poll_idle_def
      run_returns_def gateway_main_def)

subsection \<open>The plugin is registered before the runner starts\<close>

theorem epp_registers_first:
  assumes "\<And>k f r. lookup (register k f r) k = Some f"
  obtains reg' where "epp_run register data_key runner reg = runner reg'"
    and "lookup reg' PluginType = Some (llmd_factory data_key)"
  using assms that by (simp add: epp_run_def llmd_Register_def)

subsection \<open>Every failed apply is counted\<close>

lemma observer_reach: "metrics_reach mode m \<Longrightarrow> metrics_reach mode (observe_all obs m)"
proof (induction obs arbitrary: m)
  case (Cons ob obs)
  have "metrics_step mode m (kvEventMetricsObserver ob m)"
    by (cases ob) (simp_all add: kvEventMetricsObserver_def metrics_step.intros)
  then show ?case using Cons.IH [OF mreach_step [OF Cons.prems]] by (simp add: observe_all_def)
qed (simp add: observe_all_def)

definition event_errors :: "Metrics \<Rightarrow> string \<Rightarrow> KVReason \<Rightarrow> nat" where
  "event_errors m i reason = mget 0 (mk_eventErrors (mx_kv m)) [i, kv_reason_text reason]"

definition told_errors :: "kv_obs list \<Rightarrow> (string \<times> KVReason) list" where
  "told_errors obs = concat (map (\<lambda>ob. case ob of ObsEventError i r _ \<Rightarrow> [(i, r)] | _ \<Rightarrow> []) obs)"

lemma reason_text_inj: "kv_reason_text r = kv_reason_text r' \<longleftrightarrow> r = r'"
  by (cases r; cases r') simp_all

lemma event_errors_observe_all:
  "event_errors (observe_all obs m) i r = event_errors m i r + length (filter (\<lambda>e. e = (i, r)) (told_errors obs))"
proof (induction obs arbitrary: m)
  case (Cons ob obs)
  have "event_errors (kvEventMetricsObserver ob m) i r = event_errors m i r + length (filter (\<lambda>e. e = (i, r)) (told_errors [ob]))"
    by (cases ob) (auto simp: kvEventMetricsObserver_def event_errors_def told_errors_def ObserveKVEvent_def ObserveKVEventError_def
        ObserveKVSequenceReset_def vinc_def mget_def reason_text_inj update_conv')
  then show ?case using Cons.IH by (simp add: observe_all_def told_errors_def)
qed (simp add: observe_all_def told_errors_def)

definition reaches_store :: "Event \<Rightarrow> bool \<Rightarrow> eventStream \<Rightarrow> bool" where
  \<comment> \<open>the event passes the checks of its size and topic, and its sequence number is the next one or a reset\<close>
  "reaches_store event replayed s \<longleftrightarrow> int (length (ev_Payload event)) \<le> MaxEventBytes (es_config s)
     \<and> ev_Topic event = instanceTopic (es_instance s)
     \<and> fst (snd (classifySequence (ev_Sequence event) replayed s)) \<in> {SeqNext, SeqReset}"

lemma classify_instance: "es_instance (snd (snd (classifySequence n replayed s))) = es_instance s"
  by (simp add: classifySequence_def Let_def)

lemma invalidated_with: "invalidateAndClear store reason cause s st = (s', st') \<Longrightarrow> es_reason s' = reason"
  by (auto simp: invalidateAndClear_def Let_def Invalidate_def recordError_def split: prod.splits option.splits)

lemma apply_event_told:
  assumes "apply_event store now event replayed s st = (err, obs, s', st')"
  shows "told_errors obs = (if err = None then [] else [(in_Backend (es_instance s), es_reason s')])"
  using assms
  by (auto simp: apply_event_def publish_applied_def told_errors_def Let_def dest: invalidated_with
      split: prod.splits sum.splits apply_error.splits if_splits)

lemma accept_told:
  assumes "accept store now event replayed s st = (err, obs, s', st')"
  shows "told_errors obs = (if err \<noteq> None \<and> reaches_store event replayed s then [(in_Backend (es_instance s), es_reason s')] else [])"
proof -
  have "told_errors (ObsReset i a b rp # obs) = told_errors obs" for i a b rp obs by (simp add: told_errors_def)
  then show ?thesis
    using assms classify_instance [of "ev_Sequence event" replayed s]
    by (auto simp: accept_def reaches_store_def Let_def Invalidate_def told_errors_def [of "[]"] told_errors_def [of "[_]"] dest: apply_event_told
        split: prod.splits if_splits seq_verdict.splits option.splits)
qed

text \<open>
  Every KV event that reaches the index and fails there is counted once in \<open>kv_event_errors_total\<close>, under its
  backend and the very reason the stream is invalidated with; no other event moves that counter.
\<close>

theorem event_errors_counted:
  assumes "accept store now event replayed s st = (err, obs, s', st')"
  shows "event_errors (observe_all obs m) i r = event_errors m i r
    + (if err \<noteq> None \<and> reaches_store event replayed s \<and> i = in_Backend (es_instance s) \<and> r = es_reason s' then 1 else 0)"
  unfolding event_errors_observe_all accept_told [OF assms] by auto

definition wit_broken_store :: "unit cacheStore" where
  "wit_broken_store = wit_store\<lparr>cs_Apply := (\<lambda>st i e. (Inl (ApplyFault KVEngineRequestKeyMismatch (CauseText ''k'')), st))\<rparr>"

theorem event_errors_counted_witness:
  "\<exists>obs. fst (snd (accept wit_broken_store 20 (wit_event 7) False wit_stream ())) = obs
     \<and> event_errors (observe_all obs NewMetrics) ''a'' KVEngineRequestKeyMismatch
       = event_errors NewMetrics ''a'' KVEngineRequestKeyMismatch + 1"
proof -
  have step: "accept wit_broken_store 20 (wit_event 7) False wit_stream ()
    = (Some (CauseText ''k''), [ObsEventError ''a'' KVEngineRequestKeyMismatch False],
       Invalidate KVEngineRequestKeyMismatch (CauseText ''k'') wit_stream, ())"
    using wit_topic
    by (simp add: accept_def apply_event_def classifySequence_def isSequenceReset_def invalidateAndClear_def wit_broken_store_def
        wit_stream_defs)
  have "reaches_store (wit_event 7) False wit_stream"
    using wit_topic by (simp add: reaches_store_def classifySequence_def isSequenceReset_def wit_stream_defs)
  moreover have "in_Backend (es_instance wit_stream) = ''a''" by (simp add: wit_stream_defs)
  ultimately show ?thesis
    using event_errors_counted [OF step, of NewMetrics "''a''" KVEngineRequestKeyMismatch] by (simp add: step Invalidate_def)
qed

end
