(* ===== verification/Client.thy ===== *)
theory Client
  imports Go_Parse Forwarding
begin

text \<open>
  \<open>internal/workload/client\<close>, the request side: the configuration of the client, the request it sends,
  the decision headers it keeps, the server-sent events it drains and the conversation history
  (\<open>client.go\<close>, \<open>client_impl.go\<close>, \<open>sse_impl.go\<close>, \<open>history_impl.go\<close>). The JSON codec and the HTTP exchange
  are arguments: \<open>decode\<close> yields the contents of the choices of one event. The scanner of \<open>bufio\<close> is
  modelled on the whole body: lines end at a newline, a carriage return before it is dropped, an empty last
  line is not reported, and a line that does not fit in the buffer ends the scan with an error.
\<close>

subsection \<open>Server-sent events\<close>

definition sseDataPrefix :: string where "sseDataPrefix = ''data:''"
definition sseDone :: string where "sseDone = ''[DONE]''"
definition maxSSELine :: nat where "maxSSELine = 1048576"

definition sseData :: "string \<Rightarrow> string option" where
  "sseData line0 =
     (let line = TrimSpace line0
      in if \<not> starts_with sseDataPrefix line then None else Some (TrimSpace (drop (length sseDataPrefix) line)))"

definition streamContent :: "(string \<Rightarrow> string list option) \<Rightarrow> string \<Rightarrow> string option" where
  "streamContent decode event = map_option concat (decode event)"

definition drop_cr :: "string \<Rightarrow> string" where
  "drop_cr l = (if l \<noteq> [] \<and> last l = CHR 0x0D then butlast l else l)"

definition scan_pieces :: "string \<Rightarrow> string list" where
  "scan_pieces body =
     (let pieces = split_at (CHR 0x0A) body in if last pieces = [] then butlast pieces else pieces)"

definition scan_lines :: "nat \<Rightarrow> string \<Rightarrow> string list \<times> bool" where
  \<comment> \<open>the tokens and whether the scan ended with \<open>ErrTooLong\<close>\<close>
  "scan_lines limit body =
     (let pieces = scan_pieces body; fits = takeWhile (\<lambda>p. length p < limit) pieces
      in (map drop_cr fits, length fits < length pieces))"

datatype stream_error = ErrNoFirstEvent | ErrDecodeEvent | ErrWriteOutput | ErrReadStream | ErrNoTerminalEvent

fun consume_loop :: "(string \<Rightarrow> string list option) \<Rightarrow> (string \<Rightarrow> bool) option \<Rightarrow> time \<Rightarrow> time \<Rightarrow> bool \<Rightarrow>
    string list \<Rightarrow> string \<Rightarrow> bool \<Rightarrow> string \<times> duration \<times> stream_error option" where
  \<comment> \<open>\<open>output\<close> tells which texts can be appended to the writer, if there is one; \<open>seen\<close> is \<open>!firstEventAt.IsZero()\<close>\<close>
  "consume_loop decode output startedAt firstAt scan_failed [] text seen =
     (text, 0, Some (if scan_failed then ErrReadStream else ErrNoTerminalEvent))"
| "consume_loop decode output startedAt firstAt scan_failed (l # ls) text seen =
     (case sseData l of
        None \<Rightarrow> consume_loop decode output startedAt firstAt scan_failed ls text seen
      | Some event \<Rightarrow>
          if event = sseDone
          then (if \<not> seen then ([], 0, Some ErrNoFirstEvent) else (text, time_sub firstAt startedAt, None))
          else (case streamContent decode event of
                  None \<Rightarrow> (text, 0, Some ErrDecodeEvent)
                | Some content \<Rightarrow>
                    if (case output of None \<Rightarrow> False | Some writes \<Rightarrow> content \<noteq> [] \<and> \<not> writes (text @ content))
                    then (text @ content, 0, Some ErrWriteOutput)
                    else consume_loop decode output startedAt firstAt scan_failed ls (text @ content) True))"

definition consumeStream :: "(string \<Rightarrow> string list option) \<Rightarrow> (string \<Rightarrow> bool) option \<Rightarrow> time \<Rightarrow> time \<Rightarrow> string \<Rightarrow> bool \<Rightarrow>
    string \<times> duration \<times> stream_error option" where
  \<comment> \<open>\<open>read_failed\<close>: the reader ended with an error instead of the end of the body\<close>
  "consumeStream decode output startedAt firstAt body read_failed =
     (let (lines, too_long) = scan_lines maxSSELine body
      in consume_loop decode output startedAt firstAt (too_long \<or> read_failed) lines [] False)"

subsection \<open>Requests\<close>

record Message =
  msg_Role :: string
  msg_Content :: string

definition RoleSystem :: string where "RoleSystem = ''system''"
definition RoleUser :: string where "RoleUser = ''user''"
definition RoleAssistant :: string where "RoleAssistant = ''assistant''"

definition DefaultMaxTokens :: int where "DefaultMaxTokens = 32"

record client_Config =
  cl_Endpoint :: string
  cl_Model :: string
  cl_MaxTokens :: int
  cl_RequestTimeout :: duration
  cl_APIKey :: string

record client_Request =
  crq_Messages :: "Message list"
  crq_SessionKey :: string
  crq_CacheSalt :: string
  crq_IgnoreEOS :: bool
  crq_MaxTokens :: int

datatype client_error =
    ErrClientEndpoint string
  | ErrClientSettings
  | ErrNoMessages
  | ErrEncodeRequest
  | ErrSendRequest
  | ErrStatus int string
  | ErrStream stream_error

definition client_New :: "url_parser \<Rightarrow> client_Config \<Rightarrow> client_error + client_Config" where
  \<comment> \<open>the client is its configuration\<close>
  "client_New url_parse config =
     (if (case url_parse (cl_Endpoint config) of None \<Rightarrow> True
          | Some (scheme, host) \<Rightarrow> scheme = [] \<or> host = [] \<or> (scheme \<noteq> ''http'' \<and> scheme \<noteq> ''https''))
      then Inl (ErrClientEndpoint (cl_Endpoint config))
      else if TrimSpace (cl_Model config) = [] \<or> cl_RequestTimeout config \<le> 0 then Inl ErrClientSettings
      else Inr (if cl_MaxTokens config \<le> 0 then config\<lparr>cl_MaxTokens := DefaultMaxTokens\<rparr> else config))"

record completionRequest =
  cpr_Model :: string
  cpr_Messages :: "Message list"
  cpr_Stream :: bool
  cpr_MaxTokens :: int
  cpr_CacheSalt :: string
  cpr_IgnoreEOS :: bool

definition encodeRequest :: "client_Config \<Rightarrow> client_Request \<Rightarrow> completionRequest" where
  \<comment> \<open>the value handed to the JSON encoder\<close>
  "encodeRequest c r =
     \<lparr>cpr_Model = cl_Model c, cpr_Messages = crq_Messages r, cpr_Stream = True,
      cpr_MaxTokens = (if crq_MaxTokens r > 0 then crq_MaxTokens r else cl_MaxTokens c),
      cpr_CacheSalt = crq_CacheSalt r, cpr_IgnoreEOS = crq_IgnoreEOS r\<rparr>"

definition client_request_headers :: "client_Config \<Rightarrow> string \<Rightarrow> Header" where
  "client_request_headers c sessionKey =
     (let h1 = Header_Set ''Accept'' ''text/event-stream'' (Header_Set ''Content-Type'' ''application/json'' []);
          h2 = (if cl_APIKey c \<noteq> [] then Header_Set ''Authorization'' (''Bearer '' @ cl_APIKey c) h1 else h1)
      in if sessionKey \<noteq> [] then Header_Set ''X-FishMesh-Session-Key'' sessionKey h2 else h2)"

definition client_request_url :: "client_Config \<Rightarrow> string" where
  "client_request_url c = TrimRightSlash (cl_Endpoint c) @ ''/v1/chat/completions''"

subsection \<open>Decision headers\<close>

definition nonNegativeInt :: "string \<Rightarrow> int" where
  \<comment> \<open>also \<open>nonNegativeInt64\<close> and \<open>cachedPrefixTokens\<close>\<close>
  "nonNegativeInt raw = (case Atoi (TrimSpace raw) of None \<Rightarrow> 0 | Some v \<Rightarrow> if v < 0 then 0 else v)"

definition nonNegativeFloat :: "(string \<Rightarrow> f64 option) \<Rightarrow> string \<Rightarrow> f64" where
  "nonNegativeFloat parse_float raw =
     (case parse_float (TrimSpace raw) of None \<Rightarrow> Fin 0
      | Some v \<Rightarrow> if f_lt v (Fin 0) \<or> is_NaN v \<or> is_Inf v then Fin 0 else v)"

definition headerBool :: "string \<Rightarrow> bool" where
  "headerBool raw = (ParseBool (TrimSpace raw) = Some True)"

record DecisionHeaders =
  dh_RoutingMode :: string
  dh_RouteReason :: string
  dh_BackendID :: string
  dh_PreferredBackendID :: string
  dh_Policy :: string
  dh_SpilloverReason :: string
  dh_KVStatus :: string
  dh_CachedPrefixTokens :: int
  dh_PromptTokens :: int
  dh_UncachedTokens :: int
  dh_EstimatedTTFTMS :: f64
  dh_EstimatorValid :: bool
  dh_EstimatorConfidence :: string
  dh_EstimatorVersion :: string
  dh_EstimatorReason :: string
  dh_LoadValid :: bool
  dh_LoadSampleAgeMS :: f64
  dh_QueueDepth :: int
  dh_RunningRequests :: int
  dh_LocalDelta :: int
  dh_LocalInflight :: int
  dh_HardOverloadCandidates :: int
  dh_PredictionStatus :: string
  dh_PredictionModel :: string
  dh_PredictionWouldSelect :: string
  dh_PredictionSelectedMS :: f64
  dh_PredictionWouldSelectMS :: f64
  dh_PredictionSamples :: int
  dh_Upstream :: string

definition decisionHeaders :: "(string \<Rightarrow> f64 option) \<Rightarrow> Header \<Rightarrow> DecisionHeaders" where
  "decisionHeaders parse_float headers =
     (let get = Header_Get headers
      in \<lparr>dh_RoutingMode = get ''X-FishMesh-Routing-Mode'', dh_RouteReason = get ''X-FishMesh-Route-Reason'',
          dh_BackendID = get ''X-FishMesh-Backend-ID'', dh_PreferredBackendID = get ''X-FishMesh-Preferred-Backend-ID'',
          dh_Policy = get ''X-FishMesh-Policy'', dh_SpilloverReason = get ''X-FishMesh-Spillover-Reason'',
          dh_KVStatus = get ''X-FishMesh-KV-Status'', dh_CachedPrefixTokens = nonNegativeInt (get ''X-FishMesh-Cached-Prefix-Tokens''),
          dh_PromptTokens = nonNegativeInt (get ''X-FishMesh-Prompt-Tokens''),
          dh_UncachedTokens = nonNegativeInt (get ''X-FishMesh-Uncached-Tokens''),
          dh_EstimatedTTFTMS = nonNegativeFloat parse_float (get ''X-FishMesh-Estimated-TTFT-Ms''),
          dh_EstimatorValid = headerBool (get ''X-FishMesh-Estimator-Valid''),
          dh_EstimatorConfidence = get ''X-FishMesh-Estimator-Confidence'', dh_EstimatorVersion = get ''X-FishMesh-Estimator-Version'',
          dh_EstimatorReason = get ''X-FishMesh-Estimator-Reason'', dh_LoadValid = headerBool (get ''X-FishMesh-Load-Valid''),
          dh_LoadSampleAgeMS = nonNegativeFloat parse_float (get ''X-FishMesh-Load-Sample-Age-Ms''),
          dh_QueueDepth = nonNegativeInt (get ''X-FishMesh-Queue-Depth''),
          dh_RunningRequests = nonNegativeInt (get ''X-FishMesh-Running-Requests''),
          dh_LocalDelta = nonNegativeInt (get ''X-FishMesh-Local-Delta''), dh_LocalInflight = nonNegativeInt (get ''X-FishMesh-Local-Inflight''),
          dh_HardOverloadCandidates = nonNegativeInt (get ''X-FishMesh-Hard-Overload-Candidates''),
          dh_PredictionStatus = get ''X-FishMesh-Prediction-Status'', dh_PredictionModel = get ''X-FishMesh-Prediction-Model'',
          dh_PredictionWouldSelect = get ''X-FishMesh-Prediction-Would-Select'',
          dh_PredictionSelectedMS = nonNegativeFloat parse_float (get ''X-FishMesh-Prediction-Selected-TTFT-Ms''),
          dh_PredictionWouldSelectMS = nonNegativeFloat parse_float (get ''X-FishMesh-Prediction-Would-Select-TTFT-Ms''),
          dh_PredictionSamples = nonNegativeInt (get ''X-FishMesh-Prediction-Samples''), dh_Upstream = get ''X-FishMesh-Upstream''\<rparr>)"

definition zero_DecisionHeaders :: DecisionHeaders where
  "zero_DecisionHeaders = decisionHeaders (\<lambda>_. None) []"

subsection \<open>One request\<close>

record http_answer =
  ha_StatusCode :: int
  ha_Header :: Header
  ha_Body :: string
  ha_read_failed :: bool

record client_Result =
  crs_StatusCode :: int
  crs_Headers :: DecisionHeaders
  crs_Text :: string
  crs_TTFT :: duration
  crs_Duration :: duration
  crs_HasCachedPrefixSample :: bool

definition zero_Result :: client_Result where
  "zero_Result = \<lparr>crs_StatusCode = 0, crs_Headers = zero_DecisionHeaders, crs_Text = [], crs_TTFT = 0, crs_Duration = 0,
     crs_HasCachedPrefixSample = False\<rparr>"

record send_world =
  sw_decode :: "string \<Rightarrow> string list option"
  sw_parse_float :: "string \<Rightarrow> f64 option"
  sw_output :: "(string \<Rightarrow> bool) option"
  sw_encodable :: bool \<comment> \<open>\<open>json.Marshal\<close> of the request succeeds\<close>
  sw_answer :: "http_answer option" \<comment> \<open>\<open>None\<close>: the request could not be built or sent\<close>
  sw_startedAt :: time
  sw_firstAt :: time
  sw_endedAt :: time

definition responseErrorLimit :: nat where "responseErrorLimit = 4096"

definition client_Send :: "send_world \<Rightarrow> client_Request \<Rightarrow> client_Result \<times> client_error option" where
  "client_Send w request =
     (if crq_Messages request = [] then (zero_Result, Some ErrNoMessages)
      else if \<not> sw_encodable w then (zero_Result, Some ErrEncodeRequest)
      else
        let elapsed = time_sub (sw_endedAt w) (sw_startedAt w)
        in case sw_answer w of
             None \<Rightarrow> (zero_Result\<lparr>crs_Duration := elapsed\<rparr>, Some ErrSendRequest)
           | Some answer \<Rightarrow>
               let result = zero_Result\<lparr>crs_StatusCode := ha_StatusCode answer,
                     crs_Headers := decisionHeaders (sw_parse_float w) (ha_Header answer)\<rparr>
               in if ha_StatusCode answer < 200 \<or> ha_StatusCode answer \<ge> 300
                  then (result\<lparr>crs_Duration := elapsed\<rparr>,
                        Some (ErrStatus (ha_StatusCode answer) (TrimSpace (take responseErrorLimit (ha_Body answer)))))
                  else
                    let (text, ttft, err) = consumeStream (sw_decode w) (sw_output w) (sw_startedAt w) (sw_firstAt w)
                          (ha_Body answer) (ha_read_failed answer)
                    in (result\<lparr>crs_Text := text, crs_TTFT := ttft, crs_Duration := elapsed,
                          crs_HasCachedPrefixSample := (dh_KVStatus (crs_Headers result) = ''available'')\<rparr>,
                        map_option ErrStream err))"

subsection \<open>History\<close>

datatype history_error = ErrHistoryPath | ErrHistoryRole string | ErrHistoryContent | ErrHistoryRead | ErrHistoryDecode
  | ErrHistoryTrailing | ErrHistoryWrite

fun validateMessages :: "Message list \<Rightarrow> history_error option" where
  "validateMessages [] = None"
| "validateMessages (m # ms) =
     (if msg_Role m \<notin> {RoleSystem, RoleUser, RoleAssistant} then Some (ErrHistoryRole (msg_Role m))
      else if msg_Content m = [] then Some ErrHistoryContent
      else validateMessages ms)"

datatype file_read = FileMissing | FileError | FileBytes string

definition LoadHistory :: "(string \<Rightarrow> file_read) \<Rightarrow> (string \<Rightarrow> (Message list \<times> bool) option) \<Rightarrow> string \<Rightarrow>
    history_error + Message list" where
  "LoadHistory read_file decode path =
     (if path = [] then Inl ErrHistoryPath
      else case read_file path of
        FileMissing \<Rightarrow> Inr []
      | FileError \<Rightarrow> Inl ErrHistoryRead
      | FileBytes body \<Rightarrow>
          (case decode body of
             None \<Rightarrow> Inl ErrHistoryDecode
           | Some (messages, at_end) \<Rightarrow>
               if \<not> at_end then Inl ErrHistoryTrailing
               else case validateMessages messages of Some e \<Rightarrow> Inl e | None \<Rightarrow> Inr messages))"

definition SaveHistory :: "(Message list \<Rightarrow> string) \<Rightarrow> bool \<Rightarrow> string \<Rightarrow> Message list \<Rightarrow> (string \<Rightarrow> file_read) \<Rightarrow>
    history_error option \<times> (string \<Rightarrow> file_read)" where
  \<comment> \<open>the file is replaced by the rename at the end, or not at all (\<open>written\<close> is false)\<close>
  "SaveHistory encode written path messages files =
     (if path = [] then (Some ErrHistoryPath, files)
      else case validateMessages messages of
        Some e \<Rightarrow> (Some e, files)
      | None \<Rightarrow> if \<not> written then (Some ErrHistoryWrite, files)
                else (None, files(path := FileBytes (encode messages @ [CHR 0x0A]))))"

definition ClearHistory :: "bool \<Rightarrow> string \<Rightarrow> (string \<Rightarrow> file_read) \<Rightarrow> history_error option \<times> (string \<Rightarrow> file_read)" where
  "ClearHistory removed path files =
     (if path = [] then (Some ErrHistoryPath, files)
      else if files path = FileMissing then (None, files)
      else if \<not> removed then (Some ErrHistoryWrite, files)
      else (None, files(path := FileMissing)))"

subsection \<open>A drained stream\<close>

definition body_events :: "string \<Rightarrow> string list" where
  \<comment> \<open>the data events of the lines the scanner reports\<close>
  "body_events body = List.map_filter sseData (fst (scan_lines maxSSELine body))"

definition drained :: "(string \<Rightarrow> string list option) \<Rightarrow> string list \<Rightarrow> string \<Rightarrow> bool \<Rightarrow> string \<Rightarrow> bool" where
  \<comment> \<open>the events up to the terminal one decode to the rest of the text; at least one event was seen\<close>
  "drained decode events text seen out \<longleftrightarrow>
     (\<exists>evs rest cs. events = evs @ sseDone # rest \<and> sseDone \<notin> set evs \<and> (seen \<or> evs \<noteq> [])
        \<and> map (streamContent decode) evs = map Some cs \<and> out = text @ concat cs)"

lemma drained_Nil [simp]: "\<not> drained decode [] text seen out"
  by (simp add: drained_def)

lemma drained_done: "drained decode (sseDone # es) text seen out \<longleftrightarrow> seen \<and> out = text"
proof
  show "seen \<and> out = text" if "drained decode (sseDone # es) text seen out"
    using that by (auto simp: drained_def Cons_eq_append_conv)
  show "drained decode (sseDone # es) text seen out" if "seen \<and> out = text"
    using that unfolding drained_def by (intro exI [of _ "[]"] exI [of _ es] exI [of _ "[]"]) simp
qed

lemma drained_event:
  assumes "e \<noteq> sseDone"
  shows "drained decode (e # es) text seen out \<longleftrightarrow>
    (\<exists>c. streamContent decode e = Some c \<and> drained decode es (text @ c) True out)"
proof
  assume "drained decode (e # es) text seen out"
  then obtain evs rest cs where d: "e # es = evs @ sseDone # rest" "sseDone \<notin> set evs"
      "map (streamContent decode) evs = map Some cs" "out = text @ concat cs" by (auto simp: drained_def)
  from d(1) assms obtain evs' where e: "evs = e # evs'" by (cases evs) auto
  with d(3) obtain c cs' where c: "cs = c # cs'" "streamContent decode e = Some c" by (cases cs) auto
  have "drained decode es (text @ c) True out"
    unfolding drained_def by (rule exI [of _ evs'], rule exI [of _ rest], rule exI [of _ cs']) (use d e c in simp)
  with c(2) show "\<exists>c. streamContent decode e = Some c \<and> drained decode es (text @ c) True out" by blast
next
  assume "\<exists>c. streamContent decode e = Some c \<and> drained decode es (text @ c) True out"
  then obtain c evs rest cs where d: "streamContent decode e = Some c" "es = evs @ sseDone # rest" "sseDone \<notin> set evs"
      "map (streamContent decode) evs = map Some cs" "out = (text @ c) @ concat cs" by (auto simp: drained_def)
  show "drained decode (e # es) text seen out"
    unfolding drained_def by (rule exI [of _ "e # evs"], rule exI [of _ rest], rule exI [of _ "c # cs"]) (use d assms in simp)
qed

lemma consume_loop_drained:
  "consume_loop decode None st fa sf ls acc seen = (out, ttft, None) \<longleftrightarrow>
     drained decode (List.map_filter sseData ls) acc seen out \<and> ttft = time_sub fa st"
proof (induction ls arbitrary: acc seen)
  case Nil
  then show ?case by (simp add: List.map_filter_def)
next
  case (Cons l ls)
  show ?case
  proof (cases "sseData l")
    case None
    then show ?thesis using Cons.IH by (simp add: List.map_filter_def)
  next
    case (Some e)
    then have ev: "List.map_filter sseData (l # ls) = e # List.map_filter sseData ls" by (simp add: List.map_filter_def)
    show ?thesis
    proof (cases "e = sseDone")
      case True
      then show ?thesis unfolding ev using Some by (auto simp: drained_done)
    next
      case False
      then show ?thesis
        unfolding ev drained_event [OF False] using Some Cons.IH by (auto split: option.splits)
    qed
  qed
qed

text \<open>
  C37. A stream counts as complete exactly when its data events run up to a terminal event with at least
  one event before it and every one of those decodes; the text is then the concatenation of their contents
  in order, and the time to the first token is that of the first event. What follows the terminal event,
  a read error included, does not matter.
\<close>

theorem stream_drained_exactly:
  "consumeStream decode None startedAt firstAt body read_failed = (text, ttft, None) \<longleftrightarrow>
     (\<exists>evs rest cs. body_events body = evs @ sseDone # rest \<and> sseDone \<notin> set evs \<and> evs \<noteq> []
        \<and> map (streamContent decode) evs = map Some cs \<and> text = concat cs)
     \<and> ttft = time_sub firstAt startedAt"
  unfolding consumeStream_def body_events_def
  by (simp add: split_beta consume_loop_drained drained_def)

subsection \<open>The history survives a round trip\<close>

lemma SaveHistory_ok:
  "SaveHistory encode written path ms files = (None, files') \<Longrightarrow>
     path \<noteq> [] \<and> validateMessages ms = None \<and> files' = files(path := FileBytes (encode ms @ [CHR 0x0A]))"
  by (auto simp: SaveHistory_def split: if_splits option.splits)

text \<open>
  A history that was saved is loaded back unchanged, and no other file changes, when the decoder reads back
  what the encoder wrote; a save that fails changes no file.
\<close>

theorem history_round_trip:
  assumes "SaveHistory encode written path messages files = (err, files')"
    and "decode (encode messages @ [CHR 0x0A]) = Some (messages, True)"
  shows "(err = None \<longrightarrow> LoadHistory files' decode path = Inr messages) \<and> (err \<noteq> None \<longrightarrow> files' = files)
    \<and> (\<forall>other. other \<noteq> path \<longrightarrow> files' other = files other)"
proof (cases err)
  case None
  with SaveHistory_ok [of encode written path messages files files'] assms show ?thesis by (simp add: LoadHistory_def)
next
  case (Some e)
  with assms(1) have "files' = files" by (auto simp: SaveHistory_def split: if_splits option.splits)
  with Some show ?thesis by simp
qed

end
