(* ===== verification/Kubernetes_Api.thy ===== *)
theory Kubernetes_Api
  imports Composition Client
begin

text \<open>
  The two readers of the Kubernetes API: \<open>getJSON\<close> and the whole \<open>Enrich\<close> of
  \<open>internal/serving/identity/kubernetes_impl.go\<close>, and \<open>listURL\<close>, \<open>authorize\<close>, \<open>getJSON\<close> and the exchange of
  \<open>watch\<close> of \<open>internal/serving/discovery/endpointslice_api_impl.go\<close>, down to the URL and the headers of
  each request. What the server, the file system and the JSON decoder answer is the record \<open>api_world\<close>
  and the decoder arguments; \<open>url.PathEscape\<close>, \<open>url.QueryEscape\<close>, \<open>Values.Encode\<close> and \<open>URL.EscapedPath\<close>
  are written out.
\<close>

subsection \<open>Escaping\<close>

definition is_alnum :: "char \<Rightarrow> bool" where
  "is_alnum c \<longleftrightarrow> (CHR ''a'' \<le> c \<and> c \<le> CHR ''z'') \<or> (CHR ''A'' \<le> c \<and> c \<le> CHR ''Z'') \<or> (CHR ''0'' \<le> c \<and> c \<le> CHR ''9'')"

definition unreserved :: "char \<Rightarrow> bool" where
  "unreserved c \<longleftrightarrow> is_alnum c \<or> c \<in> set ''-_.~''"

definition upper_hex :: "nat \<Rightarrow> char" where
  "upper_hex n = char_of (if n < 10 then 48 + n else 55 + n)"

definition percent :: "char \<Rightarrow> string" where
  "percent c = [CHR ''%'', upper_hex (of_char c div 16), upper_hex (of_char c mod 16)]"

definition url_escape :: "(char \<Rightarrow> bool) \<Rightarrow> string \<Rightarrow> string" where
  "url_escape keep s = concat (map (\<lambda>c. if keep c then [c] else percent c) s)"

definition PathEscape :: "string \<Rightarrow> string" where
  "PathEscape = url_escape (\<lambda>c. unreserved c \<or> c \<in> set ''$&+=:@'')"

definition EscapedPath :: "string \<Rightarrow> string" where
  \<comment> \<open>of a URL whose \<open>RawPath\<close> is empty\<close>
  "EscapedPath p = (if p = ''*'' then p else url_escape (\<lambda>c. unreserved c \<or> c \<in> set ''$&+,/:;=@'') p)"

definition QueryEscape :: "string \<Rightarrow> string" where
  "QueryEscape s = concat (map (\<lambda>c. if unreserved c then [c] else if c = CHR '' '' then ''+'' else percent c) s)"

definition Values_Encode :: "(string, string list) gomap \<Rightarrow> string" where
  "Values_Encode values =
     (let pairs = concat (map (\<lambda>k. map (\<lambda>v. QueryEscape k @ ''='' @ QueryEscape v) (mget [] values k)) (sort (map fst values)))
      in case pairs of [] \<Rightarrow> [] | p # ps \<Rightarrow> foldl (\<lambda>s q. s @ ''&'' @ q) p ps)"

subsection \<open>The exchange\<close>

record api_request =
  aq_URL :: string
  aq_Header :: Header

record api_response =
  as_StatusCode :: int
  as_Status :: string
  as_Body :: string

record api_world =
  aw_read_file :: "string \<Rightarrow> string + string" \<comment> \<open>the text of the error, or the bytes\<close>
  aw_url_error :: "string \<Rightarrow> string option" \<comment> \<open>the error of \<open>NewRequestWithContext\<close>\<close>
  aw_do :: "api_request \<Rightarrow> string + api_response"

definition maxResponseBytes :: nat where "maxResponseBytes = 4 * 2 ^ 20"
definition maxAPIErrorBodyBytes :: nat where "maxAPIErrorBodyBytes = 1024"
definition maxEndpointWatchLineBytes :: nat where "maxEndpointWatchLineBytes = 2 ^ 20"

definition with_token :: "string \<Rightarrow> Header \<Rightarrow> Header" where
  "with_token token h = Header_Set ''Authorization'' (''Bearer '' @ TrimSpace token) h"

definition accept_json :: "Header \<Rightarrow> Header" where
  "accept_json h = Header_Set ''Accept'' ''application/json'' h"

subsection \<open>Pods\<close>

definition identity_getJSON :: "api_world \<Rightarrow> (string \<Rightarrow> string + 'v) \<Rightarrow> identity_Config \<Rightarrow> string \<Rightarrow> string + 'v" where
  "identity_getJSON aw decode p requestPath =
     (case aw_read_file aw (icf_TokenFile p) of
        Inl e \<Rightarrow> Inl (''read Kubernetes service account token: '' @ e)
      | Inr token \<Rightarrow>
          let requestURL = TrimRightSlash (icf_BaseURL p) @ path_Join [''/'', requestPath]
          in case aw_url_error aw requestURL of
               Some e \<Rightarrow> Inl e
             | None \<Rightarrow>
               (case aw_do aw \<lparr>aq_URL = requestURL, aq_Header = accept_json (with_token token [])\<rparr> of
                  Inl e \<Rightarrow> Inl e
                | Inr response \<Rightarrow>
                    if as_StatusCode response \<noteq> 200
                    then Inl (''Kubernetes Pod API returned '' @ as_Status response @ '': ''
                      @ TrimSpace (take maxAPIErrorBodyBytes (as_Body response)))
                    else (case decode (take maxResponseBytes (as_Body response)) of
                            Inl e \<Rightarrow> Inl (''decode Kubernetes Pod API response: '' @ e)
                          | Inr v \<Rightarrow> Inr v)))"

definition kubernetes_Enrich :: "api_world \<Rightarrow> (string \<Rightarrow> string + pod list) \<Rightarrow> (string \<Rightarrow> f64 option) \<Rightarrow> identity_Config \<Rightarrow>
    Backend list \<Rightarrow> enrich_result" where
  "kubernetes_Enrich aw decode parse_float p backends =
     (case identity_getJSON aw decode p (''/api/v1/namespaces/'' @ PathEscape (icf_Namespace p) @ ''/pods'') of
        Inl e \<Rightarrow> EnrichFailed e
      | Inr pods \<Rightarrow> EnrichOK (Enrich parse_float pods backends))"

subsection \<open>EndpointSlices\<close>

record api_url =
  \<comment> \<open>a parsed \<open>BaseURL\<close>: \<open>scheme://host\<close>, the decoded path and the decoded query\<close>
  au_Prefix :: string
  au_Path :: string
  au_Query :: "(string, string list) gomap"

definition URL_String :: "api_url \<Rightarrow> string" where
  "URL_String u = au_Prefix u @ EscapedPath (au_Path u)
     @ (let q = Values_Encode (au_Query u) in if q = [] then [] else ''?'' @ q)"

definition Values_Set :: "string \<Rightarrow> string \<Rightarrow> api_url \<Rightarrow> api_url" where
  "Values_Set k v u = u\<lparr>au_Query := AList.update k [v] (au_Query u)\<rparr>"

definition listURL :: "(string \<Rightarrow> api_url) \<Rightarrow> EndpointSliceConfig \<Rightarrow> api_url" where
  \<comment> \<open>\<open>parse\<close> is \<open>url.Parse\<close> on the base URL, which the constructor has checked\<close>
  "listURL parse config =
     (let base = parse (ec_BaseURL config)
      in Values_Set ''labelSelector'' (''kubernetes.io/service-name='' @ ec_ServiceName config)
           (base\<lparr>au_Path := TrimRightSlash (au_Path base) @ ''/apis/discovery.k8s.io/v1/namespaces/''
              @ PathEscape (ec_Namespace config) @ ''/endpointslices''\<rparr>))"

definition authorize :: "api_world \<Rightarrow> EndpointSliceConfig \<Rightarrow> Header \<Rightarrow> string + Header" where
  "authorize aw config h =
     (case aw_read_file aw (ec_TokenFile config) of
        Inl e \<Rightarrow> Inl (''read Kubernetes service account token: '' @ e)
      | Inr token \<Rightarrow> Inr (with_token token h))"

definition slices_request :: "api_world \<Rightarrow> EndpointSliceConfig \<Rightarrow> string \<Rightarrow> string + api_response" where
  \<comment> \<open>the common part of \<open>getJSON\<close> and \<open>watch\<close>: request, token, \<open>Accept\<close>, \<open>Do\<close>\<close>
  "slices_request aw config requestURL =
     (case aw_url_error aw requestURL of
        Some e \<Rightarrow> Inl e
      | None \<Rightarrow> (case authorize aw config [] of
                   Inl e \<Rightarrow> Inl e
                 | Inr h \<Rightarrow> aw_do aw \<lparr>aq_URL = requestURL, aq_Header = accept_json h\<rparr>))"

definition slices_getJSON :: "api_world \<Rightarrow> (string \<Rightarrow> string + 'v) \<Rightarrow> EndpointSliceConfig \<Rightarrow> api_url \<Rightarrow> string + 'v" where
  "slices_getJSON aw decode config requestURL =
     (case slices_request aw config (URL_String requestURL) of
        Inl e \<Rightarrow> Inl e
      | Inr response \<Rightarrow>
          if as_StatusCode response \<noteq> 200
          then Inl (''EndpointSlice API returned '' @ as_Status response @ '': ''
            @ TrimSpace (take maxAPIErrorBodyBytes (as_Body response)))
          else (case decode (take maxResponseBytes (as_Body response)) of
                  Inl e \<Rightarrow> Inl (''decode EndpointSlice API response: '' @ e)
                | Inr v \<Rightarrow> Inr v))"

definition watch_url :: "(string \<Rightarrow> api_url) \<Rightarrow> EndpointSliceConfig \<Rightarrow> string \<Rightarrow> api_url" where
  "watch_url parse config resourceVersion =
     (let u = Values_Set ''watch'' ''true'' (listURL parse config)
      in if resourceVersion \<noteq> [] then Values_Set ''resourceVersion'' resourceVersion u else u)"

definition open_watch :: "api_world \<Rightarrow> (string \<Rightarrow> watch_item) \<Rightarrow> (string \<Rightarrow> api_url) \<Rightarrow> endpointSliceResolver \<Rightarrow>
    string + watch_item list \<times> string option" where
  "open_watch aw decode_line parse r =
     (case slices_request aw (er_config r) (URL_String (watch_url parse (er_config r) (er_version r))) of
        Inl e \<Rightarrow> Inl e
      | Inr response \<Rightarrow>
          if as_StatusCode response \<noteq> 200 then Inl (''EndpointSlice watch API returned '' @ as_Status response)
          else
            let (lines, too_long) = scan_lines maxEndpointWatchLineBytes (take maxResponseBytes (as_Body response))
            in Inr (map decode_line lines, if too_long then Some ''bufio.Scanner: token too long'' else None))"

definition api_refresh :: "api_world \<Rightarrow> (string \<Rightarrow> string + endpointSliceList) \<Rightarrow> (string \<Rightarrow> api_url) \<Rightarrow>
    (addressPort list \<Rightarrow> addressPort list) \<Rightarrow> time \<Rightarrow> endpointSliceResolver \<Rightarrow> discovery_error option \<times> endpointSliceResolver" where
  "api_refresh aw decode parse iterate now r =
     discovery_refresh iterate now (slices_getJSON aw decode (er_config r) (listURL parse (er_config r))) r"

definition api_watch_round :: "api_world \<Rightarrow> (string \<Rightarrow> watch_item) \<Rightarrow> (string \<Rightarrow> string + endpointSliceList) \<Rightarrow> (string \<Rightarrow> api_url) \<Rightarrow>
    (addressPort list \<Rightarrow> addressPort list) \<Rightarrow> time \<Rightarrow> endpointSliceResolver \<Rightarrow> endpointSliceResolver" where
  \<comment> \<open>one turn of \<open>watchLoop\<close> whose context is not cancelled\<close>
  "api_watch_round aw decode_line decode parse iterate now r =
     watch_round iterate now (open_watch aw decode_line parse r)
       (slices_getJSON aw decode (er_config r) (listURL parse (er_config r))) r"

subsection \<open>What is asked of the API\<close>

definition dns_label :: "string \<Rightarrow> bool" where
  \<comment> \<open>what Kubernetes accepts as the name of a namespace or of a service\<close>
  "dns_label s \<longleftrightarrow> s \<noteq> [] \<and> list_all (\<lambda>c. is_alnum c \<or> c = CHR ''-'') s"

lemma url_escape_keep: "list_all keep s \<Longrightarrow> url_escape keep s = s"
  by (induction s) (simp_all add: url_escape_def)

lemma dns_label_file: "dns_label s \<Longrightarrow> PathEscape s = s" "dns_label s \<Longrightarrow> CHR ''/'' \<notin> set s"
    "dns_label s \<Longrightarrow> s \<noteq> [] \<and> s \<noteq> ''.'' \<and> s \<noteq> ''..''"
  unfolding PathEscape_def
  by (auto simp: dns_label_def list_all_iff unreserved_def is_alnum_def less_eq_char_def intro!: url_escape_keep)

lemma pods_path:
  assumes "dns_label ns"
  shows "path_Join [''/'', ''/api/v1/namespaces/'' @ ns @ ''/pods''] = ''/api/v1/namespaces/'' @ ns @ ''/pods''"
proof -
  note ns = dns_label_file [OF assms]
  have "split_at (CHR ''/'') (''///api/v1/namespaces/'' @ ns @ ''/pods'')
    = ['''', '''', '''', ''api'', ''v1'', ''namespaces'', ns, ''pods'']"
    using split_at_sep [of "CHR ''/''" "''''"] split_at_sep [of "CHR ''/''" "''api''"] split_at_sep [of "CHR ''/''" "''v1''"]
      split_at_sep [of "CHR ''/''" "''namespaces''"] split_at_sep [OF ns(2), of "''pods''"] split_at_line [of "CHR ''/''" "''pods''"]
    by simp
  then show ?thesis using ns(3) by (simp add: path_Join_def path_Clean_def Let_def)
qed

lemma Header_Get_other:
  "CanonicalMIMEHeaderKey k \<noteq> CanonicalMIMEHeaderKey k' \<Longrightarrow> Header_Get (Header_Set k v h) k' = Header_Get h k'"
  by (simp add: Header_Get_def Header_Values_def Header_Set_def mget_def update_conv')

lemma bearer_header: "Header_Get (accept_json (with_token token h)) ''Authorization'' = ''Bearer '' @ TrimSpace token"
proof -
  have "CanonicalMIMEHeaderKey ''Accept'' \<noteq> CanonicalMIMEHeaderKey ''Authorization''" by code_simp
  then show ?thesis
    unfolding accept_json_def with_token_def
    by (simp add: Header_Get_other) (simp add: Header_Get_def Header_Values_def Header_Set_def mget_def update_conv')
qed

lemma NewKubernetes_fields:
  assumes "NewKubernetes w has_client config = Inr p"
  obtains base host where "p = config\<lparr>icf_BaseURL := base\<rparr>" and "url_of (wd_parse w) base = Some (''https'', host)"
proof -
  define base where "base = (if TrimRightSlash (TrimSpace (icf_BaseURL config)) = [] then inClusterAPIURL (fst (wd_env w)) (snd (wd_env w))
    else TrimRightSlash (TrimSpace (icf_BaseURL config)))"
  obtain scheme host where u: "url_of (wd_parse w) base = Some (scheme, host)" "scheme = ''https''"
    and p: "p = config\<lparr>icf_BaseURL := base\<rparr>"
    using assms unfolding NewKubernetes_def Let_def base_def [symmetric]
    by (simp split: if_split_asm option.split_asm prod.split_asm)
  show thesis using that [OF p] u by simp
qed

text \<open>
  The service account token only ever goes to the configured Kubernetes API: an enricher that was
  constructed asks one thing of the outside, the Pods of its own namespace, at a URL under its HTTPS base,
  with the trimmed token as bearer; what any other request would be answered makes no difference.
\<close>

theorem identity_asks_for_pods:
  assumes "NewKubernetes w has_client config = Inr p" and "dns_label (icf_Namespace config)"
    and "aw_read_file aw (icf_TokenFile config) = Inr token"
  shows "\<exists>q host. aq_URL q = TrimRightSlash (icf_BaseURL p) @ ''/api/v1/namespaces/'' @ icf_Namespace config @ ''/pods''
    \<and> url_of (wd_parse w) (icf_BaseURL p) = Some (''https'', host)
    \<and> Header_Get (aq_Header q) ''Authorization'' = ''Bearer '' @ TrimSpace token
    \<and> (\<forall>answers. answers q = aw_do aw q \<longrightarrow>
        kubernetes_Enrich (aw\<lparr>aw_do := answers\<rparr>) decode parse_float p backends = kubernetes_Enrich aw decode parse_float p backends)"
proof -
  obtain base host where p: "p = config\<lparr>icf_BaseURL := base\<rparr>" and https: "url_of (wd_parse w) base = Some (''https'', host)"
    using assms(1) by (rule NewKubernetes_fields)
  let ?url = "TrimRightSlash base @ ''/api/v1/namespaces/'' @ icf_Namespace config @ ''/pods''"
  let ?q = "\<lparr>aq_URL = ?url, aq_Header = accept_json (with_token token [])\<rparr>"
  have "kubernetes_Enrich (aw\<lparr>aw_do := answers\<rparr>) decode parse_float p backends = kubernetes_Enrich aw decode parse_float p backends"
    if "answers ?q = aw_do aw ?q" for answers
    using that assms(3)
    by (simp add: kubernetes_Enrich_def identity_getJSON_def p dns_label_file(1) [OF assms(2)] pods_path [OF assms(2), simplified] Let_def
        split: option.split)
  then show ?thesis using https bearer_header by (intro exI [of _ ?q] exI [of _ host]) (simp add: p)
qed

definition wit_api_world :: world where
  "wit_api_world = wit_world\<lparr>wd_parse := (\<lambda>s. Some \<lparr>pu_Scheme = ''https'', pu_Host = s, pu_RawQuery = [], pu_Fragment = []\<rparr>)\<rparr>"

definition wit_identity :: identity_Config where
  "wit_identity = \<lparr>icf_Namespace = ''serving'', icf_BaseURL = ''https://k'', icf_TokenFile = ''t'', icf_CAFile = []\<rparr>"

definition wit_api :: api_world where
  "wit_api = \<lparr>aw_read_file = (\<lambda>_. Inr ''secret ''), aw_url_error = (\<lambda>_. None),
     aw_do = (\<lambda>_. Inr \<lparr>as_StatusCode = 403, as_Status = ''403 Forbidden'', as_Body = []\<rparr>)\<rparr>"

theorem identity_asks_for_pods_witness:
  "\<exists>q. aq_URL q = ''https://k/api/v1/namespaces/serving/pods'' \<and> Header_Get (aq_Header q) ''Authorization'' = ''Bearer secret''
    \<and> (\<forall>answers. answers q = aw_do wit_api q \<longrightarrow>
        kubernetes_Enrich (wit_api\<lparr>aw_do := answers\<rparr>) (\<lambda>_. Inr []) (\<lambda>_. None) wit_identity []
          = kubernetes_Enrich wit_api (\<lambda>_. Inr []) (\<lambda>_. None) wit_identity [])"
proof -
  have trims: "TrimSpace ''serving'' = ''serving''" "TrimSpace ''t'' = ''t''" "TrimSpace ''https://k'' = ''https://k''"
    "TrimRightSlash ''https://k'' = ''https://k''" "TrimSpace ''secret '' = ''secret''" "dns_label ''serving''" by code_simp+
  have "NewKubernetes wit_api_world True wit_identity = Inr wit_identity"
    by (simp add: NewKubernetes_def wit_identity_def wit_api_world_def url_of_def trims Let_def)
  then show ?thesis
    using identity_asks_for_pods [of wit_api_world True wit_identity wit_identity wit_api "''secret ''" "\<lambda>_. Inr []" "\<lambda>_. None" "[]"]
    by (auto simp: trims wit_identity_def wit_api_def)
qed

text \<open>
  The escaping does not protect a namespace that is \<open>..\<close>: \<open>path.Join\<close> then takes the path back to the Pods
  of every namespace.
\<close>

theorem dots_leave_namespace:
  assumes "icf_Namespace p = ''..''" and "aw_read_file aw (icf_TokenFile p) = Inr token"
    and "aw_url_error aw (TrimRightSlash (icf_BaseURL p) @ ''/api/v1/pods'') = None"
    and "aw_do aw \<lparr>aq_URL = TrimRightSlash (icf_BaseURL p) @ ''/api/v1/pods'', aq_Header = accept_json (with_token token [])\<rparr>
      = Inr response" and "as_StatusCode response = 200" and "decode (take maxResponseBytes (as_Body response)) = Inr pods"
  shows "kubernetes_Enrich aw decode parse_float p backends = EnrichOK (Enrich parse_float pods backends)"
proof -
  have "path_Join [''/'', ''/api/v1/namespaces/'' @ PathEscape ''..'' @ ''/pods''] = ''/api/v1/pods''" by code_simp
  then show ?thesis using assms by (simp add: kubernetes_Enrich_def identity_getJSON_def Let_def)
qed

subsection \<open>The URLs of the EndpointSlice API\<close>

definition plain :: "string \<Rightarrow> bool" where
  "plain s \<longleftrightarrow> list_all unreserved s"

lemma QueryEscape_plain: "plain s \<Longrightarrow> QueryEscape s = s"
  by (induction s) (simp_all add: plain_def QueryEscape_def)

lemma QueryEscape_app: "QueryEscape (s @ s') = QueryEscape s @ QueryEscape s'"
  by (simp add: QueryEscape_def)

lemma EscapedPath_plain: "list_all (\<lambda>c. unreserved c \<or> c = CHR ''/'') p \<Longrightarrow> EscapedPath p = p"
  unfolding EscapedPath_def by (auto simp: list_all_iff intro!: url_escape_keep)

lemma dns_label_plain: "dns_label s \<Longrightarrow> plain s"
  by (auto simp: dns_label_def plain_def list_all_iff unreserved_def)

text \<open>
  The resolver lists and watches the slices of one Service of one namespace, and a watch resumes at the
  version the last exchange left.
\<close>

theorem slices_urls:
  assumes "parse (ec_BaseURL config) = \<lparr>au_Prefix = origin, au_Path = [], au_Query = []\<rparr>"
    and "dns_label (ec_Namespace config)" and "dns_label (ec_ServiceName config)" and "version \<noteq> []" and "plain version"
  shows "URL_String (listURL parse config) = origin @ ''/apis/discovery.k8s.io/v1/namespaces/'' @ ec_Namespace config
      @ ''/endpointslices?labelSelector=kubernetes.io%2Fservice-name%3D'' @ ec_ServiceName config"
    and "URL_String (watch_url parse config version) = URL_String (listURL parse config)
      @ ''&resourceVersion='' @ version @ ''&watch=true''"
proof -
  let ?path = "''/apis/discovery.k8s.io/v1/namespaces/'' @ ec_Namespace config @ ''/endpointslices''"
  let ?sel = "''kubernetes.io/service-name='' @ ec_ServiceName config"
  have path: "EscapedPath ?path = ?path"
    using dns_label_plain [OF assms(2)]
    by (intro EscapedPath_plain) (auto simp: plain_def list_all_iff unreserved_def is_alnum_def less_eq_char_def)
  have base: "TrimRightSlash [] = []" by code_simp
  have lst: "listURL parse config = \<lparr>au_Prefix = origin, au_Path = ?path, au_Query = [(''labelSelector'', [?sel])]\<rparr>"
    by (simp add: listURL_def Let_def Values_Set_def assms(1) base dns_label_file(1) [OF assms(2)])
  have watch: "au_Query (watch_url parse config version)
    = [(''labelSelector'', [?sel]), (''watch'', [''true'']), (''resourceVersion'', [version])]"
    using assms(4) by (simp add: watch_url_def Let_def Values_Set_def lst)
  have rest: "au_Prefix (watch_url parse config version) = origin" "au_Path (watch_url parse config version) = ?path"
    using assms(4) by (simp_all add: watch_url_def Let_def Values_Set_def lst)
  have order: "sort [''labelSelector'', ''watch'', ''resourceVersion''] = [''labelSelector'', ''resourceVersion'', ''watch'']"
    by code_simp
  have names: "QueryEscape ''labelSelector'' = ''labelSelector''" "QueryEscape ''resourceVersion'' = ''resourceVersion''"
    "QueryEscape ''watch'' = ''watch''" "QueryEscape ''true'' = ''true''"
    "QueryEscape ''kubernetes.io/service-name='' = ''kubernetes.io%2Fservice-name%3D''" by code_simp+
  have sel: "QueryEscape ?sel = ''kubernetes.io%2Fservice-name%3D'' @ ec_ServiceName config"
    unfolding QueryEscape_app names QueryEscape_plain [OF dns_label_plain [OF assms(3)]] by (rule refl)
  show one: "URL_String (listURL parse config) = origin @ ''/apis/discovery.k8s.io/v1/namespaces/'' @ ec_Namespace config
      @ ''/endpointslices?labelSelector=kubernetes.io%2Fservice-name%3D'' @ ec_ServiceName config"
    unfolding URL_String_def lst api_url.simps path
    by (simp add: Values_Encode_def names sel [simplified] mget_def)
  show "URL_String (watch_url parse config version) = URL_String (listURL parse config)
      @ ''&resourceVersion='' @ version @ ''&watch=true''"
    unfolding one unfolding URL_String_def watch rest path
    by (simp add: Values_Encode_def order names sel [simplified] mget_def QueryEscape_plain [OF assms(5)])
qed

end
