(* ===== verification/Background_Loops.thy ===== *)
theory Background_Loops
  imports KV_Service Path_Leases Admission Discovery
begin

text \<open>
  The goroutines that run until their owner is closed. A loop sees a sequence of \<open>wake\<close>s: a tick with
  whatever the clock and the outside give it then, or the cancellation, which ends it; where both are
  ready the \<open>select\<close> may take either, so every sequence is possible. The loops of the admission tuner
  (\<open>admission/tuning_impl.go\<close>), of the observation service (\<open>observation/observation_impl.go\<close>), of the
  request path (\<open>requestpath/requestpath_state_impl.go\<close>) and of the EndpointSlice resolver
  (\<open>discovery/endpointslice_impl.go\<close>) share one contract, the locale \<open>background_loop\<close>; the replay loop of a KV
  stream (\<open>kvcache/replay_impl.go\<close>) also ends by itself, at a fatal reason. The receive loop of
  \<open>kvcache/zmq_impl.go\<close> is at the end.
\<close>

subsection \<open>Tickers\<close>

datatype 'a wake = Cancelled | Ticked 'a

fun ticker_loop :: "('a \<Rightarrow> 's \<Rightarrow> 's) \<Rightarrow> 'a wake list \<Rightarrow> 's \<Rightarrow> bool \<times> 's" where
  \<comment> \<open>whether the goroutine has returned, and the state\<close>
  "ticker_loop step [] s = (False, s)"
| "ticker_loop step (Cancelled # ws) s = (True, s)"
| "ticker_loop step (Ticked a # ws) s = ticker_loop step ws (step a s)"

definition tuner_tick :: "Signal \<times> time \<Rightarrow> tuner \<times> controller \<Rightarrow> tuner \<times> controller" where
  "tuner_tick a s = tuner_step (fst s) (snd s) (fst a) (snd a)"

definition tuner_loop :: "(Signal \<times> time) wake list \<Rightarrow> tuner \<times> controller \<Rightarrow> bool \<times> tuner \<times> controller" where
  \<comment> \<open>a tuner that is off has no goroutine\<close>
  "tuner_loop ws s = (if tc_Mode (tu_config (fst s)) = TuningOff then (True, s) else ticker_loop tuner_tick ws s)"

record obs_tick =
  ot_collect :: "Backend \<Rightarrow> Observed"
  ot_runtime :: "(Backend \<Rightarrow> Identity \<Rightarrow> Runtime) option"
  ot_enriched :: enrich_result
  ot_now :: time
  ot_resolved :: "Backend list option"

definition obs_refresh_tick :: "obs_tick \<Rightarrow> obs_service \<Rightarrow> obs_service" where
  "obs_refresh_tick a s = obs_refresh (ot_collect a) (ot_runtime a) (ot_enriched a) (ot_now a) s (ot_resolved a)"

definition observation_loop :: "obs_tick \<Rightarrow> obs_tick wake list \<Rightarrow> obs_service \<Rightarrow> bool \<times> obs_service" where
  "observation_loop first ws s = ticker_loop obs_refresh_tick ws (obs_refresh_tick first s)"

definition reconcileFromResolver :: "Backend list option \<Rightarrow> path_service \<Rightarrow> path_service" where
  "reconcileFromResolver resolved s = (case resolved of None \<Rightarrow> s | Some backends \<Rightarrow> reconcileBackends backends s)"

definition reconcileLoop :: "Backend list option \<Rightarrow> Backend list option wake list \<Rightarrow> path_service \<Rightarrow> bool \<times> path_service" where
  "reconcileLoop first ws s = ticker_loop reconcileFromResolver ws (reconcileFromResolver first s)"

definition refresh_tick :: "(addressPort list \<Rightarrow> addressPort list) \<Rightarrow> time \<times> (string + endpointSliceList) \<Rightarrow>
    endpointSliceResolver \<Rightarrow> endpointSliceResolver" where
  "refresh_tick iterate a r = snd (discovery_refresh iterate (fst a) (snd a) r)"

definition refreshLoop :: "(addressPort list \<Rightarrow> addressPort list) \<Rightarrow> (time \<times> (string + endpointSliceList)) wake list \<Rightarrow>
    endpointSliceResolver \<Rightarrow> bool \<times> endpointSliceResolver" where
  "refreshLoop iterate ws r = ticker_loop (refresh_tick iterate) ws r"

subsection \<open>The replay loop\<close>

record 'st replay_tick =
  rt_source :: "64 word \<Rightarrow> (time \<times> Event) list \<times> kv_cause option"
  rt_cancelled :: bool
  rt_now :: time
  rt_live :: "eventStream \<times> 'st \<Rightarrow> eventStream \<times> 'st"
    \<comment> \<open>what the live goroutine did since the last tick\<close>

definition replay_tick_step :: "'st cacheStore \<Rightarrow> 'st replay_tick \<Rightarrow> eventStream \<times> 'st \<Rightarrow> eventStream \<times> 'st" where
  "replay_tick_step store a x =
     (let (s, st) = rt_live a x in replayOnce store (rt_source a) (rt_cancelled a) (rt_now a) s st)"

fun replay_loop :: "'st cacheStore \<Rightarrow> 'st replay_tick wake list \<Rightarrow> eventStream \<times> 'st \<Rightarrow> bool \<times> eventStream \<times> 'st" where
  "replay_loop store [] x = (False, x)"
| "replay_loop store (Cancelled # ws) x = (True, x)"
| "replay_loop store (Ticked a # ws) x =
     (let x1 = replay_tick_step store a x
      in if hasFatalReason (fst x1) then (True, x1) else replay_loop store ws x1)"

definition runReplay :: "'st cacheStore \<Rightarrow> 'st replay_tick \<Rightarrow> 'st replay_tick wake list \<Rightarrow> eventStream \<times> 'st \<Rightarrow>
    bool \<times> eventStream \<times> 'st" where
  "runReplay store first ws x = replay_loop store (Ticked first # ws) x"

subsection \<open>The live socket\<close>

datatype follow_error = ErrDialLive string | ErrSubscribe string | ErrReceive string | ErrLive kv_cause

fun receive_live :: "'st cacheStore \<Rightarrow> (time \<times> 8 word list list) list \<Rightarrow> string \<Rightarrow> eventStream \<Rightarrow> 'st \<Rightarrow>
    follow_error \<times> eventStream \<times> 'st" where
  \<comment> \<open>the messages received, and the error that ends the socket\<close>
  "receive_live store [] recvErr s st = (ErrReceive recvErr, s, st)"
| "receive_live store ((now, frames) # rest) recvErr s st =
     (case decodeLiveMessage frames of
        Inl err \<Rightarrow> (ErrLive err, s, st)
      | Inr event \<Rightarrow>
          (case accept store now event False s st of
             (Some err, _, s1, st1) \<Rightarrow> (ErrLive err, s1, st1)
           | (None, _, s1, st1) \<Rightarrow> receive_live store rest recvErr s1 st1))"

definition zmq_Follow :: "'st cacheStore \<Rightarrow> bool \<Rightarrow> bool \<Rightarrow> (time \<times> 8 word list list) list \<Rightarrow> string \<Rightarrow> eventStream \<Rightarrow> 'st \<Rightarrow>
    follow_error \<times> eventStream \<times> 'st" where
  \<comment> \<open>the two booleans: the socket could be dialled, the topic could be subscribed\<close>
  "zmq_Follow store dialled subscribed messages recvErr s st =
     (if \<not> dialled then (ErrDialLive (in_EventsEndpoint (es_instance s)), s, st)
      else if \<not> subscribed then (ErrSubscribe (instanceTopic (es_instance s)), s, st)
      else receive_live store messages recvErr s st)"

subsection \<open>The contract of a background loop\<close>

locale background_loop =
  fixes step :: "'a \<Rightarrow> 's \<Rightarrow> 's" and inv :: "'s \<Rightarrow> bool" and sound_tick :: "'a \<Rightarrow> bool"
  assumes step_keeps: "sound_tick a \<Longrightarrow> inv s \<Longrightarrow> inv (step a s)"
begin

lemma loop_keeps: "(\<And>a. Ticked a \<in> set ws \<Longrightarrow> sound_tick a) \<Longrightarrow> inv s \<Longrightarrow> inv (snd (ticker_loop step ws s))"
proof (induction ws arbitrary: s)
  case (Cons w ws)
  then show ?case by (cases w) (simp_all add: step_keeps)
qed simp

lemma loop_returns: "fst (ticker_loop step ws s) \<longleftrightarrow> Cancelled \<in> set ws"
  by (induction step ws s rule: ticker_loop.induct) auto

lemma loop_frozen: "ticker_loop step (ws @ Cancelled # ws') s = ticker_loop step (ws @ [Cancelled]) s"
  by (induction step ws s rule: ticker_loop.induct) auto

end

interpretation tuner_bg: background_loop tuner_tick "\<lambda>s. controller_ok (snd s)" "\<lambda>_. True"
  by unfold_locales (simp add: tuner_tick_def tuner_step_ok)

interpretation observation_bg: background_loop obs_refresh_tick obs_reach "\<lambda>a. \<not> IsZero (ot_now a)"
  by unfold_locales (simp add: obs_refresh_tick_def obs_tick)

interpretation reconcile_bg: background_loop reconcileFromResolver path_reach "\<lambda>_. True"
  by unfold_locales (auto simp: reconcileFromResolver_def split: option.split intro: path_reach.intros(2) step_reconcile)

interpretation refresh_bg: background_loop "refresh_tick iterate" status_inv "\<lambda>a. 0 < fst a" for iterate
  by unfold_locales (use status_inv_refresh in \<open>auto simp: refresh_tick_def prod_eq_iff\<close>)

subsection \<open>What the loops keep\<close>

theorem tuner_loop_bounded:
  assumes "controller_ok c"
  shows "controller_ok (snd (snd (tuner_loop ws (t, c))))"
    and "tuner_loop (ws @ Cancelled # ws') (t, c) = tuner_loop (ws @ [Cancelled]) (t, c)"
  using assms tuner_bg.loop_keeps [of ws "(t, c)"] tuner_bg.loop_frozen [of ws ws' "(t, c)"] by (simp_all add: tuner_loop_def)

theorem observation_loop_reach:
  assumes "obs_New config has_dependencies = Inr s" and "\<not> IsZero (ot_now first)"
    and "\<And>a. Ticked a \<in> set ws \<Longrightarrow> \<not> IsZero (ot_now a)"
  shows "obs_reach (snd (observation_loop first ws s))"
  using assms obs_start observation_bg.step_keeps observation_bg.loop_keeps unfolding observation_loop_def by blast

theorem reconcile_loop_reach: "path_reach s \<Longrightarrow> path_reach (snd (reconcileLoop first ws s))"
  unfolding reconcileLoop_def by (intro reconcile_bg.loop_keeps reconcile_bg.step_keeps TrueI)

theorem refresh_loop_status:
  assumes "status_inv r" and "\<And>a. Ticked a \<in> set ws \<Longrightarrow> 0 < fst a"
  shows "status_inv (snd (refreshLoop iterate ws r))"
  using assms refresh_bg.loop_keeps unfolding refreshLoop_def by blast

lemma replay_loop_outcome:
  assumes "replay_loop store ws x = (ended, y)" and "\<not> hasFatalReason (fst x)"
  shows "(ended \<longleftrightarrow> hasFatalReason (fst y) \<or> Cancelled \<in> set ws)
    \<and> (hasFatalReason (fst y) \<longrightarrow> replay_loop store (ws @ ws') x = (True, y))"
  using assms
proof (induction store ws x rule: replay_loop.induct)
  case (3 store a ws x)
  then show ?case by (auto simp: Let_def split: if_splits)
qed auto

text \<open>
  The replay goroutine of a stream ends exactly when it is cancelled or the stream has a reason that no
  replay can clear; after that reason it asks the publisher for nothing more, whatever ticks follow.
\<close>

theorem replay_loop_ends:
  assumes "runReplay store first ws x = (ended, s, st)"
  shows "(ended \<longleftrightarrow> hasFatalReason s \<or> Cancelled \<in> set ws)
    \<and> (hasFatalReason s \<longrightarrow> runReplay store first (ws @ ws') x = (True, s, st))"
proof (cases "hasFatalReason (fst (replay_tick_step store first x))")
  case True
  then show ?thesis using assms by (auto simp: runReplay_def Let_def)
next
  case False
  then have "replay_loop store ws (replay_tick_step store first x) = (ended, s, st)"
    using assms by (simp add: runReplay_def Let_def)
  from replay_loop_outcome [OF this False, of ws'] False show ?thesis by (simp add: runReplay_def Let_def)
qed

definition wit_replay_tick :: "unit replay_tick" where
  "wit_replay_tick = \<lparr>rt_source = (\<lambda>_. ([(20, (wit_event 7)\<lparr>ev_Payload := replicate 11 0\<rparr>)], None)), rt_cancelled = False, rt_now = 20,
     rt_live = (\<lambda>x. x)\<rparr>"

theorem replay_loop_ends_witness:
  "\<exists>s st. runReplay wit_store wit_replay_tick [] (wit_stream, ()) = (True, s, st) \<and> hasFatalReason s
     \<and> runReplay wit_store wit_replay_tick [Ticked wit_replay_tick, Cancelled] (wit_stream, ()) = (True, s, st)"
proof -
  have "es_reason (fst (snd (runReplay wit_store wit_replay_tick [] (wit_stream, ())))) = KVEventTooLarge"
    by (simp add: runReplay_def replay_tick_step_def replayOnce_def replay_handler_def accept_def invalidateAndClear_def Invalidate_def
        recordError_def hasFatalReason_def nextSequence_def wit_replay_tick_def wit_stream_defs Let_def)
  then have fatal: "hasFatalReason (fst (snd (runReplay wit_store wit_replay_tick [] (wit_stream, ()))))"
    by (simp add: hasFatalReason_def)
  obtain ended s st where run: "runReplay wit_store wit_replay_tick [] (wit_stream, ()) = (ended, s, st)"
    by (cases "runReplay wit_store wit_replay_tick [] (wit_stream, ())") auto
  show ?thesis
    using replay_loop_ends [OF run, of "[Ticked wit_replay_tick, Cancelled]"] fatal run by auto
qed

end
