(* ===== verification/Bench_Plan.thy ===== *)
theory Bench_Plan
  imports Client "HOL-Library.Multiset"
begin

text \<open>
  \<open>internal/workload/client\<close>, the plan of a pressure test and the workload generated from it
  (\<open>bench.go\<close> and the generators of \<open>bench_impl.go\<close>). The pseudo-random generator of \<open>math/rand\<close> is the
  argument \<open>perm\<close>: the order in which \<open>Shuffle\<close> leaves the indices \<open>0, .., n - 1\<close> for a seed. Prompt text is
  a string of bytes; \<open>%d\<close> prints with \<open>dec_int\<close>.
\<close>

unbundle bit_operations_syntax

subsection \<open>Plans\<close>

definition PrefixSame :: string where "PrefixSame = ''same-prefix''"
definition PrefixDifferent :: string where "PrefixDifferent = ''different-prefix''"
definition PrefixMixed :: string where "PrefixMixed = ''mixed-prefix''"

definition CacheCold :: string where "CacheCold = ''cold''"
definition CacheControlledWarm :: string where "CacheControlledWarm = ''controlled-warm''"
definition CacheSteadyWarm :: string where "CacheSteadyWarm = ''steady-warm''"

definition defaultBenchmarkConcurrency :: int where "defaultBenchmarkConcurrency = 4"
definition defaultBenchmarkTimeoutMS :: int where "defaultBenchmarkTimeoutMS = 90000"
definition defaultBatchPauseMS :: int where "defaultBatchPauseMS = 250"
definition minimumPrefixBytes :: int where "minimumPrefixBytes = 128"
definition maximumPrefixBytes :: int where "maximumPrefixBytes = 1048576"
definition maximumWarmupRequests :: int where "maximumWarmupRequests = 64"
definition maximumRunNonceLength :: nat where "maximumRunNonceLength = 128"

record BenchmarkProvenance =
  pv_GitSHA :: string
  pv_GatewayImage :: string
  pv_GatewayPods :: "string list"
  pv_VLLMVersion :: string
  pv_Model :: string
  pv_ConfigDigest :: string
  pv_EstimatorProfile :: string

record BenchmarkScenario =
  bs_Name :: string
  bs_Pattern :: string
  bs_PrefixBytes :: int
  bs_PrefixGroups :: int
  bs_ConversationTurnBytes :: int
  bs_Batches :: int
  bs_BatchSize :: int
  bs_Concurrency :: int
  bs_ArrivalRateQPS :: f64
  bs_MixedHotRatio :: int
  bs_MixedUniqueRatio :: int
  bs_BatchPauseMS :: int
  bs_WarmupRequests :: int
  bs_TargetPromptTokens :: int
  bs_PromptTokenTolerance :: int

record BenchmarkPlan =
  bp_RunID :: string
  bp_MaxTokens :: int
  bp_IgnoreEOS :: bool
  bp_RequestTimeoutMS :: int
  bp_AllowHighConcurrency :: bool
  bp_Formal :: bool
  bp_SkipPromptTokenEvidence :: bool
  bp_Treatment :: string
  bp_WorkloadSeed :: int
  bp_RandomizeRequestOrder :: bool
  bp_ExecutionOrder :: "string list"
  bp_CacheMode :: string
  bp_RunNonce :: string
  bp_CacheGeneration :: string
  bp_Provenance :: BenchmarkProvenance
  bp_Scenarios :: "BenchmarkScenario list"

definition zero_Provenance :: BenchmarkProvenance where
  "zero_Provenance = \<lparr>pv_GitSHA = [], pv_GatewayImage = [], pv_GatewayPods = [], pv_VLLMVersion = [], pv_Model = [],
     pv_ConfigDigest = [], pv_EstimatorProfile = []\<rparr>"

definition zero_Scenario :: BenchmarkScenario where
  "zero_Scenario = \<lparr>bs_Name = [], bs_Pattern = [], bs_PrefixBytes = 0, bs_PrefixGroups = 0, bs_ConversationTurnBytes = 0,
     bs_Batches = 0, bs_BatchSize = 0, bs_Concurrency = 0, bs_ArrivalRateQPS = Fin 0, bs_MixedHotRatio = 0,
     bs_MixedUniqueRatio = 0, bs_BatchPauseMS = 0, bs_WarmupRequests = 0, bs_TargetPromptTokens = 0, bs_PromptTokenTolerance = 0\<rparr>"

definition default_scenario :: "string \<Rightarrow> string \<Rightarrow> int \<Rightarrow> int \<Rightarrow> int \<Rightarrow> int \<Rightarrow> int \<Rightarrow> BenchmarkScenario" where
  "default_scenario name pattern bytes groups batches perBatch workers =
     zero_Scenario\<lparr>bs_Name := name, bs_Pattern := pattern, bs_PrefixBytes := bytes, bs_PrefixGroups := groups,
       bs_Batches := batches, bs_BatchSize := perBatch, bs_Concurrency := workers,
       bs_MixedHotRatio := (if pattern = PrefixMixed then 60 else 0), bs_MixedUniqueRatio := (if pattern = PrefixMixed then 20 else 0)\<rparr>"

definition DefaultBenchmarkPlan :: BenchmarkPlan where
  "DefaultBenchmarkPlan =
     \<lparr>bp_RunID = [], bp_MaxTokens = DefaultMaxTokens, bp_IgnoreEOS = False, bp_RequestTimeoutMS = defaultBenchmarkTimeoutMS,
      bp_AllowHighConcurrency = False, bp_Formal = False, bp_SkipPromptTokenEvidence = False, bp_Treatment = [],
      bp_WorkloadSeed = 0, bp_RandomizeRequestOrder = False, bp_ExecutionOrder = [], bp_CacheMode = [], bp_RunNonce = [],
      bp_CacheGeneration = [], bp_Provenance = zero_Provenance,
      bp_Scenarios =
        [default_scenario ''same-short'' PrefixSame 256 2 2 8 2, default_scenario ''same-medium'' PrefixSame 2048 2 3 8 2,
         default_scenario ''same-long'' PrefixSame 8192 1 2 12 2,
         default_scenario ''different-short'' PrefixDifferent 256 1 2 8 2, default_scenario ''different-medium'' PrefixDifferent 2048 1 3 8 2,
         default_scenario ''different-long'' PrefixDifferent 8192 1 2 12 2,
         default_scenario ''mixed-short'' PrefixMixed 256 4 2 8 4, default_scenario ''mixed-medium'' PrefixMixed 2048 4 3 8 4,
         default_scenario ''mixed-long'' PrefixMixed 8192 4 2 12 4]\<rparr>"

subsection \<open>Validation\<close>

datatype plan_error =
    ErrPlanBounds | ErrPlanTimeout | ErrOrderLength | ErrIsolation | ErrNonceLength | ErrCacheMode string
  | ErrFormalEvidence | ErrFormalCacheMode | ErrProvenance | ErrProvenancePods
  | ErrScenarioBounds string | ErrScenarioPattern string | ErrScenarioConcurrency string | ErrScenarioRatios string
  | ErrScenarioTurnBytes string | ErrScenarioLadder string | ErrScenarioRate string | ErrScenarioWarmups string
  | ErrColdWarmup string | ErrControlledWarmup string | ErrScenarioTokens string
  | ErrDuplicateScenario string | ErrUnknownScenario string | ErrRepeatedScenario string | ErrReadPlan | ErrDecodePlan

definition provenance_validate :: "BenchmarkProvenance \<Rightarrow> plan_error option" where
  "provenance_validate p =
     (if TrimSpace (pv_GitSHA p) = [] \<or> TrimSpace (pv_GatewayImage p) = [] \<or> length (pv_GatewayPods p) = 0
         \<or> TrimSpace (pv_VLLMVersion p) = [] \<or> TrimSpace (pv_Model p) = [] \<or> TrimSpace (pv_ConfigDigest p) = []
         \<or> TrimSpace (pv_EstimatorProfile p) = [] then Some ErrProvenance
      else if list_ex (\<lambda>v. TrimSpace v = []) (pv_GatewayPods p) then Some ErrProvenancePods else None)"

definition scenario_validate :: "bool \<Rightarrow> string \<Rightarrow> BenchmarkScenario \<Rightarrow> plan_error option" where
  "scenario_validate allowHighConcurrency cacheMode s =
     (if TrimSpace (bs_Name s) = [] \<or> bs_PrefixBytes s < minimumPrefixBytes \<or> bs_PrefixBytes s > maximumPrefixBytes
         \<or> bs_PrefixGroups s \<le> 0 \<or> bs_Batches s \<le> 0 \<or> bs_BatchSize s \<le> 0 \<or> bs_Concurrency s \<le> 0
      then Some (ErrScenarioBounds (bs_Name s))
      else if bs_Pattern s \<noteq> PrefixSame \<and> bs_Pattern s \<noteq> PrefixDifferent \<and> bs_Pattern s \<noteq> PrefixMixed
      then Some (ErrScenarioPattern (bs_Name s))
      else if bs_Concurrency s > defaultBenchmarkConcurrency \<and> \<not> allowHighConcurrency
      then Some (ErrScenarioConcurrency (bs_Name s))
      else if bs_Pattern s = PrefixMixed \<and> (bs_MixedHotRatio s < 0 \<or> bs_MixedUniqueRatio s < 0
              \<or> wrap64 (bs_MixedHotRatio s + bs_MixedUniqueRatio s) > 100)
      then Some (ErrScenarioRatios (bs_Name s))
      else if bs_ConversationTurnBytes s < 0 \<or> bs_ConversationTurnBytes s > maximumPrefixBytes
      then Some (ErrScenarioTurnBytes (bs_Name s))
      else if bs_ConversationTurnBytes s > 0 \<and> (bs_Pattern s \<noteq> PrefixSame \<or> bs_PrefixGroups s \<noteq> bs_BatchSize s)
      then Some (ErrScenarioLadder (bs_Name s))
      else if bs_BatchPauseMS s < 0 \<or> is_NaN (bs_ArrivalRateQPS s) \<or> is_Inf (bs_ArrivalRateQPS s)
              \<or> f_lt (bs_ArrivalRateQPS s) (Fin 0)
      then Some (ErrScenarioRate (bs_Name s))
      else if bs_WarmupRequests s < 0 \<or> bs_WarmupRequests s > maximumWarmupRequests then Some (ErrScenarioWarmups (bs_Name s))
      else if cacheMode = CacheCold \<and> bs_WarmupRequests s \<noteq> 0 then Some (ErrColdWarmup (bs_Name s))
      else if cacheMode = CacheControlledWarm \<and> bs_WarmupRequests s = 0 then Some (ErrControlledWarmup (bs_Name s))
      else if bs_TargetPromptTokens s < 0 \<or> bs_PromptTokenTolerance s < 0
              \<or> (bs_TargetPromptTokens s = 0 \<and> bs_PromptTokenTolerance s \<noteq> 0)
              \<or> (bs_TargetPromptTokens s > 0
                  \<and> (bs_PromptTokenTolerance s = 0 \<or> bs_PromptTokenTolerance s \<ge> bs_TargetPromptTokens s))
      then Some (ErrScenarioTokens (bs_Name s))
      else None)"

fun scenarios_validate :: "bool \<Rightarrow> string \<Rightarrow> string list \<Rightarrow> BenchmarkScenario list \<Rightarrow> plan_error option" where
  \<comment> \<open>the loop over the scenarios with the names seen so far\<close>
  "scenarios_validate high mode seen [] = None"
| "scenarios_validate high mode seen (s # ss) =
     (case scenario_validate high mode s of Some e \<Rightarrow> Some e
      | None \<Rightarrow> if bs_Name s \<in> set seen then Some (ErrDuplicateScenario (bs_Name s))
                else scenarios_validate high mode (bs_Name s # seen) ss)"

fun order_validate :: "string list \<Rightarrow> string list \<Rightarrow> string list \<Rightarrow> plan_error option" where
  "order_validate known seen [] = None"
| "order_validate known seen (n # ns) =
     (if n \<notin> set known then Some (ErrUnknownScenario n)
      else if n \<in> set seen then Some (ErrRepeatedScenario n)
      else order_validate known (n # seen) ns)"

definition plan_Validate :: "BenchmarkPlan \<Rightarrow> plan_error option" where
  "plan_Validate p =
     (if bp_MaxTokens p \<le> 0 \<or> bp_RequestTimeoutMS p \<le> 0 \<or> length (bp_Scenarios p) = 0 then Some ErrPlanBounds
      else if bp_RequestTimeoutMS p > 1800000 then Some ErrPlanTimeout
      else if length (bp_ExecutionOrder p) \<noteq> 0 \<and> length (bp_ExecutionOrder p) \<noteq> length (bp_Scenarios p) then Some ErrOrderLength
      else if bp_CacheMode p \<noteq> [] \<and> bp_CacheMode p \<noteq> CacheCold \<and> bp_CacheMode p \<noteq> CacheControlledWarm
              \<and> bp_CacheMode p \<noteq> CacheSteadyWarm then Some (ErrCacheMode (bp_CacheMode p))
      else if bp_CacheMode p \<noteq> [] \<and> (bp_WorkloadSeed p = 0 \<or> TrimSpace (bp_Treatment p) = []
              \<or> TrimSpace (bp_RunNonce p) = [] \<or> TrimSpace (bp_CacheGeneration p) = []) then Some ErrIsolation
      else if bp_CacheMode p \<noteq> [] \<and> length (bp_RunNonce p) > maximumRunNonceLength then Some ErrNonceLength
      else if bp_Formal p \<and> bp_SkipPromptTokenEvidence p then Some ErrFormalEvidence
      else if bp_Formal p \<and> bp_CacheMode p = [] then Some ErrFormalCacheMode
      else case (if bp_Formal p then provenance_validate (bp_Provenance p) else None) of
        Some e \<Rightarrow> Some e
      | None \<Rightarrow>
          (case scenarios_validate (bp_AllowHighConcurrency p) (bp_CacheMode p) [] (bp_Scenarios p) of
             Some e \<Rightarrow> Some e
           | None \<Rightarrow> order_validate (map bs_Name (bp_Scenarios p)) [] (bp_ExecutionOrder p)))"

definition PrepareBenchmarkPlan :: "(int \<Rightarrow> nat \<Rightarrow> nat list) \<Rightarrow> BenchmarkPlan \<Rightarrow> BenchmarkPlan \<times> plan_error option" where
  "PrepareBenchmarkPlan perm p =
     (let n = length (bp_Scenarios p);
          indices = (if bp_WorkloadSeed p \<noteq> 0 then perm (bp_WorkloadSeed p) n else [0..<n]);
          p1 = (if length (bp_ExecutionOrder p) = 0
                then p\<lparr>bp_ExecutionOrder := map (\<lambda>i. bs_Name (bp_Scenarios p ! i)) indices\<rparr> else p)
      in (p1, plan_Validate p1))"

definition LoadBenchmarkPlan :: "(int \<Rightarrow> nat \<Rightarrow> nat list) \<Rightarrow> string option \<Rightarrow> (string \<Rightarrow> BenchmarkPlan option) \<Rightarrow> string \<Rightarrow>
    plan_error + BenchmarkPlan" where
  \<comment> \<open>the file, the strict decoder and the time stamp of the run are arguments\<close>
  "LoadBenchmarkPlan perm file decode stamp =
     (case file of
        None \<Rightarrow> Inl ErrReadPlan
      | Some body \<Rightarrow>
          (case decode body of
             None \<Rightarrow> Inl ErrDecodePlan
           | Some p \<Rightarrow>
               let p1 = (if bp_MaxTokens p = 0 then p\<lparr>bp_MaxTokens := DefaultMaxTokens\<rparr> else p);
                   p2 = (if bp_RequestTimeoutMS p1 = 0 then p1\<lparr>bp_RequestTimeoutMS := defaultBenchmarkTimeoutMS\<rparr> else p1);
                   p3 = (if bp_RunID p2 = [] then p2\<lparr>bp_RunID := stamp\<rparr> else p2);
                   (p4, err) = PrepareBenchmarkPlan perm p3
               in case err of Some e \<Rightarrow> Inl e | None \<Rightarrow> Inr p4))"

subsection \<open>Workload\<close>

definition go_rem :: "int \<Rightarrow> int \<Rightarrow> int" where
  \<comment> \<open>the remainder takes the sign of the dividend\<close>
  "go_rem a b = sgn a * (\<bar>a\<bar> mod \<bar>b\<bar>)"

definition benchmarkPrefixGroupForScenario :: "BenchmarkScenario \<Rightarrow> int \<Rightarrow> int \<Rightarrow> string \<times> bool" where
  "benchmarkPrefixGroupForScenario s request totalRequests0 =
     (if bs_Pattern s = PrefixDifferent then (''unique-'' @ dec_int request, True)
      else if bs_Pattern s = PrefixSame then (''shared-'' @ dec_int (go_rem request (bs_PrefixGroups s)), False)
      else if bs_Pattern s = PrefixMixed
      then
        let unset = bs_MixedHotRatio s = 0 \<and> bs_MixedUniqueRatio s = 0;
            hotRatio = (if unset then 60 else bs_MixedHotRatio s);
            uniqueRatio = (if unset then 20 else bs_MixedUniqueRatio s);
            totalRequests = (if totalRequests0 \<le> 0 then 100 else totalRequests0);
            position = go_rem request totalRequests;
            groups = wrap64 (bs_PrefixGroups s - 1)
        in if wrap64 (position * 100) < wrap64 (hotRatio * totalRequests) then (''shared-0'', False)
           else if wrap64 (position * 100) < wrap64 (wrap64 (hotRatio + uniqueRatio) * totalRequests)
           then (''unique-'' @ dec_int request, True)
           else if groups \<le> 0 then (''shared-0'', False)
           else (''shared-'' @ dec_int (1 + go_rem request groups), False)
      else (''invalid'', False))"

definition repeated :: "string \<Rightarrow> nat \<Rightarrow> string" where
  "repeated s n = concat (replicate n s)"

definition prefix_header :: "BenchmarkScenario \<Rightarrow> string \<Rightarrow> string" where
  "prefix_header s grp =
     ''FishMesh final pressure test scenario='' @ bs_Name s @ '' prefix-group='' @ grp @ ''. ''"

definition prefix_filler :: string where
  "prefix_filler = ''The gateway must preserve streaming semantics, route by real prompt locality, and expose an explicit degradation state. ''"

definition generatedPrefix :: "BenchmarkScenario \<Rightarrow> string \<Rightarrow> string" where
  "generatedPrefix s grp =
     (let header = prefix_header s grp; n = nat (bs_PrefixBytes s)
      in if length header \<ge> n then take n header
         else let remaining = n - length header
              in header @ take remaining (repeated prefix_filler (remaining div length prefix_filler + 1)))"

definition benchmarkMessagesForScenario :: "BenchmarkScenario \<Rightarrow> int \<Rightarrow> int \<Rightarrow> Message list \<times> string" where
  "benchmarkMessagesForScenario s request totalRequests =
     (let (grp, unique) = benchmarkPrefixGroupForScenario s request totalRequests;
          suffix = ''request='' @ dec_int request @ ''; give a concise answer and preserve the streaming response.'' @
            (if unique then '' unique-prefix-request.'' else [])
      in ([\<lparr>msg_Role = RoleSystem, msg_Content = generatedPrefix s grp\<rparr>, \<lparr>msg_Role = RoleUser, msg_Content = suffix\<rparr>], grp))"

definition generatedConversationTurn :: "BenchmarkScenario \<Rightarrow> int \<Rightarrow> int \<Rightarrow> string" where
  "generatedConversationTurn s user turn =
     (let header = ''FishMesh conversation ladder user='' @ dec_int user @ '' turn='' @ dec_int turn @
            ''. Continue the existing discussion concisely. '';
          n = nat (bs_ConversationTurnBytes s);
          fragment = ''user-'' @ dec_int user @ ''-turn-'' @ dec_int turn @ '' persistent discussion context. ''
      in if length header \<ge> n then take n header
         else header @ take (n - length header)
           (repeated fragment ((n - length header + length fragment - 1) div length fragment)))"

definition promptBytes :: "Message list \<Rightarrow> int" where
  "promptBytes ms = int (sum_list (map (\<lambda>m. length (msg_Content m)) ms))"

definition fnv64a :: "string \<Rightarrow> 64 word" where
  "fnv64a s = foldl (\<lambda>h b. (h XOR ucast b) * 1099511628211) 14695981039346656037 (string_bytes s)"

definition order_seed :: "string \<Rightarrow> int \<Rightarrow> int" where
  \<comment> \<open>\<open>int64(hasher.Sum64()) ^ plan.WorkloadSeed\<close>\<close>
  "order_seed name seed = sint (fnv64a name XOR (word_of_int seed :: 64 word))"

definition benchmarkRequestOrder :: "(int \<Rightarrow> nat \<Rightarrow> nat list) \<Rightarrow> BenchmarkPlan \<Rightarrow> BenchmarkScenario \<Rightarrow> nat list" where
  "benchmarkRequestOrder perm p s =
     (let n = nat (wrap64 (bs_Batches s * bs_BatchSize s))
      in if \<not> bp_RandomizeRequestOrder p \<or> bp_WorkloadSeed p = 0 \<or> n < 2 then [0..<n]
         else perm (order_seed (bs_Name s) (bp_WorkloadSeed p)) n)"

definition benchmarkScenarioByName :: "BenchmarkScenario list \<Rightarrow> string \<Rightarrow> BenchmarkScenario" where
  "benchmarkScenarioByName ss name = (case find (\<lambda>s. bs_Name s = name) ss of Some s \<Rightarrow> s | None \<Rightarrow> zero_Scenario)"

definition salt_identity :: "BenchmarkPlan \<Rightarrow> BenchmarkScenario \<Rightarrow> int \<Rightarrow> int \<Rightarrow> string \<Rightarrow> (string \<times> string) option" where
  \<comment> \<open>the scope and the identity, \<open>None\<close> for a plan without isolation\<close>
  "salt_identity p s batch request grp =
     (if bp_CacheMode p = CacheCold
      then Some (''request'', bs_Name s @ ''/'' @ dec_int batch @ ''/'' @ dec_int request)
      else if bp_CacheMode p = CacheControlledWarm \<or> bp_CacheMode p = CacheSteadyWarm
      then Some (''prefix-group'', bs_Name s @ ''/'' @ grp)
      else None)"

definition salt_input :: "BenchmarkPlan \<Rightarrow> string \<Rightarrow> string \<Rightarrow> string" where
  "salt_input p scope ident =
     ''fishmesh-bench-v1'' @ [CHR 0x00] @ bp_RunNonce p @ [CHR 0x00] @ bp_CacheMode p @ [CHR 0x00] @ scope @ [CHR 0x00] @ ident"

definition benchmarkCacheSalt :: "BenchmarkPlan \<Rightarrow> BenchmarkScenario \<Rightarrow> int \<Rightarrow> int \<Rightarrow> string \<Rightarrow> string \<times> string" where
  "benchmarkCacheSalt p s batch request grp =
     (case salt_identity p s batch request grp of
        None \<Rightarrow> ([], [])
      | Some (scope, ident) \<Rightarrow> (EncodeToString (Sum256 (string_bytes (salt_input p scope ident))), scope))"

definition batch_pause :: "BenchmarkScenario \<Rightarrow> duration" where
  \<comment> \<open>the pause of \<open>waitBetweenBatches\<close>\<close>
  "batch_pause s = wrap64 ((if bs_BatchPauseMS s = 0 then defaultBatchPauseMS else bs_BatchPauseMS s) * Millisecond)"

subsection \<open>A prepared plan runs every scenario once\<close>

lemma scenarios_validate_ok:
  "scenarios_validate high mode seen ss = None \<Longrightarrow>
     distinct (map bs_Name ss) \<and> set (map bs_Name ss) \<inter> set seen = {}
     \<and> list_all (\<lambda>s. scenario_validate high mode s = None) ss"
proof (induction ss arbitrary: seen)
  case (Cons s ss)
  then show ?case using Cons.IH [of "bs_Name s # seen"] by (cases "scenario_validate high mode s") (simp_all split: if_splits)
qed simp

lemma order_validate_ok:
  "order_validate known seen ns = None \<Longrightarrow> set ns \<subseteq> set known \<and> distinct ns \<and> set ns \<inter> set seen = {}"
proof (induction ns arbitrary: seen)
  case (Cons n ns)
  then show ?case using Cons.IH [of "n # seen"] by (simp split: if_splits)
qed simp

lemma plan_Validate_ok:
  assumes "plan_Validate p = None"
  shows "bp_Scenarios p \<noteq> []" and "bp_ExecutionOrder p = [] \<or> length (bp_ExecutionOrder p) = length (bp_Scenarios p)"
    and "scenarios_validate (bp_AllowHighConcurrency p) (bp_CacheMode p) [] (bp_Scenarios p) = None"
    and "order_validate (map bs_Name (bp_Scenarios p)) [] (bp_ExecutionOrder p) = None"
  using assms by (auto simp: plan_Validate_def split: if_splits option.splits)

lemma validated_order:
  assumes "plan_Validate p = None" and "bp_ExecutionOrder p \<noteq> []"
  shows "mset (bp_ExecutionOrder p) = mset (map bs_Name (bp_Scenarios p))"
proof -
  note v = plan_Validate_ok [OF assms(1)]
  have names: "distinct (map bs_Name (bp_Scenarios p))" using scenarios_validate_ok [OF v(3)] by blast
  have order: "set (bp_ExecutionOrder p) \<subseteq> set (map bs_Name (bp_Scenarios p))" "distinct (bp_ExecutionOrder p)"
    using order_validate_ok [OF v(4)] by blast+
  have "length (bp_ExecutionOrder p) = length (map bs_Name (bp_Scenarios p))" using v(2) assms(2) by simp
  then have "card (set (bp_ExecutionOrder p)) = card (set (map bs_Name (bp_Scenarios p)))"
    by (simp only: distinct_card [OF order(2)] distinct_card [OF names])
  then have "set (bp_ExecutionOrder p) = set (map bs_Name (bp_Scenarios p))" using order(1) by (simp add: card_subset_eq)
  then show ?thesis using set_eq_iff_mset_eq_distinct [OF order(2) names] by blast
qed

lemma by_name: "name \<in> set (map bs_Name ss) \<Longrightarrow> bs_Name (benchmarkScenarioByName ss name) = name \<and> benchmarkScenarioByName ss name \<in> set ss"
proof -
  assume "name \<in> set (map bs_Name ss)"
  then obtain s where "find (\<lambda>s. bs_Name s = name) ss = Some s"
    by (cases "find (\<lambda>s. bs_Name s = name) ss") (auto simp: find_None_iff)
  moreover from this have "bs_Name s = name" "s \<in> set ss" by (auto simp: find_Some_iff)
  ultimately show ?thesis by (simp add: benchmarkScenarioByName_def)
qed

lemma prepared_order:
  assumes "\<And>seed n. mset (perm seed n) = mset [0..<n]" and "PrepareBenchmarkPlan perm p = (plan, None)"
  shows "plan_Validate plan = None" and "mset (bp_ExecutionOrder plan) = mset (map bs_Name (bp_Scenarios plan))"
    and "bp_Scenarios plan = bp_Scenarios p"
proof -
  show v: "plan_Validate plan = None" using assms(2) unfolding PrepareBenchmarkPlan_def Let_def by (elim Pair_inject) (drule subst, assumption+)
  have "perm seed n \<noteq> []" if "n > 0" for seed n using mset_eq_length [OF assms(1) [of seed n]] that by auto
  then have "bp_ExecutionOrder plan \<noteq> []"
    using assms(2) plan_Validate_ok(1) [OF v] by (auto simp: PrepareBenchmarkPlan_def Let_def split: if_splits)
  then show "mset (bp_ExecutionOrder plan) = mset (map bs_Name (bp_Scenarios plan))" by (rule validated_order [OF v])
  show "bp_Scenarios plan = bp_Scenarios p" using assms(2) by (auto simp: PrepareBenchmarkPlan_def Let_def split: if_splits)
qed

text \<open>
  A plan that was prepared without an error runs every scenario exactly once: the execution order,
  given or derived from the seed, is a permutation of the scenario names, and looking a name of it up
  finds the validated scenario of that name. The shuffle is only assumed to permute the indices.
\<close>

theorem plan_runs_each_scenario_once:
  assumes "\<And>seed n. mset (perm seed n) = mset [0..<n]" and "PrepareBenchmarkPlan perm p = (plan, None)"
  shows "mset (bp_ExecutionOrder plan) = mset (map bs_Name (bp_Scenarios plan))
    \<and> (\<forall>name \<in> set (bp_ExecutionOrder plan). bs_Name (benchmarkScenarioByName (bp_Scenarios plan) name) = name
         \<and> scenario_validate (bp_AllowHighConcurrency plan) (bp_CacheMode plan) (benchmarkScenarioByName (bp_Scenarios plan) name) = None)"
proof -
  note v = prepared_order(1) [OF assms] and order = prepared_order(2) [OF assms]
  from order have mem: "name \<in> set (map bs_Name (bp_Scenarios plan))" if "name \<in> set (bp_ExecutionOrder plan)" for name
    using that mset_eq_setD by blast
  have valid: "scenario_validate (bp_AllowHighConcurrency plan) (bp_CacheMode plan) s = None" if "s \<in> set (bp_Scenarios plan)" for s
    using scenarios_validate_ok [OF plan_Validate_ok(3) [OF v]] that by (simp add: list_all_iff)
  show ?thesis using by_name [OF mem] valid by (intro conjI ballI order) blast+
qed

definition wit_perm :: "int \<Rightarrow> nat \<Rightarrow> nat list" where
  "wit_perm seed n = rev [0..<n]"

definition wit_plan :: BenchmarkPlan where
  "wit_plan = DefaultBenchmarkPlan\<lparr>bp_WorkloadSeed := 7, bp_SkipPromptTokenEvidence := True,
     bp_Scenarios := [default_scenario ''a'' PrefixSame 256 2 2 8 2, default_scenario ''b'' PrefixMixed 256 4 2 8 4]\<rparr>"

lemma wit_plan_prepared: "PrepareBenchmarkPlan wit_perm wit_plan = (wit_plan\<lparr>bp_ExecutionOrder := [''b'', ''a'']\<rparr>, None)"
proof -
  have "TrimSpace ''a'' = ''a''" "TrimSpace ''b'' = ''b''" by code_simp+
  then show ?thesis
    by (simp add: PrepareBenchmarkPlan_def wit_plan_def DefaultBenchmarkPlan_def wit_perm_def plan_Validate_def scenario_validate_def
        default_scenario_def zero_Scenario_def DefaultMaxTokens_def defaultBenchmarkTimeoutMS_def minimumPrefixBytes_def
        maximumPrefixBytes_def defaultBenchmarkConcurrency_def maximumWarmupRequests_def PrefixSame_def PrefixMixed_def
        PrefixDifferent_def CacheCold_def CacheControlledWarm_def CacheSteadyWarm_def is_NaN_def is_Inf_def
        in_int64_def min_int64_def max_int64_def)
qed

theorem plan_runs_each_scenario_once_witness:
  "mset (bp_ExecutionOrder (fst (PrepareBenchmarkPlan wit_perm wit_plan))) = mset [''a'', ''b'']"
proof -
  have "mset (wit_perm seed n) = mset [0..<n]" for seed n by (simp add: wit_perm_def)
  note once = plan_runs_each_scenario_once [OF this wit_plan_prepared]
  show ?thesis unfolding wit_plan_prepared fst_conv by (subst conjunct1 [OF once]) (simp add: wit_plan_def default_scenario_def)
qed

subsection \<open>Cache isolation\<close>

lemma no_slash_dec_int: "CHR ''/'' \<notin> set (dec_int i)"
  using dec_nat_digits [of "CHR ''/''"] by (auto simp: dec_int_def)

lemma cold_identity_inj:
  assumes "n @ ''/'' @ dec_int b @ ''/'' @ dec_int r = n' @ ''/'' @ dec_int b' @ ''/'' @ dec_int r'"
  shows "n = n' \<and> b = b' \<and> r = r'"
proof -
  have "(n @ ''/'' @ dec_int b) @ CHR ''/'' # dec_int r = (n' @ ''/'' @ dec_int b') @ CHR ''/'' # dec_int r'"
    using assms by simp
  from last_sep_unique [OF this no_slash_dec_int no_slash_dec_int]
  have "n @ CHR ''/'' # dec_int b = n' @ CHR ''/'' # dec_int b'" and r: "dec_int r = dec_int r'" by simp_all
  from last_sep_unique [OF this(1) no_slash_dec_int no_slash_dec_int] r show ?thesis by (auto dest: dec_int_inj)
qed

text \<open>
  In cold mode two requests that differ in the scenario, the batch or the input are salted by the
  digests of two different texts, so no request can hit the cache entries of another. In the warm modes
  the salt depends on the scenario and the prefix group alone, and different groups of one scenario are
  salted by different texts.
\<close>

theorem salts_isolate:
  "(bp_CacheMode p = CacheCold \<and> (bs_Name s, b, r) \<noteq> (bs_Name s', b', r') \<longrightarrow>
      (\<exists>x y. benchmarkCacheSalt p s b r g = (EncodeToString (Sum256 (string_bytes x)), ''request'')
         \<and> benchmarkCacheSalt p s' b' r' g' = (EncodeToString (Sum256 (string_bytes y)), ''request'') \<and> x \<noteq> y))
   \<and> (bp_CacheMode p = CacheControlledWarm \<or> bp_CacheMode p = CacheSteadyWarm \<longrightarrow>
      (\<exists>x y. benchmarkCacheSalt p s b r g = (EncodeToString (Sum256 (string_bytes x)), ''prefix-group'')
         \<and> benchmarkCacheSalt p s b' r' g' = (EncodeToString (Sum256 (string_bytes y)), ''prefix-group'') \<and> (x = y \<longleftrightarrow> g = g')))"
proof (intro conjI impI)
  assume a: "bp_CacheMode p = CacheCold \<and> (bs_Name s, b, r) \<noteq> (bs_Name s', b', r')"
  let ?x = "\<lambda>s b r. salt_input p ''request'' (bs_Name s @ ''/'' @ dec_int b @ ''/'' @ dec_int r)"
  have "?x s b r \<noteq> ?x s' b' r'" using a cold_identity_inj [of "bs_Name s" b r "bs_Name s'" b' r'] by (auto simp: salt_input_def)
  with a show "\<exists>x y. benchmarkCacheSalt p s b r g = (EncodeToString (Sum256 (string_bytes x)), ''request'')
      \<and> benchmarkCacheSalt p s' b' r' g' = (EncodeToString (Sum256 (string_bytes y)), ''request'') \<and> x \<noteq> y"
    by (intro exI [of _ "?x s b r"] exI [of _ "?x s' b' r'"]) (simp add: benchmarkCacheSalt_def salt_identity_def)
next
  assume a: "bp_CacheMode p = CacheControlledWarm \<or> bp_CacheMode p = CacheSteadyWarm"
  then have "bp_CacheMode p \<noteq> CacheCold" by (auto simp: CacheCold_def CacheControlledWarm_def CacheSteadyWarm_def)
  with a show "\<exists>x y. benchmarkCacheSalt p s b r g = (EncodeToString (Sum256 (string_bytes x)), ''prefix-group'')
      \<and> benchmarkCacheSalt p s b' r' g' = (EncodeToString (Sum256 (string_bytes y)), ''prefix-group'') \<and> (x = y \<longleftrightarrow> g = g')"
    by (intro exI [of _ "salt_input p ''prefix-group'' (bs_Name s @ ''/'' @ g)"]
        exI [of _ "salt_input p ''prefix-group'' (bs_Name s @ ''/'' @ g')"])
      (auto simp: benchmarkCacheSalt_def salt_identity_def salt_input_def)
qed

theorem salts_isolate_witness:
  "benchmarkCacheSalt (wit_plan\<lparr>bp_CacheMode := CacheSteadyWarm\<rparr>) zero_Scenario 0 1 ''g'' =
   benchmarkCacheSalt (wit_plan\<lparr>bp_CacheMode := CacheSteadyWarm\<rparr>) zero_Scenario 3 4 ''g''"
  using salts_isolate [of "wit_plan\<lparr>bp_CacheMode := CacheSteadyWarm\<rparr>" zero_Scenario 0 1 zero_Scenario 3 4 "''g''" "''g''"] by auto

subsection \<open>Generated prefixes\<close>

lemma length_repeated [simp]: "length (repeated s n) = n * length s"
  by (simp add: repeated_def length_concat sum_list_replicate)

lemma length_filler [simp]: "length prefix_filler = 120"
  by (simp add: prefix_filler_def)

lemma generatedPrefix_length: "length (generatedPrefix s g) = nat (bs_PrefixBytes s)"
proof -
  have "r \<le> (r div 120 + 1) * 120" for r :: nat by simp
  then show ?thesis by (simp add: generatedPrefix_def Let_def min_def)
qed

text \<open>
  The prefix is exactly as long as the plan asks for, and as long as the header fits, prefixes of
  different groups differ.
\<close>

theorem generated_prefix_groups:
  assumes "length (prefix_header s g) < nat (bs_PrefixBytes s)" and "length (prefix_header s g') < nat (bs_PrefixBytes s)"
    and "CHR ''.'' \<notin> set g" and "CHR ''.'' \<notin> set g'" and "generatedPrefix s g = generatedPrefix s g'"
  shows "g = g'"
proof -
  let ?p = "''FishMesh final pressure test scenario='' @ bs_Name s @ '' prefix-group=''"
  obtain x y where "generatedPrefix s g = ?p @ g @ CHR ''.'' # x" "generatedPrefix s g' = ?p @ g' @ CHR ''.'' # y"
    using assms(1,2) by (simp add: generatedPrefix_def Let_def prefix_header_def)
  with assms(5) have eq: "g @ CHR ''.'' # x = g' @ CHR ''.'' # y" by simp
  have "takeWhile (\<lambda>c. c \<noteq> CHR ''.'') (h @ CHR ''.'' # z) = h" if "CHR ''.'' \<notin> set h" for h z
    using that by (subst takeWhile_append2) auto
  from this [OF assms(3), of x] this [OF assms(4), of y] eq show ?thesis by simp
qed

text \<open>
  A scenario name that is long enough pushes the group out of the header: then every group has the same
  prefix, although the scenario asks for different ones and is accepted by the validation.
\<close>

theorem prefix_groups_collide:
  fixes s :: BenchmarkScenario
  defines "s \<equiv> default_scenario (replicate 80 (CHR ''n'')) PrefixDifferent 128 1 1 2 1"
  shows "scenario_validate False [] s = None \<and> generatedPrefix s g = generatedPrefix s g'
    \<and> benchmarkPrefixGroupForScenario s 0 2 \<noteq> benchmarkPrefixGroupForScenario s 1 2"
proof -
  have t: "TrimSpace (replicate 80 (CHR ''n'')) \<noteq> []" by code_simp
  have v: "scenario_validate False [] s = None"
    using t by (simp add: s_def scenario_validate_def default_scenario_def zero_Scenario_def minimumPrefixBytes_def maximumPrefixBytes_def
        defaultBenchmarkConcurrency_def maximumWarmupRequests_def PrefixSame_def PrefixMixed_def PrefixDifferent_def
        CacheCold_def CacheControlledWarm_def is_NaN_def is_Inf_def)
  have "generatedPrefix s g = take 128 (''FishMesh final pressure test scenario='' @ replicate 80 (CHR ''n'') @ '' prefix-group='')" for g
    by (simp add: s_def generatedPrefix_def prefix_header_def default_scenario_def Let_def)
  moreover have "dec_int 0 \<noteq> dec_int 1" using dec_int_inj by force
  ultimately show ?thesis
    using v by (simp add: benchmarkPrefixGroupForScenario_def s_def default_scenario_def)
qed

end
