(* ===== verification/Bench_Metrics.thy ===== *)
theory Bench_Metrics
  imports Bench_Plan Gateway_Metrics
begin

text \<open>
  \<open>internal/workload/client/bench_metrics.go\<close>: the reader of the gateway's own metrics endpoint, the
  polling run around one benchmark segment, the window computed from its samples and the combination of
  the windows of several segments. The text format parser is third-party code and an argument; an empty
  \<open>Error\<close> string is \<open>None\<close>.
\<close>

subsection \<open>Reading the endpoint\<close>

record dto_metric =
  mt_Gauge :: "f64 option"
  mt_Counter :: "f64 option"

type_synonym families = "string \<rightharpoonup> dto_metric list"

datatype metrics_error =
    ErrMetricsEndpoint string | ErrMetricsScheme string | ErrMetricsRequest | ErrMetricsStatus int | ErrMetricsParse
  | ErrMissingSingleton string | ErrNoValue string | ErrMissingFamily string | ErrNonCounter string
  | ErrTwoSamples | ErrNotPositive | ErrCounterReset | ErrNotOrdered | ErrNoSegments | ErrNoDuration

definition defaultGatewayMetricsInterval :: duration where "defaultGatewayMetricsInterval = 250 * Millisecond"
definition metricAdmittedRequests :: string where "metricAdmittedRequests = ''fishmesh_gateway_admitted_requests_total''"
definition metricCompletedRequests :: string where "metricCompletedRequests = ''fishmesh_gateway_requests_total''"
definition metricAdmissionRejections :: string where "metricAdmissionRejections = ''fishmesh_gateway_admission_rejections_total''"
definition metricInflightRequests :: string where "metricInflightRequests = ''fishmesh_gateway_inflight_requests''"
definition metricResidentMemory :: string where "metricResidentMemory = ''process_resident_memory_bytes''"
definition metricHeapAlloc :: string where "metricHeapAlloc = ''go_memstats_heap_alloc_bytes''"

record GatewayMetricsSnapshot =
  gs_ObservedAt :: time
  gs_AdmittedRequestsTotal :: f64
  gs_CompletedRequestsTotal :: f64
  gs_AdmissionRejectionsTotal :: f64
  gs_InflightRequests :: f64
  gs_ResidentMemoryBytes :: f64
  gs_HeapAllocBytes :: f64
  gs_MemoryMetricsValid :: bool

definition NewPrometheusGatewayMetricsReader :: "url_parser \<Rightarrow> (string \<Rightarrow> string) \<Rightarrow> string \<Rightarrow> metrics_error + string" where
  \<comment> \<open>the reader is its endpoint, the parsed URL printed again by \<open>url_string\<close>\<close>
  "NewPrometheusGatewayMetricsReader parse url_string endpoint =
     (case parse (TrimSpace endpoint) of
        None \<Rightarrow> Inl (ErrMetricsEndpoint endpoint)
      | Some (scheme, host) \<Rightarrow>
          if scheme = [] \<or> host = [] then Inl (ErrMetricsEndpoint endpoint)
          else if scheme \<noteq> ''http'' \<and> scheme \<noteq> ''https'' then Inl (ErrMetricsScheme endpoint)
          else Inr (url_string (TrimSpace endpoint)))"

definition metricValue :: "families \<Rightarrow> string \<Rightarrow> metrics_error + f64" where
  "metricValue fs name =
     (case fs name of
        Some [m] \<Rightarrow> (case mt_Gauge m of Some v \<Rightarrow> Inr v
          | None \<Rightarrow> (case mt_Counter m of Some v \<Rightarrow> Inr v | None \<Rightarrow> Inl (ErrNoValue name)))
      | _ \<Rightarrow> Inl (ErrMissingSingleton name))"

definition optionalMetricValue :: "families \<Rightarrow> string \<Rightarrow> metrics_error + f64 \<times> bool" where
  "optionalMetricValue fs name =
     (if fs name = None then Inr (Fin 0, False)
      else case metricValue fs name of Inl e \<Rightarrow> Inl e | Inr v \<Rightarrow> Inr (v, True))"

fun sum_counters :: "string \<Rightarrow> dto_metric list \<Rightarrow> f64 \<Rightarrow> metrics_error + f64" where
  "sum_counters name [] acc = Inr acc"
| "sum_counters name (m # ms) acc =
     (case mt_Counter m of None \<Rightarrow> Inl (ErrNonCounter name) | Some v \<Rightarrow> sum_counters name ms (f_add acc v))"

definition metricSum :: "families \<Rightarrow> string \<Rightarrow> metrics_error + f64" where
  "metricSum fs name =
     (case fs name of
        None \<Rightarrow> Inl (ErrMissingFamily name)
      | Some ms \<Rightarrow> if length ms = 0 then Inl (ErrMissingFamily name) else sum_counters name ms (Fin 0))"

definition metricSumOrZero :: "families \<Rightarrow> string \<Rightarrow> metrics_error + f64" where
  "metricSumOrZero fs name = (if fs name = None then Inr (Fin 0) else metricSum fs name)"

definition snapshot_of_families :: "time \<Rightarrow> families \<Rightarrow> metrics_error + GatewayMetricsSnapshot" where
  "snapshot_of_families now fs =
     (case metricValue fs metricAdmittedRequests of Inl e \<Rightarrow> Inl e | Inr admitted \<Rightarrow>
      case metricSumOrZero fs metricCompletedRequests of Inl e \<Rightarrow> Inl e | Inr completed \<Rightarrow>
      case metricValue fs metricAdmissionRejections of Inl e \<Rightarrow> Inl e | Inr rejections \<Rightarrow>
      case metricValue fs metricInflightRequests of Inl e \<Rightarrow> Inl e | Inr inflight \<Rightarrow>
      case optionalMetricValue fs metricResidentMemory of Inl e \<Rightarrow> Inl e | Inr (resident, residentPresent) \<Rightarrow>
      case optionalMetricValue fs metricHeapAlloc of Inl e \<Rightarrow> Inl e | Inr (heap, heapPresent) \<Rightarrow>
        Inr \<lparr>gs_ObservedAt = now, gs_AdmittedRequestsTotal = admitted, gs_CompletedRequestsTotal = completed,
          gs_AdmissionRejectionsTotal = rejections, gs_InflightRequests = inflight, gs_ResidentMemoryBytes = resident,
          gs_HeapAllocBytes = heap, gs_MemoryMetricsValid = (residentPresent \<and> heapPresent)\<rparr>)"

definition reader_Snapshot :: "(string \<Rightarrow> families option) \<Rightarrow> time \<Rightarrow> (int \<times> string) option \<Rightarrow>
    metrics_error + GatewayMetricsSnapshot" where
  \<comment> \<open>the answer is the status and the body, \<open>None\<close> for a failed exchange; at most 8 MiB are parsed\<close>
  "reader_Snapshot parse now answer =
     (case answer of
        None \<Rightarrow> Inl ErrMetricsRequest
      | Some (status, body) \<Rightarrow>
          if status \<noteq> 200 then Inl (ErrMetricsStatus status)
          else case parse (take 8388608 body) of None \<Rightarrow> Inl ErrMetricsParse | Some fs \<Rightarrow> snapshot_of_families now fs)"

subsection \<open>One window\<close>

record GatewayMetricsWindow =
  gw_Valid :: bool
  gw_Error :: "metrics_error option"
  gw_StartAt :: time
  gw_EndAt :: time
  gw_ElapsedMS :: f64
  gw_Samples :: int
  gw_WarmupRequests :: int
  gw_Segments :: int
  gw_WarmupExcluded :: bool
  gw_AdmittedDelta :: f64
  gw_CompletedDelta :: f64
  gw_RejectionsDelta :: f64
  gw_AcceptedRateQPS :: f64
  gw_CompletedRateQPS :: f64
  gw_RejectionRateQPS :: f64
  gw_AverageInflight :: f64
  gw_LittleLawWaitMS :: f64
  gw_LittleLawWaitValid :: bool
  gw_MemoryMetricsValid :: bool
  gw_ResidentMemoryStartBytes :: f64
  gw_ResidentMemoryPeakBytes :: f64
  gw_ResidentMemoryEndBytes :: f64
  gw_ResidentMemoryDeltaBytes :: f64
  gw_HeapAllocStartBytes :: f64
  gw_HeapAllocPeakBytes :: f64
  gw_HeapAllocEndBytes :: f64
  gw_HeapAllocDeltaBytes :: f64

definition zero_Window :: GatewayMetricsWindow where
  "zero_Window = \<lparr>gw_Valid = False, gw_Error = None, gw_StartAt = zero_time, gw_EndAt = zero_time, gw_ElapsedMS = Fin 0,
     gw_Samples = 0, gw_WarmupRequests = 0, gw_Segments = 0, gw_WarmupExcluded = False, gw_AdmittedDelta = Fin 0,
     gw_CompletedDelta = Fin 0, gw_RejectionsDelta = Fin 0, gw_AcceptedRateQPS = Fin 0, gw_CompletedRateQPS = Fin 0,
     gw_RejectionRateQPS = Fin 0, gw_AverageInflight = Fin 0, gw_LittleLawWaitMS = Fin 0, gw_LittleLawWaitValid = False,
     gw_MemoryMetricsValid = False, gw_ResidentMemoryStartBytes = Fin 0, gw_ResidentMemoryPeakBytes = Fin 0,
     gw_ResidentMemoryEndBytes = Fin 0, gw_ResidentMemoryDeltaBytes = Fin 0, gw_HeapAllocStartBytes = Fin 0,
     gw_HeapAllocPeakBytes = Fin 0, gw_HeapAllocEndBytes = Fin 0, gw_HeapAllocDeltaBytes = Fin 0\<rparr>"

definition window_error :: "metrics_error \<Rightarrow> nat \<Rightarrow> GatewayMetricsWindow" where
  "window_error e n = zero_Window\<lparr>gw_Error := Some e, gw_Samples := int n\<rparr>"

definition durationMS :: "duration \<Rightarrow> f64" where
  "durationMS d = f_div (f_of_int d) (f_of_int Millisecond)"

definition peak :: "f64 list \<Rightarrow> f64" where
  \<comment> \<open>the running maximum from zero\<close>
  "peak vs = foldl (\<lambda>p v. if f_lt p v then v else p) (Fin 0) vs"

definition observeMemory :: "GatewayMetricsSnapshot list \<Rightarrow> GatewayMetricsWindow \<Rightarrow> GatewayMetricsWindow" where
  "observeMemory smps w =
     (let seen = filter gs_MemoryMetricsValid smps;
          resident = map gs_ResidentMemoryBytes seen; heap = map gs_HeapAllocBytes seen
      in if seen = [] then w
         else w\<lparr>gw_MemoryMetricsValid := list_all gs_MemoryMetricsValid smps,
                gw_ResidentMemoryStartBytes := hd resident, gw_ResidentMemoryPeakBytes := peak resident,
                gw_ResidentMemoryEndBytes := last resident, gw_ResidentMemoryDeltaBytes := f_sub (last resident) (hd resident),
                gw_HeapAllocStartBytes := hd heap, gw_HeapAllocPeakBytes := peak heap,
                gw_HeapAllocEndBytes := last heap, gw_HeapAllocDeltaBytes := f_sub (last heap) (hd heap)\<rparr>)"

fun inflight_area :: "f64 \<Rightarrow> GatewayMetricsSnapshot list \<Rightarrow> f64 option" where
  \<comment> \<open>the trapezoidal sum over neighbouring samples, \<open>None\<close> when two of them are not ordered\<close>
  "inflight_area acc (previous # current # rest) =
     (if \<not> gs_ObservedAt current > gs_ObservedAt previous then None
      else inflight_area
        (f_add acc (f_mul (f_div (f_add (gs_InflightRequests previous) (gs_InflightRequests current)) (Fin 2))
           (Duration_Seconds (time_sub (gs_ObservedAt current) (gs_ObservedAt previous))))) (current # rest))"
| "inflight_area acc _ = Some acc"

definition gatewayMetricsWindow :: "GatewayMetricsSnapshot list \<Rightarrow> GatewayMetricsWindow" where
  "gatewayMetricsWindow smps =
     (let n = length smps in
      if n < 2 then window_error ErrTwoSamples n
      else let start = hd smps; end = last smps in
      if \<not> gs_ObservedAt end > gs_ObservedAt start then window_error ErrNotPositive n
      else let admittedDelta = f_sub (gs_AdmittedRequestsTotal end) (gs_AdmittedRequestsTotal start);
               completedDelta = f_sub (gs_CompletedRequestsTotal end) (gs_CompletedRequestsTotal start);
               rejectionsDelta = f_sub (gs_AdmissionRejectionsTotal end) (gs_AdmissionRejectionsTotal start) in
      if f_lt admittedDelta (Fin 0) \<or> f_lt completedDelta (Fin 0) \<or> f_lt rejectionsDelta (Fin 0)
      then window_error ErrCounterReset n
      else let elapsed = time_sub (gs_ObservedAt end) (gs_ObservedAt start); seconds = Duration_Seconds elapsed in
      case inflight_area (Fin 0) smps of
        None \<Rightarrow> window_error ErrNotOrdered n
      | Some area \<Rightarrow>
          let averageInflight = f_div area seconds;
              acceptedRate = f_div admittedDelta seconds;
              w = observeMemory smps (zero_Window\<lparr>gw_Valid := True, gw_StartAt := gs_ObservedAt start,
                gw_EndAt := gs_ObservedAt end, gw_ElapsedMS := durationMS elapsed, gw_Samples := int n, gw_Segments := 1,
                gw_AdmittedDelta := admittedDelta, gw_CompletedDelta := completedDelta, gw_RejectionsDelta := rejectionsDelta,
                gw_AcceptedRateQPS := acceptedRate, gw_CompletedRateQPS := f_div completedDelta seconds,
                gw_RejectionRateQPS := f_div rejectionsDelta seconds, gw_AverageInflight := averageInflight\<rparr>)
          in if f_lt (Fin 0) acceptedRate
             then w\<lparr>gw_LittleLawWaitMS := f_mul (f_div averageInflight acceptedRate) (Fin 1000), gw_LittleLawWaitValid := True\<rparr>
             else w)"

subsection \<open>One polling run\<close>

record gatewayMetricsRun =
  mr_samples :: "GatewayMetricsSnapshot list"
  mr_err :: "metrics_error option"

definition beginGatewayMetricsRun :: "metrics_error + GatewayMetricsSnapshot \<Rightarrow> gatewayMetricsRun" where
  "beginGatewayMetricsRun first =
     (case first of Inl e \<Rightarrow> \<lparr>mr_samples = [], mr_err = Some e\<rparr> | Inr s \<Rightarrow> \<lparr>mr_samples = [s], mr_err = None\<rparr>)"

definition poll_tick :: "bool \<times> (metrics_error + GatewayMetricsSnapshot) \<Rightarrow> gatewayMetricsRun \<Rightarrow> gatewayMetricsRun" where
  \<comment> \<open>one tick; the flag says that the read was cancelled by the end of the run\<close>
  "poll_tick tick r =
     (case snd tick of
        Inl e \<Rightarrow> if fst tick then r else r\<lparr>mr_err := Some e\<rparr>
      | Inr s \<Rightarrow> r\<lparr>mr_samples := mr_samples r @ [s]\<rparr>)"

definition run_stop :: "metrics_error + GatewayMetricsSnapshot \<Rightarrow> gatewayMetricsRun \<Rightarrow> GatewayMetricsWindow" where
  "run_stop finish r =
     (let r1 = (case finish of Inr s \<Rightarrow> r\<lparr>mr_samples := mr_samples r @ [s]\<rparr>
                | Inl e \<Rightarrow> if mr_err r = None then r\<lparr>mr_err := Some e\<rparr> else r)
      in case mr_err r1 of Some e \<Rightarrow> zero_Window\<lparr>gw_Error := Some e\<rparr> | None \<Rightarrow> gatewayMetricsWindow (mr_samples r1))"

record segment_reads =
  sr_first :: "metrics_error + GatewayMetricsSnapshot"
  sr_ticks :: "(bool \<times> (metrics_error + GatewayMetricsSnapshot)) list"
  sr_last :: "metrics_error + GatewayMetricsSnapshot"

definition metrics_segment :: "segment_reads \<Rightarrow> GatewayMetricsWindow" where
  \<comment> \<open>a run whose first read fails starts no polling\<close>
  "metrics_segment reads =
     (let r = beginGatewayMetricsRun (sr_first reads)
      in run_stop (sr_last reads) (if mr_err r = None then fold poll_tick (sr_ticks reads) r else r))"

subsection \<open>Combining the windows of a run\<close>

record combine_state =
  cs_combined :: GatewayMetricsWindow
  cs_activeSeconds :: f64
  cs_weightedInflight :: f64
  cs_memoryValid :: bool
  cs_memoryInitialized :: bool

definition combine_totals :: "GatewayMetricsWindow \<Rightarrow> combine_state \<Rightarrow> combine_state" where
  "combine_totals w st =
     (let c = cs_combined st;
          c1 = (if IsZero (gw_StartAt c) \<or> gw_StartAt w < gw_StartAt c then c\<lparr>gw_StartAt := gw_StartAt w\<rparr> else c);
          c2 = (if IsZero (gw_EndAt c1) \<or> gw_EndAt w > gw_EndAt c1 then c1\<lparr>gw_EndAt := gw_EndAt w\<rparr> else c1);
          active = f_div (gw_ElapsedMS w) (Fin 1000)
      in st\<lparr>cs_activeSeconds := f_add (cs_activeSeconds st) active,
            cs_weightedInflight := f_add (cs_weightedInflight st) (f_mul (gw_AverageInflight w) active),
            cs_combined := c2\<lparr>gw_Samples := wrap64 (gw_Samples c2 + gw_Samples w),
              gw_AdmittedDelta := f_add (gw_AdmittedDelta c2) (gw_AdmittedDelta w),
              gw_CompletedDelta := f_add (gw_CompletedDelta c2) (gw_CompletedDelta w),
              gw_RejectionsDelta := f_add (gw_RejectionsDelta c2) (gw_RejectionsDelta w)\<rparr>\<rparr>)"

definition combine_memory :: "GatewayMetricsWindow \<Rightarrow> combine_state \<Rightarrow> combine_state" where
  "combine_memory w st =
     (let c = cs_combined st in
      if \<not> gw_MemoryMetricsValid w then st\<lparr>cs_memoryValid := False\<rparr>
      else if \<not> cs_memoryInitialized st
      then st\<lparr>cs_memoryInitialized := True,
              cs_combined := c\<lparr>gw_ResidentMemoryStartBytes := gw_ResidentMemoryStartBytes w,
                gw_ResidentMemoryPeakBytes := gw_ResidentMemoryPeakBytes w, gw_ResidentMemoryEndBytes := gw_ResidentMemoryEndBytes w,
                gw_HeapAllocStartBytes := gw_HeapAllocStartBytes w, gw_HeapAllocPeakBytes := gw_HeapAllocPeakBytes w,
                gw_HeapAllocEndBytes := gw_HeapAllocEndBytes w\<rparr>\<rparr>
      else
        let c1 = (if f_lt (gw_ResidentMemoryPeakBytes c) (gw_ResidentMemoryPeakBytes w)
                  then c\<lparr>gw_ResidentMemoryPeakBytes := gw_ResidentMemoryPeakBytes w\<rparr> else c);
            c2 = (if f_lt (gw_HeapAllocPeakBytes c1) (gw_HeapAllocPeakBytes w)
                  then c1\<lparr>gw_HeapAllocPeakBytes := gw_HeapAllocPeakBytes w\<rparr> else c1);
            c3 = (if gw_StartAt w < gw_StartAt c2
                  then c2\<lparr>gw_ResidentMemoryStartBytes := gw_ResidentMemoryStartBytes w,
                          gw_HeapAllocStartBytes := gw_HeapAllocStartBytes w\<rparr> else c2);
            c4 = (if gw_EndAt w > gw_EndAt c3
                  then c3\<lparr>gw_ResidentMemoryEndBytes := gw_ResidentMemoryEndBytes w,
                          gw_HeapAllocEndBytes := gw_HeapAllocEndBytes w\<rparr> else c3)
        in st\<lparr>cs_combined := c4\<rparr>)"

fun combine_loop :: "nat \<Rightarrow> GatewayMetricsWindow list \<Rightarrow> combine_state \<Rightarrow> GatewayMetricsWindow + combine_state" where
  "combine_loop n [] st = Inr st"
| "combine_loop n (w # ws) st =
     (if \<not> gw_Valid w then Inl (zero_Window\<lparr>gw_Error := gw_Error w, gw_Segments := int n\<rparr>)
      else combine_loop n ws (combine_memory w (combine_totals w st)))"

definition combine_finish :: "nat \<Rightarrow> combine_state \<Rightarrow> GatewayMetricsWindow" where
  "combine_finish n st =
     (let active = cs_activeSeconds st; c = cs_combined st in
      if f_le active (Fin 0) then zero_Window\<lparr>gw_Error := Some ErrNoDuration, gw_Segments := int n\<rparr>
      else
        let memory = (cs_memoryValid st \<and> cs_memoryInitialized st);
            rate = f_div (gw_AdmittedDelta c) active;
            average = f_div (cs_weightedInflight st) active;
            c1 = c\<lparr>gw_ElapsedMS := f_mul active (Fin 1000), gw_AcceptedRateQPS := rate,
              gw_CompletedRateQPS := f_div (gw_CompletedDelta c) active, gw_RejectionRateQPS := f_div (gw_RejectionsDelta c) active,
              gw_AverageInflight := average, gw_MemoryMetricsValid := memory\<rparr>;
            c2 = (if memory
                  then c1\<lparr>gw_ResidentMemoryDeltaBytes := f_sub (gw_ResidentMemoryEndBytes c1) (gw_ResidentMemoryStartBytes c1),
                          gw_HeapAllocDeltaBytes := f_sub (gw_HeapAllocEndBytes c1) (gw_HeapAllocStartBytes c1)\<rparr> else c1)
        in if f_lt (Fin 0) rate
           then c2\<lparr>gw_LittleLawWaitMS := f_mul (f_div average rate) (Fin 1000), gw_LittleLawWaitValid := True\<rparr> else c2)"

definition combine_start :: "nat \<Rightarrow> combine_state" where
  "combine_start n = \<lparr>cs_combined = zero_Window\<lparr>gw_Valid := True, gw_Segments := int n\<rparr>, cs_activeSeconds = Fin 0,
     cs_weightedInflight = Fin 0, cs_memoryValid = True, cs_memoryInitialized = False\<rparr>"

definition combineGatewayMetricsWindows :: "GatewayMetricsWindow list \<Rightarrow> GatewayMetricsWindow" where
  "combineGatewayMetricsWindows ws =
     (if length ws = 0 then zero_Window\<lparr>gw_Error := Some ErrNoSegments\<rparr>
      else case combine_loop (length ws) ws (combine_start (length ws)) of
        Inl w \<Rightarrow> w | Inr st \<Rightarrow> combine_finish (length ws) st)"

definition benchmarkWarmupRequests :: "BenchmarkPlan \<Rightarrow> int" where
  "benchmarkWarmupRequests p = foldl (\<lambda>n s. wrap64 (n + bs_WarmupRequests s)) 0 (bp_Scenarios p)"

subsection \<open>Lemmas\<close>

lemma observeMemory_keeps [simp]:
  "gw_Valid (observeMemory smps w) = gw_Valid w" "gw_Samples (observeMemory smps w) = gw_Samples w"
  "gw_StartAt (observeMemory smps w) = gw_StartAt w" "gw_EndAt (observeMemory smps w) = gw_EndAt w"
  by (simp_all add: observeMemory_def Let_def)

lemma zero_Window_simps [simp]:
  "gw_Valid zero_Window = False" "gw_Samples zero_Window = 0" "gw_MemoryMetricsValid zero_Window = False"
  "gw_StartAt zero_Window = zero_time" "gw_EndAt zero_Window = zero_time"
  by (simp_all add: zero_Window_def)

lemma inflight_area_ordered: "inflight_area acc smps \<noteq> None \<longleftrightarrow> sorted_wrt (<) (map gs_ObservedAt smps)"
proof (induction acc smps rule: inflight_area.induct)
  case (1 acc previous current rest)
  then show ?case by (auto simp: not_less intro: less_trans)
qed simp_all

lemma sorted_hd_last: "sorted_wrt (<) (map f xs) \<Longrightarrow> 2 \<le> length xs \<Longrightarrow> f (hd xs) < (f (last xs) :: 'a :: linorder)"
  by (cases xs) (auto simp: sorted_wrt_append split: if_splits)

text \<open>
  A window is valid exactly when it has at least two samples, their times strictly increase and no
  counter went down between the first and the last of them.
\<close>

theorem gateway_window_valid:
  "gw_Valid (gatewayMetricsWindow smps) \<longleftrightarrow>
     2 \<le> length smps \<and> sorted_wrt (<) (map gs_ObservedAt smps)
     \<and> \<not> f_lt (f_sub (gs_AdmittedRequestsTotal (last smps)) (gs_AdmittedRequestsTotal (hd smps))) (Fin 0)
     \<and> \<not> f_lt (f_sub (gs_CompletedRequestsTotal (last smps)) (gs_CompletedRequestsTotal (hd smps))) (Fin 0)
     \<and> \<not> f_lt (f_sub (gs_AdmissionRejectionsTotal (last smps)) (gs_AdmissionRejectionsTotal (hd smps))) (Fin 0)"
proof (cases "sorted_wrt (<) (map gs_ObservedAt smps)")
  case True
  then obtain area where area: "inflight_area (Fin 0) smps = Some area" using inflight_area_ordered by blast
  show ?thesis using True sorted_hd_last [OF True] area
    by (cases "length smps < 2") (simp_all add: gatewayMetricsWindow_def Let_def window_error_def)
next
  case False
  then have "inflight_area (Fin 0) smps = None" using inflight_area_ordered by blast
  with False show ?thesis by (simp add: gatewayMetricsWindow_def Let_def window_error_def)
qed

lemma fold_poll_err: "mr_err (fold poll_tick ticks r) = None \<longleftrightarrow>
    mr_err r = None \<and> (\<forall>tick \<in> set ticks. fst tick \<or> \<not> isl (snd tick))"
proof (induction ticks arbitrary: r)
  case (Cons tick ticks)
  then show ?case by (cases "snd tick") (auto simp: poll_tick_def)
qed simp

lemma fold_poll_samples: "mr_samples (fold poll_tick ticks r) = mr_samples r @ [s. (c, Inr s) \<leftarrow> ticks]"
proof (induction ticks arbitrary: r)
  case (Cons tick ticks)
  then show ?case by (cases tick; cases "snd tick") (auto simp: poll_tick_def)
qed simp

text \<open>
  A failed read is never hidden: the window of a segment is valid only when the first and the last read
  and every poll that was not cut off by the end of the run succeeded, and it is then the window of all
  the samples read, in order.
\<close>

theorem segment_window:
  assumes "gw_Valid (metrics_segment reads)"
  shows "\<exists>s e. sr_first reads = Inr s \<and> sr_last reads = Inr e
    \<and> (\<forall>tick \<in> set (sr_ticks reads). fst tick \<or> \<not> isl (snd tick))
    \<and> metrics_segment reads = gatewayMetricsWindow (s # [x. (c, Inr x) \<leftarrow> sr_ticks reads] @ [e])"
proof (cases "sr_first reads")
  case (Inl err)
  then show ?thesis using assms
    by (cases "sr_last reads") (simp_all add: metrics_segment_def run_stop_def beginGatewayMetricsRun_def Let_def)
next
  case (Inr s)
  let ?r = "fold poll_tick (sr_ticks reads) \<lparr>mr_samples = [s], mr_err = None\<rparr>"
  have seg: "metrics_segment reads = run_stop (sr_last reads) ?r"
    using Inr by (simp add: metrics_segment_def beginGatewayMetricsRun_def)
  have ok: "mr_err ?r = None" and "\<not> isl (sr_last reads)"
    using assms unfolding seg run_stop_def by (auto simp: Let_def split: option.splits sum.splits if_splits)
  then obtain e where e: "sr_last reads = Inr e" by (cases "sr_last reads") auto
  with seg ok have "metrics_segment reads = gatewayMetricsWindow (s # [x. (c, Inr x) \<leftarrow> sr_ticks reads] @ [e])"
    by (simp add: run_stop_def fold_poll_samples)
  with Inr e ok show ?thesis by (simp add: fold_poll_err)
qed

subsection \<open>Combined windows\<close>

lemma totals_span:
  "gw_StartAt (cs_combined (combine_totals w st)) =
     (if IsZero (gw_StartAt (cs_combined st)) then gw_StartAt w else min (gw_StartAt w) (gw_StartAt (cs_combined st)))"
  "gw_EndAt (cs_combined (combine_totals w st)) =
     (if IsZero (gw_EndAt (cs_combined st)) then gw_EndAt w else max (gw_EndAt w) (gw_EndAt (cs_combined st)))"
  by (auto simp: combine_totals_def Let_def)

lemma totals_keep [simp]:
  "cs_memoryInitialized (combine_totals w st) = cs_memoryInitialized st"
  "cs_memoryValid (combine_totals w st) = cs_memoryValid st"
  "gw_Valid (cs_combined (combine_totals w st)) = gw_Valid (cs_combined st)"
  "gw_ResidentMemoryStartBytes (cs_combined (combine_totals w st)) = gw_ResidentMemoryStartBytes (cs_combined st)"
  "gw_ResidentMemoryEndBytes (cs_combined (combine_totals w st)) = gw_ResidentMemoryEndBytes (cs_combined st)"
  "gw_HeapAllocStartBytes (cs_combined (combine_totals w st)) = gw_HeapAllocStartBytes (cs_combined st)"
  "gw_HeapAllocEndBytes (cs_combined (combine_totals w st)) = gw_HeapAllocEndBytes (cs_combined st)"
  by (simp_all add: combine_totals_def Let_def)

lemma memory_keeps [simp]:
  "gw_StartAt (cs_combined (combine_memory w st)) = gw_StartAt (cs_combined st)"
  "gw_EndAt (cs_combined (combine_memory w st)) = gw_EndAt (cs_combined st)"
  "gw_Valid (cs_combined (combine_memory w st)) = gw_Valid (cs_combined st)"
  "cs_activeSeconds (combine_memory w st) = cs_activeSeconds st"
  "cs_memoryValid (combine_memory w st) \<longleftrightarrow> cs_memoryValid st \<and> gw_MemoryMetricsValid w"
  "cs_memoryInitialized (combine_memory w st) \<longleftrightarrow> cs_memoryInitialized st \<or> gw_MemoryMetricsValid w"
  by (simp_all add: combine_memory_def Let_def)

definition memory_ends :: "GatewayMetricsWindow \<Rightarrow> f64 \<times> f64 \<times> f64 \<times> f64" where
  "memory_ends w = (gw_ResidentMemoryStartBytes w, gw_ResidentMemoryEndBytes w, gw_HeapAllocStartBytes w, gw_HeapAllocEndBytes w)"

lemma step_memory_ends:
  "memory_ends (cs_combined (combine_memory w (combine_totals w st))) =
     memory_ends (if cs_memoryInitialized st \<or> \<not> gw_MemoryMetricsValid w then cs_combined st else w)"
proof -
  have "\<not> gw_StartAt w < gw_StartAt (cs_combined (combine_totals w st))" by (simp add: totals_span)
  moreover have "\<not> gw_EndAt w > gw_EndAt (cs_combined (combine_totals w st))" by (simp add: totals_span)
  ultimately show ?thesis by (simp add: combine_memory_def memory_ends_def Let_def)
qed

lemma combine_loop_result:
  assumes "combine_loop n ws st = Inr st'"
  shows "list_all gw_Valid ws \<and> gw_Valid (cs_combined st') = gw_Valid (cs_combined st)
    \<and> (cs_memoryValid st' \<longleftrightarrow> cs_memoryValid st \<and> list_all gw_MemoryMetricsValid ws)
    \<and> (cs_memoryInitialized st' \<longleftrightarrow> cs_memoryInitialized st \<or> list_ex gw_MemoryMetricsValid ws)
    \<and> memory_ends (cs_combined st') = memory_ends
        (if cs_memoryInitialized st \<or> filter gw_MemoryMetricsValid ws = [] then cs_combined st else hd (filter gw_MemoryMetricsValid ws))"
  using assms
proof (induction ws arbitrary: st)
  case (Cons w ws)
  then show ?case using Cons.IH [of "combine_memory w (combine_totals w st)"] by (auto simp: step_memory_ends split: if_splits)
qed simp

definition active_seconds :: "GatewayMetricsWindow list \<Rightarrow> f64" where
  "active_seconds ws = foldl (\<lambda>a w. f_add a (f_div (gw_ElapsedMS w) (Fin 1000))) (Fin 0) ws"

lemma combine_loop_total: "list_all gw_Valid ws \<Longrightarrow> \<exists>st'. combine_loop n ws st = Inr st'
    \<and> cs_activeSeconds st' = foldl (\<lambda>a w. f_add a (f_div (gw_ElapsedMS w) (Fin 1000))) (cs_activeSeconds st) ws"
proof (induction ws arbitrary: st)
  case (Cons w ws)
  then show ?case using Cons.IH [of "combine_memory w (combine_totals w st)"] by (auto simp: combine_totals_def Let_def)
qed simp

lemma combine_loop_fails: "\<not> list_all gw_Valid ws \<Longrightarrow> \<exists>w. combine_loop n ws st = Inl w \<and> \<not> gw_Valid w"
  by (induction ws arbitrary: st) auto

lemma combine_valid_iff:
  "gw_Valid (combineGatewayMetricsWindows ws) \<longleftrightarrow> ws \<noteq> [] \<and> list_all gw_Valid ws \<and> \<not> f_le (active_seconds ws) (Fin 0)"
proof (cases "list_all gw_Valid ws")
  case True
  then obtain st where st: "combine_loop (length ws) ws (combine_start (length ws)) = Inr st" "cs_activeSeconds st = active_seconds ws"
    using combine_loop_total [of ws "length ws" "combine_start (length ws)"] by (auto simp: active_seconds_def combine_start_def)
  have "gw_Valid (cs_combined st)" using combine_loop_result [OF st(1)] by (simp add: combine_start_def)
  with True st show ?thesis by (simp add: combineGatewayMetricsWindows_def combine_finish_def Let_def)
next
  case False
  then show ?thesis using combine_loop_fails [OF False, of "length ws" "combine_start (length ws)"]
    by (auto simp: combineGatewayMetricsWindows_def)
qed

lemma combine_valid_loop:
  assumes "gw_Valid (combineGatewayMetricsWindows ws)"
  obtains st where "ws \<noteq> []" and "combine_loop (length ws) ws (combine_start (length ws)) = Inr st"
    and "combineGatewayMetricsWindows ws = combine_finish (length ws) st" and "\<not> f_le (cs_activeSeconds st) (Fin 0)"
proof -
  have v: "ws \<noteq> []" "list_all gw_Valid ws" "\<not> f_le (active_seconds ws) (Fin 0)" using assms combine_valid_iff by blast+
  obtain st where st: "combine_loop (length ws) ws (combine_start (length ws)) = Inr st" "cs_activeSeconds st = active_seconds ws"
    using combine_loop_total [OF v(2), of "length ws" "combine_start (length ws)"] by (auto simp: active_seconds_def combine_start_def)
  with v that show thesis by (simp add: combineGatewayMetricsWindows_def)
qed

lemma finish_memory_ends: "\<not> f_le (cs_activeSeconds st) (Fin 0) \<Longrightarrow>
    memory_ends (combine_finish n st) = memory_ends (cs_combined st)
    \<and> gw_StartAt (combine_finish n st) = gw_StartAt (cs_combined st) \<and> gw_EndAt (combine_finish n st) = gw_EndAt (cs_combined st)
    \<and> (gw_MemoryMetricsValid (combine_finish n st) \<longleftrightarrow> cs_memoryValid st \<and> cs_memoryInitialized st)"
  by (simp add: combine_finish_def memory_ends_def Let_def)

text \<open>
  The start and end figures of the combined memory are those of the first segment that reports memory,
  whatever the later segments report: the comparison that should move the end forward is made after the
  end time of the segment was already taken over.
\<close>

theorem combined_memory_stale:
  assumes "gw_Valid (combineGatewayMetricsWindows (w # ws))" and "gw_MemoryMetricsValid w"
  shows "gw_ResidentMemoryEndBytes (combineGatewayMetricsWindows (w # ws)) = gw_ResidentMemoryEndBytes w
    \<and> gw_HeapAllocEndBytes (combineGatewayMetricsWindows (w # ws)) = gw_HeapAllocEndBytes w"
proof -
  obtain st where st: "combine_loop (length (w # ws)) (w # ws) (combine_start (length (w # ws))) = Inr st"
      "combineGatewayMetricsWindows (w # ws) = combine_finish (length (w # ws)) st" "\<not> f_le (cs_activeSeconds st) (Fin 0)"
    using combine_valid_loop [OF assms(1)] by blast
  have "memory_ends (cs_combined st) = memory_ends w"
    using combine_loop_result [OF st(1)] assms(2) by (simp add: combine_start_def)
  with st finish_memory_ends [OF st(3)] show ?thesis by (simp add: memory_ends_def)
qed

lemma combine_loop_span:
  assumes "combine_loop n ws st = Inr st'" and "list_all (\<lambda>w. gw_StartAt w > 0 \<and> gw_EndAt w > 0) ws"
    and "gw_StartAt (cs_combined st) > 0" and "gw_EndAt (cs_combined st) > 0"
  shows "gw_StartAt (cs_combined st') = Min (insert (gw_StartAt (cs_combined st)) (gw_StartAt ` set ws))
    \<and> gw_EndAt (cs_combined st') = Max (insert (gw_EndAt (cs_combined st)) (gw_EndAt ` set ws))"
  using assms
proof (induction ws arbitrary: st)
  case (Cons w ws)
  let ?st = "combine_memory w (combine_totals w st)"
  have s: "gw_StartAt (cs_combined (combine_totals w st)) = min (gw_StartAt w) (gw_StartAt (cs_combined st))"
    and e: "gw_EndAt (cs_combined (combine_totals w st)) = max (gw_EndAt w) (gw_EndAt (cs_combined st))"
    using Cons.prems(3,4) by (simp_all add: totals_span IsZero_def zero_time_def)
  have "combine_loop n ws ?st = Inr st'" using Cons.prems(1) by (simp split: if_splits)
  then have "gw_StartAt (cs_combined st') = Min (insert (gw_StartAt (cs_combined ?st)) (gw_StartAt ` set ws))
      \<and> gw_EndAt (cs_combined st') = Max (insert (gw_EndAt (cs_combined ?st)) (gw_EndAt ` set ws))"
    using Cons.prems by (intro Cons.IH) (simp_all add: s e)
  then show ?case unfolding memory_keeps s e
    by (cases "ws = []") (simp_all add: min.commute min.left_commute max.commute max.left_commute min.assoc max.assoc)
qed simp

text \<open>
  The combined window of a run is valid exactly when there is a segment, every segment is valid and
  their durations add up to more than zero; it then spans from the earliest start to the latest end of
  the segments, and its memory figures are reported as valid exactly when those of every segment are.
\<close>

theorem combined_window_spans:
  assumes "list_all (\<lambda>w. gw_StartAt w > 0 \<and> gw_EndAt w > 0) ws"
  shows "(gw_Valid (combineGatewayMetricsWindows ws) \<longleftrightarrow>
      ws \<noteq> [] \<and> list_all gw_Valid ws \<and> \<not> f_le (active_seconds ws) (Fin 0))
    \<and> (gw_Valid (combineGatewayMetricsWindows ws) \<longrightarrow>
      gw_StartAt (combineGatewayMetricsWindows ws) = Min (gw_StartAt ` set ws)
      \<and> gw_EndAt (combineGatewayMetricsWindows ws) = Max (gw_EndAt ` set ws)
      \<and> (gw_MemoryMetricsValid (combineGatewayMetricsWindows ws) \<longleftrightarrow> list_all gw_MemoryMetricsValid ws))"
proof (intro conjI impI combine_valid_iff)
  assume valid: "gw_Valid (combineGatewayMetricsWindows ws)"
  obtain st where ne: "ws \<noteq> []" and loop: "combine_loop (length ws) ws (combine_start (length ws)) = Inr st"
    and fin: "combineGatewayMetricsWindows ws = combine_finish (length ws) st" and act: "\<not> f_le (cs_activeSeconds st) (Fin 0)"
    using combine_valid_loop [OF valid] by blast
  obtain w ws' where ws: "ws = w # ws'" using ne by (cases ws) auto
  let ?st = "combine_memory w (combine_totals w (combine_start (length ws)))"
  have first: "gw_StartAt (cs_combined (combine_totals w (combine_start n))) = gw_StartAt w"
      "gw_EndAt (cs_combined (combine_totals w (combine_start n))) = gw_EndAt w" for n
    by (simp_all add: totals_span combine_start_def IsZero_def)
  have rest: "combine_loop (length ws) ws' ?st = Inr st" using loop ws by (simp split: if_splits)
  have span: "gw_StartAt (cs_combined st) = Min (gw_StartAt ` set ws) \<and> gw_EndAt (cs_combined st) = Max (gw_EndAt ` set ws)"
    using combine_loop_span [OF rest] assms by (simp add: first ws)
  have mem: "cs_memoryValid st \<and> cs_memoryInitialized st \<longleftrightarrow> list_all gw_MemoryMetricsValid ws"
    using combine_loop_result [OF loop] ne by (auto simp: combine_start_def list_all_iff list_ex_iff neq_Nil_conv)
  note f = finish_memory_ends [OF act, of "length ws"]
  show "gw_StartAt (combineGatewayMetricsWindows ws) = Min (gw_StartAt ` set ws)" using f span fin by simp
  show "gw_EndAt (combineGatewayMetricsWindows ws) = Max (gw_EndAt ` set ws)" using f span fin by simp
  show "gw_MemoryMetricsValid (combineGatewayMetricsWindows ws) \<longleftrightarrow> list_all gw_MemoryMetricsValid ws" using f mem fin by simp
qed

definition wit_segment :: "time \<Rightarrow> int \<Rightarrow> GatewayMetricsWindow" where
  "wit_segment t bytes = zero_Window\<lparr>gw_Valid := True, gw_StartAt := t, gw_EndAt := t + Second, gw_ElapsedMS := Fin 1000,
     gw_MemoryMetricsValid := True, gw_ResidentMemoryEndBytes := Fin (of_int bytes)\<rparr>"

lemma rnd64_numeral: "rnd64 0 = Fin 0" "rnd64 1 = Fin 1" "rnd64 2 = Fin 2"
  using rnd64_exact [OF is_f64_of_int [of 2]] by (simp_all add: rnd64_exact)

lemma wit_segments_valid: "gw_Valid (combineGatewayMetricsWindows [wit_segment 1 100, wit_segment (5 * Second) 900])"
  by (simp add: combine_valid_iff active_seconds_def wit_segment_def rnd64_numeral f_le_def)

theorem combined_window_spans_witness:
  "gw_EndAt (combineGatewayMetricsWindows [wit_segment 1 100, wit_segment (5 * Second) 900]) = 6 * Second"
proof -
  have "list_all (\<lambda>w. gw_StartAt w > 0 \<and> gw_EndAt w > 0) [wit_segment 1 100, wit_segment (5 * Second) 900]"
    by (simp add: wit_segment_def Second_def)
  from combined_window_spans [OF this] wit_segments_valid
  have "gw_EndAt (combineGatewayMetricsWindows [wit_segment 1 100, wit_segment (5 * Second) 900]) =
      Max (gw_EndAt ` set [wit_segment 1 100, wit_segment (5 * Second) 900])" by blast
  then show ?thesis by (simp add: wit_segment_def Second_def)
qed

text \<open>A run whose resident memory grows from 100 to 900 bytes between two segments reports an end of 100.\<close>

theorem memory_growth_missed:
  "gw_ResidentMemoryEndBytes (combineGatewayMetricsWindows [wit_segment 1 100, wit_segment (5 * Second) 900]) = Fin 100"
proof -
  have "gw_MemoryMetricsValid (wit_segment 1 100)" by (simp add: wit_segment_def)
  from combined_memory_stale [OF wit_segments_valid this]
  have "gw_ResidentMemoryEndBytes (combineGatewayMetricsWindows [wit_segment 1 100, wit_segment (5 * Second) 900]) =
      gw_ResidentMemoryEndBytes (wit_segment 1 100)" by blast
  then show ?thesis by (simp add: wit_segment_def)
qed

end
