(* ===== verification/Metrics_Exposition.thy ===== *)
theory Metrics_Exposition
  imports Bench_Metrics
begin

text \<open>
  What \<open>/metrics\<close> serves: the names, labels and buckets of \<open>internal/serving/gateway/metrics_protocol.go\<close>,
  the collectors the five \<open>initialize\<close> functions of \<open>metrics_impl.go\<close> register with them, and the families a
  scrape of the registry yields for a state of the metrics. The Prometheus library is third-party code:
  \<open>fq_name\<close> is its documented rule for full names (namespace, subsystem and name joined by underscores), a
  family without series is left out, and the families of its process and Go collectors are an argument.
  At the other end is the benchmark, which reads four of the families back.
\<close>

subsection \<open>Names\<close>

definition gm_Namespace :: string where "gm_Namespace = ''fishmesh''"
definition gm_Subsystem :: string where "gm_Subsystem = ''gateway''"
definition gm_InflightRequests :: string where "gm_InflightRequests = ''inflight_requests''"
definition gm_AdmittedRequestsTotal :: string where "gm_AdmittedRequestsTotal = ''admitted_requests_total''"
definition gm_RequestsTotal :: string where "gm_RequestsTotal = ''requests_total''"
definition gm_RequestDurationSeconds :: string where "gm_RequestDurationSeconds = ''request_duration_seconds''"
definition gm_FirstSSEEventSeconds :: string where "gm_FirstSSEEventSeconds = ''first_sse_event_seconds''"
definition gm_UpstreamErrorsTotal :: string where "gm_UpstreamErrorsTotal = ''upstream_errors_total''"
definition gm_UpstreamStreamErrorsTotal :: string where "gm_UpstreamStreamErrorsTotal = ''upstream_stream_errors_total''"
definition gm_AdmissionRejectionsTotal :: string where "gm_AdmissionRejectionsTotal = ''admission_rejections_total''"
definition gm_AdmissionSoftRejectionsTotal :: string where "gm_AdmissionSoftRejectionsTotal = ''admission_soft_rejections_total''"
definition gm_AdmissionHardRejectionsTotal :: string where "gm_AdmissionHardRejectionsTotal = ''admission_hard_rejections_total''"
definition gm_AdmissionTarget :: string where "gm_AdmissionTarget = ''admission_target''"
definition gm_AdmissionHardLimit :: string where "gm_AdmissionHardLimit = ''admission_hard_limit''"
definition gm_AdmissionSuggestedTarget :: string where "gm_AdmissionSuggestedTarget = ''admission_suggested_target''"
definition gm_AdmissionTuningActionsTotal :: string where "gm_AdmissionTuningActionsTotal = ''admission_tuning_actions_total''"
definition gm_AdmissionTuningSignalValid :: string where "gm_AdmissionTuningSignalValid = ''admission_tuning_signal_valid''"
definition gm_AdmissionTuningLastChange :: string where "gm_AdmissionTuningLastChange = ''admission_tuning_last_change_timestamp_seconds''"
definition gm_AdmissionTuningMode :: string where "gm_AdmissionTuningMode = ''admission_tuning_mode''"
definition gm_AdmissionTuningReason :: string where "gm_AdmissionTuningReason = ''admission_tuning_reason''"
definition gm_BackendCircuitOpen :: string where "gm_BackendCircuitOpen = ''backend_circuit_open''"
definition gm_BackendCircuitOpensTotal :: string where "gm_BackendCircuitOpensTotal = ''backend_circuit_opens_total''"
definition gm_RoutingDecisionsTotal :: string where "gm_RoutingDecisionsTotal = ''routing_decisions_total''"
definition gm_RoutingReasonsTotal :: string where "gm_RoutingReasonsTotal = ''routing_reasons_total''"
definition gm_SessionKeySpilloversTotal :: string where "gm_SessionKeySpilloversTotal = ''session_key_spillovers_total''"
definition gm_RouteFallbacksTotal :: string where "gm_RouteFallbacksTotal = ''route_fallbacks_total''"
definition gm_BackendObservationStatus :: string where "gm_BackendObservationStatus = ''backend_observation_status''"
definition gm_ObservationFreshnessSeconds :: string where "gm_ObservationFreshnessSeconds = ''backend_observation_freshness_seconds''"
definition gm_ObservationQueueLength :: string where "gm_ObservationQueueLength = ''backend_observation_queue_length''"
definition gm_ObservationRunningRequests :: string where "gm_ObservationRunningRequests = ''backend_observation_running_requests''"
definition gm_BackendIdentityInfo :: string where "gm_BackendIdentityInfo = ''backend_identity_info''"
definition gm_BackendGPURequested :: string where "gm_BackendGPURequested = ''backend_gpu_requested''"
definition gm_BackendCPUUsageCores :: string where "gm_BackendCPUUsageCores = ''backend_cpu_usage_cores''"
definition gm_BackendMemoryUsageBytes :: string where "gm_BackendMemoryUsageBytes = ''backend_memory_usage_bytes''"
definition gm_BackendGPUUtilizationPercent :: string where "gm_BackendGPUUtilizationPercent = ''backend_gpu_utilization_percent''"
definition gm_BackendGPUMemoryUsedBytes :: string where "gm_BackendGPUMemoryUsedBytes = ''backend_gpu_memory_used_bytes''"
definition gm_BackendGPUTemperatureCelsius :: string where "gm_BackendGPUTemperatureCelsius = ''backend_gpu_temperature_celsius''"
definition gm_EndpointDiscoveryStatus :: string where "gm_EndpointDiscoveryStatus = ''endpoint_discovery_status''"
definition gm_DiscoveryFreshnessSeconds :: string where "gm_DiscoveryFreshnessSeconds = ''endpoint_discovery_freshness_seconds''"
definition gm_EndpointDiscoveryReady :: string where "gm_EndpointDiscoveryReady = ''endpoint_discovery_ready_backends''"
definition gm_KVCacheInstanceValid :: string where "gm_KVCacheInstanceValid = ''kv_cache_instance_valid''"
definition gm_KVCacheFreshnessSeconds :: string where "gm_KVCacheFreshnessSeconds = ''kv_cache_freshness_seconds''"
definition gm_KVCacheLastSequence :: string where "gm_KVCacheLastSequence = ''kv_cache_last_sequence''"
definition gm_KVCacheAppliedBatches :: string where "gm_KVCacheAppliedBatches = ''kv_cache_applied_batches''"
definition gm_KVCacheReplayBatches :: string where "gm_KVCacheReplayBatches = ''kv_cache_replay_batches''"
definition gm_KVCacheSequenceResets :: string where "gm_KVCacheSequenceResets = ''kv_cache_sequence_resets_total''"
definition gm_KVEventErrors :: string where "gm_KVEventErrors = ''kv_event_errors_total''"
definition gm_KVCacheStatus :: string where "gm_KVCacheStatus = ''kv_cache_status''"
definition gm_KVEventPublishToApplySeconds :: string where "gm_KVEventPublishToApplySeconds = ''kv_event_publish_to_apply_seconds''"
definition gm_KVAwareRequestsTotal :: string where "gm_KVAwareRequestsTotal = ''kv_aware_requests_total''"
definition gm_KVAwareDegradationsTotal :: string where "gm_KVAwareDegradationsTotal = ''kv_aware_degradations_total''"
definition gm_KVAwareBypassesTotal :: string where "gm_KVAwareBypassesTotal = ''kv_aware_bypasses_total''"
definition gm_KVAwareCachedPrefixTokens :: string where "gm_KVAwareCachedPrefixTokens = ''kv_aware_cached_prefix_tokens''"
definition gm_PredictionShadowsTotal :: string where "gm_PredictionShadowsTotal = ''prediction_shadows_total''"
definition gm_PredictionAbsoluteErrorSeconds :: string where "gm_PredictionAbsoluteErrorSeconds = ''prediction_absolute_error_seconds''"
definition gm_StaticEstimatorSelectionsTotal :: string where "gm_StaticEstimatorSelectionsTotal = ''static_estimator_selections_total''"
definition gm_StaticEstimatedTTFTSeconds :: string where "gm_StaticEstimatedTTFTSeconds = ''static_estimated_ttft_seconds''"
definition gm_StaticEstimatorErrorSeconds :: string where "gm_StaticEstimatorErrorSeconds = ''static_estimator_absolute_error_seconds''"
definition gm_HardOverloadSelectionsTotal :: string where "gm_HardOverloadSelectionsTotal = ''hard_overload_selections_total''"
definition labelMethod :: string where "labelMethod = ''method''"
definition labelStatus :: string where "labelStatus = ''status''"
definition labelBackendID :: string where "labelBackendID = ''backend_id''"
definition labelMode :: string where "labelMode = ''mode''"
definition labelReason :: string where "labelReason = ''reason''"
definition labelPodName :: string where "labelPodName = ''pod_name''"
definition labelNodeName :: string where "labelNodeName = ''node_name''"
definition labelKVStatus :: string where "labelKVStatus = ''status''"
definition labelKVCacheStatus :: string where "labelKVCacheStatus = ''reason''"
definition labelKVEventSource :: string where "labelKVEventSource = ''source''"
definition labelPredictionOutcome :: string where "labelPredictionOutcome = ''outcome''"
definition labelConfidence :: string where "labelConfidence = ''confidence''"
definition labelEstimatorReason :: string where "labelEstimatorReason = ''estimator_reason''"
definition labelOutcome :: string where "labelOutcome = ''outcome''"
definition labelTuningMode :: string where "labelTuningMode = ''mode''"
definition labelTuningReason :: string where "labelTuningReason = ''reason''"

lemmas metric_name_defs =
  gm_Namespace_def gm_Subsystem_def gm_InflightRequests_def gm_AdmittedRequestsTotal_def gm_RequestsTotal_def
  gm_RequestDurationSeconds_def gm_FirstSSEEventSeconds_def gm_UpstreamErrorsTotal_def gm_UpstreamStreamErrorsTotal_def
  gm_AdmissionRejectionsTotal_def gm_AdmissionSoftRejectionsTotal_def gm_AdmissionHardRejectionsTotal_def
  gm_AdmissionTarget_def gm_AdmissionHardLimit_def gm_AdmissionSuggestedTarget_def gm_AdmissionTuningActionsTotal_def
  gm_AdmissionTuningSignalValid_def gm_AdmissionTuningLastChange_def gm_AdmissionTuningMode_def
  gm_AdmissionTuningReason_def gm_BackendCircuitOpen_def gm_BackendCircuitOpensTotal_def gm_RoutingDecisionsTotal_def
  gm_RoutingReasonsTotal_def gm_SessionKeySpilloversTotal_def gm_RouteFallbacksTotal_def gm_BackendObservationStatus_def
  gm_ObservationFreshnessSeconds_def gm_ObservationQueueLength_def gm_ObservationRunningRequests_def
  gm_BackendIdentityInfo_def gm_BackendGPURequested_def gm_BackendCPUUsageCores_def gm_BackendMemoryUsageBytes_def
  gm_BackendGPUUtilizationPercent_def gm_BackendGPUMemoryUsedBytes_def gm_BackendGPUTemperatureCelsius_def
  gm_EndpointDiscoveryStatus_def gm_DiscoveryFreshnessSeconds_def gm_EndpointDiscoveryReady_def
  gm_KVCacheInstanceValid_def gm_KVCacheFreshnessSeconds_def gm_KVCacheLastSequence_def gm_KVCacheAppliedBatches_def
  gm_KVCacheReplayBatches_def gm_KVCacheSequenceResets_def gm_KVEventErrors_def gm_KVCacheStatus_def
  gm_KVEventPublishToApplySeconds_def gm_KVAwareRequestsTotal_def gm_KVAwareDegradationsTotal_def
  gm_KVAwareBypassesTotal_def gm_KVAwareCachedPrefixTokens_def gm_PredictionShadowsTotal_def
  gm_PredictionAbsoluteErrorSeconds_def gm_StaticEstimatorSelectionsTotal_def gm_StaticEstimatedTTFTSeconds_def
  gm_StaticEstimatorErrorSeconds_def gm_HardOverloadSelectionsTotal_def

lemmas label_name_defs =
  labelMethod_def labelStatus_def labelBackendID_def labelMode_def labelReason_def labelPodName_def labelNodeName_def
  labelKVStatus_def labelKVCacheStatus_def labelKVEventSource_def labelPredictionOutcome_def labelConfidence_def
  labelEstimatorReason_def labelOutcome_def labelTuningMode_def labelTuningReason_def

definition firstSSEEventBuckets :: "rat list" where
  "firstSSEEventBuckets = [1/100, 25/1000, 5/100, 1/10, 25/100, 5/10, 1, 2, 5, 10, 30, 60]"

definition kvEventPublishToApplyBuckets :: "rat list" where
  "kvEventPublishToApplyBuckets = [5/10000, 1/1000, 25/10000, 5/1000, 1/100, 25/1000, 5/100, 1/10, 25/100, 5/10, 1, 2, 5, 10]"

definition kvAwareCachedPrefixTokenBuckets :: "rat list" where
  "kvAwareCachedPrefixTokenBuckets = [0, 16, 32, 64, 128, 256, 512, 1024, 2048, 4096, 8192, 16384]"

subsection \<open>Collectors\<close>

datatype metric_kind = KGauge | KCounter | KHistogram "rat list option" \<comment> \<open>\<open>None\<close>: the default buckets of the library\<close>

record metric_desc =
  mdc_Name :: string
  mdc_Labels :: "string list"
  mdc_Kind :: metric_kind

definition desc :: "string \<Rightarrow> string list \<Rightarrow> metric_kind \<Rightarrow> metric_desc" where
  "desc n ls k = \<lparr>mdc_Name = n, mdc_Labels = ls, mdc_Kind = k\<rparr>"

definition fq_name :: "string \<Rightarrow> string" where
  "fq_name n = gm_Namespace @ ''_'' @ gm_Subsystem @ ''_'' @ n"

definition request_descs :: "metric_desc list" where
  "request_descs =
     [desc gm_InflightRequests [] KGauge,
      desc gm_AdmittedRequestsTotal [] KCounter,
      desc gm_RequestsTotal [labelMethod, labelStatus] KCounter,
      desc gm_RequestDurationSeconds [labelMethod, labelStatus] (KHistogram None),
      desc gm_FirstSSEEventSeconds [] (KHistogram (Some firstSSEEventBuckets)),
      desc gm_UpstreamErrorsTotal [] KCounter,
      desc gm_UpstreamStreamErrorsTotal [] KCounter,
      desc gm_AdmissionRejectionsTotal [] KCounter,
      desc gm_AdmissionSoftRejectionsTotal [] KCounter,
      desc gm_AdmissionHardRejectionsTotal [] KCounter,
      desc gm_AdmissionTarget [] KGauge,
      desc gm_AdmissionHardLimit [] KGauge,
      desc gm_AdmissionSuggestedTarget [] KGauge,
      desc gm_AdmissionTuningActionsTotal [] KCounter,
      desc gm_AdmissionTuningSignalValid [] KGauge,
      desc gm_AdmissionTuningLastChange [] KGauge,
      desc gm_AdmissionTuningMode [labelTuningMode] KGauge,
      desc gm_AdmissionTuningReason [labelTuningReason] KGauge]"

definition routing_descs :: "metric_desc list" where
  "routing_descs =
     [desc gm_BackendCircuitOpen [labelBackendID] KGauge,
      desc gm_BackendCircuitOpensTotal [labelBackendID] KCounter,
      desc gm_RoutingDecisionsTotal [labelMode, labelBackendID] KCounter,
      desc gm_RoutingReasonsTotal [labelReason] KCounter,
      desc gm_SessionKeySpilloversTotal [labelReason] KCounter,
      desc gm_RouteFallbacksTotal [] KCounter,
      desc gm_PredictionShadowsTotal [labelStatus, labelPredictionOutcome] KCounter,
      desc gm_PredictionAbsoluteErrorSeconds [] (KHistogram (Some firstSSEEventBuckets)),
      desc gm_StaticEstimatorSelectionsTotal [labelConfidence, labelEstimatorReason] KCounter,
      desc gm_StaticEstimatedTTFTSeconds [] (KHistogram (Some firstSSEEventBuckets)),
      desc gm_StaticEstimatorErrorSeconds [] (KHistogram (Some firstSSEEventBuckets)),
      desc gm_HardOverloadSelectionsTotal [labelOutcome] KCounter]"

definition observation_descs :: "metric_desc list" where
  "observation_descs =
     [desc gm_BackendObservationStatus [labelBackendID, labelStatus] KGauge,
      desc gm_ObservationFreshnessSeconds [labelBackendID] KGauge,
      desc gm_ObservationQueueLength [labelBackendID] KGauge,
      desc gm_ObservationRunningRequests [labelBackendID] KGauge,
      desc gm_BackendIdentityInfo [labelBackendID, labelPodName, labelNodeName] KGauge,
      desc gm_BackendGPURequested [labelBackendID] KGauge,
      desc gm_BackendCPUUsageCores [labelBackendID] KGauge,
      desc gm_BackendMemoryUsageBytes [labelBackendID] KGauge,
      desc gm_BackendGPUUtilizationPercent [labelBackendID] KGauge,
      desc gm_BackendGPUMemoryUsedBytes [labelBackendID] KGauge,
      desc gm_BackendGPUTemperatureCelsius [labelBackendID] KGauge]"

definition discovery_descs :: "metric_desc list" where
  "discovery_descs =
     [desc gm_EndpointDiscoveryStatus [labelStatus] KGauge,
      desc gm_DiscoveryFreshnessSeconds [] KGauge,
      desc gm_EndpointDiscoveryReady [] KGauge]"

definition kv_descs :: "metric_desc list" where
  "kv_descs =
     [desc gm_KVCacheInstanceValid [labelBackendID] KGauge,
      desc gm_KVCacheFreshnessSeconds [labelBackendID] KGauge,
      desc gm_KVCacheLastSequence [labelBackendID] KGauge,
      desc gm_KVCacheAppliedBatches [labelBackendID] KGauge,
      desc gm_KVCacheReplayBatches [labelBackendID] KGauge,
      desc gm_KVCacheSequenceResets [labelBackendID, labelKVEventSource] KCounter,
      desc gm_KVEventErrors [labelBackendID, labelKVCacheStatus] KCounter,
      desc gm_KVCacheStatus [labelBackendID, labelKVCacheStatus] KGauge,
      desc gm_KVEventPublishToApplySeconds [labelBackendID, labelKVEventSource] (KHistogram (Some kvEventPublishToApplyBuckets)),
      desc gm_KVAwareRequestsTotal [labelKVStatus] KCounter,
      desc gm_KVAwareDegradationsTotal [labelKVStatus] KCounter,
      desc gm_KVAwareBypassesTotal [labelReason] KCounter,
      desc gm_KVAwareCachedPrefixTokens [] (KHistogram (Some kvAwareCachedPrefixTokenBuckets))]"

definition registered_metrics :: "metric_desc list" where
  "registered_metrics = request_descs @ routing_descs @ observation_descs @ discovery_descs @ kv_descs"

subsection \<open>A scrape\<close>

definition gauge_sample :: "f64 \<Rightarrow> dto_metric list" where
  "gauge_sample v = [\<lparr>mt_Gauge = Some v, mt_Counter = None\<rparr>]"

definition counter_sample :: "nat \<Rightarrow> dto_metric list" where
  "counter_sample n = [\<lparr>mt_Gauge = None, mt_Counter = Some (f_of_int (int n))\<rparr>]"

definition histogram_sample :: "f64 list \<Rightarrow> dto_metric list" where
  "histogram_sample vs = [\<lparr>mt_Gauge = None, mt_Counter = None\<rparr>]"

definition gauge_samples :: "f64 vec \<Rightarrow> dto_metric list" where
  "gauge_samples v = concat (map (\<lambda>e. gauge_sample (snd e)) v)"

definition counter_samples :: "nat vec \<Rightarrow> dto_metric list" where
  "counter_samples v = concat (map (\<lambda>e. counter_sample (snd e)) v)"

definition histogram_samples :: "f64 list vec \<Rightarrow> dto_metric list" where
  "histogram_samples v = concat (map (\<lambda>e. histogram_sample (snd e)) v)"

definition request_samples :: "request_metrics \<Rightarrow> dto_metric list list" where
  "request_samples qm =
     [gauge_sample (f_of_int (mq_inflight qm)),
      counter_sample (mq_admittedRequests qm),
      counter_samples (mq_requests qm),
      histogram_samples (mq_requestSeconds qm),
      histogram_sample (mq_ttftSeconds qm),
      counter_sample (mq_upstreamErrors qm),
      counter_sample (mq_streamErrors qm),
      counter_sample (mq_admissionRejections qm),
      counter_sample (mq_admissionSoftRejections qm),
      counter_sample (mq_admissionHardRejections qm),
      gauge_sample (mq_admissionTarget qm),
      gauge_sample (mq_admissionHardLimit qm),
      gauge_sample (mq_admissionSuggestedTarget qm),
      counter_sample (mq_admissionTuningActions qm),
      gauge_sample (mq_admissionTuningSignal qm),
      gauge_sample (mq_admissionTuningLastChange qm),
      gauge_samples (mq_admissionTuningMode qm),
      gauge_samples (mq_admissionTuningReason qm)]"

definition routing_samples :: "routing_metrics \<Rightarrow> dto_metric list list" where
  "routing_samples rm =
     [gauge_samples (mr_circuitOpen rm),
      counter_samples (mr_circuitOpens rm),
      counter_samples (mr_routingDecisions rm),
      counter_samples (mr_routingReasons rm),
      counter_samples (mr_sessionKeySpillovers rm),
      counter_sample (mr_routeFallbacks rm),
      counter_samples (mr_predictionShadows rm),
      histogram_sample (mr_predictionErrors rm),
      counter_samples (mr_staticEstimatorSelections rm),
      histogram_sample (mr_staticEstimatedTTFT rm),
      histogram_sample (mr_staticEstimatorErrors rm),
      counter_samples (mr_hardOverloadSelections rm)]"

definition observation_samples :: "observation_metrics \<Rightarrow> dto_metric list list" where
  "observation_samples om =
     [gauge_samples (mo_status om),
      gauge_samples (mo_freshness om),
      gauge_samples (mo_queue om),
      gauge_samples (mo_running om),
      gauge_samples (mo_identity om),
      gauge_samples (mo_gpu om),
      gauge_samples (mo_cpu om),
      gauge_samples (mo_memory om),
      gauge_samples (mo_gpuUtilization om),
      gauge_samples (mo_gpuMemory om),
      gauge_samples (mo_gpuTemperature om)]"

definition discovery_samples :: "discovery_metrics \<Rightarrow> dto_metric list list" where
  "discovery_samples dm =
     [gauge_samples (md_status dm),
      gauge_sample (md_freshness dm),
      gauge_sample (md_ready dm)]"

definition kv_samples :: "kv_metrics \<Rightarrow> dto_metric list list" where
  "kv_samples km =
     [gauge_samples (mk_valid km),
      gauge_samples (mk_freshness km),
      gauge_samples (mk_lastSequence km),
      gauge_samples (mk_appliedBatches km),
      gauge_samples (mk_replayBatches km),
      counter_samples (mk_sequenceResets km),
      counter_samples (mk_eventErrors km),
      gauge_samples (mk_status km),
      histogram_samples (mk_publishToApply km),
      counter_samples (mk_requests km),
      counter_samples (mk_degradations km),
      counter_samples (mk_bypasses km),
      histogram_sample (mk_cachedPrefix km)]"

definition metric_samples :: "Metrics \<Rightarrow> dto_metric list list" where
  "metric_samples m = request_samples (mx_request m) @ routing_samples (mx_routing m) @ observation_samples (mx_observation m)
     @ discovery_samples (mx_discovery m) @ kv_samples (mx_kv m)"

definition gather :: "families \<Rightarrow> Metrics \<Rightarrow> families" where
  "gather process m name =
     (case map_of (zip (map (fq_name \<circ> mdc_Name) registered_metrics) (metric_samples m)) name of
        Some (s # ss) \<Rightarrow> Some (s # ss)
      | _ \<Rightarrow> process name)"

subsection \<open>The registry accepts them\<close>

definition legacy_name :: "string \<Rightarrow> bool" where
  \<comment> \<open>what the library accepts as the name of a metric or of a label, without the colon\<close>
  "legacy_name s \<longleftrightarrow> s \<noteq> [] \<and> list_all (\<lambda>c. c \<in> set ''abcdefghijklmnopqrstuvwxyz_'') s"

fun increasing :: "rat list \<Rightarrow> bool" where
  "increasing (x # y # zs) = (x < y \<and> increasing (y # zs))"
| "increasing _ = True"

definition desc_ok :: "metric_desc \<Rightarrow> bool" where
  "desc_ok d \<longleftrightarrow> legacy_name (mdc_Name d) \<and> list_all legacy_name (mdc_Labels d) \<and> distinct (mdc_Labels d)
     \<and> (case mdc_Kind d of KHistogram (Some bs) \<Rightarrow> increasing bs | _ \<Rightarrow> True)"

lemmas descs_defs = request_descs_def routing_descs_def observation_descs_def discovery_descs_def kv_descs_def

lemma registered_ok: "list_all desc_ok registered_metrics"
  by (simp add: registered_metrics_def descs_defs desc_ok_def desc_def legacy_name_def metric_name_defs label_name_defs
      firstSSEEventBuckets_def kvEventPublishToApplyBuckets_def kvAwareCachedPrefixTokenBuckets_def)

lemma registered_distinct: "distinct (map mdc_Name registered_metrics)"
  by (simp add: registered_metrics_def descs_defs desc_def metric_name_defs)

lemma sample_counts: "length (metric_samples m) = length registered_metrics"
  by (simp add: metric_samples_def registered_metrics_def descs_defs request_samples_def routing_samples_def
      observation_samples_def discovery_samples_def kv_samples_def)

lemma fq_name_inj: "fq_name n = fq_name n' \<longleftrightarrow> n = n'"
  by (simp add: fq_name_def)

text \<open>
  Every collector is registered under a name of its own, with valid and distinct labels and increasing
  buckets: the construction of the metrics cannot panic.
\<close>

theorem registration_accepted:
  "distinct (map (fq_name \<circ> mdc_Name) registered_metrics) \<and> list_all desc_ok registered_metrics"
proof -
  have "inj fq_name" by (simp add: inj_def fq_name_inj)
  then have "distinct (map fq_name (map mdc_Name registered_metrics))"
    using registered_distinct by (subst distinct_map) (blast intro: inj_on_subset)
  then show ?thesis using registered_ok by simp
qed

subsection \<open>The benchmark reads them back\<close>

definition request_total :: "request_metrics \<Rightarrow> nat" where
  "request_total qm = sum_list (map snd (mq_requests qm))"

definition library_collectors :: "families \<Rightarrow> bool" where
  \<comment> \<open>the process and Go collectors keep to their own names, and their two memory families, where present,
      are one gauge each\<close>
  "library_collectors process \<longleftrightarrow> (\<forall>n. process (fq_name n) = None)
     \<and> (\<forall>n\<in>{metricResidentMemory, metricHeapAlloc}. process n = None \<or> (\<exists>v. process n = Some (gauge_sample v)))"

definition exact_counts :: "request_metrics \<Rightarrow> bool" where
  \<comment> \<open>the counts are small enough for a float64\<close>
  "exact_counts qm \<longleftrightarrow> mq_admittedRequests qm < 2 ^ 53 \<and> request_total qm < 2 ^ 53 \<and> mq_admissionRejections qm < 2 ^ 53
     \<and> \<bar>mq_inflight qm\<bar> < 2 ^ 53"

lemma read_names:
  "metricAdmittedRequests = fq_name gm_AdmittedRequestsTotal" "metricCompletedRequests = fq_name gm_RequestsTotal"
  "metricAdmissionRejections = fq_name gm_AdmissionRejectionsTotal" "metricInflightRequests = fq_name gm_InflightRequests"
  by (simp_all add: metricAdmittedRequests_def metricCompletedRequests_def metricAdmissionRejections_def metricInflightRequests_def
      fq_name_def metric_name_defs)

lemma gathered:
  "gather process m (fq_name gm_AdmittedRequestsTotal) = Some (counter_sample (mq_admittedRequests (mx_request m)))"
  "gather process m (fq_name gm_AdmissionRejectionsTotal) = Some (counter_sample (mq_admissionRejections (mx_request m)))"
  "gather process m (fq_name gm_InflightRequests) = Some (gauge_sample (f_of_int (mq_inflight (mx_request m))))"
  "gather process m (fq_name gm_RequestsTotal) =
     (if mq_requests (mx_request m) = [] then process (fq_name gm_RequestsTotal) else Some (counter_samples (mq_requests (mx_request m))))"
  by (simp_all add: gather_def registered_metrics_def request_descs_def desc_def fq_name_inj metric_samples_def request_samples_def
      metric_name_defs counter_sample_def gauge_sample_def counter_samples_def split: list.split)

lemma gathered_process:
  assumes "take 1 n \<noteq> ''f''"
  shows "gather process m n = process n"
proof -
  have "n \<notin> set (map (fq_name \<circ> mdc_Name) registered_metrics)"
    using assms by (auto simp: fq_name_def gm_Namespace_def)
  then have "map_of (zip (map (fq_name \<circ> mdc_Name) registered_metrics) (metric_samples m)) n = None"
    unfolding map_of_eq_None_iff by (metis image_iff prod.collapse set_zip_leftD)
  then show ?thesis by (simp add: gather_def)
qed

lemma small_count: "n < 2 ^ 53 \<Longrightarrow> \<bar>int n\<bar> < 2 ^ 53"
  by (simp add: of_nat_less_iff [of n "2 ^ 53", where 'a = int, symmetric])

lemma sum_counters_exact:
  assumes "a + sum_list (map snd v) < 2 ^ 53"
  shows "sum_counters n (counter_samples v) (Fin (of_nat a)) = Inr (Fin (of_nat (a + sum_list (map snd v))))"
  using assms
proof (induction v arbitrary: a)
  case (Cons e v)
  have s: "\<bar>int (a + snd e)\<bar> < 2 ^ 53" "\<bar>int (snd e)\<bar> < 2 ^ 53"
    using Cons.prems by (intro small_count, simp)+
  then have "f_add (Fin (of_nat a)) (f_of_int (int (snd e))) = Fin (of_nat (a + snd e))"
    using rnd64_exact [OF is_f64_of_int [OF s(1)]] f_of_int_exact [OF s(2)] by simp
  then show ?case using Cons.IH [of "a + snd e"] Cons.prems by (simp add: counter_samples_def counter_sample_def add.assoc)
qed (simp add: counter_samples_def)

lemma memory_read:
  assumes "library_collectors process" and "n \<in> {metricResidentMemory, metricHeapAlloc}"
  obtains v present where "optionalMetricValue (gather process m) n = Inr (v, present)"
proof -
  have "take 1 n \<noteq> ''f''" using assms(2) by (auto simp: metricResidentMemory_def metricHeapAlloc_def)
  then have g: "gather process m n = process n" by (rule gathered_process)
  have "process n = None \<or> (\<exists>v. process n = Some (gauge_sample v))"
    using assms by (auto simp: library_collectors_def)
  then have "\<exists>v present. optionalMetricValue (gather process m) n = Inr (v, present)"
    by (auto simp: optionalMetricValue_def metricValue_def g gauge_sample_def)
  then show thesis using that by blast
qed

text \<open>
  C23. The two ends of the metrics agree: whatever the state of the gateway, \<open>Snapshot\<close> of the benchmark
  accepts an answer of status 200 whose body is the gateway's scrape, and reads the number of admitted requests,
  of completed requests over all methods and statuses, of rejections, and of requests in flight, exactly (up to
  the 53 bits of a float64), provided that the scrape is not longer than the 8 MiB the reader looks at. The text
  of a scrape is written and parsed by the Prometheus library: \<open>expose\<close> and \<open>parse\<close> are arguments, and the parser is
  assumed to read back the families of this scrape.
\<close>

theorem bench_reads_gateway:
  assumes "library_collectors process" and "exact_counts (mx_request m)"
    and "parse (expose (gather process m)) = Some (gather process m)" and "length (expose (gather process m)) \<le> 8388608"
  shows "\<exists>s. reader_Snapshot parse now (Some (200, expose (gather process m))) = Inr s
    \<and> gs_AdmittedRequestsTotal s = Fin (of_nat (mq_admittedRequests (mx_request m)))
    \<and> gs_CompletedRequestsTotal s = Fin (of_nat (request_total (mx_request m)))
    \<and> gs_AdmissionRejectionsTotal s = Fin (of_nat (mq_admissionRejections (mx_request m)))
    \<and> gs_InflightRequests s = Fin (of_int (mq_inflight (mx_request m)))"
proof -
  let ?qm = "mx_request m"
  note c = assms(2) [unfolded exact_counts_def]
  have f: "f_of_int (int (mq_admittedRequests ?qm)) = Fin (of_nat (mq_admittedRequests ?qm))"
    "f_of_int (int (mq_admissionRejections ?qm)) = Fin (of_nat (mq_admissionRejections ?qm))"
    "f_of_int (mq_inflight ?qm) = Fin (of_int (mq_inflight ?qm))"
    using c by (simp_all add: f_of_int_exact small_count)
  have total: "metricSumOrZero (gather process m) metricCompletedRequests = Inr (Fin (of_nat (request_total ?qm)))"
    using assms(1) c sum_counters_exact [of 0 "mq_requests ?qm"]
    by (cases "mq_requests ?qm")
      (auto simp: metricSumOrZero_def metricSum_def read_names gathered library_collectors_def request_total_def
        counter_samples_def counter_sample_def)
  obtain v p where resident: "optionalMetricValue (gather process m) metricResidentMemory = Inr (v, p)"
    using memory_read [OF assms(1)] by blast
  obtain v' p' where heap: "optionalMetricValue (gather process m) metricHeapAlloc = Inr (v', p')"
    using memory_read [OF assms(1)] by blast
  have one: "metricValue (gather process m) metricAdmittedRequests = Inr (Fin (of_nat (mq_admittedRequests ?qm)))"
    "metricValue (gather process m) metricAdmissionRejections = Inr (Fin (of_nat (mq_admissionRejections ?qm)))"
    "metricValue (gather process m) metricInflightRequests = Inr (Fin (of_int (mq_inflight ?qm)))"
    by (simp_all add: metricValue_def read_names gathered counter_sample_def gauge_sample_def f)
  show ?thesis using assms(3,4) by (simp add: reader_Snapshot_def snapshot_of_families_def one total resident heap)
qed

definition wit_scraped :: Metrics where
  "wit_scraped = NewMetrics\<lparr>mx_request := observeRequest ''POST'' 200 0 (observeRequest ''POST'' 502 0
     (observeAdmissionAccepted (observeAdmissionAccepted initializeRequestMetrics)))\<rparr>"

definition wit_expose :: "families \<Rightarrow> string" where
  "wit_expose fs = (if fs (fq_name gm_RequestsTotal) = None then [] else ''metrics'')"

definition wit_parse :: "string \<Rightarrow> families option" where
  "wit_parse text = (if text = ''metrics'' then Some (gather (\<lambda>_. None) wit_scraped) else None)"

theorem bench_reads_gateway_witness:
  "\<exists>s. reader_Snapshot wit_parse 0 (Some (200, wit_expose (gather (\<lambda>_. None) wit_scraped))) = Inr s \<and> gs_AdmittedRequestsTotal s = Fin 2
    \<and> gs_CompletedRequestsTotal s = Fin 2 \<and> gs_InflightRequests s = Fin 0"
proof -
  have "mq_admittedRequests (mx_request wit_scraped) = 2" "request_total (mx_request wit_scraped) = 2"
    "mq_admissionRejections (mx_request wit_scraped) = 0" "mq_inflight (mx_request wit_scraped) = 0"
    by (simp_all add: wit_scraped_def observeRequest_def observeAdmissionAccepted_def initializeRequestMetrics_def request_total_def
        vinc_def mget_def)
  moreover have "library_collectors (\<lambda>_. None)" by (simp add: library_collectors_def)
  moreover have "mq_requests (mx_request wit_scraped) \<noteq> []" by (simp add: wit_scraped_def observeRequest_def vinc_def)
  then have "wit_expose (gather (\<lambda>_. None) wit_scraped) = ''metrics''" by (simp add: wit_expose_def gathered)
  ultimately show ?thesis
    using bench_reads_gateway [of "\<lambda>_. None" wit_scraped wit_parse wit_expose 0] by (auto simp: exact_counts_def wit_parse_def)
qed

end
