(* ===== verification/Decision_Headers.thy ===== *)
theory Decision_Headers
  imports Gateway_Runs Client
begin

text \<open>
  The gateway and the benchmark client share the names of the decision headers. This theory composes the two
  components: what \<open>writeDecisionHeaders\<close>, \<open>copyResponseHeaders\<close> and \<open>writeUpstreamHeader\<close> leave in the header of
  the response is what \<open>decisionHeaders\<close> of the client reads. The values cross the connection unchanged.
\<close>

subsection \<open>Reading numbers back\<close>

definition printable :: "string \<Rightarrow> bool" where
  "printable s \<longleftrightarrow> list_all (\<lambda>c. 33 \<le> (of_char c :: nat) \<and> (of_char c :: nat) \<le> 126) s"

lemma no_space_prefix:
  assumes "printable s" and "list_all (\<lambda>p. p \<noteq> [] \<and> (hd p < 33 \<or> 126 < hd p)) sp"
  shows "space_prefix sp s = 0"
proof -
  have "\<not> starts_with p (map of_char s)" if "p \<in> set sp" for p
  proof
    assume "starts_with p (map of_char s)"
    moreover have p: "p \<noteq> []" "hd p < 33 \<or> 126 < hd p" using assms(2) that by (simp_all add: list_all_iff)
    ultimately have "hd p \<in> set (map of_char s)"
      unfolding starts_with_def by (metis hd_in_set in_set_takeD)
    then show False using assms(1) p(2) by (auto simp: printable_def list_all_iff)
  qed
  then have "find (\<lambda>p. starts_with p (map of_char s)) sp = None" by (simp add: find_None_iff)
  then show ?thesis by (simp add: space_prefix_def)
qed

lemma TrimSpace_printable: "printable s \<Longrightarrow> TrimSpace s = s"
proof -
  assume s: "printable s"
  have "list_all (\<lambda>p. p \<noteq> [] \<and> (hd p < 33 \<or> 126 < hd p)) utf8_spaces" "list_all (\<lambda>p. p \<noteq> [] \<and> (hd p < 33 \<or> 126 < hd p)) (map rev utf8_spaces)"
    by (simp_all add: utf8_spaces_def)
  with no_space_prefix [OF s] no_space_prefix [of "rev s"] s
  have "trim_front utf8_spaces s = s" "trim_front (map rev utf8_spaces) (rev s) = rev s"
    by (simp_all add: trim_front.simps Let_def printable_def)
  then show ?thesis by (simp add: TrimSpace_def)
qed

lemma printable_append [simp]: "printable (a @ b) \<longleftrightarrow> printable a \<and> printable b"
  by (simp add: printable_def)

lemma printable_dec_nat [simp]: "printable (dec_nat n)"
  using dec_nat_is_digit [of n] by (auto simp: printable_def list_all_iff is_digit_def)

lemma printable_dec_int [simp]: "printable (dec_int i)"
  using printable_dec_nat [of "nat i"] printable_dec_nat [of "nat (- i)"] by (simp add: dec_int_def printable_def)

lemma nonNegativeInt_dec_int: "in_int64 i \<Longrightarrow> nonNegativeInt (dec_int i) = max 0 i"
  by (simp add: nonNegativeInt_def TrimSpace_printable Atoi_dec_int)

lemma TrimSpace_empty: "TrimSpace [] = []"
  by (rule TrimSpace_printable) (simp add: printable_def)

lemma nonNegativeInt_empty: "nonNegativeInt [] = 0"
  by (simp add: nonNegativeInt_def TrimSpace_empty Atoi_def strip_sign_def)

lemma headerBool_FormatBool: "headerBool (FormatBool b) = b"
proof -
  have "TrimSpace ''true'' = ''true''" "TrimSpace ''false'' = ''false''" by (simp_all add: TrimSpace_printable printable_def)
  then show ?thesis by (simp add: headerBool_def FormatBool_def ParseBool_def)
qed

lemma headerBool_empty: "\<not> headerBool []"
  by (simp add: headerBool_def TrimSpace_empty ParseBool_def)

definition thousandths :: "rat \<Rightarrow> rat" where
  \<comment> \<open>the decimal that \<open>fixed3\<close> prints\<close>
  "thousandths q = of_int (rne (q * 1000)) / 1000"

definition reads_decimals :: "(string \<Rightarrow> f64 option) \<Rightarrow> bool" where
  \<comment> \<open>\<open>strconv.ParseFloat\<close> refuses the empty text and reads a decimal with three digits as the nearest double\<close>
  "reads_decimals parse \<longleftrightarrow> parse [] = None \<and> (\<forall>q \<ge> 0. parse (fixed3 q) = Some (rnd64 (thousandths q)))"

definition shown_ms :: "duration \<Rightarrow> f64" where
  "shown_ms d = (case f_div (f_of_int d) (Fin 1000000) of Fin q \<Rightarrow> rnd64 (thousandths q) | _ \<Rightarrow> Fin 0)"

lemma printable_fixed3: "0 \<le> q \<Longrightarrow> printable (fixed3 q)"
proof -
  have "printable [hex_digit (m div 100), hex_digit (m div 10 mod 10), hex_digit (m mod 10)]" if "m < 1000" for m :: nat
  proof -
    have "m div 100 < 10" "m div 10 mod 10 < 10" "m mod 10 < 10" using that by simp_all
    then show ?thesis by (simp add: printable_def hex_digit_def del: pos_mod_bound mod_less_divisor)
  qed
  then show "0 \<le> q \<Longrightarrow> printable (fixed3 q)"
    using printable_dec_nat by (simp add: fixed3_def Let_def) (simp add: printable_def)
qed

lemma is_f64_pow2: "k \<le> 900 \<Longrightarrow> is_f64 (2 ^ k)"
  using is_f64_dyadic [of 1 "int k"] by (simp add: power_int_def)

lemma shown_ms_read:
  assumes "reads_decimals parse" and "0 \<le> d" and "in_int64 d"
  shows "nonNegativeFloat parse (format_ms d) = shown_ms d"
proof -
  have top: "(of_int d :: rat) \<le> 2 ^ 63" "0 \<le> (of_int d :: rat)" using assms(2,3) by (simp_all add: in_int64_def max_int64_def)
  obtain a where a: "f_of_int d = Fin a" "0 \<le> a" "a \<le> 2 ^ 63"
    using rnd64_between [OF is_f64_0 is_f64_pow2 [of 63] top(2,1)] by (auto simp: f_of_int_def)
  have div: "0 \<le> a / 1000000" "a / 1000000 \<le> 2 ^ 63" using a by simp_all
  obtain q where q: "f_div (f_of_int d) (Fin 1000000) = Fin q" "0 \<le> q" "q \<le> 2 ^ 63"
    using rnd64_between [OF is_f64_0 is_f64_pow2 [of 63] div] by (auto simp: a)
  have "0 \<le> rne (q * 1000)" using rne_cases [of "q * 1000"] q(2) by auto
  moreover have "of_int (rne (q * 1000)) \<le> q * 1000 + 1" using rne_err [of "q * 1000"] by linarith
  ultimately have t: "0 \<le> thousandths q" "thousandths q \<le> 2 ^ 64" using q(3) by (simp_all add: thousandths_def)
  obtain r where r: "rnd64 (thousandths q) = Fin r" "0 \<le> r"
    using rnd64_between [OF is_f64_0 is_f64_pow2 [of 64] t] by auto
  have "parse (fixed3 q) = Some (Fin r)" using assms(1) q(2) r by (simp add: reads_decimals_def)
  then show ?thesis
    using r q by (simp add: nonNegativeFloat_def format_ms_def shown_ms_def TrimSpace_printable printable_fixed3 is_NaN_def is_Inf_def)
qed

lemma nonNegativeFloat_empty: "reads_decimals parse \<Longrightarrow> nonNegativeFloat parse [] = Fin 0"
  by (simp add: nonNegativeFloat_def reads_decimals_def TrimSpace_empty)

subsection \<open>The headers of the response\<close>

definition fish_headers :: "string list" where
  "fish_headers =
     [''X-FishMesh-Routing-Mode'', ''X-FishMesh-Route-Reason'', ''X-FishMesh-Backend-ID'', ''X-FishMesh-Preferred-Backend-ID'',
      ''X-FishMesh-Policy'', ''X-FishMesh-Spillover-Reason'', ''X-FishMesh-KV-Status'', ''X-FishMesh-Cached-Prefix-Tokens'',
      ''X-FishMesh-Prompt-Tokens'', ''X-FishMesh-Uncached-Tokens'', ''X-FishMesh-Estimated-TTFT-Ms'', ''X-FishMesh-Estimator-Valid'',
      ''X-FishMesh-Estimator-Confidence'', ''X-FishMesh-Estimator-Version'', ''X-FishMesh-Estimator-Reason'', ''X-FishMesh-Load-Valid'',
      ''X-FishMesh-Load-Sample-Age-Ms'', ''X-FishMesh-Queue-Depth'', ''X-FishMesh-Running-Requests'', ''X-FishMesh-Local-Delta'',
      ''X-FishMesh-Local-Inflight'', ''X-FishMesh-Hard-Overload-Candidates'', ''X-FishMesh-Prediction-Status'',
      ''X-FishMesh-Prediction-Model'', ''X-FishMesh-Prediction-Would-Select'', ''X-FishMesh-Prediction-Selected-TTFT-Ms'',
      ''X-FishMesh-Prediction-Would-Select-TTFT-Ms'', ''X-FishMesh-Prediction-Samples'', ''X-FishMesh-Upstream'']"

definition low :: "char \<Rightarrow> char" where
  "low c = (if char_in (CHR ''A'') (CHR ''Z'') c then char_of ((of_char c :: nat) + 32) else c)"

lemma low_recased:
  "char_in (CHR ''a'') (CHR ''z'') c \<Longrightarrow> low (char_of ((of_char c :: nat) - 32)) = low c"
  "char_in (CHR ''A'') (CHR ''Z'') c \<Longrightarrow> low (char_of ((of_char c :: nat) + 32)) = low c"
proof -
  assume c: "char_in (CHR ''a'') (CHR ''z'') c"
  define n :: nat where "n = of_char c"
  have n: "97 \<le> n" "n \<le> 122" "char_of n = c" using c by (simp_all add: n_def char_in_def)
  have d: "of_char (char_of (n - 32) :: char) = n - 32" using n by (simp add: mod_less)
  have "65 \<le> n - 32" "n - 32 \<le> 90" using n(1,2) by linarith+
  then have "low (char_of (n - 32)) = char_of (n - 32 + 32)" unfolding low_def char_in_def d by simp
  also have "\<dots> = low c" using n by (simp add: low_def char_in_def n_def [symmetric])
  finally show "low (char_of ((of_char c :: nat) - 32)) = low c" by (simp add: n_def)
qed (simp add: low_def char_in_def)

lemma low_canonical_from: "map low (canonical_from upper s) = map low s"
  by (induction upper s rule: canonical_from.induct) (simp_all add: Let_def low_recased)

lemma low_canonical: "map low (CanonicalMIMEHeaderKey s) = map low s"
  by (simp add: CanonicalMIMEHeaderKey_def low_canonical_from)

lemma low_distinct: "distinct (map (map low) (''X-Request-ID'' # fish_headers))"
  by (simp add: fish_headers_def low_def char_in_def)

lemma canonical_inj:
  assumes "a \<in> set (''X-Request-ID'' # fish_headers)" and "b \<in> set (''X-Request-ID'' # fish_headers)"
  shows "CanonicalMIMEHeaderKey a = CanonicalMIMEHeaderKey b \<longleftrightarrow> a = b"
proof
  assume "CanonicalMIMEHeaderKey a = CanonicalMIMEHeaderKey b"
  then have "map low a = map low b" using low_canonical by metis
  moreover have "inj_on (map low) (set (''X-Request-ID'' # fish_headers))" using low_distinct by (simp only: distinct_map)
  ultimately show "a = b" using assms by (simp only: inj_on_def)
qed simp

definition told_by :: "ResponseWriter \<Rightarrow> string \<Rightarrow> string" where
  "told_by w = Header_Get (rw_header w)"

lemma told_set:
  assumes "a \<in> set (''X-Request-ID'' # fish_headers)" and "b \<in> set fish_headers"
  shows "told_by (set_header a v w) b = (if b = a then v else told_by w b)"
  using canonical_inj [OF assms(1), of b] assms(2)
  by (auto simp: told_by_def set_header_def Header_Get_def Header_Values_def Header_Set_def mget_update)

definition set_headers :: "(string \<times> string) list \<Rightarrow> ResponseWriter \<Rightarrow> ResponseWriter" where
  "set_headers hs w = foldl (\<lambda>w h. set_header (fst h) (snd h) w) w hs"

lemma set_headers_simps [simp]:
  "set_headers [] w = w" "set_headers (h # hs) w = set_headers hs (set_header (fst h) (snd h) w)" "set_headers (a @ b) w = set_headers b (set_headers a w)"
  "set_headers (if c then a else b) w = (if c then set_headers a w else set_headers b w)"
  by (simp_all add: set_headers_def)

lemma told_sets:
  assumes "list_all (\<lambda>h. fst h \<in> set (''X-Request-ID'' # fish_headers)) hs" and "b \<in> set fish_headers"
  shows "told_by (set_headers hs w) b =
    (case map_of (rev hs) b of Some v \<Rightarrow> v | None \<Rightarrow> told_by w b)"
  using assms(1)
proof (induction hs arbitrary: w)
  case (Cons h hs)
  then show ?case using told_set [OF _ assms(2), of "fst h" "snd h" w] by (cases h) (auto simp: map_add_def split: option.split)
qed simp

definition base_headers :: "string \<Rightarrow> string \<Rightarrow> Decision \<Rightarrow> path_State \<Rightarrow> (string \<times> string) list" where
  "base_headers mode rid d st =
     [(''X-Request-ID'', rid), (''X-FishMesh-Routing-Mode'', mode), (''X-FishMesh-Route-Reason'', reason_text (dc_Reason d)),
      (''X-FishMesh-Backend-ID'', bID (dc_Backend d)), (''X-FishMesh-Preferred-Backend-ID'', dc_PreferredBackendID d),
      (''X-FishMesh-Policy'', policy_text (dc_Policy d))] @
     (if dc_SpilloverReason d \<noteq> NoReason then [(''X-FishMesh-Spillover-Reason'', reason_text (dc_SpilloverReason d))] else []) @
     [(''X-FishMesh-KV-Status'', kv_status_text (ps_KV st)), (''X-FishMesh-Cached-Prefix-Tokens'', dec_int (ps_CachedPrefixTokens st))]"

definition shadow_headers :: "Shadow \<Rightarrow> (string \<times> string) list" where
  "shadow_headers sh =
     (if sh_Status sh = StatusNone then []
      else [(''X-FishMesh-Prediction-Status'', shadow_status_text (sh_Status sh))] @
        (if sh_ModelVersion sh \<noteq> '''' then [(''X-FishMesh-Prediction-Model'', sh_ModelVersion sh)] else []) @
        (if sh_WouldSelect sh \<noteq> '''' then [(''X-FishMesh-Prediction-Would-Select'', sh_WouldSelect sh)] else []) @
        (if sh_SelectedEstimate sh > 0 then [(''X-FishMesh-Prediction-Selected-TTFT-Ms'', format_ms (sh_SelectedEstimate sh))] else []) @
        (if sh_WouldSelectTTFT sh > 0 then [(''X-FishMesh-Prediction-Would-Select-TTFT-Ms'', format_ms (sh_WouldSelectTTFT sh))] else []) @
        [(''X-FishMesh-Prediction-Samples'', dec_int (sh_SamplesPerBackend sh))])"

definition evidence_headers :: "EstimateEvidence \<Rightarrow> (string \<times> string) list" where
  "evidence_headers ev =
     (if ev_PromptTokens ev \<le> 0 then []
      else [(''X-FishMesh-Prompt-Tokens'', dec_int (ev_PromptTokens ev)), (''X-FishMesh-Uncached-Tokens'', dec_int (ev_UncachedTokens ev)),
         (''X-FishMesh-Estimated-TTFT-Ms'', format_ms (ev_EstimatedTTFT ev)), (''X-FishMesh-Estimator-Valid'', FormatBool (ev_Valid ev)),
         (''X-FishMesh-Estimator-Confidence'', ev_Confidence ev), (''X-FishMesh-Estimator-Version'', ev_Version ev),
         (''X-FishMesh-Estimator-Reason'', ev_Reason ev), (''X-FishMesh-Load-Valid'', FormatBool (ev_LoadValid ev)),
         (''X-FishMesh-Load-Sample-Age-Ms'', format_ms (ev_LoadSampleAge ev)), (''X-FishMesh-Queue-Depth'', dec_int (ev_QueueDepth ev)),
         (''X-FishMesh-Running-Requests'', dec_int (ev_Running ev)), (''X-FishMesh-Local-Delta'', dec_int (ev_LocalDelta ev)),
         (''X-FishMesh-Local-Inflight'', dec_int (ev_LocalInflight ev)),
         (''X-FishMesh-Hard-Overload-Candidates'', dec_int (ev_HardOverloadedCandidates ev))])"

lemma shadow_header_list: "prediction_headers sh w = set_headers (shadow_headers sh) w"
  by (simp add: prediction_headers_def shadow_headers_def Let_def)

lemma evidence_header_list: "estimate_headers ev w = set_headers (evidence_headers ev) w"
  by (simp add: estimate_headers_def evidence_headers_def)

lemma decision_header_list:
  "writeDecisionHeaders mode rid d st w =
     set_headers (base_headers mode rid d st @ shadow_headers (ps_Prediction st) @ evidence_headers (ps_Estimate st)) w"
  by (simp add: writeDecisionHeaders_def base_headers_def shadow_header_list evidence_header_list Let_def)

lemma header_list_known:
  "list_all (\<lambda>h. fst h \<in> set (''X-Request-ID'' # fish_headers)) (base_headers mode rid d st @ shadow_headers sh @ evidence_headers ev)"
  by (simp add: base_headers_def shadow_headers_def evidence_headers_def fish_headers_def)

lemma decision_told:
  assumes "b \<in> set fish_headers" and "told_by w b = []"
  shows "told_by (writeDecisionHeaders mode rid d st w) b =
    (case map_of (rev (base_headers mode rid d st @ shadow_headers (ps_Prediction st) @ evidence_headers (ps_Estimate st))) b of
       Some v \<Rightarrow> v | None \<Rightarrow> [])"
  unfolding decision_header_list told_sets [OF header_list_known assms(1)] assms(2) by (rule refl)

subsection \<open>What the client is told\<close>

definition told :: "string \<Rightarrow> Decision \<Rightarrow> path_State \<Rightarrow> string \<Rightarrow> DecisionHeaders" where
  \<comment> \<open>the decision, the state and the host of the upstream as the client reports them\<close>
  "told mode d st upstream =
     (let ev = ps_Estimate st; sh = ps_Prediction st; on = (ev_PromptTokens ev > 0); shadowed = (sh_Status sh \<noteq> StatusNone);
          n = (\<lambda>i. if on then max 0 i else 0); t = (\<lambda>s. if on then s else []); ms = (\<lambda>d. if on then shown_ms d else Fin 0)
      in \<lparr>dh_RoutingMode = mode, dh_RouteReason = reason_text (dc_Reason d), dh_BackendID = bID (dc_Backend d),
          dh_PreferredBackendID = dc_PreferredBackendID d, dh_Policy = policy_text (dc_Policy d),
          dh_SpilloverReason = (if dc_SpilloverReason d \<noteq> NoReason then reason_text (dc_SpilloverReason d) else []),
          dh_KVStatus = kv_status_text (ps_KV st), dh_CachedPrefixTokens = max 0 (ps_CachedPrefixTokens st),
          dh_PromptTokens = n (ev_PromptTokens ev), dh_UncachedTokens = n (ev_UncachedTokens ev),
          dh_EstimatedTTFTMS = ms (ev_EstimatedTTFT ev), dh_EstimatorValid = (on \<and> ev_Valid ev), dh_EstimatorConfidence = t (ev_Confidence ev),
          dh_EstimatorVersion = t (ev_Version ev), dh_EstimatorReason = t (ev_Reason ev), dh_LoadValid = (on \<and> ev_LoadValid ev),
          dh_LoadSampleAgeMS = ms (ev_LoadSampleAge ev), dh_QueueDepth = n (ev_QueueDepth ev), dh_RunningRequests = n (ev_Running ev),
          dh_LocalDelta = n (ev_LocalDelta ev), dh_LocalInflight = n (ev_LocalInflight ev),
          dh_HardOverloadCandidates = n (ev_HardOverloadedCandidates ev),
          dh_PredictionStatus = (if shadowed then shadow_status_text (sh_Status sh) else []),
          dh_PredictionModel = (if shadowed then sh_ModelVersion sh else []),
          dh_PredictionWouldSelect = (if shadowed then sh_WouldSelect sh else []),
          dh_PredictionSelectedMS = (if shadowed \<and> sh_SelectedEstimate sh > 0 then shown_ms (sh_SelectedEstimate sh) else Fin 0),
          dh_PredictionWouldSelectMS = (if shadowed \<and> sh_WouldSelectTTFT sh > 0 then shown_ms (sh_WouldSelectTTFT sh) else Fin 0),
          dh_PredictionSamples = (if shadowed then max 0 (sh_SamplesPerBackend sh) else 0), dh_Upstream = upstream\<rparr>)"

definition sound_numbers :: "path_State \<Rightarrow> bool" where
  \<comment> \<open>machine integers, and durations that are not negative\<close>
  "sound_numbers st \<longleftrightarrow>
     (let ev = ps_Estimate st; sh = ps_Prediction st
      in list_all in_int64 [ps_CachedPrefixTokens st, ev_PromptTokens ev, ev_UncachedTokens ev, ev_QueueDepth ev, ev_Running ev, ev_LocalDelta ev,
           ev_LocalInflight ev, ev_HardOverloadedCandidates ev, sh_SamplesPerBackend sh, ev_EstimatedTTFT ev, ev_LoadSampleAge ev,
           sh_SelectedEstimate sh, sh_WouldSelectTTFT sh]
         \<and> 0 \<le> ev_EstimatedTTFT ev \<and> 0 \<le> ev_LoadSampleAge ev)"

definition header_value :: "(string \<times> string) list \<Rightarrow> string \<Rightarrow> string" where
  "header_value hs b = (case map_of (rev hs) b of Some v \<Rightarrow> v | None \<Rightarrow> [])"

definition all_headers :: "string \<Rightarrow> string \<Rightarrow> Decision \<Rightarrow> path_State \<Rightarrow> string \<Rightarrow> (string \<times> string) list" where
  "all_headers mode rid d st upstream =
     base_headers mode rid d st @ shadow_headers (ps_Prediction st) @ evidence_headers (ps_Estimate st) @ [(''X-FishMesh-Upstream'', upstream)]"

definition H :: "nat \<Rightarrow> string" where
  "H i = fish_headers ! i"

lemma H_names:
    "''X-FishMesh-Routing-Mode'' = H 0"
    "''X-FishMesh-Route-Reason'' = H 1"
    "''X-FishMesh-Backend-ID'' = H 2"
    "''X-FishMesh-Preferred-Backend-ID'' = H 3"
    "''X-FishMesh-Policy'' = H 4"
    "''X-FishMesh-Spillover-Reason'' = H 5"
    "''X-FishMesh-KV-Status'' = H 6"
    "''X-FishMesh-Cached-Prefix-Tokens'' = H 7"
    "''X-FishMesh-Prompt-Tokens'' = H 8"
    "''X-FishMesh-Uncached-Tokens'' = H 9"
    "''X-FishMesh-Estimated-TTFT-Ms'' = H 10"
    "''X-FishMesh-Estimator-Valid'' = H 11"
    "''X-FishMesh-Estimator-Confidence'' = H 12"
    "''X-FishMesh-Estimator-Version'' = H 13"
    "''X-FishMesh-Estimator-Reason'' = H 14"
    "''X-FishMesh-Load-Valid'' = H 15"
    "''X-FishMesh-Load-Sample-Age-Ms'' = H 16"
    "''X-FishMesh-Queue-Depth'' = H 17"
    "''X-FishMesh-Running-Requests'' = H 18"
    "''X-FishMesh-Local-Delta'' = H 19"
    "''X-FishMesh-Local-Inflight'' = H 20"
    "''X-FishMesh-Hard-Overload-Candidates'' = H 21"
    "''X-FishMesh-Prediction-Status'' = H 22"
    "''X-FishMesh-Prediction-Model'' = H 23"
    "''X-FishMesh-Prediction-Would-Select'' = H 24"
    "''X-FishMesh-Prediction-Selected-TTFT-Ms'' = H 25"
    "''X-FishMesh-Prediction-Would-Select-TTFT-Ms'' = H 26"
    "''X-FishMesh-Prediction-Samples'' = H 27"
    "''X-FishMesh-Upstream'' = H 28"
  by (simp_all add: H_def fish_headers_def)

lemma fish_distinct: "distinct (''X-Request-ID'' # fish_headers)" and fish_length: "length fish_headers = 29"
  using low_distinct by (simp_all only: distinct_map) (simp add: fish_headers_def)

lemma H_eq [simp]: "i < 29 \<Longrightarrow> j < 29 \<Longrightarrow> H i = H j \<longleftrightarrow> i = j" and H_other: "i < 29 \<Longrightarrow> H i \<noteq> ''X-Request-ID''"
proof -
  show "i < 29 \<Longrightarrow> j < 29 \<Longrightarrow> H i = H j \<longleftrightarrow> i = j"
    using fish_distinct by (simp only: H_def distinct.simps nth_eq_iff_index_eq fish_length)
  show "i < 29 \<Longrightarrow> H i \<noteq> ''X-Request-ID''"
    using fish_distinct nth_mem [of i fish_headers] fish_length unfolding H_def by (metis distinct.simps(2))
qed

lemma base_keys: "8 \<le> i \<Longrightarrow> i < 29 \<Longrightarrow> map_of (rev (base_headers mode rid d st)) (H i) = None"
  and shadow_keys: "i < 22 \<or> 27 < i \<Longrightarrow> i < 29 \<Longrightarrow> map_of (rev (shadow_headers sh)) (H i) = None"
  and evidence_keys: "i < 8 \<or> 21 < i \<Longrightarrow> i < 29 \<Longrightarrow> map_of (rev (evidence_headers ev)) (H i) = None"
proof -
  have "fst ` set (base_headers mode rid d st) \<subseteq> {''X-Request-ID'', H 0, H 1, H 2, H 3, H 4, H 5, H 6, H 7}"
    unfolding base_headers_def H_names by auto
  then show "8 \<le> i \<Longrightarrow> i < 29 \<Longrightarrow> map_of (rev (base_headers mode rid d st)) (H i) = None"
    using H_other [of i] by (auto simp: map_of_eq_None_iff simp del: One_nat_def)
  have "fst ` set (shadow_headers sh) \<subseteq> {H 22, H 23, H 24, H 25, H 26, H 27}" unfolding shadow_headers_def H_names by auto
  then show "i < 22 \<or> 27 < i \<Longrightarrow> i < 29 \<Longrightarrow> map_of (rev (shadow_headers sh)) (H i) = None"
    by (auto simp: map_of_eq_None_iff)
  have "fst ` set (evidence_headers ev) \<subseteq> {H 8, H 9, H 10, H 11, H 12, H 13, H 14, H 15, H 16, H 17, H 18, H 19, H 20, H 21}"
    unfolding evidence_headers_def H_names by auto
  then show "i < 8 \<or> 21 < i \<Longrightarrow> i < 29 \<Longrightarrow> map_of (rev (evidence_headers ev)) (H i) = None"
    by (auto simp: map_of_eq_None_iff)
qed

lemma base_values:
  "map_of (rev (base_headers mode rid d st)) (H 0) = Some mode"
  "map_of (rev (base_headers mode rid d st)) (H 1) = Some (reason_text (dc_Reason d))"
  "map_of (rev (base_headers mode rid d st)) (H 2) = Some (bID (dc_Backend d))"
  "map_of (rev (base_headers mode rid d st)) (H 3) = Some (dc_PreferredBackendID d)"
  "map_of (rev (base_headers mode rid d st)) (H 4) = Some (policy_text (dc_Policy d))"
  "map_of (rev (base_headers mode rid d st)) (H 5) = (if dc_SpilloverReason d \<noteq> NoReason then Some (reason_text (dc_SpilloverReason d)) else None)"
  "map_of (rev (base_headers mode rid d st)) (H 6) = Some (kv_status_text (ps_KV st))"
  "map_of (rev (base_headers mode rid d st)) (H 7) = Some (dec_int (ps_CachedPrefixTokens st))"
  unfolding base_headers_def H_names by (simp_all add: H_other)

lemma evidence_values:
  shows "map_of (rev (evidence_headers ev)) (H 8) = (if ev_PromptTokens ev > 0 then Some (dec_int (ev_PromptTokens ev)) else None)"
    "map_of (rev (evidence_headers ev)) (H 9) = (if ev_PromptTokens ev > 0 then Some (dec_int (ev_UncachedTokens ev)) else None)"
    "map_of (rev (evidence_headers ev)) (H 10) = (if ev_PromptTokens ev > 0 then Some (format_ms (ev_EstimatedTTFT ev)) else None)"
    "map_of (rev (evidence_headers ev)) (H 11) = (if ev_PromptTokens ev > 0 then Some (FormatBool (ev_Valid ev)) else None)"
    "map_of (rev (evidence_headers ev)) (H 12) = (if ev_PromptTokens ev > 0 then Some (ev_Confidence ev) else None)"
    "map_of (rev (evidence_headers ev)) (H 13) = (if ev_PromptTokens ev > 0 then Some (ev_Version ev) else None)"
    "map_of (rev (evidence_headers ev)) (H 14) = (if ev_PromptTokens ev > 0 then Some (ev_Reason ev) else None)"
    "map_of (rev (evidence_headers ev)) (H 15) = (if ev_PromptTokens ev > 0 then Some (FormatBool (ev_LoadValid ev)) else None)"
    "map_of (rev (evidence_headers ev)) (H 16) = (if ev_PromptTokens ev > 0 then Some (format_ms (ev_LoadSampleAge ev)) else None)"
    "map_of (rev (evidence_headers ev)) (H 17) = (if ev_PromptTokens ev > 0 then Some (dec_int (ev_QueueDepth ev)) else None)"
    "map_of (rev (evidence_headers ev)) (H 18) = (if ev_PromptTokens ev > 0 then Some (dec_int (ev_Running ev)) else None)"
    "map_of (rev (evidence_headers ev)) (H 19) = (if ev_PromptTokens ev > 0 then Some (dec_int (ev_LocalDelta ev)) else None)"
    "map_of (rev (evidence_headers ev)) (H 20) = (if ev_PromptTokens ev > 0 then Some (dec_int (ev_LocalInflight ev)) else None)"
    "map_of (rev (evidence_headers ev)) (H 21) = (if ev_PromptTokens ev > 0 then Some (dec_int (ev_HardOverloadedCandidates ev)) else None)"
  unfolding evidence_headers_def H_names by simp_all

lemma shadow_values:
  "map_of (rev (shadow_headers sh)) (H 22) = (if sh_Status sh \<noteq> StatusNone then Some (shadow_status_text (sh_Status sh)) else None)"
  "map_of (rev (shadow_headers sh)) (H 23) = (if sh_Status sh \<noteq> StatusNone \<and> sh_ModelVersion sh \<noteq> [] then Some (sh_ModelVersion sh) else None)"
  "map_of (rev (shadow_headers sh)) (H 24) = (if sh_Status sh \<noteq> StatusNone \<and> sh_WouldSelect sh \<noteq> [] then Some (sh_WouldSelect sh) else None)"
  "map_of (rev (shadow_headers sh)) (H 25) = (if sh_Status sh \<noteq> StatusNone \<and> sh_SelectedEstimate sh > 0 then Some (format_ms (sh_SelectedEstimate sh)) else None)"
  "map_of (rev (shadow_headers sh)) (H 26) = (if sh_Status sh \<noteq> StatusNone \<and> sh_WouldSelectTTFT sh > 0 then Some (format_ms (sh_WouldSelectTTFT sh)) else None)"
  "map_of (rev (shadow_headers sh)) (H 27) = (if sh_Status sh \<noteq> StatusNone then Some (dec_int (sh_SamplesPerBackend sh)) else None)"
  unfolding shadow_headers_def H_names by simp_all

lemma header_value_parts:
  "i < 29 \<Longrightarrow> header_value (all_headers mode rid d st upstream) (H i) =
     (if i = 28 then upstream
      else case map_of (rev (evidence_headers (ps_Estimate st))) (H i) of Some v \<Rightarrow> v | None \<Rightarrow>
        (case map_of (rev (shadow_headers (ps_Prediction st))) (H i) of Some v \<Rightarrow> v | None \<Rightarrow>
           (case map_of (rev (base_headers mode rid d st)) (H i) of Some v \<Rightarrow> v | None \<Rightarrow> [])))"
  unfolding header_value_def all_headers_def H_names by (auto simp: map_add_def split: option.split)

lemmas told_values = header_value_parts base_keys shadow_keys evidence_keys base_values evidence_values shadow_values

lemma read_told:
  assumes "reads_decimals parse" and "sound_numbers st" and "\<And>b. b \<in> set fish_headers \<Longrightarrow> Header_Get h b = header_value (all_headers mode rid d st upstream) b"
  shows "decisionHeaders parse h = told mode d st upstream"
proof -
  have get: "Header_Get h (H i) = header_value (all_headers mode rid d st upstream) (H i)" if "i < 29" for i
    using assms(3) that fish_length by (simp add: H_def)
  note n = assms(2) [unfolded sound_numbers_def Let_def, simplified]
  note reads = nonNegativeInt_dec_int shown_ms_read [OF assms(1)] headerBool_FormatBool nonNegativeInt_empty headerBool_empty nonNegativeFloat_empty [OF assms(1)]
  show ?thesis
    unfolding decisionHeaders_def told_def Let_def H_names
    using n by (simp add: get told_values reads del: One_nat_def)
qed

definition names_no_decision :: "Header \<Rightarrow> bool" where
  "names_no_decision h \<longleftrightarrow> list_all (\<lambda>b. mget [] h (CanonicalMIMEHeaderKey b) = []) fish_headers"

lemma told_copy:
  assumes "canonical src" and "names_no_decision src" and "b \<in> set fish_headers"
  shows "told_by (w\<lparr>rw_header := copyResponseHeaders (rw_header w) src\<rparr>) b = told_by w b"
proof -
  have "mget [] src (CanonicalMIMEHeaderKey b) = []" using assms(2,3) by (simp add: names_no_decision_def list_all_iff)
  then have "mget [] (removeHopByHopHeaders src) (CanonicalMIMEHeaderKey b) = []" by (auto simp: mget_def map_of_removeHop split: option.splits)
  then show ?thesis
    using Values_copy [OF canonical_removeHop [OF assms(1)], of "rw_header w"]
    by (simp add: told_by_def Header_Get_def Header_Values_def copyResponseHeaders_def)
qed

lemma upstream_told:
  assumes "proxyUpstream env request body rid d st l (writeDecisionHeaders mode rid d st w) sv = Some (result, w', sv')"
    and "rw_header w = []" and "pe_upstream_url env (bURL (dc_Backend d)) = Some upstream"
    and "\<And>client ur. \<exists>status header reads. pe_do env client ur = DoResponse status header reads \<and> canonical header \<and> names_no_decision header"
    and "b \<in> set fish_headers"
  shows "Header_Get (rw_header w') b = header_value (all_headers mode rid d st (uu_Host upstream)) b"
proof -
  let ?w = "writeDecisionHeaders mode rid d st w"
  have empty: "told_by w b = []" using assms(2) by (simp add: told_by_def Header_Get_def Header_Values_def mget_def)
  obtain client pool where cl: "ClientFor (dc_Backend d) (sv_transport sv) = (client, pool)" by fastforce
  let ?ur = "newUpstreamRequest (gw_KeepAlive (sv_config sv)) (gw_RequestTimeout (sv_config sv)) request body rid upstream"
  obtain status src reads where do: "pe_do env client ?ur = DoResponse status src reads" and src: "canonical src" "names_no_decision src"
    using assms(4) by blast
  have w': "rw_header w' = rw_header (writeUpstreamHeader upstream (?w\<lparr>rw_header := copyResponseHeaders (rw_header ?w) src\<rparr>))"
    using assms(1) by (auto simp: proxyUpstream_def Let_def assms(3) cl do split: prod.splits option.splits)
  have up: "''X-FishMesh-Upstream'' \<in> set (''X-Request-ID'' # fish_headers)" by (simp add: fish_headers_def)
  have "Header_Get (rw_header w') b = told_by (writeUpstreamHeader upstream (?w\<lparr>rw_header := copyResponseHeaders (rw_header ?w) src\<rparr>)) b"
    by (simp only: told_by_def w')
  also have "\<dots> = (if b = ''X-FishMesh-Upstream'' then uu_Host upstream else told_by ?w b)"
    unfolding writeUpstreamHeader_def told_set [OF up assms(5)] told_copy [OF src(1,2) assms(5)] by (rule refl)
  also have "\<dots> = header_value (all_headers mode rid d st (uu_Host upstream)) b"
    unfolding decision_told [OF assms(5) empty] by (simp add: header_value_def all_headers_def)
  finally show ?thesis .
qed

text \<open>
  C9. The client reads the decision that the gateway made: after a request that the upstream answered, the
  decision headers parsed by the client are the mode, the reasons, the backends, the policy, the KV status,
  the token counts, the evidence of the estimator and of the predictor and the upstream host of that
  decision, the durations in milliseconds with three decimals. The upstream is assumed to send none of these
  headers itself, and the float parser to read decimals correctly.
\<close>

theorem client_reads_decision:
  assumes "proxy_selected env request body rid d st l \<lparr>rw_header = [], rw_status = None, rw_body = []\<rparr> sv = Some (status, w, sv')"
    and "pe_upstream_url env (bURL (dc_Backend d)) = Some upstream"
    and "\<And>client ur. \<exists>status header reads. pe_do env client ur = DoResponse status header reads \<and> canonical header \<and> names_no_decision header"
    and "sound_numbers st" and "reads_decimals parse"
  shows "decisionHeaders parse (rw_header w) = told (gw_RoutingMode (sv_config sv)) d st (uu_Host upstream)"
proof -
  let ?mode = "gw_RoutingMode (sv_config sv)" and ?w = "\<lparr>rw_header = [], rw_status = None, rw_body = []\<rparr>"
  obtain result sv2 where up: "proxyUpstream env request body rid d st l (writeDecisionHeaders ?mode rid d st ?w)
      (sv\<lparr>sv_metrics := observeSelection ?mode d st (sv_metrics sv)\<rparr>) = Some (result, w, sv2)"
    using assms(1) by (auto simp: proxy_selected_def Let_def split: option.splits prod.splits)
  show ?thesis
    using assms(3) by (intro read_told [OF assms(5,4), of _ _ rid] upstream_told [OF up _ assms(2)]) simp_all
qed

definition wit_parse :: "string \<Rightarrow> f64 option" where
  "wit_parse s = (if s = [] then None else Some (rnd64 (of_nat (dec_value (filter (\<lambda>c. c \<noteq> CHR ''.'') s)) / 1000)))"

lemma wit_parse_decimals: "reads_decimals wit_parse"
proof -
  have "wit_parse (fixed3 q) = Some (rnd64 (thousandths q))" if "0 \<le> q" for q
  proof -
    define n where "n = nat (rne (q * 1000))"
    have r: "rne (q * 1000) = int n" using rne_cases [of "q * 1000"] that unfolding n_def by auto
    let ?ds = "[Gateway.hex_digit (n mod 1000 div 100), Gateway.hex_digit (n mod 1000 div 10 mod 10), Gateway.hex_digit (n mod 1000 mod 10)]"
    have f: "fixed3 q = dec_nat (n div 1000) @ ''.'' @ ?ds" using that by (simp add: fixed3_def Let_def n_def)
    have digit: "of_char (Gateway.hex_digit k) - 48 = k" "Gateway.hex_digit k \<noteq> CHR ''.''" if "k < 10" for k
    proof -
      have k: "of_char (Gateway.hex_digit k) = 48 + k" using that by (simp add: Gateway.hex_digit_def)
      then show "of_char (Gateway.hex_digit k) - 48 = k" by simp
      show "Gateway.hex_digit k \<noteq> CHR ''.''"
      proof
        assume "Gateway.hex_digit k = CHR ''.''"
        with k show False by simp
      qed
    qed
    have three: "n mod 1000 div 100 < 10" "n mod 1000 div 10 mod 10 < 10" "n mod 1000 mod 10 < 10" by simp_all
    have "filter (\<lambda>c. c \<noteq> CHR ''.'') (dec_nat (n div 1000)) = dec_nat (n div 1000)"
      using dec_nat_is_digit [of "n div 1000"] by (auto simp: filter_id_conv list_all_iff is_digit_def)
    then have "dec_value (filter (\<lambda>c. c \<noteq> CHR ''.'') (fixed3 q)) = dec_value (dec_nat (n div 1000) @ ?ds)"
      using digit(2) [OF three(1)] digit(2) [OF three(2)] digit(2) [OF three(3)] by (simp add: f)
    also have "\<dots> = 10 * (10 * (10 * (n div 1000) + n mod 1000 div 100) + n mod 1000 div 10 mod 10) + n mod 1000 mod 10"
      using digit(1) [OF three(1)] digit(1) [OF three(2)] digit(1) [OF three(3)] dec_value_dec_nat [of "n div 1000"]
      by (simp add: dec_value_def)
    also have "\<dots> = n"
    proof -
      have "n mod 1000 div 10 div 10 = n mod 1000 div 100" by (simp add: div_mult2_eq [symmetric])
      moreover have "10 * (10 * (10 * q + h) + t) + u = n" if "h' = h" "q * 1000 + m = n" "p * 10 + u = m" "h' * 10 + t = p" for q h t u h' m p :: nat
        using that by simp
      ultimately show ?thesis by (metis div_mult_mod_eq)
    qed
    finally show ?thesis by (simp add: wit_parse_def f thousandths_def r)
  qed
  then show ?thesis by (simp add: reads_decimals_def wit_parse_def)
qed

theorem client_reads_decision_witness:
  "\<exists>status w sv'. proxy_selected wit_env wit_http_request [] ''r'' (plain_decision wit_b1 ReasonLoadBalanced PolicyLoadBalancedV1)
       (fst (path_state wit_view None wit_path)) 0 \<lparr>rw_header = [], rw_status = None, rw_body = []\<rparr> wit_canceled = Some (status, w, sv')
     \<and> dh_BackendID (decisionHeaders wit_parse (rw_header w)) = ''a'' \<and> dh_Upstream (decisionHeaders wit_parse (rw_header w)) = ''a''"
proof -
  let ?d = "plain_decision wit_b1 ReasonLoadBalanced PolicyLoadBalancedV1" and ?st = "fst (path_state wit_view None wit_path)"
  have "same_gates wit_server wit_canceled" by (simp add: same_gates_def wit_canceled_def)
  then obtain status w sv' where p: "proxy_selected wit_env wit_http_request [] ''r'' ?d ?st 0 \<lparr>rw_header = [], rw_status = None, rw_body = []\<rparr> wit_canceled
      = Some (status, w, sv')"
    using proxy_selected_settled [OF wit_canceled_leased _ wit_stream_ends] by blast
  have url: "pe_upstream_url wit_env (bURL (dc_Backend ?d)) = Some \<lparr>uu_Scheme = ''http'', uu_Host = ''a'', uu_Path = ''''\<rparr>" by (simp add: wit_env_def)
  have answer: "\<exists>status header reads. pe_do wit_env client ur = DoResponse status header reads \<and> canonical header \<and> names_no_decision header" for client ur
    by (simp add: wit_env_def canonical_def gomap_ok_def names_no_decision_def mget_def list_all_iff)
  have "sound_numbers ?st"
    by (simp add: path_state_def sound_numbers_def zero_EstimateEvidence_def bare_Shadow_def in_int64_def min_int64_def max_int64_def)
  from client_reads_decision [OF p url answer this wit_parse_decimals] p show ?thesis
    by (auto simp: told_def plain_decision_def wit_b1_def Let_def)
qed

end
