(* ===== verification/Go_Flag.thy ===== *)
theory Go_Flag
  imports Go_Parse
begin

text \<open>
  The package \<open>flag\<close> of the Go standard library as the command-line client uses it: \<open>FlagSet.Parse\<close> with
  \<open>ContinueOnError\<close>, and \<open>strconv.ParseInt\<close> in base 0, which integer flags are read with. A flag set is an
  association list from the names to whether the flag is boolean and to its \<open>Set\<close>, which updates the state of
  the flags or refuses the value. The values set before an error are not observable: the callers return.

  The lemmas show that a list of assignments written as separate arguments or with an equals sign is read back
  as those assignments in that order, and that reading an integer in base 0 gives back what was printed.
\<close>

subsection \<open>Integers in base 0\<close>

definition lower_char :: "char \<Rightarrow> char" where
  \<comment> \<open>\<open>c | ('x' - 'X')\<close> for letters\<close>
  "lower_char c = (if 65 \<le> (of_char c :: nat) \<and> (of_char c :: nat) \<le> 90 then char_of ((of_char c :: nat) + 32) else c)"

definition digit_of :: "char \<Rightarrow> nat option" where
  "digit_of c =
     (let n = of_char c; l = of_char (lower_char c)
      in if 48 \<le> n \<and> n \<le> 57 then Some (n - 48) else if 97 \<le> l \<and> l \<le> 122 then Some (l - 97 + 10) else (None :: nat option))"

definition base_prefix :: "string \<Rightarrow> nat \<times> string" where
  "base_prefix s =
     (if s \<noteq> [] \<and> hd s = CHR ''0''
      then if 3 \<le> length s \<and> lower_char (s ! 1) = CHR ''b'' then (2, drop 2 s)
           else if 3 \<le> length s \<and> lower_char (s ! 1) = CHR ''o'' then (8, drop 2 s)
           else if 3 \<le> length s \<and> lower_char (s ! 1) = CHR ''x'' then (16, drop 2 s)
           else (8, tl s)
      else (10, s))"

fun read_base :: "nat \<Rightarrow> nat \<Rightarrow> string \<Rightarrow> nat option" where
  \<comment> \<open>the loop of \<open>ParseUint\<close>; the range is tested at the end\<close>
  "read_base base n [] = Some n"
| "read_base base n (c # s) =
     (if c = CHR ''_'' then read_base base n s
      else case digit_of c of
        None \<Rightarrow> None
      | Some d \<Rightarrow> if d \<ge> base then None else read_base base (n * base + d) s)"

datatype underscore_state = UStart | UDigit | UUnderscore | UOther

fun underscore_scan :: "bool \<Rightarrow> underscore_state \<Rightarrow> string \<Rightarrow> bool" where
  "underscore_scan hex i [] = (i \<noteq> UUnderscore)"
| "underscore_scan hex i (c # s) =
     (if is_digit c \<or> (hex \<and> 97 \<le> (of_char (lower_char c) :: nat) \<and> (of_char (lower_char c) :: nat) \<le> 102)
      then underscore_scan hex UDigit s
      else if c = CHR ''_'' then i = UDigit \<and> underscore_scan hex UUnderscore s
      else i \<noteq> UUnderscore \<and> underscore_scan hex UOther s)"

definition underscoreOK :: "string \<Rightarrow> bool" where
  \<comment> \<open>the sign has been removed\<close>
  "underscoreOK s =
     (if 2 \<le> length s \<and> hd s = CHR ''0'' \<and> lower_char (s ! 1) \<in> {CHR ''b'', CHR ''o'', CHR ''x''}
      then underscore_scan (lower_char (s ! 1) = CHR ''x'') UDigit (drop 2 s)
      else underscore_scan False UStart s)"

definition ParseInt0 :: "string \<Rightarrow> int option" where
  \<comment> \<open>\<open>strconv.ParseInt(s, 0, 64)\<close>\<close>
  "ParseInt0 s0 =
     (let (neg, s) = strip_sign s0; (base, digits) = base_prefix s
      in if s = [] then None
         else case read_base base 0 digits of
           None \<Rightarrow> None
         | Some n \<Rightarrow>
             let v = (if neg then - int n else int n)
             in if CHR ''_'' \<in> set digits \<and> \<not> underscoreOK s then None
                else if in_int64 v then Some v else None)"

subsection \<open>Flag sets\<close>

type_synonym 'st flag = "bool \<times> (string \<Rightarrow> 'st \<Rightarrow> 'st option)"
type_synonym 'st flag_set = "(string, 'st flag) gomap"

datatype flag_error = ErrFlagSyntax string | ErrFlagHelp | ErrFlagUndefined string | ErrFlagValue string string | ErrFlagArgument string

definition flag_value :: "string \<Rightarrow> string \<times> string option" where
  \<comment> \<open>the name up to the first equals sign, which cannot be its first character, and the value after it\<close>
  "flag_value name =
     (let rest = dropWhile (\<lambda>c. c \<noteq> CHR ''='') (tl name)
      in if rest = [] then (name, None) else (hd name # takeWhile (\<lambda>c. c \<noteq> CHR ''='') (tl name), Some (tl rest)))"

datatype 'st parsed_one = FlagsEnd "string list" | FlagsFail flag_error | FlagsNext 'st "string list"

definition parseOne :: "'st flag_set \<Rightarrow> string list \<Rightarrow> 'st \<Rightarrow> 'st parsed_one" where
  "parseOne formal args st =
     (case args of
        [] \<Rightarrow> FlagsEnd args
      | s # rest \<Rightarrow>
          if length s < 2 \<or> hd s \<noteq> CHR ''-'' then FlagsEnd args
          else if s = ''--'' then FlagsEnd rest
          else
            let minuses = (if s ! 1 = CHR ''-'' then 2 else 1); name0 = drop minuses s
            in if name0 = [] \<or> hd name0 = CHR ''-'' \<or> hd name0 = CHR ''='' then FlagsFail (ErrFlagSyntax s)
               else
                 let (name, given) = flag_value name0
                 in case map_of formal name of
                      None \<Rightarrow> FlagsFail (if name = ''help'' \<or> name = ''h'' then ErrFlagHelp else ErrFlagUndefined name)
                    | Some (isBool, set_value) \<Rightarrow>
                        (case (case given of Some v \<Rightarrow> Some (v, rest)
                               | None \<Rightarrow> if isBool then Some (''true'', rest)
                                         else case rest of [] \<Rightarrow> None | v # vs \<Rightarrow> Some (v, vs)) of
                           None \<Rightarrow> FlagsFail (ErrFlagArgument name)
                         | Some (v, rest') \<Rightarrow>
                             (case set_value v st of
                                None \<Rightarrow> FlagsFail (ErrFlagValue name v)
                              | Some st' \<Rightarrow> FlagsNext st' rest')))"

lemma parseOne_shorter: "parseOne formal args st = FlagsNext st' rest \<Longrightarrow> length rest < length args"
  by (auto simp: parseOne_def Let_def split: list.splits if_splits option.splits prod.splits)

function FlagSet_Parse :: "'st flag_set \<Rightarrow> string list \<Rightarrow> 'st \<Rightarrow> flag_error + 'st \<times> string list" where
  \<comment> \<open>the flags and the arguments left over\<close>
  "FlagSet_Parse formal args st =
     (case parseOne formal args st of
        FlagsEnd rest \<Rightarrow> Inr (st, rest)
      | FlagsFail e \<Rightarrow> Inl e
      | FlagsNext st' rest \<Rightarrow> FlagSet_Parse formal rest st')"
  by pat_completeness auto
termination
  by (relation "measure (\<lambda>(formal, args, st). length args)") (auto dest: parseOne_shorter)

declare FlagSet_Parse.simps [simp del]

definition string_flag :: "(string \<Rightarrow> 'st \<Rightarrow> 'st) \<Rightarrow> 'st flag" where
  "string_flag f = (False, \<lambda>v st. Some (f v st))"

definition int_flag :: "(int \<Rightarrow> 'st \<Rightarrow> 'st) \<Rightarrow> 'st flag" where
  "int_flag f = (False, \<lambda>v st. map_option (\<lambda>i. f i st) (ParseInt0 v))"

definition duration_flag :: "(duration \<Rightarrow> 'st \<Rightarrow> 'st) \<Rightarrow> 'st flag" where
  "duration_flag f = (False, \<lambda>v st. map_option (\<lambda>d. f d st) (ParseDuration v))"

definition bool_flag :: "(bool \<Rightarrow> 'st \<Rightarrow> 'st) \<Rightarrow> 'st flag" where
  "bool_flag f = (True, \<lambda>v st. map_option (\<lambda>b. f b st) (ParseBool v))"

subsection \<open>Assignments are read back\<close>

definition plain_name :: "string \<Rightarrow> bool" where
  "plain_name n \<longleftrightarrow> n \<noteq> [] \<and> hd n \<noteq> CHR ''-'' \<and> CHR ''='' \<notin> set n"

definition assignment :: "bool \<Rightarrow> string \<Rightarrow> string \<Rightarrow> string list" where
  \<comment> \<open>with an equals sign, or as two arguments\<close>
  "assignment joined n v = (if joined then [''--'' @ n @ ''='' @ v] else [''--'' @ n, v])"

lemma flag_value_plain: "plain_name n \<Longrightarrow> flag_value n = (n, None)"
  by (cases n) (auto simp: plain_name_def flag_value_def dropWhile_eq_Nil_conv)

lemma flag_value_joined: "plain_name n \<Longrightarrow> flag_value (n @ ''='' @ v) = (n, Some v)"
proof (cases n)
  case (Cons c cs)
  assume "plain_name n"
  then have ne: "\<forall>x \<in> set cs. x \<noteq> CHR ''=''" using Cons by (auto simp: plain_name_def)
  then have "takeWhile (\<lambda>x. x \<noteq> CHR ''='') (cs @ CHR ''='' # v) = cs" "dropWhile (\<lambda>x. x \<noteq> CHR ''='') (cs @ CHR ''='' # v) = CHR ''='' # v"
    by (simp_all add: takeWhile_append dropWhile_append)
  then show ?thesis using Cons by (simp add: flag_value_def)
qed (simp add: plain_name_def)

lemma parseOne_assignment:
  assumes "plain_name n" and "map_of formal n = Some (isBool, set_value)" and "isBool \<longrightarrow> joined" and "set_value v st = Some st'"
  shows "parseOne formal (assignment joined n v @ rest) st = FlagsNext st' rest"
proof -
  have n: "n \<noteq> []" "hd n \<noteq> CHR ''-''" "hd n \<noteq> CHR ''=''" using assms(1) by (cases n; auto simp: plain_name_def)+
  show ?thesis
    using n assms(2-4) flag_value_plain [OF assms(1)] flag_value_joined [OF assms(1)]
    by (cases joined; cases n) (auto simp: parseOne_def assignment_def Let_def)
qed

lemma parse_assignment:
  assumes "plain_name n" and "map_of formal n = Some (isBool, set_value)" and "isBool \<longrightarrow> joined" and "set_value v st = Some st'"
  shows "FlagSet_Parse formal (assignment joined n v @ rest) st = FlagSet_Parse formal rest st'"
  by (subst FlagSet_Parse.simps) (simp add: parseOne_assignment [OF assms])

lemma parse_stop [simp]: "FlagSet_Parse formal [] st = Inr (st, [])"
  by (subst FlagSet_Parse.simps) (simp add: parseOne_def)

lemma parse_positional: "hd a \<noteq> CHR ''-'' \<or> length a < 2 \<Longrightarrow> FlagSet_Parse formal (a # args) st = Inr (st, a # args)"
  by (subst FlagSet_Parse.simps) (auto simp: parseOne_def)

subsection \<open>Integers are read back\<close>

lemma digit_of_digit: "is_digit c \<Longrightarrow> digit_of c = Some (of_char c - 48)"
  by (simp add: digit_of_def is_digit_def Let_def)

lemma read_base_digits:
  "list_all is_digit ds \<Longrightarrow> read_base 10 n ds = Some (foldl (\<lambda>acc c. 10 * acc + (of_char c - 48)) n ds)"
proof (induction ds arbitrary: n)
  case (Cons c ds)
  have "of_char c - 48 < (10 :: nat)" "c \<noteq> CHR ''_''" using Cons.prems by (auto simp: is_digit_def)
  then show ?case using Cons by (simp add: digit_of_digit mult.commute)
qed simp

lemma hd_dec_nat: "0 < n \<Longrightarrow> hd (dec_nat n) \<noteq> CHR ''0''"
proof (induction n rule: dec_nat.induct)
  case (1 n)
  show ?case
  proof (cases "n < 10")
    case True
    have "char_of (48 + n) \<noteq> CHR ''0''"
    proof
      assume "char_of (48 + n) = CHR ''0''"
      from arg_cong [OF this, of "of_char :: char \<Rightarrow> nat"] show False using True "1.prems" by simp
    qed
    then show ?thesis using True by (simp add: dec_nat.simps [of n])
  next
    case False
    then have "0 < n div 10" by simp
    with "1.IH" [OF False] False show ?thesis by (simp add: dec_nat.simps [of n])
  qed
qed

lemma read_dec_nat: "0 < n \<Longrightarrow> base_prefix (dec_nat n) = (10, dec_nat n) \<and> read_base 10 0 (dec_nat n) = Some n"
  using hd_dec_nat [of n] read_base_digits [OF dec_nat_is_digit, of 0 n] dec_value_dec_nat [of n]
  by (simp add: base_prefix_def dec_value_def)

lemma dec_nat_no_underscore: "CHR ''_'' \<notin> set (dec_nat n)"
  using dec_nat_is_digit [of n] by (auto simp: list_all_iff is_digit_def)

lemma ParseInt0_dec_int: "in_int64 i \<Longrightarrow> ParseInt0 (dec_int i) = Some i"
proof -
  assume i: "in_int64 i"
  consider "i = 0" | "0 < i" | "i < 0" by linarith
  then show ?thesis
  proof cases
    case 1
    have "dec_nat 0 = ''0''" by code_simp
    then show ?thesis using 1 i by (simp add: dec_int_def ParseInt0_def strip_sign_def base_prefix_def)
  next
    case 2
    then have "strip_sign (dec_nat (nat i)) = (False, dec_nat (nat i))"
      using strip_sign_digits [OF dec_nat_is_digit [of "nat i"], of "[]"] by simp
    then show ?thesis using 2 i read_dec_nat [of "nat i"] dec_nat_no_underscore by (simp add: dec_int_def ParseInt0_def)
  next
    case 3
    then show ?thesis using i read_dec_nat [of "nat (- i)"] dec_nat_no_underscore by (simp add: dec_int_def ParseInt0_def)
  qed
qed

end
