(* ===== verification/Go_Format.thy ===== *)
theory Go_Format
  imports Go_Parse Forwarding
begin

text \<open>
  The printing of the Go standard library that the command-line client and its reports use: decimals with a
  fixed number of fraction digits (\<open>%.2f\<close>, \<open>%.3f\<close>), \<open>time.Duration.Round\<close> and \<open>String\<close>, the time stamp
  layout \<open>20060102T150405.000000000Z\<close> and the last step of \<open>filepath.Join\<close>. A time counts the nanoseconds
  from the first of January of the year 1, which is where Go's calendar starts as well.

  The lemmas show that two instants of the years 1 to 9999 have different time stamps, that a time stamp has
  neither a slash nor a control character, and that joining a file name to a directory keeps the name.
\<close>

subsection \<open>Numbers\<close>

definition pad_dec :: "nat \<Rightarrow> nat \<Rightarrow> string" where
  "pad_dec k n = replicate (k - length (dec_nat n)) (CHR ''0'') @ dec_nat n"

definition fixed_point :: "nat \<Rightarrow> rat \<Rightarrow> string" where
  \<comment> \<open>\<open>k\<close> fraction digits, ties to even\<close>
  "fixed_point k q =
     (let n = nat (rne (\<bar>q\<bar> * 10 ^ k))
      in (if q < 0 then ''-'' else '''') @ dec_nat (n div 10 ^ k) @ ''.'' @ pad_dec k (n mod 10 ^ k))"

fun format_float :: "nat \<Rightarrow> f64 \<Rightarrow> string" where
  "format_float k NaN = ''NaN''"
| "format_float k PInf = ''+Inf''"
| "format_float k NInf = ''-Inf''"
| "format_float k (Fin q) = fixed_point k q"

definition format_bool :: "bool \<Rightarrow> string" where
  "format_bool b = (if b then ''true'' else ''false'')"

subsection \<open>Durations\<close>

definition Duration_Round :: "duration \<Rightarrow> duration \<Rightarrow> duration" where
  "Duration_Round m d =
     (if m \<le> 0 then d
      else if d < 0
      then let r = (- d) mod m
           in if r + r < m then d + r else if d - m + r < min_int64 then min_int64 else d - m + r
      else let r = d mod m
           in if r + r < m then d - r else if d + m - r > max_int64 then max_int64 else d + m - r)"

definition fraction_text :: "nat \<Rightarrow> nat \<Rightarrow> string" where
  \<comment> \<open>\<open>fmtFrac\<close>: the fraction digits without trailing zeros, nothing for a whole number\<close>
  "fraction_text prec v =
     (let f = v mod 10 ^ prec
      in if f = 0 then [] else ''.'' @ rev (dropWhile (\<lambda>c. c = CHR ''0'') (rev (pad_dec prec f))))"

definition magnitude_text :: "nat \<Rightarrow> string" where
  "magnitude_text u =
     (if u = 0 then ''0s''
      else if u < 1000 then dec_nat u @ ''ns''
      else if u < 1000000 then dec_nat (u div 1000) @ fraction_text 3 u @ [CHR 0xC2, CHR 0xB5, CHR ''s'']
      else if u < 1000000000 then dec_nat (u div 1000000) @ fraction_text 6 u @ ''ms''
      else
        let s = u div 1000000000; seconds = dec_nat (s mod 60) @ fraction_text 9 u @ ''s''
        in if s < 60 then seconds
           else if s < 3600 then dec_nat (s div 60) @ ''m'' @ seconds
           else dec_nat (s div 3600) @ ''h'' @ dec_nat (s div 60 mod 60) @ ''m'' @ seconds)"

definition Duration_String :: "duration \<Rightarrow> string" where
  "Duration_String d = (if d < 0 then ''-'' else '''') @ magnitude_text (nat \<bar>d\<bar>)"

subsection \<open>Time stamps\<close>

definition isLeap :: "int \<Rightarrow> bool" where
  "isLeap year \<longleftrightarrow> year mod 4 = 0 \<and> (year mod 100 \<noteq> 0 \<or> year mod 400 = 0)"

definition absDate :: "int \<Rightarrow> int \<times> int" where
  \<comment> \<open>the year and the day of the year, from 0, for the days since the first of January of the year 1\<close>
  "absDate days =
     (let n400 = days div 146097; d = days - 146097 * n400;
          q100 = d div 36524; n100 = q100 - q100 div 4; d1 = d - 36524 * n100;
          n4 = d1 div 1461; d2 = d1 - 1461 * n4;
          q1 = d2 div 365; n1 = q1 - q1 div 4
      in (400 * n400 + 100 * n100 + 4 * n4 + n1 + 1, d2 - 365 * n1))"

definition daysBefore :: "bool \<Rightarrow> nat \<Rightarrow> int" where
  \<comment> \<open>the days before the month with the given index, from 0\<close>
  "daysBefore leap m = [0, 31, 59, 90, 120, 151, 181, 212, 243, 273, 304, 334] ! m + (if leap \<and> 2 \<le> m then 1 else 0)"

definition month_of :: "bool \<Rightarrow> int \<Rightarrow> nat" where
  \<comment> \<open>from 1\<close>
  "month_of leap yday = length (filter (\<lambda>m. daysBefore leap m \<le> yday) [0..<12])"

definition nanos_per_day :: int where "nanos_per_day = 86400000000000"

definition stamp_fields :: "time \<Rightarrow> nat list" where
  \<comment> \<open>year, month, day, hour, minute, second, nanosecond\<close>
  "stamp_fields t =
     (let (year, yday) = absDate (t div nanos_per_day); rest = nat (t mod nanos_per_day);
          month = month_of (isLeap year) yday
      in [nat year, month, nat (yday - daysBefore (isLeap year) (month - 1) + 1),
          rest div 3600000000000, rest div 60000000000 mod 60, rest div 1000000000 mod 60, rest mod 1000000000])"

definition format_stamp :: "time \<Rightarrow> string" where
  \<comment> \<open>\<open>t.UTC().Format("20060102T150405.000000000Z")\<close>, for the years from 1\<close>
  "format_stamp t =
     (case stamp_fields t of
        [year, month, day, hour, minute, second, nanos] \<Rightarrow>
          pad_dec 4 year @ pad_dec 2 month @ pad_dec 2 day @ ''T'' @ pad_dec 2 hour @ pad_dec 2 minute @ pad_dec 2 second @
          ''.'' @ pad_dec 9 nanos @ ''Z''
      | _ \<Rightarrow> [])"

definition stamp_end :: time where
  \<comment> \<open>the first instant of the year 10000\<close>
  "stamp_end = 3652059 * nanos_per_day"

subsection \<open>A padded number is read back\<close>

lemma length_dec_nat: "n < 10 ^ k \<Longrightarrow> 0 < k \<Longrightarrow> length (dec_nat n) \<le> k"
proof (induction n arbitrary: k rule: dec_nat.induct)
  case (1 n)
  show ?case
  proof (cases "n < 10")
    case False
    then obtain j where k: "k = Suc j" "0 < j" using "1.prems" by (cases k; cases "k = 1") auto
    then have "n div 10 < 10 ^ j" using "1.prems" by (simp add: less_mult_imp_div_less mult.commute)
    with "1.IH" [OF False] k show ?thesis by (simp add: dec_nat.simps [of n])
  qed (use "1.prems" in \<open>simp add: dec_nat.simps [of n]\<close>)
qed

lemma length_pad_dec: "n < 10 ^ k \<Longrightarrow> 0 < k \<Longrightarrow> length (pad_dec k n) = k"
  using length_dec_nat [of n k] by (simp add: pad_dec_def)

lemma dec_value_zeros: "dec_value (replicate j (CHR ''0'') @ s) = dec_value s"
  by (induction j) (simp_all add: dec_value_def)

lemma dec_value_pad_dec [simp]: "dec_value (pad_dec k n) = n"
  by (simp add: pad_dec_def dec_value_zeros dec_value_dec_nat)

lemma pad_dec_digits: "c \<in> set (pad_dec k n) \<Longrightarrow> is_digit c"
  using dec_nat_is_digit [of n] by (auto simp: pad_dec_def list_all_iff is_digit_def)

lemma pad_dec_append_inj:
  assumes "pad_dec k m @ xs = pad_dec k n @ ys" and "m < 10 ^ k" and "n < 10 ^ k" and "0 < k"
  shows "m = n \<and> xs = ys"
proof -
  have "pad_dec k m = pad_dec k n \<and> xs = ys"
    using arg_cong [OF assms(1), of "take k"] arg_cong [OF assms(1), of "drop k"] length_pad_dec [OF assms(2,4)] length_pad_dec [OF assms(3,4)]
    by simp
  then show ?thesis by (metis dec_value_pad_dec)
qed

subsection \<open>The calendar is injective\<close>

lemma quotient_bounds:
  fixes d m :: int
  assumes "0 < m" and "0 \<le> d"
  shows "0 \<le> d div m" and "m * (d div m) \<le> d" and "d < m * (d div m) + m"
proof -
  show "0 \<le> d div m" using assms by (simp add: pos_imp_zdiv_nonneg_iff)
  show "m * (d div m) \<le> d" "d < m * (d div m) + m"
    using pos_mod_bound [OF assms(1), of d] pos_mod_sign [OF assms(1), of d] mult_div_mod_eq [of m d] by linarith+
qed

text \<open>\<open>n -= n >> 2\<close>: the last day of four periods belongs to the fourth.\<close>

lemma capped_quotient:
  fixes d m n :: int
  assumes "0 < m" and "0 \<le> d" and "d \<le> 4 * m" and "n = d div m - d div m div 4"
  shows "0 \<le> n" and "n \<le> 3" and "0 \<le> d - m * n" and "d - m * n \<le> m"
proof -
  note q = quotient_bounds [OF assms(1,2)]
  have "d div m \<le> 4 * m div m" using assms(1,3) by (intro zdiv_mono1)
  then have "d div m \<le> 4" using assms(1) by simp
  then have "d div m \<in> {0, 1, 2, 3, 4}" using q(1) by auto
  then show "0 \<le> n" "n \<le> 3" "0 \<le> d - m * n" "d - m * n \<le> m" using q(2,3) assms(3) unfolding assms(4) by auto
qed

lemma absDate_bounds:
  assumes "0 \<le> days" and "absDate days = (year, yday)"
  shows "0 \<le> yday \<and> yday \<le> 365 \<and> 1 \<le> year"
    and "days = 365 * (year - 1) + (year - 1) div 4 - (year - 1) div 100 + (year - 1) div 400 + yday"
    and "days < 3652059 \<Longrightarrow> year \<le> 9999"
proof -
  define n400 d where n400: "n400 = days div 146097" "d = days - 146097 * n400"
  define q100 n100 d1 where n100: "q100 = d div 36524" "n100 = q100 - q100 div 4" "d1 = d - 36524 * n100"
  define n4 d2 where n4: "n4 = d1 div 1461" "d2 = d1 - 1461 * n4"
  define q1 n1 where n1: "q1 = d2 div 365" "n1 = q1 - q1 div 4"
  have eqs: "year = 400 * n400 + 100 * n100 + 4 * n4 + n1 + 1" "yday = d2 - 365 * n1"
    using assms(2) [symmetric] unfolding absDate_def Let_def n400 [symmetric] n100 [symmetric] n4 [symmetric] n1 [symmetric]
    by (simp_all only: prod.inject)
  have b400: "0 \<le> n400" "0 \<le> d" "d \<le> 4 * 36524"
    using quotient_bounds [of 146097 days] assms(1) unfolding n400 by simp_all
  note b100 = capped_quotient [OF _ b400(2,3) n100(2) [unfolded n100(1)], folded n100(3), simplified]
  have b4: "0 \<le> n4" "n4 \<le> 24" "0 \<le> d2" "d2 \<le> 4 * 365"
    using quotient_bounds [of 1461 d1] b100 unfolding n4 by simp_all
  note b1 = capped_quotient [OF _ b4(3,4) n1(2) [unfolded n1(1)], folded eqs(2), simplified]
  show "0 \<le> yday \<and> yday \<le> 365 \<and> 1 \<le> year" using b400 b100 b4 b1 eqs by simp
  have y: "year - 1 = 4 * (25 * (4 * n400 + n100) + n4) + n1" using eqs by simp
  have q4: "(year - 1) div 4 = 25 * (4 * n400 + n100) + n4" unfolding y using b1 by simp
  have q100: "(year - 1) div 100 = 4 * n400 + n100"
  proof -
    have "year - 1 = 100 * (4 * n400 + n100) + (4 * n4 + n1)" "0 \<le> 4 * n4 + n1" "4 * n4 + n1 < 100" using eqs b4 b1 by simp_all
    then show ?thesis by simp
  qed
  have q400: "(year - 1) div 400 = n400"
  proof -
    have "year - 1 = 400 * n400 + (100 * n100 + 4 * n4 + n1)" "0 \<le> 100 * n100 + 4 * n4 + n1" "100 * n100 + 4 * n4 + n1 < 400"
      using eqs b100 b4 b1 by simp_all
    then show ?thesis by simp
  qed
  have dd: "days = 146097 * n400 + 36524 * n100 + 1461 * n4 + 365 * n1 + yday" unfolding eqs(2) n4 n100 n400 by simp
  show all: "days = 365 * (year - 1) + (year - 1) div 4 - (year - 1) div 100 + (year - 1) div 400 + yday"
    unfolding q4 q100 q400 dd using eqs(1) by simp
  show "year \<le> 9999" if "days < 3652059"
  proof (rule ccontr)
    assume "\<not> year \<le> 9999"
    then have big: "9999 \<le> 400 * n400 + 100 * n100 + 4 * n4 + n1" using eqs(1) by simp
    have "n400 < 25" "24 \<le> n400" using dd b100(1) b4(1) b1(1,3) that big b100(2) b4(2) b1(2) by linarith+
    then have "n400 = 24" by simp
    then have "n100 = 3" "n4 = 24" "n1 = 3" using big b100(2) b4(2) b1(2) by linarith+
    then show False using dd b1(3) that \<open>n400 = 24\<close> by simp
  qed
qed

lemma month_table:
  "list_all (\<lambda>yday. list_all (\<lambda>leap. let m = month_of leap yday; d = yday - daysBefore leap (m - 1) + 1
     in 1 \<le> m \<and> m \<le> 12 \<and> 1 \<le> d \<and> d < 100) [True, False]) [0..365]"
  by code_simp

lemma month_day:
  assumes "0 \<le> yday" and "yday \<le> 365"
  shows "1 \<le> month_of leap yday" and "month_of leap yday \<le> 12"
    and "1 \<le> yday - daysBefore leap (month_of leap yday - 1) + 1" and "yday - daysBefore leap (month_of leap yday - 1) + 1 < 100"
proof -
  have "yday \<in> set [0..365]" "leap \<in> set [True, False]" using assms by (cases leap, simp_all)
  then have "let m = month_of leap yday; d = yday - daysBefore leap (m - 1) + 1 in 1 \<le> m \<and> m \<le> 12 \<and> 1 \<le> d \<and> d < 100"
    using month_table unfolding list_all_iff by blast
  then show "1 \<le> month_of leap yday" "month_of leap yday \<le> 12"
    "1 \<le> yday - daysBefore leap (month_of leap yday - 1) + 1" "yday - daysBefore leap (month_of leap yday - 1) + 1 < 100"
    unfolding Let_def by blast+
qed

lemma day_time_inj:
  fixes a b :: nat
  assumes "a div 3600000000000 = b div 3600000000000" and "a div 60000000000 mod 60 = b div 60000000000 mod 60"
    and "a div 1000000000 mod 60 = b div 1000000000 mod 60" and "a mod 1000000000 = b mod 1000000000"
  shows "a = b"
proof -
  have s: "a div 1000000000 div 60 = a div 60000000000" "b div 1000000000 div 60 = b div 60000000000"
    "a div 60000000000 div 60 = a div 3600000000000" "b div 60000000000 div 60 = b div 3600000000000"
    by (simp_all add: div_mult2_eq [symmetric])
  have "a div 60000000000 = b div 60000000000" using assms(1,2) s by (metis div_mult_mod_eq)
  then have "a div 1000000000 = b div 1000000000" using assms(3) s by (metis div_mult_mod_eq)
  then show ?thesis using assms(4) by (metis div_mult_mod_eq)
qed

definition in_calendar :: "time \<Rightarrow> bool" where
  "in_calendar t \<longleftrightarrow> 0 \<le> t \<and> t < stamp_end"

lemma in_calendar_days: "in_calendar t \<Longrightarrow> 0 \<le> t div nanos_per_day \<and> t div nanos_per_day < 3652059 \<and> 0 \<le> t mod nanos_per_day \<and> t mod nanos_per_day < nanos_per_day"
  using quotient_bounds [of nanos_per_day t] by (auto simp: in_calendar_def stamp_end_def nanos_per_day_def)

lemma stamp_fields_inj:
  assumes "in_calendar t" and "in_calendar u" and "stamp_fields t = stamp_fields u"
  shows "t = u"
proof -
  obtain y d y' d' where a: "absDate (t div nanos_per_day) = (y, d)" "absDate (u div nanos_per_day) = (y', d')" by fastforce
  note t = in_calendar_days [OF assms(1)] and u = in_calendar_days [OF assms(2)]
  note bt = absDate_bounds [OF _ a(1)] and bu = absDate_bounds [OF _ a(2)]
  from assms(3) have f: "nat y = nat y'" "month_of (isLeap y) d = month_of (isLeap y') d'"
    "nat (d - daysBefore (isLeap y) (month_of (isLeap y) d - 1) + 1) = nat (d' - daysBefore (isLeap y') (month_of (isLeap y') d' - 1) + 1)"
    "nat (t mod nanos_per_day) = nat (u mod nanos_per_day)"
    unfolding stamp_fields_def Let_def a by (auto intro: day_time_inj)
  have y: "y = y'" using f(1) bt(1) bu(1) t u by linarith
  have d: "d = d'" using f(2,3) month_day [of d "isLeap y"] month_day [of d' "isLeap y"] bt(1) bu(1) t u unfolding y by simp
  have "t div nanos_per_day = u div nanos_per_day" using bt(2) bu(2) t u unfolding y d by simp
  moreover have "t mod nanos_per_day = u mod nanos_per_day" using f(4) t u by (simp add: eq_nat_nat_iff)
  ultimately show ?thesis by (metis div_mult_mod_eq)
qed

lemma stamp_fields_bounds:
  assumes "in_calendar t"
  obtains y m d h mi s ns where "stamp_fields t = [y, m, d, h, mi, s, ns]" and "y < 10 ^ 4" and "m < 10 ^ 2" and "d < 10 ^ 2"
    and "h < 10 ^ 2" and "mi < 10 ^ 2" and "s < 10 ^ 2" and "ns < 10 ^ 9"
proof -
  obtain y d where a: "absDate (t div nanos_per_day) = (y, d)" by fastforce
  note t = in_calendar_days [OF assms]
  note b = absDate_bounds [OF _ a]
  have md: "month_of (isLeap y) d \<le> 12" "d - daysBefore (isLeap y) (month_of (isLeap y) d - 1) + 1 < 100"
    using month_day [of d "isLeap y"] b(1) t by blast+
  have "nat (t mod nanos_per_day) < 86400000000000" using t by (simp add: nanos_per_day_def)
  then have h: "nat (t mod nanos_per_day) div 3600000000000 < 100" by (simp add: less_mult_imp_div_less)
  show thesis
    by (rule that [of "nat y" "month_of (isLeap y) d" "nat (d - daysBefore (isLeap y) (month_of (isLeap y) d - 1) + 1)"
          "nat (t mod nanos_per_day) div 3600000000000" "nat (t mod nanos_per_day) div 60000000000 mod 60"
          "nat (t mod nanos_per_day) div 1000000000 mod 60" "nat (t mod nanos_per_day) mod 1000000000"])
      (use md h b(1,3) t in \<open>simp_all add: stamp_fields_def a Let_def\<close>)
qed

lemma format_stamp_inj:
  assumes "in_calendar t" and "in_calendar u" and "format_stamp t = format_stamp u"
  shows "t = u"
proof -
  obtain y m d h mi s ns where t: "stamp_fields t = [y, m, d, h, mi, s, ns]" "y < 10 ^ 4" "m < 10 ^ 2" "d < 10 ^ 2"
    "h < 10 ^ 2" "mi < 10 ^ 2" "s < 10 ^ 2" "ns < 10 ^ 9" by (rule stamp_fields_bounds [OF assms(1)])
  obtain y' m' d' h' mi' s' ns' where u: "stamp_fields u = [y', m', d', h', mi', s', ns']" "y' < 10 ^ 4" "m' < 10 ^ 2" "d' < 10 ^ 2"
    "h' < 10 ^ 2" "mi' < 10 ^ 2" "s' < 10 ^ 2" "ns' < 10 ^ 9" by (rule stamp_fields_bounds [OF assms(2)])
  have eq: "pad_dec 4 y @ pad_dec 2 m @ pad_dec 2 d @ ''T'' @ pad_dec 2 h @ pad_dec 2 mi @ pad_dec 2 s @ ''.'' @ pad_dec 9 ns @ ''Z'' =
    pad_dec 4 y' @ pad_dec 2 m' @ pad_dec 2 d' @ ''T'' @ pad_dec 2 h' @ pad_dec 2 mi' @ pad_dec 2 s' @ ''.'' @ pad_dec 9 ns' @ ''Z''"
    using assms(3) unfolding format_stamp_def t(1) u(1) by simp
  note i = pad_dec_append_inj
  from i [OF eq t(2) u(2)] have 1: "y = y'" and eq: "pad_dec 2 m @ pad_dec 2 d @ ''T'' @ pad_dec 2 h @ pad_dec 2 mi @ pad_dec 2 s @ ''.'' @ pad_dec 9 ns @ ''Z'' =
    pad_dec 2 m' @ pad_dec 2 d' @ ''T'' @ pad_dec 2 h' @ pad_dec 2 mi' @ pad_dec 2 s' @ ''.'' @ pad_dec 9 ns' @ ''Z''" by simp_all
  from i [OF eq t(3) u(3)] have 2: "m = m'" and eq: "pad_dec 2 d @ ''T'' @ pad_dec 2 h @ pad_dec 2 mi @ pad_dec 2 s @ ''.'' @ pad_dec 9 ns @ ''Z'' =
    pad_dec 2 d' @ ''T'' @ pad_dec 2 h' @ pad_dec 2 mi' @ pad_dec 2 s' @ ''.'' @ pad_dec 9 ns' @ ''Z''" by simp_all
  from i [OF eq t(4) u(4)] have 3: "d = d'" and eq: "pad_dec 2 h @ pad_dec 2 mi @ pad_dec 2 s @ ''.'' @ pad_dec 9 ns @ ''Z'' =
    pad_dec 2 h' @ pad_dec 2 mi' @ pad_dec 2 s' @ ''.'' @ pad_dec 9 ns' @ ''Z''" by simp_all
  from i [OF eq t(5) u(5)] have 4: "h = h'" and eq: "pad_dec 2 mi @ pad_dec 2 s @ ''.'' @ pad_dec 9 ns @ ''Z'' =
    pad_dec 2 mi' @ pad_dec 2 s' @ ''.'' @ pad_dec 9 ns' @ ''Z''" by simp_all
  from i [OF eq t(6) u(6)] have 5: "mi = mi'" and eq: "pad_dec 2 s @ ''.'' @ pad_dec 9 ns @ ''Z'' = pad_dec 2 s' @ ''.'' @ pad_dec 9 ns' @ ''Z''" by simp_all
  from i [OF eq t(7) u(7)] have 6: "s = s'" and eq: "pad_dec 9 ns @ ''Z'' = pad_dec 9 ns' @ ''Z''" by simp_all
  from i [OF eq t(8) u(8)] have 7: "ns = ns'" by simp
  show ?thesis using assms(1,2) by (rule stamp_fields_inj) (simp add: t u 1 2 3 4 5 6 7)
qed

lemma format_stamp_chars:
  assumes "in_calendar t"
  shows "\<exists>s. format_stamp t = s @ ''Z'' \<and> (\<forall>c \<in> set (format_stamp t). is_digit c \<or> c \<in> {CHR ''T'', CHR ''.'', CHR ''Z''})"
  using stamp_fields_bounds [OF assms] by (fastforce simp: format_stamp_def dest: pad_dec_digits)

subsection \<open>Joining a file name\<close>

definition file_name :: "string \<Rightarrow> bool" where
  "file_name n \<longleftrightarrow> n \<notin> {'''', ''.'', ''..''} \<and> CHR ''/'' \<notin> set n"

lemma path_join_snoc: "path_join (es @ [e]) = (if es = [] then e else path_join es @ CHR ''/'' # e)"
  by (induction es rule: path_join.induct) auto

lemma path_join_nonempty: "es \<noteq> [] \<Longrightarrow> list_all (\<lambda>e. e \<noteq> '''') es \<Longrightarrow> path_join es \<noteq> []"
  by (induction es rule: path_join.induct) auto

definition dir_prefix :: "string list \<Rightarrow> string" where
  \<comment> \<open>the cleaned directory with its separator\<close>
  "dir_prefix dirs =
     (let used = filter (\<lambda>e. e \<noteq> '''') dirs; rooted = (used \<noteq> [] \<and> hd (path_join used) = CHR ''/'');
          kept = (if used = [] then [] else rev (foldl (clean_step rooted) [] (split_at (CHR ''/'') (path_join used))))
      in (if rooted then ''/'' else '''') @ (if kept = [] then '''' else path_join kept @ ''/''))"

lemma path_Join_file:
  assumes "file_name n"
  shows "path_Join (dirs @ [n]) = dir_prefix dirs @ n"
proof -
  let ?used = "filter (\<lambda>e. e \<noteq> '''') dirs"
  have n: "n \<noteq> ''''" "n \<noteq> ''.''" "n \<noteq> ''..''" "CHR ''/'' \<notin> set n" using assms by (simp_all add: file_name_def)
  have step: "clean_step rooted out n = n # out" for rooted out using n by simp
  have line: "split_at (CHR ''/'') n = [n]" using n(4) by (rule split_at_line)
  show ?thesis
  proof (cases "?used = []")
    case True
    have "hd n \<noteq> CHR ''/''" using n(1,4) by (cases n) auto
    with True n show ?thesis by (simp add: path_Join_def path_Clean_def dir_prefix_def line step Let_def del: clean_step.simps)
  next
    case False
    let ?p = "path_join ?used"
    let ?out = "foldl (clean_step (hd ?p = CHR ''/'')) [] (split_at (CHR ''/'') ?p)"
    have p: "?p \<noteq> []" by (rule path_join_nonempty [OF False]) (simp add: list_all_iff)
    then have hd: "hd (?p @ CHR ''/'' # n) = hd ?p" by simp
    have "path_Join (dirs @ [n]) = path_Clean (?p @ CHR ''/'' # n)"
      using n(1) False by (simp add: path_Join_def path_join_snoc)
    also have "\<dots> = (if hd ?p = CHR ''/'' then CHR ''/'' # path_join (rev ?out @ [n]) else path_join (rev ?out @ [n]))"
      by (simp add: path_Clean_def hd split_at_app line step Let_def del: clean_step.simps)
    also have "\<dots> = dir_prefix dirs @ n" using False by (simp add: dir_prefix_def path_join_snoc Let_def)
    finally show ?thesis .
  qed
qed

end
