(* ===== verification/Bench_Report.thy ===== *)
theory Bench_Report
  imports Bench_Metrics Float_Order
begin

text \<open>
  \<open>internal/workload/client/bench_report_impl.go\<close> with the record types of \<open>bench.go\<close>: the summary of a
  list of attempts, its percentiles, and the report of a run with its scenarios and batches. An empty
  \<open>Error\<close> string of an attempt is \<open>None\<close>; counters are unbounded, sums of reported values wrap.
\<close>

subsection \<open>Attempts\<close>

datatype attempt_error = SendFailed client_error | NoAssistantText

record BenchmarkAttempt =
  at_RecordType :: string
  at_RunID :: string
  at_Scenario :: string
  at_Pattern :: string
  at_Batch :: int
  at_Request :: int
  at_InputSequence :: int
  at_PrefixBytes :: int
  at_PromptBytes :: int
  at_TargetPromptTokens :: int
  at_PromptTokenTolerance :: int
  at_PromptTokenDelta :: int
  at_PrefixGroup :: string
  at_CacheMode :: string
  at_CacheScope :: string
  at_CacheGeneration :: string
  at_StartedAt :: time
  at_CompletedAt :: time
  at_StatusCode :: int
  at_Headers :: DecisionHeaders
  at_TTFTMS :: f64
  at_DurationMS :: f64
  at_CachedSample :: bool
  at_Error :: "attempt_error option"

definition absoluteInt :: "int \<Rightarrow> int" where
  "absoluteInt v = (if v < 0 then wrap64 (- v) else v)"

subsection \<open>Order statistics\<close>

definition percentile :: "f64 list \<Rightarrow> int \<Rightarrow> f64" where
  "percentile vs point =
     (if length vs = 0 then Fin 0 else sort vs ! nat ((int (length vs) - 1) * point div 100))"

definition percentileInt :: "int list \<Rightarrow> int \<Rightarrow> int" where
  "percentileInt vs point =
     (if length vs = 0 then 0 else sort vs ! nat ((int (length vs) - 1) * point div 100))"

definition minimumInt :: "int list \<Rightarrow> int" where
  \<comment> \<open>called on non-empty lists only\<close>
  "minimumInt vs = foldl (\<lambda>m v. if v < m then v else m) (hd vs) (tl vs)"

definition maximumInt :: "int list \<Rightarrow> int" where
  "maximumInt vs = foldl (\<lambda>m v. if v > m then v else m) (hd vs) (tl vs)"

subsection \<open>The summary of a list of attempts\<close>

record benchmarkMetrics =
  bm_completed :: int
  bm_succeeded :: int
  bm_failed :: int
  bm_ttfts :: "f64 list"
  bm_durations :: "f64 list"
  bm_kvStatuses :: "(string, int) gomap"
  bm_routeReasons :: "(string, int) gomap"
  bm_backends :: "(string, int) gomap"
  bm_windowStartedAt :: time
  bm_windowCompletedAt :: time
  bm_cachedSamples :: int
  bm_cachedSum :: int
  bm_promptTokens :: "int list"
  bm_promptTokenMissing :: int
  bm_promptTokenViolations :: int

definition zero_benchmarkMetrics :: benchmarkMetrics where
  "zero_benchmarkMetrics = \<lparr>bm_completed = 0, bm_succeeded = 0, bm_failed = 0, bm_ttfts = [], bm_durations = [],
     bm_kvStatuses = [], bm_routeReasons = [], bm_backends = [], bm_windowStartedAt = zero_time, bm_windowCompletedAt = zero_time,
     bm_cachedSamples = 0, bm_cachedSum = 0, bm_promptTokens = [], bm_promptTokenMissing = 0, bm_promptTokenViolations = 0\<rparr>"

definition count_label :: "string \<Rightarrow> (string, int) gomap \<Rightarrow> (string, int) gomap" where
  "count_label k m = (if k \<noteq> [] then AList.update k (mget 0 m k + 1) m else m)"

definition observe_window :: "BenchmarkAttempt \<Rightarrow> benchmarkMetrics \<Rightarrow> benchmarkMetrics" where
  "observe_window a m =
     (let m1 = (if \<not> IsZero (at_StartedAt a) \<and> (IsZero (bm_windowStartedAt m) \<or> at_StartedAt a < bm_windowStartedAt m)
                then m\<lparr>bm_windowStartedAt := at_StartedAt a\<rparr> else m)
      in if \<not> IsZero (at_CompletedAt a) \<and> (IsZero (bm_windowCompletedAt m1) \<or> at_CompletedAt a > bm_windowCompletedAt m1)
         then m1\<lparr>bm_windowCompletedAt := at_CompletedAt a\<rparr> else m1)"

definition observe_tokens :: "BenchmarkAttempt \<Rightarrow> benchmarkMetrics \<Rightarrow> benchmarkMetrics" where
  "observe_tokens a m =
     (if at_TargetPromptTokens a > 0
      then if dh_PromptTokens (at_Headers a) = 0 then m\<lparr>bm_promptTokenMissing := bm_promptTokenMissing m + 1\<rparr>
           else m\<lparr>bm_promptTokens := bm_promptTokens m @ [dh_PromptTokens (at_Headers a)],
                  bm_promptTokenViolations := bm_promptTokenViolations m +
                    (if absoluteInt (at_PromptTokenDelta a) > at_PromptTokenTolerance a then 1 else 0)\<rparr>
      else m)"

definition observe_attempt :: "BenchmarkAttempt \<Rightarrow> benchmarkMetrics \<Rightarrow> benchmarkMetrics" where
  "observe_attempt a m0 =
     (let m = observe_window a m0
      in observe_tokens a (m\<lparr>bm_completed := bm_completed m + 1,
           bm_succeeded := bm_succeeded m + (if at_Error a = None then 1 else 0),
           bm_failed := bm_failed m + (if at_Error a = None then 0 else 1),
           bm_ttfts := bm_ttfts m @ (if f_lt (Fin 0) (at_TTFTMS a) then [at_TTFTMS a] else []),
           bm_durations := bm_durations m @ (if f_lt (Fin 0) (at_DurationMS a) then [at_DurationMS a] else []),
           bm_kvStatuses := count_label (dh_KVStatus (at_Headers a)) (bm_kvStatuses m),
           bm_routeReasons := count_label (dh_RouteReason (at_Headers a)) (bm_routeReasons m),
           bm_backends := count_label (dh_BackendID (at_Headers a)) (bm_backends m),
           bm_cachedSamples := bm_cachedSamples m + (if at_CachedSample a then 1 else 0),
           bm_cachedSum := wrap64 (bm_cachedSum m + (if at_CachedSample a then dh_CachedPrefixTokens (at_Headers a) else 0))\<rparr>))"

definition summarizeAttempts :: "BenchmarkAttempt list \<Rightarrow> benchmarkMetrics" where
  "summarizeAttempts attempts = fold observe_attempt attempts zero_benchmarkMetrics"

definition windowMetrics :: "int \<Rightarrow> time \<Rightarrow> time \<Rightarrow> f64 \<times> f64" where
  "windowMetrics completed startedAt completedAt =
     (if completed \<le> 0 \<or> IsZero startedAt \<or> IsZero completedAt \<or> \<not> completedAt > startedAt then (Fin 0, Fin 0)
      else let elapsed = time_sub completedAt startedAt
           in (durationMS elapsed, f_div (f_of_int completed) (Duration_Seconds elapsed)))"

definition plannedRequests :: "BenchmarkPlan \<Rightarrow> int" where
  "plannedRequests p = foldl (\<lambda>n s. wrap64 (n + bs_Batches s * bs_BatchSize s)) 0 (bp_Scenarios p)"

subsection \<open>Reports\<close>

record BenchmarkBatchReport =
  br_Batch :: int
  br_WindowStartedAt :: time
  br_WindowCompletedAt :: time
  br_ElapsedMS :: f64
  br_CompletionRateQPS :: f64
  br_Requested :: int
  br_Completed :: int
  br_Succeeded :: int
  br_Failed :: int
  br_TTFTP50MS :: f64
  br_TTFTP95MS :: f64
  br_DurationP50MS :: f64
  br_DurationP95MS :: f64
  br_KVStatuses :: "(string, int) gomap"
  br_RouteReasons :: "(string, int) gomap"
  br_CachedPrefixSamples :: int
  br_CachedPrefixSum :: int
  br_GatewayMetrics :: "GatewayMetricsWindow option"

record BenchmarkScenarioReport =
  sp_Name :: string
  sp_Pattern :: string
  sp_PrefixBytes :: int
  sp_PrefixGroups :: int
  sp_ArrivalRateQPS :: f64
  sp_WindowStartedAt :: time
  sp_WindowCompletedAt :: time
  sp_ElapsedMS :: f64
  sp_CompletionRateQPS :: f64
  sp_TargetPromptTokens :: int
  sp_PromptTokenTolerance :: int
  sp_ActualPromptTokenMin :: int
  sp_ActualPromptTokenP50 :: int
  sp_ActualPromptTokenP95 :: int
  sp_ActualPromptTokenMax :: int
  sp_PromptTokenMissing :: int
  sp_PromptTokenViolations :: int
  sp_Requested :: int
  sp_Completed :: int
  sp_Succeeded :: int
  sp_Failed :: int
  sp_TTFTP50MS :: f64
  sp_TTFTP95MS :: f64
  sp_DurationP50MS :: f64
  sp_DurationP95MS :: f64
  sp_KVStatuses :: "(string, int) gomap"
  sp_RouteReasons :: "(string, int) gomap"
  sp_Backends :: "(string, int) gomap"
  sp_CachedPrefixSamples :: int
  sp_CachedPrefixSum :: int
  sp_Batches :: "BenchmarkBatchReport list"
  sp_GatewayMetrics :: "GatewayMetricsWindow option"

record BenchmarkReport =
  rp_RecordType :: string
  rp_RunID :: string
  rp_StartedAt :: time
  rp_CompletedAt :: time
  rp_ElapsedMS :: f64
  rp_CompletionRateQPS :: f64
  rp_Plan :: BenchmarkPlan
  rp_Requested :: int
  rp_Completed :: int
  rp_Succeeded :: int
  rp_Failed :: int
  rp_TTFTP50MS :: f64
  rp_TTFTP95MS :: f64
  rp_DurationP50MS :: f64
  rp_DurationP95MS :: f64
  rp_PromptTokenMissing :: int
  rp_PromptTokenViolations :: int
  rp_GatewayMetrics :: "GatewayMetricsWindow option"
  rp_Scenarios :: "BenchmarkScenarioReport list"

definition zero_Plan :: BenchmarkPlan where
  "zero_Plan = \<lparr>bp_RunID = [], bp_MaxTokens = 0, bp_IgnoreEOS = False, bp_RequestTimeoutMS = 0, bp_AllowHighConcurrency = False,
     bp_Formal = False, bp_SkipPromptTokenEvidence = False, bp_Treatment = [], bp_WorkloadSeed = 0, bp_RandomizeRequestOrder = False,
     bp_ExecutionOrder = [], bp_CacheMode = [], bp_RunNonce = [], bp_CacheGeneration = [], bp_Provenance = zero_Provenance,
     bp_Scenarios = []\<rparr>"

definition zero_Report :: BenchmarkReport where
  "zero_Report = \<lparr>rp_RecordType = [], rp_RunID = [], rp_StartedAt = zero_time, rp_CompletedAt = zero_time, rp_ElapsedMS = Fin 0,
     rp_CompletionRateQPS = Fin 0, rp_Plan = zero_Plan, rp_Requested = 0, rp_Completed = 0, rp_Succeeded = 0,
     rp_Failed = 0, rp_TTFTP50MS = Fin 0, rp_TTFTP95MS = Fin 0, rp_DurationP50MS = Fin 0, rp_DurationP95MS = Fin 0,
     rp_PromptTokenMissing = 0, rp_PromptTokenViolations = 0, rp_GatewayMetrics = None, rp_Scenarios = []\<rparr>"

definition batch_report :: "int \<Rightarrow> int \<Rightarrow> benchmarkMetrics \<Rightarrow> BenchmarkBatchReport" where
  \<comment> \<open>\<open>applyBatchMetrics\<close> and \<open>applyBatchWindow\<close> on a fresh report\<close>
  "batch_report batch requested m =
     (let (elapsed, rate) = windowMetrics (bm_completed m) (bm_windowStartedAt m) (bm_windowCompletedAt m)
      in \<lparr>br_Batch = batch, br_WindowStartedAt = bm_windowStartedAt m, br_WindowCompletedAt = bm_windowCompletedAt m,
          br_ElapsedMS = elapsed, br_CompletionRateQPS = rate, br_Requested = requested,
          br_Completed = bm_completed m, br_Succeeded = bm_succeeded m, br_Failed = bm_failed m,
          br_TTFTP50MS = percentile (bm_ttfts m) 50, br_TTFTP95MS = percentile (bm_ttfts m) 95,
          br_DurationP50MS = percentile (bm_durations m) 50, br_DurationP95MS = percentile (bm_durations m) 95,
          br_KVStatuses = bm_kvStatuses m, br_RouteReasons = bm_routeReasons m,
          br_CachedPrefixSamples = bm_cachedSamples m, br_CachedPrefixSum = bm_cachedSum m, br_GatewayMetrics = None\<rparr>)"

definition scenario_report :: "BenchmarkScenario \<Rightarrow> benchmarkMetrics \<Rightarrow> BenchmarkBatchReport list \<Rightarrow> BenchmarkScenarioReport" where
  \<comment> \<open>the literal of \<open>finalizeBenchmarkReport\<close>, then \<open>applyScenarioMetrics\<close> and \<open>applyScenarioWindow\<close>\<close>
  "scenario_report s m batches =
     (let (elapsed, rate) = windowMetrics (bm_completed m) (bm_windowStartedAt m) (bm_windowCompletedAt m);
          ts = bm_promptTokens m
      in \<lparr>sp_Name = bs_Name s, sp_Pattern = bs_Pattern s, sp_PrefixBytes = bs_PrefixBytes s, sp_PrefixGroups = bs_PrefixGroups s,
          sp_ArrivalRateQPS = bs_ArrivalRateQPS s,
          sp_WindowStartedAt = bm_windowStartedAt m, sp_WindowCompletedAt = bm_windowCompletedAt m,
          sp_ElapsedMS = elapsed, sp_CompletionRateQPS = rate,
          sp_TargetPromptTokens = bs_TargetPromptTokens s, sp_PromptTokenTolerance = bs_PromptTokenTolerance s,
          sp_ActualPromptTokenMin = (if ts = [] then 0 else minimumInt ts), sp_ActualPromptTokenP50 = percentileInt ts 50,
          sp_ActualPromptTokenP95 = percentileInt ts 95, sp_ActualPromptTokenMax = (if ts = [] then 0 else maximumInt ts),
          sp_PromptTokenMissing = bm_promptTokenMissing m, sp_PromptTokenViolations = bm_promptTokenViolations m,
          sp_Requested = wrap64 (bs_Batches s * bs_BatchSize s),
          sp_Completed = bm_completed m, sp_Succeeded = bm_succeeded m, sp_Failed = bm_failed m,
          sp_TTFTP50MS = percentile (bm_ttfts m) 50, sp_TTFTP95MS = percentile (bm_ttfts m) 95,
          sp_DurationP50MS = percentile (bm_durations m) 50, sp_DurationP95MS = percentile (bm_durations m) 95,
          sp_KVStatuses = bm_kvStatuses m, sp_RouteReasons = bm_routeReasons m, sp_Backends = bm_backends m,
          sp_CachedPrefixSamples = bm_cachedSamples m, sp_CachedPrefixSum = bm_cachedSum m,
          sp_Batches = batches, sp_GatewayMetrics = None\<rparr>)"

definition by_scenario :: "BenchmarkPlan \<Rightarrow> BenchmarkAttempt list \<Rightarrow> (string, BenchmarkAttempt list) gomap" where
  "by_scenario p attempts =
     foldl (\<lambda>m a. AList.update (at_Scenario a) (mget [] m (at_Scenario a) @ [a]) m)
       (foldl (\<lambda>m s. AList.update (bs_Name s) [] m) [] (bp_Scenarios p)) attempts"

definition summarize_scenario :: "BenchmarkAttempt list \<Rightarrow> BenchmarkScenario \<Rightarrow> BenchmarkScenarioReport" where
  "summarize_scenario items s =
     scenario_report s (summarizeAttempts items)
       (map (\<lambda>batch. batch_report (int batch) (bs_BatchSize s) (summarizeAttempts (filter (\<lambda>a. at_Batch a = int batch) items)))
         [0..<nat (bs_Batches s)])"

definition finalizeBenchmarkReport :: "BenchmarkAttempt list \<Rightarrow> BenchmarkReport \<Rightarrow> BenchmarkReport" where
  "finalizeBenchmarkReport attempts report =
     (let p = rp_Plan report;
          byScenario = by_scenario p attempts;
          m = summarizeAttempts attempts;
          (elapsed, rate) = windowMetrics (bm_completed m) (bm_windowStartedAt m) (bm_windowCompletedAt m)
      in report\<lparr>rp_Scenarios := map (\<lambda>s. summarize_scenario (mget [] byScenario (bs_Name s)) s) (bp_Scenarios p),
           rp_Requested := plannedRequests p, rp_Completed := bm_completed m, rp_Succeeded := bm_succeeded m,
           rp_Failed := bm_failed m, rp_TTFTP50MS := percentile (bm_ttfts m) 50, rp_TTFTP95MS := percentile (bm_ttfts m) 95,
           rp_DurationP50MS := percentile (bm_durations m) 50, rp_DurationP95MS := percentile (bm_durations m) 95,
           rp_PromptTokenMissing := bm_promptTokenMissing m, rp_PromptTokenViolations := bm_promptTokenViolations m,
           rp_ElapsedMS := elapsed, rp_CompletionRateQPS := rate\<rparr>)"

definition attach_batch :: "(int, GatewayMetricsWindow) gomap \<Rightarrow> nat \<times> BenchmarkBatchReport \<Rightarrow> BenchmarkBatchReport" where
  "attach_batch batchWindows ib =
     (case map_of batchWindows (int (fst ib)) of
        None \<Rightarrow> snd ib | Some w \<Rightarrow> (snd ib)\<lparr>br_GatewayMetrics := Some (w\<lparr>gw_WarmupExcluded := True\<rparr>)\<rparr>)"

definition apply_scenario_gateway :: "(string, (int, GatewayMetricsWindow) gomap) gomap \<Rightarrow> BenchmarkScenarioReport \<Rightarrow> BenchmarkScenarioReport" where
  "apply_scenario_gateway gw r =
     (let batchWindows = mget [] gw (sp_Name r);
          batches = map (attach_batch batchWindows) (enumerate 0 (sp_Batches r));
          windows = concat (map (\<lambda>i. case map_of batchWindows (int i) of None \<Rightarrow> [] | Some w \<Rightarrow> [w\<lparr>gw_WarmupExcluded := True\<rparr>])
            [0..<length (sp_Batches r)])
      in if length batchWindows = 0 then r
         else if length windows = 0 then r\<lparr>sp_Batches := batches\<rparr>
         else r\<lparr>sp_Batches := batches,
                sp_GatewayMetrics := Some ((combineGatewayMetricsWindows windows)\<lparr>gw_WarmupExcluded := True\<rparr>)\<rparr>)"

definition applyGatewayMetricsToReport :: "(string, (int, GatewayMetricsWindow) gomap) gomap \<Rightarrow> BenchmarkReport \<Rightarrow> BenchmarkReport" where
  "applyGatewayMetricsToReport gw report = report\<lparr>rp_Scenarios := map (apply_scenario_gateway gw) (rp_Scenarios report)\<rparr>"

subsection \<open>Percentiles are order statistics\<close>

lemma percentile_index: "vs \<noteq> [] \<Longrightarrow> 0 \<le> point \<Longrightarrow> point \<le> 100 \<Longrightarrow> nat ((int (length vs) - 1) * point div 100) < length vs"
proof -
  assume ne: "vs \<noteq> []" and p: "0 \<le> point" "point \<le> 100"
  define n where "n = int (length vs) - 1"
  have n: "0 \<le> n" using ne by (cases vs) (auto simp: n_def)
  have "n * point \<le> n * 100" using n p by (intro mult_left_mono) auto
  then have "n * point div 100 \<le> n" by simp
  moreover have "0 \<le> n * point div 100" using n p by (simp add: pos_imp_zdiv_nonneg_iff)
  ultimately show ?thesis unfolding n_def by linarith
qed

lemma sorted_nth_counts:
  fixes vs :: "'a::linorder list"
  assumes "i < length vs"
  shows "i < length (filter (\<lambda>v. v \<le> sort vs ! i) vs) \<and> length vs - i \<le> length (filter (\<lambda>v. sort vs ! i \<le> v) vs)"
proof -
  let ?s = "sort vs"
  have len: "length (filter P ?s) = length (filter P vs)" for P by (metis mset_filter mset_sort size_mset)
  have le: "?s ! j \<le> ?s ! k" if "j \<le> k" "k < length vs" for j k using sorted_nth_mono [OF sorted_sort] that by simp
  have "{..i} \<subseteq> {j. j < length ?s \<and> ?s ! j \<le> ?s ! i}" using assms le by auto
  then have "card {..i} \<le> length (filter (\<lambda>v. v \<le> ?s ! i) ?s)" unfolding length_filter_conv_card by (intro card_mono) auto
  moreover have "{i..<length vs} \<subseteq> {j. j < length ?s \<and> ?s ! i \<le> ?s ! j}" using le by auto
  then have "card {i..<length vs} \<le> length (filter (\<lambda>v. ?s ! i \<le> v) ?s)" unfolding length_filter_conv_card by (intro card_mono) auto
  ultimately show ?thesis by (simp add: len)
qed

text \<open>
  A reported percentile is a value that was measured: with \<open>n\<close> samples and the rank \<open>k\<close>, the integer
  part of \<open>(n - 1) * point / 100\<close>, more than \<open>k\<close> samples are at most it and at least \<open>n - k\<close> samples are at
  least it, and a higher percentile of the same samples is never smaller.
\<close>

theorem percentile_order_statistic:
  assumes "vs \<noteq> []" and "0 \<le> point" and "point \<le> point'" and "point' \<le> 100"
  shows "percentile vs point \<in> set vs
    \<and> nat ((int (length vs) - 1) * point div 100) < length (filter (\<lambda>v. v \<le> percentile vs point) vs)
    \<and> length vs - nat ((int (length vs) - 1) * point div 100) \<le> length (filter (\<lambda>v. percentile vs point \<le> v) vs)
    \<and> percentile vs point \<le> percentile vs point'"
proof -
  let ?k = "\<lambda>p. nat ((int (length vs) - 1) * p div 100)"
  have idx: "?k point < length vs" "?k point' < length vs" using assms by (auto intro!: percentile_index)
  have p: "percentile vs q = sort vs ! ?k q" for q using assms(1) by (simp add: percentile_def)
  have "(int (length vs) - 1) * point \<le> (int (length vs) - 1) * point'" using assms by (cases vs) (auto intro: mult_left_mono)
  then have "?k point \<le> ?k point'" by (intro nat_mono zdiv_mono1) auto
  then have "sort vs ! ?k point \<le> sort vs ! ?k point'" using sorted_nth_mono [OF sorted_sort] idx by simp
  moreover have "sort vs ! ?k point \<in> set vs" using nth_mem [of "?k point" "sort vs"] idx by simp
  ultimately show ?thesis unfolding p using sorted_nth_counts [OF idx(1)] by simp
qed

theorem percentile_order_statistic_witness: "percentile [Fin 3, Fin 1, Fin 2] 50 \<in> set [Fin 3, Fin 1, Fin 2]"
  using percentile_order_statistic [of "[Fin 3, Fin 1, Fin 2]" 50 95] by simp

subsection \<open>Accounting\<close>

lemma observe_window_keeps [simp]:
  "bm_completed (observe_window a m) = bm_completed m" "bm_succeeded (observe_window a m) = bm_succeeded m"
  "bm_failed (observe_window a m) = bm_failed m" "bm_ttfts (observe_window a m) = bm_ttfts m"
  by (simp_all add: observe_window_def Let_def)

lemma observe_tokens_keeps [simp]:
  "bm_completed (observe_tokens a m) = bm_completed m" "bm_succeeded (observe_tokens a m) = bm_succeeded m"
  "bm_failed (observe_tokens a m) = bm_failed m" "bm_ttfts (observe_tokens a m) = bm_ttfts m"
  by (simp_all add: observe_tokens_def)

definition succeeded :: "BenchmarkAttempt \<Rightarrow> bool" where
  "succeeded a \<longleftrightarrow> at_Error a = None"

lemma fold_observe:
  "bm_completed (fold observe_attempt as m) = bm_completed m + int (length as)
   \<and> bm_succeeded (fold observe_attempt as m) = bm_succeeded m + int (length (filter succeeded as))
   \<and> bm_failed (fold observe_attempt as m) = bm_failed m + int (length (filter (\<lambda>a. \<not> succeeded a) as))
   \<and> bm_ttfts (fold observe_attempt as m) = bm_ttfts m @ filter (f_lt (Fin 0)) (map at_TTFTMS as)"
proof (induction as arbitrary: m)
  case (Cons a as)
  then show ?case by (simp add: observe_attempt_def Let_def succeeded_def)
qed simp

lemma summarize_counts [simp]:
  "bm_completed (summarizeAttempts as) = int (length as)"
  "bm_succeeded (summarizeAttempts as) = int (length (filter succeeded as))"
  "bm_failed (summarizeAttempts as) = int (length (filter (\<lambda>a. \<not> succeeded a) as))"
  using fold_observe [of as zero_benchmarkMetrics] by (simp_all add: summarizeAttempts_def zero_benchmarkMetrics_def)

lemma by_scenario_items: "mget [] (by_scenario p as) name = filter (\<lambda>a. at_Scenario a = name) as"
proof -
  have empty: "mget [] (foldl (\<lambda>m s. AList.update (bs_Name s) [] m) m ss) name = (mget [] m name :: BenchmarkAttempt list)"
    if "mget [] m name = ([] :: BenchmarkAttempt list)" for m ss
    using that by (induction ss arbitrary: m) (simp_all add: mget_update)
  have "mget [] (foldl (\<lambda>m a. AList.update (at_Scenario a) (mget [] m (at_Scenario a) @ [a]) m) m as) name =
      mget [] m name @ filter (\<lambda>a. at_Scenario a = name) as" for m
    by (induction as arbitrary: m) (auto simp: mget_update)
  then show ?thesis using empty [of "[]" "bp_Scenarios p"] by (simp add: by_scenario_def mget_None)
qed

lemma indicator_sum: "distinct ks \<Longrightarrow> k \<in> set ks \<Longrightarrow> sum_list (map (\<lambda>x. if k = x then 1 else 0) ks) = (1 :: int)"
proof (induction ks)
  case (Cons x ks)
  have "k \<notin> set ks \<Longrightarrow> sum_list (map (\<lambda>x. if k = x then 1 else 0) ks) = (0 :: int)" by (induction ks) auto
  with Cons show ?case by auto
qed simp

lemma partition_length:
  assumes "distinct ks" and "\<forall>x \<in> set xs. f x \<in> set ks"
  shows "sum_list (map (\<lambda>k. int (length (filter (\<lambda>x. f x = k) xs))) ks) = int (length xs)"
  using assms(2)
proof (induction xs)
  case (Cons x xs)
  have "sum_list (map (\<lambda>k. int (length (filter (\<lambda>y. f y = k) (x # xs)))) ks) =
      sum_list (map (\<lambda>k. (if f x = k then 1 else 0) + int (length (filter (\<lambda>y. f y = k) xs))) ks)"
    by (intro arg_cong [of _ _ sum_list] map_cong) auto
  also have "\<dots> = sum_list (map (\<lambda>k. if f x = k then 1 else 0) ks) + int (length xs)"
    using Cons by (simp add: sum_list_addf)
  finally show ?case using indicator_sum [OF assms(1), of "f x"] Cons.prems by simp
qed simp

lemma partition_filter:
  assumes "distinct ks" and "\<forall>x \<in> set xs. f x \<in> set ks"
  shows "sum_list (map (\<lambda>k. int (length (filter P (filter (\<lambda>x. f x = k) xs)))) ks) = int (length (filter P xs))"
  using partition_length [OF assms(1), of "filter P xs" f] assms(2) by (simp add: conj_commute)

definition batches_account :: "BenchmarkScenarioReport \<Rightarrow> bool" where
  "batches_account r \<longleftrightarrow>
     sum_list (map br_Completed (sp_Batches r)) = sp_Completed r \<and> sum_list (map br_Succeeded (sp_Batches r)) = sp_Succeeded r
     \<and> sum_list (map br_Failed (sp_Batches r)) = sp_Failed r"

lemma batch_report_counts [simp]:
  "br_Completed (batch_report b n m) = bm_completed m" "br_Succeeded (batch_report b n m) = bm_succeeded m"
  "br_Failed (batch_report b n m) = bm_failed m"
  by (simp_all add: batch_report_def split: prod.split)

lemma scenario_report_counts [simp]:
  "sp_Completed (scenario_report s m bs) = bm_completed m" "sp_Succeeded (scenario_report s m bs) = bm_succeeded m"
  "sp_Failed (scenario_report s m bs) = bm_failed m" "sp_Batches (scenario_report s m bs) = bs"
  by (simp_all add: scenario_report_def Let_def split: prod.split)

lemma summarize_scenario_accounts:
  assumes "\<forall>a \<in> set items. 0 \<le> at_Batch a \<and> at_Batch a < bs_Batches s"
  shows "batches_account (summarize_scenario items s)"
proof -
  have d: "distinct (map int [0..<nat (bs_Batches s)])" by (simp add: distinct_map)
  have m: "\<forall>a \<in> set items. at_Batch a \<in> set (map int [0..<nat (bs_Batches s)])"
  proof
    fix a assume "a \<in> set items"
    with assms have "0 \<le> at_Batch a" "at_Batch a < bs_Batches s" by auto
    then have "at_Batch a = int (nat (at_Batch a))" "nat (at_Batch a) < nat (bs_Batches s)" by auto
    then show "at_Batch a \<in> set (map int [0..<nat (bs_Batches s)])" by (metis atLeastLessThan_iff imageI le0 list.set_map set_upt)
  qed
  show ?thesis using partition_length [OF d m] partition_filter [OF d m]
    by (simp add: batches_account_def summarize_scenario_def comp_def)
qed

text \<open>
  Nothing is lost between the levels of a report: the counts of the run are those of its attempts,
  every attempt is either a success or a failure, the counts of the scenarios add up to those of the run,
  and the counts of the batches to those of their scenario. The attempts belong to scenarios and batches
  of the plan, whose names are distinct, as those of every validated plan are.
\<close>

theorem report_accounts:
  assumes "distinct (map bs_Name (bp_Scenarios (rp_Plan report)))"
    and "\<forall>a \<in> set attempts. \<exists>s \<in> set (bp_Scenarios (rp_Plan report)). at_Scenario a = bs_Name s \<and> 0 \<le> at_Batch a \<and> at_Batch a < bs_Batches s"
  shows "rp_Completed (finalizeBenchmarkReport attempts report) = int (length attempts)
    \<and> rp_Succeeded (finalizeBenchmarkReport attempts report) + rp_Failed (finalizeBenchmarkReport attempts report) = int (length attempts)
    \<and> sum_list (map sp_Completed (rp_Scenarios (finalizeBenchmarkReport attempts report))) = int (length attempts)
    \<and> sum_list (map sp_Succeeded (rp_Scenarios (finalizeBenchmarkReport attempts report))) =
        rp_Succeeded (finalizeBenchmarkReport attempts report)
    \<and> list_all batches_account (rp_Scenarios (finalizeBenchmarkReport attempts report))"
proof -
  let ?ss = "bp_Scenarios (rp_Plan report)" and ?r = "finalizeBenchmarkReport attempts report"
  let ?items = "\<lambda>s. filter (\<lambda>a. at_Scenario a = bs_Name s) attempts"
  have counts: "rp_Completed ?r = int (length attempts)" "rp_Succeeded ?r = int (length (filter succeeded attempts))"
      "rp_Failed ?r = int (length (filter (\<lambda>a. \<not> succeeded a) attempts))"
      "rp_Scenarios ?r = map (\<lambda>s. summarize_scenario (?items s) s) ?ss"
    by (simp_all add: finalizeBenchmarkReport_def Let_def by_scenario_items split: prod.split)
  have mem: "\<forall>a \<in> set attempts. at_Scenario a \<in> set (map bs_Name ?ss)" using assms(2) by auto
  have "sum_list (map sp_Completed (rp_Scenarios ?r)) = int (length attempts)"
    "sum_list (map sp_Succeeded (rp_Scenarios ?r)) = int (length (filter succeeded attempts))"
    using partition_length [OF assms(1) mem] partition_filter [OF assms(1) mem]
    by (simp_all add: counts(4) comp_def summarize_scenario_def)
  moreover have "list_all batches_account (rp_Scenarios ?r)"
  proof -
    have "batches_account (summarize_scenario (?items s) s)" if "s \<in> set ?ss" for s
    proof (rule summarize_scenario_accounts, intro ballI)
      fix a assume "a \<in> set (?items s)"
      then obtain s' where "s' \<in> set ?ss" "bs_Name s' = bs_Name s" "0 \<le> at_Batch a \<and> at_Batch a < bs_Batches s'"
        using assms(2) by auto
      with that assms(1) show "0 \<le> at_Batch a \<and> at_Batch a < bs_Batches s" by (metis eq_key_imp_eq_value distinct_map inj_onD)
    qed
    then show ?thesis by (simp add: counts(4) list_all_iff)
  qed
  moreover have "rp_Succeeded ?r + rp_Failed ?r = int (length attempts)"
    unfolding counts using sum_length_filter_compl [of succeeded attempts] by simp
  ultimately show ?thesis using counts by simp
qed

definition wit_attempt :: "string \<Rightarrow> int \<Rightarrow> int \<Rightarrow> BenchmarkAttempt" where
  "wit_attempt name batch request =
     \<lparr>at_RecordType = ''request'', at_RunID = [], at_Scenario = name, at_Pattern = PrefixSame, at_Batch = batch, at_Request = request,
      at_InputSequence = request, at_PrefixBytes = 256, at_PromptBytes = 300, at_TargetPromptTokens = 0, at_PromptTokenTolerance = 0,
      at_PromptTokenDelta = 0, at_PrefixGroup = [], at_CacheMode = [], at_CacheScope = [], at_CacheGeneration = [],
      at_StartedAt = 1, at_CompletedAt = 2, at_StatusCode = 200, at_Headers = zero_DecisionHeaders, at_TTFTMS = Fin 3,
      at_DurationMS = Fin 5, at_CachedSample = False, at_Error = None\<rparr>"

theorem report_accounts_witness:
  "sum_list (map sp_Completed (rp_Scenarios (finalizeBenchmarkReport [wit_attempt ''a'' 0 0, wit_attempt ''b'' 1 3]
     (zero_Report\<lparr>rp_Plan := wit_plan\<rparr>)))) = 2"
  using report_accounts [of "zero_Report\<lparr>rp_Plan := wit_plan\<rparr>" "[wit_attempt ''a'' 0 0, wit_attempt ''b'' 1 3]"]
  by (simp add: wit_plan_def default_scenario_def wit_attempt_def)

end
