(* ===== verification/Bench_Compare.thy ===== *)
theory Bench_Compare
  imports Bench_Report
begin

text \<open>
  \<open>internal/workload/client/compare.go\<close>: the comparison of two sets of benchmark runs. Files, the JSON
  decoders and the pseudo-random generator are arguments: \<open>draw k n\<close> is the result of the \<open>k\<close>-th call of
  \<open>Intn(n)\<close> on the seeded source.
\<close>

record ComparisonArm =
  ca_Runs :: int
  ca_Succeeded :: int
  ca_Failed :: int
  ca_TTFTP50MS :: f64
  ca_TTFTP95MS :: f64
  ca_TTFTP99MS :: f64
  ca_RunMedianTTFTP95MS :: f64
  ca_EstimatorSamples :: int
  ca_EstimatorMAEMS :: f64
  ca_EstimatorAbsoluteP95MS :: f64
  ca_PredictionSamples :: int
  ca_PredictionMAEMS :: f64
  ca_PredictionAbsoluteP95MS :: f64
  ca_PredictionAgreementSamples :: int
  ca_PredictionAgreementPercent :: f64
  ca_PairedSamples :: int
  ca_PairedPredictionMinusEstimatorMAEMS :: f64

record GatewayComparisonArm =
  ga_Runs :: int
  ga_ValidRuns :: int
  ga_AcceptedRateQPS :: f64
  ga_CompletedRateQPS :: f64
  ga_RejectionRateQPS :: f64
  ga_AverageInflight :: f64
  ga_LittleLawWaitMS :: f64

record ComparisonReport =
  cr_Baseline :: ComparisonArm
  cr_Treatment :: ComparisonArm
  cr_BaselineGateway :: GatewayComparisonArm
  cr_TreatmentGateway :: GatewayComparisonArm
  cr_TTFTP95DeltaPercent :: f64
  cr_BootstrapLowPercent :: f64
  cr_BootstrapHighPercent :: f64
  cr_BootstrapSamples :: int
  cr_Seed :: int

definition zero_GatewayArm :: GatewayComparisonArm where
  "zero_GatewayArm = \<lparr>ga_Runs = 0, ga_ValidRuns = 0, ga_AcceptedRateQPS = Fin 0, ga_CompletedRateQPS = Fin 0,
     ga_RejectionRateQPS = Fin 0, ga_AverageInflight = Fin 0, ga_LittleLawWaitMS = Fin 0\<rparr>"

datatype compare_error =
    ErrCompareRuns | ErrBootstrapSamples | ErrOpenRun string | ErrDecodeRun string | ErrScanRun string | ErrCloseRun string
  | ErrNoRequestRecords string | ErrNoTTFTSamples | ErrGatewayReports | ErrReadReport string | ErrDecodeReport string

subsection \<open>One arm\<close>

fun f_abs :: "f64 \<Rightarrow> f64" where
  "f_abs (Fin a) = Fin \<bar>a\<bar>"
| "f_abs NaN = NaN"
| "f_abs _ = PInf"

definition percentileCopy :: "f64 list \<Rightarrow> int \<Rightarrow> f64" where
  "percentileCopy vs point = percentile vs point"

definition usable :: "BenchmarkAttempt \<Rightarrow> bool" where
  \<comment> \<open>the negation of the test that counts an attempt as failed\<close>
  "usable a \<longleftrightarrow> \<not> (at_Error a \<noteq> None \<or> at_StatusCode a < 200 \<or> at_StatusCode a \<ge> 300 \<or> f_le (at_TTFTMS a) (Fin 0))"

definition has_estimate :: "BenchmarkAttempt \<Rightarrow> bool" where
  "has_estimate a \<longleftrightarrow> dh_EstimatorValid (at_Headers a) \<and> f_lt (Fin 0) (dh_EstimatedTTFTMS (at_Headers a))"

definition has_prediction :: "BenchmarkAttempt \<Rightarrow> bool" where
  "has_prediction a \<longleftrightarrow> f_lt (Fin 0) (dh_PredictionSelectedMS (at_Headers a))"

definition estimate_error :: "BenchmarkAttempt \<Rightarrow> f64" where
  "estimate_error a = f_abs (f_sub (at_TTFTMS a) (dh_EstimatedTTFTMS (at_Headers a)))"

definition prediction_error :: "BenchmarkAttempt \<Rightarrow> f64" where
  "prediction_error a = f_abs (f_sub (at_TTFTMS a) (dh_PredictionSelectedMS (at_Headers a)))"

definition agrees :: "BenchmarkAttempt \<Rightarrow> bool" where
  "agrees a \<longleftrightarrow> dh_PredictionWouldSelect (at_Headers a) = dh_BackendID (at_Headers a)"

record arm_acc =
  aa_failed :: int
  aa_succeeded :: int
  aa_ttfts :: "f64 list"
  aa_runP95 :: "f64 list"
  aa_estimatorErrors :: "f64 list"
  aa_predictionErrors :: "f64 list"
  aa_pairedDeltas :: "f64 list"
  aa_predictionSamples :: int
  aa_agreements :: int
  aa_current :: "f64 list"

definition arm_attempt :: "BenchmarkAttempt \<Rightarrow> arm_acc \<Rightarrow> arm_acc" where
  "arm_attempt a acc =
     (if \<not> usable a then acc\<lparr>aa_failed := aa_failed acc + 1\<rparr>
      else acc\<lparr>aa_succeeded := aa_succeeded acc + 1,
        aa_current := aa_current acc @ [at_TTFTMS a], aa_ttfts := aa_ttfts acc @ [at_TTFTMS a],
        aa_estimatorErrors := aa_estimatorErrors acc @ (if has_estimate a then [estimate_error a] else []),
        aa_predictionSamples := aa_predictionSamples acc + (if has_prediction a then 1 else 0),
        aa_predictionErrors := aa_predictionErrors acc @ (if has_prediction a then [prediction_error a] else []),
        aa_agreements := aa_agreements acc + (if has_prediction a \<and> agrees a then 1 else 0),
        aa_pairedDeltas := aa_pairedDeltas acc @
          (if has_prediction a \<and> has_estimate a then [f_sub (prediction_error a) (estimate_error a)] else [])\<rparr>)"

definition arm_run :: "BenchmarkAttempt list \<Rightarrow> arm_acc \<Rightarrow> arm_acc" where
  "arm_run run acc0 =
     (let acc = fold arm_attempt run (acc0\<lparr>aa_current := []\<rparr>)
      in if length (aa_current acc) > 0 then acc\<lparr>aa_runP95 := aa_runP95 acc @ [percentileCopy (aa_current acc) 95]\<rparr> else acc)"

definition zero_arm_acc :: arm_acc where
  "zero_arm_acc = \<lparr>aa_failed = 0, aa_succeeded = 0, aa_ttfts = [], aa_runP95 = [], aa_estimatorErrors = [], aa_predictionErrors = [],
     aa_pairedDeltas = [], aa_predictionSamples = 0, aa_agreements = 0, aa_current = []\<rparr>"

definition mean_or_zero :: "f64 list \<Rightarrow> f64" where
  "mean_or_zero vs = (if length vs > 0 then f_div (foldl f_add (Fin 0) vs) (f_of_int (int (length vs))) else Fin 0)"

definition summarizeComparisonArm :: "BenchmarkAttempt list list \<Rightarrow> ComparisonArm" where
  "summarizeComparisonArm runs =
     (let acc = fold arm_run runs zero_arm_acc;
          est = aa_estimatorErrors acc; pred = aa_predictionErrors acc; paired = aa_pairedDeltas acc
      in \<lparr>ca_Runs = int (length runs), ca_Succeeded = aa_succeeded acc, ca_Failed = aa_failed acc,
          ca_TTFTP50MS = percentileCopy (aa_ttfts acc) 50, ca_TTFTP95MS = percentileCopy (aa_ttfts acc) 95,
          ca_TTFTP99MS = percentileCopy (aa_ttfts acc) 99, ca_RunMedianTTFTP95MS = percentileCopy (aa_runP95 acc) 50,
          ca_EstimatorSamples = int (length est), ca_EstimatorMAEMS = mean_or_zero est,
          ca_EstimatorAbsoluteP95MS = (if length est > 0 then percentileCopy est 95 else Fin 0),
          ca_PredictionSamples = aa_predictionSamples acc, ca_PredictionMAEMS = mean_or_zero pred,
          ca_PredictionAbsoluteP95MS = (if length pred > 0 then percentileCopy pred 95 else Fin 0),
          ca_PredictionAgreementSamples = aa_agreements acc,
          ca_PredictionAgreementPercent = (if length pred > 0
            then f_mul (f_div (f_of_int (aa_agreements acc)) (f_of_int (int (length pred)))) (Fin 100) else Fin 0),
          ca_PairedSamples = int (length paired), ca_PairedPredictionMinusEstimatorMAEMS = mean_or_zero paired\<rparr>)"

definition pooledTTFT :: "BenchmarkAttempt list list \<Rightarrow> f64 list" where
  "pooledTTFT runs = concat (map (\<lambda>run. map at_TTFTMS (filter (\<lambda>a. at_Error a = None \<and> at_StatusCode a \<ge> 200
     \<and> at_StatusCode a < 300 \<and> f_lt (Fin 0) (at_TTFTMS a)) run)) runs)"

subsection \<open>The bootstrap interval\<close>

definition percentDelta :: "f64 \<Rightarrow> f64 \<Rightarrow> f64" where
  "percentDelta baseline treatment =
     (if f_eq baseline (Fin 0) then Fin 0 else f_mul (f_div (f_sub treatment baseline) baseline) (Fin 100))"

definition quantile_index :: "nat \<Rightarrow> f64 \<Rightarrow> int" where
  "quantile_index n probability = f_to_int64 (f_round (f_mul probability (f_of_int (int n - 1))))"

definition quantile :: "f64 list \<Rightarrow> f64 \<Rightarrow> f64" where
  "quantile vs probability = (if length vs = 0 then Fin 0 else vs ! nat (quantile_index (length vs) probability))"

definition resample :: "(nat \<Rightarrow> nat \<Rightarrow> nat) \<Rightarrow> nat \<Rightarrow> f64 list \<Rightarrow> f64 list" where
  "resample draw k vs = map (\<lambda>i. vs ! draw (k + i) (length vs)) [0..<length vs]"

definition bootstrap_deltas :: "(nat \<Rightarrow> nat \<Rightarrow> nat) \<Rightarrow> f64 list \<Rightarrow> f64 list \<Rightarrow> nat \<Rightarrow> f64 list" where
  "bootstrap_deltas draw baseline treatment smps =
     map (\<lambda>j. let k = j * (length baseline + length treatment)
              in percentDelta (percentileCopy (resample draw k baseline) 95)
                   (percentileCopy (resample draw (k + length baseline) treatment) 95)) [0..<smps]"

definition bootstrapP95DeltaCI :: "(nat \<Rightarrow> nat \<Rightarrow> nat) \<Rightarrow> f64 list \<Rightarrow> f64 list \<Rightarrow> nat \<Rightarrow> f64 \<times> f64" where
  "bootstrapP95DeltaCI draw baseline treatment smps =
     (let deltas = sort (bootstrap_deltas draw baseline treatment smps)
      in (quantile deltas (rnd64 (25 / 1000)), quantile deltas (rnd64 (975 / 1000))))"

subsection \<open>Files\<close>

definition maxComparisonJSONLLineBytes :: nat where "maxComparisonJSONLLineBytes = 1048576"

record compare_world =
  cw_file :: "string \<Rightarrow> string option"
  cw_readFails :: "string \<Rightarrow> bool" \<comment> \<open>reading the file ends with an error after the given bytes\<close>
  cw_closes :: "string \<Rightarrow> bool"
  cw_recordType :: "string \<Rightarrow> string option"
  cw_attempt :: "string \<Rightarrow> BenchmarkAttempt option"
  cw_report :: "string \<Rightarrow> BenchmarkReport option"

fun decode_lines :: "compare_world \<Rightarrow> string \<Rightarrow> string list \<Rightarrow> compare_error + BenchmarkAttempt list" where
  "decode_lines cw path [] = Inr []"
| "decode_lines cw path (l # ls) =
     (case cw_recordType cw l of
        None \<Rightarrow> Inl (ErrDecodeRun path)
      | Some t \<Rightarrow>
          if t \<noteq> ''request'' then decode_lines cw path ls
          else case cw_attempt cw l of
            None \<Rightarrow> Inl (ErrDecodeRun path)
          | Some a \<Rightarrow> (case decode_lines cw path ls of Inl e \<Rightarrow> Inl e | Inr as \<Rightarrow> Inr (a # as)))"

definition load_run :: "compare_world \<Rightarrow> string \<Rightarrow> compare_error + BenchmarkAttempt list" where
  "load_run cw path =
     (case cw_file cw path of
        None \<Rightarrow> Inl (ErrOpenRun path)
      | Some body \<Rightarrow>
          let (ls, failed) = scan_lines maxComparisonJSONLLineBytes body in
          case decode_lines cw path ls of
            Inl e \<Rightarrow> Inl e
          | Inr as \<Rightarrow>
              if failed \<or> cw_readFails cw path then Inl (ErrScanRun path)
              else if \<not> cw_closes cw path then Inl (ErrCloseRun path)
              else if length as = 0 then Inl (ErrNoRequestRecords path) else Inr as)"

definition loadComparisonRuns :: "compare_world \<Rightarrow> string list \<Rightarrow> compare_error + BenchmarkAttempt list list" where
  "loadComparisonRuns cw paths = all_or_first (load_run cw) paths"

definition CompareBenchmarkFiles :: "compare_world \<Rightarrow> (int \<Rightarrow> nat \<Rightarrow> nat \<Rightarrow> nat) \<Rightarrow> string list \<Rightarrow> string list \<Rightarrow> int \<Rightarrow> int \<Rightarrow>
    compare_error + ComparisonReport" where
  "CompareBenchmarkFiles cw rand baselinePaths treatmentPaths bootstrapSamples seed =
     (if length baselinePaths = 0 \<or> length treatmentPaths = 0 then Inl ErrCompareRuns
      else if bootstrapSamples < 100 \<or> bootstrapSamples > 100000 then Inl ErrBootstrapSamples
      else case loadComparisonRuns cw baselinePaths of
        Inl e \<Rightarrow> Inl e
      | Inr baselineRuns \<Rightarrow>
          (case loadComparisonRuns cw treatmentPaths of
             Inl e \<Rightarrow> Inl e
           | Inr treatmentRuns \<Rightarrow>
               let b = summarizeComparisonArm baselineRuns; t = summarizeComparisonArm treatmentRuns in
               if f_le (ca_TTFTP95MS b) (Fin 0) \<or> f_le (ca_TTFTP95MS t) (Fin 0) then Inl ErrNoTTFTSamples
               else
                 let (low, high) = bootstrapP95DeltaCI (rand seed) (pooledTTFT baselineRuns) (pooledTTFT treatmentRuns) (nat bootstrapSamples)
                 in Inr \<lparr>cr_Baseline = b, cr_Treatment = t,
                      cr_BaselineGateway = zero_GatewayArm, cr_TreatmentGateway = zero_GatewayArm,
                      cr_TTFTP95DeltaPercent = percentDelta (ca_TTFTP95MS b) (ca_TTFTP95MS t),
                      cr_BootstrapLowPercent = low, cr_BootstrapHighPercent = high,
                      cr_BootstrapSamples = bootstrapSamples, cr_Seed = seed\<rparr>))"

subsection \<open>Gateway evidence\<close>

definition loadGatewayReports :: "compare_world \<Rightarrow> string list \<Rightarrow> compare_error + BenchmarkReport list" where
  "loadGatewayReports cw paths = all_or_first (\<lambda>path.
     case cw_file cw path of None \<Rightarrow> Inl (ErrReadReport path)
     | Some body \<Rightarrow> (case cw_report cw body of None \<Rightarrow> Inl (ErrDecodeReport path) | Some r \<Rightarrow> Inr r)) paths"

definition arm_add_window :: "GatewayMetricsWindow \<Rightarrow> GatewayComparisonArm \<Rightarrow> GatewayComparisonArm" where
  "arm_add_window w arm = arm\<lparr>ga_ValidRuns := ga_ValidRuns arm + 1,
     ga_AcceptedRateQPS := f_add (ga_AcceptedRateQPS arm) (gw_AcceptedRateQPS w),
     ga_CompletedRateQPS := f_add (ga_CompletedRateQPS arm) (gw_CompletedRateQPS w),
     ga_RejectionRateQPS := f_add (ga_RejectionRateQPS arm) (gw_RejectionRateQPS w),
     ga_AverageInflight := f_add (ga_AverageInflight arm) (gw_AverageInflight w),
     ga_LittleLawWaitMS := f_add (ga_LittleLawWaitMS arm) (gw_LittleLawWaitMS w)\<rparr>"

definition add_report :: "BenchmarkReport \<Rightarrow> GatewayComparisonArm \<Rightarrow> GatewayComparisonArm" where
  "add_report r arm = (case rp_GatewayMetrics r of None \<Rightarrow> arm | Some w \<Rightarrow> if gw_Valid w then arm_add_window w arm else arm)"

definition summarizeGatewayReports :: "BenchmarkReport list \<Rightarrow> GatewayComparisonArm" where
  "summarizeGatewayReports reports =
     (let arm = fold add_report reports \<lparr>ga_Runs = int (length reports), ga_ValidRuns = 0, ga_AcceptedRateQPS = Fin 0,
            ga_CompletedRateQPS = Fin 0, ga_RejectionRateQPS = Fin 0, ga_AverageInflight = Fin 0, ga_LittleLawWaitMS = Fin 0\<rparr>;
          count = f_of_int (ga_ValidRuns arm)
      in if ga_ValidRuns arm = 0 then arm
         else arm\<lparr>ga_AcceptedRateQPS := f_div (ga_AcceptedRateQPS arm) count,
                  ga_CompletedRateQPS := f_div (ga_CompletedRateQPS arm) count,
                  ga_RejectionRateQPS := f_div (ga_RejectionRateQPS arm) count,
                  ga_AverageInflight := f_div (ga_AverageInflight arm) count,
                  ga_LittleLawWaitMS := f_div (ga_LittleLawWaitMS arm) count\<rparr>)"

definition CompareGatewayReportFiles :: "compare_world \<Rightarrow> string list \<Rightarrow> string list \<Rightarrow>
    compare_error + GatewayComparisonArm \<times> GatewayComparisonArm" where
  "CompareGatewayReportFiles cw baselinePaths treatmentPaths =
     (if length baselinePaths = 0 \<or> length treatmentPaths = 0 then Inl ErrGatewayReports
      else case loadGatewayReports cw baselinePaths of
        Inl e \<Rightarrow> Inl e
      | Inr baseline \<Rightarrow>
          (case loadGatewayReports cw treatmentPaths of
             Inl e \<Rightarrow> Inl e
           | Inr treatment \<Rightarrow> Inr (summarizeGatewayReports baseline, summarizeGatewayReports treatment)))"

subsection \<open>The interval\<close>

lemma quantile_index_between:
  assumes "0 \<le> p" and "p \<le> q" and "q \<le> 1" and "0 < n" and "n \<le> 100000"
  shows "0 \<le> quantile_index n (Fin p) \<and> quantile_index n (Fin p) \<le> quantile_index n (Fin q) \<and> quantile_index n (Fin q) < int n"
proof -
  let ?m = "of_int (int n - 1) :: rat"
  have m: "0 \<le> ?m" "?m \<le> 99999" using assms(4,5) by (simp_all add: of_nat_diff)
  have f: "f_of_int (int n - 1) = Fin ?m" "is_f64 ?m" using assms(4,5) f_of_int_exact [of "int n - 1"] is_f64_of_int [of "int n - 1"] by simp_all
  have b: "0 \<le> x * ?m" "x * ?m \<le> ?m" if "0 \<le> x" "x \<le> 1" for x using m that by (auto intro: mult_left_le_one_le)
  have r: "rnd64 (x * ?m) = Fin (rnd (x * ?m)) \<and> 0 \<le> rnd (x * ?m) \<and> rnd (x * ?m) \<le> ?m" if "0 \<le> x" "x \<le> 1" for x
    using rnd64_between [OF is_f64_0 f(2) b(1) b(2)] that by blast
  have i: "quantile_index n (Fin x) = round_away (rnd (x * ?m)) \<and> 0 \<le> round_away (rnd (x * ?m)) \<and> round_away (rnd (x * ?m)) \<le> int n - 1"
    if "0 \<le> x" "x \<le> 1" for x
  proof -
    have "0 \<le> round_away (rnd (x * ?m)) \<and> round_away (rnd (x * ?m)) \<le> int n - 1"
      using r [OF that] round_away_between [of 0 "rnd (x * ?m)" "int n - 1"] by simp
    then show ?thesis using r [OF that] assms(5) f(1)
      by (simp add: quantile_index_def in_int64_def min_int64_def max_int64_def)
  qed
  have "rnd (p * ?m) \<le> rnd (q * ?m)" using assms(2) m by (intro rnd_mono mult_right_mono)
  then have "round_away (rnd (p * ?m)) \<le> round_away (rnd (q * ?m))" by (rule round_away_mono)
  then show ?thesis using i [of p] i [of q] assms by simp
qed

lemma resample_subset: "(\<And>k n. 0 < n \<Longrightarrow> draw k n < n) \<Longrightarrow> vs \<noteq> [] \<Longrightarrow> set (resample draw k vs) \<subseteq> set vs \<and> resample draw k vs \<noteq> []"
  by (auto simp: resample_def)

lemma percentile_member: "vs \<noteq> [] \<Longrightarrow> 0 \<le> point \<Longrightarrow> point \<le> 100 \<Longrightarrow> percentile vs point \<in> set vs"
  using nth_mem [of "nat ((int (length vs) - 1) * point div 100)" "sort vs"] percentile_index [of vs point]
  by (simp add: percentile_def)

lemma bootstrap_delta_measured:
  assumes "\<And>k n. 0 < n \<Longrightarrow> draw k n < n" and "baseline \<noteq> []" and "treatment \<noteq> []" and "d \<in> set (bootstrap_deltas draw baseline treatment m)"
  shows "\<exists>b \<in> set baseline. \<exists>t \<in> set treatment. d = percentDelta b t"
proof -
  have mem: "percentileCopy (resample draw k vs) 95 \<in> set vs" if "vs \<noteq> []" for k vs
    using resample_subset [where draw = draw and k = k, OF assms(1) that] percentile_member [of "resample draw k vs" 95] by (auto simp: percentileCopy_def)
  from assms(4) obtain k k' where "d = percentDelta (percentileCopy (resample draw k baseline) 95) (percentileCopy (resample draw k' treatment) 95)"
    by (auto simp: bootstrap_deltas_def Let_def)
  with mem assms(2,3) show ?thesis by blast
qed

lemma bootstrap_interval:
  assumes "\<And>k n. 0 < n \<Longrightarrow> draw k n < n" and "baseline \<noteq> []" and "treatment \<noteq> []" and "0 < m" and "m \<le> 100000"
    and "bootstrapP95DeltaCI draw baseline treatment m = (low, high)"
  shows "low \<le> high \<and> (\<exists>b \<in> set baseline. \<exists>t \<in> set treatment. low = percentDelta b t)
    \<and> (\<exists>b \<in> set baseline. \<exists>t \<in> set treatment. high = percentDelta b t)"
proof -
  let ?d = "sort (bootstrap_deltas draw baseline treatment m)"
  have len: "length ?d = m" by (simp add: bootstrap_deltas_def)
  obtain p q where pq: "rnd64 (25 / 1000) = Fin p" "rnd64 (975 / 1000) = Fin q" "0 \<le> p" "p \<le> q" "q \<le> 1"
    using rnd64_unit [of "25 / 1000"] rnd64_unit [of "975 / 1000"] rnd_mono [of "25 / 1000" "975 / 1000"] by auto
  note i = quantile_index_between [OF pq(3-5) assms(4,5)]
  have eq: "low = ?d ! nat (quantile_index m (Fin p))" "high = ?d ! nat (quantile_index m (Fin q))"
    using assms(4,6) unfolding bootstrapP95DeltaCI_def Let_def quantile_def len pq by simp_all
  have lt: "nat (quantile_index m (Fin p)) < m" "nat (quantile_index m (Fin q)) < m"
    "nat (quantile_index m (Fin p)) \<le> nat (quantile_index m (Fin q))" using i by auto
  have "low \<le> high" unfolding eq using lt len by (intro sorted_nth_mono) simp_all
  moreover have "low \<in> set (bootstrap_deltas draw baseline treatment m)" "high \<in> set (bootstrap_deltas draw baseline treatment m)"
    using nth_mem [of "nat (quantile_index m (Fin p))" ?d] nth_mem [of "nat (quantile_index m (Fin q))" ?d] lt len
    by (simp_all add: eq)
  moreover have "\<exists>b \<in> set baseline. \<exists>t \<in> set treatment. d = percentDelta b t"
    if "d \<in> set (bootstrap_deltas draw baseline treatment m)" for d
    using assms(1) by (intro bootstrap_delta_measured [OF _ assms(2,3) that])
  ultimately show ?thesis by blast
qed

subsection \<open>The arms\<close>

lemma fold_arm_attempt:
  "aa_failed (fold arm_attempt run acc) = aa_failed acc + int (length (filter (\<lambda>a. \<not> usable a) run))
   \<and> aa_succeeded (fold arm_attempt run acc) = aa_succeeded acc + int (length (filter usable run))
   \<and> aa_ttfts (fold arm_attempt run acc) = aa_ttfts acc @ map at_TTFTMS (filter usable run)"
  by (induction run arbitrary: acc) (simp_all add: arm_attempt_def)

lemma fold_arm_run:
  "aa_failed (fold arm_run runs acc) = aa_failed acc + int (length (filter (\<lambda>a. \<not> usable a) (concat runs)))
   \<and> aa_succeeded (fold arm_run runs acc) = aa_succeeded acc + int (length (filter usable (concat runs)))
   \<and> aa_ttfts (fold arm_run runs acc) = aa_ttfts acc @ map at_TTFTMS (filter usable (concat runs))"
  by (induction runs arbitrary: acc) (simp_all add: arm_run_def Let_def fold_arm_attempt)

lemma usable_pooled:
  assumes "\<forall>a \<in> set (concat runs). at_TTFTMS a \<noteq> NaN"
  shows "map at_TTFTMS (filter usable (concat runs)) = pooledTTFT runs"
proof -
  have "f_le x (Fin 0) \<longleftrightarrow> \<not> f_lt (Fin 0) x" if "x \<noteq> NaN" for x using that by (cases x) (auto simp: f_le_def)
  then have "filter usable run = filter (\<lambda>a. at_Error a = None \<and> at_StatusCode a \<ge> 200 \<and> at_StatusCode a < 300 \<and> f_lt (Fin 0) (at_TTFTMS a)) run"
    if "run \<in> set runs" for run
    using assms that by (intro filter_cong refl) (auto simp: usable_def)
  then have "map (\<lambda>run. map at_TTFTMS (filter usable run)) runs = map (\<lambda>run. map at_TTFTMS (filter (\<lambda>a. at_Error a = None \<and> at_StatusCode a \<ge> 200
     \<and> at_StatusCode a < 300 \<and> f_lt (Fin 0) (at_TTFTMS a)) run)) runs" by simp
  then show ?thesis by (simp only: pooledTTFT_def filter_concat map_concat map_map comp_def)
qed

lemma arm_counts:
  "ca_Succeeded (summarizeComparisonArm runs) + ca_Failed (summarizeComparisonArm runs) = int (length (concat runs))"
  using sum_length_filter_compl [of usable "concat runs"]
  by (simp add: summarizeComparisonArm_def Let_def fold_arm_run zero_arm_acc_def del: sum_length_filter_compl length_concat)

lemma arm_p95:
  assumes "\<forall>a \<in> set (concat runs). at_TTFTMS a \<noteq> NaN"
  shows "ca_TTFTP95MS (summarizeComparisonArm runs) = percentile (pooledTTFT runs) 95"
  using usable_pooled [OF assms] by (simp add: summarizeComparisonArm_def Let_def fold_arm_run zero_arm_acc_def percentileCopy_def)

lemma decode_lines_mem: "decode_lines cw path ls = Inr as \<Longrightarrow> a \<in> set as \<Longrightarrow> \<exists>l. cw_attempt cw l = Some a"
  by (induction ls arbitrary: as) (auto split: option.splits if_splits sum.splits)

lemma load_run_mem: "load_run cw path = Inr as \<Longrightarrow> a \<in> set as \<Longrightarrow> \<exists>l. cw_attempt cw l = Some a"
  by (auto simp: load_run_def Let_def split: option.splits prod.splits sum.splits if_splits intro: decode_lines_mem)

lemma all_or_first_mem: "all_or_first f xs = Inr ys \<Longrightarrow> y \<in> set ys \<Longrightarrow> \<exists>x \<in> set xs. f x = Inr y"
  by (induction xs arbitrary: ys) (auto split: sum.splits)

lemma load_runs_mem: "loadComparisonRuns cw paths = Inr runs \<Longrightarrow> a \<in> set (concat runs) \<Longrightarrow> \<exists>l. cw_attempt cw l = Some a"
  by (auto simp: loadComparisonRuns_def dest!: all_or_first_mem intro: load_run_mem)

text \<open>
  C40. A comparison that succeeds accounts for every request record of the files, once each, as a success
  or a failure; the reported change is that between the 95th percentiles of the pooled samples of the two
  arms, the very samples the bootstrap draws from; and the interval is ordered and each of its ends is the
  relative change between a measured baseline sample and a measured treatment sample. The generator is
  assumed to draw below its bound and the decoder not to produce a NaN, which JSON cannot express.
\<close>

theorem comparison_sound:
  assumes "\<And>seed k n. 0 < n \<Longrightarrow> rand seed k n < n"
    and "\<And>l a. cw_attempt cw l = Some a \<Longrightarrow> at_TTFTMS a \<noteq> NaN"
    and "CompareBenchmarkFiles cw rand baselinePaths treatmentPaths m seed = Inr r"
  shows "\<exists>bs ts. loadComparisonRuns cw baselinePaths = Inr bs \<and> loadComparisonRuns cw treatmentPaths = Inr ts
    \<and> ca_Succeeded (cr_Baseline r) + ca_Failed (cr_Baseline r) = int (length (concat bs))
    \<and> ca_Succeeded (cr_Treatment r) + ca_Failed (cr_Treatment r) = int (length (concat ts))
    \<and> cr_TTFTP95DeltaPercent r = percentDelta (percentile (pooledTTFT bs) 95) (percentile (pooledTTFT ts) 95)
    \<and> cr_BootstrapLowPercent r \<le> cr_BootstrapHighPercent r
    \<and> (\<exists>b \<in> set (pooledTTFT bs). \<exists>t \<in> set (pooledTTFT ts). cr_BootstrapLowPercent r = percentDelta b t)
    \<and> (\<exists>b \<in> set (pooledTTFT bs). \<exists>t \<in> set (pooledTTFT ts). cr_BootstrapHighPercent r = percentDelta b t)"
proof -
  from assms(3) obtain bs ts where load: "loadComparisonRuns cw baselinePaths = Inr bs" "loadComparisonRuns cw treatmentPaths = Inr ts"
    by (auto simp: CompareBenchmarkFiles_def split: if_splits sum.splits)
  have p95: "ca_TTFTP95MS (summarizeComparisonArm runs) = percentile (pooledTTFT runs) 95"
    if "loadComparisonRuns cw paths = Inr runs" for paths runs
    using load_runs_mem [OF that] assms(2) by (intro arm_p95) blast
  obtain low high where ci: "bootstrapP95DeltaCI (rand seed) (pooledTTFT bs) (pooledTTFT ts) (nat m) = (low, high)" by fastforce
  have m: "0 < nat m" "nat m \<le> 100000" and pos: "\<not> f_le (percentile (pooledTTFT bs) 95) (Fin 0)" "\<not> f_le (percentile (pooledTTFT ts) 95) (Fin 0)"
    and r: "cr_Baseline r = summarizeComparisonArm bs" "cr_Treatment r = summarizeComparisonArm ts"
      "cr_TTFTP95DeltaPercent r = percentDelta (percentile (pooledTTFT bs) 95) (percentile (pooledTTFT ts) 95)"
      "cr_BootstrapLowPercent r = low" "cr_BootstrapHighPercent r = high"
    using assms(3) load ci p95 [OF load(1)] p95 [OF load(2)] by (auto simp: CompareBenchmarkFiles_def Let_def split: if_splits)
  have ne: "pooledTTFT bs \<noteq> []" "pooledTTFT ts \<noteq> []" using pos by (auto simp: percentile_def f_le_def)
  have "low \<le> high \<and> (\<exists>b \<in> set (pooledTTFT bs). \<exists>t \<in> set (pooledTTFT ts). low = percentDelta b t)
      \<and> (\<exists>b \<in> set (pooledTTFT bs). \<exists>t \<in> set (pooledTTFT ts). high = percentDelta b t)"
    using assms(1) by (intro bootstrap_interval [OF _ ne m ci])
  then show ?thesis using load arm_counts unfolding r by blast
qed

definition wit_compare :: compare_world where
  "wit_compare = \<lparr>cw_file = (\<lambda>path. Some path), cw_readFails = (\<lambda>_. False), cw_closes = (\<lambda>_. True), cw_recordType = (\<lambda>_. Some ''request''),
     cw_attempt = (\<lambda>_. Some (wit_attempt ''a'' 0 0)), cw_report = (\<lambda>_. None)\<rparr>"

lemma wit_compare_run: "loadComparisonRuns wit_compare [''x''] = Inr [[wit_attempt ''a'' 0 0]]"
proof -
  have "scan_lines maxComparisonJSONLLineBytes ''x'' = ([''x''], False)"
    by (simp add: scan_lines_def scan_pieces_def drop_cr_def maxComparisonJSONLLineBytes_def Let_def)
  then show ?thesis by (simp add: loadComparisonRuns_def load_run_def wit_compare_def)
qed

theorem comparison_sound_witness:
  "\<exists>r. CompareBenchmarkFiles wit_compare (\<lambda>seed k n. 0) [''x''] [''x''] 100 7 = Inr r
     \<and> ca_Succeeded (cr_Baseline r) + ca_Failed (cr_Baseline r) = 1 \<and> cr_BootstrapLowPercent r \<le> cr_BootstrapHighPercent r"
proof -
  have "ca_TTFTP95MS (summarizeComparisonArm [[wit_attempt ''a'' 0 0]]) = Fin 3"
    by (subst arm_p95) (simp_all add: wit_attempt_def pooledTTFT_def percentile_def)
  then obtain r where r: "CompareBenchmarkFiles wit_compare (\<lambda>seed k n. 0) [''x''] [''x''] 100 7 = Inr r"
    by (cases "bootstrapP95DeltaCI ((\<lambda>seed k n. 0) (7 :: int)) (pooledTTFT [[wit_attempt ''a'' 0 0]]) (pooledTTFT [[wit_attempt ''a'' 0 0]]) 100")
      (simp add: CompareBenchmarkFiles_def wit_compare_run f_le_def Let_def)
  have "at_TTFTMS a \<noteq> NaN" if "cw_attempt wit_compare l = Some a" for l a using that by (auto simp: wit_compare_def wit_attempt_def)
  with comparison_sound [where rand = "\<lambda>seed k n. 0" and cw = wit_compare, OF _ _ r] r wit_compare_run show ?thesis by auto
qed

subsection \<open>Gateway evidence of invalid windows\<close>

definition valid_evidence :: "BenchmarkReport \<Rightarrow> bool" where
  "valid_evidence r \<longleftrightarrow> (case rp_GatewayMetrics r of None \<Rightarrow> False | Some w \<Rightarrow> gw_Valid w)"

lemma add_report_run: "add_report r (arm\<lparr>ga_Runs := n\<rparr>) = (add_report r arm)\<lparr>ga_Runs := n\<rparr>"
  by (simp add: add_report_def arm_add_window_def split: option.split)

lemma add_report_runs: "fold add_report rs (arm\<lparr>ga_Runs := n\<rparr>) = (fold add_report rs arm)\<lparr>ga_Runs := n\<rparr>"
  by (induction rs arbitrary: arm) (simp_all add: add_report_run)

lemma add_report_filter: "fold add_report (filter valid_evidence rs) arm = fold add_report rs arm"
  by (induction rs arbitrary: arm) (auto simp: valid_evidence_def add_report_def split: option.splits)

lemma add_report_count: "ga_ValidRuns (fold add_report rs arm) = ga_ValidRuns arm + int (length (filter valid_evidence rs))"
  by (induction rs arbitrary: arm) (auto simp: valid_evidence_def add_report_def arm_add_window_def split: option.splits)

text \<open>
  Reports without a valid window are counted as runs and change nothing else: the averages are those of
  the reports with a valid window alone.
\<close>

theorem invalid_windows_ignored:
  "summarizeGatewayReports reports =
     (summarizeGatewayReports (filter valid_evidence reports))\<lparr>ga_Runs := int (length reports)\<rparr>
   \<and> ga_ValidRuns (summarizeGatewayReports reports) = int (length (filter valid_evidence reports))"
proof -
  define z where "z = \<lparr>ga_Runs = int (length (filter valid_evidence reports)), ga_ValidRuns = 0, ga_AcceptedRateQPS = Fin 0,
    ga_CompletedRateQPS = Fin 0, ga_RejectionRateQPS = Fin 0, ga_AverageInflight = Fin 0, ga_LittleLawWaitMS = Fin 0\<rparr>"
  have z: "\<lparr>ga_Runs = int (length reports), ga_ValidRuns = 0, ga_AcceptedRateQPS = Fin 0, ga_CompletedRateQPS = Fin 0,
      ga_RejectionRateQPS = Fin 0, ga_AverageInflight = Fin 0, ga_LittleLawWaitMS = Fin 0\<rparr> = z\<lparr>ga_Runs := int (length reports)\<rparr>"
    by (simp add: z_def)
  have v: "ga_ValidRuns z = 0" by (simp add: z_def)
  show ?thesis unfolding summarizeGatewayReports_def z z_def [symmetric] add_report_filter add_report_runs
    by (simp add: Let_def add_report_count v)
qed

end
