(* ===== verification/Go_Bufio.thy ===== *)
theory Go_Bufio
  imports Go_Prelude "HOL-Library.Sublist"
begin

text \<open>
  \<open>bufio.Writer\<close> of the Go library over an \<open>os.File\<close>, as far as the benchmark uses it: the buffer, the sticky
  error, and the bytes that have reached the file. What the file does is an argument: for every call of its
  \<open>Write\<close>, either success or the number of bytes written before it fails.
\<close>

record bufio_Writer =
  bw_buf :: string
  bw_err :: bool
  bw_file :: string
  bw_calls :: nat

type_synonym file_faults = "nat \<Rightarrow> nat option"

definition bufio_size :: nat where
  \<comment> \<open>\<open>defaultBufSize\<close>\<close>
  "bufio_size = 4096"

definition bufio_NewWriter :: bufio_Writer where
  "bufio_NewWriter = \<lparr>bw_buf = [], bw_err = False, bw_file = [], bw_calls = 0\<rparr>"

definition file_Write :: "file_faults \<Rightarrow> string \<Rightarrow> bufio_Writer \<Rightarrow> nat \<times> bufio_Writer" where
  \<comment> \<open>the number of bytes written; fewer than all of them only with an error\<close>
  "file_Write faults p b =
     (let n = (case faults (bw_calls b) of None \<Rightarrow> length p | Some m \<Rightarrow> min m (length p))
      in (n, b\<lparr>bw_file := bw_file b @ take n p, bw_calls := bw_calls b + 1, bw_err := (faults (bw_calls b) \<noteq> None)\<rparr>))"

definition bufio_Flush :: "file_faults \<Rightarrow> bufio_Writer \<Rightarrow> bufio_Writer" where
  "bufio_Flush faults b =
     (if bw_err b \<or> bw_buf b = [] then b
      else let (n, b1) = file_Write faults (bw_buf b) b in b1\<lparr>bw_buf := drop n (bw_buf b)\<rparr>)"

lemma Flush_done: "bw_err (bufio_Flush faults b) \<or> bw_buf (bufio_Flush faults b) = []"
  by (auto simp: bufio_Flush_def file_Write_def Let_def split: option.splits)

function bufio_Write :: "file_faults \<Rightarrow> string \<Rightarrow> bufio_Writer \<Rightarrow> bufio_Writer \<times> bool" where
  \<comment> \<open>the boolean is \<open>err == nil\<close>\<close>
  "bufio_Write faults p b =
     (let available = bufio_size - length (bw_buf b) in
      if length p > available \<and> \<not> bw_err b
      then if bw_buf b = []
           then let (n, b1) = file_Write faults p b in bufio_Write faults (drop n p) b1
           else bufio_Write faults (drop available p) (bufio_Flush faults (b\<lparr>bw_buf := bw_buf b @ take available p\<rparr>))
      else if bw_err b then (b, False)
      else (b\<lparr>bw_buf := bw_buf b @ p\<rparr>, True))"
  by pat_completeness auto
termination
proof (relation "measure (\<lambda>(faults, p, b). if bw_err b then 0 else 2 * length p + (if bw_buf b = [] then 1 else 2))", goal_cases)
  case (2 faults p b available w n b1)
  then show ?case by (auto simp: file_Write_def Let_def split: option.splits)
next
  case (3 faults p b available)
  then show ?case using Flush_done [of faults "b\<lparr>bw_buf := bw_buf b @ take available p\<rparr>"] by auto
qed simp

declare bufio_Write.simps [simp del]

subsection \<open>What the file holds\<close>

definition bufio_bytes :: "bufio_Writer \<Rightarrow> string" where
  \<comment> \<open>the bytes in the file and, after them, those in the buffer\<close>
  "bufio_bytes b = bw_file b @ bw_buf b"

lemma Flush_bytes [simp]: "bufio_bytes (bufio_Flush faults b) = bufio_bytes b"
  by (auto simp: bufio_Flush_def file_Write_def bufio_bytes_def Let_def split: option.splits)

lemma Flush_file: "\<not> bw_err (bufio_Flush faults b) \<Longrightarrow> bw_file (bufio_Flush faults b) = bufio_bytes b"
  using Flush_bytes [of faults b] Flush_done [of faults b] by (simp add: bufio_bytes_def)

text \<open>A successful \<open>Write\<close> appends its bytes; a failed one appends a part of them, and the error stays.\<close>

lemma Write_bytes:
  assumes "bufio_Write faults p b = (b', ok)"
  shows "ok \<longleftrightarrow> \<not> bw_err b'" and "bw_err b \<Longrightarrow> b' = b" and "ok \<Longrightarrow> bufio_bytes b' = bufio_bytes b @ p"
    and "prefix (bufio_bytes b) (bufio_bytes b')"
proof -
  have "(ok \<longleftrightarrow> \<not> bw_err b') \<and> (bw_err b \<longrightarrow> b' = b) \<and> (ok \<longrightarrow> bufio_bytes b' = bufio_bytes b @ p) \<and> prefix (bufio_bytes b) (bufio_bytes b')"
    using assms
  proof (induction faults p b arbitrary: b' ok rule: bufio_Write.induct)
    case (1 faults p b)
    let ?a = "bufio_size - length (bw_buf b)"
    consider (direct) "length p > ?a" "\<not> bw_err b" "bw_buf b = []" | (fill) "length p > ?a" "\<not> bw_err b" "bw_buf b \<noteq> []"
      | (bad) "bw_err b" | (copy) "\<not> length p > ?a" "\<not> bw_err b" by blast
    then show ?case
    proof cases
      case direct
      obtain n b1 where f: "file_Write faults p b = (n, b1)" by fastforce
      have b1: "bufio_bytes b1 = bufio_bytes b @ take n p"
        using f direct by (auto simp: file_Write_def bufio_bytes_def Let_def)
      have "bufio_Write faults (drop n p) b1 = (b', ok)" using "1.prems" direct f by (simp add: bufio_Write.simps [of faults p b])
      with "1.IH"(1) [OF refl _ direct(3) f [symmetric] refl] direct b1 show ?thesis
        by (metis append_assoc append_take_drop_id prefixI prefix_order.trans)
    next
      case fill
      let ?b = "bufio_Flush faults (b\<lparr>bw_buf := bw_buf b @ take ?a p\<rparr>)"
      have b: "bufio_bytes ?b = bufio_bytes b @ take ?a p" by (simp add: bufio_bytes_def [of "b\<lparr>bw_buf := x\<rparr>" for x]) (simp add: bufio_bytes_def)
      have "bufio_Write faults (drop ?a p) ?b = (b', ok)" using "1.prems" fill by (simp add: bufio_Write.simps [of faults p b] Let_def)
      with "1.IH"(2) [OF refl _ fill(3)] fill b show ?thesis
        by (metis append_assoc append_take_drop_id prefixI prefix_order.trans)
    qed (use "1.prems" in \<open>auto simp: bufio_Write.simps [of faults p b] bufio_bytes_def\<close>)
  qed
  then show "ok \<longleftrightarrow> \<not> bw_err b'" and "bw_err b \<Longrightarrow> b' = b" and "ok \<Longrightarrow> bufio_bytes b' = bufio_bytes b @ p"
    and "prefix (bufio_bytes b) (bufio_bytes b')" by blast+
qed

lemma file_Write_total: "faults (bw_calls b) = None \<Longrightarrow> \<not> bw_err (snd (file_Write faults p b))"
  by (simp add: file_Write_def Let_def)

lemma Flush_total: "(\<And>n. faults n = None) \<Longrightarrow> \<not> bw_err b \<Longrightarrow> \<not> bw_err (bufio_Flush faults b)"
  using file_Write_total by (auto simp: bufio_Flush_def split_beta Let_def)

lemma Write_total: "\<forall>n. faults n = None \<Longrightarrow> \<not> bw_err b \<Longrightarrow> snd (bufio_Write faults p b)"
proof (induction faults p b rule: bufio_Write.induct)
  case (1 faults p b)
  let ?a = "bufio_size - length (bw_buf b)"
  let ?f = "bufio_Flush faults (b\<lparr>bw_buf := bw_buf b @ take ?a p\<rparr>)"
  obtain n b1 where f: "file_Write faults p b = (n, b1)" by fastforce
  have sound: "\<not> bw_err b1" "\<not> bw_err ?f"
    using "1.prems" f file_Write_total [of faults b p] Flush_total [of faults "b\<lparr>bw_buf := bw_buf b @ take ?a p\<rparr>"] by auto
  consider (direct) "length p > ?a" "bw_buf b = []" | (fill) "length p > ?a" "bw_buf b \<noteq> []" | (copy) "\<not> length p > ?a" by blast
  then show ?case
  proof cases
    case direct
    have "bufio_Write faults p b = bufio_Write faults (drop n p) b1"
      using direct "1.prems"(2) f by (simp add: bufio_Write.simps [of faults p b])
    moreover have "length p > ?a \<and> \<not> bw_err b" using direct "1.prems"(2) by blast
    ultimately show ?thesis using "1.IH"(1) [OF refl _ direct(2) f [symmetric] refl "1.prems"(1) sound(1)] by metis
  next
    case fill
    have "bufio_Write faults p b = bufio_Write faults (drop ?a p) ?f"
      using fill "1.prems"(2) by (simp add: bufio_Write.simps [of faults p b] Let_def)
    moreover have "length p > ?a \<and> \<not> bw_err b" using fill "1.prems"(2) by blast
    ultimately show ?thesis using "1.IH"(2) [OF refl _ fill(2) "1.prems"(1) sound(2)] by metis
  next
    case copy
    then show ?thesis using "1.prems"(2) by (simp add: bufio_Write.simps [of faults p b])
  qed
qed

end
