(* ===== verification/Bench_Run.thy ===== *)
theory Bench_Run
  imports Bench_Report Go_Bufio
begin

text \<open>
  \<open>internal/workload/client/bench_impl.go\<close>, the execution of a plan. What the outside does is a record:
  the answer to each request, identified by its scenario, kind, batch and position; the order in which the
  concurrent requests of a batch finish; the reads of the metrics endpoint during each batch; the text
  \<open>json.Marshal\<close> gives for a record; the faults of the output file; and the waits that the caller's context
  cuts short. The records go through the \<open>bufio.Writer\<close> of \<open>Go_Bufio\<close>: the file has only what was flushed.
\<close>

record exchange =
  ex_world :: send_world
  ex_startedAt :: time
  ex_completedAt :: time

datatype jsonl = MetadataLine string BenchmarkPlan | AttemptLine BenchmarkAttempt | ReportLine BenchmarkReport

record run_world =
  rw_perm :: "int \<Rightarrow> nat \<Rightarrow> nat list"
  rw_exchange :: "string \<Rightarrow> string \<Rightarrow> int \<Rightarrow> int \<Rightarrow> exchange" \<comment> \<open>by scenario, record type, batch and request\<close>
  rw_finish :: "string \<Rightarrow> int \<Rightarrow> BenchmarkAttempt list \<Rightarrow> BenchmarkAttempt list" \<comment> \<open>the order of the results channel\<close>
  rw_reader :: "(string \<Rightarrow> int \<Rightarrow> segment_reads) option"
  rw_marshal :: "jsonl \<Rightarrow> string option" \<comment> \<open>\<open>json.Marshal\<close>\<close>
  rw_file :: file_faults
  rw_arrivals :: "string \<Rightarrow> int \<Rightarrow> nat" \<comment> \<open>further arrivals of a paced batch before the context ends\<close>
  rw_canceled :: "string \<Rightarrow> int \<Rightarrow> bool" \<comment> \<open>the context ends in the pause after the batch\<close>
  rw_noOutput :: bool
  rw_stamp :: string
  rw_startedAt :: time
  rw_completedAt :: time

datatype run_error =
    ErrRunPlan plan_error | ErrNilOutput | ErrEncodeLine | ErrWriteLine | ErrFlushOutput | ErrRunCanceled
  | ErrWarmup string int | ErrWarmupBackend string int | ErrWarmupMoved string string
  | ErrLadder string int int | ErrTokenEvidence int int

subsection \<open>One request\<close>

definition runBenchmarkRequest :: "run_world \<Rightarrow> BenchmarkPlan \<Rightarrow> BenchmarkScenario \<Rightarrow> int \<Rightarrow> int \<Rightarrow> int \<Rightarrow> string \<Rightarrow> BenchmarkAttempt" where
  "runBenchmarkRequest rw p s batch request inputSequence recordType =
     (let (messages, grp) = benchmarkMessagesForScenario s inputSequence (wrap64 (bs_Batches s * bs_BatchSize s));
          (cacheSalt, cacheScope) = benchmarkCacheSalt p s batch inputSequence grp;
          ex = rw_exchange rw (bs_Name s) recordType batch request;
          (result, err) = client_Send (ex_world ex) \<lparr>crq_Messages = messages, crq_SessionKey = [], crq_CacheSalt = cacheSalt,
            crq_IgnoreEOS = bp_IgnoreEOS p, crq_MaxTokens = bp_MaxTokens p\<rparr>
      in \<lparr>at_RecordType = recordType, at_RunID = bp_RunID p, at_Scenario = bs_Name s, at_Pattern = bs_Pattern s,
          at_Batch = batch, at_Request = request, at_InputSequence = inputSequence, at_PrefixBytes = bs_PrefixBytes s,
          at_PromptBytes = promptBytes messages, at_TargetPromptTokens = bs_TargetPromptTokens s,
          at_PromptTokenTolerance = bs_PromptTokenTolerance s,
          at_PromptTokenDelta = (if dh_PromptTokens (crs_Headers result) > 0 \<and> bs_TargetPromptTokens s > 0
            then wrap64 (dh_PromptTokens (crs_Headers result) - bs_TargetPromptTokens s) else 0),
          at_PrefixGroup = grp, at_CacheMode = bp_CacheMode p, at_CacheScope = cacheScope, at_CacheGeneration = bp_CacheGeneration p,
          at_StartedAt = ex_startedAt ex, at_CompletedAt = ex_completedAt ex, at_StatusCode = crs_StatusCode result,
          at_Headers = crs_Headers result, at_TTFTMS = durationMS (crs_TTFT result), at_DurationMS = durationMS (crs_Duration result),
          at_CachedSample = crs_HasCachedPrefixSample result, at_Error = map_option SendFailed err\<rparr>)"

subsection \<open>One batch\<close>

definition batch_jobs :: "run_world \<Rightarrow> BenchmarkScenario \<Rightarrow> int \<Rightarrow> int list" where
  \<comment> \<open>the requests handed out: all of them, or, when arrivals are paced, those before the context ends\<close>
  "batch_jobs rw s batch =
     (let n = nat (bs_BatchSize s);
          sent = (if f_lt (Fin 0) (bs_ArrivalRateQPS s) then min n (rw_arrivals rw (bs_Name s) batch + 1) else n)
      in map (\<lambda>r. wrap64 (batch * bs_BatchSize s + int r)) [0..<sent])"

definition runBenchmarkBatch :: "run_world \<Rightarrow> BenchmarkPlan \<Rightarrow> BenchmarkScenario \<Rightarrow> int \<Rightarrow> BenchmarkAttempt list" where
  "runBenchmarkBatch rw p s batch =
     (let inputOrder = benchmarkRequestOrder (rw_perm rw) p s
      in sort_key at_Request (rw_finish rw (bs_Name s) batch
           (map (\<lambda>r. runBenchmarkRequest rw p s batch r (int (inputOrder ! nat r)) ''request'') (batch_jobs rw s batch))))"

subsection \<open>One turn of the conversations\<close>

definition runConversationLadderRequest :: "run_world \<Rightarrow> BenchmarkPlan \<Rightarrow> BenchmarkScenario \<Rightarrow> int \<Rightarrow> int \<Rightarrow> Message list \<Rightarrow>
    BenchmarkAttempt \<times> client_Result" where
  "runConversationLadderRequest rw p s turn user messages =
     (let grp = ''conversation-user-'' @ dec_int user;
          (cacheSalt, cacheScope) = benchmarkCacheSalt p s turn user grp;
          request = wrap64 (turn * bs_BatchSize s + user);
          ex = rw_exchange rw (bs_Name s) ''request'' turn request;
          (result, err) = client_Send (ex_world ex) \<lparr>crq_Messages = messages, crq_SessionKey = [], crq_CacheSalt = cacheSalt,
            crq_IgnoreEOS = bp_IgnoreEOS p, crq_MaxTokens = bp_MaxTokens p\<rparr>
      in (\<lparr>at_RecordType = ''request'', at_RunID = bp_RunID p, at_Scenario = bs_Name s, at_Pattern = bs_Pattern s,
          at_Batch = turn, at_Request = request, at_InputSequence = user, at_PrefixBytes = bs_PrefixBytes s,
          at_PromptBytes = promptBytes messages, at_TargetPromptTokens = 0, at_PromptTokenTolerance = 0, at_PromptTokenDelta = 0,
          at_PrefixGroup = grp, at_CacheMode = bp_CacheMode p, at_CacheScope = cacheScope, at_CacheGeneration = bp_CacheGeneration p,
          at_StartedAt = ex_startedAt ex, at_CompletedAt = ex_completedAt ex, at_StatusCode = crs_StatusCode result,
          at_Headers = crs_Headers result, at_TTFTMS = durationMS (crs_TTFT result), at_DurationMS = durationMS (crs_Duration result),
          at_CachedSample = crs_HasCachedPrefixSample result, at_Error = map_option SendFailed err\<rparr>, result))"

definition ladder_user :: "run_world \<Rightarrow> BenchmarkPlan \<Rightarrow> BenchmarkScenario \<Rightarrow> int \<Rightarrow> Message list list \<Rightarrow> nat \<Rightarrow>
    BenchmarkAttempt \<times> Message list" where
  \<comment> \<open>what a worker does for one user: the attempt and the next history\<close>
  "ladder_user rw p s turn histories user =
     (let messages = histories ! user @ [\<lparr>msg_Role = RoleUser, msg_Content = generatedConversationTurn s (int user) turn\<rparr>];
          (attempt, result) = runConversationLadderRequest rw p s turn (int user) messages
      in if at_Error attempt = None
         then (if TrimSpace (crs_Text result) = [] then attempt\<lparr>at_Error := Some NoAssistantText\<rparr> else attempt,
               messages @ [\<lparr>msg_Role = RoleAssistant, msg_Content = crs_Text result\<rparr>])
         else (attempt, messages))"

definition runConversationLadderBatch :: "run_world \<Rightarrow> BenchmarkPlan \<Rightarrow> BenchmarkScenario \<Rightarrow> int \<Rightarrow> Message list list \<Rightarrow>
    BenchmarkAttempt list \<times> Message list list" where
  "runConversationLadderBatch rw p s turn histories =
     (let results = map (ladder_user rw p s turn histories) [0..<nat (bs_BatchSize s)]
      in (sort_key at_InputSequence (rw_finish rw (bs_Name s) turn (map fst results)), map snd results))"

subsection \<open>The run\<close>

record run_state =
  rn_writer :: bufio_Writer
  rn_output :: "jsonl list" \<comment> \<open>the records the writer took without an error\<close>
  rn_attempts :: "BenchmarkAttempt list"
  rn_windows :: "GatewayMetricsWindow list"
  rn_byBatch :: "(string, (int, GatewayMetricsWindow) gomap) gomap"

definition writeJSONL :: "run_world \<Rightarrow> jsonl \<Rightarrow> run_state \<Rightarrow> run_state \<times> run_error option" where
  "writeJSONL rw l st =
     (case rw_marshal rw l of
        None \<Rightarrow> (st, Some ErrEncodeLine)
      | Some body \<Rightarrow>
          (case bufio_Write (rw_file rw) (body @ [CHR 0x0A]) (rn_writer st) of
             (w, True) \<Rightarrow> (st\<lparr>rn_writer := w, rn_output := rn_output st @ [l]\<rparr>, None)
           | (w, False) \<Rightarrow> (st\<lparr>rn_writer := w\<rparr>, Some ErrWriteLine)))"

fun write_attempts :: "run_world \<Rightarrow> (BenchmarkAttempt \<Rightarrow> run_error option) \<Rightarrow> BenchmarkAttempt list \<Rightarrow> run_state \<Rightarrow> run_state \<times> run_error option" where
  \<comment> \<open>\<open>stops\<close> is the error an attempt ends the loop with: the ladder stops at the first failed attempt\<close>
  "write_attempts rw stops [] st = (st, None)"
| "write_attempts rw stops (a # as) st =
     (case writeJSONL rw (AttemptLine a) st of
        (st1, Some e) \<Rightarrow> (st1, Some e)
      | (st1, None) \<Rightarrow>
          let st2 = st1\<lparr>rn_attempts := rn_attempts st1 @ [a]\<rparr>
          in case stops a of Some e \<Rightarrow> (st2, Some e) | None \<Rightarrow> write_attempts rw stops as st2)"

definition stopMetrics :: "run_world \<Rightarrow> string \<Rightarrow> int \<Rightarrow> run_state \<Rightarrow> run_state" where
  "stopMetrics rw activeScenario activeBatch st =
     (case rw_reader rw of
        None \<Rightarrow> st
      | Some reads \<Rightarrow>
          let window = metrics_segment (reads activeScenario activeBatch)
          in st\<lparr>rn_windows := rn_windows st @ [window],
                rn_byBatch := (if activeScenario \<noteq> []
                  then AList.update activeScenario (AList.update activeBatch window (mget [] (rn_byBatch st) activeScenario)) (rn_byBatch st)
                  else rn_byBatch st)\<rparr>)"

fun warmup_loop :: "run_world \<Rightarrow> BenchmarkPlan \<Rightarrow> BenchmarkScenario \<Rightarrow> nat list \<Rightarrow> (string, string) gomap \<Rightarrow> run_state \<Rightarrow>
    run_state \<times> run_error option" where
  "warmup_loop rw p s [] backends st = (st, None)"
| "warmup_loop rw p s (w # ws) backends st =
     (let a = runBenchmarkRequest rw p s (- 1) (int w) (int w) ''warmup'';
          backendID = dh_BackendID (at_Headers a);
          previous = mget [] backends (at_PrefixGroup a)
      in case writeJSONL rw (AttemptLine a) st of
           (st1, Some e) \<Rightarrow> (st1, Some e)
         | (st1, None) \<Rightarrow>
             if at_Error a \<noteq> None then (st1, Some (ErrWarmup (bs_Name s) (int w)))
             else if bp_CacheMode p = CacheControlledWarm
             then if backendID = [] then (st1, Some (ErrWarmupBackend (bs_Name s) (int w)))
                  else if previous \<noteq> [] \<and> previous \<noteq> backendID then (st1, Some (ErrWarmupMoved (bs_Name s) (at_PrefixGroup a)))
                  else warmup_loop rw p s ws (AList.update (at_PrefixGroup a) backendID backends) st1
             else warmup_loop rw p s ws backends st1)"

definition waitBetweenBatches :: "run_world \<Rightarrow> BenchmarkScenario \<Rightarrow> nat \<Rightarrow> run_error option" where
  "waitBetweenBatches rw s batch =
     (if int batch + 1 < bs_Batches s \<and> rw_canceled rw (bs_Name s) (int batch) then Some ErrRunCanceled else None)"

fun batch_loop :: "run_world \<Rightarrow> BenchmarkPlan \<Rightarrow> BenchmarkScenario \<Rightarrow> nat list \<Rightarrow> run_state \<Rightarrow> run_state \<times> run_error option" where
  "batch_loop rw p s [] st = (st, None)"
| "batch_loop rw p s (b # bs) st =
     (let (st1, err) = write_attempts rw (\<lambda>_. None) (runBenchmarkBatch rw p s (int b)) st;
          st2 = stopMetrics rw (bs_Name s) (int b) st1
      in case err of
           Some e \<Rightarrow> (st2, Some e)
         | None \<Rightarrow> (case waitBetweenBatches rw s b of Some e \<Rightarrow> (st2, Some e) | None \<Rightarrow> batch_loop rw p s bs st2))"

definition ladder_stops :: "BenchmarkScenario \<Rightarrow> int \<Rightarrow> BenchmarkAttempt \<Rightarrow> run_error option" where
  "ladder_stops s turn a = (if at_Error a \<noteq> None then Some (ErrLadder (bs_Name s) turn (at_InputSequence a)) else None)"

fun ladder_loop :: "run_world \<Rightarrow> BenchmarkPlan \<Rightarrow> BenchmarkScenario \<Rightarrow> nat list \<Rightarrow> Message list list \<Rightarrow> run_state \<Rightarrow> run_state \<times> run_error option" where
  "ladder_loop rw p s [] histories st = (st, None)"
| "ladder_loop rw p s (t # ts) histories st =
     (let (batchAttempts, nextHistories) = runConversationLadderBatch rw p s (int t) histories;
          (st1, err) = write_attempts rw (ladder_stops s (int t)) batchAttempts st;
          st2 = stopMetrics rw (bs_Name s) (int t) st1
      in case err of
           Some e \<Rightarrow> (st2, Some e)
         | None \<Rightarrow> (case waitBetweenBatches rw s t of Some e \<Rightarrow> (st2, Some e) | None \<Rightarrow> ladder_loop rw p s ts nextHistories st2))"

definition runConversationLadder :: "run_world \<Rightarrow> BenchmarkPlan \<Rightarrow> BenchmarkScenario \<Rightarrow> run_state \<Rightarrow> run_state \<times> run_error option" where
  "runConversationLadder rw p s =
     ladder_loop rw p s [0..<nat (bs_Batches s)]
       (replicate (nat (bs_BatchSize s)) [\<lparr>msg_Role = RoleSystem, msg_Content = generatedPrefix s ''conversation-shared''\<rparr>])"

definition run_scenario :: "run_world \<Rightarrow> BenchmarkPlan \<Rightarrow> string \<Rightarrow> run_state \<Rightarrow> run_state \<times> run_error option" where
  "run_scenario rw p name st =
     (let s = benchmarkScenarioByName (bp_Scenarios p) name in
      if bs_ConversationTurnBytes s > 0 then runConversationLadder rw p s st
      else case warmup_loop rw p s [0..<nat (bs_WarmupRequests s)] [] st of
        (st1, Some e) \<Rightarrow> (st1, Some e)
      | (st1, None) \<Rightarrow> batch_loop rw p s [0..<nat (bs_Batches s)] st1)"

fun run_scenarios :: "run_world \<Rightarrow> BenchmarkPlan \<Rightarrow> string list \<Rightarrow> run_state \<Rightarrow> run_state \<times> run_error option" where
  "run_scenarios rw p [] st = (st, None)"
| "run_scenarios rw p (n # ns) st =
     (case run_scenario rw p n st of (st1, Some e) \<Rightarrow> (st1, Some e) | (st1, None) \<Rightarrow> run_scenarios rw p ns st1)"

definition benchmarkTokenEvidenceError :: "BenchmarkAttempt list \<Rightarrow> run_error option" where
  "benchmarkTokenEvidenceError attempts =
     (let targeted = filter (\<lambda>a. at_TargetPromptTokens a \<noteq> 0) attempts;
          missing = length (filter (\<lambda>a. dh_PromptTokens (at_Headers a) = 0) targeted);
          violations = length (filter (\<lambda>a. dh_PromptTokens (at_Headers a) \<noteq> 0
            \<and> absoluteInt (at_PromptTokenDelta a) > at_PromptTokenTolerance a) targeted)
      in if missing > 0 \<or> violations > 0 then Some (ErrTokenEvidence (int missing) (int violations)) else None)"

definition finishBenchmarkReport :: "run_world \<Rightarrow> BenchmarkReport \<Rightarrow> run_error option \<Rightarrow> run_state \<Rightarrow>
    run_state \<times> BenchmarkReport \<times> run_error option" where
  "finishBenchmarkReport rw report runErr st =
     (let r = applyGatewayMetricsToReport (rn_byBatch st)
            (finalizeBenchmarkReport (rn_attempts st) (report\<lparr>rp_CompletedAt := rw_completedAt rw\<rparr>))
      in case writeJSONL rw (ReportLine r) st of
           (st1, Some e) \<Rightarrow> (st1, r, Some e)
         | (st1, None) \<Rightarrow>
             let w = bufio_Flush (rw_file rw) (rn_writer st1)
             in (st1\<lparr>rn_writer := w\<rparr>, r, if bw_err w then Some ErrFlushOutput else runErr))"

definition run_finish :: "run_world \<Rightarrow> BenchmarkReport \<Rightarrow> run_error option \<Rightarrow> run_state \<Rightarrow> run_state \<times> BenchmarkReport \<times> run_error option" where
  "run_finish rw report runErr st =
     finishBenchmarkReport rw
       (if rw_reader rw = None then report
        else report\<lparr>rp_GatewayMetrics := Some ((combineGatewayMetricsWindows (rn_windows st))
          \<lparr>gw_WarmupRequests := benchmarkWarmupRequests (rp_Plan report), gw_WarmupExcluded := True\<rparr>)\<rparr>) runErr st"

definition start_state :: run_state where
  "start_state = \<lparr>rn_writer = bufio_NewWriter, rn_output = [], rn_attempts = [], rn_windows = [], rn_byBatch = []\<rparr>"

definition first_state :: "run_world \<Rightarrow> BenchmarkPlan \<Rightarrow> run_state \<times> run_error option" where
  "first_state rw p = writeJSONL rw (MetadataLine (bp_RunID p) p) start_state"

type_synonym run_output = "string \<times> jsonl list" \<comment> \<open>the bytes of the file and the records the writer took\<close>

definition output_of :: "run_state \<Rightarrow> run_output" where
  "output_of st = (bw_file (rn_writer st), rn_output st)"

definition run_prepared :: "run_world \<Rightarrow> BenchmarkPlan \<Rightarrow> run_output \<times> BenchmarkReport \<times> run_error option" where
  \<comment> \<open>the part of \<open>runPlan\<close> after the plan is prepared and named\<close>
  "run_prepared rw p =
     (let report = zero_Report\<lparr>rp_RecordType := ''report'', rp_RunID := bp_RunID p, rp_StartedAt := rw_startedAt rw, rp_Plan := p\<rparr>
      in case first_state rw p of
           (st0, Some e) \<Rightarrow> (output_of st0, report, Some e)
         | (st0, None) \<Rightarrow>
             let (st, runErr) = run_scenarios rw p (bp_ExecutionOrder p) st0;
                 (st', r, e) = run_finish rw report
                   (if runErr \<noteq> None then runErr else if bp_SkipPromptTokenEvidence p then None
                    else benchmarkTokenEvidenceError (rn_attempts st)) st
             in (output_of st', r, e))"

definition runPlan :: "run_world \<Rightarrow> BenchmarkPlan \<Rightarrow> run_output \<times> BenchmarkReport \<times> run_error option" where
  "runPlan rw plan0 =
     (let (p, err) = PrepareBenchmarkPlan (rw_perm rw) plan0 in
      case err of
        Some e \<Rightarrow> (([], []), zero_Report, Some (ErrRunPlan e))
      | None \<Rightarrow>
          if rw_noOutput rw then (([], []), zero_Report, Some ErrNilOutput)
          else run_prepared rw (if bp_RunID p = [] then p\<lparr>bp_RunID := rw_stamp rw\<rparr> else p))"

subsection \<open>The completion order does not matter\<close>

lemma sort_key_distinct:
  assumes "mset xs = mset ys" and "sorted (map f ys)" and "distinct (map f ys)"
  shows "sort_key f xs = ys"
proof (rule properties_for_sort_key)
  fix y assume y: "y \<in> set ys"
  let ?P = "\<lambda>x. f y = f x"
  have one: "filter ?P ys = [y]" using y assms(3)
  proof (induction ys)
    case (Cons z zs)
    then show ?case by (cases "y = z") (auto simp: filter_empty_conv, metis imageI)
  qed simp
  then have "mset (filter ?P xs) = {#y#}" using assms(1) by (metis mset_filter mset_single_iff)
  then show "filter ?P ys = filter ?P xs" by (metis mset_single_iff one)
qed (use assms in simp_all)

lemma runBenchmarkRequest_fields [simp]:
  "at_Request (runBenchmarkRequest rw p s b r i k) = r" "at_RecordType (runBenchmarkRequest rw p s b r i k) = k"
  "at_Scenario (runBenchmarkRequest rw p s b r i k) = bs_Name s" "at_Batch (runBenchmarkRequest rw p s b r i k) = b"
  "at_InputSequence (runBenchmarkRequest rw p s b r i k) = i"
  by (simp_all add: runBenchmarkRequest_def Let_def split: prod.split)

text \<open>
  The records of a batch do not depend on the order in which the concurrent requests finish: they are
  those of the requests handed out, in the order of their positions.
\<close>

theorem batch_order_independent:
  assumes "\<And>n b xs. mset (rw_finish rw n b xs) = mset xs"
    and "0 \<le> batch" and "0 < bs_BatchSize s" and "(batch + 1) * bs_BatchSize s \<le> max_int64"
  shows "runBenchmarkBatch rw p s batch =
    map (\<lambda>r. runBenchmarkRequest rw p s batch r (int (benchmarkRequestOrder (rw_perm rw) p s ! nat r)) ''request'')
      (map (\<lambda>r. batch * bs_BatchSize s + int r) [0..<length (batch_jobs rw s batch)])"
proof -
  let ?n = "length (batch_jobs rw s batch)" and ?base = "batch * bs_BatchSize s"
  have n: "int ?n \<le> bs_BatchSize s" using assms(3) by (auto simp: batch_jobs_def Let_def)
  have "0 \<le> ?base" "?base + bs_BatchSize s \<le> max_int64" using assms(2-4) by (simp_all add: algebra_simps)
  then have "wrap64 (?base + int r) = ?base + int r" if "r < ?n" for r
    using that n by (intro wrap64_id) (auto simp: in_int64_def min_int64_def)
  then have jobs: "batch_jobs rw s batch = map (\<lambda>r. ?base + int r) [0..<?n]"
    unfolding batch_jobs_def Let_def by (simp add: batch_jobs_def Let_def)
  let ?g = "\<lambda>r. runBenchmarkRequest rw p s batch r (int (benchmarkRequestOrder (rw_perm rw) p s ! nat r)) ''request''"
  have keys: "map at_Request (map ?g rs) = rs" for rs by (simp add: comp_def)
  have "sorted (batch_jobs rw s batch)" "distinct (batch_jobs rw s batch)"
    by (subst jobs, simp add: sorted_iff_nth_mono, subst jobs, simp add: distinct_map inj_on_def)
  then have "sort_key at_Request (rw_finish rw (bs_Name s) batch (map ?g (batch_jobs rw s batch))) = map ?g (batch_jobs rw s batch)"
    using assms(1) by (intro sort_key_distinct) (simp_all only: keys)
  then show ?thesis unfolding runBenchmarkBatch_def Let_def by (simp only: jobs [symmetric])
qed

subsection \<open>The report matches the output\<close>

fun request_line :: "jsonl \<Rightarrow> BenchmarkAttempt list" where
  "request_line (AttemptLine a) = (if at_RecordType a = ''request'' then [a] else [])"
| "request_line _ = []"

definition request_lines :: "jsonl list \<Rightarrow> BenchmarkAttempt list" where
  "request_lines out = concat (map request_line out)"

lemma request_lines_simps [simp]: "request_lines [] = []" "request_lines (l # out) = request_line l @ request_lines out" "request_lines (out @ [l]) = request_lines out @ request_line l"
  by (simp_all add: request_lines_def)

definition run_ok :: "run_state \<Rightarrow> bool" where
  "run_ok st \<longleftrightarrow> rn_attempts st = request_lines (rn_output st)"

lemma run_ok_writer [simp]: "run_ok (st\<lparr>rn_writer := w\<rparr>) = run_ok st"
  by (simp add: run_ok_def)

lemma stopMetrics_keeps [simp]:
  "rn_attempts (stopMetrics rw n b st) = rn_attempts st" "rn_output (stopMetrics rw n b st) = rn_output st"
  "rn_writer (stopMetrics rw n b st) = rn_writer st"
  by (simp_all add: stopMetrics_def Let_def split: option.split)

lemma writeJSONL_cases:
  obtains (taken) w where "writeJSONL rw l st = (st\<lparr>rn_writer := w, rn_output := rn_output st @ [l]\<rparr>, None)"
  | (refused) w e where "writeJSONL rw l st = (st\<lparr>rn_writer := w\<rparr>, Some e)"
proof (cases "rw_marshal rw l")
  case None
  then show thesis using refused [of "rn_writer st" ErrEncodeLine] by (simp add: writeJSONL_def)
next
  case (Some body)
  obtain w ok where "bufio_Write (rw_file rw) (body @ [CHR 0x0A]) (rn_writer st) = (w, ok)" by fastforce
  then show thesis using Some taken [of w] refused [of w ErrWriteLine] by (cases ok) (simp_all add: writeJSONL_def)
qed

text \<open>
  What the writing of a record keeps, whatever is noted beside it, a whole run keeps.
\<close>

locale run_invariant =
  fixes rw :: run_world and I :: "run_state \<Rightarrow> bool"
  assumes keeps_write: "I st \<Longrightarrow> I (fst (writeJSONL rw l st))"
    and keeps_attempts: "I st \<Longrightarrow> I (st\<lparr>rn_attempts := as\<rparr>)"
    and keeps_windows: "I st \<Longrightarrow> I (st\<lparr>rn_windows := ws, rn_byBatch := m\<rparr>)"
begin

lemma keeps_stop: "I st \<Longrightarrow> I (stopMetrics rw n b st)"
  by (simp add: stopMetrics_def keeps_windows Let_def split: option.split)

lemma keeps_write_attempts: "I st \<Longrightarrow> I (fst (write_attempts rw stops as st))"
proof (induction as arbitrary: st)
  case (Cons a as)
  then show ?case using keeps_write [of st "AttemptLine a"]
    by (auto simp: split_beta Let_def keeps_attempts split: option.split)
qed simp

lemma keeps_warmup: "I st \<Longrightarrow> I (fst (warmup_loop rw p s ws bk st))"
proof (induction ws arbitrary: bk st)
  case (Cons w ws)
  then show ?case using keeps_write [of st "AttemptLine (runBenchmarkRequest rw p s (- 1) (int w) (int w) ''warmup'')"]
    by (auto simp: split_beta Let_def split: option.split)
qed simp

lemma keeps_batches: "I st \<Longrightarrow> I (fst (batch_loop rw p s bs st))"
proof (induction bs arbitrary: st)
  case (Cons b bs)
  then show ?case using keeps_stop [OF keeps_write_attempts [OF Cons.prems]] by (auto simp: split_beta Let_def split: option.split)
qed simp

lemma keeps_ladder: "I st \<Longrightarrow> I (fst (ladder_loop rw p s ts hs st))"
proof (induction ts arbitrary: hs st)
  case (Cons t ts)
  then show ?case using keeps_stop [OF keeps_write_attempts [OF Cons.prems]] by (auto simp: split_beta Let_def split: option.split)
qed simp

lemma keeps_scenario: "I st \<Longrightarrow> I (fst (run_scenario rw p name st))"
  using keeps_warmup keeps_batches keeps_ladder
  by (auto simp: run_scenario_def runConversationLadder_def Let_def split_beta split: option.split)

lemma keeps_scenarios: "I st \<Longrightarrow> I (fst (run_scenarios rw p ns st))"
proof (induction ns arbitrary: st)
  case (Cons n ns)
  then show ?case using keeps_scenario by (auto simp: split_beta split: option.split)
qed simp

end

lemma write_attempts_ok:
  assumes "run_ok st" and "list_all (\<lambda>a. at_RecordType a = ''request'') as"
  shows "run_ok (fst (write_attempts rw stops as st))"
  using assms
proof (induction as arbitrary: st)
  case (Cons a as)
  show ?case
  proof (cases rule: writeJSONL_cases [of rw "AttemptLine a" st])
    case (taken w)
    let ?st = "st\<lparr>rn_writer := w, rn_output := rn_output st @ [AttemptLine a], rn_attempts := rn_attempts st @ [a]\<rparr>"
    have "run_ok ?st" using Cons.prems by (simp add: run_ok_def)
    moreover from this have "run_ok (fst (write_attempts rw stops as ?st))" using Cons.prems by (intro Cons.IH) simp_all
    ultimately show ?thesis using taken by (simp add: Let_def split: option.split)
  qed (use Cons.prems in simp)
qed simp

lemma write_attempts_all: "snd (write_attempts rw stops as st) = None \<Longrightarrow> rn_attempts (fst (write_attempts rw stops as st)) = rn_attempts st @ as"
proof (induction as arbitrary: st)
  case (Cons a as)
  show ?case
  proof (cases rule: writeJSONL_cases [of rw "AttemptLine a" st])
    case (taken w)
    then show ?thesis using Cons by (auto simp: Let_def split: option.splits)
  qed (use Cons.prems in simp)
qed simp

lemma warmup_loop_ok: "run_ok st \<Longrightarrow> run_ok (fst (warmup_loop rw p s ws bk st)) \<and> rn_attempts (fst (warmup_loop rw p s ws bk st)) = rn_attempts st"
proof (induction ws arbitrary: bk st)
  case (Cons w ws)
  let ?a = "runBenchmarkRequest rw p s (- 1) (int w) (int w) ''warmup''"
  show ?case
  proof (cases rule: writeJSONL_cases [of rw "AttemptLine ?a" st])
    case (taken b)
    let ?st = "st\<lparr>rn_writer := b, rn_output := rn_output st @ [AttemptLine ?a]\<rparr>"
    have "run_ok ?st" using Cons.prems by (simp add: run_ok_def)
    then have "run_ok (fst (warmup_loop rw p s ws bk' ?st)) \<and> rn_attempts (fst (warmup_loop rw p s ws bk' ?st)) = rn_attempts st" for bk'
      using Cons.IH [of ?st bk'] by simp
    with \<open>run_ok ?st\<close> taken show ?thesis by (simp add: Let_def)
  qed (use Cons.prems in \<open>simp add: Let_def\<close>)
qed simp

lemma batch_records:
  assumes "\<And>n b xs. mset (rw_finish rw n b xs) = mset xs"
  shows "list_all (\<lambda>a. at_RecordType a = ''request'') (runBenchmarkBatch rw p s b)"
  using mset_eq_setD [OF assms] by (auto simp: runBenchmarkBatch_def Let_def list_all_iff)

lemma ladder_request_fields [simp]:
  "at_RecordType (fst (runConversationLadderRequest rw p s t u ms)) = ''request''"
  "at_Scenario (fst (runConversationLadderRequest rw p s t u ms)) = bs_Name s"
  "at_Batch (fst (runConversationLadderRequest rw p s t u ms)) = t"
  "at_Request (fst (runConversationLadderRequest rw p s t u ms)) = wrap64 (t * bs_BatchSize s + u)"
  "at_InputSequence (fst (runConversationLadderRequest rw p s t u ms)) = u"
  by (simp_all add: runConversationLadderRequest_def Let_def split_beta)

lemma ladder_user_fields [simp]:
  "at_RecordType (fst (ladder_user rw p s t hs u)) = ''request''"
  "at_Scenario (fst (ladder_user rw p s t hs u)) = bs_Name s"
  "at_Batch (fst (ladder_user rw p s t hs u)) = t"
  "at_Request (fst (ladder_user rw p s t hs u)) = wrap64 (t * bs_BatchSize s + int u)"
  "at_InputSequence (fst (ladder_user rw p s t hs u)) = int u"
  by (simp_all add: ladder_user_def Let_def split_beta)

lemma ladder_records:
  assumes "\<And>n b xs. mset (rw_finish rw n b xs) = mset xs"
  shows "list_all (\<lambda>a. at_RecordType a = ''request'') (fst (runConversationLadderBatch rw p s t hs))"
  using mset_eq_setD [OF assms] by (auto simp: runConversationLadderBatch_def Let_def list_all_iff)

lemma batch_loop_ok:
  assumes "\<And>n b xs. mset (rw_finish rw n b xs) = mset xs" and "run_ok st"
  shows "run_ok (fst (batch_loop rw p s bs st))"
  using assms(2)
proof (induction bs arbitrary: st)
  case (Cons b bs)
  let ?w = "write_attempts rw (\<lambda>_. None) (runBenchmarkBatch rw p s (int b)) st"
  have "run_ok (fst ?w)" by (rule write_attempts_ok [OF Cons.prems batch_records [OF assms(1)]])
  then have "run_ok (stopMetrics rw (bs_Name s) (int b) (fst ?w))" by (simp add: run_ok_def)
  with Cons.IH show ?case by (auto simp: split_beta Let_def split: option.split)
qed simp

lemma ladder_loop_ok:
  assumes "\<And>n b xs. mset (rw_finish rw n b xs) = mset xs" and "run_ok st"
  shows "run_ok (fst (ladder_loop rw p s ts hs st))"
  using assms(2)
proof (induction ts arbitrary: hs st)
  case (Cons t ts)
  let ?w = "write_attempts rw (ladder_stops s (int t)) (fst (runConversationLadderBatch rw p s (int t) hs)) st"
  have "run_ok (fst ?w)" by (rule write_attempts_ok [OF Cons.prems ladder_records [OF assms(1)]])
  then have "run_ok (stopMetrics rw (bs_Name s) (int t) (fst ?w))" by (simp add: run_ok_def)
  with Cons.IH show ?case by (auto simp: split_beta Let_def split: option.split)
qed simp

lemma run_scenario_ok:
  assumes "\<And>n b xs. mset (rw_finish rw n b xs) = mset xs" and "run_ok st"
  shows "run_ok (fst (run_scenario rw p name st))"
  using ladder_loop_ok [OF assms(1)] batch_loop_ok [OF assms(1)] warmup_loop_ok [OF assms(2)] assms(2)
  by (auto simp: run_scenario_def runConversationLadder_def Let_def split_beta split: option.split)

lemma run_scenarios_ok:
  assumes "\<And>n b xs. mset (rw_finish rw n b xs) = mset xs" and "run_ok st"
  shows "run_ok (fst (run_scenarios rw p ns st))"
  using assms(2)
proof (induction ns arbitrary: st)
  case (Cons n ns)
  have "run_ok (fst (run_scenario rw p n st))" by (rule run_scenario_ok [OF assms(1) Cons.prems])
  with Cons.IH show ?case by (auto simp: split_beta split: option.split)
qed simp

subsection \<open>The file and the records\<close>

definition jsonl_text :: "(jsonl \<Rightarrow> string option) \<Rightarrow> jsonl list \<Rightarrow> string" where
  \<comment> \<open>the lines of the records\<close>
  "jsonl_text marshal ls = concat (map (\<lambda>l. the (marshal l) @ [CHR 0x0A]) ls)"

lemma jsonl_text_simps [simp]: "jsonl_text m [] = []" "jsonl_text m (ls @ [l]) = jsonl_text m ls @ the (m l) @ [CHR 0x0A]"
  by (simp_all add: jsonl_text_def)

definition run_text :: "run_world \<Rightarrow> run_state \<Rightarrow> bool" where
  \<comment> \<open>the writer has taken the lines of the records and, when it failed, perhaps a part of one more\<close>
  "run_text rw st \<longleftrightarrow> list_all (\<lambda>l. rw_marshal rw l \<noteq> None) (rn_output st)
     \<and> prefix (jsonl_text (rw_marshal rw) (rn_output st)) (bufio_bytes (rn_writer st))
     \<and> (\<not> bw_err (rn_writer st) \<longrightarrow> bufio_bytes (rn_writer st) = jsonl_text (rw_marshal rw) (rn_output st))"

lemma run_text_write: "run_text rw st \<Longrightarrow> run_text rw (fst (writeJSONL rw l st))"
proof (cases "rw_marshal rw l")
  case (Some body)
  assume st: "run_text rw st"
  obtain w ok where w: "bufio_Write (rw_file rw) (body @ [CHR 0x0A]) (rn_writer st) = (w, ok)" by fastforce
  note b = Write_bytes [OF w]
  show ?thesis
  proof (cases ok)
    case True
    with b have "\<not> bw_err (rn_writer st)" "\<not> bw_err w" "bufio_bytes w = bufio_bytes (rn_writer st) @ body @ [CHR 0x0A]" by auto
    with True st w Some show ?thesis by (simp add: writeJSONL_def run_text_def)
  next
    case False
    with b st w Some show ?thesis by (auto simp: writeJSONL_def run_text_def intro: prefix_order.trans)
  qed
qed (simp add: writeJSONL_def)

interpretation texts: run_invariant rw "run_text rw" for rw
  by unfold_locales (simp_all add: run_text_write, simp_all add: run_text_def)

interpretation begins: run_invariant rw "\<lambda>st. prefix ls (rn_output st)" for rw ls
proof
  show "prefix ls (rn_output (fst (writeJSONL rw l st)))" if "prefix ls (rn_output st)" for l st
    using that by (cases rule: writeJSONL_cases [of rw l st]) simp_all
qed simp_all

lemma finalize_counts [simp]:
  "rp_Completed (finalizeBenchmarkReport as r) = int (length as)"
  "rp_Succeeded (finalizeBenchmarkReport as r) = int (length (filter succeeded as))"
  "rp_Failed (finalizeBenchmarkReport as r) = int (length (filter (\<lambda>a. \<not> succeeded a) as))"
  by (simp_all add: finalizeBenchmarkReport_def Let_def split: prod.split)

definition output_failed :: "run_error option \<Rightarrow> bool" where
  \<comment> \<open>a record could not be encoded or written, or the buffer not flushed\<close>
  "output_failed e \<longleftrightarrow> e \<in> {Some ErrEncodeLine, Some ErrWriteLine, Some ErrFlushOutput}"

lemma writeJSONL_failed: "writeJSONL rw l st = (st', Some e) \<Longrightarrow> output_failed (Some e)"
  by (auto simp: writeJSONL_def output_failed_def split: option.splits prod.splits bool.splits)

lemma run_finish_counts:
  assumes "run_ok st" and "run_text rw st" and "run_finish rw report runErr st = (st', r, e)"
  shows "rp_Completed r = int (length (request_lines (rn_output st'))) \<and> rp_Succeeded r = int (length (filter succeeded (request_lines (rn_output st'))))
    \<and> rp_Plan r = rp_Plan report \<and> prefix (rn_output st) (rn_output st') \<and> run_text rw st'
    \<and> (e = None \<longrightarrow> runErr = None)
    \<and> (\<not> output_failed e \<longrightarrow> rn_output st' = rn_output st @ [ReportLine r]
         \<and> bw_file (rn_writer st') = jsonl_text (rw_marshal rw) (rn_output st'))"
proof -
  obtain rep where fin: "finishBenchmarkReport rw rep runErr st = (st', r, e)" and plan: "rp_Plan rep = rp_Plan report"
    using assms(3) by (cases "rw_reader rw = None") (auto simp: run_finish_def)
  let ?r = "applyGatewayMetricsToReport (rn_byBatch st) (finalizeBenchmarkReport (rn_attempts st) (rep\<lparr>rp_CompletedAt := rw_completedAt rw\<rparr>))"
  have r: "rp_Completed ?r = int (length (rn_attempts st))" "rp_Succeeded ?r = int (length (filter succeeded (rn_attempts st)))"
    "rp_Plan ?r = rp_Plan report"
    by (simp_all add: applyGatewayMetricsToReport_def plan) (simp add: finalizeBenchmarkReport_def plan Let_def split_beta)
  have ok: "rn_attempts st = request_lines (rn_output st)" using assms(1) by (simp add: run_ok_def)
  have written: "run_text rw (fst (writeJSONL rw (ReportLine ?r) st))" by (rule run_text_write [OF assms(2)])
  show ?thesis
  proof (cases rule: writeJSONL_cases [of rw "ReportLine ?r" st])
    case (taken w)
    let ?f = "bufio_Flush (rw_file rw) w"
    have fin': "st' = st\<lparr>rn_output := rn_output st @ [ReportLine ?r], rn_writer := ?f\<rparr>" "r = ?r" "e = (if bw_err ?f then Some ErrFlushOutput else runErr)"
      using fin taken unfolding finishBenchmarkReport_def Let_def by auto
    have bytes: "run_text rw (st\<lparr>rn_writer := w, rn_output := rn_output st @ [ReportLine ?r]\<rparr>)" using written taken by simp
    have "bw_err w \<Longrightarrow> bw_err ?f" by (simp add: bufio_Flush_def)
    then have "run_text rw st'" using bytes unfolding fin' run_text_def by auto
    moreover have "bw_file ?f = jsonl_text (rw_marshal rw) (rn_output st @ [ReportLine ?r])" if "\<not> bw_err ?f"
      using that bytes Flush_file [OF that] \<open>bw_err w \<Longrightarrow> bw_err ?f\<close> by (auto simp: run_text_def)
    ultimately show ?thesis using r ok unfolding fin' by (auto simp: output_failed_def)
  next
    case (refused w x)
    then have fin': "st' = st\<lparr>rn_writer := w\<rparr>" "r = ?r" "e = Some x" "output_failed e"
      using fin writeJSONL_failed [OF refused] by (simp_all add: finishBenchmarkReport_def Let_def)
    then show ?thesis using r ok written refused unfolding fin'(1-3) by simp
  qed
qed

lemma first_state_ok: "run_ok (fst (first_state rw p))" "rn_attempts (fst (first_state rw p)) = []" "run_text rw (fst (first_state rw p))"
proof -
  have "run_text rw start_state" by (simp add: run_text_def start_state_def bufio_NewWriter_def bufio_bytes_def)
  then show "run_text rw (fst (first_state rw p))" unfolding first_state_def by (rule run_text_write)
  have "run_ok (fst (first_state rw p)) \<and> rn_attempts (fst (first_state rw p)) = []"
    by (cases rule: writeJSONL_cases [of rw "MetadataLine (bp_RunID p) p" start_state])
      (simp_all add: first_state_def run_ok_def, simp_all add: start_state_def)
  then show "run_ok (fst (first_state rw p))" "rn_attempts (fst (first_state rw p)) = []" by simp_all
qed

lemma run_prepared_cases:
  assumes "run_prepared rw p = (out, r, e)"
  obtains (unwritten) st where "out = output_of st" "rn_output st = []" "run_text rw st" "rp_Completed r = 0" "rp_Succeeded r = 0" "rp_Plan r = p" "output_failed e"
  | (ran) st runErr report runErr' st' where "run_scenarios rw p (bp_ExecutionOrder p) (fst (first_state rw p)) = (st, runErr)"
      "run_finish rw report runErr' st = (st', r, e)" "out = output_of st'" "runErr' = None \<Longrightarrow> runErr = None" "rp_Plan report = p"
      "rn_output (fst (first_state rw p)) = [MetadataLine (bp_RunID p) p]"
proof (cases "snd (first_state rw p)")
  case None
  obtain st runErr where run: "run_scenarios rw p (bp_ExecutionOrder p) (fst (first_state rw p)) = (st, runErr)" by fastforce
  let ?report = "zero_Report\<lparr>rp_RecordType := ''report'', rp_RunID := bp_RunID p, rp_StartedAt := rw_startedAt rw, rp_Plan := p\<rparr>"
    and ?err = "if runErr \<noteq> None then runErr else if bp_SkipPromptTokenEvidence p then None
      else benchmarkTokenEvidenceError (rn_attempts st)"
  obtain st' r' e' where fin: "run_finish rw ?report ?err st = (st', r', e')" by (cases "run_finish rw ?report ?err st")
  from assms None have "out = output_of st'" "r' = r" "e' = e"
    unfolding run_prepared_def Let_def split_beta run fst_conv snd_conv fin by simp_all
  with fin have fin': "run_finish rw ?report ?err st = (st', r, e)" by simp
  have "?err = None \<Longrightarrow> runErr = None" by (auto split: if_splits)
  moreover have "rn_output (fst (first_state rw p)) = [MetadataLine (bp_RunID p) p]"
    using None by (cases rule: writeJSONL_cases [of rw "MetadataLine (bp_RunID p) p" start_state]) (simp_all add: first_state_def start_state_def)
  ultimately show thesis by (intro ran [OF run fin' \<open>out = output_of st'\<close>]) simp_all
next
  case (Some x)
  then have "writeJSONL rw (MetadataLine (bp_RunID p) p) start_state = (fst (first_state rw p), Some x)"
    by (simp add: first_state_def prod_eq_iff)
  from this writeJSONL_failed [OF this] have st: "rn_output (fst (first_state rw p)) = []" "output_failed (Some x)"
    by (cases rule: writeJSONL_cases [of rw "MetadataLine (bp_RunID p) p" start_state], auto simp: start_state_def)
  show thesis
    by (rule unwritten [OF _ st(1) first_state_ok(3)]) (use assms Some st(2) in \<open>auto simp: run_prepared_def Let_def split_beta zero_Report_def\<close>)
qed

lemma runPlan_cases:
  assumes "runPlan rw plan0 = (out, r, e)"
  obtains (rejected) "out = ([], [])" "rp_Completed r = 0" "rp_Succeeded r = 0" "e \<noteq> None"
  | (prepared) plan1 p where "PrepareBenchmarkPlan (rw_perm rw) plan0 = (plan1, None)" "bp_Scenarios p = bp_Scenarios plan1"
      "bp_ExecutionOrder p = bp_ExecutionOrder plan1" "run_prepared rw p = (out, r, e)"
      "bp_RandomizeRequestOrder p = bp_RandomizeRequestOrder plan0" "bp_WorkloadSeed p = bp_WorkloadSeed plan0"
proof -
  obtain plan1 err where prep: "PrepareBenchmarkPlan (rw_perm rw) plan0 = (plan1, err)" by fastforce
  show thesis
  proof (cases "err = None \<and> \<not> rw_noOutput rw")
    case True
    have "bp_RandomizeRequestOrder plan1 = bp_RandomizeRequestOrder plan0" "bp_WorkloadSeed plan1 = bp_WorkloadSeed plan0"
      using prep by (auto simp: PrepareBenchmarkPlan_def Let_def split: if_splits)
    with True assms prep show thesis
      by (intro prepared [of plan1 "if bp_RunID plan1 = [] then plan1\<lparr>bp_RunID := rw_stamp rw\<rparr> else plan1"]) (simp_all add: runPlan_def)
  next
    case False
    with assms prep show thesis by (intro rejected) (auto simp: runPlan_def zero_Report_def split: option.splits if_splits)
  qed
qed

text \<open>
  Whatever happens during a run, the report agrees with the records the writer took, and the file with
  their text as far as it goes; unless the output failed, the file is that text, from the plan to the report.
\<close>

lemma run_prepared_agrees:
  assumes "\<And>n b xs. mset (rw_finish rw n b xs) = mset xs" and "run_prepared rw p = ((bytes, ls), r, e)"
  shows "rp_Completed r = int (length (request_lines ls)) \<and> rp_Succeeded r = int (length (filter succeeded (request_lines ls)))
    \<and> rp_Plan r = p \<and> list_all (\<lambda>l. rw_marshal rw l \<noteq> None) ls
    \<and> (prefix bytes (jsonl_text (rw_marshal rw) ls) \<or> prefix (jsonl_text (rw_marshal rw) ls) bytes)
    \<and> (\<not> output_failed e \<longrightarrow> bytes = jsonl_text (rw_marshal rw) ls
         \<and> (\<exists>more. ls = MetadataLine (bp_RunID p) p # more @ [ReportLine r]))"
proof -
  have agree: "list_all (\<lambda>l. rw_marshal rw l \<noteq> None) (rn_output st)
      \<and> (prefix (bw_file (rn_writer st)) (jsonl_text (rw_marshal rw) (rn_output st)) \<or> prefix (jsonl_text (rw_marshal rw) (rn_output st)) (bw_file (rn_writer st)))"
    if "run_text rw st" for st
    using that prefix_same_cases [of "bw_file (rn_writer st)" "bufio_bytes (rn_writer st)"] by (auto simp: run_text_def bufio_bytes_def)
  from assms(2) show ?thesis
  proof (cases rule: run_prepared_cases)
    case (unwritten st)
    with agree [OF unwritten(3)] show ?thesis by (simp add: output_of_def)
  next
    case (ran st runErr report runErr' st')
    have st: "run_ok st" "run_text rw st"
      using run_scenarios_ok [OF assms(1) first_state_ok(1), of p "bp_ExecutionOrder p" rw p]
        texts.keeps_scenarios [OF first_state_ok(3), of rw p "bp_ExecutionOrder p" p] ran(1) by simp_all
    have "prefix [MetadataLine (bp_RunID p) p] (rn_output st)"
      using begins.keeps_scenarios [of "[MetadataLine (bp_RunID p) p]" "fst (first_state rw p)" rw p "bp_ExecutionOrder p"] ran(1,6) by simp
    then obtain more where "rn_output st = MetadataLine (bp_RunID p) p # more" by (auto simp: prefix_def)
    with run_finish_counts [OF st ran(2)] agree [of st'] ran(3,5) show ?thesis by (auto simp: output_of_def)
  qed
qed

subsection \<open>A run without an error is complete\<close>

definition uncut :: "run_world \<Rightarrow> BenchmarkScenario \<Rightarrow> bool" where
  \<comment> \<open>the context does not end while the arrivals of a batch are paced\<close>
  "uncut rw s \<longleftrightarrow> f_lt (Fin 0) (bs_ArrivalRateQPS s) \<longrightarrow> (\<forall>b. nat (bs_BatchSize s) \<le> rw_arrivals rw (bs_Name s) b + 1)"

definition position_of :: "BenchmarkAttempt \<Rightarrow> string \<times> int \<times> int \<times> int" where
  "position_of a = (at_Scenario a, at_Batch a, at_Request a, at_InputSequence a)"

definition planned_requests :: "(int \<Rightarrow> nat \<Rightarrow> nat list) \<Rightarrow> BenchmarkPlan \<Rightarrow> BenchmarkScenario \<Rightarrow> (string \<times> int \<times> int \<times> int) list" where
  \<comment> \<open>scenario, batch, position in the scenario and input of every request of a scenario: the input is the
      user in a conversation, and the position's place in the request order otherwise\<close>
  "planned_requests perm p s =
     concat (map (\<lambda>b. map (\<lambda>i. let n = b * nat (bs_BatchSize s) + i in
         (bs_Name s, int b, int n, if bs_ConversationTurnBytes s > 0 then int i else int (benchmarkRequestOrder perm p s ! n)))
       [0..<nat (bs_BatchSize s)]) [0..<nat (bs_Batches s)])"

definition fits_int64 :: "BenchmarkScenario \<Rightarrow> bool" where
  \<comment> \<open>the number of requests of the scenario is an \<open>int\<close>\<close>
  "fits_int64 s \<longleftrightarrow> bs_Batches s * bs_BatchSize s \<le> max_int64"

lemma position_exact:
  assumes "fits_int64 s" and "b < nat (bs_Batches s)" and "i < nat (bs_BatchSize s)"
  shows "wrap64 (int b * bs_BatchSize s + int i) = int (b * nat (bs_BatchSize s) + i)"
proof -
  have size: "bs_BatchSize s = int (nat (bs_BatchSize s))" using assms(3) by simp
  have "b * nat (bs_BatchSize s) + i < Suc b * nat (bs_BatchSize s)" using assms(3) by simp
  also have "\<dots> \<le> nat (bs_Batches s) * nat (bs_BatchSize s)" using assms(2) by (intro mult_right_mono) simp_all
  finally have "int (b * nat (bs_BatchSize s) + i) < int (nat (bs_Batches s)) * int (nat (bs_BatchSize s))" by (simp only: flip: of_nat_mult of_nat_less_iff)
  also have "\<dots> = bs_Batches s * bs_BatchSize s" using assms(2,3) by (simp only: nat_0_le zero_less_nat_eq less_imp_le)
  finally have "int (b * nat (bs_BatchSize s) + i) \<le> max_int64" using assms(1) by (simp only: fits_int64_def)
  then have "wrap64 (int (b * nat (bs_BatchSize s) + i)) = int (b * nat (bs_BatchSize s) + i)"
    by (intro wrap64_id) (unfold in_int64_def min_int64_def, linarith)
  then show ?thesis by (subst size) simp
qed

lemma batch_positions:
  assumes "\<And>n b xs. mset (rw_finish rw n b xs) = mset xs" and "uncut rw s" and "fits_int64 s" and "b < nat (bs_Batches s)"
  shows "mset (map position_of (runBenchmarkBatch rw p s (int b))) =
    mset (map (\<lambda>i. (bs_Name s, int b, int (b * nat (bs_BatchSize s) + i), int (benchmarkRequestOrder (rw_perm rw) p s ! (b * nat (bs_BatchSize s) + i))))
      [0..<nat (bs_BatchSize s)])"
proof -
  let ?size = "nat (bs_BatchSize s)" and ?order = "benchmarkRequestOrder (rw_perm rw) p s"
  let ?g = "\<lambda>r. runBenchmarkRequest rw p s (int b) r (int (?order ! nat r)) ''request''"
  have jobs: "batch_jobs rw s (int b) = map (\<lambda>i. int (b * ?size + i)) [0..<?size]"
    using assms(2) position_exact [OF assms(3,4)] by (simp add: uncut_def batch_jobs_def Let_def min_def)
  have "mset (map position_of (runBenchmarkBatch rw p s (int b))) = image_mset position_of (mset (map ?g (batch_jobs rw s (int b))))"
    using assms(1) by (simp add: runBenchmarkBatch_def Let_def)
  also have "\<dots> = mset (map (position_of \<circ> ?g) (batch_jobs rw s (int b)))" by (simp add: multiset.map_comp)
  also have "map (position_of \<circ> ?g) (batch_jobs rw s (int b)) =
      map (\<lambda>i. (bs_Name s, int b, int (b * ?size + i), int (?order ! (b * ?size + i)))) [0..<?size]"
    unfolding jobs map_map by (rule map_cong [OF refl]) (simp add: position_of_def flip: of_nat_mult of_nat_add)
  finally show ?thesis .
qed

lemma ladder_positions:
  assumes "\<And>n b xs. mset (rw_finish rw n b xs) = mset xs" and "fits_int64 s" and "t < nat (bs_Batches s)"
  shows "mset (map position_of (fst (runConversationLadderBatch rw p s (int t) hs))) =
    mset (map (\<lambda>i. (bs_Name s, int t, int (t * nat (bs_BatchSize s) + i), int i)) [0..<nat (bs_BatchSize s)])"
proof -
  let ?u = "ladder_user rw p s (int t) hs"
  have "mset (map position_of (fst (runConversationLadderBatch rw p s (int t) hs))) =
      image_mset position_of (mset (map fst (map ?u [0..<nat (bs_BatchSize s)])))"
    using assms(1) by (simp add: runConversationLadderBatch_def Let_def)
  also have "\<dots> = mset (map (position_of \<circ> fst \<circ> ?u) [0..<nat (bs_BatchSize s)])" by (simp add: multiset.map_comp comp_def)
  also have "map (position_of \<circ> fst \<circ> ?u) [0..<nat (bs_BatchSize s)] =
      map (\<lambda>i. (bs_Name s, int t, int (t * nat (bs_BatchSize s) + i), int i)) [0..<nat (bs_BatchSize s)]"
    using position_exact [OF assms(2,3)] by (intro map_cong) (simp_all add: position_of_def)
  finally show ?thesis .
qed

lemma batch_loop_complete:
  assumes "\<And>n b xs. mset (rw_finish rw n b xs) = mset xs" and "uncut rw s" and "fits_int64 s" and "\<forall>b \<in> set bs. b < nat (bs_Batches s)"
    and "batch_loop rw p s bs st = (st', None)"
  shows "mset (map position_of (rn_attempts st')) = mset (map position_of (rn_attempts st)) +
    mset (concat (map (\<lambda>b. map (\<lambda>i. (bs_Name s, int b, int (b * nat (bs_BatchSize s) + i),
      int (benchmarkRequestOrder (rw_perm rw) p s ! (b * nat (bs_BatchSize s) + i)))) [0..<nat (bs_BatchSize s)]) bs))"
  using assms(4,5)
proof (induction bs arbitrary: st)
  case (Cons b bs)
  let ?w = "write_attempts rw (\<lambda>_. None) (runBenchmarkBatch rw p s (int b)) st"
  have w: "snd ?w = None" and rest: "batch_loop rw p s bs (stopMetrics rw (bs_Name s) (int b) (fst ?w)) = (st', None)"
    using Cons.prems(2) by (auto simp: split_beta Let_def prod_eq_iff split: option.splits)
  note IH = Cons.IH [OF _ rest]
  show ?case using IH write_attempts_all [OF w] batch_positions [OF assms(1-3), of b p] Cons.prems(1) by (simp add: ac_simps)
qed simp

lemma ladder_loop_complete:
  assumes "\<And>n b xs. mset (rw_finish rw n b xs) = mset xs" and "fits_int64 s" and "\<forall>t \<in> set ts. t < nat (bs_Batches s)"
    and "ladder_loop rw p s ts hs st = (st', None)"
  shows "mset (map position_of (rn_attempts st')) = mset (map position_of (rn_attempts st)) +
    mset (concat (map (\<lambda>t. map (\<lambda>i. (bs_Name s, int t, int (t * nat (bs_BatchSize s) + i), int i)) [0..<nat (bs_BatchSize s)]) ts))"
  using assms(3,4)
proof (induction ts arbitrary: hs st)
  case (Cons t ts)
  let ?b = "runConversationLadderBatch rw p s (int t) hs"
  let ?w = "write_attempts rw (ladder_stops s (int t)) (fst ?b) st"
  have w: "snd ?w = None" and rest: "ladder_loop rw p s ts (snd ?b) (stopMetrics rw (bs_Name s) (int t) (fst ?w)) = (st', None)"
    using Cons.prems(2) by (auto simp: split_beta Let_def prod_eq_iff split: option.splits)
  note IH = Cons.IH [OF _ rest]
  show ?case using IH write_attempts_all [OF w] ladder_positions [OF assms(1,2), of t p hs] Cons.prems(1) by (simp add: ac_simps)
qed simp

lemma run_scenario_complete:
  assumes "\<And>n b xs. mset (rw_finish rw n b xs) = mset xs" and "run_ok st" and "run_scenario rw p name st = (st', None)"
    and "uncut rw (benchmarkScenarioByName (bp_Scenarios p) name)" and "fits_int64 (benchmarkScenarioByName (bp_Scenarios p) name)"
  shows "mset (map position_of (rn_attempts st')) = mset (map position_of (rn_attempts st))
    + mset (planned_requests (rw_perm rw) p (benchmarkScenarioByName (bp_Scenarios p) name))"
proof (cases "bs_ConversationTurnBytes (benchmarkScenarioByName (bp_Scenarios p) name) > 0")
  case True
  with assms(3) show ?thesis using ladder_loop_complete [OF assms(1,5)]
    by (fastforce simp: run_scenario_def runConversationLadder_def Let_def planned_requests_def)
next
  case False
  let ?s = "benchmarkScenarioByName (bp_Scenarios p) name"
  let ?w = "warmup_loop rw p ?s [0..<nat (bs_WarmupRequests ?s)] [] st"
  have "batch_loop rw p ?s [0..<nat (bs_Batches ?s)] (fst ?w) = (st', None)"
    using assms(3) False by (auto simp: run_scenario_def Let_def split_beta prod_eq_iff split: option.splits)
  from batch_loop_complete [OF assms(1,4,5) _ this] show ?thesis
    using warmup_loop_ok [OF assms(2)] False by (simp add: planned_requests_def Let_def)
qed

lemma run_scenarios_complete:
  assumes "\<And>n b xs. mset (rw_finish rw n b xs) = mset xs" and "run_ok st" and "run_scenarios rw p ns st = (st', None)"
    and "\<forall>n \<in> set ns. uncut rw (benchmarkScenarioByName (bp_Scenarios p) n) \<and> fits_int64 (benchmarkScenarioByName (bp_Scenarios p) n)"
  shows "mset (map position_of (rn_attempts st')) = mset (map position_of (rn_attempts st))
    + sum_list (map (\<lambda>n. mset (planned_requests (rw_perm rw) p (benchmarkScenarioByName (bp_Scenarios p) n))) ns)"
  using assms(2-4)
proof (induction ns arbitrary: st)
  case (Cons n ns)
  then obtain st1 where st1: "run_scenario rw p n st = (st1, None)" "run_scenarios rw p ns st1 = (st', None)"
    by (auto simp: split_beta prod_eq_iff split: option.splits)
  have "run_ok st1" using run_scenario_ok [OF assms(1) Cons.prems(1), of p n] st1(1) by simp
  then have "mset (map position_of (rn_attempts st')) = mset (map position_of (rn_attempts st1))
      + sum_list (map (\<lambda>n. mset (planned_requests (rw_perm rw) p (benchmarkScenarioByName (bp_Scenarios p) n))) ns)"
    using Cons.prems(3) by (intro Cons.IH st1(2)) simp_all
  with run_scenario_complete [OF assms(1) Cons.prems(1) st1(1)] Cons.prems(3) show ?case by (simp add: ac_simps)
qed simp

lemma by_name_self: "distinct (map bs_Name ss) \<Longrightarrow> s \<in> set ss \<Longrightarrow> benchmarkScenarioByName ss (bs_Name s) = s"
  using by_name [of "bs_Name s" ss] by (auto simp: distinct_map inj_on_def)

lemma execution_total:
  assumes "mset order = mset (map bs_Name ss)" and "distinct (map bs_Name ss)"
  shows "sum_list (map (\<lambda>n. f (benchmarkScenarioByName ss n)) order) = sum_list (map f ss :: 'a :: comm_monoid_add list)"
proof -
  have "sum_list (map (\<lambda>n. f (benchmarkScenarioByName ss n)) order) = sum_mset (image_mset (\<lambda>n. f (benchmarkScenarioByName ss n)) (mset order))"
    by (simp flip: sum_mset_sum_list)
  also have "\<dots> = sum_list (map (\<lambda>s. f (benchmarkScenarioByName ss (bs_Name s))) ss)"
    unfolding assms(1) by (simp add: image_mset.compositionality comp_def flip: sum_mset_sum_list)
  also have "\<dots> = sum_list (map f ss)" using by_name_self [OF assms(2)] by (intro arg_cong [of _ _ sum_list] map_cong) auto
  finally show ?thesis .
qed

lemma length_planned: "length (planned_requests perm p s) = nat (bs_Batches s) * nat (bs_BatchSize s)"
  by (simp add: planned_requests_def length_concat comp_def sum_list_triv)

text \<open>
  C39. A run that returns no error has sent everything it was asked to, once: its request records are, up to
  their order, one for every batch and every position of every scenario of the plan, each with its input, that
  of the position's place in the (shuffled) request order or, in a conversation, the user; so their number is
  the sum of batches times batch size, failed requests included. This holds unless the caller's context
  ends while the arrivals of a batch are paced (\<open>uncut\<close>), for scenarios whose number of requests is an \<open>int\<close>
  (\<open>fits_int64\<close>), and whatever order the scenarios ran and the requests finished in.
\<close>

theorem run_complete:
  assumes "\<And>n b xs. mset (rw_finish rw n b xs) = mset xs" and "\<And>seed n. mset (rw_perm rw seed n) = mset [0..<n]"
    and "runPlan rw plan0 = ((bytes, ls), r, None)" and "\<forall>s \<in> set (bp_Scenarios plan0). uncut rw s \<and> fits_int64 s"
  shows "mset (map position_of (request_lines ls)) = mset (concat (map (planned_requests (rw_perm rw) plan0) (bp_Scenarios plan0)))
    \<and> rp_Completed r = int (sum_list (map (\<lambda>s. nat (bs_Batches s) * nat (bs_BatchSize s)) (bp_Scenarios plan0)))"
  using assms(3)
proof (cases rule: runPlan_cases)
  case (prepared plan1 p)
  note plan = prepared_order [OF assms(2) prepared(1)]
  have names: "distinct (map bs_Name (bp_Scenarios plan0))" and order: "mset (bp_ExecutionOrder p) = mset (map bs_Name (bp_Scenarios plan0))"
    and p: "bp_Scenarios p = bp_Scenarios plan0"
    using scenarios_validate_ok [OF plan_Validate_ok(3) [OF plan(1)]] plan(2,3) prepared(2,3) by simp_all
  have asked: "planned_requests (rw_perm rw) p = planned_requests (rw_perm rw) plan0"
  proof -
    have order: "benchmarkRequestOrder (rw_perm rw) p s = benchmarkRequestOrder (rw_perm rw) plan0 s" for s
      using prepared(5,6) by (simp add: benchmarkRequestOrder_def Let_def)
    show ?thesis unfolding fun_eq_iff planned_requests_def order by (rule allI) (rule refl)
  qed
  have good: "\<forall>n \<in> set (bp_ExecutionOrder p). uncut rw (benchmarkScenarioByName (bp_Scenarios p) n)
      \<and> fits_int64 (benchmarkScenarioByName (bp_Scenarios p) n)"
  proof
    fix n assume "n \<in> set (bp_ExecutionOrder p)"
    then have "n \<in> set (map bs_Name (bp_Scenarios plan0))" using mset_eq_setD [OF order] by blast
    from by_name [OF this] assms(4) show "uncut rw (benchmarkScenarioByName (bp_Scenarios p) n)
        \<and> fits_int64 (benchmarkScenarioByName (bp_Scenarios p) n)" unfolding p by blast
  qed
  from prepared(4) show ?thesis
  proof (cases rule: run_prepared_cases)
    case (ran st runErr report runErr' st')
    have st: "run_ok st" "run_text rw st"
      using run_scenarios_ok [OF assms(1) first_state_ok(1), of p "bp_ExecutionOrder p" rw p]
        texts.keeps_scenarios [OF first_state_ok(3), of rw p "bp_ExecutionOrder p" p] ran(1) by simp_all
    note fin = run_finish_counts [OF st ran(2)]
    have "runErr = None" and ls: "request_lines ls = rn_attempts st"
      using fin ran(3,4) st(1) by (auto simp: run_ok_def output_of_def output_failed_def)
    with ran(1) have "mset (map position_of (request_lines ls)) =
        sum_list (map (\<lambda>n. mset (planned_requests (rw_perm rw) p (benchmarkScenarioByName (bp_Scenarios p) n))) (bp_ExecutionOrder p))"
      using run_scenarios_complete [OF assms(1) first_state_ok(1) _ good] first_state_ok(2) by simp
    also have "\<dots> = sum_list (map (\<lambda>s. mset (planned_requests (rw_perm rw) plan0 s)) (bp_Scenarios plan0))"
      using execution_total [OF order names, of "\<lambda>s. mset (planned_requests (rw_perm rw) plan0 s)"] unfolding asked p .
    finally have all: "mset (map position_of (request_lines ls)) = mset (concat (map (planned_requests (rw_perm rw) plan0) (bp_Scenarios plan0)))"
      by (simp add: mset_concat comp_def)
    have "rp_Completed r = int (length (request_lines ls))" using fin ran(3) by (simp add: output_of_def)
    then show ?thesis
      using all mset_eq_length [OF all] by (simp add: length_concat comp_def length_planned)
  qed (simp add: output_failed_def)
qed simp

subsection \<open>Conversations grow by real answers\<close>

text \<open>
  In a turn of the ladder every user's next history is the old one followed by the turn's message and, when
  the request succeeded, by the answer that was received: a later prompt extends the earlier one.
\<close>

theorem ladder_continues:
  assumes "user < nat (bs_BatchSize s)"
  shows "\<exists>answer. snd (runConversationLadderBatch rw p s turn histories) ! user =
      histories ! user @ \<lparr>msg_Role = RoleUser, msg_Content = generatedConversationTurn s (int user) turn\<rparr> # answer
    \<and> (at_Error (fst (ladder_user rw p s turn histories user)) = None \<longrightarrow>
        (\<exists>answerText. answer = [\<lparr>msg_Role = RoleAssistant, msg_Content = answerText\<rparr>] \<and> TrimSpace answerText \<noteq> []))"
  using assms by (auto simp: runConversationLadderBatch_def ladder_user_def Let_def split_beta)

subsection \<open>Witnesses\<close>

definition wit_exchange :: exchange where
  "wit_exchange = \<lparr>ex_world = \<lparr>sw_decode = (\<lambda>_. None), sw_parse_float = (\<lambda>_. None), sw_output = None, sw_encodable = True,
     sw_answer = None, sw_startedAt = 1, sw_firstAt = 1, sw_endedAt = 2\<rparr>, ex_startedAt = 1, ex_completedAt = 2\<rparr>"

definition wit_run :: run_world where
  "wit_run = \<lparr>rw_perm = wit_perm, rw_exchange = (\<lambda>_ _ _ _. wit_exchange), rw_finish = (\<lambda>_ _. rev), rw_reader = None,
     rw_marshal = (\<lambda>_. Some ''{}''), rw_file = (\<lambda>_. None), rw_arrivals = (\<lambda>_ _. 0), rw_canceled = (\<lambda>_ _. False), rw_noOutput = False,
     rw_stamp = ''run'', rw_startedAt = 1, rw_completedAt = 9\<rparr>"

theorem batch_order_independent_witness:
  "map at_Request (runBenchmarkBatch wit_run DefaultBenchmarkPlan (default_scenario ''a'' PrefixSame 256 2 2 3 2) 1) = [3, 4, 5]"
proof -
  have "mset (rw_finish wit_run n b xs) = mset xs" for n b xs by (simp add: wit_run_def)
  from batch_order_independent [where s = "default_scenario ''a'' PrefixSame 256 2 2 3 2" and batch = 1 and p = DefaultBenchmarkPlan, OF this]
  show ?thesis by (simp add: default_scenario_def zero_Scenario_def max_int64_def batch_jobs_def Let_def upt_rec)
qed

definition sound_output :: "run_world \<Rightarrow> bool" where
  "sound_output rw \<longleftrightarrow> (\<forall>l. rw_marshal rw l \<noteq> None) \<and> (\<forall>n. rw_file rw n = None)"

lemma write_total:
  assumes "sound_output rw" and "\<not> bw_err (rn_writer st)"
  shows "\<exists>w. writeJSONL rw l st = (st\<lparr>rn_writer := w, rn_output := rn_output st @ [l]\<rparr>, None) \<and> \<not> bw_err w"
proof -
  obtain body where body: "rw_marshal rw l = Some body" using assms(1) by (auto simp: sound_output_def)
  obtain w ok where w: "bufio_Write (rw_file rw) (body @ [CHR 0x0A]) (rn_writer st) = (w, ok)" by fastforce
  have "ok" using Write_total [of "rw_file rw" "rn_writer st" "body @ [CHR 0x0A]"] assms w by (simp add: sound_output_def)
  with Write_bytes(1) [OF w] w body show ?thesis by (intro exI [of _ w]) (simp add: writeJSONL_def)
qed

lemma write_attempts_total:
  "sound_output rw \<Longrightarrow> \<not> bw_err (rn_writer st) \<Longrightarrow> snd (write_attempts rw (\<lambda>_. None) as st) = None
     \<and> \<not> bw_err (rn_writer (fst (write_attempts rw (\<lambda>_. None) as st)))"
proof (induction as arbitrary: st)
  case (Cons a as)
  obtain w where "writeJSONL rw (AttemptLine a) st = (st\<lparr>rn_writer := w, rn_output := rn_output st @ [AttemptLine a]\<rparr>, None)" "\<not> bw_err w"
    using write_total [OF Cons.prems] by blast
  with Cons.IH [OF Cons.prems(1), of "st\<lparr>rn_writer := w, rn_output := rn_output st @ [AttemptLine a], rn_attempts := rn_attempts st @ [a]\<rparr>"]
  show ?case by simp
qed simp

lemma batch_loop_total:
  assumes "sound_output rw" and "\<And>n b. \<not> rw_canceled rw n b"
  shows "\<not> bw_err (rn_writer st) \<Longrightarrow> snd (batch_loop rw p s bs st) = None \<and> \<not> bw_err (rn_writer (fst (batch_loop rw p s bs st)))"
proof (induction bs arbitrary: st)
  case (Cons b bs)
  then show ?case using write_attempts_total [OF assms(1) Cons.prems, of "runBenchmarkBatch rw p s (int b)"]
    by (simp add: split_beta Let_def assms(2) waitBetweenBatches_def)
qed simp

lemma run_scenarios_total:
  assumes "sound_output rw" and "\<And>n b. \<not> rw_canceled rw n b"
    and "\<forall>n \<in> set ns. bs_ConversationTurnBytes (benchmarkScenarioByName (bp_Scenarios p) n) = 0
      \<and> bs_WarmupRequests (benchmarkScenarioByName (bp_Scenarios p) n) = 0"
  shows "\<not> bw_err (rn_writer st) \<Longrightarrow> snd (run_scenarios rw p ns st) = None \<and> \<not> bw_err (rn_writer (fst (run_scenarios rw p ns st)))"
  using assms(3)
proof (induction ns arbitrary: st)
  case (Cons n ns)
  let ?s = "benchmarkScenarioByName (bp_Scenarios p) n"
  have run: "run_scenario rw p n st = batch_loop rw p ?s [0..<nat (bs_Batches ?s)] st"
    using Cons.prems(2) by (simp add: run_scenario_def Let_def)
  then show ?case
    using Cons batch_loop_total [OF assms(1,2) Cons.prems(1), of p ?s "[0..<nat (bs_Batches ?s)]"] by (simp add: split_beta)
qed simp

lemma run_prepared_total:
  assumes "sound_output rw" and "bp_SkipPromptTokenEvidence p"
    and "\<And>st. \<not> bw_err (rn_writer st) \<Longrightarrow> snd (run_scenarios rw p (bp_ExecutionOrder p) st) = None
      \<and> \<not> bw_err (rn_writer (fst (run_scenarios rw p (bp_ExecutionOrder p) st)))"
  shows "\<exists>out r. run_prepared rw p = (out, r, None)"
proof -
  have "\<not> bw_err (rn_writer start_state)" by (simp add: start_state_def bufio_NewWriter_def)
  from write_total [OF assms(1) this] obtain st0 where st0: "first_state rw p = (st0, None)" "\<not> bw_err (rn_writer st0)"
    unfolding first_state_def by fastforce
  obtain st where st: "run_scenarios rw p (bp_ExecutionOrder p) st0 = (st, None)" "\<not> bw_err (rn_writer st)"
    using assms(3) [OF st0(2)] by (metis prod.collapse)
  have "\<exists>st' r. run_finish rw report None st = (st', r, None)" for report
  proof -
    have "\<exists>st' r. finishBenchmarkReport rw rep None st = (st', r, None)" for rep
    proof -
      let ?r = "applyGatewayMetricsToReport (rn_byBatch st) (finalizeBenchmarkReport (rn_attempts st) (rep\<lparr>rp_CompletedAt := rw_completedAt rw\<rparr>))"
      obtain w where w: "writeJSONL rw (ReportLine ?r) st = (st\<lparr>rn_writer := w, rn_output := rn_output st @ [ReportLine ?r]\<rparr>, None)" "\<not> bw_err w"
        using write_total [OF assms(1) st(2)] by blast
      have "\<not> bw_err (bufio_Flush (rw_file rw) w)" using assms(1) w(2) by (intro Flush_total) (simp_all add: sound_output_def)
      with w(1) show ?thesis unfolding finishBenchmarkReport_def Let_def by simp
    qed
    then show ?thesis by (simp add: run_finish_def)
  qed
  then obtain st' r where "run_finish rw (zero_Report\<lparr>rp_RecordType := ''report'', rp_RunID := bp_RunID p, rp_StartedAt := rw_startedAt rw, rp_Plan := p\<rparr>)
      None st = (st', r, None)" by blast
  then show ?thesis using assms(2) st0(1) st(1) unfolding run_prepared_def Let_def by simp
qed

lemma wit_run_ok: "\<exists>out r. runPlan wit_run wit_plan = (out, r, None)"
proof -
  let ?p = "wit_plan\<lparr>bp_ExecutionOrder := [''b'', ''a''], bp_RunID := ''run''\<rparr>"
  have skip: "bp_SkipPromptTokenEvidence ?p" by (simp add: wit_plan_def)
  have "\<forall>n \<in> set (bp_ExecutionOrder ?p). bs_ConversationTurnBytes (benchmarkScenarioByName (bp_Scenarios ?p) n) = 0
      \<and> bs_WarmupRequests (benchmarkScenarioByName (bp_Scenarios ?p) n) = 0"
    by (simp add: wit_plan_def benchmarkScenarioByName_def default_scenario_def zero_Scenario_def)
  moreover have sound: "sound_output wit_run" by (simp add: sound_output_def wit_run_def)
  ultimately have "\<not> bw_err (rn_writer st) \<Longrightarrow> snd (run_scenarios wit_run ?p (bp_ExecutionOrder ?p) st) = None
      \<and> \<not> bw_err (rn_writer (fst (run_scenarios wit_run ?p (bp_ExecutionOrder ?p) st)))" for st
    by (intro run_scenarios_total) (simp_all add: wit_run_def)
  then have "\<exists>out r. run_prepared wit_run ?p = (out, r, None)" by (intro run_prepared_total skip sound)
  moreover have "runPlan wit_run wit_plan = run_prepared wit_run ?p"
    using wit_plan_prepared by (simp add: runPlan_def wit_run_def) (simp add: wit_plan_def DefaultBenchmarkPlan_def)
  ultimately show ?thesis by simp
qed

lemma wit_run_finish: "mset (rw_finish wit_run n b xs) = mset xs" "mset (rw_perm wit_run seed k) = mset [0..<k]"
  by (simp_all add: wit_run_def wit_perm_def)

theorem run_complete_witness:
  "\<exists>bytes ls r. runPlan wit_run wit_plan = ((bytes, ls), r, None) \<and> rp_Completed r = 32
     \<and> mset (map position_of (request_lines ls)) = mset (concat (map (planned_requests wit_perm wit_plan) (bp_Scenarios wit_plan)))"
proof -
  obtain bytes ls r where run: "runPlan wit_run wit_plan = ((bytes, ls), r, None)" using wit_run_ok by (metis surj_pair)
  have "\<forall>s \<in> set (bp_Scenarios wit_plan). uncut wit_run s \<and> fits_int64 s"
    by (simp add: wit_plan_def uncut_def fits_int64_def default_scenario_def zero_Scenario_def max_int64_def)
  from run_complete [OF wit_run_finish run this] have "rp_Completed r = 32"
    "mset (map position_of (request_lines ls)) = mset (concat (map (planned_requests wit_perm wit_plan) (bp_Scenarios wit_plan)))"
    by (simp_all add: wit_plan_def default_scenario_def wit_run_def)
  with run show ?thesis by blast
qed

end
