(* ===== verification/Bench_Markdown.thy ===== *)
theory Bench_Markdown
  imports Go_Format Bench_Compare Bench_Run
begin

text \<open>
  The Markdown reports of the benchmark (\<open>BenchmarkReport.Markdown\<close> in \<open>bench.go\<close>) and of the comparison
  (\<open>ComparisonReport.Markdown\<close> in \<open>compare.go\<close>). The text of a metrics error is the argument \<open>describe\<close>.
\<close>

definition newline :: string where "newline = [CHR 10]"

definition f2 :: "f64 \<Rightarrow> string" where "f2 x = format_float 2 x"
definition f3 :: "f64 \<Rightarrow> string" where "f3 x = format_float 3 x"

definition table_row :: "string list \<Rightarrow> string" where
  "table_row cells = ''|'' @ concat (map (\<lambda>c. '' '' @ c @ '' |'') cells) @ newline"

definition table_rule :: "nat \<Rightarrow> nat \<Rightarrow> string" where
  \<comment> \<open>\<open>l\<close> left-aligned columns and \<open>n\<close> right-aligned ones\<close>
  "table_rule l n = ''|'' @ concat (replicate l ''---|'') @ concat (replicate n ''---:|'') @ newline"

definition bytesToMiB :: "f64 \<Rightarrow> f64" where
  "bytesToMiB x = f_div x (Fin 1048576)"

subsection \<open>The benchmark report\<close>

definition report_head :: "BenchmarkReport \<Rightarrow> string" where
  "report_head r = concat
     [''# FishMesh benchmark report'', newline, newline,
      ''- Run: `'', rp_RunID r, ''`'', newline,
      ''- Cache mode/generation: `'', bp_CacheMode (rp_Plan r), ''` / `'', bp_CacheGeneration (rp_Plan r), ''`'', newline,
      ''- Workload seed: `'', dec_int (bp_WorkloadSeed (rp_Plan r)), ''`'', newline,
      ''- Requests: '', dec_int (rp_Requested r), '' (success '', dec_int (rp_Succeeded r), '', failed '', dec_int (rp_Failed r), '')'', newline,
      ''- TTFT P50/P95: '', f2 (rp_TTFTP50MS r), '' / '', f2 (rp_TTFTP95MS r), '' ms'', newline,
      ''- Duration P50/P95: '', f2 (rp_DurationP50MS r), '' / '', f2 (rp_DurationP95MS r), '' ms'', newline,
      ''- Prompt-token missing/violations: '', dec_int (rp_PromptTokenMissing r), '' / '', dec_int (rp_PromptTokenViolations r), newline, newline]"

definition gateway_rates :: "GatewayMetricsWindow \<Rightarrow> string list" where
  "gateway_rates w = [f3 (gw_AcceptedRateQPS w), f3 (gw_CompletedRateQPS w), f3 (gw_RejectionRateQPS w), f3 (gw_AverageInflight w),
     f2 (gw_LittleLawWaitMS w)]"

definition memory_line :: "GatewayMetricsWindow \<Rightarrow> string" where
  "memory_line w =
     (let mib = (\<lambda>x. f2 (bytesToMiB x))
      in concat [''- Gateway memory: RSS start/peak/end '', mib (gw_ResidentMemoryStartBytes w), ''/'', mib (gw_ResidentMemoryPeakBytes w), ''/'',
           mib (gw_ResidentMemoryEndBytes w), '' MiB (delta '', mib (gw_ResidentMemoryDeltaBytes w), '' MiB), Go heap start/peak/end '',
           mib (gw_HeapAllocStartBytes w), ''/'', mib (gw_HeapAllocPeakBytes w), ''/'', mib (gw_HeapAllocEndBytes w), '' MiB (delta '',
           mib (gw_HeapAllocDeltaBytes w), '' MiB)'', newline])"

definition report_gateway :: "(metrics_error option \<Rightarrow> string) \<Rightarrow> GatewayMetricsWindow option \<Rightarrow> string" where
  "report_gateway describe m =
     (case m of
        None \<Rightarrow> []
      | Some w \<Rightarrow>
          if gw_Valid w
          then (case gateway_rates w of [a, c, j, i, l] \<Rightarrow>
                  concat [''- Gateway metrics: admitted '', a, '' QPS, completed '', c, '' QPS, admission rejects '', j,
                    '' QPS, average in-flight '', i, '', Little'', [CHR 0x27], ''s Law W '', l, '' ms, warmup requests planned/excluded '',
                    dec_int (gw_WarmupRequests w), newline]
                | _ \<Rightarrow> []) @ (if gw_MemoryMetricsValid w then memory_line w else [])
          else concat [''- Gateway metrics: unavailable ('', describe (gw_Error w), '')'', newline])"

definition scenario_row :: "BenchmarkScenarioReport \<Rightarrow> string" where
  "scenario_row s = table_row
     [sp_Name s, sp_Pattern s, f3 (sp_ArrivalRateQPS s), dec_int (sp_TargetPromptTokens s),
      dec_int (sp_ActualPromptTokenP50 s) @ ''/'' @ dec_int (sp_ActualPromptTokenP95 s), dec_int (sp_PrefixBytes s),
      dec_int (sp_Requested s), dec_int (sp_Succeeded s), f2 (sp_TTFTP50MS s), f2 (sp_TTFTP95MS s),
      dec_int (sp_CachedPrefixSamples s), dec_int (sp_CachedPrefixSum s)]"

definition scenario_gateway :: "BenchmarkScenarioReport \<Rightarrow> string" where
  "scenario_gateway s =
     (case sp_GatewayMetrics s of
        None \<Rightarrow> []
      | Some w \<Rightarrow>
          if gw_Valid w
          then (case gateway_rates w of [a, c, j, i, l] \<Rightarrow>
                  concat [''  - Gateway '', sp_Name s, '': accepted '', a, '' QPS, completed '', c, '' QPS, rejected '', j,
                    '' QPS, average in-flight '', i, '', Little'', [CHR 0x27], ''s Law W '', l, '' ms'', newline]
                | _ \<Rightarrow> [])
          else [])"

definition report_columns :: "string list" where
  "report_columns = [''Scenario'', ''Pattern'', ''Arrival QPS'', ''Target tokens'', ''Actual P50/P95'', ''Prefix bytes'', ''Requests'',
     ''Success'', ''TTFT P50'', ''TTFT P95'', ''Cached samples'', ''Cached tokens'']"

definition report_Markdown :: "(metrics_error option \<Rightarrow> string) \<Rightarrow> BenchmarkReport \<Rightarrow> string" where
  "report_Markdown describe r =
     report_head r @ report_gateway describe (rp_GatewayMetrics r) @ newline @ table_row report_columns @ table_rule 2 10 @
     concat (map (\<lambda>s. scenario_row s @ scenario_gateway s) (rp_Scenarios r)) @ newline @
     ''Unavailable KV status is reported separately from an available zero-token cache miss. Prompt text and API credentials are not included.'' @ newline"

subsection \<open>The comparison\<close>

definition writeComparisonArm :: "string \<Rightarrow> ComparisonArm \<Rightarrow> string" where
  "writeComparisonArm name arm = table_row
     [name, dec_int (ca_Runs arm), dec_int (ca_Succeeded arm), dec_int (ca_Failed arm), f2 (ca_TTFTP50MS arm), f2 (ca_TTFTP95MS arm),
      f2 (ca_TTFTP99MS arm), f2 (ca_RunMedianTTFTP95MS arm), f2 (ca_EstimatorMAEMS arm), f2 (ca_EstimatorAbsoluteP95MS arm),
      f2 (ca_PredictionMAEMS arm), f2 (ca_PredictionAbsoluteP95MS arm), format_float 1 (ca_PredictionAgreementPercent arm) @ ''%'',
      f2 (ca_PairedPredictionMinusEstimatorMAEMS arm)]"

definition gateway_arm_row :: "string \<Rightarrow> GatewayComparisonArm \<Rightarrow> string" where
  "gateway_arm_row name arm = table_row
     [name, dec_int (ga_Runs arm), dec_int (ga_ValidRuns arm), f3 (ga_AcceptedRateQPS arm), f3 (ga_CompletedRateQPS arm),
      f3 (ga_RejectionRateQPS arm), f3 (ga_AverageInflight arm), f2 (ga_LittleLawWaitMS arm)]"

definition comparison_columns :: "string list" where
  "comparison_columns = [''Arm'', ''Runs'', ''Success'', ''Failed'', ''P50'', ''P95'', ''P99'', ''Run median P95'', ''Static MAE'',
     ''Static abs P95'', ''Learned MAE'', ''Learned abs P95'', ''Agree'', ''Paired learned-static'']"

definition gateway_columns :: "string list" where
  "gateway_columns = [''Arm'', ''Reports'', ''Valid windows'', ''Accepted QPS'', ''Completed QPS'', ''Rejection QPS'', ''Average in-flight'',
     ''Little'' @ [CHR 0x27] @ ''s Law W ms'']"

definition comparison_Markdown :: "ComparisonReport \<Rightarrow> string" where
  "comparison_Markdown r =
     concat [''# FishMesh benchmark comparison'', newline, newline,
       ''- TTFT P95 delta: '', f2 (cr_TTFTP95DeltaPercent r), ''%'', newline,
       ''- Bootstrap 95% CI: ['', f2 (cr_BootstrapLowPercent r), ''%, '', f2 (cr_BootstrapHighPercent r), ''%] ('',
       dec_int (cr_BootstrapSamples r), '' samples, seed '', dec_int (cr_Seed r), '')'', newline, newline] @
     table_row comparison_columns @ table_rule 1 13 @
     writeComparisonArm ''baseline'' (cr_Baseline r) @ writeComparisonArm ''treatment'' (cr_Treatment r) @
     (if ga_Runs (cr_BaselineGateway r) > 0 \<or> ga_Runs (cr_TreatmentGateway r) > 0
      then newline @ ''## Gateway capacity evidence'' @ newline @ newline @ table_row gateway_columns @ table_rule 1 7 @
        gateway_arm_row ''baseline'' (cr_BaselineGateway r) @ gateway_arm_row ''treatment'' (cr_TreatmentGateway r)
      else [])"

subsection \<open>The rows of the tables\<close>

text \<open>A row has as many cells as the table has columns, whatever the numbers are.\<close>

definition cell_text :: "string \<Rightarrow> bool" where
  "cell_text c \<longleftrightarrow> CHR ''|'' \<notin> set c \<and> CHR 10 \<notin> set c"

lemma dec_int_cell: "cell_text (dec_int i)"
  using dec_nat_is_digit [of "nat i"] dec_nat_is_digit [of "nat (- i)"]
  by (auto simp: cell_text_def dec_int_def list_all_iff is_digit_def)

lemma fixed_point_cell: "cell_text (fixed_point k q)"
  using dec_nat_is_digit pad_dec_digits
  by (fastforce simp: cell_text_def fixed_point_def Let_def list_all_iff is_digit_def)

lemma format_float_cell: "cell_text (format_float k x)"
  by (cases x) (simp_all add: fixed_point_cell, simp_all add: cell_text_def)

lemmas cells = dec_int_cell format_float_cell

definition cell_count :: "string \<Rightarrow> nat" where
  "cell_count row = length (split_at (CHR ''|'') row)"

lemma cell_count_cells: "list_all cell_text cs \<Longrightarrow> cell_count (concat (map (\<lambda>c. '' '' @ c @ '' |'') cs) @ newline) = length cs + 1"
proof (induction cs)
  case (Cons c cs)
  let ?rest = "concat (map (\<lambda>c. '' '' @ c @ '' |'') cs) @ newline"
  have eq: "concat (map (\<lambda>c. '' '' @ c @ '' |'') (c # cs)) @ newline = ('' '' @ c @ '' '') @ CHR ''|'' # ?rest" by simp
  have "CHR ''|'' \<notin> set ('' '' @ c @ '' '')" using Cons.prems by (simp add: cell_text_def)
  from split_at_sep [OF this] show ?case using Cons unfolding eq cell_count_def by simp
qed (simp add: newline_def cell_count_def)

lemma cell_count_row: "list_all cell_text cs \<Longrightarrow> cell_count (table_row cs) = length cs + 2"
  using cell_count_cells [of cs] by (simp add: table_row_def cell_count_def)

lemma cell_count_rule: "cell_count (table_rule l n) = l + n + 2"
proof -
  have right: "length (split_at (CHR ''|'') (concat (replicate n ''---:|'') @ newline)) = n + 1"
    by (induction n) (simp_all add: newline_def)
  have "length (split_at (CHR ''|'') (concat (replicate l ''---|'') @ concat (replicate n ''---:|'') @ newline)) = l + n + 1"
    by (induction l) (simp_all add: right)
  then show ?thesis by (simp add: cell_count_def table_rule_def)
qed

text \<open>
  The rows of a table line up with its header and its rule: they have the same number of cells, whatever
  the numbers are, when the name of the arm or of the scenario has neither a bar nor a newline.
\<close>

theorem tables_aligned:
  "cell_text name \<Longrightarrow> cell_count (writeComparisonArm name arm) = cell_count (table_row comparison_columns)
     \<and> cell_count (gateway_arm_row name garm) = cell_count (table_row gateway_columns)"
  "cell_count (table_rule 1 13) = cell_count (table_row comparison_columns)"
  "cell_count (table_rule 1 7) = cell_count (table_row gateway_columns)"
  "cell_text (sp_Name s) \<Longrightarrow> cell_text (sp_Pattern s) \<Longrightarrow> cell_count (scenario_row s) = cell_count (table_row report_columns)"
  "cell_count (table_rule 2 10) = cell_count (table_row report_columns)"
proof -
  have head: "list_all cell_text comparison_columns" "list_all cell_text gateway_columns" "list_all cell_text report_columns"
    by (simp_all add: comparison_columns_def gateway_columns_def report_columns_def cell_text_def)
  note counts = cell_count_row cell_count_rule head
  have pct: "cell_text (format_float 1 x @ ''%'')" "cell_text (dec_int i @ ''/'' @ dec_int j)" for x i j
    using dec_int_cell [of i] dec_int_cell [of j] format_float_cell [of 1 x] by (simp_all add: cell_text_def)
  show "cell_text name \<Longrightarrow> cell_count (writeComparisonArm name arm) = cell_count (table_row comparison_columns)
     \<and> cell_count (gateway_arm_row name garm) = cell_count (table_row gateway_columns)"
    using pct(1) by (simp add: writeComparisonArm_def gateway_arm_row_def counts cells f2_def f3_def)
      (simp add: comparison_columns_def gateway_columns_def)
  show "cell_text (sp_Name s) \<Longrightarrow> cell_text (sp_Pattern s) \<Longrightarrow> cell_count (scenario_row s) = cell_count (table_row report_columns)"
    using pct(2) by (simp add: scenario_row_def counts cells f2_def f3_def) (simp add: report_columns_def)
qed (simp_all add: cell_count_rule cell_count_row comparison_columns_def gateway_columns_def report_columns_def cell_text_def)

text \<open>
  In the benchmark report the line with the gateway metrics of a scenario stands between the row of that
  scenario and the row of the next one: a list item interrupts the table.
\<close>

theorem gateway_line_splits_table:
  assumes "rp_Scenarios r = s # s' # ss" and "sp_GatewayMetrics s = Some w" and "gw_Valid w"
  shows "\<exists>before rest after. report_Markdown describe r = before @ scenario_row s @ ''  - Gateway '' @ rest @ newline @ scenario_row s' @ after"
proof -
  obtain rest where line: "scenario_gateway s = ''  - Gateway '' @ rest @ newline"
    using assms(2,3) by (simp add: scenario_gateway_def gateway_rates_def)
  show ?thesis
    by (rule exI [of _ "report_head r @ report_gateway describe (rp_GatewayMetrics r) @ newline @ table_row report_columns @ table_rule 2 10"],
        rule exI [of _ rest], rule exI) (simp add: report_Markdown_def assms(1) line)
qed

end
