(* ===== verification/Client_Cli.thy ===== *)
theory Client_Cli
  imports Go_Flag Bench_Markdown
begin

text \<open>
  \<open>cmd/fishmesh-client/main.go\<close>: the commands \<open>request\<close>, \<open>chat\<close>, \<open>bench\<close> and \<open>compare\<close>, from the arguments
  to the exit status. What the process reads from outside is the record \<open>cli_world\<close>; what it writes is the
  record \<open>io\<close>: standard output, the diagnostics, the files of the conversation history, and the artifacts of
  \<open>bench\<close> and \<open>compare\<close>. A JSON artifact, written in one piece, is kept as the value that was encoded, the JSONL
  file, written through a buffer, as its bytes. The text the package \<open>flag\<close> prints for an error is an argument. The requests handed to the client are recorded in \<open>io\<close> for the theorems.
\<close>

subsection \<open>The outside\<close>

datatype artifact =
    PlanJSON BenchmarkPlan | RequestsJSONL string | ReportJSON BenchmarkReport | ComparisonJSON ComparisonReport | MarkdownText string

record cli_world =
  cv_apiKey :: string \<comment> \<open>\<open>FISHMESH_API_KEY\<close>\<close>
  cv_url_parse :: url_parser
  cv_url_string :: "string \<Rightarrow> string"
  cv_home :: "string option"
  cv_now :: time
  cv_terminal :: bool \<comment> \<open>the diagnostics are a file and a character device\<close>
  cv_flag_text :: "string \<Rightarrow> flag_error \<Rightarrow> string"
  cv_send :: "client_Config \<Rightarrow> client_Request \<Rightarrow> nat \<Rightarrow> send_world" \<comment> \<open>the exchange of the request with the given number\<close>
  cv_accepts :: "string \<Rightarrow> bool" \<comment> \<open>whether standard output takes the bytes written so far\<close>
  cv_partial :: "string \<Rightarrow> string" \<comment> \<open>what remains of a text whose last write failed\<close>
  cv_encode :: "Message list \<Rightarrow> string"
  cv_decode :: "string \<Rightarrow> (Message list \<times> bool) option"
  cv_saves :: "nat \<Rightarrow> bool" \<comment> \<open>whether the history can be written after the given number of requests\<close>
  cv_removes :: bool
  cv_compare :: compare_world
  cv_rand :: "int \<Rightarrow> nat \<Rightarrow> nat \<Rightarrow> nat"
  cv_describe :: "metrics_error option \<Rightarrow> string"
  cv_mkdir :: "string \<Rightarrow> bool"
  cv_marshals :: "artifact \<Rightarrow> bool"
  cv_writes :: "string \<Rightarrow> bool"
  cv_closes :: "string \<Rightarrow> bool"
  cv_plan_file :: "string \<Rightarrow> string option"
  cv_plan_decode :: "string \<Rightarrow> BenchmarkPlan option"
  cv_perm :: "int \<Rightarrow> nat \<Rightarrow> nat list"
  cv_line :: "jsonl \<Rightarrow> string option" \<comment> \<open>\<open>json.Marshal\<close> of a record of the JSONL file\<close>
  cv_run :: "client_Config \<Rightarrow> BenchmarkPlan \<Rightarrow> run_world"
  cv_reads :: "string \<times> duration \<Rightarrow> string \<Rightarrow> int \<Rightarrow> segment_reads" \<comment> \<open>by the endpoint and the interval of the metrics reader\<close>

record io =
  io_out :: string
  io_diag :: string
  io_files :: "string \<Rightarrow> file_read"
  io_artifacts :: "(string \<times> artifact) list"
  io_sent :: "client_Request list"

datatype cli_error =
    CliUsage | CliUnknownCommand string | CliFlag flag_error | CliPromptRequired | CliColor string | CliClient client_error
  | CliClearNeedsHistory | CliHome | CliHistory history_error | CliScanner
  | CliCompare compare_error | CliReportGroups
  | CliPlan plan_error | CliMetrics metrics_error | CliRun run_error | CliClose
  | CliMkdir string | CliMarshal | CliWrite string

definition say :: "string \<Rightarrow> io \<Rightarrow> io" where
  "say t st = st\<lparr>io_diag := io_diag st @ t\<rparr>"

definition print_out :: "string \<Rightarrow> io \<Rightarrow> io" where
  "print_out t st = st\<lparr>io_out := io_out st @ t\<rparr>"

definition put_artifact :: "string \<Rightarrow> artifact \<Rightarrow> io \<Rightarrow> io" where
  "put_artifact path a st = st\<lparr>io_artifacts := io_artifacts st @ [(path, a)]\<rparr>"

subsection \<open>Colors\<close>

definition colorAuto :: string where "colorAuto = ''auto''"
definition colorAlways :: string where "colorAlways = ''always''"
definition colorNever :: string where "colorNever = ''never''"

definition ansiEscape :: string where "ansiEscape = [CHR 0x1B, CHR ''['']"
definition ansiReset :: string where "ansiReset = ansiEscape @ ''0m''"
definition ansiCyan :: string where "ansiCyan = ansiEscape @ ''36m''"
definition ansiGreen :: string where "ansiGreen = ansiEscape @ ''32m''"
definition ansiYellow :: string where "ansiYellow = ansiEscape @ ''33m''"
definition ansiBlue :: string where "ansiBlue = ansiEscape @ ''34m''"
definition ansiPurple :: string where "ansiPurple = ansiEscape @ ''35m''"
definition ansiDim :: string where "ansiDim = ansiEscape @ ''2m''"

definition parseColorMode :: "string \<Rightarrow> cli_error + string" where
  "parseColorMode raw = (if raw \<in> {colorAuto, colorAlways, colorNever} then Inr raw else Inl (CliColor raw))"

definition colorForDiagnostics :: "cli_world \<Rightarrow> string \<Rightarrow> cli_error + bool" where
  "colorForDiagnostics w raw =
     (case parseColorMode raw of
        Inl e \<Rightarrow> Inl e
      | Inr mode \<Rightarrow> Inr (if mode = colorAlways then True else if mode = colorNever then False else cv_terminal w))"

definition colorize :: "string \<Rightarrow> string \<Rightarrow> bool \<Rightarrow> string" where
  "colorize v sequence enabled = (if \<not> enabled \<or> v = [] then v else sequence @ v @ ansiReset)"

definition evidence_fields :: "client_Result \<Rightarrow> (string \<times> string \<times> string) list" where
  \<comment> \<open>the labels, the color sequences, empty for a plain value, and the values\<close>
  "evidence_fields result =
     (let h = crs_Headers result
      in [(''ttft='', ansiCyan, Duration_String (Duration_Round Millisecond (crs_TTFT result))),
          ('' duration='', ansiDim, Duration_String (Duration_Round Millisecond (crs_Duration result))),
          ('' routing_mode='', ansiBlue, dh_RoutingMode h),
          ('' route_reason='', ansiYellow, dh_RouteReason h),
          ('' policy='', ansiGreen, dh_Policy h),
          ('' kv_status='', ansiYellow, dh_KVStatus h),
          ('' prompt_tokens='', [], dec_int (dh_PromptTokens h)),
          ('' cached_prefix_tokens='', [], dec_int (dh_CachedPrefixTokens h)),
          ('' uncached_tokens='', [], dec_int (dh_UncachedTokens h)),
          ('' estimated_ttft_ms='', [], format_float 3 (dh_EstimatedTTFTMS h)),
          ('' estimator_confidence='', [], dh_EstimatorConfidence h),
          ('' estimator_version='', [], dh_EstimatorVersion h),
          ('' load_valid='', [], format_bool (dh_LoadValid h)),
          ('' queue='', [], dec_int (dh_QueueDepth h)),
          ('' running='', [], dec_int (dh_RunningRequests h)),
          ('' local_delta='', [], dec_int (dh_LocalDelta h)),
          ('' local_inflight='', [], dec_int (dh_LocalInflight h)),
          ('' backend_id='', ansiPurple, dh_BackendID h),
          ('' preferred_backend_id='', [], dh_PreferredBackendID h),
          ('' upstream='', [], dh_Upstream h),
          ('' spillover_reason='', [], dh_SpilloverReason h)])"

definition formatDiagnosticEvidence :: "client_Result \<Rightarrow> bool \<Rightarrow> string" where
  "formatDiagnosticEvidence result color =
     concat (map (\<lambda>(label, sequence, v). label @ (if sequence = [] then v else colorize v sequence color)) (evidence_fields result))"

definition fprintlnDiagnosticEvidence :: "client_Result \<Rightarrow> bool \<Rightarrow> io \<Rightarrow> io" where
  "fprintlnDiagnosticEvidence result color st = say (formatDiagnosticEvidence result color @ newline) st"

subsection \<open>The client\<close>

definition defaultEndpoint :: string where "defaultEndpoint = ''http://127.0.0.1:8080''"
definition defaultModel :: string where "defaultModel = ''qwen2.5-0.5b-instruct''"

record common_flags =
  fl_endpoint :: string
  fl_model :: string
  fl_maxTokens :: int
  fl_timeout :: duration

definition commonFlags :: "'a common_flags_scheme flag_set" where
  "commonFlags =
     [(''endpoint'', string_flag (\<lambda>v f. f\<lparr>fl_endpoint := v\<rparr>)), (''model'', string_flag (\<lambda>v f. f\<lparr>fl_model := v\<rparr>)),
      (''max-tokens'', int_flag (\<lambda>v f. f\<lparr>fl_maxTokens := v\<rparr>)), (''timeout'', duration_flag (\<lambda>v f. f\<lparr>fl_timeout := v\<rparr>))]"

definition newClient :: "cli_world \<Rightarrow> string \<Rightarrow> string \<Rightarrow> int \<Rightarrow> duration \<Rightarrow> cli_error + client_Config" where
  "newClient w endpoint model maxTokens timeout =
     (case client_New (cv_url_parse w) \<lparr>cl_Endpoint = endpoint, cl_Model = model, cl_MaxTokens = maxTokens,
             cl_RequestTimeout = timeout, cl_APIKey = cv_apiKey w\<rparr> of
        Inl e \<Rightarrow> Inl (CliClient e) | Inr service \<Rightarrow> Inr service)"

definition cli_Send :: "cli_world \<Rightarrow> client_Config \<Rightarrow> string \<Rightarrow> bool \<Rightarrow> Message list \<Rightarrow> io \<Rightarrow>
    client_Result \<times> client_error option \<times> io" where
  \<comment> \<open>\<open>service.Send\<close> with standard output as the stream, the newline after it and the line of evidence\<close>
  "cli_Send w service sessionKey color messages st =
     (let request = \<lparr>crq_Messages = messages, crq_SessionKey = sessionKey, crq_CacheSalt = [], crq_IgnoreEOS = False, crq_MaxTokens = 0\<rparr>;
          outside = (cv_send w service request (length (io_sent st)))\<lparr>sw_output := Some (\<lambda>t. cv_accepts w (io_out st @ t))\<rparr>;
          (result, err) = client_Send outside request;
          streamed = (if err = Some (ErrStream ErrWriteOutput) then cv_partial w (crs_Text result) else crs_Text result);
          st1 = print_out newline (print_out streamed (st\<lparr>io_sent := io_sent st @ [request]\<rparr>))
      in (result, err, fprintlnDiagnosticEvidence result color st1))"

subsection \<open>request\<close>

record request_flags = common_flags +
  fr_prompt :: string
  fr_system :: string
  fr_sessionKey :: string
  fr_color :: string

definition default_request_flags :: request_flags where
  "default_request_flags = \<lparr>fl_endpoint = defaultEndpoint, fl_model = defaultModel, fl_maxTokens = DefaultMaxTokens, fl_timeout = 90 * Second,
     fr_prompt = [], fr_system = [], fr_sessionKey = [], fr_color = colorAuto\<rparr>"

definition request_flag_set :: "request_flags flag_set" where
  "request_flag_set = commonFlags @
     [(''prompt'', string_flag (\<lambda>v f. f\<lparr>fr_prompt := v\<rparr>)), (''system'', string_flag (\<lambda>v f. f\<lparr>fr_system := v\<rparr>)),
      (''session-key'', string_flag (\<lambda>v f. f\<lparr>fr_sessionKey := v\<rparr>)), (''color'', string_flag (\<lambda>v f. f\<lparr>fr_color := v\<rparr>))]"

definition user_message :: "string \<Rightarrow> Message" where
  "user_message t = \<lparr>msg_Role = RoleUser, msg_Content = t\<rparr>"

definition system_message :: "string \<Rightarrow> Message" where
  "system_message t = \<lparr>msg_Role = RoleSystem, msg_Content = t\<rparr>"

definition assistant_message :: "string \<Rightarrow> Message" where
  "assistant_message t = \<lparr>msg_Role = RoleAssistant, msg_Content = t\<rparr>"

definition runRequest :: "cli_world \<Rightarrow> string list \<Rightarrow> io \<Rightarrow> io \<times> cli_error option" where
  "runRequest w arguments st =
     (case FlagSet_Parse request_flag_set arguments default_request_flags of
        Inl e \<Rightarrow> (say (cv_flag_text w ''request'' e) st, Some (CliFlag e))
      | Inr (f, _) \<Rightarrow>
          if fr_prompt f = [] then (st, Some CliPromptRequired)
          else case colorForDiagnostics w (fr_color f) of
            Inl e \<Rightarrow> (st, Some e)
          | Inr color \<Rightarrow>
              (case newClient w (fl_endpoint f) (fl_model f) (fl_maxTokens f) (fl_timeout f) of
                 Inl e \<Rightarrow> (st, Some e)
               | Inr service \<Rightarrow>
                   let messages = (if fr_system f \<noteq> [] then [system_message (fr_system f)] else []) @ [user_message (fr_prompt f)];
                       (result, err, st1) = cli_Send w service (fr_sessionKey f) color messages st
                   in (st1, map_option CliClient err)))"

subsection \<open>chat\<close>

record chat_flags = common_flags +
  fc_history :: string
  fc_system :: string
  fc_sessionKey :: string
  fc_clear :: bool
  fc_color :: string

definition default_chat_flags :: chat_flags where
  "default_chat_flags = \<lparr>fl_endpoint = defaultEndpoint, fl_model = defaultModel, fl_maxTokens = DefaultMaxTokens, fl_timeout = 90 * Second,
     fc_history = [], fc_system = [], fc_sessionKey = [], fc_clear = False, fc_color = colorAuto\<rparr>"

definition chat_flag_set :: "chat_flags flag_set" where
  "chat_flag_set = commonFlags @
     [(''history'', string_flag (\<lambda>v f. f\<lparr>fc_history := v\<rparr>)), (''system'', string_flag (\<lambda>v f. f\<lparr>fc_system := v\<rparr>)),
      (''session-key'', string_flag (\<lambda>v f. f\<lparr>fc_sessionKey := v\<rparr>)), (''clear'', bool_flag (\<lambda>v f. f\<lparr>fc_clear := v\<rparr>)),
      (''color'', string_flag (\<lambda>v f. f\<lparr>fc_color := v\<rparr>))]"

definition defaultHistoryRelativeDir :: string where "defaultHistoryRelativeDir = ''.local/state/fishmesh''"

definition resolveHistoryPath :: "string option \<Rightarrow> string \<Rightarrow> time \<Rightarrow> cli_error + string" where
  "resolveHistoryPath home path now =
     (if path \<noteq> [] then Inr path
      else case home of
        None \<Rightarrow> Inl CliHome
      | Some dir \<Rightarrow> Inr (path_Join [dir, defaultHistoryRelativeDir, format_stamp now @ ''.json'']))"

definition scannerLimit :: nat where
  \<comment> \<open>\<open>bufio.MaxScanTokenSize\<close>\<close>
  "scannerLimit = 65536"

fun chat_loop :: "cli_world \<Rightarrow> client_Config \<Rightarrow> string \<Rightarrow> bool \<Rightarrow> string \<Rightarrow> bool \<Rightarrow> string list \<Rightarrow> Message list \<Rightarrow> io \<Rightarrow>
    io \<times> cli_error option" where
  "chat_loop w service key color path failed [] messages st = (st, if failed then Some CliScanner else None)"
| "chat_loop w service key color path failed (prompt # lines) messages st =
     (if prompt = [] then chat_loop w service key color path failed lines messages st
      else
        let requestMessages = messages @ [user_message prompt];
            (result, requestErr, st1) = cli_Send w service key color requestMessages st
        in case requestErr of
             Some e \<Rightarrow> (st1, Some (CliClient e))
           | None \<Rightarrow>
               let messages' = requestMessages @ [assistant_message (crs_Text result)];
                   (err, files) = SaveHistory (cv_encode w) (cv_saves w (length (io_sent st1))) path messages' (io_files st1);
                   st2 = st1\<lparr>io_files := files\<rparr>
               in case err of
                    Some e \<Rightarrow> (st2, Some (CliHistory e))
                  | None \<Rightarrow> chat_loop w service key color path failed lines messages' st2)"

definition chat_banner :: string where
  "chat_banner = ''Enter a message per line. EOF ends the conversation.'' @ newline"

definition chat_session :: "cli_world \<Rightarrow> chat_flags \<Rightarrow> string \<Rightarrow> string \<Rightarrow> bool \<Rightarrow> io \<Rightarrow> io \<times> cli_error option" where
  \<comment> \<open>\<open>runChat\<close> after the history has been selected; the input and whether reading it ends with an error\<close>
  "chat_session w f path input read_failed st =
     (case colorForDiagnostics w (fc_color f) of
        Inl e \<Rightarrow> (st, Some e)
      | Inr color \<Rightarrow>
          (case LoadHistory (io_files st) (cv_decode w) path of
             Inl e \<Rightarrow> (st, Some (CliHistory e))
           | Inr loaded \<Rightarrow>
               let messages = (if length loaded = 0 \<and> fc_system f \<noteq> [] then [system_message (fc_system f)] else loaded)
               in case newClient w (fl_endpoint f) (fl_model f) (fl_maxTokens f) (fl_timeout f) of
                    Inl e \<Rightarrow> (st, Some e)
                  | Inr service \<Rightarrow>
                      let (lines, too_long) = scan_lines scannerLimit input
                      in chat_loop w service (fc_sessionKey f) color path (too_long \<or> read_failed) lines messages (say chat_banner st)))"

definition runChat :: "cli_world \<Rightarrow> string list \<Rightarrow> string \<Rightarrow> bool \<Rightarrow> io \<Rightarrow> io \<times> cli_error option" where
  "runChat w arguments input read_failed st =
     (case FlagSet_Parse chat_flag_set arguments default_chat_flags of
        Inl e \<Rightarrow> (say (cv_flag_text w ''chat'' e) st, Some (CliFlag e))
      | Inr (f, _) \<Rightarrow>
          if fc_clear f \<and> fc_history f = [] then (st, Some CliClearNeedsHistory)
          else case resolveHistoryPath (cv_home w) (fc_history f) (cv_now w) of
            Inl e \<Rightarrow> (st, Some e)
          | Inr path \<Rightarrow>
              if fc_clear f
              then (case ClearHistory (cv_removes w) path (io_files st) of (err, files) \<Rightarrow> (st\<lparr>io_files := files\<rparr>, map_option CliHistory err))
              else chat_session w f path input read_failed
                (if fc_history f = [] then say (''using default history='' @ path @ newline) st else st))"

end
