(* ===== verification/Client_Chat.thy ===== *)
theory Client_Chat
  imports Client_Cli
begin

text \<open>
  What the commands \<open>request\<close> and \<open>chat\<close> do: the line of evidence with and without colors, the command line read
  back, the default history file, and the conversation that \<open>chat\<close> holds, sends and saves.
\<close>

subsection \<open>Colors only decorate\<close>

fun strip_ansi :: "bool \<Rightarrow> string \<Rightarrow> string" where
  \<comment> \<open>removes every control sequence, from the escape to the next \<open>m\<close>; the flag tells that one is open\<close>
  "strip_ansi inside [] = []"
| "strip_ansi True (c # s) = strip_ansi (c \<noteq> CHR ''m'') s"
| "strip_ansi False (c # s) = (if c = CHR 0x1B then strip_ansi True s else c # strip_ansi False s)"

definition plain :: "string \<Rightarrow> bool" where
  "plain s \<longleftrightarrow> CHR 0x1B \<notin> set s"

definition plain_headers :: "DecisionHeaders \<Rightarrow> bool" where
  "plain_headers h \<longleftrightarrow> list_all plain
     [dh_RoutingMode h, dh_RouteReason h, dh_Policy h, dh_KVStatus h, dh_EstimatorConfidence h, dh_EstimatorVersion h, dh_BackendID h,
      dh_PreferredBackendID h, dh_Upstream h, dh_SpilloverReason h]"

lemma plain_append [simp]: "plain (a @ b) \<longleftrightarrow> plain a \<and> plain b"
  by (simp add: plain_def)

lemma strip_plain: "plain a \<Longrightarrow> strip_ansi False (a @ b) = a @ strip_ansi False b"
  by (induction a) (auto simp: plain_def)

lemma plain_digits: "list_all is_digit s \<Longrightarrow> plain s"
  by (auto simp: plain_def list_all_iff is_digit_def)

lemma plain_dec_nat [simp]: "plain (dec_nat n)"
  by (rule plain_digits [OF dec_nat_is_digit])

lemma plain_pad_dec [simp]: "plain (pad_dec k n)"
  by (rule plain_digits) (auto simp: list_all_iff pad_dec_digits)

lemma plain_dec_int [simp]: "plain (dec_int i)"
  using plain_dec_nat [of "nat i"] plain_dec_nat [of "nat (- i)"] by (simp add: dec_int_def plain_def)

lemma plain_format_float [simp]: "plain (format_float k x)"
proof (cases x)
  case (Fin q)
  then show ?thesis using plain_dec_nat plain_pad_dec by (simp add: fixed_point_def Let_def plain_def)
qed (simp_all add: plain_def)

lemma plain_fraction [simp]: "plain (fraction_text k n)"
  using plain_pad_dec [of k "n mod 10 ^ k"]
  by (auto simp: fraction_text_def plain_def Let_def dest!: set_dropWhileD)

lemma plain_Duration_String [simp]: "plain (Duration_String d)"
proof -
  have "plain ''ns''" "plain ''ms''" "plain ''s''" "plain ''m''" "plain ''h''" "plain [CHR 0xC2, CHR 0xB5, CHR ''s'']" "plain ''0s''" "plain ''-''" "plain ''''"
    by (simp_all add: plain_def)
  then have "plain (magnitude_text n)" for n by (simp only: magnitude_text_def Let_def plain_append plain_dec_nat plain_fraction split: if_split) simp
  with \<open>plain ''-''\<close> \<open>plain ''''\<close> show ?thesis by (simp add: Duration_String_def del: append.simps)
qed

definition color_sequence :: "string \<Rightarrow> bool" where
  "color_sequence s \<longleftrightarrow> s \<in> {ansiCyan, ansiGreen, ansiYellow, ansiBlue, ansiPurple, ansiDim}"

lemma strip_sequence: "color_sequence s \<or> s = ansiReset \<Longrightarrow> strip_ansi False (s @ b) = strip_ansi False b"
  by (auto simp: color_sequence_def ansiCyan_def ansiGreen_def ansiYellow_def ansiBlue_def ansiPurple_def ansiDim_def ansiReset_def ansiEscape_def)

lemma strip_colorize:
  "plain v \<Longrightarrow> color_sequence s \<Longrightarrow> strip_ansi False (colorize v s c @ b) = v @ strip_ansi False b"
  by (simp add: colorize_def strip_plain strip_sequence)

lemma strip_fields:
  "list_all (\<lambda>(l, s, v). plain l \<and> plain v \<and> (s = [] \<or> color_sequence s)) fs \<Longrightarrow>
     strip_ansi False (concat (map (\<lambda>(l, s, v). l @ (if s = [] then v else colorize v s c)) fs)) = concat (map (\<lambda>(l, s, v). l @ v) fs)"
proof (induction fs)
  case (Cons f fs)
  obtain l s v where f: "f = (l, s, v)" by (cases f)
  then show ?case using Cons by (cases "s = []") (simp_all add: strip_plain strip_colorize)
qed simp

lemma evidence_plain:
  assumes "plain_headers (crs_Headers r)"
  shows "list_all (\<lambda>(l, s, v). plain l \<and> plain v \<and> (s = [] \<or> color_sequence s)) (evidence_fields r)"
proof -
  have "plain (format_bool b)" for b by (simp add: format_bool_def plain_def)
  moreover have "plain ''ttft=''" "plain '' duration=''" "plain '' routing_mode=''" "plain '' route_reason=''" "plain '' policy=''" "plain '' kv_status=''"
    "plain '' prompt_tokens=''" "plain '' cached_prefix_tokens=''" "plain '' uncached_tokens=''" "plain '' estimated_ttft_ms=''"
    "plain '' estimator_confidence=''" "plain '' estimator_version=''" "plain '' load_valid=''" "plain '' queue=''" "plain '' running=''"
    "plain '' local_delta=''" "plain '' local_inflight=''" "plain '' backend_id=''" "plain '' preferred_backend_id=''" "plain '' upstream=''"
    "plain '' spillover_reason=''" by (simp_all add: plain_def)
  moreover have "color_sequence ansiCyan" "color_sequence ansiDim" "color_sequence ansiBlue" "color_sequence ansiYellow" "color_sequence ansiGreen"
    "color_sequence ansiPurple" by (simp_all add: color_sequence_def)
  ultimately show ?thesis using assms by (simp add: evidence_fields_def plain_headers_def Let_def)
qed

lemma formatDiagnosticEvidence_off: "formatDiagnosticEvidence r False = concat (map (\<lambda>(l, s, v). l @ v) (evidence_fields r))"
  unfolding formatDiagnosticEvidence_def by (rule arg_cong [where f = concat]) (simp add: colorize_def split_beta)

lemma plain_concat: "plain (concat xs) \<longleftrightarrow> list_all plain xs"
  by (induction xs) (simp_all, simp add: plain_def)

text \<open>
  Colors only decorate the line of evidence: with them off it has no control sequence, and removing the
  sequences from the colored line gives the same line, for a result whose headers contain none.
\<close>

theorem colors_only_decorate:
  assumes "plain_headers (crs_Headers result)"
  shows "strip_ansi False (formatDiagnosticEvidence result color) = formatDiagnosticEvidence result False
    \<and> CHR 0x1B \<notin> set (formatDiagnosticEvidence result False)"
proof
  show "strip_ansi False (formatDiagnosticEvidence result color) = formatDiagnosticEvidence result False"
    unfolding formatDiagnosticEvidence_off by (simp only: formatDiagnosticEvidence_def strip_fields [OF evidence_plain [OF assms]])
  have "plain (formatDiagnosticEvidence result False)"
    using evidence_plain [OF assms] unfolding formatDiagnosticEvidence_off plain_concat by (auto simp: list_all_iff)
  then show "CHR 0x1B \<notin> set (formatDiagnosticEvidence result False)" by (simp add: plain_def)
qed

lemma zero_headers_plain: "plain_headers (crs_Headers zero_Result)"
  by (simp add: plain_headers_def zero_Result_def zero_DecisionHeaders_def decisionHeaders_def Header_Get_def Header_Values_def mget_def Let_def plain_def)

theorem colors_only_decorate_witness:
  "strip_ansi False (formatDiagnosticEvidence zero_Result True) = formatDiagnosticEvidence zero_Result False"
  using colors_only_decorate [OF zero_headers_plain] by blast

subsection \<open>The command line\<close>

definition request_arguments :: "(string \<Rightarrow> bool) \<Rightarrow> request_flags \<Rightarrow> string list" where
  \<comment> \<open>every flag, with an equals sign or as two arguments, as \<open>joined\<close> chooses\<close>
  "request_arguments joined f = concat (map (\<lambda>(n, v). assignment (joined n) n v)
     [(''endpoint'', fl_endpoint f), (''model'', fl_model f), (''max-tokens'', dec_int (fl_maxTokens f)),
      (''timeout'', dec_int (fl_timeout f) @ ''ns''), (''prompt'', fr_prompt f), (''system'', fr_system f),
      (''session-key'', fr_sessionKey f), (''color'', fr_color f)])"

lemma ParseDuration_nanos: "0 \<le> d \<Longrightarrow> d \<le> max_int64 \<Longrightarrow> ParseDuration (dec_int d @ ''ns'') = Some d"
  using ParseDuration_whole [of "''ns''" Nanosecond "nat d"] by (simp add: dec_int_def unitMap_def Nanosecond_def)

text \<open>
  The flags of \<open>request\<close> survive the command line: the arguments that spell them out, each with an equals
  sign or as two arguments, are read back as those flags, and no argument is left over.
\<close>

theorem request_arguments_read_back:
  assumes "in_int64 (fl_maxTokens f)" and "0 \<le> fl_timeout f" and "fl_timeout f \<le> max_int64"
  shows "FlagSet_Parse request_flag_set (request_arguments joined f) default_request_flags = Inr (f, [])"
proof -
  have names: "plain_name n" if "n \<in> set [''endpoint'', ''model'', ''max-tokens'', ''timeout'', ''prompt'', ''system'', ''session-key'', ''color'']" for n
    using that by (auto simp: plain_name_def)
  note d = default_request_flags_def request_flag_set_def commonFlags_def string_flag_def int_flag_def duration_flag_def
  have set_string: "FlagSet_Parse request_flag_set (assignment j n v @ rest) st = FlagSet_Parse request_flag_set rest (g v st)"
    if "map_of request_flag_set n = Some (string_flag g)" "plain_name n" for j n v rest st g
    using that by (intro parse_assignment [where isBool = False and set_value = "\<lambda>v st. Some (g v st)"]) (simp_all add: string_flag_def)
  have set_int: "FlagSet_Parse request_flag_set (assignment j ''max-tokens'' (dec_int i) @ rest) st = FlagSet_Parse request_flag_set rest (st\<lparr>fl_maxTokens := i\<rparr>)"
    if "in_int64 i" for j i rest st
    using that by (intro parse_assignment [where isBool = False and set_value = "\<lambda>v st. map_option (\<lambda>i. st\<lparr>fl_maxTokens := i\<rparr>) (ParseInt0 v)"])
      (simp_all add: names d ParseInt0_dec_int)
  have set_time: "FlagSet_Parse request_flag_set (assignment j ''timeout'' (dec_int i @ ''ns'') @ rest) st = FlagSet_Parse request_flag_set rest (st\<lparr>fl_timeout := i\<rparr>)"
    if "0 \<le> i" "i \<le> max_int64" for j i rest st
    using that by (intro parse_assignment [where isBool = False and set_value = "\<lambda>v st. map_option (\<lambda>i. st\<lparr>fl_timeout := i\<rparr>) (ParseDuration v)"])
      (simp_all add: names d ParseDuration_nanos del: append.simps)
  have strings: "map_of request_flag_set ''endpoint'' = Some (string_flag (\<lambda>v f. f\<lparr>fl_endpoint := v\<rparr>))"
    "map_of request_flag_set ''model'' = Some (string_flag (\<lambda>v f. f\<lparr>fl_model := v\<rparr>))"
    "map_of request_flag_set ''prompt'' = Some (string_flag (\<lambda>v f. f\<lparr>fr_prompt := v\<rparr>))"
    "map_of request_flag_set ''system'' = Some (string_flag (\<lambda>v f. f\<lparr>fr_system := v\<rparr>))"
    "map_of request_flag_set ''session-key'' = Some (string_flag (\<lambda>v f. f\<lparr>fr_sessionKey := v\<rparr>))"
    "map_of request_flag_set ''color'' = Some (string_flag (\<lambda>v f. f\<lparr>fr_color := v\<rparr>))"
    by (simp_all add: request_flag_set_def commonFlags_def)
  have last: "FlagSet_Parse request_flag_set (assignment j ''color'' v) st = Inr (st\<lparr>fr_color := v\<rparr>, [])" for j v st
    using set_string [OF strings(6), of j v "[]" st] by (simp add: names)
  show ?thesis
    unfolding request_arguments_def
    by (simp add: set_string [OF strings(1)] set_string [OF strings(2)] set_string [OF strings(3)] set_string [OF strings(4)]
        set_string [OF strings(5)] last set_int [OF assms(1)] set_time [OF assms(2,3)] names default_request_flags_def del: append.simps)
qed

theorem request_arguments_read_back_witness:
  "\<exists>f. fr_prompt f = ''hi'' \<and> FlagSet_Parse request_flag_set (request_arguments (\<lambda>n. n = ''prompt'') f) default_request_flags = Inr (f, [])"
proof -
  let ?f = "default_request_flags\<lparr>fr_prompt := ''hi''\<rparr>"
  have "in_int64 (fl_maxTokens ?f)" "0 \<le> fl_timeout ?f" "fl_timeout ?f \<le> max_int64"
    by (simp_all add: default_request_flags_def DefaultMaxTokens_def Second_def in_int64_def min_int64_def max_int64_def)
  from request_arguments_read_back [OF this] show ?thesis by (intro exI [of _ ?f]) simp
qed

subsection \<open>The default history\<close>

lemma stamp_file: "in_calendar t \<Longrightarrow> file_name (format_stamp t @ ''.json'')"
  using format_stamp_chars [of t] by (auto simp: file_name_def is_digit_def)

text \<open>
  Two conversations started without \<open>--history\<close> at different instants never share a history file.
\<close>

theorem default_histories_differ:
  assumes "in_calendar t" and "in_calendar u" and "t \<noteq> u"
  shows "resolveHistoryPath (Some home) [] t \<noteq> resolveHistoryPath (Some home) [] u"
proof -
  have path: "resolveHistoryPath (Some home) [] v = Inr (dir_prefix [home, defaultHistoryRelativeDir] @ format_stamp v @ ''.json'')"
    if "in_calendar v" for v
    using path_Join_file [OF stamp_file [OF that], of "[home, defaultHistoryRelativeDir]"] by (simp add: resolveHistoryPath_def)
  show ?thesis using assms format_stamp_inj [OF assms(1,2)] by (auto simp: path)
qed

theorem default_histories_differ_witness:
  "resolveHistoryPath (Some ''/home/a'') [] 5 \<noteq> resolveHistoryPath (Some ''/home/a'') [] 6"
  by (rule default_histories_differ) (simp_all add: in_calendar_def stamp_end_def nanos_per_day_def)

subsection \<open>The conversation\<close>

definition conversation :: "string list \<Rightarrow> string list \<Rightarrow> Message list" where
  \<comment> \<open>the completed turns: a prompt and its reply\<close>
  "conversation prompts replies = concat (map (\<lambda>(p, r). [user_message p, assistant_message r]) (zip prompts replies))"

definition turn_requests :: "Message list \<Rightarrow> string list \<Rightarrow> string list \<Rightarrow> nat \<Rightarrow> Message list list" where
  \<comment> \<open>the messages of the first \<open>n\<close> requests: the start, the turns before, the prompt\<close>
  "turn_requests start prompts replies n =
     map (\<lambda>i. start @ conversation (take i prompts) (take i replies) @ [user_message (prompts ! i)]) [0..<n]"

lemma conversation_simps [simp]:
  "conversation [] rs = []" "conversation ps [] = []"
  "conversation (p # ps) (r # rs) = user_message p # assistant_message r # conversation ps rs"
  by (simp_all add: conversation_def)

lemma turn_requests_simps [simp]:
  "turn_requests start prompts replies 0 = []"
  "turn_requests start (p # ps) [] (Suc 0) = [start @ [user_message p]]"
  "turn_requests start (p # ps) (r # rs) (Suc n) =
     (start @ [user_message p]) # turn_requests (start @ [user_message p, assistant_message r]) ps rs n"
proof -
  show "turn_requests start (p # ps) (r # rs) (Suc n) =
     (start @ [user_message p]) # turn_requests (start @ [user_message p, assistant_message r]) ps rs n"
    unfolding turn_requests_def upt_conv_Cons [OF zero_less_Suc] map_Suc_upt [symmetric] by (simp add: comp_def)
qed (simp_all add: turn_requests_def)

lemma cli_Send_io:
  assumes "cli_Send w service key color messages st = (result, err, st1)"
  shows "map crq_Messages (io_sent st1) = map crq_Messages (io_sent st) @ [messages]" and "io_files st1 = io_files st"
  using assms by (auto simp: cli_Send_def Let_def fprintlnDiagnosticEvidence_def say_def print_out_def split_beta)

text \<open>
  The reply to a request is the text of the answer received for it: the exchange with the given number has an
  answer with a status of success, and its events up to the terminal one decode to the pieces of the text.
\<close>

definition chat_request :: "string \<Rightarrow> Message list \<Rightarrow> client_Request" where
  "chat_request key messages = \<lparr>crq_Messages = messages, crq_SessionKey = key, crq_CacheSalt = [], crq_IgnoreEOS = False, crq_MaxTokens = 0\<rparr>"

definition answered :: "cli_world \<Rightarrow> client_Config \<Rightarrow> string \<Rightarrow> Message list \<Rightarrow> nat \<Rightarrow> string \<Rightarrow> bool" where
  "answered w service key messages number reply \<longleftrightarrow>
     (\<exists>answer evs rest cs. sw_answer (cv_send w service (chat_request key messages) number) = Some answer
        \<and> 200 \<le> ha_StatusCode answer \<and> ha_StatusCode answer < 300
        \<and> body_events (ha_Body answer) = evs @ sseDone # rest \<and> sseDone \<notin> set evs \<and> evs \<noteq> []
        \<and> map (sw_decode (cv_send w service (chat_request key messages) number)) evs = map Some cs \<and> reply = concat (concat cs))"

lemma streamContent_pieces:
  "map (streamContent decode) evs = map Some ts \<Longrightarrow> \<exists>cs. map decode evs = map Some cs \<and> concat ts = concat (concat cs)"
proof (induction evs arbitrary: ts)
  case (Cons e evs)
  then obtain t ts' c where t: "ts = t # ts'" "decode e = Some c" "t = concat c" by (cases ts) (auto simp: streamContent_def)
  with Cons obtain cs where "map decode evs = map Some cs" "concat ts' = concat (concat cs)" by auto
  with t show ?case by (intro exI [of _ "c # cs"]) simp
qed simp

lemma consume_output:
  "consume_loop decode output st fa sf ls acc seen = (out, ttft, None) \<Longrightarrow> consume_loop decode None st fa sf ls acc seen = (out, ttft, None)"
  by (induction ls arbitrary: acc seen) (auto split: option.splits if_splits)

lemma cli_Send_answered:
  assumes "cli_Send w service key color messages st = (result, None, st1)"
  shows "answered w service key messages (length (io_sent st)) (crs_Text result)"
proof -
  let ?x = "cv_send w service (chat_request key messages) (length (io_sent st))"
  obtain writer where send: "client_Send (?x\<lparr>sw_output := writer\<rparr>) (chat_request key messages) = (result, None)"
    using assms by (auto simp: cli_Send_def chat_request_def Let_def split_beta prod_eq_iff)
  then obtain answer ttft where a: "sw_answer ?x = Some answer" "200 \<le> ha_StatusCode answer" "ha_StatusCode answer < 300"
      "consumeStream (sw_decode ?x) writer (sw_startedAt ?x) (sw_firstAt ?x) (ha_Body answer) (ha_read_failed answer) = (crs_Text result, ttft, None)"
    by (auto simp: client_Send_def Let_def split: if_splits option.splits prod.splits)
  from a(4) have "drained (sw_decode ?x) (body_events (ha_Body answer)) [] False (crs_Text result)"
    unfolding consumeStream_def body_events_def by (auto simp: split_beta consume_loop_drained dest: consume_output)
  then obtain evs rest ts where d: "body_events (ha_Body answer) = evs @ sseDone # rest" "sseDone \<notin> set evs" "evs \<noteq> []"
      "map (streamContent (sw_decode ?x)) evs = map Some ts" "crs_Text result = concat ts" by (auto simp: drained_def)
  from streamContent_pieces [OF d(4)] d a(1-3) show ?thesis unfolding answered_def by auto
qed

text \<open>
  What a loop of turns has done: \<open>n\<close> requests, of which the first \<open>length replies\<close> were answered and saved.
\<close>

definition turns_done :: "cli_world \<Rightarrow> client_Config \<Rightarrow> string \<Rightarrow> string \<Rightarrow> Message list \<Rightarrow> string list \<Rightarrow> io \<Rightarrow> io \<Rightarrow> bool \<Rightarrow>
    string list \<Rightarrow> nat \<Rightarrow> bool" where
  "turns_done w service key path messages prompts st st' ok replies n \<longleftrightarrow>
     length replies \<le> length prompts \<and> length replies \<le> n \<and> n \<le> length replies + 1
     \<and> (ok \<longrightarrow> length replies = length prompts \<and> n = length replies)
     \<and> map crq_Messages (io_sent st') = map crq_Messages (io_sent st) @ turn_requests messages prompts replies n
     \<and> (\<forall>i < length replies. answered w service key (turn_requests messages prompts replies n ! i) (length (io_sent st) + i) (replies ! i))
     \<and> (replies \<noteq> [] \<longrightarrow> path \<noteq> [] \<and> validateMessages (messages @ conversation prompts replies) = None)
     \<and> io_files st' = (if replies = [] then io_files st
          else (io_files st)(path := FileBytes (cv_encode w (messages @ conversation prompts replies) @ newline)))"

lemma turns_done_none: "io_files st' = io_files st \<Longrightarrow> io_sent st' = io_sent st \<Longrightarrow> (ok \<Longrightarrow> prompts = []) \<Longrightarrow> turns_done w service key path ms prompts st st' ok [] 0"
  by (auto simp: turns_done_def)

lemma turns_done_failed:
  "\<not> ok \<Longrightarrow> map crq_Messages (io_sent st') = map crq_Messages (io_sent st) @ [ms @ [user_message p]] \<Longrightarrow> io_files st' = io_files st \<Longrightarrow>
     turns_done w service key path ms (p # ps) st st' ok [] (Suc 0)"
  by (simp add: turns_done_def)

lemma turns_done_step:
  assumes "map crq_Messages (io_sent st2) = map crq_Messages (io_sent st) @ [ms @ [user_message p]]"
    and "io_files st2 = (io_files st)(path := FileBytes (cv_encode w (ms @ [user_message p, assistant_message r]) @ newline))"
    and "path \<noteq> []" and "validateMessages (ms @ [user_message p, assistant_message r]) = None"
    and "answered w service key (ms @ [user_message p]) (length (io_sent st)) r"
    and "turns_done w service key path (ms @ [user_message p, assistant_message r]) ps st2 st' ok rs n"
  shows "turns_done w service key path ms (p # ps) st st' ok (r # rs) (Suc n)"
proof -
  let ?ms = "ms @ [user_message p, assistant_message r]"
  have sent: "length (io_sent st2) = Suc (length (io_sent st))" using arg_cong [OF assms(1), of length] by simp
  have later: "answered w service key (turn_requests ?ms ps rs n ! i) (length (io_sent st) + Suc i) (rs ! i)" if "i < length rs" for i
    using assms(6) that sent by (simp add: turns_done_def)
  have "answered w service key (turn_requests ms (p # ps) (r # rs) (Suc n) ! i) (length (io_sent st) + i) ((r # rs) ! i)"
    if "i < length (r # rs)" for i
    using that assms(5) later by (cases i) simp_all
  then show ?thesis using assms(1-4,6) by (cases "rs = []") (simp_all add: turns_done_def)
qed

lemma chat_loop_turns:
  "chat_loop w service key color path failed lines messages st = (st', err) \<Longrightarrow>
     \<exists>replies n. turns_done w service key path messages (filter (\<lambda>l. l \<noteq> []) lines) st st' (err = None) replies n"
proof (induction lines arbitrary: messages st)
  case Nil
  then show ?case by (intro exI [of _ "[]"] exI [of _ 0] turns_done_none) auto
next
  case (Cons p ps)
  show ?case
  proof (cases "p = []")
    case True
    with Cons show ?thesis by simp
  next
    case False
    obtain result e st1 where send: "cli_Send w service key color (messages @ [user_message p]) st = (result, e, st1)" by (metis prod_cases3)
    note io = cli_Send_io [OF send]
    show ?thesis
    proof (cases e)
      case (Some x)
      with Cons.prems False send have "st' = st1" "err \<noteq> None" by (auto simp: Let_def)
      with io False show ?thesis by (intro exI [of _ "[]"] exI [of _ "Suc 0"]) (simp add: turns_done_failed)
    next
      case None
      let ?ms = "messages @ [user_message p, assistant_message (crs_Text result)]"
      obtain h files where save: "SaveHistory (cv_encode w) (cv_saves w (length (io_sent st1))) path ?ms (io_files st1) = (h, files)" by fastforce
      show ?thesis
      proof (cases h)
        case (Some x)
        with Cons.prems False send None save have st': "st' = st1\<lparr>io_files := files\<rparr>" "err \<noteq> None" by (auto simp: Let_def)
        have "files = io_files st1" using save Some by (auto simp: SaveHistory_def split: if_splits option.splits)
        with io False st' show ?thesis by (intro exI [of _ "[]"] exI [of _ "Suc 0"]) (simp add: turns_done_failed)
      next
        case none: None
        note saved = SaveHistory_ok [OF save [unfolded none]]
        let ?st2 = "st1\<lparr>io_files := files\<rparr>"
        from Cons.prems False send None save none
        have "chat_loop w service key color path failed ps ?ms ?st2 = (st', err)" by (simp add: Let_def)
        from Cons.IH [OF this] obtain replies n where "turns_done w service key path ?ms (filter (\<lambda>l. l \<noteq> []) ps) ?st2 st' (err = None) replies n" by blast
        then have "turns_done w service key path messages (p # filter (\<lambda>l. l \<noteq> []) ps) st st' (err = None) (crs_Text result # replies) (Suc n)"
          using io saved cli_Send_answered [OF send [unfolded None]] by (intro turns_done_step [where ?st2.0 = ?st2]) (simp_all add: newline_def)
        then show ?thesis using False by auto
      qed
    qed
  qed
qed

definition chat_start :: "chat_flags \<Rightarrow> Message list \<Rightarrow> Message list" where
  "chat_start f loaded = (if loaded = [] \<and> fc_system f \<noteq> [] then [system_message (fc_system f)] else loaded)"

definition chat_prompts :: "string \<Rightarrow> string list" where
  "chat_prompts input = filter (\<lambda>l. l \<noteq> []) (fst (scan_lines scannerLimit input))"

lemma chat_session_turns:
  assumes "chat_session w f path input read_failed st = (st', err)" and "LoadHistory (io_files st) (cv_decode w) path = Inr loaded"
  shows "\<exists>service replies n. (n \<noteq> 0 \<longrightarrow> newClient w (fl_endpoint f) (fl_model f) (fl_maxTokens f) (fl_timeout f) = Inr service)
    \<and> turns_done w service (fc_sessionKey f) path (chat_start f loaded) (chat_prompts input) st st' (err = None) replies n"
proof -
  have none: ?thesis if "st' = st" "err \<noteq> None"
    using that by (intro exI [of _ undefined] exI [of _ "[]"] exI [of _ 0] conjI turns_done_none) simp_all
  have said: "turns_done w service key path ms ps (say t st) st' ok replies n = turns_done w service key path ms ps st st' ok replies n"
    for service key t ms ps ok replies n by (simp add: turns_done_def say_def)
  obtain lines too_long where sc: "scan_lines scannerLimit input = (lines, too_long)" by fastforce
  show ?thesis
  proof (cases "newClient w (fl_endpoint f) (fl_model f) (fl_maxTokens f) (fl_timeout f)")
    case (Inl e)
    with assms have "st' = st" "err \<noteq> None" by (auto simp: chat_session_def Let_def split: sum.splits)
    then show ?thesis by (rule none)
  next
    case (Inr service)
    show ?thesis
    proof (cases "colorForDiagnostics w (fc_color f)")
      case (Inl e)
      with assms(1) have "st' = st" "err \<noteq> None" by (auto simp: chat_session_def)
      then show ?thesis by (rule none)
    next
      case color: (Inr color)
      with assms Inr have "chat_loop w service (fc_sessionKey f) color path (too_long \<or> read_failed) lines (chat_start f loaded)
          (say chat_banner st) = (st', err)"
        unfolding chat_session_def by (simp add: sc chat_start_def)
      from chat_loop_turns [OF this] Inr show ?thesis by (auto simp: said chat_prompts_def sc)
    qed
  qed
qed

subsection \<open>Text\<close>

definition utf8_rest :: "char \<Rightarrow> (nat \<times> nat) list option" where
  \<comment> \<open>the ranges of the bytes that follow a first byte\<close>
  "utf8_rest c =
     (let b = (of_char c :: nat); any = (128, 191)
      in if b < 128 then Some []
         else if b < 194 then None
         else if b < 224 then Some [any]
         else if b = 224 then Some [(160, 191), any]
         else if b = 237 then Some [(128, 159), any]
         else if b < 240 then Some [any, any]
         else if b = 240 then Some [(144, 191), any, any]
         else if b < 244 then Some [any, any, any]
         else if b = 244 then Some [(128, 143), any, any]
         else None)"

fun valid_utf8 :: "string \<Rightarrow> bool" where
  "valid_utf8 [] = True"
| "valid_utf8 (c # s) =
     (case utf8_rest c of
        None \<Rightarrow> False
      | Some rs \<Rightarrow> list_all2 (\<lambda>(lo, hi) b. lo \<le> (of_char b :: nat) \<and> of_char b \<le> hi) rs (take (length rs) s) \<and> valid_utf8 (drop (length rs) s))"

lemma valid_utf8_append [simp]: "valid_utf8 s \<Longrightarrow> valid_utf8 t \<Longrightarrow> valid_utf8 (s @ t)"
proof (induction s rule: valid_utf8.induct)
  case (2 c s)
  then obtain rs where rs: "utf8_rest c = Some rs" by (auto split: option.splits)
  with "2.prems" have "length rs \<le> length s" by (auto dest: list_all2_lengthD)
  with 2 rs show ?case by simp
qed simp

lemma valid_utf8_concat: "list_all valid_utf8 xs \<Longrightarrow> valid_utf8 (concat xs)"
  by (induction xs) simp_all

definition valid_text :: "Message list \<Rightarrow> bool" where
  "valid_text ms \<longleftrightarrow> list_all (\<lambda>m. valid_utf8 (msg_Content m)) ms"

lemma valid_conversation: "list_all valid_utf8 ps \<Longrightarrow> list_all valid_utf8 rs \<Longrightarrow> valid_text (conversation ps rs)"
  by (induction ps rs rule: list_induct2') (simp_all add: valid_text_def user_message_def assistant_message_def)

lemma answered_valid:
  assumes "\<forall>service request k e cs. sw_decode (cv_send w service request k) e = Some cs \<longrightarrow> list_all valid_utf8 cs"
    and "answered w service key ms k reply"
  shows "valid_utf8 reply"
proof -
  obtain evs cs where cs: "map (sw_decode (cv_send w service (chat_request key ms) k)) evs = map Some cs" "reply = concat (concat cs)"
    using assms(2) by (auto simp: answered_def)
  have "list_all valid_utf8 c" if c: "c \<in> set cs" for c
  proof -
    have "Some c \<in> set (map (sw_decode (cv_send w service (chat_request key ms) k)) evs)" using c cs(1) by simp
    with assms(1) show ?thesis by auto
  qed
  then show ?thesis using cs(2) by (auto simp: list_all_iff intro!: valid_utf8_concat)
qed

text \<open>
  C31. \<open>chat\<close> holds one conversation with its history file: every request carries the loaded messages (or the
  system prompt of an empty history), the turns completed before and the next line of the input; a reply is
  the text of the answer received for its request, the concatenation of the contents of the events before the
  terminal one; what the file holds afterwards is the loaded messages and the completed turns, each prompt with
  its reply, whether the loop ended normally or with an error; when it ends normally every line of the input
  has had its turn; and no other file changes. The prompts and the system prompt are valid UTF-8. Of the package
  \<open>encoding/json\<close> it is assumed that messages of valid UTF-8 are read back as they were written, and that strings
  it decodes, in the history and in the events, are valid UTF-8 (it replaces other bytes).
\<close>

theorem chat_holds_conversation:
  assumes "FlagSet_Parse chat_flag_set arguments default_chat_flags = Inr (f, rest)" and "\<not> fc_clear f"
    and "resolveHistoryPath (cv_home w) (fc_history f) (cv_now w) = Inr path"
    and "LoadHistory (io_files st) (cv_decode w) path = Inr loaded"
    and "\<forall>ms. validateMessages ms = None \<and> valid_text ms \<longrightarrow> cv_decode w (cv_encode w ms @ newline) = Some (ms, True)"
    and "\<forall>body ms at_end. cv_decode w body = Some (ms, at_end) \<longrightarrow> valid_text ms"
    and "\<forall>service request k e cs. sw_decode (cv_send w service request k) e = Some cs \<longrightarrow> list_all valid_utf8 cs"
    and "list_all valid_utf8 (chat_prompts input)" and "valid_utf8 (fc_system f)"
    and "runChat w arguments input read_failed st = (st', err)"
  shows "\<exists>replies n. n \<le> length replies + 1 \<and> length replies \<le> length (chat_prompts input)
    \<and> (err = None \<longrightarrow> length replies = length (chat_prompts input) \<and> n = length replies)
    \<and> map crq_Messages (io_sent st') = map crq_Messages (io_sent st) @ turn_requests (chat_start f loaded) (chat_prompts input) replies n
    \<and> (\<forall>i < length replies. \<exists>service. newClient w (fl_endpoint f) (fl_model f) (fl_maxTokens f) (fl_timeout f) = Inr service
         \<and> answered w service (fc_sessionKey f) (turn_requests (chat_start f loaded) (chat_prompts input) replies n ! i)
             (length (io_sent st) + i) (replies ! i))
    \<and> LoadHistory (io_files st') (cv_decode w) path =
        Inr (if replies = [] then loaded else chat_start f loaded @ conversation (chat_prompts input) replies)
    \<and> (\<forall>other. other \<noteq> path \<longrightarrow> io_files st' other = io_files st other)"
proof -
  let ?st = "if fc_history f = [] then say (''using default history='' @ path @ newline) st else st"
  have same: "io_files ?st = io_files st" "io_sent ?st = io_sent st" by (simp_all add: say_def)
  have "chat_session w f path input read_failed ?st = (st', err)"
    using assms(1-3,10) unfolding runChat_def by (simp only: sum.case prod.case if_False simp_thms)
  then obtain service replies n where service: "n \<noteq> 0 \<Longrightarrow> newClient w (fl_endpoint f) (fl_model f) (fl_maxTokens f) (fl_timeout f) = Inr service"
      and t: "turns_done w service (fc_sessionKey f) path (chat_start f loaded) (chat_prompts input) ?st st' (err = None) replies n"
    using chat_session_turns assms(4) same(1) by metis
  note t = t [unfolded turns_done_def same]
  have "list_all valid_utf8 replies"
    unfolding list_all_length using t answered_valid [OF assms(7)] by blast
  moreover have "loaded = [] \<or> (\<exists>body. cv_decode w body = Some (loaded, True))"
    using assms(4) by (auto simp: LoadHistory_def split: if_splits option.splits file_read.splits)
  then have "valid_text loaded" using assms(6) by (auto simp: valid_text_def)
  then have "valid_text (chat_start f loaded)" using assms(9) by (simp add: chat_start_def valid_text_def system_message_def)
  ultimately have "valid_text (chat_start f loaded @ conversation (chat_prompts input) replies)"
    using valid_conversation assms(8) by (simp add: valid_text_def)
  then have "LoadHistory (io_files st') (cv_decode w) path =
      Inr (if replies = [] then loaded else chat_start f loaded @ conversation (chat_prompts input) replies)"
    using t assms(4,5) by (cases "replies = []") (simp_all add: LoadHistory_def)
  with t service show ?thesis by (intro exI [of _ replies] exI [of _ n]) auto
qed

fun wit_read :: "string \<Rightarrow> string \<Rightarrow> string list" where
  "wit_read cur [] = []"
| "wit_read cur (x # s) =
     (if x = CHR ''!'' then cur # wit_read [] s
      else case s of [] \<Rightarrow> [] | c # s' \<Rightarrow> if x = CHR ''.'' then wit_read (cur @ [c]) s' else [])"

definition wit_write :: "string \<Rightarrow> string" where
  "wit_write s = concat (map (\<lambda>c. [CHR ''.'', c]) s) @ ''!''"

fun wit_pairs :: "string list \<Rightarrow> Message list" where
  "wit_pairs (r # c # xs) = \<lparr>msg_Role = r, msg_Content = c\<rparr> # wit_pairs xs"
| "wit_pairs _ = []"

lemma wit_read_write: "wit_read cur (wit_write s @ rest) = (cur @ s) # wit_read [] rest"
  by (induction s arbitrary: cur) (simp_all add: wit_write_def)

definition wit_encode :: "Message list \<Rightarrow> string" where
  "wit_encode ms = concat (map (\<lambda>m. wit_write (msg_Role m) @ wit_write (msg_Content m)) ms)"

lemma wit_codec: "wit_pairs (wit_read [] (wit_encode ms @ newline)) = ms"
  by (induction ms) (simp_all add: wit_encode_def wit_read_write newline_def)

definition wit_decode :: "string \<Rightarrow> (Message list \<times> bool) option" where
  "wit_decode s = (let ms = wit_pairs (wit_read [] s) in if valid_text ms then Some (ms, True) else None)"

definition wit_exchange :: send_world where
  "wit_exchange = \<lparr>sw_decode = (\<lambda>_. Some [''yo'']), sw_parse_float = (\<lambda>_. None), sw_output = None, sw_encodable = True,
     sw_answer = Some \<lparr>ha_StatusCode = 200, ha_Header = [], ha_Body = ''data: x'' @ newline @ ''data: [DONE]'' @ newline, ha_read_failed = False\<rparr>,
     sw_startedAt = 0, sw_firstAt = 0, sw_endedAt = 0\<rparr>"

definition wit_cli :: cli_world where
  "wit_cli = \<lparr>cv_apiKey = [], cv_url_parse = (\<lambda>_. Some (''http'', ''h'')), cv_url_string = (\<lambda>s. s), cv_home = None, cv_now = 0,
     cv_terminal = False, cv_flag_text = (\<lambda>_ _. []), cv_send = (\<lambda>_ _ _. wit_exchange), cv_accepts = (\<lambda>_. True), cv_partial = (\<lambda>t. t),
     cv_encode = wit_encode, cv_decode = wit_decode, cv_saves = (\<lambda>_. True), cv_removes = True,
     cv_compare = \<lparr>cw_file = (\<lambda>_. None), cw_readFails = (\<lambda>_. False), cw_closes = (\<lambda>_. True), cw_recordType = (\<lambda>_. None),
       cw_attempt = (\<lambda>_. None), cw_report = (\<lambda>_. None)\<rparr>,
     cv_rand = (\<lambda>_ _ _. 0), cv_describe = (\<lambda>_. []), cv_mkdir = (\<lambda>_. True), cv_marshals = (\<lambda>_. True), cv_writes = (\<lambda>_. True),
     cv_closes = (\<lambda>_. True), cv_plan_file = (\<lambda>_. None), cv_plan_decode = (\<lambda>_. None), cv_perm = wit_perm,
     cv_line = (\<lambda>_. Some ''{}''), cv_run = (\<lambda>_ _. wit_run),
     cv_reads = (\<lambda>_ _ _. \<lparr>sr_first = Inl (ErrMetricsEndpoint []), sr_ticks = [], sr_last = Inl (ErrMetricsEndpoint [])\<rparr>)\<rparr>"

definition wit_io :: io where
  "wit_io = \<lparr>io_out = [], io_diag = [], io_files = (\<lambda>_. FileMissing), io_artifacts = [], io_sent = []\<rparr>"

lemma wit_chat_flags: "FlagSet_Parse chat_flag_set [''--history'', ''h''] default_chat_flags = Inr (default_chat_flags\<lparr>fc_history := ''h''\<rparr>, [])"
proof -
  have "assignment False ''history'' ''h'' = [''--history'', ''h'']" by (simp add: assignment_def)
  then show ?thesis
    using parse_assignment [of "''history''" chat_flag_set False "\<lambda>v f. Some (f\<lparr>fc_history := v\<rparr>)" False "''h''" default_chat_flags
        "default_chat_flags\<lparr>fc_history := ''h''\<rparr>" "[]"]
    by (simp add: plain_name_def chat_flag_set_def commonFlags_def string_flag_def)
qed

lemma wit_chat_lines: "scan_lines scannerLimit (''hi'' @ newline) = ([''hi''], False)"
  by (simp add: scan_lines_def scan_pieces_def drop_cr_def newline_def scannerLimit_def)

lemma wit_consume: "consumeStream (\<lambda>_. Some [''yo'']) (Some (\<lambda>_. True)) 0 0 (''data: x'' @ newline @ ''data: [DONE]'' @ newline) False = (''yo'', 0, None)"
proof -
  have "scan_lines maxSSELine (''data: x'' @ newline @ ''data: [DONE]'' @ newline) = ([''data: x'', ''data: [DONE]''], False)"
    by (simp add: scan_lines_def scan_pieces_def drop_cr_def newline_def maxSSELine_def)
  moreover have "sseData ''data: x'' = Some ''x''" "sseData ''data: [DONE]'' = Some sseDone" by code_simp+
  moreover have "''x'' \<noteq> sseDone" by (simp add: sseDone_def)
  ultimately show ?thesis by (simp add: consumeStream_def streamContent_def)
qed

lemma wit_answer:
  "crq_Messages request \<noteq> [] \<Longrightarrow> \<exists>result. client_Send (wit_exchange\<lparr>sw_output := Some (\<lambda>_. True)\<rparr>) request = (result, None) \<and> crs_Text result = ''yo''"
  by (simp add: client_Send_def wit_exchange_def Let_def wit_consume del: append.simps)

lemma wit_send:
  "\<exists>result st1. cli_Send wit_cli service key color [user_message ''hi''] (say t wit_io) = (result, None, st1) \<and> crs_Text result = ''yo''
    \<and> io_files st1 = (\<lambda>_. FileMissing)"
proof -
  let ?request = "\<lparr>crq_Messages = [user_message ''hi''], crq_SessionKey = key, crq_CacheSalt = [], crq_IgnoreEOS = False, crq_MaxTokens = 0\<rparr>"
  obtain result where r: "client_Send (wit_exchange\<lparr>sw_output := Some (\<lambda>_. True)\<rparr>) ?request = (result, None)" "crs_Text result = ''yo''"
    using wit_answer [of ?request] by auto
  have w: "cv_send wit_cli service ?request n = wit_exchange" "cv_accepts wit_cli = (\<lambda>_. True)" for n by (simp_all add: wit_cli_def)
  show ?thesis
    unfolding cli_Send_def Let_def w r(1)
    by (simp add: r(2) fprintlnDiagnosticEvidence_def say_def print_out_def wit_io_def)
qed

lemma wit_client: "newClient wit_cli (fl_endpoint default_chat_flags) (fl_model default_chat_flags) (fl_maxTokens default_chat_flags) (fl_timeout default_chat_flags) =
  Inr \<lparr>cl_Endpoint = defaultEndpoint, cl_Model = defaultModel, cl_MaxTokens = DefaultMaxTokens, cl_RequestTimeout = 90 * Second, cl_APIKey = []\<rparr>"
proof -
  have "TrimSpace defaultModel \<noteq> []" by code_simp
  then show ?thesis
    by (simp add: newClient_def client_New_def wit_cli_def default_chat_flags_def DefaultMaxTokens_def Second_def)
qed

lemma wit_chat_run: "snd (runChat wit_cli [''--history'', ''h''] (''hi'' @ newline) False wit_io) = None"
proof -
  let ?f = "default_chat_flags\<lparr>fc_history := ''h''\<rparr>"
  have color: "colorForDiagnostics wit_cli (fc_color ?f) = Inr False"
    by (simp add: colorForDiagnostics_def parseColorMode_def default_chat_flags_def wit_cli_def colorAuto_def colorAlways_def colorNever_def)
  have load: "LoadHistory (io_files wit_io) (cv_decode wit_cli) ''h'' = Inr []" by (simp add: LoadHistory_def wit_io_def)
  have path: "resolveHistoryPath (cv_home wit_cli) ''h'' (cv_now wit_cli) = Inr ''h''" by (simp add: resolveHistoryPath_def)
  have f: "fc_clear ?f = False" "fc_system ?f = []" by (simp_all add: default_chat_flags_def)
  obtain result st1 where s: "cli_Send wit_cli \<lparr>cl_Endpoint = defaultEndpoint, cl_Model = defaultModel, cl_MaxTokens = DefaultMaxTokens,
      cl_RequestTimeout = 90 * Second, cl_APIKey = []\<rparr> (fc_sessionKey ?f) False [user_message ''hi''] (say chat_banner wit_io) = (result, None, st1)"
      "crs_Text result = ''yo''" "io_files st1 = (\<lambda>_. FileMissing)"
    using wit_send by metis
  have save: "SaveHistory (cv_encode wit_cli) True ''h'' [user_message ''hi'', assistant_message ''yo''] (\<lambda>_. FileMissing) =
      (None, (\<lambda>_. FileMissing)(''h'' := FileBytes (cv_encode wit_cli [user_message ''hi'', assistant_message ''yo''] @ [CHR 10])))"
    by (simp add: SaveHistory_def user_message_def assistant_message_def RoleUser_def RoleAssistant_def RoleSystem_def)
  have saves: "cv_saves wit_cli n" for n by (simp add: wit_cli_def)
  show ?thesis
    using s by (simp add: runChat_def wit_chat_flags f [simplified] path chat_session_def color [simplified] load wit_client wit_chat_lines [simplified] saves save Let_def)
qed

lemma wit_events: "body_events (''data: x'' @ newline @ ''data: [DONE]'' @ newline) = [''x'', sseDone]"
proof -
  have "scan_lines maxSSELine (''data: x'' @ newline @ ''data: [DONE]'' @ newline) = ([''data: x'', ''data: [DONE]''], False)"
    by (simp add: scan_lines_def scan_pieces_def drop_cr_def newline_def maxSSELine_def)
  moreover have "sseData ''data: x'' = Some ''x''" "sseData ''data: [DONE]'' = Some sseDone" by code_simp+
  ultimately show ?thesis by (simp add: body_events_def List.map_filter_def)
qed

lemma wit_answered: "answered wit_cli service key ms k reply \<Longrightarrow> reply = ''yo''"
proof -
  assume "answered wit_cli service key ms k reply"
  then obtain evs rest cs where d: "[''x'', sseDone] = evs @ sseDone # rest" "sseDone \<notin> set evs" "evs \<noteq> []"
      "map (\<lambda>_. Some [''yo'']) evs = map Some cs" "reply = concat (concat cs)"
    by (auto simp: answered_def wit_cli_def wit_exchange_def wit_events simp del: append.simps)
  have "evs = [''x'']" using d(1-3) by (cases evs) (auto simp: Cons_eq_append_conv)
  with d(4,5) show ?thesis by (cases cs) auto
qed

theorem chat_holds_conversation_witness:
  "LoadHistory (io_files (fst (runChat wit_cli [''--history'', ''h''] (''hi'' @ newline) False wit_io))) (cv_decode wit_cli) ''h'' =
     Inr [user_message ''hi'', assistant_message ''yo'']"
proof -
  let ?f = "default_chat_flags\<lparr>fc_history := ''h''\<rparr>"
  have one: "chat_prompts (''hi'' @ newline) = [''hi'']" by (simp only: chat_prompts_def wit_chat_lines fst_conv) simp
  have utf8: "valid_utf8 ''hi''" "valid_utf8 ''yo''" by code_simp+
  have hyps: "\<not> fc_clear ?f" "resolveHistoryPath (cv_home wit_cli) (fc_history ?f) (cv_now wit_cli) = Inr ''h''"
    "LoadHistory (io_files wit_io) (cv_decode wit_cli) ''h'' = Inr []"
    "\<forall>ms. validateMessages ms = None \<and> valid_text ms \<longrightarrow> cv_decode wit_cli (cv_encode wit_cli ms @ newline) = Some (ms, True)"
    "\<forall>body ms at_end. cv_decode wit_cli body = Some (ms, at_end) \<longrightarrow> valid_text ms"
    "\<forall>service request k e cs. sw_decode (cv_send wit_cli service request k) e = Some cs \<longrightarrow> list_all valid_utf8 cs"
    "list_all valid_utf8 (chat_prompts (''hi'' @ newline))" "valid_utf8 (fc_system ?f)"
    using utf8 by (auto simp: one default_chat_flags_def resolveHistoryPath_def LoadHistory_def wit_io_def wit_cli_def wit_exchange_def wit_codec
        wit_decode_def Let_def simp del: append.simps valid_utf8.simps(2) split: if_splits)
  obtain st' where run: "runChat wit_cli [''--history'', ''h''] (''hi'' @ newline) False wit_io = (st', None)"
    using wit_chat_run by (metis prod.collapse)
  from chat_holds_conversation [OF wit_chat_flags hyps run] obtain replies n where
    r: "length replies = length [''hi'']"
      "LoadHistory (io_files st') (cv_decode wit_cli) ''h'' = Inr (if replies = [] then [] else chat_start ?f [] @ conversation [''hi''] replies)"
      "\<forall>i < length replies. \<exists>service. newClient wit_cli (fl_endpoint ?f) (fl_model ?f) (fl_maxTokens ?f) (fl_timeout ?f) = Inr service
         \<and> answered wit_cli service (fc_sessionKey ?f) (turn_requests (chat_start ?f []) [''hi''] replies n ! i) (length (io_sent wit_io) + i) (replies ! i)"
    unfolding one by blast
  have "\<forall>i < length replies. replies ! i = ''yo''" using r(3) wit_answered by blast
  with r(1) have "replies = [''yo'']" by (cases replies) auto
  with r(2) show ?thesis unfolding run fst_conv by (simp add: chat_start_def default_chat_flags_def)
qed

subsection \<open>An empty reply\<close>

lemma validate_append: "validateMessages (ms @ ns) = (case validateMessages ms of Some e \<Rightarrow> Some e | None \<Rightarrow> validateMessages ns)"
  by (induction ms) simp_all

text \<open>
  A reply without text ends the conversation with an error although the request succeeded, and the turn is
  not saved: the history accepts no message without content.
\<close>

theorem chat_empty_reply:
  assumes "cli_Send w service key color (messages @ [user_message prompt]) st = (result, None, st1)" and "crs_Text result = []"
    and "prompt \<noteq> []" and "validateMessages messages = None" and "path \<noteq> []"
  shows "chat_loop w service key color path failed (prompt # lines) messages st = (st1, Some (CliHistory ErrHistoryContent))"
proof -
  have "validateMessages (messages @ [user_message prompt, assistant_message []]) = Some ErrHistoryContent"
    using assms(3,4) by (simp add: validate_append user_message_def assistant_message_def RoleUser_def RoleAssistant_def RoleSystem_def)
  with assms show ?thesis by (simp add: SaveHistory_def Let_def)
qed

end
