(* ===== verification/Bench_Cli.thy ===== *)
theory Bench_Cli
  imports Client_Chat
begin

text \<open>
  \<open>cmd/fishmesh-client/main.go\<close>, the commands \<open>bench\<close> and \<open>compare\<close> and the dispatch of the commands. A benchmark
  is one run of \<open>runPlan\<close> between the preparation of its plan and the four artifacts it leaves. A file that
  could not be written leaves no artifact.
\<close>


subsection \<open>bench\<close>

record bench_flags =
  fb_endpoint :: string
  fb_model :: string
  fb_maxTokens :: int
  fb_timeout :: duration
  fb_plan :: string
  fb_outputDir :: string
  fb_runID :: string
  fb_treatment :: string
  fb_runNonce :: string
  fb_cacheGeneration :: string
  fb_workloadSeed :: int
  fb_metricsEndpoint :: string
  fb_metricsInterval :: duration
  fb_allowHigh :: bool

definition default_bench_flags :: bench_flags where
  "default_bench_flags = \<lparr>fb_endpoint = defaultEndpoint, fb_model = defaultModel, fb_maxTokens = 0, fb_timeout = 0, fb_plan = [], fb_outputDir = [],
     fb_runID = [], fb_treatment = [], fb_runNonce = [], fb_cacheGeneration = [], fb_workloadSeed = 0, fb_metricsEndpoint = [],
     fb_metricsInterval = 250 * Millisecond, fb_allowHigh = False\<rparr>"

definition bench_flag_set :: "bench_flags flag_set" where
  "bench_flag_set =
     [(''endpoint'', string_flag (\<lambda>v f. f\<lparr>fb_endpoint := v\<rparr>)), (''model'', string_flag (\<lambda>v f. f\<lparr>fb_model := v\<rparr>)),
      (''max-tokens'', int_flag (\<lambda>v f. f\<lparr>fb_maxTokens := v\<rparr>)), (''timeout'', duration_flag (\<lambda>v f. f\<lparr>fb_timeout := v\<rparr>)),
      (''plan'', string_flag (\<lambda>v f. f\<lparr>fb_plan := v\<rparr>)), (''output-dir'', string_flag (\<lambda>v f. f\<lparr>fb_outputDir := v\<rparr>)),
      (''run-id'', string_flag (\<lambda>v f. f\<lparr>fb_runID := v\<rparr>)), (''treatment'', string_flag (\<lambda>v f. f\<lparr>fb_treatment := v\<rparr>)),
      (''run-nonce'', string_flag (\<lambda>v f. f\<lparr>fb_runNonce := v\<rparr>)), (''cache-generation'', string_flag (\<lambda>v f. f\<lparr>fb_cacheGeneration := v\<rparr>)),
      (''workload-seed'', int_flag (\<lambda>v f. f\<lparr>fb_workloadSeed := v\<rparr>)), (''metrics-endpoint'', string_flag (\<lambda>v f. f\<lparr>fb_metricsEndpoint := v\<rparr>)),
      (''metrics-interval'', duration_flag (\<lambda>v f. f\<lparr>fb_metricsInterval := v\<rparr>)),
      (''allow-high-concurrency'', bool_flag (\<lambda>v f. f\<lparr>fb_allowHigh := v\<rparr>))]"

definition bench_load :: "cli_world \<Rightarrow> bench_flags \<Rightarrow> plan_error + BenchmarkPlan" where
  "bench_load w f =
     (if fb_plan f = [] then Inr DefaultBenchmarkPlan
      else LoadBenchmarkPlan (cv_perm w) (cv_plan_file w (fb_plan f)) (cv_plan_decode w) (format_stamp (cv_now w)))"

definition bench_override :: "string \<Rightarrow> bench_flags \<Rightarrow> BenchmarkPlan \<Rightarrow> BenchmarkPlan" where
  \<comment> \<open>the flags over the plan, and a run ID from the clock when there is none\<close>
  "bench_override stamp f p0 =
     (let p1 = (if fb_maxTokens f > 0 then p0\<lparr>bp_MaxTokens := fb_maxTokens f\<rparr> else p0);
          p2 = (if fb_timeout f > 0 then p1\<lparr>bp_RequestTimeoutMS := fb_timeout f div Millisecond\<rparr> else p1);
          p3 = (if fb_runID f \<noteq> [] then p2\<lparr>bp_RunID := fb_runID f\<rparr> else p2);
          p4 = (if fb_treatment f \<noteq> [] then p3\<lparr>bp_Treatment := fb_treatment f\<rparr> else p3);
          p5 = (if fb_runNonce f \<noteq> [] then p4\<lparr>bp_RunNonce := fb_runNonce f\<rparr> else p4);
          p6 = (if fb_cacheGeneration f \<noteq> [] then p5\<lparr>bp_CacheGeneration := fb_cacheGeneration f\<rparr> else p5);
          p7 = (if fb_workloadSeed f \<noteq> 0 then p6\<lparr>bp_WorkloadSeed := fb_workloadSeed f, bp_ExecutionOrder := []\<rparr> else p6);
          p8 = (if bp_RunID p7 = [] then p7\<lparr>bp_RunID := stamp\<rparr> else p7)
      in if fb_allowHigh f then p8\<lparr>bp_AllowHighConcurrency := True\<rparr> else p8)"

definition bench_world :: "cli_world \<Rightarrow> client_Config \<Rightarrow> BenchmarkPlan \<Rightarrow> (string \<times> duration) option \<Rightarrow> run_world" where
  \<comment> \<open>\<open>RunPlan\<close> without a reader, \<open>RunPlanWithMetrics\<close> with one; the output is the file\<close>
  "bench_world w service plan reader =
     (cv_run w service plan)\<lparr>rw_perm := cv_perm w, rw_reader := map_option (cv_reads w) reader, rw_noOutput := False,
       rw_marshal := cv_line w\<rparr>"

definition bench_summary :: "string \<Rightarrow> BenchmarkReport \<Rightarrow> string" where
  "bench_summary dir r = concat
     [''run_id='', rp_RunID r, '' output_dir='', dir, '' completed='', dec_int (rp_Completed r), '' succeeded='', dec_int (rp_Succeeded r),
      '' failed='', dec_int (rp_Failed r), '' ttft_p50='', f2 (rp_TTFTP50MS r), ''ms ttft_p95='', f2 (rp_TTFTP95MS r), ''ms report='',
      path_Join [dir, ''report.md''], newline]"

definition bench_report_files :: "cli_world \<Rightarrow> string \<Rightarrow> BenchmarkReport \<Rightarrow> cli_error option \<Rightarrow> io \<Rightarrow> io \<times> cli_error option" where
  \<comment> \<open>the end of \<open>runBenchmark\<close>: the report is written whether or not the run failed\<close>
  "bench_report_files w dir report runErr st =
     (let jsonPath = path_Join [dir, ''report.json'']; markdownPath = path_Join [dir, ''report.md''];
          st1 = put_artifact jsonPath (ReportJSON report) st;
          st2 = put_artifact markdownPath (MarkdownText (report_Markdown (cv_describe w) report)) st1
      in if \<not> cv_marshals w (ReportJSON report) then (st, Some CliMarshal)
         else if \<not> cv_writes w jsonPath then (st, Some (CliWrite jsonPath))
         else if \<not> cv_writes w markdownPath then (st1, Some (CliWrite markdownPath))
         else (say (bench_summary dir report) st2, runErr))"

definition bench_execute :: "cli_world \<Rightarrow> client_Config \<Rightarrow> BenchmarkPlan \<Rightarrow> (string \<times> duration) option \<Rightarrow> string \<Rightarrow> io \<Rightarrow> io \<times> cli_error option" where
  "bench_execute w service plan reader dir st =
     (let planPath = path_Join [dir, ''plan.json'']; requestsPath = path_Join [dir, ''requests.jsonl''];
          st1 = put_artifact planPath (PlanJSON plan) st
      in if \<not> cv_mkdir w dir then (st, Some (CliMkdir dir))
         else if \<not> cv_marshals w (PlanJSON plan) then (st, Some CliMarshal)
         else if \<not> cv_writes w planPath then (st, Some (CliWrite planPath))
         else if \<not> cv_writes w requestsPath then (st1, Some (CliWrite requestsPath))
         else
           let ((bytes, lines), report, runErr) = runPlan (bench_world w service plan reader) plan
           in bench_report_files w dir report
                (case runErr of Some e \<Rightarrow> Some (CliRun e) | None \<Rightarrow> if \<not> cv_closes w requestsPath then Some CliClose else None)
                (put_artifact requestsPath (RequestsJSONL bytes) st1))"

definition bench_reader :: "cli_world \<Rightarrow> bench_flags \<Rightarrow> cli_error + (string \<times> duration) option" where
  "bench_reader w f =
     (if TrimSpace (fb_metricsEndpoint f) = [] then Inr None
      else case NewPrometheusGatewayMetricsReader (cv_url_parse w) (cv_url_string w) (fb_metricsEndpoint f) of
        Inl e \<Rightarrow> Inl (CliMetrics e) | Inr endpoint \<Rightarrow> Inr (Some (endpoint, fb_metricsInterval f)))"

definition bench_start :: "cli_world \<Rightarrow> bench_flags \<Rightarrow> io \<Rightarrow> io \<times> cli_error option" where
  \<comment> \<open>\<open>runBenchmark\<close> after the flags\<close>
  "bench_start w f st =
     (case bench_load w f of
        Inl e \<Rightarrow> (st, Some (CliPlan e))
      | Inr loaded \<Rightarrow>
          (case PrepareBenchmarkPlan (cv_perm w) (bench_override (format_stamp (cv_now w)) f loaded) of
             (plan, Some e) \<Rightarrow> (st, Some (CliPlan e))
           | (plan, None) \<Rightarrow>
               (case newClient w (fb_endpoint f) (fb_model f) (bp_MaxTokens plan) (wrap64 (bp_RequestTimeoutMS plan * Millisecond)) of
                  Inl e \<Rightarrow> (st, Some e)
                | Inr service \<Rightarrow>
                    (case bench_reader w f of
                       Inl e \<Rightarrow> (st, Some e)
                     | Inr reader \<Rightarrow>
                         bench_execute w service plan reader
                           (if fb_outputDir f = [] then path_Join [''artifacts'', ''bench'', bp_RunID plan] else fb_outputDir f) st))))"

definition runBenchmark :: "cli_world \<Rightarrow> string list \<Rightarrow> io \<Rightarrow> io \<times> cli_error option" where
  "runBenchmark w arguments st =
     (case FlagSet_Parse bench_flag_set arguments default_bench_flags of
        Inl e \<Rightarrow> (say (cv_flag_text w ''bench'' e) st, Some (CliFlag e))
      | Inr (f, _) \<Rightarrow> bench_start w f st)"

subsection \<open>compare\<close>

record compare_flags =
  fk_baseline :: "string list"
  fk_treatment :: "string list"
  fk_baselineReports :: "string list"
  fk_treatmentReports :: "string list"
  fk_bootstrap :: int
  fk_seed :: int
  fk_outputDir :: string

definition repeatedPaths_Set :: "string \<Rightarrow> string list \<Rightarrow> string list option" where
  "repeatedPaths_Set raw paths = (let v = TrimSpace raw in if v = [] then None else Some (paths @ [v]))"

definition repeatedPaths_String :: "string list \<Rightarrow> string" where
  \<comment> \<open>\<open>strings.Join(*p, ",")\<close>\<close>
  "repeatedPaths_String paths = concat (case paths of [] \<Rightarrow> [] | p # ps \<Rightarrow> p # map (\<lambda>q. '','' @ q) ps)"

definition default_compare_flags :: compare_flags where
  "default_compare_flags = \<lparr>fk_baseline = [], fk_treatment = [], fk_baselineReports = [], fk_treatmentReports = [], fk_bootstrap = 2000,
     fk_seed = 1, fk_outputDir = []\<rparr>"

definition compare_flag_set :: "compare_flags flag_set" where
  "compare_flag_set =
     [(''baseline'', False, \<lambda>v f. map_option (\<lambda>ps. f\<lparr>fk_baseline := ps\<rparr>) (repeatedPaths_Set v (fk_baseline f))),
      (''treatment'', False, \<lambda>v f. map_option (\<lambda>ps. f\<lparr>fk_treatment := ps\<rparr>) (repeatedPaths_Set v (fk_treatment f))),
      (''baseline-report'', False, \<lambda>v f. map_option (\<lambda>ps. f\<lparr>fk_baselineReports := ps\<rparr>) (repeatedPaths_Set v (fk_baselineReports f))),
      (''treatment-report'', False, \<lambda>v f. map_option (\<lambda>ps. f\<lparr>fk_treatmentReports := ps\<rparr>) (repeatedPaths_Set v (fk_treatmentReports f))),
      (''bootstrap'', int_flag (\<lambda>v f. f\<lparr>fk_bootstrap := v\<rparr>)), (''seed'', int_flag (\<lambda>v f. f\<lparr>fk_seed := v\<rparr>)),
      (''output-dir'', string_flag (\<lambda>v f. f\<lparr>fk_outputDir := v\<rparr>))]"

definition compare_report :: "cli_world \<Rightarrow> compare_flags \<Rightarrow> cli_error + ComparisonReport" where
  "compare_report w f =
     (case CompareBenchmarkFiles (cv_compare w) (cv_rand w) (fk_baseline f) (fk_treatment f) (fk_bootstrap f) (fk_seed f) of
        Inl e \<Rightarrow> Inl (CliCompare e)
      | Inr report \<Rightarrow>
          if length (fk_baselineReports f) \<noteq> length (fk_treatmentReports f) then Inl CliReportGroups
          else if length (fk_baselineReports f) > 0
          then (case CompareGatewayReportFiles (cv_compare w) (fk_baselineReports f) (fk_treatmentReports f) of
                  Inl e \<Rightarrow> Inl (CliCompare e)
                | Inr (b, t) \<Rightarrow> Inr (report\<lparr>cr_BaselineGateway := b, cr_TreatmentGateway := t\<rparr>))
          else Inr report)"

definition compare_files :: "cli_world \<Rightarrow> string \<Rightarrow> ComparisonReport \<Rightarrow> io \<Rightarrow> io \<times> cli_error option" where
  "compare_files w dir report st =
     (let jsonPath = path_Join [dir, ''comparison.json'']; markdownPath = path_Join [dir, ''comparison.md''];
          markdown = comparison_Markdown report;
          st1 = put_artifact jsonPath (ComparisonJSON report) st;
          st2 = put_artifact markdownPath (MarkdownText markdown) st1
      in if \<not> cv_mkdir w dir then (st, Some (CliMkdir dir))
         else if \<not> cv_marshals w (ComparisonJSON report) then (st, Some CliMarshal)
         else if \<not> cv_writes w jsonPath then (st, Some (CliWrite jsonPath))
         else if \<not> cv_writes w markdownPath then (st1, Some (CliWrite markdownPath))
         else (say (''comparison_json='' @ jsonPath @ '' comparison_markdown='' @ markdownPath @ newline) (print_out markdown st2), None))"

definition runCompare :: "cli_world \<Rightarrow> string list \<Rightarrow> io \<Rightarrow> io \<times> cli_error option" where
  "runCompare w arguments st =
     (case FlagSet_Parse compare_flag_set arguments default_compare_flags of
        Inl e \<Rightarrow> (say (cv_flag_text w ''compare'' e) st, Some (CliFlag e))
      | Inr (f, _) \<Rightarrow>
          (case compare_report w f of
             Inl e \<Rightarrow> (st, Some e)
           | Inr report \<Rightarrow>
               compare_files w
                 (if fk_outputDir f = [] then path_Join [''artifacts'', ''bench'', ''comparison-'' @ format_stamp (cv_now w)] else fk_outputDir f)
                 report st))"

subsection \<open>The commands\<close>

definition cli_run :: "cli_world \<Rightarrow> string list \<Rightarrow> string \<Rightarrow> bool \<Rightarrow> io \<Rightarrow> io \<times> cli_error option" where
  "cli_run w arguments input read_failed st =
     (case arguments of
        [] \<Rightarrow> (st, Some CliUsage)
      | command # rest \<Rightarrow>
          if command = ''chat'' then runChat w rest input read_failed st
          else if command = ''request'' then runRequest w rest st
          else if command = ''bench'' then runBenchmark w rest st
          else if command = ''compare'' then runCompare w rest st
          else (st, Some (CliUnknownCommand command)))"

definition cli_main :: "cli_world \<Rightarrow> (cli_error \<Rightarrow> string) \<Rightarrow> string list \<Rightarrow> string \<Rightarrow> bool \<Rightarrow> io \<Rightarrow> io \<times> int" where
  \<comment> \<open>the exit status; \<open>describe\<close> is the text of the error\<close>
  "cli_main w describe arguments input read_failed st =
     (case cli_run w arguments input read_failed st of
        (st1, None) \<Rightarrow> (st1, 0)
      | (st1, Some e) \<Rightarrow> (say (''fishmesh-client: '' @ describe e @ newline) st1, 1))"

subsection \<open>The plan that is written is the plan that runs\<close>

lemma prepare_again:
  assumes "\<And>seed n. mset (perm seed n) = mset [0..<n]" and "PrepareBenchmarkPlan perm p = (plan, None)"
  shows "PrepareBenchmarkPlan perm plan = (plan, None)"
proof -
  note o = prepared_order [OF assms]
  have "bp_ExecutionOrder plan \<noteq> []" using o(2) plan_Validate_ok(1) [OF o(1)] by auto
  then show ?thesis using o(1) by (simp add: PrepareBenchmarkPlan_def Let_def)
qed

lemma prepare_keeps: "PrepareBenchmarkPlan perm p = (plan, err) \<Longrightarrow> bp_RunID plan = bp_RunID p"
  by (auto simp: PrepareBenchmarkPlan_def Let_def)

lemma override_run_id: "stamp \<noteq> [] \<Longrightarrow> bp_RunID (bench_override stamp f p) \<noteq> []"
proof -
  assume stamp: "stamp \<noteq> []"
  obtain q where "bench_override stamp f p =
      (let r = if bp_RunID q = [] then q\<lparr>bp_RunID := stamp\<rparr> else q in if fb_allowHigh f then r\<lparr>bp_AllowHighConcurrency := True\<rparr> else r)"
    by (rule that) (unfold bench_override_def Let_def, rule refl)
  then show ?thesis using stamp by (simp add: Let_def)
qed

lemma runPlan_prepared:
  assumes "PrepareBenchmarkPlan (rw_perm rw) plan = (plan, None)" and "\<not> rw_noOutput rw" and "bp_RunID plan \<noteq> []"
  shows "runPlan rw plan = run_prepared rw plan"
  using assms by (simp add: runPlan_def)

definition bench_artifacts :: "cli_world \<Rightarrow> string \<Rightarrow> BenchmarkPlan \<Rightarrow> string \<Rightarrow> BenchmarkReport \<Rightarrow> (string \<times> artifact) list" where
  "bench_artifacts w dir plan bytes r =
     [(path_Join [dir, ''plan.json''], PlanJSON plan), (path_Join [dir, ''requests.jsonl''], RequestsJSONL bytes),
      (path_Join [dir, ''report.json''], ReportJSON r), (path_Join [dir, ''report.md''], MarkdownText (report_Markdown (cv_describe w) r))]"

definition ran_to_end :: "cli_error option \<Rightarrow> bool" where
  \<comment> \<open>the benchmark ran, and nothing but the run itself or the closing of its output failed\<close>
  "ran_to_end err \<longleftrightarrow> err = None \<or> err = Some CliClose \<or> (\<exists>e. err = Some (CliRun e))"

definition output_lost :: "cli_error option \<Rightarrow> bool" where
  \<comment> \<open>a record could not be encoded or written, or the buffer not flushed\<close>
  "output_lost err \<longleftrightarrow> err \<in> {Some (CliRun ErrEncodeLine), Some (CliRun ErrWriteLine), Some (CliRun ErrFlushOutput)}"

lemma bench_execute_artifacts:
  assumes "bench_execute w service plan reader dir st = (st', err)" and "ran_to_end err"
  obtains bytes ls r e where "runPlan (bench_world w service plan reader) plan = ((bytes, ls), r, e)"
    and "io_artifacts st' = io_artifacts st @ bench_artifacts w dir plan bytes r"
    and "output_lost err \<longleftrightarrow> output_failed e"
proof -
  obtain bytes ls r e where run: "runPlan (bench_world w service plan reader) plan = ((bytes, ls), r, e)" by (metis surj_pair)
  show thesis
    using assms run by (intro that [OF run])
      (auto simp: bench_execute_def bench_report_files_def Let_def ran_to_end_def bench_artifacts_def put_artifact_def say_def output_lost_def
        output_failed_def split: if_splits option.splits)
qed

lemma bench_start_execute:
  assumes "bench_start w f st = (st', err)" and "ran_to_end err"
  obtains loaded plan service reader dir where "bench_load w f = Inr loaded"
    and "PrepareBenchmarkPlan (cv_perm w) (bench_override (format_stamp (cv_now w)) f loaded) = (plan, None)"
    and "bench_execute w service plan reader dir st = (st', err)"
proof -
  have newClient_err: "\<not> ran_to_end (Some e)" if "newClient w a b c d = Inl e" for a b c d e
    using that by (auto simp: newClient_def ran_to_end_def split: sum.splits)
  have reader_err: "\<not> ran_to_end (Some e)" if "bench_reader w f = Inl e" for e
    using that by (auto simp: bench_reader_def ran_to_end_def split: sum.splits if_splits)
  have plan_err: "\<not> ran_to_end (Some (CliPlan e))" for e by (simp add: ran_to_end_def)
  show thesis
    using assms newClient_err reader_err plan_err that unfolding bench_start_def
    by (auto split: sum.splits prod.splits option.splits)
qed

lemma format_stamp_nonempty: "format_stamp t \<noteq> []"
  by (simp add: format_stamp_def stamp_fields_def Let_def split_beta)

text \<open>
  C38. A benchmark that ran to its end leaves four artifacts that describe the same run, whether the run
  succeeded or not: the plan that was written is the plan that ran and the plan of the report, it has a run
  ID, preparing it again changes nothing; the report counts the request records that the writer of the JSONL
  file took; and unless a record could not be encoded or written or the buffer not flushed, the JSONL file
  consists of the lines of these records, from the plan to the report. When the output did fail, the file and
  the text of the records agree as far as the shorter goes: records of the report may be missing from the file,
  and it may end in a part of a line. The shuffle is assumed to permute the indices, the results of a batch to be
  those of its requests in some order.
\<close>

theorem bench_artifacts_agree:
  assumes "\<And>seed n. mset (cv_perm w seed n) = mset [0..<n]"
    and "\<And>service plan n b xs. mset (rw_finish (cv_run w service plan) n b xs) = mset xs"
    and "runBenchmark w arguments st = (st', err)" and "ran_to_end err"
  shows "\<exists>dir plan bytes ls r. io_artifacts st' = io_artifacts st @ bench_artifacts w dir plan bytes r
    \<and> PrepareBenchmarkPlan (cv_perm w) plan = (plan, None) \<and> bp_RunID plan \<noteq> [] \<and> rp_Plan r = plan
    \<and> rp_Completed r = int (length (request_lines ls)) \<and> rp_Succeeded r = int (length (filter succeeded (request_lines ls)))
    \<and> list_all (\<lambda>l. cv_line w l \<noteq> None) ls
    \<and> (if output_lost err then prefix bytes (jsonl_text (cv_line w) ls) \<or> prefix (jsonl_text (cv_line w) ls) bytes
       else bytes = jsonl_text (cv_line w) ls \<and> (\<exists>more. ls = MetadataLine (bp_RunID plan) plan # more @ [ReportLine r]))"
proof -
  from assms(3,4) obtain f where start: "bench_start w f st = (st', err)"
    by (auto simp: runBenchmark_def ran_to_end_def split: sum.splits)
  obtain loaded plan service reader dir where
    prep: "PrepareBenchmarkPlan (cv_perm w) (bench_override (format_stamp (cv_now w)) f loaded) = (plan, None)"
    and exec: "bench_execute w service plan reader dir st = (st', err)"
    using bench_start_execute [OF start assms(4)] by metis
  obtain bytes ls r e where run: "runPlan (bench_world w service plan reader) plan = ((bytes, ls), r, e)"
    and art: "io_artifacts st' = io_artifacts st @ bench_artifacts w dir plan bytes r" and e: "output_lost err \<longleftrightarrow> output_failed e"
    using bench_execute_artifacts [OF exec assms(4)] by metis
  have again: "PrepareBenchmarkPlan (cv_perm w) plan = (plan, None)" using assms(1) by (rule prepare_again [OF _ prep])
  have named: "bp_RunID plan \<noteq> []" using prepare_keeps [OF prep] override_run_id [OF format_stamp_nonempty] by simp
  have world: "rw_perm (bench_world w service plan reader) = cv_perm w" "\<not> rw_noOutput (bench_world w service plan reader)"
    "rw_marshal (bench_world w service plan reader) = cv_line w" by (simp_all add: bench_world_def)
  have ran: "run_prepared (bench_world w service plan reader) plan = ((bytes, ls), r, e)"
    using run runPlan_prepared [of "bench_world w service plan reader" plan] world again named by simp
  have "mset (rw_finish (bench_world w service plan reader) n b xs) = mset xs" for n b xs using assms(2) by (simp add: bench_world_def)
  note agree = run_prepared_agrees [OF this ran, unfolded world]
  show ?thesis
    by (rule exI [of _ dir], rule exI [of _ plan], rule exI [of _ bytes], rule exI [of _ ls], rule exI [of _ r])
      (use agree e art again named in auto)
qed

definition wit_bench :: cli_world where
  "wit_bench = wit_cli\<lparr>cv_plan_file := (\<lambda>_. Some []), cv_plan_decode := (\<lambda>_. Some wit_plan)\<rparr>"

lemma validate_named: "plan_Validate (p\<lparr>bp_RunID := i\<rparr>) = plan_Validate p"
  unfolding plan_Validate_def by (simp cong: option.case_cong)

lemma prepare_named:
  "PrepareBenchmarkPlan perm p = (q, e) \<Longrightarrow> PrepareBenchmarkPlan perm (p\<lparr>bp_RunID := i\<rparr>) = (q\<lparr>bp_RunID := i\<rparr>, e)"
proof -
  have swap: "p\<lparr>bp_RunID := i, bp_ExecutionOrder := x\<rparr> = p\<lparr>bp_ExecutionOrder := x, bp_RunID := i\<rparr>" for x by simp
  show "PrepareBenchmarkPlan perm p = (q, e) \<Longrightarrow> PrepareBenchmarkPlan perm (p\<lparr>bp_RunID := i\<rparr>) = (q\<lparr>bp_RunID := i\<rparr>, e)"
    unfolding PrepareBenchmarkPlan_def Let_def
    by (cases "bp_ExecutionOrder p = []") (auto simp: swap validate_named)
qed

lemma wit_bench_flags: "FlagSet_Parse bench_flag_set [''--plan'', ''p''] default_bench_flags = Inr (default_bench_flags\<lparr>fb_plan := ''p''\<rparr>, [])"
proof -
  have "assignment False ''plan'' ''p'' = [''--plan'', ''p'']" by (simp add: assignment_def)
  then show ?thesis
    using parse_assignment [of "''plan''" bench_flag_set False "\<lambda>v f. Some (f\<lparr>fb_plan := v\<rparr>)" False "''p''" default_bench_flags
        "default_bench_flags\<lparr>fb_plan := ''p''\<rparr>" "[]"]
    by (simp add: plain_name_def bench_flag_set_def string_flag_def)
qed

lemma wit_bench_perm: "mset (cv_perm wit_bench seed n) = mset [0..<n]" "mset (rw_finish (cv_run wit_bench service plan) m b xs) = mset xs"
  by (simp_all add: wit_bench_def wit_cli_def wit_perm_def wit_run_finish)

lemma wit_bench_start: "ran_to_end (snd (runBenchmark wit_bench [''--plan'', ''p''] wit_io))"
proof -
  let ?f = "default_bench_flags\<lparr>fb_plan := ''p''\<rparr>" and ?stamp = "format_stamp (cv_now wit_bench)"
  let ?plan = "wit_plan\<lparr>bp_ExecutionOrder := [''b'', ''a''], bp_RunID := ?stamp\<rparr>"
  have w: "cv_perm wit_bench = wit_perm" "cv_plan_file wit_bench (fb_plan ?f) = Some []" "cv_plan_decode wit_bench [] = Some wit_plan"
    by (simp_all add: wit_bench_def wit_cli_def)
  have prep: "PrepareBenchmarkPlan wit_perm (wit_plan\<lparr>bp_RunID := ?stamp\<rparr>) = (?plan, None)" by (rule prepare_named [OF wit_plan_prepared])
  have zero: "bp_MaxTokens wit_plan \<noteq> 0" "bp_RequestTimeoutMS wit_plan \<noteq> 0" "bp_RunID wit_plan = []"
    by (simp_all add: wit_plan_def DefaultBenchmarkPlan_def DefaultMaxTokens_def defaultBenchmarkTimeoutMS_def)
  have load: "bench_load wit_bench ?f = Inr ?plan"
    using prep zero by (simp add: bench_load_def LoadBenchmarkPlan_def w [simplified] Let_def)
  have over: "bench_override ?stamp ?f ?plan = ?plan"
    by (simp add: bench_override_def default_bench_flags_def format_stamp_nonempty Let_def)
  have again: "PrepareBenchmarkPlan wit_perm ?plan = (?plan, None)"
    using wit_bench_perm(1) unfolding w(1) by (rule prepare_again [OF _ prep])
  have "TrimSpace defaultModel \<noteq> []" "TrimSpace [] = []" by code_simp+
  then have client: "\<exists>service. newClient wit_bench (fb_endpoint ?f) (fb_model ?f) (bp_MaxTokens ?plan) (wrap64 (bp_RequestTimeoutMS ?plan * Millisecond)) = Inr service"
    and reader: "bench_reader wit_bench ?f = Inr None"
    by (simp_all add: newClient_def client_New_def bench_reader_def wit_bench_def wit_cli_def default_bench_flags_def wit_plan_def
        DefaultBenchmarkPlan_def defaultBenchmarkTimeoutMS_def Millisecond_def wrap64_def)
  then obtain service where service: "newClient wit_bench (fb_endpoint ?f) (fb_model ?f) (bp_MaxTokens ?plan) (wrap64 (bp_RequestTimeoutMS ?plan * Millisecond)) = Inr service"
    by blast
  have exec: "ran_to_end (snd (bench_execute wit_bench service plan rd dir wit_io))" for plan rd dir
    by (auto simp: bench_execute_def bench_report_files_def Let_def ran_to_end_def split_beta wit_bench_def wit_cli_def split: option.split)
  show ?thesis
    unfolding runBenchmark_def wit_bench_flags sum.case prod.case bench_start_def load over w(1) again option.case service reader by (rule exec)
qed

theorem bench_artifacts_agree_witness:
  "\<exists>st' dir plan bytes ls r. fst (runBenchmark wit_bench [''--plan'', ''p''] wit_io) = st' \<and> io_artifacts st' = bench_artifacts wit_bench dir plan bytes r
     \<and> rp_Plan r = plan \<and> rp_Completed r = int (length (request_lines ls))"
proof -
  obtain st' err where run: "runBenchmark wit_bench [''--plan'', ''p''] wit_io = (st', err)" by fastforce
  with wit_bench_start have "ran_to_end err" by simp
  from bench_artifacts_agree [OF wit_bench_perm run this] show ?thesis unfolding run by (auto simp: wit_io_def)
qed

subsection \<open>High concurrency\<close>

lemma high_concurrency_refused:
  assumes "s \<in> set (bp_Scenarios p)" and "bs_Concurrency s > defaultBenchmarkConcurrency" and "\<not> bp_AllowHighConcurrency p"
  shows "\<exists>e. snd (PrepareBenchmarkPlan perm p) = Some e"
proof (rule ccontr)
  assume "\<nexists>e. snd (PrepareBenchmarkPlan perm p) = Some e"
  then obtain q where q: "PrepareBenchmarkPlan perm p = (q, None)" by (metis option.exhaust prod.collapse)
  then have v: "plan_Validate q = None" "bp_Scenarios q = bp_Scenarios p" "\<not> bp_AllowHighConcurrency q"
    using assms(3) by (auto simp: PrepareBenchmarkPlan_def Let_def split: if_splits)
  have "scenario_validate (bp_AllowHighConcurrency q) (bp_CacheMode q) s = None"
    using scenarios_validate_ok [OF plan_Validate_ok(3) [OF v(1)]] assms(1) v(2) by (simp add: list_all_iff)
  with assms(2) v(3) show False by (simp add: scenario_validate_def split: if_splits)
qed

text \<open>
  The flag \<open>--allow-high-concurrency\<close> has no effect on a plan file: a plan that declares a concurrency above
  the default without allowing it itself is refused while it is loaded, whatever the flags are.
\<close>

theorem allow_high_concurrency_ignored:
  assumes "FlagSet_Parse bench_flag_set arguments default_bench_flags = Inr (f, rest)" and "fb_plan f \<noteq> []"
    and "cv_plan_file w (fb_plan f) = Some body" and "cv_plan_decode w body = Some p"
    and "s \<in> set (bp_Scenarios p)" and "bs_Concurrency s > defaultBenchmarkConcurrency" and "\<not> bp_AllowHighConcurrency p"
  shows "\<exists>e. runBenchmark w arguments st = (st, Some (CliPlan e))"
proof -
  let ?p1 = "if bp_MaxTokens p = 0 then p\<lparr>bp_MaxTokens := DefaultMaxTokens\<rparr> else p"
  let ?p2 = "if bp_RequestTimeoutMS ?p1 = 0 then ?p1\<lparr>bp_RequestTimeoutMS := defaultBenchmarkTimeoutMS\<rparr> else ?p1"
  let ?p3 = "if bp_RunID ?p2 = [] then ?p2\<lparr>bp_RunID := format_stamp (cv_now w)\<rparr> else ?p2"
  have "\<exists>e. snd (PrepareBenchmarkPlan (cv_perm w) ?p3) = Some e"
    using assms(5-7) by (intro high_concurrency_refused [of s]) simp_all
  then obtain e where "snd (PrepareBenchmarkPlan (cv_perm w) ?p3) = Some e" by blast
  then have "bench_load w f = Inl e"
    using assms(2-4) unfolding bench_load_def LoadBenchmarkPlan_def Let_def by (simp add: split_beta)
  then show ?thesis using assms(1) by (simp add: runBenchmark_def bench_start_def)
qed

subsection \<open>The comparison\<close>

text \<open>
  A comparison that succeeds prints the Markdown it writes, beside the JSON of the same report; the arms of the
  gateway are those of the report files when these are given, and empty otherwise; any other outcome prints nothing.
\<close>

theorem compare_output:
  assumes "FlagSet_Parse compare_flag_set arguments default_compare_flags = Inr (f, rest)" and "runCompare w arguments st = (st', err)"
  shows "if err = None
    then \<exists>dir report. compare_report w f = Inr report \<and> io_out st' = io_out st @ comparison_Markdown report
      \<and> io_artifacts st' = io_artifacts st @ [(path_Join [dir, ''comparison.json''], ComparisonJSON report),
          (path_Join [dir, ''comparison.md''], MarkdownText (comparison_Markdown report))]
      \<and> (if fk_baselineReports f = [] then cr_BaselineGateway report = zero_GatewayArm \<and> cr_TreatmentGateway report = zero_GatewayArm
         else CompareGatewayReportFiles (cv_compare w) (fk_baselineReports f) (fk_treatmentReports f) =
           Inr (cr_BaselineGateway report, cr_TreatmentGateway report))
    else io_out st' = io_out st"
proof -
  have gateway: "if fk_baselineReports f = [] then cr_BaselineGateway report = zero_GatewayArm \<and> cr_TreatmentGateway report = zero_GatewayArm
      else CompareGatewayReportFiles (cv_compare w) (fk_baselineReports f) (fk_treatmentReports f) =
        Inr (cr_BaselineGateway report, cr_TreatmentGateway report)" if "compare_report w f = Inr report" for report
  proof -
    obtain r where r: "CompareBenchmarkFiles (cv_compare w) (cv_rand w) (fk_baseline f) (fk_treatment f) (fk_bootstrap f) (fk_seed f) = Inr r"
      using \<open>compare_report w f = Inr report\<close> by (auto simp: compare_report_def split: sum.splits)
    have "cr_BaselineGateway r = zero_GatewayArm" "cr_TreatmentGateway r = zero_GatewayArm"
      using r by (auto simp: CompareBenchmarkFiles_def Let_def split: if_splits sum.splits prod.splits)
    with r \<open>compare_report w f = Inr report\<close> show ?thesis by (auto simp: compare_report_def split: if_splits sum.splits)
  qed
  have files: "if e = None then io_out s' = io_out st @ comparison_Markdown report
      \<and> io_artifacts s' = io_artifacts st @ [(path_Join [dir, ''comparison.json''], ComparisonJSON report),
          (path_Join [dir, ''comparison.md''], MarkdownText (comparison_Markdown report))]
    else io_out s' = io_out st" if "compare_files w dir report st = (s', e)" for dir report s' e
    using that by (auto simp: compare_files_def Let_def put_artifact_def say_def print_out_def split: if_splits)
  show ?thesis
  proof (cases "compare_report w f")
    case (Inl e)
    with assms show ?thesis by (auto simp: runCompare_def)
  next
    case (Inr report)
    with assms obtain dir where "compare_files w dir report st = (st', err)" by (auto simp: runCompare_def)
    with files Inr gateway [OF Inr] show ?thesis by (cases err) fastforce+
  qed
qed

end
