(* ===== verification/Spec2Isabelle.thy ===== *)
theory Spec2Isabelle
  imports Gateway_Runs Render_Client Gateway_Main Kubernetes_Api Background_Loops Metrics_Exposition Decision_Headers Bench_Cli
begin

text \<open>
  FishMesh: a gateway that routes LLM inference requests to vLLM backends. This development models the
  Go code under \<open>src/internal\<close> and the three commands under \<open>src/cmd\<close> and proves what makes them correct.

  \<^bold>\<open>The program.\<close> A request enters the gateway (\<open>gateway\<close>), takes a permit (\<open>admission\<close>), has its body read
  within a bound, and asks the request path (\<open>requestpath\<close>) for a lease on a backend. The request path
  takes the membership from \<open>discovery\<close>, drops backends whose \<open>circuit\<close> is open, adds load samples
  (\<open>observation\<close>), and in KV-aware mode renders the prompt to tokens (\<open>tokenization\<close>), asks the KV index
  which backend holds the longest cached prefix (\<open>kvcache\<close>) and estimates the time to the first token
  (\<open>prediction\<close>). The strategy (\<open>routing\<close>) then chooses. The gateway forwards the request with the
  backend's client (\<open>transport\<close>), copies the response stream, completes the lease, which settles the
  circuit and the in-flight counters, and releases the permit. A tuner moves the admission target, and
  the metrics publish what happened. At start-up \<open>config\<close> reads the environment and \<open>cmd/fishmesh-gateway\<close>
  builds the components from it and runs them until a signal or a failing listener. \<open>llmd\<close> offers the
  session-key strategy as a scheduler plugin, which \<open>cmd/fishmesh-epp\<close> registers, and \<open>workload/client\<close> with
  \<open>cmd/fishmesh-client\<close> is the external client that chats, measures a deployment and compares runs.

  \<^bold>\<open>The theories.\<close>
  \<^item> \<open>Go_Prelude\<close>: Go maps as association lists, \<open>int64\<close> with its wrap-around, \<open>time.Time\<close> and
    \<open>Duration\<close>, \<open>strings.TrimSpace\<close>, \<open>sort.Search\<close>, and the locale \<open>keyed_less\<close> of scans that pick a least
    element. \<open>Float64\<close>: IEEE binary64 arithmetic on rationals with round to nearest even. \<open>Sha256\<close>: the
    hash that orders the rendezvous candidates. \<open>Float_Order\<close>: the order Go sorts floats in. \<open>Go_Parse\<close>: the
    number, boolean and duration parsers of the standard library. \<open>Go_Format\<close>: its number, duration and time
    formats and \<open>path.Join\<close>. \<open>Go_Flag\<close>: the \<open>flag\<close> package. \<open>Go_Bufio\<close>: \<open>bufio.Writer\<close> over a file that may fail.
  \<^item> \<open>Backend\<close> (\<open>backend/backend.go\<close>), \<open>Circuit\<close> (\<open>circuit/\<close>), \<open>Admission\<close> (\<open>admission/\<close>: the controller
    and the tuner), \<open>Transport\<close> (\<open>transport/\<close>).
  \<^item> \<open>Observation\<close> and \<open>Prometheus\<close> (\<open>observation/\<close>, \<open>identity/\<close>), \<open>Discovery\<close> (\<open>discovery/\<close>).
  \<^item> \<open>Routing\<close> and \<open>Session_Key\<close> (\<open>routing/\<close>: the five strategies, the session table).
  \<^item> \<open>KV_Stream\<close>, \<open>KV_Store\<close>, \<open>KV_Service\<close> (\<open>kvcache/\<close>: the event streams with their sequence and replay
    protocol, the block index, the service over both).
  \<^item> \<open>Static_Estimator\<close>, \<open>Prediction\<close> (\<open>prediction/\<close>), \<open>Tokenization\<close> (\<open>tokenization/\<close>).
  \<^item> \<open>Requestpath\<close> (\<open>requestpath/\<close>), with \<open>Path_Leases\<close> on its counters under interleaving and
    \<open>Path_Decisions\<close> on its decisions and settlements.
  \<^item> \<open>Gateway_Metrics\<close> (\<open>gateway/metrics_impl.go\<close>), \<open>Forwarding\<close> and \<open>Gateway\<close> (\<open>gateway/proxy_impl.go\<close>),
    \<open>Gateway_Runs\<close> on whole requests and runs.
  \<^item> \<open>Config\<close> and \<open>Config_Loading\<close> (\<open>config/\<close>), \<open>Composition\<close> (\<open>cmd/fishmesh-gateway/composition.go\<close>,
    \<open>platform/kubernetes\<close>), \<open>Gateway_Main\<close> (\<open>cmd/fishmesh-gateway/main.go\<close> and \<open>cmd/fishmesh-epp\<close>),
    \<open>Render_Client\<close> (\<open>render_client.go\<close>), \<open>Llmd\<close> (\<open>llmd/\<close>).
  \<^item> \<open>Kubernetes_Api\<close>: the requests of \<open>identity/\<close> and \<open>discovery/\<close> to the Kubernetes API. \<open>Background_Loops\<close>: the
    goroutines of \<open>admission/\<close>, \<open>observation/\<close>, \<open>requestpath/\<close>, \<open>discovery/\<close> and \<open>kvcache/\<close>.
    \<open>Metrics_Exposition\<close>: \<open>gateway/metrics_protocol.go\<close>, the registry and a scrape of it, read by the benchmark.
    \<open>Decision_Headers\<close>: the headers of the gateway, read by the client.
  \<^item> \<open>Client\<close> (\<open>workload/client\<close>: requests, the SSE reader, the history file), \<open>Bench_Plan\<close> (\<open>bench.go\<close> and the
    generators of \<open>bench_impl.go\<close>), \<open>Bench_Metrics\<close> (\<open>bench_metrics.go\<close>), \<open>Bench_Report\<close>
    (\<open>bench_report_impl.go\<close>), \<open>Bench_Run\<close> (\<open>bench_impl.go\<close>), \<open>Bench_Compare\<close> (\<open>compare.go\<close>), \<open>Bench_Markdown\<close> (the
    reports as text).
  \<^item> \<open>Client_Cli\<close>, \<open>Client_Chat\<close> and \<open>Bench_Cli\<close> (\<open>cmd/fishmesh-client/main.go\<close>: the flags and the four commands,
    with the theorems on \<open>request\<close> and \<open>chat\<close> and on \<open>bench\<close> and \<open>compare\<close>).

  \<^bold>\<open>How code becomes definitions.\<close> A struct is a record, an enum a datatype, a handler a function from its
  state and its inputs to its result and its new state. Errors are values of a sum or an option type. A
  section under a mutex is one function; where sections of concurrent calls interleave, a step relation
  does (\<open>path_step\<close>, \<open>kv_step\<close> and the other relations named \<open>_step\<close>, with reachability beside them).
  Pointers that are shared, such as the in-flight counters, are indices into a heap of the state.
  Clock reads, randomness, the network and the libraries that are not under \<open>src/\<close> are arguments of the
  definitions that use them: the URL parser, the JSON codec, the block index of the KV library, the
  upstream's answer. Every map of Go that the code ranges over is an association list, and the
  theorems that could depend on the order hold for every order.

  \<^bold>\<open>What is proved.\<close>
  \<^item> KV signal: a stream that reports a valid signal has indexed exactly the batches up to its position, unless
    a gap overwrote a fatal reason (then, still, a block of consecutive batches that ends there), a lookup finds
    the longest cached prefix, a valid match belongs to the stream that was looked up, and a replay restores
    validity.
  \<^item> Routing: strategies choose eligible backends only, hard-overloaded ones only when all are, the
    KV-aware choice is the least in cost and ID, the session table is bounded, and a removed backend remaps
    only its own keys.
  \<^item> Request path: decisions are sound, \<open>Select\<close> fails only for a named cause, in-flight counts are never
    above the outstanding leases under any interleaving and exact when calls do not overlap.
  \<^item> Gateway: a request leaves no permit and no lease behind whatever fails, capacity is never lost, a
    client that goes away does not count against a backend, the stream is copied in order and the first
    event is seen once however reads are cut, hop-by-hop headers stop here, and the series of a departed
    backend are removed exactly.
  \<^item> Numbers: float averages stay in range and failures open a circuit, for every accepted configuration but the
    NaN ones, which are singled out, the interpolated prefill estimate is within 11/8 ns of the exact
    one, coefficients are bounded, and body, token and table limits hold.
  \<^item> Start-up: an unset environment loads the defaults, a malformed value is never replaced by one, a
    configuration that was accepted fails to start only for one of a list of causes, among them two URLs the
    validation does not check, a failed start closes what it opened, and at most one DNS lookup of the Render host is in flight.
  \<^item> The process: a run that returns has closed what its start opened, each resource once and after the
    last request, a signal ends it once its requests have ended, the deadline ends it in any case, its background
    loops keep the invariants of their services and stop, the token of the service account goes to the
    configured API only, and every event that fails in the KV index is counted under its reason.
  \<^item> Between the programs: what the gateway writes into its headers and its metrics is what the client and
    the benchmark read, a scrape up to the 8 MiB the benchmark looks at.
  \<^item> Plugin: exactly the endpoint the strategy chose gets the score of a choice.
  \<^item> Load generator: a stream is a success only when it is drained to its end marker, a plan runs every
    scenario once, the records of a batch do not depend on the order in which requests finish, a run
    without an error has sent every planned request once with its input,
    percentiles are order statistics, and a comparison uses all records and measured values only.
  \<^item> Command line: flags are read back as they were given, a chat sends and keeps the whole conversation with
    the answers it received,
    conversations without a named history never share a file, colors only decorate, and the artifacts of a
    benchmark agree with each other, the JSONL file as far as its buffer reached the disk.
  \<^item> Behaviour that differs from what the code means to do is stated as a theorem too (a lost request after a
    reconcile race, an incomplete index published as valid, a ready endpoint that terminates and
    is published, an API URL that only the start refuses, a count, a profile time and a body limit that
    overflow at their boundary, memory figures of a run that stay those of its first segment, prompts meant to
    differ that coincide, a listener failure that exits with status 0, a chat that an empty answer ends, a
    flag that comes too late, a table cut by its own lines, a namespace that leaves its path).

  \<^bold>\<open>Interfaces.\<close> The locales \<open>circuit_contract\<close>, \<open>cache_store_contract\<close>, \<open>strategy_contract\<close>,
  \<open>tokenizer_contract\<close>, \<open>background_loop\<close> and \<open>keyed_less\<close> state what one component relies on from another, and
  \<open>run_invariant\<close> what the record writer must keep for a whole benchmark run to keep it; each is interpreted on
  the definitions of the model.

  \<^bold>\<open>Bounds.\<close> Loops over data are structural or have a measure. The copy of a response is defined on the list
  of reads the upstream produces; the theorems on it assume only that one of the reads ends the body.

  \<^bold>\<open>Not modelled.\<close> Goroutine scheduling inside the standard library, the TLS setup of the Kubernetes client,
  the sample sums of histograms and the text format of the Prometheus library, the ZeroMQ socket, the JSON codec
  and the HTTP wire format are I/O or library code: their outcomes are arguments. The llm-d runner that
  \<open>cmd/fishmesh-epp\<close> starts is third-party code. Of the log only what \<open>main.go\<close> writes is modelled, and of the
  client library not the printed form of its decision headers. The in-flight counters (\<open>atomic.Int64\<close>) are unbounded
  integers, a selection reads the state of its matches once where the code reads it per backend, and the process is
  taken from the moment its signal handler is installed, with \<open>runtime.Close\<close> returning.
\<close>

end
